(* ===== verification/Prelude.thy ===== *)
theory Prelude
  imports Main "HOL-Library.Word" "HOL-Library.Monad_Syntax"
begin

text \<open>
  Shared vocabulary of the development: the machine types of the C++ sources, the byte
  orders of \<open>lldb-enumerations.h\<close>, the platform an LLDB binary is built for, and the generic
  facts on byte lists, characters and the option monad that the component theories share.

  Conventions used by every component theory:
  \<^item> a fixed-width C++ integer is a \<open>word\<close>; a size, an index or an offset that the code keeps
    within a buffer is a \<open>nat\<close>;
  \<^item> \<open>None\<close> of a result type \<open>'a option\<close> whose definition says so is undefined behaviour
    of the C++ program (an out-of-range access, a shift by at least the width); it is
    propagated by the option monad. A null pointer is \<open>None\<close> of an inner option;
  \<^item> an output parameter is an extra component of the result.
\<close>

section \<open>Machine types\<close>

type_synonym u8 = "8 word"
type_synonym u16 = "16 word"
type_synonym u32 = "32 word"
type_synonym u64 = "64 word"

unbundle bit_operations_syntax

named_theorems bytes "evaluation of byte lists read as numbers"
named_theorems window "what a buffer window contains after an operation"

definition UINT64_MAX :: nat where
  "UINT64_MAX = 2 ^ 64 - 1"

definition UINT32_MAX :: nat where
  "UINT32_MAX = 2 ^ 32 - 1"

abbreviation LLDB_INVALID_ADDRESS :: nat where
  "LLDB_INVALID_ADDRESS \<equiv> UINT64_MAX"

datatype lazy_bool = eLazyBoolCalculate | eLazyBoolNo | eLazyBoolYes

datatype byte_order = eByteOrderInvalid | eByteOrderBig | eByteOrderPDP | eByteOrderLittle

section \<open>Bytes read as numbers\<close>

text \<open>The reference reading of a byte list, least or most significant byte first.\<close>

primrec le_nat :: "u8 list \<Rightarrow> nat" where
  "le_nat [] = 0"
| "le_nat (b # bs) = unat b + 256 * le_nat bs"

definition be_nat :: "u8 list \<Rightarrow> nat" where
  "be_nat bs = le_nat (rev bs)"

text \<open>The value of a byte list under a byte order: big endian or not.\<close>

definition order_nat :: "byte_order \<Rightarrow> u8 list \<Rightarrow> nat" where
  "order_nat bo bs = (if bo = eByteOrderBig then be_nat bs else le_nat bs)"

lemma u8_bound [simp]: "unat (b :: u8) < 256"
proof -
  have "unat b < 2 ^ LENGTH(8)" by (rule unsigned_less)
  then show ?thesis by simp
qed

lemma le_nat_append: "le_nat (xs @ ys) = le_nat xs + 256 ^ length xs * le_nat ys"
  by (induction xs) (simp_all add: algebra_simps)

lemma le_nat_bound: "le_nat bs < 256 ^ length bs"
proof (induction bs)
  case Nil
  then show ?case by simp
next
  case (Cons b bs)
  have "unat b + 256 * le_nat bs < 256 + 256 * le_nat bs"
    by simp
  also have "\<dots> \<le> 256 * 256 ^ length bs"
    using Cons.IH by simp
  finally show ?case by simp
qed

lemma be_nat_bound: "be_nat bs < 256 ^ length bs"
  using le_nat_bound [of "rev bs"] by (simp add: be_nat_def)

lemma be_nat_simps [bytes]:
  "be_nat [] = 0"
  "be_nat (bs @ [b]) = 256 * be_nat bs + unat b"
  by (simp_all add: be_nat_def)

lemma order_nat_bound: "order_nat bo bs < 256 ^ length bs"
  by (simp add: order_nat_def le_nat_bound be_nat_bound)

text \<open>The bytes of a number, least significant first.\<close>

primrec nat_le_bytes :: "nat \<Rightarrow> nat \<Rightarrow> u8 list" where
  "nat_le_bytes 0 n = []"
| "nat_le_bytes (Suc k) n = word_of_nat n # nat_le_bytes k (n div 256)"

lemma length_nat_le_bytes [simp]: "length (nat_le_bytes k n) = k"
  by (induction k arbitrary: n) simp_all

lemma unat_of_nat_u8 [simp]: "unat (word_of_nat n :: u8) = n mod 256"
  by (simp add: unat_of_nat)

lemma le_nat_le_bytes: "le_nat (nat_le_bytes k n) = n mod 256 ^ k"
proof (induction k arbitrary: n)
  case 0
  then show ?case by simp
next
  case (Suc k)
  have "n mod 256 ^ Suc k = n mod 256 + 256 * (n div 256 mod 256 ^ k)"
    by (simp add: mod_mult2_eq)
  with Suc.IH show ?case by simp
qed

lemma nat_le_bytes_le_nat: "nat_le_bytes (length bs) (le_nat bs) = bs"
proof (induction bs)
  case Nil
  then show ?case by simp
next
  case (Cons b bs)
  have "unat (word_of_nat (unat b + 256 * le_nat bs) :: u8) = unat b"
    by (simp only: unat_of_nat_u8) simp
  then have "word_of_nat (unat b + 256 * le_nat bs) = b"
    by (simp only: word_unat_eq_iff)
  moreover have "(unat b + 256 * le_nat bs) div 256 = le_nat bs"
    by simp
  ultimately show ?case
    by (simp only: list.size add_Suc_right add_0_right nat_le_bytes.simps le_nat.simps Cons.IH)
qed

lemma word_eq_of_nat: "unat w = n \<Longrightarrow> w = word_of_nat n"
  by auto

lemma unat_ucast_u8: "unat (ucast (b :: u8) :: u64) = unat b"
proof -
  have "unat b < 2 ^ 64"
    by (rule less_trans [OF u8_bound]) simp
  then show ?thesis
    by (simp add: unsigned_ucast_eq take_bit_nat_eq_self)
qed

lemma unat_lt_64: "unat (v :: u64) < 2 ^ 64"
proof -
  have "unat v < 2 ^ LENGTH(64)" by (rule unsigned_less)
  then show ?thesis by simp
qed

lemma unat_ucast_mod: "unat (ucast v :: 'a::len word) = unat v mod 2 ^ LENGTH('a)"
  by (simp add: unsigned_ucast_eq take_bit_eq_mod)

section \<open>Shift-and-or accumulation\<close>

lemma or_push_bit_disjoint:
  fixes r x :: "'a::len word"
  assumes "unat r < 2 ^ n"
  shows "r OR push_bit n x = r + push_bit n x"
proof (rule disjunctive_add_eq_or [symmetric], rule bit_eqI)
  fix m
  have "take_bit n (unat r) = unat r"
    using assms by (simp add: take_bit_nat_eq_self_iff)
  moreover have "bit r m \<Longrightarrow> bit (unat r) m"
    by (simp add: bit_unsigned_iff bit_imp_le_length)
  ultimately have "bit r m \<Longrightarrow> m < n"
    by (metis bit_take_bit_iff)
  then show "bit (r AND push_bit n x) m = bit (0 :: 'a word) m"
    by (auto simp: bit_simps)
qed

lemma push8_or:
  fixes r :: u64 and b :: u8
  shows "push_bit 8 r OR ucast b = 256 * r + ucast b"
proof -
  have "unat (ucast b :: u64) < 2 ^ 8"
    by (simp add: unsigned_ucast_eq)
      (rule le_less_trans [OF take_bit_nat_less_eq_self], simp)
  then have "ucast b OR push_bit 8 r = ucast b + push_bit 8 r"
    by (rule or_push_bit_disjoint)
  then show ?thesis
    by (simp add: or.commute push_bit_eq_mult add.commute mult.commute)
qed

lemma foldl_be: "foldl (\<lambda>r b. push_bit 8 r OR ucast (b :: u8)) (word_of_nat n :: u64) bs
   = word_of_nat (n * 256 ^ length bs + be_nat bs)"
proof (induction bs arbitrary: n)
  case Nil
  then show ?case by (simp add: bytes)
next
  case (Cons b bs)
  have "be_nat (b # bs) = unat b * 256 ^ length bs + be_nat bs"
    by (simp add: be_nat_def le_nat_append)
  moreover have "push_bit 8 (word_of_nat n :: u64) OR ucast b = word_of_nat (n * 256 + unat b)"
    by (simp add: push8_or mult.commute) 
  ultimately show ?case
    by (simp add: Cons.IH algebra_simps del: of_nat_add of_nat_mult)
qed
section \<open>The platform\<close>

text \<open>
  The byte order and the pointer size of the machine the debugger runs on
  (\<open>endian::InlHostByteOrder()\<close> and \<open>sizeof(void *)\<close>, compile-time constants) and LLVM's bit
  tricks (\<open>llvm::ByteSwap_16\<close> and its kin, \<open>llvm::SignExtend64\<close>, which are not part of this
  repository) are parameters of the model, gathered in one record.
\<close>

record platform =
  InlHostByteOrder :: byte_order
  sizeof_ptr :: nat
  ByteSwap_16 :: "u16 \<Rightarrow> u16"
  ByteSwap_32 :: "u32 \<Rightarrow> u32"
  ByteSwap_64 :: "u64 \<Rightarrow> u64"
  SignExtend64 :: "u64 \<Rightarrow> nat \<Rightarrow> u64"
  write16le :: "u16 \<Rightarrow> u8 list"
  write16be :: "u16 \<Rightarrow> u8 list"
  write32le :: "u32 \<Rightarrow> u8 list"
  write32be :: "u32 \<Rightarrow> u8 list"
  write64le :: "u64 \<Rightarrow> u8 list"
  write64be :: "u64 \<Rightarrow> u8 list"

text \<open>What the code relies on: a supported host is little or big endian, a byte swap
  reverses the bytes of the value it is given, \<open>SignExtend64(x, B)\<close> reads the low \<open>B\<close>
  bits of \<open>x\<close> as a signed number, and the endian writes store the bytes of the value in
  the order they are named after.\<close>

definition writes_le :: "nat \<Rightarrow> ('a::len word \<Rightarrow> u8 list) \<Rightarrow> bool" where
  "writes_le k wr \<longleftrightarrow> (\<forall>v. length (wr v) = k \<and> le_nat (wr v) = unat v)"

definition writes_be :: "nat \<Rightarrow> ('a::len word \<Rightarrow> u8 list) \<Rightarrow> bool" where
  "writes_be k wr \<longleftrightarrow> (\<forall>v. length (wr v) = k \<and> be_nat (wr v) = unat v)"

definition platform_ok :: "platform \<Rightarrow> bool" where
  "platform_ok pl \<longleftrightarrow>
     InlHostByteOrder pl \<in> {eByteOrderBig, eByteOrderLittle} \<and>
     (\<forall>bs. length bs = 2 \<longrightarrow> ByteSwap_16 pl (word_of_nat (le_nat bs)) = word_of_nat (be_nat bs)) \<and>
     (\<forall>bs. length bs = 4 \<longrightarrow> ByteSwap_32 pl (word_of_nat (le_nat bs)) = word_of_nat (be_nat bs)) \<and>
     (\<forall>bs. length bs = 8 \<longrightarrow> ByteSwap_64 pl (word_of_nat (le_nat bs)) = word_of_nat (be_nat bs)) \<and>
     (\<forall>x B. 0 < B \<and> B \<le> 64 \<longrightarrow> SignExtend64 pl x B = word_of_int (signed_take_bit (B - 1) (uint x))) \<and>
     writes_le 2 (write16le pl) \<and> writes_be 2 (write16be pl) \<and>
     writes_le 4 (write32le pl) \<and> writes_be 4 (write32be pl) \<and>
     writes_le 8 (write64le pl) \<and> writes_be 8 (write64be pl)"

text \<open>Two concrete platforms, used by the witnesses.\<close>

definition swap_bytes :: "nat \<Rightarrow> nat \<Rightarrow> nat" where
  "swap_bytes k n = be_nat (nat_le_bytes k n)"

definition make_platform :: "byte_order \<Rightarrow> platform" where
  "make_platform bo =
     \<lparr>InlHostByteOrder = bo,
      sizeof_ptr = 8,
      ByteSwap_16 = (\<lambda>w. word_of_nat (swap_bytes 2 (unat w))),
      ByteSwap_32 = (\<lambda>w. word_of_nat (swap_bytes 4 (unat w))),
      ByteSwap_64 = (\<lambda>w. word_of_nat (swap_bytes 8 (unat w))),
      SignExtend64 = (\<lambda>x B. word_of_int (signed_take_bit (B - 1) (uint x))),
      write16le = (\<lambda>w. nat_le_bytes 2 (unat w)),
      write16be = (\<lambda>w. rev (nat_le_bytes 2 (unat w))),
      write32le = (\<lambda>w. nat_le_bytes 4 (unat w)),
      write32be = (\<lambda>w. rev (nat_le_bytes 4 (unat w))),
      write64le = (\<lambda>w. nat_le_bytes 8 (unat w)),
      write64be = (\<lambda>w. rev (nat_le_bytes 8 (unat w)))\<rparr>"

abbreviation x86_64 :: platform where
  "x86_64 \<equiv> make_platform eByteOrderLittle"

abbreviation s390x :: platform where
  "s390x \<equiv> make_platform eByteOrderBig"

lemma unat_word_of_le_nat:
  assumes "2 ^ LENGTH('a) = (256 :: nat) ^ length bs"
  shows "unat (word_of_nat (le_nat bs) :: 'a::len word) = le_nat bs"
  using assms le_nat_bound [of bs] by (simp add: unat_of_nat)

lemma swap_bytes_le_nat: "length bs = k \<Longrightarrow> swap_bytes k (le_nat bs) = be_nat bs"
  using nat_le_bytes_le_nat [of bs] by (auto simp: swap_bytes_def)

lemma make_platform_writes:
  assumes "2 ^ LENGTH('a::len) = (256 :: nat) ^ k"
  shows "writes_le k (\<lambda>w :: 'a word. nat_le_bytes k (unat w))"
    and "writes_be k (\<lambda>w :: 'a word. rev (nat_le_bytes k (unat w)))"
proof -
  have "unat w < 2 ^ LENGTH('a)" for w :: "'a word"
    by (rule unsigned_less)
  then have "unat w < 256 ^ k" for w :: "'a word"
    by (simp only: assms)
  then show "writes_le k (\<lambda>w :: 'a word. nat_le_bytes k (unat w))"
    and "writes_be k (\<lambda>w :: 'a word. rev (nat_le_bytes k (unat w)))"
    by (simp_all add: writes_le_def writes_be_def be_nat_def le_nat_le_bytes)
qed

lemma make_platform_ok:
  "bo = eByteOrderBig \<or> bo = eByteOrderLittle \<Longrightarrow> platform_ok (make_platform bo)"
  by (auto simp: platform_ok_def make_platform_def unat_word_of_le_nat swap_bytes_le_nat
      make_platform_writes)

lemma x86_64_ok: "platform_ok x86_64" and s390x_ok: "platform_ok s390x"
  by (simp_all add: make_platform_ok)

section \<open>Characters\<close>

text \<open>The value of a \<open>char\<close>, which is signed on every platform LLDB supports.\<close>

definition char_val :: "char \<Rightarrow> int" where
  "char_val c = (let n = int (of_char c) in if n < 128 then n else n - 256)"

definition char_of_u8 :: "u8 \<Rightarrow> char" where
  "char_of_u8 w = char_of (unat w)"

definition u8_of_char :: "char \<Rightarrow> u8" where
  "u8_of_char c = word_of_nat (of_char c)"

lemma char_of_u8_of_char [simp]: "char_of_u8 (u8_of_char c) = c"
  by (simp add: char_of_u8_def u8_of_char_def)

lemma u8_of_char_of_u8 [simp]: "u8_of_char (char_of_u8 w) = w"
  by (simp add: char_of_u8_def u8_of_char_def)

text \<open>The character classes of the C library, in the C locale.\<close>

definition isspace :: "char \<Rightarrow> bool" where
  "isspace c \<longleftrightarrow> c = CHR '' '' \<or> (let n = (of_char c :: nat) in 9 \<le> n \<and> n \<le> 13)"

definition isdigit :: "char \<Rightarrow> bool" where
  "isdigit c \<longleftrightarrow> (let n = (of_char c :: nat) in 48 \<le> n \<and> n \<le> 57)"

definition isxdigit :: "char \<Rightarrow> bool" where
  "isxdigit c \<longleftrightarrow> isdigit c \<or>
     (let n = (of_char c :: nat) in 65 \<le> n \<and> n \<le> 70 \<or> 97 \<le> n \<and> n \<le> 102)"

text \<open>Prefix and suffix of a string around the first occurrence of a character, as
  \<open>llvm::StringRef::split\<close> returns them: the whole string and nothing if there is none.\<close>

definition split_at :: "char \<Rightarrow> string \<Rightarrow> string \<times> string" where
  "split_at c s =
     (takeWhile (\<lambda>x. x \<noteq> c) s,
      case dropWhile (\<lambda>x. x \<noteq> c) s of [] \<Rightarrow> [] | _ # t \<Rightarrow> t)"

lemma split_at_append [simp]: "c \<notin> set a \<Longrightarrow> split_at c (a @ c # b) = (a, b)"
  by (induction a) (auto simp: split_at_def)

lemma split_at_none [simp]: "c \<notin> set a \<Longrightarrow> split_at c a = (a, [])"
  by (induction a) (auto simp: split_at_def)

section \<open>Lists and the option monad\<close>

lemma bind_eq_Some [simp]:
  "(m \<bind> f = Some y) \<longleftrightarrow> (\<exists>x. m = Some x \<and> f x = Some y)"
  by (cases m) simp_all

lemma take_drop_nth: "i < length xs \<Longrightarrow> drop i xs = xs ! i # drop (Suc i) xs"
  by (simp add: Cons_nth_drop_Suc)

section \<open>Ordered maps\<close>

text \<open>A \<open>std::map\<close> with integer keys is the list of its entries in key order:
  \<open>m[k] = v\<close>, \<open>m.erase(m.find(k))\<close> and the position of \<open>m.upper_bound(k)\<close>. \<open>m.find(k)\<close> is
  \<open>map_of m k\<close>.\<close>

definition map_put :: "nat \<Rightarrow> 'v \<Rightarrow> (nat \<times> 'v) list \<Rightarrow> (nat \<times> 'v) list" where
  "map_put k v m =
     takeWhile (\<lambda>e. fst e < k) m @ (k, v) # dropWhile (\<lambda>e. fst e \<le> k) m"

definition map_erase :: "nat \<Rightarrow> (nat \<times> 'v) list \<Rightarrow> (nat \<times> 'v) list" where
  "map_erase k m = filter (\<lambda>e. fst e \<noteq> k) m"

definition map_upper_bound :: "nat \<Rightarrow> (nat \<times> 'v) list \<Rightarrow> nat" where
  "map_upper_bound k m = length (takeWhile (\<lambda>e. fst e \<le> k) m)"

lemma set_map_put: "set (map_put k v m) \<subseteq> insert (k, v) (set m)"
  by (auto simp: map_put_def dest: set_takeWhileD set_dropWhileD)

lemma map_of_map_put [simp]: "map_of (map_put k v m) k = Some v"
proof -
  have "map_of (takeWhile (\<lambda>e. fst e < k) m) k = None"
    by (auto simp: map_of_eq_None_iff dest: set_takeWhileD)
  then show ?thesis
    by (simp add: map_put_def map_add_def)
qed

text \<open>In a map whose keys increase, an update changes one key.\<close>

definition map_sorted :: "(nat \<times> 'v) list \<Rightarrow> bool" where
  "map_sorted m \<longleftrightarrow> sorted_wrt (<) (map fst m)"

lemma map_sorted_Nil [simp]: "map_sorted []"
  by (simp add: map_sorted_def)

lemma map_sorted_Cons: "map_sorted ((k, v) # m) \<longleftrightarrow> (\<forall>x \<in> fst ` set m. k < x) \<and> map_sorted m"
  by (simp add: map_sorted_def)

lemma map_put_Nil [simp]: "map_put k v [] = [(k, v)]"
  by (simp add: map_put_def)

lemma map_put_Cons:
  "map_sorted ((k', v') # m) \<Longrightarrow> map_put k v ((k', v') # m) =
    (if k' < k then (k', v') # map_put k v m else if k' = k then (k, v) # m else (k, v) # (k', v') # m)"
  by (cases m) (auto simp: map_put_def map_sorted_Cons dropWhile_eq_self_iff)

lemma map_put_keys: "fst ` set (map_put k v m) \<subseteq> insert k (fst ` set m)"
  using set_map_put [of k v m] by force

lemma map_sorted_put: "map_sorted m \<Longrightarrow> map_sorted (map_put k v m)"
proof (induction m)
  case (Cons e m)
  then show ?case
    using map_put_keys [of k v m]
    by (cases e) (auto simp: map_put_Cons map_sorted_Cons split: if_splits; fastforce)
qed (simp add: map_sorted_Cons)

lemma map_of_put: "map_sorted m \<Longrightarrow> map_of (map_put k v m) = (map_of m)(k \<mapsto> v)"
proof (induction m)
  case (Cons e m)
  then show ?case
    by (cases e) (auto simp: map_put_Cons map_sorted_Cons fun_eq_iff)
qed simp

end
