(* ===== verification/DataExtractor.thy ===== *)
theory DataExtractor
  imports Prelude
begin

text \<open>
  \<open>DataExtractor\<close> (source/Utility/DataExtractor.cpp, include/lldb/Utility/DataExtractor.h):
  a window on a byte buffer with a byte order and an address size, from which integers,
  C strings and LEB128 numbers are read at an offset that the read advances. Every other
  parser of the debugger (DWARF, call frame information, memory reads) goes through it.

  Offsets are \<open>nat\<close>: the code only ever adds to an offset what it has just checked to lie
  inside the window, so no addition wraps. Assertions are those of a release build
  (\<open>NDEBUG\<close>), where they do nothing; those of \<open>CopyByteOrderedData\<close> are kept as \<open>copy_asserts\<close>. A left shift of a signed value is the two's complement
  shift; a shift by at least the width is undefined behaviour.
\<close>

section \<open>The object\<close>

text \<open>
  \<open>de_start\<close> holds the bytes from \<open>m_start\<close> up to \<open>m_end\<close> (\<open>None\<close> when \<open>m_start\<close> is null);
  \<open>de_data_sp\<close> the contents of the shared buffer, if any, and \<open>de_shared_offset\<close> the distance
  of \<open>m_start\<close> from its first byte.
\<close>

record data_extractor =
  de_start :: "u8 list option"
  de_byte_order :: byte_order
  de_addr_size :: nat
  de_data_sp :: "u8 list option"
  de_shared_offset :: nat
  de_target_byte_size :: nat

definition de_bytes :: "data_extractor \<Rightarrow> u8 list" where
  "de_bytes d = (case de_start d of None \<Rightarrow> [] | Some w \<Rightarrow> w)"

definition GetByteSize :: "data_extractor \<Rightarrow> nat" where
  "GetByteSize d = length (de_bytes d)"

definition new_DataExtractor :: "platform \<Rightarrow> data_extractor" where
  "new_DataExtractor pl =
     \<lparr>de_start = None, de_byte_order = InlHostByteOrder pl, de_addr_size = sizeof_ptr pl,
      de_data_sp = None, de_shared_offset = 0, de_target_byte_size = 1\<rparr>"

text \<open>A pointer to foreign bytes is the list of the bytes it points to.\<close>

definition DataExtractor_of_bytes :: "u8 list \<Rightarrow> byte_order \<Rightarrow> nat \<Rightarrow> nat \<Rightarrow> data_extractor" where
  "DataExtractor_of_bytes data endian addr_size target_byte_size =
     \<lparr>de_start = Some data, de_byte_order = endian, de_addr_size = addr_size,
      de_data_sp = None, de_shared_offset = 0, de_target_byte_size = target_byte_size\<rparr>"

definition assign :: "data_extractor \<Rightarrow> data_extractor \<Rightarrow> data_extractor" where
  "assign d rhs = d\<lparr>de_start := de_start rhs, de_byte_order := de_byte_order rhs,
     de_addr_size := de_addr_size rhs, de_data_sp := de_data_sp rhs,
     de_shared_offset := de_shared_offset rhs\<rparr>"

definition Clear :: "platform \<Rightarrow> data_extractor \<Rightarrow> data_extractor" where
  "Clear pl d = d\<lparr>de_start := None, de_byte_order := InlHostByteOrder pl,
     de_addr_size := sizeof_ptr pl, de_data_sp := None\<rparr>"

definition GetSharedDataOffset :: "data_extractor \<Rightarrow> nat" where
  "GetSharedDataOffset d =
     (case de_start d of
        None \<Rightarrow> 0
      | Some _ \<Rightarrow>
          (case de_data_sp d of
             None \<Rightarrow> 0
           | Some data_bytes \<Rightarrow> if data_bytes = [] then 0 else de_shared_offset d))"

section \<open>Bounds\<close>

definition ValidOffset :: "data_extractor \<Rightarrow> nat \<Rightarrow> bool" where
  "ValidOffset d offset \<longleftrightarrow> offset < GetByteSize d"

definition BytesLeft :: "data_extractor \<Rightarrow> nat \<Rightarrow> nat" where
  "BytesLeft d offset =
     (let n = GetByteSize d in if n > offset then n - offset else 0)"

definition ValidOffsetForDataOfSize :: "data_extractor \<Rightarrow> nat \<Rightarrow> nat \<Rightarrow> bool" where
  "ValidOffsetForDataOfSize d offset len \<longleftrightarrow> len \<le> BytesLeft d offset"

text \<open>
  \<open>PeekData\<close> returns the pointer \<open>m_start + offset\<close>, here the \<open>len\<close> bytes the caller may
  read through it. The pointer is null when the check fails, and when \<open>m_start\<close> itself is
  null and the offset is 0 (a read of no bytes from an extractor without data).
\<close>

definition PeekData :: "data_extractor \<Rightarrow> nat \<Rightarrow> nat \<Rightarrow> u8 list option" where
  "PeekData d offset len =
     (if ValidOffsetForDataOfSize d offset len
      then (case de_start d of
              None \<Rightarrow> if offset = 0 then None else Some []
            | Some w \<Rightarrow> Some (take len (drop offset w)))
      else None)"

definition GetData :: "data_extractor \<Rightarrow> nat \<Rightarrow> nat \<Rightarrow> u8 list option \<times> nat" where
  "GetData d offset len =
     (case PeekData d offset len of
        Some ptr \<Rightarrow> (Some ptr, offset + len)
      | None \<Rightarrow> (None, offset))"

section \<open>Attaching data\<close>

definition SetData_bytes ::
  "data_extractor \<Rightarrow> u8 list option \<Rightarrow> nat \<Rightarrow> byte_order \<Rightarrow> data_extractor \<times> nat" where
  "SetData_bytes d bytes len endian =
     (let d = d\<lparr>de_byte_order := endian, de_data_sp := None\<rparr>;
          d = (case bytes of
                 None \<Rightarrow> d\<lparr>de_start := None\<rparr>
               | Some p \<Rightarrow> if len = 0 then d\<lparr>de_start := None\<rparr>
                           else d\<lparr>de_start := Some (take len p)\<rparr>)
      in (d, GetByteSize d))"

definition SetData_sp ::
  "data_extractor \<Rightarrow> u8 list option \<Rightarrow> nat \<Rightarrow> nat \<Rightarrow> data_extractor \<times> nat" where
  "SetData_sp d data_sp data_offset data_length =
     (let d = d\<lparr>de_start := None\<rparr>;
          d = (if data_length > 0
               then let d = d\<lparr>de_data_sp := data_sp\<rparr>
                    in case data_sp of
                         None \<Rightarrow> d
                       | Some buf \<Rightarrow>
                           let data_size = length buf
                           in if data_offset < data_size
                              then let bytes_left = data_size - data_offset;
                                       n = (if data_length \<le> bytes_left then data_length
                                            else bytes_left)
                                   in d\<lparr>de_start := Some (take n (drop data_offset buf)),
                                        de_shared_offset := data_offset\<rparr>
                              else d
               else d);
          new_size = GetByteSize d;
          d = (if new_size = 0 then d\<lparr>de_data_sp := None\<rparr> else d)
      in (d, new_size))"

definition SetData_from ::
  "data_extractor \<Rightarrow> data_extractor \<Rightarrow> nat \<Rightarrow> nat \<Rightarrow> data_extractor \<times> nat" where
  "SetData_from d data data_offset data_length =
     (let d = d\<lparr>de_addr_size := de_addr_size data\<rparr>
      in case de_data_sp data of
           Some buf \<Rightarrow>
             SetData_sp (d\<lparr>de_byte_order := de_byte_order data\<rparr>) (Some buf)
               (GetSharedDataOffset data + data_offset) data_length
         | None \<Rightarrow>
             if ValidOffset data data_offset
             then let data_length = (if data_length > GetByteSize data - data_offset
                                     then GetByteSize data - data_offset else data_length)
                  in SetData_bytes d (Some (drop data_offset (de_bytes data))) data_length
                       (de_byte_order data)
             else (d, 0))"

definition DataExtractor_of_sp ::
  "u8 list option \<Rightarrow> byte_order \<Rightarrow> nat \<Rightarrow> nat \<Rightarrow> data_extractor" where
  "DataExtractor_of_sp data_sp endian addr_size target_byte_size =
     fst (SetData_sp
       \<lparr>de_start = None, de_byte_order = endian, de_addr_size = addr_size, de_data_sp = None,
        de_shared_offset = 0, de_target_byte_size = target_byte_size\<rparr>
       data_sp 0 UINT64_MAX)"

definition DataExtractor_sub :: "data_extractor \<Rightarrow> nat \<Rightarrow> nat \<Rightarrow> nat \<Rightarrow> data_extractor" where
  "DataExtractor_sub data offset len target_byte_size =
     (let d = \<lparr>de_start = None, de_byte_order = de_byte_order data,
               de_addr_size = de_addr_size data, de_data_sp = None, de_shared_offset = 0,
               de_target_byte_size = target_byte_size\<rparr>
      in if ValidOffset data offset
         then let bytes_available = GetByteSize data - offset;
                  len = (if len > bytes_available then bytes_available else len)
              in fst (SetData_from d data offset len)
         else d)"

text \<open>\<open>Copy\<close> makes \<open>dest\<close> refer to the shared buffer of the source, or to a fresh heap
  buffer with a copy of the window; \<open>Append\<close> (both forms) concatenates.\<close>

definition Copy :: "data_extractor \<Rightarrow> data_extractor \<Rightarrow> data_extractor \<times> nat" where
  "Copy d dest_data =
     (let dest_data = (case de_data_sp d of
            Some sp \<Rightarrow> fst (SetData_sp dest_data (Some sp) 0 UINT64_MAX)
          | None \<Rightarrow> fst (SetData_sp dest_data (Some (de_bytes d)) 0 UINT64_MAX))
      in (dest_data, GetByteSize d))"

definition Append :: "data_extractor \<Rightarrow> data_extractor \<Rightarrow> data_extractor \<times> bool" where
  "Append d rhs =
     (if de_byte_order rhs \<noteq> de_byte_order d then (d, False)
      else if GetByteSize rhs = 0 then (d, True)
      else if GetByteSize d = 0
      then let (d, n) = Copy rhs d in (d, n > 0)
      else (fst (SetData_sp d (Some (de_bytes d @ de_bytes rhs)) 0 UINT64_MAX), True))"

definition Append_buf :: "data_extractor \<Rightarrow> u8 list option \<Rightarrow> data_extractor \<times> bool" where
  "Append_buf d buf =
     (case buf of
        None \<Rightarrow> (d, False)
      | Some p \<Rightarrow>
          if length p = 0 then (d, True)
          else (fst (SetData_sp d (Some (de_bytes d @ p)) 0 UINT64_MAX), True))"

section \<open>Fixed-size integers\<close>

text \<open>A \<open>memcpy\<close> of the bytes at a pointer into an integer reads them in host order.\<close>

definition ReadInt16 :: "platform \<Rightarrow> u8 list \<Rightarrow> u16" where
  "ReadInt16 pl ptr = word_of_nat (order_nat (InlHostByteOrder pl) (take 2 ptr))"

definition ReadInt32 :: "platform \<Rightarrow> u8 list \<Rightarrow> u32" where
  "ReadInt32 pl ptr = word_of_nat (order_nat (InlHostByteOrder pl) (take 4 ptr))"

definition ReadInt64 :: "platform \<Rightarrow> u8 list \<Rightarrow> u64" where
  "ReadInt64 pl ptr = word_of_nat (order_nat (InlHostByteOrder pl) (take 8 ptr))"

definition ReadSwapInt16 :: "platform \<Rightarrow> u8 list \<Rightarrow> u16" where
  "ReadSwapInt16 pl ptr = ByteSwap_16 pl (ReadInt16 pl ptr)"

definition ReadSwapInt32 :: "platform \<Rightarrow> u8 list \<Rightarrow> u32" where
  "ReadSwapInt32 pl ptr = ByteSwap_32 pl (ReadInt32 pl ptr)"

definition ReadSwapInt64 :: "platform \<Rightarrow> u8 list \<Rightarrow> u64" where
  "ReadSwapInt64 pl ptr = ByteSwap_64 pl (ReadInt64 pl ptr)"

definition ReadMaxInt64 :: "u8 list \<Rightarrow> nat \<Rightarrow> byte_order \<Rightarrow> u64" where
  "ReadMaxInt64 data byte_size byte_order =
     (if byte_order = eByteOrderBig
      then foldl (\<lambda>res i. push_bit 8 res OR ucast (data ! i)) 0 [0..<byte_size]
      else foldl (\<lambda>res i. push_bit 8 res OR ucast (data ! (byte_size - 1 - i))) 0 [0..<byte_size])"

definition GetU8 :: "data_extractor \<Rightarrow> nat \<Rightarrow> u8 \<times> nat" where
  "GetU8 d offset =
     (case GetData d offset 1 of
        (Some data, offset) \<Rightarrow> (data ! 0, offset)
      | (None, offset) \<Rightarrow> (0, offset))"

definition GetU8_array :: "data_extractor \<Rightarrow> nat \<Rightarrow> nat \<Rightarrow> u8 list option \<times> nat" where
  "GetU8_array d offset count = GetData d offset count"

definition GetU16 :: "platform \<Rightarrow> data_extractor \<Rightarrow> nat \<Rightarrow> u16 \<times> nat" where
  "GetU16 pl d offset =
     (case GetData d offset 2 of
        (Some data, offset) \<Rightarrow>
          (if de_byte_order d \<noteq> InlHostByteOrder pl then ReadSwapInt16 pl data
           else ReadInt16 pl data, offset)
      | (None, offset) \<Rightarrow> (0, offset))"

definition GetU32 :: "platform \<Rightarrow> data_extractor \<Rightarrow> nat \<Rightarrow> u32 \<times> nat" where
  "GetU32 pl d offset =
     (case GetData d offset 4 of
        (Some data, offset) \<Rightarrow>
          (if de_byte_order d \<noteq> InlHostByteOrder pl then ReadSwapInt32 pl data
           else ReadInt32 pl data, offset)
      | (None, offset) \<Rightarrow> (0, offset))"

definition GetU64 :: "platform \<Rightarrow> data_extractor \<Rightarrow> nat \<Rightarrow> u64 \<times> nat" where
  "GetU64 pl d offset =
     (case GetData d offset 8 of
        (Some data, offset) \<Rightarrow>
          (if de_byte_order d \<noteq> InlHostByteOrder pl then ReadSwapInt64 pl data
           else ReadInt64 pl data, offset)
      | (None, offset) \<Rightarrow> (0, offset))"

text \<open>The array forms convert \<open>count\<close> consecutive values with one bounds check.\<close>

fun chunks :: "nat \<Rightarrow> nat \<Rightarrow> u8 list \<Rightarrow> u8 list list" where
  "chunks n 0 bs = []"
| "chunks n (Suc k) bs = take n bs # chunks n k (drop n bs)"

definition GetU16_array :: "platform \<Rightarrow> data_extractor \<Rightarrow> nat \<Rightarrow> nat \<Rightarrow> u16 list option \<times> nat" where
  "GetU16_array pl d offset count =
     (case GetData d offset (2 * count) of
        (Some src, offset) \<Rightarrow>
          (Some (map (if de_byte_order d \<noteq> InlHostByteOrder pl then ReadSwapInt16 pl
                      else ReadInt16 pl) (chunks 2 count src)), offset)
      | (None, offset) \<Rightarrow> (None, offset))"

definition GetU32_array :: "platform \<Rightarrow> data_extractor \<Rightarrow> nat \<Rightarrow> nat \<Rightarrow> u32 list option \<times> nat" where
  "GetU32_array pl d offset count =
     (case GetData d offset (4 * count) of
        (Some src, offset) \<Rightarrow>
          (Some (map (if de_byte_order d \<noteq> InlHostByteOrder pl then ReadSwapInt32 pl
                      else ReadInt32 pl) (chunks 4 count src)), offset)
      | (None, offset) \<Rightarrow> (None, offset))"

definition GetU64_array :: "platform \<Rightarrow> data_extractor \<Rightarrow> nat \<Rightarrow> nat \<Rightarrow> u64 list option \<times> nat" where
  "GetU64_array pl d offset count =
     (case GetData d offset (8 * count) of
        (Some src, offset) \<Rightarrow>
          (Some (map (if de_byte_order d \<noteq> InlHostByteOrder pl then ReadSwapInt64 pl
                      else ReadInt64 pl) (chunks 8 count src)), offset)
      | (None, offset) \<Rightarrow> (None, offset))"

text \<open>The unchecked reads are undefined outside the window.\<close>

definition read_unchecked :: "data_extractor \<Rightarrow> nat \<Rightarrow> nat \<Rightarrow> u8 list option" where
  "read_unchecked d offset len =
     (if offset + len \<le> GetByteSize d then Some (take len (drop offset (de_bytes d)))
      else None)"

definition GetU8_unchecked :: "data_extractor \<Rightarrow> nat \<Rightarrow> (u8 \<times> nat) option" where
  "GetU8_unchecked d offset =
     do { data \<leftarrow> read_unchecked d offset 1; Some (data ! 0, offset + 1) }"

definition GetU16_unchecked :: "platform \<Rightarrow> data_extractor \<Rightarrow> nat \<Rightarrow> (u16 \<times> nat) option" where
  "GetU16_unchecked pl d offset =
     do { data \<leftarrow> read_unchecked d offset 2;
          Some (if de_byte_order d = InlHostByteOrder pl then ReadInt16 pl data
                else ReadSwapInt16 pl data, offset + 2) }"

definition GetU32_unchecked :: "platform \<Rightarrow> data_extractor \<Rightarrow> nat \<Rightarrow> (u32 \<times> nat) option" where
  "GetU32_unchecked pl d offset =
     do { data \<leftarrow> read_unchecked d offset 4;
          Some (if de_byte_order d = InlHostByteOrder pl then ReadInt32 pl data
                else ReadSwapInt32 pl data, offset + 4) }"

definition GetU64_unchecked :: "platform \<Rightarrow> data_extractor \<Rightarrow> nat \<Rightarrow> (u64 \<times> nat) option" where
  "GetU64_unchecked pl d offset =
     do { data \<leftarrow> read_unchecked d offset 8;
          Some (if de_byte_order d = InlHostByteOrder pl then ReadInt64 pl data
                else ReadSwapInt64 pl data, offset + 8) }"

section \<open>Integers of a given size\<close>

definition GetMaxU64 :: "platform \<Rightarrow> data_extractor \<Rightarrow> nat \<Rightarrow> nat \<Rightarrow> u64 \<times> nat" where
  "GetMaxU64 pl d offset byte_size =
     (if byte_size = 1 then (let (v, offset) = GetU8 d offset in (ucast v, offset))
      else if byte_size = 2 then (let (v, offset) = GetU16 pl d offset in (ucast v, offset))
      else if byte_size = 4 then (let (v, offset) = GetU32 pl d offset in (ucast v, offset))
      else if byte_size = 8 then GetU64 pl d offset
      else (case GetData d offset byte_size of
              (None, offset) \<Rightarrow> (0, offset)
            | (Some data, offset) \<Rightarrow> (ReadMaxInt64 data byte_size (de_byte_order d), offset)))"

definition GetMaxU32 :: "platform \<Rightarrow> data_extractor \<Rightarrow> nat \<Rightarrow> nat \<Rightarrow> u32 \<times> nat" where
  "GetMaxU32 pl d offset byte_size =
     (let (v, offset) = GetMaxU64 pl d offset byte_size in (ucast v, offset))"

definition GetMaxU64_unchecked ::
  "platform \<Rightarrow> data_extractor \<Rightarrow> nat \<Rightarrow> nat \<Rightarrow> (u64 \<times> nat) option" where
  "GetMaxU64_unchecked pl d offset byte_size =
     (if byte_size = 1 then do { (v, offset) \<leftarrow> GetU8_unchecked d offset; Some (ucast v, offset) }
      else if byte_size = 2 then
        do { (v, offset) \<leftarrow> GetU16_unchecked pl d offset; Some (ucast v, offset) }
      else if byte_size = 4 then
        do { (v, offset) \<leftarrow> GetU32_unchecked pl d offset; Some (ucast v, offset) }
      else if byte_size = 8 then GetU64_unchecked pl d offset
      else do { data \<leftarrow> read_unchecked d offset byte_size;
                Some (ReadMaxInt64 data byte_size (de_byte_order d), offset + byte_size) })"

definition GetMaxS64 :: "platform \<Rightarrow> data_extractor \<Rightarrow> nat \<Rightarrow> nat \<Rightarrow> u64 \<times> nat" where
  "GetMaxS64 pl d offset byte_size =
     (let (u64, offset) = GetMaxU64 pl d offset byte_size
      in (SignExtend64 pl u64 (8 * byte_size), offset))"

text \<open>The number of bits below a bit field: an \<open>int32_t\<close>, computed in \<open>size_t\<close> arithmetic
  for big endian data.\<close>

definition bitfield_lsbcount :: "byte_order \<Rightarrow> nat \<Rightarrow> nat \<Rightarrow> nat \<Rightarrow> int" where
  "bitfield_lsbcount bo byte_size bitfield_bit_size bitfield_bit_offset =
     sint (if bo = eByteOrderBig
           then word_of_int (int byte_size * 8 - int bitfield_bit_offset - int bitfield_bit_size)
           else word_of_nat bitfield_bit_offset :: u32)"

definition GetMaxU64Bitfield ::
  "platform \<Rightarrow> data_extractor \<Rightarrow> nat \<Rightarrow> nat \<Rightarrow> nat \<Rightarrow> nat \<Rightarrow> (u64 \<times> nat) option" where
  "GetMaxU64Bitfield pl d offset byte_size bitfield_bit_size bitfield_bit_offset =
     (let (uval64, offset) = GetMaxU64 pl d offset byte_size
      in if bitfield_bit_size > 0
         then let lsbcount = bitfield_lsbcount (de_byte_order d) byte_size bitfield_bit_size
                               bitfield_bit_offset
              in if lsbcount \<ge> 64 \<or> bitfield_bit_size \<ge> 64 then None
                 else let uval64 = (if lsbcount > 0 then drop_bit (nat lsbcount) uval64
                                    else uval64);
                          bitfield_mask = push_bit bitfield_bit_size 1 - 1
                      in if bitfield_mask = 0 \<and> bitfield_bit_offset = 0 \<and> bitfield_bit_size = 64
                         then Some (uval64, offset)
                         else Some (uval64 AND bitfield_mask, offset)
         else Some (uval64, offset))"

definition GetMaxS64Bitfield ::
  "platform \<Rightarrow> data_extractor \<Rightarrow> nat \<Rightarrow> nat \<Rightarrow> nat \<Rightarrow> nat \<Rightarrow> (u64 \<times> nat) option" where
  "GetMaxS64Bitfield pl d offset byte_size bitfield_bit_size bitfield_bit_offset =
     (let (sval64, offset) = GetMaxS64 pl d offset byte_size
      in if bitfield_bit_size > 0
         then let lsbcount = bitfield_lsbcount (de_byte_order d) byte_size bitfield_bit_size
                               bitfield_bit_offset
              in if lsbcount \<ge> 64 \<or> bitfield_bit_size \<ge> 64 then None
                 else let sval64 = (if lsbcount > 0 then signed_drop_bit (nat lsbcount) sval64
                                    else sval64);
                          bitfield_mask = push_bit bitfield_bit_size 1 - 1;
                          sval64 = sval64 AND bitfield_mask
                      in Some (if sval64 AND push_bit (bitfield_bit_size - 1) 1 \<noteq> 0
                               then sval64 OR NOT bitfield_mask else sval64, offset)
         else Some (sval64, offset))"

definition GetAddress :: "platform \<Rightarrow> data_extractor \<Rightarrow> nat \<Rightarrow> u64 \<times> nat" where
  "GetAddress pl d offset = GetMaxU64 pl d offset (de_addr_size d)"

definition GetAddress_unchecked :: "platform \<Rightarrow> data_extractor \<Rightarrow> nat \<Rightarrow> (u64 \<times> nat) option" where
  "GetAddress_unchecked pl d offset = GetMaxU64_unchecked pl d offset (de_addr_size d)"

definition GetPointer :: "platform \<Rightarrow> data_extractor \<Rightarrow> nat \<Rightarrow> u64 \<times> nat" where
  "GetPointer pl d offset = GetMaxU64 pl d offset (de_addr_size d)"

section \<open>Raw bytes\<close>

text \<open>The swapping loops \<open>dst[i] = src[last - i]\<close>, over an index of 32 bits and a length of 64:
  from a length of \<open>2^32\<close> on the index wraps before it gets there, and the loop never ends.\<close>

partial_function (option) swap_loop :: "u32 \<Rightarrow> nat \<Rightarrow> nat \<Rightarrow> u8 list \<Rightarrow> u8 list \<Rightarrow> u8 list option" where
  "swap_loop i len last_index src dst =
     (if unat i < len then swap_loop (i + 1) len last_index src (dst @ [src ! (last_index - unat i)])
      else Some dst)"

text \<open>The bytes written to the destination (\<open>None\<close> when nothing is written), and their
  count; \<open>None\<close> as a whole when a loop does not end. The code asserts that what is swapped
  has 1, 2, 4, 8, 10, 16 or 32 bytes.\<close>

definition ExtractBytes ::
  "data_extractor \<Rightarrow> nat \<Rightarrow> nat \<Rightarrow> byte_order \<Rightarrow> (u8 list option \<times> nat) option" where
  "ExtractBytes d offset len dst_byte_order =
     (case PeekData d offset len of
        Some src \<Rightarrow>
          map_option (\<lambda>bs. (Some bs, len))
            (if dst_byte_order \<noteq> de_byte_order d then swap_loop 0 len (len - 1) src [] else Some src)
      | None \<Rightarrow> Some (None, 0))"

definition CopyData :: "data_extractor \<Rightarrow> nat \<Rightarrow> nat \<Rightarrow> u8 list option \<times> nat" where
  "CopyData d offset len =
     (case PeekData d offset len of
        Some src \<Rightarrow> (Some src, len)
      | None \<Rightarrow> (None, 0))"

text \<open>What \<open>CopyByteOrderedData\<close> asserts on entry (the destination is never null here). A build
  without assertions goes on, as the model does: a claim that relies on one of them assumes it.\<close>

definition copy_asserts :: "data_extractor \<Rightarrow> nat \<Rightarrow> nat \<Rightarrow> nat \<Rightarrow> byte_order \<Rightarrow> bool" where
  "copy_asserts d src_offset src_len dst_len dst_byte_order \<longleftrightarrow>
     ValidOffsetForDataOfSize d src_offset src_len \<and> 0 < src_len \<and>
     (de_byte_order d = eByteOrderBig \<or> de_byte_order d = eByteOrderLittle) \<and>
     0 < dst_len \<and> (dst_byte_order = eByteOrderBig \<or> dst_byte_order = eByteOrderLittle) \<and>
     (dst_byte_order = de_byte_order d \<or> dst_len \<in> {1, 2, 4, 8, 10, 16, 32})"

definition CopyByteOrderedData ::
  "data_extractor \<Rightarrow> nat \<Rightarrow> nat \<Rightarrow> nat \<Rightarrow> byte_order \<Rightarrow> (u8 list option \<times> nat) option" where
  "CopyByteOrderedData d src_offset src_len dst_len dst_byte_order =
     (if \<not> (dst_byte_order = eByteOrderBig \<or> dst_byte_order = eByteOrderLittle) \<or>
         \<not> (de_byte_order d = eByteOrderBig \<or> de_byte_order d = eByteOrderLittle)
      then Some (None, 0)
      else case PeekData d src_offset src_len of
             None \<Rightarrow> Some (None, 0)
           | Some src \<Rightarrow>
               if dst_len \<ge> src_len
               then let num_zeroes = dst_len - src_len;
                        value_bytes =
                          (if de_byte_order d = dst_byte_order then Some src
                           else swap_loop 0 src_len (src_len - 1) src [])
                    in map_option (\<lambda>bs. (Some (if dst_byte_order = eByteOrderBig
                                               then replicate num_zeroes 0 @ bs
                                               else bs @ replicate num_zeroes 0), src_len)) value_bytes
               else map_option (\<lambda>bs. (Some bs, dst_len))
                      (if dst_byte_order = eByteOrderBig
                       then if de_byte_order d = eByteOrderBig
                            then Some (take dst_len (drop (src_len - dst_len) src))
                            else swap_loop 0 dst_len (dst_len - 1) src []
                       else if de_byte_order d = eByteOrderBig
                            then swap_loop 0 dst_len (src_len - 1) src []
                            else Some (take dst_len src)))"

section \<open>C strings\<close>

text \<open>
  The byte at \<open>m_end\<close>: inside the shared buffer when the window stops short of its end,
  outside any known object otherwise.
\<close>

definition byte_at_end :: "data_extractor \<Rightarrow> u8 option" where
  "byte_at_end d =
     (case de_data_sp d of
        None \<Rightarrow> None
      | Some buf \<Rightarrow>
          let i = de_shared_offset d + GetByteSize d
          in if i < length buf then Some (buf ! i) else None)"

definition GetCStr :: "data_extractor \<Rightarrow> nat \<Rightarrow> (u8 list option \<times> nat) option" where
  "GetCStr d offset =
     (case PeekData d offset 1 of
        None \<Rightarrow> Some (None, offset)
      | Some _ \<Rightarrow>
          let cstr = drop offset (de_bytes d);
              s = takeWhile (\<lambda>b. b \<noteq> 0) cstr
          in if length s < length cstr then Some (Some s, offset + (length s + 1))
             else do { b \<leftarrow> byte_at_end d;
                       if b = 0 then Some (Some s, offset + (length s + 1))
                       else Some (None, offset) })"

definition GetCStr_len :: "data_extractor \<Rightarrow> nat \<Rightarrow> nat \<Rightarrow> u8 list option \<times> nat" where
  "GetCStr_len d offset len =
     (case PeekData d offset len of
        Some cstr \<Rightarrow>
          if 0 \<notin> set cstr then (None, offset)
          else (Some (takeWhile (\<lambda>b. b \<noteq> 0) cstr), offset + len)
      | None \<Rightarrow> (None, offset))"

section \<open>LEB128\<close>

text \<open>The loops run over the bytes that are left, with the shift and the number of bytes
  consumed.\<close>

fun uleb_loop :: "u8 list \<Rightarrow> u64 \<Rightarrow> nat \<Rightarrow> nat \<Rightarrow> (u64 \<times> nat) option" where
  "uleb_loop [] result shift n = Some (result, n)"
| "uleb_loop (byte # src) result shift n =
     (if shift \<ge> 64 then None
      else let result = result OR push_bit shift (ucast (byte AND 0x7f))
           in if byte AND 0x80 = 0 then Some (result, n + 1)
              else uleb_loop src result (shift + 7) (n + 1))"

definition GetULEB128 :: "data_extractor \<Rightarrow> nat \<Rightarrow> (u64 \<times> nat) option" where
  "GetULEB128 d offset =
     (case PeekData d offset 1 of
        None \<Rightarrow> Some (0, offset)
      | Some _ \<Rightarrow>
          (case drop offset (de_bytes d) of
             [] \<Rightarrow> Some (0, offset)
           | byte # src \<Rightarrow>
               if byte \<ge> 0x80
               then do { (result, n) \<leftarrow> uleb_loop src (ucast byte AND 0x7f) 7 1;
                         Some (result, offset + n) }
               else Some (ucast byte, offset + 1)))"

text \<open>The state after the loop: the result, the shift, the last byte and the byte count.\<close>

fun sleb_loop :: "u8 list \<Rightarrow> u64 \<Rightarrow> nat \<Rightarrow> u8 \<Rightarrow> nat \<Rightarrow> (u64 \<times> nat \<times> u8 \<times> nat) option" where
  "sleb_loop [] result shift byte bytecount = Some (result, shift, byte, bytecount)"
| "sleb_loop (byte # src) result shift _ bytecount =
     (if shift \<ge> 64 then None
      else let result = result OR push_bit shift (ucast (byte AND 0x7f))
           in if byte AND 0x80 = 0 then Some (result, shift + 7, byte, bytecount + 1)
              else sleb_loop src result (shift + 7) byte (bytecount + 1))"

text \<open>The sign bits are \<open>-(1 << shift)\<close>, with \<open>1\<close> an \<open>int\<close>: undefined when the shift is at
  least 32, and widened with its sign otherwise.\<close>

definition GetSLEB128 :: "data_extractor \<Rightarrow> nat \<Rightarrow> (u64 \<times> nat) option" where
  "GetSLEB128 d offset =
     (case PeekData d offset 1 of
        None \<Rightarrow> Some (0, offset)
      | Some _ \<Rightarrow>
          (case drop offset (de_bytes d) of
             [] \<Rightarrow> Some (0, offset)
           | src \<Rightarrow>
               do { (result, shift, byte, bytecount) \<leftarrow> sleb_loop src 0 0 0 0;
                    if shift < 64 \<and> byte AND 0x40 \<noteq> 0
                    then if shift \<ge> 32 then None
                         else Some (result OR scast (- push_bit shift (1 :: u32)),
                                    offset + bytecount)
                    else Some (result, offset + bytecount) }))"

text \<open>\<open>src_pos\<close> stops after the first byte without the continuation bit, or at the end;
  the first component counts the continuation bytes, the second the bytes passed over.\<close>

fun skip_leb_loop :: "u8 list \<Rightarrow> nat \<Rightarrow> nat \<Rightarrow> nat \<times> nat" where
  "skip_leb_loop [] bytes_consumed n = (bytes_consumed, n)"
| "skip_leb_loop (byte # src) bytes_consumed n =
     (if byte AND 0x80 \<noteq> 0 then skip_leb_loop src (bytes_consumed + 1) (n + 1)
      else (bytes_consumed, n + 1))"

definition Skip_LEB128 :: "data_extractor \<Rightarrow> nat \<Rightarrow> nat \<times> nat" where
  "Skip_LEB128 d offset =
     (case PeekData d offset 1 of
        None \<Rightarrow> (0, offset)
      | Some _ \<Rightarrow>
          let (bytes_consumed, n) = skip_leb_loop (drop offset (de_bytes d)) 0 0
          in (bytes_consumed, offset + n))"

section \<open>Reads inside and outside the window\<close>

lemma PeekData_pos:
  "0 < len \<Longrightarrow> PeekData d off len =
     (if off + len \<le> GetByteSize d then Some (take len (drop off (de_bytes d))) else None)"
  by (auto simp: PeekData_def ValidOffsetForDataOfSize_def BytesLeft_def Let_def GetByteSize_def
      de_bytes_def split: option.splits)

lemma GetData_pos:
  "0 < len \<Longrightarrow> GetData d off len =
     (if off + len \<le> GetByteSize d then (Some (take len (drop off (de_bytes d))), off + len)
      else (None, off))"
  by (simp add: GetData_def PeekData_pos)

text \<open>The byte orders a target can have.\<close>

definition order_ok :: "data_extractor \<Rightarrow> bool" where
  "order_ok d \<longleftrightarrow> de_byte_order d = eByteOrderBig \<or> de_byte_order d = eByteOrderLittle"

definition slice_nat :: "data_extractor \<Rightarrow> nat \<Rightarrow> nat \<Rightarrow> nat" where
  "slice_nat d offset n = order_nat (de_byte_order d) (take n (drop offset (de_bytes d)))"

lemma slice_nat_bound: "slice_nat d offset n < 256 ^ n"
proof -
  have "slice_nat d offset n < 256 ^ length (take n (drop offset (de_bytes d)))"
    by (simp only: slice_nat_def order_nat_bound)
  also have "\<dots> \<le> 256 ^ n"
    by (rule power_increasing) simp_all
  finally show ?thesis .
qed

lemma foldl_be_0: "foldl (\<lambda>r b. push_bit 8 r OR ucast (b :: u8)) (0 :: u64) bs = word_of_nat (be_nat bs)"
  using foldl_be [of 0 bs] by simp

lemma ReadMaxInt64_eq:
  assumes "length data = n"
  shows "ReadMaxInt64 data n bo = word_of_nat (order_nat bo data)"
proof -
  have be: "map (\<lambda>i. data ! i) [0..<n] = data"
    using assms by (auto intro: nth_equalityI)
  have le: "map (\<lambda>i. data ! (n - 1 - i)) [0..<n] = rev data"
    using assms by (auto intro!: nth_equalityI simp: rev_nth)
  show ?thesis
  proof (cases "bo = eByteOrderBig")
    case True
    have "ReadMaxInt64 data n bo =
        foldl (\<lambda>r b. push_bit 8 r OR ucast b) 0 (map (\<lambda>i. data ! i) [0..<n])"
      by (simp only: ReadMaxInt64_def True foldl_map simp_thms if_True)
    then show ?thesis
      by (simp only: be foldl_be_0 order_nat_def True simp_thms if_True)
  next
    case False
    then have "ReadMaxInt64 data n bo =
        foldl (\<lambda>r b. push_bit 8 r OR ucast b) 0 (map (\<lambda>i. data ! (n - 1 - i)) [0..<n])"
      by (simp only: ReadMaxInt64_def foldl_map if_False)
    with False show ?thesis
      by (simp only: le foldl_be_0 order_nat_def if_False be_nat_def rev_rev_ident)
  qed
qed

lemma order_nat_single [simp]: "order_nat bo [b] = unat b"
  by (simp add: order_nat_def be_nat_def)

lemma Read16_eq:
  assumes "platform_ok pl" "bo = eByteOrderBig \<or> bo = eByteOrderLittle" "length data = 2"
  shows "(if bo \<noteq> InlHostByteOrder pl then ReadSwapInt16 pl data else ReadInt16 pl data) =
    word_of_nat (order_nat bo data)"
  using assms
  by (auto simp: platform_ok_def ReadSwapInt16_def ReadInt16_def order_nat_def be_nat_def
      dest: spec [of _ "rev data"])

lemma Read32_eq:
  assumes "platform_ok pl" "bo = eByteOrderBig \<or> bo = eByteOrderLittle" "length data = 4"
  shows "(if bo \<noteq> InlHostByteOrder pl then ReadSwapInt32 pl data else ReadInt32 pl data) =
    word_of_nat (order_nat bo data)"
  using assms
  by (auto simp: platform_ok_def ReadSwapInt32_def ReadInt32_def order_nat_def be_nat_def
      dest: spec [of _ "rev data"])

lemma Read64_eq:
  assumes "platform_ok pl" "bo = eByteOrderBig \<or> bo = eByteOrderLittle" "length data = 8"
  shows "(if bo \<noteq> InlHostByteOrder pl then ReadSwapInt64 pl data else ReadInt64 pl data) =
    word_of_nat (order_nat bo data)"
  using assms
  by (auto simp: platform_ok_def ReadSwapInt64_def ReadInt64_def order_nat_def be_nat_def
      dest: spec [of _ "rev data"])

lemma GetU8_eq:
  "GetU8 d off = (if off < GetByteSize d then (de_bytes d ! off, off + 1) else (0, off))"
  by (simp add: GetU8_def GetData_pos GetByteSize_def)

lemma GetU16_eq:
  assumes "platform_ok pl" "order_ok d"
  shows "GetU16 pl d off = (if off + 2 \<le> GetByteSize d then (word_of_nat (slice_nat d off 2), off + 2)
    else (0, off))"
  using Read16_eq [of pl "de_byte_order d" "take 2 (drop off (de_bytes d))"] assms
  by (simp add: GetU16_def GetData_pos GetByteSize_def slice_nat_def order_ok_def)

lemma GetU32_eq:
  assumes "platform_ok pl" "order_ok d"
  shows "GetU32 pl d off = (if off + 4 \<le> GetByteSize d then (word_of_nat (slice_nat d off 4), off + 4)
    else (0, off))"
  using Read32_eq [of pl "de_byte_order d" "take 4 (drop off (de_bytes d))"] assms
  by (simp add: GetU32_def GetData_pos GetByteSize_def slice_nat_def order_ok_def)

lemma GetU64_eq:
  assumes "platform_ok pl" "order_ok d"
  shows "GetU64 pl d off = (if off + 8 \<le> GetByteSize d then (word_of_nat (slice_nat d off 8), off + 8)
    else (0, off))"
  using Read64_eq [of pl "de_byte_order d" "take 8 (drop off (de_bytes d))"] assms
  by (simp add: GetU64_def GetData_pos GetByteSize_def slice_nat_def order_ok_def)

lemma ucast_word_of_nat:
  assumes "n < 2 ^ LENGTH('a::len)"
  shows "ucast (word_of_nat n :: 'a word) = (word_of_nat n :: 'b::len word)"
  using assms by (simp add: word_unat_eq_iff unsigned_ucast_eq unat_of_nat take_bit_eq_mod)

theorem GetMaxU64_correct:
  assumes "platform_ok pl" "order_ok d" "0 < n" "n \<le> 8"
  shows "GetMaxU64 pl d off n =
    (if off + n \<le> GetByteSize d then (word_of_nat (slice_nat d off n), off + n) else (0, off))"
proof -
  have small: "slice_nat d off 2 < 2 ^ LENGTH(16)" "slice_nat d off 4 < 2 ^ LENGTH(32)"
    using slice_nat_bound [of d off 2] slice_nat_bound [of d off 4] by simp_all
  have one: "slice_nat d off (Suc 0) = unat (de_bytes d ! off)" if "off < GetByteSize d"
    using that by (simp add: slice_nat_def GetByteSize_def take_drop_nth)
  have gen: "n \<noteq> 1 \<Longrightarrow> n \<noteq> 2 \<Longrightarrow> n \<noteq> 4 \<Longrightarrow> n \<noteq> 8 \<Longrightarrow> ?thesis"
    using assms(3) by (simp add: GetMaxU64_def GetData_pos ReadMaxInt64_eq GetByteSize_def slice_nat_def)
  have "n = 1 \<Longrightarrow> ?thesis"
    by (simp add: GetMaxU64_def GetU8_eq one Suc_le_eq)
  moreover have "n = 2 \<Longrightarrow> ?thesis" "n = 4 \<Longrightarrow> ?thesis" "n = 8 \<Longrightarrow> ?thesis"
    using small by (simp_all add: GetMaxU64_def GetU16_eq GetU32_eq GetU64_eq assms(1,2) ucast_word_of_nat)
  ultimately show ?thesis
    using gen by blast
qed

fun repeat_read :: "(nat \<Rightarrow> 'a \<times> nat) \<Rightarrow> nat \<Rightarrow> nat \<Rightarrow> 'a list \<times> nat" where
  "repeat_read rd 0 offset = ([], offset)"
| "repeat_read rd (Suc k) offset =
     (let (v, offset) = rd offset; (vs, offset) = repeat_read rd k offset in (v # vs, offset))"

lemma repeat_read_chunks:
  assumes "\<And>off. off + w \<le> length bs \<Longrightarrow> rd off = (conv (take w (drop off bs)), off + w)"
    and "off + w * k \<le> length bs"
  shows "repeat_read rd k off = (map conv (chunks w k (take (w * k) (drop off bs))), off + w * k)"
  using assms(2)
proof (induction k arbitrary: off)
  case 0
  then show ?case by simp
next
  case (Suc k)
  have "rd off = (conv (take w (drop off bs)), off + w)"
    using Suc.prems by (intro assms(1)) simp
  moreover have "repeat_read rd k (off + w) =
      (map conv (chunks w k (take (w * k) (drop (off + w) bs))), off + w + w * k)"
    using Suc.prems by (intro Suc.IH) simp
  moreover have "drop w (take (w * Suc k) (drop off bs)) = take (w * k) (drop (off + w) bs)"
    by (simp add: drop_take add.commute)
  ultimately show ?case
    by (simp add: min_def add.commute add.left_commute)
qed

text \<open>Reading an array of 32-bit numbers in one call gives the numbers, and moves the offset,
  that as many single reads would, when all of them lie inside the window; otherwise
  nothing is read and the offset stays.\<close>

theorem GetU32_array_correct:
  assumes "0 < count"
  shows "GetU32_array pl d off count =
    (if off + 4 * count \<le> GetByteSize d
     then (let (vs, off') = repeat_read (GetU32 pl d) count off in (Some vs, off'))
     else (None, off))"
proof -
  let ?conv = "if de_byte_order d \<noteq> InlHostByteOrder pl then ReadSwapInt32 pl else ReadInt32 pl"
  have "repeat_read (GetU32 pl d) count off =
      (map ?conv (chunks 4 count (take (4 * count) (drop off (de_bytes d)))), off + 4 * count)"
    if "off + 4 * count \<le> GetByteSize d"
    using that
    by (intro repeat_read_chunks) (auto simp: GetU32_def GetData_pos GetByteSize_def)
  then show ?thesis
    using assms by (simp add: GetU32_array_def GetData_pos)
qed

lemma lsbcount_eq:
  assumes "off + sz \<le> 8 * n" "n \<le> 8"
  shows "bitfield_lsbcount bo n sz off = int (if bo = eByteOrderBig then 8 * n - off - sz else off)"
proof -
  have "sint (word_of_int (int k) :: u32) = int k" if "k \<le> 64" for k
    using that
    by (subst sint_sbintrunc') (simp add: signed_take_bit_int_eq_self)
  from this [of off] this [of "8 * n - off - sz"] show ?thesis
    using assms by (auto simp: bitfield_lsbcount_def of_nat_diff algebra_simps)
qed

definition bitfield_lsb :: "byte_order \<Rightarrow> nat \<Rightarrow> nat \<Rightarrow> nat \<Rightarrow> nat" where
  "bitfield_lsb bo n sz off = (if bo = eByteOrderBig then 8 * n - off - sz else off)"

lemma slice_nat_64: "n \<le> 8 \<Longrightarrow> slice_nat d off n < 2 ^ 64"
  using slice_nat_bound [of d off n] power_increasing [of n 8 "256 :: nat"] by simp

lemma unat_drop_mask:
  fixes w :: "'a::len word"
  shows "unat (drop_bit l w AND mask sz) = unat w div 2 ^ l mod 2 ^ sz"
proof -
  have "unat (take_bit sz (drop_bit l w)) = take_bit sz (drop_bit l (unat w))"
    by (simp add: unsigned_take_bit_eq unsigned_drop_bit_eq take_bit_nat_eq_self)
  then show ?thesis
    by (simp only: take_bit_eq_mask [symmetric] take_bit_eq_mod [where ?'a = nat] drop_bit_eq_div [where ?'a = nat])
qed

lemma GetMaxU64Bitfield_correct:
  assumes "platform_ok pl" "order_ok d" "0 < n" "n \<le> 8" "off + n \<le> GetByteSize d"
    and "0 < sz" "sz < 64" "boff + sz \<le> 8 * n"
  shows "GetMaxU64Bitfield pl d off n sz boff =
    Some (word_of_nat (slice_nat d off n div 2 ^ bitfield_lsb (de_byte_order d) n sz boff mod 2 ^ sz),
          off + n)"
proof -
  let ?v = "slice_nat d off n" and ?l = "bitfield_lsb (de_byte_order d) n sz boff"
  have l: "bitfield_lsbcount (de_byte_order d) n sz boff = int ?l"
    using lsbcount_eq [of boff sz n] assms by (simp add: bitfield_lsb_def)
  have l64: "?l < 64"
    using assms by (auto simp: bitfield_lsb_def)
  have nz: "(mask sz :: u64) \<noteq> 0"
    using assms(6) by simp
  have "drop_bit ?l (word_of_nat ?v :: u64) AND mask sz = word_of_nat (?v div 2 ^ ?l mod 2 ^ sz)"
  proof -
    have "unat (drop_bit ?l (word_of_nat ?v :: u64) AND mask sz) = ?v div 2 ^ ?l mod 2 ^ sz"
      using slice_nat_64 [OF assms(4), of d off] by (simp add: unat_drop_mask unat_of_nat)
    then show ?thesis
      by (rule word_eq_of_nat)
  qed
  then show ?thesis
    using GetMaxU64_correct [OF assms(1-4)] assms l64
    by (cases "?l = 0") (simp_all add: GetMaxU64Bitfield_def l mask_eq_exp_minus_1 [symmetric] nz)
qed

lemma bitfield_signed_word:
  fixes u :: u64
  assumes "0 < sz" "sz < 64" "l + sz \<le> w" "w \<le> 64" "w > 0"
  defines "x \<equiv> signed_drop_bit l (word_of_int (signed_take_bit (w - 1) (uint u)) :: u64) AND mask sz"
  shows "(if x AND push_bit (sz - 1) 1 \<noteq> 0 then x OR NOT (mask sz) else x) =
    word_of_int (signed_take_bit (sz - 1) (uint u div 2 ^ l))"
proof -
  have top: "w - Suc 0 = l + i" if "w - Suc 0 \<le> l + i" "i < sz" for i
    using assms(3,5) that by simp
  have bx: "bit x i \<longleftrightarrow> i < sz \<and> bit u (l + i)" if "i < 64" for i
    using assms(1-5) that
    by (auto simp: x_def bit_simps min_def dest: top)
  have "(x AND push_bit (sz - 1) 1 \<noteq> 0) \<longleftrightarrow> bit x (sz - 1)"
    using assms(1,2) by (simp add: bit_iff_and_push_bit_not_eq_0)
  then have sign: "(x AND push_bit (sz - 1) 1 \<noteq> 0) \<longleftrightarrow> bit u (l + (sz - 1))"
    using assms(1,2) by (simp add: bx)
  have last: "bit u (l + i) = bit u (l + sz - Suc 0)" if "sz - Suc 0 \<le> i" "i < sz" for i
  proof -
    have "i = sz - Suc 0" "0 < sz" using that by simp_all
    then show ?thesis by simp
  qed
  show ?thesis
    unfolding sign
    using assms(1-5)
    by (auto intro!: bit_word_eqI simp: bx bit_simps min_def drop_bit_eq_div [symmetric] last
        split: if_splits)
qed

lemma GetMaxS64_correct:
  assumes "platform_ok pl" "order_ok d" "0 < n" "n \<le> 8" "off + n \<le> GetByteSize d"
  shows "GetMaxS64 pl d off n =
    (word_of_int (signed_take_bit (8 * n - 1) (int (slice_nat d off n))), off + n)"
proof -
  have "uint (word_of_nat (slice_nat d off n) :: u64) = int (slice_nat d off n)"
    using slice_nat_64 [OF assms(4), of d off] by (simp add: uint_nat unat_of_nat)
  moreover have "SignExtend64 pl x (8 * n) = word_of_int (signed_take_bit (8 * n - 1) (uint x))" for x
    using assms(1,3,4) by (simp add: platform_ok_def)
  ultimately show ?thesis
    using GetMaxU64_correct [OF assms(1-4)] assms(5) by (simp add: GetMaxS64_def)
qed

text \<open>C14: A signed bit field read from an integer of 1 to 8 bytes in either byte order is the
  sign-extended value of exactly the bits the byte order assigns to the field, for every
  size and position that fits the integer, and the offset moves past the integer.\<close>

theorem GetMaxS64Bitfield_correct:
  assumes "platform_ok pl" "order_ok d" "0 < n" "n \<le> 8" "off + n \<le> GetByteSize d"
    and "0 < sz" "sz < 64" "boff + sz \<le> 8 * n"
  shows "GetMaxS64Bitfield pl d off n sz boff =
    Some (word_of_int (signed_take_bit (sz - 1)
            (int (slice_nat d off n) div 2 ^ bitfield_lsb (de_byte_order d) n sz boff)), off + n)"
proof -
  let ?v = "slice_nat d off n" and ?l = "bitfield_lsb (de_byte_order d) n sz boff"
  have l: "bitfield_lsbcount (de_byte_order d) n sz boff = int ?l"
    using lsbcount_eq [of boff sz n] assms by (simp add: bitfield_lsb_def)
  have l64: "?l < 64" "?l + sz \<le> 8 * n"
    using assms by (auto simp: bitfield_lsb_def)
  have u: "uint (word_of_nat ?v :: u64) = int ?v"
    using slice_nat_64 [OF assms(4), of d off] by (simp add: uint_nat unat_of_nat)
  have "word_of_int (signed_take_bit (sz - 1) (int ?v div 2 ^ ?l)) =
     (let x = signed_drop_bit ?l (word_of_int (signed_take_bit (8 * n - 1) (int ?v)) :: u64) AND mask sz
      in if x AND push_bit (sz - 1) 1 \<noteq> 0 then x OR NOT (mask sz) else x)"
    unfolding Let_def
    by (rule sym, rule bitfield_signed_word [of sz ?l "8 * n" "word_of_nat ?v", unfolded u])
      (use assms(3,4,6,7) l64 in simp_all)
  then show ?thesis
    using GetMaxS64_correct [OF assms(1-5)] assms l64
    by (cases "?l = 0")
      (simp_all add: GetMaxS64Bitfield_def l mask_eq_exp_minus_1 [symmetric] Let_def)
qed

lemma map_rev_index: "length src = n \<Longrightarrow> map (\<lambda>i. src ! (n - Suc i)) [0..<n] = rev src"
  by (auto intro!: nth_equalityI simp: rev_nth)

lemma map_rev_index_take:
  "length src = n \<Longrightarrow> k \<le> n \<Longrightarrow> map (\<lambda>i. src ! (n - Suc i)) [0..<k] = take k (rev src)"
  by (auto intro!: nth_equalityI simp: rev_nth)

lemma le_nat_take: "le_nat (take k bs) = le_nat bs mod 256 ^ k"
proof (cases "k \<le> length bs")
  case True
  have "le_nat bs = le_nat (take k bs) + 256 ^ k * le_nat (drop k bs)"
    using le_nat_append [of "take k bs" "drop k bs"] True by simp
  moreover have "le_nat (take k bs) < 256 ^ k"
    using le_nat_bound [of "take k bs"] True by simp
  ultimately show ?thesis by simp
next
  case False
  then have "(256::nat) ^ length bs \<le> 256 ^ k"
    by (simp add: power_increasing)
  with le_nat_bound [of bs] have "le_nat bs < 256 ^ k"
    by (rule less_le_trans)
  with False show ?thesis by simp
qed

lemma le_nat_replicate_0: "le_nat (replicate n 0) = 0"
  by (induction n) simp_all

lemma swap_loop_map:
  "len < 2 ^ 32 \<Longrightarrow> unat i \<le> len \<Longrightarrow>
   swap_loop i len last_index src dst = Some (dst @ map (\<lambda>j. src ! (last_index - j)) [unat i..<len])"
proof (induction "len - unat i" arbitrary: i dst)
  case 0
  then show ?case by (subst swap_loop.simps) simp
next
  case (Suc k)
  then have i: "unat (i + 1) = Suc (unat i)"
    by (simp add: unat_word_ariths)
  with Suc have "swap_loop (i + 1) len last_index src (dst @ [src ! (last_index - unat i)]) =
      Some ((dst @ [src ! (last_index - unat i)]) @ map (\<lambda>j. src ! (last_index - j)) [unat (i + 1)..<len])"
    by (intro Suc.hyps(1)) simp_all
  with Suc i show ?case
    by (subst swap_loop.simps) (simp add: upt_conv_Cons)
qed

lemma swap_loop_hangs:
  assumes "2 ^ 32 \<le> len"
  shows "swap_loop i len last_index src dst = None"
proof -
  have below: "unat j < len" for j :: u32
    using unsigned_less [of j, where 'a = nat] assms by simp
  have "swap_loop i len last_index src dst \<noteq> Some y" for y
  proof
    assume returns: "swap_loop i len last_index src dst = Some y"
    have "b \<noteq> len" if "swap_loop a b c e f = Some y" for a b c e f y
      by (rule swap_loop.raw_induct [where P = "\<lambda>a b c e f y. b \<noteq> len", OF _ that])
        (use below in \<open>auto split: if_splits\<close>)
    with returns show False by blast
  qed
  then show ?thesis by (cases "swap_loop i len last_index src dst") blast+
qed

lemma CopyByteOrderedData_bytes:
  assumes "order_ok d" "dst_bo = eByteOrderBig \<or> dst_bo = eByteOrderLittle"
    and "0 < src_len" "off + src_len \<le> GetByteSize d"
    and "dst_bo = de_byte_order d \<or> min src_len dst_len < 2 ^ 32"
  shows "\<exists>dst. CopyByteOrderedData d off src_len dst_len dst_bo = Some (Some dst, min src_len dst_len) \<and>
    length dst = dst_len \<and>
    order_nat dst_bo dst = slice_nat d off src_len mod 256 ^ dst_len"
proof -
  define src where "src = take src_len (drop off (de_bytes d))"
  have len: "length src = src_len"
    using assms(4) by (simp add: src_def GetByteSize_def)
  have peek: "PeekData d off src_len = Some src"
    using assms(3,4) by (simp add: PeekData_pos src_def)
  have small: "x mod 256 ^ dst_len = x" if "x < 256 ^ src_len" "src_len \<le> dst_len" for x :: nat
  proof -
    have "(256 :: nat) ^ src_len \<le> 256 ^ dst_len"
      using that(2) by (simp add: power_increasing)
    with that(1) have "x < 256 ^ dst_len"
      by (rule less_le_trans)
    then show ?thesis by simp
  qed
  have b: "le_nat src < 256 ^ src_len" "le_nat (rev src) < 256 ^ src_len"
    using le_nat_bound [of src] le_nat_bound [of "rev src"] len by simp_all
  have rd: "rev (drop (src_len - k) src) = take k (rev src)" if "k \<le> src_len" for k
    using len that by (simp add: rev_drop)
  show ?thesis
  proof (cases "src_len \<le> dst_len")
    case True
    then show ?thesis
      using assms(1,2,5) len small [OF b(1)] small [OF b(2)]
      by (auto simp: CopyByteOrderedData_def peek order_ok_def swap_loop_map map_rev_index order_nat_def be_nat_def
          slice_nat_def src_def [symmetric] le_nat_append le_nat_replicate_0)
  next
    case False
    then have k: "dst_len \<le> src_len" "min src_len dst_len = dst_len" by simp_all
    have le_be: "map (\<lambda>i. src ! (dst_len - Suc i)) [0..<dst_len] = rev (take dst_len src)"
      using k len by (auto intro!: nth_equalityI simp: rev_nth)
    show ?thesis
      using assms(1,2,5) len False k
      by (auto simp: CopyByteOrderedData_def peek order_ok_def swap_loop_map map_rev_index_take order_nat_def be_nat_def
          slice_nat_def src_def [symmetric] le_be rd le_nat_take)
  qed
qed

lemma ExtractBytes_value:
  assumes "order_ok d" "dst_bo = eByteOrderBig \<or> dst_bo = eByteOrderLittle"
    and "0 < n" "off + n \<le> GetByteSize d" "dst_bo = de_byte_order d \<or> n < 2 ^ 32"
  shows "\<exists>dst. ExtractBytes d off n dst_bo = Some (Some dst, n) \<and> length dst = n \<and>
    order_nat dst_bo dst = slice_nat d off n"
proof -
  define src where "src = take n (drop off (de_bytes d))"
  have len: "length src = n" using assms(4) by (simp add: src_def GetByteSize_def)
  have peek: "PeekData d off n = Some src" using assms(3,4) by (simp add: PeekData_pos src_def)
  show ?thesis
    using assms(1,2,5) len
    by (auto simp: ExtractBytes_def peek order_ok_def swap_loop_map map_rev_index order_nat_def be_nat_def
        slice_nat_def src_def [symmetric])
qed

text \<open>C30: Whenever the assertions hold, copying an integer into a buffer ends and preserves its value,
  truncated to the size of the destination: between equal byte orders at any two sizes, and
  between different ones into 1, 2, 4, 8, 10, 16 or 32 bytes, with padding and with
  truncation.\<close>

theorem CopyByteOrderedData_value:
  assumes "copy_asserts d off src_len dst_len dst_bo"
  shows "\<exists>dst. CopyByteOrderedData d off src_len dst_len dst_bo = Some (Some dst, min src_len dst_len) \<and>
    length dst = dst_len \<and>
    order_nat dst_bo dst = slice_nat d off src_len mod 256 ^ dst_len"
proof -
  have "off + src_len \<le> GetByteSize d"
    using assms by (auto simp: copy_asserts_def ValidOffsetForDataOfSize_def BytesLeft_def Let_def split: if_splits)
  moreover have "dst_bo = de_byte_order d \<or> min src_len dst_len < 2 ^ 32"
    using assms unfolding copy_asserts_def by (elim conjE disjE) (simp_all, auto simp: min_def)
  ultimately show ?thesis
    using assms by (intro CopyByteOrderedData_bytes) (simp_all add: copy_asserts_def order_ok_def)
qed

section \<open>LEB128 against its reference reading\<close>

primrec leb_nat :: "u8 list \<Rightarrow> nat" where
  "leb_nat [] = 0"
| "leb_nat (b # bs) = unat b mod 128 + 128 * leb_nat bs"

definition leb_encoding :: "u8 list \<Rightarrow> bool" where
  "leb_encoding bs \<longleftrightarrow> bs \<noteq> [] \<and> (\<forall>b \<in> set (butlast bs). 128 \<le> unat b) \<and> unat (last bs) < 128"

definition sleb_negative :: "u8 list \<Rightarrow> bool" where
  "sleb_negative bs \<longleftrightarrow> 64 \<le> unat (last bs) mod 128"

definition sleb_int :: "u8 list \<Rightarrow> int" where
  "sleb_int bs = int (leb_nat bs) - (if sleb_negative bs then 128 ^ length bs else 0)"

lemma leb_encoding_Cons:
  "leb_encoding (b # bs) \<longleftrightarrow> (if bs = [] then unat b < 128 else 128 \<le> unat b \<and> leb_encoding bs)"
  by (auto simp: leb_encoding_def)

lemma leb_nat_bound: "leb_nat bs < 128 ^ length bs"
proof (induction bs)
  case Nil
  then show ?case by simp
next
  case (Cons b bs)
  have "unat b mod 128 + 128 * leb_nat bs < 128 + 128 * leb_nat bs"
    by simp
  also have "\<dots> \<le> 128 * 128 ^ length bs"
    using Cons.IH by simp
  finally show ?case by simp
qed

lemma and_0x80: "(b :: u8) AND 0x80 = 0 \<longleftrightarrow> unat b < 128"
proof -
  have "b AND 0x80 = 0 \<longleftrightarrow> \<not> bit b 7"
    using bit_iff_and_push_bit_not_eq_0 [of b 7] by simp
  moreover have "bit b 7 \<longleftrightarrow> odd (unat b div 128)"
    using bit_iff_odd [of "unat b" 7] by (simp add: bit_unsigned_iff)
  moreover have "odd (unat b div 128) \<longleftrightarrow> 128 \<le> unat b"
  proof -
    have "unat b div 128 = 0 \<or> unat b div 128 = 1"
      using u8_bound [of b] by linarith
    then show ?thesis by auto
  qed
  ultimately show ?thesis by linarith
qed

lemma and_0x40: "(b :: u8) AND 0x40 = 0 \<longleftrightarrow> unat b mod 128 < 64"
proof -
  have "b AND 0x40 = 0 \<longleftrightarrow> \<not> bit b 6"
    using bit_iff_and_push_bit_not_eq_0 [of b 6] by simp
  moreover have "bit b 6 \<longleftrightarrow> odd (unat b div 64)"
    using bit_iff_odd [of "unat b" 6] by (simp add: bit_unsigned_iff)
  moreover have "odd (unat b div 64) \<longleftrightarrow> 64 \<le> unat b mod 128"
  proof -
    have "unat b mod 128 = 64 * (unat b div 64 mod 2) + unat b mod 64"
      using mod_mult2_eq [of "unat b" 64 2] by simp
    moreover have "unat b mod 64 < 64" by simp
    ultimately show ?thesis
      by (cases "odd (unat b div 64)") (simp_all add: odd_iff_mod_2_eq_one)
  qed
  ultimately show ?thesis by linarith
qed

lemma ucast_and_0x7f: "(ucast ((b :: u8) AND 0x7f) :: u64) = word_of_nat (unat b mod 128)"
proof -
  have "unat (b AND mask 7) = unat b mod 128"
    by (simp add: take_bit_eq_mask [symmetric] unsigned_take_bit_eq take_bit_eq_mod [where ?'a = nat])
  then have "unat (b AND 0x7f) = unat b mod 128"
    by (simp add: mask_eq_exp_minus_1)
  then have "unat (ucast (b AND 0x7f) :: u64) = unat b mod 128"
    by (simp only: unat_ucast_u8)
  then show ?thesis by (rule word_eq_of_nat)
qed

text \<open>One step of either loop, on numbers.\<close>

lemma leb_accumulate:
  assumes "m < 2 ^ shift" "shift < 64"
  shows "(word_of_nat m :: u64) OR push_bit shift (ucast ((b :: u8) AND 0x7f)) =
    word_of_nat (m + 2 ^ shift * (unat b mod 128))"
proof -
  have "(2::nat) ^ shift \<le> 2 ^ 64"
    using assms(2) by (intro power_increasing) simp_all
  with assms(1) have "m < 2 ^ 64"
    by (rule less_le_trans)
  then have "unat (word_of_nat m :: u64) < 2 ^ shift"
    using assms(1) by (simp add: unat_of_nat)
  then have "(word_of_nat m :: u64) OR push_bit shift (ucast (b AND 0x7f)) =
      word_of_nat m + push_bit shift (ucast (b AND 0x7f))"
    by (rule or_push_bit_disjoint)
  then show ?thesis
    by (simp add: ucast_and_0x7f push_bit_eq_mult mult.commute)
qed

lemma leb_step_bound: "m < 2 ^ shift \<Longrightarrow> m + 2 ^ shift * (k mod 128) < 2 ^ (shift + 7)" for m k :: nat
proof -
  assume "m < 2 ^ shift"
  then have "m + 2 ^ shift * (k mod 128) < 2 ^ shift * Suc (k mod 128)"
    by simp
  also have "\<dots> \<le> 2 ^ shift * 128"
    by (intro mult_le_mono2) (simp add: Suc_leI)
  finally show ?thesis
    by (simp add: power_add)
qed

lemma uleb_loop_eq:
  assumes "leb_encoding bs" "m < 2 ^ shift" "shift + 7 * length bs < 71"
  shows "uleb_loop (bs @ rest) (word_of_nat m) shift n =
    Some (word_of_nat (m + 2 ^ shift * leb_nat bs), n + length bs)"
  using assms
proof (induction bs arbitrary: m shift n)
  case Nil
  then show ?case by (simp add: leb_encoding_def)
next
  case (Cons b bs)
  from Cons.prems(3) have s: "shift < 64" by simp
  note acc = leb_accumulate [OF Cons.prems(2) s, of b]
  show ?case
  proof (cases "bs = []")
    case True
    with Cons.prems(1) have "unat b < 128" by (simp add: leb_encoding_Cons)
    with True s acc show ?thesis by (simp add: and_0x80 Let_def del: of_nat_add of_nat_mult)
  next
    case False
    with Cons.prems(1) have b: "128 \<le> unat b" "leb_encoding bs"
      by (simp_all add: leb_encoding_Cons)
    have "uleb_loop (bs @ rest) (word_of_nat (m + 2 ^ shift * (unat b mod 128))) (shift + 7) (n + 1) =
        Some (word_of_nat (m + 2 ^ shift * (unat b mod 128) + 2 ^ (shift + 7) * leb_nat bs),
              n + 1 + length bs)"
      using b(2) leb_step_bound [OF Cons.prems(2)] Cons.prems(3) by (intro Cons.IH) simp_all
    moreover have "m + 2 ^ shift * (unat b mod 128) + 2 ^ (shift + 7) * leb_nat bs =
        m + 2 ^ shift * leb_nat (b # bs)"
      by (simp add: power_add algebra_simps)
    ultimately show ?thesis
      using s b(1) acc by (simp add: and_0x80 Let_def del: of_nat_add of_nat_mult)
  qed
qed

lemma sleb_loop_eq:
  assumes "leb_encoding bs" "m < 2 ^ shift" "shift + 7 * length bs < 71"
  shows "sleb_loop (bs @ rest) (word_of_nat m) shift byte n =
    Some (word_of_nat (m + 2 ^ shift * leb_nat bs), shift + 7 * length bs, last bs, n + length bs)"
  using assms
proof (induction bs arbitrary: m shift byte n)
  case Nil
  then show ?case by (simp add: leb_encoding_def)
next
  case (Cons b bs)
  from Cons.prems(3) have s: "shift < 64" by simp
  note acc = leb_accumulate [OF Cons.prems(2) s, of b]
  show ?case
  proof (cases "bs = []")
    case True
    with Cons.prems(1) have "unat b < 128" by (simp add: leb_encoding_Cons)
    with True s acc show ?thesis by (simp add: and_0x80 Let_def del: of_nat_add of_nat_mult)
  next
    case False
    with Cons.prems(1) have b: "128 \<le> unat b" "leb_encoding bs"
      by (simp_all add: leb_encoding_Cons)
    have "sleb_loop (bs @ rest) (word_of_nat (m + 2 ^ shift * (unat b mod 128))) (shift + 7) b (n + 1) =
        Some (word_of_nat (m + 2 ^ shift * (unat b mod 128) + 2 ^ (shift + 7) * leb_nat bs),
              shift + 7 + 7 * length bs, last bs, n + 1 + length bs)"
      using b(2) leb_step_bound [OF Cons.prems(2)] Cons.prems(3) by (intro Cons.IH) simp_all
    moreover have "m + 2 ^ shift * (unat b mod 128) + 2 ^ (shift + 7) * leb_nat bs =
        m + 2 ^ shift * leb_nat (b # bs)"
      by (simp add: power_add algebra_simps)
    ultimately show ?thesis
      using s b(1) acc False by (simp add: and_0x80 Let_def del: of_nat_add of_nat_mult)
  qed
qed

lemma drop_eq_append_less:
  assumes "drop off (de_bytes d) = bs @ rest" "bs \<noteq> []"
  shows "PeekData d off (Suc 0) \<noteq> None"
proof -
  have "off < length (de_bytes d)"
    using assms by (metis append_is_Nil_conv drop_eq_Nil linorder_not_le)
  then show ?thesis by (simp add: PeekData_pos GetByteSize_def)
qed

lemma GetULEB128_eq:
  assumes "leb_encoding bs" "length bs \<le> 10" "drop off (de_bytes d) = bs @ rest"
  shows "GetULEB128 d off = Some (word_of_nat (leb_nat bs), off + length bs)"
proof -
  from assms(1) obtain b bs' where bs: "bs = b # bs'"
    by (cases bs) (auto simp: leb_encoding_def)
  obtain w where peek: "PeekData d off (Suc 0) = Some w"
    using drop_eq_append_less [OF assms(3)] bs by auto
  have first: "(ucast b :: u64) AND 0x7f = word_of_nat (unat b mod 128)"
    using ucast_and_0x7f [of b] by (simp add: unsigned_and_eq flip: ucast_and_0x7f)
  have "(ucast b :: u64) = word_of_nat (unat b)"
    by (rule word_eq_of_nat) (rule unat_ucast_u8)
  moreover have "0x80 \<le> b \<longleftrightarrow> 128 \<le> unat b"
    by (simp add: word_le_nat_alt)
  ultimately show ?thesis
    using assms uleb_loop_eq [of bs' "unat b mod 128" 7 rest 1]
    by (auto simp: GetULEB128_def peek bs first leb_encoding_Cons split: if_splits)
qed

text \<open>C29: An unsigned LEB128 encoding of at most ten bytes at the offset decodes to the number it
  encodes modulo 2^64, and the offset moves past exactly its bytes.\<close>

theorem GetULEB128_correct:
  assumes "leb_encoding bs" "length bs \<le> 10" "drop off (de_bytes d) = bs @ rest"
  shows "GetULEB128 d off = Some (word_of_nat (leb_nat bs), off + length bs)"
  by (rule GetULEB128_eq [OF assms])

lemma sleb_sign_bits:
  assumes "leb_nat bs < 128 ^ k" "64 * 128 ^ (k - 1) \<le> leb_nat bs" "0 < k" "k \<le> 4"
  shows "(word_of_nat (leb_nat bs) :: u64) OR scast (- push_bit (7 * k) (1 :: u32)) =
    word_of_int (int (leb_nat bs) - 128 ^ k)"
proof -
  have m: "(2::nat) ^ (7 * k) = 128 ^ k"
    by (simp add: power_mult)
  have "(128::nat) ^ k \<le> 128 ^ 4"
    using assms(4) by (intro power_increasing) simp_all
  then have le: "leb_nat bs < 2 ^ 64"
    using assms(1) by simp
  have k: "k = 1 \<or> k = 2 \<or> k = 3 \<or> k = 4"
    using assms(3,4) by arith
  have neg: "(scast (- push_bit (7 * k) (1 :: u32)) :: u64) = push_bit (7 * k) (- 1)"
    using k by (auto simp: mask_eq_exp_minus_1)
  have "unat (word_of_nat (leb_nat bs) :: u64) < 2 ^ (7 * k)"
    using assms(1) le m by (simp add: unat_of_nat)
  then have "(word_of_nat (leb_nat bs) :: u64) OR push_bit (7 * k) (- 1) =
      word_of_nat (leb_nat bs) + push_bit (7 * k) (- 1)"
    by (rule or_push_bit_disjoint)
  also have "\<dots> = word_of_int (int (leb_nat bs) - 128 ^ k)"
    by (simp add: push_bit_eq_mult power_mult)
  finally show ?thesis
    by (simp only: neg)
qed

lemma sleb_negative_bound:
  assumes "leb_encoding bs" "sleb_negative bs"
  shows "64 * 128 ^ (length bs - 1) \<le> leb_nat bs"
  using assms
proof (induction bs)
  case Nil
  then show ?case by (simp add: leb_encoding_def)
next
  case (Cons b bs)
  show ?case
  proof (cases "bs = []")
    case True
    with Cons.prems show ?thesis by (simp add: sleb_negative_def)
  next
    case False
    with Cons have "64 * 128 ^ (length bs - 1) \<le> leb_nat bs"
      by (simp add: leb_encoding_Cons sleb_negative_def)
    then have "64 * (128 * 128 ^ (length bs - 1)) \<le> leb_nat (b # bs)"
      by simp
    with False show ?thesis
      by (cases bs) simp_all
  qed
qed

lemma GetSLEB128_eq:
  assumes "leb_encoding bs" "length bs \<le> 9" "drop off (de_bytes d) = bs @ rest"
  shows "GetSLEB128 d off =
    (if sleb_negative bs \<and> 5 \<le> length bs then None
     else Some (word_of_int (sleb_int bs), off + length bs))"
proof -
  from assms(1) have ne: "bs \<noteq> []" by (auto simp: leb_encoding_def)
  obtain w where peek: "PeekData d off (Suc 0) = Some w"
    using drop_eq_append_less [OF assms(3) ne] by auto
  have "sleb_loop (bs @ rest) (word_of_nat 0) 0 0 0 =
      Some (word_of_nat (0 + 2 ^ 0 * leb_nat bs), 0 + 7 * length bs, last bs, 0 + length bs)"
    using assms(1,2) by (intro sleb_loop_eq) simp_all
  then have loop: "sleb_loop (bs @ rest) 0 0 0 0 =
      Some (word_of_nat (leb_nat bs), 7 * length bs, last bs, length bs)"
    by simp
  have len: "7 * length bs < 64" using assms(2) by simp
  have sign: "(last bs AND 0x40 \<noteq> 0) = sleb_negative bs"
    by (simp add: and_0x40 sleb_negative_def not_less)
  have run: "GetSLEB128 d off =
      (if sleb_negative bs
       then if 7 * length bs \<ge> 32 then None
            else Some (word_of_nat (leb_nat bs) OR scast (- push_bit (7 * length bs) (1 :: u32)),
                       off + length bs)
       else Some (word_of_nat (leb_nat bs), off + length bs))"
    using loop len ne sign
    by (cases "bs @ rest") (auto simp: GetSLEB128_def peek assms(3))
  show ?thesis
  proof (cases "sleb_negative bs \<and> length bs \<le> 4")
    case True
    then have "(word_of_nat (leb_nat bs) :: u64) OR scast (- push_bit (7 * length bs) (1 :: u32)) =
        word_of_int (int (leb_nat bs) - 128 ^ length bs)"
      using ne assms(1) by (intro sleb_sign_bits leb_nat_bound sleb_negative_bound) simp_all
    with True show ?thesis
      by (simp add: run sleb_int_def)
  next
    case False
    then show ?thesis
      by (auto simp: run sleb_int_def)
  qed
qed

text \<open>A signed LEB128 encoding of at most nine bytes decodes to the two's complement number it
  encodes, except that a negative number encoded in five bytes or more runs into the
  undefined shift of the int constant 1 in the sign extension.\<close>

theorem GetSLEB128_correct:
  assumes "leb_encoding bs" "length bs \<le> 9" "drop off (de_bytes d) = bs @ rest"
  shows "GetSLEB128 d off =
    (if sleb_negative bs \<and> 5 \<le> length bs then None
     else Some (word_of_int (sleb_int bs), off + length bs))"
  by (rule GetSLEB128_eq [OF assms])

text \<open>Skipping a LEB128 encoding moves the offset past it, and returns one less than the
  number of bytes consumed.\<close>

theorem Skip_LEB128_correct:
  assumes "leb_encoding bs" "drop off (de_bytes d) = bs @ rest"
  shows "Skip_LEB128 d off = (length bs - 1, off + length bs)"
proof -
  have loop: "skip_leb_loop (bs @ rest) c n = (c + (length bs - 1), n + length bs)" for c n
    using assms(1)
  proof (induction bs arbitrary: c n)
    case Nil
    then show ?case by (simp add: leb_encoding_def)
  next
    case (Cons b bs)
    then show ?case
      by (cases bs) (auto simp: leb_encoding_Cons and_0x80)
  qed
  have "bs \<noteq> []" using assms(1) by (auto simp: leb_encoding_def)
  then obtain w where "PeekData d off (Suc 0) = Some w"
    using drop_eq_append_less [OF assms(2)] by auto
  then show ?thesis
    using loop [of 0 0] by (simp add: Skip_LEB128_def assms(2))
qed

section \<open>Windows\<close>

text \<open>A window on a shared buffer holds the bytes of the buffer from its offset on.\<close>

definition window_ok :: "data_extractor \<Rightarrow> bool" where
  "window_ok d = (case (de_start d, de_data_sp d) of
      (Some w, Some buf) \<Rightarrow>
        de_shared_offset d + length w \<le> length buf \<and>
        w = take (length w) (drop (de_shared_offset d) buf)
    | _ \<Rightarrow> True)"

lemma SetData_bytes_start [window]:
  "de_bytes (fst (SetData_bytes d p n bo)) = (case p of None \<Rightarrow> [] | Some b \<Rightarrow> take n b)"
  by (auto simp: SetData_bytes_def de_bytes_def Let_def split: option.splits)

lemma SetData_sp_bytes [window]:
  "de_bytes (fst (SetData_sp d sp off n)) = (case sp of None \<Rightarrow> [] | Some buf \<Rightarrow> take n (drop off buf))"
  by (auto simp: SetData_sp_def de_bytes_def GetByteSize_def Let_def split: option.splits)

lemma SetData_sp_size [window]: "snd (SetData_sp d sp off n) = GetByteSize (fst (SetData_sp d sp off n))"
  by (auto simp: SetData_sp_def GetByteSize_def de_bytes_def Let_def)

lemma SetData_sp_order [window]: "de_byte_order (fst (SetData_sp d sp off n)) = de_byte_order d"
  by (auto simp: SetData_sp_def Let_def split: option.splits)

lemma SetData_bytes_window_ok: "window_ok (fst (SetData_bytes d p n bo))"
  by (auto simp: window_ok_def SetData_bytes_def Let_def split: option.splits)

lemma SetData_sp_window_ok: "window_ok (fst (SetData_sp d sp off n))"
  by (auto simp: window_ok_def SetData_sp_def GetByteSize_def de_bytes_def Let_def split: option.splits)

lemma window_ok_addr_size [simp]: "window_ok (d\<lparr>de_addr_size := a\<rparr>) = window_ok d"
  by (simp add: window_ok_def split: option.split)

lemma SetData_from_window_ok: "window_ok d \<Longrightarrow> window_ok (fst (SetData_from d data off n))"
  by (auto simp: SetData_from_def SetData_sp_window_ok SetData_bytes_window_ok Let_def
      split: option.splits)

lemma Append_window_ok:
  assumes "window_ok d" "window_ok rhs"
  shows "window_ok (fst (Append d rhs))"
  using assms by (auto simp: Append_def Copy_def SetData_sp_window_ok split: option.splits)

text \<open>What an extractor holds after it is pointed at a range of another: with shared data, the
  range of the shared buffer counted from the start of the other window but not limited by
  its end; without, the range of the window, or the old contents when the offset is
  outside it.\<close>

theorem SetData_from_bytes:
  "de_bytes (fst (SetData_from d data off n)) =
    (case de_data_sp data of
       Some buf \<Rightarrow> take n (drop (GetSharedDataOffset data + off) buf)
     | None \<Rightarrow> if off < GetByteSize data then take n (drop off (de_bytes data)) else de_bytes d)"
proof (cases "de_data_sp data")
  case None
  have "de_bytes (d\<lparr>de_addr_size := a\<rparr>) = de_bytes d" for a
    by (simp add: de_bytes_def)
  with None show ?thesis
    by (simp add: SetData_from_def window ValidOffset_def GetByteSize_def Let_def)
next
  case (Some buf)
  then show ?thesis
    by (simp add: SetData_from_def window)
qed

text \<open>Appending an extractor of the same byte order to another concatenates their bytes,
  unless the receiver is empty, when the whole shared buffer behind the argument is copied
  instead of its window.\<close>

theorem Append_bytes:
  assumes "de_byte_order rhs = de_byte_order d"
    and "GetByteSize d + GetByteSize rhs \<le> UINT64_MAX"
    and "\<And>buf. de_data_sp rhs = Some buf \<Longrightarrow> length buf \<le> UINT64_MAX"
  shows "snd (Append d rhs) \<and>
    de_bytes (fst (Append d rhs)) =
      (if GetByteSize d = 0 \<and> GetByteSize rhs > 0
       then (case de_data_sp rhs of Some buf \<Rightarrow> buf | None \<Rightarrow> de_bytes rhs)
       else de_bytes d @ de_bytes rhs)"
  using assms
  by (auto simp: Append_def Copy_def window GetByteSize_def split: option.splits)

section \<open>The cursor interface\<close>

text \<open>
  What a parser relies on when it reads through an offset: a read never moves the offset
  back, and never moves it past the end of the data.
\<close>

locale cursor =
  fixes rd :: "nat \<Rightarrow> 'v \<times> nat"
    and limit :: nat
  assumes advance: "off \<le> snd (rd off)"
    and within: "off \<le> limit \<Longrightarrow> snd (rd off) \<le> limit"
begin

lemma repeat_advance: "off \<le> snd (repeat_read rd k off)"
proof (induction k arbitrary: off)
  case 0
  then show ?case by simp
next
  case (Suc k)
  have "off \<le> snd (rd off)" by (rule advance)
  also have "\<dots> \<le> snd (repeat_read rd k (snd (rd off)))" by (rule Suc.IH)
  finally show ?case by (simp add: split_beta)
qed

lemma repeat_within: "off \<le> limit \<Longrightarrow> snd (repeat_read rd k off) \<le> limit"
proof (induction k arbitrary: off)
  case 0
  then show ?case by simp
next
  case (Suc k)
  then have "snd (repeat_read rd k (snd (rd off))) \<le> limit"
    by (intro Suc.IH within)
  then show ?case by (simp add: split_beta)
qed

end

lemma GetData_cursor:
  assumes "0 < n"
  shows "off \<le> snd (GetData d off n)" "off \<le> GetByteSize d \<Longrightarrow> snd (GetData d off n) \<le> GetByteSize d"
  using assms by (simp_all add: GetData_pos)

lemma GetData_reads:
  "snd (GetU8 d off) = snd (GetData d off 1)" "snd (GetU16 pl d off) = snd (GetData d off 2)"
  "snd (GetU32 pl d off) = snd (GetData d off 4)" "snd (GetU64 pl d off) = snd (GetData d off 8)"
  by (auto simp: GetU8_def GetU16_def GetU32_def GetU64_def GetData_def split: option.splits)

lemma GetMaxU64_reads: "0 < n \<Longrightarrow> snd (GetMaxU64 pl d off n) = snd (GetData d off n)"
  by (auto simp: GetMaxU64_def GetData_reads split_beta simp flip: One_nat_def)
    (auto simp: GetData_def split: option.splits)

interpretation u8_cursor: cursor "GetU8 d" "GetByteSize d" for d
  by unfold_locales (simp_all add: GetData_reads GetData_cursor)

interpretation u16_cursor: cursor "GetU16 pl d" "GetByteSize d" for pl d
  by unfold_locales (simp_all add: GetData_reads GetData_cursor)

interpretation u32_cursor: cursor "GetU32 pl d" "GetByteSize d" for pl d
  by unfold_locales (simp_all add: GetData_reads GetData_cursor)

interpretation u64_cursor: cursor "GetU64 pl d" "GetByteSize d" for pl d
  by unfold_locales (simp_all add: GetData_reads GetData_cursor)

interpretation max_cursor: cursor "\<lambda>off. GetMaxU64 pl d off (Suc n)" "GetByteSize d" for pl d n
  by unfold_locales (simp_all add: GetMaxU64_reads GetData_cursor)

section \<open>Concrete inputs\<close>

definition demo_extractor :: "byte_order \<Rightarrow> data_extractor" where
  "demo_extractor bo =
     DataExtractor_of_bytes [0xe5, 0x8e, 0x26, 0x9b, 0xf1, 0x59, 0x12, 0x34, 0x56] bo 8 1"

lemmas demo_simps = demo_extractor_def DataExtractor_of_bytes_def GetByteSize_def de_bytes_def
  order_ok_def slice_nat_def order_nat_def be_nat_def bitfield_lsb_def

theorem GetU32_array_witness:
  "GetU32_array x86_64 (demo_extractor eByteOrderBig) 1 2 =
    (let (vs, off') = repeat_read (GetU32 x86_64 (demo_extractor eByteOrderBig)) 2 1 in (Some vs, off'))"
  using GetU32_array_correct [of 2 x86_64 "demo_extractor eByteOrderBig" 1]
  by (simp add: demo_simps)

theorem GetMaxS64Bitfield_witness:
  "GetMaxS64Bitfield x86_64 (demo_extractor eByteOrderBig) 3 2 4 4 = Some (- 5, 5)"
  using GetMaxS64Bitfield_correct [of x86_64 "demo_extractor eByteOrderBig" 2 3 4 4] x86_64_ok
  by (simp add: demo_simps)

theorem CopyByteOrderedData_witness:
  "\<exists>dst. CopyByteOrderedData (demo_extractor eByteOrderBig) 0 3 4 eByteOrderLittle = Some (Some dst, 3) \<and>
    length dst = 4 \<and> le_nat dst = 0xe58e26"
  using CopyByteOrderedData_value [of "demo_extractor eByteOrderBig" 0 3 4 eByteOrderLittle]
  by (simp add: demo_simps copy_asserts_def ValidOffsetForDataOfSize_def BytesLeft_def)

theorem GetULEB128_witness: "GetULEB128 (demo_extractor eByteOrderLittle) 0 = Some (624485, 3)"
  using GetULEB128_correct [of "[0xe5, 0x8e, 0x26]" 0 "demo_extractor eByteOrderLittle"
      "[0x9b, 0xf1, 0x59, 0x12, 0x34, 0x56]"]
  by (simp add: demo_simps leb_encoding_def)

theorem GetSLEB128_witness: "GetSLEB128 (demo_extractor eByteOrderLittle) 3 = Some (- 624485, 6)"
  using GetSLEB128_correct [of "[0x9b, 0xf1, 0x59]" 3 "demo_extractor eByteOrderLittle"
      "[0x12, 0x34, 0x56]"]
  by (simp add: demo_simps leb_encoding_def sleb_negative_def sleb_int_def)

theorem Skip_LEB128_witness: "Skip_LEB128 (demo_extractor eByteOrderLittle) 0 = (2, 3)"
  using Skip_LEB128_correct [of "[0xe5, 0x8e, 0x26]" 0 "demo_extractor eByteOrderLittle"
      "[0x9b, 0xf1, 0x59, 0x12, 0x34, 0x56]"]
  by (simp add: demo_simps leb_encoding_def)

theorem Append_witness:
  "snd (Append (demo_extractor eByteOrderBig) (demo_extractor eByteOrderBig)) \<and>
    GetByteSize (fst (Append (demo_extractor eByteOrderBig) (demo_extractor eByteOrderBig))) = 18"
  using Append_bytes [of "demo_extractor eByteOrderBig" "demo_extractor eByteOrderBig"]
  by (simp add: demo_simps UINT64_MAX_def)

end
