(* ===== verification/DataEncoder.thy ===== *)
theory DataEncoder
  imports DataExtractor
begin

text \<open>
  \<open>DataEncoder\<close> (source/Utility/DataEncoder.cpp): the counterpart of \<open>DataExtractor\<close>, which
  writes integers, bytes and C strings into a buffer at a 32-bit offset and returns the
  offset after what it wrote, or \<open>UINT32_MAX\<close>. The reads of \<open>DataExtractor\<close> are the
  specification it is checked against.
\<close>

section \<open>The object\<close>

text \<open>\<open>en_start\<close> holds the bytes from \<open>m_start\<close> up to \<open>m_end\<close>; \<open>None\<close> when \<open>m_start\<close> is null.\<close>

record data_encoder =
  en_start :: "u8 list option"
  en_byte_order :: byte_order
  en_addr_size :: nat

definition en_bytes :: "data_encoder \<Rightarrow> u8 list" where
  "en_bytes e = (case en_start e of None \<Rightarrow> [] | Some w \<Rightarrow> w)"

definition DataEncoder_of_bytes :: "u8 list \<Rightarrow> byte_order \<Rightarrow> nat \<Rightarrow> data_encoder" where
  "DataEncoder_of_bytes data endian addr_size =
     \<lparr>en_start = Some data, en_byte_order = endian, en_addr_size = addr_size\<rparr>"

definition SetData_enc :: "data_encoder \<Rightarrow> u8 list option \<Rightarrow> nat \<Rightarrow> byte_order \<Rightarrow> data_encoder \<times> nat" where
  "SetData_enc e bytes len endian =
     (let e = e\<lparr>en_byte_order := endian,
                en_start := (case bytes of
                   None \<Rightarrow> None
                 | Some p \<Rightarrow> if len = 0 then None else Some (take len p))\<rparr>
      in (e, length (en_bytes e) mod 2 ^ 32))"

text \<open>The 32-bit bounds of the encoder: the size is truncated to \<open>uint32_t\<close>.\<close>

definition ValidOffset_enc :: "data_encoder \<Rightarrow> nat \<Rightarrow> bool" where
  "ValidOffset_enc e offset \<longleftrightarrow> offset < length (en_bytes e)"

definition BytesLeft_enc :: "data_encoder \<Rightarrow> nat \<Rightarrow> nat" where
  "BytesLeft_enc e offset =
     (let n = length (en_bytes e) mod 2 ^ 32 in if n > offset then n - offset else 0)"

definition ValidOffsetForDataOfSize_enc :: "data_encoder \<Rightarrow> nat \<Rightarrow> nat \<Rightarrow> bool" where
  "ValidOffsetForDataOfSize_enc e offset len \<longleftrightarrow> len \<le> BytesLeft_enc e offset"

section \<open>Writes\<close>

text \<open>Storing bytes at \<open>m_start + offset\<close>.\<close>

definition store :: "data_encoder \<Rightarrow> nat \<Rightarrow> u8 list \<Rightarrow> data_encoder" where
  "store e offset bs =
     e\<lparr>en_start := map_option (\<lambda>w. take offset w @ bs @ drop (offset + length bs) w) (en_start e)\<rparr>"

definition PutU8 :: "data_encoder \<Rightarrow> nat \<Rightarrow> u8 \<Rightarrow> data_encoder \<times> nat" where
  "PutU8 e offset v =
     (if ValidOffset_enc e offset then (store e offset [v], (offset + 1) mod 2 ^ 32)
      else (e, UINT32_MAX))"

definition PutU16 :: "platform \<Rightarrow> data_encoder \<Rightarrow> nat \<Rightarrow> u16 \<Rightarrow> data_encoder \<times> nat" where
  "PutU16 pl e offset v =
     (if ValidOffsetForDataOfSize_enc e offset 2
      then (store e offset (if en_byte_order e \<noteq> InlHostByteOrder pl then write16be pl v
                            else write16le pl v), (offset + 2) mod 2 ^ 32)
      else (e, UINT32_MAX))"

definition PutU32 :: "platform \<Rightarrow> data_encoder \<Rightarrow> nat \<Rightarrow> u32 \<Rightarrow> data_encoder \<times> nat" where
  "PutU32 pl e offset v =
     (if ValidOffsetForDataOfSize_enc e offset 4
      then (store e offset (if en_byte_order e \<noteq> InlHostByteOrder pl then write32be pl v
                            else write32le pl v), (offset + 4) mod 2 ^ 32)
      else (e, UINT32_MAX))"

definition PutU64 :: "platform \<Rightarrow> data_encoder \<Rightarrow> nat \<Rightarrow> u64 \<Rightarrow> data_encoder \<times> nat" where
  "PutU64 pl e offset v =
     (if ValidOffsetForDataOfSize_enc e offset 8
      then (store e offset (if en_byte_order e \<noteq> InlHostByteOrder pl then write64be pl v
                            else write64le pl v), (offset + 8) mod 2 ^ 32)
      else (e, UINT32_MAX))"

text \<open>\<open>None\<close> is \<open>llvm_unreachable\<close>.\<close>

definition PutMaxU64 :: "platform \<Rightarrow> data_encoder \<Rightarrow> nat \<Rightarrow> nat \<Rightarrow> u64 \<Rightarrow> (data_encoder \<times> nat) option" where
  "PutMaxU64 pl e offset byte_size v =
     (if byte_size = 1 then Some (PutU8 e offset (ucast v))
      else if byte_size = 2 then Some (PutU16 pl e offset (ucast v))
      else if byte_size = 4 then Some (PutU32 pl e offset (ucast v))
      else if byte_size = 8 then Some (PutU64 pl e offset v)
      else None)"

definition PutData :: "data_encoder \<Rightarrow> nat \<Rightarrow> u8 list option \<Rightarrow> data_encoder \<times> nat" where
  "PutData e offset src =
     (case src of
        None \<Rightarrow> (e, offset)
      | Some bs \<Rightarrow>
          if length bs = 0 then (e, offset)
          else if ValidOffsetForDataOfSize_enc e offset (length bs)
          then (store e offset bs, (offset + length bs) mod 2 ^ 32)
          else (e, UINT32_MAX))"

definition PutAddress :: "platform \<Rightarrow> data_encoder \<Rightarrow> nat \<Rightarrow> u64 \<Rightarrow> (data_encoder \<times> nat) option" where
  "PutAddress pl e offset addr = PutMaxU64 pl e offset (en_addr_size e) addr"

text \<open>A C string is the list of its characters before the terminator.\<close>

definition PutCString :: "data_encoder \<Rightarrow> nat \<Rightarrow> u8 list option \<Rightarrow> data_encoder \<times> nat" where
  "PutCString e offset cstr =
     (case cstr of
        Some s \<Rightarrow> PutData e offset (Some (s @ [0]))
      | None \<Rightarrow> (e, UINT32_MAX))"

section \<open>What a read finds after a write\<close>

definition reader_of :: "data_encoder \<Rightarrow> data_extractor" where
  "reader_of e = DataExtractor_of_bytes (en_bytes e) (en_byte_order e) (en_addr_size e) 1"

lemma en_bytes_store:
  "offset + length bs \<le> length (en_bytes e) \<Longrightarrow> 0 < length bs \<Longrightarrow>
   en_bytes (store e offset bs) =
     take offset (en_bytes e) @ bs @ drop (offset + length bs) (en_bytes e)"
  by (auto simp: en_bytes_def store_def split: option.splits)

lemma store_slice:
  "offset + length bs \<le> length (en_bytes e) \<Longrightarrow> 0 < length bs \<Longrightarrow>
   take (length bs) (drop offset (en_bytes (store e offset bs))) = bs \<and>
   length (en_bytes (store e offset bs)) = length (en_bytes e)"
  by (auto simp: en_bytes_store min_def)

lemma store_order [simp]: "en_byte_order (store e offset bs) = en_byte_order e"
  by (simp add: store_def)

lemma valid_enc:
  "length (en_bytes e) < 2 ^ 32 \<Longrightarrow> 0 < n \<Longrightarrow> offset + n \<le> length (en_bytes e) \<Longrightarrow>
   ValidOffsetForDataOfSize_enc e offset n"
  by (simp add: ValidOffsetForDataOfSize_enc_def BytesLeft_enc_def Let_def)

text \<open>Reading \<open>k\<close> bytes back at the place they were stored.\<close>

lemma read_back:
  assumes "platform_ok pl" "en_byte_order e = eByteOrderBig \<or> en_byte_order e = eByteOrderLittle"
    and "offset + length bs \<le> length (en_bytes e)" "0 < length bs" "length bs \<le> 8"
  shows "GetMaxU64 pl (reader_of (store e offset bs)) offset (length bs) =
    (word_of_nat (order_nat (en_byte_order e) bs), offset + length bs)"
proof -
  have "order_ok (reader_of (store e offset bs))"
    using assms(2) by (auto simp: order_ok_def reader_of_def DataExtractor_of_bytes_def)
  moreover have "de_bytes (reader_of (store e offset bs)) = en_bytes (store e offset bs)"
    by (simp add: reader_of_def DataExtractor_of_bytes_def de_bytes_def)
  moreover have "de_byte_order (reader_of (store e offset bs)) = en_byte_order e"
    by (simp add: reader_of_def DataExtractor_of_bytes_def)
  ultimately show ?thesis
    using GetMaxU64_correct [of pl "reader_of (store e offset bs)" "length bs" offset]
      store_slice [OF assms(3,4)] assms
    by (simp add: GetByteSize_def slice_nat_def)
qed

text \<open>The bytes each write stores on a little endian host.\<close>

lemma written_bytes:
  fixes v :: "'a::len word"
  assumes "writes_le k wle" "writes_be k wbe" "bo = eByteOrderBig \<or> bo = eByteOrderLittle"
  defines "bs \<equiv> (if bo \<noteq> eByteOrderLittle then wbe v else wle v)"
  shows "length bs = k" "order_nat bo bs = unat v"
  using assms by (auto simp: writes_le_def writes_be_def order_nat_def)

text \<open>C28: On a little endian host, an integer of 1, 2, 4 or 8 bytes stored at an offset in either
  byte order is read back there by the extractor with the same value (truncated to the
  size), and every byte outside the written range is unchanged.\<close>

theorem PutMaxU64_roundtrip:
  assumes "platform_ok pl" "InlHostByteOrder pl = eByteOrderLittle"
    and "en_byte_order e = eByteOrderBig \<or> en_byte_order e = eByteOrderLittle"
    and "n \<in> {1, 2, 4, 8}" "offset + n \<le> length (en_bytes e)" "length (en_bytes e) < 2 ^ 32"
  shows "\<exists>e'. PutMaxU64 pl e offset n v = Some (e', offset + n) \<and>
    GetMaxU64 pl (reader_of e') offset n = (word_of_nat (unat v mod 256 ^ n), offset + n) \<and>
    take offset (en_bytes e') = take offset (en_bytes e) \<and>
    drop (offset + n) (en_bytes e') = drop (offset + n) (en_bytes e)"
proof -
  have "\<exists>bs. length bs = n \<and> order_nat (en_byte_order e) bs = unat v mod 256 ^ n \<and>
      PutMaxU64 pl e offset n v = Some (store e offset bs, offset + n)"
  proof -
    have valid: "ValidOffsetForDataOfSize_enc e offset n" "(offset + n) mod 2 ^ 32 = offset + n"
      using assms(4-6) by (auto simp: valid_enc)
    have w: "writes_le 2 (write16le pl)" "writes_be 2 (write16be pl)" "writes_le 4 (write32le pl)"
        "writes_be 4 (write32be pl)" "writes_le 8 (write64le pl)" "writes_be 8 (write64be pl)"
      using assms(1) by (simp_all add: platform_ok_def)
    have v: "unat v < 256 ^ 8"
      using unat_lt_64 [of v] by simp
    consider "n = 1" | "n = 2" | "n = 4" | "n = 8"
      using assms(4) by auto
    then show ?thesis
    proof cases
      case 1
      with valid assms(5) show ?thesis
        by (intro exI [of _ "[ucast v]"])
          (simp add: PutMaxU64_def PutU8_def ValidOffset_enc_def unat_ucast_mod)
    next
      case 2
      with valid written_bytes [OF w(1,2) assms(3), of "ucast v"] show ?thesis
        by (intro exI [of _ "if en_byte_order e \<noteq> eByteOrderLittle then write16be pl (ucast v)
            else write16le pl (ucast v)"])
          (simp add: PutMaxU64_def PutU16_def assms(2) unat_ucast_mod)
    next
      case 3
      with valid written_bytes [OF w(3,4) assms(3), of "ucast v"] show ?thesis
        by (intro exI [of _ "if en_byte_order e \<noteq> eByteOrderLittle then write32be pl (ucast v)
            else write32le pl (ucast v)"])
          (simp add: PutMaxU64_def PutU32_def assms(2) unat_ucast_mod)
    next
      case 4
      with valid written_bytes [OF w(5,6) assms(3), of v] v show ?thesis
        by (intro exI [of _ "if en_byte_order e \<noteq> eByteOrderLittle then write64be pl v
            else write64le pl v"])
          (simp add: PutMaxU64_def PutU64_def assms(2))
    qed
  qed
  then obtain bs where bs: "length bs = n" "order_nat (en_byte_order e) bs = unat v mod 256 ^ n"
      "PutMaxU64 pl e offset n v = Some (store e offset bs, offset + n)"
    by blast
  have n: "0 < n" "n \<le> 8"
    using assms(4) by auto
  have fit: "offset + length bs \<le> length (en_bytes e)" "0 < length bs" "length bs \<le> 8"
    using bs(1) n assms(5) by simp_all
  from read_back [OF assms(1,3) fit] en_bytes_store [OF fit(1,2)] bs fit(1) show ?thesis
    by (intro exI [of _ "store e offset bs"]) (auto simp: min_def)
qed

text \<open>On a big endian host the encoder's test of the byte order selects the wrong writer: a
  big endian number is stored little endian and is read back with its bytes swapped.\<close>

theorem PutU32_big_endian_host:
  assumes "platform_ok pl" "InlHostByteOrder pl = eByteOrderBig" "en_byte_order e = eByteOrderBig"
    and "offset + 4 \<le> length (en_bytes e)" "length (en_bytes e) < 2 ^ 32"
  shows "GetU32 pl (reader_of (fst (PutU32 pl e offset v))) offset =
    (ByteSwap_32 pl v, offset + 4)"
proof -
  let ?bs = "write32le pl v"
  have w: "length ?bs = 4" "le_nat ?bs = unat v"
    using assms(1) by (simp_all add: platform_ok_def writes_le_def)
  have "fst (PutU32 pl e offset v) = store e offset ?bs"
    using assms(2-5) by (simp add: PutU32_def valid_enc)
  moreover have "GetMaxU64 pl (reader_of (store e offset ?bs)) offset 4 =
      (word_of_nat (be_nat ?bs), offset + 4)"
    using read_back [of pl e offset ?bs] assms w(1) by (simp add: order_nat_def)
  moreover have "ByteSwap_32 pl v = word_of_nat (be_nat ?bs)"
  proof -
    have "ByteSwap_32 pl (word_of_nat (le_nat ?bs)) = word_of_nat (be_nat ?bs)"
      using assms(1) w(1) by (simp add: platform_ok_def)
    then show ?thesis by (simp add: w(2))
  qed
  moreover have "de_bytes (reader_of (store e offset ?bs)) = en_bytes (store e offset ?bs)"
    by (simp add: reader_of_def DataExtractor_of_bytes_def de_bytes_def)
  ultimately show ?thesis
    using GetU32_eq [of pl "reader_of (store e offset ?bs)" offset] assms w
      store_slice [of offset ?bs e]
    by (simp add: order_ok_def reader_of_def DataExtractor_of_bytes_def GetByteSize_def
        slice_nat_def order_nat_def)
qed

section \<open>Concrete inputs\<close>

definition demo_encoder :: data_encoder where
  "demo_encoder = DataEncoder_of_bytes (replicate 8 0) eByteOrderBig 4"

theorem PutMaxU64_witness:
  "\<exists>e'. PutMaxU64 x86_64 demo_encoder 2 4 0x1122334455667788 = Some (e', 6) \<and>
    GetMaxU64 x86_64 (reader_of e') 2 4 = (0x55667788, 6)"
  using PutMaxU64_roundtrip [where pl = x86_64 and e = demo_encoder and n = 4 and offset = 2 and v = "0x1122334455667788"] x86_64_ok
  by (auto simp: demo_encoder_def DataEncoder_of_bytes_def make_platform_def en_bytes_def)

lemma swap_demo: "ByteSwap_32 s390x 0x11223344 = 0x44332211"
proof -
  have "unat (0x11223344 :: u32) = 0x11223344" by simp
  moreover have "nat_le_bytes 4 0x11223344 = [0x44, 0x33, 0x22, 0x11]"
  proof -
    have four: "(4 :: nat) = Suc (Suc (Suc (Suc 0)))" by simp
    have "nat_le_bytes (Suc (Suc (Suc (Suc 0)))) 0x11223344 = [0x44, 0x33, 0x22, 0x11]"
      by (simp add: word_unat_eq_iff)
    then show ?thesis by (simp only: four)
  qed
  moreover have "be_nat [0x44, 0x33, 0x22, 0x11] = 0x44332211"
    by (simp add: be_nat_def)
  ultimately have "swap_bytes 4 (unat (0x11223344 :: u32)) = 0x44332211"
    by (simp only: swap_bytes_def)
  then show ?thesis
    by (simp add: make_platform_def)
qed

lemma demo_encoder_simps:
  "InlHostByteOrder s390x = eByteOrderBig" "en_byte_order demo_encoder = eByteOrderBig"
  "length (en_bytes demo_encoder) = 8"
  by (simp_all add: demo_encoder_def DataEncoder_of_bytes_def make_platform_def en_bytes_def)

theorem PutU32_big_endian_host_witness:
  "GetU32 s390x (reader_of (fst (PutU32 s390x demo_encoder 0 0x11223344))) 0 = (0x44332211, 4)"
  using PutU32_big_endian_host [where pl = s390x and e = demo_encoder and offset = 0 and v = "0x11223344"]
  by (simp add: s390x_ok swap_demo demo_encoder_simps)

end
