(* ===== verification/StringExtractor.thy ===== *)
theory StringExtractor
  imports Prelude
begin

text \<open>
  \<open>StringExtractor\<close> (source/Utility/StringExtractor.cpp, include/lldb/Utility/StringExtractor.h):
  a cursor on the text of a packet of the GDB remote protocol, with decoders for hexadecimal
  bytes, numbers and \<open>name:value;\<close> lists; and the hexadecimal printers of \<open>Stream\<close>
  (source/Utility/Stream.cpp) that the sending side uses.

  The cursor \<open>m_index\<close> is a \<open>uint64_t\<close> kept here as a \<open>nat\<close>; \<open>UINT64_MAX\<close> is the error
  position. Characters are compared as the \<open>char\<close> values of the C locale.
\<close>

section \<open>The object\<close>

record string_extractor =
  se_packet :: string
  se_index :: nat

definition StringExtractor_of :: "string \<Rightarrow> string_extractor" where
  "StringExtractor_of packet_str = \<lparr>se_packet = packet_str, se_index = 0\<rparr>"

definition IsGood :: "string_extractor \<Rightarrow> bool" where
  "IsGood s \<longleftrightarrow> se_index s \<noteq> UINT64_MAX"

definition SetFilePos :: "string_extractor \<Rightarrow> nat \<Rightarrow> string_extractor" where
  "SetFilePos s idx = s\<lparr>se_index := idx\<rparr>"

definition Clear_se :: "string_extractor \<Rightarrow> string_extractor" where
  "Clear_se s = s\<lparr>se_packet := [], se_index := 0\<rparr>"

definition GetBytesLeft :: "string_extractor \<Rightarrow> nat" where
  "GetBytesLeft s =
     (if se_index s < length (se_packet s) then length (se_packet s) - se_index s else 0)"

definition fail :: "string_extractor \<Rightarrow> string_extractor" where
  "fail s = s\<lparr>se_index := UINT64_MAX\<rparr>"

text \<open>The characters from the cursor on: \<open>None\<close> is the null pointer.\<close>

definition Peek :: "string_extractor \<Rightarrow> string option" where
  "Peek s = (if se_index s < length (se_packet s) then Some (drop (se_index s) (se_packet s))
             else None)"

definition PeekChar :: "string_extractor \<Rightarrow> char \<Rightarrow> char" where
  "PeekChar s fail_value = (case Peek s of Some cstr \<Rightarrow> cstr ! 0 | None \<Rightarrow> fail_value)"

definition GetChar :: "string_extractor \<Rightarrow> char \<Rightarrow> char \<times> string_extractor" where
  "GetChar s fail_value =
     (if se_index s < length (se_packet s)
      then (se_packet s ! se_index s, s\<lparr>se_index := se_index s + 1\<rparr>)
      else (fail_value, s\<lparr>se_index := UINT64_MAX\<rparr>))"

definition SkipSpaces :: "string_extractor \<Rightarrow> string_extractor" where
  "SkipSpaces s =
     s\<lparr>se_index := se_index s + length (takeWhile isspace (drop (se_index s) (se_packet s)))\<rparr>"

section \<open>Hexadecimal bytes\<close>

definition xdigit_to_sint :: "char \<Rightarrow> int" where
  "xdigit_to_sint ch =
     (let n = int (of_char ch)
      in if 97 \<le> n \<and> n \<le> 102 then 10 + n - 97
         else if 65 \<le> n \<and> n \<le> 70 then 10 + n - 65
         else if 48 \<le> n \<and> n \<le> 57 then n - 48
         else -1)"

definition DecodeHexU8 :: "string_extractor \<Rightarrow> int \<times> string_extractor" where
  "DecodeHexU8 s =
     (let s = SkipSpaces s
      in if GetBytesLeft s < 2 then (-1, s)
         else let hi_nibble = xdigit_to_sint (se_packet s ! se_index s);
                  lo_nibble = xdigit_to_sint (se_packet s ! (se_index s + 1))
              in if hi_nibble = -1 \<or> lo_nibble = -1 then (-1, s)
                 else ((hi_nibble * 16 + lo_nibble) mod 256, s\<lparr>se_index := se_index s + 2\<rparr>))"

text \<open>\<open>None\<close> when the byte parameter is left unchanged and the result is \<open>false\<close>.\<close>

definition GetHexU8Ex :: "string_extractor \<Rightarrow> bool \<Rightarrow> u8 option \<times> string_extractor" where
  "GetHexU8Ex s set_eof_on_fail =
     (let (byte, s) = DecodeHexU8 s
      in if byte = -1
         then (None, if set_eof_on_fail \<or> se_index s \<ge> length (se_packet s)
                     then s\<lparr>se_index := UINT64_MAX\<rparr> else s)
         else (Some (word_of_int byte), s))"

definition GetHexU8 :: "string_extractor \<Rightarrow> u8 \<Rightarrow> bool \<Rightarrow> u8 \<times> string_extractor" where
  "GetHexU8 s fail_value set_eof_on_fail =
     (let (r, s) = GetHexU8Ex s set_eof_on_fail
      in (case r of None \<Rightarrow> fail_value | Some ch \<Rightarrow> ch, s))"

text \<open>The destination array is the result; \<open>n\<close> is the number of its bytes not written yet.
  When the cursor fails, the rest is filled, the slot just tried included.\<close>

fun hex_bytes_loop ::
  "nat \<Rightarrow> string_extractor \<Rightarrow> u8 \<Rightarrow> u8 list \<Rightarrow> nat \<Rightarrow> u8 list \<times> nat \<times> string_extractor" where
  "hex_bytes_loop 0 s fail_fill_value dest bytes_extracted = (dest, bytes_extracted, s)"
| "hex_bytes_loop (Suc n) s fail_fill_value dest bytes_extracted =
     (if GetBytesLeft s > 0
      then let (b, s) = GetHexU8 s fail_fill_value True
           in if \<not> IsGood s
              then (dest @ replicate (Suc n) fail_fill_value, bytes_extracted, s)
              else hex_bytes_loop n s fail_fill_value (dest @ [b]) (bytes_extracted + 1)
      else (dest @ replicate (Suc n) fail_fill_value, bytes_extracted, s))"

definition GetHexBytes :: "string_extractor \<Rightarrow> nat \<Rightarrow> u8 \<Rightarrow> u8 list \<times> nat \<times> string_extractor" where
  "GetHexBytes s dest_size fail_fill_value = hex_bytes_loop dest_size s fail_fill_value [] 0"

fun hex_avail_loop :: "nat \<Rightarrow> string_extractor \<Rightarrow> u8 list \<Rightarrow> u8 list \<times> string_extractor" where
  "hex_avail_loop 0 s dest = (dest, s)"
| "hex_avail_loop (Suc n) s dest =
     (let (decode, s) = DecodeHexU8 s
      in if decode = -1 then (dest, s) else hex_avail_loop n s (dest @ [word_of_int decode]))"

text \<open>The bytes written at the head of the destination; their number is the result.\<close>

definition GetHexBytesAvail :: "string_extractor \<Rightarrow> nat \<Rightarrow> u8 list \<times> string_extractor" where
  "GetHexBytesAvail s dest_size = hex_avail_loop dest_size s []"

section \<open>Hexadecimal numbers\<close>

text \<open>
  The two loops of \<open>GetHexMaxU32\<close> and \<open>GetHexMaxU64\<close>, over the characters from the cursor
  on, at the width of the result: \<open>max_nibbles\<close> is \<open>sizeof * 2\<close>. The result is \<open>None\<close> when
  there are too many digits, and otherwise the number and the characters consumed.
\<close>

fun hexmax_le_loop ::
  "nat \<Rightarrow> string \<Rightarrow> 'a::len word \<Rightarrow> nat \<Rightarrow> nat \<Rightarrow> nat \<Rightarrow> ('a word \<times> nat) option" where
  "hexmax_le_loop max_nibbles [] result nibble_count shift_amount n = Some (result, n)"
| "hexmax_le_loop max_nibbles (c # cs) result nibble_count shift_amount n =
     (if \<not> isxdigit c then Some (result, n)
      else if nibble_count \<ge> max_nibbles then None
      else let nibble_hi = word_of_int (xdigit_to_sint c)
           in case cs of
                [] \<Rightarrow> Some (result OR push_bit shift_amount nibble_hi, n + 1)
              | d # ds \<Rightarrow>
                  if isxdigit d
                  then let nibble_lo = word_of_int (xdigit_to_sint d);
                           result = result OR push_bit (shift_amount + 4) nibble_hi;
                           result = result OR push_bit shift_amount nibble_lo
                       in hexmax_le_loop max_nibbles ds result (nibble_count + 2)
                            (shift_amount + 8) (n + 2)
                  else Some (result OR push_bit shift_amount nibble_hi, n + 1))"

fun hexmax_be_loop ::
  "nat \<Rightarrow> string \<Rightarrow> 'a::len word \<Rightarrow> nat \<Rightarrow> nat \<Rightarrow> ('a word \<times> nat) option" where
  "hexmax_be_loop max_nibbles [] result nibble_count n = Some (result, n)"
| "hexmax_be_loop max_nibbles (c # cs) result nibble_count n =
     (if \<not> isxdigit c then Some (result, n)
      else if nibble_count \<ge> max_nibbles then None
      else let nibble = word_of_int (xdigit_to_sint c)
           in hexmax_be_loop max_nibbles cs (push_bit 4 result OR nibble) (nibble_count + 1) (n + 1))"

definition GetHexMaxU32 :: "string_extractor \<Rightarrow> bool \<Rightarrow> u32 \<Rightarrow> u32 \<times> string_extractor" where
  "GetHexMaxU32 s little_endian fail_value =
     (let s = SkipSpaces s;
          rest = drop (se_index s) (se_packet s)
      in case (if little_endian then hexmax_le_loop 8 rest 0 0 0 0
               else hexmax_be_loop 8 rest 0 0 0) of
           None \<Rightarrow> (fail_value, s\<lparr>se_index := UINT64_MAX\<rparr>)
         | Some (result, n) \<Rightarrow> (result, s\<lparr>se_index := se_index s + n\<rparr>))"

definition GetHexMaxU64 :: "string_extractor \<Rightarrow> bool \<Rightarrow> u64 \<Rightarrow> u64 \<times> string_extractor" where
  "GetHexMaxU64 s little_endian fail_value =
     (let s = SkipSpaces s;
          rest = drop (se_index s) (se_packet s)
      in case (if little_endian then hexmax_le_loop 16 rest 0 0 0 0
               else hexmax_be_loop 16 rest 0 0 0) of
           None \<Rightarrow> (fail_value, s\<lparr>se_index := UINT64_MAX\<rparr>)
         | Some (result, n) \<Rightarrow> (result, s\<lparr>se_index := se_index s + n\<rparr>))"

text \<open>The number decoded by the loops of \<open>GetHexWithFixedSize\<close>.\<close>

fun fixed_size_loop :: "nat \<Rightarrow> bool \<Rightarrow> string_extractor \<Rightarrow> u64 \<Rightarrow> nat \<Rightarrow> u64 \<times> string_extractor" where
  "fixed_size_loop 0 little_endian s result shift_amount = (result, s)"
| "fixed_size_loop (Suc n) little_endian s result shift_amount =
     (if \<not> IsGood s then (result, s)
      else let (b, s) = GetHexU8 s 0 True
           in fixed_size_loop n little_endian s
                (if little_endian then result OR push_bit shift_amount (ucast b)
                 else push_bit 8 result OR ucast b) (shift_amount + 8))"

definition GetHexWithFixedSize ::
  "string_extractor \<Rightarrow> nat \<Rightarrow> bool \<Rightarrow> u64 \<Rightarrow> u64 \<times> string_extractor" where
  "GetHexWithFixedSize s byte_size little_endian fail_value =
     (let s = (if byte_size \<le> 8 \<and> GetBytesLeft s \<ge> byte_size * 2
               then let (result, s) = fixed_size_loop byte_size little_endian s 0 0 in s
               else s);
          s = s\<lparr>se_index := UINT64_MAX\<rparr>
      in (fail_value, s))"

section \<open>Decimal numbers\<close>

text \<open>
  \<open>strtoul\<close>, \<open>strtol\<close> and their 64-bit forms (64-bit \<open>long\<close>): blanks, a sign, the base prefix
  and the longest run of digits. The result is the sign, the magnitude and the characters
  consumed, 0 when there is no number.
\<close>

definition digit_value :: "char \<Rightarrow> nat" where
  "digit_value c =
     (let n = of_char c
      in if 48 \<le> n \<and> n \<le> 57 then n - 48
         else if 65 \<le> n \<and> n \<le> 90 then n - 55
         else if 97 \<le> n \<and> n \<le> 122 then n - 87
         else 36)"

definition strto_sign :: "string \<Rightarrow> bool \<times> nat" where
  "strto_sign s =
     (case s of
        [] \<Rightarrow> (False, 0)
      | c # _ \<Rightarrow> if c = CHR ''-'' then (True, 1) else if c = CHR ''+'' then (False, 1)
                else (False, 0))"

definition strto_prefix :: "nat \<Rightarrow> string \<Rightarrow> nat \<times> nat" where
  "strto_prefix base s =
     (let hex = length s \<ge> 3 \<and> s ! 0 = CHR ''0'' \<and> (s ! 1 = CHR ''x'' \<or> s ! 1 = CHR ''X'') \<and>
                digit_value (s ! 2) < 16
      in if (base = 0 \<or> base = 16) \<and> hex then (16, 2)
         else if base = 0 then (if s \<noteq> [] \<and> s ! 0 = CHR ''0'' then 8 else 10, 0)
         else (base, 0))"

definition strto :: "nat \<Rightarrow> string \<Rightarrow> bool \<times> nat \<times> nat" where
  "strto base s =
     (let blanks = length (takeWhile isspace s);
          (neg, sign) = strto_sign (drop blanks s);
          (base, prefix) = strto_prefix base (drop (blanks + sign) s);
          ds = takeWhile (\<lambda>c. digit_value c < base) (drop (blanks + sign + prefix) s)
      in if ds = [] then (False, 0, 0)
         else (neg, foldl (\<lambda>v c. v * base + digit_value c) 0 ds,
               blanks + sign + prefix + length ds))"

definition strtoull :: "nat \<Rightarrow> string \<Rightarrow> u64 \<times> nat" where
  "strtoull base s =
     (let (neg, v, n) = strto base s
      in (if v \<ge> 2 ^ 64 then word_of_nat UINT64_MAX
          else if neg then - word_of_nat v else word_of_nat v, n))"

definition strtoll :: "nat \<Rightarrow> string \<Rightarrow> u64 \<times> nat" where
  "strtoll base s =
     (let (neg, v, n) = strto base s
      in (if neg then if v > 2 ^ 63 then word_of_int (- (2 ^ 63)) else - word_of_nat v
          else if v \<ge> 2 ^ 63 then word_of_int (2 ^ 63 - 1) else word_of_nat v, n))"

definition GetU32_se :: "string_extractor \<Rightarrow> u32 \<Rightarrow> nat \<Rightarrow> u32 \<times> string_extractor" where
  "GetU32_se s fail_value base =
     (if se_index s < length (se_packet s)
      then let (result, n) = strtoull base (drop (se_index s) (se_packet s))
           in if n \<noteq> 0 then (ucast result, s\<lparr>se_index := se_index s + n\<rparr>) else (fail_value, s)
      else (fail_value, s))"

definition GetS32_se :: "string_extractor \<Rightarrow> u32 \<Rightarrow> nat \<Rightarrow> u32 \<times> string_extractor" where
  "GetS32_se s fail_value base =
     (if se_index s < length (se_packet s)
      then let (result, n) = strtoll base (drop (se_index s) (se_packet s))
           in if n \<noteq> 0 then (ucast result, s\<lparr>se_index := se_index s + n\<rparr>) else (fail_value, s)
      else (fail_value, s))"

definition GetU64_se :: "string_extractor \<Rightarrow> u64 \<Rightarrow> nat \<Rightarrow> u64 \<times> string_extractor" where
  "GetU64_se s fail_value base =
     (if se_index s < length (se_packet s)
      then let (result, n) = strtoull base (drop (se_index s) (se_packet s))
           in if n \<noteq> 0 then (result, s\<lparr>se_index := se_index s + n\<rparr>) else (fail_value, s)
      else (fail_value, s))"

definition GetS64_se :: "string_extractor \<Rightarrow> u64 \<Rightarrow> nat \<Rightarrow> u64 \<times> string_extractor" where
  "GetS64_se s fail_value base =
     (if se_index s < length (se_packet s)
      then let (result, n) = strtoll base (drop (se_index s) (se_packet s))
           in if n \<noteq> 0 then (result, s\<lparr>se_index := se_index s + n\<rparr>) else (fail_value, s)
      else (fail_value, s))"

section \<open>Strings\<close>

definition starts_with :: "string \<Rightarrow> string \<Rightarrow> bool" where
  "starts_with s prefix \<longleftrightarrow> take (length prefix) s = prefix"

definition ConsumeFront :: "string_extractor \<Rightarrow> string \<Rightarrow> bool \<times> string_extractor" where
  "ConsumeFront s str =
     (if \<not> starts_with (se_packet s) str then (False, s)
      else (True, s\<lparr>se_index := (se_index s + length str) mod 2 ^ 64\<rparr>))"

lemma GetHexU8_progress:
  "GetHexU8 s 0 e = (b, s') \<Longrightarrow> b \<noteq> 0 \<Longrightarrow> GetBytesLeft s' < GetBytesLeft s"
  by (auto simp: GetHexU8_def GetHexU8Ex_def DecodeHexU8_def SkipSpaces_def GetBytesLeft_def Let_def
      split: if_splits)

function hex_string_loop :: "string_extractor \<Rightarrow> bool \<Rightarrow> string \<Rightarrow> string \<times> string_extractor" where
  "hex_string_loop s e str =
     (case GetHexU8 s 0 e of
        (b, s') \<Rightarrow> if b = 0 then (str, s') else hex_string_loop s' e (str @ [char_of_u8 b]))"
  by pat_completeness auto
termination
  by (relation "measure (\<lambda>(s, e, str). GetBytesLeft s)") (auto dest: GetHexU8_progress [OF sym])

declare hex_string_loop.simps [simp del]

text \<open>The string is the result; its length is what the code returns.\<close>

definition GetHexByteString :: "string_extractor \<Rightarrow> string \<times> string_extractor" where
  "GetHexByteString s = hex_string_loop s True []"

text \<open>\<open>nibbles\<close> counts down by 2 from \<open>nibble_length\<close>, as \<open>nibble_count\<close> counts up (which
  does not wrap for lengths below \<open>UINT32_MAX\<close>).\<close>

fun fixed_string_loop :: "nat \<Rightarrow> string_extractor \<Rightarrow> string \<Rightarrow> string \<times> string_extractor" where
  "fixed_string_loop 0 s str = (str, s)"
| "fixed_string_loop (Suc nibbles) s str =
     (case Peek s of
        None \<Rightarrow> (str, s)
      | Some _ \<Rightarrow> (case GetHexU8 s 0 False of
          (b, s') \<Rightarrow> fixed_string_loop (nibbles - 1) s' (str @ [char_of_u8 b])))"

definition GetHexByteStringFixedLength :: "string_extractor \<Rightarrow> nat \<Rightarrow> string \<times> string_extractor" where
  "GetHexByteStringFixedLength s nibble_length = fixed_string_loop nibble_length s []"

definition GetHexByteStringTerminatedBy ::
  "string_extractor \<Rightarrow> char \<Rightarrow> string \<times> string_extractor" where
  "GetHexByteStringTerminatedBy s terminator =
     (let (str, s) = hex_string_loop s False []
      in case Peek s of
           Some p \<Rightarrow> if p ! 0 = terminator then (str, s) else ([], s)
         | None \<Rightarrow> ([], s))"

text \<open>The result is the name and the value, \<open>None\<close> on failure.\<close>

definition GetNameColonValue ::
  "string_extractor \<Rightarrow> (string \<times> string) option \<times> string_extractor" where
  "GetNameColonValue s =
     (if se_index s \<ge> length (se_packet s) then (None, fail s)
      else if se_packet s = [] then (None, fail s)
      else let view = drop (se_index s) (se_packet s);
               (a, b) = split_at CHR '':'' view
           in if a = [] \<or> b = [] then (None, fail s)
              else let (c, d) = split_at CHR '';'' b
                   in if b = c \<and> d = [] then (None, fail s)
                      else if d = [] then (Some (a, c), s\<lparr>se_index := length (se_packet s)\<rparr>)
                      else let bytes_consumed = length view - length d
                           in (Some (a, c), s\<lparr>se_index := se_index s + bytes_consumed\<rparr>))"

section \<open>The printers of Stream\<close>

text \<open>The characters a call writes: \<open>binary\<close> is the \<open>eBinary\<close> flag of the stream.\<close>

definition g_hex_to_ascii_hex_char :: string where
  "g_hex_to_ascii_hex_char = ''0123456789abcdef''"

definition put_Hex8 :: "bool \<Rightarrow> u8 \<Rightarrow> bool \<Rightarrow> string" where
  "put_Hex8 binary uvalue add_prefix =
     (if binary then [char_of_u8 uvalue]
      else (if add_prefix then ''0x'' else []) @
           [g_hex_to_ascii_hex_char ! unat (drop_bit 4 uvalue AND 0xf),
            g_hex_to_ascii_hex_char ! unat (uvalue AND 0xf)])"

definition PutHex8 :: "bool \<Rightarrow> u8 \<Rightarrow> string" where
  "PutHex8 binary uvalue = put_Hex8 binary uvalue False"

definition PutNHex8 :: "bool \<Rightarrow> nat \<Rightarrow> u8 \<Rightarrow> string" where
  "PutNHex8 binary n uvalue = concat (replicate n (put_Hex8 binary uvalue False))"

text \<open>The byte-order loops of \<open>PutHex16\<close>, \<open>PutHex32\<close> and \<open>PutHex64\<close>: from the least
  significant byte up, or from the most significant down until the unsigned index wraps.\<close>

definition hex_bytes_of :: "bool \<Rightarrow> byte_order \<Rightarrow> byte_order \<Rightarrow> nat \<Rightarrow> 'a::len word \<Rightarrow> string" where
  "hex_bytes_of binary m_byte_order byte_order nbytes uvalue =
     (let byte_order = (if byte_order = eByteOrderInvalid then m_byte_order else byte_order);
          put = (\<lambda>byte. put_Hex8 binary (ucast (drop_bit (byte * 8) uvalue)) False)
      in if byte_order = eByteOrderLittle then concat (map put [0..<nbytes])
         else concat (map put (rev [0..<nbytes])))"

definition PutHex16 :: "bool \<Rightarrow> byte_order \<Rightarrow> u16 \<Rightarrow> byte_order \<Rightarrow> string" where
  "PutHex16 binary m_byte_order uvalue byte_order = hex_bytes_of binary m_byte_order byte_order 2 uvalue"

definition PutHex32 :: "bool \<Rightarrow> byte_order \<Rightarrow> u32 \<Rightarrow> byte_order \<Rightarrow> string" where
  "PutHex32 binary m_byte_order uvalue byte_order = hex_bytes_of binary m_byte_order byte_order 4 uvalue"

definition PutHex64 :: "bool \<Rightarrow> byte_order \<Rightarrow> u64 \<Rightarrow> byte_order \<Rightarrow> string" where
  "PutHex64 binary m_byte_order uvalue byte_order = hex_bytes_of binary m_byte_order byte_order 8 uvalue"

definition PutMaxHex64 :: "bool \<Rightarrow> byte_order \<Rightarrow> u64 \<Rightarrow> nat \<Rightarrow> byte_order \<Rightarrow> string" where
  "PutMaxHex64 binary m_byte_order uvalue byte_size byte_order =
     (if byte_size = 1 then PutHex8 binary (ucast uvalue)
      else if byte_size = 2 then PutHex16 binary m_byte_order (ucast uvalue) byte_order
      else if byte_size = 4 then PutHex32 binary m_byte_order (ucast uvalue) byte_order
      else if byte_size = 8 then PutHex64 binary m_byte_order uvalue byte_order
      else [])"

definition raw_hex :: "bool \<Rightarrow> byte_order \<Rightarrow> u8 list \<Rightarrow> byte_order \<Rightarrow> byte_order \<Rightarrow> string" where
  "raw_hex binary m_byte_order src src_byte_order dst_byte_order =
     (let src_byte_order = (if src_byte_order = eByteOrderInvalid then m_byte_order else src_byte_order);
          dst_byte_order = (if dst_byte_order = eByteOrderInvalid then m_byte_order else dst_byte_order)
      in concat (map (\<lambda>b. put_Hex8 binary b False)
           (if src_byte_order = dst_byte_order then src else rev src)))"

definition PutRawBytes :: "byte_order \<Rightarrow> u8 list \<Rightarrow> byte_order \<Rightarrow> byte_order \<Rightarrow> string" where
  "PutRawBytes m_byte_order src src_byte_order dst_byte_order =
     raw_hex True m_byte_order src src_byte_order dst_byte_order"

definition PutBytesAsRawHex8 :: "byte_order \<Rightarrow> u8 list \<Rightarrow> byte_order \<Rightarrow> byte_order \<Rightarrow> string" where
  "PutBytesAsRawHex8 m_byte_order src src_byte_order dst_byte_order =
     raw_hex False m_byte_order src src_byte_order dst_byte_order"

text \<open>The C string ends before its first NUL.\<close>

definition PutCStringAsRawHex8 :: "string \<Rightarrow> string" where
  "PutCStringAsRawHex8 s =
     concat (map (\<lambda>c. put_Hex8 False (u8_of_char c) False) (takeWhile (\<lambda>c. of_char c \<noteq> (0 :: nat)) s))"

section \<open>Hexadecimal digits\<close>

definition hex_char :: "nat \<Rightarrow> char" where
  "hex_char k = g_hex_to_ascii_hex_char ! k"

lemma nibble_cases:
  "(k::nat) < 16 \<Longrightarrow> k \<in> {0, 1, 2, 3, 4, 5, 6, 7, 8, 9, 10, 11, 12, 13, 14, 15}"
  by (simp only: insert_iff empty_iff) presburger

lemma hex_char_value [simp]: "k < 16 \<Longrightarrow> xdigit_to_sint (hex_char k) = int k"
  by (drule nibble_cases)
    (auto simp: hex_char_def g_hex_to_ascii_hex_char_def xdigit_to_sint_def)

lemma hex_char_isxdigit [simp]: "k < 16 \<Longrightarrow> isxdigit (hex_char k)"
  by (drule nibble_cases)
    (auto simp: hex_char_def g_hex_to_ascii_hex_char_def isxdigit_def isdigit_def)

lemma hex_char_not_space [simp]: "k < 16 \<Longrightarrow> \<not> isspace (hex_char k)"
  by (drule nibble_cases)
    (auto simp: hex_char_def g_hex_to_ascii_hex_char_def isspace_def)

lemma put_Hex8_text:
  "put_Hex8 False b False = [hex_char (unat b div 16), hex_char (unat b mod 16)]"
proof -
  have "unat (x AND 0xf) = unat x mod 16" for x :: u8
  proof -
    have "unat (x AND mask 4) = unat x mod 16"
      by (simp add: take_bit_eq_mask [symmetric] unsigned_take_bit_eq take_bit_eq_mod [where ?'a = nat])
    then show ?thesis by (simp add: mask_eq_exp_minus_1)
  qed
  moreover have "unat (drop_bit 4 b) mod 16 = unat b div 16"
    using u8_bound [of b] by (simp add: unat_drop_bit_eq drop_bit_eq_div [where ?'a = nat] less_mult_imp_div_less)
  ultimately show ?thesis
    by (simp add: put_Hex8_def hex_char_def)
qed

lemma byte_nibbles: "unat (b :: u8) div 16 < 16" "unat b mod 16 < 16"
  using u8_bound [of b] by (simp_all add: less_mult_imp_div_less)

lemma nibbles_byte: "int (unat (b :: u8) div 16) * 16 + int (unat b mod 16) = int (unat b)"
  by (metis add.commute mod_mult_div_eq mult.commute of_nat_add of_nat_mult of_nat_numeral)

lemma xdigit_values: "xdigit_to_sint c = -1 \<or> 0 \<le> xdigit_to_sint c \<and> xdigit_to_sint c < 16"
  by (auto simp: xdigit_to_sint_def Let_def)

lemma isxdigit_iff: "isxdigit c \<longleftrightarrow> xdigit_to_sint c \<noteq> -1"
  by (auto simp: xdigit_to_sint_def isxdigit_def isdigit_def Let_def)

lemma uint_not_neg: "0 \<le> uint b"
  by simp

text \<open>A byte printed at the cursor is decoded from the cursor.\<close>

lemma DecodeHexU8_put:
  assumes "drop (se_index s) (se_packet s) = put_Hex8 False b False @ rest"
  shows "DecodeHexU8 s = (int (unat b), s\<lparr>se_index := se_index s + 2\<rparr>)"
proof -
  note n = byte_nibbles [of b]
  have d: "drop (se_index s) (se_packet s) = hex_char (unat b div 16) # hex_char (unat b mod 16) # rest"
    using assms by (simp add: put_Hex8_text)
  then have len: "se_index s + 2 \<le> length (se_packet s)"
    by (metis Suc_leI add_2_eq_Suc' drop_Suc drop_eq_Nil2 linorder_not_le list.distinct(1) list.sel(3)
        not_less_eq_eq tl_drop)
  have nth: "se_packet s ! se_index s = hex_char (unat b div 16)"
      "se_packet s ! Suc (se_index s) = hex_char (unat b mod 16)"
    using d len by (metis add.right_neutral add_leD1 nth_Cons_0 nth_drop,
      metis add_Suc_right add.right_neutral add_leD1 nth_Cons_0 nth_Cons_Suc nth_drop)
  have "SkipSpaces s = s"
    using d n by (simp add: SkipSpaces_def)
  then show ?thesis
    using len nth n nibbles_byte [of b]
    by (simp add: DecodeHexU8_def GetBytesLeft_def Let_def)
qed

lemma GetHexU8_put:
  assumes "drop (se_index s) (se_packet s) = put_Hex8 False b False @ rest"
  shows "GetHexU8 s f e = (b, s\<lparr>se_index := se_index s + 2\<rparr>)"
proof -
  have "uint b \<noteq> - 1"
    using uint_not_neg [of b] by linarith
  then show ?thesis
    using DecodeHexU8_put [OF assms] by (simp add: GetHexU8_def GetHexU8Ex_def)
qed


lemma concat_put_Hex8_Cons:
  "concat (map (\<lambda>b. put_Hex8 False b False) (b # bs)) =
   put_Hex8 False b False @ concat (map (\<lambda>b. put_Hex8 False b False) bs)"
  by simp

lemma length_put_Hex8 [simp]: "length (put_Hex8 False b False) = 2"
  by (simp add: put_Hex8_text)

text \<open>Bytes printed at the cursor, up to the end of the packet or a pair of zeros, are read
  back one by one.\<close>

lemma hex_string_loop_put:
  assumes "drop (se_index s) (se_packet s) = concat (map (\<lambda>b. put_Hex8 False b False) bs)"
    and "0 \<notin> set bs"
  shows "hex_string_loop s True str = (str @ map char_of_u8 bs, s\<lparr>se_index := UINT64_MAX\<rparr>)"
  using assms
proof (induction bs arbitrary: s str)
  case Nil
  then have "length (se_packet s) \<le> se_index s" by simp
  then have "GetHexU8 s 0 True = (0, s\<lparr>se_index := UINT64_MAX\<rparr>)"
    by (simp add: GetHexU8_def GetHexU8Ex_def DecodeHexU8_def SkipSpaces_def GetBytesLeft_def)
  then show ?case
    by (subst hex_string_loop.simps) simp
next
  case (Cons b bs)
  have g: "GetHexU8 s 0 True = (b, s\<lparr>se_index := se_index s + 2\<rparr>)"
    using Cons.prems(1) unfolding concat_put_Hex8_Cons by (rule GetHexU8_put)
  have "drop (se_index s + 2) (se_packet s) = concat (map (\<lambda>b. put_Hex8 False b False) bs)"
    using Cons.prems(1) unfolding concat_put_Hex8_Cons
    by (metis append_eq_conv_conj drop_drop length_put_Hex8 add.commute)
  then have "hex_string_loop (s\<lparr>se_index := se_index s + 2\<rparr>) True (str @ [char_of_u8 b]) =
      ((str @ [char_of_u8 b]) @ map char_of_u8 bs, s\<lparr>se_index := UINT64_MAX\<rparr>)"
    using Cons.IH [of "s\<lparr>se_index := se_index s + 2\<rparr>" "str @ [char_of_u8 b]"] Cons.prems(2) by simp
  then show ?case
    using Cons.prems(2) by (subst hex_string_loop.simps) (simp add: g)
qed

text \<open>A string without NUL characters that is sent as hexadecimal text is decoded to itself,
  and the whole packet is consumed.\<close>

theorem hex_string_roundtrip:
  assumes "CHR 0x00 \<notin> set str"
  shows "GetHexByteString (StringExtractor_of (PutCStringAsRawHex8 str)) =
    (str, \<lparr>se_packet = PutCStringAsRawHex8 str, se_index = UINT64_MAX\<rparr>)"
proof -
  let ?bs = "map u8_of_char str"
  have nz: "(of_char c :: nat) \<noteq> 0" if "c \<in> set str" for c
  proof
    assume "(of_char c :: nat) = 0"
    then have "c = char_of (0 :: nat)" by (metis char_of_char)
    then have "c = CHR 0x00" by (simp add: char_of_def)
    with that assms show False by simp
  qed
  then have "takeWhile (\<lambda>c. of_char c \<noteq> (0 :: nat)) str = str"
    by (simp add: takeWhile_eq_all_conv)
  then have put: "PutCStringAsRawHex8 str = concat (map (\<lambda>b. put_Hex8 False b False) ?bs)"
    unfolding PutCStringAsRawHex8_def by (simp only: map_map comp_def)
  have "0 \<notin> set ?bs"
  proof
    assume "0 \<in> set ?bs"
    then obtain c where "c \<in> set str" "u8_of_char c = 0" by auto
    moreover have "c = char_of_u8 (u8_of_char c)" by simp
    ultimately have "c = CHR 0x00" by (simp add: char_of_u8_def char_of_def)
    with \<open>c \<in> set str\<close> assms show False by simp
  qed
  then have "hex_string_loop (StringExtractor_of (PutCStringAsRawHex8 str)) True [] =
      ([] @ map char_of_u8 ?bs, (StringExtractor_of (PutCStringAsRawHex8 str))\<lparr>se_index := UINT64_MAX\<rparr>)"
    by (intro hex_string_loop_put) (simp_all add: StringExtractor_of_def put)
  then show ?thesis
    by (simp add: GetHexByteString_def StringExtractor_of_def comp_def)
qed

section \<open>Hexadecimal numbers of fixed width\<close>

abbreviation hex_text :: "u8 list \<Rightarrow> string" where
  "hex_text bs \<equiv> concat (map (\<lambda>b. put_Hex8 False b False) bs)"

lemma nibble_pair:
  fixes r :: "'a::len word"
  assumes "unat r < 2 ^ sh"
  shows "(r OR push_bit (sh + 4) (word_of_nat (unat (b :: u8) div 16))) OR
      push_bit sh (word_of_nat (unat b mod 16)) = r + push_bit sh (word_of_nat (unat b))"
proof -
  let ?hi = "word_of_nat (unat b div 16) :: 'a word" and ?lo = "word_of_nat (unat b mod 16) :: 'a word"
  have "unat ?lo \<le> unat b mod 16"
    by (simp add: unat_of_nat)
  then have "unat ?lo < 2 ^ 4"
    by (rule le_less_trans) simp
  then have "?lo OR push_bit 4 ?hi = ?lo + push_bit 4 ?hi"
    by (rule or_push_bit_disjoint)
  also have "\<dots> = word_of_nat (unat b mod 16 + 16 * (unat b div 16))"
    unfolding of_nat_add of_nat_mult by (simp only: push_bit_eq_mult of_nat_numeral) (simp add: mult.commute)
  finally have "?lo OR push_bit 4 ?hi = word_of_nat (unat b)"
    by (simp only: mod_mult_div_eq)
  then have "push_bit (sh + 4) ?hi OR push_bit sh ?lo = push_bit sh (word_of_nat (unat b))"
    by (metis or.commute push_bit_or push_bit_push_bit)
  then show ?thesis
    using or_push_bit_disjoint [OF assms] by (simp only: or.assoc)
qed

lemma hexmax_le_step:
  assumes "hi < 16" "lo < 16" "nc < max_nibbles"
  shows "hexmax_le_loop max_nibbles (hex_char hi # hex_char lo # cs) r nc sh n =
    hexmax_le_loop max_nibbles cs
      ((r OR push_bit (sh + 4) (word_of_nat hi)) OR push_bit sh (word_of_nat lo)) (nc + 2) (sh + 8) (n + 2)"
  using assms by (simp add: Let_def)

lemma hexmax_be_step:
  assumes "hi < 16" "lo < 16" "nc + 1 < max_nibbles"
  shows "hexmax_be_loop max_nibbles (hex_char hi # hex_char lo # cs) r nc n =
    hexmax_be_loop max_nibbles cs
      (push_bit 4 (push_bit 4 r OR word_of_nat hi) OR word_of_nat lo) (nc + 2) (n + 2)"
  using assms by (simp add: Let_def del: push_bit_or)

lemma hex_text_Cons:
  "hex_text (b # bs) @ rest =
   hex_char (unat b div 16) # hex_char (unat b mod 16) # hex_text bs @ rest"
  by (simp add: put_Hex8_text)

lemma hexmax_le_loop_text:
  assumes "m < 2 ^ sh" "nc + 2 * length bs \<le> max_nibbles" "sh + 8 * length bs \<le> LENGTH('a::len)"
  shows "hexmax_le_loop max_nibbles (hex_text bs @ rest) (word_of_nat m :: 'a word) nc sh n =
    hexmax_le_loop max_nibbles rest (word_of_nat (m + 2 ^ sh * le_nat bs)) (nc + 2 * length bs)
      (sh + 8 * length bs) (n + 2 * length bs)"
  using assms
proof (induction bs arbitrary: m nc sh n)
  case Nil
  then show ?case by simp
next
  case (Cons b bs)
  note nb = byte_nibbles [of b]
  have "(2 :: nat) ^ sh \<le> 2 ^ LENGTH('a)"
    using Cons.prems(3) by (intro power_increasing) simp_all
  with Cons.prems(1) have "m < 2 ^ LENGTH('a)"
    by (rule less_le_trans)
  then have small: "unat (word_of_nat m :: 'a word) < 2 ^ sh"
    using Cons.prems(1) by (simp add: unat_of_nat)
  have "m + 2 ^ sh * unat b < 2 ^ sh * Suc (unat b)"
    using Cons.prems(1) by simp
  also have "\<dots> \<le> 2 ^ sh * 256"
    using u8_bound [of b] by (intro mult_le_mono2) (simp only: Suc_leI)
  finally have m': "m + 2 ^ sh * unat b < 2 ^ (sh + 8)"
    by (simp add: power_add)
  have "hexmax_le_loop max_nibbles (hex_text (b # bs) @ rest) (word_of_nat m :: 'a word) nc sh n =
      hexmax_le_loop max_nibbles (hex_text bs @ rest)
        (word_of_nat (m + 2 ^ sh * unat b)) (nc + 2) (sh + 8) (n + 2)"
  proof -
    have "word_of_nat m + push_bit sh (word_of_nat (unat b)) = (word_of_nat (m + 2 ^ sh * unat b) :: 'a word)"
      by (simp add: push_bit_eq_mult mult.commute)
    then show ?thesis
      unfolding hex_text_Cons using nibble_pair [OF small, of b] Cons.prems(2)
      by (subst hexmax_le_step [OF nb]) simp_all
  qed
  also have "\<dots> = hexmax_le_loop max_nibbles rest
      (word_of_nat (m + 2 ^ sh * unat b + 2 ^ (sh + 8) * le_nat bs)) (nc + 2 + 2 * length bs)
      (sh + 8 + 8 * length bs) (n + 2 + 2 * length bs)"
    using Cons.prems(2,3) by (intro Cons.IH m') simp_all
  also have "m + 2 ^ sh * unat b + 2 ^ (sh + 8) * le_nat bs = m + 2 ^ sh * le_nat (b # bs)"
    by (simp add: power_add algebra_simps)
  finally show ?case
    by (simp add: algebra_simps)
qed

lemma nibble_push:
  fixes r :: "'a::len word"
  assumes "k < 16"
  shows "push_bit 4 r OR word_of_nat k = word_of_nat k + 16 * r"
proof -
  have "unat (word_of_nat k :: 'a word) \<le> k"
    by (simp add: unat_of_nat)
  then have "unat (word_of_nat k :: 'a word) < 2 ^ 4"
    using assms by simp
  from or_push_bit_disjoint [OF this, of r] show ?thesis
    by (simp add: push_bit_eq_mult or.commute mult.commute)
qed

lemma hexmax_be_loop_text:
  assumes "nc + 2 * length bs \<le> max_nibbles"
  shows "hexmax_be_loop max_nibbles (hex_text bs @ rest) (word_of_nat m :: 'a::len word) nc n =
    hexmax_be_loop max_nibbles rest (word_of_nat (m * 256 ^ length bs + be_nat bs))
      (nc + 2 * length bs) (n + 2 * length bs)"
  using assms
proof (induction bs arbitrary: m nc n)
  case Nil
  then show ?case by (simp add: be_nat_def)
next
  case (Cons b bs)
  note nb = byte_nibbles [of b]
  have val: "word_of_nat (unat b mod 16) + 16 * (word_of_nat (unat b div 16) + 16 * word_of_nat m) =
      (word_of_nat (m * 256 + unat b) :: 'a word)"
  proof -
    have "unat b mod 16 + 16 * (unat b div 16 + 16 * m) = m * 256 + unat b"
      using mod_mult_div_eq [of "unat b" 16] by (simp add: algebra_simps)
    then show ?thesis
      by (metis of_nat_add of_nat_mult of_nat_numeral)
  qed
  have "hexmax_be_loop max_nibbles (hex_text (b # bs) @ rest) (word_of_nat m :: 'a word) nc n =
      hexmax_be_loop max_nibbles (hex_text bs @ rest) (word_of_nat (m * 256 + unat b)) (nc + 2) (n + 2)"
    unfolding hex_text_Cons using Cons.prems
    by (subst hexmax_be_step [OF nb]) (simp, simp only: nibble_push [OF nb(1)] nibble_push [OF nb(2)] val)
  also have "\<dots> = hexmax_be_loop max_nibbles rest
      (word_of_nat ((m * 256 + unat b) * 256 ^ length bs + be_nat bs))
      (nc + 2 + 2 * length bs) (n + 2 + 2 * length bs)"
    using Cons.prems by (intro Cons.IH) simp
  also have "(m * 256 + unat b) * 256 ^ length bs + be_nat bs =
      m * 256 ^ length (b # bs) + be_nat (b # bs)"
    by (simp add: be_nat_def le_nat_append algebra_simps)
  finally show ?case
    by (simp add: algebra_simps)
qed

lemma concat_map_cong_hex:
  "map f [0..<k] = bs \<Longrightarrow> concat (map (\<lambda>i. put_Hex8 False (f i) False) [0..<k]) = hex_text bs"
  "map f [0..<k] = bs \<Longrightarrow> concat (map (\<lambda>i. put_Hex8 False (f i) False) (rev [0..<k])) = hex_text (rev bs)"
  by (auto simp: comp_def rev_map)

lemma shifted_bytes:
  "map (\<lambda>i. ucast (drop_bit (i * 8) (v :: 'a::len word)) :: u8) [0..<k] = nat_le_bytes k (unat v)"
proof -
  have "map (\<lambda>i. ucast (drop_bit (i * 8) v) :: u8) [0..<k] =
      map (\<lambda>i. word_of_nat (unat v div 256 ^ i)) [0..<k]"
  proof (rule map_cong [OF refl])
    fix i
    have "(2 :: nat) ^ (i * 8) = 256 ^ i"
      by (simp add: mult.commute [of i] power_mult)
    then have "unat (ucast (drop_bit (i * 8) v) :: u8) = unat v div 256 ^ i mod 256"
      by (simp add: unat_ucast_mod unat_drop_bit_eq drop_bit_eq_div [where ?'a = nat])
    then show "ucast (drop_bit (i * 8) v) = (word_of_nat (unat v div 256 ^ i) :: u8)"
      by (simp add: word_unat_eq_iff)
  qed
  also have "\<dots> = nat_le_bytes k (unat v)"
  proof -
    have "map (\<lambda>i. word_of_nat (x div 256 ^ i)) [0..<k] = nat_le_bytes k x" for x
    proof (induction k arbitrary: x)
      case 0
      then show ?case by simp
    next
      case (Suc k)
      have "map (\<lambda>i. word_of_nat (x div 256 ^ i) :: u8) [0..<Suc k] =
          word_of_nat x # map (\<lambda>i. word_of_nat (x div 256 div 256 ^ i)) [0..<k]"
        by (simp add: upt_conv_Cons map_Suc_upt [symmetric] div_mult2_eq comp_def del: upt_Suc)
      with Suc.IH show ?case by simp
    qed
    then show ?thesis .
  qed
  finally show ?thesis .
qed

lemma hex_bytes_of_text:
  "hex_bytes_of False mbo bo k (v :: 'a::len word) =
    hex_text (if (if bo = eByteOrderInvalid then mbo else bo) = eByteOrderLittle
              then nat_le_bytes k (unat v) else rev (nat_le_bytes k (unat v)))"
  using concat_map_cong_hex [OF shifted_bytes [of v k]]
  by (simp add: hex_bytes_of_def Let_def)

lemma SkipSpaces_hex_text:
  "SkipSpaces (StringExtractor_of (hex_text bs)) = StringExtractor_of (hex_text bs)"
  by (cases bs) (simp_all add: SkipSpaces_def StringExtractor_of_def put_Hex8_text byte_nibbles)

lemma length_hex_text: "length (hex_text bs) = 2 * length bs"
  by (induction bs) simp_all

text \<open>A 64-bit number printed as hexadecimal text in either byte order is decoded to itself
  under the matching byte order flag, and exactly its 16 characters are consumed.\<close>

theorem PutHex64_roundtrip:
  assumes "bo = eByteOrderLittle \<or> bo = eByteOrderBig"
  shows "GetHexMaxU64 (StringExtractor_of (PutHex64 False mbo v bo)) (bo = eByteOrderLittle) fv =
    (v, \<lparr>se_packet = PutHex64 False mbo v bo, se_index = 16\<rparr>)"
proof -
  let ?bs = "nat_le_bytes 8 (unat v)"
  have le: "hexmax_le_loop 16 (hex_text ?bs) (0 :: u64) 0 0 0 = Some (v, 16)"
    using hexmax_le_loop_text [of 0 0 0 ?bs 16 "[]", where ?'a = 64] unat_lt_64 [of v]
    by (simp add: le_nat_le_bytes)
  have be: "hexmax_be_loop 16 (hex_text (rev ?bs)) (0 :: u64) 0 0 = Some (v, 16)"
    using hexmax_be_loop_text [of 0 "rev ?bs" 16 "[]" 0, where ?'a = 64] unat_lt_64 [of v]
    by (simp add: be_nat_def le_nat_le_bytes)
  show ?thesis
    using assms le be
    by (auto simp: PutHex64_def hex_bytes_of_text GetHexMaxU64_def SkipSpaces_hex_text)
      (auto simp: StringExtractor_of_def)
qed

theorem PutHex32_roundtrip:
  assumes "bo = eByteOrderLittle \<or> bo = eByteOrderBig"
  shows "GetHexMaxU32 (StringExtractor_of (PutHex32 False mbo v bo)) (bo = eByteOrderLittle) fv =
    (v, \<lparr>se_packet = PutHex32 False mbo v bo, se_index = 8\<rparr>)"
proof -
  let ?bs = "nat_le_bytes 4 (unat v)"
  have v: "unat v < 2 ^ 32"
  proof -
    have "unat v < 2 ^ LENGTH(32)" by (rule unsigned_less)
    then show ?thesis by simp
  qed
  have le: "hexmax_le_loop 8 (hex_text ?bs) (0 :: u32) 0 0 0 = Some (v, 8)"
    using hexmax_le_loop_text [of 0 0 0 ?bs 8 "[]", where ?'a = 32] v
    by (simp add: le_nat_le_bytes)
  have be: "hexmax_be_loop 8 (hex_text (rev ?bs)) (0 :: u32) 0 0 = Some (v, 8)"
    using hexmax_be_loop_text [of 0 "rev ?bs" 8 "[]" 0, where ?'a = 32] v
    by (simp add: be_nat_def le_nat_le_bytes)
  show ?thesis
    using assms le be
    by (auto simp: PutHex32_def hex_bytes_of_text GetHexMaxU32_def SkipSpaces_hex_text)
      (auto simp: StringExtractor_of_def)
qed

section \<open>The cursor stays on its packet\<close>

text \<open>What the packet parsers rely on: a decoder keeps the packet, and leaves the cursor
  inside the packet, at its end, or at the error position.\<close>

definition se_ok :: "string_extractor \<Rightarrow> bool" where
  "se_ok s \<longleftrightarrow> length (se_packet s) < UINT64_MAX \<and>
     (se_index s \<le> length (se_packet s) \<or> se_index s = UINT64_MAX)"

locale packet_decoder =
  fixes dec :: "string_extractor \<Rightarrow> 'r \<times> string_extractor"
  assumes keeps_packet: "se_packet (snd (dec s)) = se_packet s"
    and keeps_ok: "se_ok s \<Longrightarrow> se_ok (snd (dec s))"
begin

text \<open>Any number of decoding steps.\<close>

lemma iterate_packet: "se_packet (((\<lambda>s. snd (dec s)) ^^ k) s) = se_packet s"
  by (induction k) (simp_all add: keeps_packet)

lemma iterate_ok: "se_ok s \<Longrightarrow> se_ok (((\<lambda>s. snd (dec s)) ^^ k) s)"
  by (induction k) (simp_all add: keeps_ok)

end

lemma SkipSpaces_ok:
  "se_packet (SkipSpaces s) = se_packet s" "se_ok s \<Longrightarrow> se_ok (SkipSpaces s)"
  using length_takeWhile_le [of isspace "drop (se_index s) (se_packet s)"]
  by (auto simp: SkipSpaces_def se_ok_def)

lemma error_position_ok: "se_ok s \<Longrightarrow> se_ok (s\<lparr>se_index := UINT64_MAX\<rparr>)"
  by (simp add: se_ok_def)

lemma DecodeHexU8_ok:
  "se_packet (snd (DecodeHexU8 s)) = se_packet s" "se_ok s \<Longrightarrow> se_ok (snd (DecodeHexU8 s))"
  using SkipSpaces_ok [of s]
  by (auto simp: DecodeHexU8_def Let_def GetBytesLeft_def se_ok_def)

interpretation char_decoder: packet_decoder "\<lambda>s. GetChar s f" for f
  by unfold_locales (auto simp: GetChar_def se_ok_def)

interpretation hex8_decoder: packet_decoder "\<lambda>s. GetHexU8 s f e" for f e
  using DecodeHexU8_ok
  by unfold_locales (auto simp: GetHexU8_def GetHexU8Ex_def Let_def split_beta se_ok_def)

lemma hexmax_le_loop_consumed:
  "hexmax_le_loop mx cs r nc sh n = Some (v, k) \<Longrightarrow> k \<le> n + length cs"
proof (induction mx cs r nc sh n rule: hexmax_le_loop.induct)
  case (1 mx r nc sh n)
  then show ?case by simp
next
  case (2 mx c cs r nc sh n)
  then show ?case
    by (cases cs) (fastforce simp: Let_def split: if_splits)+
qed

lemma hexmax_be_loop_consumed:
  "hexmax_be_loop mx cs r nc n = Some (v, k) \<Longrightarrow> k \<le> n + length cs"
  by (induction mx cs r nc n rule: hexmax_be_loop.induct) (fastforce simp: Let_def split: if_splits)+

lemma advance_ok:
  "se_ok s \<Longrightarrow> n \<le> length (drop (se_index s) (se_packet s)) \<Longrightarrow> se_ok (s\<lparr>se_index := se_index s + n\<rparr>)"
  by (auto simp: se_ok_def)

interpretation hex32_decoder: packet_decoder "\<lambda>s. GetHexMaxU32 s le f" for le f
proof
  show "se_packet (snd (GetHexMaxU32 s le f)) = se_packet s" for s
    by (simp add: GetHexMaxU32_def Let_def SkipSpaces_ok split: option.split)
  show "se_ok (snd (GetHexMaxU32 s le f))" if "se_ok s" for s
    using SkipSpaces_ok(2) [OF that]
    by (auto simp: GetHexMaxU32_def Let_def split: option.split
        intro!: advance_ok error_position_ok dest!: hexmax_le_loop_consumed hexmax_be_loop_consumed)
qed

interpretation hex64_decoder: packet_decoder "\<lambda>s. GetHexMaxU64 s le f" for le f
proof
  show "se_packet (snd (GetHexMaxU64 s le f)) = se_packet s" for s
    by (simp add: GetHexMaxU64_def Let_def SkipSpaces_ok split: option.split)
  show "se_ok (snd (GetHexMaxU64 s le f))" if "se_ok s" for s
    using SkipSpaces_ok(2) [OF that]
    by (auto simp: GetHexMaxU64_def Let_def split: option.split
        intro!: advance_ok error_position_ok dest!: hexmax_le_loop_consumed hexmax_be_loop_consumed)
qed

lemma fixed_size_loop_packet: "se_packet (snd (fixed_size_loop n le s r sh)) = se_packet s"
proof (induction n arbitrary: s r sh)
  case 0
  then show ?case by simp
next
  case (Suc n)
  then show ?case
    using hex8_decoder.keeps_packet [of s 0 True] by (simp add: split_beta)
qed

text \<open>Whatever the packet holds, the fixed-size decoder throws the number away and reports
  failure.\<close>

lemma GetHexWithFixedSize_fails:
  "GetHexWithFixedSize s byte_size little_endian fail_value =
    (fail_value, s\<lparr>se_index := UINT64_MAX\<rparr>)"
  using fixed_size_loop_packet [of byte_size little_endian s 0 0]
  by (auto simp: GetHexWithFixedSize_def Let_def split_beta)

text \<open>At a pair name:value; whose name has no colon and whose value has no semicolon, the
  parser returns the two strings and leaves the cursor at the text after the pair.\<close>

theorem GetNameColonValue_correct:
  assumes "drop (se_index s) (se_packet s) = name @ CHR '':'' # v @ CHR '';'' # rest"
    and "name \<noteq> []" "CHR '':'' \<notin> set name" "CHR '';'' \<notin> set v"
  shows "\<exists>s'. GetNameColonValue s = (Some (name, v), s') \<and> se_packet s' = se_packet s \<and>
    drop (se_index s') (se_packet s') = rest"
proof -
  let ?view = "drop (se_index s) (se_packet s)"
  have len: "se_index s < length (se_packet s)"
    using assms(1) by (metis append_is_Nil_conv drop_eq_Nil list.distinct(1) linorder_not_le)
  have a: "split_at CHR '':'' ?view = (name, v @ CHR '';'' # rest)"
    using assms(1,3) by simp
  have c: "split_at CHR '';'' (v @ CHR '';'' # rest) = (v, rest)"
    using assms(4) by simp
  have "drop (se_index s + (length ?view - length rest)) (se_packet s) = rest"
  proof -
    have "?view = (name @ CHR '':'' # v @ [CHR '';'']) @ rest"
      using assms(1) by simp
    then have "drop (length ?view - length rest) ?view = rest"
      by (metis append_eq_conv_conj append_take_drop_id length_append diff_add_inverse2)
    then show ?thesis
      by (simp only: drop_drop add.commute)
  qed
  then show ?thesis
    using len a c assms(2) by (auto simp: GetNameColonValue_def Let_def)
qed

section \<open>Concrete inputs\<close>

theorem hex_string_witness:
  "fst (GetHexByteString (StringExtractor_of (PutCStringAsRawHex8 ''lldb''))) = ''lldb''"
  using hex_string_roundtrip [where str = "''lldb''"] by simp

theorem PutHex64_witness:
  "fst (GetHexMaxU64 (StringExtractor_of (PutHex64 False eByteOrderBig 0x1234 eByteOrderLittle)) True 0) =
    0x1234"
  using PutHex64_roundtrip [where bo = eByteOrderLittle and mbo = eByteOrderBig and v = "0x1234" and fv = 0] by simp

theorem GetNameColonValue_witness:
  "\<exists>s'. GetNameColonValue (StringExtractor_of ''pid:1a;tid:2b;'') = (Some (''pid'', ''1a''), s') \<and>
    drop (se_index s') (se_packet s') = ''tid:2b;''"
  using GetNameColonValue_correct [of "StringExtractor_of ''pid:1a;tid:2b;''" "''pid''" "''1a''"
      "''tid:2b;''"]
  by (auto simp: StringExtractor_of_def)

end
