(* ===== verification/ServerPackets.thy ===== *)
theory ServerPackets
  imports StringExtractor
begin

text \<open>
  The classification of the packets a debug server receives
  (\<open>StringExtractorGDBRemote::GetServerPacketType\<close>, source/Utility/StringExtractorGDBRemote.cpp):
  a dispatch on the first character, a second dispatch on the next one for the \<open>Q\<close> and \<open>q\<close>
  families, and prefix or whole-packet comparisons. The definitions keep the order of the
  comparisons, on which the result depends. The tables of the protocol's words are proved to
  be recognised as what they are, so no comparison is shadowed by an earlier one.
\<close>

section \<open>Packet types\<close>

datatype (plugins only: ) server_packet_type =
    eServerPacketType_nack
  | eServerPacketType_ack
  | eServerPacketType_invalid
  | eServerPacketType_unimplemented
  | eServerPacketType_interrupt
  | eServerPacketType_A
  | eServerPacketType_qfProcessInfo
  | eServerPacketType_qsProcessInfo
  | eServerPacketType_qC
  | eServerPacketType_qEcho
  | eServerPacketType_qGroupName
  | eServerPacketType_qHostInfo
  | eServerPacketType_qLaunchGDBServer
  | eServerPacketType_qQueryGDBServer
  | eServerPacketType_qKillSpawnedProcess
  | eServerPacketType_qLaunchSuccess
  | eServerPacketType_qModuleInfo
  | eServerPacketType_qProcessInfoPID
  | eServerPacketType_qSpeedTest
  | eServerPacketType_qUserName
  | eServerPacketType_qGetWorkingDir
  | eServerPacketType_qFileLoadAddress
  | eServerPacketType_QEnvironment
  | eServerPacketType_QEnableErrorStrings
  | eServerPacketType_QLaunchArch
  | eServerPacketType_QSetDisableASLR
  | eServerPacketType_QSetDetachOnError
  | eServerPacketType_QSetSTDIN
  | eServerPacketType_QSetSTDOUT
  | eServerPacketType_QSetSTDERR
  | eServerPacketType_QSetWorkingDir
  | eServerPacketType_QStartNoAckMode
  | eServerPacketType_qPlatform_shell
  | eServerPacketType_qPlatform_mkdir
  | eServerPacketType_qPlatform_chmod
  | eServerPacketType_vFile_open
  | eServerPacketType_vFile_close
  | eServerPacketType_vFile_pread
  | eServerPacketType_vFile_pwrite
  | eServerPacketType_vFile_size
  | eServerPacketType_vFile_mode
  | eServerPacketType_vFile_exists
  | eServerPacketType_vFile_md5
  | eServerPacketType_vFile_stat
  | eServerPacketType_vFile_symlink
  | eServerPacketType_vFile_unlink
  | eServerPacketType_QEnvironmentHexEncoded
  | eServerPacketType_QListThreadsInStopReply
  | eServerPacketType_QPassSignals
  | eServerPacketType_QRestoreRegisterState
  | eServerPacketType_QSaveRegisterState
  | eServerPacketType_QSetLogging
  | eServerPacketType_QSetMaxPacketSize
  | eServerPacketType_QSetMaxPayloadSize
  | eServerPacketType_QSetEnableAsyncProfiling
  | eServerPacketType_QSyncThreadState
  | eServerPacketType_QThreadSuffixSupported
  | eServerPacketType_jThreadsInfo
  | eServerPacketType_qsThreadInfo
  | eServerPacketType_qfThreadInfo
  | eServerPacketType_qGetPid
  | eServerPacketType_qGetProfileData
  | eServerPacketType_qGDBServerVersion
  | eServerPacketType_qMemoryRegionInfo
  | eServerPacketType_qMemoryRegionInfoSupported
  | eServerPacketType_qProcessInfo
  | eServerPacketType_qRcmd
  | eServerPacketType_qRegisterInfo
  | eServerPacketType_qShlibInfoAddr
  | eServerPacketType_qStepPacketSupported
  | eServerPacketType_qSupported
  | eServerPacketType_qSyncThreadStateSupported
  | eServerPacketType_qThreadExtraInfo
  | eServerPacketType_qThreadStopInfo
  | eServerPacketType_qVAttachOrWaitSupported
  | eServerPacketType_qWatchpointSupportInfo
  | eServerPacketType_qWatchpointSupportInfoSupported
  | eServerPacketType_qXfer_auxv_read
  | eServerPacketType_jSignalsInfo
  | eServerPacketType_jModulesInfo
  | eServerPacketType_vAttach
  | eServerPacketType_vAttachWait
  | eServerPacketType_vAttachOrWait
  | eServerPacketType_vAttachName
  | eServerPacketType_vCont
  | eServerPacketType_vCont_actions
  | eServerPacketType_stop_reason
  | eServerPacketType_c
  | eServerPacketType_C
  | eServerPacketType_D
  | eServerPacketType_g
  | eServerPacketType_G
  | eServerPacketType_H
  | eServerPacketType_I
  | eServerPacketType_k
  | eServerPacketType_m
  | eServerPacketType_M
  | eServerPacketType_p
  | eServerPacketType_P
  | eServerPacketType_s
  | eServerPacketType_S
  | eServerPacketType_T
  | eServerPacketType_x
  | eServerPacketType_X
  | eServerPacketType_Z
  | eServerPacketType_z
  | eServerPacketType__M
  | eServerPacketType__m
  | eServerPacketType_notify
  | eServerPacketType_jTraceStart
  | eServerPacketType_jTraceBufferRead
  | eServerPacketType_jTraceMetaRead
  | eServerPacketType_jTraceStop
  | eServerPacketType_jTraceConfigRead

section \<open>The dispatch\<close>

text \<open>\<open>packet_cstr[i]\<close>: the terminating NUL follows the last character.\<close>

definition packet_char :: "string \<Rightarrow> nat \<Rightarrow> char" where
  "packet_char p i = (if i < length p then p ! i else CHR 0x00)"

text \<open>The two comparison macros, at the head of the function.\<close>

definition PACKET_MATCHES :: "string \<Rightarrow> string \<Rightarrow> bool" where
  "PACKET_MATCHES p s \<longleftrightarrow> length p = length s \<and> p = s"

definition PACKET_STARTS_WITH :: "string \<Rightarrow> string \<Rightarrow> bool" where
  "PACKET_STARTS_WITH p s \<longleftrightarrow> length p \<ge> length s \<and> take (length s) p = s"

definition server_packet_Q :: "string \<Rightarrow> server_packet_type" where
  "server_packet_Q p =
     (let c = packet_char p 1 in
      if c = CHR ''E'' then
        (if PACKET_STARTS_WITH p ''QEnvironment:'' then eServerPacketType_QEnvironment
         else if PACKET_STARTS_WITH p ''QEnvironmentHexEncoded:'' then eServerPacketType_QEnvironmentHexEncoded
         else if PACKET_STARTS_WITH p ''QEnableErrorStrings'' then eServerPacketType_QEnableErrorStrings
         else eServerPacketType_unimplemented)
      else if c = CHR ''P'' then
        (if PACKET_STARTS_WITH p ''QPassSignals:'' then eServerPacketType_QPassSignals
         else eServerPacketType_unimplemented)
      else if c = CHR ''S'' then
        (if PACKET_MATCHES p ''QStartNoAckMode'' then eServerPacketType_QStartNoAckMode
         else if PACKET_STARTS_WITH p ''QSaveRegisterState'' then eServerPacketType_QSaveRegisterState
         else if PACKET_STARTS_WITH p ''QSetDisableASLR:'' then eServerPacketType_QSetDisableASLR
         else if PACKET_STARTS_WITH p ''QSetDetachOnError:'' then eServerPacketType_QSetDetachOnError
         else if PACKET_STARTS_WITH p ''QSetSTDIN:'' then eServerPacketType_QSetSTDIN
         else if PACKET_STARTS_WITH p ''QSetSTDOUT:'' then eServerPacketType_QSetSTDOUT
         else if PACKET_STARTS_WITH p ''QSetSTDERR:'' then eServerPacketType_QSetSTDERR
         else if PACKET_STARTS_WITH p ''QSetWorkingDir:'' then eServerPacketType_QSetWorkingDir
         else if PACKET_STARTS_WITH p ''QSetLogging:'' then eServerPacketType_QSetLogging
         else if PACKET_STARTS_WITH p ''QSetMaxPacketSize:'' then eServerPacketType_QSetMaxPacketSize
         else if PACKET_STARTS_WITH p ''QSetMaxPayloadSize:'' then eServerPacketType_QSetMaxPayloadSize
         else if PACKET_STARTS_WITH p ''QSetEnableAsyncProfiling;'' then eServerPacketType_QSetEnableAsyncProfiling
         else if PACKET_STARTS_WITH p ''QSyncThreadState:'' then eServerPacketType_QSyncThreadState
         else eServerPacketType_unimplemented)
      else if c = CHR ''L'' then
        (if PACKET_STARTS_WITH p ''QLaunchArch:'' then eServerPacketType_QLaunchArch
         else if PACKET_MATCHES p ''QListThreadsInStopReply'' then eServerPacketType_QListThreadsInStopReply
         else eServerPacketType_unimplemented)
      else if c = CHR ''R'' then
        (if PACKET_STARTS_WITH p ''QRestoreRegisterState:'' then eServerPacketType_QRestoreRegisterState
         else eServerPacketType_unimplemented)
      else if c = CHR ''T'' then
        (if PACKET_MATCHES p ''QThreadSuffixSupported'' then eServerPacketType_QThreadSuffixSupported
         else eServerPacketType_unimplemented)
      else eServerPacketType_unimplemented)"

definition server_packet_q :: "string \<Rightarrow> server_packet_type" where
  "server_packet_q p =
     (let c = packet_char p 1 in
      if c = CHR ''s'' then
        (if PACKET_MATCHES p ''qsProcessInfo'' then eServerPacketType_qsProcessInfo
         else if PACKET_MATCHES p ''qsThreadInfo'' then eServerPacketType_qsThreadInfo
         else eServerPacketType_unimplemented)
      else if c = CHR ''f'' then
        (if PACKET_STARTS_WITH p ''qfProcessInfo'' then eServerPacketType_qfProcessInfo
         else if PACKET_STARTS_WITH p ''qfThreadInfo'' then eServerPacketType_qfThreadInfo
         else eServerPacketType_unimplemented)
      else if c = CHR ''C'' then
        (if length p = 2 then eServerPacketType_qC
         else eServerPacketType_unimplemented)
      else if c = CHR ''E'' then
        (if PACKET_STARTS_WITH p ''qEcho:'' then eServerPacketType_qEcho
         else eServerPacketType_unimplemented)
      else if c = CHR ''F'' then
        (if PACKET_STARTS_WITH p ''qFileLoadAddress:'' then eServerPacketType_qFileLoadAddress
         else eServerPacketType_unimplemented)
      else if c = CHR ''G'' then
        (if PACKET_STARTS_WITH p ''qGroupName:'' then eServerPacketType_qGroupName
         else if PACKET_MATCHES p ''qGetWorkingDir'' then eServerPacketType_qGetWorkingDir
         else if PACKET_MATCHES p ''qGetPid'' then eServerPacketType_qGetPid
         else if PACKET_STARTS_WITH p ''qGetProfileData;'' then eServerPacketType_qGetProfileData
         else if PACKET_MATCHES p ''qGDBServerVersion'' then eServerPacketType_qGDBServerVersion
         else eServerPacketType_unimplemented)
      else if c = CHR ''H'' then
        (if PACKET_MATCHES p ''qHostInfo'' then eServerPacketType_qHostInfo
         else eServerPacketType_unimplemented)
      else if c = CHR ''K'' then
        (if PACKET_STARTS_WITH p ''qKillSpawnedProcess'' then eServerPacketType_qKillSpawnedProcess
         else eServerPacketType_unimplemented)
      else if c = CHR ''L'' then
        (if PACKET_STARTS_WITH p ''qLaunchGDBServer'' then eServerPacketType_qLaunchGDBServer
         else if PACKET_MATCHES p ''qLaunchSuccess'' then eServerPacketType_qLaunchSuccess
         else eServerPacketType_unimplemented)
      else if c = CHR ''M'' then
        (if PACKET_STARTS_WITH p ''qMemoryRegionInfo:'' then eServerPacketType_qMemoryRegionInfo
         else if PACKET_MATCHES p ''qMemoryRegionInfo'' then eServerPacketType_qMemoryRegionInfoSupported
         else if PACKET_STARTS_WITH p ''qModuleInfo:'' then eServerPacketType_qModuleInfo
         else eServerPacketType_unimplemented)
      else if c = CHR ''P'' then
        (if PACKET_STARTS_WITH p ''qProcessInfoPID:'' then eServerPacketType_qProcessInfoPID
         else if PACKET_STARTS_WITH p ''qPlatform_shell:'' then eServerPacketType_qPlatform_shell
         else if PACKET_STARTS_WITH p ''qPlatform_mkdir:'' then eServerPacketType_qPlatform_mkdir
         else if PACKET_STARTS_WITH p ''qPlatform_chmod:'' then eServerPacketType_qPlatform_chmod
         else if PACKET_MATCHES p ''qProcessInfo'' then eServerPacketType_qProcessInfo
         else eServerPacketType_unimplemented)
      else if c = CHR ''Q'' then
        (if PACKET_MATCHES p ''qQueryGDBServer'' then eServerPacketType_qQueryGDBServer
         else eServerPacketType_unimplemented)
      else if c = CHR ''R'' then
        (if PACKET_STARTS_WITH p ''qRcmd,'' then eServerPacketType_qRcmd
         else if PACKET_STARTS_WITH p ''qRegisterInfo'' then eServerPacketType_qRegisterInfo
         else eServerPacketType_unimplemented)
      else if c = CHR ''S'' then
        (if PACKET_STARTS_WITH p ''qSpeedTest:'' then eServerPacketType_qSpeedTest
         else if PACKET_MATCHES p ''qShlibInfoAddr'' then eServerPacketType_qShlibInfoAddr
         else if PACKET_MATCHES p ''qStepPacketSupported'' then eServerPacketType_qStepPacketSupported
         else if PACKET_STARTS_WITH p ''qSupported'' then eServerPacketType_qSupported
         else if PACKET_MATCHES p ''qSyncThreadStateSupported'' then eServerPacketType_qSyncThreadStateSupported
         else eServerPacketType_unimplemented)
      else if c = CHR ''T'' then
        (if PACKET_STARTS_WITH p ''qThreadExtraInfo,'' then eServerPacketType_qThreadExtraInfo
         else if PACKET_STARTS_WITH p ''qThreadStopInfo'' then eServerPacketType_qThreadStopInfo
         else eServerPacketType_unimplemented)
      else if c = CHR ''U'' then
        (if PACKET_STARTS_WITH p ''qUserName:'' then eServerPacketType_qUserName
         else eServerPacketType_unimplemented)
      else if c = CHR ''V'' then
        (if PACKET_MATCHES p ''qVAttachOrWaitSupported'' then eServerPacketType_qVAttachOrWaitSupported
         else eServerPacketType_unimplemented)
      else if c = CHR ''W'' then
        (if PACKET_STARTS_WITH p ''qWatchpointSupportInfo:'' then eServerPacketType_qWatchpointSupportInfo
         else if PACKET_MATCHES p ''qWatchpointSupportInfo'' then eServerPacketType_qWatchpointSupportInfoSupported
         else eServerPacketType_unimplemented)
      else if c = CHR ''X'' then
        (if PACKET_STARTS_WITH p ''qXfer:auxv:read::'' then eServerPacketType_qXfer_auxv_read
         else eServerPacketType_unimplemented)
      else eServerPacketType_unimplemented)"

definition server_packet_j :: "string \<Rightarrow> server_packet_type" where
  "server_packet_j p =
     (if PACKET_STARTS_WITH p ''jModulesInfo:'' then eServerPacketType_jModulesInfo
      else if PACKET_MATCHES p ''jSignalsInfo'' then eServerPacketType_jSignalsInfo
      else if PACKET_MATCHES p ''jThreadsInfo'' then eServerPacketType_jThreadsInfo
      else if PACKET_STARTS_WITH p ''jTraceBufferRead:'' then eServerPacketType_jTraceBufferRead
      else if PACKET_STARTS_WITH p ''jTraceConfigRead:'' then eServerPacketType_jTraceConfigRead
      else if PACKET_STARTS_WITH p ''jTraceMetaRead:'' then eServerPacketType_jTraceMetaRead
      else if PACKET_STARTS_WITH p ''jTraceStart:'' then eServerPacketType_jTraceStart
      else if PACKET_STARTS_WITH p ''jTraceStop:'' then eServerPacketType_jTraceStop
      else eServerPacketType_unimplemented)"

definition server_packet_v :: "string \<Rightarrow> server_packet_type" where
  "server_packet_v p =
     (if PACKET_STARTS_WITH p ''vFile:'' then
       (if PACKET_STARTS_WITH p ''vFile:open:'' then eServerPacketType_vFile_open
        else if PACKET_STARTS_WITH p ''vFile:close:'' then eServerPacketType_vFile_close
        else if PACKET_STARTS_WITH p ''vFile:pread'' then eServerPacketType_vFile_pread
        else if PACKET_STARTS_WITH p ''vFile:pwrite'' then eServerPacketType_vFile_pwrite
        else if PACKET_STARTS_WITH p ''vFile:size'' then eServerPacketType_vFile_size
        else if PACKET_STARTS_WITH p ''vFile:exists'' then eServerPacketType_vFile_exists
        else if PACKET_STARTS_WITH p ''vFile:stat'' then eServerPacketType_vFile_stat
        else if PACKET_STARTS_WITH p ''vFile:mode'' then eServerPacketType_vFile_mode
        else if PACKET_STARTS_WITH p ''vFile:MD5'' then eServerPacketType_vFile_md5
        else if PACKET_STARTS_WITH p ''vFile:symlink'' then eServerPacketType_vFile_symlink
        else if PACKET_STARTS_WITH p ''vFile:unlink'' then eServerPacketType_vFile_unlink
        else eServerPacketType_unimplemented)
      else
       (if PACKET_STARTS_WITH p ''vAttach;'' then eServerPacketType_vAttach
        else if PACKET_STARTS_WITH p ''vAttachWait;'' then eServerPacketType_vAttachWait
        else if PACKET_STARTS_WITH p ''vAttachOrWait;'' then eServerPacketType_vAttachOrWait
        else if PACKET_STARTS_WITH p ''vAttachName;'' then eServerPacketType_vAttachName
        else if PACKET_STARTS_WITH p ''vCont;'' then eServerPacketType_vCont
        else if PACKET_MATCHES p ''vCont?'' then eServerPacketType_vCont_actions
        else eServerPacketType_unimplemented))"

text \<open>The packets of one letter.\<close>

definition server_packet_letter :: "string \<Rightarrow> server_packet_type" where
  "server_packet_letter p =
     (let c = p ! 0; packet_size = length p in
      if c = CHR ''?'' then
        (if packet_size = 1 then eServerPacketType_stop_reason else eServerPacketType_unimplemented)
      else if c = CHR ''c'' then eServerPacketType_c
      else if c = CHR ''C'' then eServerPacketType_C
      else if c = CHR ''D'' then
        (if packet_size = 1 then eServerPacketType_D else eServerPacketType_unimplemented)
      else if c = CHR ''g'' then
        (if packet_size = 1 then eServerPacketType_g else eServerPacketType_unimplemented)
      else if c = CHR ''G'' then eServerPacketType_G
      else if c = CHR ''H'' then eServerPacketType_H
      else if c = CHR ''I'' then eServerPacketType_I
      else if c = CHR ''k'' then
        (if packet_size = 1 then eServerPacketType_k else eServerPacketType_unimplemented)
      else if c = CHR ''m'' then eServerPacketType_m
      else if c = CHR ''M'' then eServerPacketType_M
      else if c = CHR ''p'' then eServerPacketType_p
      else if c = CHR ''P'' then eServerPacketType_P
      else if c = CHR ''s'' then
        (if packet_size = 1 then eServerPacketType_s else eServerPacketType_unimplemented)
      else if c = CHR ''S'' then eServerPacketType_S
      else if c = CHR ''x'' then eServerPacketType_x
      else if c = CHR ''X'' then eServerPacketType_X
      else if c = CHR ''T'' then eServerPacketType_T
      else if c = CHR ''z'' then
        (if char_val (packet_char p 1) \<ge> 48 \<and> char_val (packet_char p 1) \<le> 52
         then eServerPacketType_z else eServerPacketType_unimplemented)
      else if c = CHR ''Z'' then
        (if char_val (packet_char p 1) \<ge> 48 \<and> char_val (packet_char p 1) \<le> 52
         then eServerPacketType_Z else eServerPacketType_unimplemented)
      else eServerPacketType_unimplemented)"

definition GetServerPacketType :: "string \<Rightarrow> server_packet_type" where
  "GetServerPacketType p =
     (if p = [] then eServerPacketType_invalid
      else let c = p ! 0; packet_size = length p in
      if c = CHR ''%'' then eServerPacketType_notify
      else if c = CHR 0x03 then
        (if packet_size = 1 then eServerPacketType_interrupt else eServerPacketType_unimplemented)
      else if c = CHR ''-'' then
        (if packet_size = 1 then eServerPacketType_nack else eServerPacketType_unimplemented)
      else if c = CHR ''+'' then
        (if packet_size = 1 then eServerPacketType_ack else eServerPacketType_unimplemented)
      else if c = CHR ''A'' then eServerPacketType_A
      else if c = CHR ''Q'' then server_packet_Q p
      else if c = CHR ''q'' then server_packet_q p
      else if c = CHR ''j'' then server_packet_j p
      else if c = CHR ''v'' then server_packet_v p
      else if c = CHR ''_'' then
        (if packet_char p 1 = CHR ''M'' then eServerPacketType__M
         else if packet_char p 1 = CHR ''m'' then eServerPacketType__m
         else eServerPacketType_unimplemented)
      else server_packet_letter p)"

section \<open>The words of the protocol\<close>

text \<open>The keywords of the packets that carry arguments, and the packets that stand alone, with
  the type each announces.\<close>

definition protocol_prefixes :: "(string \<times> server_packet_type) list" where
  "protocol_prefixes =
    [(''QEnvironment:'', eServerPacketType_QEnvironment),
     (''QEnvironmentHexEncoded:'', eServerPacketType_QEnvironmentHexEncoded),
     (''QEnableErrorStrings'', eServerPacketType_QEnableErrorStrings),
     (''QPassSignals:'', eServerPacketType_QPassSignals),
     (''QSaveRegisterState'', eServerPacketType_QSaveRegisterState),
     (''QSetDisableASLR:'', eServerPacketType_QSetDisableASLR),
     (''QSetDetachOnError:'', eServerPacketType_QSetDetachOnError),
     (''QSetSTDIN:'', eServerPacketType_QSetSTDIN),
     (''QSetSTDOUT:'', eServerPacketType_QSetSTDOUT),
     (''QSetSTDERR:'', eServerPacketType_QSetSTDERR),
     (''QSetWorkingDir:'', eServerPacketType_QSetWorkingDir),
     (''QSetLogging:'', eServerPacketType_QSetLogging),
     (''QSetMaxPacketSize:'', eServerPacketType_QSetMaxPacketSize),
     (''QSetMaxPayloadSize:'', eServerPacketType_QSetMaxPayloadSize),
     (''QSetEnableAsyncProfiling;'', eServerPacketType_QSetEnableAsyncProfiling),
     (''QSyncThreadState:'', eServerPacketType_QSyncThreadState),
     (''QLaunchArch:'', eServerPacketType_QLaunchArch),
     (''QRestoreRegisterState:'', eServerPacketType_QRestoreRegisterState),
     (''qfProcessInfo'', eServerPacketType_qfProcessInfo),
     (''qfThreadInfo'', eServerPacketType_qfThreadInfo),
     (''qEcho:'', eServerPacketType_qEcho),
     (''qFileLoadAddress:'', eServerPacketType_qFileLoadAddress),
     (''qGroupName:'', eServerPacketType_qGroupName),
     (''qGetProfileData;'', eServerPacketType_qGetProfileData),
     (''qKillSpawnedProcess'', eServerPacketType_qKillSpawnedProcess),
     (''qLaunchGDBServer'', eServerPacketType_qLaunchGDBServer),
     (''qMemoryRegionInfo:'', eServerPacketType_qMemoryRegionInfo),
     (''qModuleInfo:'', eServerPacketType_qModuleInfo),
     (''qProcessInfoPID:'', eServerPacketType_qProcessInfoPID),
     (''qPlatform_shell:'', eServerPacketType_qPlatform_shell),
     (''qPlatform_mkdir:'', eServerPacketType_qPlatform_mkdir),
     (''qPlatform_chmod:'', eServerPacketType_qPlatform_chmod),
     (''qRcmd,'', eServerPacketType_qRcmd),
     (''qRegisterInfo'', eServerPacketType_qRegisterInfo),
     (''qSpeedTest:'', eServerPacketType_qSpeedTest),
     (''qSupported'', eServerPacketType_qSupported),
     (''qThreadExtraInfo,'', eServerPacketType_qThreadExtraInfo),
     (''qThreadStopInfo'', eServerPacketType_qThreadStopInfo),
     (''qUserName:'', eServerPacketType_qUserName),
     (''qWatchpointSupportInfo:'', eServerPacketType_qWatchpointSupportInfo),
     (''qXfer:auxv:read::'', eServerPacketType_qXfer_auxv_read),
     (''jModulesInfo:'', eServerPacketType_jModulesInfo),
     (''jTraceBufferRead:'', eServerPacketType_jTraceBufferRead),
     (''jTraceConfigRead:'', eServerPacketType_jTraceConfigRead),
     (''jTraceMetaRead:'', eServerPacketType_jTraceMetaRead),
     (''jTraceStart:'', eServerPacketType_jTraceStart),
     (''jTraceStop:'', eServerPacketType_jTraceStop),
     (''vFile:open:'', eServerPacketType_vFile_open),
     (''vFile:close:'', eServerPacketType_vFile_close),
     (''vFile:pread'', eServerPacketType_vFile_pread),
     (''vFile:pwrite'', eServerPacketType_vFile_pwrite),
     (''vFile:size'', eServerPacketType_vFile_size),
     (''vFile:exists'', eServerPacketType_vFile_exists),
     (''vFile:stat'', eServerPacketType_vFile_stat),
     (''vFile:mode'', eServerPacketType_vFile_mode),
     (''vFile:MD5'', eServerPacketType_vFile_md5),
     (''vFile:symlink'', eServerPacketType_vFile_symlink),
     (''vFile:unlink'', eServerPacketType_vFile_unlink),
     (''vAttach;'', eServerPacketType_vAttach),
     (''vAttachWait;'', eServerPacketType_vAttachWait),
     (''vAttachOrWait;'', eServerPacketType_vAttachOrWait),
     (''vAttachName;'', eServerPacketType_vAttachName),
     (''vCont;'', eServerPacketType_vCont)]"

definition protocol_words :: "(string \<times> server_packet_type) list" where
  "protocol_words =
    [(''QStartNoAckMode'', eServerPacketType_QStartNoAckMode),
     (''QListThreadsInStopReply'', eServerPacketType_QListThreadsInStopReply),
     (''QThreadSuffixSupported'', eServerPacketType_QThreadSuffixSupported),
     (''qsProcessInfo'', eServerPacketType_qsProcessInfo),
     (''qsThreadInfo'', eServerPacketType_qsThreadInfo),
     (''qGetWorkingDir'', eServerPacketType_qGetWorkingDir),
     (''qGetPid'', eServerPacketType_qGetPid),
     (''qGDBServerVersion'', eServerPacketType_qGDBServerVersion),
     (''qHostInfo'', eServerPacketType_qHostInfo),
     (''qLaunchSuccess'', eServerPacketType_qLaunchSuccess),
     (''qMemoryRegionInfo'', eServerPacketType_qMemoryRegionInfoSupported),
     (''qProcessInfo'', eServerPacketType_qProcessInfo),
     (''qQueryGDBServer'', eServerPacketType_qQueryGDBServer),
     (''qShlibInfoAddr'', eServerPacketType_qShlibInfoAddr),
     (''qStepPacketSupported'', eServerPacketType_qStepPacketSupported),
     (''qSyncThreadStateSupported'', eServerPacketType_qSyncThreadStateSupported),
     (''qVAttachOrWaitSupported'', eServerPacketType_qVAttachOrWaitSupported),
     (''qWatchpointSupportInfo'', eServerPacketType_qWatchpointSupportInfoSupported),
     (''jSignalsInfo'', eServerPacketType_jSignalsInfo),
     (''jThreadsInfo'', eServerPacketType_jThreadsInfo),
     (''vCont?'', eServerPacketType_vCont_actions)]"

text \<open>Whatever follows the keyword.\<close>

lemma starts_with_append: "PACKET_STARTS_WITH (s @ a) s"
  by (simp add: PACKET_STARTS_WITH_def)

text \<open>Every keyword of the protocol that takes arguments is recognised as its packet type
  whatever follows it: no comparison is shadowed by an earlier one.\<close>

theorem protocol_prefixes_recognised:
  "list_all (\<lambda>(s, t). GetServerPacketType (s @ arguments) = t) protocol_prefixes"
  by (simp add: protocol_prefixes_def GetServerPacketType_def server_packet_Q_def server_packet_q_def
      server_packet_j_def server_packet_v_def PACKET_STARTS_WITH_def PACKET_MATCHES_def packet_char_def
      Let_def)

theorem protocol_words_recognised:
  "list_all (\<lambda>(s, t). GetServerPacketType s = t) protocol_words"
  by (simp add: protocol_words_def GetServerPacketType_def server_packet_Q_def server_packet_q_def
      server_packet_j_def server_packet_v_def PACKET_STARTS_WITH_def PACKET_MATCHES_def packet_char_def
      Let_def)

text \<open>
  Conversely, a packet is given a type only if it starts with a keyword of that type, is a word
  of that type, or is one of the packets recognised by their first character, by their first
  two or by being a single character.
\<close>

definition letter_packets :: "(char \<times> server_packet_type) list" where
  "letter_packets =
    [(CHR ''%'', eServerPacketType_notify), (CHR ''A'', eServerPacketType_A),
     (CHR ''c'', eServerPacketType_c), (CHR ''C'', eServerPacketType_C),
     (CHR ''G'', eServerPacketType_G), (CHR ''H'', eServerPacketType_H),
     (CHR ''I'', eServerPacketType_I), (CHR ''m'', eServerPacketType_m),
     (CHR ''M'', eServerPacketType_M), (CHR ''p'', eServerPacketType_p),
     (CHR ''P'', eServerPacketType_P), (CHR ''S'', eServerPacketType_S),
     (CHR ''x'', eServerPacketType_x), (CHR ''X'', eServerPacketType_X),
     (CHR ''T'', eServerPacketType_T), (CHR ''z'', eServerPacketType_z),
     (CHR ''Z'', eServerPacketType_Z)]"

definition short_packets :: "(string \<times> server_packet_type) list" where
  "short_packets =
    [([CHR 0x03], eServerPacketType_interrupt), (''-'', eServerPacketType_nack),
     (''+'', eServerPacketType_ack), (''?'', eServerPacketType_stop_reason),
     (''D'', eServerPacketType_D), (''g'', eServerPacketType_g), (''k'', eServerPacketType_k),
     (''s'', eServerPacketType_s)]"

definition announces :: "string \<Rightarrow> server_packet_type \<Rightarrow> bool" where
  "announces p t \<longleftrightarrow>
     t = eServerPacketType_unimplemented \<or>
     t = eServerPacketType_invalid \<and> p = [] \<or>
     (\<exists>s. (s, t) \<in> set protocol_prefixes \<and> PACKET_STARTS_WITH p s) \<or>
     (\<exists>s. (s, t) \<in> set protocol_words \<and> PACKET_MATCHES p s) \<or>
     (\<exists>c. (c, t) \<in> set letter_packets \<and> p \<noteq> [] \<and> p ! 0 = c) \<or>
     (\<exists>s. (s, t) \<in> set short_packets \<and> p \<noteq> [] \<and> p ! 0 = s ! 0 \<and> length p = 1) \<or>
     t = eServerPacketType_qC \<and> length p = 2 \<or>
     t = eServerPacketType__M \<and> packet_char p 1 = CHR ''M'' \<or>
     t = eServerPacketType__m \<and> packet_char p 1 = CHR ''m''"

lemma announces_if: "(c \<Longrightarrow> announces p a) \<Longrightarrow> (\<not> c \<Longrightarrow> announces p b) \<Longrightarrow> announces p (if c then a else b)"
  by simp

lemma announces_unimplemented: "announces p eServerPacketType_unimplemented"
  by (simp add: announces_def)

lemma announces_prefix: "PACKET_STARTS_WITH p s \<Longrightarrow> (s, t) \<in> set protocol_prefixes \<Longrightarrow> announces p t"
  by (auto simp: announces_def)

lemma announces_word: "PACKET_MATCHES p s \<Longrightarrow> (s, t) \<in> set protocol_words \<Longrightarrow> announces p t"
  by (auto simp: announces_def)

lemma announces_letter: "p ! 0 = c \<Longrightarrow> p \<noteq> [] \<Longrightarrow> (c, t) \<in> set letter_packets \<Longrightarrow> announces p t"
  by (auto simp: announces_def)

lemma announces_short:
  "length p = 1 \<Longrightarrow> p ! 0 = c \<Longrightarrow> ([c], t) \<in> set short_packets \<Longrightarrow> announces p t"
  by (auto simp: announces_def)

lemma server_packet_family_announces:
  "announces p (server_packet_v p)" "announces p (server_packet_j p)"
  "announces p (server_packet_Q p)" "announces p (server_packet_q p)"
  unfolding server_packet_v_def server_packet_j_def server_packet_Q_def server_packet_q_def Let_def
  by (intro announces_if;
      (rule announces_unimplemented
      | (erule announces_prefix, (simp add: protocol_prefixes_def; fail))
      | (erule announces_word, (simp add: protocol_words_def; fail))
      | (simp add: announces_def; fail)))+

lemma server_packet_letter_announces: "p \<noteq> [] \<Longrightarrow> announces p (server_packet_letter p)"
  unfolding server_packet_letter_def Let_def
  by (intro announces_if;
      (rule announces_unimplemented
      | (erule announces_letter, assumption, (simp add: letter_packets_def; fail))
      | (erule announces_short, assumption, (simp add: short_packets_def; fail))))

text \<open>A packet is given a type only if it starts with a keyword of that type, is a word of
  that type, or is one of the one-letter packets of that type; anything else is
  unimplemented, and only the empty packet is invalid.\<close>

theorem GetServerPacketType_announced: "announces p (GetServerPacketType p)"
  unfolding GetServerPacketType_def Let_def
  by (intro announces_if;
      (rule announces_unimplemented server_packet_family_announces
      | (rule server_packet_letter_announces, assumption)
      | (erule announces_letter, assumption, (simp add: letter_packets_def; fail))
      | (erule announces_short, assumption, (simp add: short_packets_def; fail))
      | (simp add: announces_def; fail)))

end
