(* ===== verification/GDBRemotePacket.thy ===== *)
theory GDBRemotePacket
  imports StringExtractor
begin

text \<open>
  The responses of a debug server (source/Utility/StringExtractorGDBRemote.cpp), the binary
  escaping of payloads (source/Utility/StreamGDBRemote.cpp), and the part of \<open>Status\<close>
  (source/Utility/Status.cpp) that carries a server's error.
\<close>

section \<open>Status\<close>

datatype error_type =
    eErrorTypeInvalid
  | eErrorTypeGeneric
  | eErrorTypeMachKernel
  | eErrorTypePOSIX
  | eErrorTypeExpression
  | eErrorTypeWin32

record status =
  st_code :: u32
  st_type :: error_type
  st_string :: string

definition new_Status :: status where
  "new_Status = \<lparr>st_code = 0, st_type = eErrorTypeInvalid, st_string = []\<rparr>"

definition Clear_status :: "status \<Rightarrow> status" where
  "Clear_status s = s\<lparr>st_code := 0, st_type := eErrorTypeInvalid, st_string := []\<rparr>"

definition Success_status :: "status \<Rightarrow> bool" where
  "Success_status s \<longleftrightarrow> st_code s = 0"

definition Fail_status :: "status \<Rightarrow> bool" where
  "Fail_status s \<longleftrightarrow> st_code s \<noteq> 0"

definition SetError :: "status \<Rightarrow> u32 \<Rightarrow> error_type \<Rightarrow> status" where
  "SetError s err t = s\<lparr>st_code := err, st_type := t, st_string := []\<rparr>"

text \<open>\<open>LLDB_GENERIC_ERROR\<close> is \<open>UINT32_MAX\<close>.\<close>

definition SetErrorToGenericError :: "status \<Rightarrow> status" where
  "SetErrorToGenericError s =
     s\<lparr>st_code := word_of_nat UINT32_MAX, st_type := eErrorTypeGeneric, st_string := []\<rparr>"

definition SetErrorString :: "status \<Rightarrow> string \<Rightarrow> status" where
  "SetErrorString s err_str =
     (let s = (if err_str \<noteq> [] \<and> Success_status s then SetErrorToGenericError s else s)
      in s\<lparr>st_string := err_str\<rparr>)"

text \<open>The formatted text is an argument; the format string is not empty.\<close>

definition SetErrorStringWithFormat :: "status \<Rightarrow> string \<Rightarrow> status" where
  "SetErrorStringWithFormat s formatted =
     (let s = (if Success_status s then SetErrorToGenericError s else s)
      in s\<lparr>st_string := formatted\<rparr>)"

text \<open>\<open>%u\<close>.\<close>

fun decimal :: "nat \<Rightarrow> string" where
  "decimal n = (if n < 10 then [char_of (48 + n)] else decimal (n div 10) @ [char_of (48 + n mod 10)])"

declare decimal.simps [simp del]

section \<open>Responses\<close>

datatype response_type = eUnsupported | eAck | eNack | eError | eOK | eResponse

text \<open>\<open>m_packet[i]\<close>: \<open>std::string\<close> has a NUL at its end.\<close>

definition response_char :: "string \<Rightarrow> nat \<Rightarrow> char" where
  "response_char p i = (if i < length p then p ! i else CHR 0x00)"

definition GetResponseType :: "string \<Rightarrow> response_type" where
  "GetResponseType p =
     (if p = [] then eUnsupported
      else if p ! 0 = CHR ''E'' then
        (if isxdigit (response_char p 1) \<and> isxdigit (response_char p 2)
         then if length p = 3 then eError
              else if p ! 3 = CHR '';''
                   then if list_all isxdigit (drop 4 p) then eError else eResponse
                   else eResponse
         else eResponse)
      else if p ! 0 = CHR ''O'' then
        (if length p = 2 \<and> p ! 1 = CHR ''K'' then eOK else eResponse)
      else if p ! 0 = CHR ''+'' then (if length p = 1 then eAck else eResponse)
      else if p ! 0 = CHR ''-'' then (if length p = 1 then eNack else eResponse)
      else eResponse)"

definition IsOKResponse :: "string \<Rightarrow> bool" where
  "IsOKResponse p \<longleftrightarrow> GetResponseType p = eOK"

definition IsUnsupportedResponse :: "string \<Rightarrow> bool" where
  "IsUnsupportedResponse p \<longleftrightarrow> GetResponseType p = eUnsupported"

definition IsNormalResponse :: "string \<Rightarrow> bool" where
  "IsNormalResponse p \<longleftrightarrow> GetResponseType p = eResponse"

definition IsErrorResponse :: "string \<Rightarrow> bool" where
  "IsErrorResponse p \<longleftrightarrow>
     GetResponseType p = eError \<and> isxdigit (response_char p 1) \<and> isxdigit (response_char p 2)"

definition GetError :: "string_extractor \<Rightarrow> u8 \<times> string_extractor" where
  "GetError s =
     (if GetResponseType (se_packet s) = eError
      then GetHexU8 (SetFilePos s 1) 255 True
      else (0, s))"

definition GetStatus :: "string_extractor \<Rightarrow> status \<times> string_extractor" where
  "GetStatus s =
     (if GetResponseType (se_packet s) = eError
      then let (errc, s) = GetHexU8 (SetFilePos s 1) 255 True;
               error = SetError new_Status (ucast errc) eErrorTypeGeneric;
               error = SetErrorStringWithFormat error (''Error '' @ decimal (unat errc));
               (c, s) = GetChar s (CHR 0x00)
           in if c = CHR '';''
              then let (error_messg, s) = GetHexByteString s
                   in (SetErrorString error error_messg, s)
              else (error, s)
      else (new_Status, s))"

definition GetEscapedBinaryData :: "string_extractor \<Rightarrow> string \<times> string_extractor" where
  "GetEscapedBinaryData s =
     (let bytes_left = GetBytesLeft s
      in if bytes_left > 0
         then (take bytes_left (drop (se_index s) (se_packet s)),
               s\<lparr>se_index := se_index s + bytes_left\<rparr>)
         else ([], s))"

section \<open>Validators\<close>

text \<open>A validator is a function of the response; the batons of the ones below are null.\<close>

record gdb_response = string_extractor +
  gp_validator :: "(string \<Rightarrow> bool) option"

definition OKErrorNotSupportedResponseValidator :: "string \<Rightarrow> bool" where
  "OKErrorNotSupportedResponseValidator response =
     (case GetResponseType response of
        eOK \<Rightarrow> True | eError \<Rightarrow> True | eUnsupported \<Rightarrow> True
      | eAck \<Rightarrow> False | eNack \<Rightarrow> False | eResponse \<Rightarrow> False)"

definition JSONResponseValidator :: "string \<Rightarrow> bool" where
  "JSONResponseValidator response =
     (case GetResponseType response of
        eUnsupported \<Rightarrow> True | eError \<Rightarrow> True
      | eOK \<Rightarrow> False | eAck \<Rightarrow> False | eNack \<Rightarrow> False
      | eResponse \<Rightarrow> response ! 0 = CHR ''{'' \<or> response ! 0 = CHR ''['')"

text \<open>The loop over the characters, which stops after 16 of them.\<close>

fun hex_bytes_valid :: "string \<Rightarrow> nat \<Rightarrow> bool" where
  "hex_bytes_valid [] valid_count = True"
| "hex_bytes_valid (ch # cs) valid_count =
     (if \<not> isxdigit ch then False
      else if valid_count + 1 \<ge> 16 then True
      else hex_bytes_valid cs (valid_count + 1))"

definition ASCIIHexBytesResponseValidator :: "string \<Rightarrow> bool" where
  "ASCIIHexBytesResponseValidator response =
     (case GetResponseType response of
        eUnsupported \<Rightarrow> True | eError \<Rightarrow> True
      | eOK \<Rightarrow> False | eAck \<Rightarrow> False | eNack \<Rightarrow> False
      | eResponse \<Rightarrow> hex_bytes_valid response 0)"

definition CopyResponseValidator :: "gdb_response \<Rightarrow> gdb_response \<Rightarrow> gdb_response" where
  "CopyResponseValidator s rhs = s\<lparr>gp_validator := gp_validator rhs\<rparr>"

definition SetResponseValidator :: "gdb_response \<Rightarrow> (string \<Rightarrow> bool) option \<Rightarrow> gdb_response" where
  "SetResponseValidator s callback = s\<lparr>gp_validator := callback\<rparr>"

definition SetResponseValidatorToOKErrorNotSupported :: "gdb_response \<Rightarrow> gdb_response" where
  "SetResponseValidatorToOKErrorNotSupported s =
     s\<lparr>gp_validator := Some OKErrorNotSupportedResponseValidator\<rparr>"

definition SetResponseValidatorToASCIIHexBytes :: "gdb_response \<Rightarrow> gdb_response" where
  "SetResponseValidatorToASCIIHexBytes s = s\<lparr>gp_validator := Some ASCIIHexBytesResponseValidator\<rparr>"

definition SetResponseValidatorToJSON :: "gdb_response \<Rightarrow> gdb_response" where
  "SetResponseValidatorToJSON s = s\<lparr>gp_validator := Some JSONResponseValidator\<rparr>"

definition ValidateResponse :: "gdb_response \<Rightarrow> bool" where
  "ValidateResponse s =
     (case gp_validator s of
        Some validator \<Rightarrow> validator (se_packet s)
      | None \<Rightarrow> True)"

section \<open>Binary escaping\<close>

definition escape_xor :: "char \<Rightarrow> char" where
  "escape_xor c = char_of_u8 (u8_of_char c XOR 0x20)"

definition needs_escape :: "char \<Rightarrow> bool" where
  "needs_escape byte \<longleftrightarrow>
     byte = CHR 0x23 \<or> byte = CHR 0x24 \<or> byte = CHR 0x7d \<or> byte = CHR 0x2a"

primrec PutEscapedBytes :: "string \<Rightarrow> string" where
  "PutEscapedBytes [] = []"
| "PutEscapedBytes (byte # src) =
     (if needs_escape byte then [CHR 0x7d, escape_xor byte] else [byte]) @ PutEscapedBytes src"

section \<open>The error a server sends is the error the client sees\<close>

text \<open>The text of an error response with a message, as \<open>SendErrorResponse\<close> of the server prints it.\<close>

definition error_packet :: "u8 \<Rightarrow> string \<Rightarrow> string" where
  "error_packet code message =
     ''E'' @ put_Hex8 False code False @ '';'' @ PutCStringAsRawHex8 message"

lemma PutCStringAsRawHex8_isxdigit: "list_all isxdigit (PutCStringAsRawHex8 str)"
proof -
  have "isxdigit c" if "c \<in> set (put_Hex8 False b False)" for b c
    using that byte_nibbles [of b] by (auto simp: put_Hex8_text)
  then show ?thesis
    by (auto simp: PutCStringAsRawHex8_def list_all_iff)
qed

lemma error_packet_type: "GetResponseType (error_packet code message) = eError"
  using byte_nibbles [of code] PutCStringAsRawHex8_isxdigit [of message]
  by (simp add: error_packet_def GetResponseType_def put_Hex8_text response_char_def)

lemma no_nul_bytes:
  "CHR 0x00 \<notin> set str \<Longrightarrow> 0 \<notin> set (map u8_of_char str)"
  "CHR 0x00 \<notin> set str \<Longrightarrow> PutCStringAsRawHex8 str = concat (map (\<lambda>b. put_Hex8 False b False) (map u8_of_char str))"
proof -
  assume a: "CHR 0x00 \<notin> set str"
  have nz: "(of_char c :: nat) \<noteq> 0" if "c \<in> set str" for c
  proof
    assume "(of_char c :: nat) = 0"
    then have "c = char_of (0 :: nat)" by (metis char_of_char)
    then have "c = CHR 0x00" by (simp add: char_of_def)
    with that a show False by simp
  qed
  have "unat (u8_of_char c) = of_char c" for c
    by (simp add: u8_of_char_def)
  then have "u8_of_char c \<noteq> 0" if "c \<in> set str" for c
    using nz [OF that] by (metis unsigned_0)
  then show "0 \<notin> set (map u8_of_char str)" by auto
  show "PutCStringAsRawHex8 str = concat (map (\<lambda>b. put_Hex8 False b False) (map u8_of_char str))"
  proof -
    have "takeWhile (\<lambda>c. of_char c \<noteq> (0 :: nat)) str = str"
      using nz by (simp add: takeWhile_eq_all_conv)
    then show ?thesis by (simp only: PutCStringAsRawHex8_def map_map comp_def)
  qed
qed

text \<open>C32: An error response with a code and a message decodes to a failing status that carries the
  message and, unless the code is zero, the code: the message is sent as hexadecimal text
  and recovered whole.\<close>

theorem GetStatus_error_packet:
  assumes "CHR 0x00 \<notin> set message"
  shows "fst (GetStatus (StringExtractor_of (error_packet code message))) =
    \<lparr>st_code = (if code = 0 then word_of_nat UINT32_MAX else ucast code),
     st_type = eErrorTypeGeneric, st_string = message\<rparr>"
proof -
  let ?s = "StringExtractor_of (error_packet code message)"
  let ?s1 = "SetFilePos ?s 1"
  have g: "GetHexU8 ?s1 255 True = (code, ?s1\<lparr>se_index := 3\<rparr>)"
    using GetHexU8_put [of ?s1 code "'';'' @ PutCStringAsRawHex8 message" 255 True]
    by (simp add: StringExtractor_of_def SetFilePos_def error_packet_def)
  have c: "GetChar (?s1\<lparr>se_index := 3\<rparr>) (CHR 0x00) = (CHR '';'', ?s1\<lparr>se_index := 4\<rparr>)"
    by (simp add: GetChar_def StringExtractor_of_def SetFilePos_def error_packet_def put_Hex8_text)
  have m: "\<exists>s'. GetHexByteString (?s1\<lparr>se_index := 4\<rparr>) = (message, s')"
    using hex_string_loop_put [of "?s1\<lparr>se_index := 4\<rparr>" "map u8_of_char message" "[]"]
      no_nul_bytes [OF assms]
    by (simp add: GetHexByteString_def StringExtractor_of_def SetFilePos_def error_packet_def
        put_Hex8_text comp_def)
  have z: "(ucast code :: u32) = 0 \<longleftrightarrow> code = 0"
  proof -
    have "unat code < 2 ^ LENGTH(32)"
      by (rule less_trans [OF u8_bound]) simp
    then have "unat (ucast code :: u32) = unat code"
      by (simp only: unat_ucast_mod mod_less)
    then show ?thesis
      by (simp only: word_unat_eq_iff unsigned_0)
  qed
  have t: "GetResponseType (se_packet ?s) = eError"
    using error_packet_type [of code message] by (simp add: StringExtractor_of_def)
  from m obtain s' where m': "GetHexByteString (?s1\<lparr>se_index := 4\<rparr>) = (message, s')"
    by blast
  have "fst (GetStatus ?s) = SetErrorString (SetErrorStringWithFormat
      (SetError new_Status (ucast code) eErrorTypeGeneric) (''Error '' @ decimal (unat code))) message"
    by (simp add: GetStatus_def t g [unfolded One_nat_def] c [unfolded One_nat_def] m' [unfolded One_nat_def])
  then show ?thesis
    by (simp add: SetError_def new_Status_def SetErrorStringWithFormat_def Success_status_def
        SetErrorToGenericError_def SetErrorString_def z UINT32_MAX_def)
qed

lemma hex_bytes_valid_prefix: "n \<le> 15 \<Longrightarrow> hex_bytes_valid p n = list_all isxdigit (take (16 - n) p)"
  by (induction p n rule: hex_bytes_valid.induct)
    (auto simp: take_Cons' Suc_diff_Suc)

text \<open>Escaping leaves no character in the text that the packet format gives a meaning to.\<close>

lemma escape_xor_values:
  "escape_xor CHR ''#'' = CHR 0x03" "escape_xor CHR ''$'' = CHR 0x04"
  "escape_xor CHR ''*'' = CHR 0x0a" "escape_xor CHR 0x7d = CHR 0x5d"
  by (simp_all add: escape_xor_def char_of_u8_def u8_of_char_def char_of_def bit_Suc_0_iff)

lemma escape_xor_xor: "escape_xor (escape_xor c) = c"
  by (simp add: escape_xor_def xor.assoc)

lemma needs_escape_xor:
  "needs_escape c \<Longrightarrow> escape_xor c \<notin> {CHR ''#'', CHR ''$'', CHR ''*'', CHR 0x7d}"
  by (auto simp: needs_escape_def escape_xor_values)

lemma PutEscapedBytes_no_hash: "CHR ''#'' \<notin> set (PutEscapedBytes src)"
proof (induction src)
  case Nil
  then show ?case by simp
next
  case (Cons c src)
  then show ?case
    using needs_escape_xor [of c] by (auto simp: needs_escape_def)
qed

theorem GetStatus_error_packet_witness:
  "fst (GetStatus (StringExtractor_of (error_packet 13 ''no such process''))) =
    \<lparr>st_code = 13, st_type = eErrorTypeGeneric, st_string = ''no such process''\<rparr>"
  using GetStatus_error_packet [where code = 13 and message = "''no such process''"] by simp

end
