(* ===== verification/GDBRemoteFraming.thy ===== *)
theory GDBRemoteFraming
  imports GDBRemotePacket
begin

text \<open>
  The packet layer of the GDB remote protocol
  (source/Plugins/Process/gdb-remote/GDBRemoteCommunication.cpp): framing and checksums, the
  parser that cuts packets out of the bytes received so far, decompression, acknowledgements,
  the history ring, the packet queue of the read thread and the resynchronisation after a
  timeout.

  The outside world is the record \<open>remote_env\<close>: what the connection accepts of a write, the
  decompression libraries, regular expressions and the thread id. What the connection delivers
  is the list \<open>gc_input\<close> of the results of its reads. Logging is switched off.
\<close>

section \<open>The object\<close>

datatype history_type = ePacketTypeInvalid | ePacketTypeSend | ePacketTypeRecv

record history_entry =
  he_packet :: string
  he_type :: history_type
  he_bytes_transmitted :: nat
  he_packet_idx :: nat
  he_tid :: nat

record history =
  hi_packets :: "history_entry list"
  hi_curr_idx :: nat
  hi_total_packet_count :: nat

datatype compression_type = CompressionNone | ZlibDeflate | LZFSE | LZ4 | LZMA

datatype packet_type = Invalid | Standard | Notify

datatype packet_result =
    PacketSuccess
  | ErrorSendFailed
  | ErrorSendAck
  | ErrorReplyFailed
  | ErrorReplyTimeout
  | ErrorReplyInvalid
  | ErrorReplyAck
  | ErrorDisconnected
  | ErrorNoSequenceLock

datatype connection_status =
    eConnectionStatusSuccess
  | eConnectionStatusEndOfFile
  | eConnectionStatusError
  | eConnectionStatusTimedOut
  | eConnectionStatusNoConnection
  | eConnectionStatusLostConnection
  | eConnectionStatusInterrupted

text \<open>\<open>gc_sent\<close> and \<open>gc_events\<close> are what the object has written to the connection and
  broadcast; \<open>gc_input\<close> what the coming reads return.\<close>

record gdb_comm =
  gc_bytes :: string
  gc_connected :: bool
  gc_echo_number :: nat
  gc_supports_qEcho :: lazy_bool
  gc_history :: history
  gc_send_acks :: bool
  gc_compression_type :: compression_type
  gc_read_thread_enabled :: bool
  gc_packet_queue :: "string_extractor list"
  gc_sent :: "string list"
  gc_events :: "string list"
  gc_input :: "(string \<times> connection_status) list"

record remote_env =
  env_threadid :: nat
  env_write :: "string list \<Rightarrow> string \<Rightarrow> nat"
  env_decompress :: "compression_type \<Rightarrow> nat \<Rightarrow> string \<Rightarrow> string"
  env_regex :: "string \<Rightarrow> string \<Rightarrow> bool"

section \<open>The history ring\<close>

definition empty_entry :: history_entry where
  "empty_entry = \<lparr>he_packet = [], he_type = ePacketTypeInvalid, he_bytes_transmitted = 0,
     he_packet_idx = 0, he_tid = UINT64_MAX\<rparr>"

definition new_History :: "nat \<Rightarrow> history" where
  "new_History packets =
     \<lparr>hi_packets = replicate packets empty_entry, hi_curr_idx = 0, hi_total_packet_count = 0\<rparr>"

definition GetFirstSavedPacketIndex :: "history \<Rightarrow> nat" where
  "GetFirstSavedPacketIndex h =
     (if hi_total_packet_count h < length (hi_packets h) then 0 else hi_curr_idx h + 1)"

definition GetNumPacketsInHistory :: "history \<Rightarrow> nat" where
  "GetNumPacketsInHistory h =
     (if hi_total_packet_count h < length (hi_packets h) then hi_total_packet_count h
      else length (hi_packets h))"

definition NormalizeIndex :: "history \<Rightarrow> nat \<Rightarrow> nat" where
  "NormalizeIndex h i = i mod length (hi_packets h)"

definition GetNextIndex :: "history \<Rightarrow> nat \<times> history" where
  "GetNextIndex h =
     (let h = h\<lparr>hi_total_packet_count := (hi_total_packet_count h + 1) mod 2 ^ 32\<rparr>;
          idx = hi_curr_idx h
      in (idx, h\<lparr>hi_curr_idx := NormalizeIndex h (idx + 1)\<rparr>))"

text \<open>Both overloads: \<open>src\<close> is the packet's text up to its length.\<close>

definition AddPacket ::
  "remote_env \<Rightarrow> string \<Rightarrow> history_type \<Rightarrow> nat \<Rightarrow> history \<Rightarrow> history" where
  "AddPacket env src type bytes_transmitted h =
     (if length (hi_packets h) > 0
      then let (idx, h) = GetNextIndex h;
               entry = \<lparr>he_packet = src, he_type = type, he_bytes_transmitted = bytes_transmitted,
                        he_packet_idx = hi_total_packet_count h, he_tid = env_threadid env\<rparr>
           in h\<lparr>hi_packets := (hi_packets h)[idx := entry]\<rparr>
      else h)"

text \<open>The entries \<open>Dump\<close> prints, in order.\<close>

fun dump_loop :: "history \<Rightarrow> nat \<Rightarrow> nat \<Rightarrow> history_entry list" where
  "dump_loop h i 0 = []"
| "dump_loop h i (Suc n) =
     (let entry = hi_packets h ! NormalizeIndex h i
      in if he_type entry = ePacketTypeInvalid \<or> he_packet entry = [] then []
         else entry # dump_loop h (i + 1) n)"

definition Dump :: "history \<Rightarrow> history_entry list" where
  "Dump h =
     (let num = GetNumPacketsInHistory h;
          first_idx = GetFirstSavedPacketIndex h;
          stop_idx = hi_curr_idx h + num
      in dump_loop h first_idx (stop_idx - first_idx))"

section \<open>Sending\<close>

text \<open>The sum of the characters, as signed values, modulo 256: a \<open>char\<close>.\<close>

definition CalculcateChecksum :: "string \<Rightarrow> u8" where
  "CalculcateChecksum payload = word_of_int (foldl (\<lambda>checksum c. checksum + char_val c) 0 payload)"

definition write_bytes :: "remote_env \<Rightarrow> string \<Rightarrow> gdb_comm \<Rightarrow> nat \<times> gdb_comm" where
  "write_bytes env data c =
     (let bytes_written = env_write env (gc_sent c) data
      in (bytes_written, c\<lparr>gc_sent := gc_sent c @ [take bytes_written data]\<rparr>))"

definition add_history :: "remote_env \<Rightarrow> string \<Rightarrow> history_type \<Rightarrow> nat \<Rightarrow> gdb_comm \<Rightarrow> gdb_comm" where
  "add_history env src type n c = c\<lparr>gc_history := AddPacket env src type n (gc_history c)\<rparr>"

definition SendAck :: "remote_env \<Rightarrow> gdb_comm \<Rightarrow> nat \<times> gdb_comm" where
  "SendAck env c =
     (let (bytes_written, c) = write_bytes env ''+'' c
      in (bytes_written, add_history env ''+'' ePacketTypeSend bytes_written c))"

definition SendNack :: "remote_env \<Rightarrow> gdb_comm \<Rightarrow> nat \<times> gdb_comm" where
  "SendNack env c =
     (let (bytes_written, c) = write_bytes env ''-'' c
      in (bytes_written, add_history env ''-'' ePacketTypeSend bytes_written c))"

definition frame_packet :: "string \<Rightarrow> string" where
  "frame_packet payload =
     ''$'' @ payload @ ''#'' @ PutHex8 False (CalculcateChecksum payload)"

section \<open>Decompressing the first packet\<close>

definition CompressionIsEnabled :: "gdb_comm \<Rightarrow> bool" where
  "CompressionIsEnabled c \<longleftrightarrow> gc_compression_type c \<noteq> CompressionNone"

text \<open>\<open>std::string::find\<close>.\<close>

definition find_char :: "char \<Rightarrow> string \<Rightarrow> nat option" where
  "find_char x s =
     (let n = length (takeWhile (\<lambda>c. c \<noteq> x) s) in if n < length s then Some n else None)"

text \<open>The escape loop of \<open>DecompressPacket\<close>, on the text from the cursor on; \<open>n\<close> is the
  distance of the cursor from the hash mark. An escape before the hash mark takes the mark.\<close>

fun unescape_content :: "nat \<Rightarrow> string \<Rightarrow> string" where
  "unescape_content (Suc n) (CHR 0x7d # c # cs) = escape_xor c # unescape_content (n - 1) cs"
| "unescape_content (Suc n) (c # cs) = c # unescape_content n cs"
| "unescape_content n cs = []"

text \<open>
  The bytes, whether the caller goes on, and the object. The library call that inflates the
  payload is \<open>env_decompress\<close> (no bytes when it fails, or when no buffer could be allocated);
  without the size of the payload there is no buffer and no call.
\<close>

definition decompress_payload ::
  "remote_env \<Rightarrow> nat option \<Rightarrow> nat \<Rightarrow> nat \<Rightarrow> gdb_comm \<Rightarrow> bool \<times> gdb_comm" where
  "decompress_payload env decompressed_bufsize content_start hash_mark_idx c =
     (let b = gc_bytes c;
          size_of_first_packet = hash_mark_idx + 3;
          unescaped_content = unescape_content (hash_mark_idx - content_start) (drop content_start b);
          decompressed = (case decompressed_bufsize of
              None \<Rightarrow> []
            | Some n \<Rightarrow> env_decompress env (gc_compression_type c) n unescaped_content)
      in if decompressed = [] then (False, c\<lparr>gc_bytes := drop size_of_first_packet b\<rparr>)
         else let new_packet = [b ! 0] @ decompressed @ ''#'' @
                    (if gc_send_acks c then PutHex8 False (CalculcateChecksum decompressed)
                     else ''00'')
              in (True, c\<lparr>gc_bytes := new_packet @ drop size_of_first_packet b\<rparr>))"

text \<open>The size in front of a compressed payload and where the payload starts: the digits up
  to a colon. \<open>Inl\<close> when the number is out of range.\<close>

definition decompressed_size :: "string \<Rightarrow> nat \<Rightarrow> unit + (nat option \<times> nat)" where
  "decompressed_size b hash_mark_idx =
     (if b ! 1 = CHR ''C''
      then let digits = takeWhile isdigit (drop 2 (take hash_mark_idx b));
               i = 2 + length digits
           in if i < hash_mark_idx \<and> b ! i = CHR '':''
              then let (_, v, _) = strto 10 digits
                   in if v \<ge> UINT64_MAX then Inl () else Inr (Some v, i + 1)
              else Inr (None, 2)
      else Inr (None, 2))"

definition DecompressPacket :: "remote_env \<Rightarrow> gdb_comm \<Rightarrow> bool \<times> gdb_comm" where
  "DecompressPacket env c =
     (if \<not> CompressionIsEnabled c then (True, c)
      else let b = gc_bytes c; pkt_size = length b in
      if pkt_size < 5 then (True, c)
      else if b ! 0 \<noteq> CHR ''$'' \<and> b ! 0 \<noteq> CHR ''%'' then (True, c)
      else if b ! 1 \<noteq> CHR ''C'' \<and> b ! 1 \<noteq> CHR ''N'' then (True, c)
      else case find_char CHR ''#'' b of
        None \<Rightarrow> (True, c)
      | Some hash_mark_idx \<Rightarrow>
          if hash_mark_idx + 2 \<ge> pkt_size then (True, c)
          else if \<not> isxdigit (b ! (hash_mark_idx + 1)) \<or> \<not> isxdigit (b ! (hash_mark_idx + 2))
          then (True, c)
          else let size_of_first_packet = hash_mark_idx + 3
          in case decompressed_size b hash_mark_idx of
               Inl _ \<Rightarrow> (False, c\<lparr>gc_bytes := drop size_of_first_packet b\<rparr>)
             | Inr (decompressed_bufsize, content_start) \<Rightarrow>
                 let packet_checksum =
                       uint (fst (strtoll 16 [b ! (hash_mark_idx + 1), b ! (hash_mark_idx + 2)]));
                     actual_checksum =
                       sint (CalculcateChecksum (take (hash_mark_idx - 1) (drop 1 b)));
                     success = (packet_checksum = actual_checksum)
                 in if gc_send_acks c \<and> \<not> success
                    then let (_, c) = SendNack env c
                         in (False, c\<lparr>gc_bytes := drop size_of_first_packet b\<rparr>)
                    else let c = (if gc_send_acks c then snd (SendAck env c) else c)
                         in if b ! 1 = CHR ''N''
                            then (True, c\<lparr>gc_bytes := take 1 b @ drop 2 b\<rparr>)
                            else decompress_payload env decompressed_bufsize content_start
                                   hash_mark_idx c)"

section \<open>Cutting packets out of the received bytes\<close>

text \<open>The content of a packet, run lengths and escapes expanded. The loop compares its cursor
  with the end of the content for equality: an escape or a repeat count at the very end steps
  over it and runs on past the buffer, and a repeat count without a character before it reads
  the last character of an empty string; both are undefined (\<open>None\<close>).\<close>

fun expand_content :: "string \<Rightarrow> string \<Rightarrow> string option" where
  "expand_content [] packet_str = Some packet_str"
| "expand_content (c # cs) packet_str =
     (if c = CHR ''*'' then
        (case cs of
           [] \<Rightarrow> None
         | r # cs' \<Rightarrow>
             if packet_str = [] then None
             else let char_to_repeat = last packet_str;
                      repeat_count = char_val r + 3 - 32
                  in expand_content cs' (packet_str @ replicate (nat repeat_count) char_to_repeat))
      else if c = CHR 0x7d then
        (case cs of
           [] \<Rightarrow> None
         | e # cs' \<Rightarrow> expand_content cs' (packet_str @ [escape_xor e]))
      else expand_content cs (packet_str @ [c]))"

text \<open>Where the first packet lies: the start and the length of its content, and its total
  length; \<open>None\<close> when it is not complete, or is no packet.\<close>

definition packet_start :: "char \<Rightarrow> bool" where
  "packet_start c \<longleftrightarrow>
     c = CHR ''+'' \<or> c = CHR ''-'' \<or> c = CHR 0x03 \<or> c = CHR ''%'' \<or> c = CHR ''$''"

definition scan_packet :: "string \<Rightarrow> (nat \<times> nat \<times> nat) option" where
  "scan_packet b =
     (if b ! 0 = CHR ''+'' \<or> b ! 0 = CHR ''-'' \<or> b ! 0 = CHR 0x03 then Some (0, 1, 1)
      else if b ! 0 = CHR ''%'' \<or> b ! 0 = CHR ''$'' then
        (case find_char CHR ''#'' b of
           None \<Rightarrow> None
         | Some hash_pos \<Rightarrow>
             if hash_pos + 2 < length b then Some (1, hash_pos - 1, hash_pos + 3) else None)
      else None)"

text \<open>How many bytes of junk are thrown away: up to the next character that starts a packet,
  or all but the last byte when there is none.\<close>

definition junk_length :: "string \<Rightarrow> nat" where
  "junk_length b =
     (let n = length (takeWhile (\<lambda>c. \<not> packet_start c) (drop 1 b))
      in if n < length b - 1 then n + 1 else length b - 1)"

text \<open>\<open>strtol\<close> reads on from the checksum to the end of the buffer; the result is cut to a \<open>char\<close>.\<close>

definition answer_checksum :: "remote_env \<Rightarrow> nat \<Rightarrow> string \<Rightarrow> gdb_comm \<Rightarrow> gdb_comm" where
  "answer_checksum env checksum_idx content c =
     (let b = gc_bytes c
      in if b ! 0 = CHR ''$'' \<or> b ! 0 = CHR ''%''
         then if isxdigit (b ! checksum_idx) \<or> isxdigit (b ! (checksum_idx + 1))
              then if gc_send_acks c
                   then let packet_checksum = ucast (fst (strtoll 16 (drop checksum_idx b)));
                            actual_checksum = CalculcateChecksum content;
                            success = (packet_checksum = actual_checksum)
                        in if \<not> success then snd (SendNack env c) else snd (SendAck env c)
                   else c
              else c
         else c)"

definition no_packet :: string_extractor where
  "no_packet = StringExtractor_of []"

definition CheckForPacket ::
  "remote_env \<Rightarrow> string \<Rightarrow> gdb_comm \<Rightarrow> (packet_type \<times> string_extractor \<times> gdb_comm) option" where
  "CheckForPacket env src c =
     (let c = c\<lparr>gc_bytes := gc_bytes c @ src\<rparr>
      in if gc_bytes c = [] then Some (Invalid, no_packet, c)
      else let (good, c) = (if CompressionIsEnabled c then DecompressPacket env c else (True, c))
      in if \<not> good then Some (Standard, no_packet, c)
      else let b = gc_bytes c
      in case scan_packet b of
           None \<Rightarrow>
             Some (Invalid, no_packet,
                   if packet_start (b ! 0) then c else c\<lparr>gc_bytes := drop (junk_length b) b\<rparr>)
         | Some (content_start, content_length, total_length) \<Rightarrow>
             let c = add_history env (take total_length b) ePacketTypeRecv total_length c;
                 content = take content_length (drop content_start b)
             in do {
                  packet_str \<leftarrow> expand_content content [];
                  let c = answer_checksum env (total_length - 2) content c
                  in Some (if b ! 0 = CHR ''%'' then Notify else Standard,
                           StringExtractor_of packet_str,
                           c\<lparr>gc_bytes := drop total_length b\<rparr>) })"

section \<open>The read thread\<close>

definition deliver :: "packet_type \<Rightarrow> string_extractor \<Rightarrow> gdb_comm \<Rightarrow> gdb_comm" where
  "deliver type packet c =
     (case type of
        Standard \<Rightarrow> c\<lparr>gc_packet_queue := gc_packet_queue c @ [packet]\<rparr>
      | Notify \<Rightarrow> c\<lparr>gc_events := gc_events c @ [takeWhile (\<lambda>x. x \<noteq> CHR 0x00) (se_packet packet)]\<rparr>
      | Invalid \<Rightarrow> c)"

text \<open>\<open>None\<close>: undefined behaviour of \<open>CheckForPacket\<close>, or the loop does not end.\<close>

partial_function (option) AppendBytesToCache ::
  "remote_env \<Rightarrow> string \<Rightarrow> gdb_comm \<Rightarrow> gdb_comm option" where
  "AppendBytesToCache env bytes c =
     CheckForPacket env bytes c \<bind> (\<lambda>(type, packet, c).
       if type = Invalid then Some c else AppendBytesToCache env [] (deliver type packet c))"

definition PopPacketFromQueue ::
  "gdb_comm \<Rightarrow> packet_result \<times> string_extractor option \<times> gdb_comm" where
  "PopPacketFromQueue c =
     (case gc_packet_queue c of
        packet # queue \<Rightarrow>
          if gc_connected c then (PacketSuccess, Some packet, c\<lparr>gc_packet_queue := queue\<rparr>)
          else (ErrorReplyTimeout, None, c)
      | [] \<Rightarrow> (ErrorReplyTimeout, None, c))"

section \<open>Waiting for a packet\<close>

text \<open>\<open>None\<close>: undefined behaviour, or the connection delivers nothing more and never times out.
  What happens on a timeout is a parameter.\<close>

fun wait_loop ::
  "remote_env \<Rightarrow> (gdb_comm \<Rightarrow> (packet_result \<times> string_extractor \<times> gdb_comm) option) \<Rightarrow>
   (string \<times> connection_status) list \<Rightarrow> gdb_comm \<Rightarrow> (packet_result \<times> string_extractor \<times> gdb_comm) option" where
  "wait_loop env on_timeout [] c =
     (if \<not> gc_connected c then Some (ErrorReplyFailed, no_packet, c\<lparr>gc_input := []\<rparr>) else None)"
| "wait_loop env on_timeout ((buffer, status) # input) c =
     (if \<not> gc_connected c
      then Some (ErrorReplyFailed, no_packet, c\<lparr>gc_input := (buffer, status) # input\<rparr>)
      else if buffer \<noteq> [] then
        CheckForPacket env buffer c \<bind> (\<lambda>(type, packet, c).
          if type \<noteq> Invalid then Some (PacketSuccess, packet, c\<lparr>gc_input := input\<rparr>)
          else wait_loop env on_timeout input c)
      else (case status of
          eConnectionStatusTimedOut \<Rightarrow> on_timeout (c\<lparr>gc_input := input\<rparr>)
        | eConnectionStatusInterrupted \<Rightarrow> on_timeout (c\<lparr>gc_input := input\<rparr>)
        | eConnectionStatusSuccess \<Rightarrow> wait_loop env on_timeout input c
        | _ \<Rightarrow> Some (ErrorDisconnected, no_packet, c\<lparr>gc_connected := False, gc_input := input\<rparr>)))"

definition wait_for_packet ::
  "remote_env \<Rightarrow> (gdb_comm \<Rightarrow> (packet_result \<times> string_extractor \<times> gdb_comm) option) \<Rightarrow>
   gdb_comm \<Rightarrow> (packet_result \<times> string_extractor \<times> gdb_comm) option" where
  "wait_for_packet env on_timeout c =
     CheckForPacket env [] c \<bind> (\<lambda>(type, packet, c).
       if type \<noteq> Invalid then Some (PacketSuccess, packet, c)
       else wait_loop env on_timeout (gc_input c) c)"

definition give_up :: "gdb_comm \<Rightarrow> (packet_result \<times> string_extractor \<times> gdb_comm) option" where
  "give_up c = Some (ErrorReplyTimeout, no_packet, c)"

text \<open>\<open>ReadPacket\<close> without resynchronisation, as \<open>GetAck\<close> calls it.\<close>

definition read_packet ::
  "remote_env \<Rightarrow> gdb_comm \<Rightarrow> (packet_result \<times> string_extractor \<times> gdb_comm) option" where
  "read_packet env c =
     (if gc_read_thread_enabled c
      then let (result, packet, c) = PopPacketFromQueue c
           in Some (result, case packet of Some p \<Rightarrow> p | None \<Rightarrow> no_packet, c)
      else wait_for_packet env give_up c)"

definition GetAck :: "remote_env \<Rightarrow> gdb_comm \<Rightarrow> (packet_result \<times> gdb_comm) option" where
  "GetAck env c =
     read_packet env c \<bind> (\<lambda>(result, packet, c).
       if result = PacketSuccess
       then Some (if GetResponseType (se_packet packet) = eAck then PacketSuccess else ErrorSendAck, c)
       else Some (result, c))"

definition SendPacketNoLock ::
  "remote_env \<Rightarrow> string \<Rightarrow> gdb_comm \<Rightarrow> (packet_result \<times> gdb_comm) option" where
  "SendPacketNoLock env payload c =
     (if gc_connected c
      then let packet = frame_packet payload;
               packet_length = length packet;
               (bytes_written, c) = write_bytes env packet c;
               c = add_history env packet ePacketTypeSend bytes_written c
           in if bytes_written = packet_length
              then if gc_send_acks c then GetAck env c else Some (PacketSuccess, c)
              else Some (ErrorSendFailed, c)
      else Some (ErrorSendFailed, c))"

section \<open>Resynchronisation after a timeout\<close>

fun sync_loop ::
  "remote_env \<Rightarrow> string \<Rightarrow> nat \<Rightarrow> nat \<Rightarrow> string_extractor option \<Rightarrow> gdb_comm \<Rightarrow>
   (bool \<times> string_extractor option \<times> gdb_comm) option" where
  "sync_loop env response_regex 0 successful_responses actual c = Some (False, actual, c)"
| "sync_loop env response_regex (Suc retries) successful_responses actual c =
     wait_for_packet env give_up c \<bind> (\<lambda>(result, echo_response, c).
       if result = PacketSuccess then
         let successful_responses = successful_responses + 1
         in if env_regex env response_regex (se_packet echo_response) then Some (True, actual, c)
            else sync_loop env response_regex retries successful_responses
                   (if successful_responses = 1 then Some echo_response else actual) c
       else if result = ErrorReplyTimeout
       then sync_loop env response_regex retries successful_responses actual c
       else Some (False, actual, c))"

definition sync_on_timeout ::
  "remote_env \<Rightarrow> gdb_comm \<Rightarrow> (packet_result \<times> string_extractor \<times> gdb_comm) option" where
  "sync_on_timeout env c =
     (let (echo_packet, response_regex, c) =
            (if gc_supports_qEcho c = eLazyBoolYes
             then let n = (gc_echo_number c + 1) mod 2 ^ 32;
                      echo_packet = ''qEcho:'' @ decimal n
                  in (echo_packet, ''^'' @ echo_packet @ ''$'', c\<lparr>gc_echo_number := n\<rparr>)
             else (''qC'', ''^QC[0-9A-Fa-f]+$'', c))
      in SendPacketNoLock env echo_packet c \<bind> (\<lambda>(result, c).
           (if result = PacketSuccess then sync_loop env response_regex 3 0 None c
            else Some (False, None, c)) \<bind> (\<lambda>(sync_success, actual, c).
           if sync_success then
             (case actual of
                Some packet \<Rightarrow> Some (PacketSuccess, packet, c)
              | None \<Rightarrow> Some (ErrorReplyTimeout, no_packet, c))
           else Some (ErrorDisconnected, no_packet, c\<lparr>gc_connected := False\<rparr>))))"

definition WaitForPacketNoLock ::
  "remote_env \<Rightarrow> bool \<Rightarrow> gdb_comm \<Rightarrow> (packet_result \<times> string_extractor \<times> gdb_comm) option" where
  "WaitForPacketNoLock env sync c =
     wait_for_packet env (if sync then sync_on_timeout env else give_up) c"

definition ReadPacket ::
  "remote_env \<Rightarrow> bool \<Rightarrow> gdb_comm \<Rightarrow> (packet_result \<times> string_extractor \<times> gdb_comm) option" where
  "ReadPacket env sync c =
     (if gc_read_thread_enabled c
      then let (result, packet, c) = PopPacketFromQueue c
           in Some (result, case packet of Some p \<Rightarrow> p | None \<Rightarrow> no_packet, c)
      else WaitForPacketNoLock env sync c)"

text \<open>The output packets are collected for the callback.\<close>

partial_function (option) ReadPacketWithOutputSupport ::
  "remote_env \<Rightarrow> bool \<Rightarrow> string list \<Rightarrow> gdb_comm \<Rightarrow>
   (packet_result \<times> string_extractor \<times> string list \<times> gdb_comm) option" where
  "ReadPacketWithOutputSupport env sync outputs c =
     ReadPacket env sync c \<bind> (\<lambda>(result, response, c).
       if result = PacketSuccess \<and> IsNormalResponse (se_packet response) \<and>
          PeekChar response (CHR 0x00) = CHR ''O''
       then let output = fst (GetHexByteString (snd (GetChar response (CHR 0x00))))
            in ReadPacketWithOutputSupport env sync
                 (if output \<noteq> [] then outputs @ [output] else outputs) c
       else Some (result, response, outputs, c))"

section \<open>What the operations leave alone\<close>

text \<open>The part of the object that the packet parser never writes.\<close>

definition session_of :: "gdb_comm \<Rightarrow> _" where
  "session_of c = (gc_connected c, gc_echo_number c, gc_supports_qEcho c, gc_send_acks c,
     gc_compression_type c, gc_read_thread_enabled c, gc_packet_queue c, gc_events c, gc_input c)"

named_theorems session "operations that keep the session part"

lemma session_update [session, simp]:
  "session_of (c\<lparr>gc_bytes := b\<rparr>) = session_of c"
  "session_of (c\<lparr>gc_history := h\<rparr>) = session_of c"
  "session_of (c\<lparr>gc_sent := s\<rparr>) = session_of c"
  by (simp_all add: session_of_def)

lemma session_send [session, simp]:
  "session_of (add_history env p t n c) = session_of c"
  "session_of (snd (write_bytes env d c)) = session_of c"
  "session_of (snd (SendAck env c)) = session_of c"
  "session_of (snd (SendNack env c)) = session_of c"
  by (simp_all add: add_history_def write_bytes_def SendAck_def SendNack_def Let_def)

lemma session_answer [session, simp]: "session_of (answer_checksum env i content c) = session_of c"
  by (simp add: answer_checksum_def Let_def)

lemma session_decompress_payload [session, simp]:
  "session_of (snd (decompress_payload env n i j c)) = session_of c"
  by (simp add: decompress_payload_def Let_def)

lemma session_DecompressPacket [session, simp]: "session_of (snd (DecompressPacket env c)) = session_of c"
  by (simp add: DecompressPacket_def Let_def split_beta split: option.split sum.split)

lemma CheckForPacket_session:
  "CheckForPacket env src c = Some (t, p, c') \<Longrightarrow> session_of c' = session_of c"
proof -
  assume a: "CheckForPacket env src c = Some (t, p, c')"
  let ?c = "c\<lparr>gc_bytes := gc_bytes c @ src\<rparr>"
  obtain good d where d: "(if CompressionIsEnabled ?c then DecompressPacket env ?c else (True, ?c)) = (good, d)"
    by force
  have "session_of d = session_of c"
  proof (cases "CompressionIsEnabled ?c")
    case True
    with d have "d = snd (DecompressPacket env ?c)" by simp
    then show ?thesis by simp
  next
    case False
    with d show ?thesis by auto
  qed
  with a show ?thesis
    by (auto simp: CheckForPacket_def Let_def d split: if_splits option.splits prod.splits)
qed

lemma session_fields:
  assumes "session_of c' = session_of c"
  shows "gc_connected c' = gc_connected c" "gc_send_acks c' = gc_send_acks c"
    "gc_compression_type c' = gc_compression_type c" "gc_packet_queue c' = gc_packet_queue c"
    "gc_events c' = gc_events c" "gc_input c' = gc_input c"
  using assms by (simp_all add: session_of_def)

section \<open>Frames\<close>

lemma find_char_append: "x \<notin> set a \<Longrightarrow> find_char x (a @ x # b) = Some (length a)"
proof -
  assume "x \<notin> set a"
  then have "takeWhile (\<lambda>c. c \<noteq> x) (a @ x # b) = a"
    by (induction a) auto
  then show ?thesis by (simp add: find_char_def)
qed

lemma frame_packet_Cons:
  "frame_packet p @ rest = CHR ''$'' # p @ CHR ''#'' # put_Hex8 False (CalculcateChecksum p) False @ rest"
  by (simp add: frame_packet_def PutHex8_def)

lemma length_frame_packet [simp]: "length (frame_packet p) = length p + 4"
  by (simp add: frame_packet_def PutHex8_def)

lemma scan_frame:
  assumes "CHR ''#'' \<notin> set p"
  shows "scan_packet (frame_packet p @ rest) = Some (1, length p, length p + 4)"
proof -
  have "find_char CHR ''#'' (frame_packet p @ rest) = Some (length p + 1)"
    using find_char_append [of "CHR ''#''" "CHR ''$'' # p"] assms
    by (simp add: frame_packet_Cons)
  then show ?thesis
    by (simp add: scan_packet_def) (simp add: frame_packet_Cons)
qed

lemma expand_escaped: "expand_content (PutEscapedBytes data) acc = Some (acc @ data)"
proof (induction data arbitrary: acc)
  case Nil
  then show ?case by simp
next
  case (Cons c data)
  then show ?case
    by (auto simp: needs_escape_def escape_xor_xor)
qed

lemma digit_value_hex_char [simp]: "k < 16 \<Longrightarrow> digit_value (hex_char k) = k"
  by (drule nibble_cases)
    (auto simp: hex_char_def g_hex_to_ascii_hex_char_def digit_value_def)

lemma hex_char_letters: "k < 16 \<Longrightarrow> hex_char k \<notin> {CHR ''x'', CHR ''X'', CHR ''-'', CHR ''+''}"
  by (drule nibble_cases)
    (auto simp: hex_char_def g_hex_to_ascii_hex_char_def)

text \<open>\<open>strtol\<close> reads the checksum back if no further digit follows it.\<close>

definition no_digit :: "string \<Rightarrow> bool" where
  "no_digit rest \<longleftrightarrow> rest = [] \<or> 16 \<le> digit_value (hd rest)"

lemma strto_hex8:
  assumes "no_digit rest"
  shows "strto 16 (put_Hex8 False b False @ rest) = (False, unat b, 2)"
proof -
  note n = byte_nibbles [of b]
  have t: "takeWhile (\<lambda>c. digit_value c < 16) rest = []"
    using assms by (cases rest) (auto simp: no_digit_def)
  have "unat b div 16 * 16 + unat b mod 16 = unat b"
    by simp
  then show ?thesis
    using n hex_char_letters [OF n(1)] hex_char_letters [OF n(2)] t
    by (simp add: strto_def put_Hex8_text strto_sign_def strto_prefix_def)
qed

lemma checksum_read_back:
  assumes "no_digit rest"
  shows "ucast (fst (strtoll 16 (put_Hex8 False b False @ rest))) = b"
proof -
  have "unat b < 2 ^ 63"
    by (rule less_trans [OF u8_bound]) simp
  then show ?thesis
    using strto_hex8 [OF assms, of b] by (simp add: strtoll_def word_unat_eq_iff unat_ucast_mod)
qed

text \<open>What receiving a frame does to the object.\<close>

definition received :: "remote_env \<Rightarrow> string \<Rightarrow> string \<Rightarrow> gdb_comm \<Rightarrow> gdb_comm" where
  "received env payload rest c =
     (let c = add_history env (frame_packet payload) ePacketTypeRecv (length payload + 4) c;
          c = (if gc_send_acks c then snd (SendAck env c) else c)
      in c\<lparr>gc_bytes := rest\<rparr>)"

lemma answer_frame:
  assumes "gc_bytes c = frame_packet p @ rest" "no_digit rest"
  shows "answer_checksum env (length p + 2) p c = (if gc_send_acks c then snd (SendAck env c) else c)"
proof -
  let ?h = "put_Hex8 False (CalculcateChecksum p) False"
  have d: "drop (length p + 2) (gc_bytes c) = ?h @ rest"
    by (simp add: assms(1) frame_packet_Cons)
  have "gc_bytes c ! (length p + 2) = hex_char (unat (CalculcateChecksum p) div 16)"
    by (simp add: assms(1) frame_packet_Cons put_Hex8_text nth_append)
  then show ?thesis
    using d checksum_read_back [OF assms(2), of "CalculcateChecksum p"] byte_nibbles [of "CalculcateChecksum p"]
    by (simp add: answer_checksum_def assms(1) Let_def) (simp add: frame_packet_Cons)
qed

lemma CheckForPacket_frame:
  assumes "gc_bytes c @ src = frame_packet p @ rest" "CHR ''#'' \<notin> set p"
    and "expand_content p [] = Some content"
    and "gc_compression_type c = CompressionNone" "no_digit rest"
  shows "CheckForPacket env src c = Some (Standard, StringExtractor_of content, received env p rest c)"
proof -
  let ?c = "c\<lparr>gc_bytes := frame_packet p @ rest\<rparr>"
  let ?c1 = "add_history env (frame_packet p) ePacketTypeRecv (length p + 4) ?c"
  have ne: "frame_packet p @ rest \<noteq> []" "(frame_packet p @ rest) ! 0 = CHR ''$''"
    by (simp_all add: frame_packet_Cons)
  have t: "take (length p + 4) (frame_packet p @ rest) = frame_packet p"
      "drop (length p + 4) (frame_packet p @ rest) = rest"
    by simp_all
  have p: "take (length p) (drop 1 (frame_packet p @ rest)) = p"
    by (simp add: frame_packet_Cons)
  have a: "answer_checksum env (length p + 2) p ?c1 = (if gc_send_acks c then snd (SendAck env ?c1) else ?c1)"
    using answer_frame [of ?c1 p rest env] assms(5) by (simp add: add_history_def)
  have up: "c\<lparr>gc_bytes := gc_bytes c @ src\<rparr> = ?c"
    by (simp add: assms(1))
  have "CompressionIsEnabled ?c = False"
    by (simp add: CompressionIsEnabled_def assms(4))
  then have "CheckForPacket env src c =
      Some (Standard, StringExtractor_of content,
        (answer_checksum env (length p + 2) p ?c1)\<lparr>gc_bytes := rest\<rparr>)"
    using ne t p assms(3) scan_frame [OF assms(2), of rest]
    by (simp add: CheckForPacket_def up Let_def)
  moreover have "(if gc_send_acks c then snd (SendAck env ?c1) else ?c1)\<lparr>gc_bytes := rest\<rparr> =
      received env p rest c"
    by (simp add: received_def add_history_def SendAck_def write_bytes_def Let_def)
  ultimately show ?thesis
    by (simp only: a)
qed

section \<open>Partial packets\<close>

lemma find_char_prefix:
  assumes "find_char x a = Some k" shows "find_char x (a @ b) = Some k"
proof -
  let ?t = "takeWhile (\<lambda>c. c \<noteq> x)"
  have k: "k = length (?t a)" "length (?t a) < length a"
    using assms by (simp_all add: find_char_def Let_def split: if_splits)
  have "x \<in> set a"
  proof (rule ccontr)
    assume "x \<notin> set a"
    then have "?t a = a" by (induction a) auto
    with k(2) show False by simp
  qed
  then have "?t (a @ b) = ?t a"
    by (simp add: takeWhile_append1)
  with k show ?thesis
    by (simp add: find_char_def Let_def)
qed

lemma scan_incomplete:
  assumes "frame_packet p = a @ b" "b \<noteq> []" "a \<noteq> []" "CHR ''#'' \<notin> set p"
  shows "scan_packet a = None" "a ! 0 = CHR ''$''"
proof -
  show h: "a ! 0 = CHR ''$''"
    using assms(1,3) by (cases a) (simp_all add: frame_packet_def)
  have len: "length a < length p + 4"
    using arg_cong [OF assms(1), of length] assms(2) by (cases b) simp_all
  have "k = length p + 1" if "find_char CHR ''#'' a = Some k" for k
  proof -
    have "find_char CHR ''#'' (frame_packet p) = Some (length p + 1)"
      using find_char_append [of "CHR ''#''" "CHR ''$'' # p"] assms(4)
      by (simp add: frame_packet_def)
    then show ?thesis
      using find_char_prefix [OF that, of b] assms(1) by simp
  qed
  with h len show "scan_packet a = None"
    by (auto simp: scan_packet_def split: option.split)
qed

lemma CheckForPacket_incomplete:
  assumes "frame_packet p = (gc_bytes c @ src) @ b" "b \<noteq> []" "CHR ''#'' \<notin> set p"
    and "gc_compression_type c = CompressionNone"
  shows "CheckForPacket env src c = Some (Invalid, no_packet, c\<lparr>gc_bytes := gc_bytes c @ src\<rparr>)"
proof (cases "gc_bytes c @ src = []")
  case True
  then show ?thesis by (simp add: CheckForPacket_def)
next
  case False
  note s = scan_incomplete [OF assms(1,2) False assms(3)]
  have "\<not> CompressionIsEnabled (c\<lparr>gc_bytes := gc_bytes c @ src\<rparr>)"
    by (simp add: CompressionIsEnabled_def assms(4))
  with False s show ?thesis
    by (simp add: CheckForPacket_def Let_def packet_start_def)
qed

lemma received_bytes [simp]: "received env p rest (c\<lparr>gc_bytes := b\<rparr>) = received env p rest c"
  by (simp add: received_def add_history_def SendAck_def write_bytes_def Let_def)

lemma session_received [session, simp]: "session_of (received env p rest c) = session_of c"
  by (simp add: received_def Let_def)

lemma received_gc_bytes [simp]: "gc_bytes (received env p rest c) = rest"
  by (simp add: received_def Let_def)

text \<open>However the connection cuts a packet into pieces, the reads end with the packet.\<close>

lemma wait_loop_chunks:
  assumes "gc_bytes c @ concat (map fst chunks) = frame_packet p" "chunks \<noteq> []"
    and "\<forall>ch \<in> set chunks. fst ch \<noteq> []"
    and "CHR ''#'' \<notin> set p" "expand_content p [] = Some content"
    and "gc_compression_type c = CompressionNone" "gc_connected c"
  shows "wait_loop env on_timeout (chunks @ input) c =
    Some (PacketSuccess, StringExtractor_of content, (received env p [] c)\<lparr>gc_input := input\<rparr>)"
  using assms
proof (induction chunks arbitrary: c)
  case Nil
  then show ?case by simp
next
  case (Cons ch chunks)
  obtain buffer status where ch: "ch = (buffer, status)" by force
  have ne: "buffer \<noteq> []" using Cons.prems(3) ch by auto
  show ?case
  proof (cases "chunks = []")
    case True
    then have "CheckForPacket env buffer c = Some (Standard, StringExtractor_of content, received env p [] c)"
      using Cons.prems ch by (intro CheckForPacket_frame) (simp_all add: no_digit_def)
    then show ?thesis
      using True ch ne Cons.prems(7) by simp
  next
    case False
    have b: "concat (map fst chunks) \<noteq> []"
      using False Cons.prems(3) by (cases chunks) auto
    have "CheckForPacket env buffer c = Some (Invalid, no_packet, c\<lparr>gc_bytes := gc_bytes c @ buffer\<rparr>)"
      using Cons.prems ch b by (intro CheckForPacket_incomplete [where b = "concat (map fst chunks)" and p = p]) simp_all
    moreover have "wait_loop env on_timeout (chunks @ input) (c\<lparr>gc_bytes := gc_bytes c @ buffer\<rparr>) =
      Some (PacketSuccess, StringExtractor_of content,
        (received env p [] (c\<lparr>gc_bytes := gc_bytes c @ buffer\<rparr>))\<lparr>gc_input := input\<rparr>)"
      using Cons.prems ch False by (intro Cons.IH) simp_all
    ultimately show ?thesis
      using ch ne Cons.prems(7) by simp
  qed
qed

lemma CheckForPacket_nothing:
  "gc_bytes c = [] \<Longrightarrow> CheckForPacket env [] c = Some (Invalid, no_packet, c)"
  by (simp add: CheckForPacket_def)

text \<open>C3: However the connection cuts the frame of an escaped payload into pieces, waiting for a
  packet returns exactly the payload, leaves no byte of it in the buffer, acknowledges it,
  and leaves the input behind it unread.\<close>

theorem WaitForPacket_chunks:
  assumes "concat (map fst chunks) = frame_packet (PutEscapedBytes payload)"
    and "\<forall>ch \<in> set chunks. fst ch \<noteq> []"
    and "gc_bytes c = []" "gc_connected c" "gc_compression_type c = CompressionNone"
    and "gc_input c = chunks @ input"
  shows "WaitForPacketNoLock env sync c =
    Some (PacketSuccess, StringExtractor_of payload,
      (received env (PutEscapedBytes payload) [] c)\<lparr>gc_input := input\<rparr>)"
proof -
  have "chunks \<noteq> []"
    using assms(1) by (auto simp: frame_packet_def)
  then have "wait_loop env ot (chunks @ input) c = Some (PacketSuccess, StringExtractor_of payload,
      (received env (PutEscapedBytes payload) [] c)\<lparr>gc_input := input\<rparr>)" for ot
    using assms expand_escaped [of payload "[]"]
    by (intro wait_loop_chunks) (simp_all add: PutEscapedBytes_no_hash)
  then show ?thesis
    by (simp add: WaitForPacketNoLock_def wait_for_packet_def CheckForPacket_nothing assms(3,6))
qed

section \<open>The queue of the read thread\<close>

lemma no_digit_frames: "no_digit (concat (map frame_packet ps))"
  by (cases ps) (simp_all add: no_digit_def frame_packet_def digit_value_def)

text \<open>C15: The read thread's loop ends on any sequence of frames that arrive together, and queues
  their payloads in order, with nothing left in the buffer.\<close>

theorem AppendBytesToCache_frames:
  assumes "gc_bytes c @ src = concat (map (\<lambda>p. frame_packet (PutEscapedBytes p)) ps)"
    and "gc_compression_type c = CompressionNone"
  shows "\<exists>c'. AppendBytesToCache env src c = Some c' \<and> gc_bytes c' = [] \<and>
    gc_packet_queue c' = gc_packet_queue c @ map StringExtractor_of ps \<and>
    gc_events c' = gc_events c"
  using assms
proof (induction ps arbitrary: c src)
  case Nil
  then show ?case
    by (subst AppendBytesToCache.simps) (simp add: CheckForPacket_nothing)
next
  case (Cons p ps)
  let ?rest = "concat (map (\<lambda>p. frame_packet (PutEscapedBytes p)) ps)"
  let ?c = "received env (PutEscapedBytes p) ?rest c"
  let ?d = "deliver Standard (StringExtractor_of p) ?c"
  have check: "CheckForPacket env src c = Some (Standard, StringExtractor_of p, ?c)"
    using Cons.prems no_digit_frames [of "map PutEscapedBytes ps"] expand_escaped [of p "[]"]
    by (intro CheckForPacket_frame) (simp_all add: PutEscapedBytes_no_hash comp_def)
  note f = session_fields [OF session_received [of env "PutEscapedBytes p" ?rest c]]
  have "gc_bytes ?d @ [] = ?rest" "gc_compression_type ?d = CompressionNone"
    using f Cons.prems(2) by (simp_all add: deliver_def)
  from Cons.IH [OF this] show ?case
    using f by (subst AppendBytesToCache.simps) (simp add: check deliver_def)
qed

text \<open>Junk in front of a packet is thrown away, but the complete packet behind it is then left
  in the buffer, neither queued nor acknowledged, until more bytes arrive.\<close>

theorem AppendBytesToCache_junk:
  assumes "gc_bytes c = []" "gc_compression_type c = CompressionNone"
    and "junk \<noteq> []" "\<forall>x \<in> set junk. \<not> packet_start x"
  shows "AppendBytesToCache env (junk @ frame_packet p) c = Some (c\<lparr>gc_bytes := frame_packet p\<rparr>)"
proof -
  obtain x xs where x: "junk = x # xs" using assms(3) by (cases junk) auto
  let ?b = "junk @ frame_packet p"
  have start: "\<not> packet_start x" "\<forall>y \<in> set xs. \<not> packet_start y"
    using assms(4) x by auto
  have scan: "scan_packet ?b = None"
    using start(1) x by (auto simp: scan_packet_def packet_start_def)
  have "takeWhile (\<lambda>c. \<not> packet_start c) (drop 1 ?b) = xs"
    using start(2) x by (simp add: frame_packet_def packet_start_def takeWhile_append)
  then have "drop (junk_length ?b) ?b = frame_packet p"
    using x by (simp add: junk_length_def Let_def)
  then have "CheckForPacket env ?b c = Some (Invalid, no_packet, c\<lparr>gc_bytes := frame_packet p\<rparr>)"
    using assms(1,2) start(1) x scan
    by (simp add: CheckForPacket_def Let_def CompressionIsEnabled_def)
  then show ?thesis
    by (subst AppendBytesToCache.simps) simp
qed

section \<open>Checksums that do not match\<close>

lemma isxdigit_digit_value: "isxdigit c \<Longrightarrow> digit_value c < 16"
  by (auto simp: isxdigit_def isdigit_def digit_value_def Let_def)

lemma isxdigit_other: "isxdigit c \<Longrightarrow> c \<notin> {CHR ''x'', CHR ''X'', CHR ''-'', CHR ''+''} \<and> \<not> isspace c"
  by (auto simp: isxdigit_def isdigit_def isspace_def Let_def)

lemma strto_two_digits:
  assumes "isxdigit h1" "isxdigit h2" "no_digit rest"
  shows "strto 16 (h1 # h2 # rest) = (False, digit_value h1 * 16 + digit_value h2, 2)"
proof -
  have "takeWhile (\<lambda>c. digit_value c < 16) rest = []"
    using assms(3) by (cases rest) (auto simp: no_digit_def)
  then show ?thesis
    using assms isxdigit_digit_value [of h1] isxdigit_digit_value [of h2]
      isxdigit_other [of h1] isxdigit_other [of h2]
    by (simp add: strto_def strto_sign_def strto_prefix_def)
qed

lemma strtoll_two_digits:
  assumes "isxdigit h1" "isxdigit h2" "no_digit rest"
  shows "fst (strtoll 16 (h1 # h2 # rest)) = word_of_nat (digit_value h1 * 16 + digit_value h2)"
  using strto_two_digits [OF assms] isxdigit_digit_value [OF assms(1)] isxdigit_digit_value [OF assms(2)]
  by (simp add: strtoll_def)

lemma ucast_small: "v < 256 \<Longrightarrow> ucast (word_of_nat v :: u64) = (word_of_nat v :: u8)"
  by (simp add: word_unat_eq_iff unat_ucast_mod unat_of_nat)

lemma strtoll_hex8:
  assumes "no_digit rest"
  shows "fst (strtoll 16 (put_Hex8 False b False @ rest)) = word_of_nat (unat b)"
proof -
  have "unat b < 2 ^ 63"
    by (rule less_trans [OF u8_bound]) simp
  then show ?thesis
    using strto_hex8 [OF assms, of b] by (simp add: strtoll_def)
qed

lemma uint_word_of_u8: "uint (word_of_nat (unat (b :: u8)) :: u64) = uint b"
proof -
  have "unat b < 2 ^ LENGTH(64)"
    by (rule less_trans [OF u8_bound]) simp
  then have "unat (word_of_nat (unat b) :: u64) = unat b"
    by (simp only: unat_of_nat mod_less)
  then show ?thesis
    by (simp only: uint_nat)
qed

lemma sint_eq_uint_iff: "uint (b :: u8) = sint b \<longleftrightarrow> 0 \<le> sint b"
proof -
  have b: "0 \<le> uint b" "uint b < 256"
  proof -
    have "uint b < 2 ^ LENGTH(8)" by (rule unsigned_less)
    then show "uint b < 256" by simp
  qed simp
  have s: "sint b = signed_take_bit 7 (uint b)"
    by (simp add: sint_uint)
  have "bit (uint b) 7 \<longleftrightarrow> 128 \<le> uint b"
  proof -
    have "0 \<le> k \<Longrightarrow> k < 256 \<Longrightarrow> odd (k div 128) = (128 \<le> k)" for k :: int
      by presburger
    from this [OF b] show ?thesis
      by (simp add: bit_iff_odd)
  qed
  then have "0 \<le> sint b \<longleftrightarrow> uint b < 128"
    by (auto simp: s signed_take_bit_nonnegative_iff)
  moreover have "sint b = uint b \<longleftrightarrow> uint b < 128"
  proof -
    have "- 128 \<le> uint b"
      using b(1) by (rule order_trans [rotated]) simp
    then show ?thesis
      by (simp add: s signed_take_bit_int_eq_self_iff)
  qed
  ultimately show ?thesis by auto
qed

lemma find_hash: "CHR ''#'' \<notin> set p \<Longrightarrow> find_char CHR ''#'' (CHR ''$'' # p @ CHR ''#'' # r) = Some (length p + 1)"
  using find_char_append [of "CHR ''#''" "CHR ''$'' # p" r] by simp

lemma scan_checked:
  fixes p h1 h2 rest
  defines "b \<equiv> CHR ''$'' # p @ CHR ''#'' # h1 # h2 # rest"
  assumes "CHR ''#'' \<notin> set p"
  shows "scan_packet b = Some (1, length p, length p + 4)"
    and "take (length p) (drop 1 b) = p" "drop (length p + 4) b = rest"
    and "drop (length p + 2) b = h1 # h2 # rest" "b ! (length p + 2) = h1" "b ! 0 = CHR ''$''" "b \<noteq> []"
proof -
  show "scan_packet b = Some (1, length p, length p + 4)"
    using find_hash [OF assms(2), of "h1 # h2 # rest"] by (simp add: scan_packet_def b_def)
  show "take (length p) (drop 1 b) = p" "drop (length p + 4) b = rest"
    "drop (length p + 2) b = h1 # h2 # rest" "b ! (length p + 2) = h1" "b ! 0 = CHR ''$''" "b \<noteq> []"
    by (simp_all add: b_def nth_append numeral_eq_Suc)
qed

lemma answer_bad_checksum:
  assumes "gc_bytes c = CHR ''$'' # p @ CHR ''#'' # h1 # h2 # rest" "CHR ''#'' \<notin> set p"
    and "gc_send_acks c" "isxdigit h1" "isxdigit h2" "no_digit rest"
    and "word_of_nat (digit_value h1 * 16 + digit_value h2) \<noteq> CalculcateChecksum p"
  shows "answer_checksum env (length p + 2) p c = snd (SendNack env c)"
proof -
  have "digit_value h1 * 16 + digit_value h2 < 256"
    using isxdigit_digit_value [OF assms(4)] isxdigit_digit_value [OF assms(5)] by simp
  then have "ucast (fst (strtoll 16 (h1 # h2 # rest))) \<noteq> CalculcateChecksum p"
    unfolding strtoll_two_digits [OF assms(4-6)] by (simp only: ucast_small assms(7) not_False_eq_True)
  then show ?thesis
    using scan_checked [OF assms(2), of h1 h2 rest] assms(3,4)
    by (simp add: answer_checksum_def Let_def assms(1))
qed

text \<open>A packet whose checksum does not match is answered with a nack and is nevertheless
  handed to the caller as a good packet, and removed from the buffer.\<close>

theorem CheckForPacket_bad_checksum:
  assumes "gc_bytes c @ src = CHR ''$'' # p @ CHR ''#'' # h1 # h2 # rest" "CHR ''#'' \<notin> set p"
    and "expand_content p [] = Some content" "gc_compression_type c = CompressionNone"
    and "gc_send_acks c" "isxdigit h1" "isxdigit h2" "no_digit rest"
    and "word_of_nat (digit_value h1 * 16 + digit_value h2) \<noteq> CalculcateChecksum p"
  shows "\<exists>c'. CheckForPacket env src c = Some (Standard, StringExtractor_of content, c') \<and>
    gc_bytes c' = rest \<and>
    gc_sent c' = gc_sent c @ [take (env_write env (gc_sent c) ''-'') ''-'']"
proof -
  let ?b = "CHR ''$'' # p @ CHR ''#'' # h1 # h2 # rest"
  let ?c = "c\<lparr>gc_bytes := ?b\<rparr>"
  let ?c1 = "add_history env (take (length p + 4) ?b) ePacketTypeRecv (length p + 4) ?c"
  have c1: "gc_bytes ?c1 = ?b" "gc_send_acks ?c1" "gc_sent ?c1 = gc_sent c"
    using assms(5) by (simp_all add: add_history_def)
  note a = answer_bad_checksum [OF c1(1) assms(2) c1(2) assms(6-9), of env]
  have up: "c\<lparr>gc_bytes := gc_bytes c @ src\<rparr> = ?c"
    by (simp add: assms(1))
  have "\<not> CompressionIsEnabled ?c"
    by (simp add: CompressionIsEnabled_def assms(4))
  then have "CheckForPacket env src c = Some (Standard, StringExtractor_of content,
      (answer_checksum env (length p + 2) p ?c1)\<lparr>gc_bytes := rest\<rparr>)"
    using scan_checked [OF assms(2), of h1 h2 rest] assms(3)
    by (simp add: CheckForPacket_def up Let_def)
  then show ?thesis
    using c1(3) by (simp only: a) (simp add: SendNack_def write_bytes_def add_history_def Let_def)
qed

section \<open>Content the expansion runs past\<close>

lemma expand_dangling: "expand_content (PutEscapedBytes data @ [CHR 0x7d]) acc = None"
proof (induction data arbitrary: acc)
  case Nil
  then show ?case by simp
next
  case (Cons c data)
  then show ?case by (auto simp: needs_escape_def)
qed

text \<open>A packet whose content ends in an escape character takes the expansion loop past the end
  of the content and out of the buffer: undefined behaviour on received data.\<close>

theorem CheckForPacket_dangling_escape:
  assumes "gc_bytes c @ src = frame_packet (PutEscapedBytes data @ [CHR 0x7d]) @ rest"
    and "gc_compression_type c = CompressionNone"
  shows "CheckForPacket env src c = None"
proof -
  let ?p = "PutEscapedBytes data @ [CHR 0x7d]"
  let ?c = "c\<lparr>gc_bytes := frame_packet ?p @ rest\<rparr>"
  have "CHR ''#'' \<notin> set ?p"
    using PutEscapedBytes_no_hash [of data] by simp
  note s = scan_frame [OF this, of rest]
  have up: "c\<lparr>gc_bytes := gc_bytes c @ src\<rparr> = ?c"
    by (simp add: assms(1))
  have "take (length ?p) (drop 1 (frame_packet ?p @ rest)) = ?p" "frame_packet ?p @ rest \<noteq> []"
    by (simp_all add: frame_packet_Cons)
  moreover have "\<not> CompressionIsEnabled ?c"
    by (simp add: CompressionIsEnabled_def assms(2))
  ultimately show ?thesis
    using s expand_dangling [of data "[]"]
    by (simp add: CheckForPacket_def up Let_def del: append_assoc)
qed

section \<open>Uncompressed packets on a compressed connection\<close>

lemma CalculcateChecksum_Cons:
  "CalculcateChecksum (c # cs) = word_of_int (char_val c) + CalculcateChecksum cs"
proof -
  have "foldl (\<lambda>s c. s + char_val c) a cs = a + foldl (\<lambda>s c. s + char_val c) 0 cs" for a
  proof (induction cs arbitrary: a)
    case Nil
    then show ?case by simp
  next
    case (Cons x cs)
    show ?case
      using Cons.IH [of "a + char_val x"] Cons.IH [of "char_val x"] by simp
  qed
  from this [of "char_val c"] show ?thesis
    by (simp add: CalculcateChecksum_def)
qed

lemma put_Hex8_xdigits: "list_all isxdigit (put_Hex8 False b False)"
  using byte_nibbles [of b] by (simp add: put_Hex8_text)

lemma DecompressPacket_N:
  assumes "csum = CalculcateChecksum (CHR ''N'' # p)"
    and "gc_bytes c = frame_packet (CHR ''N'' # p) @ rest" "CHR ''#'' \<notin> set p"
    and "gc_compression_type c \<noteq> CompressionNone" "gc_send_acks c"
  shows "DecompressPacket env c =
    (if 0 \<le> sint csum
     then (True, (snd (SendAck env c))\<lparr>gc_bytes := CHR ''$'' # p @ CHR ''#'' # put_Hex8 False csum False @ rest\<rparr>)
     else (False, (snd (SendNack env c))\<lparr>gc_bytes := rest\<rparr>))"
proof -
  let ?h = "put_Hex8 False csum False" and ?n = "length p"
  define b where "b = CHR ''$'' # CHR ''N'' # p @ CHR ''#'' # ?h @ rest"
  have bytes: "gc_bytes c = b"
    by (simp add: assms(1,2) b_def frame_packet_def PutHex8_def)
  have b0: "b ! 0 = CHR ''$''" "b ! Suc 0 = CHR ''N''" "\<not> length b < 5" "\<not> length b \<le> Suc (Suc (Suc (Suc ?n)))"
    by (simp_all add: b_def)
  have hash: "find_char CHR ''#'' b = Some (Suc (Suc ?n))"
    using find_hash [of "CHR ''N'' # p"] assms(3) by (simp add: b_def)
  obtain h1 h2 where h: "?h = [h1, h2]" "isxdigit h1" "isxdigit h2"
    using byte_nibbles [of csum] by (simp add: put_Hex8_text)
  have at: "b ! Suc (Suc (Suc ?n)) = h1" "b ! Suc (Suc (Suc (Suc ?n))) = h2"
    by (simp_all add: b_def h nth_append)
  have cut: "take (Suc ?n) (drop (Suc 0) b) = CHR ''N'' # p" "drop (5 + ?n) b = rest"
      "take (Suc 0) b @ drop 2 b = CHR ''$'' # p @ CHR ''#'' # ?h @ rest"
    by (simp_all add: b_def h numeral_eq_Suc)
  have "uint (fst (strtoll 16 ?h)) = sint csum \<longleftrightarrow> 0 \<le> sint csum"
    using strtoll_hex8 [of "[]" csum]
    by (simp only: no_digit_def append_Nil2 uint_word_of_u8 sint_eq_uint_iff simp_thms)
  then have sum: "uint (fst (strtoll 16 [h1, h2])) = sint csum \<longleftrightarrow> 0 \<le> sint csum"
    by (simp only: h)
  show ?thesis
    using assms(4,5) h(2,3)
    by (simp add: DecompressPacket_def CompressionIsEnabled_def bytes b0 hash at cut sum
        assms(1) [symmetric] Let_def decompressed_size_def split_beta)
qed


lemma checksum_differs: "CalculcateChecksum (CHR ''N'' # p) \<noteq> CalculcateChecksum p"
  by (simp add: CalculcateChecksum_Cons char_val_def)

lemma hex_digits_value:
  assumes "put_Hex8 False b False = [h1, h2]"
  shows "word_of_nat (digit_value h1 * 16 + digit_value h2) = b" "isxdigit h1" "isxdigit h2"
proof -
  have h: "h1 = hex_char (unat b div 16)" "h2 = hex_char (unat b mod 16)"
    using assms by (simp_all add: put_Hex8_text)
  have "unat b div 16 * 16 + unat b mod 16 = unat b" by simp
  then have "digit_value h1 * 16 + digit_value h2 = unat b"
    using byte_nibbles [of b] by (simp add: h)
  then show "word_of_nat (digit_value h1 * 16 + digit_value h2) = b" by simp
  show "isxdigit h1" "isxdigit h2"
    using byte_nibbles [of b] by (simp_all add: h)
qed

text \<open>On a compressed connection with acknowledgements, an uncompressed packet with a correct
  checksum is never just acknowledged: when the checksum is below 128 it gets an ack and
  then a nack (the second check leaves out the marker character), otherwise a nack and the
  packet is lost (the checksum is compared as a signed char).\<close>

theorem CheckForPacket_N:
  assumes "csum = CalculcateChecksum (CHR ''N'' # p)"
    and "gc_bytes c @ src = frame_packet (CHR ''N'' # p) @ rest" "CHR ''#'' \<notin> set p"
    and "expand_content p [] = Some content" "gc_compression_type c \<noteq> CompressionNone"
    and "gc_send_acks c" "no_digit rest" "\<And>sent d. env_write env sent d = length d"
  shows "\<exists>c'. CheckForPacket env src c =
      Some (Standard, if 0 \<le> sint csum then StringExtractor_of content else no_packet, c') \<and>
    gc_bytes c' = rest \<and>
    gc_sent c' = gc_sent c @ (if 0 \<le> sint csum then [''+'', ''-''] else [''-''])"
proof -
  let ?c = "c\<lparr>gc_bytes := frame_packet (CHR ''N'' # p) @ rest\<rparr>"
  obtain h1 h2 where h: "put_Hex8 False csum False = [h1, h2]"
    by (simp add: put_Hex8_text)
  let ?b = "CHR ''$'' # p @ CHR ''#'' # h1 # h2 # rest"
  let ?d = "(snd (SendAck env ?c))\<lparr>gc_bytes := ?b\<rparr>"
  let ?d1 = "add_history env (take (length p + 4) ?b) ePacketTypeRecv (length p + 4) ?d"
  have D: "DecompressPacket env ?c = (if 0 \<le> sint csum then (True, ?d)
      else (False, (snd (SendNack env ?c))\<lparr>gc_bytes := rest\<rparr>))"
    using DecompressPacket_N [OF assms(1), of ?c rest env] assms(3,5,6) by (simp add: h)
  have up: "c\<lparr>gc_bytes := gc_bytes c @ src\<rparr> = ?c" "CompressionIsEnabled ?c" "gc_bytes ?c \<noteq> []"
    by (simp_all add: assms(2,5) CompressionIsEnabled_def frame_packet_def)
  show ?thesis
  proof (cases "0 \<le> sint csum")
    case True
    have d1: "gc_bytes ?d1 = ?b" "gc_send_acks ?d1" "gc_sent ?d1 = gc_sent c @ [''+'']"
      using assms(6,8) by (simp_all add: add_history_def SendAck_def write_bytes_def)
    have ne: "word_of_nat (digit_value h1 * 16 + digit_value h2) \<noteq> CalculcateChecksum p"
      using hex_digits_value(1) [OF h] checksum_differs [of p] assms(1) by simp
    note a = answer_bad_checksum [OF d1(1) assms(3) d1(2) hex_digits_value(2,3) [OF h] assms(7) ne, of env]
    have "CheckForPacket env src c = Some (Standard, StringExtractor_of content,
        (answer_checksum env (length p + 2) p ?d1)\<lparr>gc_bytes := rest\<rparr>)"
      using scan_checked [OF assms(3), of h1 h2 rest] assms(4) True D up(2,3)
      by (simp add: CheckForPacket_def up(1) Let_def)
    then show ?thesis
      using d1(3) True assms(8)
      by (simp only: a) (simp add: SendNack_def write_bytes_def add_history_def Let_def)
  next
    case False
    then have "CheckForPacket env src c = Some (Standard, no_packet, (snd (SendNack env ?c))\<lparr>gc_bytes := rest\<rparr>)"
      using D up(2,3) by (simp add: CheckForPacket_def up(1) Let_def)
    with False assms(8) show ?thesis
      by (simp add: SendNack_def write_bytes_def add_history_def Let_def)
  qed
qed

section \<open>What the history shows\<close>

text \<open>The entries of the packets recorded so far, and the ring that holds the last of them.\<close>

type_synonym packet_record = "string \<times> history_type \<times> nat"

definition record_all :: "remote_env \<Rightarrow> packet_record list \<Rightarrow> history \<Rightarrow> history" where
  "record_all env ps h = foldl (\<lambda>h (src, type, n). AddPacket env src type n h) h ps"

definition entry_of :: "remote_env \<Rightarrow> nat \<Rightarrow> packet_record \<Rightarrow> history_entry" where
  "entry_of env k r =
     (case r of (src, type, n) \<Rightarrow>
        \<lparr>he_packet = src, he_type = type, he_bytes_transmitted = n, he_packet_idx = k,
         he_tid = env_threadid env\<rparr>)"

definition entries_of :: "remote_env \<Rightarrow> packet_record list \<Rightarrow> history_entry list" where
  "entries_of env ps = map (\<lambda>i. entry_of env (i + 1) (ps ! i)) [0..<length ps]"

definition ring_holds :: "nat \<Rightarrow> history_entry list \<Rightarrow> history \<Rightarrow> bool" where
  "ring_holds n es h \<longleftrightarrow>
     length (hi_packets h) = n \<and> 0 < n \<and> length es < 2 ^ 32 \<and>
     hi_total_packet_count h = length es \<and> hi_curr_idx h = length es mod n \<and>
     (\<forall>k < length es. length es \<le> k + n \<longrightarrow> hi_packets h ! (k mod n) = es ! k) \<and>
     (\<forall>k. length es \<le> k \<and> k < n \<longrightarrow> hi_packets h ! k = empty_entry)"

lemma new_History_ring: "0 < n \<Longrightarrow> ring_holds n [] (new_History n)"
  by (simp add: ring_holds_def new_History_def)

lemma mod_window_inj:
  fixes k m n :: nat
  assumes "k < m" "m \<le> k + n" "k mod n = m mod n" "0 < n"
  shows "k + n = m"
proof -
  have "n dvd m - k"
    using assms(1,3) by (metis mod_eq_dvd_iff_nat less_imp_le_nat)
  then obtain q where q: "m - k = n * q" by blast
  moreover have "0 < q"
    using q assms(1) by (cases q) simp_all
  moreover have "q \<le> 1"
  proof (rule ccontr)
    assume "\<not> q \<le> 1"
    then have "n * 2 \<le> n * q" by (intro mult_le_mono2) simp
    with q assms(2,4) show False by linarith
  qed
  ultimately have "q = 1" by simp
  with q assms(1) show ?thesis by simp
qed

lemma AddPacket_ring:
  assumes "ring_holds n es h" "Suc (length es) < 2 ^ 32"
  shows "ring_holds n (es @ [entry_of env (length es + 1) (src, type, m)]) (AddPacket env src type m h)"
proof -
  let ?e = "entry_of env (length es + 1) (src, type, m)"
  have r: "length (hi_packets h) = n" "0 < n" "hi_total_packet_count h = length es"
      "hi_curr_idx h = length es mod n"
    and held: "\<And>k. k < length es \<Longrightarrow> length es \<le> k + n \<Longrightarrow> hi_packets h ! (k mod n) = es ! k"
    and free: "\<And>k. length es \<le> k \<Longrightarrow> k < n \<Longrightarrow> hi_packets h ! k = empty_entry"
    using assms(1) by (simp_all add: ring_holds_def)
  have add: "AddPacket env src type m h =
      h\<lparr>hi_packets := (hi_packets h)[length es mod n := ?e],
        hi_curr_idx := Suc (length es) mod n, hi_total_packet_count := Suc (length es)\<rparr>"
    using r assms(2) by (simp add: AddPacket_def GetNextIndex_def NormalizeIndex_def entry_of_def
        mod_Suc_eq Let_def)
  have lt: "length es mod n < length (hi_packets h)"
    using r by simp
  have old: "hi_packets h ! (k mod n) = es ! k" "k mod n \<noteq> length es mod n"
    if "k < length es" "Suc (length es) \<le> k + n" for k
  proof -
    show "hi_packets h ! (k mod n) = es ! k"
      using that by (intro held) simp_all
    show "k mod n \<noteq> length es mod n"
      using mod_window_inj [of k "length es" n] that r(2) by auto
  qed
  show ?thesis
    unfolding ring_holds_def add
    using r lt assms(2) old(1) old(2) [symmetric] free
    by (auto simp: nth_append nth_list_update less_Suc_eq)
qed

lemma record_all_ring:
  assumes "0 < n" "length ps < 2 ^ 32"
  shows "ring_holds n (entries_of env ps) (record_all env ps (new_History n))"
  using assms(2)
proof (induction ps rule: rev_induct)
  case Nil
  then show ?case
    using new_History_ring [OF assms(1)] by (simp add: record_all_def entries_of_def)
next
  case (snoc p ps)
  obtain src type m where p: "p = (src, type, m)" by (cases p)
  have len: "length (entries_of env ps) = length ps"
    by (simp add: entries_of_def)
  have e: "entries_of env (ps @ [p]) = entries_of env ps @ [entry_of env (length ps + 1) p]"
    by (simp add: entries_of_def nth_append)
  have "ring_holds n (entries_of env ps) (record_all env ps (new_History n))"
    using snoc by simp
  from AddPacket_ring [OF this, of env src type m] snoc.prems len e p show ?case
    by (simp add: record_all_def)
qed

definition shown :: "history_entry \<Rightarrow> bool" where
  "shown e \<longleftrightarrow> he_type e \<noteq> ePacketTypeInvalid \<and> he_packet e \<noteq> []"

lemma dump_loop_shown:
  assumes "\<And>j. j < k \<Longrightarrow> hi_packets h ! NormalizeIndex h (i + j) = f j \<and> shown (f j)"
    and "k \<le> n" "k < n \<Longrightarrow> \<not> shown (hi_packets h ! NormalizeIndex h (i + k))"
  shows "dump_loop h i n = map f [0..<k]"
  using assms
proof (induction k arbitrary: i n f)
  case 0
  then show ?case by (cases n) (auto simp: shown_def Let_def)
next
  case (Suc k)
  then obtain m where n: "n = Suc m" by (cases n) auto
  have "dump_loop h (i + 1) m = map (\<lambda>j. f (Suc j)) [0..<k]"
  proof (rule Suc.IH)
    show "hi_packets h ! NormalizeIndex h (i + 1 + j) = f (Suc j) \<and> shown (f (Suc j))" if "j < k" for j
      using Suc.prems(1) [of "Suc j"] that by simp
    show "k \<le> m" using Suc.prems(2) n by simp
    show "\<not> shown (hi_packets h ! NormalizeIndex h (i + 1 + k))" if "k < m"
      using Suc.prems(3) n that by simp
  qed
  moreover have "hi_packets h ! NormalizeIndex h i = f 0" "shown (f 0)"
    using Suc.prems(1) [of 0] by simp_all
  ultimately show ?case
    by (simp add: n Let_def shown_def map_upt_Suc del: upt_Suc)
qed

text \<open>The dump of the history lists the recorded packets in order while they fit into the
  ring; once the ring is full it lists only the last n - 1 of its n entries, never the
  oldest.\<close>

theorem Dump_shows:
  assumes "0 < n" "length ps < 2 ^ 32" "\<forall>(src, type, m) \<in> set ps. src \<noteq> [] \<and> type \<noteq> ePacketTypeInvalid"
  shows "Dump (record_all env ps (new_History n)) =
    (if length ps < n then entries_of env ps
     else drop (length ps - (n - 1)) (entries_of env ps))"
proof -
  let ?h = "record_all env ps (new_History n)" and ?es = "entries_of env ps"
  have len: "length ?es = length ps"
    by (simp add: entries_of_def)
  have shown: "shown (?es ! k)" if "k < length ps" for k
    using assms(3) that nth_mem [OF that]
    by (auto simp: entries_of_def entry_of_def shown_def split_beta)
  have r: "length (hi_packets ?h) = n" "hi_total_packet_count ?h = length ps" "hi_curr_idx ?h = length ps mod n"
    and held: "\<And>k. k < length ps \<Longrightarrow> length ps \<le> k + n \<Longrightarrow> hi_packets ?h ! (k mod n) = ?es ! k"
    and free: "\<And>k. length ps \<le> k \<Longrightarrow> k < n \<Longrightarrow> hi_packets ?h ! k = empty_entry"
    using record_all_ring [OF assms(1,2), of env] by (simp_all add: ring_holds_def len)
  show ?thesis
  proof (cases "length ps < n")
    case True
    have "hi_packets ?h ! j = ?es ! j" if "j < length ps" for j
      using held [of j] that True by simp
    then have "dump_loop ?h 0 (length ps + length ps) = map (\<lambda>j. ?es ! j) [0..<length ps]"
      using True shown free [of "length ps"] r(1)
      by (intro dump_loop_shown) (simp_all add: NormalizeIndex_def shown_def empty_entry_def)
    moreover have "map (\<lambda>j. ?es ! j) [0..<length ps] = ?es"
      using len by (metis map_nth)
    ultimately show ?thesis
      using True r
      by (simp add: Dump_def GetNumPacketsInHistory_def GetFirstSavedPacketIndex_def)
  next
    case False
    let ?c = "length ps mod n" and ?base = "length ps - n"
    have base: "(?c + 1 + j) mod n = (?base + 1 + j) mod n" for j
    proof -
      have "length ps mod n = ?base mod n"
        using False by (simp add: le_mod_geq)
      then show ?thesis
        by (metis add.assoc mod_add_left_eq)
    qed
    have "hi_packets ?h ! NormalizeIndex ?h (?c + 1 + j) = ?es ! (?base + 1 + j)"
      if "j < n - 1" for j
      using held [of "?base + 1 + j"] base [of j] that False r(1)
      by (simp add: NormalizeIndex_def)
    then have "dump_loop ?h (?c + 1) (n - 1) = map (\<lambda>j. ?es ! (?base + 1 + j)) [0..<n - 1]"
      using shown False by (intro dump_loop_shown) simp_all
    moreover have "map (\<lambda>j. ?es ! (?base + 1 + j)) [0..<n - 1] = drop (?base + 1) ?es"
      using False len by (intro nth_equalityI) simp_all
    moreover have "length ps - (n - 1) = ?base + 1"
      using False assms(1) by simp
    ultimately show ?thesis
      using False r
      by (simp add: Dump_def GetNumPacketsInHistory_def GetFirstSavedPacketIndex_def)
  qed
qed

section \<open>Concrete inputs\<close>

definition demo_env :: remote_env where
  "demo_env = \<lparr>env_threadid = 1, env_write = (\<lambda>sent d. length d),
     env_decompress = (\<lambda>type n content. content), env_regex = (\<lambda>pattern text. False)\<rparr>"

definition demo_comm :: "compression_type \<Rightarrow> (string \<times> connection_status) list \<Rightarrow> gdb_comm" where
  "demo_comm type input =
     \<lparr>gc_bytes = [], gc_connected = True, gc_echo_number = 0,
      gc_supports_qEcho = eLazyBoolCalculate, gc_history = new_History 512, gc_send_acks = True,
      gc_compression_type = type, gc_read_thread_enabled = False, gc_packet_queue = [],
      gc_sent = [], gc_events = [], gc_input = input\<rparr>"

theorem WaitForPacket_chunks_witness:
  "let f = frame_packet (PutEscapedBytes ''a#b'');
       chunks = [(take 3 f, eConnectionStatusSuccess), (drop 3 f, eConnectionStatusSuccess)]
   in \<exists>c'. WaitForPacketNoLock demo_env False (demo_comm CompressionNone chunks) =
        Some (PacketSuccess, StringExtractor_of ''a#b'', c')"
  using WaitForPacket_chunks [where payload = "''a#b''" and env = demo_env and sync = False
      and input = "[]" and chunks = "[(take 3 (frame_packet (PutEscapedBytes ''a#b'')), eConnectionStatusSuccess),
        (drop 3 (frame_packet (PutEscapedBytes ''a#b'')), eConnectionStatusSuccess)]"
      and c = "demo_comm CompressionNone
        [(take 3 (frame_packet (PutEscapedBytes ''a#b'')), eConnectionStatusSuccess),
         (drop 3 (frame_packet (PutEscapedBytes ''a#b'')), eConnectionStatusSuccess)]"]
  by (simp add: demo_comm_def frame_packet_def PutHex8_def put_Hex8_text)

theorem AppendBytesToCache_frames_witness:
  "\<exists>c'. AppendBytesToCache demo_env (frame_packet (PutEscapedBytes ''OK'') @ frame_packet (PutEscapedBytes ''a}b''))
      (demo_comm CompressionNone []) = Some c' \<and>
    gc_packet_queue c' = [StringExtractor_of ''OK'', StringExtractor_of ''a}b'']"
  using AppendBytesToCache_frames [where ps = "[''OK'', ''a}b'']" and c = "demo_comm CompressionNone []"
      and src = "frame_packet (PutEscapedBytes ''OK'') @ frame_packet (PutEscapedBytes ''a}b'')"
      and env = demo_env]
  by (auto simp: demo_comm_def)

theorem AppendBytesToCache_junk_witness:
  "\<exists>c'. AppendBytesToCache demo_env (''xyz'' @ frame_packet ''OK'') (demo_comm CompressionNone []) = Some c' \<and>
    gc_packet_queue c' = [] \<and> gc_bytes c' = frame_packet ''OK''"
  using AppendBytesToCache_junk [where junk = "''xyz''" and p = "''OK''" and env = demo_env
      and c = "demo_comm CompressionNone []"]
  by (simp add: demo_comm_def packet_start_def)

theorem CheckForPacket_bad_checksum_witness:
  "\<exists>c'. CheckForPacket demo_env ''$OK#00'' (demo_comm CompressionNone []) =
      Some (Standard, StringExtractor_of ''OK'', c') \<and> gc_sent c' = [''-'']"
  using CheckForPacket_bad_checksum [where p = "''OK''" and content = "''OK''" and rest = "[]"
      and env = demo_env and c = "demo_comm CompressionNone []" and src = "''$OK#00''"
      and ?h1.0 = "CHR ''0''" and ?h2.0 = "CHR ''0''"]
  by (auto simp: demo_comm_def demo_env_def isxdigit_def isdigit_def no_digit_def digit_value_def
      CalculcateChecksum_def char_val_def)

theorem CheckForPacket_dangling_escape_witness:
  "CheckForPacket demo_env (frame_packet (''a'' @ [CHR 0x7d])) (demo_comm CompressionNone []) = None"
  using CheckForPacket_dangling_escape [where data = "''a''" and rest = "[]" and env = demo_env
      and c = "demo_comm CompressionNone []" and src = "frame_packet (''a'' @ [CHR 0x7d])"]
  by (simp add: demo_comm_def needs_escape_def)

theorem CheckForPacket_N_witness:
  "\<exists>c'. CheckForPacket demo_env (frame_packet ''NOK'') (demo_comm ZlibDeflate []) =
      Some (Standard, no_packet, c') \<and> gc_sent c' = [''-'']"
  using CheckForPacket_N [where p = "''OK''" and content = "''OK''" and rest = "[]"
      and env = demo_env and c = "demo_comm ZlibDeflate []" and src = "frame_packet ''NOK''"
      and csum = "CalculcateChecksum ''NOK''"]
  by (auto simp: demo_comm_def demo_env_def no_digit_def CalculcateChecksum_def char_val_def)

theorem Dump_shows_witness:
  "map he_packet (Dump (record_all demo_env
      [(''a'', ePacketTypeSend, 1), (''b'', ePacketTypeRecv, 1), (''c'', ePacketTypeSend, 1)]
      (new_History 2))) = [''c'']"
  using Dump_shows [where n = 2 and env = demo_env and
      ps = "[(''a'', ePacketTypeSend, 1), (''b'', ePacketTypeRecv, 1), (''c'', ePacketTypeSend, 1)]"]
  by (simp add: entries_of_def entry_of_def)

end
