(* ===== verification/RangeMap.thy ===== *)
theory RangeMap
  imports Prelude
begin

text \<open>
  Address ranges and sorted vectors of ranges (\<open>Range\<close> and \<open>RangeVector\<close>,
  include/lldb/Core/RangeMap.h): insertion at the sorted place with optional merging of
  adjoining ranges, and lookup of the range that contains an address by binary search.

  Addresses are 64-bit, so the end of a range is computed modulo \<open>2 ^ 64\<close>; the width of the
  size type is an argument where a size is narrowed. \<open>std::lower_bound\<close> on a sorted vector is
  the number of leading entries that are less.
\<close>

section \<open>Ranges\<close>

record range =
  rg_base :: nat
  rg_size :: nat

definition GetRangeEnd :: "range \<Rightarrow> nat" where
  "GetRangeEnd r = (rg_base r + rg_size r) mod 2 ^ 64"

definition SetByteSize :: "nat \<Rightarrow> range \<Rightarrow> nat \<Rightarrow> range" where
  "SetByteSize w r s = r\<lparr>rg_size := s mod 2 ^ w\<rparr>"

definition SetRangeBase :: "range \<Rightarrow> nat \<Rightarrow> range" where
  "SetRangeBase r b = r\<lparr>rg_base := b\<rparr>"

definition Contains :: "range \<Rightarrow> nat \<Rightarrow> bool" where
  "Contains r a \<longleftrightarrow> rg_base r \<le> a \<and> a < GetRangeEnd r"

definition ContainsEndInclusive :: "range \<Rightarrow> nat \<Rightarrow> bool" where
  "ContainsEndInclusive r a \<longleftrightarrow> rg_base r \<le> a \<and> a \<le> GetRangeEnd r"

definition Contains_range :: "range \<Rightarrow> range \<Rightarrow> bool" where
  "Contains_range r s \<longleftrightarrow> Contains r (rg_base s) \<and> ContainsEndInclusive r (GetRangeEnd s)"

definition DoesAdjoinOrIntersect :: "range \<Rightarrow> range \<Rightarrow> bool" where
  "DoesAdjoinOrIntersect lhs rhs \<longleftrightarrow>
     rg_base lhs \<le> GetRangeEnd rhs \<and> GetRangeEnd lhs \<ge> rg_base rhs"

definition DoesIntersect :: "range \<Rightarrow> range \<Rightarrow> bool" where
  "DoesIntersect lhs rhs \<longleftrightarrow>
     rg_base lhs < GetRangeEnd rhs \<and> GetRangeEnd lhs > rg_base rhs"

text \<open>The united range, \<open>None\<close> when the ranges are apart (the result is \<open>false\<close>).\<close>

definition Union :: "nat \<Rightarrow> range \<Rightarrow> range \<Rightarrow> range option" where
  "Union w lhs rhs =
     (if DoesAdjoinOrIntersect lhs rhs
      then let new_end = max (GetRangeEnd lhs) (GetRangeEnd rhs);
               base = min (rg_base lhs) (rg_base rhs)
           in Some \<lparr>rg_base = base, rg_size = (new_end + 2 ^ 64 - base) mod 2 ^ 64 mod 2 ^ w\<rparr>
      else None)"

definition range_less :: "range \<Rightarrow> range \<Rightarrow> bool" where
  "range_less lhs rhs \<longleftrightarrow>
     (if rg_base lhs = rg_base rhs then rg_size lhs < rg_size rhs else rg_base lhs < rg_base rhs)"

section \<open>Sorted vectors of ranges\<close>

definition lower_bound :: "('a \<Rightarrow> bool) \<Rightarrow> 'a list \<Rightarrow> nat" where
  "lower_bound lt es = length (takeWhile lt es)"

lemma lower_bound_props:
  "lower_bound lt es \<le> length es"
  "i < lower_bound lt es \<Longrightarrow> lt (es ! i)"
  "lower_bound lt es < length es \<Longrightarrow> \<not> lt (es ! lower_bound lt es)"
proof -
  show "lower_bound lt es \<le> length es"
    by (simp add: lower_bound_def length_takeWhile_le)
  show "lt (es ! i)" if "i < lower_bound lt es"
    using that takeWhile_nth [of i lt es] nth_mem [of i "takeWhile lt es"] set_takeWhileD [of _ lt es]
    by (auto simp: lower_bound_def)
  show "lower_bound lt es < length es \<Longrightarrow> \<not> lt (es ! lower_bound lt es)"
    unfolding lower_bound_def by (rule nth_length_takeWhile)
qed

definition RemoveEntryAtIndex :: "range list \<Rightarrow> nat \<Rightarrow> range list" where
  "RemoveEntryAtIndex es idx =
     (if idx < length es then take idx es @ drop (idx + 1) es else es)"

definition combine_at :: "nat \<Rightarrow> range list \<Rightarrow> nat \<Rightarrow> range list option" where
  "combine_at w es i =
     (case Union w (es ! i) (es ! (i + 1)) of
        Some u \<Rightarrow> Some (take i es @ [u] @ drop (i + 2) es)
      | None \<Rightarrow> None)"

definition CombinePrevAndNext :: "nat \<Rightarrow> range list \<Rightarrow> nat \<Rightarrow> range list" where
  "CombinePrevAndNext w es pos =
     (let (es, pos) =
            (if pos \<noteq> 0
             then (case combine_at w es (pos - 1) of Some es' \<Rightarrow> es' | None \<Rightarrow> es, pos - 1)
             else (es, pos))
      in if pos + 1 < length es
         then case combine_at w es pos of Some es' \<Rightarrow> es' | None \<Rightarrow> es
         else es)"

definition Insert :: "nat \<Rightarrow> range list \<Rightarrow> range \<Rightarrow> bool \<Rightarrow> range list" where
  "Insert w es entry combine =
     (if es = [] then [entry]
      else let pos = lower_bound (\<lambda>e. range_less e entry) es
      in if combine \<and> pos < length es \<and> Union w (es ! pos) entry \<noteq> None
         then CombinePrevAndNext w (es[pos := the (Union w (es ! pos) entry)]) pos
         else if combine \<and> pos \<noteq> 0 \<and> Union w (es ! (pos - 1)) entry \<noteq> None
         then CombinePrevAndNext w (es[pos - 1 := the (Union w (es ! (pos - 1)) entry)]) (pos - 1)
         else take pos es @ [entry] @ drop pos es)"

definition FindEntryIndexThatContains :: "range list \<Rightarrow> nat \<Rightarrow> nat option" where
  "FindEntryIndexThatContains es addr =
     (let pos = lower_bound (\<lambda>e. rg_base e < addr) es
      in if pos < length es \<and> Contains (es ! pos) addr then Some pos
         else if pos \<noteq> 0 \<and> Contains (es ! (pos - 1)) addr then Some (pos - 1)
         else None)"

section \<open>Separated vectors\<close>

text \<open>The ranges a vector stands for, and what keeps its lookups right: the ranges are not
  empty, do not wrap and follow each other without overlap.\<close>

definition cells_of :: "range \<Rightarrow> nat set" where
  "cells_of r = {rg_base r ..< rg_base r + rg_size r}"

definition cells :: "range list \<Rightarrow> nat set" where
  "cells es = (\<Union>e \<in> set es. cells_of e)"

definition range_ok :: "range \<Rightarrow> bool" where
  "range_ok r \<longleftrightarrow> 0 < rg_size r \<and> rg_base r + rg_size r < 2 ^ 64"

definition before :: "range \<Rightarrow> range \<Rightarrow> bool" where
  "before a b \<longleftrightarrow> rg_base a + rg_size a \<le> rg_base b"

definition separated :: "range list \<Rightarrow> bool" where
  "separated es \<longleftrightarrow> sorted_wrt before es \<and> (\<forall>e \<in> set es. range_ok e)"

named_theorems ranges "facts on separated vectors"

lemma range_end [ranges]: "range_ok r \<Longrightarrow> GetRangeEnd r = rg_base r + rg_size r"
  by (simp add: GetRangeEnd_def range_ok_def)

lemma Contains_cells [ranges]: "range_ok r \<Longrightarrow> Contains r a \<longleftrightarrow> a \<in> cells_of r"
  by (simp add: Contains_def range_end cells_of_def)

lemma cells_simps [simp]:
  "cells [] = {}" "cells (e # es) = cells_of e \<union> cells es" "cells (xs @ ys) = cells xs \<union> cells ys"
  by (auto simp: cells_def)

lemma cells_of_nonempty: "range_ok r \<Longrightarrow> rg_base r \<in> cells_of r"
  by (simp add: cells_of_def range_ok_def)

lemma before_disjoint: "before a b \<Longrightarrow> cells_of a \<inter> cells_of b = {}"
  by (auto simp: before_def cells_of_def)

lemma separated_simps [simp]:
  "separated []"
  "separated (e # es) \<longleftrightarrow> range_ok e \<and> (\<forall>x \<in> set es. before e x) \<and> separated es"
  "separated (xs @ ys) \<longleftrightarrow>
     separated xs \<and> separated ys \<and> (\<forall>x \<in> set xs. \<forall>y \<in> set ys. before x y)"
  by (auto simp: separated_def sorted_wrt_append)

text \<open>Two ranges that do not overlap lie in one order or the other.\<close>

lemma disjoint_before:
  assumes "range_ok a" "range_ok b" "cells_of a \<inter> cells_of b = {}"
  shows "before a b \<or> before b a"
proof (rule ccontr)
  assume "\<not> (before a b \<or> before b a)"
  then have "max (rg_base a) (rg_base b) \<in> cells_of a \<inter> cells_of b"
    using assms(1,2) by (auto simp: before_def cells_of_def range_ok_def max_def)
  with assms(3) show False by blast
qed

lemma Union_before:
  assumes "range_ok a" "range_ok b" "before a b"
  shows "Union w a b =
      (if rg_base a + rg_size a = rg_base b
       then Some \<lparr>rg_base = rg_base a, rg_size = (rg_size a + rg_size b) mod 2 ^ w\<rparr> else None)"
    and "Union w b a = Union w a b"
proof -
  have "(rg_base b + rg_size b + 2 ^ 64 - rg_base a) mod 2 ^ 64 = rg_size a + rg_size b"
    if "rg_base a + rg_size a = rg_base b"
  proof -
    have "rg_base b + rg_size b + 2 ^ 64 - rg_base a = rg_size a + rg_size b + 2 ^ 64"
      using that by simp
    moreover have "rg_size a + rg_size b < 2 ^ 64"
      using assms that by (simp add: range_ok_def)
    ultimately show ?thesis
      by (simp only: mod_add_self2 mod_less)
  qed
  then show "Union w a b =
      (if rg_base a + rg_size a = rg_base b
       then Some \<lparr>rg_base = rg_base a, rg_size = (rg_size a + rg_size b) mod 2 ^ w\<rparr> else None)"
    using assms
    by (auto simp: Union_def DoesAdjoinOrIntersect_def range_end before_def range_ok_def Let_def
        min_def max_def)
  show "Union w b a = Union w a b"
    using assms
    by (auto simp: Union_def DoesAdjoinOrIntersect_def range_end before_def range_ok_def Let_def
        min_def max_def)
qed

section \<open>What the operations keep\<close>

lemma combine_at_split:
  assumes "separated (xs @ a # b # ys)"
  shows "combine_at w (xs @ a # b # ys) (length xs) =
    (if rg_base a + rg_size a = rg_base b
     then Some (xs @ \<lparr>rg_base = rg_base a, rg_size = (rg_size a + rg_size b) mod 2 ^ w\<rparr> # ys) else None)"
  using assms Union_before(1) [of a b w] by (simp add: combine_at_def nth_append)

text \<open>A property of single ranges that merging adjoining ranges preserves.\<close>

definition mergeable :: "nat \<Rightarrow> (range \<Rightarrow> bool) \<Rightarrow> bool" where
  "mergeable w P \<longleftrightarrow> (\<forall>a b. P a \<longrightarrow> P b \<longrightarrow> range_ok b \<longrightarrow> rg_base a + rg_size a = rg_base b \<longrightarrow>
     rg_size a + rg_size b < 2 ^ w \<and> P \<lparr>rg_base = rg_base a, rg_size = rg_size a + rg_size b\<rparr>)"

definition same_cells :: "(range \<Rightarrow> bool) \<Rightarrow> range list \<Rightarrow> range list \<Rightarrow> bool" where
  "same_cells P es es' \<longleftrightarrow> separated es' \<and> cells es' = cells es \<and> (\<forall>e \<in> set es'. P e)"

lemma combine_at_cells:
  assumes "separated es" "\<forall>e \<in> set es. P e" "mergeable w P" "i + 1 < length es"
  shows "same_cells P es (case combine_at w es i of Some es' \<Rightarrow> es' | None \<Rightarrow> es)"
proof -
  obtain xs a b ys where es: "es = xs @ a # b # ys" and i: "length xs = i"
  proof -
    have "es = take i es @ es ! i # es ! (i + 1) # drop (i + 2) es"
      using assms(4) by (metis Cons_nth_drop_Suc Suc_eq_plus1 Suc_lessD add_2_eq_Suc' append_take_drop_id)
    moreover have "length (take i es) = i" using assms(4) by simp
    ultimately show ?thesis using that by blast
  qed
  note sep = assms(1) [unfolded es]
  have ab: "P a" "P b" "range_ok b"
    using assms(2) sep es by simp_all
  have c: "combine_at w es i = (if rg_base a + rg_size a = rg_base b
     then Some (xs @ \<lparr>rg_base = rg_base a, rg_size = (rg_size a + rg_size b) mod 2 ^ w\<rparr> # ys) else None)"
    using combine_at_split [OF sep, of w] es i by simp
  show ?thesis
  proof (cases "rg_base a + rg_size a = rg_base b")
    case True
    let ?u = "\<lparr>rg_base = rg_base a, rg_size = rg_size a + rg_size b\<rparr>"
    have m: "rg_size a + rg_size b < 2 ^ w" "P ?u"
      using assms(3) ab True by (auto simp: mergeable_def)
    have u: "cells_of ?u = cells_of a \<union> cells_of b" "range_ok ?u"
      using True sep by (auto simp: cells_of_def range_ok_def)
    have "separated (xs @ ?u # ys)"
      using sep u(2) True by (auto simp: before_def)
    moreover have "cells (xs @ ?u # ys) = cells (xs @ a # b # ys)"
      using u(1) by auto
    moreover have "\<forall>e \<in> set (xs @ ?u # ys). P e"
      using m(2) assms(2) es by auto
    ultimately show ?thesis
      using c True es m(1) by (simp add: same_cells_def)
  next
    case False
    with c assms(1,2) show ?thesis by (simp add: same_cells_def)
  qed
qed

lemma CombinePrevAndNext_cells:
  assumes "separated es" "\<forall>e \<in> set es. P e" "mergeable w P" "pos < length es"
  shows "same_cells P es (CombinePrevAndNext w es pos)"
proof -
  have second: "same_cells P es
      (if p + 1 < length es then case combine_at w es p of Some es' \<Rightarrow> es' | None \<Rightarrow> es else es)"
    if "separated es" "\<forall>e \<in> set es. P e" for es p
    using combine_at_cells [OF that assms(3), of p] that by (simp add: same_cells_def)
  show ?thesis
  proof (cases "pos = 0")
    case True
    then show ?thesis
      using second [OF assms(1,2), of 0] by (simp add: CombinePrevAndNext_def)
  next
    case False
    define es1 where "es1 = (case combine_at w es (pos - 1) of Some es' \<Rightarrow> es' | None \<Rightarrow> es)"
    have a: "same_cells P es es1"
      using combine_at_cells [OF assms(1-3), of "pos - 1"] assms(4) False by (simp add: es1_def)
    define es2 where "es2 = (if pos - 1 + 1 < length es1
      then case combine_at w es1 (pos - 1) of Some es' \<Rightarrow> es' | None \<Rightarrow> es1 else es1)"
    have "same_cells P es1 es2"
      unfolding es2_def using a by (intro second) (simp_all add: same_cells_def)
    moreover have "CombinePrevAndNext w es pos = es2"
      using False
      by (simp only: CombinePrevAndNext_def es2_def es1_def [symmetric] if_True simp_thms Let_def
          prod.case)
    ultimately show ?thesis
      using a by (simp add: same_cells_def)
  qed
qed

lemma lower_bound_split:
  assumes "\<And>x y. x \<in> set xs \<Longrightarrow> lt x" "\<And>y. y \<in> set ys \<Longrightarrow> \<not> lt y"
  shows "lower_bound lt (xs @ ys) = length xs"
proof -
  have "takeWhile lt (xs @ ys) = xs"
    using assms by (cases ys) (simp_all add: takeWhile_append takeWhile_eq_all_conv)
  then show ?thesis by (simp add: lower_bound_def)
qed

text \<open>Where a range that overlaps none of a separated vector belongs.\<close>

lemma split_around:
  assumes "separated es" "range_ok r" "cells es \<inter> cells_of r = {}"
  shows "\<exists>xs ys. es = xs @ ys \<and> (\<forall>x \<in> set xs. before x r) \<and> (\<forall>y \<in> set ys. before r y)"
  using assms
proof (induction es)
  case Nil
  then show ?case by simp
next
  case (Cons e es)
  then have e: "range_ok e" "\<forall>x \<in> set es. before e x" "separated es" by simp_all
  consider "before e r" | "before r e"
    using disjoint_before [OF e(1) Cons.prems(2)] Cons.prems(3) by auto
  then show ?case
  proof cases
    case 1
    from Cons obtain xs ys where "es = xs @ ys" "\<forall>x \<in> set xs. before x r" "\<forall>y \<in> set ys. before r y"
      by auto
    with 1 have "e # es = (e # xs) @ ys \<and> (\<forall>x \<in> set (e # xs). before x r) \<and> (\<forall>y \<in> set ys. before r y)"
      by simp
    then show ?thesis by blast
  next
    case 2
    then have "\<forall>x \<in> set (e # es). before r x"
      using e by (auto simp: before_def)
    then show ?thesis by (intro exI [of _ "[]"] exI [of _ "e # es"]) simp
  qed
qed

lemma lower_bound_around:
  assumes "range_ok r" "\<forall>x \<in> set xs. before x r \<and> range_ok x" "\<forall>y \<in> set ys. before r y \<and> range_ok y"
  shows "lower_bound (\<lambda>e. range_less e r) (xs @ ys) = length xs"
    and "lower_bound (\<lambda>e. rg_base e < rg_base r) (xs @ ys) = length xs"
proof -
  have x: "rg_base x < rg_base r" if "x \<in> set xs" for x
    using assms(2) that by (auto simp: before_def range_ok_def dest!: bspec)
  have y: "rg_base r < rg_base y" if "y \<in> set ys" for y
    using assms(1,3) that by (auto simp: before_def range_ok_def dest!: bspec)
  show "lower_bound (\<lambda>e. range_less e r) (xs @ ys) = length xs"
  proof (rule lower_bound_split)
    show "range_less e r" if "e \<in> set xs" for e
      using x [OF that] by (simp add: range_less_def)
    show "\<not> range_less e r" if "e \<in> set ys" for e
      using y [OF that] by (simp add: range_less_def)
  qed
  show "lower_bound (\<lambda>e. rg_base e < rg_base r) (xs @ ys) = length xs"
    using x y by (intro lower_bound_split) (simp_all add: less_imp_not_less)
qed

lemma Insert_cells:
  assumes "separated es" "range_ok r" "cells es \<inter> cells_of r = {}"
    and "\<forall>e \<in> set es. P e" "P r" "mergeable w P"
  shows "same_cells P (r # es) (Insert w es r combine)"
proof -
  obtain xs ys where es: "es = xs @ ys" and xs: "\<forall>x \<in> set xs. before x r" and ys: "\<forall>y \<in> set ys. before r y"
    using split_around [OF assms(1-3)] by blast
  have ok: "\<forall>e \<in> set es. range_ok e"
    using assms(1) by (simp add: separated_def)
  have pos: "lower_bound (\<lambda>e. range_less e r) es = length xs"
    unfolding es using assms(2) xs ys ok es by (intro lower_bound_around) auto
  have plain: "same_cells P (r # es) (xs @ r # ys)"
    using assms(1,2,4,5) xs ys es by (auto simp: same_cells_def)
  have merged: "same_cells P (r # es) (CombinePrevAndNext w (us @ u # vs) (length us))"
    if "separated (us @ u # vs)" "cells (us @ u # vs) = cells (r # es)"
      "\<forall>e \<in> set (us @ u # vs). P e" for us u vs
    using CombinePrevAndNext_cells [OF that(1,3) assms(6), of "length us"] that(2)
    by (simp add: same_cells_def)
  consider (next_entry) q ys' where "ys = q # ys'" "combine" "rg_base r + rg_size r = rg_base q"
    | (prev_entry) p xs' where "xs = xs' @ [p]" "combine" "rg_base p + rg_size p = rg_base r"
        "\<not> (ys \<noteq> [] \<and> Union w (hd ys) r \<noteq> None)"
    | (apart) "\<not> (combine \<and> ys \<noteq> [] \<and> Union w (hd ys) r \<noteq> None)"
        "\<not> (combine \<and> xs \<noteq> [] \<and> Union w (last xs) r \<noteq> None)"
  proof -
    have "Union w q r \<noteq> None \<longleftrightarrow> rg_base r + rg_size r = rg_base q" if "q \<in> set ys" for q
      using Union_before [of r q w] assms(2) that ys ok es by auto
    moreover have "Union w p r \<noteq> None \<longleftrightarrow> rg_base p + rg_size p = rg_base r" if "p \<in> set xs" for p
      using Union_before [of p r w] assms(2) that xs ok es by auto
    ultimately show ?thesis
      using that by (cases ys; cases xs rule: rev_cases) auto
  qed
  then show ?thesis
  proof cases
    case next_entry
    let ?u = "\<lparr>rg_base = rg_base r, rg_size = rg_size r + rg_size q\<rparr>"
    have q: "range_ok q" "before r q" "P q"
      using next_entry(1) ok es ys assms(4) by auto
    then have m: "rg_size r + rg_size q < 2 ^ w" "P ?u"
      using assms(5,6) next_entry(3) by (auto simp: mergeable_def)
    then have "Union w q r = Some ?u"
      using Union_before [OF assms(2) q(1,2), of w] next_entry(3) by simp
    then have "Insert w es r combine = CombinePrevAndNext w (xs @ ?u # ys') (length xs)"
      using next_entry es pos by (simp add: Insert_def)
    moreover have "separated (xs @ ?u # ys')" "cells (xs @ ?u # ys') = cells (r # es)"
      using plain next_entry(1,3) es by (auto simp: same_cells_def before_def range_ok_def cells_of_def)
    moreover have "\<forall>e \<in> set (xs @ ?u # ys'). P e"
      using assms(4) es next_entry(1) m(2) by auto
    ultimately show ?thesis
      using merged by simp
  next
    case prev_entry
    let ?u = "\<lparr>rg_base = rg_base p, rg_size = rg_size p + rg_size r\<rparr>"
    have p: "range_ok p" "before p r" "P p"
      using prev_entry(1) ok es xs assms(4) by auto
    then have m: "rg_size p + rg_size r < 2 ^ w" "P ?u"
      using assms(2,5,6) prev_entry(3) by (auto simp: mergeable_def)
    then have "Union w p r = Some ?u"
      using Union_before(1) [OF p(1) assms(2) p(2), of w] prev_entry(3) by simp
    then have "Insert w es r combine = CombinePrevAndNext w (xs' @ ?u # ys) (length xs')"
      using prev_entry es pos
      by (cases ys) (simp_all add: Insert_def nth_append list_update_append)
    moreover have "separated (xs' @ ?u # ys)" "cells (xs' @ ?u # ys) = cells (r # es)"
      using plain prev_entry(1,3) es by (auto simp: same_cells_def before_def range_ok_def cells_of_def)
    moreover have "\<forall>e \<in> set (xs' @ ?u # ys). P e"
      using assms(4) es prev_entry(1) m(2) by auto
    ultimately show ?thesis
      using merged by simp
  next
    case apart
    then have "Insert w es r combine = xs @ r # ys"
      using es pos by (cases ys; cases xs rule: rev_cases) (auto simp: Insert_def nth_append)
    with plain show ?thesis by simp
  qed
qed

lemma FindEntryIndexThatContains_Some:
  assumes "separated es"
  shows "FindEntryIndexThatContains es addr = Some i \<longleftrightarrow> i < length es \<and> addr \<in> cells_of (es ! i)"
proof -
  have ok: "range_ok (es ! k)" if "k < length es" for k
    using assms that by (simp add: separated_def)
  have contains: "Contains (es ! k) addr \<longleftrightarrow> addr \<in> cells_of (es ! k)" if "k < length es" for k
    using ok [OF that] by (rule Contains_cells)
  define xs where "xs = takeWhile (\<lambda>e. rg_base e < addr) es"
  define ys where "ys = dropWhile (\<lambda>e. rg_base e < addr) es"
  have es: "es = xs @ ys" by (simp add: xs_def ys_def)
  have pos: "lower_bound (\<lambda>e. rg_base e < addr) es = length xs"
    by (simp add: lower_bound_def xs_def)
  have near: "k = length xs \<or> Suc k = length xs" if k: "k < length es" "addr \<in> cells_of (es ! k)" for k
  proof (rule ccontr)
    assume n: "\<not> (k = length xs \<or> Suc k = length xs)"
    have ord: "before (es ! a) (es ! b)" if "a < b" "b < length es" for a b
      using assms that by (simp add: separated_def sorted_wrt_iff_nth_less)
    show False
    proof (cases "k < length xs")
      case True
      with n have "Suc k < length xs" by simp
      moreover have "rg_base (xs ! Suc k) < addr" if "Suc k < length xs"
        using nth_mem [OF that] by (auto simp: xs_def dest: set_takeWhileD)
      ultimately have "rg_base (es ! Suc k) < addr" "Suc k < length es"
        by (simp_all add: es nth_append)
      with ord [of k "Suc k"] k(2) show False
        by (auto simp: before_def cells_of_def)
    next
      case False
      with n k(1) have less: "length xs < k" "length xs < length es" by simp_all
      then have "ys \<noteq> []" using es by auto
      moreover from this have "\<not> rg_base (hd ys) < addr"
        unfolding ys_def by (rule hd_dropWhile)
      ultimately have "\<not> rg_base (es ! length xs) < addr"
        by (simp add: es nth_append hd_conv_nth)
      with ord [OF less(1) k(1)] ok [OF less(2)] k(2) show False
        by (auto simp: before_def cells_of_def range_ok_def)
    qed
  qed
  have uniq: "a = b" if "a < length es" "b < length es" "addr \<in> cells_of (es ! a)" "addr \<in> cells_of (es ! b)" for a b
  proof (rule ccontr)
    assume "a \<noteq> b"
    then have "before (es ! a) (es ! b) \<or> before (es ! b) (es ! a)"
      using assms that(1,2) by (auto simp: separated_def sorted_wrt_iff_nth_less neq_iff)
    with that(3,4) show False
      by (auto simp: before_def cells_of_def)
  qed
  have le: "xs \<noteq> [] \<Longrightarrow> length xs - Suc 0 < length es"
    by (cases xs) (simp_all add: es)
  show ?thesis
  proof
    assume "FindEntryIndexThatContains es addr = Some i"
    then show "i < length es \<and> addr \<in> cells_of (es ! i)"
      using contains [of "length xs"] contains [of "length xs - Suc 0"] le
      by (auto simp: FindEntryIndexThatContains_def pos Let_def split: if_splits)
  next
    assume i: "i < length es \<and> addr \<in> cells_of (es ! i)"
    show "FindEntryIndexThatContains es addr = Some i"
    proof (cases "i = length xs")
      case True
      with i contains show ?thesis
        by (simp add: FindEntryIndexThatContains_def pos Let_def)
    next
      case False
      with near i have s: "Suc i = length xs" by blast
      have "\<not> (length xs < length es \<and> Contains (es ! length xs) addr)"
        using uniq [of i "length xs"] contains i False by auto
      with i contains show ?thesis
        by (auto simp: FindEntryIndexThatContains_def pos Let_def s [symmetric])
    qed
  qed
qed

lemma FindEntryIndexThatContains_None:
  assumes "separated es"
  shows "FindEntryIndexThatContains es addr = None \<longleftrightarrow> addr \<notin> cells es"
proof -
  have "addr \<in> cells es \<longleftrightarrow> (\<exists>i < length es. addr \<in> cells_of (es ! i))"
    unfolding cells_def by (metis UN_iff in_set_conv_nth)
  then show ?thesis
    using FindEntryIndexThatContains_Some [OF assms, of addr] by (metis not_Some_eq)
qed

lemma RemoveEntryAtIndex_split:
  assumes "i < length es"
  shows "\<exists>xs ys. es = xs @ es ! i # ys \<and> RemoveEntryAtIndex es i = xs @ ys \<and> length xs = i"
  using assms by (intro exI [of _ "take i es"] exI [of _ "drop (i + 1) es"])
    (simp add: RemoveEntryAtIndex_def id_take_nth_drop [symmetric])

lemma separated_disjoint:
  assumes "separated (xs @ e # ys)"
  shows "cells_of e \<inter> cells (xs @ ys) = {}"
proof -
  have "cells_of e \<inter> cells_of x = {}" if "x \<in> set (xs @ ys)" for x
    using assms that before_disjoint [of x e] before_disjoint [of e x] by auto
  then show ?thesis by (auto simp: cells_def)
qed

lemma Remove_cells:
  assumes "separated es" "i < length es"
  shows "separated (RemoveEntryAtIndex es i)"
    and "cells (RemoveEntryAtIndex es i) = cells es - cells_of (es ! i)"
    and "set (RemoveEntryAtIndex es i) = set es - {es ! i}"
proof -
  obtain xs ys where es: "es = xs @ es ! i # ys" and rem: "RemoveEntryAtIndex es i = xs @ ys"
    using RemoveEntryAtIndex_split [OF assms(2)] by blast
  define e where "e = es ! i"
  have sep: "separated (xs @ e # ys)"
    using assms(1) es by (simp add: e_def)
  note d = separated_disjoint [OF sep]
  have eq: "es = xs @ e # ys" using es by (simp add: e_def)
  show "separated (RemoveEntryAtIndex es i)"
    using sep rem by simp
  show "cells (RemoveEntryAtIndex es i) = cells es - cells_of (es ! i)"
    using d by (simp only: rem e_def [symmetric]) (auto simp: eq)
  have "e \<notin> set (xs @ ys)"
    using d sep cells_of_nonempty [of e] by (auto simp: cells_def)
  then show "set (RemoveEntryAtIndex es i) = set es - {es ! i}"
    by (simp only: rem e_def [symmetric]) (auto simp: eq)
qed

section \<open>Insertion and lookup\<close>

text \<open>The sizes of merged ranges fit the size type when the vector spans less than its range.\<close>

definition within :: "nat \<Rightarrow> nat \<Rightarrow> range \<Rightarrow> bool" where
  "within lo w e \<longleftrightarrow> lo \<le> rg_base e \<and> rg_base e + rg_size e < lo + 2 ^ w"

lemma mergeable_within: "mergeable w (within lo w)"
  by (auto simp: mergeable_def within_def)

text \<open>C31: Inserting a range that overlaps none of a sorted vector, with or without merging its
  neighbours, keeps the vector sorted and free of overlap, and afterwards the lookup finds
  an entry for exactly the addresses of the new range and those it found before.\<close>

theorem Insert_find:
  assumes "separated es" "range_ok r" "cells es \<inter> cells_of r = {}"
    and "\<forall>e \<in> set es. within lo w e" "within lo w r"
  shows "separated (Insert w es r combine) \<and>
    (FindEntryIndexThatContains (Insert w es r combine) addr \<noteq> None \<longleftrightarrow>
       addr \<in> cells_of r \<or> FindEntryIndexThatContains es addr \<noteq> None)"
  using Insert_cells [OF assms(1-5) mergeable_within, of combine] assms(1)
    FindEntryIndexThatContains_None
  by (auto simp: same_cells_def)

text \<open>A combining insert merges a new range with its neighbours only: one that covers several entries
  leaves an entry inside another, and a lookup misses addresses of the new range.\<close>

lemma Insert_over_several:
  defines "es \<equiv> map (\<lambda>a. \<lparr>rg_base = a, rg_size = 10\<rparr>) [10, 30, 50]"
  shows "Insert 32 es \<lparr>rg_base = 0, rg_size = 100\<rparr> True = [\<lparr>rg_base = 0, rg_size = 100\<rparr>, \<lparr>rg_base = 50, rg_size = 10\<rparr>]"
    (is "?inserted = _")
    and "FindEntryIndexThatContains (Insert 32 es \<lparr>rg_base = 0, rg_size = 100\<rparr> True) 70 = None"
proof -
  show inserted: "?inserted = [\<lparr>rg_base = 0, rg_size = 100\<rparr>, \<lparr>rg_base = 50, rg_size = 10\<rparr>]"
    by (simp add: es_def Insert_def lower_bound_def range_less_def Union_def DoesAdjoinOrIntersect_def GetRangeEnd_def
        CombinePrevAndNext_def combine_at_def Let_def)
  show "FindEntryIndexThatContains ?inserted 70 = None"
    by (simp add: inserted FindEntryIndexThatContains_def lower_bound_def Contains_def GetRangeEnd_def)
qed

theorem Insert_find_witness:
  "separated (Insert 32 [\<lparr>rg_base = 16, rg_size = 16\<rparr>, \<lparr>rg_base = 48, rg_size = 16\<rparr>]
      \<lparr>rg_base = 32, rg_size = 16\<rparr> True) \<and>
   FindEntryIndexThatContains (Insert 32 [\<lparr>rg_base = 16, rg_size = 16\<rparr>, \<lparr>rg_base = 48, rg_size = 16\<rparr>]
      \<lparr>rg_base = 32, rg_size = 16\<rparr> True) 40 \<noteq> None"
proof -
  have "({16..<32} \<union> {48..<64}) \<inter> {32..<48} = ({} :: nat set)" by auto
  then show ?thesis
    using Insert_find [of "[\<lparr>rg_base = 16, rg_size = 16\<rparr>, \<lparr>rg_base = 48, rg_size = 16\<rparr>]"
        "\<lparr>rg_base = 32, rg_size = 16\<rparr>" 0 32 True 40]
    by (simp add: range_ok_def before_def within_def cells_of_def)
qed

end
