(* ===== verification/MemoryAllocator.thy ===== *)
theory MemoryAllocator
  imports RangeMap
begin

text \<open>
  Memory that the debugger allocates in the process (\<open>AllocatedBlock\<close> and
  \<open>AllocatedMemoryCache\<close>, source/Target/Memory.cpp): pages obtained from the process are cut
  into chunks that are handed out and taken back, each page with a sorted vector of its free
  and one of its reserved ranges.

  The process is a parameter: the address it returns for a page, given what was allocated
  before. \<open>LLDB_INVALID_ADDRESS\<close> is \<open>UINT64_MAX\<close>.
\<close>

section \<open>A block\<close>

record allocated_block =
  ab_range :: range
  ab_permissions :: nat
  ab_chunk_size :: nat
  ab_free :: "range list"
  ab_reserved :: "range list"

definition new_AllocatedBlock :: "nat \<Rightarrow> nat \<Rightarrow> nat \<Rightarrow> nat \<Rightarrow> allocated_block" where
  "new_AllocatedBlock addr byte_size permissions chunk_size =
     (let r = \<lparr>rg_base = addr, rg_size = byte_size mod 2 ^ 32\<rparr>
      in \<lparr>ab_range = r, ab_permissions = permissions, ab_chunk_size = chunk_size,
          ab_free = [r], ab_reserved = []\<rparr>)"

definition CalculateChunksNeededForSize :: "allocated_block \<Rightarrow> nat \<Rightarrow> nat" where
  "CalculateChunksNeededForSize b size32 =
     ((size32 + ab_chunk_size b + 2 ^ 32 - 1) mod 2 ^ 32) div ab_chunk_size b"

definition first_fit :: "range list \<Rightarrow> nat \<Rightarrow> nat option" where
  "first_fit es n =
     (let i = lower_bound (\<lambda>e. rg_size e < n) es in if i < length es then Some i else None)"

definition ReserveBlock :: "nat \<Rightarrow> allocated_block \<Rightarrow> nat \<times> allocated_block" where
  "ReserveBlock requested b =
     (let n = (if requested = 0 then 1 else requested)
      in case first_fit (ab_free b) n of
           None \<Rightarrow> (LLDB_INVALID_ADDRESS, b)
         | Some i \<Rightarrow>
             let free_block = ab_free b ! i;
                 range_size = rg_size free_block;
                 addr = rg_base free_block;
                 num_chunks = CalculateChunksNeededForSize b n;
                 block_size = num_chunks * ab_chunk_size b;
                 bytes_left = (range_size + 2 ^ 64 - block_size) mod 2 ^ 64
             in if bytes_left = 0
                then (addr, b\<lparr>ab_reserved := Insert 32 (ab_reserved b) free_block False,
                              ab_free := RemoveEntryAtIndex (ab_free b) i\<rparr>)
                else let reserved_block = SetByteSize 32 free_block block_size;
                         free_block = SetByteSize 32
                           (SetRangeBase free_block (GetRangeEnd reserved_block)) bytes_left
                     in (addr, b\<lparr>ab_reserved := Insert 32 (ab_reserved b) reserved_block False,
                                  ab_free := (ab_free b)[i := free_block]\<rparr>))"

definition FreeBlock :: "nat \<Rightarrow> allocated_block \<Rightarrow> bool \<times> allocated_block" where
  "FreeBlock addr b =
     (case FindEntryIndexThatContains (ab_reserved b) addr of
        None \<Rightarrow> (False, b)
      | Some entry_idx \<Rightarrow>
          (True, b\<lparr>ab_free := Insert 32 (ab_free b) (ab_reserved b ! entry_idx) True,
                   ab_reserved := RemoveEntryAtIndex (ab_reserved b) entry_idx\<rparr>))"

definition Contains_ab :: "allocated_block \<Rightarrow> nat \<Rightarrow> bool" where
  "Contains_ab b addr \<longleftrightarrow> Contains (ab_range b) addr"

section \<open>The invariant of a block\<close>

text \<open>Free and reserved ranges partition the block, on chunk boundaries.\<close>

definition chunked :: "allocated_block \<Rightarrow> range \<Rightarrow> bool" where
  "chunked b r \<longleftrightarrow>
     rg_base (ab_range b) \<le> rg_base r \<and>
     rg_base r + rg_size r \<le> rg_base (ab_range b) + rg_size (ab_range b) \<and>
     ab_chunk_size b dvd rg_size r"

definition block_ok :: "allocated_block \<Rightarrow> bool" where
  "block_ok b \<longleftrightarrow>
     range_ok (ab_range b) \<and> rg_size (ab_range b) < 2 ^ 32 \<and> 0 < ab_chunk_size b \<and>
     separated (ab_free b) \<and> separated (ab_reserved b) \<and>
     cells (ab_free b) \<inter> cells (ab_reserved b) = {} \<and>
     cells (ab_free b) \<union> cells (ab_reserved b) = cells_of (ab_range b) \<and>
     (\<forall>r \<in> set (ab_free b). chunked b r) \<and> (\<forall>r \<in> set (ab_reserved b). chunked b r)"

definition chunk_round :: "nat \<Rightarrow> nat \<Rightarrow> nat" where
  "chunk_round k n = (n + k - 1) div k * k"

lemma chunk_round:
  assumes "0 < k" "0 < n"
  shows "n \<le> chunk_round k n" "k dvd m \<Longrightarrow> n \<le> m \<Longrightarrow> chunk_round k n \<le> m" "k dvd chunk_round k n"
    "chunk_round k n < n + k"
proof -
  have e: "(n + k - 1) div k * k + (n + k - 1) mod k = n + k - 1"
    by (rule div_mult_mod_eq)
  have l: "(n + k - 1) mod k < k" using assms(1) by simp
  show "n \<le> chunk_round k n" "chunk_round k n < n + k"
    using e l assms unfolding chunk_round_def by linarith+
  show "k dvd chunk_round k n" by (simp add: chunk_round_def)
  assume "k dvd m" "n \<le> m"
  then obtain q where q: "m = k * q" by blast
  have "(n + k - 1) div k \<le> (k * q + (k - 1)) div k"
    using \<open>n \<le> m\<close> q assms by (intro div_le_mono) simp
  also have "\<dots> = q"
  proof -
    have "k * q + (k - 1) = k - 1 + q * k" by (simp add: mult.commute)
    moreover have "(k - 1 + q * k) div k = q + (k - 1) div k"
      using assms(1) by (intro div_mult_self1) simp
    ultimately show ?thesis using assms(1) by simp
  qed
  finally show "chunk_round k n \<le> m"
    by (simp add: chunk_round_def q mult.commute)
qed

lemma mergeable_chunked: "block_ok b \<Longrightarrow> mergeable 32 (chunked b)"
  by (auto simp: mergeable_def chunked_def block_ok_def range_ok_def)

lemma new_AllocatedBlock_ok:
  assumes "0 < byte_size" "byte_size < 2 ^ 32" "addr + byte_size < 2 ^ 64" "0 < chunk" "chunk dvd byte_size"
  shows "block_ok (new_AllocatedBlock addr byte_size permissions chunk)"
  using assms by (simp add: block_ok_def new_AllocatedBlock_def range_ok_def chunked_def Let_def)

lemma set_Insert_plain: "set (Insert w es r False) = insert r (set es)"
proof -
  have "set (take k es @ [r] @ drop k es) = insert r (set es)" for k
    by (metis Un_insert_right append_Cons append_Nil append_take_drop_id list.set(2) set_append)
  then show ?thesis
    by (simp add: Insert_def Let_def)
qed

lemma first_fit_Some:
  "first_fit es n = Some i \<Longrightarrow> i < length es \<and> n \<le> rg_size (es ! i)"
  using nth_length_takeWhile [of "\<lambda>e. rg_size e < n" es]
  by (auto simp: first_fit_def lower_bound_def Let_def split: if_splits)

lemma first_fit_None: "first_fit es n = None \<Longrightarrow> e \<in> set es \<Longrightarrow> rg_size e < n"
proof -
  assume "first_fit es n = None" "e \<in> set es"
  then have "length es \<le> length (takeWhile (\<lambda>e. rg_size e < n) es)"
    by (simp add: first_fit_def lower_bound_def Let_def split: if_splits)
  then have "takeWhile (\<lambda>e. rg_size e < n) es = es"
    by (metis le_antisym length_takeWhile_le takeWhile_eq_take take_all)
  with \<open>e \<in> set es\<close> show "rg_size e < n"
    by (metis set_takeWhileD)
qed

text \<open>Cutting the front off one range of a separated vector.\<close>

lemma cut_front:
  assumes "separated es" "i < length es" "0 < k" "k < rg_size (es ! i)"
  defines "f \<equiv> es ! i"
  defines "rest \<equiv> \<lparr>rg_base = rg_base f + k, rg_size = rg_size f - k\<rparr>"
  shows "separated (es[i := rest])"
    and "cells (es[i := rest]) = cells es - cells_of \<lparr>rg_base = rg_base f, rg_size = k\<rparr>"
    and "set (es[i := rest]) \<subseteq> insert rest (set es)"
proof -
  define xs ys where "xs = take i es" and "ys = drop (Suc i) es"
  have es: "es = xs @ f # ys" and i: "length xs = i"
    using assms(2) by (simp_all add: xs_def ys_def f_def id_take_nth_drop [symmetric])
  have upd: "es[i := rest] = xs @ rest # ys"
    using i by (subst es) (simp add: list_update_append)
  have sep: "separated (xs @ f # ys)"
    using assms(1) es by (simp only: es)
  have k: "k < rg_size f" using assms(4) by (simp add: f_def)
  have c: "cells_of rest = cells_of f - cells_of \<lparr>rg_base = rg_base f, rg_size = k\<rparr>"
      "cells_of \<lparr>rg_base = rg_base f, rg_size = k\<rparr> \<subseteq> cells_of f"
    using assms(3) k by (auto simp: rest_def cells_of_def)
  show "separated (es[i := rest])"
    unfolding upd using sep k assms(3) by (auto simp: rest_def before_def range_ok_def)
  have "cells (xs @ f # ys) = cells (xs @ ys) \<union> cells_of f" "cells (xs @ rest # ys) = cells (xs @ ys) \<union> cells_of rest"
    by auto
  then show "cells (es[i := rest]) = cells es - cells_of \<lparr>rg_base = rg_base f, rg_size = k\<rparr>"
    unfolding upd using separated_disjoint [OF sep] c by (simp only: es) blast
  show "set (es[i := rest]) \<subseteq> insert rest (set es)"
    by (simp add: set_update_subset_insert)
qed

section \<open>Reserving and freeing\<close>

lemma CalculateChunks_round:
  assumes "0 < n" "0 < ab_chunk_size b" "n + ab_chunk_size b \<le> 2 ^ 32"
  shows "CalculateChunksNeededForSize b n * ab_chunk_size b = chunk_round (ab_chunk_size b) n"
proof -
  have "(n + ab_chunk_size b + 2 ^ 32 - 1) mod 2 ^ 32 = n + ab_chunk_size b - 1"
  proof -
    have "n + ab_chunk_size b + 2 ^ 32 - 1 = (n + ab_chunk_size b - 1) + 2 ^ 32"
      using assms by simp
    moreover have "n + ab_chunk_size b - 1 < 2 ^ 32"
      using assms by simp
    ultimately show ?thesis by (simp only: mod_add_self2 mod_less)
  qed
  then show ?thesis
    by (simp add: CalculateChunksNeededForSize_def chunk_round_def)
qed

text \<open>The request as the code sees it: zero bytes count as one.\<close>

definition at_least_one :: "nat \<Rightarrow> nat" where
  "at_least_one n = (if n = 0 then 1 else n)"

lemma ReserveBlock_ok:
  assumes ok: "block_ok b" and fits: "at_least_one n + ab_chunk_size b \<le> 2 ^ 32"
    and res: "ReserveBlock n b = (addr, b')"
  shows "block_ok b' \<and> ab_range b' = ab_range b \<and> ab_chunk_size b' = ab_chunk_size b \<and>
    ab_permissions b' = ab_permissions b \<and>
    (if \<exists>f \<in> set (ab_free b). at_least_one n \<le> rg_size f
     then set (ab_reserved b') =
            insert \<lparr>rg_base = addr, rg_size = chunk_round (ab_chunk_size b) (at_least_one n)\<rparr> (set (ab_reserved b)) \<and>
          cells_of \<lparr>rg_base = addr, rg_size = chunk_round (ab_chunk_size b) (at_least_one n)\<rparr> \<subseteq> cells (ab_free b) \<and>
          addr \<noteq> LLDB_INVALID_ADDRESS
     else addr = LLDB_INVALID_ADDRESS \<and> b' = b)"
proof (cases "first_fit (ab_free b) (at_least_one n)")
  case None
  then have "\<not> (\<exists>f \<in> set (ab_free b). at_least_one n \<le> rg_size f)"
    using first_fit_None [OF None] by (auto simp: not_le)
  with None res ok show ?thesis
    by (simp add: ReserveBlock_def at_least_one_def [symmetric])
next
  case (Some i)
  let ?k = "ab_chunk_size b" and ?n = "at_least_one n"
  define f where "f = ab_free b ! i"
  define bs where "bs = chunk_round ?k ?n"
  have i: "i < length (ab_free b)" "?n \<le> rg_size f"
    using first_fit_Some [OF Some] by (simp_all add: f_def)
  have f: "f \<in> set (ab_free b)" using i by (simp add: f_def)
  have b: "range_ok (ab_range b)" "rg_size (ab_range b) < 2 ^ 32" "0 < ?k" "separated (ab_free b)"
      "separated (ab_reserved b)" "cells (ab_free b) \<inter> cells (ab_reserved b) = {}"
      "cells (ab_free b) \<union> cells (ab_reserved b) = cells_of (ab_range b)"
    and chunk: "\<forall>r \<in> set (ab_free b). chunked b r" "\<forall>r \<in> set (ab_reserved b). chunked b r"
    using ok by (simp_all add: block_ok_def)
  have fc: "chunked b f" "range_ok f"
    using chunk(1) f b(4) by (auto simp: separated_def)
  have n: "0 < ?n" by (simp add: at_least_one_def)
  have r: "?n \<le> bs" "bs \<le> rg_size f" "?k dvd bs"
    using chunk_round [OF b(3) n] fc(1) i(2) by (auto simp: bs_def chunked_def)
  have size: "rg_size f < 2 ^ 32"
    using fc(1) b(2) by (simp add: chunked_def)
  define used where "used = \<lparr>rg_base = rg_base f, rg_size = bs\<rparr>"
  have used_cells: "cells_of used \<subseteq> cells (ab_free b)"
    using f r(2) by (auto simp: used_def cells_def cells_of_def intro!: bexI [of _ f])
  have used: "range_ok used" "chunked b used" "cells (ab_reserved b) \<inter> cells_of used = {}"
    using r n fc b(6) used_cells by (auto simp: used_def range_ok_def chunked_def)
  have left: "(rg_size f + 2 ^ 64 - bs) mod 2 ^ 64 = rg_size f - bs"
  proof -
    have "rg_size f + 2 ^ 64 - bs = (rg_size f - bs) + 2 ^ 64" using r(2) by simp
    moreover have "rg_size f - bs < 2 ^ 64" using size by simp
    ultimately show ?thesis by (simp only: mod_add_self2 mod_less)
  qed
  have some: "\<exists>f \<in> set (ab_free b). ?n \<le> rg_size f" using f i(2) by blast
  have addr_ok: "rg_base f \<noteq> LLDB_INVALID_ADDRESS"
    using fc(2) by (auto simp: range_ok_def UINT64_MAX_def)
  define res' where "res' = Insert 32 (ab_reserved b) used False"
  have res': "separated res'" "cells res' = cells_of used \<union> cells (ab_reserved b)"
      "\<forall>r \<in> set res'. chunked b r" "set res' = insert used (set (ab_reserved b))"
    using Insert_cells [OF b(5) used(1,3) chunk(2) used(2) mergeable_chunked [OF ok], of False]
    by (simp_all add: res'_def same_cells_def set_Insert_plain)
  have blocks: "CalculateChunksNeededForSize b ?n * ?k = bs"
    using CalculateChunks_round [OF n b(3) fits] by (simp add: bs_def)
  show ?thesis
  proof (cases "bs = rg_size f")
    case True
    then have uf: "used = f" by (simp add: used_def)
    note rem = Remove_cells [OF b(4) i(1), folded f_def]
    have "addr = rg_base f" "b' = b\<lparr>ab_reserved := res', ab_free := RemoveEntryAtIndex (ab_free b) i\<rparr>"
      using res Some True left blocks uf
      by (simp_all add: ReserveBlock_def at_least_one_def [symmetric] f_def [symmetric] res'_def Let_def)
    moreover have "block_ok (b\<lparr>ab_reserved := res', ab_free := RemoveEntryAtIndex (ab_free b) i\<rparr>)"
      using b chunk res' rem used_cells uf by (auto simp: block_ok_def chunked_def)
    ultimately show ?thesis
      using some addr_ok res'(4) used_cells True uf by (simp add: used_def bs_def)
  next
    case False
    with r(2) have lt: "bs < rg_size f" by simp
    have pos: "0 < bs" using r(1) n by simp
    define rest where "rest = \<lparr>rg_base = rg_base f + bs, rg_size = rg_size f - bs\<rparr>"
    note cut = cut_front [OF b(4) i(1) pos, folded f_def, OF lt, folded rest_def used_def]
    have rest: "chunked b rest"
      using fc(1) r lt by (auto simp: rest_def chunked_def)
    have code: "SetByteSize 32 f bs = used" "SetByteSize 32 (SetRangeBase f (GetRangeEnd used)) (rg_size f - bs) = rest"
      using size lt fc(2) r(2) range_end [OF used(1)]
      by (simp_all add: SetByteSize_def SetRangeBase_def used_def rest_def)
    have "addr = rg_base f" "b' = b\<lparr>ab_reserved := res', ab_free := (ab_free b)[i := rest]\<rparr>"
      using res Some lt left blocks code
      by (simp_all add: ReserveBlock_def at_least_one_def [symmetric] f_def [symmetric] res'_def Let_def)
    moreover have "block_ok (b\<lparr>ab_reserved := res', ab_free := (ab_free b)[i := rest]\<rparr>)"
      using b chunk res' cut used_cells rest by (auto simp: block_ok_def chunked_def)
    ultimately show ?thesis
      using some addr_ok res'(4) used_cells by (simp add: used_def bs_def)
  qed
qed

lemma FreeBlock_ok:
  assumes ok: "block_ok b" and fr: "FreeBlock addr b = (success, b')"
  shows "block_ok b' \<and> ab_range b' = ab_range b \<and> ab_chunk_size b' = ab_chunk_size b \<and>
    ab_permissions b' = ab_permissions b \<and>
    (if success
     then \<exists>r \<in> set (ab_reserved b). addr \<in> cells_of r \<and> set (ab_reserved b') = set (ab_reserved b) - {r} \<and>
            cells (ab_free b') = cells (ab_free b) \<union> cells_of r
     else b' = b \<and> addr \<notin> cells (ab_reserved b))"
proof (cases "FindEntryIndexThatContains (ab_reserved b) addr")
  case None
  then show ?thesis
    using fr ok FindEntryIndexThatContains_None [of "ab_reserved b" addr]
    by (simp add: FreeBlock_def block_ok_def)
next
  case (Some i)
  have b: "separated (ab_free b)" "separated (ab_reserved b)" "cells (ab_free b) \<inter> cells (ab_reserved b) = {}"
    and chunk: "\<forall>r \<in> set (ab_free b). chunked b r" "\<forall>r \<in> set (ab_reserved b). chunked b r"
    using ok by (simp_all add: block_ok_def)
  define r where "r = ab_reserved b ! i"
  have i: "i < length (ab_reserved b)" "addr \<in> cells_of r"
    using Some FindEntryIndexThatContains_Some [OF b(2)] by (simp_all add: r_def)
  have mem: "r \<in> set (ab_reserved b)"
    using i(1) by (simp add: r_def)
  then have "cells_of r \<subseteq> cells (ab_reserved b)"
    by (auto simp: cells_def)
  with mem b chunk(2) have r: "r \<in> set (ab_reserved b)" "range_ok r" "chunked b r"
      "cells (ab_free b) \<inter> cells_of r = {}"
    by (auto simp: separated_def)
  note rem = Remove_cells [OF b(2) i(1), folded r_def]
  have ins: "same_cells (chunked b) (r # ab_free b) (Insert 32 (ab_free b) r True)"
    using r chunk(1) b(1) mergeable_chunked [OF ok] by (intro Insert_cells) auto
  have "success" "b' = b\<lparr>ab_free := Insert 32 (ab_free b) r True, ab_reserved := RemoveEntryAtIndex (ab_reserved b) i\<rparr>"
    using fr Some by (simp_all add: FreeBlock_def r_def)
  moreover have "cells_of r \<subseteq> cells (ab_reserved b)"
    using r(1) by (auto simp: cells_def)
  moreover from this have "block_ok (b\<lparr>ab_free := Insert 32 (ab_free b) r True, ab_reserved := RemoveEntryAtIndex (ab_reserved b) i\<rparr>)"
    using ok ins rem by (auto simp: block_ok_def same_cells_def chunked_def)
  ultimately show ?thesis
    using i(2) r(1) rem(3) ins by (auto simp: same_cells_def)
qed

section \<open>The cache of pages\<close>

text \<open>\<open>amc_map\<close> is the multimap from permissions to blocks, in its iteration order;
  \<open>amc_pages\<close> the pages the process has given out and not taken back.\<close>

record allocated_memory_cache =
  amc_map :: "(nat \<times> allocated_block) list"
  amc_pages :: "range list"

type_synonym page_source = "range list \<Rightarrow> nat \<Rightarrow> nat \<Rightarrow> nat"

definition empty_cache :: allocated_memory_cache where
  "empty_cache = \<lparr>amc_map = [], amc_pages = []\<rparr>"

definition Clear_amc :: "bool \<Rightarrow> allocated_memory_cache \<Rightarrow> allocated_memory_cache" where
  "Clear_amc alive s =
     \<lparr>amc_map = [],
      amc_pages = (if alive
        then filter (\<lambda>p. rg_base p \<notin> (\<lambda>(_, b). rg_base (ab_range b)) ` set (amc_map s)) (amc_pages s)
        else amc_pages s)\<rparr>"

text \<open>The position of the new block in the map, \<open>None\<close> if the process has no memory.\<close>

definition AllocatePage ::
  "page_source \<Rightarrow> nat \<Rightarrow> nat \<Rightarrow> nat \<Rightarrow> allocated_memory_cache \<Rightarrow> nat option \<times> allocated_memory_cache" where
  "AllocatePage env byte_size permissions chunk_size s =
     (let page_size = 4096;
          num_pages = (byte_size + page_size - 1) div page_size;
          page_byte_size = num_pages * page_size;
          addr = env (amc_pages s) page_byte_size permissions
      in if addr \<noteq> LLDB_INVALID_ADDRESS
         then let block = new_AllocatedBlock addr page_byte_size permissions chunk_size;
                  pos = lower_bound (\<lambda>e. fst e \<le> permissions) (amc_map s)
              in (Some pos,
                  s\<lparr>amc_map := take pos (amc_map s) @ [(permissions, block)] @ drop pos (amc_map s),
                    amc_pages := amc_pages s @ [\<lparr>rg_base = addr, rg_size = page_byte_size\<rparr>]\<rparr>)
         else (None, s))"

text \<open>The loop over the blocks with the permissions asked for.\<close>

fun try_reserve ::
  "nat \<Rightarrow> nat \<Rightarrow> (nat \<times> allocated_block) list \<Rightarrow> nat \<times> (nat \<times> allocated_block) list" where
  "try_reserve byte_size permissions [] = (LLDB_INVALID_ADDRESS, [])"
| "try_reserve byte_size permissions ((p, b) # bs) =
     (if p = permissions
      then let (addr, b) = ReserveBlock (byte_size mod 2 ^ 32) b
           in if addr \<noteq> LLDB_INVALID_ADDRESS then (addr, (p, b) # bs)
              else let (addr, bs) = try_reserve byte_size permissions bs in (addr, (p, b) # bs)
      else let (addr, bs) = try_reserve byte_size permissions bs in (addr, (p, b) # bs))"

definition AllocateMemory ::
  "page_source \<Rightarrow> nat \<Rightarrow> nat \<Rightarrow> allocated_memory_cache \<Rightarrow> nat \<times> allocated_memory_cache" where
  "AllocateMemory env byte_size permissions s =
     (let (addr, m) = try_reserve byte_size permissions (amc_map s);
          s = s\<lparr>amc_map := m\<rparr>
      in if addr = LLDB_INVALID_ADDRESS
         then case AllocatePage env (byte_size mod 2 ^ 32) permissions 16 s of
                (None, s) \<Rightarrow> (addr, s)
              | (Some pos, s) \<Rightarrow>
                  let (p, b) = amc_map s ! pos;
                      (addr, b) = ReserveBlock (byte_size mod 2 ^ 32) b
                  in (addr, s\<lparr>amc_map := (amc_map s)[pos := (p, b)]\<rparr>)
         else (addr, s))"

fun free_in :: "nat \<Rightarrow> (nat \<times> allocated_block) list \<Rightarrow> bool \<times> (nat \<times> allocated_block) list" where
  "free_in addr [] = (False, [])"
| "free_in addr ((p, b) # bs) =
     (if Contains_ab b addr
      then let (success, b) = FreeBlock addr b in (success, (p, b) # bs)
      else let (success, bs) = free_in addr bs in (success, (p, b) # bs))"

definition DeallocateMemory :: "nat \<Rightarrow> allocated_memory_cache \<Rightarrow> bool \<times> allocated_memory_cache" where
  "DeallocateMemory addr s =
     (let (success, m) = free_in addr (amc_map s) in (success, s\<lparr>amc_map := m\<rparr>))"

section \<open>The interface between the cache and its blocks\<close>

text \<open>What the cache needs to know of a block: the addresses it owns, the ranges that are in
  use, and a relation that its operations respect.\<close>

locale block_allocator =
  fixes ok :: "'b \<Rightarrow> bool"
    and span :: "'b \<Rightarrow> nat set"
    and live :: "'b \<Rightarrow> range set"
    and oper :: "'b \<Rightarrow> 'b \<Rightarrow> bool"
  assumes live_in_span: "ok b \<Longrightarrow> r \<in> live b \<Longrightarrow> cells_of r \<subseteq> span b"
    and live_apart: "ok b \<Longrightarrow> r \<in> live b \<Longrightarrow> r' \<in> live b \<Longrightarrow> r \<noteq> r' \<Longrightarrow> cells_of r \<inter> cells_of r' = {}"
    and oper_ok: "oper b b' \<Longrightarrow> ok b \<Longrightarrow> ok b'"
    and oper_span: "oper b b' \<Longrightarrow> ok b \<Longrightarrow> span b' = span b"
begin

text \<open>Blocks that own different addresses.\<close>

definition apart :: "'b list \<Rightarrow> bool" where
  "apart bs \<longleftrightarrow> sorted_wrt (\<lambda>b b'. span b \<inter> span b' = {}) bs \<and> (\<forall>b \<in> set bs. ok b)"

lemma apart_Cons:
  "apart (b # bs) \<longleftrightarrow> ok b \<and> (\<forall>b' \<in> set bs. span b \<inter> span b' = {}) \<and> apart bs"
  by (auto simp: apart_def)

lemma apart_append:
  "apart (xs @ ys) \<longleftrightarrow> apart xs \<and> apart ys \<and> (\<forall>x \<in> set xs. \<forall>y \<in> set ys. span x \<inter> span y = {})"
  by (auto simp: apart_def sorted_wrt_append)

lemma apart_oper: "apart (xs @ b # ys) \<Longrightarrow> oper b b' \<Longrightarrow> apart (xs @ b' # ys)"
  using oper_ok [of b b'] oper_span [of b b'] by (auto simp: apart_append apart_Cons)

lemma live_of_others:
  assumes "apart (xs @ b # ys)" "r \<in> live b'" "b' \<in> set (xs @ ys)"
  shows "cells_of r \<inter> span b = {}"
proof -
  have "span b \<inter> span b' = {}"
    using assms(1,3) by (auto simp: apart_append apart_Cons)
  moreover have "ok b'"
    using assms(1,3) by (auto simp: apart_def)
  ultimately show ?thesis
    using live_in_span [of b' r] assms(2) by blast
qed

lemma all_live_apart:
  assumes "apart bs" "b \<in> set bs" "b' \<in> set bs" "r \<in> live b" "r' \<in> live b'" "r \<noteq> r'"
  shows "cells_of r \<inter> cells_of r' = {}"
proof (cases "b = b'")
  case True
  then show ?thesis
    using assms live_apart [of b r r'] by (auto simp: apart_def)
next
  case False
  from assms(2) obtain xs ys where bs: "bs = xs @ b # ys"
    by (meson split_list)
  with False assms(3) have "b' \<in> set (xs @ ys)" by auto
  with live_of_others [of xs b ys r' b'] assms bs have "cells_of r' \<inter> span b = {}"
    by blast
  moreover have "cells_of r \<subseteq> span b"
    using assms live_in_span [of b r] by (auto simp: apart_def)
  ultimately show ?thesis by blast
qed

end

definition block_oper :: "allocated_block \<Rightarrow> allocated_block \<Rightarrow> bool" where
  "block_oper b b' \<longleftrightarrow>
     (\<exists>n. at_least_one n + ab_chunk_size b \<le> 2 ^ 32 \<and> b' = snd (ReserveBlock n b)) \<or>
     (\<exists>addr. b' = snd (FreeBlock addr b))"

lemma separated_pair:
  "separated es \<Longrightarrow> r \<in> set es \<Longrightarrow> r' \<in> set es \<Longrightarrow> r \<noteq> r' \<Longrightarrow> cells_of r \<inter> cells_of r' = {}"
proof (induction es)
  case Nil
  then show ?case by simp
next
  case (Cons e es)
  then show ?case
    using before_disjoint [of e] by auto
qed

interpretation blocks: block_allocator block_ok "\<lambda>b. cells_of (ab_range b)" "\<lambda>b. set (ab_reserved b)" block_oper
proof
  show "cells_of r \<subseteq> cells_of (ab_range b)" if "block_ok b" "r \<in> set (ab_reserved b)" for b r
    using that by (auto simp: block_ok_def cells_def)
  show "cells_of r \<inter> cells_of r' = {}"
    if "block_ok b" "r \<in> set (ab_reserved b)" "r' \<in> set (ab_reserved b)" "r \<noteq> r'" for b r r'
    using that separated_pair [of "ab_reserved b" r r'] by (simp add: block_ok_def)
  show "block_ok b'" if "block_oper b b'" "block_ok b" for b b'
    using that ReserveBlock_ok [OF that(2)] FreeBlock_ok [OF that(2)]
    by (metis block_oper_def prod.collapse)
  show "cells_of (ab_range b') = cells_of (ab_range b)" if "block_oper b b'" "block_ok b" for b b'
    using that ReserveBlock_ok [OF that(2)] FreeBlock_ok [OF that(2)]
    by (metis block_oper_def prod.collapse)
qed

section \<open>Allocations never overlap\<close>

definition live_in :: "(nat \<times> allocated_block) list \<Rightarrow> range set" where
  "live_in m = (\<Union>(p, b) \<in> set m. set (ab_reserved b))"

definition live_ranges :: "allocated_memory_cache \<Rightarrow> range set" where
  "live_ranges s = live_in (amc_map s)"

definition map_ok :: "(nat \<times> allocated_block) list \<Rightarrow> bool" where
  "map_ok m \<longleftrightarrow> blocks.apart (map snd m) \<and> (\<forall>b \<in> set (map snd m). ab_chunk_size b = 16)"

definition amc_ok :: "allocated_memory_cache \<Rightarrow> bool" where
  "amc_ok s \<longleftrightarrow> map_ok (amc_map s) \<and>
     (\<forall>(p, b) \<in> set (amc_map s). \<exists>g \<in> set (amc_pages s). cells_of (ab_range b) \<subseteq> cells_of g)"

text \<open>What the cache relies on: the process gives out pages that fit the address space and
  overlap none of those it has given out.\<close>

definition page_source_ok :: "page_source \<Rightarrow> bool" where
  "page_source_ok env \<longleftrightarrow> (\<forall>pages n permissions. env pages n permissions \<noteq> LLDB_INVALID_ADDRESS \<longrightarrow>
     env pages n permissions + n < 2 ^ 64 \<and>
     (\<forall>g \<in> set pages. cells_of \<lparr>rg_base = env pages n permissions, rg_size = n\<rparr> \<inter> cells_of g = {}))"

lemma map_ok_simps [simp]:
  "map_ok []"
  "map_ok ((p, b) # m) \<longleftrightarrow> block_ok b \<and> ab_chunk_size b = 16 \<and>
     (\<forall>b' \<in> set (map snd m). cells_of (ab_range b) \<inter> cells_of (ab_range b') = {}) \<and> map_ok m"
  "map_ok (xs @ ys) \<longleftrightarrow> map_ok xs \<and> map_ok ys \<and>
     (\<forall>x \<in> set (map snd xs). \<forall>y \<in> set (map snd ys). cells_of (ab_range x) \<inter> cells_of (ab_range y) = {})"
  by (auto simp: map_ok_def blocks.apart_Cons blocks.apart_append) (auto simp: blocks.apart_def)

lemma live_in_simps [simp]:
  "live_in [] = {}" "live_in ((p, b) # m) = set (ab_reserved b) \<union> live_in m"
  "live_in (xs @ ys) = live_in xs \<union> live_in ys"
  by (auto simp: live_in_def)

text \<open>A reservation in one of the blocks.\<close>

definition granted :: "nat \<Rightarrow> nat \<Rightarrow> range" where
  "granted addr n = \<lparr>rg_base = addr, rg_size = chunk_round 16 (at_least_one n)\<rparr>"

lemma reserve_in:
  assumes m: "map_ok (xs @ (p, b) # ys)" and n: "n + 17 \<le> 2 ^ 32"
    and res: "ReserveBlock n b = (addr, b')" "addr \<noteq> LLDB_INVALID_ADDRESS"
  shows "map_ok (xs @ (p, b') # ys)" "ab_range b' = ab_range b"
    and "live_in (xs @ (p, b') # ys) = insert (granted addr n) (live_in (xs @ (p, b) # ys))"
    and "\<forall>r \<in> live_in (xs @ (p, b) # ys). cells_of (granted addr n) \<inter> cells_of r = {}"
    and "cells_of (granted addr n) \<subseteq> cells_of (ab_range b)"
proof -
  have b: "block_ok b" "ab_chunk_size b = 16"
    using m by simp_all
  have fits: "at_least_one n + ab_chunk_size b \<le> 2 ^ 32"
    using n b(2) by (simp add: at_least_one_def)
  note r = ReserveBlock_ok [OF b(1) fits res(1)]
  have r': "set (ab_reserved b') = insert (granted addr n) (set (ab_reserved b))"
      "cells_of (granted addr n) \<subseteq> cells (ab_free b)" "block_ok b'" "ab_chunk_size b' = 16"
      "ab_range b' = ab_range b"
    using r res(2) b(2) by (auto simp: granted_def split: if_splits)
  show "ab_range b' = ab_range b" by (rule r'(5))
  show "map_ok (xs @ (p, b') # ys)"
    using m r' by simp
  show "live_in (xs @ (p, b') # ys) = insert (granted addr n) (live_in (xs @ (p, b) # ys))"
    using r'(1) by auto
  have free: "cells (ab_free b) \<inter> cells (ab_reserved b) = {}" "cells (ab_free b) \<subseteq> cells_of (ab_range b)"
    using b(1) by (auto simp: block_ok_def)
  show "cells_of (granted addr n) \<subseteq> cells_of (ab_range b)"
    using free(2) r'(2) by blast
  have "cells_of (granted addr n) \<inter> cells_of x = {}" if "x \<in> set (ab_reserved b)" for x
    using free(1) r'(2) that by (auto simp: cells_def)
  moreover have "cells_of (granted addr n) \<inter> cells_of x = {}" if "x \<in> live_in (xs @ ys)" for x
  proof -
    from that obtain q c where c: "(q, c) \<in> set (xs @ ys)" "x \<in> set (ab_reserved c)"
      by (auto simp: live_in_def)
    have "blocks.apart (map snd xs @ b # map snd ys)" using m by (simp add: map_ok_def)
    then have "cells_of x \<inter> cells_of (ab_range b) = {}"
      using c by (intro blocks.live_of_others [where b' = c]) force+
    with free(2) r'(2) show ?thesis by blast
  qed
  ultimately show "\<forall>r \<in> live_in (xs @ (p, b) # ys). cells_of (granted addr n) \<inter> cells_of r = {}"
    by auto
qed

lemma try_reserve_split:
  assumes "map_ok m" "byte_size + 17 \<le> 2 ^ 32" "try_reserve byte_size permissions m = (addr, m')"
  shows "if addr = LLDB_INVALID_ADDRESS then m' = m
    else \<exists>xs b ys b'. m = xs @ (permissions, b) # ys \<and> m' = xs @ (permissions, b') # ys \<and>
           ReserveBlock byte_size b = (addr, b')"
  using assms(1,3)
proof (induction m arbitrary: addr m')
  case Nil
  then show ?case by simp
next
  case (Cons e m)
  obtain p b where e: "e = (p, b)" by force
  obtain a c where rb: "ReserveBlock byte_size b = (a, c)" by force
  obtain a2 m2 where tr: "try_reserve byte_size permissions m = (a2, m2)" by force
  have b: "block_ok b" "ab_chunk_size b = 16" "map_ok m"
    using Cons.prems(1) e by simp_all
  have fits: "at_least_one byte_size + ab_chunk_size b \<le> 2 ^ 32"
    using assms(2) b(2) by (simp add: at_least_one_def)
  have small: "byte_size mod 2 ^ 32 = byte_size"
    using assms(2) by simp
  have same: "a = LLDB_INVALID_ADDRESS \<Longrightarrow> c = b"
    using ReserveBlock_ok [OF b(1) fits rb] by (auto split: if_splits)
  note IH = Cons.IH [OF b(3) tr]
  show ?case
  proof (cases "p = permissions \<and> a \<noteq> LLDB_INVALID_ADDRESS")
    case True
    then have "addr = a" "m' = (p, c) # m"
      using Cons.prems(2) e rb small by simp_all
    with True e rb have "e # m = [] @ (permissions, b) # m \<and> m' = [] @ (permissions, c) # m \<and>
        ReserveBlock byte_size b = (addr, c)"
      by simp
    then have "\<exists>xs b ys b'. e # m = xs @ (permissions, b) # ys \<and> m' = xs @ (permissions, b') # ys \<and>
        ReserveBlock byte_size b = (addr, b')"
      by blast
    then show ?thesis using True \<open>addr = a\<close> by simp
  next
    case False
    then have *: "addr = a2" "m' = (p, b) # m2"
      using Cons.prems(2) e rb tr small same by (auto split: if_splits)
    show ?thesis
    proof (cases "addr = LLDB_INVALID_ADDRESS")
      case True
      with IH * e show ?thesis by simp
    next
      case False
      with IH * obtain xs b1 ys b2 where "m = xs @ (permissions, b1) # ys" "m2 = xs @ (permissions, b2) # ys"
          "ReserveBlock byte_size b1 = (addr, b2)"
        by auto
      then have "e # m = (e # xs) @ (permissions, b1) # ys \<and> m' = (e # xs) @ (permissions, b2) # ys \<and>
          ReserveBlock byte_size b1 = (addr, b2)"
        using * e by simp
      with False show ?thesis by metis
    qed
  qed
qed

lemma pages_covered:
  assumes "amc_ok s" "(p, b) \<in> set (amc_map s)" "page_source_ok env"
    and "env (amc_pages s) n permissions \<noteq> LLDB_INVALID_ADDRESS"
  shows "cells_of \<lparr>rg_base = env (amc_pages s) n permissions, rg_size = n\<rparr> \<inter> cells_of (ab_range b) = {}"
  using assms by (fastforce simp: amc_ok_def page_source_ok_def)

lemma AllocateMemory_ok:
  assumes "amc_ok s" "page_source_ok env" "0 < byte_size" "byte_size + 4096 \<le> 2 ^ 32"
    and "AllocateMemory env byte_size permissions s = (addr, s')"
  shows "amc_ok s' \<and>
    (if addr = LLDB_INVALID_ADDRESS then live_ranges s' = live_ranges s
     else live_ranges s' = insert (granted addr byte_size) (live_ranges s) \<and>
          byte_size \<le> rg_size (granted addr byte_size) \<and>
          (\<forall>r \<in> live_ranges s. cells_of (granted addr byte_size) \<inter> cells_of r = {}))"
proof -
  have n: "byte_size + 17 \<le> 2 ^ 32" and small: "byte_size mod 2 ^ 32 = byte_size"
    using assms(4) by simp_all
  have big: "byte_size \<le> rg_size (granted a byte_size)" for a
    using chunk_round(1) [of 16 byte_size] assms(3) by (simp add: granted_def at_least_one_def)
  have ok: "map_ok (amc_map s)" using assms(1) by (simp add: amc_ok_def)
  obtain a m where tr: "try_reserve byte_size permissions (amc_map s) = (a, m)" by force
  note split = try_reserve_split [OF ok n tr]
  show ?thesis
  proof (cases "a = LLDB_INVALID_ADDRESS")
    case False
    with split obtain xs b ys b' where
      s: "amc_map s = xs @ (permissions, b) # ys" "m = xs @ (permissions, b') # ys"
        "ReserveBlock byte_size b = (a, b')"
      by auto
    have s': "addr = a" "s' = s\<lparr>amc_map := m\<rparr>"
      using assms(5) tr False by (simp_all add: AllocateMemory_def)
    note r = reserve_in [OF ok [unfolded s(1)] n s(3) False]
    have "amc_ok s'"
      using r(1,2) assms(1) s s' by (auto simp: amc_ok_def)
    moreover have "live_ranges s' = insert (granted a byte_size) (live_ranges s)"
      using r(3) s s' by (simp add: live_ranges_def)
    moreover have "\<forall>x \<in> live_ranges s. cells_of (granted a byte_size) \<inter> cells_of x = {}"
      using r(4) s(1) by (simp add: live_ranges_def)
    ultimately show ?thesis
      using False s'(1) big by simp
  next
    case True
    with split have m: "m = amc_map s" by simp
    define page where "page = (byte_size + 4096 - 1) div 4096 * 4096"
    define base where "base = env (amc_pages s) page permissions"
    have page: "byte_size \<le> page" "page < 2 ^ 32" "16 dvd page" "0 < page"
    proof -
      have round: "page = chunk_round 4096 byte_size"
        by (simp add: page_def chunk_round_def)
      show "byte_size \<le> page" "page < 2 ^ 32" "0 < page"
        using chunk_round(1,4) [of 4096 byte_size] assms(3,4) by (simp_all add: round)
      show "16 dvd page"
        using dvd_trans [of 16 4096 page] by (simp add: page_def)
    qed
    show ?thesis
    proof (cases "base = LLDB_INVALID_ADDRESS")
      case True
      have "AllocatePage env byte_size permissions 16 (s\<lparr>amc_map := m\<rparr>) = (None, s)"
        using True m by (simp add: AllocatePage_def base_def page_def Let_def)
      then have "addr = LLDB_INVALID_ADDRESS" "s' = s"
        using assms(5) tr \<open>a = LLDB_INVALID_ADDRESS\<close> small by (simp_all add: AllocateMemory_def)
      then show ?thesis using assms(1) by simp
    next
      case False
      let ?b = "new_AllocatedBlock base page permissions 16"
      have fresh: "base + page < 2 ^ 64"
        using assms(2) False by (auto simp: page_source_ok_def base_def)
      have b: "block_ok ?b" "ab_chunk_size ?b = 16" "ab_range ?b = \<lparr>rg_base = base, rg_size = page\<rparr>"
          "ab_reserved ?b = []" "ab_free ?b = [\<lparr>rg_base = base, rg_size = page\<rparr>]"
        using new_AllocatedBlock_ok [of page base 16 permissions] page fresh
        by (simp_all add: new_AllocatedBlock_def Let_def)
      define k where "k = lower_bound (\<lambda>e. fst e \<le> permissions) (amc_map s)"
      define xs ys where "xs = take k (amc_map s)" and "ys = drop k (amc_map s)"
      have k: "k \<le> length (amc_map s)"
        by (simp add: k_def lower_bound_def length_takeWhile_le)
      have xy: "amc_map s = xs @ ys" "length xs = k"
        using k by (simp_all add: xs_def ys_def)
      let ?s1 = "s\<lparr>amc_map := xs @ (permissions, ?b) # ys, amc_pages := amc_pages s @ [\<lparr>rg_base = base, rg_size = page\<rparr>]\<rparr>"
      have alloc: "AllocatePage env byte_size permissions 16 (s\<lparr>amc_map := m\<rparr>) = (Some k, ?s1)"
        using False m by (simp add: AllocatePage_def base_def page_def xs_def ys_def k_def Let_def)
      have far: "cells_of \<lparr>rg_base = base, rg_size = page\<rparr> \<inter> cells_of (ab_range c) = {}"
        if "(q, c) \<in> set (amc_map s)" for q c
        using pages_covered [OF assms(1) that assms(2)] False by (simp add: base_def)
      have ok1: "map_ok (xs @ (permissions, ?b) # ys)"
        using ok far b xy by (fastforce simp: Int_commute)
      obtain a' c where rb: "ReserveBlock byte_size ?b = (a', c)" by force
      have "AllocateMemory env byte_size permissions s = (a', ?s1\<lparr>amc_map := xs @ (permissions, c) # ys\<rparr>)"
        using tr \<open>a = LLDB_INVALID_ADDRESS\<close> small alloc xy(2) rb
        by (simp add: AllocateMemory_def nth_append list_update_append)
      then have s': "s' = ?s1\<lparr>amc_map := xs @ (permissions, c) # ys\<rparr>" and res: "ReserveBlock byte_size ?b = (addr, c)"
        using assms(5) rb by simp_all
      have addr: "addr \<noteq> LLDB_INVALID_ADDRESS"
        using ReserveBlock_ok [OF b(1) _ res] n b(2,5) page(1) assms(3)
        by (auto simp: at_least_one_def split: if_splits)
      note r = reserve_in [OF ok1 n res addr]
      have "amc_ok s'"
        using r(1,2) assms(1) xy(1) b(3) s' by (fastforce simp: amc_ok_def)
      moreover have "live_ranges s' = insert (granted addr byte_size) (live_ranges s)"
        using r(3) s' xy(1) b(4) by (simp add: live_ranges_def)
      moreover have "\<forall>x \<in> live_ranges s. cells_of (granted addr byte_size) \<inter> cells_of x = {}"
        using r(4) xy(1) by (auto simp: live_ranges_def)
      ultimately show ?thesis
        using addr big by simp
    qed
  qed
qed

lemma Contains_ab_iff: "block_ok b \<Longrightarrow> Contains_ab b addr \<longleftrightarrow> addr \<in> cells_of (ab_range b)"
  by (simp add: Contains_ab_def Contains_cells block_ok_def)

lemma live_in_span: "map_ok m \<Longrightarrow> r \<in> live_in m \<Longrightarrow> \<exists>(p, b) \<in> set m. r \<in> set (ab_reserved b) \<and> cells_of r \<subseteq> cells_of (ab_range b)"
  using blocks.live_in_span by (fastforce simp: live_in_def map_ok_def blocks.apart_def)

text \<open>A range of the block at hand is in no other block.\<close>

lemma live_elsewhere:
  assumes "map_ok ((p, b) # m)" "r \<in> set (ab_reserved b)" "r' \<in> live_in m"
  shows "cells_of r \<inter> cells_of r' = {}" "r \<noteq> r'"
proof -
  from live_in_span [of m r'] assms obtain q c where
    c: "(q, c) \<in> set m" "cells_of r' \<subseteq> cells_of (ab_range c)"
    by auto
  have "cells_of r \<subseteq> cells_of (ab_range b)"
    using assms(1,2) blocks.live_in_span [of b r] by simp
  moreover have "cells_of (ab_range b) \<inter> cells_of (ab_range c) = {}"
    using assms(1) c(1) by force
  ultimately show d: "cells_of r \<inter> cells_of r' = {}"
    using c(2) by blast
  have "range_ok r"
    using assms(1,2) by (simp add: block_ok_def separated_def)
  with d show "r \<noteq> r'"
    using cells_of_nonempty by blast
qed

lemma free_in_ok:
  assumes "map_ok m" "free_in addr m = (success, m')"
  shows "map_ok m' \<and> map (\<lambda>(p, b). (p, ab_range b)) m' = map (\<lambda>(p, b). (p, ab_range b)) m \<and>
    (if success then \<exists>r \<in> live_in m. addr \<in> cells_of r \<and> live_in m' = live_in m - {r}
     else m' = m \<and> (\<forall>r \<in> live_in m. addr \<notin> cells_of r))"
  using assms
proof (induction m arbitrary: m')
  case Nil
  then show ?case by simp
next
  case (Cons e m)
  obtain p b where e: "e = (p, b)" by force
  have b: "block_ok b" "ab_chunk_size b = 16" "map_ok m" and ok: "map_ok ((p, b) # m)"
    using Cons.prems(1) e by simp_all
  show ?case
  proof (cases "Contains_ab b addr")
    case True
    obtain c where fr: "FreeBlock addr b = (success, c)" and m': "m' = (p, c) # m"
      using Cons.prems(2) e True by (auto split: prod.splits)
    note f = FreeBlock_ok [OF b(1) fr]
    have ok': "map_ok ((p, c) # m)"
      using ok f by simp
    have out: "addr \<notin> cells_of r" if "r \<in> live_in m" for r
    proof -
      from live_in_span [OF b(3) that] obtain q d where
        d: "(q, d) \<in> set m" "cells_of r \<subseteq> cells_of (ab_range d)" by auto
      have "cells_of (ab_range b) \<inter> cells_of (ab_range d) = {}"
        using ok d(1) by force
      with True d(2) b(1) show ?thesis by (auto simp: Contains_ab_iff)
    qed
    show ?thesis
    proof (cases success)
      case True
      with f obtain r where r: "r \<in> set (ab_reserved b)" "addr \<in> cells_of r"
          "set (ab_reserved c) = set (ab_reserved b) - {r}" by auto
      have "r \<notin> live_in m"
        using live_elsewhere(2) [OF ok r(1)] by blast
      with r have "live_in m' = live_in (e # m) - {r}" "r \<in> live_in (e # m)"
        by (auto simp: m' e)
      with True r(2) ok' f show ?thesis by (auto simp: m' e)
    next
      case False
      with f out have "\<forall>r \<in> live_in (e # m). addr \<notin> cells_of r"
        by (auto simp: e cells_def)
      with False f ok show ?thesis by (auto simp: m' e)
    qed
  next
    case False
    obtain m2 where fr: "free_in addr m = (success, m2)" and m': "m' = (p, b) # m2"
      using Cons.prems(2) e False by (auto split: prod.splits)
    note IH = Cons.IH [OF b(3) fr]
    have ranges: "ab_range ` set (map snd m2) = ab_range ` set (map snd m)"
    proof -
      have e: "map (\<lambda>(p, b). (p, ab_range b)) m2 = map (\<lambda>(p, b). (p, ab_range b)) m"
        using IH by blast
      have "map ab_range (map snd m2) = map snd (map (\<lambda>(p, b). (p, ab_range b)) m2)"
        by (simp add: split_beta)
      also have "\<dots> = map ab_range (map snd m)"
        unfolding e by (simp add: split_beta)
      finally show ?thesis by (metis list.set_map)
    qed
    have "map_ok m'"
    proof -
      have "\<forall>g \<in> ab_range ` set (map snd m). cells_of (ab_range b) \<inter> cells_of g = {}"
        using ok by auto
      then have "\<forall>g \<in> ab_range ` set (map snd m2). cells_of (ab_range b) \<inter> cells_of g = {}"
        by (simp only: ranges)
      then show ?thesis using IH b by (simp add: m')
    qed
    moreover have out: "addr \<notin> cells_of r" if "r \<in> set (ab_reserved b)" for r
      using blocks.live_in_span [OF b(1) that] False b(1) by (auto simp: Contains_ab_iff)
    ultimately show ?thesis
    proof (cases success)
      case True
      with IH obtain r where r: "r \<in> live_in m" "addr \<in> cells_of r" "live_in m2 = live_in m - {r}" by auto
      have "r \<notin> set (ab_reserved b)"
        using live_elsewhere(2) [OF ok _ r(1)] by blast
      with r have "live_in m' = live_in (e # m) - {r}" "r \<in> live_in (e # m)"
        by (auto simp: m' e)
      with True r(2) \<open>map_ok m'\<close> IH show ?thesis by (auto simp: m' e)
    next
      case False
      with IH out \<open>map_ok m'\<close> show ?thesis by (auto simp: m' e)
    qed
  qed
qed

lemma DeallocateMemory_ok:
  assumes "amc_ok s" "DeallocateMemory addr s = (success, s')"
  shows "amc_ok s' \<and>
    (if success then \<exists>r \<in> live_ranges s. addr \<in> cells_of r \<and> live_ranges s' = live_ranges s - {r}
     else s' = s \<and> (\<forall>r \<in> live_ranges s. addr \<notin> cells_of r))"
proof -
  obtain m where m: "free_in addr (amc_map s) = (success, m)" "s' = s\<lparr>amc_map := m\<rparr>"
    using assms(2) by (auto simp: DeallocateMemory_def split: prod.splits)
  note f = free_in_ok [OF _ m(1)]
  have ok: "map_ok (amc_map s)" using assms(1) by (simp add: amc_ok_def)
  have "\<exists>g \<in> set (amc_pages s). cells_of (ab_range b) \<subseteq> cells_of g" if "(p, b) \<in> set m" for p b
  proof -
    have "(p, ab_range b) \<in> set (map (\<lambda>(p, b). (p, ab_range b)) m)"
      using that by force
    then have "(p, ab_range b) \<in> set (map (\<lambda>(p, b). (p, ab_range b)) (amc_map s))"
      using f [OF ok] by simp
    then obtain c where c: "(p, c) \<in> set (amc_map s)" "ab_range c = ab_range b" by auto
    have "\<forall>(p, b) \<in> set (amc_map s). \<exists>g \<in> set (amc_pages s). cells_of (ab_range b) \<subseteq> cells_of g"
      using assms(1) by (simp add: amc_ok_def)
    from bspec [OF this c(1)] show ?thesis by (simp add: c(2))
  qed
  then show ?thesis
    using f [OF ok] m(2) by (auto simp: amc_ok_def live_ranges_def)
qed

text \<open>Everything that can happen to the cache of a process.\<close>

inductive amc_reachable :: "page_source \<Rightarrow> allocated_memory_cache \<Rightarrow> bool" for env where
  start: "amc_reachable env empty_cache"
| allocate: "amc_reachable env s \<Longrightarrow> 0 < n \<Longrightarrow> n + 4096 \<le> 2 ^ 32 \<Longrightarrow>
    amc_reachable env (snd (AllocateMemory env n permissions s))"
| deallocate: "amc_reachable env s \<Longrightarrow> amc_reachable env (snd (DeallocateMemory addr s))"
| clear: "amc_reachable env s \<Longrightarrow> amc_reachable env (Clear_amc alive s)"

lemma amc_reachable_ok: "amc_reachable env s \<Longrightarrow> page_source_ok env \<Longrightarrow> amc_ok s"
proof (induction rule: amc_reachable.induct)
  case start
  then show ?case by (simp add: amc_ok_def empty_cache_def)
next
  case (allocate s n permissions)
  then show ?case
    using AllocateMemory_ok [of s env n permissions] by (cases "AllocateMemory env n permissions s") simp
next
  case (deallocate s addr)
  then show ?case
    using DeallocateMemory_ok [of s addr] by (cases "DeallocateMemory addr s") simp
next
  case (clear s alive)
  then show ?case by (simp add: amc_ok_def Clear_amc_def)
qed

text \<open>C13: In every reachable state of the allocation cache no two ranges in use overlap, within a
  page or across pages.\<close>

theorem live_ranges_disjoint:
  assumes "amc_reachable env s" "page_source_ok env"
    and "r \<in> live_ranges s" "r' \<in> live_ranges s" "r \<noteq> r'"
  shows "cells_of r \<inter> cells_of r' = {}"
proof -
  have "map_ok (amc_map s)"
    using amc_reachable_ok [OF assms(1,2)] by (simp add: amc_ok_def)
  then show ?thesis
    using assms(3-5) blocks.all_live_apart [of "map snd (amc_map s)"]
    by (fastforce simp: live_ranges_def live_in_def map_ok_def)
qed

text \<open>C26: In every state that allocations, deallocations and clearing can lead to, an allocation
  of n bytes that succeeds adds exactly one range in use, at the address it returns, of at
  least n bytes, and overlapping nothing that was in use before.\<close>

theorem AllocateMemory_fresh:
  assumes "amc_reachable env s" "page_source_ok env" "0 < n" "n + 4096 \<le> 2 ^ 32"
    and "AllocateMemory env n permissions s = (addr, s')" "addr \<noteq> LLDB_INVALID_ADDRESS"
  shows "live_ranges s' = insert (granted addr n) (live_ranges s) \<and>
    n \<le> rg_size (granted addr n) \<and>
    (\<forall>r \<in> live_ranges s. cells_of (granted addr n) \<inter> cells_of r = {})"
  using AllocateMemory_ok [OF amc_reachable_ok [OF assms(1,2)] assms(2-5)] assms(6) by simp

text \<open>C27: Deallocating any address inside a range in use of a reachable state succeeds, and takes
  exactly that range out of use.\<close>

theorem DeallocateMemory_frees:
  assumes "amc_reachable env s" "page_source_ok env" "r \<in> live_ranges s" "addr \<in> cells_of r"
  shows "fst (DeallocateMemory addr s) \<and> live_ranges (snd (DeallocateMemory addr s)) = live_ranges s - {r}"
proof -
  obtain success s' where d: "DeallocateMemory addr s = (success, s')" by force
  note ok = amc_reachable_ok [OF assms(1,2)]
  note f = DeallocateMemory_ok [OF ok d]
  then have success using assms(3,4) by (auto split: if_splits)
  with f obtain x where x: "x \<in> live_ranges s" "addr \<in> cells_of x" "live_ranges s' = live_ranges s - {x}"
    by auto
  have "map_ok (amc_map s)"
    using ok by (simp add: amc_ok_def)
  then have "cells_of r \<inter> cells_of x = {}" if "r \<noteq> x"
    using assms(3) x(1) that blocks.all_live_apart [of "map snd (amc_map s)"]
    by (fastforce simp: live_ranges_def live_in_def map_ok_def)
  with x assms(4) have "x = r" by blast
  with x \<open>success\<close> d show ?thesis by simp
qed

text \<open>A size of \<open>2 ^ 32\<close> bytes or more is cut to 32 bits on the way to the block, so far less
  memory is reserved than was asked for; and a request for no bytes on an empty cache asks the
  process for an empty page.\<close>

lemma AllocateMemory_truncates: "AllocateMemory env (n + 2 ^ 32) permissions s = AllocateMemory env n permissions s"
proof -
  have "try_reserve (n + 2 ^ 32) permissions m = try_reserve n permissions m" for m
    by (induction m) (auto simp: split_beta)
  moreover have "(n + 2 ^ 32) mod 2 ^ 32 = n mod 2 ^ 32" by (rule mod_add_self2)
  ultimately show ?thesis
    by (simp only: AllocateMemory_def)
qed

lemma AllocateMemory_nothing:
  assumes "env [] 0 permissions = addr" "addr \<noteq> LLDB_INVALID_ADDRESS"
  shows "fst (AllocateMemory env 0 permissions empty_cache) = LLDB_INVALID_ADDRESS"
  using assms
  by (simp add: AllocateMemory_def empty_cache_def AllocatePage_def lower_bound_def
      ReserveBlock_def first_fit_def new_AllocatedBlock_def Let_def)

section \<open>Concrete inputs\<close>

definition demo_pages :: page_source where
  "demo_pages pages n permissions =
     (let a = Max (insert 4096 ((\<lambda>g. rg_base g + rg_size g) ` set pages))
      in if a + n < 2 ^ 63 then a else LLDB_INVALID_ADDRESS)"

lemma demo_pages_ok: "page_source_ok demo_pages"
proof -
  have "cells_of \<lparr>rg_base = Max (insert 4096 ((\<lambda>g. rg_base g + rg_size g) ` set pages)), rg_size = n\<rparr> \<inter> cells_of g = {}"
    if "g \<in> set pages" for pages n g
  proof -
    have "rg_base g + rg_size g \<le> Max (insert 4096 ((\<lambda>g. rg_base g + rg_size g) ` set pages))"
      using that by (intro Max_ge) auto
    then show ?thesis by (auto simp: cells_of_def)
  qed
  then show ?thesis
    by (auto simp: page_source_ok_def demo_pages_def Let_def)
qed

lemma demo_first:
  "AllocateMemory demo_pages 20 3 empty_cache = (4096, snd (AllocateMemory demo_pages 20 3 empty_cache))"
  by (simp add: AllocateMemory_def empty_cache_def AllocatePage_def lower_bound_def demo_pages_def
      ReserveBlock_def first_fit_def new_AllocatedBlock_def UINT64_MAX_def
      CalculateChunksNeededForSize_def Let_def)

theorem AllocateMemory_fresh_witness:
  "live_ranges (snd (AllocateMemory demo_pages 20 3 empty_cache)) = {\<lparr>rg_base = 4096, rg_size = 32\<rparr>}"
  using AllocateMemory_fresh [OF amc_reachable.start demo_pages_ok, of 20 3 4096] demo_first
  by (simp add: granted_def at_least_one_def chunk_round_def live_ranges_def empty_cache_def UINT64_MAX_def)

lemma demo_live:
  "\<lparr>rg_base = 4096, rg_size = 32\<rparr> \<in> live_ranges (snd (AllocateMemory demo_pages 20 3 empty_cache))"
  by (simp add: AllocateMemory_def empty_cache_def AllocatePage_def lower_bound_def demo_pages_def
      ReserveBlock_def first_fit_def new_AllocatedBlock_def UINT64_MAX_def SetByteSize_def Insert_def
      CalculateChunksNeededForSize_def live_ranges_def Let_def)

lemma demo_reachable: "amc_reachable demo_pages (snd (AllocateMemory demo_pages 20 3 empty_cache))"
  by (rule amc_reachable.allocate [OF amc_reachable.start]) simp_all

theorem DeallocateMemory_frees_witness:
  "fst (DeallocateMemory 4100 (snd (AllocateMemory demo_pages 20 3 empty_cache)))"
  using DeallocateMemory_frees [OF demo_reachable demo_pages_ok demo_live, of 4100]
  by (simp add: cells_of_def)

definition demo_two :: allocated_memory_cache where
  "demo_two = snd (AllocateMemory demo_pages 40 3 (snd (AllocateMemory demo_pages 20 3 empty_cache)))"

lemma demo_two_live:
  "\<lparr>rg_base = 4096, rg_size = 32\<rparr> \<in> live_ranges demo_two" "\<lparr>rg_base = 4128, rg_size = 48\<rparr> \<in> live_ranges demo_two"
  by (simp_all add: demo_two_def AllocateMemory_def empty_cache_def AllocatePage_def lower_bound_def demo_pages_def
      ReserveBlock_def first_fit_def new_AllocatedBlock_def UINT64_MAX_def SetByteSize_def Insert_def
      CalculateChunksNeededForSize_def live_ranges_def Let_def SetRangeBase_def GetRangeEnd_def range_less_def)

theorem live_ranges_disjoint_witness:
  "cells_of \<lparr>rg_base = 4096, rg_size = 32\<rparr> \<inter> cells_of \<lparr>rg_base = 4128, rg_size = 48\<rparr> = {}"
proof -
  have "amc_reachable demo_pages demo_two"
    unfolding demo_two_def by (rule amc_reachable.allocate [OF demo_reachable]) simp_all
  from live_ranges_disjoint [OF this demo_pages_ok demo_two_live] show ?thesis by simp
qed

end
