(* ===== verification/MemoryCache.thy ===== *)
theory MemoryCache
  imports RangeMap
begin

text \<open>
  The cache of memory read from the process (\<open>MemoryCache\<close>, source/Target/Memory.cpp): chunks
  of any size (L1), lines of a fixed size (L2) and ranges known to be unreadable.

  A \<open>std::map\<close> is the list of its entries in key order. The process is a parameter that
  returns the bytes it could read and the error it reports. A result of \<open>None\<close> is a copy from
  outside a buffer, or a read that does not end. Addresses are computed modulo \<open>2 ^ 64\<close>.
\<close>

section \<open>The object\<close>

type_synonym block_map = "(nat \<times> u8 list) list"

datatype mem_error = MemoryReadFailed nat | InferiorError string

type_synonym inferior = "nat \<Rightarrow> nat \<Rightarrow> u8 list \<times> mem_error option"

record memory_cache =
  mc_L1 :: block_map
  mc_L2 :: block_map
  mc_invalid_ranges :: "range list"
  mc_line :: nat

definition chunk_range :: "nat \<times> u8 list \<Rightarrow> range" where
  "chunk_range e = \<lparr>rg_base = fst e, rg_size = length (snd e)\<rparr>"

definition Clear_mc :: "nat \<Rightarrow> bool \<Rightarrow> memory_cache \<Rightarrow> memory_cache" where
  "Clear_mc line_size clear_invalid_ranges c =
     c\<lparr>mc_L1 := [], mc_L2 := [],
       mc_invalid_ranges := (if clear_invalid_ranges then [] else mc_invalid_ranges c),
       mc_line := line_size\<rparr>"

definition AddL1CacheData :: "nat \<Rightarrow> u8 list \<Rightarrow> memory_cache \<Rightarrow> memory_cache" where
  "AddL1CacheData addr data c = c\<lparr>mc_L1 := map_put addr data (mc_L1 c)\<rparr>"

section \<open>Flushing\<close>

text \<open>The chunks from \<open>pos\<close> on that intersect the range, up to the first that does not.\<close>

definition flush_L1 :: "nat \<Rightarrow> nat \<Rightarrow> block_map \<Rightarrow> block_map" where
  "flush_L1 addr n m =
     (let flush_range = \<lparr>rg_base = addr, rg_size = n\<rparr>;
          pos = map_upper_bound addr m;
          pos = (if pos \<noteq> 0 then pos - 1 else pos)
      in take pos m @ dropWhile (\<lambda>e. DoesIntersect (chunk_range e) flush_range) (drop pos m))"

definition flush_L2 :: "nat \<Rightarrow> nat \<Rightarrow> nat \<Rightarrow> block_map \<Rightarrow> block_map" where
  "flush_L2 line addr n m =
     (let end_addr = (addr + n + 2 ^ 64 - 1) mod 2 ^ 64;
          first_cache_line_addr = addr - addr mod line;
          last_cache_line_addr = end_addr - end_addr mod line;
          num_cache_lines =
            (if last_cache_line_addr \<ge> first_cache_line_addr
             then (last_cache_line_addr - first_cache_line_addr) div line + 1
             else (UINT64_MAX - first_cache_line_addr + 1) mod 2 ^ 64 div line) mod 2 ^ 32
      in fold (\<lambda>i. map_erase ((first_cache_line_addr + i * line) mod 2 ^ 64)) [0..<num_cache_lines] m)"

definition Flush :: "nat \<Rightarrow> nat \<Rightarrow> memory_cache \<Rightarrow> memory_cache" where
  "Flush addr n c =
     (if n = 0 then c
      else let c = (if mc_L1 c \<noteq> [] then c\<lparr>mc_L1 := flush_L1 addr n (mc_L1 c)\<rparr> else c)
           in if mc_L2 c \<noteq> [] then c\<lparr>mc_L2 := flush_L2 (mc_line c) addr n (mc_L2 c)\<rparr> else c)"

section \<open>Unreadable ranges\<close>

text \<open>\<open>std::stable_sort\<close> after an append to a sorted array puts the new entry behind the
  entries that are not greater.\<close>

definition AddInvalidRange :: "nat \<Rightarrow> nat \<Rightarrow> memory_cache \<Rightarrow> memory_cache" where
  "AddInvalidRange base_addr byte_sz c =
     (if byte_sz > 0
      then let r = \<lparr>rg_base = base_addr, rg_size = byte_sz\<rparr>;
               rs = mc_invalid_ranges c
           in c\<lparr>mc_invalid_ranges := takeWhile (\<lambda>e. \<not> range_less r e) rs @ r # dropWhile (\<lambda>e. \<not> range_less r e) rs\<rparr>
      else c)"

definition RemoveInvalidRange :: "nat \<Rightarrow> nat \<Rightarrow> memory_cache \<Rightarrow> bool \<times> memory_cache" where
  "RemoveInvalidRange base_addr byte_sz c =
     (if byte_sz > 0
      then case FindEntryIndexThatContains (mc_invalid_ranges c) base_addr of
             None \<Rightarrow> (False, c)
           | Some idx \<Rightarrow>
               let entry = mc_invalid_ranges c ! idx
               in if rg_base entry = base_addr \<and> rg_size entry = byte_sz
                  then (True, c\<lparr>mc_invalid_ranges := RemoveEntryAtIndex (mc_invalid_ranges c) idx\<rparr>)
                  else (False, c)
      else (False, c))"

section \<open>Reading\<close>

text \<open>\<open>memcpy\<close> of \<open>n\<close> bytes at an offset of a buffer.\<close>

definition copy_from :: "u8 list \<Rightarrow> nat \<Rightarrow> nat \<Rightarrow> u8 list option" where
  "copy_from buf offset n =
     (if offset + n \<le> length buf then Some (take n (drop offset buf)) else None)"

text \<open>The lines that follow a hit: the bytes, where the cursor is, what is left, and whether a
  short line ends the read.\<close>

fun sequential_hits ::
  "nat \<Rightarrow> block_map \<Rightarrow> nat \<Rightarrow> nat \<Rightarrow> u8 list \<times> nat \<times> nat \<times> bool" where
  "sequential_hits line [] curr_addr bytes_left = ([], curr_addr, bytes_left, False)"
| "sequential_hits line ((a, d) # m) curr_addr bytes_left =
     (if bytes_left = 0 \<or> a \<noteq> curr_addr then ([], curr_addr, bytes_left, False)
      else let n = min (length d) bytes_left;
               curr_addr = (curr_addr + n) mod 2 ^ 64;
               bytes_left = bytes_left - n
           in if length d \<noteq> line then (take n d, curr_addr, bytes_left, True)
              else let (bs, r) = sequential_hits line m curr_addr bytes_left in (take n d @ bs, r))"

text \<open>What the cache lines at the cursor give: the bytes, the cursor, what is left, the offset
  in the line, and whether the read is over.\<close>

definition line_hits ::
  "nat \<Rightarrow> block_map \<Rightarrow> nat \<Rightarrow> nat \<Rightarrow> nat \<Rightarrow> (u8 list \<times> nat \<times> nat \<times> nat \<times> bool) option" where
  "line_hits line m curr_addr cache_offset bytes_left =
     (case map_of m curr_addr of
        None \<Rightarrow> Some ([], curr_addr, bytes_left, cache_offset, False)
      | Some d \<Rightarrow>
          let n = min (line - cache_offset) bytes_left
          in do {
               bs \<leftarrow> copy_from d cache_offset n;
               let curr_addr' = (curr_addr + n + cache_offset) mod 2 ^ 64;
                   bytes_left = bytes_left - n;
                   after = drop 1 (dropWhile (\<lambda>e. fst e \<noteq> curr_addr) m);
                   (bs', curr_addr', bytes_left, short) = sequential_hits line after curr_addr' bytes_left
               in Some (bs @ bs', curr_addr', bytes_left, 0, short) })"

partial_function (option) read_loop ::
  "inferior \<Rightarrow> nat \<Rightarrow> range list \<Rightarrow> block_map \<Rightarrow> nat \<Rightarrow> nat \<Rightarrow> nat \<Rightarrow> u8 list \<Rightarrow> mem_error option \<Rightarrow>
   (u8 list \<times> mem_error option \<times> block_map) option" where
  "read_loop proc line invalid m curr_addr cache_offset bytes_left dst error =
     (if bytes_left = 0 then Some (dst, error, m)
      else if FindEntryIndexThatContains invalid curr_addr \<noteq> None
      then Some (dst, Some (MemoryReadFailed curr_addr), m)
      else line_hits line m curr_addr cache_offset bytes_left \<bind>
        (\<lambda>(bs, curr_addr, bytes_left, cache_offset, short).
          if short \<or> bytes_left = 0 then Some (dst @ bs, error, m)
          else case proc curr_addr line of
                 (data, error) \<Rightarrow>
                   if data = [] then Some (dst @ bs, error, m)
                   else read_loop proc line invalid (map_put curr_addr data m) curr_addr cache_offset
                          bytes_left (dst @ bs) error))"

text \<open>The L1 lookup: the last chunk at or below the address, if any, else the first. \<open>None\<close> when
  that chunk does not hold the whole range.\<close>

definition read_L1 :: "block_map \<Rightarrow> nat \<Rightarrow> nat \<Rightarrow> u8 list option option" where
  "read_L1 m addr dst_len =
     (if m = [] then None
      else let pos = map_upper_bound addr m;
               pos = (if pos \<noteq> 0 then pos - 1 else pos);
               e = m ! pos
           in if Contains_range (chunk_range e) \<lparr>rg_base = addr, rg_size = dst_len\<rparr>
              then Some (copy_from (snd e) (addr - fst e) dst_len)
              else None)"

definition Read ::
  "inferior \<Rightarrow> nat \<Rightarrow> nat \<Rightarrow> memory_cache \<Rightarrow> (u8 list \<times> mem_error option \<times> memory_cache) option" where
  "Read proc addr dst_len c =
     (case read_L1 (mc_L1 c) addr dst_len of
        Some copied \<Rightarrow> do { bs \<leftarrow> copied; Some (bs, None, c) }
      | None \<Rightarrow>
          if dst_len > mc_line c
          then (case proc addr dst_len of
                  (bs, error) \<Rightarrow> Some (bs, error, if bs \<noteq> [] then AddL1CacheData addr bs c else c))
          else if dst_len > 0
          then read_loop proc (mc_line c) (mc_invalid_ranges c) (mc_L2 c) (addr - addr mod mc_line c)
                 (addr mod mc_line c) dst_len [] None \<bind>
               (\<lambda>(bs, error, m). Some (bs, error, c\<lparr>mc_L2 := m\<rparr>))
          else Some ([], None, c))"

section \<open>Reads return what the memory holds\<close>

definition mem_slice :: "(nat \<Rightarrow> u8) \<Rightarrow> nat \<Rightarrow> nat \<Rightarrow> u8 list" where
  "mem_slice mem a n = map mem [a..<a + n]"

text \<open>A process whose memory can be read everywhere.\<close>

definition reads_all :: "(nat \<Rightarrow> u8) \<Rightarrow> inferior \<Rightarrow> bool" where
  "reads_all mem proc \<longleftrightarrow> (\<forall>a n. proc a n = (mem_slice mem a n, None))"

text \<open>A process whose memory can be read below a limit.\<close>

definition reads_below :: "nat \<Rightarrow> (nat \<Rightarrow> u8) \<Rightarrow> inferior \<Rightarrow> bool" where
  "reads_below lim mem proc \<longleftrightarrow> (\<forall>a n. a + n < lim \<longrightarrow> proc a n = (mem_slice mem a n, None))"

definition lines_ok :: "(nat \<Rightarrow> u8) \<Rightarrow> nat \<Rightarrow> block_map \<Rightarrow> bool" where
  "lines_ok mem line m \<longleftrightarrow> (\<forall>(a, d) \<in> set m. line dvd a \<and> d = mem_slice mem a line)"

definition chunks_ok :: "(nat \<Rightarrow> u8) \<Rightarrow> block_map \<Rightarrow> bool" where
  "chunks_ok mem m \<longleftrightarrow> (\<forall>(a, d) \<in> set m. d = mem_slice mem a (length d) \<and> a + length d < 2 ^ 64)"

definition cache_ok :: "(nat \<Rightarrow> u8) \<Rightarrow> memory_cache \<Rightarrow> bool" where
  "cache_ok mem c \<longleftrightarrow> 0 < mc_line c \<and> chunks_ok mem (mc_L1 c) \<and> lines_ok mem (mc_line c) (mc_L2 c)"

named_theorems slices "evaluation of slices of memory"

lemma length_mem_slice [slices, simp]: "length (mem_slice mem a n) = n"
  by (simp add: mem_slice_def)

lemma take_mem_slice [slices]: "k \<le> n \<Longrightarrow> take k (mem_slice mem a n) = mem_slice mem a k"
  by (simp add: mem_slice_def take_map)

lemma drop_mem_slice [slices]: "k \<le> n \<Longrightarrow> drop k (mem_slice mem a n) = mem_slice mem (a + k) (n - k)"
  by (simp add: mem_slice_def drop_map)

lemma mem_slice_append: "mem_slice mem a n @ mem_slice mem (a + n) k = mem_slice mem a (n + k)"
  using upt_add_eq_append [of a "a + n" k] by (simp add: mem_slice_def add.assoc)

lemma mem_slice_0 [slices, simp]: "mem_slice mem a 0 = []"
  by (simp add: mem_slice_def)

lemma lines_ok_Cons: "lines_ok mem line ((a, d) # m) \<longleftrightarrow> line dvd a \<and> d = mem_slice mem a line \<and> lines_ok mem line m"
  by (auto simp: lines_ok_def)

lemma lines_ok_subset: "lines_ok mem line m \<Longrightarrow> set m' \<subseteq> set m \<Longrightarrow> lines_ok mem line m'"
  by (auto simp: lines_ok_def)

lemma lines_ok_put: "lines_ok mem line m \<Longrightarrow> line dvd a \<Longrightarrow> lines_ok mem line (map_put a (mem_slice mem a line) m)"
  using set_map_put [of a "mem_slice mem a line" m] by (fastforce simp: lines_ok_def)

lemma sequential_hits_ok:
  assumes "lines_ok mem line m" "line dvd cur" "cur + left < 2 ^ 64"
  shows "\<exists>left'. left' \<le> left \<and> sequential_hits line m cur left =
      (mem_slice mem cur (left - left'), cur + (left - left'), left', False) \<and>
    (0 < left' \<longrightarrow> line dvd cur + (left - left'))"
  using assms
proof (induction m arbitrary: cur left)
  case Nil
  then show ?case by auto
next
  case (Cons e m)
  obtain a d where e: "e = (a, d)" by force
  have d: "d = mem_slice mem a line" and m: "lines_ok mem line m"
    using Cons.prems(1) e by (simp_all add: lines_ok_Cons)
  show ?case
  proof (cases "left = 0 \<or> a \<noteq> cur")
    case True
    then show ?thesis using Cons.prems(2) e by auto
  next
    case False
    let ?n = "min line left"
    have small: "(cur + ?n) mod 2 ^ 64 = cur + ?n" "cur + ?n + (left - ?n) < 2 ^ 64"
      using Cons.prems(3) by simp_all
    show ?thesis
    proof (cases "line \<le> left")
      case True
      then have "line dvd cur + ?n" using Cons.prems(2) by simp
      from Cons.IH [OF m this small(2)] obtain left' where IH: "left' \<le> left - line"
          "sequential_hits line m (cur + line) (left - line) =
            (mem_slice mem (cur + line) (left - line - left'), cur + line + (left - line - left'), left', False)"
          "0 < left' \<longrightarrow> line dvd cur + line + (left - line - left')"
        using True by auto
      have "mem_slice mem cur line @ mem_slice mem (cur + line) (left - line - left') = mem_slice mem cur (left - left')"
        using IH(1) True by (simp add: mem_slice_append)
      moreover have "cur + line + (left - line - left') = cur + (left - left')"
        using IH(1) True by simp
      ultimately show ?thesis
        using IH True False e d small(1) by (intro exI [of _ left']) (simp add: slices)
    next
      case short: False
      have "sequential_hits line m (cur + left) 0 = ([], cur + left, 0, False)"
        by (cases m) auto
      then show ?thesis
        using short False e d small(1) by (intro exI [of _ 0]) (simp add: slices)
    qed
  qed
qed

lemma line_hits_present:
  assumes "lines_ok mem line m" "map_of m cur = Some d" "off < line" "0 < left" "cur + off + left < 2 ^ 64"
  shows "\<exists>left'. left' < left \<and> line_hits line m cur off left =
      Some (mem_slice mem (cur + off) (left - left'), cur + off + (left - left'), left', 0, False) \<and>
    (0 < left' \<longrightarrow> line dvd cur + off + (left - left'))"
proof -
  have "(cur, d) \<in> set m" using assms(2) by (rule map_of_SomeD)
  then have d: "d = mem_slice mem cur line" "line dvd cur"
    using assms(1) by (auto simp: lines_ok_def)
  let ?n = "min (line - off) left" and ?after = "drop 1 (dropWhile (\<lambda>e. fst e \<noteq> cur) m)"
  have after: "lines_ok mem line ?after"
    by (rule lines_ok_subset [OF assms(1)]) (auto dest: in_set_dropD set_dropWhileD)
  have "off + ?n \<le> line" using assms(3) by linarith
  then have copy: "copy_from d off ?n = Some (mem_slice mem (cur + off) ?n)"
    using assms(3) by (simp add: copy_from_def d slices)
  have small: "(cur + ?n + off) mod 2 ^ 64 = cur + off + ?n"
    using assms(5) by simp
  show ?thesis
  proof (cases "line - off \<le> left")
    case True
    then have "line dvd cur + off + ?n"
      using d(2) assms(3) by (simp add: add.assoc)
    moreover have "cur + off + ?n + (left - ?n) < 2 ^ 64"
      using assms(5) by simp
    ultimately obtain left' where s: "left' \<le> left - ?n"
        "sequential_hits line ?after (cur + off + ?n) (left - ?n) =
          (mem_slice mem (cur + off + ?n) (left - ?n - left'), cur + off + ?n + (left - ?n - left'), left', False)"
        "0 < left' \<longrightarrow> line dvd cur + off + ?n + (left - ?n - left')"
      using sequential_hits_ok [OF after] by blast
    have less: "left' < left" using s(1) assms(3,4) by (auto simp: min_def split: if_splits)
    have e: "cur + off + ?n + (left - ?n - left') = cur + off + (left - left')"
      using s(1) by simp
    have "mem_slice mem (cur + off) ?n @ mem_slice mem (cur + off + ?n) (left - ?n - left') = mem_slice mem (cur + off) (left - left')"
      using s(1) by (simp add: mem_slice_append)
    then show ?thesis
      using less s(1) s(2,3)[unfolded e] small copy by (intro exI [of _ left']) (simp add: line_hits_def assms(2) Let_def)
  next
    case False
    have "sequential_hits line ?after (cur + off + left) 0 = ([], cur + off + left, 0, False)"
      by (cases ?after) auto
    with False show ?thesis
      using copy small assms(4) by (intro exI [of _ 0]) (simp add: line_hits_def assms(2) Let_def)
  qed
qed

lemma read_loop_present:
  assumes "reads_below lim mem proc" "0 < line"
    and "lines_ok mem line m" "map_of m cur = Some d" "off < line" "0 < left" "cur + off + left < 2 ^ 64"
    and "cur + off + left + line < lim"
  shows "\<exists>m'. read_loop proc line [] m cur off left dst None =
      Some (dst @ mem_slice mem (cur + off) left, None, m') \<and> lines_ok mem line m'"
  using assms(3-8)
proof (induction left arbitrary: m cur d off dst rule: less_induct)
  case (less left)
  have nov: "FindEntryIndexThatContains [] cur = None"
    by (simp add: FindEntryIndexThatContains_def lower_bound_def)
  from line_hits_present [OF less.prems(1-5)] obtain left' where
    h: "left' < left" "line_hits line m cur off left =
      Some (mem_slice mem (cur + off) (left - left'), cur + off + (left - left'), left', 0, False)"
      "0 < left' \<longrightarrow> line dvd cur + off + (left - left')"
    by blast
  let ?cur = "cur + off + (left - left')"
  show ?case
  proof (cases "left' = 0")
    case True
    then show ?thesis
      using h less.prems by (subst read_loop.simps) (simp add: nov)
  next
    case False
    let ?m = "map_put ?cur (mem_slice mem ?cur line) m"
    have lim: "?cur + line < lim" "?cur + 0 + left' + line < lim"
      using less.prems(6) h(1) by simp_all
    have data: "proc ?cur line = (mem_slice mem ?cur line, None)" "mem_slice mem ?cur line \<noteq> []"
      using assms(1,2) lim(1) by (simp_all add: reads_below_def mem_slice_def)
    have "lines_ok mem line ?m"
      using less.prems(1) h(3) False by (intro lines_ok_put) simp_all
    moreover have "?cur + 0 + left' < 2 ^ 64"
      using less.prems(5) h(1) by simp
    ultimately obtain m' where IH: "read_loop proc line [] ?m ?cur 0 left' (dst @ mem_slice mem (cur + off) (left - left')) None =
        Some ((dst @ mem_slice mem (cur + off) (left - left')) @ mem_slice mem (?cur + 0) left', None, m')"
        "lines_ok mem line m'"
      using less.IH [OF h(1), of ?m ?cur "mem_slice mem ?cur line" 0 "dst @ mem_slice mem (cur + off) (left - left')"]
        False assms(2) lim(2) by (auto; fail)
    have "mem_slice mem (cur + off) (left - left') @ mem_slice mem ?cur left' = mem_slice mem (cur + off) left"
      using h(1) mem_slice_append [of mem "cur + off" "left - left'" left'] by simp
    then have "(dst @ mem_slice mem (cur + off) (left - left')) @ mem_slice mem (?cur + 0) left' = dst @ mem_slice mem (cur + off) left"
      by simp
    with IH have IH': "read_loop proc line [] ?m ?cur 0 left' (dst @ mem_slice mem (cur + off) (left - left')) None =
        Some (dst @ mem_slice mem (cur + off) left, None, m')"
      by simp
    show ?thesis
      using less.prems(4) False h(2) data IH' IH(2)
      by (subst read_loop.simps) (simp add: nov)
  qed
qed

lemma read_loop_ok:
  assumes "reads_below lim mem proc" "0 < line"
    and "lines_ok mem line m" "line dvd cur" "off < line" "0 < left" "cur + off + left < 2 ^ 64"
    and "cur + off + left + line < lim"
  shows "\<exists>m'. read_loop proc line [] m cur off left dst None =
      Some (dst @ mem_slice mem (cur + off) left, None, m') \<and> lines_ok mem line m'"
proof (cases "map_of m cur")
  case (Some d)
  from read_loop_present [OF assms(1-3) Some assms(5-8)] show ?thesis .
next
  case None
  have nov: "FindEntryIndexThatContains [] cur = None"
    by (simp add: FindEntryIndexThatContains_def lower_bound_def)
  have data: "proc cur line = (mem_slice mem cur line, None)" "mem_slice mem cur line \<noteq> []"
    using assms(1,2,8) by (simp_all add: reads_below_def mem_slice_def)
  from read_loop_present [OF assms(1,2) lines_ok_put [OF assms(3,4)] map_of_map_put assms(5-8), of dst]
  show ?thesis
    using assms(6) data by (subst read_loop.simps) (simp add: nov line_hits_def None)
qed

lemma Read_below:
  assumes "reads_below lim mem proc" "cache_ok mem c" "mc_invalid_ranges c = []" "addr + dst_len < 2 ^ 64"
    and "addr + dst_len + mc_line c < lim"
  shows "\<exists>c'. Read proc addr dst_len c = Some (mem_slice mem addr dst_len, None, c') \<and> cache_ok mem c'"
proof -
  have line: "0 < mc_line c" using assms(2) by (simp add: cache_ok_def)
  show ?thesis
  proof (cases "read_L1 (mc_L1 c) addr dst_len")
    case (Some copied)
    then obtain e where e: "e \<in> set (mc_L1 c)" "Contains_range (chunk_range e) \<lparr>rg_base = addr, rg_size = dst_len\<rparr>"
        "copied = copy_from (snd e) (addr - fst e) dst_len"
    proof -
      let ?i = "if map_upper_bound addr (mc_L1 c) \<noteq> 0 then map_upper_bound addr (mc_L1 c) - 1 else map_upper_bound addr (mc_L1 c)"
      have ne: "mc_L1 c \<noteq> []" using Some by (auto simp: read_L1_def)
      have "map_upper_bound addr (mc_L1 c) \<le> length (mc_L1 c)"
        by (simp add: map_upper_bound_def length_takeWhile_le)
      with ne have "?i < length (mc_L1 c)"
        by (cases "mc_L1 c") auto
      then have "mc_L1 c ! ?i \<in> set (mc_L1 c)" by (rule nth_mem)
      then show ?thesis
        using Some by (intro that [of "mc_L1 c ! ?i"]) (simp_all add: read_L1_def Let_def split: if_splits)
    qed
    obtain a d where ad: "e = (a, d)" by force
    have d: "d = mem_slice mem a (length d)" "a + length d < 2 ^ 64"
      using e(1) ad assms(2) by (auto simp: cache_ok_def chunks_ok_def)
    have r: "a \<le> addr" "addr + dst_len \<le> a + length d"
      using e(2) ad d(2) assms(4)
      by (auto simp: Contains_range_def Contains_def ContainsEndInclusive_def chunk_range_def GetRangeEnd_def)
    have "copy_from d (addr - a) dst_len = Some (mem_slice mem addr dst_len)"
      using r by (subst d(1)) (simp add: copy_from_def slices)
    with Some e ad assms(2) show ?thesis by (simp add: Read_def)
  next
    case None
    consider "dst_len > mc_line c" | "dst_len = 0" | "0 < dst_len" "dst_len \<le> mc_line c"
      by linarith
    then show ?thesis
    proof cases
      case 1
      have "chunks_ok mem (map_put addr (mem_slice mem addr dst_len) (mc_L1 c))"
        using assms(2,4) set_map_put [of addr "mem_slice mem addr dst_len" "mc_L1 c"]
        by (fastforce simp: cache_ok_def chunks_ok_def)
      with 1 None assms(1,2,5) show ?thesis
        by (simp add: Read_def reads_below_def cache_ok_def AddL1CacheData_def)
    next
      case 2
      with None line assms(2) show ?thesis by (simp add: Read_def)
    next
      case 3
      have addr: "addr - addr mod mc_line c + addr mod mc_line c = addr" by simp
      have "line dvd addr - addr mod line" for line by (simp add: minus_mod_eq_mult_div)
      then obtain m' where "read_loop proc (mc_line c) [] (mc_L2 c) (addr - addr mod mc_line c) (addr mod mc_line c) dst_len [] None =
          Some ([] @ mem_slice mem (addr - addr mod mc_line c + addr mod mc_line c) dst_len, None, m')"
          "lines_ok mem (mc_line c) m'"
        using read_loop_ok [OF assms(1) line, of "mc_L2 c" "addr - addr mod mc_line c" "addr mod mc_line c" dst_len "[]"]
          assms(2,4,5) 3 line by (auto simp: cache_ok_def)
      with None 3 assms(2,3) addr show ?thesis
        by (simp add: Read_def cache_ok_def)
    qed
  qed
qed

text \<open>C12: A read of a process whose memory can be read everywhere returns exactly the bytes asked
  for and no error, whether they come from a chunk, from cached lines, from new lines or
  from a direct read, it ends, and what it caches agrees with the memory again.\<close>

theorem Read_correct:
  assumes "reads_all mem proc" "cache_ok mem c" "mc_invalid_ranges c = []" "addr + dst_len < 2 ^ 64"
  shows "\<exists>c'. Read proc addr dst_len c = Some (mem_slice mem addr dst_len, None, c') \<and> cache_ok mem c'"
proof (rule Read_below [OF _ assms(2-4)])
  show "reads_below (addr + dst_len + mc_line c + 1) mem proc"
    using assms(1) by (simp add: reads_below_def reads_all_def)
qed simp

text \<open>What a read leaves alone.\<close>

lemma Read_keeps:
  assumes "Read proc addr dst_len c = Some (bs, error, c')"
  shows "mc_line c' = mc_line c" "mc_invalid_ranges c' = mc_invalid_ranges c"
    and "dst_len \<le> mc_line c \<Longrightarrow> mc_L1 c' = mc_L1 c"
  using assms
  by (auto simp: Read_def AddL1CacheData_def split: option.splits if_splits prod.splits)

section \<open>Flushing keeps the cache coherent with a memory that changed\<close>

lemma mem_slice_cong: "(\<And>x. a \<le> x \<Longrightarrow> x < a + n \<Longrightarrow> mem' x = mem x) \<Longrightarrow> mem_slice mem' a n = mem_slice mem a n"
  by (simp add: mem_slice_def)

lemma fold_map_erase: "set (fold (\<lambda>i. map_erase (g i)) is m) = {e \<in> set m. \<forall>i \<in> set is. fst e \<noteq> g i}"
  by (induction "is" arbitrary: m) (auto simp: map_erase_def)

text \<open>The number of lines the loop counts in 32 bits.\<close>

definition lines_spanned :: "nat \<Rightarrow> nat \<Rightarrow> nat \<Rightarrow> nat" where
  "lines_spanned line addr n = (addr + n - 1) div line - addr div line + 1"

lemma flush_L2_set:
  assumes "0 < line" "0 < n" "addr + n < 2 ^ 64" "lines_spanned line addr n < 2 ^ 32"
    and "\<forall>(a, d) \<in> set m. line dvd a"
  shows "set (flush_L2 line addr n m) = {(a, d) \<in> set m. a + line \<le> addr \<or> addr + n \<le> a}"
proof -
  let ?e = "addr + n - 1" and ?k = "lines_spanned line addr n"
  have e: "(addr + n + 2 ^ 64 - 1) mod 2 ^ 64 = ?e"
    using mod_add_self2 [of ?e "2 ^ 64"] assms(2,3) by (simp add: add.commute add.left_commute)
  have f: "addr - addr mod line = addr div line * line" "?e - ?e mod line = ?e div line * line"
    by (simp_all add: minus_mod_eq_div_mult)
  have le: "addr div line \<le> ?e div line"
    using assms(2) by (intro div_le_mono) simp
  have k: "(?e div line * line - addr div line * line) div line + 1 = ?k"
    using assms(1) by (simp add: lines_spanned_def diff_mult_distrib [symmetric])
  have last: "?e div line * line < 2 ^ 64"
    using assms(3) div_times_less_eq_dividend [of ?e line] by linarith
  have key: "(addr div line * line + i * line) mod 2 ^ 64 = (addr div line + i) * line" if "i < ?k" for i
  proof -
    have "addr div line + i \<le> ?e div line"
      using that le by (simp add: lines_spanned_def)
    then have "(addr div line + i) * line \<le> ?e div line * line"
      by (rule mult_le_mono1)
    from this last have "(addr div line + i) * line < 2 ^ 64"
      by (rule le_less_trans)
    then show ?thesis by (simp only: add_mult_distrib mod_less)
  qed
  have hit: "(\<exists>i < ?k. a = (addr div line + i) * line) \<longleftrightarrow> \<not> (a + line \<le> addr \<or> addr + n \<le> a)"
    if "line dvd a" for a
  proof -
    have q': "a = a div line * line" using that by simp
    then obtain q where q: "a = q * line" by blast
    have "Suc q \<le> addr div line \<longleftrightarrow> Suc q * line \<le> addr"
      using assms(1) by (rule less_eq_div_iff_mult_less_eq)
    then have "a + line \<le> addr \<longleftrightarrow> q < addr div line"
      by (simp only: q Suc_le_eq mult_Suc add.commute)
    moreover have "?e div line < q \<longleftrightarrow> ?e < q * line"
      using assms(1) by (rule div_less_iff_less_mult)
    then have "addr + n \<le> a \<longleftrightarrow> ?e div line < q"
      using assms(2) unfolding q by linarith
    moreover have "(\<exists>i < ?k. a = (addr div line + i) * line) \<longleftrightarrow> addr div line \<le> q \<and> q \<le> ?e div line"
    proof
      assume "addr div line \<le> q \<and> q \<le> ?e div line"
      then show "\<exists>i < ?k. a = (addr div line + i) * line"
        by (intro exI [of _ "q - addr div line"]) (auto simp: lines_spanned_def q)
    qed (use assms(1) le in \<open>auto simp: lines_spanned_def q\<close>)
    ultimately show ?thesis by auto
  qed
  have "flush_L2 line addr n m = fold (\<lambda>i. map_erase ((addr div line * line + i * line) mod 2 ^ 64)) [0..<?k] m"
    unfolding flush_L2_def Let_def e f k if_P [OF mult_le_mono1 [OF le]] mod_less [OF assms(4)] ..
  then have "set (flush_L2 line addr n m) =
      {e \<in> set m. \<forall>i < ?k. fst e \<noteq> (addr div line * line + i * line) mod 2 ^ 64}"
    by (simp only: fold_map_erase set_upt atLeast0LessThan Ball_def lessThan_iff)
  also have "\<dots> = {e \<in> set m. \<forall>i < ?k. fst e \<noteq> (addr div line + i) * line}"
    using key by metis
  also have "\<dots> = {e \<in> set m. fst e + line \<le> addr \<or> addr + n \<le> fst e}"
  proof (rule Collect_cong, rule conj_cong [OF refl])
    fix e assume "e \<in> set m"
    then have "line dvd fst e" using assms(5) by (cases e) auto
    from hit [OF this] show "(\<forall>i < ?k. fst e \<noteq> (addr div line + i) * line) \<longleftrightarrow> fst e + line \<le> addr \<or> addr + n \<le> fst e"
      by blast
  qed
  also have "\<dots> = {(a, d) \<in> set m. a + line \<le> addr \<or> addr + n \<le> a}"
    by auto
  finally show ?thesis .
qed

text \<open>The chunks do not overlap.\<close>

definition chunks_apart :: "block_map \<Rightarrow> bool" where
  "chunks_apart m \<longleftrightarrow> sorted_wrt (\<lambda>e e'. fst e + length (snd e) \<le> fst e') m"

lemma flush_L1_set:
  assumes "chunks_apart m" "0 < n" "addr + n < 2 ^ 64"
    and "\<forall>(a, d) \<in> set m. a + length d < 2 ^ 64"
    and "\<forall>(a, d) \<in> set m. a \<le> addr \<longrightarrow> addr < a + length d"
    and "(a, d) \<in> set (flush_L1 addr n m)"
  shows "(a, d) \<in> set m \<and> (a + length d \<le> addr \<or> addr + n \<le> a)"
proof -
  let ?u = "map_upper_bound addr m"
  let ?I = "\<lambda>e. DoesIntersect (chunk_range e) \<lparr>rg_base = addr, rg_size = n\<rparr>"
  have I: "?I e \<longleftrightarrow> \<not> (fst e + length (snd e) \<le> addr \<or> addr + n \<le> fst e)" if "e \<in> set m" for e
  proof -
    have "fst e + length (snd e) < 2 ^ 64" using that assms(4) by (cases e) auto
    with assms(3) show ?thesis
      by (auto simp: DoesIntersect_def chunk_range_def GetRangeEnd_def not_le)
  qed
  obtain pos where pos: "pos \<noteq> 0 \<longrightarrow> pos < map_upper_bound addr m"
      "flush_L1 addr n m = take pos m @ dropWhile ?I (drop pos m)"
    by (cases "map_upper_bound addr m") (auto simp: flush_L1_def Let_def)
  have "pos = 0"
  proof (rule ccontr)
    assume "pos \<noteq> 0"
    with pos(1) have p: "pos < length (takeWhile (\<lambda>e. fst e \<le> addr) m)" "0 < pos"
      by (simp_all add: map_upper_bound_def)
    then have l: "pos < length m" using length_takeWhile_le less_le_trans by blast
    have "fst (m ! pos) \<le> addr"
      using nth_mem [OF p(1)] set_takeWhileD [of "m ! pos" "\<lambda>e. fst e \<le> addr" m] p(1)
      by (simp add: takeWhile_nth)
    moreover have "fst (m ! 0) + length (snd (m ! 0)) \<le> fst (m ! pos)"
      using assms(1) p(2) l by (simp add: chunks_apart_def sorted_wrt_iff_nth_less)
    moreover have "m ! 0 \<in> set m" using p(2) l by (intro nth_mem) linarith
    ultimately show False using assms(5) by (cases "m ! 0") fastforce
  qed
  with pos(2) assms(6) have mem: "(a, d) \<in> set (dropWhile ?I m)" by simp
  then have m: "(a, d) \<in> set m" by (rule set_dropWhileD)
  obtain h t where h: "dropWhile ?I m = h # t" using mem by (cases "dropWhile ?I m") auto
  then have nh: "\<not> ?I h" and hm: "h \<in> set m"
    using dropWhile_eq_Cons_conv [of ?I m h t] h set_dropWhileD [of h ?I m] by simp_all
  have "sorted_wrt (\<lambda>e e'. fst e + length (snd e) \<le> fst e') (takeWhile ?I m @ h # t)"
    using assms(1) takeWhile_dropWhile_id [of ?I m] h by (simp add: chunks_apart_def)
  then have "sorted_wrt (\<lambda>e e'. fst e + length (snd e) \<le> fst e') (h # t)"
    unfolding sorted_wrt_append by blast
  then have "(a, d) = h \<or> fst h + length (snd h) \<le> a"
    using mem h by fastforce
  moreover have "fst h \<le> addr \<longrightarrow> addr < fst h + length (snd h)"
    using assms(5) hm by (cases h) auto
  moreover have "fst h + length (snd h) \<le> addr \<or> addr + n \<le> fst h"
    using nh I [OF hm] by blast
  ultimately have "a + length d \<le> addr \<or> addr + n \<le> a"
    by (cases h) auto
  with m show ?thesis by simp
qed

text \<open>A flush finds the chunks that it has to erase: there are none, or the chunks do not overlap and
  each that starts at or below the address reaches it.\<close>

definition flush_finds :: "nat \<Rightarrow> nat \<Rightarrow> block_map \<Rightarrow> bool" where
  "flush_finds addr n m \<longleftrightarrow>
     (\<forall>(a, d) \<in> set m. a + length d \<le> addr \<or> addr + n \<le> a) \<or>
     chunks_apart m \<and> (\<forall>(a, d) \<in> set m. a \<le> addr \<longrightarrow> addr < a + length d)"

lemma flush_finds_Nil [simp]: "flush_finds addr n []"
  by (simp add: flush_finds_def)

lemma flush_L1_finds:
  assumes "flush_finds addr n m" "0 < n" "addr + n < 2 ^ 64" "\<forall>(a, d) \<in> set m. a + length d < 2 ^ 64"
    and e: "(a, d) \<in> set (flush_L1 addr n m)"
  shows "(a, d) \<in> set m \<and> (a + length d \<le> addr \<or> addr + n \<le> a)"
  using assms(1) unfolding flush_finds_def
proof
  assume none: "\<forall>(a, d) \<in> set m. a + length d \<le> addr \<or> addr + n \<le> a"
  have "(a, d) \<in> set m"
    using e by (auto simp: flush_L1_def Let_def dest: in_set_takeD in_set_dropD set_dropWhileD)
  with none show ?thesis by auto
next
  assume "chunks_apart m \<and> (\<forall>(a, d) \<in> set m. a \<le> addr \<longrightarrow> addr < a + length d)"
  then show ?thesis using flush_L1_set [of m n addr a d] assms(2-4) e by blast
qed

lemma Flush_keeps:
  assumes "cache_ok mem c" "0 < n" "addr + n < 2 ^ 64" "lines_spanned (mc_line c) addr n < 2 ^ 32"
    and "flush_finds addr n (mc_L1 c)"
    and "\<forall>a. mem' a = mem a \<or> addr \<le> a \<and> a < addr + n"
  shows "cache_ok mem' (Flush addr n c)"
proof -
  have keep: "mem_slice mem' a k = mem_slice mem a k" if "a + k \<le> addr \<or> addr + n \<le> a" for a k
    using that assms(6) by (intro mem_slice_cong) (metis leD less_le_trans)
  have line: "0 < mc_line c" and L1: "\<forall>(a, d) \<in> set (mc_L1 c). d = mem_slice mem a (length d) \<and> a + length d < 2 ^ 64"
    and L2: "\<forall>(a, d) \<in> set (mc_L2 c). mc_line c dvd a \<and> d = mem_slice mem a (mc_line c)"
    using assms(1) by (simp_all add: cache_ok_def chunks_ok_def lines_ok_def)
  have "(a, d) \<in> set (mc_L1 c) \<and> (a + length d \<le> addr \<or> addr + n \<le> a)"
    if "(a, d) \<in> set (flush_L1 addr n (mc_L1 c))" for a d
    using assms(5,2,3) _ that by (rule flush_L1_finds) (use L1 in auto)
  then have "chunks_ok mem' (flush_L1 addr n (mc_L1 c))"
    using L1 keep unfolding chunks_ok_def by fastforce
  moreover have "set (flush_L2 (mc_line c) addr n (mc_L2 c)) = {(a, d) \<in> set (mc_L2 c). a + mc_line c \<le> addr \<or> addr + n \<le> a}"
    using line assms(2-4) by (rule flush_L2_set) (use L2 in auto)
  then have "lines_ok mem' (mc_line c) (flush_L2 (mc_line c) addr n (mc_L2 c))"
    using L2 keep unfolding lines_ok_def by fastforce
  moreover have "chunks_ok mem' []" "lines_ok mem' (mc_line c) []"
    by (simp_all add: chunks_ok_def lines_ok_def)
  ultimately show ?thesis
    using line assms(2) by (simp add: Flush_def cache_ok_def Let_def)
qed

text \<open>C16: When memory changes only inside a range, flushing that range leaves a cache that agrees
  with the new memory, provided that the range spans fewer than 2^32 lines and that no chunk
  lies in it, or that the chunks do not overlap and each chunk that starts at or below the
  address reaches it.\<close>

theorem Flush_coherent:
  assumes "cache_ok mem c" "0 < n" "addr + n < 2 ^ 64" "lines_spanned (mc_line c) addr n < 2 ^ 32"
    and "flush_finds addr n (mc_L1 c)"
    and "\<forall>a. mem' a = mem a \<or> addr \<le> a \<and> a < addr + n"
  shows "cache_ok mem' (Flush addr n c)"
  by (rule Flush_keeps [OF assms])

text \<open>When the chunk before the flushed address ends at or below it, the flush erases no chunk
  at all, not even a later one that the range intersects: reads from it stay stale.\<close>

theorem Flush_stops_early:
  assumes "m = pre @ p # post" "fst p \<le> addr" "\<forall>e \<in> set pre. fst e \<le> addr" "\<forall>e \<in> set post. addr < fst e"
    and "fst p + length (snd p) \<le> addr" "addr < 2 ^ 64"
  shows "flush_L1 addr n m = m"
proof -
  have "takeWhile (\<lambda>e. fst e \<le> addr) m = pre @ [p]"
    using assms(1-4) by (cases post) (auto simp: takeWhile_append)
  then have "map_upper_bound addr m = Suc (length pre)"
    by (simp add: map_upper_bound_def)
  moreover have "\<not> DoesIntersect (chunk_range p) \<lparr>rg_base = addr, rg_size = n\<rparr>"
    using assms(5,6) by (simp add: DoesIntersect_def chunk_range_def GetRangeEnd_def)
  ultimately show ?thesis
    using assms(1) by (simp add: flush_L1_def Let_def)
qed

text \<open>A line of which the process could read only part is cached short, and the loop copies
  the bytes asked for from it without looking at its length: a read that reaches past that
  part copies from beyond the end of the buffer.\<close>

theorem Read_past_a_short_page:
  assumes "read_L1 (mc_L1 c) addr n = None" "mc_invalid_ranges c = []"
    and "map_of (mc_L2 c) (addr - addr mod mc_line c) = None"
    and "proc (addr - addr mod mc_line c) (mc_line c) = (data, error)" "data \<noteq> []"
    and "0 < n" "addr mod mc_line c + n \<le> mc_line c" "length data < addr mod mc_line c + n"
  shows "Read proc addr n c = None"
proof -
  let ?off = "addr mod mc_line c" and ?cur = "addr - addr mod mc_line c"
  have nov: "FindEntryIndexThatContains [] a = None" for a
    by (simp add: FindEntryIndexThatContains_def lower_bound_def)
  have copy: "copy_from data ?off n = None" using assms(8) by (simp add: copy_from_def)
  have m: "min (mc_line c - ?off) n = n" using assms(7) by simp
  have "read_loop proc (mc_line c) [] (map_put ?cur data (mc_L2 c)) ?cur ?off n [] error = None"
    using assms(6) m copy by (subst read_loop.simps) (simp add: nov line_hits_def Let_def)
  then have "read_loop proc (mc_line c) [] (mc_L2 c) ?cur ?off n [] None = None"
    using assms(3-6) by (subst read_loop.simps) (simp add: nov line_hits_def)
  then show ?thesis using assms(1,2,6,7) by (simp add: Read_def)
qed

section \<open>Witnesses\<close>

definition sample_mem :: "nat \<Rightarrow> u8" where
  "sample_mem a = of_nat a"

definition sample_cache :: memory_cache where
  "sample_cache = \<lparr>mc_L1 = [(256, mem_slice sample_mem 256 8)], mc_L2 = [(16, mem_slice sample_mem 16 16)],
     mc_invalid_ranges = [], mc_line = 16\<rparr>"

lemma sample_cache_ok: "cache_ok sample_mem sample_cache"
  by (simp add: cache_ok_def sample_cache_def chunks_ok_def lines_ok_def)

lemma Read_correct_witness:
  "\<exists>c'. Read (\<lambda>a n. (mem_slice sample_mem a n, None)) 20 15 sample_cache = Some (mem_slice sample_mem 20 15, None, c')
     \<and> cache_ok sample_mem c'"
  by (rule Read_correct) (simp_all add: sample_cache_ok reads_all_def, simp add: sample_cache_def)

lemma Flush_coherent_witness:
  "cache_ok (sample_mem(260 := 0)) (Flush 260 1 sample_cache)"
  by (rule Flush_coherent [OF sample_cache_ok])
    (simp_all add: sample_cache_def lines_spanned_def flush_finds_def chunks_apart_def)

lemma Flush_stops_early_witness:
  "flush_L1 504 16 [(256, [1, 1]), (512, [2, 2])] = [(256, [1, 1]), (512, [2, 2])]"
  by (rule Flush_stops_early [of _ "[]" "(256, [1, 1])" "[(512, [2, 2])]"]) simp_all

lemma Read_past_a_short_page_witness:
  "Read (\<lambda>a n. ([7, 8], None)) 18 4 \<lparr>mc_L1 = [], mc_L2 = [], mc_invalid_ranges = [], mc_line = 16\<rparr> = None"
  by (rule Read_past_a_short_page [of _ _ _ _ "[7, 8]" None]) (simp_all add: read_L1_def)

end
