(* ===== verification/BreakpointSites.thy ===== *)
theory BreakpointSites
  imports Prelude
begin

text \<open>
  Breakpoint sites: the places of the process where a trap is (\<open>BreakpointSite\<close>,
  \<open>BreakpointSiteList\<close>, \<open>BreakpointLocationCollection\<close>, \<open>StoppointLocation\<close>; source/Breakpoint).

  A site list is a \<open>std::map\<close> from load addresses, so the list of its entries in address
  order. Sites are shared between lists; an operation that changes a site of a list it has found
  in another list writes it back under its address (\<open>ProcessMemory\<close>). A breakpoint location is
  known here by its breakpoint and its number in it; the decision of a location to stop, and
  its threads, are parameters. \<open>LLDB_INVALID_BREAK_ID\<close> is 0.
\<close>

section \<open>The locations that share a site\<close>

type_synonym break_location = "int \<times> int"

definition FindByIDPair :: "int \<Rightarrow> int \<Rightarrow> break_location list \<Rightarrow> break_location option" where
  "FindByIDPair break_id break_loc_id ls = find (\<lambda>l. fst l = break_id \<and> snd l = break_loc_id) ls"

definition Add_location :: "break_location \<Rightarrow> break_location list \<Rightarrow> break_location list" where
  "Add_location l ls = (if FindByIDPair (fst l) (snd l) ls = None then ls @ [l] else ls)"

definition Remove_location :: "int \<Rightarrow> int \<Rightarrow> break_location list \<Rightarrow> bool \<times> break_location list" where
  "Remove_location bp_id bp_loc_id ls =
     (let before = takeWhile (\<lambda>l. \<not> (fst l = bp_id \<and> snd l = bp_loc_id)) ls
      in if length before < length ls then (True, before @ drop (length before + 1) ls) else (False, ls))"

definition GetByIndex_location :: "nat \<Rightarrow> break_location list \<Rightarrow> break_location option" where
  "GetByIndex_location i ls = (if i < length ls then Some (ls ! i) else None)"

text \<open>A location may change the collection and the rest of the debugger while it decides.\<close>

type_synonym 'd stop_decision = "break_location \<Rightarrow> break_location list \<times> 'd \<Rightarrow> bool \<times> break_location list \<times> 'd"

partial_function (option) stop_loop ::
  "'d stop_decision \<Rightarrow> nat \<Rightarrow> nat \<Rightarrow> bool \<Rightarrow> break_location list \<Rightarrow> 'd \<Rightarrow>
   (bool \<times> break_location list \<times> 'd) option" where
  "stop_loop decide i prev_size should ls d =
     (if i < prev_size
      then do {
        l \<leftarrow> GetByIndex_location i ls;
        let (stop, ls', d') = decide l (ls, d);
            should = (should \<or> stop);
            i = (if prev_size = length ls' then i + 1 else i)
        in stop_loop decide i (length ls') should ls' d' }
      else Some (should, ls, d))"

definition ShouldStop_locations ::
  "'d stop_decision \<Rightarrow> break_location list \<Rightarrow> 'd \<Rightarrow> (bool \<times> break_location list \<times> 'd) option" where
  "ShouldStop_locations decide ls d = stop_loop decide 0 (length ls) False ls d"

definition ValidForThisThread_locations :: "(break_location \<Rightarrow> bool) \<Rightarrow> break_location list \<Rightarrow> bool" where
  "ValidForThisThread_locations valid ls \<longleftrightarrow> list_ex valid ls"

text \<open>A breakpoint is internal when its number is negative.\<close>

definition IsInternal_locations :: "break_location list \<Rightarrow> bool" where
  "IsInternal_locations ls \<longleftrightarrow> list_all (\<lambda>l. fst l < 0) ls"

section \<open>A site\<close>

datatype site_type = eSoftware | eHardware | eExternal

record bp_site =
  bs_id :: nat
  bs_addr :: nat
  bs_hardware :: bool
  bs_hardware_index :: nat
  bs_byte_size :: nat
  bs_hit_count :: nat
  bs_type :: site_type
  bs_saved_opcode :: "u8 list"
  bs_trap_opcode :: "u8 list"
  bs_enabled :: bool
  bs_owners :: "break_location list"

definition new_BreakpointSite :: "nat \<Rightarrow> break_location \<Rightarrow> nat \<Rightarrow> bool \<Rightarrow> bp_site" where
  "new_BreakpointSite next_id owner addr use_hardware =
     \<lparr>bs_id = next_id, bs_addr = addr, bs_hardware = use_hardware, bs_hardware_index = UINT32_MAX,
      bs_byte_size = 0, bs_hit_count = 0, bs_type = eSoftware, bs_saved_opcode = replicate 8 0,
      bs_trap_opcode = replicate 8 0, bs_enabled = False, bs_owners = Add_location owner []\<rparr>"

definition IsHardware :: "bp_site \<Rightarrow> bool" where
  "IsHardware s \<longleftrightarrow> bs_hardware_index s \<noteq> UINT32_MAX"

definition ShouldStop_site :: "'d stop_decision \<Rightarrow> bp_site \<Rightarrow> 'd \<Rightarrow> (bool \<times> bp_site \<times> 'd) option" where
  "ShouldStop_site decide s d =
     do {
       (stop, ls, d) \<leftarrow> ShouldStop_locations decide (bs_owners s) d;
       Some (stop, s\<lparr>bs_hit_count := (bs_hit_count s + 1) mod 2 ^ 32, bs_owners := ls\<rparr>, d) }"

definition IsBreakpointAtThisSite :: "int \<Rightarrow> bp_site \<Rightarrow> bool" where
  "IsBreakpointAtThisSite bp_id s \<longleftrightarrow> list_ex (\<lambda>l. fst l = bp_id) (bs_owners s)"

text \<open>\<open>memcpy\<close> into a buffer.\<close>

definition overwrite :: "nat \<Rightarrow> u8 list \<Rightarrow> u8 list \<Rightarrow> u8 list" where
  "overwrite off xs buf = take off buf @ xs @ drop (off + length xs) buf"

definition SetTrapOpcode :: "u8 list \<Rightarrow> bp_site \<Rightarrow> bool \<times> bp_site" where
  "SetTrapOpcode opcode s =
     (if 0 < length opcode \<and> length opcode \<le> 8
      then (True, s\<lparr>bs_byte_size := length opcode, bs_trap_opcode := overwrite 0 opcode (bs_trap_opcode s)\<rparr>)
      else (False, s\<lparr>bs_byte_size := 0\<rparr>))"

definition SetEnabled :: "bool \<Rightarrow> bp_site \<Rightarrow> bp_site" where
  "SetEnabled enabled s = s\<lparr>bs_enabled := enabled\<rparr>"

definition AddOwner :: "break_location \<Rightarrow> bp_site \<Rightarrow> bp_site" where
  "AddOwner owner s = s\<lparr>bs_owners := Add_location owner (bs_owners s)\<rparr>"

definition RemoveOwner :: "int \<Rightarrow> int \<Rightarrow> bp_site \<Rightarrow> nat \<times> bp_site" where
  "RemoveOwner break_id break_loc_id s =
     (let ls = snd (Remove_location break_id break_loc_id (bs_owners s))
      in (length ls, s\<lparr>bs_owners := ls\<rparr>))"

definition CopyOwnersList :: "break_location list \<Rightarrow> bp_site \<Rightarrow> nat \<times> break_location list" where
  "CopyOwnersList out s = (let ls = fold Add_location (bs_owners s) out in (length ls, ls))"

text \<open>The part of a range that the trap covers: its address, its size, and the offset in the
  trap. \<open>None\<close>: \<open>false\<close>, and the out parameters are not written.\<close>

definition IntersectsRange :: "nat \<Rightarrow> nat \<Rightarrow> bp_site \<Rightarrow> (nat \<times> nat \<times> nat) option" where
  "IntersectsRange addr n s =
     (if \<not> IsHardware s \<and> bs_byte_size s > 0
      then let bp_end_addr = (bs_addr s + bs_byte_size s) mod 2 ^ 64;
               end_addr = (addr + n) mod 2 ^ 64
           in if bp_end_addr \<le> addr then None
              else if end_addr \<le> bs_addr s then None
              else if bs_addr s < addr
              then Some (addr, (min bp_end_addr end_addr + 2 ^ 64 - addr) mod 2 ^ 64, addr - bs_addr s)
              else Some (bs_addr s, (min bp_end_addr end_addr + 2 ^ 64 - bs_addr s) mod 2 ^ 64, 0)
      else None)"

section \<open>A list of sites\<close>

type_synonym site_list = "(nat \<times> bp_site) list"

abbreviation (input) LLDB_INVALID_BREAK_ID :: nat where
  "LLDB_INVALID_BREAK_ID \<equiv> 0"

definition Add_site :: "bp_site \<Rightarrow> site_list \<Rightarrow> nat \<times> site_list" where
  "Add_site s m =
     (case map_of m (bs_addr s) of
        None \<Rightarrow> (bs_id s, map_put (bs_addr s) s m)
      | Some _ \<Rightarrow> (LLDB_INVALID_BREAK_ID, m))"

definition FindByID :: "nat \<Rightarrow> site_list \<Rightarrow> bp_site option" where
  "FindByID break_id m = map_option snd (find (\<lambda>e. bs_id (snd e) = break_id) m)"

definition FindByAddress :: "nat \<Rightarrow> site_list \<Rightarrow> bp_site option" where
  "FindByAddress addr m = map_of m addr"

definition FindIDByAddress :: "nat \<Rightarrow> site_list \<Rightarrow> nat" where
  "FindIDByAddress addr m =
     (case FindByAddress addr m of Some s \<Rightarrow> bs_id s | None \<Rightarrow> LLDB_INVALID_BREAK_ID)"

definition Remove_site :: "nat \<Rightarrow> site_list \<Rightarrow> bool \<times> site_list" where
  "Remove_site break_id m =
     (let before = takeWhile (\<lambda>e. bs_id (snd e) \<noteq> break_id) m
      in if length before < length m then (True, before @ drop (length before + 1) m) else (False, m))"

definition RemoveByAddress :: "nat \<Rightarrow> site_list \<Rightarrow> bool \<times> site_list" where
  "RemoveByAddress addr m = (case map_of m addr of Some _ \<Rightarrow> (True, map_erase addr m) | None \<Rightarrow> (False, m))"

definition ShouldStop_list :: "'d stop_decision \<Rightarrow> nat \<Rightarrow> site_list \<Rightarrow> 'd \<Rightarrow> (bool \<times> site_list \<times> 'd) option" where
  "ShouldStop_list decide site_id m d =
     (case FindByID site_id m of
        Some s \<Rightarrow> do { (stop, s, d) \<leftarrow> ShouldStop_site decide s d; Some (stop, map_put (bs_addr s) s m, d) }
      | None \<Rightarrow> Some (True, m, d))"

definition BreakpointSiteContainsBreakpoint :: "nat \<Rightarrow> int \<Rightarrow> site_list \<Rightarrow> bool" where
  "BreakpointSiteContainsBreakpoint bp_site_id bp_id m \<longleftrightarrow>
     (case FindByID bp_site_id m of Some s \<Rightarrow> IsBreakpointAtThisSite bp_id s | None \<Rightarrow> False)"

text \<open>The sites that may overlap a range are added to the list \<open>out\<close>.\<close>

definition FindInRange :: "nat \<Rightarrow> nat \<Rightarrow> site_list \<Rightarrow> site_list \<Rightarrow> bool \<times> site_list" where
  "FindInRange lower_addr upper_addr m out =
     (if lower_addr > upper_addr then (False, out)
      else let lower = length (takeWhile (\<lambda>e. fst e < lower_addr) m)
      in if lower = length m \<or> fst (m ! lower) \<ge> upper_addr then (False, out)
      else let prev_bp = snd (m ! (lower - 1));
               out = (if lower \<noteq> 0 \<and> (bs_addr prev_bp + bs_byte_size prev_bp) mod 2 ^ 64 > lower_addr
                      then snd (Add_site prev_bp out) else out);
               upper = map_upper_bound upper_addr m
           in (True, fold (\<lambda>e out. snd (Add_site (snd e) out)) (take (upper - lower) (drop lower m)) out))"

section \<open>Lists of sites that do not overlap\<close>

text \<open>The sites of a list are entered under their addresses, do not overlap, and do not wrap
  around. This is what keeps lookups by address range right.\<close>

definition site_range_ok :: "bp_site \<Rightarrow> bool" where
  "site_range_ok s \<longleftrightarrow> \<not> IsHardware s \<and> 0 < bs_byte_size s \<and> bs_addr s + bs_byte_size s < 2 ^ 64"

definition site_before :: "nat \<times> bp_site \<Rightarrow> nat \<times> bp_site \<Rightarrow> bool" where
  "site_before e e' \<longleftrightarrow> fst e + bs_byte_size (snd e) \<le> fst e'"

definition sites_apart :: "site_list \<Rightarrow> bool" where
  "sites_apart m \<longleftrightarrow> sorted_wrt site_before m \<and> (\<forall>e \<in> set m. fst e = bs_addr (snd e) \<and> site_range_ok (snd e))"

named_theorems sites "facts on lists of sites"

lemma sites_apart_simps [simp]:
  "sites_apart []"
  "sites_apart (e # m) \<longleftrightarrow> fst e = bs_addr (snd e) \<and> site_range_ok (snd e) \<and>
     (\<forall>e' \<in> set m. site_before e e') \<and> sites_apart m"
  "sites_apart (m @ m') \<longleftrightarrow> sites_apart m \<and> sites_apart m' \<and> (\<forall>e \<in> set m. \<forall>e' \<in> set m'. site_before e e')"
  by (auto simp: sites_apart_def sorted_wrt_append)

lemma sites_apart_sorted: "sites_apart m \<Longrightarrow> map_sorted m"
  by (induction m) (auto simp: map_sorted_def site_before_def site_range_ok_def)

lemma map_put_last: "\<forall>e \<in> set m. fst e < k \<Longrightarrow> map_put k v m = m @ [(k, v)]"
proof -
  assume less: "\<forall>e \<in> set m. fst e < k"
  then have "takeWhile (\<lambda>e. fst e < k) m = m" "dropWhile (\<lambda>e. fst e \<le> k) m = []"
    by (auto simp: takeWhile_eq_all_conv dropWhile_eq_Nil_conv intro: less_imp_le)
  then show ?thesis by (simp add: map_put_def)
qed

text \<open>Adding a list of sites behind another one appends it.\<close>

lemma add_sites:
  assumes "map_sorted (out @ es)" "\<forall>e \<in> set es. fst e = bs_addr (snd e)"
  shows "fold (\<lambda>e out. snd (Add_site (snd e) out)) es out = out @ es"
  using assms
proof (induction es arbitrary: out)
  case (Cons e es)
  have less: "\<forall>x \<in> set out. fst x < bs_addr (snd e)"
    using Cons.prems by (simp add: map_sorted_def sorted_wrt_append)
  then have "map_of out (bs_addr (snd e)) = None"
    by (auto simp: map_of_eq_None_iff)
  then have "snd (Add_site (snd e) out) = out @ [e]"
    using Cons.prems(2) less by (simp add: Add_site_def map_put_last prod_eq_iff)
  then show ?case using Cons.IH [of "out @ [e]"] Cons.prems by simp
qed simp

lemma map_upper_bound_append:
  "\<forall>e \<in> set xs. fst e \<le> k \<Longrightarrow> map_upper_bound k (xs @ ys) = length xs + map_upper_bound k ys"
  by (simp add: map_upper_bound_def takeWhile_append)

lemma takeWhile_sorted:
  "map_sorted m \<Longrightarrow> takeWhile (\<lambda>e. fst e \<le> k) m = filter (\<lambda>e. fst e \<le> k) m"
  by (induction m) (auto simp: map_sorted_def intro!: filter_False [symmetric])

text \<open>A site of the list starts in the range.\<close>

definition starts_within :: "nat \<Rightarrow> nat \<Rightarrow> site_list \<Rightarrow> bool" where
  "starts_within lower_addr upper_addr m \<longleftrightarrow> (\<exists>e \<in> set m. lower_addr \<le> fst e \<and> fst e < upper_addr)"

lemma map_split:
  "map_sorted m \<Longrightarrow> \<exists>xs ys. m = xs @ ys \<and> (\<forall>e \<in> set xs. fst e < k) \<and> (\<forall>e \<in> set ys. k \<le> fst e)"
proof (induction m)
  case (Cons e m)
  then obtain xs ys where m: "m = xs @ ys" "\<forall>e \<in> set xs. fst e < k" "\<forall>e \<in> set ys. k \<le> fst e"
    by (auto simp: map_sorted_def)
  show ?case
  proof (cases "fst e < k")
    case True
    with m show ?thesis by (intro exI [of _ "e # xs"] exI [of _ ys]) simp
  next
    case False
    then have "\<forall>e' \<in> set (e # m). k \<le> fst e'"
      using Cons.prems by (auto simp: map_sorted_def)
    then show ?thesis by (intro exI [of _ "[]"] exI [of _ "e # m"]) simp
  qed
qed simp

lemma length_lower:
  fixes k :: nat
  assumes "\<forall>e \<in> set xs. fst e < k" "\<forall>e \<in> set ys. k \<le> fst e"
  shows "length (takeWhile (\<lambda>e. fst e < k) (xs @ ys)) = length xs"
  proof -
  have "takeWhile (\<lambda>e. fst e < k) (xs @ ys) = xs"
    using assms by (cases ys) (auto simp: takeWhile_append takeWhile_eq_all_conv)
  then show ?thesis by simp
qed

lemma FindInRange_eq:
  assumes "sites_apart m" "lo \<le> hi"
  shows "FindInRange lo hi m [] =
    (if starts_within lo hi m
     then (True, filter (\<lambda>e. lo < fst e + bs_byte_size (snd e) \<and> fst e \<le> hi) m)
     else (False, []))"
proof -
  let ?P = "\<lambda>e. lo < fst e + bs_byte_size (snd e) \<and> fst e \<le> hi"
  obtain xs ys where m: "m = xs @ ys" and xs: "\<forall>e \<in> set xs. fst e < lo" and ys: "\<forall>e \<in> set ys. lo \<le> fst e"
    using map_split [OF sites_apart_sorted [OF assms(1)]] by blast
  have sorted: "map_sorted ys" using assms(1) m by (intro sites_apart_sorted) simp
  note lower = length_lower [OF xs ys]
  show ?thesis
  proof (cases "starts_within lo hi m")
    case False
    then have "ys = [] \<or> hi \<le> fst (hd ys)"
      using ys m by (cases ys) (auto simp: starts_within_def not_less)
    then show ?thesis
      using assms(2) False lower m by (cases ys) (auto simp: FindInRange_def Let_def)
  next
    case True
    then obtain y ys' where y: "ys = y # ys'" "fst y < hi"
      using xs ys sorted m by (cases ys) (auto simp: starts_within_def map_sorted_def)
    have fys: "take (map_upper_bound hi m - length xs) (drop (length xs) m) = filter ?P ys"
    proof -
      have "map_upper_bound hi m = length xs + length (takeWhile (\<lambda>e. fst e \<le> hi) ys)"
        using xs assms(2) by (subst m, subst map_upper_bound_append) (auto simp: map_upper_bound_def)
      moreover have "takeWhile (\<lambda>e. fst e \<le> hi) ys = filter ?P ys"
      proof -
        have "\<forall>e \<in> set ys. lo < fst e + bs_byte_size (snd e)"
          using ys assms(1) m by (force simp: sites_apart_def site_range_ok_def)
        then show ?thesis
          unfolding takeWhile_sorted [OF sorted] by (intro filter_cong) auto
      qed
      moreover from this have "take (length (filter ?P ys)) ys = filter ?P ys"
        using takeWhile_eq_take [of "\<lambda>e. fst e \<le> hi" ys] by simp
      ultimately show ?thesis by (simp add: m)
    qed
    define out where "out = filter ?P xs"
    have out: "(if length xs \<noteq> 0 \<and>
          (bs_addr (snd (m ! (length xs - 1))) + bs_byte_size (snd (m ! (length xs - 1)))) mod 2 ^ 64 > lo
        then snd (Add_site (snd (m ! (length xs - 1))) []) else []) = out"
    proof (cases xs rule: rev_cases)
      case Nil
      then show ?thesis by (simp add: out_def)
    next
      case (snoc xs' x)
      have x: "fst x = bs_addr (snd x)" "bs_addr (snd x) + bs_byte_size (snd x) < 2 ^ 64"
        using assms(1) m snoc by (auto simp: site_range_ok_def)
      have "\<forall>e \<in> set xs'. fst e + bs_byte_size (snd e) \<le> fst x"
        using assms(1) m snoc by (auto simp: site_before_def)
      then have "filter ?P xs' = []"
        using xs snoc by (auto simp: filter_empty_conv)
      moreover have "m ! (length xs - 1) = x" using m snoc by (simp add: nth_append)
      ultimately show ?thesis
        using x xs snoc assms(2) by (cases x) (auto simp: out_def Add_site_def)
    qed
    have "fold (\<lambda>e out. snd (Add_site (snd e) out)) (filter ?P ys) out = out @ filter ?P ys"
    proof (rule add_sites)
      have "out @ filter ?P ys = filter ?P m" by (simp add: out_def m)
      moreover have "map_sorted (filter ?P m)"
        using sites_apart_sorted [OF assms(1)] by (simp add: map_sorted_def sorted_wrt_map sorted_wrt_filter)
      ultimately show "map_sorted (out @ filter ?P ys)" by simp
    qed (use assms(1) m in \<open>auto simp: sites_apart_def\<close>)
    moreover have "length xs \<noteq> length m" "fst (m ! length xs) < hi"
      using m y by simp_all
    ultimately show ?thesis
      using True assms(2)
      unfolding FindInRange_def Let_def lower [folded m] out fys by (simp add: out_def m)
  qed
qed

text \<open>The part of a range that a site covers, when neither wraps around.\<close>

lemma IntersectsRange_eq:
  assumes "site_range_ok s" "addr + n < 2 ^ 64"
  shows "IntersectsRange addr n s =
    (let a = bs_addr s; b = a + bs_byte_size s; lo = max addr a
     in if addr < b \<and> a < addr + n then Some (lo, min b (addr + n) - lo, lo - a) else None)"
proof -
  have "(min b (addr + n) + 2 ^ 64 - lo) mod 2 ^ 64 = min b (addr + n) - lo"
    if "lo \<le> min b (addr + n)" "b < 2 ^ 64" for b lo
  proof -
    have "min b (addr + n) + 2 ^ 64 - lo = (min b (addr + n) - lo) + 2 ^ 64"
      using that by simp
    moreover have "min b (addr + n) - lo < 2 ^ 64"
      using assms(2) by simp
    ultimately show ?thesis by (simp only: mod_add_self2 mod_less)
  qed
  then show ?thesis
    using assms by (auto simp: IntersectsRange_def Let_def site_range_ok_def max_def)
qed

end
