(* ===== verification/ProcessMemory.thy ===== *)
theory ProcessMemory
  imports DataExtractor MemoryAllocator MemoryCache BreakpointSites
begin

text \<open>
  How the debugger reads and writes the memory of a process with breakpoints in it, and
  allocates in it (the memory and breakpoint operations of \<open>Process\<close>, source/Target/Process.cpp, and
  \<open>Platform::GetSoftwareBreakpointTrapOpcode\<close>, source/Target/Platform.cpp), on top of the cache, the
  allocator and the site list.

  The process that is debugged is its memory, with two parameters that read and write it
  (\<open>DoReadMemory\<close>, \<open>DoWriteMemory\<close> of the process plugin); each call sets the
  status, to success too, as those of ProcessGDBRemote do. Traps are in software,
  as the plugins do that leave it to this class (ProcessFreeBSD, ProcessKDP, and ProcessGDBRemote with stubs that
  have no Z packets). \<open>None\<close> of \<open>WriteMemory\<close> is a use of
  variables that were not initialised, or a copy from behind the buffer.
\<close>

section \<open>The object\<close>

type_synonym memory = "nat \<Rightarrow> u8"

datatype process_error = process_failed mem_error | generic_error | message string

datatype state_type =
    eStateInvalid | eStateUnloaded | eStateConnected | eStateAttaching | eStateLaunching | eStateStopped
  | eStateRunning | eStateStepping | eStateCrashed | eStateDetached | eStateExited | eStateSuspended

datatype can_jit = eCanJITDontKnow | eCanJITYes | eCanJITNo

text \<open>The machines of \<open>llvm::Triple\<close> that have a trap; any other is unreachable code.\<close>

datatype machine =
    aarch64 | arm | mips | mips64 | mipsel | mips64el | systemz | hexagon | ppc | ppc64 | ppc64le
  | x86 | x86_64_machine

record process_env =
  DoReadMemory :: "memory \<Rightarrow> inferior"
  DoWriteMemory :: "memory \<Rightarrow> nat \<Rightarrow> u8 list \<Rightarrow> nat \<times> mem_error option \<times> memory"
  pe_pages :: page_source
  pe_machine :: machine
  pe_alternate_ISA :: "bp_site \<Rightarrow> bool"
  pe_disable_memory_cache :: bool
  pe_byte_order :: byte_order
  pe_address_byte_size :: nat

record process =
  pr_memory :: memory
  pr_sites :: site_list
  pr_next_site_id :: nat
  pr_cache :: memory_cache
  pr_allocated :: allocated_memory_cache
  pr_memory_id :: nat
  pr_private_state :: state_type
  pr_can_jit :: can_jit

definition IsAlive :: "process \<Rightarrow> bool" where
  "IsAlive p \<longleftrightarrow> pr_private_state p \<in> {eStateConnected, eStateAttaching, eStateLaunching, eStateStopped,
     eStateRunning, eStateStepping, eStateCrashed, eStateSuspended}"

section \<open>Traps\<close>

definition trap_opcode :: "machine \<Rightarrow> bool \<Rightarrow> u8 list" where
  "trap_opcode m alternate_ISA =
     (case m of
        aarch64 \<Rightarrow> [0x00, 0x00, 0x20, 0xd4]
      | arm \<Rightarrow> if alternate_ISA then [0x01, 0xde] else [0xf0, 0x01, 0xf0, 0xe7]
      | mips \<Rightarrow> [0x00, 0x00, 0x00, 0x0d]
      | mips64 \<Rightarrow> [0x00, 0x00, 0x00, 0x0d]
      | mipsel \<Rightarrow> [0x0d, 0x00, 0x00, 0x00]
      | mips64el \<Rightarrow> [0x0d, 0x00, 0x00, 0x00]
      | systemz \<Rightarrow> [0x00, 0x01]
      | hexagon \<Rightarrow> [0x0c, 0xdb, 0x00, 0x54]
      | ppc \<Rightarrow> [0x7f, 0xe0, 0x00, 0x08]
      | ppc64 \<Rightarrow> [0x7f, 0xe0, 0x00, 0x08]
      | ppc64le \<Rightarrow> [0x08, 0x00, 0xe0, 0x7f]
      | x86 \<Rightarrow> [0xCC]
      | x86_64_machine \<Rightarrow> [0xCC])"

definition GetSoftwareBreakpointTrapOpcode :: "process_env \<Rightarrow> bp_site \<Rightarrow> nat \<times> bp_site" where
  "GetSoftwareBreakpointTrapOpcode env s =
     (let opcode = trap_opcode (pe_machine env) (pe_alternate_ISA env s);
          (ok, s) = SetTrapOpcode opcode s
      in (if ok then length opcode else 0, s))"

text \<open>The status, the site, and the process.\<close>

definition EnableSoftwareBreakpoint ::
  "process_env \<Rightarrow> bp_site \<Rightarrow> process \<Rightarrow> process_error option \<times> bp_site \<times> process" where
  "EnableSoftwareBreakpoint env s p =
     (if bs_enabled s then (None, s, p)
      else if bs_addr s = LLDB_INVALID_ADDRESS then (Some (message ''invalid load address''), s, p)
      else case GetSoftwareBreakpointTrapOpcode env s of (n, s) \<Rightarrow>
        if n = 0 then (Some (message ''no trap opcode''), s, p)
        else case DoReadMemory env (pr_memory p) (bs_addr s) n of (saved, _) \<Rightarrow>
          let s = s\<lparr>bs_saved_opcode := overwrite 0 saved (bs_saved_opcode s)\<rparr>;
              opcode = take n (bs_trap_opcode s)
          in if length saved \<noteq> n then (Some (message ''unable to read memory''), s, p)
             else case DoWriteMemory env (pr_memory p) (bs_addr s) opcode of (written, _, mem) \<Rightarrow>
               let p = p\<lparr>pr_memory := mem\<rparr>
               in if written \<noteq> n then (Some (message ''unable to write trap''), s, p)
                  else case DoReadMemory env mem (bs_addr s) n of (verify, error) \<Rightarrow>
                    if length verify \<noteq> n then (Some (message ''unable to read back''), s, p)
                    else if verify \<noteq> opcode then (Some (message ''failed to verify''), s, p)
                    else (map_option process_failed error, s\<lparr>bs_enabled := True, bs_type := eSoftware\<rparr>, p))"

definition DisableSoftwareBreakpoint ::
  "process_env \<Rightarrow> bp_site \<Rightarrow> process \<Rightarrow> process_error option \<times> bp_site \<times> process" where
  "DisableSoftwareBreakpoint env s p =
     (if IsHardware s then (Some (message ''hardware breakpoint''), s, p)
      else if \<not> bs_enabled s then (None, s, p)
      else let n = bs_byte_size s; saved = take n (bs_saved_opcode s)
      in if n = 0 then (None, s, p)
      else case DoReadMemory env (pr_memory p) (bs_addr s) n of (current, _) \<Rightarrow>
        if length current \<noteq> n then (Some (message ''unable to read trap''), s, p)
        else let found = current = take n (bs_trap_opcode s);
                 (written, mem) =
                   (if found
                    then (case DoWriteMemory env (pr_memory p) (bs_addr s) saved of (written, _, mem) \<Rightarrow> (written, mem))
                    else (n, pr_memory p));
                 p = p\<lparr>pr_memory := mem\<rparr>
             in if written \<noteq> n then (Some (message ''memory write failed''), s, p)
                else case DoReadMemory env mem (bs_addr s) n of (verify, error) \<Rightarrow>
                  if length verify \<noteq> n then (Some (message ''failed to read memory to verify''), s, p)
                  else if verify = saved
                  then (map_option process_failed error, s\<lparr>bs_enabled := False\<rparr>, p)
                  else (if found then Some (message ''failed to restore original opcode'')
                        else map_option process_failed error, s, p))"


text \<open>The switches that depend on the plugin take the software path.\<close>

definition DisableBreakpointSiteByID :: "process_env \<Rightarrow> nat \<Rightarrow> process \<Rightarrow> process_error option \<times> process" where
  "DisableBreakpointSiteByID env break_id p =
     (case FindByID break_id (pr_sites p) of
        Some s \<Rightarrow>
          if bs_enabled s
          then (case DisableSoftwareBreakpoint env s p of (error, s, p) \<Rightarrow>
                  (error, p\<lparr>pr_sites := map_put (bs_addr s) s (pr_sites p)\<rparr>))
          else (None, p)
      | None \<Rightarrow> (Some (message ''invalid breakpoint site ID''), p))"

definition EnableBreakpointSiteByID :: "process_env \<Rightarrow> nat \<Rightarrow> process \<Rightarrow> process_error option \<times> process" where
  "EnableBreakpointSiteByID env break_id p =
     (case FindByID break_id (pr_sites p) of
        Some s \<Rightarrow>
          if \<not> bs_enabled s
          then (case EnableSoftwareBreakpoint env s p of (error, s, p) \<Rightarrow>
                  (error, p\<lparr>pr_sites := map_put (bs_addr s) s (pr_sites p)\<rparr>))
          else (None, p)
      | None \<Rightarrow> (Some (message ''invalid breakpoint site ID''), p))"

definition ClearBreakpointSiteByID :: "process_env \<Rightarrow> nat \<Rightarrow> process \<Rightarrow> process_error option \<times> process" where
  "ClearBreakpointSiteByID env break_id p =
     (case DisableBreakpointSiteByID env break_id p of (error, p) \<Rightarrow>
        (error, if error = None then p\<lparr>pr_sites := snd (Remove_site break_id (pr_sites p))\<rparr> else p))"

definition DisableAllBreakpointSites :: "process_env \<Rightarrow> process \<Rightarrow> process" where
  "DisableAllBreakpointSites env p =
     fold (\<lambda>e p. case DisableSoftwareBreakpoint env (snd e) p of (_, s, p) \<Rightarrow>
             p\<lparr>pr_sites := map_put (bs_addr s) s (pr_sites p)\<rparr>) (pr_sites p) p"

text \<open>The load address of the location is an argument. The number of the site, or
  \<open>LLDB_INVALID_BREAK_ID\<close>.\<close>

definition CreateBreakpointSite ::
  "process_env \<Rightarrow> break_location \<Rightarrow> nat \<Rightarrow> bool \<Rightarrow> process \<Rightarrow> nat \<times> process" where
  "CreateBreakpointSite env owner load_addr use_hardware p =
     (if load_addr = LLDB_INVALID_ADDRESS then (LLDB_INVALID_BREAK_ID, p)
      else case FindByAddress load_addr (pr_sites p) of
        Some s \<Rightarrow> (bs_id s, p\<lparr>pr_sites := map_put load_addr (AddOwner owner s) (pr_sites p)\<rparr>)
      | None \<Rightarrow>
          let s = new_BreakpointSite (pr_next_site_id p) owner load_addr use_hardware;
              p = p\<lparr>pr_next_site_id := pr_next_site_id p + 1\<rparr>
          in case EnableSoftwareBreakpoint env s p of (error, s, p) \<Rightarrow>
               if error = None
               then (case Add_site s (pr_sites p) of (site_id, sites) \<Rightarrow> (site_id, p\<lparr>pr_sites := sites\<rparr>))
               else (LLDB_INVALID_BREAK_ID, p))"

definition RemoveOwnerFromBreakpointSite :: "process_env \<Rightarrow> int \<Rightarrow> int \<Rightarrow> bp_site \<Rightarrow> process \<Rightarrow> process" where
  "RemoveOwnerFromBreakpointSite env owner_id owner_loc_id s p =
     (case RemoveOwner owner_id owner_loc_id s of (num_owners, s) \<Rightarrow>
        let p = p\<lparr>pr_sites := map_put (bs_addr s) s (pr_sites p)\<rparr>
        in if num_owners = 0
           then let p = (if IsAlive p then snd (snd (DisableSoftwareBreakpoint env s p)) else p)
                in p\<lparr>pr_sites := snd (RemoveByAddress (bs_addr s) (pr_sites p))\<rparr>
           else p)"

section \<open>Reading\<close>

text \<open>The bytes of a buffer that a trap covers are replaced by the bytes that the trap replaced.\<close>

definition RemoveBreakpointOpcodesFromBuffer :: "nat \<Rightarrow> u8 list \<Rightarrow> process \<Rightarrow> u8 list" where
  "RemoveBreakpointOpcodesFromBuffer bp_addr buf p =
     (case FindInRange bp_addr ((bp_addr + length buf) mod 2 ^ 64) (pr_sites p) [] of
        (True, found) \<Rightarrow>
          fold (\<lambda>e b.
              if bs_type (snd e) = eSoftware
              then case IntersectsRange bp_addr (length buf) (snd e) of
                     Some (intersect_addr, intersect_size, opcode_offset) \<Rightarrow>
                       overwrite (intersect_addr - bp_addr)
                         (take intersect_size (drop opcode_offset (bs_saved_opcode (snd e)))) b
                   | None \<Rightarrow> b
              else b) found buf
      | (False, _) \<Rightarrow> buf)"

function inferior_read_loop :: "inferior \<Rightarrow> nat \<Rightarrow> nat \<Rightarrow> u8 list \<Rightarrow> mem_error option \<Rightarrow> u8 list \<times> mem_error option" where
  "inferior_read_loop do_read addr n buf error =
     (if length buf < n
      then let curr_size = n - length buf;
               (bs, error) = do_read ((addr + length buf) mod 2 ^ 64) curr_size
           in if length bs = curr_size \<or> bs = [] then (buf @ bs, error)
              else inferior_read_loop do_read addr n (buf @ bs) error
      else (buf, error))"
  by pat_completeness auto
termination
  by (relation "measure (\<lambda>(do_read, addr, n, buf, error). n - length buf)")
    (auto simp flip: length_greater_0_conv)

definition ReadMemoryFromInferior :: "process_env \<Rightarrow> process \<Rightarrow> inferior" where
  "ReadMemoryFromInferior env p addr n =
     (if n = 0 then ([], None)
      else case inferior_read_loop (DoReadMemory env (pr_memory p)) addr n [] None of
             (buf, error) \<Rightarrow> (if buf \<noteq> [] then RemoveBreakpointOpcodesFromBuffer addr buf p else buf, error))"

definition ReadMemory ::
  "process_env \<Rightarrow> nat \<Rightarrow> nat \<Rightarrow> process \<Rightarrow> (u8 list \<times> mem_error option \<times> process) option" where
  "ReadMemory env addr n p =
     (if \<not> pe_disable_memory_cache env
      then do {
        (bs, error, c) \<leftarrow> Read (ReadMemoryFromInferior env p) addr n (pr_cache p);
        Some (bs, error, p\<lparr>pr_cache := c\<rparr>) }
      else (case ReadMemoryFromInferior env p addr n of (bs, error) \<Rightarrow> Some (bs, error, p)))"

section \<open>Writing\<close>

function write_loop ::
  "(memory \<Rightarrow> nat \<Rightarrow> u8 list \<Rightarrow> nat \<times> mem_error option \<times> memory) \<Rightarrow> nat \<Rightarrow> u8 list \<Rightarrow> nat \<Rightarrow>
   process_error option \<Rightarrow> memory \<Rightarrow> nat \<times> process_error option \<times> memory" where
  "write_loop do_write addr bytes written error mem =
     (if written < length bytes
      then let (k, error, mem) = do_write mem ((addr + written) mod 2 ^ 64) (drop written bytes)
           in if k = length bytes - written \<or> k = 0 then (written + k, map_option process_failed error, mem)
              else write_loop do_write addr bytes (written + k) (map_option process_failed error) mem
      else (written, error, mem))"
  by pat_completeness auto
termination
  by (relation "measure (\<lambda>(do_write, addr, bytes, written, error, mem). length bytes - written)") auto

definition WriteMemoryPrivate ::
  "process_env \<Rightarrow> nat \<Rightarrow> u8 list \<Rightarrow> process_error option \<Rightarrow> process \<Rightarrow> nat \<times> process_error option \<times> process" where
  "WriteMemoryPrivate env addr bytes error p =
     (case write_loop (DoWriteMemory env) addr bytes 0 error (pr_memory p) of
        (written, error, mem) \<Rightarrow> (written, error, p\<lparr>pr_memory := mem\<rparr>))"

text \<open>The part of a write up to the end of a site, with the number of bytes written so far.\<close>

definition write_at_site ::
  "process_env \<Rightarrow> nat \<Rightarrow> u8 list \<Rightarrow> nat \<times> bp_site \<Rightarrow> nat \<times> process_error option \<times> process \<Rightarrow>
   (nat \<times> process_error option \<times> process) option" where
  "write_at_site env addr bytes e =
     (\<lambda>(written, error, p).
        if error \<noteq> None then Some (written, error, p)
        else case IntersectsRange addr (length bytes) (snd e) of
          None \<Rightarrow> None
        | Some (intersect_addr, intersect_size, opcode_offset) \<Rightarrow>
            let curr_addr = (addr + written) mod 2 ^ 64;
                (written, error, p) =
                  (if intersect_addr > curr_addr
                   then (let curr_size = intersect_addr - curr_addr;
                             (k, error, p) = WriteMemoryPrivate env curr_addr (take curr_size (drop written bytes)) error p
                         in (written + k,
                             if k \<noteq> curr_size \<and> error = None then Some generic_error else error, p))
                   else (written, error, p))
            in if written + intersect_size \<le> length bytes
               then let s = (snd e)\<lparr>bs_saved_opcode :=
                          overwrite opcode_offset (take intersect_size (drop written bytes)) (bs_saved_opcode (snd e))\<rparr>
                    in Some (written + intersect_size, error, p\<lparr>pr_sites := map_put (bs_addr s) s (pr_sites p)\<rparr>)
               else None)"

fun write_at_sites ::
  "process_env \<Rightarrow> nat \<Rightarrow> u8 list \<Rightarrow> site_list \<Rightarrow> nat \<times> process_error option \<times> process \<Rightarrow>
   (nat \<times> process_error option \<times> process) option" where
  "write_at_sites env addr bytes [] r = Some r"
| "write_at_sites env addr bytes (e # es) r =
     write_at_site env addr bytes e r \<bind> write_at_sites env addr bytes es"

text \<open>The number of bytes returned, the status, and the process.\<close>

definition WriteMemory ::
  "process_env \<Rightarrow> nat \<Rightarrow> u8 list \<Rightarrow> process_error option \<Rightarrow> process \<Rightarrow>
   (nat \<times> process_error option \<times> process) option" where
  "WriteMemory env addr bytes error p =
     (let p = p\<lparr>pr_cache := Flush addr (length bytes) (pr_cache p)\<rparr>
      in if bytes = [] then Some (0, error, p)
         else let p = p\<lparr>pr_memory_id := (pr_memory_id p + 1) mod 2 ^ 32\<rparr>
              in case FindInRange addr ((addr + length bytes) mod 2 ^ 64) (pr_sites p) [] of
                   (True, found) \<Rightarrow>
                     if found = [] then Some (WriteMemoryPrivate env addr bytes error p)
                     else do {
                       (written, error, p) \<leftarrow> write_at_sites env addr bytes found (0, error, p);
                       let (_, error, p) =
                         (if written < length bytes
                          then WriteMemoryPrivate env ((addr + written) mod 2 ^ 64) (drop written bytes) error p
                          else (0, error, p))
                       in Some (0, error, p) }
                 | (False, _) \<Rightarrow> Some (WriteMemoryPrivate env addr bytes error p))"

section \<open>Strings and integers\<close>

text \<open>The bytes of a string up to its terminator, which are what is counted.\<close>

function cstr_loop ::
  "process_env \<Rightarrow> nat \<Rightarrow> nat \<Rightarrow> u8 list \<Rightarrow> process \<Rightarrow> (u8 list \<times> mem_error option \<times> process) option" where
  "cstr_loop env addr bytes_left str p =
     (if bytes_left = 0 then Some (str, None, p)
      else let line = mc_line (pr_cache p);
               bytes_to_read = min bytes_left (line - addr mod line)
           in case ReadMemory env addr bytes_to_read p of
                None \<Rightarrow> None
              | Some (bs, error, p) \<Rightarrow>
                  if bs = [] then Some (str, error, p)
                  else let chars = takeWhile (\<lambda>b. b \<noteq> 0) bs
                       in if length chars < bytes_to_read then Some (str @ chars, None, p)
                          else cstr_loop env ((addr + length bs) mod 2 ^ 64) (bytes_left - length bs) (str @ chars) p)"
  by pat_completeness auto
termination
  by (relation "measure (\<lambda>(env, addr, bytes_left, str, p). bytes_left)") (auto simp flip: length_greater_0_conv)

definition ReadCStringFromMemory ::
  "process_env \<Rightarrow> nat \<Rightarrow> nat \<Rightarrow> process \<Rightarrow> (u8 list \<times> mem_error option \<times> process) option" where
  "ReadCStringFromMemory env addr dst_max_len p =
     (if dst_max_len = 0 then Some ([], None, p) else cstr_loop env addr (dst_max_len - 1) [] p)"

text \<open>The variant that reads a string of any length, in pieces of 255 bytes.\<close>

partial_function (option) ReadCStringFromMemory_string ::
  "process_env \<Rightarrow> nat \<Rightarrow> u8 list \<Rightarrow> process \<Rightarrow> (u8 list \<times> process) option" where
  "ReadCStringFromMemory_string env addr str p =
     do {
       (chars, _, p) \<leftarrow> ReadCStringFromMemory env addr 256 p;
       if length chars = 255
       then ReadCStringFromMemory_string env ((addr + 255) mod 2 ^ 64) (str @ chars) p
       else Some (str @ chars, p) }"

text \<open>The first terminator of \<open>w\<close> bytes at a position that is aligned to \<open>w\<close>.\<close>

function find_terminator :: "nat \<Rightarrow> u8 list \<Rightarrow> nat \<Rightarrow> nat option" where
  "find_terminator w bs i =
     (if 0 < w \<and> i + w \<le> length bs
      then if take w (drop i bs) = replicate w 0 then Some i else find_terminator w bs (i + w)
      else None)"
  by pat_completeness auto
termination
  by (relation "measure (\<lambda>(w, bs, i). length bs - i)") auto

function string_loop ::
  "process_env \<Rightarrow> nat \<Rightarrow> nat \<Rightarrow> nat \<Rightarrow> u8 list \<Rightarrow> process \<Rightarrow> (nat \<times> u8 list \<times> mem_error option \<times> process) option" where
  "string_loop env type_width addr bytes_left dst p =
     (if bytes_left = 0 then Some (length dst, dst, None, p)
      else let line = mc_line (pr_cache p)
           in case ReadMemory env addr (min bytes_left (line - addr mod line)) p of
                None \<Rightarrow> None
              | Some (bs, error, p) \<Rightarrow>
                  if bs = [] then Some (length dst, dst, error, p)
                  else case find_terminator type_width (dst @ bs) (length dst - length dst mod type_width) of
                         Some i \<Rightarrow> Some (i, dst @ bs, None, p)
                       | None \<Rightarrow>
                           if error \<noteq> None then Some (length (dst @ bs), dst @ bs, error, p)
                           else string_loop env type_width ((addr + length bs) mod 2 ^ 64) (bytes_left - length bs) (dst @ bs) p)"
  by pat_completeness auto
termination
  by (relation "measure (\<lambda>(env, type_width, addr, bytes_left, dst, p). bytes_left)") (auto simp flip: length_greater_0_conv)

text \<open>The count, and the bytes in the buffer; the rest of the buffer is zero.\<close>

definition ReadStringFromMemory ::
  "process_env \<Rightarrow> nat \<Rightarrow> nat \<Rightarrow> nat \<Rightarrow> process \<Rightarrow> (nat \<times> u8 list \<times> process_error option \<times> process) option" where
  "ReadStringFromMemory env addr max_bytes type_width p =
     (if 0 < type_width \<and> type_width \<le> max_bytes
      then do {
        (n, dst, error, p) \<leftarrow> string_loop env type_width addr (max_bytes - type_width) [] p;
        Some (n, dst, map_option process_failed error, p) }
      else Some (0, [], if 0 < max_bytes then Some (message ''invalid arguments'') else None, p))"

text \<open>An unsigned integer: the count of bytes read, 0 on failure, and the value.\<close>

definition ReadScalarIntegerFromMemory ::
  "platform \<Rightarrow> process_env \<Rightarrow> nat \<Rightarrow> u32 \<Rightarrow> process \<Rightarrow> (nat \<times> u64 \<times> process_error option \<times> process) option" where
  "ReadScalarIntegerFromMemory pl env addr byte_size p =
     (let n = unat byte_size
      in if byte_size = 0 then Some (0, 0, Some (message ''byte size is zero''), p)
         else if byte_size AND (byte_size - 1) \<noteq> 0 then Some (0, 0, Some (message ''not a power of 2''), p)
         else if n \<le> 8
         then do {
           (bs, error, p) \<leftarrow> ReadMemory env addr n p;
           if length bs = n
           then let data = DataExtractor_of_bytes (bs @ replicate (8 - n) 0) (pe_byte_order env) (pe_address_byte_size env) 1
                in Some (n, if n \<le> 4 then ucast (fst (GetMaxU32 pl data 0 n)) else fst (GetMaxU64 pl data 0 n),
                         map_option process_failed error, p)
           else Some (0, 0, map_option process_failed error, p) }
         else Some (0, 0, Some (message ''byte size is too large''), p))"

definition ReadUnsignedIntegerFromMemory ::
  "platform \<Rightarrow> process_env \<Rightarrow> nat \<Rightarrow> nat \<Rightarrow> u64 \<Rightarrow> process \<Rightarrow> (u64 \<times> process_error option \<times> process) option" where
  "ReadUnsignedIntegerFromMemory pl env addr byte_size fail_value p =
     do {
       (n, v, error, p) \<leftarrow> ReadScalarIntegerFromMemory pl env addr (word_of_nat byte_size) p;
       Some (if n \<noteq> 0 then v else fail_value, error, p) }"

definition ReadPointerFromMemory ::
  "platform \<Rightarrow> process_env \<Rightarrow> nat \<Rightarrow> process \<Rightarrow> (u64 \<times> process_error option \<times> process) option" where
  "ReadPointerFromMemory pl env addr p =
     ReadUnsignedIntegerFromMemory pl env addr (pe_address_byte_size env) (word_of_nat LLDB_INVALID_ADDRESS) p"

section \<open>Allocating\<close>

text \<open>The status tells whether the process refused a page; nothing else that fails sets it.\<close>

definition AllocateMemory_process :: "process_env \<Rightarrow> nat \<Rightarrow> nat \<Rightarrow> process \<Rightarrow> nat \<times> process_error option \<times> process" where
  "AllocateMemory_process env n permissions p =
     (if pr_private_state p \<noteq> eStateStopped then (LLDB_INVALID_ADDRESS, Some generic_error, p)
      else let s = pr_allocated p;
               (addr, s') = AllocateMemory (pe_pages env) n permissions s;
               refused = fst (try_reserve n permissions (amc_map s)) = LLDB_INVALID_ADDRESS \<and>
                 fst (AllocatePage (pe_pages env) (n mod 2 ^ 32) permissions 16 s) = None
           in (addr, if refused then Some generic_error else None, p\<lparr>pr_allocated := s'\<rparr>))"

definition CallocateMemory ::
  "process_env \<Rightarrow> nat \<Rightarrow> nat \<Rightarrow> process \<Rightarrow> (nat \<times> process_error option \<times> process) option" where
  "CallocateMemory env n permissions p =
     (case AllocateMemory_process env n permissions p of (addr, error, p) \<Rightarrow>
        if error = None
        then do { (_, error, p) \<leftarrow> WriteMemory env addr (replicate n 0) error p; Some (addr, error, p) }
        else Some (addr, error, p))"

definition DeallocateMemory_process :: "nat \<Rightarrow> process \<Rightarrow> process_error option \<times> process" where
  "DeallocateMemory_process addr p =
     (case DeallocateMemory addr (pr_allocated p) of (success, s) \<Rightarrow>
        (if success then None else Some (message ''deallocation of memory failed''), p\<lparr>pr_allocated := s\<rparr>))"

definition CanJIT :: "process_env \<Rightarrow> process \<Rightarrow> bool \<times> process" where
  "CanJIT env p =
     (let p = (if pr_can_jit p = eCanJITDontKnow
               then case AllocateMemory_process env 8 7 p of (addr, error, p) \<Rightarrow>
                      snd (DeallocateMemory_process addr (p\<lparr>pr_can_jit := if error = None then eCanJITYes else eCanJITNo\<rparr>))
               else p)
      in (pr_can_jit p = eCanJITYes, p))"

definition SetCanJIT :: "bool \<Rightarrow> process \<Rightarrow> process" where
  "SetCanJIT can_jit p = p\<lparr>pr_can_jit := if can_jit then eCanJITYes else eCanJITNo\<rparr>"

end
