(* ===== verification/MemoryView.thy ===== *)
theory MemoryView
  imports ProcessMemory
begin

text \<open>
  What reading and writing with breakpoints means (\<open>ProcessMemory\<close>): the memory as the program
  has it, without the traps. Reads return it, writes change it, setting and clearing
  breakpoints leaves it alone; \<open>debug_session\<close> relates every state that these operations lead to
  with it. The last sections show where the code lets a trap through.
\<close>

section \<open>The memory as the program sees it\<close>

definition mem_write :: "nat \<Rightarrow> u8 list \<Rightarrow> memory \<Rightarrow> memory" where
  "mem_write a bs mem = (\<lambda>x. if a \<le> x \<and> x < a + length bs then bs ! (x - a) else mem x)"

lemma mem_write_Nil [simp]: "mem_write a [] mem = mem"
  by (rule ext) (auto simp: mem_write_def)

lemma mem_write_outside: "x < a \<or> a + length bs \<le> x \<Longrightarrow> mem_write a bs mem x = mem x"
  by (auto simp: mem_write_def)

lemma mem_write_append: "mem_write a (xs @ ys) mem = mem_write (a + length xs) ys (mem_write a xs mem)"
  by (auto simp: mem_write_def fun_eq_iff nth_append)

lemma mem_slice_write [simp]: "mem_slice (mem_write a bs mem) a (length bs) = bs"
  by (rule nth_equalityI) (simp_all add: mem_slice_def mem_write_def)

lemma mem_slice_outside:
  "a + length bs \<le> b \<or> b + n \<le> a \<Longrightarrow> mem_slice (mem_write a bs mem) b n = mem_slice mem b n"
  by (rule mem_slice_cong) (auto simp: mem_write_def)

lemma mem_write_commute:
  "a + length xs \<le> b \<or> b + length ys \<le> a \<Longrightarrow> mem_write a xs (mem_write b ys mem) = mem_write b ys (mem_write a xs mem)"
  by (auto simp: mem_write_def fun_eq_iff)

text \<open>The bytes that the trap of a site replaced are what the program has there.\<close>

definition saved_bytes :: "bp_site \<Rightarrow> u8 list" where
  "saved_bytes s = take (bs_byte_size s) (bs_saved_opcode s)"

definition patch :: "bp_site \<Rightarrow> memory \<Rightarrow> memory" where
  "patch s = mem_write (bs_addr s) (saved_bytes s)"

definition program_view :: "memory \<Rightarrow> site_list \<Rightarrow> memory" where
  "program_view mem m = fold (\<lambda>e. patch (snd e)) m mem"

text \<open>A site that is set: its trap is in memory.\<close>

definition site_ok :: "memory \<Rightarrow> bp_site \<Rightarrow> bool" where
  "site_ok mem s \<longleftrightarrow> site_range_ok s \<and> bs_type s = eSoftware \<and> bs_enabled s \<and> bs_byte_size s \<le> 8 \<and>
     length (bs_saved_opcode s) = 8 \<and> length (bs_trap_opcode s) = 8 \<and>
     mem_slice mem (bs_addr s) (bs_byte_size s) = take (bs_byte_size s) (bs_trap_opcode s)"

definition sites_ok :: "memory \<Rightarrow> site_list \<Rightarrow> bool" where
  "sites_ok mem m \<longleftrightarrow> sites_apart m \<and> (\<forall>e \<in> set m. site_ok mem (snd e))"

text \<open>The plugin transfers a part of what is asked for, and small pieces whole.\<close>

definition plugin_ok :: "process_env \<Rightarrow> bool" where
  "plugin_ok env \<longleftrightarrow>
     (\<forall>mem a n. 0 < n \<longrightarrow> a + n < 2 ^ 64 \<longrightarrow> (\<exists>k. 0 < k \<and> k \<le> n \<and> (n \<le> 8 \<longrightarrow> k = n) \<and>
        DoReadMemory env mem a n = (mem_slice mem a k, None))) \<and>
     (\<forall>mem a bs. bs \<noteq> [] \<longrightarrow> a + length bs < 2 ^ 64 \<longrightarrow> (\<exists>k. 0 < k \<and> k \<le> length bs \<and> (length bs \<le> 8 \<longrightarrow> k = length bs) \<and>
        DoWriteMemory env mem a bs = (k, None, mem_write a (take k bs) mem)))"

lemma length_saved_bytes: "site_ok mem s \<Longrightarrow> length (saved_bytes s) = bs_byte_size s"
  by (simp add: site_ok_def saved_bytes_def)

section \<open>The loops over the plugin\<close>

declare inferior_read_loop.simps [simp del] write_loop.simps [simp del]

lemma inferior_read_loop_ok:
  assumes "plugin_ok env" "addr + n < 2 ^ 64"
    and "buf = mem_slice mem addr (length buf)" "length buf < n"
  shows "inferior_read_loop (DoReadMemory env mem) addr n buf error = (mem_slice mem addr n, None)"
  using assms(3,4)
proof (induction "n - length buf" arbitrary: buf error rule: less_induct)
  case less
  let ?m = "n - length buf"
  have "addr + length buf + ?m < 2 ^ 64" using assms(2) less.prems(2) by simp
  moreover have "0 < ?m" using less.prems(2) by simp
  ultimately obtain k where k: "0 < k" "k \<le> ?m"
      "DoReadMemory env mem (addr + length buf) ?m = (mem_slice mem (addr + length buf) k, None)"
    using assms(1) unfolding plugin_ok_def by blast
  have small: "(addr + length buf) mod 2 ^ 64 = addr + length buf"
    using assms(2) less.prems(2) by simp
  have buf: "buf @ mem_slice mem (addr + length buf) k = mem_slice mem addr (length buf + k)"
    by (subst less.prems(1)) (simp add: mem_slice_append)
  show ?case
  proof (cases "k = ?m")
    case True
    then have "length buf + k = n" using less.prems(2) by simp
    with True buf k(3) small show ?thesis
      using less.prems(2) by (subst inferior_read_loop.simps) (simp add: Let_def)
  next
    case False
    let ?buf = "mem_slice mem addr (length buf + k)"
    have "inferior_read_loop (DoReadMemory env mem) addr n ?buf None = (mem_slice mem addr n, None)"
      using False k less.prems(2) by (intro less.hyps) simp_all
    moreover have "mem_slice mem (addr + length buf) k \<noteq> []"
      using k(1) by (simp add: mem_slice_def)
    ultimately show ?thesis
      using False buf k(3) small less.prems(2) by (subst inferior_read_loop.simps) (simp add: Let_def)
  qed
qed

lemma write_loop_ok:
  assumes "plugin_ok env" "addr + length bytes < 2 ^ 64" "written < length bytes"
  shows "write_loop (DoWriteMemory env) addr bytes written error mem =
    (length bytes, None, mem_write (addr + written) (drop written bytes) mem)"
  using assms(3)
proof (induction "length bytes - written" arbitrary: written error mem rule: less_induct)
  case less
  let ?bs = "drop written bytes"
  have "addr + written + length ?bs < 2 ^ 64" "?bs \<noteq> []" using assms(2) less.prems by simp_all
  then obtain k where k: "0 < k" "k \<le> length ?bs"
      "DoWriteMemory env mem (addr + written) ?bs = (k, None, mem_write (addr + written) (take k ?bs) mem)"
    using assms(1) unfolding plugin_ok_def by blast
  have small: "(addr + written) mod 2 ^ 64 = addr + written"
    using assms(2) less.prems by simp
  show ?case
  proof (cases "k = length bytes - written")
    case True
    with k small less.prems show ?thesis
      by (subst write_loop.simps) (simp add: Let_def)
  next
    case False
    let ?mem = "mem_write (addr + written) (take k ?bs) mem"
    have "write_loop (DoWriteMemory env) addr bytes (written + k) None ?mem =
        (length bytes, None, mem_write (addr + (written + k)) (drop (written + k) bytes) ?mem)"
      using False k less.prems by (intro less.hyps) auto
    moreover have "mem_write (addr + written) ?bs mem =
        mem_write (addr + written + length (take k ?bs)) (drop k ?bs) ?mem"
      by (subst append_take_drop_id [of k ?bs, symmetric]) (rule mem_write_append)
    ultimately show ?thesis
      using False k small less.prems
      by (subst write_loop.simps) (simp add: Let_def add.assoc add.commute)
  qed
qed

lemma WriteMemoryPrivate_ok:
  assumes "plugin_ok env" "addr + length bytes < 2 ^ 64" "bytes \<noteq> []"
  shows "WriteMemoryPrivate env addr bytes error p =
    (length bytes, None, p\<lparr>pr_memory := mem_write addr bytes (pr_memory p)\<rparr>)"
  using write_loop_ok [OF assms(1,2), of 0] assms(3) by (simp add: WriteMemoryPrivate_def)

section \<open>Reading hides the traps\<close>

lemma overwrite_slice:
  assumes "addr \<le> a" "a + length bs \<le> addr + n"
  shows "overwrite (a - addr) bs (mem_slice f addr n) = mem_slice (mem_write a bs f) addr n"
  using assms
  by (intro nth_equalityI) (auto simp: overwrite_def mem_slice_def mem_write_def nth_append add.commute)

lemma overwrite_site:
  assumes "site_ok mem s" "addr + n < 2 ^ 64"
  shows "(case IntersectsRange addr n s of
      Some (ia, isz, off) \<Rightarrow> overwrite (ia - addr) (take isz (drop off (bs_saved_opcode s))) (mem_slice f addr n)
    | None \<Rightarrow> mem_slice f addr n) = mem_slice (patch s f) addr n"
proof -
  let ?a = "bs_addr s" and ?b = "bs_addr s + bs_byte_size s"
  let ?lo = "max addr ?a" and ?hi = "min ?b (addr + n)"
  note len = length_saved_bytes [OF assms(1)]
  have s: "site_range_ok s" "bs_byte_size s \<le> length (bs_saved_opcode s)"
    using assms(1) by (simp_all add: site_ok_def)
  show ?thesis
  proof (cases "addr < ?b \<and> ?a < addr + n")
    case True
    let ?bs = "take (?hi - ?lo) (drop (?lo - ?a) (bs_saved_opcode s))"
    have l: "length ?bs = ?hi - ?lo"
      using s(2) by auto
    have "overwrite (?lo - addr) ?bs (mem_slice f addr n) = mem_slice (mem_write ?lo ?bs f) addr n"
      using True l by (intro overwrite_slice) auto
    also have "\<dots> = mem_slice (patch s f) addr n"
    proof (rule mem_slice_cong)
      fix x assume "addr \<le> x" "x < addr + n"
      then show "mem_write ?lo ?bs f x = patch s f x"
        using l len s(2) unfolding patch_def mem_write_def
        by (auto simp: saved_bytes_def)
    qed
    finally show ?thesis
      using True by (simp add: IntersectsRange_eq [OF s(1) assms(2)] Let_def)
  next
    case False
    then have "mem_slice (patch s f) addr n = mem_slice f addr n"
      unfolding patch_def by (intro mem_slice_outside) (auto simp: len)
    with False show ?thesis
      by (auto simp: IntersectsRange_eq [OF s(1) assms(2)] Let_def)
  qed
qed

lemma fold_patch_cong: "f x = g x \<Longrightarrow> fold (\<lambda>e. patch (snd e)) m f x = fold (\<lambda>e. patch (snd e)) m g x"
proof (induction m arbitrary: f g)
  case (Cons e m)
  then have "patch (snd e) f x = patch (snd e) g x" by (simp add: patch_def mem_write_def)
  with Cons.IH [of "patch (snd e) f" "patch (snd e) g"] show ?case by simp
qed simp

lemma fold_patch_filter:
  assumes "\<forall>e \<in> set m. \<not> P e \<longrightarrow> x < bs_addr (snd e) \<or> bs_addr (snd e) + length (saved_bytes (snd e)) \<le> x"
  shows "fold (\<lambda>e. patch (snd e)) (filter P m) f x = fold (\<lambda>e. patch (snd e)) m f x"
  using assms
proof (induction m arbitrary: f)
  case (Cons e m)
  show ?case
  proof (cases "P e")
    case False
    then have "patch (snd e) f x = f x"
      using Cons.prems by (auto simp: patch_def mem_write_outside)
    from fold_patch_cong [of "patch (snd e) f" x f m, OF this]
    have "fold (\<lambda>e. patch (snd e)) (e # m) f x = fold (\<lambda>e. patch (snd e)) m f x" by simp
    moreover have "fold (\<lambda>e. patch (snd e)) (filter P m) f x = fold (\<lambda>e. patch (snd e)) m f x"
      using Cons by simp
    ultimately show ?thesis using False by simp
  qed (use Cons in simp)
qed simp

text \<open>Where a site hides from a search by range: it covers the first byte but starts before it, and no other
  starts in the range.\<close>

definition hidden_at :: "nat \<Rightarrow> nat \<Rightarrow> site_list \<Rightarrow> bool" where
  "hidden_at addr n m \<longleftrightarrow> \<not> starts_within addr (addr + n) m \<and>
     (\<exists>e \<in> set m. fst e < addr \<and> addr < fst e + bs_byte_size (snd e))"

lemma RemoveBreakpointOpcodes_ok:
  assumes "sites_ok mem (pr_sites p)" "addr + n < 2 ^ 64" "\<not> hidden_at addr n (pr_sites p)"
  shows "RemoveBreakpointOpcodesFromBuffer addr (mem_slice mem addr n) p = mem_slice (program_view mem (pr_sites p)) addr n"
proof -
  let ?m = "pr_sites p"
  let ?P = "\<lambda>e. addr < fst e + bs_byte_size (snd e) \<and> fst e \<le> addr + n"
  have apart: "sites_apart ?m" and ok: "\<forall>e \<in> set ?m. site_ok mem (snd e) \<and> fst e = bs_addr (snd e)"
    using assms(1) by (auto simp: sites_ok_def sites_apart_def)
  have small: "(addr + n) mod 2 ^ 64 = addr + n" using assms(2) by simp
  have view: "mem_slice (fold (\<lambda>e. patch (snd e)) (filter ?P ?m) mem) addr n = mem_slice (program_view mem ?m) addr n"
    unfolding program_view_def
    by (intro mem_slice_cong fold_patch_filter) (use ok length_saved_bytes in force)
  show ?thesis
  proof (cases "starts_within addr (addr + n) ?m")
    case False
    have "filter (\<lambda>e. ?P e \<and> fst e \<noteq> addr + n) ?m = []"
      using False assms(3) by (fastforce simp: filter_empty_conv hidden_at_def starts_within_def)
    moreover have "mem_slice (fold (\<lambda>e. patch (snd e)) (filter (\<lambda>e. ?P e \<and> fst e \<noteq> addr + n) ?m) mem) addr n =
        mem_slice (program_view mem ?m) addr n"
      unfolding program_view_def
      by (intro mem_slice_cong fold_patch_filter) (use ok length_saved_bytes in force)
    ultimately have "mem_slice mem addr n = mem_slice (program_view mem ?m) addr n" by simp
    with False show ?thesis
      unfolding RemoveBreakpointOpcodesFromBuffer_def length_mem_slice small FindInRange_eq [OF apart le_add1]
      by simp
  next
    case True
    let ?step = "\<lambda>e buf. if bs_type (snd e) = eSoftware
        then case IntersectsRange addr n (snd e) of
               Some (ia, isz, off) \<Rightarrow> overwrite (ia - addr) (take isz (drop off (bs_saved_opcode (snd e)))) buf
             | None \<Rightarrow> buf
        else buf"
    have "fold ?step es (mem_slice f addr n) = mem_slice (fold (\<lambda>e. patch (snd e)) es f) addr n"
      if "set es \<subseteq> set ?m" for es f
      using that
    proof (induction es arbitrary: f)
      case (Cons e es)
      then have e: "site_ok mem (snd e)" using ok by auto
      have "?step e (mem_slice f addr n) = mem_slice (patch (snd e) f) addr n"
        using overwrite_site [OF e assms(2), of f] e by (simp add: site_ok_def)
      with Cons show ?case by simp
    qed simp
    from this [of "filter ?P ?m" mem] view show ?thesis
      using True unfolding RemoveBreakpointOpcodesFromBuffer_def length_mem_slice small FindInRange_eq [OF apart le_add1]
      by simp
  qed
qed

lemma ReadMemoryFromInferior_ok:
  assumes "plugin_ok env" "sites_ok (pr_memory p) (pr_sites p)" "addr + n < 2 ^ 64" "\<not> hidden_at addr n (pr_sites p)"
  shows "ReadMemoryFromInferior env p addr n = (mem_slice (program_view (pr_memory p) (pr_sites p)) addr n, None)"
proof (cases "n = 0")
  case False
  then have "mem_slice (pr_memory p) addr n \<noteq> []" by (simp add: mem_slice_def)
  with False show ?thesis
    using inferior_read_loop_ok [OF assms(1,3), of "[]" "pr_memory p" None] RemoveBreakpointOpcodes_ok [OF assms(2-4)]
    by (simp add: ReadMemoryFromInferior_def)
qed (simp add: ReadMemoryFromInferior_def)

section \<open>Writing keeps the traps\<close>

lemma view_write_outside:
  assumes "\<forall>e \<in> set m. site_ok mem (snd e) \<and> fst e = bs_addr (snd e)"
    and "\<forall>e \<in> set m. fst e + bs_byte_size (snd e) \<le> a \<or> a + length bs \<le> fst e"
  shows "program_view (mem_write a bs mem) m = mem_write a bs (program_view mem m)"
proof -
  have "fold (\<lambda>e. patch (snd e)) es (mem_write a bs f) = mem_write a bs (fold (\<lambda>e. patch (snd e)) es f)"
    if "set es \<subseteq> set m" for es f
    using that
  proof (induction es arbitrary: f)
    case (Cons e es)
    then have e: "site_ok mem (snd e)" "bs_addr (snd e) + bs_byte_size (snd e) \<le> a \<or> a + length bs \<le> bs_addr (snd e)"
      using assms by auto
    then have "patch (snd e) (mem_write a bs f) = mem_write a bs (patch (snd e) f)"
      unfolding patch_def by (intro mem_write_commute) (simp add: length_saved_bytes)
    with Cons show ?case by simp
  qed simp
  then show ?thesis by (simp add: program_view_def)
qed

lemma sites_ok_write_outside:
  assumes "sites_ok mem m" "\<forall>e \<in> set m. fst e + bs_byte_size (snd e) \<le> a \<or> a + length bs \<le> fst e"
  shows "sites_ok (mem_write a bs mem) m"
proof -
  have "mem_slice (mem_write a bs mem) (bs_addr (snd e)) (bs_byte_size (snd e)) = mem_slice mem (bs_addr (snd e)) (bs_byte_size (snd e))"
    if "e \<in> set m" for e
    using that assms by (intro mem_slice_outside) (auto simp: sites_ok_def sites_apart_def)
  then show ?thesis using assms(1) by (simp add: sites_ok_def site_ok_def)
qed

lemma map_put_replace:
  assumes "map_sorted (xs @ (a, s) # ys)"
  shows "map_put a s' (xs @ (a, s) # ys) = xs @ (a, s') # ys"
proof -
  have xs: "\<forall>e \<in> set xs. fst e < a" and ys: "\<forall>e \<in> set ys. a < fst e"
    using assms by (auto simp: map_sorted_def sorted_wrt_append)
  have "takeWhile (\<lambda>e. fst e < a) (xs @ (a, s) # ys) = xs"
    using xs by (auto simp: takeWhile_append takeWhile_eq_all_conv)
  moreover have "dropWhile (\<lambda>e. fst e \<le> a) (xs @ (a, s) # ys) = ys"
    using xs ys by (cases ys) (auto simp: dropWhile_append less_imp_le)
  ultimately show ?thesis by (simp add: map_put_def)
qed

text \<open>Bytes that go to a site are kept in its saved opcode.\<close>

definition save_at :: "nat \<Rightarrow> u8 list \<Rightarrow> bp_site \<Rightarrow> bp_site" where
  "save_at off bs s = s\<lparr>bs_saved_opcode := overwrite off bs (bs_saved_opcode s)\<rparr>"

lemma save_at_simps [simp]:
  "bs_addr (save_at off bs s) = bs_addr s" "bs_byte_size (save_at off bs s) = bs_byte_size s"
  "site_range_ok (save_at off bs s) = site_range_ok s"
  by (simp_all add: save_at_def site_range_ok_def IsHardware_def)

lemma save_at_ok:
  assumes "site_ok mem s" "off + length bs \<le> bs_byte_size s"
  shows "site_ok mem (save_at off bs s)"
    and "patch (save_at off bs s) f = mem_write (bs_addr s + off) bs (patch s f)"
proof -
  have l: "length (overwrite off bs (bs_saved_opcode s)) = length (bs_saved_opcode s)"
    using assms by (auto simp: overwrite_def site_ok_def)
  then show ok: "site_ok mem (save_at off bs s)"
    using assms(1) by (simp add: site_ok_def save_at_def site_range_ok_def IsHardware_def)
  have sz: "bs_byte_size s \<le> length (bs_saved_opcode s)"
    using assms(1) by (simp add: site_ok_def)
  have "(take (bs_byte_size s) (overwrite off bs (bs_saved_opcode s))) ! i =
      (if off \<le> i \<and> i < off + length bs then bs ! (i - off) else bs_saved_opcode s ! i)"
    if "i < bs_byte_size s" for i
    using that assms(2) sz by (auto simp: overwrite_def nth_append)
  then show "patch (save_at off bs s) f = mem_write (bs_addr s + off) bs (patch s f)"
    using assms(2) sz l
    by (auto simp: patch_def mem_write_def saved_bytes_def save_at_def fun_eq_iff)
qed

lemma save_site:
  assumes "sites_ok mem (pre @ (a, s) # post)" "off + length bs \<le> bs_byte_size s"
  shows "map_put a (save_at off bs s) (pre @ (a, s) # post) = pre @ (a, save_at off bs s) # post"
    and "sites_ok mem (pre @ (a, save_at off bs s) # post)"
    and "program_view mem (pre @ (a, save_at off bs s) # post) = mem_write (a + off) bs (program_view mem (pre @ (a, s) # post))"
proof -
  let ?s = "save_at off bs s"
  have apart: "sites_apart (pre @ (a, s) # post)" and s: "site_ok mem s" "a = bs_addr s"
    using assms(1) by (auto simp: sites_ok_def)
  show "map_put a ?s (pre @ (a, s) # post) = pre @ (a, ?s) # post"
    by (rule map_put_replace [OF sites_apart_sorted [OF apart]])
  show "sites_ok mem (pre @ (a, ?s) # post)"
    using assms(1) save_at_ok(1) [OF s(1) assms(2)] by (auto simp: sites_ok_def site_before_def)
  have "fold (\<lambda>e. patch (snd e)) es (mem_write (a + off) bs f) = mem_write (a + off) bs (fold (\<lambda>e. patch (snd e)) es f)"
    if "set es \<subseteq> set post" for es f
    using that
  proof (induction es arbitrary: f)
    case (Cons e es)
    then have "site_before (a, s) e" using apart by auto
    moreover have "fst e = bs_addr (snd e)" using Cons.prems apart by (simp add: sites_apart_def)
    ultimately have "patch (snd e) (mem_write (a + off) bs f) = mem_write (a + off) bs (patch (snd e) f)"
      unfolding patch_def using assms(2) by (intro mem_write_commute) (simp add: site_before_def)
    with Cons show ?case by simp
  qed simp
  then show "program_view mem (pre @ (a, ?s) # post) = mem_write (a + off) bs (program_view mem (pre @ (a, s) # post))"
    using save_at_ok(2) [OF s(1) assms(2)] by (simp add: program_view_def s(2))
qed

text \<open>One step: everything up to the end of the site.\<close>

lemma write_at_site_ok:
  assumes "plugin_ok env" "addr + length bytes < 2 ^ 64"
    and "sites_ok (pr_memory p) (pr_sites p)" "pr_sites p = pre @ (a, s) # post"
    and "addr < a + bs_byte_size s" "a < addr + length bytes"
    and "written \<le> length bytes" "addr + written \<le> max addr a" "\<forall>e \<in> set pre. fst e + bs_byte_size (snd e) \<le> addr + written"
  shows "\<exists>p' s'. let w = min (a + bs_byte_size s) (addr + length bytes) - addr in
    write_at_site env addr bytes (a, s) (written, None, p) = Some (w, None, p') \<and>
    p' = p\<lparr>pr_memory := pr_memory p', pr_sites := pre @ (a, s') # post\<rparr> \<and>
    bs_byte_size s' = bs_byte_size s \<and> sites_ok (pr_memory p') (pr_sites p') \<and>
    program_view (pr_memory p') (pr_sites p') =
      mem_write (addr + written) (take (w - written) (drop written bytes)) (program_view (pr_memory p) (pr_sites p))"
proof -
  let ?lo = "max addr a" and ?hi = "min (a + bs_byte_size s) (addr + length bytes)"
  have s: "site_ok (pr_memory p) s" "a = bs_addr s" and apart: "sites_apart (pre @ (a, s) # post)"
    and all: "\<forall>e \<in> set (pr_sites p). site_ok (pr_memory p) (snd e) \<and> fst e = bs_addr (snd e)"
    using assms(3,4) by (auto simp: sites_ok_def sites_apart_def)
  have range: "site_range_ok s" using s(1) by (simp add: site_ok_def)
  have x: "IntersectsRange addr (length bytes) s = Some (?lo, ?hi - ?lo, ?lo - a)"
    using assms(5,6) by (simp add: IntersectsRange_eq [OF range assms(2)] Let_def s(2))
  have small: "(addr + written) mod 2 ^ 64 = addr + written"
    using assms(2,7) by simp
  let ?n = "?lo - (addr + written)"
  let ?gap = "take ?n (drop written bytes)"
  have gap: "length ?gap = ?n" using assms(6-8) by (auto simp: max_def split: if_splits)
  define p1 where "p1 = p\<lparr>pr_memory := mem_write (addr + written) ?gap (pr_memory p)\<rparr>"
  have outside: "\<forall>e \<in> set (pr_sites p). fst e + bs_byte_size (snd e) \<le> addr + written \<or> addr + written + length ?gap \<le> fst e"
    if "?n > 0"
  proof -
    have "addr + written + length ?gap = a" using that gap assms(8) by (auto simp: max_def split: if_splits)
    moreover have "\<forall>e \<in> set post. a \<le> fst e"
      using apart by (auto simp: site_before_def)
    ultimately show ?thesis using assms(4,9) by auto
  qed
  have p1: "sites_ok (pr_memory p1) (pr_sites p)" "program_view (pr_memory p1) (pr_sites p) =
      mem_write (addr + written) ?gap (program_view (pr_memory p) (pr_sites p))"
    using outside assms(3) all
    by (cases "?n > 0"; simp add: p1_def sites_ok_write_outside view_write_outside)+
  have step1: "(if ?lo > (addr + written) mod 2 ^ 64
      then (let curr_size = ?lo - (addr + written) mod 2 ^ 64;
                (k, error, q) = WriteMemoryPrivate env ((addr + written) mod 2 ^ 64) (take curr_size (drop written bytes)) None p
            in (written + k, if k \<noteq> curr_size \<and> error = None then Some generic_error else error, q))
      else (written, None, p)) = (?lo - addr, None, p1)"
  proof (cases "?n > 0")
    case True
    have "addr + written + length ?gap < 2 ^ 64"
      using True gap assms(2,6,8) by (auto simp: max_def split: if_splits)
    moreover have "?gap \<noteq> []" using True gap by auto
    ultimately have "WriteMemoryPrivate env (addr + written) ?gap None p = (length ?gap, None, p1)"
      unfolding p1_def by (rule WriteMemoryPrivate_ok [OF assms(1)])
    with True gap assms(8) show ?thesis unfolding small by (simp add: Let_def)
  next
    case False
    then have "?lo = addr + written" using assms(8) by simp
    with False show ?thesis unfolding small by (simp add: p1_def)
  qed
  let ?bs = "take (?hi - ?lo) (drop (?lo - addr) bytes)"
  have bs: "length ?bs = ?hi - ?lo" using assms(5,6) by auto
  let ?s = "save_at (?lo - a) ?bs s"
  have fits: "?lo - a + length ?bs \<le> bs_byte_size s" using bs assms(5,6) by auto
  note save = save_site [OF p1(1) [unfolded assms(4)] fits]
  have step2: "write_at_site env addr bytes (a, s) (written, None, p) =
      Some (?hi - addr, None, p1\<lparr>pr_sites := pre @ (a, ?s) # post\<rparr>)"
  proof -
    have w: "?lo - addr + (?hi - ?lo) = ?hi - addr" "?hi - addr \<le> length bytes" using assms(5,6) by auto
    have new: "s\<lparr>bs_saved_opcode := overwrite (?lo - a) ?bs (bs_saved_opcode s)\<rparr> = ?s" by (simp add: save_at_def)
    have put: "map_put (bs_addr ?s) ?s (pr_sites p1) = pre @ (a, ?s) # post"
      using save(1) assms(4) s(2) by (simp add: p1_def)
    show ?thesis
      unfolding write_at_site_def prod.case snd_conv x option.case Let_def step1 [unfolded Let_def] w(1) new put
        if_P [OF w(2)] by simp
  qed
  have cat: "take (?hi - addr - written) (drop written bytes) = ?gap @ ?bs"
  proof -
    have "?hi - addr - written = ?n + (?hi - ?lo)" and w: "?n + written = ?lo - addr"
      using assms(5,6,8) by auto
    then show ?thesis by (simp only: take_add drop_drop w)
  qed
  have "mem_write (addr + written) (?gap @ ?bs) (program_view (pr_memory p) (pr_sites p)) =
      mem_write ?lo ?bs (program_view (pr_memory p1) (pr_sites p))"
    unfolding mem_write_append p1(2) gap using assms(8) by simp
  moreover have "a + (?lo - a) = ?lo" by simp
  ultimately show ?thesis
    unfolding Let_def cat step2 using save(2,3)
    by (intro exI [of _ "p1\<lparr>pr_sites := pre @ (a, ?s) # post\<rparr>"] exI [of _ ?s]) (simp add: p1_def assms(4))
qed

lemma same_rest:
  "p1 = p\<lparr>pr_memory := m1, pr_sites := s1\<rparr> \<Longrightarrow> p' = p1\<lparr>pr_memory := m', pr_sites := s'\<rparr> \<Longrightarrow>
   p' = p\<lparr>pr_memory := m', pr_sites := s'\<rparr>" for p p' p1 :: process
  by simp

lemma write_at_sites_ok:
  assumes "plugin_ok env" "addr + length bytes < 2 ^ 64" "bytes \<noteq> []"
    and "sites_ok (pr_memory p) (pr_sites p)" "pr_sites p = pre @ es @ post"
    and "\<forall>e \<in> set es. addr < fst e + bs_byte_size (snd e) \<and> fst e < addr + length bytes \<and> addr + written \<le> max addr (fst e)"
    and "written \<le> length bytes"
    and "written = length bytes \<or> (\<forall>e \<in> set pre. fst e + bs_byte_size (snd e) \<le> addr + written)"
    and "\<forall>e \<in> set post. addr + length bytes \<le> fst e"
  shows "\<exists>w p'. write_at_sites env addr bytes es (written, None, p) = Some (w, None, p') \<and>
    written \<le> w \<and> w \<le> length bytes \<and>
    p' = p\<lparr>pr_memory := pr_memory p', pr_sites := pr_sites p'\<rparr> \<and> sites_ok (pr_memory p') (pr_sites p') \<and>
    map (\<lambda>e. (fst e, bs_byte_size (snd e))) (pr_sites p') = map (\<lambda>e. (fst e, bs_byte_size (snd e))) (pr_sites p) \<and>
    (w = length bytes \<or> (\<forall>e \<in> set (pr_sites p'). fst e + bs_byte_size (snd e) \<le> addr + w \<or> addr + length bytes \<le> fst e)) \<and>
    program_view (pr_memory p') (pr_sites p') =
      mem_write (addr + written) (take (w - written) (drop written bytes)) (program_view (pr_memory p) (pr_sites p))"
  using assms(4-9)
proof (induction es arbitrary: p pre written)
  case Nil
  then show ?case by (intro exI [of _ written] exI [of _ p]) auto
next
  case (Cons e es)
  obtain a s where e: "e = (a, s)" by force
  have at: "addr < a + bs_byte_size s" "a < addr + length bytes" "addr + written \<le> max addr a"
    using Cons.prems(3) e by auto
  have pre: "\<forall>e \<in> set pre. fst e + bs_byte_size (snd e) \<le> addr + written"
    using Cons.prems(5) at(2,3) assms(3) by (auto simp: max_def split: if_splits)
  define w where "w = min (a + bs_byte_size s) (addr + length bytes) - addr"
  have sites: "pr_sites p = pre @ (a, s) # es @ post" using Cons.prems(2) e by simp
  obtain p1 s' where p1: "write_at_site env addr bytes (a, s) (written, None, p) = Some (w, None, p1)"
      "p1 = p\<lparr>pr_memory := pr_memory p1, pr_sites := pre @ (a, s') # es @ post\<rparr>"
      "bs_byte_size s' = bs_byte_size s" "sites_ok (pr_memory p1) (pr_sites p1)"
      "program_view (pr_memory p1) (pr_sites p1) =
        mem_write (addr + written) (take (w - written) (drop written bytes)) (program_view (pr_memory p) (pr_sites p))"
    using write_at_site_ok [OF assms(1,2) Cons.prems(1) sites at(1,2) Cons.prems(4) at(3) pre]
    unfolding Let_def w_def [symmetric] by blast
  have sites1: "pr_sites p1 = (pre @ [(a, s')]) @ es @ post" by (subst p1(2)) simp
  have w: "written \<le> w" "w \<le> length bytes" "w = length bytes \<or> addr + w = a + bs_byte_size s"
    using at unfolding w_def by (auto simp: max_def min_def split: if_splits)
  have apart: "\<forall>e \<in> set es. a + bs_byte_size s \<le> fst e"
    using Cons.prems(1) sites by (auto simp: sites_ok_def site_before_def)
  have es: "\<forall>e \<in> set es. addr < fst e + bs_byte_size (snd e) \<and> fst e < addr + length bytes \<and> addr + w \<le> max addr (fst e)"
  proof
    fix e assume "e \<in> set es"
    then show "addr < fst e + bs_byte_size (snd e) \<and> fst e < addr + length bytes \<and> addr + w \<le> max addr (fst e)"
      using Cons.prems(3) apart w unfolding w_def by fastforce
  qed
  have pre1: "w = length bytes \<or> (\<forall>e \<in> set (pre @ [(a, s')]). fst e + bs_byte_size (snd e) \<le> addr + w)"
    using w pre p1(3) by fastforce
  obtain w' p' where IH: "write_at_sites env addr bytes es (w, None, p1) = Some (w', None, p')" "w \<le> w'" "w' \<le> length bytes"
      "p' = p1\<lparr>pr_memory := pr_memory p', pr_sites := pr_sites p'\<rparr>" "sites_ok (pr_memory p') (pr_sites p')"
      "map (\<lambda>e. (fst e, bs_byte_size (snd e))) (pr_sites p') = map (\<lambda>e. (fst e, bs_byte_size (snd e))) (pr_sites p1)"
      "w' = length bytes \<or> (\<forall>e \<in> set (pr_sites p'). fst e + bs_byte_size (snd e) \<le> addr + w' \<or> addr + length bytes \<le> fst e)"
      "program_view (pr_memory p') (pr_sites p') =
        mem_write (addr + w) (take (w' - w) (drop w bytes)) (program_view (pr_memory p1) (pr_sites p1))"
    using Cons.IH [OF p1(4) sites1 es w(2) pre1 Cons.prems(6)] by blast
  have cat: "take (w' - written) (drop written bytes) = take (w - written) (drop written bytes) @ take (w' - w) (drop w bytes)"
  proof -
    have "w' - written = (w - written) + (w' - w)" and d: "w - written + written = w" using w(1) IH(2) by simp_all
    then show ?thesis by (simp only: take_add drop_drop d)
  qed
  have "length (take (w - written) (drop written bytes)) = w - written" using w(2) by simp
  then have view: "mem_write (addr + written) (take (w' - written) (drop written bytes)) (program_view (pr_memory p) (pr_sites p)) =
      program_view (pr_memory p') (pr_sites p')"
    unfolding cat mem_write_append IH(8) p1(5) using w(1) by simp
  have "p' = p\<lparr>pr_memory := pr_memory p', pr_sites := pr_sites p'\<rparr>"
    by (rule same_rest [OF p1(2) IH(4)])
  moreover have "map (\<lambda>e. (fst e, bs_byte_size (snd e))) (pr_sites p') = map (\<lambda>e. (fst e, bs_byte_size (snd e))) (pr_sites p)"
    using IH(6) sites1 sites p1(3) by simp
  ultimately show ?case
    using p1(1) IH(1,2,3,5,7) view w(1) e by (intro exI [of _ w'] exI [of _ p']) simp
qed

lemma sites_around:
  assumes "sites_apart m"
  shows "\<exists>pre es post. m = pre @ es @ post \<and> (\<forall>e \<in> set pre. fst e + bs_byte_size (snd e) \<le> lo) \<and>
    (\<forall>e \<in> set es. lo < fst e + bs_byte_size (snd e) \<and> fst e < hi) \<and> (\<forall>e \<in> set post. hi \<le> fst e)"
proof -
  obtain xs post where m: "m = xs @ post" "\<forall>e \<in> set xs. fst e < hi" "\<forall>e \<in> set post. hi \<le> fst e"
    using map_split [OF sites_apart_sorted [OF assms], of hi] by blast
  have "\<exists>pre es. xs = pre @ es \<and> (\<forall>e \<in> set pre. fst e + bs_byte_size (snd e) \<le> lo) \<and>
      (\<forall>e \<in> set es. lo < fst e + bs_byte_size (snd e))"
    if "sites_apart xs"
    using that
  proof (induction xs)
    case (Cons e xs)
    show ?case
    proof (cases "fst e + bs_byte_size (snd e) \<le> lo")
      case True
      moreover obtain pre es where "xs = pre @ es" "\<forall>e \<in> set pre. fst e + bs_byte_size (snd e) \<le> lo"
          "\<forall>e \<in> set es. lo < fst e + bs_byte_size (snd e)"
        using Cons by auto
      ultimately show ?thesis by (intro exI [of _ "e # pre"] exI [of _ es]) simp
    next
      case False
      then have "\<forall>e' \<in> set (e # xs). lo < fst e' + bs_byte_size (snd e')"
        using Cons.prems by (fastforce simp: site_before_def)
      then show ?thesis by (intro exI [of _ "[]"] exI [of _ "e # xs"]) simp
    qed
  qed simp
  with assms m(1) obtain pre es where "xs = pre @ es" "\<forall>e \<in> set pre. fst e + bs_byte_size (snd e) \<le> lo"
      "\<forall>e \<in> set es. lo < fst e + bs_byte_size (snd e)"
    by auto
  with m show ?thesis by (intro exI [of _ pre] exI [of _ es] exI [of _ post]) auto
qed

text \<open>The ranges that the code writes as it means to: no site hides, and none starts right behind a range that
  another one starts in.\<close>

definition write_ok :: "nat \<Rightarrow> nat \<Rightarrow> site_list \<Rightarrow> bool" where
  "write_ok addr n m \<longleftrightarrow> \<not> hidden_at addr n m \<and>
     (starts_within addr (addr + n) m \<longrightarrow> (\<forall>e \<in> set m. fst e \<noteq> addr + n))"

lemma WriteMemory_ok:
  assumes "plugin_ok env" "addr + length bytes < 2 ^ 64" "bytes \<noteq> []"
    and "sites_ok (pr_memory p) (pr_sites p)" "write_ok addr (length bytes) (pr_sites p)"
  shows "\<exists>p'. WriteMemory env addr bytes None p =
      Some (if starts_within addr (addr + length bytes) (pr_sites p) then 0 else length bytes, None, p') \<and>
    sites_ok (pr_memory p') (pr_sites p') \<and>
    program_view (pr_memory p') (pr_sites p') = mem_write addr bytes (program_view (pr_memory p) (pr_sites p)) \<and>
    pr_cache p' = Flush addr (length bytes) (pr_cache p) \<and>
    map (\<lambda>e. (fst e, bs_byte_size (snd e))) (pr_sites p') = map (\<lambda>e. (fst e, bs_byte_size (snd e))) (pr_sites p)"
proof -
  let ?m = "pr_sites p" and ?n = "length bytes"
  define q where "q = p\<lparr>pr_cache := Flush addr ?n (pr_cache p), pr_memory_id := (pr_memory_id p + 1) mod 2 ^ 32\<rparr>"
  have q: "pr_memory q = pr_memory p" "pr_sites q = ?m" "pr_cache q = Flush addr ?n (pr_cache p)"
    by (simp_all add: q_def)
  have apart: "sites_apart ?m" and all: "\<forall>e \<in> set ?m. site_ok (pr_memory p) (snd e) \<and> fst e = bs_addr (snd e)"
    using assms(4) by (auto simp: sites_ok_def sites_apart_def)
  have small: "(addr + ?n) mod 2 ^ 64 = addr + ?n" using assms(2) by simp
  have bump: "p\<lparr>pr_cache := Flush addr ?n (pr_cache p)\<rparr>
      \<lparr>pr_memory_id := (pr_memory_id (p\<lparr>pr_cache := Flush addr ?n (pr_cache p)\<rparr>) + 1) mod 2 ^ 32\<rparr> = q"
    by (simp add: q_def)
  have unfold: "WriteMemory env addr bytes None p =
      (case FindInRange addr (addr + ?n) ?m [] of
         (True, found) \<Rightarrow>
           if found = [] then Some (WriteMemoryPrivate env addr bytes None q)
           else do {
             (written, error, p) \<leftarrow> write_at_sites env addr bytes found (0, None, q);
             let (_, error, p) =
               (if written < ?n
                then WriteMemoryPrivate env ((addr + written) mod 2 ^ 64) (drop written bytes) error p
                else (0, error, p))
             in Some (0, error, p) }
       | (False, _) \<Rightarrow> Some (WriteMemoryPrivate env addr bytes None q))"
    unfolding WriteMemory_def Let_def small bump if_not_P [OF assms(3)] q(2) ..
  show ?thesis
  proof (cases "starts_within addr (addr + ?n) ?m")
    case False
    have out: "\<forall>e \<in> set ?m. fst e + bs_byte_size (snd e) \<le> addr \<or> addr + ?n \<le> fst e"
      using False assms(5) by (force simp: write_ok_def hidden_at_def starts_within_def)
    have "WriteMemory env addr bytes None p = Some (?n, None, q\<lparr>pr_memory := mem_write addr bytes (pr_memory p)\<rparr>)"
      unfolding unfold using False WriteMemoryPrivate_ok [OF assms(1,2,3), of None q] q
      by (simp add: FindInRange_eq [OF apart])
    then show ?thesis
      using False sites_ok_write_outside [OF assms(4) out] view_write_outside [OF all out] q by simp
  next
    case True
    obtain pre es post where m: "?m = pre @ es @ post" and pre: "\<forall>e \<in> set pre. fst e + bs_byte_size (snd e) \<le> addr"
      and es: "\<forall>e \<in> set es. addr < fst e + bs_byte_size (snd e) \<and> fst e < addr + ?n"
      and post: "\<forall>e \<in> set post. addr + ?n \<le> fst e"
      using sites_around [OF apart, of addr "addr + ?n"] by (elim exE conjE) (rule that)
    have "filter (\<lambda>e. addr < fst e + bs_byte_size (snd e) \<and> fst e \<le> addr + ?n) pre = []"
      using pre by (auto simp: filter_empty_conv)
    moreover have "filter (\<lambda>e. addr < fst e + bs_byte_size (snd e) \<and> fst e \<le> addr + ?n) es = es"
      using es by (auto simp: filter_id_conv)
    moreover have "filter (\<lambda>e. addr < fst e + bs_byte_size (snd e) \<and> fst e \<le> addr + ?n) post = []"
    proof -
      have "\<forall>e \<in> set post. fst e \<noteq> addr + ?n"
        using True assms(5) m by (auto simp: write_ok_def)
      with post show ?thesis by (auto simp: filter_empty_conv dest: le_antisym)
    qed
    ultimately have found: "FindInRange addr (addr + ?n) ?m [] = (True, es)"
      unfolding FindInRange_eq [OF apart le_add1] using True by (simp add: m)
    have ne: "es \<noteq> []"
    proof
      assume "es = []"
      obtain e where e: "e \<in> set ?m" "addr \<le> fst e" "fst e < addr + ?n"
        using True by (auto simp: starts_within_def)
      then have "e \<in> set pre" using post m \<open>es = []\<close> by auto
      moreover have "0 < bs_byte_size (snd e)"
        using e(1) all by (auto simp: site_ok_def site_range_ok_def)
      ultimately show False using pre e(2) by fastforce
    qed
    have es': "\<forall>e \<in> set es. addr < fst e + bs_byte_size (snd e) \<and> fst e < addr + ?n \<and> addr + 0 \<le> max addr (fst e)"
      using es by simp
    have pre': "0 = ?n \<or> (\<forall>e \<in> set pre. fst e + bs_byte_size (snd e) \<le> addr + 0)"
      using pre by simp
    obtain w p1 where w: "write_at_sites env addr bytes es (0, None, q) = Some (w, None, p1)" "w \<le> ?n"
        "p1 = q\<lparr>pr_memory := pr_memory p1, pr_sites := pr_sites p1\<rparr>" "sites_ok (pr_memory p1) (pr_sites p1)"
        "map (\<lambda>e. (fst e, bs_byte_size (snd e))) (pr_sites p1) = map (\<lambda>e. (fst e, bs_byte_size (snd e))) ?m"
        "w = ?n \<or> (\<forall>e \<in> set (pr_sites p1). fst e + bs_byte_size (snd e) \<le> addr + w \<or> addr + ?n \<le> fst e)"
        "program_view (pr_memory p1) (pr_sites p1) = mem_write addr (take w bytes) (program_view (pr_memory p) ?m)"
      using write_at_sites_ok [OF assms(1-3), of q pre es post 0] assms(4) es' pre' post q m by auto
    have cache: "pr_cache p1 = Flush addr ?n (pr_cache p)" by (subst w(3)) (simp add: q)
    show ?thesis
    proof (cases "w = ?n")
      case True
      with w cache found ne \<open>starts_within addr (addr + ?n) ?m\<close> show ?thesis
        unfolding unfold by simp
    next
      case False
      let ?bs = "drop w bytes"
      let ?p' = "p1\<lparr>pr_memory := mem_write (addr + w) ?bs (pr_memory p1)\<rparr>"
      have out: "\<forall>e \<in> set (pr_sites p1). fst e + bs_byte_size (snd e) \<le> addr + w \<or> addr + w + length ?bs \<le> fst e"
        using False w(2,6) by auto
      have all1: "\<forall>e \<in> set (pr_sites p1). site_ok (pr_memory p1) (snd e) \<and> fst e = bs_addr (snd e)"
        using w(4) by (auto simp: sites_ok_def sites_apart_def)
      have "WriteMemoryPrivate env (addr + w) ?bs None p1 = (length ?bs, None, ?p')"
        using False w(2) assms(2) by (intro WriteMemoryPrivate_ok [OF assms(1)]) auto
      moreover have "(addr + w) mod 2 ^ 64 = addr + w" using w(2) assms(2) by simp
      ultimately have "WriteMemory env addr bytes None p = Some (0, None, ?p')"
        unfolding unfold using found ne w(1,2) False by simp
      moreover have "mem_write (addr + w) ?bs (mem_write addr (take w bytes) f) = mem_write addr bytes f" for f
        using mem_write_append [of addr "take w bytes" ?bs f] w(2) by simp
      ultimately show ?thesis
        using \<open>starts_within addr (addr + ?n) ?m\<close> sites_ok_write_outside [OF w(4) out]
          view_write_outside [OF all1 out] w(5,7) cache by simp
    qed
  qed
qed

section \<open>Setting and clearing a site does not change what the program has\<close>

lemma mem_write_same [simp]: "mem_write a (mem_slice f a n) f = f"
  by (auto simp: mem_write_def mem_slice_def fun_eq_iff)

lemma length_trap_opcode: "0 < length (trap_opcode m alt) \<and> length (trap_opcode m alt) \<le> 8"
  by (cases m) (simp_all add: trap_opcode_def)

text \<open>The size of the trap that a new site gets.\<close>

definition trap_size :: "process_env \<Rightarrow> bp_site \<Rightarrow> nat" where
  "trap_size env s = length (trap_opcode (pe_machine env) (pe_alternate_ISA env s))"

lemma overwrite_0: "length xs \<le> length buf \<Longrightarrow> take (length xs) (overwrite 0 xs buf) = xs \<and> length (overwrite 0 xs buf) = length buf"
  by (simp add: overwrite_def)

lemma EnableSoftwareBreakpoint_ok:
  assumes "plugin_ok env" "\<not> bs_enabled s" "\<not> IsHardware s" "length (bs_saved_opcode s) = 8" "length (bs_trap_opcode s) = 8"
    and "bs_addr s + trap_size env s < 2 ^ 64"
  shows "\<exists>s' opcode. length opcode = trap_size env s \<and>
    EnableSoftwareBreakpoint env s p = (None, s', p\<lparr>pr_memory := mem_write (bs_addr s) opcode (pr_memory p)\<rparr>) \<and>
    bs_addr s' = bs_addr s \<and> bs_byte_size s' = trap_size env s \<and> bs_id s' = bs_id s \<and>
    site_ok (mem_write (bs_addr s) opcode (pr_memory p)) s' \<and>
    saved_bytes s' = mem_slice (pr_memory p) (bs_addr s) (trap_size env s)"
proof -
  define opcode where "opcode = trap_opcode (pe_machine env) (pe_alternate_ISA env s)"
  define n where "n = length opcode"
  have n: "0 < n" "n \<le> 8" "trap_size env s = n"
    using length_trap_opcode by (simp_all add: n_def opcode_def trap_size_def)
  define s1 where "s1 = s\<lparr>bs_byte_size := n, bs_trap_opcode := overwrite 0 opcode (bs_trap_opcode s)\<rparr>"
  have trap: "GetSoftwareBreakpointTrapOpcode env s = (n, s1)"
    using n by (simp add: GetSoftwareBreakpointTrapOpcode_def SetTrapOpcode_def s1_def n_def opcode_def Let_def)
  have t: "take n (bs_trap_opcode s1) = opcode" "length (bs_trap_opcode s1) = 8"
    using overwrite_0 [of opcode "bs_trap_opcode s"] n(2) assms(5) by (simp_all add: s1_def n_def)
  let ?a = "bs_addr s" and ?mem = "mem_write (bs_addr s) opcode (pr_memory p)"
  have read: "DoReadMemory env mem ?a n = (mem_slice mem ?a n, None)" for mem
    using assms(1,6) n unfolding plugin_ok_def by metis
  have "opcode \<noteq> []" "?a + length opcode < 2 ^ 64" using n assms(6) by (auto simp: n_def)
  then obtain k where "k = length opcode" "DoWriteMemory env (pr_memory p) ?a opcode = (k, None, mem_write ?a (take k opcode) (pr_memory p))"
    using assms(1) n(2) unfolding plugin_ok_def n_def by metis
  then have wr: "DoWriteMemory env (pr_memory p) ?a opcode = (n, None, ?mem)"
    by (simp add: n_def)
  let ?saved = "overwrite 0 (mem_slice (pr_memory p) ?a n) (bs_saved_opcode s)"
  have sv: "take n ?saved = mem_slice (pr_memory p) ?a n" "length ?saved = 8"
    using overwrite_0 [of "mem_slice (pr_memory p) ?a n" "bs_saved_opcode s"] n(2) assms(4) by simp_all
  let ?s = "s1\<lparr>bs_saved_opcode := ?saved, bs_enabled := True, bs_type := eSoftware\<rparr>"
  have addr: "?a \<noteq> LLDB_INVALID_ADDRESS"
    using assms(6) n by (simp add: UINT64_MAX_def)
  have sl: "mem_slice ?mem ?a n = opcode" by (simp add: n_def)
  have "EnableSoftwareBreakpoint env s p = (None, ?s, p\<lparr>pr_memory := ?mem\<rparr>)"
    using assms(2) addr n(1) trap read wr t sl
    by (simp add: EnableSoftwareBreakpoint_def Let_def s1_def)
  moreover have "site_ok ?mem ?s"
    using n assms(3,6) t sv sl by (simp add: site_ok_def site_range_ok_def IsHardware_def s1_def)
  ultimately show ?thesis
    using sv(1) n(3) n_def by (intro exI [of _ ?s] exI [of _ opcode]) (simp add: s1_def saved_bytes_def)
qed

lemma map_put_split:
  fixes a :: nat
  assumes "\<forall>e \<in> set xs. fst e < a" "\<forall>e \<in> set ys. a < fst e"
  shows "map_put a s (xs @ ys) = xs @ (a, s) # ys"
proof -
  have "takeWhile (\<lambda>e. fst e < a) (xs @ ys) = xs"
    using assms by (cases ys) (auto simp: takeWhile_append takeWhile_eq_all_conv)
  moreover have "dropWhile (\<lambda>e. fst e \<le> a) (xs @ ys) = ys"
    using assms by (cases ys) (auto simp: dropWhile_append less_imp_le)
  ultimately show ?thesis by (simp add: map_put_def)
qed

text \<open>A site with its trap among the others.\<close>

lemma set_site:
  assumes "sites_ok mem (xs @ ys)" "site_ok (mem_write a opcode mem) s" "a = bs_addr s" "bs_byte_size s = length opcode"
    and "saved_bytes s = mem_slice mem a (length opcode)"
    and "\<forall>e \<in> set xs. fst e + bs_byte_size (snd e) \<le> a" "\<forall>e \<in> set ys. a + length opcode \<le> fst e"
  shows "sites_ok (mem_write a opcode mem) (xs @ (a, s) # ys)"
    and "program_view (mem_write a opcode mem) (xs @ (a, s) # ys) = program_view mem (xs @ ys)"
proof -
  have out: "\<forall>e \<in> set (xs @ ys). fst e + bs_byte_size (snd e) \<le> a \<or> a + length opcode \<le> fst e"
    using assms(6,7) by auto
  have all: "\<forall>e \<in> set (xs @ ys). site_ok mem (snd e) \<and> fst e = bs_addr (snd e)"
    using assms(1) by (auto simp: sites_ok_def sites_apart_def)
  show "sites_ok (mem_write a opcode mem) (xs @ (a, s) # ys)"
    using sites_ok_write_outside [OF assms(1) out] assms(2,3,4,6,7)
    by (auto simp: sites_ok_def site_before_def site_ok_def)
  let ?f = "program_view mem xs"
  have xs: "program_view (mem_write a opcode mem) xs = mem_write a opcode ?f"
    by (rule view_write_outside) (use all assms(6) in auto)
  have "fold (\<lambda>e. patch (snd e)) xs mem x = mem x" if "a \<le> x" for x
    using fold_patch_filter [of xs "\<lambda>_. False" x mem] all assms(6) that length_saved_bytes by (force simp: filter_False)
  then have "mem_slice ?f a (length opcode) = mem_slice mem a (length opcode)"
    by (intro mem_slice_cong) (simp add: program_view_def)
  then have "patch s (mem_write a opcode ?f) = mem_write a (mem_slice ?f a (length opcode)) (mem_write a opcode ?f)"
    by (simp add: patch_def assms(3,5))
  also have "\<dots> = ?f"
    by (auto simp: mem_write_def mem_slice_def fun_eq_iff)
  finally show "program_view (mem_write a opcode mem) (xs @ (a, s) # ys) = program_view mem (xs @ ys)"
    using xs by (simp add: program_view_def)
qed

text \<open>A new site overlaps no other.\<close>

definition room_for :: "nat \<Rightarrow> nat \<Rightarrow> site_list \<Rightarrow> bool" where
  "room_for a n m \<longleftrightarrow> a + n < 2 ^ 64 \<and> (\<forall>e \<in> set m. fst e + bs_byte_size (snd e) \<le> a \<or> a + n \<le> fst e)"

lemma CreateBreakpointSite_new:
  assumes "plugin_ok env" "sites_ok (pr_memory p) (pr_sites p)"
    and "room_for addr (trap_size env (new_BreakpointSite (pr_next_site_id p) owner addr hw)) (pr_sites p)"
  shows "\<exists>p'. CreateBreakpointSite env owner addr hw p = (pr_next_site_id p, p') \<and>
    sites_ok (pr_memory p') (pr_sites p') \<and>
    program_view (pr_memory p') (pr_sites p') = program_view (pr_memory p) (pr_sites p) \<and> pr_cache p' = pr_cache p \<and>
    fst ` set (pr_sites p') = insert addr (fst ` set (pr_sites p)) \<and>
    (\<forall>e \<in> set (pr_sites p'). e \<in> set (pr_sites p) \<or>
       bs_byte_size (snd e) = trap_size env (new_BreakpointSite (pr_next_site_id p) owner addr hw))"
proof -
  let ?s = "new_BreakpointSite (pr_next_site_id p) owner addr hw" and ?m = "pr_sites p"
  let ?n = "trap_size env ?s"
  have n: "0 < ?n" using length_trap_opcode by (simp add: trap_size_def)
  have s: "\<not> bs_enabled ?s" "\<not> IsHardware ?s" "length (bs_saved_opcode ?s) = 8" "length (bs_trap_opcode ?s) = 8" "bs_addr ?s = addr"
      "bs_id ?s = pr_next_site_id p"
    by (simp_all add: new_BreakpointSite_def IsHardware_def)
  have fits: "bs_addr ?s + ?n < 2 ^ 64" using assms(3) s(5) by (simp add: room_for_def)
  let ?q = "p\<lparr>pr_next_site_id := pr_next_site_id p + 1\<rparr>"
  obtain s' opcode where e: "length opcode = ?n"
      "EnableSoftwareBreakpoint env ?s ?q = (None, s', ?q\<lparr>pr_memory := mem_write addr opcode (pr_memory p)\<rparr>)"
      "bs_addr s' = addr" "bs_byte_size s' = ?n" "bs_id s' = pr_next_site_id p" "site_ok (mem_write addr opcode (pr_memory p)) s'"
      "saved_bytes s' = mem_slice (pr_memory p) addr ?n"
    using EnableSoftwareBreakpoint_ok [OF assms(1) s(1-4) fits, of ?q] s(5,6) by auto
  obtain xs ys where m: "?m = xs @ ys" and xs: "\<forall>e \<in> set xs. fst e < addr" and ys: "\<forall>e \<in> set ys. addr \<le> fst e"
    using map_split [OF sites_apart_sorted, of ?m addr] assms(2) by (auto simp: sites_ok_def)
  have size: "\<forall>e \<in> set ?m. 0 < bs_byte_size (snd e)"
    using assms(2) by (auto simp: sites_ok_def sites_apart_def site_range_ok_def)
  have xs': "\<forall>e \<in> set xs. fst e + bs_byte_size (snd e) \<le> addr"
  proof
    fix e assume "e \<in> set xs"
    then have "e \<in> set ?m" "fst e < addr" using m xs by simp_all
    moreover from this have "fst e + bs_byte_size (snd e) \<le> addr \<or> addr + ?n \<le> fst e"
      using assms(3) by (auto simp: room_for_def)
    ultimately show "fst e + bs_byte_size (snd e) \<le> addr" by linarith
  qed
  have ys': "\<forall>e \<in> set ys. addr + ?n \<le> fst e"
  proof
    fix e assume "e \<in> set ys"
    then have "e \<in> set ?m" "addr \<le> fst e" using m ys by simp_all
    moreover from this have "fst e + bs_byte_size (snd e) \<le> addr \<or> addr + ?n \<le> fst e" "0 < bs_byte_size (snd e)"
      using assms(3) size by (auto simp: room_for_def)
    ultimately show "addr + ?n \<le> fst e" by linarith
  qed
  then have ys'': "\<forall>e \<in> set ys. addr < fst e" using n by fastforce
  have none: "map_of ?m addr = None"
    using xs ys'' m by (auto simp: map_of_eq_None_iff)
  note set = set_site [OF assms(2) [unfolded m] e(6) e(3) [symmetric] _ _ xs'] 
  have "CreateBreakpointSite env owner addr hw p =
      (pr_next_site_id p, ?q\<lparr>pr_memory := mem_write addr opcode (pr_memory p), pr_sites := xs @ (addr, s') # ys\<rparr>)"
  proof -
    have addr: "addr \<noteq> LLDB_INVALID_ADDRESS" using fits s(5) n by (simp add: UINT64_MAX_def)
    have add: "Add_site s' ?m = (pr_next_site_id p, xs @ (addr, s') # ys)"
      unfolding Add_site_def e(3,5) none option.case unfolding m map_put_split [OF xs ys''] ..
    show ?thesis
      unfolding CreateBreakpointSite_def Let_def if_not_P [OF addr] FindByAddress_def none option.case e(2)
      using add by simp
  qed
  with set e(1,4,7) ys' m show ?thesis by (intro exI) (auto simp: e(1))
qed

lemma CreateBreakpointSite_again:
  assumes "sites_ok (pr_memory p) (pr_sites p)" "map_of (pr_sites p) addr = Some s" "addr \<noteq> LLDB_INVALID_ADDRESS"
  shows "\<exists>p'. CreateBreakpointSite env owner addr hw p = (bs_id s, p') \<and>
    sites_ok (pr_memory p') (pr_sites p') \<and>
    program_view (pr_memory p') (pr_sites p') = program_view (pr_memory p) (pr_sites p) \<and> pr_cache p' = pr_cache p \<and>
    map (\<lambda>e. (fst e, bs_byte_size (snd e))) (pr_sites p') = map (\<lambda>e. (fst e, bs_byte_size (snd e))) (pr_sites p)"
proof -
  let ?m = "pr_sites p" and ?s = "AddOwner owner s"
  obtain xs ys where m: "?m = xs @ (addr, s) # ys"
    using split_list [OF map_of_SomeD [OF assms(2)]] by blast
  have "sites_apart ?m" using assms(1) by (simp add: sites_ok_def)
  then have "map_put addr ?s ?m = xs @ (addr, ?s) # ys"
    unfolding m by (intro map_put_replace sites_apart_sorted)
  then have "CreateBreakpointSite env owner addr hw p = (bs_id s, p\<lparr>pr_sites := xs @ (addr, ?s) # ys\<rparr>)"
    using assms(2,3) by (simp add: CreateBreakpointSite_def FindByAddress_def)
  moreover have "sites_ok (pr_memory p) (xs @ (addr, ?s) # ys)"
    using assms(1) unfolding m
    by (auto simp: sites_ok_def site_ok_def site_range_ok_def site_before_def AddOwner_def IsHardware_def)
  moreover have "patch ?s = patch s" "bs_byte_size ?s = bs_byte_size s"
    by (simp_all add: patch_def saved_bytes_def AddOwner_def)
  ultimately show ?thesis by (simp add: m program_view_def)
qed

lemma DisableSoftwareBreakpoint_ok:
  assumes "plugin_ok env" "site_ok (pr_memory p) s"
  shows "DisableSoftwareBreakpoint env s p =
    (None, s\<lparr>bs_enabled := False\<rparr>, p\<lparr>pr_memory := mem_write (bs_addr s) (saved_bytes s) (pr_memory p)\<rparr>)"
proof -
  let ?a = "bs_addr s" and ?n = "bs_byte_size s" and ?bs = "saved_bytes s"
  have s: "\<not> IsHardware s" "bs_enabled s" "0 < ?n" "?n \<le> 8" "?a + ?n < 2 ^ 64"
      "mem_slice (pr_memory p) ?a ?n = take ?n (bs_trap_opcode s)" "length (bs_trap_opcode s) = 8"
    using assms(2) by (simp_all add: site_ok_def site_range_ok_def)
  have l: "length ?bs = ?n" by (rule length_saved_bytes [OF assms(2)])
  have read: "DoReadMemory env mem ?a ?n = (mem_slice mem ?a ?n, None)" for mem
    using assms(1) s(3-5) unfolding plugin_ok_def by metis
  have "?bs \<noteq> []" "?a + length ?bs < 2 ^ 64" "length ?bs \<le> 8" using s l by auto
  then obtain k where "k = length ?bs" "DoWriteMemory env (pr_memory p) ?a ?bs = (k, None, mem_write ?a (take k ?bs) (pr_memory p))"
    using assms(1) unfolding plugin_ok_def by metis
  then have wr: "DoWriteMemory env (pr_memory p) ?a ?bs = (?n, None, mem_write ?a ?bs (pr_memory p))"
    by (simp add: l)
  have "mem_slice (mem_write ?a ?bs (pr_memory p)) ?a ?n = ?bs"
    using mem_slice_write [of ?a ?bs] l by simp
  then show ?thesis
    using s read wr unfolding saved_bytes_def by (simp add: DisableSoftwareBreakpoint_def Let_def)
qed

text \<open>A site without its trap.\<close>

lemma reset_site:
  assumes "sites_ok mem (xs @ (a, s) # ys)"
  shows "sites_ok (mem_write a (saved_bytes s) mem) (xs @ ys)"
    and "program_view (mem_write a (saved_bytes s) mem) (xs @ ys) = program_view mem (xs @ (a, s) # ys)"
proof -
  have s: "site_ok mem s" "a = bs_addr s" and apart: "sites_apart (xs @ (a, s) # ys)" and rest: "sites_ok mem (xs @ ys)"
    using assms by (auto simp: sites_ok_def)
  have xs: "\<forall>e \<in> set xs. fst e + bs_byte_size (snd e) \<le> a" and ys: "\<forall>e \<in> set ys. a + length (saved_bytes s) \<le> fst e"
    using apart length_saved_bytes [OF s(1)] by (auto simp: site_before_def)
  then have out: "\<forall>e \<in> set (xs @ ys). fst e + bs_byte_size (snd e) \<le> a \<or> a + length (saved_bytes s) \<le> fst e"
    by auto
  show "sites_ok (mem_write a (saved_bytes s) mem) (xs @ ys)"
    by (rule sites_ok_write_outside [OF rest out])
  have "\<forall>e \<in> set xs. site_ok mem (snd e) \<and> fst e = bs_addr (snd e)"
    using rest by (auto simp: sites_ok_def sites_apart_def)
  from view_write_outside [OF this, of a "saved_bytes s"] out
  show "program_view (mem_write a (saved_bytes s) mem) (xs @ ys) = program_view mem (xs @ (a, s) # ys)"
    by (simp add: program_view_def patch_def s(2))
qed

lemma find_split:
  assumes "find P m = Some e"
  shows "\<exists>xs ys. m = xs @ e # ys \<and> (\<forall>x \<in> set xs. \<not> P x) \<and> P e"
  using assms
proof (induction m)
  case (Cons x m)
  show ?case
  proof (cases "P x")
    case True
    then show ?thesis using Cons.prems by (intro exI [of _ "[]"] exI [of _ m]) simp
  next
    case False
    then obtain xs ys where "m = xs @ e # ys" "\<forall>x \<in> set xs. \<not> P x" "P e" using Cons by auto
    with False show ?thesis by (intro exI [of _ "x # xs"] exI [of _ ys]) simp
  qed
qed simp

lemma ClearBreakpointSiteByID_ok:
  assumes "plugin_ok env" "sites_ok (pr_memory p) (pr_sites p)" "FindByID break_id (pr_sites p) = Some s"
  shows "\<exists>p'. ClearBreakpointSiteByID env break_id p = (None, p') \<and>
    sites_ok (pr_memory p') (pr_sites p') \<and>
    program_view (pr_memory p') (pr_sites p') = program_view (pr_memory p) (pr_sites p) \<and> pr_cache p' = pr_cache p \<and>
    (\<forall>x. bs_addr s \<le> x \<and> x < bs_addr s + bs_byte_size s \<longrightarrow> pr_memory p' x = program_view (pr_memory p) (pr_sites p) x) \<and>
    set (pr_sites p') \<subseteq> set (pr_sites p)"
proof -
  let ?m = "pr_sites p" and ?s = "s\<lparr>bs_enabled := False\<rparr>"
  obtain a where "find (\<lambda>e. bs_id (snd e) = break_id) ?m = Some (a, s)"
    using assms(3) by (auto simp: FindByID_def)
  then obtain xs ys where m: "?m = xs @ (a, s) # ys" and xs: "\<forall>e \<in> set xs. bs_id (snd e) \<noteq> break_id" and s: "bs_id s = break_id"
    using find_split [of "\<lambda>e. bs_id (snd e) = break_id" ?m "(a, s)"] by auto
  have apart: "sites_apart ?m" and ok: "site_ok (pr_memory p) s" "a = bs_addr s"
    using assms(2) m by (auto simp: sites_ok_def)
  have put: "map_put a ?s ?m = xs @ (a, ?s) # ys"
    using map_put_replace [of xs a s ys ?s] sites_apart_sorted [OF apart] unfolding m .
  let ?mem = "mem_write a (saved_bytes s) (pr_memory p)"
  let ?p = "p\<lparr>pr_memory := ?mem, pr_sites := xs @ (a, ?s) # ys\<rparr>"
  have enabled: "bs_enabled s" using ok(1) by (simp add: site_ok_def)
  have "DisableBreakpointSiteByID env break_id p = (None, ?p)"
    using put ok(2) enabled
    by (simp add: DisableBreakpointSiteByID_def assms(3) DisableSoftwareBreakpoint_ok [OF assms(1) ok(1)])
  moreover have "Remove_site break_id (xs @ (a, ?s) # ys) = (True, xs @ ys)"
  proof -
    have "takeWhile (\<lambda>e. bs_id (snd e) \<noteq> break_id) (xs @ (a, ?s) # ys) = xs"
      using xs s by (simp add: takeWhile_append takeWhile_eq_all_conv)
    then show ?thesis by (simp add: Remove_site_def)
  qed
  ultimately have clear: "ClearBreakpointSiteByID env break_id p = (None, ?p\<lparr>pr_sites := xs @ ys\<rparr>)"
    by (simp add: ClearBreakpointSiteByID_def)
  note reset = reset_site [OF assms(2) [unfolded m]]
  have "?mem x = program_view (pr_memory p) ?m x" if "a \<le> x" "x < a + bs_byte_size s" for x
  proof -
    have "fold (\<lambda>e. patch (snd e)) (xs @ ys) ?mem x = ?mem x"
    proof -
      have "x < bs_addr (snd e) \<or> bs_addr (snd e) + length (saved_bytes (snd e)) \<le> x" if e: "e \<in> set (xs @ ys)" for e
      proof -
        have "site_before e (a, s) \<or> site_before (a, s) e" using e apart m by auto
        moreover have "fst e = bs_addr (snd e)" "length (saved_bytes (snd e)) = bs_byte_size (snd e)"
          using e assms(2) m length_saved_bytes by (auto simp: sites_ok_def sites_apart_def)
        ultimately show ?thesis
          using \<open>a \<le> x\<close> \<open>x < a + bs_byte_size s\<close> by (auto simp: site_before_def)
      qed
      then show ?thesis
        using fold_patch_filter [of "xs @ ys" "\<lambda>_. False" x ?mem] by (simp add: filter_False del: fold_append)
    qed
    then show ?thesis
      using reset(2) by (simp add: m program_view_def del: fold_append)
  qed
  with clear reset show ?thesis
    by (intro exI [of _ "?p\<lparr>pr_sites := xs @ ys\<rparr>"]) (auto simp: m ok(2))
qed

section \<open>A session\<close>

text \<open>What the debugger does to the memory of a process on x86, and beside it the memory that
  the program has: breakpoints come and go, the debugger reads and writes. A write has no site
  starting right behind it (the code uses a value there that it never sets), spans fewer than
  2^32 lines, and its flush finds the chunks that earlier long reads have left in the cache
  (\<open>Flush_stops_early\<close> has those that it does not find).\<close>

inductive debug_session :: "process_env \<Rightarrow> process \<Rightarrow> memory \<Rightarrow> bool" for env where
  start_step: "pr_sites p = [] \<Longrightarrow> mc_L1 (pr_cache p) = [] \<Longrightarrow> mc_L2 (pr_cache p) = [] \<Longrightarrow>
    mc_invalid_ranges (pr_cache p) = [] \<Longrightarrow> 0 < mc_line (pr_cache p) \<Longrightarrow> debug_session env p (pr_memory p)"
| create_step: "debug_session env p v \<Longrightarrow> addr + 1 < 2 ^ 64 \<Longrightarrow> CreateBreakpointSite env owner addr hw p = (k, p') \<Longrightarrow>
    debug_session env p' v"
| clear_step: "debug_session env p v \<Longrightarrow> ClearBreakpointSiteByID env k p = (error, p') \<Longrightarrow> debug_session env p' v"
| read_step: "debug_session env p v \<Longrightarrow> addr + n + mc_line (pr_cache p) < 2 ^ 64 \<Longrightarrow>
    ReadMemory env addr n p = Some (bs, status, p') \<Longrightarrow> debug_session env p' v"
| write_step: "debug_session env p v \<Longrightarrow> addr + length bytes < 2 ^ 64 \<Longrightarrow>
    lines_spanned (mc_line (pr_cache p)) addr (length bytes) < 2 ^ 32 \<Longrightarrow>
    flush_finds addr (length bytes) (mc_L1 (pr_cache p)) \<Longrightarrow>
    \<forall>e \<in> set (pr_sites p). fst e \<noteq> addr + length bytes \<Longrightarrow>
    WriteMemory env addr bytes None p = Some (r, error, p') \<Longrightarrow> debug_session env p' (mem_write addr bytes v)"

definition one_byte_traps :: "process_env \<Rightarrow> bool" where
  "one_byte_traps env \<longleftrightarrow> pe_machine env = x86 \<or> pe_machine env = x86_64_machine"

lemma one_byte_trap_size: "one_byte_traps env \<Longrightarrow> trap_size env s = 1"
  by (auto simp: one_byte_traps_def trap_size_def trap_opcode_def)

text \<open>The invariant of a session.\<close>

definition session_ok :: "process \<Rightarrow> memory \<Rightarrow> bool" where
  "session_ok p v \<longleftrightarrow> sites_ok (pr_memory p) (pr_sites p) \<and> (\<forall>e \<in> set (pr_sites p). bs_byte_size (snd e) = 1) \<and>
     program_view (pr_memory p) (pr_sites p) = v \<and>
     cache_ok v (pr_cache p) \<and> mc_invalid_ranges (pr_cache p) = []"

lemma one_byte_not_hidden: "\<forall>e \<in> set m. bs_byte_size (snd e) = 1 \<Longrightarrow> \<not> hidden_at addr n m"
  by (force simp: hidden_at_def)

lemma sizes_one:
  "map (\<lambda>e. (fst e, bs_byte_size (snd e))) m' = map (\<lambda>e. (fst e, bs_byte_size (snd e))) m \<Longrightarrow>
   \<forall>e \<in> set m. bs_byte_size (snd e) = 1 \<Longrightarrow> \<forall>e \<in> set m'. bs_byte_size (snd e) = 1"
proof (intro ballI)
  fix e assume *: "map (\<lambda>e. (fst e, bs_byte_size (snd e))) m' = map (\<lambda>e. (fst e, bs_byte_size (snd e))) m"
    "\<forall>e \<in> set m. bs_byte_size (snd e) = 1" "e \<in> set m'"
  then have "(fst e, bs_byte_size (snd e)) \<in> set (map (\<lambda>e. (fst e, bs_byte_size (snd e))) m)"
    by (metis (no_types, lifting) image_eqI set_map)
  with *(2) show "bs_byte_size (snd e) = 1" by auto
qed

lemma session_read:
  assumes "plugin_ok env" "session_ok p v" "addr + n + mc_line (pr_cache p) < 2 ^ 64"
  shows "\<exists>p'. ReadMemory env addr n p = Some (mem_slice v addr n, None, p') \<and> session_ok p' v \<and>
    mc_line (pr_cache p') = mc_line (pr_cache p)"
proof -
  have p: "sites_ok (pr_memory p) (pr_sites p)" "program_view (pr_memory p) (pr_sites p) = v"
      "\<And>a n. \<not> hidden_at a n (pr_sites p)" "cache_ok v (pr_cache p)" "mc_invalid_ranges (pr_cache p) = []"
    using assms(2) one_byte_not_hidden by (auto simp: session_ok_def)
  have below: "reads_below (2 ^ 64) v (ReadMemoryFromInferior env p)"
    unfolding reads_below_def using ReadMemoryFromInferior_ok [OF assms(1) p(1) _ p(3)] p(2) by blast
  show ?thesis
  proof (cases "pe_disable_memory_cache env")
    case True
    moreover have "addr + n < 2 ^ 64" using assms(3) by simp
    ultimately show ?thesis
      using below assms(2) by (auto simp: ReadMemory_def reads_below_def)
  next
    case False
    have "addr + n < 2 ^ 64" using assms(3) by simp
    from Read_below [OF below p(4,5) this assms(3)] obtain c' where
      c: "Read (ReadMemoryFromInferior env p) addr n (pr_cache p) = Some (mem_slice v addr n, None, c')" "cache_ok v c'"
      by blast
    from Read_keeps(1,2) [OF c(1)] c(2) assms(2) have "session_ok (p\<lparr>pr_cache := c'\<rparr>) v"
      by (simp add: session_ok_def)
    with False c Read_keeps(1) [OF c(1)] show ?thesis by (simp add: ReadMemory_def)
  qed
qed

lemma session_write:
  assumes "plugin_ok env" "session_ok p v" "addr + length bytes < 2 ^ 64"
    and "lines_spanned (mc_line (pr_cache p)) addr (length bytes) < 2 ^ 32"
    and "flush_finds addr (length bytes) (mc_L1 (pr_cache p))"
    and "\<forall>e \<in> set (pr_sites p). fst e \<noteq> addr + length bytes"
  shows "\<exists>r p'. WriteMemory env addr bytes None p = Some (r, None, p') \<and> session_ok p' (mem_write addr bytes v)"
proof (cases "bytes = []")
  case True
  with assms(2) show ?thesis by (simp add: WriteMemory_def Flush_def)
next
  case False
  have p: "sites_ok (pr_memory p) (pr_sites p)" "program_view (pr_memory p) (pr_sites p) = v"
      "\<forall>e \<in> set (pr_sites p). bs_byte_size (snd e) = 1" "cache_ok v (pr_cache p)"
      "mc_invalid_ranges (pr_cache p) = []"
    using assms(2) by (auto simp: session_ok_def)
  have "write_ok addr (length bytes) (pr_sites p)"
    using one_byte_not_hidden [OF p(3)] assms(6) by (simp add: write_ok_def)
  from WriteMemory_ok [OF assms(1,3) False p(1) this] obtain r p' where
    w: "WriteMemory env addr bytes None p = Some (r, None, p')" "sites_ok (pr_memory p') (pr_sites p')"
      "program_view (pr_memory p') (pr_sites p') = mem_write addr bytes v"
      "pr_cache p' = Flush addr (length bytes) (pr_cache p)"
      "map (\<lambda>e. (fst e, bs_byte_size (snd e))) (pr_sites p') = map (\<lambda>e. (fst e, bs_byte_size (snd e))) (pr_sites p)"
    unfolding p(2) by blast
  have "cache_ok (mem_write addr bytes v) (pr_cache p')"
    unfolding w(4) using False assms(3-5)
    by (intro Flush_keeps [OF p(4)]) (auto simp: mem_write_def)
  moreover have "mc_invalid_ranges (pr_cache p') = []"
    using p(5) by (simp_all add: w(4) Flush_def Let_def)
  ultimately show ?thesis
    using w sizes_one [OF w(5) p(3)] by (simp add: session_ok_def)
qed

lemma session_create:
  assumes "plugin_ok env" "one_byte_traps env" "session_ok p v" "addr + 1 < 2 ^ 64"
  shows "\<exists>k p'. CreateBreakpointSite env owner addr hw p = (k, p') \<and> session_ok p' v"
proof -
  have p: "sites_ok (pr_memory p) (pr_sites p)" "program_view (pr_memory p) (pr_sites p) = v"
      "\<forall>e \<in> set (pr_sites p). bs_byte_size (snd e) = 1" "cache_ok v (pr_cache p)"
      "mc_invalid_ranges (pr_cache p) = []"
    using assms(3) by (auto simp: session_ok_def)
  have one: "trap_size env s = 1" for s using assms(2) by (rule one_byte_trap_size)
  show ?thesis
  proof (cases "map_of (pr_sites p) addr")
    case None
    have "fst e \<noteq> addr" if "e \<in> set (pr_sites p)" for e
      using that None by (auto simp: map_of_eq_None_iff)
    then have "room_for addr (trap_size env (new_BreakpointSite (pr_next_site_id p) owner addr hw)) (pr_sites p)"
      using assms(4) p(3) by (force simp: room_for_def one)
    from CreateBreakpointSite_new [OF assms(1) p(1) this] obtain p' where
      "CreateBreakpointSite env owner addr hw p = (pr_next_site_id p, p')" "sites_ok (pr_memory p') (pr_sites p')"
      "program_view (pr_memory p') (pr_sites p') = v" "pr_cache p' = pr_cache p"
      "\<forall>e \<in> set (pr_sites p'). e \<in> set (pr_sites p) \<or> bs_byte_size (snd e) = 1"
      unfolding p(2) one by blast
    with p(3-5) have "session_ok p' v" unfolding session_ok_def by metis
    with \<open>CreateBreakpointSite env owner addr hw p = (pr_next_site_id p, p')\<close> show ?thesis by blast
  next
    case (Some s)
    have "addr \<noteq> LLDB_INVALID_ADDRESS" using assms(4) by (simp add: UINT64_MAX_def)
    from CreateBreakpointSite_again [OF p(1) Some this] obtain p' where
      c: "CreateBreakpointSite env owner addr hw p = (bs_id s, p')" "sites_ok (pr_memory p') (pr_sites p')"
      "program_view (pr_memory p') (pr_sites p') = v" "pr_cache p' = pr_cache p"
      "map (\<lambda>e. (fst e, bs_byte_size (snd e))) (pr_sites p') = map (\<lambda>e. (fst e, bs_byte_size (snd e))) (pr_sites p)"
      unfolding p(2) by blast
    with p(4,5) sizes_one [OF c(5) p(3)] show ?thesis by (simp add: session_ok_def)
  qed
qed

lemma session_clear:
  assumes "plugin_ok env" "session_ok p v"
  shows "\<exists>error p'. ClearBreakpointSiteByID env k p = (error, p') \<and> session_ok p' v"
proof (cases "FindByID k (pr_sites p)")
  case None
  then show ?thesis
    using assms(2) by (simp add: ClearBreakpointSiteByID_def DisableBreakpointSiteByID_def)
next
  case (Some s)
  have p: "sites_ok (pr_memory p) (pr_sites p)" "program_view (pr_memory p) (pr_sites p) = v"
    using assms(2) by (auto simp: session_ok_def)
  from ClearBreakpointSiteByID_ok [OF assms(1) p(1) Some] obtain p' where
    "ClearBreakpointSiteByID env k p = (None, p')" "sites_ok (pr_memory p') (pr_sites p')"
    "program_view (pr_memory p') (pr_sites p') = v" "pr_cache p' = pr_cache p" "set (pr_sites p') \<subseteq> set (pr_sites p)"
    unfolding p(2) by blast
  with assms(2) show ?thesis by (auto simp: session_ok_def)
qed

lemma debug_session_ok:
  assumes "debug_session env p v" "plugin_ok env" "one_byte_traps env"
  shows "session_ok p v"
  using assms
proof (induction rule: debug_session.induct)
  case (start_step p)
  then show ?case by (simp add: session_ok_def sites_ok_def program_view_def cache_ok_def chunks_ok_def lines_ok_def)
next
  case (create_step p v addr owner hw k p')
  with session_create [of env p v addr owner hw] show ?case by auto
next
  case (clear_step p v k error p')
  with session_clear [of env p v k] show ?case by auto
next
  case (read_step p v n addr bs status p')
  with session_read [of env p v n addr] show ?case by auto
next
  case (write_step p v addr bytes r error p')
  with session_write [of env p v addr bytes] show ?case by auto
qed

text \<open>C1: In a session with traps of one byte, in which breakpoints are set and cleared by number and
  memory is read and written, the debugger reads exactly the memory that the program has: no
  trap shows, what was written is there, and what the cache holds is up to date. The
  writes of the session have no breakpoint site starting right behind them, span fewer than
  2^32 cache lines, and fall, if a longer read than a line has left chunks in the cache, on
  no chunk or on chunks that a flush finds (they do not overlap and reach the
  address when they start at or below it); ranges stay a line below 2^64.\<close>

theorem debug_session_reads:
  assumes "debug_session env p v" "plugin_ok env" "one_byte_traps env"
    and "addr + n + mc_line (pr_cache p) < 2 ^ 64"
  shows "\<exists>p'. ReadMemory env addr n p = Some (mem_slice v addr n, None, p') \<and> debug_session env p' v"
  using session_read [OF assms(2) debug_session_ok [OF assms(1-3)] assms(4)]
    debug_session.read_step [OF assms(1,4)] by blast

text \<open>C37: In a session every site is enabled, has its trap in the memory of the process and the
  byte of the program saved, and the rest of the memory is that of the program.\<close>

theorem debug_session_traps:
  assumes "debug_session env p v" "plugin_ok env" "one_byte_traps env"
  shows "(\<forall>e \<in> set (pr_sites p). bs_enabled (snd e) \<and> pr_memory p (fst e) = hd (bs_trap_opcode (snd e)) \<and>
      v (fst e) = hd (bs_saved_opcode (snd e))) \<and>
    (\<forall>x. (\<forall>e \<in> set (pr_sites p). fst e \<noteq> x) \<longrightarrow> pr_memory p x = v x)"
proof -
  have p: "sites_ok (pr_memory p) (pr_sites p)" "program_view (pr_memory p) (pr_sites p) = v"
      "\<forall>e \<in> set (pr_sites p). bs_byte_size (snd e) = 1"
    using debug_session_ok [OF assms] by (auto simp: session_ok_def)
  have apart: "sites_apart (pr_sites p)" using p(1) by (simp add: sites_ok_def)
  have all: "site_ok (pr_memory p) (snd e) \<and> fst e = bs_addr (snd e) \<and> length (saved_bytes (snd e)) = 1"
    if "e \<in> set (pr_sites p)" for e
    using that p(1,3) length_saved_bytes by (auto simp: sites_ok_def sites_apart_def)
  have outside: "pr_memory p x = v x" if "\<forall>e \<in> set (pr_sites p). fst e \<noteq> x" for x
  proof -
    have "fold (\<lambda>e. patch (snd e)) (filter (\<lambda>_. False) (pr_sites p)) (pr_memory p) x = v x"
      unfolding p(2) [symmetric] program_view_def
      using that all by (intro fold_patch_filter) force
    then show ?thesis by (simp add: filter_False)
  qed
  have "bs_enabled (snd e) \<and> pr_memory p (fst e) = hd (bs_trap_opcode (snd e)) \<and> v (fst e) = hd (bs_saved_opcode (snd e))"
    if e: "e \<in> set (pr_sites p)" for e
  proof -
    obtain xs ys where m: "pr_sites p = xs @ e # ys" using split_list [OF e] by blast
    have e': "bs_enabled (snd e)" "mem_slice (pr_memory p) (fst e) 1 = take 1 (bs_trap_opcode (snd e))"
        "length (bs_trap_opcode (snd e)) = 8" "length (bs_saved_opcode (snd e)) = 8"
      using all [OF e] p(3) e by (auto simp: site_ok_def)
    have "fold (\<lambda>e. patch (snd e)) (filter (\<lambda>_. False) ys) (patch (snd e) (fold (\<lambda>e. patch (snd e)) xs (pr_memory p))) (fst e) =
        fold (\<lambda>e. patch (snd e)) ys (patch (snd e) (fold (\<lambda>e. patch (snd e)) xs (pr_memory p))) (fst e)"
    proof (intro fold_patch_filter ballI impI)
      fix y assume "y \<in> set ys"
      then have "site_before e y" "fst y = bs_addr (snd y)" using apart all m by auto
      then show "fst e < bs_addr (snd y) \<or> bs_addr (snd y) + length (saved_bytes (snd y)) \<le> fst e"
        using p(3) e by (auto simp: site_before_def)
    qed
    then have "v (fst e) = patch (snd e) (fold (\<lambda>e. patch (snd e)) xs (pr_memory p)) (fst e)"
      unfolding p(2) [symmetric] program_view_def m by (simp add: filter_False)
    also have "\<dots> = saved_bytes (snd e) ! 0"
      using all [OF e] by (simp add: patch_def mem_write_def)
    finally have "v (fst e) = hd (bs_saved_opcode (snd e))"
      using e'(4) p(3) e by (cases "bs_saved_opcode (snd e)") (auto simp: saved_bytes_def)
    moreover have "pr_memory p (fst e) = hd (bs_trap_opcode (snd e))"
      using e'(2,3) by (cases "bs_trap_opcode (snd e)") (auto simp: mem_slice_def)
    ultimately show ?thesis using e'(1) by simp
  qed
  with outside show ?thesis by blast
qed

text \<open>C10: A write over sites of any size, none of which hides below the range or starts right
  behind it, changes the memory of the program in exactly the range written and leaves
  every trap in place. It returns 0 when a site starts in the range, else the number of
  bytes.\<close>

theorem WriteMemory_view:
  assumes "plugin_ok env" "sites_ok (pr_memory p) (pr_sites p)"
    and "bytes \<noteq> []" "addr + length bytes < 2 ^ 64" "write_ok addr (length bytes) (pr_sites p)"
  shows "\<exists>p'. WriteMemory env addr bytes None p =
      Some (if starts_within addr (addr + length bytes) (pr_sites p) then 0 else length bytes, None, p') \<and>
    program_view (pr_memory p') (pr_sites p') = mem_write addr bytes (program_view (pr_memory p) (pr_sites p)) \<and>
    sites_ok (pr_memory p') (pr_sites p')"
  using WriteMemory_ok [OF assms(1,4,3,2,5)] by blast

text \<open>C38: Clearing a site by its number succeeds, puts the bytes that the program has under the
  trap back into memory, and changes nothing of what the program has.\<close>

theorem ClearBreakpointSiteByID_restores:
  assumes "plugin_ok env" "sites_ok (pr_memory p) (pr_sites p)" "FindByID k (pr_sites p) = Some s"
  shows "\<exists>p'. ClearBreakpointSiteByID env k p = (None, p') \<and>
    (\<forall>x. bs_addr s \<le> x \<and> x < bs_addr s + bs_byte_size s \<longrightarrow>
       pr_memory p' x = program_view (pr_memory p) (pr_sites p) x) \<and>
    program_view (pr_memory p') (pr_sites p') = program_view (pr_memory p) (pr_sites p)"
  using ClearBreakpointSiteByID_ok [OF assms] by blast

section \<open>Where the code lets a trap through\<close>

text \<open>A read that starts inside a trap while no site starts in its range returns memory as it
  is, and the first byte is a byte of the trap.\<close>

theorem ReadMemoryFromInferior_hidden:
  assumes "plugin_ok env" "sites_ok (pr_memory p) (pr_sites p)" "0 < n" "addr + n < 2 ^ 64"
    and "hidden_at addr n (pr_sites p)"
  shows "ReadMemoryFromInferior env p addr n = (mem_slice (pr_memory p) addr n, None) \<and>
    (\<exists>e \<in> set (pr_sites p). pr_memory p addr = bs_trap_opcode (snd e) ! (addr - fst e))"
proof -
  have apart: "sites_apart (pr_sites p)" using assms(2) by (simp add: sites_ok_def)
  have "FindInRange addr (addr + n) (pr_sites p) [] = (False, [])"
    using assms(5) by (simp add: FindInRange_eq [OF apart] hidden_at_def)
  moreover have "(addr + n) mod 2 ^ 64 = addr + n" using assms(4) by simp
  ultimately have "RemoveBreakpointOpcodesFromBuffer addr (mem_slice (pr_memory p) addr n) p = mem_slice (pr_memory p) addr n"
    unfolding RemoveBreakpointOpcodesFromBuffer_def length_mem_slice by simp
  then have r: "ReadMemoryFromInferior env p addr n = (mem_slice (pr_memory p) addr n, None)"
    using inferior_read_loop_ok [OF assms(1,4), of "[]" "pr_memory p" None] assms(3)
    by (simp add: ReadMemoryFromInferior_def)
  obtain e where e: "e \<in> set (pr_sites p)" "fst e < addr" "addr < fst e + bs_byte_size (snd e)"
    using assms(5) by (auto simp: hidden_at_def)
  have s: "mem_slice (pr_memory p) (fst e) (bs_byte_size (snd e)) = take (bs_byte_size (snd e)) (bs_trap_opcode (snd e))"
    using e(1) assms(2) by (auto simp: sites_ok_def sites_apart_def site_ok_def)
  have "mem_slice (pr_memory p) (fst e) (bs_byte_size (snd e)) ! (addr - fst e) = pr_memory p addr"
    using e(2,3) by (simp add: mem_slice_def)
  then have "pr_memory p addr = bs_trap_opcode (snd e) ! (addr - fst e)"
    using e(2,3) by (simp add: s)
  with r e(1) show ?thesis by blast
qed

lemma write_at_sites_append:
  "write_at_sites env addr bytes (es @ es') r = write_at_sites env addr bytes es r \<bind> write_at_sites env addr bytes es'"
proof (induction es arbitrary: r)
  case (Cons e es)
  then show ?case by (cases "write_at_site env addr bytes e r") simp_all
qed simp

text \<open>A write over a site that ends right where another site starts goes on with an address, a
  size and an offset that were never set.\<close>

theorem WriteMemory_next_to_a_site:
  assumes "plugin_ok env" "sites_ok (pr_memory p) (pr_sites p)"
    and "bytes \<noteq> []" "addr + length bytes < 2 ^ 64"
    and "starts_within addr (addr + length bytes) (pr_sites p)" "addr + length bytes \<in> fst ` set (pr_sites p)"
  shows "WriteMemory env addr bytes None p = None"
proof -
  let ?m = "pr_sites p" and ?n = "length bytes"
  have apart: "sites_apart ?m" using assms(2) by (simp add: sites_ok_def)
  obtain pre es post where m: "?m = pre @ es @ post" and pre: "\<forall>e \<in> set pre. fst e + bs_byte_size (snd e) \<le> addr"
    and es: "\<forall>e \<in> set es. addr < fst e + bs_byte_size (snd e) \<and> fst e < addr + ?n"
    and post: "\<forall>e \<in> set post. addr + ?n \<le> fst e"
    using sites_around [OF apart, of addr "addr + ?n"] by (elim exE conjE) (rule that)
  have size: "\<forall>e \<in> set ?m. 0 < bs_byte_size (snd e) \<and> fst e = bs_addr (snd e) \<and> site_range_ok (snd e)"
    using apart by (auto simp: sites_apart_def site_range_ok_def)
  obtain e where e: "e \<in> set ?m" "fst e = addr + ?n" using assms(6) by auto
  have "e \<in> set post"
  proof -
    have "e \<notin> set pre" using pre e size by fastforce
    moreover have "e \<notin> set es" using es e by auto
    ultimately show ?thesis using e(1) m by simp
  qed
  then obtain post' where post': "post = e # post'" and gt: "\<forall>x \<in> set post'. addr + ?n < fst x"
  proof -
    obtain y ys where y: "post = y # ys" using \<open>e \<in> set post\<close> by (cases post) auto
    have "y = e"
    proof (rule ccontr)
      assume "y \<noteq> e"
      then have "e \<in> set ys" using \<open>e \<in> set post\<close> y by simp
      then have "fst y + bs_byte_size (snd y) \<le> fst e" using apart m y by (auto simp: site_before_def)
      moreover have "0 < bs_byte_size (snd y)" "addr + ?n \<le> fst y" using size post m y by auto
      ultimately show False using e(2) by simp
    qed
    moreover have "\<forall>x \<in> set ys. addr + ?n < fst x"
    proof
      fix x assume "x \<in> set ys"
      then have "fst y + bs_byte_size (snd y) \<le> fst x" using apart m y by (auto simp: site_before_def)
      moreover have "0 < bs_byte_size (snd y)" "addr + ?n \<le> fst y" using size post m y by auto
      ultimately show "addr + ?n < fst x" by simp
    qed
    ultimately show ?thesis using that y by blast
  qed
  let ?P = "\<lambda>e. addr < fst e + bs_byte_size (snd e) \<and> fst e \<le> addr + ?n"
  have "filter ?P pre = []" using pre by (auto simp: filter_empty_conv)
  moreover have "filter ?P es = es" using es by (auto simp: filter_id_conv)
  moreover have "filter ?P post' = []" using gt by (auto simp: filter_empty_conv)
  moreover have "?P e" using e(2) size e(1) by auto
  ultimately have found: "FindInRange addr (addr + ?n) ?m [] = (True, es @ [e])"
    unfolding FindInRange_eq [OF apart le_add1] using assms(5) by (simp add: m post')
  define q where "q = p\<lparr>pr_cache := Flush addr ?n (pr_cache p)\<rparr>
      \<lparr>pr_memory_id := (pr_memory_id (p\<lparr>pr_cache := Flush addr ?n (pr_cache p)\<rparr>) + 1) mod 2 ^ 32\<rparr>"
  have q: "pr_memory q = pr_memory p" "pr_sites q = ?m" by (simp_all add: q_def)
  have es': "\<forall>e \<in> set es. addr < fst e + bs_byte_size (snd e) \<and> fst e < addr + ?n \<and> addr + 0 \<le> max addr (fst e)"
    using es by simp
  have pre': "0 = ?n \<or> (\<forall>e \<in> set pre. fst e + bs_byte_size (snd e) \<le> addr + 0)"
    using pre by simp
  obtain w p1 where w: "write_at_sites env addr bytes es (0, None, q) = Some (w, None, p1)"
    using write_at_sites_ok [OF assms(1,4,3), of q pre es post 0] assms(2) es' pre' post q m by auto
  have "IntersectsRange addr ?n (snd e) = None"
    using size e IntersectsRange_eq [of "snd e" addr ?n] assms(4) by (simp add: Let_def)
  then have "write_at_site env addr bytes e (w, None, p1) = None"
    by (simp add: write_at_site_def)
  then have "write_at_sites env addr bytes (es @ [e]) (0, None, q) = None"
    using w by (simp add: write_at_sites_append)
  moreover have "(addr + ?n) mod 2 ^ 64 = addr + ?n" using assms(4) by simp
  ultimately show ?thesis
    unfolding WriteMemory_def Let_def if_not_P [OF assms(3)] q_def [symmetric] q(2)
    by (simp add: found)
qed

text \<open>A write to the place of a single site that is disabled but still in the list reports no
  error and does not change the memory of the process.\<close>

theorem write_to_a_disabled_site:
  assumes "plugin_ok env" "pr_sites p = [(a, s)]" "a = bs_addr s" "\<not> bs_enabled s" "site_range_ok s"
    and "bs_byte_size s = length bytes"
  shows "\<exists>p'. WriteMemory env a bytes None p = Some (0, None, p') \<and> pr_memory p' = pr_memory p"
proof -
  have s: "bytes \<noteq> []" "a + length bytes < 2 ^ 64"
    using assms(3,5,6) by (auto simp: site_range_ok_def)
  have small: "(a + length bytes) mod 2 ^ 64 = a + length bytes" "a mod 2 ^ 64 = a" using s(2) by simp_all
  have found: "FindInRange a (a + length bytes) [(a, s)] [] = (True, [(a, s)])"
    using assms(3,5,6) s(1) by (subst FindInRange_eq) (auto simp: starts_within_def)
  have x: "IntersectsRange a (length bytes) s = Some (a, length bytes, 0)"
    using s assms(3,6) by (simp add: IntersectsRange_eq [OF assms(5)] Let_def)
  let ?q = "p\<lparr>pr_cache := Flush a (length bytes) (pr_cache p)\<rparr>
      \<lparr>pr_memory_id := (pr_memory_id (p\<lparr>pr_cache := Flush a (length bytes) (pr_cache p)\<rparr>) + 1) mod 2 ^ 32\<rparr>"
  have sites: "pr_sites ?q = [(a, s)]" by (simp add: assms(2))
  have "write_at_site env a bytes (a, s) (0, None, ?q) =
      Some (length bytes, None, ?q\<lparr>pr_sites := map_put a (s\<lparr>bs_saved_opcode := overwrite 0 bytes (bs_saved_opcode s)\<rparr>) [(a, s)]\<rparr>)"
    unfolding write_at_site_def prod.case snd_conv x option.case Let_def add_0_right small(2)
    by (simp add: assms(2,3))
  then have step: "write_at_sites env a bytes [(a, s)] (0, None, ?q) =
      Some (length bytes, None, ?q\<lparr>pr_sites := map_put a (s\<lparr>bs_saved_opcode := overwrite 0 bytes (bs_saved_opcode s)\<rparr>) [(a, s)]\<rparr>)"
    by simp
  show ?thesis
    unfolding WriteMemory_def Let_def if_not_P [OF s(1)] sites small(1) found prod.case bool.case
      if_not_P [OF list.distinct(2)] step
    by simp
qed

section \<open>Concrete inputs\<close>

definition demo_process_env :: "machine \<Rightarrow> process_env" where
  "demo_process_env m =
     \<lparr>DoReadMemory = (\<lambda>mem a n. (mem_slice mem a n, None)),
      DoWriteMemory = (\<lambda>mem a bs. (length bs, None, mem_write a bs mem)),
      pe_pages = demo_pages, pe_machine = m, pe_alternate_ISA = (\<lambda>_. False), pe_disable_memory_cache = False,
      pe_byte_order = eByteOrderLittle, pe_address_byte_size = 8\<rparr>"

lemma demo_plugin_ok: "plugin_ok (demo_process_env m)"
  by (auto simp: plugin_ok_def demo_process_env_def)

text \<open>A process full of one-byte instructions, and the same with a breakpoint at 4096.\<close>

definition demo_process :: process where
  "demo_process =
     \<lparr>pr_memory = (\<lambda>_. 0x90), pr_sites = [], pr_next_site_id = 1,
      pr_cache = \<lparr>mc_L1 = [], mc_L2 = [], mc_invalid_ranges = [], mc_line = 512\<rparr>,
      pr_allocated = empty_cache, pr_memory_id = 0, pr_private_state = eStateStopped, pr_can_jit = eCanJITDontKnow\<rparr>"

definition demo_stop :: "machine \<Rightarrow> nat \<Rightarrow> process \<Rightarrow> process" where
  "demo_stop m addr p = snd (CreateBreakpointSite (demo_process_env m) (1, 1) addr False p)"

definition demo_site :: "nat \<Rightarrow> nat \<Rightarrow> u8 list \<Rightarrow> bp_site" where
  "demo_site n addr opcode =
     \<lparr>bs_id = n, bs_addr = addr, bs_hardware = False, bs_hardware_index = UINT32_MAX, bs_byte_size = length opcode,
      bs_hit_count = 0, bs_type = eSoftware, bs_saved_opcode = overwrite 0 (replicate (length opcode) 0x90) (replicate 8 0),
      bs_trap_opcode = overwrite 0 opcode (replicate 8 0), bs_enabled = True, bs_owners = [(1, 1)]\<rparr>"

lemma demo_slice [simp]: "mem_slice (\<lambda>_. b) a n = replicate n b"
  by (simp add: mem_slice_def map_replicate_const)

lemma demo_stop_once:
  assumes "addr < 2 ^ 63"
  shows "demo_stop m addr demo_process =
    demo_process\<lparr>pr_memory := mem_write addr (trap_opcode m False) (\<lambda>_. 0x90), pr_next_site_id := 2,
      pr_sites := [(addr, demo_site 1 addr (trap_opcode m False))]\<rparr>"
proof -
  let ?t = "trap_opcode m False"
  have t: "0 < length ?t" "length ?t \<le> 8" using length_trap_opcode by simp_all
  then have "take (length ?t) (overwrite 0 ?t (replicate 8 0)) = ?t" "length (overwrite 0 ?t (replicate 8 0)) = 8"
    using overwrite_0 [of ?t "replicate 8 0"] by simp_all
  then show ?thesis
    using assms t
    by (simp add: demo_stop_def CreateBreakpointSite_def demo_process_def FindByAddress_def Let_def UINT64_MAX_def
        EnableSoftwareBreakpoint_def new_BreakpointSite_def GetSoftwareBreakpointTrapOpcode_def SetTrapOpcode_def
        demo_process_env_def Add_site_def demo_site_def Add_location_def FindByIDPair_def)
qed

lemma demo_session: "debug_session (demo_process_env x86_64_machine) (demo_stop x86_64_machine 4096 demo_process) (\<lambda>_. 0x90)"
proof -
  have "debug_session (demo_process_env x86_64_machine) demo_process (pr_memory demo_process)"
    by (rule debug_session.start_step) (simp_all add: demo_process_def)
  from debug_session.create_step [OF this _ prod.collapse [symmetric], of 4096 "(1, 1)" False] show ?thesis
    by (simp add: demo_stop_def demo_process_def)
qed

lemma demo_process_simps [simp]:
  "pr_memory demo_process = (\<lambda>_. 0x90)" "pr_sites demo_process = []" "mc_line (pr_cache demo_process) = 512"
  "mc_L1 (pr_cache demo_process) = []"
  by (simp_all add: demo_process_def)

lemma demo_line: "addr < 2 ^ 63 \<Longrightarrow> mc_line (pr_cache (demo_stop m addr demo_process)) = 512"
  by (simp add: demo_stop_once)

lemma demo_one_byte: "one_byte_traps (demo_process_env x86_64_machine)"
  by (simp add: one_byte_traps_def demo_process_env_def)

theorem debug_session_reads_witness:
  "\<exists>p'. ReadMemory (demo_process_env x86_64_machine) 4095 3 (demo_stop x86_64_machine 4096 demo_process) =
     Some ([0x90, 0x90, 0x90], None, p')"
  using debug_session_reads [OF demo_session demo_plugin_ok demo_one_byte, of 4095 3] demo_line [of 4096 x86_64_machine]
  by (auto simp: numeral_3_eq_3)

theorem debug_session_traps_witness: "pr_memory (demo_stop x86_64_machine 4096 demo_process) 4096 = 0xCC"
  using debug_session_traps [OF demo_session demo_plugin_ok demo_one_byte]
  by (simp add: demo_stop_once demo_site_def trap_opcode_def overwrite_def)

lemma demo_sites_ok:
  assumes "addr < 2 ^ 63"
  shows "sites_ok (pr_memory (demo_stop m addr demo_process)) (pr_sites (demo_stop m addr demo_process))"
proof -
  let ?t = "trap_opcode m False"
  have t: "0 < length ?t" "length ?t \<le> 8" using length_trap_opcode by simp_all
  then have "take (length ?t) (overwrite 0 ?t (replicate 8 0)) = ?t" "length (overwrite 0 ?t (replicate 8 0)) = 8"
    using overwrite_0 [of ?t "replicate 8 0"] by simp_all
  moreover have "length (overwrite 0 (replicate (length ?t) 0x90) (replicate 8 (0 :: u8))) = 8"
    using t overwrite_0 [of "replicate (length ?t) 0x90" "replicate 8 0"] by simp
  ultimately show ?thesis
    using assms t by (simp add: demo_stop_once sites_ok_def site_ok_def site_range_ok_def demo_site_def IsHardware_def)
qed

theorem WriteMemory_view_witness:
  "\<exists>p'. WriteMemory (demo_process_env x86_64_machine) 4095 [1, 2, 3] None (demo_stop x86_64_machine 4096 demo_process) =
     Some (0, None, p')"
proof -
  let ?p = "demo_stop x86_64_machine 4096 demo_process"
  have w: "write_ok 4095 (length [1, 2, 3 :: u8]) (pr_sites ?p)" "starts_within 4095 (4095 + length [1, 2, 3 :: u8]) (pr_sites ?p)"
    by (simp_all add: demo_stop_once write_ok_def hidden_at_def starts_within_def)
  have "\<exists>p'. WriteMemory (demo_process_env x86_64_machine) 4095 [1, 2, 3] None ?p =
      Some (if starts_within 4095 (4095 + length [1, 2, 3 :: u8]) (pr_sites ?p) then 0 else length [1, 2, 3 :: u8], None, p') \<and>
    program_view (pr_memory p') (pr_sites p') = mem_write 4095 [1, 2, 3] (program_view (pr_memory ?p) (pr_sites ?p)) \<and>
    sites_ok (pr_memory p') (pr_sites p')"
    by (rule WriteMemory_view [OF demo_plugin_ok demo_sites_ok _ _ w(1)]) simp_all
  with w(2) show ?thesis by auto
qed

theorem ClearBreakpointSiteByID_restores_witness:
  "\<exists>p'. ClearBreakpointSiteByID (demo_process_env aarch64) 1 (demo_stop aarch64 4096 demo_process) = (None, p') \<and>
     pr_memory p' 4098 = 0x90"
proof -
  let ?p = "demo_stop aarch64 4096 demo_process" and ?s = "demo_site 1 4096 (trap_opcode aarch64 False)"
  have "FindByID 1 (pr_sites ?p) = Some ?s"
    by (simp add: demo_stop_once FindByID_def demo_site_def)
  from ClearBreakpointSiteByID_restores [OF demo_plugin_ok demo_sites_ok this] obtain p' where
    p': "ClearBreakpointSiteByID (demo_process_env aarch64) 1 ?p = (None, p')"
      "\<forall>x. bs_addr ?s \<le> x \<and> x < bs_addr ?s + bs_byte_size ?s \<longrightarrow> pr_memory p' x = program_view (pr_memory ?p) (pr_sites ?p) x"
    by auto
  have "program_view (pr_memory ?p) (pr_sites ?p) 4098 = 0x90"
    by (simp add: demo_stop_once program_view_def patch_def saved_bytes_def mem_write_def demo_site_def trap_opcode_def
        overwrite_def)
  moreover have "bs_addr ?s \<le> 4098 \<and> 4098 < bs_addr ?s + bs_byte_size ?s"
    by (simp add: demo_site_def trap_opcode_def)
  ultimately show ?thesis using p' by metis
qed

theorem ReadMemoryFromInferior_hidden_witness:
  "ReadMemoryFromInferior (demo_process_env aarch64) (demo_stop aarch64 4096 demo_process) 4098 2 = ([0x20, 0xd4], None)"
proof -
  let ?p = "demo_stop aarch64 4096 demo_process"
  have "hidden_at 4098 2 (pr_sites ?p)"
    by (simp add: demo_stop_once hidden_at_def starts_within_def demo_site_def trap_opcode_def)
  moreover have "mem_slice (pr_memory ?p) 4098 2 = [0x20, 0xd4]"
    by (simp add: demo_stop_once mem_slice_def mem_write_def trap_opcode_def)
  ultimately show ?thesis
    using ReadMemoryFromInferior_hidden [OF demo_plugin_ok demo_sites_ok, of 4096 2 4098 aarch64] by simp
qed

text \<open>Two breakpoints, and a write that ends right before the second.\<close>

definition demo_two_stops :: process where
  "demo_two_stops = demo_stop x86_64_machine 4098 (demo_stop x86_64_machine 4096 demo_process)"

lemma demo_two_stops_ok:
  "sites_ok (pr_memory demo_two_stops) (pr_sites demo_two_stops)" "fst ` set (pr_sites demo_two_stops) = {4096, 4098}"
proof -
  let ?p = "demo_stop x86_64_machine 4096 demo_process"
  have one: "trap_size (demo_process_env x86_64_machine) s = 1" for s
    by (rule one_byte_trap_size [OF demo_one_byte])
  have "room_for 4098 (trap_size (demo_process_env x86_64_machine) (new_BreakpointSite (pr_next_site_id ?p) (1, 1) 4098 False)) (pr_sites ?p)"
    unfolding one by (simp add: room_for_def demo_stop_once demo_site_def trap_opcode_def)
  from CreateBreakpointSite_new [OF demo_plugin_ok demo_sites_ok this] obtain p' where
    p': "CreateBreakpointSite (demo_process_env x86_64_machine) (1, 1) 4098 False ?p = (pr_next_site_id ?p, p')"
      "sites_ok (pr_memory p') (pr_sites p')" "fst ` set (pr_sites p') = insert 4098 (fst ` set (pr_sites ?p))"
    by auto
  have two: "demo_two_stops = p'"
    by (simp only: demo_two_stops_def demo_stop_def [of _ 4098] p'(1) snd_conv)
  have "fst ` set (pr_sites ?p) = {4096}" by (simp add: demo_stop_once)
  with p'(2,3) two
  show "sites_ok (pr_memory demo_two_stops) (pr_sites demo_two_stops)" "fst ` set (pr_sites demo_two_stops) = {4096, 4098}"
    by auto
qed

theorem WriteMemory_next_to_a_site_witness:
  "WriteMemory (demo_process_env x86_64_machine) 4096 [1, 2] None demo_two_stops = None"
proof (rule WriteMemory_next_to_a_site [OF demo_plugin_ok demo_two_stops_ok(1)])
  obtain e where "e \<in> set (pr_sites demo_two_stops)" "fst e = 4096"
    using demo_two_stops_ok(2) by (metis (no_types, lifting) image_iff insertI1)
  then show "starts_within 4096 (4096 + length [1, 2 :: u8]) (pr_sites demo_two_stops)"
    by (auto simp: starts_within_def intro!: bexI [of _ e])
qed (simp_all add: demo_two_stops_ok(2))

text \<open>A breakpoint that is disabled, but not removed.\<close>

definition demo_disabled :: process where
  "demo_disabled = snd (DisableBreakpointSiteByID (demo_process_env x86_64_machine) 1 (demo_stop x86_64_machine 4096 demo_process))"

lemma demo_disabled_eq:
  "pr_sites demo_disabled = [(4096, (demo_site 1 4096 [0xCC])\<lparr>bs_enabled := False\<rparr>)]" "pr_memory demo_disabled 4096 = 0x90"
proof -
  let ?p = "demo_stop x86_64_machine 4096 demo_process" and ?s = "demo_site 1 4096 [0xCC]"
  have p: "pr_sites ?p = [(4096, ?s)]"
    by (simp add: demo_stop_once trap_opcode_def)
  then have s: "site_ok (pr_memory ?p) ?s"
    using demo_sites_ok [of 4096 x86_64_machine] by (simp add: sites_ok_def)
  have "FindByID 1 (pr_sites ?p) = Some ?s" "bs_enabled ?s" "bs_addr ?s = 4096"
    by (simp_all add: p FindByID_def demo_site_def)
  then have d: "demo_disabled = ?p\<lparr>pr_memory := mem_write 4096 (saved_bytes ?s) (pr_memory ?p),
      pr_sites := [(4096, ?s\<lparr>bs_enabled := False\<rparr>)]\<rparr>"
    by (simp add: demo_disabled_def DisableBreakpointSiteByID_def DisableSoftwareBreakpoint_ok [OF demo_plugin_ok s, unfolded One_nat_def] p map_put_def)
  show "pr_sites demo_disabled = [(4096, ?s\<lparr>bs_enabled := False\<rparr>)]" by (simp add: d)
  show "pr_memory demo_disabled 4096 = 0x90"
    by (simp add: d mem_write_def saved_bytes_def demo_site_def overwrite_def)
qed

theorem write_to_a_disabled_site_witness:
  "\<exists>p'. WriteMemory (demo_process_env x86_64_machine) 4096 [0xAA] None demo_disabled = Some (0, None, p') \<and>
     pr_memory p' 4096 = 0x90"
  using write_to_a_disabled_site [OF demo_plugin_ok demo_disabled_eq(1), of "[0xAA]" x86_64_machine] demo_disabled_eq(2)
  by (auto simp: demo_site_def site_range_ok_def IsHardware_def)

section \<open>Strings and integers of a session\<close>

declare cstr_loop.simps [simp del]

lemma mem_slice_shift: "mem_slice v a n = map (\<lambda>i. v (a + i)) [0..<n]"
  by (rule nth_equalityI) (simp_all add: mem_slice_def)

lemma takeWhile_slice:
  assumes "v (a + k) = 0" "\<forall>i < k. v (a + i) \<noteq> 0"
  shows "takeWhile (\<lambda>b. b \<noteq> 0) (mem_slice v a n) = mem_slice v a (min k n)"
proof (cases "k < n")
  case True
  then have "mem_slice v a n = mem_slice v a k @ v (a + k) # mem_slice v (a + k + 1) (n - k - 1)"
    using mem_slice_append [of v a k "n - k"] by (simp add: mem_slice_def upt_conv_Cons)
  moreover have "\<forall>b \<in> set (mem_slice v a k). b \<noteq> 0"
    using assms(2) by (auto simp: mem_slice_shift)
  ultimately show ?thesis
    using True assms(1) by (simp add: takeWhile_append takeWhile_eq_all_conv)
next
  case False
  have "\<forall>b \<in> set (mem_slice v a n). b \<noteq> 0"
    using assms(2) False by (auto simp: mem_slice_shift)
  then have "takeWhile (\<lambda>b. b \<noteq> 0) (mem_slice v a n) = mem_slice v a n"
    by (simp add: takeWhile_eq_all_conv)
  with False show ?thesis by simp
qed

lemma session_cstr_loop:
  assumes "plugin_ok env" "session_ok p v" "addr + left + mc_line (pr_cache p) < 2 ^ 64"
    and "v (addr + k) = 0 \<or> k = left" "\<forall>i < k. v (addr + i) \<noteq> 0" "k \<le> left"
  shows "\<exists>p'. cstr_loop env addr left str p = Some (str @ mem_slice v addr k, None, p') \<and> session_ok p' v"
  using assms(2-6)
proof (induction left arbitrary: addr k str p rule: less_induct)
  case (less left)
  let ?line = "mc_line (pr_cache p)"
  show ?case
  proof (cases "left = 0")
    case True
    with less.prems show ?thesis by (subst cstr_loop.simps) simp
  next
    case False
    have line: "0 < ?line" using less.prems(1) by (simp add: session_ok_def cache_ok_def)
    define r where "r = min left (?line - addr mod ?line)"
    have r: "0 < r" "r \<le> left" "r \<le> ?line" using False line by (auto simp: r_def)
    have "addr + r + ?line < 2 ^ 64" using r(2) less.prems(2) by simp
    from session_read [OF assms(1) less.prems(1) this] obtain p1 where
      p1: "ReadMemory env addr r p = Some (mem_slice v addr r, None, p1)" "session_ok p1 v" "mc_line (pr_cache p1) = ?line"
      by blast
    have ne: "mem_slice v addr r \<noteq> []" using r(1) by (simp add: mem_slice_def)
    have chars: "takeWhile (\<lambda>b. b \<noteq> 0) (mem_slice v addr r) = mem_slice v addr (min k r)"
    proof (cases "v (addr + k) = 0")
      case True
      from takeWhile_slice [OF this less.prems(4)] show ?thesis .
    next
      case False
      then have "k = left" using less.prems(3) by simp
      then have "\<forall>b \<in> set (mem_slice v addr r). b \<noteq> 0"
        using less.prems(4) r(2) by (auto simp: mem_slice_shift)
      then have "takeWhile (\<lambda>b. b \<noteq> 0) (mem_slice v addr r) = mem_slice v addr r"
        by (simp add: takeWhile_eq_all_conv)
      with \<open>k = left\<close> r(2) show ?thesis by simp
    qed
    have small: "(addr + r) mod 2 ^ 64 = addr + r" using r(2) less.prems(2) by simp
    show ?thesis
    proof (cases "k < r")
      case True
      with False p1 ne chars show ?thesis
        by (subst cstr_loop.simps) (simp add: Let_def r_def [symmetric])
    next
      case False
      have "\<exists>p'. cstr_loop env (addr + r) (left - r) (str @ mem_slice v addr r) p1 =
          Some ((str @ mem_slice v addr r) @ mem_slice v (addr + r) (k - r), None, p') \<and> session_ok p' v"
        using False r less.prems p1(2,3) by (intro less.IH) (auto simp: add.assoc)
      moreover have "mem_slice v addr r @ mem_slice v (addr + r) (k - r) = mem_slice v addr k"
        using False by (simp add: mem_slice_append)
      ultimately obtain p' where "cstr_loop env (addr + r) (left - r) (str @ mem_slice v addr r) p1 =
          Some (str @ mem_slice v addr k, None, p')" "session_ok p' v" by auto
      then have "cstr_loop env ((addr + r) mod 2 ^ 64) (left - r) (str @ mem_slice v addr r) p1 =
          Some (str @ mem_slice v addr k, None, p')" "session_ok p' v" unfolding small by simp_all
      moreover have "takeWhile (\<lambda>b. b \<noteq> 0) (mem_slice v addr r) = mem_slice v addr r"
        using chars False by (simp add: min_def del: takeWhile_eq_all_conv)
      ultimately show ?thesis
        using \<open>left \<noteq> 0\<close> p1 ne
        by (subst cstr_loop.simps) (simp add: Let_def r_def [symmetric] del: takeWhile_eq_all_conv)
    qed
  qed
qed

text \<open>A string of \<open>k\<close> characters, or its first \<open>dst_max_len - 1\<close>.\<close>

lemma session_cstring:
  assumes "plugin_ok env" "session_ok p v" "addr + dst_max_len + mc_line (pr_cache p) < 2 ^ 64"
    and "v (addr + k) = 0" "\<forall>i < k. v (addr + i) \<noteq> 0" "0 < dst_max_len"
  shows "\<exists>p'. ReadCStringFromMemory env addr dst_max_len p = Some (mem_slice v addr (min k (dst_max_len - 1)), None, p') \<and>
    session_ok p' v"
  using session_cstr_loop [OF assms(1,2), of addr "dst_max_len - 1" "min k (dst_max_len - 1)" "[]"] assms(3-6)
  by (auto simp: ReadCStringFromMemory_def min_def split: if_splits)

lemma session_unsigned:
  assumes "plugin_ok env" "session_ok p v" "platform_ok pl" "pe_byte_order env \<in> {eByteOrderBig, eByteOrderLittle}"
    and "n \<in> {1, 2, 4, 8}" "addr + n + mc_line (pr_cache p) < 2 ^ 64"
  shows "\<exists>p'. ReadUnsignedIntegerFromMemory pl env addr n fail p =
      Some (word_of_nat (order_nat (pe_byte_order env) (mem_slice v addr n)), None, p') \<and> session_ok p' v"
proof -
  from session_read [OF assms(1,2,6)] obtain p1 where
    p1: "ReadMemory env addr n p = Some (mem_slice v addr n, None, p1)" "session_ok p1 v" by blast
  let ?d = "DataExtractor_of_bytes (mem_slice v addr n @ replicate (8 - n) 0) (pe_byte_order env) (pe_address_byte_size env) 1"
  have d: "order_ok ?d" "0 + n \<le> GetByteSize ?d" "slice_nat ?d 0 n = order_nat (pe_byte_order env) (mem_slice v addr n)"
    using assms(4,5) by (auto simp: order_ok_def DataExtractor_of_bytes_def GetByteSize_def de_bytes_def slice_nat_def)
  have max: "fst (GetMaxU64 pl ?d 0 n) = word_of_nat (order_nat (pe_byte_order env) (mem_slice v addr n))"
    using GetMaxU64_correct [OF assms(3) d(1), of n 0] d(2,3) assms(5) by auto
  have small: "ucast (ucast (word_of_nat m :: u64) :: u32) = (word_of_nat m :: u64)" if "m < 2 ^ 32" for m
    using that by (intro word_unat_eq_iff [THEN iffD2]) (simp add: unat_ucast_mod unat_of_nat)
  have "order_nat (pe_byte_order env) (mem_slice v addr n) < 256 ^ n"
    using order_nat_bound [of "pe_byte_order env" "mem_slice v addr n"] by simp
  then have less: "order_nat (pe_byte_order env) (mem_slice v addr n) < 2 ^ 32" if "n \<le> 4"
    using that assms(5) by auto
  have word: "unat (word_of_nat n :: u32) = n" "(word_of_nat n :: u32) \<noteq> 0" "(word_of_nat n :: u32) AND (word_of_nat n - 1) = 0"
    using assms(5) by auto
  show ?thesis
    using p1 max small [OF less] word assms(5)
    by (auto simp: ReadUnsignedIntegerFromMemory_def ReadScalarIntegerFromMemory_def Let_def GetMaxU32_def split_beta)
qed

text \<open>In a session a C string is read up to its terminator, or as much of it as the buffer has
  room for besides its own terminator, in however many lines it lies.\<close>

theorem debug_session_cstring:
  assumes "debug_session env p v" "plugin_ok env" "one_byte_traps env"
    and "0 < dst_max_len" "addr + dst_max_len + mc_line (pr_cache p) < 2 ^ 64"
    and "v (addr + k) = 0" "\<forall>i < k. v (addr + i) \<noteq> 0"
  shows "\<exists>p'. ReadCStringFromMemory env addr dst_max_len p = Some (mem_slice v addr (min k (dst_max_len - 1)), None, p')"
  using session_cstring [OF assms(2) debug_session_ok [OF assms(1-3)] assms(5-7,4)] by blast

theorem debug_session_unsigned:
  assumes "debug_session env p v" "plugin_ok env" "one_byte_traps env" "platform_ok pl"
    and "pe_byte_order env \<in> {eByteOrderBig, eByteOrderLittle}" "n \<in> {1, 2, 4, 8}"
    and "addr + n + mc_line (pr_cache p) < 2 ^ 64"
  shows "\<exists>p'. ReadUnsignedIntegerFromMemory pl env addr n fail_value p =
    Some (word_of_nat (order_nat (pe_byte_order env) (mem_slice v addr n)), None, p')"
  using session_unsigned [OF assms(2) debug_session_ok [OF assms(1-3)] assms(4-7)] by blast

definition demo_text :: process where
  "demo_text = demo_process\<lparr>pr_memory := mem_write 4096 [0x6c, 0x6c, 0x64, 0x62, 0] (\<lambda>_. 0x90)\<rparr>"

lemma demo_text_session: "debug_session (demo_process_env x86_64_machine) demo_text (pr_memory demo_text)"
  by (rule debug_session.start_step) (simp_all add: demo_text_def demo_process_def)

lemma demo_text_memory:
  "pr_memory demo_text = mem_write 4096 [0x6c, 0x6c, 0x64, 0x62, 0] (\<lambda>_. 0x90)" "mc_line (pr_cache demo_text) = 512"
  by (simp_all add: demo_text_def)

theorem debug_session_cstring_witness:
  "\<exists>p'. ReadCStringFromMemory (demo_process_env x86_64_machine) 4096 256 demo_text = Some ([0x6c, 0x6c, 0x64, 0x62], None, p')"
proof -
  have "pr_memory demo_text (4096 + i) \<noteq> 0" if "i < 4" for i
  proof -
    from that consider "i = 0" | "i = 1" | "i = 2" | "i = 3" by linarith
    then show ?thesis by cases (simp_all add: demo_text_memory mem_write_def)
  qed
  moreover have "pr_memory demo_text (4096 + 4) = 0" by (simp add: demo_text_memory mem_write_def)
  moreover have "mem_slice (pr_memory demo_text) 4096 4 = [0x6c, 0x6c, 0x64, 0x62]"
    by (simp add: demo_text_memory mem_slice_def mem_write_def)
  ultimately show ?thesis
    using debug_session_cstring [OF demo_text_session demo_plugin_ok demo_one_byte, of 256 4096 4] demo_text_memory(2)
    by auto
qed

theorem debug_session_unsigned_witness:
  "\<exists>p'. ReadUnsignedIntegerFromMemory x86_64 (demo_process_env x86_64_machine) 4096 2 0 demo_text = Some (0x6c6c, None, p')"
proof -
  have "mem_slice (pr_memory demo_text) 4096 2 = [0x6c, 0x6c]"
    by (simp add: demo_text_memory mem_slice_def mem_write_def)
  then show ?thesis
    using debug_session_unsigned [OF demo_text_session demo_plugin_ok demo_one_byte x86_64_ok, of 2 4096 0]
      demo_text_memory(2)
    by (auto simp: demo_process_env_def order_nat_def)
qed

end
