(* ===== verification/UnwindPlan.thy ===== *)
theory UnwindPlan
  imports Prelude
begin

text \<open>
  Unwind plans (\<open>UnwindPlan\<close>, source/Symbol/UnwindPlan.cpp and UnwindPlan.h): for each code
  offset of a function a row that tells where the canonical frame address (CFA) and the
  caller's registers are.

  Offsets and addresses are computed modulo \<open>2 ^ 64\<close>. A DWARF expression is a pointer, given as the
  bytes readable from it (\<open>None\<close>: null), and a length of 16 bits. A row is
  shared between the plan and its builder; no builder changes a row that it has handed over, so
  rows are values here. Printing is left out. A result of \<open>None\<close> is a comparison of memory
  at a null pointer.
\<close>

section \<open>Addresses\<close>

record obj_section =
  sect_id :: nat
  sect_file_addr :: nat

record address =
  ad_section :: "obj_section option"
  ad_offset :: nat

definition new_Address :: address where
  "new_Address = \<lparr>ad_section = None, ad_offset = LLDB_INVALID_ADDRESS\<rparr>"

definition IsValid_address :: "address \<Rightarrow> bool" where
  "IsValid_address a \<longleftrightarrow> ad_offset a \<noteq> LLDB_INVALID_ADDRESS"

definition GetFileAddress :: "address \<Rightarrow> nat" where
  "GetFileAddress a =
     (case ad_section a of
        Some sect \<Rightarrow>
          if sect_file_addr sect = LLDB_INVALID_ADDRESS then LLDB_INVALID_ADDRESS
          else (sect_file_addr sect + ad_offset a) mod 2 ^ 64
      | None \<Rightarrow> ad_offset a)"

text \<open>The section list is a parameter: the section that contains a file address.\<close>

type_synonym section_list = "nat \<Rightarrow> obj_section option"

definition ResolveAddressUsingFileSections :: "section_list \<Rightarrow> nat \<Rightarrow> address" where
  "ResolveAddressUsingFileSections sections file_addr =
     (case sections file_addr of
        Some sect \<Rightarrow> \<lparr>ad_section = Some sect, ad_offset = (file_addr + 2 ^ 64 - sect_file_addr sect) mod 2 ^ 64\<rparr>
      | None \<Rightarrow> \<lparr>ad_section = None, ad_offset = file_addr\<rparr>)"

record address_range =
  ar_base_addr :: address
  ar_byte_size :: nat

definition new_AddressRange :: address_range where
  "new_AddressRange = \<lparr>ar_base_addr = new_Address, ar_byte_size = 0\<rparr>"

definition ContainsFileAddress :: "address_range \<Rightarrow> address \<Rightarrow> bool" where
  "ContainsFileAddress r a =
     (if ad_section a = ad_section (ar_base_addr r)
      then (ad_offset a + 2 ^ 64 - ad_offset (ar_base_addr r)) mod 2 ^ 64 < ar_byte_size r
      else let file_base_addr = GetFileAddress (ar_base_addr r);
               file_addr = GetFileAddress a
           in if file_base_addr = LLDB_INVALID_ADDRESS then False
              else if file_addr = LLDB_INVALID_ADDRESS then False
              else if file_base_addr \<le> file_addr then file_addr - file_base_addr < ar_byte_size r
              else False)"

section \<open>Where a register and the CFA are\<close>

datatype register_location =
    unspecified_loc
  | undefined_loc
  | same_loc
  | atCFAPlusOffset int
  | isCFAPlusOffset int
  | inOtherRegister nat
  | atDWARFExpression "u8 list option" nat
  | isDWARFExpression "u8 list option" nat

datatype cfa_value =
    unspecified_cfa
  | isRegisterPlusOffset nat int
  | isRegisterDereferenced nat
  | isDWARFExpression_cfa "u8 list option" nat

abbreviation LLDB_INVALID_REGNUM :: nat where
  "LLDB_INVALID_REGNUM \<equiv> UINT32_MAX"

text \<open>The setters keep 16 bits of the length of an expression.\<close>

definition SetAtDWARFExpression :: "u8 list option \<Rightarrow> nat \<Rightarrow> register_location" where
  "SetAtDWARFExpression opcodes len = atDWARFExpression opcodes (len mod 2 ^ 16)"

definition SetIsDWARFExpression :: "u8 list option \<Rightarrow> nat \<Rightarrow> register_location" where
  "SetIsDWARFExpression opcodes len = isDWARFExpression opcodes (len mod 2 ^ 16)"

definition SetIsDWARFExpression_cfa :: "u8 list option \<Rightarrow> nat \<Rightarrow> cfa_value" where
  "SetIsDWARFExpression_cfa opcodes len = isDWARFExpression_cfa opcodes (len mod 2 ^ 16)"

definition GetRegisterNumber_cfa :: "cfa_value \<Rightarrow> nat" where
  "GetRegisterNumber_cfa v =
     (case v of isRegisterPlusOffset r _ \<Rightarrow> r | isRegisterDereferenced r \<Rightarrow> r | _ \<Rightarrow> LLDB_INVALID_REGNUM)"

definition GetOffset_cfa :: "cfa_value \<Rightarrow> int" where
  "GetOffset_cfa v = (case v of isRegisterPlusOffset _ offset \<Rightarrow> offset | _ \<Rightarrow> 0)"

definition memcmp_eq :: "u8 list option \<Rightarrow> u8 list option \<Rightarrow> nat \<Rightarrow> bool option" where
  "memcmp_eq a b n =
     (if n = 0 then Some True
      else case (a, b) of (Some xs, Some ys) \<Rightarrow> Some (take n xs = take n ys) | _ \<Rightarrow> None)"

fun RegisterLocation_eq :: "register_location \<Rightarrow> register_location \<Rightarrow> bool option" where
  "RegisterLocation_eq unspecified_loc unspecified_loc = Some True"
| "RegisterLocation_eq undefined_loc undefined_loc = Some True"
| "RegisterLocation_eq same_loc same_loc = Some True"
| "RegisterLocation_eq (atCFAPlusOffset m) (atCFAPlusOffset n) = Some (m = n)"
| "RegisterLocation_eq (isCFAPlusOffset m) (isCFAPlusOffset n) = Some (m = n)"
| "RegisterLocation_eq (inOtherRegister m) (inOtherRegister n) = Some (m = n)"
| "RegisterLocation_eq (atDWARFExpression a m) (atDWARFExpression b n) =
     (if m = n then memcmp_eq a b m else Some False)"
| "RegisterLocation_eq (isDWARFExpression a m) (isDWARFExpression b n) =
     (if m = n then memcmp_eq a b m else Some False)"
| "RegisterLocation_eq _ _ = Some False"

fun CFAValue_eq :: "cfa_value \<Rightarrow> cfa_value \<Rightarrow> bool option" where
  "CFAValue_eq unspecified_cfa unspecified_cfa = Some True"
| "CFAValue_eq (isRegisterPlusOffset r m) (isRegisterPlusOffset q n) = Some (m = n)"
| "CFAValue_eq (isRegisterDereferenced r) (isRegisterDereferenced q) = Some (r = q)"
| "CFAValue_eq (isDWARFExpression_cfa a m) (isDWARFExpression_cfa b n) =
     (if m = n then memcmp_eq a b m else Some False)"
| "CFAValue_eq _ _ = Some False"

section \<open>Rows\<close>

record row =
  row_offset :: nat
  row_cfa_value :: cfa_value
  row_locations :: "(nat \<times> register_location) list"

definition new_Row :: row where
  "new_Row = \<lparr>row_offset = 0, row_cfa_value = unspecified_cfa, row_locations = []\<rparr>"

definition Clear_row :: "row \<Rightarrow> row" where
  "Clear_row r = r\<lparr>row_cfa_value := unspecified_cfa, row_offset := 0, row_locations := []\<rparr>"

definition SlideOffset :: "nat \<Rightarrow> row \<Rightarrow> row" where
  "SlideOffset n r = r\<lparr>row_offset := (row_offset r + n) mod 2 ^ 64\<rparr>"

definition GetRegisterInfo :: "row \<Rightarrow> nat \<Rightarrow> register_location option" where
  "GetRegisterInfo r reg_num = map_of (row_locations r) reg_num"

definition RemoveRegisterInfo :: "nat \<Rightarrow> row \<Rightarrow> row" where
  "RemoveRegisterInfo reg_num r = r\<lparr>row_locations := map_erase reg_num (row_locations r)\<rparr>"

definition SetRegisterInfo :: "nat \<Rightarrow> register_location \<Rightarrow> row \<Rightarrow> row" where
  "SetRegisterInfo reg_num loc r = r\<lparr>row_locations := map_put reg_num loc (row_locations r)\<rparr>"

text \<open>The setters that may refuse to replace a location; \<open>False\<close> when they do.\<close>

definition set_location :: "nat \<Rightarrow> register_location \<Rightarrow> bool \<Rightarrow> row \<Rightarrow> bool \<times> row" where
  "set_location reg_num loc can_replace r =
     (if \<not> can_replace \<and> GetRegisterInfo r reg_num \<noteq> None then (False, r)
      else (True, SetRegisterInfo reg_num loc r))"

definition SetRegisterLocationToAtCFAPlusOffset :: "nat \<Rightarrow> int \<Rightarrow> bool \<Rightarrow> row \<Rightarrow> bool \<times> row" where
  "SetRegisterLocationToAtCFAPlusOffset reg_num offset = set_location reg_num (atCFAPlusOffset offset)"

definition SetRegisterLocationToIsCFAPlusOffset :: "nat \<Rightarrow> int \<Rightarrow> bool \<Rightarrow> row \<Rightarrow> bool \<times> row" where
  "SetRegisterLocationToIsCFAPlusOffset reg_num offset = set_location reg_num (isCFAPlusOffset offset)"

definition SetRegisterLocationToUndefined :: "nat \<Rightarrow> bool \<Rightarrow> bool \<Rightarrow> row \<Rightarrow> bool \<times> row" where
  "SetRegisterLocationToUndefined reg_num can_replace can_replace_only_if_unspecified r =
     (case GetRegisterInfo r reg_num of
        Some loc \<Rightarrow>
          if \<not> can_replace then (False, r)
          else if can_replace_only_if_unspecified \<and> loc \<noteq> unspecified_loc then (False, r)
          else (True, SetRegisterInfo reg_num undefined_loc r)
      | None \<Rightarrow> (True, SetRegisterInfo reg_num undefined_loc r))"

definition SetRegisterLocationToUnspecified :: "nat \<Rightarrow> bool \<Rightarrow> row \<Rightarrow> bool \<times> row" where
  "SetRegisterLocationToUnspecified reg_num = set_location reg_num unspecified_loc"

definition SetRegisterLocationToRegister :: "nat \<Rightarrow> nat \<Rightarrow> bool \<Rightarrow> row \<Rightarrow> bool \<times> row" where
  "SetRegisterLocationToRegister reg_num other_reg_num = set_location reg_num (inOtherRegister other_reg_num)"

definition SetRegisterLocationToSame :: "nat \<Rightarrow> bool \<Rightarrow> row \<Rightarrow> bool \<times> row" where
  "SetRegisterLocationToSame reg_num must_replace r =
     (if must_replace \<and> GetRegisterInfo r reg_num = None then (False, r)
      else (True, SetRegisterInfo reg_num same_loc r))"

text \<open>\<open>==\<close> of the maps: the sizes first, then the entries in order.\<close>

fun entries_eq :: "(nat \<times> register_location) list \<Rightarrow> (nat \<times> register_location) list \<Rightarrow> bool option" where
  "entries_eq ((r, l) # m) ((q, k) # n) =
     (if r = q
      then do { e \<leftarrow> RegisterLocation_eq l k; if e then entries_eq m n else Some False }
      else Some False)"
| "entries_eq _ _ = Some True"

definition Row_eq :: "row \<Rightarrow> row \<Rightarrow> bool option" where
  "Row_eq r q =
     (if row_offset r \<noteq> row_offset q then Some False
      else do {
        c \<leftarrow> CFAValue_eq (row_cfa_value r) (row_cfa_value q);
        if \<not> c then Some False
        else if length (row_locations r) \<noteq> length (row_locations q) then Some False
        else entries_eq (row_locations r) (row_locations q) })"

section \<open>Plans\<close>

datatype register_kind =
    eRegisterKindEHFrame | eRegisterKindDWARF | eRegisterKindGeneric
  | eRegisterKindProcessPlugin | eRegisterKindLLDB

record unwind_plan =
  up_row_list :: "row list"
  up_plan_valid_address_range :: address_range
  up_register_kind :: register_kind
  up_return_addr_register :: nat
  up_source_name :: string
  up_sourced_from_compiler :: lazy_bool
  up_valid_at_all_instructions :: lazy_bool
  up_lsda_address :: address
  up_personality_func_addr :: address

definition new_UnwindPlan :: "register_kind \<Rightarrow> unwind_plan" where
  "new_UnwindPlan reg_kind =
     \<lparr>up_row_list = [], up_plan_valid_address_range = new_AddressRange, up_register_kind = reg_kind,
      up_return_addr_register = LLDB_INVALID_REGNUM, up_source_name = [],
      up_sourced_from_compiler = eLazyBoolCalculate, up_valid_at_all_instructions = eLazyBoolCalculate,
      up_lsda_address = new_Address, up_personality_func_addr = new_Address\<rparr>"

definition Clear_plan :: "unwind_plan \<Rightarrow> unwind_plan" where
  "Clear_plan p =
     p\<lparr>up_row_list := [], up_plan_valid_address_range := new_AddressRange,
       up_register_kind := eRegisterKindDWARF, up_source_name := [],
       up_sourced_from_compiler := eLazyBoolCalculate, up_valid_at_all_instructions := eLazyBoolCalculate,
       up_lsda_address := new_Address, up_personality_func_addr := new_Address\<rparr>"

definition AppendRow :: "row \<Rightarrow> unwind_plan \<Rightarrow> unwind_plan" where
  "AppendRow r p =
     (let rs = up_row_list p
      in if rs = [] \<or> row_offset (last rs) \<noteq> row_offset r
         then p\<lparr>up_row_list := rs @ [r]\<rparr>
         else p\<lparr>up_row_list := butlast rs @ [r]\<rparr>)"

definition InsertRow :: "row \<Rightarrow> bool \<Rightarrow> unwind_plan \<Rightarrow> unwind_plan" where
  "InsertRow r replace_existing p =
     (let rs = up_row_list p;
          it = length (takeWhile (\<lambda>q. row_offset q < row_offset r) rs)
      in if it = length rs \<or> row_offset (rs ! it) \<noteq> row_offset r
         then p\<lparr>up_row_list := take it rs @ [r] @ drop it rs\<rparr>
         else if replace_existing then p\<lparr>up_row_list := rs[it := r]\<rparr>
         else p)"

text \<open>The offset is an \<open>int\<close>, compared as an unsigned number of 64 bits.\<close>

fun last_row_upto :: "nat \<Rightarrow> row option \<Rightarrow> row list \<Rightarrow> row option" where
  "last_row_upto offset found [] = found"
| "last_row_upto offset found (r # rs) =
     (if row_offset r \<le> offset then last_row_upto offset (Some r) rs else found)"

definition GetRowForFunctionOffset :: "unwind_plan \<Rightarrow> int \<Rightarrow> row option" where
  "GetRowForFunctionOffset p offset =
     (if up_row_list p \<noteq> []
      then if offset = - 1 then Some (last (up_row_list p))
           else last_row_upto (nat (offset mod 2 ^ 64)) None (up_row_list p)
      else None)"

definition IsValidRowIndex :: "unwind_plan \<Rightarrow> nat \<Rightarrow> bool" where
  "IsValidRowIndex p idx \<longleftrightarrow> idx < length (up_row_list p)"

definition GetRowAtIndex :: "unwind_plan \<Rightarrow> nat \<Rightarrow> row option" where
  "GetRowAtIndex p idx = (if idx < length (up_row_list p) then Some (up_row_list p ! idx) else None)"

definition GetLastRow :: "unwind_plan \<Rightarrow> row option" where
  "GetLastRow p = (if up_row_list p = [] then None else Some (last (up_row_list p)))"

definition GetRowCount :: "unwind_plan \<Rightarrow> nat" where
  "GetRowCount p = length (up_row_list p)"

definition SetPlanValidAddressRange :: "address_range \<Rightarrow> unwind_plan \<Rightarrow> unwind_plan" where
  "SetPlanValidAddressRange r p =
     (if IsValid_address (ar_base_addr r) \<and> ar_byte_size r \<noteq> 0
      then p\<lparr>up_plan_valid_address_range := r\<rparr> else p)"

definition PlanValidAtAddress :: "unwind_plan \<Rightarrow> address \<Rightarrow> bool" where
  "PlanValidAtAddress p addr =
     (if GetRowCount p = 0 then False
      else case GetRowAtIndex p 0 of
        None \<Rightarrow> False
      | Some r \<Rightarrow>
          if row_cfa_value r = unspecified_cfa then False
          else let range = up_plan_valid_address_range p
               in if \<not> IsValid_address (ar_base_addr range) \<or> ar_byte_size range = 0 then True
                  else if \<not> IsValid_address addr then True
                  else ContainsFileAddress range addr)"

section \<open>Rows and registers\<close>

text \<open>The rule a row gives for a register.\<close>

definition rule_of :: "row \<Rightarrow> nat \<Rightarrow> register_location" where
  "rule_of r reg = (case GetRegisterInfo r reg of None \<Rightarrow> unspecified_loc | Some l \<Rightarrow> l)"

definition row_ok :: "row \<Rightarrow> bool" where
  "row_ok r \<longleftrightarrow> map_sorted (row_locations r)"

named_theorems rows "what a row holds after an operation"

lemma new_Row_ok [rows, simp]: "row_ok new_Row"
  by (simp add: row_ok_def new_Row_def)

lemma SetRegisterInfo_ok [rows, simp]: "row_ok r \<Longrightarrow> row_ok (SetRegisterInfo reg l r)"
  by (simp add: row_ok_def SetRegisterInfo_def map_sorted_put)

lemma row_ok_update [rows, simp]:
  "row_ok (r\<lparr>row_offset := n\<rparr>) = row_ok r" "row_ok (r\<lparr>row_cfa_value := v\<rparr>) = row_ok r"
  by (simp_all add: row_ok_def)

lemma SlideOffset_ok [rows, simp]: "row_ok (SlideOffset n r) = row_ok r"
  by (simp add: SlideOffset_def)

lemma GetRegisterInfo_set [rows]:
  "row_ok r \<Longrightarrow> GetRegisterInfo (SetRegisterInfo reg l r) reg' = (if reg' = reg then Some l else GetRegisterInfo r reg')"
  by (simp add: row_ok_def GetRegisterInfo_def SetRegisterInfo_def map_of_put)

lemma GetRegisterInfo_update [rows, simp]:
  "GetRegisterInfo (r\<lparr>row_offset := n\<rparr>) reg = GetRegisterInfo r reg"
  "GetRegisterInfo (r\<lparr>row_cfa_value := v\<rparr>) reg = GetRegisterInfo r reg"
  "GetRegisterInfo (SlideOffset n r) reg = GetRegisterInfo r reg"
  by (simp_all add: GetRegisterInfo_def SlideOffset_def)

lemma rule_of_set [rows]: "row_ok r \<Longrightarrow> rule_of (SetRegisterInfo reg l r) = (rule_of r)(reg := l)"
  by (simp add: rule_of_def rows fun_eq_iff)

lemma rule_of_update [rows, simp]:
  "rule_of (r\<lparr>row_offset := n\<rparr>) = rule_of r" "rule_of (r\<lparr>row_cfa_value := v\<rparr>) = rule_of r"
  "rule_of (SlideOffset n r) = rule_of r"
  by (simp_all add: rule_of_def fun_eq_iff)

lemma SetRegisterInfo_fields [simp]:
  "row_offset (SetRegisterInfo reg l r) = row_offset r" "row_cfa_value (SetRegisterInfo reg l r) = row_cfa_value r"
  by (simp_all add: SetRegisterInfo_def)

lemma SlideOffset_fields [simp]:
  "row_offset (SlideOffset n r) = (row_offset r + n) mod 2 ^ 64" "row_cfa_value (SlideOffset n r) = row_cfa_value r"
  by (simp_all add: SlideOffset_def)

text \<open>Two rows with CFA rules on different registers compare equal when the offsets agree.\<close>

lemma Row_eq_ignores_cfa_register:
  "Row_eq r (r\<lparr>row_cfa_value := isRegisterPlusOffset q n\<rparr>) = Row_eq r r"
  if "row_cfa_value r = isRegisterPlusOffset p n"
  using that by (simp add: Row_eq_def)

section \<open>The rows of a plan as a table\<close>

text \<open>The row of an offset: the last one that starts at or below it.\<close>

definition row_at :: "row list \<Rightarrow> nat \<Rightarrow> row option" where
  "row_at rs off = (let qs = filter (\<lambda>r. row_offset r \<le> off) rs in if qs = [] then None else Some (last qs))"

definition rows_sorted :: "row list \<Rightarrow> bool" where
  "rows_sorted rs \<longleftrightarrow> sorted_wrt (\<lambda>r q. row_offset r < row_offset q) rs"

lemma row_at_Nil [simp]: "row_at [] off = None"
  by (simp add: row_at_def)

lemma row_at_append:
  "row_at (rs @ qs) off = (case row_at qs off of None \<Rightarrow> row_at rs off | Some r \<Rightarrow> Some r)"
  by (simp add: row_at_def Let_def)

lemma row_at_single: "row_at [r] off = (if row_offset r \<le> off then Some r else None)"
  by (simp add: row_at_def)

lemma row_at_Cons:
  "row_at (r # rs) off = (case row_at rs off of None \<Rightarrow> if row_offset r \<le> off then Some r else None | Some q \<Rightarrow> Some q)"
  using row_at_append [of "[r]" rs off] by (simp add: row_at_single split: option.split)

lemma row_at_above: "\<forall>r \<in> set rs. off < row_offset r \<Longrightarrow> row_at rs off = None"
  by (induction rs) (auto simp: row_at_Cons)

lemma row_at_None: "row_at rs off = None \<longleftrightarrow> (\<forall>r \<in> set rs. off < row_offset r)"
  by (induction rs) (auto simp: row_at_Cons split: option.splits)

lemma last_row_upto_row_at:
  "rows_sorted rs \<Longrightarrow> last_row_upto off found rs = (case row_at rs off of None \<Rightarrow> found | Some r \<Rightarrow> Some r)"
proof (induction rs arbitrary: found)
  case (Cons r rs)
  then have s: "rows_sorted rs" "\<forall>q \<in> set rs. row_offset r < row_offset q"
    by (simp_all add: rows_sorted_def)
  show ?case
  proof (cases "row_offset r \<le> off")
    case True
    then show ?thesis using Cons.IH [OF s(1)] by (simp add: row_at_Cons split: option.split)
  next
    case False
    with s(2) have "row_at rs off = None" by (intro row_at_above) auto
    with False show ?thesis by (simp add: row_at_Cons)
  qed
qed simp

text \<open>An \<open>int\<close> offset that is not negative is looked up as it is.\<close>

lemma GetRowForFunctionOffset_eq:
  assumes "rows_sorted (up_row_list p)" "off < 2 ^ 31"
  shows "GetRowForFunctionOffset p (int off) = row_at (up_row_list p) off"
proof -
  have "nat (int off mod 2 ^ 64) = off" using assms(2) by simp
  then show ?thesis
    using assms(1) by (auto simp: GetRowForFunctionOffset_def last_row_upto_row_at split: option.split)
qed

lemma insert_position:
  fixes n :: nat
  assumes "rows_sorted rs"
  defines "it \<equiv> length (takeWhile (\<lambda>q. row_offset q < n) rs)"
  shows "\<forall>q \<in> set (take it rs). row_offset q < n" "\<forall>q \<in> set (drop it rs). n \<le> row_offset q"
proof -
  have "take it rs = takeWhile (\<lambda>q. row_offset q < n) rs" "drop it rs = dropWhile (\<lambda>q. row_offset q < n) rs"
    unfolding it_def by (simp_all add: takeWhile_eq_take [symmetric] dropWhile_eq_drop [symmetric])
  moreover have "\<forall>q \<in> set (dropWhile (\<lambda>q. row_offset q < n) rs). n \<le> row_offset q"
    using assms(1) by (induction rs) (auto simp: rows_sorted_def)
  ultimately show "\<forall>q \<in> set (take it rs). row_offset q < n" "\<forall>q \<in> set (drop it rs). n \<le> row_offset q"
    by (auto dest: set_takeWhileD)
qed

lemma InsertRow_rows:
  assumes "rows_sorted (up_row_list p)"
  obtains pre post where
    "up_row_list p = pre @ post" "\<forall>q \<in> set pre. row_offset q < row_offset r" "\<forall>q \<in> set post. row_offset r < row_offset q"
    "up_row_list (InsertRow r replace_existing p) = pre @ r # post"
  | pre q post where
    "up_row_list p = pre @ q # post" "row_offset q = row_offset r"
    "\<forall>q \<in> set pre. row_offset q < row_offset r" "\<forall>q \<in> set post. row_offset r < row_offset q"
    "up_row_list (InsertRow r replace_existing p) = pre @ (if replace_existing then r else q) # post"
proof -
  let ?rs = "up_row_list p"
  let ?it = "length (takeWhile (\<lambda>q. row_offset q < row_offset r) ?rs)"
  note ins = insert_position [OF assms, of "row_offset r"]
  show thesis
  proof (cases "?it = length ?rs \<or> row_offset (?rs ! ?it) \<noteq> row_offset r")
    case True
    have "\<forall>q \<in> set (drop ?it ?rs). row_offset r < row_offset q"
    proof (cases "drop ?it ?rs")
      case (Cons q post)
      then have "?rs ! ?it = q" by (metis hd_drop_conv_nth list.sel(1) linorder_not_le drop_eq_Nil list.distinct(1))
      moreover have "?it \<noteq> length ?rs" using Cons by auto
      ultimately have "row_offset q \<noteq> row_offset r" using True by simp
      moreover have "rows_sorted (q # post)"
        using assms Cons unfolding rows_sorted_def by (metis append_take_drop_id sorted_wrt_append)
      ultimately show ?thesis using ins(2) Cons by (auto simp: rows_sorted_def)
    qed simp
    moreover have "up_row_list (InsertRow r replace_existing p) = take ?it ?rs @ r # drop ?it ?rs"
      unfolding InsertRow_def Let_def if_P [OF True] by simp
    ultimately show thesis
      using ins(1) append_take_drop_id [of ?it ?rs, symmetric] by (metis that(1))
  next
    case False
    then have lt: "?it < length ?rs" using length_takeWhile_le le_neq_implies_less by blast
    from lt have split: "?rs = take ?it ?rs @ ?rs ! ?it # drop (Suc ?it) ?rs" by (simp add: id_take_nth_drop)
    then have "rows_sorted (?rs ! ?it # drop (Suc ?it) ?rs)"
      using assms unfolding rows_sorted_def by (metis sorted_wrt_append)
    then have "\<forall>q \<in> set (drop (Suc ?it) ?rs). row_offset r < row_offset q"
      using False by (simp add: rows_sorted_def)
    moreover have "up_row_list (InsertRow r replace_existing p) =
        take ?it ?rs @ (if replace_existing then r else ?rs ! ?it) # drop (Suc ?it) ?rs"
      unfolding InsertRow_def Let_def if_not_P [OF False] using split
      by (simp add: upd_conv_take_nth_drop [OF lt])
    ultimately show thesis
      using False ins(1) split by (metis that(2))
  qed
qed

lemma rows_sorted_insert:
  assumes "rows_sorted (pre @ post)" "\<forall>q \<in> set pre. row_offset q < row_offset r" "\<forall>q \<in> set post. row_offset r < row_offset q"
  shows "rows_sorted (pre @ r # post)"
  using assms by (auto simp: rows_sorted_def sorted_wrt_append)

lemma InsertRow_sorted:
  assumes "rows_sorted (up_row_list p)"
  shows "rows_sorted (up_row_list (InsertRow r replace_existing p))"
  using assms
proof (cases rule: InsertRow_rows [of p r replace_existing])
  case (1 pre post)
  with assms show ?thesis by (simp add: rows_sorted_insert)
next
  case (2 pre q post)
  with assms have "rows_sorted (pre @ post)" by (auto simp: rows_sorted_def sorted_wrt_append)
  with 2 show ?thesis by (simp add: rows_sorted_insert)
qed

text \<open>C35: Inserting a row into a plan in offset order makes the row the answer for the offsets from
  its own up to the next row, unless a row of the same offset is there and is not to be
  replaced; the answers for all other offsets stay as they are.\<close>

theorem InsertRow_lookup:
  assumes "rows_sorted (up_row_list p)" "off < 2 ^ 31"
  shows "GetRowForFunctionOffset (InsertRow r replace_existing p) (int off) =
    (if row_offset r \<le> off \<and> (\<forall>q \<in> set (up_row_list p). row_offset q \<le> row_offset r \<or> off < row_offset q) \<and>
        (replace_existing \<or> (\<forall>q \<in> set (up_row_list p). row_offset q \<noteq> row_offset r))
     then Some r else GetRowForFunctionOffset p (int off))"
  using assms(1)
proof (cases rule: InsertRow_rows [of p r replace_existing])
  case (1 pre post)
  note look = GetRowForFunctionOffset_eq [OF InsertRow_sorted [OF assms(1)] assms(2)]
    GetRowForFunctionOffset_eq [OF assms]
  show ?thesis
  proof (cases "row_at post off")
    case None
    with 1 row_at_None [of post off] show ?thesis
      by (auto simp: look row_at_append row_at_Cons)
  next
    case (Some x)
    then obtain q where "q \<in> set post" "row_offset q \<le> off"
      using row_at_None [of post off] by (auto simp: not_less)
    with 1 have "\<not> (\<forall>q \<in> set (up_row_list p). row_offset q \<le> row_offset r \<or> off < row_offset q)"
      by (auto intro!: bexI [of _ q])
    then show ?thesis
      unfolding look using 1 Some by (auto simp: row_at_append row_at_Cons)
  qed
next
  case (2 pre q post)
  note look = GetRowForFunctionOffset_eq [OF InsertRow_sorted [OF assms(1)] assms(2)]
    GetRowForFunctionOffset_eq [OF assms]
  show ?thesis
  proof (cases "row_at post off")
    case None
    with 2 row_at_None [of post off] show ?thesis
      by (auto simp: look row_at_append row_at_Cons)
  next
    case (Some x)
    then obtain q' where "q' \<in> set post" "row_offset q' \<le> off"
      using row_at_None [of post off] by (auto simp: not_less)
    with 2 have "\<not> (\<forall>q \<in> set (up_row_list p). row_offset q \<le> row_offset r \<or> off < row_offset q)"
      by (auto intro!: bexI [of _ q'])
    then show ?thesis
      unfolding look using 2 Some by (auto simp: row_at_append row_at_Cons)
  qed
qed

lemma InsertRow_lookup_witness:
  "GetRowForFunctionOffset (InsertRow (new_Row\<lparr>row_offset := 4\<rparr>) False
      (new_UnwindPlan eRegisterKindDWARF\<lparr>up_row_list := [new_Row, new_Row\<lparr>row_offset := 8\<rparr>]\<rparr>)) (int 5) =
    Some (new_Row\<lparr>row_offset := 4\<rparr>)"
  by (subst InsertRow_lookup) (simp_all add: rows_sorted_def new_Row_def)

end
