(* ===== verification/DWARFCallFrameInfo.thy ===== *)
theory DWARFCallFrameInfo
  imports DataExtractor RangeMap UnwindPlan
begin

text \<open>
  Call frame information (\<open>DWARFCallFrameInfo\<close>, source/Symbol/DWARFCallFrameInfo.cpp): the
  sections .eh_frame and .debug_frame, read into an index of functions and, for a function,
  into an unwind plan.

  The object file is a parameter, \<open>cfi_env\<close>: the data of the section, its file address, the
  kind of the section, the architecture. \<open>dw_offset_t\<close> has 32 bits. A result of \<open>None\<close> is undefined
  behaviour (in a LEB128 number, a signed product, a null CIE) or a loop that does not end.
  Assertions are not executed.
\<close>

section \<open>Pointers in exception frames\<close>

definition s16_of :: "nat \<Rightarrow> int" where
  "s16_of n = signed_take_bit 15 (int n)"

definition s32_of :: "nat \<Rightarrow> int" where
  "s32_of n = signed_take_bit 31 (int n)"

definition DW_EH_PE_omit :: nat where
  "DW_EH_PE_omit = 0xff"

definition DW_EH_PE_MASK_ENCODING :: nat where
  "DW_EH_PE_MASK_ENCODING = 0x0F"

text \<open>What the base part of the encoding gives: the base address and whether the value is sign
  extended. For an aligned pointer at an offset that is not a multiple of the address size
  the code moves the pointer to the offset instead of the offset.\<close>

definition eh_pointer_base ::
  "nat \<Rightarrow> nat \<Rightarrow> nat \<Rightarrow> nat \<Rightarrow> nat \<Rightarrow> nat \<Rightarrow> (nat \<times> bool) option" where
  "eh_pointer_base addr_size offset eh_ptr_enc pc_rel_addr text_addr data_addr =
     (let base = eh_ptr_enc AND 0x70
      in if base = 0x10
         then Some (if pc_rel_addr \<noteq> LLDB_INVALID_ADDRESS then (offset + pc_rel_addr) mod 2 ^ 64 else offset, True)
         else if base = 0x20
         then Some (if text_addr \<noteq> LLDB_INVALID_ADDRESS then text_addr else 0, True)
         else if base = 0x30
         then Some (if data_addr \<noteq> LLDB_INVALID_ADDRESS then data_addr else 0, True)
         else if base = 0x40 then Some (0, True)
         else if base = 0x50
         then if addr_size \<noteq> 0 \<and> offset mod addr_size \<noteq> 0 then None else Some (0, False)
         else Some (0, False))"

text \<open>The value part, as a number of 64 bits.\<close>

definition eh_pointer_value ::
  "platform \<Rightarrow> data_extractor \<Rightarrow> nat \<Rightarrow> nat \<Rightarrow> (nat \<times> nat) option" where
  "eh_pointer_value pl DE offset eh_ptr_enc =
     (let enc = eh_ptr_enc AND DW_EH_PE_MASK_ENCODING
      in if enc = 0x0 then case GetAddress pl DE offset of (v, offset) \<Rightarrow> Some (unat v, offset)
         else if enc = 0x1 then do { (v, offset) \<leftarrow> GetULEB128 DE offset; Some (unat v, offset) }
         else if enc = 0x2 then case GetU16 pl DE offset of (v, offset) \<Rightarrow> Some (unat v, offset)
         else if enc = 0x3 then case GetU32 pl DE offset of (v, offset) \<Rightarrow> Some (unat v, offset)
         else if enc = 0x4 then case GetU64 pl DE offset of (v, offset) \<Rightarrow> Some (unat v, offset)
         else if enc = 0x9 then do { (v, offset) \<leftarrow> GetSLEB128 DE offset; Some (unat v, offset) }
         else if enc = 0xA then case GetU16 pl DE offset of (v, offset) \<Rightarrow>
           Some (nat (s16_of (unat v) mod 2 ^ 64), offset)
         else if enc = 0xB then case GetU32 pl DE offset of (v, offset) \<Rightarrow>
           Some (nat (s32_of (unat v) mod 2 ^ 64), offset)
         else if enc = 0xC then case GetU64 pl DE offset of (v, offset) \<Rightarrow> Some (unat v, offset)
         else Some (0, offset))"

definition GetGNUEHPointer ::
  "platform \<Rightarrow> data_extractor \<Rightarrow> nat \<Rightarrow> nat \<Rightarrow> nat \<Rightarrow> nat \<Rightarrow> nat \<Rightarrow> (nat \<times> nat) option" where
  "GetGNUEHPointer pl DE offset eh_ptr_enc pc_rel_addr text_addr data_addr =
     (if eh_ptr_enc = DW_EH_PE_omit then Some (UINT64_MAX, offset)
      else do {
        let addr_size = de_addr_size DE;
        (baseAddress, signExtendValue) \<leftarrow>
          eh_pointer_base addr_size offset eh_ptr_enc pc_rel_addr text_addr data_addr;
        (addressValue, offset) \<leftarrow> eh_pointer_value pl DE offset eh_ptr_enc;
        if signExtendValue \<and> addr_size < 8
        then if addr_size = 0 then None
             else let sign_bit = 2 ^ (addr_size * 8 - 1);
                      addressValue = (if addressValue AND sign_bit \<noteq> 0
                                      then addressValue OR (2 ^ 64 - sign_bit) else addressValue)
                  in Some ((baseAddress + addressValue) mod 2 ^ 64, offset)
        else Some ((baseAddress + addressValue) mod 2 ^ 64, offset) })"

section \<open>Common information entries\<close>

datatype cfi_type = EH | DWARF

record cfi_env =
  ce_platform :: platform
  ce_type :: cfi_type
  ce_has_section :: bool
  ce_encrypted :: bool
  ce_data :: data_extractor
  ce_section_file_addr :: nat
  ce_arm :: bool
  ce_addr_byte_size :: nat
  ce_sections :: section_list
  ce_module_sections :: "section_list option"

text \<open>The augmentation has no initial value: \<open>None\<close> until it is read.\<close>

record cie =
  cie_offset :: nat
  cie_version :: nat
  cie_augmentation :: "u8 list option"
  cie_address_size :: nat
  cie_segment_size :: nat
  cie_code_align :: nat
  cie_data_align :: int
  cie_return_addr_reg_num :: nat
  cie_inst_offset :: nat
  cie_inst_length :: nat
  cie_ptr_encoding :: nat
  cie_lsda_addr_encoding :: nat
  cie_personality_loc :: nat
  cie_initial_row :: row

definition new_CIE :: "nat \<Rightarrow> cie" where
  "new_CIE offset =
     \<lparr>cie_offset = offset, cie_version = 255, cie_augmentation = None, cie_address_size = 4,
      cie_segment_size = 0, cie_code_align = 0, cie_data_align = 0,
      cie_return_addr_reg_num = LLDB_INVALID_REGNUM, cie_inst_offset = 0, cie_inst_length = 0,
      cie_ptr_encoding = 0, cie_lsda_addr_encoding = DW_EH_PE_omit,
      cie_personality_loc = LLDB_INVALID_ADDRESS, cie_initial_row = new_Row\<rparr>"

text \<open>Reads that are cut to 32 bits, and the product of \<open>int\<close>s.\<close>

definition uleb_u32 :: "data_extractor \<Rightarrow> nat \<Rightarrow> (nat \<times> nat) option" where
  "uleb_u32 d offset = do { (v, offset) \<leftarrow> GetULEB128 d offset; Some (unat v mod 2 ^ 32, offset) }"

definition uleb_s32 :: "data_extractor \<Rightarrow> nat \<Rightarrow> (int \<times> nat) option" where
  "uleb_s32 d offset = do { (v, offset) \<leftarrow> GetULEB128 d offset; Some (s32_of (unat v), offset) }"

definition sleb_s32 :: "data_extractor \<Rightarrow> nat \<Rightarrow> (int \<times> nat) option" where
  "sleb_s32 d offset = do { (v, offset) \<leftarrow> GetSLEB128 d offset; Some (s32_of (unat v), offset) }"

definition int_product :: "int \<Rightarrow> int \<Rightarrow> int option" where
  "int_product a b = (if - (2 ^ 31) \<le> a * b \<and> a * b < 2 ^ 31 then Some (a * b) else None)"

text \<open>The instructions that change one row. \<open>False\<close>: the instruction is not one of them.\<close>

definition HandleCommonDwarfOpcode ::
  "data_extractor \<Rightarrow> u8 \<Rightarrow> u8 \<Rightarrow> int \<Rightarrow> nat \<Rightarrow> row \<Rightarrow> (bool \<times> nat \<times> row) option" where
  "HandleCommonDwarfOpcode d primary_opcode extended_opcode data_align offset r =
     (if primary_opcode \<noteq> 0
      then if primary_opcode = 0x80
           then do { (factor, offset) \<leftarrow> uleb_s32 d offset;
                     op_offset \<leftarrow> int_product factor data_align;
                     Some (True, offset, SetRegisterInfo (unat extended_opcode) (atCFAPlusOffset op_offset) r) }
           else Some (False, offset, r)
      else if extended_opcode = 0x0 then Some (True, offset, r)
      else if extended_opcode = 0x5
      then do { (reg_num, offset) \<leftarrow> uleb_u32 d offset;
                (factor, offset) \<leftarrow> uleb_s32 d offset;
                op_offset \<leftarrow> int_product factor data_align;
                Some (True, offset, SetRegisterInfo reg_num (atCFAPlusOffset op_offset) r) }
      else if extended_opcode = 0x7
      then do { (reg_num, offset) \<leftarrow> uleb_u32 d offset;
                Some (True, offset, SetRegisterInfo reg_num undefined_loc r) }
      else if extended_opcode = 0x8
      then do { (reg_num, offset) \<leftarrow> uleb_u32 d offset;
                Some (True, offset, SetRegisterInfo reg_num same_loc r) }
      else if extended_opcode = 0x9
      then do { (reg_num, offset) \<leftarrow> uleb_u32 d offset;
                (other_reg_num, offset) \<leftarrow> uleb_u32 d offset;
                Some (True, offset, SetRegisterInfo reg_num (inOtherRegister other_reg_num) r) }
      else if extended_opcode = 0xC
      then do { (reg_num, offset) \<leftarrow> uleb_u32 d offset;
                (op_offset, offset) \<leftarrow> uleb_s32 d offset;
                Some (True, offset, r\<lparr>row_cfa_value := isRegisterPlusOffset reg_num op_offset\<rparr>) }
      else if extended_opcode = 0xD
      then do { (reg_num, offset) \<leftarrow> uleb_u32 d offset;
                Some (True, offset,
                  r\<lparr>row_cfa_value := isRegisterPlusOffset reg_num (GetOffset_cfa (row_cfa_value r))\<rparr>) }
      else if extended_opcode = 0xE
      then do { (op_offset, offset) \<leftarrow> uleb_s32 d offset;
                Some (True, offset,
                  r\<lparr>row_cfa_value := isRegisterPlusOffset (GetRegisterNumber_cfa (row_cfa_value r)) op_offset\<rparr>) }
      else if extended_opcode = 0xF
      then do { (block_len, offset) \<leftarrow> GetULEB128 d offset;
                case GetData d offset (unat block_len) of (block_data, offset) \<Rightarrow>
                  Some (True, offset,
                    r\<lparr>row_cfa_value := SetIsDWARFExpression_cfa block_data (unat block_len mod 2 ^ 32)\<rparr>) }
      else if extended_opcode = 0x10
      then do { (reg_num, offset) \<leftarrow> uleb_u32 d offset;
                (block_len, offset) \<leftarrow> uleb_u32 d offset;
                case GetData d offset block_len of (block_data, offset) \<Rightarrow>
                  Some (True, offset, SetRegisterInfo reg_num (SetAtDWARFExpression block_data block_len) r) }
      else if extended_opcode = 0x11
      then do { (reg_num, offset) \<leftarrow> uleb_u32 d offset;
                (factor, offset) \<leftarrow> sleb_s32 d offset;
                op_offset \<leftarrow> int_product factor data_align;
                Some (True, offset, SetRegisterInfo reg_num (atCFAPlusOffset op_offset) r) }
      else if extended_opcode = 0x12
      then do { (reg_num, offset) \<leftarrow> uleb_u32 d offset;
                (factor, offset) \<leftarrow> sleb_s32 d offset;
                op_offset \<leftarrow> int_product factor data_align;
                Some (True, offset, r\<lparr>row_cfa_value := isRegisterPlusOffset reg_num op_offset\<rparr>) }
      else if extended_opcode = 0x13
      then do { (factor, offset) \<leftarrow> sleb_s32 d offset;
                op_offset \<leftarrow> int_product factor data_align;
                Some (True, offset,
                  r\<lparr>row_cfa_value := isRegisterPlusOffset (GetRegisterNumber_cfa (row_cfa_value r)) op_offset\<rparr>) }
      else if extended_opcode = 0x16
      then do { (reg_num, offset) \<leftarrow> uleb_u32 d offset;
                (block_len, offset) \<leftarrow> uleb_u32 d offset;
                case GetData d offset block_len of (block_data, offset) \<Rightarrow>
                  Some (True, offset, SetRegisterInfo reg_num (SetIsDWARFExpression block_data block_len) r) }
      else Some (False, offset, r))"

text \<open>The augmentation string, with zeros behind its end, in the eight bytes of the CIE.\<close>

fun read_augmentation :: "data_extractor \<Rightarrow> nat \<Rightarrow> nat \<Rightarrow> u8 list \<times> nat" where
  "read_augmentation d 0 offset = ([], offset)"
| "read_augmentation d (Suc n) offset =
     (let (b, offset) = GetU8 d offset
      in if b = 0 then (replicate (Suc n) 0, offset)
         else let (bs, offset) = read_augmentation d n offset in (b # bs, offset))"

text \<open>The augmentation data that the characters after the z announce: L, P and R.\<close>

fun augmentation_data :: "cfi_env \<Rightarrow> u8 list \<Rightarrow> nat \<Rightarrow> cie \<Rightarrow> (nat \<times> cie) option" where
  "augmentation_data env [] offset c = Some (offset, c)"
| "augmentation_data env (aug # augs) offset c =
     (if aug = 0x4C
      then case GetU8 (ce_data env) offset of (enc, offset) \<Rightarrow>
        augmentation_data env augs offset (c\<lparr>cie_lsda_addr_encoding := unat enc\<rparr>)
      else if aug = 0x50
      then case GetU8 (ce_data env) offset of (arg_ptr_encoding, offset) \<Rightarrow>
        GetGNUEHPointer (ce_platform env) (ce_data env) offset (unat arg_ptr_encoding)
          (ce_section_file_addr env) LLDB_INVALID_ADDRESS LLDB_INVALID_ADDRESS \<bind>
        (\<lambda>(loc, offset). augmentation_data env augs offset (c\<lparr>cie_personality_loc := loc\<rparr>))
      else if aug = 0x52
      then case GetU8 (ce_data env) offset of (enc, offset) \<Rightarrow>
        augmentation_data env augs offset (c\<lparr>cie_ptr_encoding := unat enc\<rparr>)
      else augmentation_data env augs offset c)"

text \<open>The initial instructions, up to the first that is not common.\<close>

partial_function (option) cie_instructions ::
  "data_extractor \<Rightarrow> int \<Rightarrow> nat \<Rightarrow> nat \<Rightarrow> row \<Rightarrow> row option" where
  "cie_instructions d data_align end_offset offset r =
     (if offset < end_offset
      then case GetU8 d offset of (inst, offset) \<Rightarrow>
        HandleCommonDwarfOpcode d (inst AND 0xC0) (inst AND 0x3F) data_align offset r \<bind>
        (\<lambda>(handled, offset, r).
          if handled then cie_instructions d data_align end_offset offset r else Some r)
      else Some r)"

text \<open>The length, the identifier and the end of an entry, and the offset behind the header.\<close>

definition entry_header :: "cfi_env \<Rightarrow> nat \<Rightarrow> nat \<times> nat \<times> nat \<times> bool \<times> nat" where
  "entry_header env entry_offset =
     (let d = ce_data env; pl = ce_platform env;
          (length32, offset) = GetU32 pl d entry_offset
      in if unat length32 = UINT32_MAX
         then let (length64, offset) = GetU64 pl d offset;
                  (id64, offset) = GetU64 pl d offset;
                  len = unat length64 mod 2 ^ 32
              in (len, unat id64 mod 2 ^ 32, (entry_offset + len + 12) mod 2 ^ 32, True, offset)
         else let (id32, offset) = GetU32 pl d offset;
                  len = unat length32
              in (len, unat id32, (entry_offset + len + 4) mod 2 ^ 32, False, offset))"

text \<open>The augmentation part of a CIE: nothing when the string is empty.\<close>

definition parse_augmentation :: "cfi_env \<Rightarrow> u8 list \<Rightarrow> nat \<Rightarrow> cie \<Rightarrow> (nat \<times> cie) option" where
  "parse_augmentation env augmentation offset c =
     (if augmentation ! 0 \<noteq> 0
      then do {
        (aug_data_len, offset) \<leftarrow> GetULEB128 (ce_data env) offset;
        let aug_data_end = (offset + unat aug_data_len) mod 2 ^ 64;
        let aug_str = takeWhile (\<lambda>b. b \<noteq> 0) augmentation;
        (offset, c) \<leftarrow> (if augmentation ! 0 = 0x7A then augmentation_data env (drop 1 aug_str) offset c
                        else Some (offset, c));
        Some (aug_data_end mod 2 ^ 32, c) }
      else Some (offset, c))"

text \<open>The fields of a CIE behind its header, up to the instructions.\<close>

definition parse_cie_fields :: "cfi_env \<Rightarrow> nat \<Rightarrow> cie \<Rightarrow> (nat \<times> cie) option" where
  "parse_cie_fields env offset c =
     do {
       let d = ce_data env;
       let versioned = (ce_type env = DWARF \<and> 4 \<le> cie_version c);
       let (address_size, offset) = (if versioned then GetU8 d offset else (word_of_nat (cie_address_size c), offset));
       let (segment_size, offset) = (if versioned then GetU8 d offset else (word_of_nat (cie_segment_size c), offset));
       let c = c\<lparr>cie_address_size := unat address_size, cie_segment_size := unat segment_size\<rparr>;
       (code_align, offset) \<leftarrow> uleb_u32 d offset;
       (data_align, offset) \<leftarrow> sleb_s32 d offset;
       (return_addr_reg_num, offset) \<leftarrow>
         (if ce_type env = DWARF \<and> 3 \<le> cie_version c then uleb_u32 d offset
          else case GetU8 d offset of (reg, offset) \<Rightarrow> Some (unat reg, offset));
       Some (offset, c\<lparr>cie_code_align := code_align, cie_data_align := data_align,
                       cie_return_addr_reg_num := return_addr_reg_num\<rparr>) }"

text \<open>The inner \<open>None\<close> is the null pointer of a CIE that cannot be parsed.\<close>

definition ParseCIE :: "cfi_env \<Rightarrow> nat \<Rightarrow> cie option option" where
  "ParseCIE env offset0 =
     (let d = ce_data env;
          c = new_CIE offset0;
          (len, cie_id, end_offset, _, offset) = entry_header env offset0
      in if len > 0 \<and> (ce_type env = DWARF \<and> cie_id = UINT32_MAX \<or> ce_type env = EH \<and> cie_id = 0)
         then let (version, offset) = GetU8 d offset;
                  c = c\<lparr>cie_ptr_encoding := 0, cie_version := unat version\<rparr>
              in if unat version > 4 then Some None
                 else let (augmentation, offset) = read_augmentation d 8 offset;
                          c = c\<lparr>cie_augmentation := Some augmentation\<rparr>
                 in if 0 \<notin> set augmentation then Some None
                    else do {
                      (offset, c) \<leftarrow> parse_cie_fields env offset c;
                      (offset, c) \<leftarrow> parse_augmentation env augmentation offset c;
                      let c = (if end_offset > offset
                               then c\<lparr>cie_inst_offset := offset, cie_inst_length := end_offset - offset\<rparr>
                               else c);
                      r \<leftarrow> cie_instructions d (cie_data_align c) end_offset offset (cie_initial_row c);
                      Some (Some (c\<lparr>cie_initial_row := r\<rparr>)) }
         else Some (Some c))"

section \<open>The index of functions\<close>

record fde_entry =
  fde_base :: nat
  fde_size :: nat
  fde_data :: nat

record cfi_state =
  cf_cie_map :: "(nat \<times> cie option) list"
  cf_fde_index :: "fde_entry list"
  cf_fde_index_initialized :: bool

definition new_cfi_state :: cfi_state where
  "new_cfi_state = \<lparr>cf_cie_map = [], cf_fde_index = [], cf_fde_index_initialized = False\<rparr>"

text \<open>A CIE that is in the map; one that is there without a value is parsed.\<close>

definition GetCIE :: "cfi_env \<Rightarrow> nat \<Rightarrow> cfi_state \<Rightarrow> (cie option \<times> cfi_state) option" where
  "GetCIE env offset s =
     (case map_of (cf_cie_map s) offset of
        None \<Rightarrow> Some (None, s)
      | Some (Some c) \<Rightarrow> Some (Some c, s)
      | Some None \<Rightarrow>
          ParseCIE env offset \<bind> (\<lambda>c. Some (c, s\<lparr>cf_cie_map := map_put offset c (cf_cie_map s)\<rparr>)))"

text \<open>The entry of a function: its address, and its length cut to 32 bits.\<close>

definition read_fde_range ::
  "cfi_env \<Rightarrow> cie \<Rightarrow> nat \<Rightarrow> (nat \<times> nat \<times> nat) option" where
  "read_fde_range env c offset =
     do {
       (addr, offset) \<leftarrow> GetGNUEHPointer (ce_platform env) (ce_data env) offset (cie_ptr_encoding c)
         (ce_section_file_addr env) LLDB_INVALID_ADDRESS LLDB_INVALID_ADDRESS;
       (len, offset) \<leftarrow> GetGNUEHPointer (ce_platform env) (ce_data env) offset
         (cie_ptr_encoding c AND DW_EH_PE_MASK_ENCODING)
         (ce_section_file_addr env) LLDB_INVALID_ADDRESS LLDB_INVALID_ADDRESS;
       Some (addr, len, offset) }"

definition add_fde :: "cfi_env \<Rightarrow> nat \<Rightarrow> cie \<Rightarrow> nat \<Rightarrow> cfi_state \<Rightarrow> cfi_state option" where
  "add_fde env current_entry c offset s =
     do {
       (addr, len, _) \<leftarrow> read_fde_range env c offset;
       let addr = (if ce_arm env then addr AND (2 ^ 64 - 2) else addr);
       let fde = \<lparr>fde_base = addr, fde_size = len mod 2 ^ 32, fde_data = current_entry\<rparr>;
       Some (s\<lparr>cf_fde_index := cf_fde_index s @ [fde]\<rparr>) }"

definition give_up_index :: "cfi_state \<Rightarrow> cfi_state" where
  "give_up_index s = s\<lparr>cf_fde_index := [], cf_fde_index_initialized := True\<rparr>"

text \<open>\<open>std::stable_sort\<close> by base, then size, then data.\<close>

definition sort_fdes :: "fde_entry list \<Rightarrow> fde_entry list" where
  "sort_fdes es = sort_key fde_base (sort_key fde_size (sort_key fde_data es))"

partial_function (option) fde_index_loop :: "cfi_env \<Rightarrow> nat \<Rightarrow> cfi_state \<Rightarrow> cfi_state option" where
  "fde_index_loop env entry_offset s =
     (if ValidOffsetForDataOfSize (ce_data env) entry_offset 8
      then let current_entry = entry_offset mod 2 ^ 32;
               (len, cie_id, _, is_64bit, offset) = entry_header env entry_offset;
               header = (if is_64bit then 12 else 4);
               next_entry = (current_entry + len + header) mod 2 ^ 32;
               relative = (current_entry + header + 2 ^ 32 - cie_id) mod 2 ^ 32
           in if next_entry > GetByteSize (ce_data env) + 1 then Some (give_up_index s)
              else if cie_id = 0 \<and> ce_type env = EH \<or> cie_id = UINT32_MAX \<or> len = 0
              then ParseCIE env current_entry \<bind> (\<lambda>c. case c of
                     None \<Rightarrow> Some (give_up_index s)
                   | Some c \<Rightarrow> fde_index_loop env next_entry
                       (s\<lparr>cf_cie_map := map_put current_entry (Some c) (cf_cie_map s)\<rparr>))
              else let at = (if ce_type env = DWARF then cie_id else relative)
              in if at > GetByteSize (ce_data env) then Some (give_up_index s)
                 else GetCIE env at s \<bind> (\<lambda>(c, s). case c of
                     None \<Rightarrow> fde_index_loop env next_entry s
                   | Some c \<Rightarrow> add_fde env current_entry c offset s \<bind> fde_index_loop env next_entry)
      else Some (s\<lparr>cf_fde_index := sort_fdes (cf_fde_index s), cf_fde_index_initialized := True\<rparr>))"

definition GetFDEIndex :: "cfi_env \<Rightarrow> cfi_state \<Rightarrow> cfi_state option" where
  "GetFDEIndex env s =
     (if \<not> ce_has_section env \<or> ce_encrypted env then Some s
      else if cf_fde_index_initialized s then Some s
      else fde_index_loop env 0 s)"

definition Contains_fde :: "fde_entry \<Rightarrow> nat \<Rightarrow> bool" where
  "Contains_fde e addr \<longleftrightarrow> fde_base e \<le> addr \<and> addr < (fde_base e + fde_size e) mod 2 ^ 64"

text \<open>The loop back over the entries that contain the address.\<close>

fun first_containing :: "fde_entry list \<Rightarrow> nat \<Rightarrow> nat \<Rightarrow> nat" where
  "first_containing es addr 0 = 0"
| "first_containing es addr (Suc pos) =
     (if Contains_fde (es ! pos) addr then first_containing es addr pos else Suc pos)"

definition FindEntryThatContains_fde :: "fde_entry list \<Rightarrow> nat \<Rightarrow> fde_entry option" where
  "FindEntryThatContains_fde es addr =
     (let pos = first_containing es addr (lower_bound (\<lambda>e. fde_base e < addr) es)
      in if pos < length es \<and> Contains_fde (es ! pos) addr then Some (es ! pos) else None)"

definition GetFDEEntryByFileAddress ::
  "cfi_env \<Rightarrow> nat \<Rightarrow> cfi_state \<Rightarrow> (fde_entry option \<times> cfi_state) option" where
  "GetFDEEntryByFileAddress env file_addr s =
     (if \<not> ce_has_section env \<or> ce_encrypted env then Some (None, s)
      else do {
        s \<leftarrow> GetFDEIndex env s;
        if cf_fde_index s = [] then Some (None, s)
        else Some (FindEntryThatContains_fde (cf_fde_index s) file_addr, s) })"

definition GetAddressRange ::
  "cfi_env \<Rightarrow> bool \<Rightarrow> address \<Rightarrow> cfi_state \<Rightarrow> (address_range option \<times> cfi_state) option" where
  "GetAddressRange env same_object_file addr s =
     (if \<not> same_object_file then Some (None, s)
      else if \<not> ce_has_section env \<or> ce_encrypted env then Some (None, s)
      else do {
        s \<leftarrow> GetFDEIndex env s;
        case FindEntryThatContains_fde (cf_fde_index s) (GetFileAddress addr) of
          None \<Rightarrow> Some (None, s)
        | Some e \<Rightarrow>
            Some (Some \<lparr>ar_base_addr = ResolveAddressUsingFileSections (ce_sections env) (fde_base e),
                        ar_byte_size = fde_size e\<rparr>, s) })"

definition GetFunctionAddressAndSizeVector ::
  "cfi_env \<Rightarrow> cfi_state \<Rightarrow> (range list \<times> cfi_state) option" where
  "GetFunctionAddressAndSizeVector env s =
     do {
       s \<leftarrow> GetFDEIndex env s;
       Some (map (\<lambda>e. \<lparr>rg_base = fde_base e, rg_size = fde_size e\<rparr>) (cf_fde_index s), s) }"

text \<open>The callback is a parameter that returns whether to go on; what it saw is the result.\<close>

fun visit_fdes :: "(nat \<Rightarrow> nat \<Rightarrow> nat \<Rightarrow> bool) \<Rightarrow> fde_entry list \<Rightarrow> fde_entry list" where
  "visit_fdes callback [] = []"
| "visit_fdes callback (e # es) =
     (if callback (fde_base e) (fde_size e) (fde_data e) then e # visit_fdes callback es else [e])"

definition ForEachFDEEntries ::
  "cfi_env \<Rightarrow> (nat \<Rightarrow> nat \<Rightarrow> nat \<Rightarrow> bool) \<Rightarrow> cfi_state \<Rightarrow> (fde_entry list \<times> cfi_state) option" where
  "ForEachFDEEntries env callback s =
     do { s \<leftarrow> GetFDEIndex env s; Some (visit_fdes callback (cf_fde_index s), s) }"

section \<open>The unwind plan of a function\<close>

text \<open>The state of the interpreter: the offset in the section, the plan, the current row and the
  stack of remembered rows, the last pushed at the end.\<close>

type_synonym fde_state = "nat \<times> unwind_plan \<times> row \<times> row list"

definition restore_register :: "unwind_plan \<Rightarrow> nat \<Rightarrow> row \<Rightarrow> row" where
  "restore_register p reg_num r =
     (if IsValidRowIndex p 0
      then case GetRowAtIndex p 0 of
             None \<Rightarrow> r
           | Some first \<Rightarrow>
               (case GetRegisterInfo first reg_num of
                  None \<Rightarrow> r
                | Some reg_location \<Rightarrow> SetRegisterInfo reg_num reg_location r)
      else r)"

text \<open>The instructions that make rows, restore registers or use the stack; others are passed over
  without their operands.\<close>

definition fde_only_instruction ::
  "cfi_env \<Rightarrow> nat \<Rightarrow> nat \<Rightarrow> u8 \<Rightarrow> u8 \<Rightarrow> fde_state \<Rightarrow> fde_state option" where
  "fde_only_instruction env code_align start primary_opcode extended_opcode st =
     (case st of (offset, p, r, stack) \<Rightarrow>
        let d = ce_data env;
            advance = (\<lambda>delta offset. Some (offset, AppendRow r p, SlideOffset ((delta * code_align) mod 2 ^ 32) r, stack))
        in if primary_opcode \<noteq> 0
           then if primary_opcode = 0x40 then advance (unat extended_opcode) offset
                else if primary_opcode = 0xC0
                then Some (offset, p, restore_register p (unat extended_opcode) r, stack)
                else Some st
           else if extended_opcode = 0x1
           then case GetPointer (ce_platform env) d offset of (loc, offset) \<Rightarrow>
             Some (offset, AppendRow r p, r\<lparr>row_offset := (unat loc + 2 ^ 64 - start) mod 2 ^ 64\<rparr>, stack)
           else if extended_opcode = 0x2
           then case GetU8 d offset of (delta, offset) \<Rightarrow> advance (unat delta) offset
           else if extended_opcode = 0x3
           then case GetU16 (ce_platform env) d offset of (delta, offset) \<Rightarrow> advance (unat delta) offset
           else if extended_opcode = 0x4
           then case GetU32 (ce_platform env) d offset of (delta, offset) \<Rightarrow> advance (unat delta) offset
           else if extended_opcode = 0x6
           then do { (reg_num, offset) \<leftarrow> uleb_u32 d offset;
                     Some (offset, p, restore_register p reg_num r, stack) }
           else if extended_opcode = 0xA then Some (offset, p, r, stack @ [r])
           else if extended_opcode = 0xB
           then if stack = [] then Some st
                else Some (offset, p, (last stack)\<lparr>row_offset := row_offset r\<rparr>, butlast stack)
           else if extended_opcode = 0x2e
           then do { (_, offset) \<leftarrow> GetULEB128 d offset; Some (offset, p, r, stack) }
           else Some st)"

definition fde_instruction ::
  "cfi_env \<Rightarrow> nat \<Rightarrow> int \<Rightarrow> nat \<Rightarrow> fde_state \<Rightarrow> fde_state option" where
  "fde_instruction env code_align data_align start st =
     (case st of (offset, p, r, stack) \<Rightarrow>
        case GetU8 (ce_data env) offset of (inst, offset) \<Rightarrow>
          HandleCommonDwarfOpcode (ce_data env) (inst AND 0xC0) (inst AND 0x3F) data_align offset r \<bind>
          (\<lambda>(handled, offset, r).
            if handled then Some (offset, p, r, stack)
            else fde_only_instruction env code_align start (inst AND 0xC0) (inst AND 0x3F) (offset, p, r, stack)))"

partial_function (option) fde_loop ::
  "cfi_env \<Rightarrow> nat \<Rightarrow> int \<Rightarrow> nat \<Rightarrow> nat \<Rightarrow> fde_state \<Rightarrow> fde_state option" where
  "fde_loop env code_align data_align start end_offset st =
     (if ValidOffset (ce_data env) (fst st) \<and> fst st < end_offset
      then fde_instruction env code_align data_align start st \<bind>
           fde_loop env code_align data_align start end_offset
      else Some st)"

text \<open>The augmentation data of an FDE: the address of the language specific data, and the offset
  behind the data.\<close>

definition fde_augmentation :: "cfi_env \<Rightarrow> cie \<Rightarrow> nat \<Rightarrow> (nat \<times> nat) option" where
  "fde_augmentation env c offset =
     do {
       augmentation \<leftarrow> cie_augmentation c;
       if augmentation ! 0 = 0x7A
       then do {
         (aug_data_len, offset) \<leftarrow> uleb_u32 (ce_data env) offset;
         lsda \<leftarrow> (if aug_data_len \<noteq> 0 \<and> cie_lsda_addr_encoding c \<noteq> DW_EH_PE_omit
                  then do {
                    (lsda, offset') \<leftarrow> GetGNUEHPointer (ce_platform env) (ce_data env) offset
                      (cie_lsda_addr_encoding c) (ce_section_file_addr env)
                      LLDB_INVALID_ADDRESS LLDB_INVALID_ADDRESS;
                    Some (if offset' - offset \<noteq> aug_data_len then LLDB_INVALID_ADDRESS else lsda) }
                  else Some LLDB_INVALID_ADDRESS);
         Some (lsda, offset + aug_data_len) }
       else Some (LLDB_INVALID_ADDRESS, offset) }"

definition ResolveFileAddress :: "cfi_env \<Rightarrow> nat \<Rightarrow> address" where
  "ResolveFileAddress env file_addr =
     (case ce_module_sections env of
        None \<Rightarrow> new_Address
      | Some sections \<Rightarrow> ResolveAddressUsingFileSections sections file_addr)"

definition set_lsda :: "cfi_env \<Rightarrow> nat \<Rightarrow> nat \<Rightarrow> unwind_plan \<Rightarrow> unwind_plan" where
  "set_lsda env lsda_data_file_address personality_loc p =
     (if lsda_data_file_address \<noteq> LLDB_INVALID_ADDRESS \<and> personality_loc \<noteq> LLDB_INVALID_ADDRESS
      then let lsda_data = ResolveFileAddress env lsda_data_file_address;
               personality_function_ptr = ResolveFileAddress env personality_loc
           in if IsValid_address lsda_data \<and> IsValid_address personality_function_ptr
              then p\<lparr>up_lsda_address := lsda_data, up_personality_func_addr := personality_function_ptr\<rparr>
              else p
      else p)"

text \<open>What is known of the plan before its rows are made.\<close>

definition describe_plan :: "cfi_env \<Rightarrow> cie \<Rightarrow> nat \<Rightarrow> nat \<Rightarrow> nat \<Rightarrow> unwind_plan \<Rightarrow> unwind_plan" where
  "describe_plan env c range_base range_len lsda p =
     (let p = p\<lparr>up_source_name := (if ce_type env = EH then ''eh_frame CFI'' else ''DWARF CFI''),
                up_valid_at_all_instructions := eLazyBoolNo, up_sourced_from_compiler := eLazyBoolYes\<rparr>;
          p = set_lsda env lsda (cie_personality_loc c) p;
          p = SetPlanValidAddressRange
                \<lparr>ar_base_addr = ResolveAddressUsingFileSections (ce_sections env) range_base,
                 ar_byte_size = range_len\<rparr> p
      in p\<lparr>up_register_kind := (if ce_type env = EH then eRegisterKindEHFrame else eRegisterKindDWARF),
           up_return_addr_register := cie_return_addr_reg_num c\<rparr>)"

definition FDEToUnwindPlan ::
  "cfi_env \<Rightarrow> nat \<Rightarrow> address \<Rightarrow> unwind_plan \<Rightarrow> cfi_state \<Rightarrow> (bool \<times> unwind_plan \<times> cfi_state) option" where
  "FDEToUnwindPlan env dwarf_offset startaddr p s =
     (if \<not> ce_has_section env \<or> ce_encrypted env then Some (False, p, s)
      else let (len, cie_id, end_offset, is_64bit, offset) = entry_header env dwarf_offset;
               at = (if ce_type env = EH
                     then (dwarf_offset + (if is_64bit then 12 else 4) + 2 ^ 32 - cie_id) mod 2 ^ 32
                     else cie_id)
           in GetCIE env at s \<bind> (\<lambda>(c, s). case c of
                None \<Rightarrow> None
              | Some c \<Rightarrow> do {
                  (range_base, range_len, offset) \<leftarrow> read_fde_range env c offset;
                  (lsda, offset) \<leftarrow> fde_augmentation env c offset;
                  (_, p, r, _) \<leftarrow> fde_loop env (cie_code_align c) (cie_data_align c)
                    (GetFileAddress startaddr) end_offset
                    (offset, describe_plan env c range_base range_len lsda p, cie_initial_row c, []);
                  Some (True, AppendRow r p, s) }))"

definition GetUnwindPlan ::
  "cfi_env \<Rightarrow> bool \<Rightarrow> address \<Rightarrow> unwind_plan \<Rightarrow> cfi_state \<Rightarrow> (bool \<times> unwind_plan \<times> cfi_state) option" where
  "GetUnwindPlan env same_object_file addr p s =
     (if \<not> same_object_file then Some (False, p, s)
      else GetFDEEntryByFileAddress env (GetFileAddress addr) s \<bind> (\<lambda>(entry, s). case entry of
             None \<Rightarrow> Some (False, p, s)
           | Some e \<Rightarrow> FDEToUnwindPlan env (fde_data e) addr p s))"

end
