(* ===== verification/DWARFUnwindTable.thy ===== *)
theory DWARFUnwindTable
  imports DWARFCallFrameInfo
begin

text \<open>
  The interpreter of call frame instructions (\<open>fde_loop\<close> of \<open>DWARFCallFrameInfo\<close>) refines the
  table of the DWARF standard: for a valid program, the row the unwinder looks up at an
  offset holds the rules that the table assigns to that offset.
\<close>

section \<open>Instructions and their encoding\<close>

text \<open>Call frame instructions with their operands as they are encoded: a LEB128 number is its bytes, a
  delta of two or four bytes is its bytes in the order of the section.\<close>

type_synonym leb = "u8 list"

datatype cfa_insn =
    advance_loc u8
  | advance_loc1 u8
  | advance_loc2 "u8 list"
  | advance_loc4 "u8 list"
  | offset_insn u8 leb
  | offset_extended leb leb
  | offset_extended_sf leb leb
  | undefined_insn leb
  | same_value leb
  | register_insn leb leb
  | restore u8
  | restore_extended leb
  | remember_state
  | restore_state
  | def_cfa leb leb
  | def_cfa_sf leb leb
  | def_cfa_register leb
  | def_cfa_offset leb
  | def_cfa_offset_sf leb
  | def_cfa_expression leb "u8 list"
  | expression_insn leb leb "u8 list"
  | val_expression leb leb "u8 list"
  | nop
  | GNU_args_size leb

fun encode :: "cfa_insn \<Rightarrow> u8 list" where
  "encode (advance_loc w) = [0x40 OR w]"
| "encode (advance_loc1 w) = [0x02, w]"
| "encode (advance_loc2 bs) = 0x03 # bs"
| "encode (advance_loc4 bs) = 0x04 # bs"
| "encode (offset_insn w n) = (0x80 OR w) # n"
| "encode (offset_extended r n) = 0x05 # r @ n"
| "encode (offset_extended_sf r n) = 0x11 # r @ n"
| "encode (undefined_insn r) = 0x07 # r"
| "encode (same_value r) = 0x08 # r"
| "encode (register_insn r q) = 0x09 # r @ q"
| "encode (restore w) = [0xC0 OR w]"
| "encode (restore_extended r) = 0x06 # r"
| "encode remember_state = [0x0A]"
| "encode restore_state = [0x0B]"
| "encode (def_cfa r n) = 0x0C # r @ n"
| "encode (def_cfa_sf r n) = 0x12 # r @ n"
| "encode (def_cfa_register r) = 0x0D # r"
| "encode (def_cfa_offset n) = 0x0E # n"
| "encode (def_cfa_offset_sf n) = 0x13 # n"
| "encode (def_cfa_expression n e) = 0x0F # n @ e"
| "encode (expression_insn r n e) = 0x10 # r @ n @ e"
| "encode (val_expression r n e) = 0x16 # r @ n @ e"
| "encode nop = [0x00]"
| "encode (GNU_args_size n) = 0x2E # n"

definition uleb_ok :: "leb \<Rightarrow> bool" where
  "uleb_ok bs \<longleftrightarrow> leb_encoding bs \<and> length bs \<le> 10 \<and> leb_nat bs < 2 ^ 32"

definition small_ok :: "leb \<Rightarrow> bool" where
  "small_ok bs \<longleftrightarrow> leb_encoding bs \<and> length bs \<le> 10 \<and> leb_nat bs < 2 ^ 31"

definition sleb_ok :: "leb \<Rightarrow> bool" where
  "sleb_ok bs \<longleftrightarrow> leb_encoding bs \<and> length bs \<le> 4"

definition expr_block_ok :: "leb \<Rightarrow> u8 list \<Rightarrow> bool" where
  "expr_block_ok n e \<longleftrightarrow> uleb_ok n \<and> leb_nat n = length e \<and> e \<noteq> [] \<and> length e < 2 ^ 16"

fun insn_ok :: "cfa_insn \<Rightarrow> bool" where
  "insn_ok (advance_loc w) \<longleftrightarrow> w < 64"
| "insn_ok (advance_loc1 w) \<longleftrightarrow> True"
| "insn_ok (advance_loc2 bs) \<longleftrightarrow> length bs = 2"
| "insn_ok (advance_loc4 bs) \<longleftrightarrow> length bs = 4"
| "insn_ok (offset_insn w n) \<longleftrightarrow> w < 64 \<and> small_ok n"
| "insn_ok (offset_extended r n) \<longleftrightarrow> uleb_ok r \<and> small_ok n"
| "insn_ok (offset_extended_sf r n) \<longleftrightarrow> uleb_ok r \<and> sleb_ok n"
| "insn_ok (undefined_insn r) \<longleftrightarrow> uleb_ok r"
| "insn_ok (same_value r) \<longleftrightarrow> uleb_ok r"
| "insn_ok (register_insn r q) \<longleftrightarrow> uleb_ok r \<and> uleb_ok q"
| "insn_ok (restore w) \<longleftrightarrow> w < 64"
| "insn_ok (restore_extended r) \<longleftrightarrow> uleb_ok r"
| "insn_ok remember_state \<longleftrightarrow> True"
| "insn_ok restore_state \<longleftrightarrow> True"
| "insn_ok (def_cfa r n) \<longleftrightarrow> uleb_ok r \<and> small_ok n"
| "insn_ok (def_cfa_sf r n) \<longleftrightarrow> uleb_ok r \<and> sleb_ok n"
| "insn_ok (def_cfa_register r) \<longleftrightarrow> uleb_ok r"
| "insn_ok (def_cfa_offset n) \<longleftrightarrow> small_ok n"
| "insn_ok (def_cfa_offset_sf n) \<longleftrightarrow> sleb_ok n"
| "insn_ok (def_cfa_expression n e) \<longleftrightarrow> expr_block_ok n e"
| "insn_ok (expression_insn r n e) \<longleftrightarrow> uleb_ok r \<and> expr_block_ok n e"
| "insn_ok (val_expression r n e) \<longleftrightarrow> uleb_ok r \<and> expr_block_ok n e"
| "insn_ok nop \<longleftrightarrow> True"
| "insn_ok (GNU_args_size n) \<longleftrightarrow> uleb_ok n"

section \<open>The table that a program describes\<close>

text \<open>The reference: the table of the DWARF standard, with one row of rules per location. A program
  is run on the location, the rule of the CFA, the rule of every register and the stack of
  remembered rules; a row is added whenever the location advances. \<open>None\<close>: the program is not
  valid, because a stack is empty, a CFA has no register, or a number does not fit.\<close>

type_synonym rules = "cfa_value \<times> (nat \<Rightarrow> register_location)"

record table_state =
  ts_table :: "(nat \<times> rules) list"
  ts_loc :: nat
  ts_rules :: rules
  ts_stack :: "rules list"

definition table_at :: "(nat \<times> rules) list \<Rightarrow> nat \<Rightarrow> rules option" where
  "table_at T a = (let qs = filter (\<lambda>q. fst q \<le> a) T in if qs = [] then None else Some (snd (last qs)))"

definition table_advance :: "nat \<Rightarrow> table_state \<Rightarrow> table_state option" where
  "table_advance step t =
     (if step < 2 ^ 32 \<and> ts_loc t + step < 2 ^ 64
      then Some (t\<lparr>ts_table := ts_table t @ [(ts_loc t, ts_rules t)], ts_loc := ts_loc t + step\<rparr>)
      else None)"

definition set_rule :: "nat \<Rightarrow> register_location \<Rightarrow> table_state \<Rightarrow> table_state" where
  "set_rule reg l t = t\<lparr>ts_rules := (fst (ts_rules t), (snd (ts_rules t))(reg := l))\<rparr>"

definition set_cfa :: "cfa_value \<Rightarrow> table_state \<Rightarrow> table_state" where
  "set_cfa v t = t\<lparr>ts_rules := (v, snd (ts_rules t))\<rparr>"

definition factored :: "int \<Rightarrow> int \<Rightarrow> (int \<Rightarrow> table_state \<Rightarrow> table_state) \<Rightarrow> table_state \<Rightarrow> table_state option" where
  "factored n data_align f t =
     (if - (2 ^ 31) \<le> n * data_align \<and> n * data_align < 2 ^ 31 then Some (f (n * data_align) t) else None)"

fun table_step ::
  "byte_order \<Rightarrow> nat \<Rightarrow> int \<Rightarrow> (nat \<Rightarrow> register_location) \<Rightarrow> cfa_insn \<Rightarrow> table_state \<Rightarrow> table_state option" where
  "table_step bo ca da init (advance_loc w) t = table_advance (unat w * ca) t"
| "table_step bo ca da init (advance_loc1 w) t = table_advance (unat w * ca) t"
| "table_step bo ca da init (advance_loc2 bs) t = table_advance (order_nat bo bs * ca) t"
| "table_step bo ca da init (advance_loc4 bs) t = table_advance (order_nat bo bs * ca) t"
| "table_step bo ca da init (offset_insn w n) t =
     factored (int (leb_nat n)) da (\<lambda>v. set_rule (unat w) (atCFAPlusOffset v)) t"
| "table_step bo ca da init (offset_extended r n) t =
     factored (int (leb_nat n)) da (\<lambda>v. set_rule (leb_nat r) (atCFAPlusOffset v)) t"
| "table_step bo ca da init (offset_extended_sf r n) t =
     factored (sleb_int n) da (\<lambda>v. set_rule (leb_nat r) (atCFAPlusOffset v)) t"
| "table_step bo ca da init (undefined_insn r) t = Some (set_rule (leb_nat r) undefined_loc t)"
| "table_step bo ca da init (same_value r) t = Some (set_rule (leb_nat r) same_loc t)"
| "table_step bo ca da init (register_insn r q) t = Some (set_rule (leb_nat r) (inOtherRegister (leb_nat q)) t)"
| "table_step bo ca da init (restore w) t = Some (set_rule (unat w) (init (unat w)) t)"
| "table_step bo ca da init (restore_extended r) t = Some (set_rule (leb_nat r) (init (leb_nat r)) t)"
| "table_step bo ca da init remember_state t = Some (t\<lparr>ts_stack := ts_rules t # ts_stack t\<rparr>)"
| "table_step bo ca da init restore_state t =
     (case ts_stack t of [] \<Rightarrow> None | rs # stack \<Rightarrow> Some (t\<lparr>ts_rules := rs, ts_stack := stack\<rparr>))"
| "table_step bo ca da init (def_cfa r n) t = Some (set_cfa (isRegisterPlusOffset (leb_nat r) (int (leb_nat n))) t)"
| "table_step bo ca da init (def_cfa_sf r n) t =
     factored (sleb_int n) da (\<lambda>v. set_cfa (isRegisterPlusOffset (leb_nat r) v)) t"
| "table_step bo ca da init (def_cfa_register r) t =
     (case fst (ts_rules t) of
        isRegisterPlusOffset _ off \<Rightarrow> Some (set_cfa (isRegisterPlusOffset (leb_nat r) off) t) | _ \<Rightarrow> None)"
| "table_step bo ca da init (def_cfa_offset n) t =
     (case fst (ts_rules t) of
        isRegisterPlusOffset reg _ \<Rightarrow> Some (set_cfa (isRegisterPlusOffset reg (int (leb_nat n))) t) | _ \<Rightarrow> None)"
| "table_step bo ca da init (def_cfa_offset_sf n) t =
     (case fst (ts_rules t) of
        isRegisterPlusOffset reg _ \<Rightarrow>
          factored (sleb_int n) da (\<lambda>v. set_cfa (isRegisterPlusOffset reg v)) t | _ \<Rightarrow> None)"
| "table_step bo ca da init (def_cfa_expression n e) t = Some (set_cfa (isDWARFExpression_cfa (Some e) (length e)) t)"
| "table_step bo ca da init (expression_insn r n e) t =
     Some (set_rule (leb_nat r) (atDWARFExpression (Some e) (length e)) t)"
| "table_step bo ca da init (val_expression r n e) t =
     Some (set_rule (leb_nat r) (isDWARFExpression (Some e) (length e)) t)"
| "table_step bo ca da init nop t = Some t"
| "table_step bo ca da init (GNU_args_size n) t = Some t"

fun table_run ::
  "byte_order \<Rightarrow> nat \<Rightarrow> int \<Rightarrow> (nat \<Rightarrow> register_location) \<Rightarrow> cfa_insn list \<Rightarrow> table_state \<Rightarrow> table_state option" where
  "table_run bo ca da init [] t = Some t"
| "table_run bo ca da init (i # prog) t = table_step bo ca da init i t \<bind> table_run bo ca da init prog"

text \<open>The table of a program that starts with the rules of the CIE at location 0.\<close>

definition dwarf_table ::
  "byte_order \<Rightarrow> nat \<Rightarrow> int \<Rightarrow> rules \<Rightarrow> cfa_insn list \<Rightarrow> (nat \<times> rules) list option" where
  "dwarf_table bo ca da initial prog =
     do {
       t \<leftarrow> table_run bo ca da (snd initial) prog
              \<lparr>ts_table = [], ts_loc = 0, ts_rules = initial, ts_stack = []\<rparr>;
       Some (ts_table t @ [(ts_loc t, ts_rules t)]) }"

section \<open>Reading the operands\<close>

named_theorems operands "what the reads of operands return"

lemma drop_more: "drop off xs = ys @ zs \<Longrightarrow> drop (off + length ys) xs = zs"
  by (metis add.commute append_eq_conv_conj drop_drop)

lemma GetU8_at [operands]: "drop off (de_bytes d) = b # rest \<Longrightarrow> GetU8 d off = (b, Suc off)"
  by (simp add: GetU8_eq GetByteSize_def) (metis Suc_leI drop_eq_Nil hd_drop_conv_nth leI list.distinct(1) list.sel(1) nth_via_drop)

lemma GetData_at [operands]:
  "drop off (de_bytes d) = bs @ rest \<Longrightarrow> bs \<noteq> [] \<Longrightarrow> length bs = n \<Longrightarrow> GetData d off n = (Some bs, off + n)"
proof -
  assume a: "drop off (de_bytes d) = bs @ rest" "bs \<noteq> []" "length bs = n"
  have "length (drop off (de_bytes d)) = n + length rest" using a by simp
  then have "off + n \<le> length (de_bytes d)" using a(2,3) by (simp only: length_drop) (cases n; simp)
  then show ?thesis using a by (simp add: GetData_pos GetByteSize_def flip: length_greater_0_conv)
qed

lemma GetU16_at [operands]:
  assumes "platform_ok pl" "order_ok d" "drop off (de_bytes d) = bs @ rest" "length bs = 2"
  shows "GetU16 pl d off = (word_of_nat (order_nat (de_byte_order d) bs), off + 2)"
proof -
  have "length (drop off (de_bytes d)) = 2 + length rest" using assms(3,4) by simp
  then have "off + 2 \<le> GetByteSize d" unfolding GetByteSize_def length_drop by linarith
  then show ?thesis using assms by (simp add: GetU16_eq slice_nat_def)
qed

lemma GetU32_at [operands]:
  assumes "platform_ok pl" "order_ok d" "drop off (de_bytes d) = bs @ rest" "length bs = 4"
  shows "GetU32 pl d off = (word_of_nat (order_nat (de_byte_order d) bs), off + 4)"
proof -
  have "length (drop off (de_bytes d)) = 4 + length rest" using assms(3,4) by simp
  then have "off + 4 \<le> GetByteSize d" unfolding GetByteSize_def length_drop by linarith
  then show ?thesis using assms by (simp add: GetU32_eq slice_nat_def)
qed

lemma s32_of_small: "n < 2 ^ 31 \<Longrightarrow> s32_of n = int n"
  by (simp add: s32_of_def signed_take_bit_int_eq_self)

lemma uleb_u32_at [operands]:
  assumes "uleb_ok bs" "drop off (de_bytes d) = bs @ rest"
  shows "uleb_u32 d off = Some (leb_nat bs, off + length bs)"
proof -
  have "leb_nat bs < 2 ^ 64" "leb_nat bs mod 2 ^ 32 = leb_nat bs"
    using assms(1) by (simp_all add: uleb_ok_def)
  then show ?thesis
    using assms GetULEB128_eq [of bs off d rest] by (simp add: uleb_u32_def uleb_ok_def unat_of_nat)
qed

lemma GetULEB128_at [operands]:
  assumes "uleb_ok bs" "drop off (de_bytes d) = bs @ rest"
  shows "GetULEB128 d off = Some (word_of_nat (leb_nat bs), off + length bs)"
  using assms GetULEB128_eq [of bs off d rest] by (simp add: uleb_ok_def)

lemma uleb_s32_at [operands]:
  assumes "small_ok bs" "drop off (de_bytes d) = bs @ rest"
  shows "uleb_s32 d off = Some (int (leb_nat bs), off + length bs)"
proof -
  have "leb_nat bs < 2 ^ 64" "s32_of (leb_nat bs) = int (leb_nat bs)"
    using assms(1) by (simp_all add: small_ok_def s32_of_small)
  then show ?thesis
    using assms GetULEB128_eq [of bs off d rest] by (simp add: uleb_s32_def small_ok_def unat_of_nat)
qed

lemma s32_of_u64: "- (2 ^ 31) \<le> n \<Longrightarrow> n < 2 ^ 31 \<Longrightarrow> s32_of (unat (word_of_int n :: u64)) = n"
proof -
  assume n: "- (2 ^ 31) \<le> n" "n < 2 ^ 31"
  have "int (unat (word_of_int n :: u64)) = take_bit 64 n"
    by (simp add: uint_word_of_int_eq)
  then have "s32_of (unat (word_of_int n :: u64)) = signed_take_bit 31 (take_bit 64 n)"
    by (simp add: s32_of_def)
  also have "\<dots> = signed_take_bit 31 n"
    by (simp add: signed_take_bit_take_bit)
  also have "\<dots> = n" using n by (simp add: signed_take_bit_int_eq_self)
  finally show ?thesis .
qed

lemma sleb_int_bound:
  assumes "sleb_ok bs"
  shows "- (2 ^ 31) \<le> sleb_int bs \<and> sleb_int bs < 2 ^ 31"
proof -
  have "leb_nat bs < 128 ^ length bs" by (rule leb_nat_bound)
  moreover have "(128::nat) ^ length bs \<le> 128 ^ 4" "(128::int) ^ length bs \<le> 128 ^ 4"
    using assms power_increasing [of "length bs" 4 "128 :: nat"] power_increasing [of "length bs" 4 "128 :: int"]
    by (simp_all add: sleb_ok_def)
  moreover have "(0::int) < 128 ^ length bs" by simp
  ultimately have "int (leb_nat bs) < 2 ^ 31" "(0::int) < 128 ^ length bs" "(128::int) ^ length bs < 2 ^ 31"
    by simp_all
  then show ?thesis
    unfolding sleb_int_def by (cases "sleb_negative bs"; simp only: if_True if_False; linarith)
qed

lemma sleb_s32_at [operands]:
  assumes "sleb_ok bs" "drop off (de_bytes d) = bs @ rest"
  shows "sleb_s32 d off = Some (sleb_int bs, off + length bs)"
proof -
  have "s32_of (unat (word_of_int (sleb_int bs) :: u64)) = sleb_int bs"
    using sleb_int_bound [OF assms(1)] by (intro s32_of_u64) simp_all
  then show ?thesis
    using assms GetSLEB128_eq [of bs off d rest] by (simp add: sleb_s32_def sleb_ok_def)
qed

text \<open>The two high bits of an instruction and the six low bits.\<close>

lemma low_bits:
  assumes "w < (64 :: u8)"
  shows "w AND 0x3F = w" "w AND 0xC0 = 0"
proof -
  have "unat w < 2 ^ 6" using assms by (simp add: word_less_nat_alt)
  then have "take_bit 6 w = w" by (simp add: word_unat_eq_iff unsigned_take_bit_eq take_bit_nat_eq_self)
  then show w: "w AND 0x3F = w" by (simp add: take_bit_eq_mask mask_eq_exp_minus_1)
  have "w AND 0xC0 = (w AND 0x3F) AND 0xC0" by (simp only: w)
  also have "\<dots> = w AND (0x3F AND 0xC0)" by (simp only: and.assoc)
  finally show "w AND 0xC0 = 0" by simp
qed

lemma opcode_bits [operands]:
  assumes "w < (64 :: u8)"
  shows "(0x40 OR w) AND 0xC0 = 0x40" "(0x80 OR w) AND 0xC0 = 0x80" "(0xC0 OR w) AND 0xC0 = 0xC0"
    and "(0x40 OR w) AND 0x3F = w" "(0x80 OR w) AND 0x3F = w" "(0xC0 OR w) AND 0x3F = w"
  by (simp_all add: bit.conj_disj_distrib2 low_bits [OF assms])

lemma int_product_factored:
  "factored n da f t = Some t' \<Longrightarrow> int_product n da = Some (n * da) \<and> t' = f (n * da) t"
  by (auto simp: factored_def int_product_def split: if_splits)

section \<open>Appending rows\<close>

definition rows_upto :: "nat \<Rightarrow> row list \<Rightarrow> bool" where
  "rows_upto loc rs \<longleftrightarrow> rows_sorted rs \<and> (\<forall>q \<in> set rs. row_offset q \<le> loc)"

lemma AppendRow_rows:
  "up_row_list (AppendRow r p) =
    (if up_row_list p \<noteq> [] \<and> row_offset (last (up_row_list p)) = row_offset r
     then butlast (up_row_list p) else up_row_list p) @ [r]"
  by (simp add: AppendRow_def Let_def)

lemma rows_upto_butlast: "rows_upto loc (qs @ [l]) \<Longrightarrow> \<forall>q \<in> set qs. row_offset q < row_offset l"
  by (auto simp: rows_upto_def rows_sorted_def sorted_wrt_append)

lemma AppendRow_upto:
  assumes "rows_upto (row_offset r) (up_row_list p)"
  shows "rows_upto (row_offset r) (up_row_list (AppendRow r p))"
proof (cases "up_row_list p" rule: rev_cases)
  case (snoc qs l)
  then show ?thesis
    using assms by (auto simp: AppendRow_rows rows_upto_def rows_sorted_def sorted_wrt_append)
qed (simp add: AppendRow_rows rows_upto_def rows_sorted_def)

lemma AppendRow_row_at:
  assumes "rows_upto (row_offset r) (up_row_list p)"
  shows "row_at (up_row_list (AppendRow r p)) a =
    (if row_offset r \<le> a then Some r else row_at (up_row_list p) a)"
proof (cases "up_row_list p" rule: rev_cases)
  case (snoc qs l)
  then show ?thesis
    by (simp add: AppendRow_rows row_at_append row_at_single)
qed (simp add: AppendRow_rows row_at_single)

lemma rows_upto_mono: "rows_upto loc rs \<Longrightarrow> loc \<le> loc' \<Longrightarrow> rows_upto loc' rs"
  by (auto simp: rows_upto_def)

section \<open>The simulation\<close>

definition abs_row :: "row \<Rightarrow> rules" where
  "abs_row r = (row_cfa_value r, rule_of r)"

definition simulates :: "table_state \<Rightarrow> unwind_plan \<Rightarrow> row \<Rightarrow> row list \<Rightarrow> bool" where
  "simulates t p r stack \<longleftrightarrow>
     row_ok r \<and> row_offset r = ts_loc t \<and> ts_loc t < 2 ^ 64 \<and> abs_row r = ts_rules t \<and>
     map abs_row (rev stack) = ts_stack t \<and> (\<forall>q \<in> set stack. row_ok q) \<and>
     rows_upto (ts_loc t) (up_row_list p) \<and>
     (\<forall>a. map_option abs_row (row_at (up_row_list p) a) = table_at (ts_table t) a)"

text \<open>The first row of the plan holds the initial rules, and will not be replaced.\<close>

definition settled :: "(nat \<Rightarrow> register_location) \<Rightarrow> unwind_plan \<Rightarrow> row \<Rightarrow> bool" where
  "settled init p r \<longleftrightarrow> up_row_list p \<noteq> [] \<and> rule_of (hd (up_row_list p)) = init \<and>
     row_offset (hd (up_row_list p)) < row_offset r"

lemma settled_simps [simp]:
  "settled init p (SetRegisterInfo reg l r) = settled init p r"
  "settled init p (r\<lparr>row_cfa_value := v\<rparr>) = settled init p r"
  "settled init p (q\<lparr>row_offset := row_offset r\<rparr>) = settled init p r"
  by (simp_all add: settled_def)

lemma table_at_snoc: "table_at (T @ [(l, x)]) a = (if l \<le> a then Some x else table_at T a)"
  by (simp add: table_at_def Let_def)

lemma simulates_set_rule:
  "simulates t p r stack \<Longrightarrow> simulates (set_rule reg l t) p (SetRegisterInfo reg l r) stack"
  by (cases "ts_rules t") (simp add: simulates_def set_rule_def abs_row_def rule_of_set)

lemma simulates_set_cfa:
  "simulates t p r stack \<Longrightarrow> simulates (set_cfa v t) p (r\<lparr>row_cfa_value := v\<rparr>) stack"
  by (cases "ts_rules t") (simp add: simulates_def set_cfa_def abs_row_def)

lemma simulates_advance:
  assumes "simulates t p r stack" "table_advance step t = Some t'"
  shows "simulates t' (AppendRow r p) (SlideOffset step r) stack"
  using assms AppendRow_upto [of r p] AppendRow_row_at [of r p]
  by (auto simp: simulates_def table_advance_def abs_row_def table_at_snoc rows_upto_mono split: if_splits)

lemma settled_advance:
  assumes "simulates t p r stack" "table_advance step t = Some t'" "settled init p r"
  shows "settled init (AppendRow r p) (SlideOffset step r)"
proof -
  obtain f qs where f: "up_row_list p = f # qs" using assms(3) by (auto simp: settled_def neq_Nil_conv)
  have step: "row_offset (SlideOffset step r) = row_offset r + step"
    using assms(1,2) by (auto simp: table_advance_def simulates_def split: if_splits)
  have "hd (up_row_list (AppendRow r p)) = f"
    using assms(3) f by (cases qs) (auto simp: AppendRow_rows settled_def)
  then show ?thesis using assms(3) f step by (simp add: settled_def AppendRow_rows)
qed

lemma settled_first_advance:
  assumes "up_row_list p = []" "0 < step" "simulates t p r stack" "table_advance step t = Some t'"
  shows "settled (rule_of r) (AppendRow r p) (SlideOffset step r)"
  using assms by (auto simp: settled_def AppendRow_rows table_advance_def simulates_def split: if_splits)

lemma restore_register_settled:
  assumes "settled init p r" "init reg \<noteq> unspecified_loc"
  shows "restore_register p reg r = SetRegisterInfo reg (init reg) r"
proof -
  obtain f qs where f: "up_row_list p = f # qs" "rule_of f = init"
    using assms(1) by (auto simp: settled_def neq_Nil_conv)
  then obtain l where "GetRegisterInfo f reg = Some l" "init reg = l"
    using assms(2) by (auto simp: rule_of_def split: option.splits)
  with f show ?thesis by (simp add: restore_register_def IsValidRowIndex_def GetRowAtIndex_def)
qed

text \<open>The register that an instruction restores.\<close>

fun restored :: "cfa_insn \<Rightarrow> nat option" where
  "restored (restore w) = Some (unat w)"
| "restored (restore_extended r) = Some (leb_nat r)"
| "restored _ = None"

definition step_simulated ::
  "cfi_env \<Rightarrow> nat \<Rightarrow> int \<Rightarrow> nat \<Rightarrow> (nat \<Rightarrow> register_location) \<Rightarrow> fde_state \<Rightarrow> nat \<Rightarrow> table_state \<Rightarrow> bool" where
  "step_simulated env ca da start init st n t' \<longleftrightarrow>
     (case st of (off, p, r, stack) \<Rightarrow>
        \<exists>p' r' stack'. fde_instruction env ca da start st = Some (off + n, p', r', stack') \<and>
          simulates t' p' r' stack' \<and> (settled init p r \<longrightarrow> settled init p' r'))"

lemma step_simulatedI:
  assumes "fde_instruction env ca da start (off, p, r, stack) = Some (off', p', r', stack')"
    and "off' = off + n" "simulates t' p' r' stack'" "settled init p r \<Longrightarrow> settled init p' r'"
  shows "step_simulated env ca da start init (off, p, r, stack) n t'"
  using assms by (auto simp: step_simulated_def)

lemma step_rule:
  assumes "drop off (de_bytes (ce_data env)) = inst # rest"
    and "HandleCommonDwarfOpcode (ce_data env) (inst AND 0xC0) (inst AND 0x3F) da (Suc off) r =
      Some (True, off + n, SetRegisterInfo reg l r)"
    and "simulates t p r stack" "t' = set_rule reg l t"
  shows "step_simulated env ca da start init (off, p, r, stack) n t'"
  using assms(1,2) simulates_set_rule [OF assms(3), of reg l] assms(4)
  by (intro step_simulatedI [of _ _ _ _ _ _ _ _ "off + n" p "SetRegisterInfo reg l r" stack])
    (simp_all add: fde_instruction_def operands)

lemma step_cfa:
  assumes "drop off (de_bytes (ce_data env)) = inst # rest"
    and "HandleCommonDwarfOpcode (ce_data env) (inst AND 0xC0) (inst AND 0x3F) da (Suc off) r =
      Some (True, off + n, r\<lparr>row_cfa_value := v\<rparr>)"
    and "simulates t p r stack" "t' = set_cfa v t"
  shows "step_simulated env ca da start init (off, p, r, stack) n t'"
  using assms(1,2) simulates_set_cfa [OF assms(3), of v] assms(4)
  by (intro step_simulatedI [of _ _ _ _ _ _ _ _ "off + n" p "r\<lparr>row_cfa_value := v\<rparr>" stack])
    (simp_all add: fde_instruction_def operands)

lemma step_advance:
  assumes "drop off (de_bytes (ce_data env)) = inst # rest"
    and "HandleCommonDwarfOpcode (ce_data env) (inst AND 0xC0) (inst AND 0x3F) da (Suc off) r = Some (False, Suc off, r)"
    and "fde_only_instruction env ca start (inst AND 0xC0) (inst AND 0x3F) (Suc off, p, r, stack) =
      Some (off + n, AppendRow r p, SlideOffset (step mod 2 ^ 32) r, stack)"
    and "simulates t p r stack" "table_advance step t = Some t'"
  shows "step_simulated env ca da start init (off, p, r, stack) n t'"
proof -
  have "step mod 2 ^ 32 = step" using assms(5) by (simp add: table_advance_def split: if_splits)
  then show ?thesis
    using assms(1-3) simulates_advance [OF assms(4,5)] settled_advance [OF assms(4,5), of init]
    by (intro step_simulatedI [of _ _ _ _ _ _ _ _ "off + n" "AppendRow r p" "SlideOffset step r" stack])
      (simp_all add: fde_instruction_def operands)
qed

lemma step_restore:
  assumes "drop off (de_bytes (ce_data env)) = inst # rest"
    and "HandleCommonDwarfOpcode (ce_data env) (inst AND 0xC0) (inst AND 0x3F) da (Suc off) r = Some (False, Suc off, r)"
    and "fde_only_instruction env ca start (inst AND 0xC0) (inst AND 0x3F) (Suc off, p, r, stack) =
      Some (off + n, p, restore_register p reg r, stack)"
    and "simulates t p r stack" "settled init p r" "init reg \<noteq> unspecified_loc" "t' = set_rule reg (init reg) t"
  shows "step_simulated env ca da start init (off, p, r, stack) n t'"
  using assms(1-3) restore_register_settled [OF assms(5,6)] simulates_set_rule [OF assms(4)] assms(7)
  by (intro step_simulatedI [of _ _ _ _ _ _ _ _ "off + n" p "SetRegisterInfo reg (init reg) r" stack])
    (simp_all add: fde_instruction_def operands)

section \<open>Every instruction is simulated\<close>

lemma def_cfa_register_cases:
  "(case v of isRegisterPlusOffset reg off \<Rightarrow> f reg off | _ \<Rightarrow> None) = Some t' \<longleftrightarrow>
    (\<exists>reg off. v = isRegisterPlusOffset reg off \<and> f reg off = Some t')"
  by (cases v) auto

lemma step_correct:
  fixes env off
  defines "d \<equiv> ce_data env"
  assumes pl: "platform_ok (ce_platform env)" "order_ok d"
    and bytes: "drop off (de_bytes d) = encode i @ rest"
    and ok: "insn_ok i" and sim: "simulates t p r stack"
    and step: "table_step (de_byte_order d) ca da init i t = Some t'"
    and res: "\<And>reg. restored i = Some reg \<Longrightarrow> settled init p r \<and> init reg \<noteq> unspecified_loc"
  shows "step_simulated env ca da start init (off, p, r, stack) (length (encode i)) t'"
proof -
  have cfa: "fst (ts_rules t) = row_cfa_value r"
  proof -
    have "ts_rules t = abs_row r" using sim by (simp add: simulates_def)
    then show ?thesis by (simp add: abs_row_def)
  qed
  have next1: "\<And>inst xs. encode i @ rest = inst # xs \<Longrightarrow> drop (Suc off) (de_bytes d) = xs"
    using drop_more [of off "de_bytes d" "[_]"] bytes by auto
  show ?thesis
  proof (cases i)
    case (advance_loc w)
    have "w < 64" using ok advance_loc by simp
    then show ?thesis
      using bytes step sim unfolding advance_loc d_def
      by (intro step_advance [of _ _ "0x40 OR w" rest _ _ _ _ _ _ _ "unat w * ca" t])
        (simp_all add: HandleCommonDwarfOpcode_def fde_only_instruction_def opcode_bits)
  next
    case (advance_loc1 w)
    have n: "GetU8 (ce_data env) (Suc off) = (w, Suc (Suc off))"
      using next1 advance_loc1 unfolding d_def by (intro GetU8_at) simp
    show ?thesis
      using bytes step sim n unfolding advance_loc1 d_def
      by (intro step_advance [of _ _ "0x02" "w # rest" _ _ _ _ _ _ _ "unat w * ca" t])
        (simp_all add: HandleCommonDwarfOpcode_def fde_only_instruction_def)
  next
    case (advance_loc2 bs)
    have len: "length bs = 2" using ok advance_loc2 by simp
    have n: "GetU16 (ce_platform env) (ce_data env) (Suc off) = (word_of_nat (order_nat (de_byte_order d) bs), Suc off + 2)"
      using next1 advance_loc2 len pl unfolding d_def by (intro GetU16_at) simp_all
    have v: "unat (word_of_nat (order_nat (de_byte_order d) bs) :: u16) = order_nat (de_byte_order d) bs"
      using order_nat_bound [of "de_byte_order d" bs] len by (simp add: unat_of_nat)
    show ?thesis
      using bytes step sim n v len unfolding advance_loc2 d_def
      by (intro step_advance [of _ _ "0x03" "bs @ rest" _ _ _ _ _ _ _ "order_nat (de_byte_order (ce_data env)) bs * ca" t])
        (simp_all add: HandleCommonDwarfOpcode_def fde_only_instruction_def)
  next
    case (advance_loc4 bs)
    have len: "length bs = 4" using ok advance_loc4 by simp
    have n: "GetU32 (ce_platform env) (ce_data env) (Suc off) = (word_of_nat (order_nat (de_byte_order d) bs), Suc off + 4)"
      using next1 advance_loc4 len pl unfolding d_def by (intro GetU32_at) simp_all
    have v: "unat (word_of_nat (order_nat (de_byte_order d) bs) :: u32) = order_nat (de_byte_order d) bs"
      using order_nat_bound [of "de_byte_order d" bs] len by (simp add: unat_of_nat)
    show ?thesis
      using bytes step sim n v len unfolding advance_loc4 d_def
      by (intro step_advance [of _ _ "0x04" "bs @ rest" _ _ _ _ _ _ _ "order_nat (de_byte_order (ce_data env)) bs * ca" t])
        (simp_all add: HandleCommonDwarfOpcode_def fde_only_instruction_def)
  next
    case (offset_insn w n)
    have w: "w < 64" and n: "small_ok n" using ok offset_insn by simp_all
    have rd: "uleb_s32 d (Suc off) = Some (int (leb_nat n), Suc off + length n)"
      using next1 offset_insn by (intro uleb_s32_at [OF n, of _ _ rest]) simp
    from step offset_insn int_product_factored [of "int (leb_nat n)" da _ t t'] show ?thesis
      using bytes sim rd unfolding offset_insn d_def
      by (intro step_rule [of _ _ "0x80 OR w" "n @ rest" _ _ _ "unat w" "atCFAPlusOffset (int (leb_nat n) * da)" t])
        (auto simp: HandleCommonDwarfOpcode_def opcode_bits [OF w])
  next
    case (offset_extended q n)
    have q: "uleb_ok q" and n: "small_ok n" using ok offset_extended by simp_all
    have b: "drop (Suc off) (de_bytes d) = q @ n @ rest" using next1 offset_extended by simp
    note rd = uleb_u32_at [OF q b] uleb_s32_at [OF n drop_more [OF b]]
    from step offset_extended int_product_factored [of "int (leb_nat n)" da _ t t'] show ?thesis
      using bytes sim rd unfolding offset_extended d_def
      by (intro step_rule [of _ _ "0x05" "q @ n @ rest" _ _ _ "leb_nat q" "atCFAPlusOffset (int (leb_nat n) * da)" t])
        (auto simp: HandleCommonDwarfOpcode_def)
  next
    case (offset_extended_sf q n)
    have q: "uleb_ok q" and n: "sleb_ok n" using ok offset_extended_sf by simp_all
    have b: "drop (Suc off) (de_bytes d) = q @ n @ rest" using next1 offset_extended_sf by simp
    note rd = uleb_u32_at [OF q b] sleb_s32_at [OF n drop_more [OF b]]
    from step offset_extended_sf int_product_factored [of "sleb_int n" da _ t t'] show ?thesis
      using bytes sim rd unfolding offset_extended_sf d_def
      by (intro step_rule [of _ _ "0x11" "q @ n @ rest" _ _ _ "leb_nat q" "atCFAPlusOffset (sleb_int n * da)" t])
        (auto simp: HandleCommonDwarfOpcode_def)
  next
    case (undefined_insn q)
    have q: "uleb_ok q" using ok undefined_insn by simp
    have b: "drop (Suc off) (de_bytes d) = q @ rest" using next1 undefined_insn by simp
    show ?thesis
      using bytes sim step uleb_u32_at [OF q b] unfolding undefined_insn d_def
      by (intro step_rule [of _ _ "0x07" "q @ rest" _ _ _ "leb_nat q" undefined_loc t])
        (auto simp: HandleCommonDwarfOpcode_def)
  next
    case (same_value q)
    have q: "uleb_ok q" using ok same_value by simp
    have b: "drop (Suc off) (de_bytes d) = q @ rest" using next1 same_value by simp
    show ?thesis
      using bytes sim step uleb_u32_at [OF q b] unfolding same_value d_def
      by (intro step_rule [of _ _ "0x08" "q @ rest" _ _ _ "leb_nat q" same_loc t])
        (auto simp: HandleCommonDwarfOpcode_def)
  next
    case (register_insn q o')
    have q: "uleb_ok q" and o': "uleb_ok o'" using ok register_insn by simp_all
    have b: "drop (Suc off) (de_bytes d) = q @ o' @ rest" using next1 register_insn by simp
    show ?thesis
      using bytes sim step uleb_u32_at [OF q b] uleb_u32_at [OF o' drop_more [OF b]] unfolding register_insn d_def
      by (intro step_rule [of _ _ "0x09" "q @ o' @ rest" _ _ _ "leb_nat q" "inOtherRegister (leb_nat o')" t])
        (auto simp: HandleCommonDwarfOpcode_def)
  next
    case (restore w)
    have w: "w < 64" using ok restore by simp
    show ?thesis
      using bytes step sim res unfolding restore d_def
      by (intro step_restore [of _ _ "0xC0 OR w" rest _ _ _ _ _ _ _ "unat w" t])
        (auto simp: HandleCommonDwarfOpcode_def fde_only_instruction_def opcode_bits [OF w])
  next
    case (restore_extended q)
    have q: "uleb_ok q" using ok restore_extended by simp
    have b: "drop (Suc off) (de_bytes d) = q @ rest" using next1 restore_extended by simp
    show ?thesis
      using bytes sim step res uleb_u32_at [OF q b] unfolding restore_extended d_def
      by (intro step_restore [of _ _ "0x06" "q @ rest" _ _ _ _ _ _ _ "leb_nat q" t])
        (auto simp: HandleCommonDwarfOpcode_def fde_only_instruction_def)
  next
    case remember_state
    have "simulates t' p r (stack @ [r])"
      using sim step remember_state by (auto simp: simulates_def)
    then show ?thesis
      using bytes unfolding remember_state d_def
      by (intro step_simulatedI [of _ _ _ _ _ _ _ _ "Suc off" p r "stack @ [r]"])
        (simp_all add: fde_instruction_def GetU8_at HandleCommonDwarfOpcode_def fde_only_instruction_def)
  next
    case restore_state
    then obtain rs st where top: "ts_stack t = rs # st" "t' = t\<lparr>ts_rules := rs, ts_stack := st\<rparr>"
      using step by (auto split: list.splits)
    then obtain q qs where q: "stack = qs @ [q]"
      using sim by (cases stack rule: rev_cases) (auto simp: simulates_def)
    have "simulates t' p (q\<lparr>row_offset := row_offset r\<rparr>) qs"
      using sim top q by (auto simp: simulates_def abs_row_def)
    then show ?thesis
      using bytes q unfolding restore_state d_def
      by (intro step_simulatedI [of _ _ _ _ _ _ _ _ "Suc off" p "q\<lparr>row_offset := row_offset r\<rparr>" qs])
        (simp_all add: fde_instruction_def GetU8_at HandleCommonDwarfOpcode_def fde_only_instruction_def)
  next
    case (def_cfa q n)
    have q: "uleb_ok q" and n: "small_ok n" using ok def_cfa by simp_all
    have b: "drop (Suc off) (de_bytes d) = q @ n @ rest" using next1 def_cfa by simp
    show ?thesis
      using bytes sim step uleb_u32_at [OF q b] uleb_s32_at [OF n drop_more [OF b]] unfolding def_cfa d_def
      by (intro step_cfa [of _ _ "0x0C" "q @ n @ rest" _ _ _ "isRegisterPlusOffset (leb_nat q) (int (leb_nat n))" t])
        (auto simp: HandleCommonDwarfOpcode_def)
  next
    case (def_cfa_sf q n)
    have q: "uleb_ok q" and n: "sleb_ok n" using ok def_cfa_sf by simp_all
    have b: "drop (Suc off) (de_bytes d) = q @ n @ rest" using next1 def_cfa_sf by simp
    note rd = uleb_u32_at [OF q b] sleb_s32_at [OF n drop_more [OF b]]
    from step def_cfa_sf int_product_factored [of "sleb_int n" da _ t t'] show ?thesis
      using bytes sim rd unfolding def_cfa_sf d_def
      by (intro step_cfa [of _ _ "0x12" "q @ n @ rest" _ _ _ "isRegisterPlusOffset (leb_nat q) (sleb_int n * da)" t])
        (auto simp: HandleCommonDwarfOpcode_def)
  next
    case (def_cfa_register q)
    have q: "uleb_ok q" using ok def_cfa_register by simp
    have b: "drop (Suc off) (de_bytes d) = q @ rest" using next1 def_cfa_register by simp
    obtain reg v where "row_cfa_value r = isRegisterPlusOffset reg v"
        "t' = set_cfa (isRegisterPlusOffset (leb_nat q) v) t"
      using step cfa by (auto simp: def_cfa_register def_cfa_register_cases)
    then show ?thesis
      using bytes sim uleb_u32_at [OF q b] unfolding def_cfa_register d_def
      by (intro step_cfa [of _ _ "0x0D" "q @ rest" _ _ _ "isRegisterPlusOffset (leb_nat q) v" t])
        (auto simp: HandleCommonDwarfOpcode_def GetOffset_cfa_def)
  next
    case (def_cfa_offset n)
    have n: "small_ok n" using ok def_cfa_offset by simp
    have b: "drop (Suc off) (de_bytes d) = n @ rest" using next1 def_cfa_offset by simp
    obtain reg v where "row_cfa_value r = isRegisterPlusOffset reg v"
        "t' = set_cfa (isRegisterPlusOffset reg (int (leb_nat n))) t"
      using step cfa by (auto simp: def_cfa_offset def_cfa_register_cases)
    then show ?thesis
      using bytes sim uleb_s32_at [OF n b] unfolding def_cfa_offset d_def
      by (intro step_cfa [of _ _ "0x0E" "n @ rest" _ _ _ "isRegisterPlusOffset reg (int (leb_nat n))" t])
        (auto simp: HandleCommonDwarfOpcode_def GetRegisterNumber_cfa_def)
  next
    case (def_cfa_offset_sf n)
    have n: "sleb_ok n" using ok def_cfa_offset_sf by simp
    have b: "drop (Suc off) (de_bytes d) = n @ rest" using next1 def_cfa_offset_sf by simp
    obtain reg v where v: "row_cfa_value r = isRegisterPlusOffset reg v"
        "factored (sleb_int n) da (\<lambda>v. set_cfa (isRegisterPlusOffset reg v)) t = Some t'"
      using step cfa by (auto simp: def_cfa_offset_sf def_cfa_register_cases)
    from v(1) int_product_factored [OF v(2)] show ?thesis
      using bytes sim sleb_s32_at [OF n b] unfolding def_cfa_offset_sf d_def
      by (intro step_cfa [of _ _ "0x13" "n @ rest" _ _ _ "isRegisterPlusOffset reg (sleb_int n * da)" t])
        (auto simp: HandleCommonDwarfOpcode_def GetRegisterNumber_cfa_def)
  next
    case (def_cfa_expression n e)
    have n: "uleb_ok n" and e: "leb_nat n = length e" "e \<noteq> []" "length e < 2 ^ 16"
      using ok def_cfa_expression by (simp_all add: expr_block_ok_def)
    have b: "drop (Suc off) (de_bytes d) = n @ e @ rest" using next1 def_cfa_expression by simp
    have u: "unat (word_of_nat (length e) :: u64) = length e" using e(3) by (simp add: unat_of_nat)
    show ?thesis
      using bytes sim step e u GetULEB128_at [OF n b] GetData_at [OF drop_more [OF b] e(2) refl]
      unfolding def_cfa_expression d_def
      by (intro step_cfa [of _ _ "0x0F" "n @ e @ rest" _ _ _ "isDWARFExpression_cfa (Some e) (length e)" t])
        (auto simp: HandleCommonDwarfOpcode_def SetIsDWARFExpression_cfa_def)
  next
    case (expression_insn q n e)
    have q: "uleb_ok q" and n: "uleb_ok n" and e: "leb_nat n = length e" "e \<noteq> []" "length e < 2 ^ 16"
      using ok expression_insn by (simp_all add: expr_block_ok_def)
    have b: "drop (Suc off) (de_bytes d) = q @ n @ e @ rest" using next1 expression_insn by simp
    show ?thesis
      using bytes sim step e uleb_u32_at [OF q b] uleb_u32_at [OF n drop_more [OF b]]
        GetData_at [OF drop_more [OF drop_more [OF b]] e(2) refl]
      unfolding expression_insn d_def
      by (intro step_rule [of _ _ "0x10" "q @ n @ e @ rest" _ _ _ "leb_nat q" "atDWARFExpression (Some e) (length e)" t])
        (auto simp: HandleCommonDwarfOpcode_def SetAtDWARFExpression_def)
  next
    case (val_expression q n e)
    have q: "uleb_ok q" and n: "uleb_ok n" and e: "leb_nat n = length e" "e \<noteq> []" "length e < 2 ^ 16"
      using ok val_expression by (simp_all add: expr_block_ok_def)
    have b: "drop (Suc off) (de_bytes d) = q @ n @ e @ rest" using next1 val_expression by simp
    show ?thesis
      using bytes sim step e uleb_u32_at [OF q b] uleb_u32_at [OF n drop_more [OF b]]
        GetData_at [OF drop_more [OF drop_more [OF b]] e(2) refl]
      unfolding val_expression d_def
      by (intro step_rule [of _ _ "0x16" "q @ n @ e @ rest" _ _ _ "leb_nat q" "isDWARFExpression (Some e) (length e)" t])
        (auto simp: HandleCommonDwarfOpcode_def SetIsDWARFExpression_def)
  next
    case nop
    then show ?thesis
      using bytes sim step unfolding nop d_def
      by (intro step_simulatedI [of _ _ _ _ _ _ _ _ "Suc off" p r stack])
        (simp_all add: fde_instruction_def GetU8_at HandleCommonDwarfOpcode_def)
  next
    case (GNU_args_size n)
    have n: "uleb_ok n" using ok GNU_args_size by simp
    have b: "drop (Suc off) (de_bytes d) = n @ rest" using next1 GNU_args_size by simp
    show ?thesis
      using bytes sim step GetULEB128_at [OF n b] unfolding GNU_args_size d_def
      by (intro step_simulatedI [of _ _ _ _ _ _ _ _ "Suc off + length n" p r stack])
        (simp_all add: fde_instruction_def GetU8_at HandleCommonDwarfOpcode_def fde_only_instruction_def)
  qed
qed

section \<open>Programs are simulated\<close>

lemma encode_nonempty: "encode i \<noteq> []"
  by (cases i) simp_all

lemma fde_loop_goes_on:
  assumes "drop off (de_bytes (ce_data env)) = encode i @ rest" "off + length (encode i) \<le> end_offset"
  shows "ValidOffset (ce_data env) off \<and> off < end_offset"
proof
  have "0 < length (encode i)" using encode_nonempty by simp
  then show "off < end_offset" using assms(2) by linarith
  show "ValidOffset (ce_data env) off"
    using assms(1) encode_nonempty [of i] by (auto simp: ValidOffset_def GetByteSize_def not_le [symmetric])
qed

lemma run_prefix:
  assumes pl: "platform_ok (ce_platform env)" "order_ok (ce_data env)"
    and "drop off (de_bytes (ce_data env)) = concat (map encode prog) @ rest"
    and "off + length (concat (map encode prog)) \<le> end_offset"
    and "\<forall>i \<in> set prog. insn_ok i" "simulates t p r stack"
    and "table_run (de_byte_order (ce_data env)) ca da init prog t = Some t'"
    and "(\<forall>i \<in> set prog. restored i = None) \<or>
      settled init p r \<and> (\<forall>i \<in> set prog. \<forall>reg. restored i = Some reg \<longrightarrow> init reg \<noteq> unspecified_loc)"
  shows "\<exists>p' r' stack'. fde_loop env ca da start end_offset (off, p, r, stack) =
      fde_loop env ca da start end_offset (off + length (concat (map encode prog)), p', r', stack') \<and>
    simulates t' p' r' stack'"
  using assms(3-)
proof (induction prog arbitrary: off p r stack t)
  case Nil
  then show ?case by auto
next
  case (Cons i prog)
  obtain t1 where t1: "table_step (de_byte_order (ce_data env)) ca da init i t = Some t1"
      "table_run (de_byte_order (ce_data env)) ca da init prog t1 = Some t'"
    using Cons.prems(5) by auto
  have bytes: "drop off (de_bytes (ce_data env)) = encode i @ concat (map encode prog) @ rest"
    using Cons.prems(1) by simp
  have "restored i = Some reg \<Longrightarrow> settled init p r \<and> init reg \<noteq> unspecified_loc" for reg
    using Cons.prems(6) by auto
  then have "step_simulated env ca da start init (off, p, r, stack) (length (encode i)) t1"
    using step_correct [OF pl bytes _ Cons.prems(4) t1(1)] Cons.prems(3) by simp
  then obtain p1 r1 st1 where s1:
      "fde_instruction env ca da start (off, p, r, stack) = Some (off + length (encode i), p1, r1, st1)"
      "simulates t1 p1 r1 st1" "settled init p r \<longrightarrow> settled init p1 r1"
    by (auto simp: step_simulated_def)
  have "\<exists>p' r' stack'. fde_loop env ca da start end_offset (off + length (encode i), p1, r1, st1) =
      fde_loop env ca da start end_offset (off + length (encode i) + length (concat (map encode prog)), p', r', stack') \<and>
      simulates t' p' r' stack'"
    using Cons.prems(2,3,6) s1(3) by (intro Cons.IH [OF drop_more [OF bytes] _ _ s1(2) t1(2)]) auto
  moreover have "ValidOffset (ce_data env) off" "off < end_offset"
    using fde_loop_goes_on [OF bytes, of end_offset] Cons.prems(2) by simp_all
  ultimately show ?case
    using s1(1) by (subst fde_loop.simps) (simp add: add.assoc)
qed

lemma fde_loop_end: "fde_loop env ca da start end_offset (end_offset, p, r, stack) = Some (end_offset, p, r, stack)"
  by (subst fde_loop.simps) simp

text \<open>The step by which an instruction advances.\<close>

fun advance_of :: "byte_order \<Rightarrow> nat \<Rightarrow> cfa_insn \<Rightarrow> nat" where
  "advance_of bo ca (advance_loc w) = unat w * ca"
| "advance_of bo ca (advance_loc1 w) = unat w * ca"
| "advance_of bo ca (advance_loc2 bs) = order_nat bo bs * ca"
| "advance_of bo ca (advance_loc4 bs) = order_nat bo bs * ca"
| "advance_of bo ca _ = 0"

text \<open>When restored registers have their rule in the first row of the plan: the program advances
  first, and the CIE has a rule for them; or nothing is restored.\<close>

definition restores_initial :: "byte_order \<Rightarrow> nat \<Rightarrow> (nat \<Rightarrow> register_location) \<Rightarrow> cfa_insn list \<Rightarrow> bool" where
  "restores_initial bo ca init prog \<longleftrightarrow>
     (\<forall>i \<in> set prog. restored i = None) \<or>
     prog \<noteq> [] \<and> 0 < advance_of bo ca (hd prog) \<and>
     (\<forall>i \<in> set prog. \<forall>reg. restored i = Some reg \<longrightarrow> init reg \<noteq> unspecified_loc)"

lemma advance_step:
  "0 < advance_of bo ca i \<Longrightarrow> table_step bo ca da init i t = table_advance (advance_of bo ca i) t"
  by (cases i) simp_all

lemma advance_not_restored: "0 < advance_of bo ca i \<Longrightarrow> restored i = None"
  by (cases i) simp_all

text \<open>The first instruction settles the first row.\<close>

lemma settled_of_table:
  assumes "simulates t p r stack" "ts_table t = [(l, x)]" "l < ts_loc t"
  shows "settled (snd x) p r"
proof -
  let ?rows = "up_row_list p"
  have sim: "map_option abs_row (row_at ?rows a) = (if l \<le> a then Some x else None)" for a
    using assms(1,2) by (simp add: simulates_def table_at_def Let_def)
  then obtain f qs where f: "?rows = f # qs"
    using sim [of l] by (cases ?rows) auto
  have sorted: "\<forall>q \<in> set qs. row_offset f < row_offset q"
    using assms(1) f by (simp add: simulates_def rows_upto_def rows_sorted_def)
  then have at: "row_at ?rows (row_offset f) = Some f"
    using f by (simp add: row_at_Cons row_at_above)
  have "row_offset f \<le> l"
  proof (rule ccontr)
    assume "\<not> row_offset f \<le> l"
    then have "row_at ?rows l = None" using f sorted by (intro row_at_above) auto
    with sim [of l] show False by simp
  qed
  moreover have "abs_row f = x" using sim [of "row_offset f"] at by (simp split: if_splits)
  ultimately show ?thesis
    using assms f by (auto simp: settled_def abs_row_def simulates_def)
qed

text \<open>What the interpreter makes of any program that sets up a first row, advances and goes on:
  registers are restored to the rules of that first row.\<close>

lemma restores_first_row:
  assumes pl: "platform_ok (ce_platform env)" "order_ok (ce_data env)"
    and "drop off (de_bytes (ce_data env)) = concat (map encode (pre @ i # post)) @ rest"
    and "end_offset = off + length (concat (map encode (pre @ i # post)))"
    and "\<forall>i \<in> set (pre @ i # post). insn_ok i" "simulates t p r stack"
    and "\<forall>i \<in> set pre. restored i = None" "table_run (de_byte_order (ce_data env)) ca da init pre t = Some t1"
    and "ts_table t1 = []" "0 < advance_of (de_byte_order (ce_data env)) ca i"
    and "table_step (de_byte_order (ce_data env)) ca da init i t1 = Some t2"
    and "table_run (de_byte_order (ce_data env)) ca da (snd (ts_rules t1)) post t2 = Some t'"
    and "\<forall>i \<in> set post. \<forall>reg. restored i = Some reg \<longrightarrow> snd (ts_rules t1) reg \<noteq> unspecified_loc"
  shows "\<exists>p' r' stack'. fde_loop env ca da start end_offset (off, p, r, stack) = Some (end_offset, p', r', stack') \<and>
    simulates t' p' r' stack'"
proof -
  let ?bo = "de_byte_order (ce_data env)" and ?len = "\<lambda>prog. length (concat (map encode prog))"
  have b1: "drop off (de_bytes (ce_data env)) = concat (map encode pre) @ encode i @ concat (map encode post) @ rest"
    using assms(3) by simp
  note b2 = drop_more [OF b1]
  note b3 = drop_more [OF b2]
  obtain p1 r1 st1 where s1: "fde_loop env ca da start end_offset (off, p, r, stack) =
        fde_loop env ca da start end_offset (off + ?len pre, p1, r1, st1)" "simulates t1 p1 r1 st1"
    using run_prefix [OF pl b1 _ _ assms(6,8), of end_offset start] assms(4,5,7) by auto
  have "step_simulated env ca da start (snd (ts_rules t1)) (off + ?len pre, p1, r1, st1) (length (encode i)) t2"
    using assms(5,10,11) advance_not_restored [OF assms(10)]
    by (intro step_correct [OF pl b2 _ s1(2)]) (simp_all add: advance_step)
  then obtain p2 r2 st2 where s2: "fde_instruction env ca da start (off + ?len pre, p1, r1, st1) =
        Some (off + ?len pre + length (encode i), p2, r2, st2)" "simulates t2 p2 r2 st2"
    by (auto simp: step_simulated_def)
  have "ts_table t2 = [(ts_loc t1, ts_rules t1)]" "ts_loc t1 < ts_loc t2"
    using assms(9,10,11) by (auto simp: advance_step table_advance_def split: if_splits)
  then have "settled (snd (ts_rules t1)) p2 r2" by (rule settled_of_table [OF s2(2)])
  then obtain p3 r3 st3 where s3:
      "fde_loop env ca da start end_offset (off + ?len pre + length (encode i), p2, r2, st2) =
        fde_loop env ca da start end_offset (off + ?len pre + length (encode i) + ?len post, p3, r3, st3)"
      "simulates t' p3 r3 st3"
    using run_prefix [OF pl b3 _ _ s2(2) assms(12), of end_offset start] assms(4,5,13) by auto
  have "ValidOffset (ce_data env) (off + ?len pre)" "off + ?len pre < end_offset"
    using fde_loop_goes_on [OF b2, of end_offset] assms(4) by simp_all
  then have "fde_loop env ca da start end_offset (off + ?len pre, p1, r1, st1) =
      fde_loop env ca da start end_offset (off + ?len pre + length (encode i), p2, r2, st2)"
    using s2(1) by (subst fde_loop.simps) simp
  moreover have "off + ?len pre + length (encode i) + ?len post = end_offset"
    using assms(4) by simp
  ultimately show ?thesis
    using s1(1) s3 fde_loop_end [of env ca da start end_offset p3 r3 st3] by auto
qed

lemma program_correct:
  assumes "platform_ok (ce_platform env)" "order_ok (ce_data env)"
    and "drop off (de_bytes (ce_data env)) = concat (map encode prog) @ rest"
    and "end_offset = off + length (concat (map encode prog))"
    and "\<forall>i \<in> set prog. insn_ok i" "simulates t p r stack" "ts_table t = []"
    and "table_run (de_byte_order (ce_data env)) ca da (snd (ts_rules t)) prog t = Some t'"
    and "restores_initial (de_byte_order (ce_data env)) ca (snd (ts_rules t)) prog"
  shows "\<exists>p' r' stack'. fde_loop env ca da start end_offset (off, p, r, stack) = Some (end_offset, p', r', stack') \<and>
    simulates t' p' r' stack'"
proof (cases "\<forall>i \<in> set prog. restored i = None")
  case True
  then obtain p' r' stack' where "fde_loop env ca da start end_offset (off, p, r, stack) =
      fde_loop env ca da start end_offset (end_offset, p', r', stack')" "simulates t' p' r' stack'"
    using run_prefix [OF assms(1-3) _ assms(5,6,8), of end_offset start] assms(4) by auto
  then show ?thesis by (auto simp: fde_loop_end)
next
  case False
  then obtain i prog' where prog: "prog = i # prog'" "0 < advance_of (de_byte_order (ce_data env)) ca i"
      "\<forall>i \<in> set prog. \<forall>reg. restored i = Some reg \<longrightarrow> snd (ts_rules t) reg \<noteq> unspecified_loc"
    using assms(9) by (cases prog) (auto simp: restores_initial_def)
  obtain t1 where t1: "table_step (de_byte_order (ce_data env)) ca da (snd (ts_rules t)) i t = Some t1"
      "table_run (de_byte_order (ce_data env)) ca da (snd (ts_rules t)) prog' t1 = Some t'"
    using assms(8) prog(1) by auto
  show ?thesis
    using assms(3-5,7) prog
    by (intro restores_first_row [OF assms(1,2) _ _ _ assms(6), where pre = "[]" and i = i and post = prog'
          and init = "snd (ts_rules t)", OF _ _ _ _ _ _ _ t1]) auto
qed

section \<open>The plan of a function\<close>

lemma describe_plan_rows [simp]: "up_row_list (describe_plan env c b l lsda p) = up_row_list p"
  by (simp add: describe_plan_def Let_def SetPlanValidAddressRange_def set_lsda_def)

text \<open>C4: For an FDE whose instructions encode a valid program, the unwind plan is made, and the row
  that the unwinder finds at an offset of the function has the CFA rule and the register rules
  that the table of the DWARF standard assigns to that location: the
  instructions (all but DW_CFA_set_loc and the DW_CFA_val_offset forms) are interpreted as the standard says, provided that the registers restored have a
  rule in the CIE and the program advances before anything else when it restores.\<close>

theorem FDEToUnwindPlan_table:
  assumes "platform_ok (ce_platform env)" "order_ok (ce_data env)" "ce_has_section env" "\<not> ce_encrypted env"
    and "entry_header env entry = (len, cie_id, end_offset, is_64bit, off0)"
    and "GetCIE env (if ce_type env = EH
          then (entry + (if is_64bit then 12 else 4) + 2 ^ 32 - cie_id) mod 2 ^ 32 else cie_id) s = Some (Some c, s')"
    and "read_fde_range env c off0 = Some (range_base, range_len, off1)"
    and "fde_augmentation env c off1 = Some (lsda, off)"
    and "drop off (de_bytes (ce_data env)) = concat (map encode prog) @ rest"
    and "end_offset = off + length (concat (map encode prog))"
    and "\<forall>i \<in> set prog. insn_ok i"
    and "row_ok (cie_initial_row c)" "row_offset (cie_initial_row c) = 0" "up_row_list p = []"
    and "dwarf_table (de_byte_order (ce_data env)) (cie_code_align c) (cie_data_align c)
           (abs_row (cie_initial_row c)) prog = Some T"
    and "restores_initial (de_byte_order (ce_data env)) (cie_code_align c) (rule_of (cie_initial_row c)) prog"
  shows "\<exists>p'. FDEToUnwindPlan env entry startaddr p s = Some (True, p', s') \<and>
    (\<forall>a. a < 2 ^ 31 \<longrightarrow> map_option abs_row (GetRowForFunctionOffset p' (int a)) = table_at T a)"
proof -
  let ?t = "\<lparr>ts_table = [], ts_loc = 0, ts_rules = abs_row (cie_initial_row c), ts_stack = []\<rparr>"
  let ?p = "describe_plan env c range_base range_len lsda p"
  have init: "snd (abs_row (cie_initial_row c)) = rule_of (cie_initial_row c)" by (simp add: abs_row_def)
  obtain t' where t': "table_run (de_byte_order (ce_data env)) (cie_code_align c) (cie_data_align c)
        (snd (abs_row (cie_initial_row c))) prog ?t = Some t'" "T = ts_table t' @ [(ts_loc t', ts_rules t')]"
    using assms(15) by (auto simp: dwarf_table_def)
  have "simulates ?t ?p (cie_initial_row c) []"
    using assms(12-14) by (simp add: simulates_def rows_upto_def rows_sorted_def table_at_def)
  from program_correct [OF assms(1,2,9,10,11) this, of "cie_code_align c" "cie_data_align c" t' "GetFileAddress startaddr"] t'(1) assms(16)
  obtain p' r' stack' where run:
      "fde_loop env (cie_code_align c) (cie_data_align c) (GetFileAddress startaddr) end_offset
        (off, ?p, cie_initial_row c, []) = Some (end_offset, p', r', stack')" "simulates t' p' r' stack'"
    by (auto simp: init)
  have plan: "FDEToUnwindPlan env entry startaddr p s = Some (True, AppendRow r' p', s')"
    using assms(3-8) run(1) by (simp add: FDEToUnwindPlan_def)
  have upto: "rows_upto (row_offset r') (up_row_list p')"
    using run(2) by (simp add: simulates_def)
  note sorted = AppendRow_upto [OF upto]
  have "map_option abs_row (GetRowForFunctionOffset (AppendRow r' p') (int a)) = table_at T a" if "a < 2 ^ 31" for a
    using that sorted AppendRow_row_at [OF upto, of a] run(2) t'(2)
    by (auto simp: GetRowForFunctionOffset_eq rows_upto_def simulates_def table_at_snoc)
  with plan show ?thesis by blast
qed

section \<open>A section with one function\<close>

definition demo_frame :: "u8 list" where
  "demo_frame =
     [0x14, 0, 0, 0, 0, 0, 0, 0, 0x01, 0x7A, 0x52, 0, 0x01, 0x78, 0x10, 0x01, 0x1B,
      0x0C, 0x07, 0x08, 0x90, 0x01, 0, 0,
      0x16, 0, 0, 0, 0x1C, 0, 0, 0, 0, 0x01, 0, 0, 0x40, 0, 0, 0, 0,
      0x41, 0x0E, 0x10, 0x86, 0x02, 0x43, 0x0D, 0x06, 0xD0]"

definition demo_cfi :: cfi_env where
  "demo_cfi =
     \<lparr>ce_platform = x86_64, ce_type = EH, ce_has_section = True, ce_encrypted = False,
      ce_data = DataExtractor_of_bytes demo_frame eByteOrderLittle 8 1, ce_section_file_addr = 0x1000,
      ce_arm = False, ce_addr_byte_size = 8, ce_sections = (\<lambda>_. None), ce_module_sections = None\<rparr>"

text \<open>What \<open>ParseCIE\<close> makes of the first entry.\<close>

definition demo_cie :: cie where
  "demo_cie = (new_CIE 0)
     \<lparr>cie_version := 1, cie_augmentation := Some [0x7A, 0x52, 0, 0, 0, 0, 0, 0], cie_code_align := 1,
      cie_data_align := - 8, cie_return_addr_reg_num := 16, cie_inst_offset := 17, cie_inst_length := 7,
      cie_ptr_encoding := 0x1B,
      cie_initial_row := \<lparr>row_offset = 0, row_cfa_value = isRegisterPlusOffset 7 8,
                          row_locations = [(16, atCFAPlusOffset (- 8))]\<rparr>\<rparr>"

definition demo_program :: "cfa_insn list" where
  "demo_program = [advance_loc 1, def_cfa_offset [0x10], offset_insn 6 [0x02], advance_loc 3,
     def_cfa_register [0x06], restore 16]"

lemma demo_bytes: "de_bytes (ce_data demo_cfi) = demo_frame"
  by (simp add: demo_cfi_def DataExtractor_of_bytes_def de_bytes_def SetData_bytes_def demo_frame_def)

lemma demo_env [simp]: "platform_ok (ce_platform demo_cfi)" "order_ok (ce_data demo_cfi)"
  "de_byte_order (ce_data demo_cfi) = eByteOrderLittle"
  by (simp_all add: demo_cfi_def x86_64_ok DataExtractor_of_bytes_def SetData_bytes_def demo_frame_def order_ok_def)

lemma demo_header: "entry_header demo_cfi 24 = (22, 28, 50, False, 32)"
  by (simp add: entry_header_def GetU32_eq GetByteSize_def demo_bytes slice_nat_def order_nat_def Let_def)
   (simp add: demo_frame_def UINT32_MAX_def unat_of_nat)

lemma demo_range: "read_fde_range demo_cfi demo_cie 32 = Some (0x1120, 64, 40)"
  by (simp add: read_fde_range_def GetGNUEHPointer_def eh_pointer_base_def eh_pointer_value_def DW_EH_PE_omit_def
      DW_EH_PE_MASK_ENCODING_def demo_cie_def GetU32_eq GetByteSize_def demo_bytes slice_nat_def order_nat_def Let_def)
   (simp add: demo_cfi_def DataExtractor_of_bytes_def SetData_bytes_def demo_frame_def UINT64_MAX_def unat_of_nat s32_of_def)

lemma demo_augmentation: "fde_augmentation demo_cfi demo_cie 40 = Some (LLDB_INVALID_ADDRESS, 41)"
proof -
  have "uleb_u32 (ce_data demo_cfi) 40 = Some (leb_nat [0], 40 + length [0 :: u8])"
    by (rule uleb_u32_at [of _ _ _ "drop 41 demo_frame"])
      (simp_all add: uleb_ok_def leb_encoding_def demo_bytes demo_frame_def)
  then show ?thesis by (simp add: fde_augmentation_def demo_cie_def)
qed

lemma demo_initial:
  "abs_row (cie_initial_row demo_cie) = (isRegisterPlusOffset 7 8, (\<lambda>_. unspecified_loc)(16 := atCFAPlusOffset (- 8)))"
  "row_ok (cie_initial_row demo_cie)" "row_offset (cie_initial_row demo_cie) = 0"
  by (auto simp: demo_cie_def abs_row_def rule_of_def GetRegisterInfo_def fun_eq_iff row_ok_def map_sorted_def)

lemma demo_table:
  "dwarf_table eByteOrderLittle 1 (- 8) (isRegisterPlusOffset 7 8, (\<lambda>_. unspecified_loc)(16 := atCFAPlusOffset (- 8)))
      demo_program = Some
    [(0, isRegisterPlusOffset 7 8, (\<lambda>_. unspecified_loc)(16 := atCFAPlusOffset (- 8))),
     (1, isRegisterPlusOffset 7 16, (\<lambda>_. unspecified_loc)(16 := atCFAPlusOffset (- 8), 6 := atCFAPlusOffset (- 16))),
     (4, isRegisterPlusOffset 6 16, (\<lambda>_. unspecified_loc)(16 := atCFAPlusOffset (- 8), 6 := atCFAPlusOffset (- 16)))]"
  by (auto simp: dwarf_table_def demo_program_def table_advance_def set_cfa_def set_rule_def factored_def fun_eq_iff)

lemma demo_program_ok:
  "\<forall>i \<in> set demo_program. insn_ok i" "concat (map encode demo_program) = drop 41 demo_frame"
  "restores_initial bo 1 ((\<lambda>_. unspecified_loc)(16 := atCFAPlusOffset v)) demo_program"
  by (simp_all add: demo_program_def small_ok_def uleb_ok_def leb_encoding_def demo_frame_def restores_initial_def)

lemma FDEToUnwindPlan_table_witness:
  "\<exists>p'. FDEToUnwindPlan demo_cfi 24 \<lparr>ad_section = None, ad_offset = 0x1122\<rparr> (new_UnwindPlan eRegisterKindEHFrame)
        (new_cfi_state\<lparr>cf_cie_map := [(0, Some demo_cie)]\<rparr>) =
      Some (True, p', new_cfi_state\<lparr>cf_cie_map := [(0, Some demo_cie)]\<rparr>) \<and>
    (\<forall>a. a < 2 ^ 31 \<longrightarrow> map_option abs_row (GetRowForFunctionOffset p' (int a)) =
      table_at
        [(0, isRegisterPlusOffset 7 8, (\<lambda>_. unspecified_loc)(16 := atCFAPlusOffset (- 8))),
         (1, isRegisterPlusOffset 7 16, (\<lambda>_. unspecified_loc)(16 := atCFAPlusOffset (- 8), 6 := atCFAPlusOffset (- 16))),
         (4, isRegisterPlusOffset 6 16, (\<lambda>_. unspecified_loc)(16 := atCFAPlusOffset (- 8), 6 := atCFAPlusOffset (- 16)))] a)"
proof (rule FDEToUnwindPlan_table [OF _ _ _ _ demo_header _ demo_range demo_augmentation, where prog = demo_program and rest = "[]"])
  have "rule_of (cie_initial_row demo_cie) = (\<lambda>_. unspecified_loc)(16 := atCFAPlusOffset (- 8))"
    using demo_initial(1) by (simp add: abs_row_def)
  then show "restores_initial (de_byte_order (ce_data demo_cfi)) (cie_code_align demo_cie)
      (rule_of (cie_initial_row demo_cie)) demo_program"
    by (simp add: demo_program_ok) (simp add: demo_cie_def demo_program_ok(3) [unfolded One_nat_def])
qed (simp_all add: demo_bytes demo_initial demo_program_ok new_UnwindPlan_def GetCIE_def new_cfi_state_def,
    simp_all add: demo_cfi_def demo_frame_def, simp_all add: demo_cie_def demo_table [unfolded One_nat_def])

section \<open>Where the interpreter leaves the standard\<close>

text \<open>DW_CFA_restore does not restore the rule of the CIE but the rule of the first row of the
  plan: when a register is saved before the first advance and restored after it, the current
  row still says that it is saved, while the table of the standard has the rule of the CIE.\<close>

theorem restore_takes_first_row:
  assumes "platform_ok (ce_platform env)" "order_ok (ce_data env)"
    and "drop off (de_bytes (ce_data env)) = concat (map encode [offset_insn w n, advance_loc k, restore w]) @ rest"
    and "end_offset = off + length (concat (map encode [offset_insn w n, advance_loc k, restore w]))"
    and "w < 64" "small_ok n" "k < 64" "0 < unat k * ca" "unat k * ca < 2 ^ 32"
    and "- (2 ^ 31) \<le> int (leb_nat n) * da" "int (leb_nat n) * da < 2 ^ 31"
    and "row_ok r" "row_offset r = 0" "up_row_list p = []"
  shows "(\<exists>p' r' stack'. fde_loop env ca da start end_offset (off, p, r, []) = Some (end_offset, p', r', stack') \<and>
      rule_of r' (unat w) = atCFAPlusOffset (int (leb_nat n) * da)) \<and>
    (\<exists>T. dwarf_table (de_byte_order (ce_data env)) ca da (abs_row r) [offset_insn w n, advance_loc k, restore w] = Some T \<and>
      snd (snd (last T)) (unat w) = rule_of r (unat w))"
proof
  let ?t = "\<lparr>ts_table = [], ts_loc = 0, ts_rules = abs_row r, ts_stack = []\<rparr>"
  let ?t1 = "set_rule (unat w) (atCFAPlusOffset (int (leb_nat n) * da)) ?t"
  let ?t2 = "?t1\<lparr>ts_table := [(0, ts_rules ?t1)], ts_loc := unat k * ca\<rparr>"
  let ?t3 = "set_rule (unat w) (atCFAPlusOffset (int (leb_nat n) * da)) ?t2"
  have sim: "simulates ?t p r []"
    using assms(12-14) by (simp add: simulates_def rows_upto_def rows_sorted_def table_at_def)
  have "\<exists>p' r' stack'. fde_loop env ca da start end_offset (off, p, r, []) = Some (end_offset, p', r', stack') \<and>
      simulates ?t3 p' r' stack'"
    using assms(3-11)
    by (intro restores_first_row [OF assms(1,2) _ _ _ sim, of off "[offset_insn w n]" "advance_loc k" "[restore w]" rest
          end_offset ca da "snd (abs_row r)" ?t1 ?t2])
      (simp_all add: factored_def table_advance_def set_rule_def)
  then show "\<exists>p' r' stack'. fde_loop env ca da start end_offset (off, p, r, []) = Some (end_offset, p', r', stack') \<and>
      rule_of r' (unat w) = atCFAPlusOffset (int (leb_nat n) * da)"
    by (auto simp: simulates_def abs_row_def set_rule_def)
  show "\<exists>T. dwarf_table (de_byte_order (ce_data env)) ca da (abs_row r) [offset_insn w n, advance_loc k, restore w] = Some T \<and>
      snd (snd (last T)) (unat w) = rule_of r (unat w)"
    using assms(8-11) by (simp add: dwarf_table_def factored_def table_advance_def set_rule_def abs_row_def)
qed

text \<open>DW_CFA_val_offset is passed over without its operands, which are then taken for instructions.\<close>

lemma val_offset_operands:
  assumes "drop off (de_bytes (ce_data env)) = 0x14 # rest"
  shows "fde_instruction env ca da start (off, p, r, stack) = Some (Suc off, p, r, stack)"
  using GetU8_at [OF assms] by (simp add: fde_instruction_def HandleCommonDwarfOpcode_def fde_only_instruction_def)

text \<open>C36: When the length of a CIE goes beyond the end of the section, the loop over its initial
  instructions never ends once it has read all bytes: it reads zeros, which are no-ops, and the
  offset stays where it is. The index is built with a check that lets the length go one
  byte too far.\<close>

theorem cie_instructions_hang:
  assumes "GetByteSize d \<le> offset" "offset < end_offset"
  shows "cie_instructions d data_align end_offset offset r = None"
proof -
  have step: "HandleCommonDwarfOpcode d 0 0 data_align offset r = Some (True, offset, r)"
    by (simp add: HandleCommonDwarfOpcode_def)
  have u8: "GetU8 d offset = (0, offset)" using assms(1) by (simp add: GetU8_eq)
  have "cie_instructions d data_align end_offset offset r \<noteq> Some y" for y
  proof
    assume returns: "cie_instructions d data_align end_offset offset r = Some y"
    have "\<not> (d = d \<and> data_align = data_align \<and> end_offset = end_offset \<and> offset = offset \<and> r = r)"
      apply (rule cie_instructions.raw_induct [where P = "\<lambda>a b c e f y.
          \<not> (a = d \<and> b = data_align \<and> c = end_offset \<and> e = offset \<and> f = r)", OF _ returns])
      subgoal premises prems for f a b c e g y
        using prems(1) [of d data_align end_offset offset r y] prems(2) step u8 assms(2) by auto
      done
    then show False by simp
  qed
  then show ?thesis by (cases "cie_instructions d data_align end_offset offset r") blast+
qed

text \<open>The index of functions is never finished when an entry that is not a CIE claims the length
  2^32 - 4: the next entry is computed modulo 2^32, and is the same entry again.\<close>

theorem fde_index_loop_hangs:
  assumes "ValidOffsetForDataOfSize (ce_data env) off 8" "off < 2 ^ 32"
    and "entry_header env off = (2 ^ 32 - 4, cie_id, end_offset, False, off')"
    and "off \<le> GetByteSize (ce_data env)" "\<not> (cie_id = 0 \<and> ce_type env = EH)" "cie_id \<noteq> UINT32_MAX"
    and "at = (if ce_type env = DWARF then cie_id else (off + 4 + 2 ^ 32 - cie_id) mod 2 ^ 32)"
    and "at \<le> GetByteSize (ce_data env)" "map_of (cf_cie_map s) at = None"
  shows "fde_index_loop env off s = None"
proof -
  have wrap: "(off mod 2 ^ 32 + (2 ^ 32 - 4) + 4) mod 2 ^ 32 = off" using assms(2) by simp
  have cie: "GetCIE env at s = Some (None, s)" using assms(9) by (simp add: GetCIE_def)
  have "fde_index_loop env off s \<noteq> Some y" for y
  proof
    assume returns: "fde_index_loop env off s = Some y"
    have "\<not> (env = env \<and> off = off \<and> s = s)"
      apply (rule fde_index_loop.raw_induct [where P = "\<lambda>a b c y. \<not> (a = env \<and> b = off \<and> c = s)", OF _ returns])
      subgoal premises prems for f a b c y
        using prems(1) [of env off s y] prems(2) assms(1,2,4-8) cie wrap
        by (auto simp: assms(3) Let_def split: if_splits)
      done
    then show False by simp
  qed
  then show ?thesis by (cases "fde_index_loop env off s") blast+
qed

section \<open>Witnesses\<close>

definition with_bytes :: "u8 list \<Rightarrow> cfi_env" where
  "with_bytes bs = demo_cfi\<lparr>ce_data := DataExtractor_of_bytes bs eByteOrderLittle 8 1\<rparr>"

lemma with_bytes_simps [simp]:
  "bs \<noteq> [] \<Longrightarrow> de_bytes (ce_data (with_bytes bs)) = bs" "platform_ok (ce_platform (with_bytes bs))"
  "bs \<noteq> [] \<Longrightarrow> order_ok (ce_data (with_bytes bs))" "bs \<noteq> [] \<Longrightarrow> de_byte_order (ce_data (with_bytes bs)) = eByteOrderLittle"
  "ce_type (with_bytes bs) = EH"
  by (simp_all add: with_bytes_def DataExtractor_of_bytes_def SetData_bytes_def de_bytes_def order_ok_def)
    (simp_all add: demo_cfi_def x86_64_ok)

lemma restore_takes_first_row_witness:
  "(\<exists>p' r' stack'. fde_loop (with_bytes [0x90, 0x02, 0x41, 0xD0]) 1 (- 8) 0 4 (0, new_UnwindPlan eRegisterKindEHFrame, new_Row, []) =
        Some (4, p', r', stack') \<and> rule_of r' (unat (16 :: u8)) = atCFAPlusOffset (int (leb_nat [0x02]) * - 8)) \<and>
    (\<exists>T. dwarf_table (de_byte_order (ce_data (with_bytes [0x90, 0x02, 0x41, 0xD0]))) 1 (- 8) (abs_row new_Row)
        [offset_insn 16 [0x02], advance_loc 1, restore 16] = Some T \<and>
      snd (snd (last T)) (unat (16 :: u8)) = rule_of new_Row (unat (16 :: u8)))"
  by (rule restore_takes_first_row [where rest = "[]" and k = 1])
    (simp_all add: small_ok_def leb_encoding_def, simp_all add: new_Row_def new_UnwindPlan_def)

lemma cie_instructions_hang_witness:
  "cie_instructions (ce_data (with_bytes [0])) 1 2 1 new_Row = None"
  by (rule cie_instructions_hang) (simp_all add: GetByteSize_def)

lemma fde_index_loop_hangs_witness:
  "fde_index_loop (with_bytes [0xFC, 0xFF, 0xFF, 0xFF, 4, 0, 0, 0]) 0 new_cfi_state = None"
proof (rule fde_index_loop_hangs [where cie_id = 4 and end_offset = 0 and off' = 8 and at = 0])
  show "entry_header (with_bytes [0xFC, 0xFF, 0xFF, 0xFF, 4, 0, 0, 0]) 0 = (2 ^ 32 - 4, 4, 0, False, 8)"
    by (simp add: entry_header_def GetU32_eq GetByteSize_def slice_nat_def order_nat_def Let_def UINT32_MAX_def unat_of_nat)
qed (simp_all add: ValidOffsetForDataOfSize_def BytesLeft_def GetByteSize_def UINT32_MAX_def new_cfi_state_def)

end
