(* ===== verification/LineTable.thy ===== *)
theory LineTable
  imports RangeMap UnwindPlan
begin

text \<open>
  Line tables (\<open>LineTable\<close> and \<open>LineEntry\<close>, source/Symbol/LineTable.cpp and LineEntry.cpp): the rows
  that say which source line the code of a compile unit comes from, their construction
  from the sequences of the debug information, and the lookups by address and by line.

  A table is the list of its rows. The module of the compile unit, its sections and its
  support files are gathered in \<open>line_env\<close>; a row keeps its fields at their width, so the index of
  its file has 11 bits. The calls of \<open>std::lower_bound\<close> and \<open>std::upper_bound\<close> are modelled on
  sorted vectors: the position behind the rows that compare below. Printing is left out. A
  result of \<open>None\<close> that is marked so is the use of a null pointer.
\<close>

section \<open>Rows\<close>

record table_entry =
  te_file_addr :: nat
  te_line :: u32
  te_column :: u16
  te_file_idx :: "11 word"
  te_is_start_of_statement :: bool
  te_is_start_of_basic_block :: bool
  te_is_prologue_end :: bool
  te_is_epilogue_begin :: bool
  te_is_terminal_entry :: bool

definition new_Entry ::
  "nat \<Rightarrow> u32 \<Rightarrow> u16 \<Rightarrow> u16 \<Rightarrow> bool \<Rightarrow> bool \<Rightarrow> bool \<Rightarrow> bool \<Rightarrow> bool \<Rightarrow> table_entry" where
  "new_Entry file_addr line column file_idx start_of_statement start_of_basic_block
       prologue_end epilogue_begin terminal_entry =
     \<lparr>te_file_addr = file_addr, te_line = line, te_column = column, te_file_idx = ucast file_idx,
      te_is_start_of_statement = start_of_statement,
      te_is_start_of_basic_block = start_of_basic_block,
      te_is_prologue_end = prologue_end, te_is_epilogue_begin = epilogue_begin,
      te_is_terminal_entry = terminal_entry\<rparr>"

definition Entry_less :: "table_entry \<Rightarrow> table_entry \<Rightarrow> bool" where
  "Entry_less a b =
     (if te_file_addr a \<noteq> te_file_addr b then te_file_addr a < te_file_addr b
      else if te_is_terminal_entry b \<noteq> te_is_terminal_entry a
        then te_is_terminal_entry b < te_is_terminal_entry a
      else if te_line a \<noteq> te_line b then te_line a < te_line b
      else if te_column a \<noteq> te_column b then te_column a < te_column b
      else if te_is_start_of_statement a \<noteq> te_is_start_of_statement b
        then te_is_start_of_statement a < te_is_start_of_statement b
      else if te_is_start_of_basic_block a \<noteq> te_is_start_of_basic_block b
        then te_is_start_of_basic_block a < te_is_start_of_basic_block b
      else if te_is_prologue_end b \<noteq> te_is_prologue_end a
        then te_is_prologue_end b < te_is_prologue_end a
      else if te_is_epilogue_begin a \<noteq> te_is_epilogue_begin b
        then te_is_epilogue_begin a < te_is_epilogue_begin b
      else if te_file_idx a \<noteq> te_file_idx b then te_file_idx a < te_file_idx b
      else False)"

definition EntryAddressLessThan :: "table_entry \<Rightarrow> table_entry \<Rightarrow> bool" where
  "EntryAddressLessThan lhs rhs \<longleftrightarrow> te_file_addr lhs < te_file_addr rhs"

definition upper_bound :: "('a \<Rightarrow> 'a \<Rightarrow> bool) \<Rightarrow> 'a \<Rightarrow> 'a list \<Rightarrow> nat" where
  "upper_bound lt x es = length (takeWhile (\<lambda>e. \<not> lt x e) es)"

definition insert_at :: "nat \<Rightarrow> 'a list \<Rightarrow> 'a list \<Rightarrow> 'a list" where
  "insert_at pos xs es = take pos es @ xs @ drop pos es"

section \<open>Construction\<close>

definition InsertLineEntry ::
  "table_entry list \<Rightarrow> nat \<Rightarrow> u32 \<Rightarrow> u16 \<Rightarrow> u16 \<Rightarrow> bool \<Rightarrow> bool \<Rightarrow> bool \<Rightarrow> bool \<Rightarrow> bool \<Rightarrow>
     table_entry list" where
  "InsertLineEntry es file_addr line column file_idx start_of_statement start_of_basic_block
       prologue_end epilogue_begin terminal_entry =
     (let entry = new_Entry file_addr line column file_idx start_of_statement
                    start_of_basic_block prologue_end epilogue_begin terminal_entry
      in insert_at (upper_bound Entry_less entry es) [entry] es)"

definition AppendLineEntryToSequence ::
  "table_entry list \<Rightarrow> nat \<Rightarrow> u32 \<Rightarrow> u16 \<Rightarrow> u16 \<Rightarrow> bool \<Rightarrow> bool \<Rightarrow> bool \<Rightarrow> bool \<Rightarrow> bool \<Rightarrow>
     table_entry list" where
  "AppendLineEntryToSequence seq file_addr line column file_idx start_of_statement
       start_of_basic_block prologue_end epilogue_begin terminal_entry =
     (let entry = new_Entry file_addr line column file_idx start_of_statement
                    start_of_basic_block prologue_end epilogue_begin terminal_entry
      in if seq \<noteq> [] \<and> te_file_addr (last seq) = file_addr
         then butlast seq @
           [entry\<lparr>te_is_prologue_end := te_file_idx entry = te_file_idx (last seq)\<rparr>]
         else seq @ [entry])"

text \<open>The loop that moves an insertion behind the sequence it would cut.\<close>

function end_of_sequence :: "table_entry list \<Rightarrow> nat \<Rightarrow> nat" where
  "end_of_sequence es pos =
     (if pos < length es \<and> \<not> te_is_terminal_entry (es ! (pos - 1))
      then end_of_sequence es (pos + 1) else pos)"
  by pat_completeness auto

termination end_of_sequence
  by (relation "measure (\<lambda>(es, pos). length es - pos)") auto

definition InsertSequence :: "table_entry list \<Rightarrow> table_entry list \<Rightarrow> table_entry list" where
  "InsertSequence es seq =
     (if seq = [] then es
      else let entry = hd seq in
        if es = [] \<or> \<not> EntryAddressLessThan entry (last es) then es @ seq
        else let pos = upper_bound Entry_less entry es;
                 pos = (if pos \<noteq> 0 then end_of_sequence es pos else pos)
             in insert_at pos seq es)"

section \<open>Entries for clients\<close>

text \<open>The path of a file; the empty path is the one of a default \<open>FileSpec\<close>.\<close>

type_synonym file_spec = string

record line_env =
  ln_module :: "nat option"
  ln_module_of :: "obj_section \<Rightarrow> nat option"
  ln_sections :: "section_list option"
  ln_support_files :: "file_spec list"

definition GetModule_address :: "line_env \<Rightarrow> address \<Rightarrow> nat option" where
  "GetModule_address env a = Option.bind (ad_section a) (ln_module_of env)"

definition ResolveFileAddress_module :: "line_env \<Rightarrow> nat \<Rightarrow> address \<Rightarrow> bool \<times> address" where
  "ResolveFileAddress_module env vm_addr so_addr =
     (case ln_sections env of
        Some sections \<Rightarrow>
          (sections vm_addr \<noteq> None, ResolveAddressUsingFileSections sections vm_addr)
      | None \<Rightarrow> (False, so_addr))"

definition GetFileSpecAtIndex :: "file_spec list \<Rightarrow> nat \<Rightarrow> file_spec" where
  "GetFileSpecAtIndex files idx = (if idx < length files then files ! idx else '''')"

record line_entry =
  le_range :: address_range
  le_file :: file_spec
  le_original_file :: file_spec
  le_line :: u32
  le_column :: u16
  le_is_start_of_statement :: bool
  le_is_start_of_basic_block :: bool
  le_is_prologue_end :: bool
  le_is_epilogue_begin :: bool
  le_is_terminal_entry :: bool

definition LLDB_INVALID_LINE_NUMBER :: u32 where
  "LLDB_INVALID_LINE_NUMBER = of_nat UINT32_MAX"

definition new_LineEntry :: line_entry where
  "new_LineEntry =
     \<lparr>le_range = new_AddressRange, le_file = '''', le_original_file = '''',
      le_line = LLDB_INVALID_LINE_NUMBER, le_column = 0, le_is_start_of_statement = False,
      le_is_start_of_basic_block = False, le_is_prologue_end = False,
      le_is_epilogue_begin = False, le_is_terminal_entry = False\<rparr>"

definition Clear_LineEntry :: "line_entry \<Rightarrow> line_entry" where
  "Clear_LineEntry le =
     le\<lparr>le_range := new_AddressRange, le_file := '''', le_original_file := '''',
        le_line := LLDB_INVALID_LINE_NUMBER, le_column := 0, le_is_start_of_statement := False,
        le_is_start_of_basic_block := False, le_is_prologue_end := False,
        le_is_epilogue_begin := False, le_is_terminal_entry := False\<rparr>"

definition IsValid_LineEntry :: "line_entry \<Rightarrow> bool" where
  "IsValid_LineEntry le \<longleftrightarrow>
     IsValid_address (ar_base_addr (le_range le)) \<and> le_line le \<noteq> LLDB_INVALID_LINE_NUMBER"

definition ConvertEntryAtIndexToLineEntry ::
  "line_env \<Rightarrow> table_entry list \<Rightarrow> nat \<Rightarrow> line_entry \<Rightarrow> bool \<times> line_entry" where
  "ConvertEntryAtIndexToLineEntry env es idx le =
     (if idx < length es then
        let entry = es ! idx in
        if ln_module env \<noteq> None then
          let (resolved, base) =
                ResolveFileAddress_module env (te_file_addr entry) (ar_base_addr (le_range le));
              le = le\<lparr>le_range := (le_range le)\<lparr>ar_base_addr := base\<rparr>\<rparr>
          in if resolved then
               let byte_size =
                     (if \<not> te_is_terminal_entry entry \<and> (idx + 1) mod 2 ^ 32 < length es
                      then (te_file_addr (es ! ((idx + 1) mod 2 ^ 32)) + 2 ^ 64 - te_file_addr entry)
                             mod 2 ^ 64
                      else 0);
                   file = GetFileSpecAtIndex (ln_support_files env) (unat (te_file_idx entry))
               in (True,
                   le\<lparr>le_range := (le_range le)\<lparr>ar_byte_size := byte_size\<rparr>,
                      le_file := file, le_original_file := file,
                      le_line := te_line entry, le_column := te_column entry,
                      le_is_start_of_statement := te_is_start_of_statement entry,
                      le_is_start_of_basic_block := te_is_start_of_basic_block entry,
                      le_is_prologue_end := te_is_prologue_end entry,
                      le_is_epilogue_begin := te_is_epilogue_begin entry,
                      le_is_terminal_entry := te_is_terminal_entry entry\<rparr>)
             else (False, le)
        else (False, le)
      else (False, le))"

definition GetSize_lines :: "table_entry list \<Rightarrow> nat" where
  "GetSize_lines es = length es mod 2 ^ 32"

definition GetLineEntryAtIndex ::
  "line_env \<Rightarrow> table_entry list \<Rightarrow> nat \<Rightarrow> line_entry \<Rightarrow> bool \<times> line_entry" where
  "GetLineEntryAtIndex env es idx le =
     (if idx < length es then (True, snd (ConvertEntryAtIndexToLineEntry env es idx le))
      else (False, Clear_LineEntry le))"

section \<open>Lookup by address\<close>

text \<open>The first of the rows before \<open>pos\<close> that have the address and end no sequence.\<close>

primrec first_at_address :: "table_entry list \<Rightarrow> nat \<Rightarrow> nat \<Rightarrow> nat" where
  "first_at_address es addr 0 = 0"
| "first_at_address es addr (Suc pos) =
     (if te_file_addr (es ! pos) = addr \<and> \<not> te_is_terminal_entry (es ! pos)
      then first_at_address es addr pos else Suc pos)"

text \<open>The position that the search by address ends at; \<open>None\<close> is the end of the table, or the
  early return for an address in front of it.\<close>

definition find_position :: "table_entry list \<Rightarrow> nat \<Rightarrow> nat option" where
  "find_position es addr =
     (let pos = lower_bound (\<lambda>e. te_file_addr e < addr) es
      in if pos = length es then None
         else if pos \<noteq> 0 then
           (if te_file_addr (es ! pos) \<noteq> addr then Some (pos - 1)
            else
              let pos = (if te_is_terminal_entry (es ! pos)
                         then (if pos + 1 \<noteq> length es \<and> te_file_addr (es ! (pos + 1)) \<noteq> addr
                               then length es else pos + 1)
                         else pos)
              in if pos \<noteq> length es then Some (first_at_address es addr pos) else None)
         else if addr < te_file_addr (es ! pos) then None
         else Some pos)"

definition FindLineEntryByAddress ::
  "line_env \<Rightarrow> table_entry list \<Rightarrow> address \<Rightarrow> line_entry \<Rightarrow> bool \<times> line_entry \<times> nat" where
  "FindLineEntryByAddress env es so_addr le =
     (if GetModule_address env so_addr = ln_module env \<and> GetFileAddress so_addr \<noteq> LLDB_INVALID_ADDRESS
      then case find_position es (GetFileAddress so_addr) of
          Some pos \<Rightarrow>
            if \<not> te_is_terminal_entry (es ! pos)
            then let match_idx = pos mod 2 ^ 32;
                     (success, le) = ConvertEntryAtIndexToLineEntry env es match_idx le
                 in (success, le, if success then match_idx else UINT32_MAX)
            else (False, le, UINT32_MAX)
        | None \<Rightarrow> (False, le, UINT32_MAX)
      else (False, le, UINT32_MAX))"

section \<open>Lookup by line\<close>

text \<open>The search from an index on, with the best row so far; \<open>in_file\<close> is the test of the file.
  The result is the index of the row, if there is one.\<close>

function line_loop ::
  "(table_entry \<Rightarrow> bool) \<Rightarrow> table_entry list \<Rightarrow> u32 \<Rightarrow> bool \<Rightarrow> nat \<Rightarrow> nat \<Rightarrow> nat option" where
  "line_loop in_file es line exact idx best_match =
     (if idx < length es then
        (if te_is_terminal_entry (es ! idx) \<or> \<not> in_file (es ! idx) \<or> te_line (es ! idx) < line
         then line_loop in_file es line exact (idx + 1) best_match
         else if te_line (es ! idx) = line then Some idx
         else if \<not> exact \<and>
                 (best_match = UINT32_MAX \<or> te_line (es ! idx) < te_line (es ! best_match))
         then line_loop in_file es line exact (idx + 1) idx
         else line_loop in_file es line exact (idx + 1) best_match)
      else if best_match \<noteq> UINT32_MAX then Some best_match else None)"
  by pat_completeness auto

termination line_loop
  by (relation "measure (\<lambda>(in_file, es, line, exact, idx, best). length es - idx)") auto

declare line_loop.simps [simp del] end_of_sequence.simps [simp del]

text \<open>The entry is written through the pointer when a row is found and the pointer is not null.\<close>

definition found_line ::
  "line_env \<Rightarrow> table_entry list \<Rightarrow> nat option \<Rightarrow> line_entry option \<Rightarrow> nat \<times> line_entry option" where
  "found_line env es found le_ptr =
     (case found of
        Some idx \<Rightarrow>
          (idx mod 2 ^ 32,
           map_option (\<lambda>le. snd (ConvertEntryAtIndexToLineEntry env es (idx mod 2 ^ 32) le)) le_ptr)
      | None \<Rightarrow> (UINT32_MAX, le_ptr))"

definition FindLineEntryIndexByFileIndexes ::
  "line_env \<Rightarrow> table_entry list \<Rightarrow> nat \<Rightarrow> u32 list \<Rightarrow> u32 \<Rightarrow> bool \<Rightarrow> line_entry option \<Rightarrow>
     nat \<times> line_entry option" where
  "FindLineEntryIndexByFileIndexes env es start_idx file_indexes line exact le_ptr =
     found_line env es
       (line_loop (\<lambda>e. ucast (te_file_idx e) \<in> set file_indexes) es line exact start_idx UINT32_MAX)
       le_ptr"

definition FindLineEntryIndexByFileIndex ::
  "line_env \<Rightarrow> table_entry list \<Rightarrow> nat \<Rightarrow> u32 \<Rightarrow> u32 \<Rightarrow> bool \<Rightarrow> line_entry option \<Rightarrow>
     nat \<times> line_entry option" where
  "FindLineEntryIndexByFileIndex env es start_idx file_idx line exact le_ptr =
     found_line env es
       (line_loop (\<lambda>e. ucast (te_file_idx e) = file_idx) es line exact start_idx UINT32_MAX) le_ptr"

text \<open>The list of contexts is the list of their line entries. The entry of the context that is
  appended is reused, so it keeps what a failed conversion left there.\<close>

primrec file_lines_loop ::
  "line_env \<Rightarrow> table_entry list \<Rightarrow> u32 \<Rightarrow> nat list \<Rightarrow> line_entry \<Rightarrow> line_entry list \<Rightarrow> line_entry list"
where
  "file_lines_loop env es file_idx [] le sc_list = sc_list"
| "file_lines_loop env es file_idx (idx # idxs) le sc_list =
     (if te_is_terminal_entry (es ! idx) \<or> ucast (te_file_idx (es ! idx)) \<noteq> file_idx
      then file_lines_loop env es file_idx idxs le sc_list
      else let (ok, le) = ConvertEntryAtIndexToLineEntry env es (idx mod 2 ^ 32) le
           in file_lines_loop env es file_idx idxs le (if ok then sc_list @ [le] else sc_list))"

definition FineLineEntriesForFileIndex ::
  "line_env \<Rightarrow> table_entry list \<Rightarrow> u32 \<Rightarrow> bool \<Rightarrow> line_entry list \<Rightarrow> nat \<times> line_entry list" where
  "FineLineEntriesForFileIndex env es file_idx keep sc_list =
     (let sc_list = (if keep then sc_list else []);
          sc_list' = file_lines_loop env es file_idx [0 ..< length es] new_LineEntry sc_list
      in (length sc_list' - length sc_list, sc_list'))"

section \<open>Ranges of code\<close>

definition SetRangeEnd :: "range \<Rightarrow> nat \<Rightarrow> range" where
  "SetRangeEnd r end_addr =
     (if end_addr > rg_base r then r\<lparr>rg_size := end_addr - rg_base r\<rparr> else r\<lparr>rg_size := 0\<rparr>)"

primrec contiguous_loop :: "table_entry list \<Rightarrow> range \<Rightarrow> range list \<Rightarrow> range list" where
  "contiguous_loop [] rg ranges = ranges"
| "contiguous_loop (entry # es) rg ranges =
     (if te_is_terminal_entry entry
      then if rg_base rg \<noteq> LLDB_INVALID_ADDRESS
           then contiguous_loop es \<lparr>rg_base = LLDB_INVALID_ADDRESS, rg_size = 0\<rparr>
                  (ranges @ [SetRangeEnd rg (te_file_addr entry)])
           else contiguous_loop es rg ranges
      else if rg_base rg = LLDB_INVALID_ADDRESS
      then contiguous_loop es (SetRangeBase rg (te_file_addr entry)) ranges
      else contiguous_loop es rg ranges)"

definition GetContiguousFileAddressRanges ::
  "table_entry list \<Rightarrow> range list \<Rightarrow> bool \<Rightarrow> nat \<times> range list" where
  "GetContiguousFileAddressRanges es file_ranges keep =
     (let file_ranges = (if keep then file_ranges else []);
          ranges = contiguous_loop es \<lparr>rg_base = LLDB_INVALID_ADDRESS, rg_size = 0\<rparr> file_ranges
      in (length ranges - length file_ranges, ranges))"

text \<open>The range of an entry and of the entries of the same line behind it. What the symbol
  context of an address finds is a parameter; the search goes on while the
  ranges join, so it is partial.\<close>

definition Slide :: "address \<Rightarrow> nat \<Rightarrow> address" where
  "Slide a offset =
     (if ad_offset a \<noteq> LLDB_INVALID_ADDRESS then a\<lparr>ad_offset := (ad_offset a + offset) mod 2 ^ 64\<rparr>
      else a)"

partial_function (option) same_line_loop ::
  "(address \<Rightarrow> line_entry) \<Rightarrow> line_entry \<Rightarrow> address_range \<Rightarrow> address_range option" where
  "same_line_loop context_of le complete =
     (let next = context_of (Slide (ar_base_addr complete) (ar_byte_size complete))
      in if IsValid_LineEntry next \<and> ar_byte_size (le_range next) > 0 \<and>
            le_original_file le = le_original_file next \<and>
            (le_line next = 0 \<or> le_line le = le_line next)
         then same_line_loop context_of le
                (complete\<lparr>ar_byte_size :=
                   (ar_byte_size complete + ar_byte_size (le_range next)) mod 2 ^ 64\<rparr>)
         else Some complete)"

definition GetSameLineContiguousAddressRange ::
  "(address \<Rightarrow> line_entry) \<Rightarrow> line_entry \<Rightarrow> address_range option" where
  "GetSameLineContiguousAddressRange context_of le = same_line_loop context_of le (le_range le)"

section \<open>Comparison\<close>

definition CompareFileAddress :: "address \<Rightarrow> address \<Rightarrow> int" where
  "CompareFileAddress a b =
     (if GetFileAddress a < GetFileAddress b then - 1
      else if GetFileAddress a > GetFileAddress b then 1 else 0)"

text \<open>The comparison of file names is a parameter.\<close>

definition Compare_LineEntry ::
  "(file_spec \<Rightarrow> file_spec \<Rightarrow> int) \<Rightarrow> line_entry \<Rightarrow> line_entry \<Rightarrow> int" where
  "Compare_LineEntry compare_files a b =
     (let r = CompareFileAddress (ar_base_addr (le_range a)) (ar_base_addr (le_range b))
      in if r \<noteq> 0 then r
         else if ar_byte_size (le_range a) < ar_byte_size (le_range b) then - 1
         else if ar_byte_size (le_range a) > ar_byte_size (le_range b) then 1
         else if le_is_terminal_entry a > le_is_terminal_entry b then - 1
         else if le_is_terminal_entry a < le_is_terminal_entry b then 1
         else if le_line a < le_line b then - 1
         else if le_line a > le_line b then 1
         else if le_column a < le_column b then - 1
         else if le_column a > le_column b then 1
         else compare_files (le_file a) (le_file b))"

section \<open>Linking\<close>

text \<open>The map from ranges of an object file to where the linker put them
  (\<open>RangeDataVector\<close> of include/lldb/Core/RangeMap.h).\<close>

record file_range = range +
  fr_data :: nat

abbreviation range_of :: "file_range \<Rightarrow> range" where
  "range_of e \<equiv> range.truncate e"

primrec first_range_containing :: "file_range list \<Rightarrow> nat \<Rightarrow> nat \<Rightarrow> nat" where
  "first_range_containing m addr 0 = 0"
| "first_range_containing m addr (Suc pos) =
     (if Contains (range_of (m ! pos)) addr then first_range_containing m addr pos else Suc pos)"

definition FindEntryThatContains_range :: "file_range list \<Rightarrow> nat \<Rightarrow> file_range option" where
  "FindEntryThatContains_range m addr =
     (let pos = first_range_containing m addr (lower_bound (\<lambda>e. rg_base e < addr) m)
      in if pos < length m \<and> Contains (range_of (m ! pos)) addr then Some (m ! pos) else None)"

definition relink :: "file_range \<Rightarrow> nat \<Rightarrow> nat" where
  "relink r addr = (addr + 2 ^ 64 - rg_base r + fr_data r) mod 2 ^ 64"

record link_state =
  lk_table :: "table_entry list"
  lk_sequence :: "table_entry list"
  lk_range :: "file_range option"
  lk_prev_range :: "file_range option"
  lk_prev_linked :: bool

text \<open>The end of the previous entry inside the range it was linked with.\<close>

definition linked_end :: "file_range \<Rightarrow> nat \<Rightarrow> nat" where
  "linked_end prev addr = relink prev (min addr (GetRangeEnd (range_of prev)))"

text \<open>Ends the sequence built so far at the end of its last entry.\<close>

definition terminate_previous ::
  "bool \<Rightarrow> nat \<Rightarrow> file_range option \<Rightarrow> nat \<Rightarrow> link_state \<Rightarrow> link_state option" where
  "terminate_previous terminate prev_end prev_range addr st =
     (if terminate \<and> lk_sequence st \<noteq> [] then do {
        prev_end \<leftarrow> (if prev_end = LLDB_INVALID_ADDRESS
                     then map_option (\<lambda>prev. linked_end prev addr) prev_range
                     else Some prev_end);
        let seq = lk_sequence st @
          [(last (lk_sequence st))\<lparr>te_file_addr := prev_end, te_is_terminal_entry := True\<rparr>];
        Some (st\<lparr>lk_table := InsertSequence (lk_table st) seq, lk_sequence := []\<rparr>) }
      else Some st)"

definition link_current :: "file_range option \<Rightarrow> table_entry \<Rightarrow> link_state \<Rightarrow> link_state" where
  "link_current rg entry st =
     (let seq = (case rg of
                   Some r \<Rightarrow> lk_sequence st @ [entry\<lparr>te_file_addr := relink r (te_file_addr entry)\<rparr>]
                 | None \<Rightarrow> lk_sequence st)
      in if seq \<noteq> [] \<and> te_is_terminal_entry (last seq)
         then st\<lparr>lk_table := InsertSequence (lk_table st) seq, lk_sequence := [],
                 lk_prev_linked := False\<rparr>
         else st\<lparr>lk_sequence := seq, lk_prev_linked := rg \<noteq> None\<rparr>)"

definition link_step :: "file_range list \<Rightarrow> table_entry \<Rightarrow> link_state \<Rightarrow> link_state option" where
  "link_step m entry st =
     (let addr = te_file_addr entry;
          lookup = (addr + 2 ^ 64 - (if te_is_terminal_entry entry then 1 else 0)) mod 2 ^ 64;
          changed = (case lk_range st of None \<Rightarrow> True | Some r \<Rightarrow> \<not> Contains (range_of r) lookup);
          prev_range = (if changed then lk_range st else lk_prev_range st);
          range = (if changed then FindEntryThatContains_range m lookup else lk_range st);
          (terminate, prev_end) =
            (case range of
               Some r \<Rightarrow>
                 (case prev_range of
                    Some prev \<Rightarrow>
                      if changed
                      then (linked_end prev addr \<noteq> relink r addr \<and> lk_prev_linked st,
                            linked_end prev addr)
                      else (False, LLDB_INVALID_ADDRESS)
                  | None \<Rightarrow> (False, LLDB_INVALID_ADDRESS))
             | None \<Rightarrow>
                 (lk_prev_linked st \<and> lk_sequence st \<noteq> [] \<and>
                    \<not> te_is_terminal_entry (last (lk_sequence st)),
                  LLDB_INVALID_ADDRESS))
      in map_option (link_current range entry)
           (terminate_previous terminate prev_end prev_range addr
              (st\<lparr>lk_range := range, lk_prev_range := prev_range\<rparr>)))"

primrec link_loop :: "file_range list \<Rightarrow> table_entry list \<Rightarrow> link_state \<Rightarrow> link_state option" where
  "link_loop m [] st = Some st"
| "link_loop m (entry # es) st = Option.bind (link_step m entry st) (link_loop m es)"

text \<open>The linked table, if any entry could be linked.\<close>

definition LinkLineTable ::
  "table_entry list \<Rightarrow> file_range list \<Rightarrow> table_entry list option option" where
  "LinkLineTable es m = do {
     st \<leftarrow> link_loop m es
            \<lparr>lk_table = [], lk_sequence = [], lk_range = None, lk_prev_range = None,
             lk_prev_linked = False\<rparr>;
     Some (if lk_table st = [] then None else Some (lk_table st)) }"

end
