(* ===== verification/LineSequences.thy ===== *)
theory LineSequences
  imports LineTable "HOL-Library.Multiset"
begin

text \<open>
  What a line table means: the spans of addresses between a row and the next one
  that belong to a line. The sequences of a table, the abstract lookup by address, and the
  theorems that the operations of LineTable.cpp implement it.
\<close>

section \<open>Spans\<close>

text \<open>A row and the address at which it ends: the address of the row behind it. A row that ends
  a sequence has none.\<close>

definition spans :: "table_entry list \<Rightarrow> (table_entry \<times> nat) list" where
  "spans es = [(a, te_file_addr b). (a, b) \<leftarrow> zip es (tl es), \<not> te_is_terminal_entry a]"

definition closed :: "table_entry list \<Rightarrow> bool" where
  "closed es \<longleftrightarrow> es = [] \<or> te_is_terminal_entry (last es)"

lemma spans_simps [simp]:
  "spans [] = []"
  "spans [a] = []"
  "spans (a # b # es) =
     (if te_is_terminal_entry a then [] else [(a, te_file_addr b)]) @ spans (b # es)"
  by (simp_all add: spans_def)

lemma closed_simps [simp]:
  "closed []"
  "es \<noteq> [] \<Longrightarrow> closed es \<longleftrightarrow> te_is_terminal_entry (last es)"
  by (simp_all add: closed_def)

lemma spans_append: "closed es \<Longrightarrow> spans (es @ fs) = spans es @ spans fs"
proof (induction es rule: induct_list012)
  case (2 x)
  then show ?case by (cases fs) simp_all
next
  case (3 x y zs)
  then show ?case by simp
qed simp

lemma spans_snoc:
  "spans (es @ [e]) =
     spans es @ (if es \<noteq> [] \<and> \<not> te_is_terminal_entry (last es) then [(last es, te_file_addr e)] else [])"
  by (induction es rule: induct_list012) simp_all

lemma closed_append: "closed fs \<Longrightarrow> closed es \<Longrightarrow> closed (es @ fs)"
  by (cases "fs = []") (simp_all add: closed_def)

section \<open>Inserting a sequence\<close>

lemma end_of_sequence_bounds:
  assumes "0 < pos" "pos \<le> length es"
  shows "pos \<le> end_of_sequence es pos \<and> end_of_sequence es pos \<le> length es \<and>
    (end_of_sequence es pos = length es \<or> te_is_terminal_entry (es ! (end_of_sequence es pos - 1)))"
  using assms
proof (induction es pos rule: end_of_sequence.induct)
  case (1 es pos)
  show ?case
  proof (cases "pos < length es \<and> \<not> te_is_terminal_entry (es ! (pos - 1))")
    case True
    then show ?thesis
      using 1 end_of_sequence.simps [of es pos] by simp
  next
    case False
    then show ?thesis
      using 1(3) end_of_sequence.simps [of es pos] by auto
  qed
qed

lemma upper_bound_le: "upper_bound lt x es \<le> length es"
  by (simp add: upper_bound_def length_takeWhile_le)

text \<open>A sequence is inserted where another one ends.\<close>

lemma InsertSequence_split:
  assumes "closed es"
  obtains xs ys where "es = xs @ ys" "closed xs" "InsertSequence es seq = xs @ seq @ ys"
proof -
  consider "seq = []" | "seq \<noteq> []" "es = [] \<or> \<not> EntryAddressLessThan (hd seq) (last es)"
    | "seq \<noteq> []" "es \<noteq> []" "EntryAddressLessThan (hd seq) (last es)" by blast
  then show ?thesis
  proof cases
    case 1
    then show ?thesis using that [of "[]" es] by (simp add: InsertSequence_def)
  next
    case 2
    then show ?thesis using that [of es "[]"] assms by (simp add: InsertSequence_def)
  next
    case 3
    define pos where "pos = upper_bound Entry_less (hd seq) es"
    define q where "q = (if pos \<noteq> 0 then end_of_sequence es pos else pos)"
    have ins: "InsertSequence es seq = take q es @ seq @ drop q es"
      using 3 by (simp add: InsertSequence_def insert_at_def pos_def q_def Let_def)
    have "closed (take q es)"
    proof (cases "pos = 0")
      case True
      then show ?thesis by (simp add: q_def)
    next
      case False
      have b: "pos \<le> q" "q \<le> length es" "q = length es \<or> te_is_terminal_entry (es ! (q - 1))"
        using end_of_sequence_bounds [of pos es] upper_bound_le [of Entry_less "hd seq" es] False
        by (simp_all add: q_def pos_def)
      have "last (take q es) = es ! (q - 1)" if "q \<le> length es" "0 < q"
        using that by (subst last_conv_nth) (auto simp: min_def)
      then show ?thesis
        using b False assms 3 by (auto simp: closed_def)
    qed
    then show ?thesis using that [of "take q es" "drop q es"] ins by simp
  qed
qed

lemma InsertSequence_spans:
  assumes "closed es" "closed seq"
  shows "mset (spans (InsertSequence es seq)) = mset (spans es) + mset (spans seq)"
    and "closed (InsertSequence es seq)"
proof -
  obtain xs ys where s: "es = xs @ ys" "closed xs" "InsertSequence es seq = xs @ seq @ ys"
    using InsertSequence_split [OF assms(1)] .
  have ys: "closed ys"
    using assms(1) s(1) by (cases "ys = []") (simp_all add: closed_def)
  show "mset (spans (InsertSequence es seq)) = mset (spans es) + mset (spans seq)"
    using s assms(2) by (simp add: spans_append)
  show "closed (InsertSequence es seq)"
    using s assms(2) ys by (simp add: closed_append)
qed

section \<open>Linking\<close>

definition map_ok_link :: "file_range list \<Rightarrow> bool" where
  "map_ok_link m \<longleftrightarrow> separated (map range_of m)"

text \<open>What becomes of a span: it is kept when it starts in a mapped range, cut to that range,
  and moved with it.\<close>

definition link_span :: "file_range list \<Rightarrow> table_entry \<times> nat \<Rightarrow> (table_entry \<times> nat) list" where
  "link_span m = (\<lambda>(e, end_addr).
     (case List.find (\<lambda>r. Contains (range_of r) (te_file_addr e)) m of
        Some r \<Rightarrow> [(e\<lparr>te_file_addr := relink r (te_file_addr e)\<rparr>,
                    relink r (min end_addr (rg_base r + rg_size r)))]
      | None \<Rightarrow> []))"

lemma truncate_range [simp]:
  "rg_base (range_of e) = rg_base e" "rg_size (range_of e) = rg_size e"
  by (simp_all add: range.truncate_def)

lemma find_separated:
  assumes "map_ok_link m" "r \<in> set m" "Contains (range_of r) a"
  shows "List.find (\<lambda>r. Contains (range_of r) a) m = Some r"
proof -
  have "i = j" if "i < length m" "j < length m" "Contains (range_of (m ! i)) a"
    "Contains (range_of (m ! j)) a" for i j
  proof -
    have *: False if "i < j" "j < length m" "Contains (range_of (m ! i)) a"
      "Contains (range_of (m ! j)) a" for i j
    proof -
      have "before (range_of (m ! i)) (range_of (m ! j))"
        using assms(1) that(1,2) by (simp add: map_ok_link_def separated_def sorted_wrt_iff_nth_less)
      moreover have "range_ok (range_of (m ! i))" "range_ok (range_of (m ! j))"
        using assms(1) that(1,2) by (simp_all add: map_ok_link_def separated_def)
      ultimately show False
        using that(3,4) by (auto simp: ranges before_def cells_of_def)
    qed
    show ?thesis using * [of i j] * [of j i] that by (cases i j rule: linorder_cases) auto
  qed
  then show ?thesis
    using assms(2,3) unfolding find_Some_iff in_set_conv_nth by (metis less_trans nat_neq_iff)
qed

lemma FindEntryThatContains_range_eq:
  assumes "map_ok_link m"
  shows "FindEntryThatContains_range m a = List.find (\<lambda>r. Contains (range_of r) a) m"
proof -
  define n where "n = lower_bound (\<lambda>e. rg_base e < a) m"
  define p where "p = first_range_containing m a n"
  have first: "first_range_containing m a n \<le> n \<and>
      (\<forall>i. first_range_containing m a n \<le> i \<and> i < n \<longrightarrow> Contains (range_of (m ! i)) a)" for n
    by (induction n) (auto simp: le_Suc_eq less_Suc_eq)
  have stop: "0 < first_range_containing m a n \<Longrightarrow>
      \<not> Contains (range_of (m ! (first_range_containing m a n - 1))) a" for n
    by (induction n) auto
  have n: "n \<le> length m" "\<And>i. i < n \<Longrightarrow> rg_base (m ! i) < a" "n < length m \<Longrightarrow> a \<le> rg_base (m ! n)"
    using lower_bound_props [where lt = "\<lambda>e. rg_base e < a" and es = m] by (auto simp: n_def not_less)
  show ?thesis
  proof (cases "p < length m \<and> Contains (range_of (m ! p)) a")
    case True
    then show ?thesis
      using find_separated [OF assms, of "m ! p" a]
      by (simp add: FindEntryThatContains_range_def n_def [symmetric] p_def [symmetric])
  next
    case False
    have "\<not> Contains (range_of r) a" if r: "r \<in> set m" for r
    proof
      assume c: "Contains (range_of r) a"
      obtain i where i: "i < length m" "r = m ! i" using r by (auto simp: in_set_conv_nth)
      have sep: "sorted_wrt before (map range_of m)" "\<And>i. i < length m \<Longrightarrow> range_ok (range_of (m ! i))"
        using assms by (simp_all add: map_ok_link_def separated_def)
      have lt: "rg_base (m ! i) + rg_size (m ! i) \<le> rg_base (m ! j)" if "i < j" "j < length m" for i j
        using sep(1) that by (simp add: sorted_wrt_iff_nth_less before_def)
      have c': "rg_base (m ! i) \<le> a" "a < rg_base (m ! i) + rg_size (m ! i)"
        using c i sep(2) by (simp_all add: ranges cells_of_def)
      have "i \<le> n"
      proof (rule ccontr)
        assume "\<not> i \<le> n"
        with lt [of n i] n(3) i c' sep(2) [of n] show False by (simp add: range_ok_def)
      qed
      have "p \<le> n" "\<forall>i. p \<le> i \<and> i < n \<longrightarrow> Contains (range_of (m ! i)) a"
        using first [of n] by (simp_all add: p_def)
      moreover have "n \<noteq> p \<or> i \<noteq> n" using False c i by auto
      moreover have "i \<noteq> p" using False c i by auto
      moreover have "p < i \<Longrightarrow> False"
      proof -
        assume "p < i"
        then have "Contains (range_of (m ! p)) a" "p < length m"
          using first [of n] \<open>i \<le> n\<close> i by (auto simp: p_def)
        with False show False by simp
      qed
      moreover have "i < p \<Longrightarrow> False"
      proof -
        assume "i < p"
        then have "i \<noteq> p - 1" using stop [of n] c i by (auto simp: p_def)
        with \<open>i < p\<close> have "i < p - 1" by simp
        moreover have "p - 1 < n" using \<open>p \<le> n\<close> \<open>i < p\<close> by simp
        ultimately show False
          using lt [of i "p - 1"] n(1) n(2) [of "p - 1"] c' by simp
      qed
      ultimately show False by (cases i p rule: linorder_cases) auto
    qed
    then have "List.find (\<lambda>r. Contains (range_of r) a) m = None" by (simp add: find_None_iff)
    with False show ?thesis
      by (simp add: FindEntryThatContains_range_def n_def [symmetric] p_def [symmetric])
  qed
qed

text \<open>The state of the loop behind the rows \<open>done\<close>: the spans they have, but for the last row,
  are in the table and in the sequence.\<close>

definition linked_so_far :: "file_range list \<Rightarrow> table_entry list \<Rightarrow> link_state \<Rightarrow> bool" where
  "linked_so_far m rows st \<longleftrightarrow>
     mset (spans (lk_table st)) + mset (spans (lk_sequence st)) =
       mset (concat (map (link_span m) (spans rows))) \<and>
     closed (lk_table st) \<and>
     (lk_prev_linked st \<longleftrightarrow> lk_sequence st \<noteq> []) \<and>
     (\<forall>r. lk_range st = Some r \<longrightarrow> r \<in> set m) \<and>
     (if closed rows then lk_sequence st = []
      else case List.find (\<lambda>r. Contains (range_of r) (te_file_addr (last rows))) m of
             None \<Rightarrow> lk_sequence st = []
           | Some r \<Rightarrow> lk_range st = Some r \<and> lk_sequence st \<noteq> [] \<and>
               last (lk_sequence st) = (last rows)\<lparr>te_file_addr := relink r (te_file_addr (last rows))\<rparr>)"

lemma linked_end_inside:
  assumes "range_ok (range_of r)"
    "Contains (range_of r) ((te_file_addr e + 2 ^ 64 - (if te_is_terminal_entry e then 1 else 0)) mod 2 ^ 64)"
    "te_file_addr e < 2 ^ 64"
  shows "linked_end r (te_file_addr e) = relink r (te_file_addr e)"
proof -
  have end_addr: "GetRangeEnd (range_of r) = rg_base r + rg_size r" "rg_base r + rg_size r < 2 ^ 64"
    using assms(1) by (simp_all add: range_end) (simp add: range_ok_def)
  have "te_file_addr e \<le> rg_base r + rg_size r"
  proof (cases "te_is_terminal_entry e")
    case True
    show ?thesis
    proof (cases "te_file_addr e")
      case (Suc n)
      then have "(te_file_addr e + 2 ^ 64 - 1) mod 2 ^ 64 = n" using assms(3) by simp
      then show ?thesis using assms(2) True end_addr Suc by (simp add: Contains_def)
    qed simp
  next
    case False
    then show ?thesis using assms(2,3) end_addr by (simp add: Contains_def)
  qed
  then show ?thesis by (simp add: linked_end_def end_addr min_def)
qed

text \<open>The row \<open>e\<close> is linked when the sequence built so far has received the span of the row
  before.\<close>

lemma link_current_ok:
  assumes "mset (spans (lk_table st)) + mset (spans (lk_sequence st @ added)) =
        mset (concat (map (link_span m) (spans (rows @ [e]))))"
    and "closed (lk_table st)" "lk_range st = rg" "\<forall>r. rg = Some r \<longrightarrow> r \<in> set m"
    and "added = (case rg of None \<Rightarrow> [] | Some r \<Rightarrow> [e\<lparr>te_file_addr := relink r (te_file_addr e)\<rparr>])"
    and "rg = None \<Longrightarrow> lk_sequence st = []"
    and "\<not> te_is_terminal_entry e \<Longrightarrow>
        List.find (\<lambda>r. Contains (range_of r) (te_file_addr e)) m = rg"
  shows "linked_so_far m (rows @ [e]) (link_current rg e st)"
proof (cases rg)
  case None
  then show ?thesis
    using assms by (simp add: linked_so_far_def link_current_def)
next
  case (Some r)
  let ?seq = "lk_sequence st @ [e\<lparr>te_file_addr := relink r (te_file_addr e)\<rparr>]"
  show ?thesis
  proof (cases "te_is_terminal_entry e")
    case True
    then have "closed ?seq" by simp
    then show ?thesis
      using assms Some True InsertSequence_spans [OF assms(2), of ?seq]
      by (simp add: linked_so_far_def link_current_def)
  next
    case False
    then show ?thesis
      using assms Some by (simp add: linked_so_far_def link_current_def)
  qed
qed

lemma spans_closing:
  "seq \<noteq> [] \<Longrightarrow> \<not> te_is_terminal_entry (last seq) \<Longrightarrow>
   spans (seq @ [x]) = spans seq @ [(last seq, te_file_addr x)]"
  by (simp add: spans_snoc)

lemma link_step_ok:
  assumes inv: "linked_so_far m rows st" and m: "map_ok_link m" and e: "te_file_addr e < 2 ^ 64"
  shows "\<exists>st'. link_step m e st = Some st' \<and> linked_so_far m (rows @ [e]) st'"
proof -
  define lookup where "lookup = (te_file_addr e + 2 ^ 64 - (if te_is_terminal_entry e then 1 else 0)) mod 2 ^ 64"
  define changed where
    "changed = (case lk_range st of None \<Rightarrow> True | Some r \<Rightarrow> \<not> Contains (range_of r) lookup)"
  define rg where "rg = List.find (\<lambda>r. Contains (range_of r) lookup) m"
  define prev where "prev = (if changed then lk_range st else lk_prev_range st)"
  let ?st = "st\<lparr>lk_range := rg, lk_prev_range := prev\<rparr>"
  have inv_spans: "mset (spans (lk_table st)) + mset (spans (lk_sequence st)) =
        mset (concat (map (link_span m) (spans rows)))"
    and inv_closed: "closed (lk_table st)"
    and inv_linked: "lk_prev_linked st \<longleftrightarrow> lk_sequence st \<noteq> []"
    and inv_m: "\<And>r. lk_range st = Some r \<Longrightarrow> r \<in> set m"
    and inv_last: "if closed rows then lk_sequence st = []
        else case List.find (\<lambda>r. Contains (range_of r) (te_file_addr (last rows))) m of
               None \<Rightarrow> lk_sequence st = []
             | Some r \<Rightarrow> lk_range st = Some r \<and> lk_sequence st \<noteq> [] \<and>
                 last (lk_sequence st) = (last rows)\<lparr>te_file_addr := relink r (te_file_addr (last rows))\<rparr>"
    using inv by (simp_all add: linked_so_far_def)
  have rg: "(if changed then FindEntryThatContains_range m lookup else lk_range st) = rg"
    using find_separated [OF m inv_m] FindEntryThatContains_range_eq [OF m]
    by (cases "lk_range st") (auto simp: changed_def rg_def)
  have in_m: "\<forall>r. rg = Some r \<longrightarrow> r \<in> set m \<and> Contains (range_of r) lookup"
    unfolding rg_def by (auto simp: find_Some_iff in_set_conv_nth)
  have no_end: "\<not> te_is_terminal_entry e \<Longrightarrow>
      List.find (\<lambda>r. Contains (range_of r) (te_file_addr e)) m = rg"
    using e by (simp add: rg_def lookup_def)
  let ?added = "case rg of None \<Rightarrow> [] | Some r \<Rightarrow> [e\<lparr>te_file_addr := relink r (te_file_addr e)\<rparr>]"
  have step: "link_step m e st =
      map_option (link_current rg e) (terminate_previous t pe prev (te_file_addr e) ?st)"
    if "(case rg of
           Some r \<Rightarrow>
             (case prev of
                Some p \<Rightarrow> if changed
                  then (linked_end p (te_file_addr e) \<noteq> relink r (te_file_addr e) \<and> lk_prev_linked st,
                        linked_end p (te_file_addr e))
                  else (False, LLDB_INVALID_ADDRESS)
              | None \<Rightarrow> (False, LLDB_INVALID_ADDRESS))
         | None \<Rightarrow>
             (lk_prev_linked st \<and> lk_sequence st \<noteq> [] \<and> \<not> te_is_terminal_entry (last (lk_sequence st)),
              LLDB_INVALID_ADDRESS)) = (t, pe)" for t pe
    unfolding link_step_def Let_def lookup_def [symmetric] changed_def [symmetric] rg
      prev_def [symmetric] that by simp
  obtain t pe where tp: "(case rg of
           Some r \<Rightarrow>
             (case prev of
                Some p \<Rightarrow> if changed
                  then (linked_end p (te_file_addr e) \<noteq> relink r (te_file_addr e) \<and> lk_prev_linked st,
                        linked_end p (te_file_addr e))
                  else (False, LLDB_INVALID_ADDRESS)
              | None \<Rightarrow> (False, LLDB_INVALID_ADDRESS))
         | None \<Rightarrow>
             (lk_prev_linked st \<and> lk_sequence st \<noteq> [] \<and> \<not> te_is_terminal_entry (last (lk_sequence st)),
              LLDB_INVALID_ADDRESS)) = (t, pe)" by (rule prod.exhaust)
  note step = step [OF tp]
  show ?thesis
  proof (cases "lk_sequence st = []")
    case True
    have "terminate_previous t pe prev (te_file_addr e) ?st = Some ?st"
      using True by (simp add: terminate_previous_def)
    moreover have "linked_so_far m (rows @ [e]) (link_current rg e ?st)"
    proof (rule link_current_ok [where added = ?added])
      have "concat (map (link_span m) (spans (rows @ [e]))) = concat (map (link_span m) (spans rows))"
        using inv_last True
        by (cases "closed rows") (simp_all add: closed_def spans_snoc link_span_def split: option.splits)
      moreover have "spans (lk_sequence ?st @ ?added) = []"
        using True by (simp split: option.split)
      ultimately show "mset (spans (lk_table ?st)) + mset (spans (lk_sequence ?st @ ?added)) =
          mset (concat (map (link_span m) (spans (rows @ [e]))))"
        using inv_spans True by simp
    qed (use inv_closed in_m no_end True in simp_all)
    ultimately show ?thesis using step by simp
  next
    case False
    obtain r where r: "List.find (\<lambda>r. Contains (range_of r) (te_file_addr (last rows))) m = Some r"
      "lk_range st = Some r"
      "last (lk_sequence st) = (last rows)\<lparr>te_file_addr := relink r (te_file_addr (last rows))\<rparr>"
      and pend: "\<not> closed rows" "lk_prev_linked st"
      using inv_last inv_linked False by (auto split: if_splits option.splits)
    have last: "rows \<noteq> []" "\<not> te_is_terminal_entry (last rows)"
      "\<not> te_is_terminal_entry (last (lk_sequence st))"
      using pend r(3) by (auto simp: closed_def)
    have ok_r: "range_ok (range_of r)"
      using inv_m [OF r(2)] m by (auto simp: map_ok_link_def separated_def)
    then have "linked_end r (te_file_addr e) = relink r (min (te_file_addr e) (rg_base r + rg_size r))"
      by (simp add: linked_end_def range_end)
    then have new: "mset (concat (map (link_span m) (spans (rows @ [e])))) =
        mset (spans (lk_table st)) + mset (spans (lk_sequence st) @
          [(last (lk_sequence st), linked_end r (te_file_addr e))])"
      using inv_spans last r by (simp add: spans_snoc link_span_def)
    have prev: "changed \<Longrightarrow> prev = Some r" by (simp add: prev_def r(2))
    have unchanged: "\<not> changed \<Longrightarrow> rg = Some r \<and> linked_end r (te_file_addr e) = relink r (te_file_addr e)"
      using linked_end_inside [OF ok_r, of e] e r(2) rg by (simp add: changed_def lookup_def)
    have stays: "\<exists>r'. rg = Some r' \<and> linked_end r (te_file_addr e) = relink r' (te_file_addr e)"
      if "\<not> t"
    proof (cases changed)
      case True
      then show ?thesis using that tp prev last pend(2) False by (auto split: option.splits)
    next
      case False
      then show ?thesis using unchanged by simp
    qed
    have ends: "pe = LLDB_INVALID_ADDRESS \<or> pe = linked_end r (te_file_addr e)" "prev = Some r" if t
    proof -
      have changed using that tp unchanged by (auto split: option.splits if_splits)
      then show "pe = LLDB_INVALID_ADDRESS \<or> pe = linked_end r (te_file_addr e)" "prev = Some r"
        using prev that tp by (auto split: option.splits)
    qed
    show ?thesis
    proof (cases t)
      case True
      let ?x = "(last (lk_sequence st))\<lparr>te_file_addr := linked_end r (te_file_addr e), te_is_terminal_entry := True\<rparr>"
      let ?seq = "lk_sequence st @ [?x]"
      let ?st' = "?st\<lparr>lk_table := InsertSequence (lk_table st) ?seq, lk_sequence := []\<rparr>"
      have t: "terminate_previous t pe prev (te_file_addr e) ?st = Some ?st'"
        using True ends [OF True] False by (auto simp: terminate_previous_def)
      have ins: "mset (spans (InsertSequence (lk_table st) ?seq)) =
            mset (spans (lk_table st)) + mset (spans (lk_sequence st) @
              [(last (lk_sequence st), linked_end r (te_file_addr e))])"
          "closed (InsertSequence (lk_table st) ?seq)"
        using InsertSequence_spans [of "lk_table st" ?seq] inv_closed last False by (simp_all add: spans_closing)
      have "linked_so_far m (rows @ [e]) (link_current rg e ?st')"
      proof (rule link_current_ok [where added = ?added])
        show "mset (spans (lk_table ?st')) + mset (spans (lk_sequence ?st' @ ?added)) =
            mset (concat (map (link_span m) (spans (rows @ [e]))))"
          unfolding new using ins(1) by (simp split: option.split)
      qed (use ins(2) in_m no_end in simp_all)
      then show ?thesis using step t by simp
    next
      case f: False
      obtain r' where r': "rg = Some r'" "linked_end r (te_file_addr e) = relink r' (te_file_addr e)"
        using stays [OF f] by blast
      have t: "terminate_previous t pe prev (te_file_addr e) ?st = Some ?st"
        using f by (simp add: terminate_previous_def)
      have "linked_so_far m (rows @ [e]) (link_current rg e ?st)"
      proof (rule link_current_ok [where added = ?added])
        show "mset (spans (lk_table ?st)) + mset (spans (lk_sequence ?st @ ?added)) =
            mset (concat (map (link_span m) (spans (rows @ [e]))))"
          unfolding new using False last r' by (simp add: spans_closing)
      qed (use inv_closed in_m no_end r'(1) in simp_all)
      then show ?thesis using step t by simp
    qed
  qed
qed

lemma link_loop_ok:
  assumes "linked_so_far m rows st" "map_ok_link m" "\<forall>e \<in> set es. te_file_addr e < 2 ^ 64"
  shows "\<exists>st'. link_loop m es st = Some st' \<and> linked_so_far m (rows @ es) st'"
  using assms
proof (induction es arbitrary: rows st)
  case (Cons e es)
  obtain st' where "link_step m e st = Some st'" "linked_so_far m (rows @ [e]) st'"
    using link_step_ok [OF Cons.prems(1,2)] Cons.prems(3) by auto
  then show ?case
    using Cons.IH [of "rows @ [e]" st'] Cons.prems(2,3) by simp
qed simp

text \<open>C9: Linking a line table by a map of disjoint ranges returns, and the spans of the linked table are
  exactly those of the original table that start in a mapped range, cut at the end of that range and
  moved with it: no line is lost, none is invented, whatever sequences the linker splits or joins.\<close>

theorem LinkLineTable_spans:
  assumes "map_ok_link m" "closed es" "\<forall>e \<in> set es. te_file_addr e < 2 ^ 64"
  shows "\<exists>t. LinkLineTable es m = Some t \<and>
    mset (spans (case t of None \<Rightarrow> [] | Some t \<Rightarrow> t)) = mset (concat (map (link_span m) (spans es)))"
proof -
  let ?st = "\<lparr>lk_table = [], lk_sequence = [], lk_range = None, lk_prev_range = None, lk_prev_linked = False\<rparr>"
  have "linked_so_far m [] ?st" by (simp add: linked_so_far_def)
  from link_loop_ok [OF this assms(1,3)] obtain st
    where st: "link_loop m es ?st = Some st" "linked_so_far m es st" by auto
  have "mset (spans (lk_table st)) = mset (concat (map (link_span m) (spans es)))"
    using st(2) assms(2) unfolding linked_so_far_def by force
  then show ?thesis using st(1) by (auto simp: LinkLineTable_def)
qed

section \<open>Well-formed tables\<close>

text \<open>The sequences that a compiler emits: rows at ascending addresses, of which the last and only
  the last is terminal, and at least one row before it.\<close>

definition sequence_ok :: "table_entry list \<Rightarrow> bool" where
  "sequence_ok s \<longleftrightarrow> 2 \<le> length s \<and> te_is_terminal_entry (last s) \<and>
     (\<forall>e \<in> set (butlast s). \<not> te_is_terminal_entry e) \<and>
     sorted_wrt (\<lambda>a b. te_file_addr a < te_file_addr b) s \<and>
     (\<forall>e \<in> set s. te_file_addr e < LLDB_INVALID_ADDRESS)"

definition follows :: "table_entry list \<Rightarrow> table_entry list \<Rightarrow> bool" where
  "follows s t \<longleftrightarrow> te_file_addr (last s) \<le> te_file_addr (hd t)"

definition sequences_ok :: "table_entry list list \<Rightarrow> bool" where
  "sequences_ok seqs \<longleftrightarrow> (\<forall>s \<in> set seqs. sequence_ok s) \<and> sorted_wrt follows seqs"

text \<open>The same as a property of the rows of a table.\<close>

definition table_ok :: "table_entry list \<Rightarrow> bool" where
  "table_ok es \<longleftrightarrow>
     sorted_wrt (\<lambda>a b. te_file_addr a \<le> te_file_addr b) es \<and>
     successively (\<lambda>a b. te_file_addr a < te_file_addr b \<or> te_is_terminal_entry a) es \<and>
     successively (\<lambda>a b. \<not> te_is_terminal_entry a \<or> \<not> te_is_terminal_entry b) es \<and>
     (es \<noteq> [] \<longrightarrow> \<not> te_is_terminal_entry (hd es) \<and> te_is_terminal_entry (last es)) \<and>
     (\<forall>e \<in> set es. te_file_addr e < LLDB_INVALID_ADDRESS)"

lemma sequence_ok_bounds:
  assumes "sequence_ok s" "e \<in> set s"
  shows "te_file_addr (hd s) \<le> te_file_addr e \<and> te_file_addr e \<le> te_file_addr (last s)"
proof -
  obtain i where i: "i < length s" "e = s ! i" using assms(2) by (auto simp: in_set_conv_nth)
  have sorted: "\<And>i j. i < j \<Longrightarrow> j < length s \<Longrightarrow> te_file_addr (s ! i) < te_file_addr (s ! j)"
    using assms(1) by (simp add: sequence_ok_def sorted_wrt_iff_nth_less)
  have "s \<noteq> []" using i by auto
  then show ?thesis
    using sorted [of 0 i] sorted [of i "length s - 1"] i
    by (cases "i = 0"; cases "i = length s - 1") (fastforce simp: hd_conv_nth last_conv_nth)+
qed

lemma successively_of_sorted: "sorted_wrt P xs \<Longrightarrow> successively P xs"
  by (induction xs rule: induct_list012) auto

lemma sequence_table_ok:
  assumes "sequence_ok s"
  shows "table_ok s"
proof -
  have s: "2 \<le> length s" "sorted_wrt (\<lambda>a b. te_file_addr a < te_file_addr b) s"
    "\<forall>e \<in> set (butlast s). \<not> te_is_terminal_entry e"
    using assms by (simp_all add: sequence_ok_def)
  then have "hd s \<in> set (butlast s)"
    by (cases s rule: remdups_adj.cases) auto
  moreover have "successively (\<lambda>a b. \<not> te_is_terminal_entry a \<or> \<not> te_is_terminal_entry b) s"
    using s(3) by (induction s rule: induct_list012) auto
  moreover have "successively (\<lambda>a b. te_file_addr a < te_file_addr b \<or> te_is_terminal_entry a) s"
    using successively_of_sorted [OF s(2)] by (rule successively_mono) simp
  moreover have "sorted_wrt (\<lambda>a b. te_file_addr a \<le> te_file_addr b) s"
    using s(2) by (rule sorted_wrt_mono_rel [rotated]) simp
  ultimately show ?thesis
    using assms s(3) by (simp add: table_ok_def sequence_ok_def)
qed

lemma table_ok_append:
  assumes "table_ok es" "table_ok fs" "\<forall>e \<in> set es. \<forall>f \<in> set fs. te_file_addr e \<le> te_file_addr f"
  shows "table_ok (es @ fs)"
  using assms by (cases "es = []"; cases "fs = []")
    (auto simp: table_ok_def sorted_wrt_append successively_append_iff)

lemma sequences_table_ok: "sequences_ok seqs \<Longrightarrow> table_ok (concat seqs)"
proof (induction seqs)
  case (Cons s seqs)
  have s: "sequence_ok s" "sequences_ok seqs" "\<forall>t \<in> set seqs. sequence_ok t \<and> follows s t"
    using Cons.prems by (auto simp: sequences_ok_def)
  have "te_file_addr e \<le> te_file_addr f" if e: "e \<in> set s" and f: "f \<in> set (concat seqs)" for e f
  proof -
    obtain t where t: "t \<in> set seqs" "f \<in> set t" using f by auto
    then show ?thesis
      using sequence_ok_bounds [OF s(1) e] sequence_ok_bounds [of t f] s(3)
      by (force simp: follows_def)
  qed
  then show ?case
    using table_ok_append [OF sequence_table_ok [OF s(1)] Cons.IH [OF s(2)]] by simp
qed (simp add: table_ok_def)

section \<open>Lookup by address\<close>

text \<open>A row covers the addresses of its span.\<close>

definition covers :: "table_entry list \<Rightarrow> nat \<Rightarrow> nat \<Rightarrow> bool" where
  "covers es i a \<longleftrightarrow> i + 1 < length es \<and> \<not> te_is_terminal_entry (es ! i) \<and>
     te_file_addr (es ! i) \<le> a \<and> a < te_file_addr (es ! (i + 1))"

definition line_index :: "table_entry list \<Rightarrow> nat \<Rightarrow> nat option" where
  "line_index es a = List.find (\<lambda>i. covers es i a) [0 ..< length es]"

lemma table_ok_nth:
  assumes "table_ok es"
  shows "i \<le> j \<Longrightarrow> j < length es \<Longrightarrow> te_file_addr (es ! i) \<le> te_file_addr (es ! j)"
    and "i + 1 < length es \<Longrightarrow> \<not> te_is_terminal_entry (es ! i) \<Longrightarrow>
      te_file_addr (es ! i) < te_file_addr (es ! (i + 1))"
    and "i + 1 < length es \<Longrightarrow> te_is_terminal_entry (es ! i) \<Longrightarrow>
      \<not> te_is_terminal_entry (es ! (i + 1))"
    and "es \<noteq> [] \<Longrightarrow> \<not> te_is_terminal_entry (es ! 0)"
    and "i < length es \<Longrightarrow> \<not> te_is_terminal_entry (es ! i) \<Longrightarrow> i + 1 < length es"
proof -
  note ok = assms [unfolded table_ok_def]
  show "te_file_addr (es ! i) \<le> te_file_addr (es ! j)" if "i \<le> j" "j < length es"
    using ok that by (cases "i = j") (auto simp: sorted_wrt_iff_nth_less)
  show "te_file_addr (es ! i) < te_file_addr (es ! (i + 1))"
    if "i + 1 < length es" "\<not> te_is_terminal_entry (es ! i)"
    using ok that by (auto simp: successively_conv_nth)
  show "\<not> te_is_terminal_entry (es ! (i + 1))"
    if "i + 1 < length es" "te_is_terminal_entry (es ! i)"
    using ok that by (auto simp: successively_conv_nth)
  show "\<not> te_is_terminal_entry (es ! 0)" if "es \<noteq> []"
    using ok that by (simp add: hd_conv_nth)
  show "i + 1 < length es" if i: "i < length es" "\<not> te_is_terminal_entry (es ! i)"
  proof (rule ccontr)
    assume "\<not> i + 1 < length es"
    then have "i = length es - 1" using i(1) by simp
    then show False using ok i by (auto simp: last_conv_nth)
  qed
qed

lemma table_ok_addr: "table_ok es \<Longrightarrow> i < length es \<Longrightarrow> te_file_addr (es ! i) < LLDB_INVALID_ADDRESS"
  by (simp add: table_ok_def)

lemma covers_unique:
  assumes "table_ok es" "covers es i a" "covers es j a"
  shows "i = j"
proof -
  have False if "i < j" "covers es i a" "covers es j a" for i j
    using table_ok_nth(1) [OF assms(1), of "i + 1" j] that by (simp add: covers_def)
  then show ?thesis using assms(2,3) by (cases i j rule: linorder_cases) auto
qed

lemma line_index_Some:
  assumes "table_ok es" "covers es i a"
  shows "line_index es a = Some i"
proof -
  have i: "i < length es" using assms(2) by (simp add: covers_def)
  have "\<not> covers es j a" if "j < i" for j
    using covers_unique [OF assms, of j] that by blast
  then have "\<exists>k < length [0 ..< length es]. covers es ([0 ..< length es] ! k) a \<and> i = [0 ..< length es] ! k \<and>
      (\<forall>j < k. \<not> covers es ([0 ..< length es] ! j) a)"
    using i assms(2) by (intro exI [of _ i]) simp
  then show ?thesis by (simp add: line_index_def find_Some_iff)
qed

lemma line_index_None: "(\<And>i. \<not> covers es i a) \<Longrightarrow> line_index es a = None"
  by (simp add: line_index_def find_None_iff)

lemma first_at_address_stop:
  "pos = 0 \<or> te_file_addr (es ! (pos - 1)) \<noteq> a \<or> te_is_terminal_entry (es ! (pos - 1)) \<Longrightarrow>
   first_at_address es a pos = pos"
  by (cases pos) auto

lemma find_position_correct:
  assumes ok: "table_ok es"
  shows "line_index es a =
    (case find_position es a of
       Some p \<Rightarrow> if te_is_terminal_entry (es ! p) then None else Some p
     | None \<Rightarrow> None)"
    and "find_position es a = Some p \<Longrightarrow> p < length es"
proof -
  define n where "n = lower_bound (\<lambda>e. te_file_addr e < a) es"
  have n: "n \<le> length es" "\<And>i. i < n \<Longrightarrow> te_file_addr (es ! i) < a"
    "n < length es \<Longrightarrow> a \<le> te_file_addr (es ! n)"
    using lower_bound_props [where lt = "\<lambda>e. te_file_addr e < a" and es = es] by (auto simp: n_def not_less)
  note nth = table_ok_nth [OF ok]
  have near: "i + 1 = n \<or> te_file_addr (es ! i) = a" if c: "covers es i a" for i
  proof (cases "i < n")
    case True
    have "\<not> i + 1 < n" using n(2) [of "i + 1"] c by (auto simp: covers_def)
    with True show ?thesis by simp
  next
    case False
    then have "te_file_addr (es ! n) \<le> te_file_addr (es ! i)" "n < length es"
      using c nth(1) [of n i] by (auto simp: covers_def)
    then show ?thesis using n(3) c by (simp add: covers_def)
  qed
  let ?found = "case find_position es a of
       Some p \<Rightarrow> if te_is_terminal_entry (es ! p) then None else Some p | None \<Rightarrow> None"
  have goal: "line_index es a = ?found \<and> (\<forall>p. find_position es a = Some p \<longrightarrow> p < length es)"
  proof (cases "n = length es")
    case True
    have "\<not> covers es i a" for i
      using n(2) [of "i + 1"] True by (auto simp: covers_def)
    then show ?thesis
      using line_index_None [of es a] True by (simp add: find_position_def n_def [symmetric])
  next
    case in_table: False
    then have lt: "n < length es" using n(1) by simp
    show ?thesis
    proof (cases "te_file_addr (es ! n) = a")
      case False
      then have above: "a < te_file_addr (es ! n)" using n(3) [OF lt] by simp
      have no: "\<not> te_file_addr (es ! i) = a" if "i < length es" for i
        using n(2) [of i] nth(1) [of n i] that above by (cases "i < n") auto
      have only: "i + 1 = n" if "covers es i a" for i
        using near [OF that] no [of i] that by (auto simp: covers_def)
      show ?thesis
      proof (cases n)
        case 0
        then have "line_index es a = None" using only by (intro line_index_None) auto
        then show ?thesis using 0 in_table above by (simp add: find_position_def n_def [symmetric])
      next
        case (Suc k)
        have pos: "find_position es a = Some k"
          using Suc in_table False by (simp add: find_position_def n_def [symmetric])
        show ?thesis
        proof (cases "te_is_terminal_entry (es ! k)")
          case True
          then have "line_index es a = None"
            using only Suc by (intro line_index_None) (auto simp: covers_def)
          then show ?thesis using pos True lt Suc by simp
        next
          case False
          have "covers es k a" using False n(2) [of k] above lt Suc by (simp add: covers_def)
          then show ?thesis using line_index_Some [OF ok] pos False lt Suc by simp
        qed
      qed
    next
      case at: True
      show ?thesis
      proof (cases "te_is_terminal_entry (es ! n)")
        case False
        have "n + 1 < length es" using nth(5) [OF lt False] .
        then have cov: "covers es n a"
          using False at nth(2) [of n] by (simp add: covers_def)
        have "find_position es a = Some n"
        proof (cases n)
          case 0
          then show ?thesis using in_table at by (simp add: find_position_def n_def [symmetric])
        next
          case (Suc k)
          have "first_at_address es a n = n"
            using n(2) [of k] Suc by (intro first_at_address_stop) auto
          then show ?thesis
            using in_table at False Suc by (simp add: find_position_def n_def [symmetric])
        qed
        then show ?thesis using line_index_Some [OF ok cov] False lt by simp
      next
        case True
        have "n \<noteq> 0" using True nth(4) lt by (cases n) auto
        show ?thesis
        proof (cases "n + 1 < length es \<and> te_file_addr (es ! (n + 1)) = a")
          case behind: True
          have opens: "\<not> te_is_terminal_entry (es ! (n + 1))" using nth(3) [of n] behind True by simp
          have "n + 1 + 1 < length es" using nth(5) [of "n + 1"] behind opens by simp
          then have cov: "covers es (n + 1) a"
            using opens behind nth(2) [of "n + 1"] by (simp add: covers_def)
          have "first_at_address es a (n + 1) = n + 1"
            using True by (intro first_at_address_stop) simp
          then have "find_position es a = Some (n + 1)"
            using in_table at True behind \<open>n \<noteq> 0\<close> by (simp add: find_position_def n_def [symmetric])
          then show ?thesis using line_index_Some [OF ok cov] opens behind by simp
        next
          case last: False
          have "find_position es a = None"
            using in_table at True last \<open>n \<noteq> 0\<close> lt by (simp add: find_position_def n_def [symmetric])
          moreover have "\<not> covers es i a" for i
          proof
            assume c: "covers es i a"
            then have "i + 1 = n \<or> te_file_addr (es ! i) = a" by (rule near)
            moreover have "i + 1 \<noteq> n" using c at n(2) [of i] by (auto simp: covers_def)
            moreover have "i \<noteq> n" using c True by (auto simp: covers_def)
            moreover have "\<not> i < n" using calculation n(2) [of i] by auto
            ultimately have "n + 1 \<le> i" "te_file_addr (es ! i) = a" by auto
            then show False
              using last nth(1) [of "n + 1" i] nth(1) [of n "n + 1"] at c by (simp add: covers_def)
          qed
          ultimately show ?thesis using line_index_None [of es a] by simp
        qed
      qed
    qed
  qed
  show "line_index es a = ?found" using goal by simp
  show "find_position es a = Some p \<Longrightarrow> p < length es" using goal by simp
qed

text \<open>The entry that stands for a row.\<close>

definition entry_of_row ::
  "section_list \<Rightarrow> file_spec list \<Rightarrow> table_entry \<Rightarrow> nat \<Rightarrow> line_entry" where
  "entry_of_row sections files e byte_size =
     \<lparr>le_range = \<lparr>ar_base_addr = ResolveAddressUsingFileSections sections (te_file_addr e),
                   ar_byte_size = byte_size\<rparr>,
      le_file = GetFileSpecAtIndex files (unat (te_file_idx e)),
      le_original_file = GetFileSpecAtIndex files (unat (te_file_idx e)),
      le_line = te_line e, le_column = te_column e,
      le_is_start_of_statement = te_is_start_of_statement e,
      le_is_start_of_basic_block = te_is_start_of_basic_block e,
      le_is_prologue_end = te_is_prologue_end e, le_is_epilogue_begin = te_is_epilogue_begin e,
      le_is_terminal_entry = te_is_terminal_entry e\<rparr>"

lemma Convert_row:
  assumes "table_ok es" "i + 1 < length es" "\<not> te_is_terminal_entry (es ! i)" "length es < 2 ^ 32"
    and "ln_module env \<noteq> None" "ln_sections env = Some sections"
    and "sections (te_file_addr (es ! i)) \<noteq> None"
  shows "ConvertEntryAtIndexToLineEntry env es i le =
    (True, entry_of_row sections (ln_support_files env) (es ! i)
             (te_file_addr (es ! (i + 1)) - te_file_addr (es ! i)))"
proof -
  have "(i + 1) mod 2 ^ 32 = i + 1" using assms(2,4) by simp
  moreover have "(te_file_addr (es ! (i + 1)) + 2 ^ 64 - te_file_addr (es ! i)) mod 2 ^ 64 =
      te_file_addr (es ! (i + 1)) - te_file_addr (es ! i)"
  proof -
    have "te_file_addr (es ! i) < te_file_addr (es ! (i + 1))"
      using table_ok_nth(2) [OF assms(1,2,3)] .
    moreover have "te_file_addr (es ! (i + 1)) < 2 ^ 64"
      using table_ok_addr [OF assms(1,2)] by (simp add: UINT64_MAX_def)
    ultimately have "te_file_addr (es ! (i + 1)) + 2 ^ 64 - te_file_addr (es ! i) =
        te_file_addr (es ! (i + 1)) - te_file_addr (es ! i) + 2 ^ 64"
      "te_file_addr (es ! (i + 1)) - te_file_addr (es ! i) < 2 ^ 64" by simp_all
    then show ?thesis by (simp only: mod_add_self2 mod_less)
  qed
  ultimately show ?thesis
    using assms(2,3,5,6,7)
    by (auto simp: ConvertEntryAtIndexToLineEntry_def ResolveFileAddress_module_def entry_of_row_def Let_def)
qed

lemma FindLineEntryByAddress_table:
  assumes "sequences_ok seqs" "length (concat seqs) < 2 ^ 32"
    and "ln_module env = Some k" "ln_sections env = Some sections"
    and "\<forall>e \<in> set (concat seqs). \<not> te_is_terminal_entry e \<longrightarrow> sections (te_file_addr e) \<noteq> None"
    and "GetModule_address env so_addr = Some k" "GetFileAddress so_addr \<noteq> LLDB_INVALID_ADDRESS"
  shows "FindLineEntryByAddress env (concat seqs) so_addr le =
    (case line_index (concat seqs) (GetFileAddress so_addr) of
       Some i \<Rightarrow> (True, entry_of_row sections (ln_support_files env) (concat seqs ! i)
                     (te_file_addr (concat seqs ! (i + 1)) - te_file_addr (concat seqs ! i)), i)
     | None \<Rightarrow> (False, le, UINT32_MAX))"
proof -
  define es where "es = concat seqs"
  have ok: "table_ok es" unfolding es_def by (rule sequences_table_ok [OF assms(1)])
  note find = find_position_correct [OF ok, of "GetFileAddress so_addr"]
  have "FindLineEntryByAddress env es so_addr le =
    (case line_index es (GetFileAddress so_addr) of
       Some i \<Rightarrow> (True, entry_of_row sections (ln_support_files env) (es ! i)
                     (te_file_addr (es ! (i + 1)) - te_file_addr (es ! i)), i)
     | None \<Rightarrow> (False, le, UINT32_MAX))"
  proof (cases "find_position es (GetFileAddress so_addr)")
    case None
    then show ?thesis using assms(3,6,7) find(1) by (simp add: FindLineEntryByAddress_def)
  next
    case (Some p)
    have p: "p < length es" using find(2) [OF Some] .
    show ?thesis
    proof (cases "te_is_terminal_entry (es ! p)")
      case True
      then show ?thesis using assms(3,6,7) find(1) Some by (simp add: FindLineEntryByAddress_def)
    next
      case False
      have "p + 1 < length es" using table_ok_nth(5) [OF ok p False] .
      moreover have "sections (te_file_addr (es ! p)) \<noteq> None"
        using assms(5) False nth_mem [OF p] unfolding es_def by blast
      ultimately have "ConvertEntryAtIndexToLineEntry env es p le =
        (True, entry_of_row sections (ln_support_files env) (es ! p)
          (te_file_addr (es ! (p + 1)) - te_file_addr (es ! p)))"
        using Convert_row [OF ok _ False] assms(2,3,4) by (simp add: es_def)
      moreover have "p mod 2 ^ 32 = p" using p assms(2) by (simp add: es_def)
      ultimately show ?thesis
        using assms(3,6,7) find(1) Some False by (simp add: FindLineEntryByAddress_def)
    qed
  qed
  then show ?thesis unfolding es_def .
qed

text \<open>C11: In a table of well-formed sequences the search by address succeeds exactly when a row covers
  the address, and returns the entry of that row, with the bytes up to the next row as its range, and
  its index; otherwise it leaves the entry alone.\<close>

theorem FindLineEntryByAddress_correct:
  assumes "sequences_ok seqs" "length (concat seqs) < 2 ^ 32"
    and "ln_module env = Some k" "ln_sections env = Some sections"
    and "\<forall>e \<in> set (concat seqs). \<not> te_is_terminal_entry e \<longrightarrow> sections (te_file_addr e) \<noteq> None"
    and "GetModule_address env so_addr = Some k" "GetFileAddress so_addr \<noteq> LLDB_INVALID_ADDRESS"
  shows "FindLineEntryByAddress env (concat seqs) so_addr le =
    (case line_index (concat seqs) (GetFileAddress so_addr) of
       Some i \<Rightarrow> (True, entry_of_row sections (ln_support_files env) (concat seqs ! i)
                     (te_file_addr (concat seqs ! (i + 1)) - te_file_addr (concat seqs ! i)), i)
     | None \<Rightarrow> (False, le, UINT32_MAX))"
  using assms by (rule FindLineEntryByAddress_table)

section \<open>Inserting into a table of sequences\<close>

lemma sequence_ok_span:
  assumes "sequence_ok s"
  shows "te_file_addr (hd s) < te_file_addr (last s)"
    and "e \<in> set s \<Longrightarrow> te_file_addr e = te_file_addr (last s) \<Longrightarrow> te_is_terminal_entry e"
    and "\<not> te_is_terminal_entry (hd s)" "s \<noteq> []" "te_is_terminal_entry (last s)"
proof -
  have len: "2 \<le> length s" and sorted: "sorted_wrt (\<lambda>a b. te_file_addr a < te_file_addr b) s"
    and ends: "te_is_terminal_entry (last s)" "\<forall>e \<in> set (butlast s). \<not> te_is_terminal_entry e"
    using assms by (simp_all add: sequence_ok_def)
  show "s \<noteq> []" using len by auto
  then have s: "s = butlast s @ [last s]" by simp
  have lt: "\<forall>e \<in> set (butlast s). te_file_addr e < te_file_addr (last s)"
    using sorted by (subst (asm) s) (simp add: sorted_wrt_append)
  have hd: "hd s \<in> set (butlast s)" using len by (cases s rule: remdups_adj.cases) auto
  show "te_file_addr (hd s) < te_file_addr (last s)" "\<not> te_is_terminal_entry (hd s)"
    using lt ends hd by auto
  show "te_is_terminal_entry e" if "e \<in> set s" "te_file_addr e = te_file_addr (last s)"
    using that ends(1) lt by (subst (asm) (1) s) auto
  show "te_is_terminal_entry (last s)" by (rule ends(1))
qed

lemma insort_key_split:
  "insort_key f x xs = takeWhile (\<lambda>y. f y < f x) xs @ x # dropWhile (\<lambda>y. f y < f x) xs"
  by (induction xs) (auto simp: not_le not_less)

lemma concat_closed: "\<forall>s \<in> set seqs. sequence_ok s \<Longrightarrow> closed (concat seqs)"
proof (induction seqs)
  case (Cons s seqs)
  then show ?case
    using sequence_ok_span(5) [of s] closed_append [of "concat seqs" s] by (simp add: closed_def)
qed simp

text \<open>C17: Inserting a sequence that does not overlap the sequences of a table keeps the table a list of
  sequences in the order of their addresses: the new sequence is put at its place as a whole, whatever
  the order in which the sequences arrive.\<close>

theorem InsertSequence_sorted:
  assumes "sequences_ok seqs" "sequence_ok s" "\<forall>t \<in> set seqs. follows s t \<or> follows t s"
  shows "InsertSequence (concat seqs) s = concat (insort_key (\<lambda>t. te_file_addr (hd t)) s seqs) \<and>
    sequences_ok (insort_key (\<lambda>t. te_file_addr (hd t)) s seqs)"
proof -
  define A where "A = takeWhile (\<lambda>t. te_file_addr (hd t) < te_file_addr (hd s)) seqs"
  define B where "B = dropWhile (\<lambda>t. te_file_addr (hd t) < te_file_addr (hd s)) seqs"
  have seqs: "seqs = A @ B" by (simp add: A_def B_def)
  have ins: "insort_key (\<lambda>t. te_file_addr (hd t)) s seqs = A @ s # B"
    by (simp add: insort_key_split A_def B_def)
  have ok: "\<forall>t \<in> set A. sequence_ok t" "\<forall>t \<in> set B. sequence_ok t"
    "sorted_wrt follows (A @ B)"
    using assms(1) by (auto simp: sequences_ok_def seqs)
  note s = sequence_ok_span [OF assms(2)]
  have A: "follows t s" if "t \<in> set A" for t
    using set_takeWhileD [of t _ seqs] that assms(3) s(1) by (fastforce simp: A_def follows_def)
  have B: "follows s t" if t: "t \<in> set B" for t
  proof -
    obtain b B' where b: "B = b # B'" using t by (cases B) auto
    have "\<not> te_file_addr (hd b) < te_file_addr (hd s)"
      using b hd_dropWhile [of "\<lambda>t. te_file_addr (hd t) < te_file_addr (hd s)" seqs] unfolding B_def by force
    then have "te_file_addr (hd s) \<le> te_file_addr (hd t)"
      using t b ok sequence_ok_span(1) [of b] by (force simp: sorted_wrt_append follows_def)
    then show ?thesis
      using assms(3) t seqs sequence_ok_span(1) [of t] ok(2) by (fastforce simp: follows_def)
  qed
  have sorted: "sequences_ok (A @ s # B)"
    using ok assms(2) A B by (auto simp: sequences_ok_def sorted_wrt_append)
  have closed: "closed (concat A)" using ok(1) by (rule concat_closed)
  have below: "\<not> Entry_less (hd s) e" if e: "e \<in> set (concat A)" for e
  proof -
    obtain t where t: "t \<in> set A" "e \<in> set t" using e by auto
    have "te_file_addr e \<le> te_file_addr (last t)" "te_file_addr (last t) \<le> te_file_addr (hd s)"
      using sequence_ok_bounds [of t e] t ok(1) A [OF t(1)] by (simp_all add: follows_def)
    then show ?thesis
      using sequence_ok_span(2) [of t e] t ok(1) s(3) by (auto simp: Entry_less_def)
  qed
  have "InsertSequence (concat A @ concat B) s = concat A @ s @ concat B"
  proof (cases B)
    case Nil
    show ?thesis
    proof (cases "concat A = []")
      case False
      then have "\<not> EntryAddressLessThan (hd s) (last (concat A))"
        using below [OF last_in_set [OF False]] by (auto simp: EntryAddressLessThan_def Entry_less_def)
      then show ?thesis using Nil s(4) by (simp add: InsertSequence_def)
    qed (use Nil s(4) in \<open>simp add: InsertSequence_def\<close>)
  next
    case (Cons b B')
    let ?es = "concat A @ concat B"
    have b: "sequence_ok b" using ok(2) Cons by simp
    note sb = sequence_ok_span [OF b]
    have first: "te_file_addr (hd s) < te_file_addr (hd b)"
      using B [of b] Cons s(1) by (simp add: follows_def)
    obtain c where c: "c \<in> set B" "last ?es = last c"
    proof -
      have "B = butlast B @ [last B]" using Cons by simp
      then have "concat B = concat (butlast B) @ last B" by (metis concat.simps concat_append append_Nil2)
      moreover have "last B \<noteq> []" using sequence_ok_span(4) [of "last B"] ok(2) Cons by simp
      ultimately have "last ?es = last (last B)" by simp
      then show ?thesis using that [of "last B"] Cons by simp
    qed
    have "EntryAddressLessThan (hd s) (last ?es)"
      using c B [OF c(1)] s(1) sequence_ok_span(1) [of c] ok(2)
      by (fastforce simp: EntryAddressLessThan_def follows_def)
    moreover have "upper_bound Entry_less (hd s) ?es = length (concat A)"
    proof -
      have "Entry_less (hd s) (hd b)" using first by (simp add: Entry_less_def)
      then have "takeWhile (\<lambda>e. \<not> Entry_less (hd s) e) (concat B) = []"
        using Cons sb(4) by (cases b) simp_all
      then show ?thesis
        unfolding upper_bound_def by (subst takeWhile_append2) (use below in auto)
    qed
    moreover have "end_of_sequence ?es (length (concat A)) = length (concat A)" if ne: "concat A \<noteq> []"
    proof -
      have "?es ! (length (concat A) - 1) = last (concat A)"
        using ne unfolding last_conv_nth [OF ne] by (auto simp: nth_append)
      then have "te_is_terminal_entry (?es ! (length (concat A) - 1))"
        using closed ne unfolding closed_def by metis
      then show ?thesis by (subst end_of_sequence.simps) simp
    qed
    ultimately show ?thesis
      using s(4) Cons sb(4) by (auto simp: InsertSequence_def insert_at_def Let_def)
  qed
  then show ?thesis using ins sorted seqs by simp
qed
end
