(* ===== verification/LineQueries.thy ===== *)
theory LineQueries
  imports LineSequences
begin

text \<open>
  Queries over whole line tables: the ranges of code, the nearest row of a line, the range of
  a line with the rows around it; and the inputs on which the table of the code gives an
  answer that the debug information does not.
\<close>

section \<open>The code a table describes\<close>

lemma set_spans:
  "set (spans es) =
     {(es ! i, te_file_addr (es ! (i + 1))) |i. i + 1 < length es \<and> \<not> te_is_terminal_entry (es ! i)}"
proof -
  have "set (zip es (tl es)) = {(es ! i, es ! (i + 1)) |i. i + 1 < length es}"
    by (auto simp: set_zip nth_tl)
  then show ?thesis unfolding spans_def by (auto simp del: One_nat_def)
qed

lemma covers_spans:
  "(\<exists>i. covers es i a) \<longleftrightarrow> (\<exists>(e, end_addr) \<in> set (spans es). te_file_addr e \<le> a \<and> a < end_addr)"
  unfolding set_spans by (auto simp: covers_def)

lemma spans_of_sequence:
  assumes "sequence_ok s"
  shows "(\<exists>(e, end_addr) \<in> set (spans s). te_file_addr e \<le> a \<and> a < end_addr) \<longleftrightarrow>
    te_file_addr (hd s) \<le> a \<and> a < te_file_addr (last s)"
proof -
  have "(\<exists>(e, end_addr) \<in> set (spans s). te_file_addr e \<le> a \<and> a < end_addr) \<longleftrightarrow>
      te_file_addr (hd s) \<le> a \<and> a < te_file_addr (last s)"
    if "s \<noteq> []" "sorted_wrt (\<lambda>a b. te_file_addr a < te_file_addr b) s"
      "\<forall>e \<in> set (butlast s). \<not> te_is_terminal_entry e" for s
    using that
  proof (induction s rule: induct_list012)
    case (3 x y zs)
    have "last (y # zs) \<in> set (y # zs)" by (rule last_in_set) simp
    then have "te_file_addr y \<le> te_file_addr (last (y # zs))"
      using 3(4) by (cases zs) (auto simp: order.order_iff_strict)
    moreover have "te_file_addr x < te_file_addr y" using 3(4) by simp
    ultimately show ?case using 3(2,4,5) by auto
  qed auto
  then show ?thesis
    using assms sequence_ok_span(4) [OF assms] by (simp add: sequence_ok_def)
qed

lemma contiguous_sequence:
  assumes "\<forall>e \<in> set xs. \<not> te_is_terminal_entry e" "te_is_terminal_entry t"
    and "rg_base rg \<noteq> LLDB_INVALID_ADDRESS"
  shows "contiguous_loop (xs @ t # es) rg rs =
    contiguous_loop es \<lparr>rg_base = LLDB_INVALID_ADDRESS, rg_size = 0\<rparr>
      (rs @ [SetRangeEnd rg (te_file_addr t)])"
  using assms by (induction xs) simp_all

definition sequence_range :: "table_entry list \<Rightarrow> range" where
  "sequence_range s = \<lparr>rg_base = te_file_addr (hd s), rg_size = te_file_addr (last s) - te_file_addr (hd s)\<rparr>"

lemma contiguous_sequences:
  assumes "\<forall>s \<in> set seqs. sequence_ok s"
  shows "contiguous_loop (concat seqs) \<lparr>rg_base = LLDB_INVALID_ADDRESS, rg_size = 0\<rparr> rs =
    rs @ map sequence_range seqs"
  using assms
proof (induction seqs arbitrary: rs)
  case (Cons s seqs)
  have ok: "sequence_ok s" using Cons.prems by simp
  note s = sequence_ok_span [OF ok]
  obtain x ys where x: "s = x # ys" "ys \<noteq> []"
    using ok by (cases s; cases "tl s") (auto simp: sequence_ok_def)
  then have split: "s = x # butlast ys @ [last ys]" by simp
  have valid: "te_file_addr x \<noteq> LLDB_INVALID_ADDRESS" and inner: "\<forall>e \<in> set (butlast ys). \<not> te_is_terminal_entry e"
    using ok x by (auto simp: sequence_ok_def)
  have "contiguous_loop (s @ concat seqs) \<lparr>rg_base = LLDB_INVALID_ADDRESS, rg_size = 0\<rparr> rs =
      contiguous_loop (butlast ys @ last ys # concat seqs) \<lparr>rg_base = te_file_addr x, rg_size = 0\<rparr> rs"
    using s(3) x(1) by (subst split) (simp add: SetRangeBase_def)
  also have "\<dots> = contiguous_loop (concat seqs) \<lparr>rg_base = LLDB_INVALID_ADDRESS, rg_size = 0\<rparr>
      (rs @ [SetRangeEnd \<lparr>rg_base = te_file_addr x, rg_size = 0\<rparr> (te_file_addr (last ys))])"
    using contiguous_sequence [OF inner, of "last ys"] s(5) x valid by simp
  also have "SetRangeEnd \<lparr>rg_base = te_file_addr x, rg_size = 0\<rparr> (te_file_addr (last ys)) = sequence_range s"
    using s(1) x by (simp add: SetRangeEnd_def sequence_range_def)
  finally show ?case using Cons by simp
qed simp

text \<open>C39: The contiguous ranges of a table of sequences are one range for each sequence, in order, and
  together they hold exactly the addresses for which the search by address finds a row.\<close>

theorem GetContiguousFileAddressRanges_correct:
  assumes "sequences_ok seqs"
  shows "GetContiguousFileAddressRanges (concat seqs) rs keep =
      (length seqs, (if keep then rs else []) @ map sequence_range seqs) \<and>
    cells (map sequence_range seqs) = {a. line_index (concat seqs) a \<noteq> None}"
proof -
  have ok: "\<forall>s \<in> set seqs. sequence_ok s" using assms by (simp add: sequences_ok_def)
  have "(line_index (concat seqs) a \<noteq> None) = (\<exists>i. covers (concat seqs) i a)" for a
  proof (cases "\<exists>i. covers (concat seqs) i a")
    case True
    then show ?thesis using line_index_Some [OF sequences_table_ok [OF assms]] by auto
  next
    case False
    then show ?thesis using line_index_None [of "concat seqs" a] by simp
  qed
  moreover have "(\<exists>i. covers (concat seqs) i a) = (a \<in> cells (map sequence_range seqs))" for a
    unfolding covers_spans using ok
  proof (induction seqs)
    case (Cons s seqs)
    have s: "sequence_ok s" using Cons.prems by simp
    have "spans (concat (s # seqs)) = spans s @ spans (concat seqs)"
      using spans_append [of s] sequence_ok_span(5) [OF s] by (simp add: closed_def)
    moreover have "(a \<in> cells_of (sequence_range s)) =
        (te_file_addr (hd s) \<le> a \<and> a < te_file_addr (last s))"
      using sequence_ok_span(1) [OF s] by (auto simp: cells_of_def sequence_range_def)
    ultimately show ?case
      using spans_of_sequence [OF s, of a] Cons by (simp add: bex_Un)
  qed simp
  ultimately show ?thesis
    using contiguous_sequences [OF ok] by (auto simp: GetContiguousFileAddressRanges_def Let_def)
qed

section \<open>The nearest row of a line\<close>

text \<open>The rows a search for a line may return, in the order of the table.\<close>

definition candidates ::
  "(table_entry \<Rightarrow> bool) \<Rightarrow> table_entry list \<Rightarrow> u32 \<Rightarrow> bool \<Rightarrow> nat \<Rightarrow> nat list" where
  "candidates in_file es line exact start =
     [i \<leftarrow> [start ..< length es]. \<not> te_is_terminal_entry (es ! i) \<and> in_file (es ! i) \<and>
        line \<le> te_line (es ! i) \<and> (exact \<longrightarrow> te_line (es ! i) = line)]"

definition nearest :: "table_entry list \<Rightarrow> nat list \<Rightarrow> nat option" where
  "nearest es is = (if is = [] then None else Some (arg_min_list (\<lambda>i. te_line (es ! i)) is))"

lemma arg_min_list_Cons:
  "arg_min_list f (x # y # zs) = (if f y < f x then arg_min_list f (y # zs) else arg_min_list f (x # zs))"
proof (cases zs)
  case Nil
  then show ?thesis by (auto simp: Let_def)
next
  case (Cons z zs')
  have "f (arg_min_list f (y # zs)) \<le> f y"
    using f_arg_min_list_f [of "y # zs" f] by simp
  then show ?thesis using Cons by (auto simp: Let_def)
qed

lemma arg_min_list_first: "\<forall>z \<in> set zs. f y \<le> f z \<Longrightarrow> arg_min_list f (y # zs) = y"
proof (cases zs)
  case (Cons z zs')
  assume "\<forall>z \<in> set zs. f y \<le> f z"
  moreover have "arg_min_list f zs \<in> set zs" using Cons by (intro arg_min_list_in) simp
  ultimately have "f y \<le> f (arg_min_list f zs)" by blast
  then show ?thesis using Cons by (simp add: Let_def)
qed simp

lemma candidates_rec:
  "candidates in_file es line exact idx =
     (if idx < length es
      then (if \<not> te_is_terminal_entry (es ! idx) \<and> in_file (es ! idx) \<and> line \<le> te_line (es ! idx) \<and>
               (exact \<longrightarrow> te_line (es ! idx) = line) then [idx] else []) @
           candidates in_file es line exact (idx + 1)
      else [])"
  by (cases "idx < length es") (simp_all add: candidates_def upt_conv_Cons)

lemma line_loop_nearest:
  assumes "length es \<le> UINT32_MAX" "best \<noteq> UINT32_MAX \<longrightarrow> \<not> exact \<and> line < te_line (es ! best)"
  shows "line_loop in_file es line exact idx best =
    nearest es ((if best = UINT32_MAX then [] else [best]) @ candidates in_file es line exact idx)"
  using assms
proof (induction in_file es line exact idx best rule: line_loop.induct)
  case (1 in_file es line exact idx best)
  let ?f = "\<lambda>i. te_line (es ! i)"
  show ?case
  proof (cases "idx < length es")
    case False
    then show ?thesis
      by (subst line_loop.simps) (simp add: candidates_def nearest_def)
  next
    case in_table: True
    have idx: "idx \<noteq> UINT32_MAX" using in_table 1(4) by simp
    show ?thesis
    proof (cases "te_is_terminal_entry (es ! idx) \<or> \<not> in_file (es ! idx) \<or> te_line (es ! idx) < line")
      case True
      then have "candidates in_file es line exact idx = candidates in_file es line exact (idx + 1)"
        by (subst candidates_rec) (auto simp: candidates_def)
      then show ?thesis
        using 1(1) [OF in_table True] 1(4,5) in_table True by (subst line_loop.simps) simp
    next
      case row: False
      show ?thesis
      proof (cases "te_line (es ! idx) = line")
        case True
        have c: "candidates in_file es line exact idx = idx # candidates in_file es line exact (idx + 1)"
          using row True in_table by (subst candidates_rec) auto
        have "arg_min_list ?f (idx # candidates in_file es line exact (idx + 1)) = idx"
          using True by (intro arg_min_list_first) (simp add: candidates_def)
        moreover have "arg_min_list ?f (best # idx # zs) = arg_min_list ?f (idx # zs)"
          if "best \<noteq> UINT32_MAX" for zs
          using that 1(5) True by (subst arg_min_list_Cons) simp
        ultimately show ?thesis
          using row True in_table c
          by (subst line_loop.simps) (simp add: nearest_def del: arg_min_list.simps)
      next
        case above: False
        then have gt: "line < te_line (es ! idx)" using row by (auto simp: not_less order_less_le)
        show ?thesis
        proof (cases "\<not> exact \<and> (best = UINT32_MAX \<or> te_line (es ! idx) < te_line (es ! best))")
          case True
          have c: "candidates in_file es line exact idx = idx # candidates in_file es line exact (idx + 1)"
            using row gt True in_table by (subst candidates_rec) auto
          have "line_loop in_file es line exact idx best = line_loop in_file es line exact (idx + 1) idx"
            using row above True in_table by (subst line_loop.simps) simp
          also have "\<dots> = nearest es (idx # candidates in_file es line exact (idx + 1))"
            using 1(2) [OF in_table row above True] 1(4) True gt idx by simp
          also have "\<dots> = nearest es ((if best = UINT32_MAX then [] else [best]) @
              idx # candidates in_file es line exact (idx + 1))"
            using True arg_min_list_Cons [of ?f best idx]
            by (auto simp: nearest_def simp del: arg_min_list.simps)
          finally show ?thesis unfolding c .
        next
          case skip: False
          have "line_loop in_file es line exact idx best = line_loop in_file es line exact (idx + 1) best"
            by (subst line_loop.simps) (use row above skip in_table in auto)
          also have "\<dots> = nearest es ((if best = UINT32_MAX then [] else [best]) @
              candidates in_file es line exact (idx + 1))"
            using 1(3) [OF in_table row above skip] 1(4,5) by simp
          also have "\<dots> = nearest es ((if best = UINT32_MAX then [] else [best]) @
              candidates in_file es line exact idx)"
          proof (cases exact)
            case True
            then have "candidates in_file es line exact idx = candidates in_file es line exact (idx + 1)"
              using above by (subst candidates_rec) (auto simp: candidates_def)
            then show ?thesis by simp
          next
            case False
            then have c: "candidates in_file es line exact idx = idx # candidates in_file es line exact (idx + 1)"
              using row gt in_table by (subst candidates_rec) auto
            have "best \<noteq> UINT32_MAX" "\<not> te_line (es ! idx) < te_line (es ! best)"
              using skip False by auto
            then show ?thesis
              unfolding c using arg_min_list_Cons [of ?f best idx] by (simp add: nearest_def del: arg_min_list.simps)
          qed
          finally show ?thesis .
        qed
      qed
    qed
  qed
qed

text \<open>C40: The search for a line of a file returns the first row, from the given one on, whose line is
  nearest to the one asked for among the rows of the file at or behind it (on the line
  itself, for an exact search), and the invalid index when there is none; the search in several files is the
  same over all of them.\<close>

theorem FindLineEntryIndexByFileIndex_nearest:
  assumes "length es \<le> UINT32_MAX"
  shows "FindLineEntryIndexByFileIndex env es start file line exact le_ptr =
      found_line env es (nearest es (candidates (\<lambda>e. ucast (te_file_idx e) = file) es line exact start)) le_ptr \<and>
    FindLineEntryIndexByFileIndexes env es start files line exact le_ptr =
      found_line env es (nearest es (candidates (\<lambda>e. ucast (te_file_idx e) \<in> set files) es line exact start)) le_ptr"
  using line_loop_nearest [OF assms]
  by (simp add: FindLineEntryIndexByFileIndex_def FindLineEntryIndexByFileIndexes_def)

section \<open>The range of a line\<close>

text \<open>What the symbol context of an address finds, when this table is the one of its compile unit.\<close>

definition context_in ::
  "line_env \<Rightarrow> table_entry list \<Rightarrow> address \<Rightarrow> line_entry" where
  "context_in env es a = fst (snd (FindLineEntryByAddress env es a new_LineEntry))"

definition same_line_row :: "line_env \<Rightarrow> table_entry \<Rightarrow> table_entry \<Rightarrow> bool" where
  "same_line_row env e f \<longleftrightarrow>
     GetFileSpecAtIndex (ln_support_files env) (unat (te_file_idx e)) =
       GetFileSpecAtIndex (ln_support_files env) (unat (te_file_idx f)) \<and>
     (te_line f = 0 \<or> te_line f = te_line e)"

text \<open>A compile unit with its sections: every row lies in a section of the module, with a file address
  below it.\<close>

definition unit_ok :: "line_env \<Rightarrow> section_list \<Rightarrow> table_entry list \<Rightarrow> bool" where
  "unit_ok env sections es \<longleftrightarrow>
     ln_module env \<noteq> None \<and> ln_sections env = Some sections \<and> length es < 2 ^ 32 \<and>
     (\<forall>e \<in> set es. te_line e \<noteq> LLDB_INVALID_LINE_NUMBER \<and> (\<not> te_is_terminal_entry e \<longrightarrow>
        (\<exists>sect. sections (te_file_addr e) = Some sect \<and> ln_module_of env sect = ln_module env \<and>
           sect_file_addr sect \<le> te_file_addr e)))"

lemma entry_of_row_simps [simp]:
  "le_range (entry_of_row sections files e n) =
     \<lparr>ar_base_addr = ResolveAddressUsingFileSections sections (te_file_addr e), ar_byte_size = n\<rparr>"
  "le_original_file (entry_of_row sections files e n) = GetFileSpecAtIndex files (unat (te_file_idx e))"
  "le_line (entry_of_row sections files e n) = te_line e"
  by (simp_all add: entry_of_row_def)

lemma resolved_address:
  assumes "unit_ok env sections es" "e \<in> set es" "\<not> te_is_terminal_entry e"
    and "te_file_addr e < LLDB_INVALID_ADDRESS" "te_file_addr e + n < LLDB_INVALID_ADDRESS"
  defines "base \<equiv> ResolveAddressUsingFileSections sections (te_file_addr e)"
  shows "GetFileAddress (Slide base n) = te_file_addr e + n" "GetModule_address env (Slide base n) = ln_module env"
    and "IsValid_address base"
proof -
  obtain sect where s: "sections (te_file_addr e) = Some sect" "ln_module_of env sect = ln_module env"
    "sect_file_addr sect \<le> te_file_addr e"
    using assms(1-3) by (auto simp: unit_ok_def)
  have small: "te_file_addr e - sect_file_addr sect < LLDB_INVALID_ADDRESS"
    "te_file_addr e - sect_file_addr sect + n < 2 ^ 64" "te_file_addr e - sect_file_addr sect < 2 ^ 64"
    "sect_file_addr sect + (te_file_addr e - sect_file_addr sect + n) = te_file_addr e + n"
    "te_file_addr e + n < 2 ^ 64" "sect_file_addr sect \<noteq> LLDB_INVALID_ADDRESS"
    using assms(4,5) s(3) by (simp_all add: UINT64_MAX_def)
  have "te_file_addr e + 2 ^ 64 - sect_file_addr sect = te_file_addr e - sect_file_addr sect + 2 ^ 64"
    using s(3) by simp
  then have "(te_file_addr e + 2 ^ 64 - sect_file_addr sect) mod 2 ^ 64 = te_file_addr e - sect_file_addr sect"
    using small(3) by (simp only: mod_add_self2 mod_less)
  then have base: "base = \<lparr>ad_section = Some sect, ad_offset = te_file_addr e - sect_file_addr sect\<rparr>"
    by (simp only: base_def ResolveAddressUsingFileSections_def s(1) option.case)
  have slide: "Slide base n = \<lparr>ad_section = Some sect, ad_offset = te_file_addr e - sect_file_addr sect + n\<rparr>"
    using small(1,2) by (simp add: base Slide_def)
  show "GetFileAddress (Slide base n) = te_file_addr e + n"
    unfolding slide GetFileAddress_def address.simps option.case small(4)
    using small(5,6) by (simp only: if_False mod_less)
  show "GetModule_address env (Slide base n) = ln_module env"
    unfolding slide by (simp add: GetModule_address_def s(2))
  show "IsValid_address base"
    using small(1) by (simp add: base IsValid_address_def)
qed

lemma context_in_table:
  assumes "sequences_ok seqs" "unit_ok env sections (concat seqs)"
    and "GetModule_address env a = ln_module env" "GetFileAddress a \<noteq> LLDB_INVALID_ADDRESS"
  shows "context_in env (concat seqs) a =
    (case line_index (concat seqs) (GetFileAddress a) of
       Some i \<Rightarrow> entry_of_row sections (ln_support_files env) (concat seqs ! i)
                     (te_file_addr (concat seqs ! (i + 1)) - te_file_addr (concat seqs ! i))
     | None \<Rightarrow> new_LineEntry)"
proof -
  obtain k where k: "ln_module env = Some k" using assms(2) by (auto simp: unit_ok_def)
  have "\<forall>e \<in> set (concat seqs). \<not> te_is_terminal_entry e \<longrightarrow> sections (te_file_addr e) \<noteq> None"
    using assms(2) unfolding unit_ok_def by (metis option.distinct(1))
  then show ?thesis
    using FindLineEntryByAddress_table [OF assms(1) _ k, of sections a new_LineEntry] assms(2-4) k
    by (simp add: context_in_def unit_ok_def split: option.split)
qed

text \<open>The addresses from one to another belong to the line, and the next one does not.\<close>

definition line_run :: "line_env \<Rightarrow> table_entry list \<Rightarrow> nat \<Rightarrow> nat \<Rightarrow> nat \<Rightarrow> bool" where
  "line_run env es i lo hi \<longleftrightarrow>
     (\<forall>a. lo \<le> a \<and> a < hi \<longrightarrow> (\<exists>k. covers es k a \<and> same_line_row env (es ! i) (es ! k))) \<and>
     \<not> (\<exists>k. covers es k hi \<and> same_line_row env (es ! i) (es ! k))"

lemma line_run_empty:
  "line_run env es i a a \<longleftrightarrow> \<not> (\<exists>k. covers es k a \<and> same_line_row env (es ! i) (es ! k))"
  by (auto simp: line_run_def)

lemma line_run_extend:
  assumes "line_run env es i mid hi" "same_line_row env (es ! i) (es ! k)"
    and "k + 1 < length es" "\<not> te_is_terminal_entry (es ! k)"
    and "te_file_addr (es ! k) = lo" "te_file_addr (es ! (k + 1)) = mid"
  shows "line_run env es i lo hi"
  unfolding line_run_def
proof (intro conjI allI impI)
  fix a assume a: "lo \<le> a \<and> a < hi"
  show "\<exists>k. covers es k a \<and> same_line_row env (es ! i) (es ! k)"
  proof (cases "a < mid")
    case True
    then show ?thesis using assms(2-6) a by (auto simp: covers_def)
  next
    case False
    then show ?thesis using assms(1) a by (simp add: line_run_def)
  qed
qed (use assms(1) in \<open>simp add: line_run_def\<close>)

lemma same_line_loop_ok:
  fixes seqs env sections i
  defines "es \<equiv> concat seqs"
  assumes seqs: "sequences_ok seqs" and unit: "unit_ok env sections es"
    and i: "i < length es" "\<not> te_is_terminal_entry (es ! i)"
    and le: "le = entry_of_row sections (ln_support_files env) (es ! i) m"
  defines "base \<equiv> ResolveAddressUsingFileSections sections (te_file_addr (es ! i))"
  assumes j: "i < j" "j < length es" "te_file_addr (es ! i) + n = te_file_addr (es ! j)"
  shows "\<exists>n'. same_line_loop (context_in env es) le \<lparr>ar_base_addr = base, ar_byte_size = n\<rparr> =
      Some \<lparr>ar_base_addr = base, ar_byte_size = n'\<rparr> \<and>
    line_run env es i (te_file_addr (es ! j)) (te_file_addr (es ! i) + n')"
  using j
proof (induction "length es - j" arbitrary: j n rule: less_induct)
  case less
  have ok: "table_ok es" using sequences_table_ok [OF seqs] by (simp add: es_def)
  let ?r = "\<lparr>ar_base_addr = base, ar_byte_size = n\<rparr>"
  let ?next = "context_in env es (Slide base n)"
  let ?more = "IsValid_LineEntry ?next \<and> ar_byte_size (le_range ?next) > 0 \<and>
      le_original_file le = le_original_file ?next \<and> (le_line ?next = 0 \<or> le_line le = le_line ?next)"
  have goes_on: "same_line_loop (context_in env es) le ?r = same_line_loop (context_in env es) le
          (?r\<lparr>ar_byte_size := (n + ar_byte_size (le_range ?next)) mod 2 ^ 64\<rparr>)" if ?more
    using that by (subst same_line_loop.simps) (auto simp: Let_def)
  have stops: "same_line_loop (context_in env es) le ?r = Some ?r" if "\<not> ?more"
    using that by (subst same_line_loop.simps) (auto simp: Let_def)
  have at: "GetFileAddress (Slide base n) = te_file_addr (es ! j)" "GetModule_address env (Slide base n) = ln_module env"
    using resolved_address(1,2) [OF unit nth_mem [OF i(1)] i(2), of n] table_ok_addr [OF ok i(1)]
      table_ok_addr [OF ok less.prems(2)] less.prems(3) by (simp_all add: base_def)
  have "context_in env es (Slide base n) = (case line_index es (te_file_addr (es ! j)) of
       Some k \<Rightarrow> entry_of_row sections (ln_support_files env) (es ! k)
                     (te_file_addr (es ! (k + 1)) - te_file_addr (es ! k))
     | None \<Rightarrow> new_LineEntry)"
    using context_in_table [OF seqs, of env sections "Slide base n"] unit at
      table_ok_addr [OF ok less.prems(2)] unfolding es_def by simp
  note next_row = this
  show ?case
  proof (cases "line_index es (te_file_addr (es ! j))")
    case None
    have "\<not> covers es k (te_file_addr (es ! j))" for k
      using None line_index_Some [OF ok] by fastforce
    moreover have "same_line_loop (context_in env es) le ?r = Some ?r"
      using None next_row by (intro stops) (simp add: new_LineEntry_def IsValid_LineEntry_def)
    ultimately show ?thesis
      using less.prems(3) by (intro exI [of _ n]) (simp add: line_run_empty)
  next
    case (Some k)
    have cov: "covers es k (te_file_addr (es ! j))"
      using Some line_index_None [of es "te_file_addr (es ! j)"] line_index_Some [OF ok]
      by (metis option.distinct(1) option.inject)
    then have k: "k + 1 < length es" "\<not> te_is_terminal_entry (es ! k)" by (simp_all add: covers_def)
    have "j \<le> k"
    proof (rule ccontr)
      assume "\<not> j \<le> k"
      then have "te_file_addr (es ! (k + 1)) \<le> te_file_addr (es ! j)"
        using table_ok_nth(1) [OF ok, of "k + 1" j] less.prems(2) by simp
      then show False using cov by (simp add: covers_def)
    qed
    then have addr: "te_file_addr (es ! k) = te_file_addr (es ! j)"
      using table_ok_nth(1) [OF ok, of j k] cov k by (simp add: covers_def)
    have up: "te_file_addr (es ! k) < te_file_addr (es ! (k + 1))" using table_ok_nth(2) [OF ok k] .
    let ?size = "te_file_addr (es ! (k + 1)) - te_file_addr (es ! k)"
    have row: "?next = entry_of_row sections (ln_support_files env) (es ! k) ?size"
      using next_row Some by simp
    have "IsValid_LineEntry ?next"
      using resolved_address(3) [OF unit nth_mem k(2), of 0] k table_ok_addr [OF ok, of k] unit
        nth_mem [of k es] by (simp add: row IsValid_LineEntry_def unit_ok_def)
    then have more: "?more \<longleftrightarrow> same_line_row env (es ! i) (es ! k)"
      using up by (auto simp: row le same_line_row_def)
    show ?thesis
    proof (cases "same_line_row env (es ! i) (es ! k)")
      case True
      have sum: "te_file_addr (es ! i) + (n + ?size) = te_file_addr (es ! (k + 1))"
        using less.prems(3) addr up by simp
      moreover have "n + ?size < 2 ^ 64"
        using sum table_ok_addr [OF ok k(1)] by (simp add: UINT64_MAX_def)
      moreover have shorter: "length es - (k + 1) < length es - j" using \<open>j \<le> k\<close> k(1) by simp
      ultimately obtain n' where n': "same_line_loop (context_in env es) le
            \<lparr>ar_base_addr = base, ar_byte_size = (n + ?size) mod 2 ^ 64\<rparr> =
          Some \<lparr>ar_base_addr = base, ar_byte_size = n'\<rparr>"
        "line_run env es i (te_file_addr (es ! (k + 1))) (te_file_addr (es ! i) + n')"
        using less.hyps [of "k + 1" "n + ?size"] shorter k(1) less.prems(1) \<open>j \<le> k\<close>
        by (auto simp del: One_nat_def)
      have "same_line_loop (context_in env es) le ?r = Some \<lparr>ar_base_addr = base, ar_byte_size = n'\<rparr>"
        using n'(1) goes_on True more row by simp
      moreover have "line_run env es i (te_file_addr (es ! j)) (te_file_addr (es ! i) + n')"
        using line_run_extend [OF n'(2) True k addr] by simp
      ultimately show ?thesis by blast
    next
      case False
      have "\<not> (\<exists>k. covers es k (te_file_addr (es ! j)) \<and> same_line_row env (es ! i) (es ! k))"
        using False covers_unique [OF ok cov] by blast
      moreover have "same_line_loop (context_in env es) le ?r = Some ?r"
        using False more by (intro stops) simp
      ultimately show ?thesis
        using less.prems(3) by (intro exI [of _ n]) (simp add: line_run_empty)
    qed
  qed
qed

text \<open>C18: For a row of a table the range of its line is found: the loop ends, and the range starts at the
  row and reaches over exactly the addresses that belong to rows of the same file with the
  same line or with line 0, to the first address that does not.\<close>

theorem GetSameLineContiguousAddressRange_correct:
  assumes "sequences_ok seqs" "unit_ok env sections (concat seqs)"
    and "i < length (concat seqs)" "\<not> te_is_terminal_entry (concat seqs ! i)"
  shows "\<exists>le n. ConvertEntryAtIndexToLineEntry env (concat seqs) i new_LineEntry = (True, le) \<and>
    GetSameLineContiguousAddressRange (context_in env (concat seqs)) le =
      Some \<lparr>ar_base_addr = ar_base_addr (le_range le), ar_byte_size = n\<rparr> \<and>
    line_run env (concat seqs) i (te_file_addr (concat seqs ! i)) (te_file_addr (concat seqs ! i) + n)"
proof -
  define es where "es = concat seqs"
  have ok: "table_ok es" using sequences_table_ok [OF assms(1)] by (simp add: es_def)
  have i: "i < length es" "\<not> te_is_terminal_entry (es ! i)" using assms(3,4) by (simp_all add: es_def)
  have next_row: "i + 1 < length es" using table_ok_nth(5) [OF ok i] .
  have up: "te_file_addr (es ! i) < te_file_addr (es ! (i + 1))" using table_ok_nth(2) [OF ok next_row i(2)] .
  let ?n = "te_file_addr (es ! (i + 1)) - te_file_addr (es ! i)"
  let ?le = "entry_of_row sections (ln_support_files env) (es ! i) ?n"
  have unit: "unit_ok env sections es" using assms(2) by (simp add: es_def)
  have "sections (te_file_addr (es ! i)) \<noteq> None"
    using unit i nth_mem [OF i(1)] unfolding unit_ok_def by (metis option.distinct(1))
  then have conv: "ConvertEntryAtIndexToLineEntry env es i new_LineEntry = (True, ?le)"
    using Convert_row [OF ok next_row i(2)] unit by (simp add: unit_ok_def)
  obtain n where n: "same_line_loop (context_in env es) ?le (le_range ?le) =
      Some \<lparr>ar_base_addr = ar_base_addr (le_range ?le), ar_byte_size = n\<rparr>"
    "line_run env es i (te_file_addr (es ! (i + 1))) (te_file_addr (es ! i) + n)"
    using same_line_loop_ok [OF assms(1) unit [unfolded es_def] i [unfolded es_def] refl, of "i + 1" ?n]
      next_row up by (auto simp: es_def)
  have "same_line_row env (es ! i) (es ! i)" by (simp add: same_line_row_def)
  then have "line_run env es i (te_file_addr (es ! i)) (te_file_addr (es ! i) + n)"
    using line_run_extend [OF n(2) _ next_row i(2)] by simp
  then show ?thesis
    using conv n(1) unfolding es_def [symmetric] GetSameLineContiguousAddressRange_def by blast
qed

section \<open>Where the table departs from the debug information\<close>

text \<open>The index of the file of a row has 11 bits: a row of file n of a compile unit is stored and
  reported as one of file n mod 2048.\<close>

theorem file_index_truncated:
  assumes "te_is_terminal_entry t" "ln_module env \<noteq> None" "ln_sections env = Some sections"
    and "sections file_addr \<noteq> None"
  shows "\<exists>le. ConvertEntryAtIndexToLineEntry env
        (InsertSequence []
           (AppendLineEntryToSequence [] file_addr line column file_idx stmt block prologue epilogue False @ [t]))
        0 new_LineEntry = (True, le) \<and>
      le_line le = line \<and>
      le_file le = GetFileSpecAtIndex (ln_support_files env) (unat file_idx mod 2048)"
proof -
  have "unat (ucast file_idx :: 11 word) = unat file_idx mod 2048"
    by (simp add: unsigned_ucast_eq take_bit_eq_mod)
  then show ?thesis
    using assms(2-4)
    by (auto simp: AppendLineEntryToSequence_def InsertSequence_def ConvertEntryAtIndexToLineEntry_def
        ResolveFileAddress_module_def new_Entry_def Let_def)
qed

text \<open>A terminal row in front of a table hides the row behind it that starts at its address: the
  search skips a terminal row only if it is not the first.\<close>

theorem leading_terminal_hides:
  assumes "te_is_terminal_entry t" "te_file_addr e = te_file_addr t" "\<not> te_is_terminal_entry e"
    and "GetFileAddress so_addr = te_file_addr t"
  shows "FindLineEntryByAddress env (t # e # es) so_addr le = (False, le, UINT32_MAX)"
proof -
  have "find_position (t # e # es) (GetFileAddress so_addr) = Some 0"
    using assms by (simp add: find_position_def lower_bound_def)
  then show ?thesis using assms(1) by (simp add: FindLineEntryByAddress_def)
qed

section \<open>Examples\<close>

definition demo_row :: "nat \<Rightarrow> u32 \<Rightarrow> u16 \<Rightarrow> bool \<Rightarrow> table_entry" where
  "demo_row file_addr line file_idx terminal =
     new_Entry file_addr line 0 file_idx True False False False terminal"

definition demo_seqs :: "table_entry list list" where
  "demo_seqs =
     [[demo_row 0x100 7 1 False, demo_row 0x108 0 1 False, demo_row 0x110 7 1 False, demo_row 0x120 7 1 True],
      [demo_row 0x120 9 1 False, demo_row 0x130 9 1 True]]"

definition demo_sect :: obj_section where
  "demo_sect = \<lparr>sect_id = 1, sect_file_addr = 0x80\<rparr>"

definition demo_unit :: line_env where
  "demo_unit = \<lparr>ln_module = Some 5, ln_module_of = (\<lambda>_. Some 5), ln_sections = Some (\<lambda>_. Some demo_sect),
     ln_support_files = [''a.h'', ''a.c'']\<rparr>"

lemmas demo_lines = demo_row_def demo_seqs_def demo_sect_def demo_unit_def new_Entry_def

lemma demo_seqs_ok: "sequences_ok demo_seqs"
  by (simp add: demo_lines sequences_ok_def sequence_ok_def follows_def UINT64_MAX_def)

lemma demo_unit_ok: "unit_ok demo_unit (\<lambda>_. Some demo_sect) (concat demo_seqs)"
  by (auto simp: demo_lines unit_ok_def LLDB_INVALID_LINE_NUMBER_def UINT32_MAX_def)

lemma FindLineEntryByAddress_correct_witness:
  "FindLineEntryByAddress demo_unit (concat demo_seqs) \<lparr>ad_section = Some demo_sect, ad_offset = 0x89\<rparr>
     new_LineEntry =
   (True, entry_of_row (\<lambda>_. Some demo_sect) [''a.h'', ''a.c''] (demo_row 0x108 0 1 False) 8, 1)"
proof -
  let ?a = "\<lparr>ad_section = Some demo_sect, ad_offset = 0x89\<rparr>"
  have a: "GetFileAddress ?a = 0x109" "GetModule_address demo_unit ?a = Some 5"
    by (simp_all add: GetFileAddress_def GetModule_address_def demo_lines UINT64_MAX_def)
  have "covers (concat demo_seqs) 1 0x109" by (simp add: covers_def demo_lines)
  then have "line_index (concat demo_seqs) 0x109 = Some 1"
    by (rule line_index_Some [OF sequences_table_ok [OF demo_seqs_ok]])
  then show ?thesis
    using FindLineEntryByAddress_correct [OF demo_seqs_ok, of demo_unit 5 "\<lambda>_. Some demo_sect" ?a new_LineEntry] a
    by (simp add: demo_lines UINT64_MAX_def)
qed

lemma InsertSequence_sorted_witness:
  "InsertSequence (concat [demo_seqs ! 1]) (demo_seqs ! 0) = concat demo_seqs"
  using InsertSequence_sorted [of "[demo_seqs ! 1]" "demo_seqs ! 0"] demo_seqs_ok
  by (simp add: demo_lines sequences_ok_def follows_def)

definition demo_map :: "file_range list" where
  "demo_map = [\<lparr>rg_base = 0x100, rg_size = 0xc, fr_data = 0x1000\<rparr>,
               \<lparr>rg_base = 0x110, rg_size = 0x20, fr_data = 0x500\<rparr>]"

lemma LinkLineTable_spans_witness:
  "\<exists>t. LinkLineTable (concat demo_seqs) demo_map = Some t \<and>
     mset (spans (case t of None \<Rightarrow> [] | Some t \<Rightarrow> t)) =
       mset [(demo_row 0x1000 7 1 False, 0x1008), (demo_row 0x1008 0 1 False, 0x100c),
             (demo_row 0x500 7 1 False, 0x510), (demo_row 0x510 9 1 False, 0x520)]"
proof -
  have m: "map_ok_link demo_map"
    by (simp add: map_ok_link_def demo_map_def range.truncate_def range_ok_def before_def)
  have "closed (concat demo_seqs)" "\<forall>e \<in> set (concat demo_seqs). te_file_addr e < 2 ^ 64"
    by (simp_all add: demo_lines)
  note link = LinkLineTable_spans [OF m this]
  have "concat (map (link_span demo_map) (spans (concat demo_seqs))) =
      [(demo_row 0x1000 7 1 False, 0x1008), (demo_row 0x1008 0 1 False, 0x100c),
       (demo_row 0x500 7 1 False, 0x510), (demo_row 0x510 9 1 False, 0x520)]"
    by (simp add: demo_lines demo_map_def link_span_def Contains_def GetRangeEnd_def range.truncate_def
        relink_def)
  then show ?thesis using link by simp
qed

lemma GetContiguousFileAddressRanges_correct_witness:
  "GetContiguousFileAddressRanges (concat demo_seqs) [] False =
     (2, [\<lparr>rg_base = 0x100, rg_size = 0x20\<rparr>, \<lparr>rg_base = 0x120, rg_size = 0x10\<rparr>])"
  using GetContiguousFileAddressRanges_correct [OF demo_seqs_ok, of "[]" False]
  by (simp add: demo_lines sequence_range_def)

lemma FindLineEntryIndexByFileIndex_nearest_witness:
  "FindLineEntryIndexByFileIndex demo_unit (concat demo_seqs) 0 1 8 False None = (4, None)"
  using FindLineEntryIndexByFileIndex_nearest [of "concat demo_seqs" demo_unit 0 1 8 False None "[]"]
  by (simp add: demo_lines candidates_def nearest_def found_line_def UINT32_MAX_def upt_rec_numeral)

lemma GetSameLineContiguousAddressRange_correct_witness:
  "\<exists>le n. ConvertEntryAtIndexToLineEntry demo_unit (concat demo_seqs) 0 new_LineEntry = (True, le) \<and>
    GetSameLineContiguousAddressRange (context_in demo_unit (concat demo_seqs)) le =
      Some \<lparr>ar_base_addr = ar_base_addr (le_range le), ar_byte_size = n\<rparr> \<and>
    line_run demo_unit (concat demo_seqs) 0 0x100 (0x100 + n)"
  using GetSameLineContiguousAddressRange_correct [OF demo_seqs_ok demo_unit_ok, of 0]
  by (simp add: demo_lines)

lemma file_index_truncated_witness:
  "\<exists>le. ConvertEntryAtIndexToLineEntry demo_unit
       (InsertSequence []
          (AppendLineEntryToSequence [] 0x100 7 0 2049 True False False False False @ [demo_row 0x110 7 1 True]))
       0 new_LineEntry = (True, le) \<and> le_line le = 7 \<and> le_file le = ''a.c''"
  using file_index_truncated [where t = "demo_row 0x110 7 1 True" and env = demo_unit and
      sections = "\<lambda>_. Some demo_sect" and file_addr = "0x100" and line = 7 and column = 0 and
      file_idx = 2049 and stmt = True and block = False and prologue = False and epilogue = False]
  by (simp add: demo_lines GetFileSpecAtIndex_def)

text \<open>A sequence that ends in another range than the one its last row is in: the linker leaves a lone
  terminal row, here in front of the row that follows it in that range.\<close>

definition demo_cut :: "table_entry list" where
  "demo_cut = [demo_row 0 1 1 False, demo_row 0x20 1 1 True, demo_row 0x20 2 1 False, demo_row 0x30 2 1 True]"

definition demo_cut_map :: "file_range list" where
  "demo_cut_map = [\<lparr>rg_base = 0, rg_size = 0x10, fr_data = 0x1000\<rparr>,
                   \<lparr>rg_base = 0x10, rg_size = 0x20, fr_data = 0x500\<rparr>]"

lemmas demo_link_defs = link_step_def terminate_previous_def link_current_def linked_end_def
      relink_def FindEntryThatContains_range_def lower_bound_def Contains_def GetRangeEnd_def
      range.truncate_def  Let_def demo_cut_def demo_cut_map_def demo_row_def new_Entry_def
      UINT64_MAX_def

lemma demo_link_1: "link_step demo_cut_map (demo_row 0 1 1 False)
    \<lparr>lk_table = [], lk_sequence = [],
       lk_range = None, lk_prev_range = None, lk_prev_linked = False\<rparr> =
  Some \<lparr>lk_table = [], lk_sequence = [demo_row 0x1000 1 1 False],
       lk_range = Some (demo_cut_map ! 0),
       lk_prev_range = None, lk_prev_linked = True\<rparr>"
  by (simp add: demo_link_defs)

lemma demo_link_2: "link_step demo_cut_map (demo_row 0x20 1 1 True)
  \<lparr>lk_table = [], lk_sequence = [demo_row 0x1000 1 1 False],
       lk_range = Some (demo_cut_map ! 0),
       lk_prev_range = None, lk_prev_linked = True\<rparr> =
  Some \<lparr>lk_table = [demo_row 0x510 1 1 True, demo_row 0x1000 1 1 False, demo_row 0x1010 1 1 True],
       lk_sequence = [],
       lk_range = Some (demo_cut_map ! 1),
       lk_prev_range = Some (demo_cut_map ! 0), lk_prev_linked = False\<rparr>"
  by (simp add: demo_link_defs InsertSequence_def upper_bound_def Entry_less_def EntryAddressLessThan_def
      insert_at_def)

lemma demo_link_3: "link_step demo_cut_map (demo_row 0x20 2 1 False)
  \<lparr>lk_table = [demo_row 0x510 1 1 True, demo_row 0x1000 1 1 False, demo_row 0x1010 1 1 True],
       lk_sequence = [],
       lk_range = Some (demo_cut_map ! 1),
       lk_prev_range = Some (demo_cut_map ! 0), lk_prev_linked = False\<rparr> =
  Some \<lparr>lk_table = [demo_row 0x510 1 1 True, demo_row 0x1000 1 1 False, demo_row 0x1010 1 1 True],
       lk_sequence = [demo_row 0x510 2 1 False],
       lk_range = Some (demo_cut_map ! 1),
       lk_prev_range = Some (demo_cut_map ! 0), lk_prev_linked = True\<rparr>"
  by (simp add: demo_link_defs)

lemma end_of_sequence_stays: "te_is_terminal_entry (es ! 0) \<Longrightarrow> end_of_sequence es (Suc 0) = Suc 0"
  by (subst end_of_sequence.simps) simp

lemma demo_link_4: "link_step demo_cut_map (demo_row 0x30 2 1 True)
  \<lparr>lk_table = [demo_row 0x510 1 1 True, demo_row 0x1000 1 1 False, demo_row 0x1010 1 1 True],
       lk_sequence = [demo_row 0x510 2 1 False],
       lk_range = Some (demo_cut_map ! 1),
       lk_prev_range = Some (demo_cut_map ! 0), lk_prev_linked = True\<rparr> =
  Some \<lparr>lk_table = [demo_row 0x510 1 1 True, demo_row 0x510 2 1 False, demo_row 0x520 2 1 True, demo_row 0x1000 1 1 False, demo_row 0x1010 1 1 True],
       lk_sequence = [],
       lk_range = Some (demo_cut_map ! 1),
       lk_prev_range = Some (demo_cut_map ! 0), lk_prev_linked = False\<rparr>"
  by (simp add: demo_link_defs InsertSequence_def upper_bound_def Entry_less_def EntryAddressLessThan_def
      insert_at_def end_of_sequence_stays)

lemma demo_cut_linked:
  "LinkLineTable demo_cut demo_cut_map =
     Some (Some [demo_row 0x510 1 1 True, demo_row 0x510 2 1 False, demo_row 0x520 2 1 True,
                 demo_row 0x1000 1 1 False, demo_row 0x1010 1 1 True])"
  by (simp add: LinkLineTable_def demo_cut_def demo_link_1 demo_link_2 [unfolded One_nat_def]
      demo_link_3 [unfolded One_nat_def]
     demo_link_4 [unfolded One_nat_def])

lemma leading_terminal_hides_witness:
  "\<exists>t so_addr. LinkLineTable demo_cut demo_cut_map = Some (Some t) \<and>
     GetFileAddress so_addr = 0x510 \<and> (demo_row 0x510 2 1 False, 0x520) \<in> set (spans t) \<and>
     FindLineEntryByAddress demo_unit t so_addr new_LineEntry = (False, new_LineEntry, UINT32_MAX)"
proof -
  let ?a = "\<lparr>ad_section = Some demo_sect, ad_offset = 0x490\<rparr>"
  have a: "GetFileAddress ?a = 0x510"
    by (simp add: GetFileAddress_def demo_sect_def UINT64_MAX_def)
  have "FindLineEntryByAddress demo_unit
      (demo_row 0x510 1 1 True # demo_row 0x510 2 1 False #
         [demo_row 0x520 2 1 True, demo_row 0x1000 1 1 False, demo_row 0x1010 1 1 True])
      ?a new_LineEntry = (False, new_LineEntry, UINT32_MAX)"
    by (rule leading_terminal_hides) (simp_all add: a demo_row_def new_Entry_def)
  then show ?thesis using a demo_cut_linked by (auto simp: demo_row_def new_Entry_def)
qed
end
