(* ===== verification/IRMemoryMap.thy ===== *)
theory IRMemoryMap
  imports ProcessMemory
begin

text \<open>
  Memory that an expression works on (\<open>IRMemoryMap\<close>, source/Expression/IRMemoryMap.cpp): a map of
  allocations that live in the debugger, in the process, or in both, with the process as the
  memory behind them.

  \<open>ir_map\<close> holds the allocations by address and the process, if there is one, with its state
  (ProcessMemory). The process plugin, the regions it reports, and the target with its
  object files are gathered in \<open>ir_env\<close>. Addresses are computed modulo \<open>2 ^ 64\<close>. A result of \<open>None\<close>
  is undefined behaviour (a division by an alignment of zero, a copy outside a buffer) or
  the search for space that does not end. An extractor that is handed out shares the bytes of the
  allocation with it; here it holds the bytes of that moment. Scalars are unsigned integers.
\<close>

unbundle bit_operations_syntax

section \<open>State\<close>

datatype allocation_policy =
  eAllocationPolicyInvalid | eAllocationPolicyHostOnly | eAllocationPolicyMirror | eAllocationPolicyProcessOnly

record allocation =
  al_process_alloc :: nat
  al_process_start :: nat
  al_size :: nat
  al_data :: "u8 list"
  al_policy :: allocation_policy
  al_leak :: bool
  al_permissions :: nat
  al_alignment :: nat

definition new_Allocation :: "nat \<Rightarrow> nat \<Rightarrow> nat \<Rightarrow> nat \<Rightarrow> nat \<Rightarrow> allocation_policy \<Rightarrow> allocation" where
  "new_Allocation process_alloc process_start n permissions alignment policy =
     \<lparr>al_process_alloc = process_alloc, al_process_start = process_start, al_size = n,
      al_data = (case policy of
                   eAllocationPolicyProcessOnly \<Rightarrow> []
                 | _ \<Rightarrow> replicate n 0),
      al_policy = policy, al_leak = False, al_permissions = permissions mod 256,
      al_alignment = alignment\<rparr>"

datatype optional_bool = eDontKnow | eNo | eYes

record region_info =
  ri_base :: nat
  ri_size :: nat
  ri_readable :: optional_bool
  ri_writable :: optional_bool
  ri_executable :: optional_bool

record ir_env =
  ie_platform :: platform
  ie_align_to :: "nat \<Rightarrow> nat \<Rightarrow> nat"
  ie_process :: process_env
  ie_region_info :: "process \<Rightarrow> nat \<Rightarrow> region_info option"
  ie_target :: "(byte_order \<times> nat) option"
  ie_target_read :: "nat \<Rightarrow> nat \<Rightarrow> u8 list \<times> process_error option"

record ir_map =
  im_allocations :: "(nat \<times> allocation) list"
  im_process :: "process option"

definition GetByteOrder_ir :: "ir_env \<Rightarrow> ir_map \<Rightarrow> byte_order" where
  "GetByteOrder_ir env m =
     (case im_process m of
        Some p \<Rightarrow> pe_byte_order (ie_process env)
      | None \<Rightarrow> (case ie_target env of Some (order, _) \<Rightarrow> order | None \<Rightarrow> eByteOrderInvalid))"

definition GetAddressByteSize_ir :: "ir_env \<Rightarrow> ir_map \<Rightarrow> nat" where
  "GetAddressByteSize_ir env m =
     (case im_process m of
        Some p \<Rightarrow> pe_address_byte_size (ie_process env)
      | None \<Rightarrow> (case ie_target env of Some (_, n) \<Rightarrow> n | None \<Rightarrow> UINT32_MAX))"

section \<open>Finding space\<close>

definition region_end :: "region_info \<Rightarrow> nat" where
  "region_end r = (ri_base r + ri_size r) mod 2 ^ 64"

definition mapped :: "region_info \<Rightarrow> bool" where
  "mapped r \<longleftrightarrow> ri_readable r \<noteq> eNo \<or> ri_writable r \<noteq> eNo \<or> ri_executable r \<noteq> eNo"

text \<open>The walk over the regions of the process: whether an unmapped region has the space, and the
  address it has got to.\<close>

partial_function (option) hunt ::
  "(nat \<Rightarrow> region_info option) \<Rightarrow> nat \<Rightarrow> nat \<Rightarrow> nat \<Rightarrow> region_info \<Rightarrow> (bool \<times> nat) option" where
  "hunt region_at n end_of_memory ret r =
     (if mapped r \<and> (region_end r + 2 ^ 64 - 1) mod 2 ^ 64 \<ge> end_of_memory
      then Some (False, LLDB_INVALID_ADDRESS)
      else if \<not> mapped r \<and> (ret + n) mod 2 ^ 64 < region_end r
      then Some (True, ret)
      else case region_at (region_end r) of
             Some r' \<Rightarrow> hunt region_at n end_of_memory (if mapped r then region_end r else ret) r'
           | None \<Rightarrow> Some (False, LLDB_INVALID_ADDRESS))"

definition after_allocations :: "ir_env \<Rightarrow> (nat \<times> allocation) list \<Rightarrow> nat" where
  "after_allocations env als = ie_align_to env ((fst (last als) + al_size (snd (last als))) mod 2 ^ 64) 4096"

definition FindSpace :: "ir_env \<Rightarrow> nat \<Rightarrow> ir_map \<Rightarrow> (nat \<times> ir_map) option" where
  "FindSpace env n m =
     (let alive = (case im_process m of Some p \<Rightarrow> IsAlive p | None \<Rightarrow> False)
      in if n = 0 then Some (LLDB_INVALID_ADDRESS, m)
         else
           let (jit, m) =
             (case im_process m of
                Some p \<Rightarrow> if alive then (case CanJIT (ie_process env) p of (jit, p) \<Rightarrow> (jit, m\<lparr>im_process := Some p\<rparr>))
                          else (False, m)
              | None \<Rightarrow> (False, m))
           in if jit
              then (case im_process m of
                      Some p \<Rightarrow>
                        (case AllocateMemory_process (ie_process env) n 3 p of (ret, error, p) \<Rightarrow>
                           Some (if error \<noteq> None then LLDB_INVALID_ADDRESS else ret, m\<lparr>im_process := Some p\<rparr>))
                    | None \<Rightarrow> None)
              else do {
                let als = im_allocations m;
                let ret = (if als = [] then 0 else after_allocations env als);
                (found, ret) \<leftarrow>
                  (case im_process m of
                     Some p \<Rightarrow>
                       if alive then
                         (case ie_region_info env p ret of
                            Some r \<Rightarrow> hunt (ie_region_info env p) n
                                        (if pe_address_byte_size (ie_process env) = 8 then 2 ^ 64 - 1 else 2 ^ 32 - 1) ret r
                          | None \<Rightarrow> Some (False, ret))
                       else Some (False, ret)
                   | None \<Rightarrow> Some (False, ret));
                Some (if found then ret
                      else if als = [] then
                        (if GetAddressByteSize_ir env m = 8 then 0xffffffff00000000
                         else if GetAddressByteSize_ir env m = 4 then 0xee000000
                         else ret)
                      else after_allocations env als, m) })"

section \<open>Lookup\<close>

definition FindAllocation :: "nat \<Rightarrow> nat \<Rightarrow> (nat \<times> allocation) list \<Rightarrow> nat option" where
  "FindAllocation addr n als =
     (if addr = LLDB_INVALID_ADDRESS then None
      else let pos = length (takeWhile (\<lambda>e. fst e < addr) als)
           in if (pos = length als \<or> fst (als ! pos) > addr) \<and> pos = 0 then None
              else let i = (if pos = length als \<or> fst (als ! pos) > addr then pos - 1 else pos);
                       (start, al) = als ! i
                   in if start \<le> addr \<and> (start + al_size al) mod 2 ^ 64 \<ge> (addr + n) mod 2 ^ 64
                      then Some i else None)"

definition AllocationsIntersect :: "nat \<Rightarrow> nat \<Rightarrow> nat \<Rightarrow> nat \<Rightarrow> bool" where
  "AllocationsIntersect addr1 size1 addr2 size2 \<longleftrightarrow>
     addr2 < (addr1 + size1) mod 2 ^ 64 \<and> addr1 < (addr2 + size2) mod 2 ^ 64"

definition IntersectsAllocation :: "nat \<Rightarrow> nat \<Rightarrow> (nat \<times> allocation) list \<Rightarrow> bool" where
  "IntersectsAllocation addr n als =
     (if addr = LLDB_INVALID_ADDRESS then False
      else let pos = length (takeWhile (\<lambda>e. fst e < addr) als);
               hits = (\<lambda>i. AllocationsIntersect addr n (al_process_start (snd (als ! i))) (al_size (snd (als ! i))))
           in (pos \<noteq> length als \<and> hits pos) \<or> (pos \<noteq> 0 \<and> hits (pos - 1)))"

section \<open>Writing and reading\<close>

definition memcpy_to :: "nat \<Rightarrow> u8 list \<Rightarrow> u8 list \<Rightarrow> u8 list option" where
  "memcpy_to offset bytes data =
     (if offset + length bytes \<le> length data then Some (overwrite offset bytes data) else None)"

definition write_process ::
  "ir_env \<Rightarrow> nat \<Rightarrow> u8 list \<Rightarrow> ir_map \<Rightarrow> (process_error option \<times> ir_map) option" where
  "write_process env addr bytes m =
     (case im_process m of
        Some p \<Rightarrow> do {
          (_, error, p) \<leftarrow> WriteMemory (ie_process env) addr bytes None p;
          Some (error, m\<lparr>im_process := Some p\<rparr>) }
      | None \<Rightarrow> Some (None, m))"

definition WriteMemory_ir ::
  "ir_env \<Rightarrow> nat \<Rightarrow> u8 list \<Rightarrow> ir_map \<Rightarrow> (process_error option \<times> ir_map) option" where
  "WriteMemory_ir env addr bytes m =
     (case FindAllocation addr (length bytes) (im_allocations m) of
        None \<Rightarrow>
          if im_process m \<noteq> None then write_process env addr bytes m
          else Some (Some (message ''no allocation contains the target range and the process does not exist''), m)
      | Some i \<Rightarrow>
          let (k, al) = im_allocations m ! i;
              offset = (addr + 2 ^ 64 - al_process_start al) mod 2 ^ 64;
              copy = do {
                data \<leftarrow> memcpy_to offset bytes (al_data al);
                Some (m\<lparr>im_allocations := (im_allocations m)[i := (k, al\<lparr>al_data := data\<rparr>)]\<rparr>) }
          in case al_policy al of
               eAllocationPolicyHostOnly \<Rightarrow>
                 if al_data al = [] then Some (Some (message ''data buffer is empty''), m)
                 else map_option (Pair None) copy
             | eAllocationPolicyMirror \<Rightarrow>
                 if al_data al = [] then Some (Some (message ''data buffer is empty''), m)
                 else Option.bind copy (write_process env addr bytes)
             | eAllocationPolicyProcessOnly \<Rightarrow> write_process env addr bytes m
             | eAllocationPolicyInvalid \<Rightarrow> Some (Some (message ''invalid allocation policy''), m))"

text \<open>The bytes that are read, the status and the map. Fewer bytes than asked for leave the rest of
  the caller's buffer alone.\<close>

definition read_process ::
  "ir_env \<Rightarrow> nat \<Rightarrow> nat \<Rightarrow> process \<Rightarrow> ir_map \<Rightarrow> (u8 list \<times> process_error option \<times> ir_map) option" where
  "read_process env addr n p m = do {
     (bs, error, p) \<leftarrow> ReadMemory (ie_process env) addr n p;
     Some (bs, map_option process_failed error, m\<lparr>im_process := Some p\<rparr>) }"

definition memcpy_from :: "nat \<Rightarrow> nat \<Rightarrow> u8 list \<Rightarrow> u8 list option" where
  "memcpy_from offset n data = (if offset + n \<le> length data then Some (take n (drop offset data)) else None)"

definition ReadMemory_ir ::
  "ir_env \<Rightarrow> nat \<Rightarrow> nat \<Rightarrow> ir_map \<Rightarrow> (u8 list \<times> process_error option \<times> ir_map) option" where
  "ReadMemory_ir env addr n m =
     (let failed = (\<lambda>text. Some ([], Some (message text), m))
      in case FindAllocation addr n (im_allocations m) of
           None \<Rightarrow>
             (case im_process m of
                Some p \<Rightarrow> read_process env addr n p m
              | None \<Rightarrow>
                  (case ie_target env of
                     Some _ \<Rightarrow> (case ie_target_read env addr n of (bs, error) \<Rightarrow> Some (bs, error, m))
                   | None \<Rightarrow> failed ''no allocation contains the target range, and neither the process nor the target exist''))
         | Some i \<Rightarrow>
             let al = snd (im_allocations m ! i);
                 offset = (addr + 2 ^ 64 - al_process_start al) mod 2 ^ 64
             in if offset > al_size al then failed ''data is not in the allocation''
                else case al_policy al of
                       eAllocationPolicyHostOnly \<Rightarrow>
                         if al_data al = [] then failed ''data buffer is empty''
                         else if length (al_data al) < (offset + n) mod 2 ^ 64
                         then failed ''not enough underlying data''
                         else map_option (\<lambda>bs. (bs, None, m)) (memcpy_from offset n (al_data al))
                     | eAllocationPolicyMirror \<Rightarrow>
                         (case im_process m of
                            Some p \<Rightarrow> read_process env addr n p m
                          | None \<Rightarrow>
                              if al_data al = [] then failed ''data buffer is empty''
                              else map_option (\<lambda>bs. (bs, None, m)) (memcpy_from offset n (al_data al)))
                     | eAllocationPolicyProcessOnly \<Rightarrow>
                         (case im_process m of
                            Some p \<Rightarrow> read_process env addr n p m
                          | None \<Rightarrow> Some ([], None, m))
                     | eAllocationPolicyInvalid \<Rightarrow> failed ''invalid allocation policy'')"

section \<open>Scalars and pointers\<close>

text \<open>The bytes of an unsigned integer of eight bytes on the host.\<close>

definition host_bytes :: "platform \<Rightarrow> u64 \<Rightarrow> u8 list" where
  "host_bytes pl v = (if InlHostByteOrder pl = eByteOrderBig then rev (nat_le_bytes 8 (unat v)) else nat_le_bytes 8 (unat v))"

text \<open>\<open>None\<close> as a whole when the copy does not end.\<close>

definition GetAsMemoryData :: "platform \<Rightarrow> u64 \<Rightarrow> nat \<Rightarrow> byte_order \<Rightarrow> (u8 list option \<times> nat) option" where
  "GetAsMemoryData pl v dst_len order =
     CopyByteOrderedData (DataExtractor_of_bytes (host_bytes pl v) (InlHostByteOrder pl) (sizeof_ptr pl) 1) 0 8 dst_len order"

definition WriteScalarToMemory_ir ::
  "ir_env \<Rightarrow> nat \<Rightarrow> u64 \<Rightarrow> nat \<Rightarrow> ir_map \<Rightarrow> (process_error option \<times> ir_map) option" where
  "WriteScalarToMemory_ir env addr v n m =
     (let n = (if n = UINT32_MAX then 8 else n)
      in if 0 < n then
           (case GetAsMemoryData (ie_platform env) v n (GetByteOrder_ir env m) of
              None \<Rightarrow> None
            | Some (Some buf, mem_size) \<Rightarrow>
                if 0 < mem_size then WriteMemory_ir env addr (take mem_size buf) m
                else Some (Some (message ''failed to get scalar as memory data''), m)
            | Some (None, _) \<Rightarrow> Some (Some (message ''failed to get scalar as memory data''), m))
         else Some (Some (message ''its size was zero''), m))"

definition WritePointerToMemory_ir ::
  "ir_env \<Rightarrow> nat \<Rightarrow> u64 \<Rightarrow> ir_map \<Rightarrow> (process_error option \<times> ir_map) option" where
  "WritePointerToMemory_ir env addr address m =
     WriteScalarToMemory_ir env addr address (GetAddressByteSize_ir env m) m"

text \<open>The value, unless the read fails. The buffer is zero before the read.\<close>

definition ReadScalarFromMemory_ir ::
  "ir_env \<Rightarrow> nat \<Rightarrow> nat \<Rightarrow> ir_map \<Rightarrow> (u64 option \<times> process_error option \<times> ir_map) option" where
  "ReadScalarFromMemory_ir env addr n m =
     (if 0 < n then do {
        (bs, error, m) \<leftarrow> ReadMemory_ir env addr n m;
        if error \<noteq> None then Some (None, error, m)
        else
          let pl = ie_platform env;
              data = DataExtractor_of_bytes (bs @ replicate (n - length bs) 0) (GetByteOrder_ir env m) (GetAddressByteSize_ir env m) 1
          in Some (if n = 1 then (Some (ucast (fst (GetU8 data 0))), None, m)
                   else if n = 2 then (Some (ucast (fst (GetU16 pl data 0))), None, m)
                   else if n = 4 then (Some (ucast (fst (GetU32 pl data 0))), None, m)
                   else if n = 8 then (Some (fst (GetU64 pl data 0)), None, m)
                   else (None, Some (message ''unsupported size''), m)) }
      else Some (None, Some (message ''its size was zero''), m))"

definition ReadPointerFromMemory_ir ::
  "ir_env \<Rightarrow> nat \<Rightarrow> ir_map \<Rightarrow> (u64 option \<times> process_error option \<times> ir_map) option" where
  "ReadPointerFromMemory_ir env addr m =
     ReadScalarFromMemory_ir env addr (GetAddressByteSize_ir env m) m"

text \<open>The extractor, if one is set, with the status.\<close>

definition GetMemoryData ::
  "ir_env \<Rightarrow> nat \<Rightarrow> nat \<Rightarrow> ir_map \<Rightarrow> (data_extractor option \<times> process_error option \<times> ir_map) option" where
  "GetMemoryData env addr n m =
     (let failed = (\<lambda>text. Some (None, Some (message text), m));
          extract = (\<lambda>al m. map_option
             (\<lambda>bs. (Some (DataExtractor_of_bytes bs (GetByteOrder_ir env m) (GetAddressByteSize_ir env m) 1), None, m))
             (memcpy_from ((addr + 2 ^ 64 - al_process_start al) mod 2 ^ 64) n (al_data al)))
      in if n = 0 then failed ''its size was zero''
         else case FindAllocation addr n (im_allocations m) of
                None \<Rightarrow> failed ''no allocation contains the range''
              | Some i \<Rightarrow>
                  let (k, al) = im_allocations m ! i
                  in case al_policy al of
                       eAllocationPolicyProcessOnly \<Rightarrow> failed ''memory is only in the target''
                     | eAllocationPolicyMirror \<Rightarrow>
                         if al_data al = [] then failed ''data buffer is empty''
                         else (case im_process m of
                                 None \<Rightarrow> Some (None, None, m)
                               | Some p \<Rightarrow> do {
                                   (bs, error, m) \<leftarrow> read_process env (al_process_start al) (length (al_data al)) p m;
                                   let al = al\<lparr>al_data := overwrite 0 bs (al_data al)\<rparr>;
                                   let m = m\<lparr>im_allocations := (im_allocations m)[i := (k, al)]\<rparr>;
                                   if error \<noteq> None then Some (None, error, m) else extract al m })
                     | eAllocationPolicyHostOnly \<Rightarrow>
                         if al_data al = [] then failed ''data buffer is empty'' else extract al m
                     | eAllocationPolicyInvalid \<Rightarrow> failed ''invalid allocation policy'')"

section \<open>Allocating\<close>

text \<open>Where an allocation is placed: the policy it ends up with and its address, or the error.\<close>

definition allocate_in_process ::
  "ir_env \<Rightarrow> nat \<Rightarrow> nat \<Rightarrow> bool \<Rightarrow> process \<Rightarrow> (nat \<times> process_error option \<times> process) option" where
  "allocate_in_process env n permissions zero_memory p =
     (if \<not> zero_memory then Some (AllocateMemory_process (ie_process env) n permissions p)
      else CallocateMemory (ie_process env) n permissions p)"

definition place_in_process ::
  "ir_env \<Rightarrow> nat \<Rightarrow> nat \<Rightarrow> allocation_policy \<Rightarrow> bool \<Rightarrow> process \<Rightarrow> ir_map \<Rightarrow>
     ((process_error + allocation_policy \<times> nat) \<times> ir_map) option" where
  "place_in_process env n permissions policy zero_memory p m = do {
     (addr, error, p) \<leftarrow> allocate_in_process env n permissions zero_memory p;
     Some (case error of Some e \<Rightarrow> Inl e | None \<Rightarrow> Inr (policy, addr), m\<lparr>im_process := Some p\<rparr>) }"

definition place_on_host ::
  "ir_env \<Rightarrow> nat \<Rightarrow> ir_map \<Rightarrow> ((process_error + allocation_policy \<times> nat) \<times> ir_map) option" where
  "place_on_host env n m = do {
     (addr, m) \<leftarrow> FindSpace env n m;
     Some (if addr = LLDB_INVALID_ADDRESS then Inl (message ''address space is full'')
           else Inr (eAllocationPolicyHostOnly, addr), m) }"

definition place ::
  "ir_env \<Rightarrow> nat \<Rightarrow> nat \<Rightarrow> allocation_policy \<Rightarrow> bool \<Rightarrow> ir_map \<Rightarrow>
     ((process_error + allocation_policy \<times> nat) \<times> ir_map) option" where
  "place env n permissions policy zero_memory m =
     (case policy of
        eAllocationPolicyInvalid \<Rightarrow> Some (Inl (message ''invalid allocation policy''), m)
      | eAllocationPolicyHostOnly \<Rightarrow> place_on_host env n m
      | eAllocationPolicyMirror \<Rightarrow>
          (case im_process m of
             Some p \<Rightarrow>
               (case CanJIT (ie_process env) p of (jit, p) \<Rightarrow>
                  if jit \<and> IsAlive p
                  then place_in_process env n permissions policy zero_memory p m
                  else place_on_host env n (m\<lparr>im_process := Some p\<rparr>))
           | None \<Rightarrow> place_on_host env n m)
      | eAllocationPolicyProcessOnly \<Rightarrow>
          (case im_process m of
             Some p \<Rightarrow>
               (case CanJIT (ie_process env) p of (jit, p) \<Rightarrow>
                  if jit \<and> IsAlive p
                  then place_in_process env n permissions policy zero_memory p m
                  else Some (Inl (message ''process does not support allocating memory''), m\<lparr>im_process := Some p\<rparr>))
           | None \<Rightarrow> Some (Inl (message ''process does not exist, and this memory must be in the process''), m)))"

definition allocation_size_for :: "ir_env \<Rightarrow> nat \<Rightarrow> nat \<Rightarrow> nat" where
  "allocation_size_for env n alignment =
     (if n = 0 then alignment else (ie_align_to env n alignment + alignment + 2 ^ 64 - 1) mod 2 ^ 64)"

definition aligned_up :: "nat \<Rightarrow> nat \<Rightarrow> nat" where
  "aligned_up addr alignment =
     (let mask = word_of_nat alignment - 1 :: u64 in unat ((word_of_nat addr + mask) AND NOT mask))"

text \<open>The address, the status and the map. An alignment is a byte; an entry of the map that is there
  already stays.\<close>

definition Malloc ::
  "ir_env \<Rightarrow> nat \<Rightarrow> nat \<Rightarrow> nat \<Rightarrow> allocation_policy \<Rightarrow> bool \<Rightarrow> ir_map \<Rightarrow>
     (nat \<times> process_error option \<times> ir_map) option" where
  "Malloc env n alignment permissions policy zero_memory m =
     (if n \<noteq> 0 \<and> alignment = 0 then None
      else do {
        let allocation_size = allocation_size_for env n alignment;
        (placed, m) \<leftarrow> place env allocation_size permissions policy zero_memory m;
        case placed of
          Inl error \<Rightarrow> Some (LLDB_INVALID_ADDRESS, Some error, m)
        | Inr (policy, addr) \<Rightarrow>
            let aligned = aligned_up addr alignment;
                al = new_Allocation addr aligned allocation_size permissions alignment policy;
                m = (if aligned \<in> fst ` set (im_allocations m) then m
                     else m\<lparr>im_allocations := map_put aligned al (im_allocations m)\<rparr>)
            in if zero_memory
               then do { (_, m) \<leftarrow> WriteMemory_ir env aligned (replicate n 0) m; Some (aligned, None, m) }
               else Some (aligned, None, m) })"

definition Leak :: "nat \<Rightarrow> ir_map \<Rightarrow> process_error option \<times> ir_map" where
  "Leak addr m =
     (case map_of (im_allocations m) addr of
        None \<Rightarrow> (Some (message ''allocation does not exist''), m)
      | Some al \<Rightarrow> (None, m\<lparr>im_allocations := map_put addr (al\<lparr>al_leak := True\<rparr>) (im_allocations m)\<rparr>))"

definition Free :: "ir_env \<Rightarrow> nat \<Rightarrow> ir_map \<Rightarrow> process_error option \<times> ir_map" where
  "Free env addr m =
     (case map_of (im_allocations m) addr of
        None \<Rightarrow> (Some (message ''allocation does not exist''), m)
      | Some al \<Rightarrow>
          let m =
            (case im_process m of
               None \<Rightarrow> m
             | Some p \<Rightarrow>
                 if al_policy al = eAllocationPolicyMirror \<or> al_policy al = eAllocationPolicyProcessOnly
                 then m\<lparr>im_process := Some (snd (DeallocateMemory_process (al_process_alloc al) p))\<rparr>
                 else (case CanJIT (ie_process env) p of (jit, p) \<Rightarrow>
                         m\<lparr>im_process := Some (if jit \<and> IsAlive p
                           then snd (DeallocateMemory_process (al_process_alloc al) p) else p)\<rparr>))
          in (None, m\<lparr>im_allocations := map_erase addr (im_allocations m)\<rparr>))"

text \<open>The end of a map: what was not leaked is freed, if there is a process.\<close>

definition destroy :: "ir_env \<Rightarrow> ir_map \<Rightarrow> ir_map" where
  "destroy env m =
     (if im_process m = None then m
      else fold (\<lambda>(k, al) m. if al_leak al then m\<lparr>im_allocations := map_erase k (im_allocations m)\<rparr>
                             else snd (Free env k m)) (im_allocations m) m)"

text \<open>The size behind an address. The length of the lookup is what the caller's variable holds.\<close>

definition GetAllocSize :: "nat \<Rightarrow> nat \<Rightarrow> ir_map \<Rightarrow> bool \<times> nat" where
  "GetAllocSize addr n m =
     (case FindAllocation addr n (im_allocations m) of
        None \<Rightarrow> (False, n)
      | Some i \<Rightarrow>
          let al = snd (im_allocations m ! i)
          in if addr > (al_process_start al + al_size al) mod 2 ^ 64 then (False, 0)
             else if addr > al_process_start al
             then (True, nat ((int (al_size al) - sint (word_of_nat (addr - al_process_start al) :: 32 word)) mod 2 ^ 64))
             else (True, al_size al))"

end
