(* ===== verification/IRMemoryView.thy ===== *)
theory IRMemoryView
  imports IRMemoryMap MemoryView
begin

text \<open>
  What the memory of an expression promises: allocations are disjoint, an allocation in the
  debugger is a piece of memory that holds what was written to it, and memory outside of
  them is the memory of the program as the debugger shows it (MemoryView).
\<close>

unbundle bit_operations_syntax

section \<open>Allocations in the debugger\<close>

definition host_allocation :: "nat \<times> allocation \<Rightarrow> bool" where
  "host_allocation = (\<lambda>(k, al). al_process_start al = k \<and> al_policy al = eAllocationPolicyHostOnly \<and>
     length (al_data al) = al_size al \<and> 0 < al_size al \<and> k + al_size al < 2 ^ 64)"

definition allocation_before :: "nat \<times> allocation \<Rightarrow> nat \<times> allocation \<Rightarrow> bool" where
  "allocation_before e f \<longleftrightarrow> fst e + al_size (snd e) \<le> fst f"

definition host_ok :: "(nat \<times> allocation) list \<Rightarrow> bool" where
  "host_ok als \<longleftrightarrow> (\<forall>e \<in> set als. host_allocation e) \<and> sorted_wrt allocation_before als"

text \<open>The memory that the allocations are.\<close>

definition in_allocation :: "nat \<Rightarrow> nat \<times> allocation \<Rightarrow> bool" where
  "in_allocation a e \<longleftrightarrow> fst e \<le> a \<and> a < fst e + al_size (snd e)"

definition host_view :: "(nat \<times> allocation) list \<Rightarrow> nat \<Rightarrow> u8 option" where
  "host_view als a =
     map_option (\<lambda>(k, al). al_data al ! (a - k)) (List.find (in_allocation a) als)"

lemma host_nth:
  assumes "host_ok als" "i < length als"
  shows "al_process_start (snd (als ! i)) = fst (als ! i)"
    and "al_policy (snd (als ! i)) = eAllocationPolicyHostOnly"
    and "length (al_data (snd (als ! i))) = al_size (snd (als ! i))"
    and "0 < al_size (snd (als ! i))"
    and "fst (als ! i) + al_size (snd (als ! i)) < 2 ^ 64"
  proof -
  have "host_allocation (als ! i)" using assms nth_mem [OF assms(2)] by (simp add: host_ok_def)
  then show "al_process_start (snd (als ! i)) = fst (als ! i)"
    "al_policy (snd (als ! i)) = eAllocationPolicyHostOnly"
    "length (al_data (snd (als ! i))) = al_size (snd (als ! i))"
    "0 < al_size (snd (als ! i))" "fst (als ! i) + al_size (snd (als ! i)) < 2 ^ 64"
    by (simp_all add: host_allocation_def case_prod_beta)
qed

lemma host_apart:
  assumes "host_ok als" "i < j" "j < length als"
  shows "fst (als ! i) + al_size (snd (als ! i)) \<le> fst (als ! j)"
  using assms by (auto simp: host_ok_def sorted_wrt_iff_nth_less allocation_before_def)

lemma in_allocation_unique:
  assumes "host_ok als" "i < length als" "j < length als" "in_allocation a (als ! i)" "in_allocation a (als ! j)"
  shows "i = j"
proof -
  have False if "i < j" "j < length als" "in_allocation a (als ! i)" "in_allocation a (als ! j)" for i j
    using host_apart [OF assms(1) that(1,2)] that(3,4) by (simp add: in_allocation_def)
  then show ?thesis using assms(2-5) by (cases i j rule: linorder_cases) blast+
qed

lemma host_view_in:
  assumes "host_ok als" "i < length als" "in_allocation a (als ! i)"
  shows "host_view als a = Some (al_data (snd (als ! i)) ! (a - fst (als ! i)))"
proof -
  have "\<exists>k < length als. in_allocation a (als ! k) \<and> als ! i = als ! k \<and> (\<forall>j < k. \<not> in_allocation a (als ! j))"
    using assms in_allocation_unique [OF assms(1,2) _ assms(3)]
    by (intro exI [of _ i]) (metis less_trans order_less_irrefl)
  then have "List.find (in_allocation a) als = Some (als ! i)" by (simp add: find_Some_iff)
  then show ?thesis by (simp add: host_view_def split: prod.splits)
qed

lemma host_view_outside:
  "(\<And>i. i < length als \<Longrightarrow> \<not> in_allocation a (als ! i)) \<Longrightarrow> host_view als a = None"
  unfolding host_view_def by (metis (mono_tags, lifting) find_None_iff in_set_conv_nth option.map_disc_iff)

lemma FindAllocation_in:
  assumes "host_ok als" "i < length als" "0 < n"
    and "fst (als ! i) \<le> addr" "addr + n \<le> fst (als ! i) + al_size (snd (als ! i))"
  shows "FindAllocation addr n als = Some i"
proof -
  define pos where "pos = length (takeWhile (\<lambda>e. fst e < addr) als)"
  have small: "fst (als ! i) + al_size (snd (als ! i)) < 2 ^ 64" using host_nth(5) [OF assms(1,2)] .
  have pos: "pos \<le> length als" "\<And>j. j < pos \<Longrightarrow> fst (als ! j) < addr" "pos < length als \<Longrightarrow> addr \<le> fst (als ! pos)"
    using lower_bound_props [where lt = "\<lambda>e. fst e < addr" and es = als] by (auto simp: pos_def lower_bound_def not_less)
  have behind: "addr < fst (als ! j)" if "i < j" "j < length als" for j
    using host_apart [OF assms(1) that] assms(3,5) by simp
  have at: "(if pos = length als \<or> fst (als ! pos) > addr then pos - 1 else pos) = i" "\<not> ((pos = length als \<or> fst (als ! pos) > addr) \<and> pos = 0)"
  proof -
    have "pos \<le> i + 1"
    proof (rule ccontr)
      assume "\<not> pos \<le> i + 1"
      then show False using pos(2) [of "i + 1"] behind [of "i + 1"] pos(1) by simp
    qed
    moreover have "i \<le> pos"
    proof (rule ccontr)
      assume "\<not> i \<le> pos"
      then have "addr \<le> fst (als ! pos)" "pos < i" using pos(3) assms(2) by simp_all
      then show False
        using host_apart [OF assms(1), of pos i] assms(2,4) host_nth(4) [OF assms(1), of pos] by simp
    qed
    ultimately consider "pos = i" | "pos = i + 1" by linarith
    then show "(if pos = length als \<or> fst (als ! pos) > addr then pos - 1 else pos) = i"
        "\<not> ((pos = length als \<or> fst (als ! pos) > addr) \<and> pos = 0)"
      using assms(2,4) behind [of "i + 1"] pos(1) by (cases; force)+
  qed
  have "addr \<noteq> LLDB_INVALID_ADDRESS" using assms(3,5) small by (simp add: UINT64_MAX_def)
  moreover have "(fst (als ! i) + al_size (snd (als ! i))) mod 2 ^ 64 = fst (als ! i) + al_size (snd (als ! i))"
      "(addr + n) mod 2 ^ 64 = addr + n"
    using small assms(5) by simp_all
  ultimately show ?thesis
    using at assms(4,5) unfolding FindAllocation_def Let_def pos_def [symmetric]
    by (cases "als ! i") (simp only: if_False fst_conv snd_conv prod.case if_True simp_thms)
qed

lemma host_ok_update:
  assumes "host_ok als" "i < length als" "length d = al_size (snd (als ! i))"
  defines "als' \<equiv> als[i := (fst (als ! i), (snd (als ! i))\<lparr>al_data := d\<rparr>)]"
  shows "host_ok als'"
    and "host_view als' a = (if in_allocation a (als ! i) then Some (d ! (a - fst (als ! i))) else host_view als a)"
proof -
  have len: "length als' = length als" by (simp add: als'_def)
  have same: "fst (als' ! j) = fst (als ! j)" "al_size (snd (als' ! j)) = al_size (snd (als ! j))"
    if "j < length als" for j
    using that assms(2) by (auto simp: als'_def nth_list_update)
  have "host_allocation (als' ! j)" if "j < length als" for j
    using assms(1-3) that nth_mem [OF that] nth_mem [OF assms(2)]
    by (auto simp: als'_def nth_list_update host_ok_def host_allocation_def case_prod_beta)
  then have "\<forall>e \<in> set als'. host_allocation e" by (metis in_set_conv_nth len)
  moreover have "sorted_wrt allocation_before als'"
    using assms(1) len same by (simp add: host_ok_def sorted_wrt_iff_nth_less allocation_before_def)
  ultimately show ok: "host_ok als'" by (simp add: host_ok_def)
  have in_same: "in_allocation a (als' ! j) = in_allocation a (als ! j)" if "j < length als" for j
    using same [OF that] by (simp add: in_allocation_def)
  show "host_view als' a = (if in_allocation a (als ! i) then Some (d ! (a - fst (als ! i))) else host_view als a)"
  proof (cases "\<exists>j < length als. in_allocation a (als ! j)")
    case False
    then have "host_view als' a = None" "host_view als a = None"
      using in_same len by (auto intro!: host_view_outside)
    then show ?thesis using False assms(2) by simp
  next
    case True
    then obtain j where j: "j < length als" "in_allocation a (als ! j)" by blast
    have view: "host_view als' a = Some (al_data (snd (als' ! j)) ! (a - fst (als' ! j)))"
      using host_view_in [OF ok, of j a] j in_same len by simp
    show ?thesis
    proof (cases "j = i")
      case True
      then show ?thesis using view j assms(2) by (simp add: als'_def)
    next
      case False
      then have "\<not> in_allocation a (als ! i)"
        using in_allocation_unique [OF assms(1) j(1) assms(2) j(2)] by blast
      then show ?thesis
        using view False host_view_in [OF assms(1) j] by (simp add: als'_def)
    qed
  qed
qed

text \<open>A range that lies in one allocation.\<close>

definition allocated :: "(nat \<times> allocation) list \<Rightarrow> nat \<Rightarrow> nat \<Rightarrow> bool" where
  "allocated als addr n \<longleftrightarrow>
     (\<exists>i < length als. fst (als ! i) \<le> addr \<and> addr + n \<le> fst (als ! i) + al_size (snd (als ! i)))"

definition bytes_at :: "nat \<Rightarrow> u8 list \<Rightarrow> (nat \<Rightarrow> u8 option) \<Rightarrow> nat \<Rightarrow> u8 option" where
  "bytes_at addr bytes view a = (if addr \<le> a \<and> a < addr + length bytes then Some (bytes ! (a - addr)) else view a)"

lemma overwrite_nth:
  assumes "off + length xs \<le> length buf" "j < length buf"
  shows "overwrite off xs buf ! j = (if off \<le> j \<and> j < off + length xs then xs ! (j - off) else buf ! j)"
  using assms by (auto simp: overwrite_def nth_append min_def)

lemma length_overwrite: "off + length xs \<le> length buf \<Longrightarrow> length (overwrite off xs buf) = length buf"
  by (simp add: overwrite_def)

lemma host_offset:
  assumes "k \<le> addr" "addr < 2 ^ 64"
  shows "(addr + 2 ^ 64 - k) mod 2 ^ 64 = (addr :: nat) - k"
proof -
  have "addr + 2 ^ 64 - k = (addr - k) + 2 ^ 64" "addr - k < 2 ^ 64" using assms by simp_all
  then show ?thesis by (simp only: mod_add_self2 mod_less)
qed

lemma WriteMemory_ir_host:
  assumes "host_ok (im_allocations m)" "allocated (im_allocations m) addr (length bytes)" "bytes \<noteq> []"
  shows "\<exists>als'. WriteMemory_ir env addr bytes m = Some (None, m\<lparr>im_allocations := als'\<rparr>) \<and> host_ok als' \<and>
    host_view als' = bytes_at addr bytes (host_view (im_allocations m)) \<and>
    map (\<lambda>e. (fst e, al_size (snd e))) als' = map (\<lambda>e. (fst e, al_size (snd e))) (im_allocations m)"
proof -
  define als where "als = im_allocations m"
  obtain i where i: "i < length als" "fst (als ! i) \<le> addr"
    "addr + length bytes \<le> fst (als ! i) + al_size (snd (als ! i))"
    using assms(2) by (auto simp: allocated_def als_def)
  have ok: "host_ok als" using assms(1) by (simp add: als_def)
  note al = host_nth [OF ok i(1)]
  define off where "off = addr - fst (als ! i)"
  define d where "d = overwrite off bytes (al_data (snd (als ! i)))"
  have fits: "off + length bytes \<le> length (al_data (snd (als ! i)))" using i al(3) by (simp add: off_def)
  have d: "length d = al_size (snd (als ! i))" using length_overwrite [OF fits] al(3) by (simp add: d_def)
  have offset: "(addr + 2 ^ 64 - al_process_start (snd (als ! i))) mod 2 ^ 64 = off"
    using host_offset [OF i(2)] i(3) al(1,5) assms(3) by (simp add: off_def)
  let ?als = "als[i := (fst (als ! i), (snd (als ! i))\<lparr>al_data := d\<rparr>)]"
  have find: "FindAllocation addr (length bytes) als = Some i"
    using FindAllocation_in [OF ok i(1) _ i(2,3)] assms(3) by simp
  have "memcpy_to off bytes (al_data (snd (als ! i))) = Some d"
    using fits by (simp add: memcpy_to_def d_def)
  moreover have "al_data (snd (als ! i)) \<noteq> []" using al(3,4) by auto
  ultimately have w: "WriteMemory_ir env addr bytes m = Some (None, m\<lparr>im_allocations := ?als\<rparr>)"
    using al(2) unfolding WriteMemory_ir_def als_def [symmetric] find option.case Let_def case_prod_beta offset
    by simp
  have "host_view ?als a = bytes_at addr bytes (host_view als) a" for a
  proof (cases "in_allocation a (als ! i)")
    case True
    then have "a - fst (als ! i) < length (al_data (snd (als ! i)))" using al(3) by (auto simp: in_allocation_def)
    from overwrite_nth [OF fits this]
    have "d ! (a - fst (als ! i)) = (if addr \<le> a \<and> a < addr + length bytes then bytes ! (a - addr)
        else al_data (snd (als ! i)) ! (a - fst (als ! i)))"
      using True i(2) by (auto simp: d_def off_def in_allocation_def)
    then show ?thesis
      using host_ok_update(2) [OF ok i(1) d, of a] host_view_in [OF ok i(1) True] True by (simp add: bytes_at_def)
  next
    case False
    then have "\<not> (addr \<le> a \<and> a < addr + length bytes)" using i by (auto simp: in_allocation_def)
    then show ?thesis
      using host_ok_update(2) [OF ok i(1) d, of a] False by (auto simp: bytes_at_def)
  qed
  moreover have "map (\<lambda>e. (fst e, al_size (snd e))) ?als = map (\<lambda>e. (fst e, al_size (snd e))) als"
    using i(1) by (intro nth_equalityI) (auto simp: nth_list_update)
  ultimately show ?thesis
    using w host_ok_update(1) [OF ok i(1) d] unfolding als_def by blast
qed

lemma ReadMemory_ir_host:
  assumes "host_ok (im_allocations m)" "allocated (im_allocations m) addr n" "0 < n"
  shows "\<exists>bs. ReadMemory_ir env addr n m = Some (bs, None, m) \<and> length bs = n \<and>
    (\<forall>j < n. host_view (im_allocations m) (addr + j) = Some (bs ! j))"
proof -
  define als where "als = im_allocations m"
  obtain i where i: "i < length als" "fst (als ! i) \<le> addr" "addr + n \<le> fst (als ! i) + al_size (snd (als ! i))"
    using assms(2) by (auto simp: allocated_def als_def)
  have ok: "host_ok als" using assms(1) by (simp add: als_def)
  note al = host_nth [OF ok i(1)]
  define off where "off = addr - fst (als ! i)"
  have offset: "(addr + 2 ^ 64 - al_process_start (snd (als ! i))) mod 2 ^ 64 = off"
    using host_offset [OF i(2)] i(3) al(1,5) assms(3) by (simp add: off_def)
  have fits: "off + n \<le> length (al_data (snd (als ! i)))" using i al(3) by (simp add: off_def)
  have small: "(off + n) mod 2 ^ 64 = off + n" using fits al(3,5) by simp
  have find: "FindAllocation addr n als = Some i" using FindAllocation_in [OF ok i(1) assms(3) i(2,3)] .
  let ?bs = "take n (drop off (al_data (snd (als ! i))))"
  have "al_data (snd (als ! i)) \<noteq> []" "\<not> off > al_size (snd (als ! i))" using al(3,4) fits by auto
  moreover have "memcpy_from off n (al_data (snd (als ! i))) = Some ?bs"
    using fits by (simp add: memcpy_from_def)
  ultimately have r: "ReadMemory_ir env addr n m = Some (?bs, None, m)"
    using al(2) fits unfolding ReadMemory_ir_def als_def [symmetric] find option.case Let_def offset small
    by simp
  have "host_view als (addr + j) = Some (?bs ! j)" if "j < n" for j
  proof -
    have "in_allocation (addr + j) (als ! i)" using i that by (simp add: in_allocation_def)
    then show ?thesis
      using host_view_in [OF ok i(1), of "addr + j"] that fits i(2) by (simp add: off_def)
  qed
  then show ?thesis using r fits unfolding als_def by simp
qed

section \<open>Allocating\<close>

lemma and_not_mask_unat: "unat (x AND NOT (mask k) :: u64) = unat x div 2 ^ k * 2 ^ k"
proof -
  have "x AND NOT (mask k) = push_bit k (drop_bit k x)"
    by (rule bit_eqI) (auto simp: bit_simps)
  moreover have "unat (push_bit k (drop_bit k x)) = take_bit 64 (unat x div 2 ^ k * 2 ^ k)"
    by (simp only: unsigned_push_bit_eq unsigned_drop_bit_eq push_bit_eq_mult [where 'a = nat]
        drop_bit_eq_div [where 'a = nat])
      (use unat_lt_64 [of x] in \<open>simp add: take_bit_eq_mod\<close>)
  moreover have "unat x div 2 ^ k * 2 ^ k < 2 ^ 64"
    using unat_lt_64 [of x] by (meson div_times_less_eq_dividend le_less_trans)
  ultimately show ?thesis by (simp add: take_bit_eq_mod)
qed

lemma aligned_up_multiple:
  assumes "addr < 2 ^ 64" "2 ^ k dvd addr" "k \<le> 7"
  shows "aligned_up addr (2 ^ k) = addr"
proof -
  obtain q where q: "addr = 2 ^ k * q" using assms(2) by (auto elim: dvdE)
  have k: "(2 :: nat) ^ k \<le> 2 ^ 7" using assms(3) by (intro power_increasing) simp_all
  have room: "addr + (2 ^ k - 1) < 2 ^ 64"
  proof -
    have split: "(2 :: nat) ^ 64 = 2 ^ k * 2 ^ (64 - k)" using assms(3) by (simp only: flip: power_add) simp
    have "2 ^ k * q < (2 ^ k * 2 ^ (64 - k) :: nat)" using assms(1) unfolding q split .
    then have "q < 2 ^ (64 - k)" by simp
    then have "2 ^ k * (q + 1) \<le> (2 ^ k * 2 ^ (64 - k) :: nat)" by (intro mult_le_mono2) simp
    moreover have "(0 :: nat) < 2 ^ k" by simp
    ultimately show ?thesis unfolding q split by (simp add: algebra_simps) (metis Suc_pred add_gr_0 le_eq_less_or_eq less_Suc_eq_le not_less_eq zero_less_numeral zero_less_power)
  qed
  have m: "(word_of_nat (2 ^ k) - 1 :: u64) = mask k" by (simp add: mask_eq_exp_minus_1)
  have "unat (word_of_nat addr + mask k :: u64) = addr + (2 ^ k - 1)"
  proof -
    have "(word_of_nat addr + mask k :: u64) = word_of_nat (addr + (2 ^ k - 1))"
      unfolding of_nat_add of_nat_diff [OF one_le_power [of 2 k, OF one_le_numeral]] mask_eq_exp_minus_1 by simp
    then show ?thesis using room by (simp add: unat_of_nat take_bit_eq_mod)
  qed
  moreover have "(addr + (2 ^ k - 1)) div 2 ^ k * 2 ^ k = addr"
  proof -
    have "(2 ^ k * q + (2 ^ k - 1)) div 2 ^ k = q + (2 ^ k - 1) div (2 ^ k :: nat)"
      by (rule div_mult_self4) simp
    then show ?thesis by (simp add: q)
  qed
  ultimately show ?thesis by (simp only: aligned_up_def m Let_def and_not_mask_unat)
qed

text \<open>The space behind the allocations, with room for the alignment.\<close>

definition has_room :: "(nat \<times> allocation) list \<Rightarrow> nat \<Rightarrow> bool" where
  "has_room als n \<longleftrightarrow>
     (if als = [] then 0xffffffff00000000 else fst (last als) + al_size (snd (last als)) + 4096) + n + 512 < 2 ^ 64"

text \<open>What llvm::alignTo is documented to do: the next multiple.\<close>

definition rounds_up :: "(nat \<Rightarrow> nat \<Rightarrow> nat) \<Rightarrow> bool" where
  "rounds_up align_to \<longleftrightarrow> (\<forall>v a. 0 < a \<and> v + a < 2 ^ 64 \<longrightarrow>
     v \<le> align_to v a \<and> align_to v a < v + a \<and> a dvd align_to v a)"

lemma rounds_up_bounds:
  assumes "rounds_up align_to" "v + a < 2 ^ 64" "0 < a"
  shows "v \<le> align_to v a" "align_to v a < v + a" "a dvd align_to v a"
  using assms by (simp_all add: rounds_up_def)

lemma allocation_size_bounds:
  assumes "rounds_up (ie_align_to env)" "0 < n" "n + 512 < 2 ^ 64" "k \<le> 7"
  shows "n \<le> allocation_size_for env n (2 ^ k)" "allocation_size_for env n (2 ^ k) < n + 256"
proof -
  have k: "(2 :: nat) ^ k \<le> 2 ^ 7" "(0 :: nat) < 2 ^ k" using assms(4) by (intro power_increasing) simp_all
  have a: "n \<le> ie_align_to env n (2 ^ k)" "ie_align_to env n (2 ^ k) < n + 2 ^ k"
    using rounds_up_bounds [OF assms(1), of n "2 ^ k"] assms(3) k by simp_all
  define x where "x = ie_align_to env n (2 ^ k) + 2 ^ k - 1"
  have x: "x < 2 ^ 64" "n \<le> x" "x < n + 256" using a k assms(3) by (simp_all add: x_def)
  have "ie_align_to env n (2 ^ k) + 2 ^ k + 2 ^ 64 - 1 = x + 2 ^ 64" using k(2) by (simp add: x_def)
  then have "(ie_align_to env n (2 ^ k) + 2 ^ k + 2 ^ 64 - 1) mod 2 ^ 64 = x"
    using x(1) by (simp only: mod_add_self2 mod_less)
  then have "allocation_size_for env n (2 ^ k) = x" using assms(2) by (simp add: allocation_size_for_def)
  then show "n \<le> allocation_size_for env n (2 ^ k)" "allocation_size_for env n (2 ^ k) < n + 256" using x by simp_all
qed

lemma FindSpace_host:
  assumes "rounds_up (ie_align_to env)" "im_process m = None" "0 < n" "has_room (im_allocations m) n'"
  shows "\<exists>addr. FindSpace env n m = Some (addr, m) \<and> 4096 dvd addr \<and> addr + n' + 512 < 2 ^ 64 \<and>
    (im_allocations m \<noteq> [] \<longrightarrow> fst (last (im_allocations m)) + al_size (snd (last (im_allocations m))) \<le> addr)"
proof (cases "im_allocations m = []")
  case True
  then show ?thesis using assms(2-) by (simp add: FindSpace_def has_room_def)
next
  case False
  let ?e = "fst (last (im_allocations m)) + al_size (snd (last (im_allocations m)))"
  have r: "?e + 4096 + n' + 512 < 2 ^ 64" using assms(4) False by (simp add: has_room_def)
  then have "?e mod 2 ^ 64 = ?e" by simp
  then have a: "after_allocations env (im_allocations m) = ie_align_to env ?e 4096" by (simp only: after_allocations_def)
  have b: "?e \<le> ie_align_to env ?e 4096" "ie_align_to env ?e 4096 < ?e + 4096" "4096 dvd ie_align_to env ?e 4096"
    using rounds_up_bounds [OF assms(1), of ?e 4096] r by simp_all
  have "FindSpace env n m = Some (ie_align_to env ?e 4096, m)"
    using assms(2,3) False a by (simp add: FindSpace_def Let_def)
  then show ?thesis using b r by auto
qed

lemma host_ok_snoc:
  fixes p permissions alignment
  assumes "host_ok als" "als \<noteq> [] \<longrightarrow> fst (last als) + al_size (snd (last als)) \<le> addr"
    and "0 < n" "addr + n < 2 ^ 64"
  defines "al \<equiv> new_Allocation p addr n permissions alignment eAllocationPolicyHostOnly"
  shows "map_put addr al als = als @ [(addr, al)]" "addr \<notin> fst ` set als" "host_ok (als @ [(addr, al)])"
    and "host_view (als @ [(addr, al)]) a =
      (if addr \<le> a \<and> a < addr + n then Some 0 else host_view als a)"
proof -
  have below: "fst (als ! i) + al_size (snd (als ! i)) \<le> addr" if "i < length als" for i
  proof (cases "i = length als - 1")
    case True
    then show ?thesis using assms(2) that by (auto simp: last_conv_nth)
  next
    case False
    then have "fst (als ! i) + al_size (snd (als ! i)) \<le> fst (als ! (length als - 1))"
      using host_apart [OF assms(1), of i "length als - 1"] that by simp
    then show ?thesis using assms(2) that by (cases "als = []") (auto simp: last_conv_nth)
  qed
  then have below_all: "\<forall>e \<in> set als. fst e + al_size (snd e) \<le> addr" by (metis in_set_conv_nth)
  have lt: "fst e < addr" if "e \<in> set als" for e
    using below host_nth(4) [OF assms(1)] that by (fastforce simp: in_set_conv_nth)
  show "map_put addr al als = als @ [(addr, al)]" using lt by (intro map_put_last) blast
  show "addr \<notin> fst ` set als" using lt by fastforce
  have al: "host_allocation (addr, al)" "al_size al = n" "al_data al = replicate n 0"
    using assms(3,4) by (simp_all add: al_def new_Allocation_def host_allocation_def)
  show ok: "host_ok (als @ [(addr, al)])"
    using assms(1) al(1) below_all by (simp add: host_ok_def sorted_wrt_append allocation_before_def)
  show "host_view (als @ [(addr, al)]) a = (if addr \<le> a \<and> a < addr + n then Some 0 else host_view als a)"
  proof (cases "\<exists>i < length als. in_allocation a (als ! i)")
    case True
    then obtain i where i: "i < length als" "in_allocation a (als ! i)" by blast
    have "\<not> addr \<le> a" using below [OF i(1)] i(2) by (simp add: in_allocation_def)
    then show ?thesis
      using host_view_in [OF ok, of i a] host_view_in [OF assms(1) i] i by (simp add: nth_append)
  next
    case False
    then have none: "host_view als a = None" by (auto intro: host_view_outside)
    show ?thesis
    proof (cases "in_allocation a (addr, al)")
      case True
      then show ?thesis
        using host_view_in [OF ok, of "length als" a] al by (auto simp: in_allocation_def)
    next
      case out: False
      have "host_view (als @ [(addr, al)]) a = None"
        by (rule host_view_outside) (use False out in \<open>auto simp: nth_append less_Suc_eq\<close>)
      then show ?thesis using none out al(2) by (auto simp: in_allocation_def)
    qed
  qed
qed

lemma allocated_view:
  assumes "host_ok als" "allocated als addr n" "j < n"
  shows "host_view als (addr + j) \<noteq> None"
proof -
  obtain i where i: "i < length als" "fst (als ! i) \<le> addr" "addr + n \<le> fst (als ! i) + al_size (snd (als ! i))"
    using assms(2) by (auto simp: allocated_def)
  then have "in_allocation (addr + j) (als ! i)" using assms(3) by (simp add: in_allocation_def)
  then show ?thesis using host_view_in [OF assms(1) i(1)] by simp
qed

text \<open>What an allocation in the debugger does to the memory of the map.\<close>

definition allocates :: "nat \<Rightarrow> nat \<Rightarrow> nat \<Rightarrow> (nat \<times> allocation) list \<Rightarrow> (nat \<times> allocation) list \<Rightarrow> bool" where
  "allocates addr n sz als als' \<longleftrightarrow>
     host_ok als' \<and> allocated als' addr n \<and> n \<le> sz \<and>
     (\<forall>a. addr \<le> a \<and> a < addr + sz \<longrightarrow> host_view als a = None) \<and>
     host_view als' = bytes_at addr (replicate sz 0) (host_view als)"

lemma Malloc_host:
  assumes "rounds_up (ie_align_to env)" "host_ok (im_allocations m)" "im_process m = None"
    and "policy = eAllocationPolicyHostOnly \<or> policy = eAllocationPolicyMirror"
    and "0 < n" "k \<le> 7" "has_room (im_allocations m) n"
  shows "\<exists>addr m'. Malloc env n (2 ^ k) permissions policy zero_memory m = Some (addr, None, m') \<and>
    2 ^ k dvd addr \<and> im_process m' = None \<and>
    allocates addr n (allocation_size_for env n (2 ^ k)) (im_allocations m) (im_allocations m')"
proof -
  define als where "als = im_allocations m"
  define sz where "sz = allocation_size_for env n (2 ^ k)"
  have "n + 512 < 2 ^ 64" using assms(7) by (simp add: has_room_def split: if_splits)
  then have sz: "n \<le> sz" "sz < n + 256"
    using allocation_size_bounds [OF assms(1,5) _ assms(6)] by (simp_all add: sz_def)
  obtain addr where addr: "FindSpace env sz m = Some (addr, m)" "4096 dvd addr" "addr + n + 512 < 2 ^ 64"
    "als \<noteq> [] \<longrightarrow> fst (last als) + al_size (snd (last als)) \<le> addr"
    using FindSpace_host [OF assms(1,3) _ assms(7), of sz] sz(1) assms(5) unfolding als_def by auto
  have "(2 :: nat) ^ k dvd 2 ^ 12" using assms(6) by (intro le_imp_power_dvd) simp
  then have dvd: "2 ^ k dvd addr" using addr(2) by (auto intro: dvd_trans)
  have "addr < 2 ^ 64" using addr(3) by simp
  then have aligned: "aligned_up addr (2 ^ k) = addr" by (rule aligned_up_multiple [OF _ dvd assms(6)])
  have "addr \<noteq> LLDB_INVALID_ADDRESS" using addr(3) by (auto simp: UINT64_MAX_def)
  then have placed: "place env sz permissions policy zero_memory m = Some (Inr (eAllocationPolicyHostOnly, addr), m)"
    using assms(3,4) addr(1) by (auto simp: place_def place_on_host_def)
  define al where "al = new_Allocation addr addr sz permissions (2 ^ k) eAllocationPolicyHostOnly"
  have fits: "0 < sz" "addr + sz < 2 ^ 64" using sz assms(5) addr(3) by simp_all
  have ok: "host_ok als" using assms(2) by (simp add: als_def)
  note snoc = host_ok_snoc(1) [OF ok addr(4) fits, where p = addr and permissions = permissions and alignment = "2 ^ k", folded al_def]
    host_ok_snoc(2) [OF ok addr(4) fits]
    host_ok_snoc(3,4) [OF ok addr(4) fits, where p = addr and permissions = permissions and alignment = "2 ^ k", folded al_def]
  define m1 where "m1 = m\<lparr>im_allocations := als @ [(addr, al)]\<rparr>"
  have view1: "host_view (im_allocations m1) = bytes_at addr (replicate sz 0) (host_view als)"
    using snoc(4) by (auto simp: m1_def bytes_at_def fun_eq_iff)
  have alloc1: "allocated (im_allocations m1) addr n"
    using sz(1) unfolding allocated_def m1_def
    by (intro exI [of _ "length als"]) (simp add: al_def new_Allocation_def)
  have outside: "host_view als a = None" if "addr \<le> a" for a
  proof (rule host_view_outside)
    fix i assume i: "i < length als"
    have "fst (als ! i) + al_size (snd (als ! i)) \<le> addr"
      using snoc(3) i by (auto simp: host_ok_def sorted_wrt_append allocation_before_def)
    then show "\<not> in_allocation a (als ! i)" using that by (simp add: in_allocation_def)
  qed
  have ok1: "host_ok (im_allocations m1)" using snoc(3) by (simp add: m1_def)
  have allocates1: "allocates addr n sz als (im_allocations m1)"
    using ok1 alloc1 view1 outside sz(1) by (simp add: allocates_def)
  have malloc: "Malloc env n (2 ^ k) permissions policy zero_memory m =
      (if zero_memory then do { (_, m) \<leftarrow> WriteMemory_ir env addr (replicate n 0) m1; Some (addr, None, m) }
       else Some (addr, None, m1))"
    using snoc(1,2) placed unfolding Malloc_def Let_def sz_def [symmetric]
    by (simp add: aligned al_def [symmetric] als_def [symmetric] m1_def)
  show ?thesis
  proof (cases zero_memory)
    case False
    then show ?thesis using malloc allocates1 dvd assms(3) unfolding als_def [symmetric] sz_def [symmetric] by (simp add: m1_def)
  next
    case True
    obtain als' where w: "WriteMemory_ir env addr (replicate n 0) m1 = Some (None, m1\<lparr>im_allocations := als'\<rparr>)"
      "host_ok als'" "host_view als' = bytes_at addr (replicate n 0) (host_view (im_allocations m1))"
      "map (\<lambda>e. (fst e, al_size (snd e))) als' = map (\<lambda>e. (fst e, al_size (snd e))) (im_allocations m1)"
      using WriteMemory_ir_host [OF ok1, of addr "replicate n 0" env] alloc1 assms(5) by auto
    have "host_view als' = host_view (im_allocations m1)"
      unfolding w(3) view1 using sz(1) by (auto simp: bytes_at_def fun_eq_iff)
    moreover have "allocated als' addr n"
    proof -
      have "length als' = length (im_allocations m1)"
        "\<And>i. i < length als' \<Longrightarrow> fst (als' ! i) = fst (im_allocations m1 ! i) \<and>
           al_size (snd (als' ! i)) = al_size (snd (im_allocations m1 ! i))"
        using w(4) by (auto simp: list_eq_iff_nth_eq)
      then show ?thesis using alloc1 by (auto simp: allocated_def)
    qed
    ultimately have "allocates addr n sz als als'" using allocates1 w(2) by (simp add: allocates_def)
    then show ?thesis using True malloc w(1) dvd assms(3) unfolding als_def [symmetric] sz_def [symmetric] by (simp add: m1_def)
  qed
qed

section \<open>Sessions in the debugger\<close>

lemma host_view_Some:
  assumes "host_ok als"
  shows "host_view als a = Some b \<longleftrightarrow>
    (\<exists>e \<in> set als. in_allocation a e \<and> b = al_data (snd e) ! (a - fst e))"
proof
  assume "host_view als a = Some b"
  then obtain i where "i < length als" "in_allocation a (als ! i)"
    using host_view_outside [of als a] by fastforce
  then show "\<exists>e \<in> set als. in_allocation a e \<and> b = al_data (snd e) ! (a - fst e)"
    using host_view_in [OF assms] \<open>host_view als a = Some b\<close> nth_mem by fastforce
next
  assume "\<exists>e \<in> set als. in_allocation a e \<and> b = al_data (snd e) ! (a - fst e)"
  then show "host_view als a = Some b"
    using host_view_in [OF assms] by (auto simp: in_set_conv_nth)
qed

lemma host_keys:
  assumes "host_ok als" "e \<in> set als" "e' \<in> set als" "fst e = fst e'"
  shows "e = e'"
proof -
  have "in_allocation (fst e) e" "in_allocation (fst e) e'"
    using assms host_nth(4) [OF assms(1)] by (fastforce simp: in_allocation_def in_set_conv_nth)+
  moreover obtain i where "i < length als" "als ! i = e" using assms(2) unfolding in_set_conv_nth by blast
  moreover obtain j where "j < length als" "als ! j = e'" using assms(3) unfolding in_set_conv_nth by blast
  ultimately show ?thesis using in_allocation_unique [OF assms(1), of i j "fst e"] by simp
qed

lemma Free_host:
  assumes "host_ok (im_allocations m)" "im_process m = None" "(addr, al) \<in> set (im_allocations m)"
  shows "Free env addr m = (None, m\<lparr>im_allocations := map_erase addr (im_allocations m)\<rparr>)"
    and "host_ok (map_erase addr (im_allocations m))"
    and "host_view (map_erase addr (im_allocations m)) =
      (\<lambda>a. if in_allocation a (addr, al) then None else host_view (im_allocations m) a)"
proof -
  let ?als = "im_allocations m"
  have "map_of ?als addr \<noteq> None" using assms(3) by (auto simp: map_of_eq_None_iff rev_image_eqI)
  then show "Free env addr m = (None, m\<lparr>im_allocations := map_erase addr ?als\<rparr>)"
    using assms(2) by (auto simp: Free_def)
  show ok: "host_ok (map_erase addr ?als)"
    using assms(1) by (auto simp: host_ok_def map_erase_def sorted_wrt_filter)
  show "host_view (map_erase addr ?als) = (\<lambda>a. if in_allocation a (addr, al) then None else host_view ?als a)"
  proof
    fix a
    have kept: "e \<in> set (map_erase addr ?als) \<longleftrightarrow> e \<in> set ?als \<and> e \<noteq> (addr, al)" for e
      using host_keys [OF assms(1) assms(3), of e] by (cases e) (auto simp: map_erase_def)
    have only: "e = (addr, al)" if e: "e \<in> set ?als" and both: "in_allocation a e" "in_allocation a (addr, al)" for e
    proof -
      obtain i where "i < length ?als" "?als ! i = e"
        using e unfolding in_set_conv_nth by blast
      moreover obtain j where "j < length ?als" "?als ! j = (addr, al)"
        using assms(3) unfolding in_set_conv_nth by blast
      ultimately show ?thesis using in_allocation_unique [OF assms(1), of i j a] both by simp
    qed
    show "host_view (map_erase addr ?als) a = (if in_allocation a (addr, al) then None else host_view ?als a)"
    proof (cases "host_view (map_erase addr ?als) a")
      case None
      then have "\<not> (\<exists>e \<in> set ?als. in_allocation a e \<and> e \<noteq> (addr, al))"
        using host_view_Some [OF ok, of a] kept by fastforce
      then have "host_view ?als a = None" if "\<not> in_allocation a (addr, al)"
        using host_view_Some [OF assms(1), of a] that by (metis option.exhaust)
      then show ?thesis using None by simp
    next
      case (Some b)
      then obtain e where e: "e \<in> set ?als" "e \<noteq> (addr, al)" "in_allocation a e" "b = al_data (snd e) ! (a - fst e)"
        using host_view_Some [OF ok, of a b] kept by blast
      then show ?thesis
        using Some only [OF e(1,3)] host_view_Some [OF assms(1), of a b] by auto
    qed
  qed
qed

text \<open>What an expression does without a process, beside it the memory it works on: what it allocates
  is zero, what it frees is gone.\<close>

inductive host_session :: "ir_env \<Rightarrow> ir_map \<Rightarrow> (nat \<Rightarrow> u8 option) \<Rightarrow> bool" for env where
  start_map: "host_session env \<lparr>im_allocations = [], im_process = None\<rparr> (\<lambda>_. None)"
| malloc_step: "host_session env m v \<Longrightarrow> 0 < n \<Longrightarrow> k \<le> 7 \<Longrightarrow> has_room (im_allocations m) n \<Longrightarrow>
    policy = eAllocationPolicyHostOnly \<or> policy = eAllocationPolicyMirror \<Longrightarrow>
    Malloc env n (2 ^ k) permissions policy zero_memory m = Some (addr, error, m') \<Longrightarrow>
    host_session env m' (bytes_at addr (replicate (allocation_size_for env n (2 ^ k)) 0) v)"
| write_host_step: "host_session env m v \<Longrightarrow> allocated (im_allocations m) addr (length bytes) \<Longrightarrow> bytes \<noteq> [] \<Longrightarrow>
    WriteMemory_ir env addr bytes m = Some (error, m') \<Longrightarrow> host_session env m' (bytes_at addr bytes v)"
| free_step: "host_session env m v \<Longrightarrow> (addr, al) \<in> set (im_allocations m) \<Longrightarrow> Free env addr m = (error, m') \<Longrightarrow>
    host_session env m' (\<lambda>a. if in_allocation a (addr, al) then None else v a)"

lemma host_session_ok:
  assumes "rounds_up (ie_align_to env)" "host_session env m v"
  shows "host_ok (im_allocations m) \<and> im_process m = None \<and> host_view (im_allocations m) = v"
  using assms(2)
proof (induction rule: host_session.induct)
  case start_map
  then show ?case by (simp add: host_ok_def host_view_def fun_eq_iff)
next
  case (malloc_step m v n k policy permissions zero_memory addr error m')
  then show ?case
    using Malloc_host [OF assms(1), of m policy n k permissions zero_memory] by (auto simp: allocates_def)
next
  case (write_host_step m v addr bytes error m')
  then show ?case
    using WriteMemory_ir_host [of m addr bytes env] by auto
next
  case (free_step m v addr al error m')
  then show ?case
    using Free_host(1) [of m addr al env] Free_host(2,3) [of m addr al] by auto
qed

text \<open>C20: Whatever an expression allocates, writes and frees without a process, a read in an allocation
  returns, without an error, what was last written there, and zero where nothing was.\<close>

theorem host_session_reads:
  assumes "rounds_up (ie_align_to env)" "host_session env m v" "allocated (im_allocations m) addr n" "0 < n"
  shows "\<exists>bs. ReadMemory_ir env addr n m = Some (bs, None, m) \<and>
    map Some bs = map (\<lambda>j. v (addr + j)) [0 ..< n]"
proof -
  obtain bs where bs: "ReadMemory_ir env addr n m = Some (bs, None, m)" "length bs = n"
    "\<forall>j < n. v (addr + j) = Some (bs ! j)"
    using ReadMemory_ir_host [of m addr n env] host_session_ok [OF assms(1,2)] assms(3,4) by auto
  moreover have "map Some bs = map (\<lambda>j. v (addr + j)) [0 ..< n]"
    using bs(2,3) by (intro nth_equalityI) simp_all
  ultimately show ?thesis by blast
qed

text \<open>C21: Memory that is allocated for an expression without a process is aligned, was in no other
  allocation, and every allocation in use keeps its bytes; as long as there is room, allocating does
  not fail.\<close>

theorem Malloc_fresh:
  assumes "rounds_up (ie_align_to env)" "host_session env m v" "0 < n" "k \<le> 7" "has_room (im_allocations m) n"
    and "policy = eAllocationPolicyHostOnly \<or> policy = eAllocationPolicyMirror"
  shows "\<exists>addr m'. Malloc env n (2 ^ k) permissions policy zero_memory m = Some (addr, None, m') \<and>
    2 ^ k dvd addr \<and> (\<forall>a. addr \<le> a \<and> a < addr + n \<longrightarrow> v a = None) \<and>
    allocated (im_allocations m') addr n \<and>
    (\<forall>a. v a \<noteq> None \<longrightarrow> host_view (im_allocations m') a = v a)"
proof -
  note ok = host_session_ok [OF assms(1,2)]
  obtain addr m' where m': "Malloc env n (2 ^ k) permissions policy zero_memory m = Some (addr, None, m')"
    "2 ^ k dvd addr" "allocates addr n (allocation_size_for env n (2 ^ k)) (im_allocations m) (im_allocations m')"
    using Malloc_host [OF assms(1), of m policy n k permissions zero_memory] ok assms(3-6) by auto
  have "v a = None" if "addr \<le> a" "a < addr + n" for a
    using m'(3) ok that by (auto simp: allocates_def)
  moreover have "host_view (im_allocations m') a = v a" if "v a \<noteq> None" for a
    using m'(3) ok that by (fastforce simp: allocates_def bytes_at_def)
  ultimately show ?thesis using m' by (auto simp: allocates_def)
qed

section \<open>Pointers\<close>

lemma order_host_bytes:
  "order_nat (InlHostByteOrder pl) (host_bytes pl v) = unat v"
proof -
  have "unat v < 256 ^ 8" using unat_lt_64 [of v] by simp
  then show ?thesis by (simp add: order_nat_def host_bytes_def be_nat_def le_nat_le_bytes)
qed

lemma GetAsMemoryData_bytes:
  assumes "platform_ok pl" "order = eByteOrderBig \<or> order = eByteOrderLittle" "n \<le> 8"
  shows "\<exists>buf. GetAsMemoryData pl v n order = Some (Some buf, n) \<and> length buf = n \<and>
    order_nat order buf = unat v mod 256 ^ n"
proof -
  let ?d = "DataExtractor_of_bytes (host_bytes pl v) (InlHostByteOrder pl) (sizeof_ptr pl) 1"
  have len: "length (host_bytes pl v) = 8" by (simp add: host_bytes_def)
  have "order_ok ?d" "GetByteSize ?d = 8" "slice_nat ?d 0 8 = unat v"
    using assms(1) len order_host_bytes [of pl v]
    by (auto simp: order_ok_def DataExtractor_of_bytes_def GetByteSize_def de_bytes_def slice_nat_def platform_ok_def)
  then show ?thesis
    using CopyByteOrderedData_bytes [of ?d order 8 0 n] assms(2,3) by (simp add: GetAsMemoryData_def min_def)
qed

text \<open>C34: Without a process, a pointer that is written to an allocation in the debugger is read back: the
  value, cut to the address size of the target, in either byte order of the target and of
  the host.\<close>

theorem pointer_roundtrip:
  assumes "rounds_up (ie_align_to env)" "host_session env m v" "platform_ok (ie_platform env)"
    and "ie_target env = Some (order, nbytes)" "order = eByteOrderBig \<or> order = eByteOrderLittle"
    and "nbytes = 4 \<or> nbytes = 8" "allocated (im_allocations m) addr nbytes"
  shows "\<exists>m'. WritePointerToMemory_ir env addr address m = Some (None, m') \<and>
    ReadPointerFromMemory_ir env addr m' = Some (Some (word_of_nat (unat address mod 256 ^ nbytes)), None, m')"
proof -
  note ok = host_session_ok [OF assms(1,2)]
  have size: "0 < nbytes" "nbytes \<le> 8" "nbytes \<noteq> UINT32_MAX" using assms(6) by (auto simp: UINT32_MAX_def)
  obtain buf where buf: "GetAsMemoryData (ie_platform env) address nbytes order = Some (Some buf, nbytes)" "length buf = nbytes"
    "order_nat order buf = unat address mod 256 ^ nbytes"
    using GetAsMemoryData_bytes [OF assms(3,5) size(2)] by blast
  have "buf \<noteq> []" using buf(2) size(1) by auto
  then obtain als' where w: "WriteMemory_ir env addr buf m = Some (None, m\<lparr>im_allocations := als'\<rparr>)"
    "host_ok als'" "host_view als' = bytes_at addr buf v"
    "map (\<lambda>e. (fst e, al_size (snd e))) als' = map (\<lambda>e. (fst e, al_size (snd e))) (im_allocations m)"
    using WriteMemory_ir_host [of m addr buf env] ok assms(7) buf(2) by auto
  define m' where "m' = m\<lparr>im_allocations := als'\<rparr>"
  have m': "host_ok (im_allocations m')" "im_process m' = None" "host_view (im_allocations m') = bytes_at addr buf v"
    using w(2,3) ok by (simp_all add: m'_def)
  have "GetAddressByteSize_ir env m = nbytes" "GetByteOrder_ir env m = order"
    "GetAddressByteSize_ir env m' = nbytes" "GetByteOrder_ir env m' = order"
    using ok m'(2) assms(4) by (simp_all add: GetAddressByteSize_ir_def GetByteOrder_ir_def)
  note env = this
  have written: "WritePointerToMemory_ir env addr address m = Some (None, m')"
    using w(1) buf(1,2) size env by (simp add: WritePointerToMemory_ir_def WriteScalarToMemory_ir_def m'_def)
  have "allocated als' addr nbytes"
  proof -
    have "length als' = length (im_allocations m)"
      "\<And>i. i < length als' \<Longrightarrow> fst (als' ! i) = fst (im_allocations m ! i) \<and>
         al_size (snd (als' ! i)) = al_size (snd (im_allocations m ! i))"
      using w(4) by (auto simp: list_eq_iff_nth_eq)
    then show ?thesis using assms(7) by (auto simp: allocated_def)
  qed
  then obtain bs where bs: "ReadMemory_ir env addr nbytes m' = Some (bs, None, m')" "length bs = nbytes"
    "\<And>j. j < nbytes \<Longrightarrow> bytes_at addr buf v (addr + j) = Some (bs ! j)"
    using ReadMemory_ir_host [OF m'(1) _ size(1), of addr env] m'(3) by (auto simp: m'_def)
  have "bs = buf"
    using bs(2,3) buf(2) by (intro nth_equalityI) (auto simp: bytes_at_def)
  define data where "data = DataExtractor_of_bytes buf order nbytes 1"
  have data: "order_ok data" "GetByteSize data = nbytes" "slice_nat data 0 nbytes = unat address mod 256 ^ nbytes"
    using assms(5) buf(2,3)
    by (auto simp: data_def order_ok_def DataExtractor_of_bytes_def GetByteSize_def de_bytes_def slice_nat_def)
  have "ReadPointerFromMemory_ir env addr m' =
      Some (if nbytes = 4 then (Some (ucast (fst (GetU32 (ie_platform env) data 0))), None, m')
            else (Some (fst (GetU64 (ie_platform env) data 0)), None, m'))"
    using assms(6) bs(1) buf(2) \<open>bs = buf\<close> env
    by (auto simp: ReadPointerFromMemory_ir_def ReadScalarFromMemory_ir_def data_def Let_def)
  also have "\<dots> = Some (Some (word_of_nat (unat address mod 256 ^ nbytes)), None, m')"
    using assms(6) data GetU32_eq [OF assms(3) data(1), of 0] GetU64_eq [OF assms(3) data(1), of 0]
      ucast_word_of_nat [where 'a = 32 and 'b = 64, of "unat address mod 256 ^ 4"]
    by auto
  finally show ?thesis using written by blast
qed

section \<open>Memory of the process\<close>

text \<open>A range that is not in an allocation of the debugger.\<close>

definition process_range :: "(nat \<times> allocation) list \<Rightarrow> nat \<Rightarrow> nat \<Rightarrow> bool" where
  "process_range als addr n \<longleftrightarrow>
     (case FindAllocation addr n als of
        None \<Rightarrow> True
      | Some i \<Rightarrow>
          al_process_start (snd (als ! i)) \<le> addr \<and>
          addr + n \<le> al_process_start (snd (als ! i)) + al_size (snd (als ! i)) \<and>
          (al_policy (snd (als ! i)) = eAllocationPolicyProcessOnly \<or>
           al_policy (snd (als ! i)) = eAllocationPolicyMirror \<and>
             length (al_data (snd (als ! i))) = al_size (snd (als ! i))))"

lemma ReadMemory_ir_process:
  assumes "process_range (im_allocations m) addr n" "im_process m = Some p" "addr < 2 ^ 64" "0 < n"
  shows "ReadMemory_ir env addr n m = read_process env addr n p m"
proof (cases "FindAllocation addr n (im_allocations m)")
  case None
  then show ?thesis using assms(2) by (simp add: ReadMemory_ir_def)
next
  case (Some i)
  let ?al = "snd (im_allocations m ! i)"
  have r: "al_process_start ?al \<le> addr" "addr + n \<le> al_process_start ?al + al_size ?al"
    "al_policy ?al = eAllocationPolicyProcessOnly \<or> al_policy ?al = eAllocationPolicyMirror"
    using assms(1) Some by (auto simp: process_range_def)
  have "\<not> (addr + 2 ^ 64 - al_process_start ?al) mod 2 ^ 64 > al_size ?al"
    using host_offset [OF r(1) assms(3)] r(2) by simp
  then show ?thesis
    using r(3) assms(2) unfolding ReadMemory_ir_def Some option.case Let_def by auto
qed

lemma WriteMemory_ir_process:
  assumes "process_range (im_allocations m) addr (length bytes)" "im_process m = Some p" "addr < 2 ^ 64" "bytes \<noteq> []"
  shows "\<exists>als. WriteMemory_ir env addr bytes m = write_process env addr bytes (m\<lparr>im_allocations := als\<rparr>)"
proof (cases "FindAllocation addr (length bytes) (im_allocations m)")
  case None
  then show ?thesis
    using assms(2) by (intro exI [of _ "im_allocations m"]) (simp add: WriteMemory_ir_def)
next
  case (Some i)
  let ?al = "snd (im_allocations m ! i)"
  have r: "al_process_start ?al \<le> addr" "addr + length bytes \<le> al_process_start ?al + al_size ?al"
    "al_policy ?al = eAllocationPolicyProcessOnly \<or> al_policy ?al = eAllocationPolicyMirror \<and> length (al_data ?al) = al_size ?al"
    using assms(1) Some by (auto simp: process_range_def)
  note offset = host_offset [OF r(1) assms(3)]
  show ?thesis
  proof (cases "al_policy ?al = eAllocationPolicyProcessOnly")
    case True
    then show ?thesis
      using Some by (intro exI [of _ "im_allocations m"]) (simp add: WriteMemory_ir_def case_prod_beta Let_def)
  next
    case False
    then have mirror: "al_policy ?al = eAllocationPolicyMirror" "length (al_data ?al) = al_size ?al" using r(3) by simp_all
    have "memcpy_to (addr - al_process_start ?al) bytes (al_data ?al) =
        Some (overwrite (addr - al_process_start ?al) bytes (al_data ?al))"
      using r(1,2) mirror(2) by (simp add: memcpy_to_def)
    moreover have "al_data ?al \<noteq> []" using mirror(2) r(1,2) assms(4) by (cases bytes) auto
    ultimately show ?thesis
      using mirror(1) unfolding WriteMemory_ir_def Some option.case Let_def case_prod_beta offset by auto
  qed
qed

text \<open>C19: In a session with a process and traps of one byte an expression works on the memory of the
  program: in a range outside of the allocations in the debugger, or in one that is mirrored or in
  the process only, a write changes that memory and a read returns it, with breakpoints in the
  range or not. No site starts right behind the range, it spans fewer than 2^32 cache lines
  and stays a line below 2^64, and a flush finds the chunks that long reads have left there.\<close>

theorem expression_memory_is_the_programs:
  assumes "debug_session (ie_process env) p v" "plugin_ok (ie_process env)" "one_byte_traps (ie_process env)"
    and "im_process m = Some p" "process_range (im_allocations m) addr (length bytes)" "bytes \<noteq> []"
    and "addr + length bytes + mc_line (pr_cache p) < 2 ^ 64"
    and "lines_spanned (mc_line (pr_cache p)) addr (length bytes) < 2 ^ 32"
    and "flush_finds addr (length bytes) (mc_L1 (pr_cache p))"
    and "\<forall>e \<in> set (pr_sites p). fst e \<noteq> addr + length bytes"
  shows "(\<exists>m' p'. WriteMemory_ir env addr bytes m = Some (None, m') \<and> im_process m' = Some p' \<and>
      debug_session (ie_process env) p' (mem_write addr bytes v)) \<and>
    (\<exists>m' p'. ReadMemory_ir env addr (length bytes) m = Some (mem_slice v addr (length bytes), None, m') \<and>
      im_process m' = Some p' \<and> debug_session (ie_process env) p' v)"
proof (rule conjI)
  have ok: "session_ok p v" using debug_session_ok [OF assms(1-3)] .
  have small: "addr < 2 ^ 64" "addr + length bytes < 2 ^ 64" using assms(7) by simp_all
  obtain als where als: "WriteMemory_ir env addr bytes m = write_process env addr bytes (m\<lparr>im_allocations := als\<rparr>)"
    using WriteMemory_ir_process [OF assms(5,4) small(1) assms(6)] by blast
  obtain r p' where w: "WriteMemory (ie_process env) addr bytes None p = Some (r, None, p')"
    using session_write [OF assms(2) ok small(2) assms(8-10)] by blast
  have "debug_session (ie_process env) p' (mem_write addr bytes v)"
    using debug_session.write_step [OF assms(1) small(2) assms(8-10) w] .
  then show "\<exists>m' p'. WriteMemory_ir env addr bytes m = Some (None, m') \<and> im_process m' = Some p' \<and>
    debug_session (ie_process env) p' (mem_write addr bytes v)"
    using als w assms(4) by (simp add: write_process_def)
  obtain q where q: "ReadMemory (ie_process env) addr (length bytes) p = Some (mem_slice v addr (length bytes), None, q)"
    using session_read [OF assms(2) ok assms(7)] by blast
  have "debug_session (ie_process env) q v" using debug_session.read_step [OF assms(1,7) q] .
  then show "\<exists>m' p'. ReadMemory_ir env addr (length bytes) m = Some (mem_slice v addr (length bytes), None, m') \<and>
    im_process m' = Some p' \<and> debug_session (ie_process env) p' v"
    using ReadMemory_ir_process [OF assms(5,4) small(1)] assms(6) q by (simp add: read_process_def)
qed

section \<open>Where the map departs from what it promises\<close>

text \<open>The padding for the alignment is counted in the size of an allocation, but the aligned start
  is used as its base: an allocation in the process reaches past the block that the process gave,
  by as many bytes as its start was moved.\<close>

theorem Malloc_past_the_block:
  assumes "im_process m = Some p" "CanJIT (ie_process env) p = (True, p)" "IsAlive p" "0 < n"
    and "AllocateMemory_process (ie_process env) (allocation_size_for env n alignment) permissions p = (addr, None, p')"
    and "alignment \<noteq> 0" "addr < aligned_up addr alignment"
    and "aligned_up addr alignment \<notin> fst ` set (im_allocations m)"
  shows "\<exists>m' al. Malloc env n alignment permissions eAllocationPolicyProcessOnly False m =
      Some (aligned_up addr alignment, None, m') \<and>
    map_of (im_allocations m') (aligned_up addr alignment) = Some al \<and> al_process_alloc al = addr \<and>
    al_process_start al + al_size al > addr + allocation_size_for env n alignment"
  using assms
  by (simp add: Malloc_def place_def place_in_process_def allocate_in_process_def Let_def new_Allocation_def)

text \<open>A mirrored allocation that has lost its process yields no extractor, although no error is
  reported.\<close>

theorem GetMemoryData_unset:
  assumes "FindAllocation addr n (im_allocations m) = Some i" "0 < n" "im_process m = None"
    and "al_policy (snd (im_allocations m ! i)) = eAllocationPolicyMirror"
    and "al_data (snd (im_allocations m ! i)) \<noteq> []"
  shows "GetMemoryData env addr n m = Some (None, None, m)"
  using assms by (simp add: GetMemoryData_def Let_def case_prod_beta)

text \<open>The search for space never reports that memory is full: when the walk over the regions of a
  process has found all of it mapped, it hands out a fixed address, that may be mapped.\<close>

theorem FindSpace_in_full_memory:
  assumes "im_process m = Some p" "IsAlive p" "CanJIT (ie_process env) p = (False, p)" "0 < n"
    and "im_allocations m = []" "pe_address_byte_size (ie_process env) = 4"
    and "ie_region_info env p 0 = Some r" "mapped r" "ri_base r = 0" "ri_size r = 2 ^ 32"
  shows "FindSpace env n m = Some (0xee000000, m)"
proof -
  have "hunt (ie_region_info env p) n (2 ^ 32 - 1) 0 r = Some (False, LLDB_INVALID_ADDRESS)"
    using assms(8-10) by (subst hunt.simps) (simp add: region_end_def)
  then show ?thesis
    using assms by (simp add: FindSpace_def GetAddressByteSize_ir_def Let_def)
qed

text \<open>In an allocation of the process only, whose process is gone, a write and a read succeed and do
  nothing: what was written is not read back.\<close>

lemma process_only_without_process:
  assumes "FindAllocation addr n (im_allocations m) = Some i" "im_process m = None"
    and "al_policy (snd (im_allocations m ! i)) = eAllocationPolicyProcessOnly" "length bytes = n"
    and "(addr + 2 ^ 64 - al_process_start (snd (im_allocations m ! i))) mod 2 ^ 64 \<le> al_size (snd (im_allocations m ! i))"
  shows "WriteMemory_ir env addr bytes m = Some (None, m)" "ReadMemory_ir env addr n m = Some ([], None, m)"
  using assms by (simp_all add: WriteMemory_ir_def ReadMemory_ir_def write_process_def case_prod_beta Let_def)

section \<open>Examples\<close>

definition demo_ir_env :: ir_env where
  "demo_ir_env = \<lparr>ie_platform = s390x, ie_align_to = (\<lambda>v a. (v + a - 1) div a * a),
     ie_process = demo_process_env x86_64_machine, ie_region_info = (\<lambda>_ _. None),
     ie_target = Some (eByteOrderLittle, 8), ie_target_read = (\<lambda>_ n. (replicate n 0, None))\<rparr>"

lemma demo_rounds_up: "rounds_up (ie_align_to demo_ir_env)"
proof -
  have "v \<le> (v + a - 1) div a * a \<and> (v + a - 1) div a * a < v + a" if "0 < a" for v a :: nat
  proof -
    have "(v + a - 1) div a * a + (v + a - 1) mod a = v + a - 1" by (rule div_mult_mod_eq)
    moreover have "(v + a - 1) mod a < a" using that by simp
    ultimately show ?thesis using that by linarith
  qed
  then show ?thesis by (simp add: rounds_up_def demo_ir_env_def)
qed

definition demo_map_without_process :: ir_map where
  "demo_map_without_process = \<lparr>im_allocations = [], im_process = None\<rparr>"

lemma demo_malloc:
  obtains addr m' where
    "Malloc demo_ir_env 8 (2 ^ 4) 3 eAllocationPolicyHostOnly True demo_map_without_process = Some (addr, None, m')"
    "host_session demo_ir_env m' (bytes_at addr (replicate (allocation_size_for demo_ir_env 8 (2 ^ 4)) 0) (\<lambda>_. None))"
    "allocated (im_allocations m') addr 8" "8 \<le> allocation_size_for demo_ir_env 8 (2 ^ 4)"
proof -
  have start: "host_session demo_ir_env demo_map_without_process (\<lambda>_. None)"
    unfolding demo_map_without_process_def by (rule host_session.start_map)
  have room: "has_room (im_allocations demo_map_without_process) 8"
    by (simp add: has_room_def demo_map_without_process_def)
  obtain addr m' where m: "Malloc demo_ir_env 8 (2 ^ 4) 3 eAllocationPolicyHostOnly True demo_map_without_process =
      Some (addr, None, m')"
    "allocates addr 8 (allocation_size_for demo_ir_env 8 (2 ^ 4)) (im_allocations demo_map_without_process) (im_allocations m')"
    using Malloc_host [OF demo_rounds_up, of demo_map_without_process eAllocationPolicyHostOnly 8 4 3 True] room
      host_session_ok [OF demo_rounds_up start] by auto
  have "host_session demo_ir_env m' (bytes_at addr (replicate (allocation_size_for demo_ir_env 8 (2 ^ 4)) 0) (\<lambda>_. None))"
    by (rule host_session.malloc_step [OF start _ _ room _ m(1)]) simp_all
  then show ?thesis using that [OF m(1)] m(2) by (simp add: allocates_def)
qed

lemma host_session_reads_witness:
  "\<exists>addr m'. Malloc demo_ir_env 8 (2 ^ 4) 3 eAllocationPolicyHostOnly True demo_map_without_process = Some (addr, None, m') \<and>
     ReadMemory_ir demo_ir_env addr 8 m' = Some (replicate 8 0, None, m')"
proof -
  obtain addr m' where m: "Malloc demo_ir_env 8 (2 ^ 4) 3 eAllocationPolicyHostOnly True demo_map_without_process =
      Some (addr, None, m')"
    "host_session demo_ir_env m' (bytes_at addr (replicate (allocation_size_for demo_ir_env 8 (2 ^ 4)) 0) (\<lambda>_. None))"
    "allocated (im_allocations m') addr 8" "8 \<le> allocation_size_for demo_ir_env 8 (2 ^ 4)"
    by (rule demo_malloc)
  obtain bs where bs: "ReadMemory_ir demo_ir_env addr 8 m' = Some (bs, None, m')"
    "map Some bs = map (\<lambda>j. bytes_at addr (replicate (allocation_size_for demo_ir_env 8 (2 ^ 4)) 0) (\<lambda>_. None) (addr + j)) [0 ..< 8]"
    using host_session_reads [OF demo_rounds_up m(2,3)] by auto
  have "map Some bs = map Some (replicate 8 0)"
    unfolding bs(2) using m(4) by (intro nth_equalityI) (auto simp: bytes_at_def)
  then have "bs = replicate 8 0" by (metis inj_map_eq_map inj_Some)
  then show ?thesis using m(1) bs(1) by blast
qed

lemma Malloc_fresh_witness:
  "\<exists>addr m'. Malloc demo_ir_env 8 (2 ^ 4) 3 eAllocationPolicyHostOnly False demo_map_without_process = Some (addr, None, m') \<and>
     2 ^ 4 dvd addr"
proof -
  have start: "host_session demo_ir_env demo_map_without_process (\<lambda>_. None)"
    unfolding demo_map_without_process_def by (rule host_session.start_map)
  show ?thesis
    using Malloc_fresh [OF demo_rounds_up start, of 8 4 eAllocationPolicyHostOnly 3 False]
    by (auto simp: has_room_def demo_map_without_process_def)
qed

lemma pointer_roundtrip_witness:
  "\<exists>addr m m'. WritePointerToMemory_ir demo_ir_env addr 0x123456789a m = Some (None, m') \<and>
     ReadPointerFromMemory_ir demo_ir_env addr m' = Some (Some 0x123456789a, None, m')"
proof -
  obtain addr m where m: "host_session demo_ir_env m (bytes_at addr (replicate (allocation_size_for demo_ir_env 8 (2 ^ 4)) 0) (\<lambda>_. None))"
    "allocated (im_allocations m) addr 8"
    by (rule demo_malloc)
  have pl: "platform_ok (ie_platform demo_ir_env)" by (simp add: demo_ir_env_def s390x_ok)
  show ?thesis
    using pointer_roundtrip [OF demo_rounds_up m(1) pl, of eByteOrderLittle 8 addr "0x123456789a"] m(2)
    by (auto simp: demo_ir_env_def)
qed

definition demo_expression :: "process \<Rightarrow> ir_map" where
  "demo_expression p = \<lparr>im_allocations = [], im_process = Some p\<rparr>"

lemma demo_expression_range: "process_range (im_allocations (demo_expression p)) addr n"
  by (simp add: process_range_def demo_expression_def FindAllocation_def)

lemma expression_memory_is_the_programs_witness:
  "\<exists>m'. ReadMemory_ir demo_ir_env 4095 3 (demo_expression (demo_stop x86_64_machine 4096 demo_process)) =
     Some ([0x90, 0x90, 0x90], None, m')"
proof -
  have s: "debug_session (ie_process demo_ir_env) (demo_stop x86_64_machine 4096 demo_process) (\<lambda>_. 0x90)"
    "plugin_ok (ie_process demo_ir_env)" "one_byte_traps (ie_process demo_ir_env)"
    using demo_session demo_plugin_ok demo_one_byte by (simp_all add: demo_ir_env_def)
  have "im_process (demo_expression (demo_stop x86_64_machine 4096 demo_process)) =
      Some (demo_stop x86_64_machine 4096 demo_process)" by (simp add: demo_expression_def)
  from expression_memory_is_the_programs [OF s this demo_expression_range, of "[1, 2, 3]" 4095]
  show ?thesis
    using demo_line [of 4096 x86_64_machine]
    by (auto simp: demo_stop_once demo_site_def lines_spanned_def numeral_3_eq_3)
qed

text \<open>A process that has given out one block of 32 bytes.\<close>

definition demo_busy :: process where
  "demo_busy = demo_process\<lparr>pr_can_jit := eCanJITYes, pr_allocated := snd (AllocateMemory demo_pages 20 3 empty_cache)\<rparr>"

lemma demo_busy_allocates:
  "\<exists>p'. AllocateMemory_process (ie_process demo_ir_env) 127 3 demo_busy = (4128, None, p')"
  by (simp add: AllocateMemory_process_def demo_busy_def demo_process_def demo_ir_env_def demo_process_env_def
      AllocateMemory_def empty_cache_def AllocatePage_def lower_bound_def demo_pages_def
      ReserveBlock_def first_fit_def new_AllocatedBlock_def UINT64_MAX_def SetByteSize_def Insert_def
      CalculateChunksNeededForSize_def Let_def SetRangeBase_def GetRangeEnd_def range_less_def)

lemma Malloc_past_the_block_witness:
  "\<exists>m' al. Malloc demo_ir_env 8 64 3 eAllocationPolicyProcessOnly False (demo_expression demo_busy) = Some (4160, None, m') \<and>
     map_of (im_allocations m') 4160 = Some al \<and> al_process_alloc al = 4128 \<and> al_process_start al + al_size al > 4128 + 127"
proof -
  obtain p' where p': "AllocateMemory_process (ie_process demo_ir_env) 127 3 demo_busy = (4128, None, p')"
    using demo_busy_allocates by blast
  have sz: "allocation_size_for demo_ir_env 8 64 = 127" by (simp add: allocation_size_for_def demo_ir_env_def)
  have up: "aligned_up 4128 64 = 4160" by (simp add: aligned_up_def)
  have p: "im_process (demo_expression demo_busy) = Some demo_busy" "CanJIT (ie_process demo_ir_env) demo_busy = (True, demo_busy)"
    "IsAlive demo_busy"
    by (simp_all add: demo_expression_def CanJIT_def demo_busy_def demo_process_def IsAlive_def)
  show ?thesis
    using Malloc_past_the_block [OF p, of 8 64 3 4128 p'] p' by (simp add: sz up demo_expression_def)
qed

definition demo_orphan :: ir_map where
  "demo_orphan = \<lparr>im_allocations = [(4096, new_Allocation 4096 4096 16 3 16 eAllocationPolicyMirror)], im_process = None\<rparr>"

lemma GetMemoryData_unset_witness: "GetMemoryData demo_ir_env 4096 8 demo_orphan = Some (None, None, demo_orphan)"
  by (rule GetMemoryData_unset [of _ _ _ 0])
    (simp_all add: demo_orphan_def new_Allocation_def FindAllocation_def UINT64_MAX_def)

definition demo_full_env :: ir_env where
  "demo_full_env = demo_ir_env\<lparr>ie_process := (demo_process_env x86_64_machine)\<lparr>pe_address_byte_size := 4\<rparr>,
     ie_region_info := (\<lambda>_ _. Some \<lparr>ri_base = 0, ri_size = 2 ^ 32, ri_readable = eYes, ri_writable = eYes, ri_executable = eNo\<rparr>)\<rparr>"

lemma FindSpace_in_full_memory_witness:
  "FindSpace demo_full_env 16 (demo_expression (demo_process\<lparr>pr_can_jit := eCanJITNo\<rparr>)) =
     Some (0xee000000, demo_expression (demo_process\<lparr>pr_can_jit := eCanJITNo\<rparr>))"
  by (rule FindSpace_in_full_memory [of _ "demo_process\<lparr>pr_can_jit := eCanJITNo\<rparr>" _ _
        "\<lparr>ri_base = 0, ri_size = 2 ^ 32, ri_readable = eYes, ri_writable = eYes, ri_executable = eNo\<rparr>"])
    (simp_all add: demo_full_env_def demo_expression_def demo_process_def CanJIT_def IsAlive_def mapped_def)

end
