(* ===== verification/X86Inspection.thy ===== *)
theory X86Inspection
  imports UnwindPlan
begin

text \<open>
  The inspection of x86 functions (\<open>x86AssemblyInspectionEngine\<close>,
  source/Plugins/UnwindAssembly/x86): an unwind plan is made, or completed, by following what
  the instructions of a function do to its stack frame.

  \<open>x86_engine\<close> is the object of the code: the processor, its word size and the numbers that the
  registers have in LLDB. The length of an instruction is LLVM's business, a parameter on the
  bytes that it is shown. The instruction being looked at is the rest of the function from there.
  \<open>None\<close> is undefined behaviour: a byte read behind the function, an \<open>int\<close> that overflows, a
  null row.
\<close>

unbundle bit_operations_syntax

section \<open>The engine and its registers\<close>

datatype triple_arch = arch_x86 | arch_x86_64 | arch_other

datatype x86_cpu = k_i386 | k_x86_64 | k_cpu_unspecified

record lldb_reg_info =
  ri_name :: string
  ri_lldb_regnum :: nat

record x86_engine =
  xe_machine_ip_regnum :: nat
  xe_machine_sp_regnum :: nat
  xe_machine_fp_regnum :: nat
  xe_lldb_ip_regnum :: nat
  xe_lldb_sp_regnum :: nat
  xe_lldb_fp_regnum :: nat
  xe_reg_map :: "(nat \<times> lldb_reg_info) list"
  xe_arch :: triple_arch
  xe_cpu :: x86_cpu
  xe_wordsize :: int
  xe_register_map_initialized :: bool

definition new_x86_engine :: "triple_arch \<Rightarrow> x86_engine" where
  "new_x86_engine arch =
     \<lparr>xe_machine_ip_regnum = LLDB_INVALID_REGNUM, xe_machine_sp_regnum = LLDB_INVALID_REGNUM,
      xe_machine_fp_regnum = LLDB_INVALID_REGNUM, xe_lldb_ip_regnum = LLDB_INVALID_REGNUM,
      xe_lldb_sp_regnum = LLDB_INVALID_REGNUM, xe_lldb_fp_regnum = LLDB_INVALID_REGNUM,
      xe_reg_map = [], xe_arch = arch, xe_cpu = k_cpu_unspecified, xe_wordsize = - 1,
      xe_register_map_initialized = False\<rparr>"

definition i386_registers :: "(nat \<times> string) list" where
  "i386_registers =
     [(0, ''eax''), (2, ''edx''), (4, ''esp''), (6, ''esi''), (8, ''eip''), (1, ''ecx''), (3, ''ebx''),
      (5, ''ebp''), (7, ''edi'')]"

definition x86_64_registers :: "(nat \<times> string) list" where
  "x86_64_registers =
     [(0, ''rax''), (2, ''rdx''), (4, ''rsp''), (6, ''rsi''), (8, ''r8''), (10, ''r10''), (12, ''r12''),
      (14, ''r14''), (16, ''rip''), (1, ''rcx''), (3, ''rbx''), (5, ''rbp''), (7, ''rdi''), (9, ''r9''),
      (11, ''r11''), (13, ''r13''), (15, ''r15'')]"

definition name_registers ::
  "(nat \<times> string) list \<Rightarrow> (nat \<times> lldb_reg_info) list \<Rightarrow> (nat \<times> lldb_reg_info) list" where
  "name_registers names m =
     fold (\<lambda>(n, name). map_put n \<lparr>ri_name = name, ri_lldb_regnum = LLDB_INVALID_REGNUM\<rparr>) names m"

definition machine_regno_to_lldb_regno :: "x86_engine \<Rightarrow> nat \<Rightarrow> nat option" where
  "machine_regno_to_lldb_regno e machine_regno = map_option ri_lldb_regnum (map_of (xe_reg_map e) machine_regno)"

text \<open>What both initializations share. The first argument numbers a register by its name.\<close>

definition machine_cpu :: "triple_arch \<Rightarrow> x86_cpu" where
  "machine_cpu arch =
     (case arch of arch_x86 \<Rightarrow> k_i386 | arch_x86_64 \<Rightarrow> k_x86_64 | arch_other \<Rightarrow> k_cpu_unspecified)"

definition set_lldb_regnums :: "x86_engine \<Rightarrow> x86_engine" where
  "set_lldb_regnums e =
     (let number = (\<lambda>machine_regno old. case machine_regno_to_lldb_regno e machine_regno of Some n \<Rightarrow> n | None \<Rightarrow> old)
      in e\<lparr>xe_lldb_sp_regnum := number (xe_machine_sp_regnum e) (xe_lldb_sp_regnum e),
           xe_lldb_fp_regnum := number (xe_machine_fp_regnum e) (xe_lldb_fp_regnum e),
           xe_lldb_ip_regnum := number (xe_machine_ip_regnum e) (xe_lldb_ip_regnum e),
           xe_register_map_initialized := True\<rparr>)"

definition set_machine :: "x86_engine \<Rightarrow> x86_engine" where
  "set_machine e =
     (if xe_cpu e = k_i386
      then e\<lparr>xe_machine_ip_regnum := 8, xe_machine_sp_regnum := 4, xe_machine_fp_regnum := 5,
             xe_wordsize := 4, xe_reg_map := name_registers i386_registers (xe_reg_map e)\<rparr>
      else e\<lparr>xe_machine_ip_regnum := 16, xe_machine_sp_regnum := 4, xe_machine_fp_regnum := 5,
             xe_wordsize := 8, xe_reg_map := name_registers x86_64_registers (xe_reg_map e)\<rparr>)"

definition number_registers :: "(string \<Rightarrow> nat option) \<Rightarrow> x86_engine \<Rightarrow> x86_engine" where
  "number_registers regnum_of e =
     e\<lparr>xe_reg_map := map (\<lambda>(n, r). (n, case regnum_of (ri_name r) of
         Some k \<Rightarrow> r\<lparr>ri_lldb_regnum := k\<rparr> | None \<Rightarrow> r)) (xe_reg_map e)\<rparr>"

definition reset_machine :: "x86_engine \<Rightarrow> x86_engine" where
  "reset_machine e =
     e\<lparr>xe_cpu := machine_cpu (xe_arch e), xe_wordsize := - 1, xe_register_map_initialized := False\<rparr>"

text \<open>From a register context, given by the numbers of its named registers, and from a list.\<close>

definition Initialize_context :: "(string \<Rightarrow> nat option) option \<Rightarrow> x86_engine \<Rightarrow> x86_engine" where
  "Initialize_context reg_ctx e =
     (let e = reset_machine e
      in if xe_cpu e = k_cpu_unspecified then e
         else case reg_ctx of
                None \<Rightarrow> e
              | Some regnum_of \<Rightarrow> set_lldb_regnums (number_registers regnum_of (set_machine e)))"

definition Initialize_list :: "lldb_reg_info list \<Rightarrow> x86_engine \<Rightarrow> x86_engine" where
  "Initialize_list reg_info e =
     (let e = reset_machine e
      in if xe_cpu e = k_cpu_unspecified then e
         else set_lldb_regnums (number_registers
                (\<lambda>name. map_option ri_lldb_regnum (find (\<lambda>r. ri_name r = name) reg_info)) (set_machine e)))"

definition nonvolatile_reg_p :: "x86_engine \<Rightarrow> nat \<Rightarrow> bool" where
  "nonvolatile_reg_p e machine_regno =
     (case xe_cpu e of
        k_i386 \<Rightarrow> machine_regno \<in> {3, 5, 6, 7, 4}
      | k_x86_64 \<Rightarrow> machine_regno \<in> {3, 4, 5, 12, 13, 14, 15}
      | k_cpu_unspecified \<Rightarrow> False)"

section \<open>Instruction patterns\<close>

text \<open>An arithmetic result of type \<open>int\<close>, and the reads of a byte and of a list of them, which stop at
  the first difference.\<close>

definition c_int :: "int \<Rightarrow> int option" where
  "c_int n = (if - (2 ^ 31) \<le> n \<and> n < 2 ^ 31 then Some n else None)"

definition insn_byte :: "u8 list \<Rightarrow> nat \<Rightarrow> u8 option" where
  "insn_byte p i = (if i < length p then Some (p ! i) else None)"

fun matches :: "u8 list \<Rightarrow> u8 list \<Rightarrow> bool option" where
  "matches [] p = Some True"
| "matches (b # bs) [] = None"
| "matches (b # bs) (x # p) = (if x = b then matches bs p else Some False)"

text \<open>The first match of several, and the instruction behind a REX prefix.\<close>

definition either :: "bool option \<Rightarrow> bool option \<Rightarrow> bool option" where
  "either a b = do { x \<leftarrow> a; if x then Some True else b }"

definition skip_prefix :: "x86_engine \<Rightarrow> u8 \<Rightarrow> u8 list \<Rightarrow> u8 list option" where
  "skip_prefix e prefix p =
     (if xe_wordsize e = 8 then do { b \<leftarrow> insn_byte p 0; Some (if b = prefix then tl p else p) } else Some p)"

definition extract_4 :: "u8 list \<Rightarrow> u32 option" where
  "extract_4 p = (if 4 \<le> length p then Some (word_of_nat (le_nat (take 4 p))) else None)"

definition imm8 :: "u8 list \<Rightarrow> nat \<Rightarrow> int option" where
  "imm8 p i = map_option sint (insn_byte p i)"

definition imm32 :: "u8 list \<Rightarrow> nat \<Rightarrow> int option" where
  "imm32 p i = map_option sint (extract_4 (drop i p))"

definition push_rbp_pattern_p :: "u8 list \<Rightarrow> bool option" where
  "push_rbp_pattern_p p = matches [0x55] p"

definition push_0_pattern_p :: "u8 list \<Rightarrow> bool option" where
  "push_0_pattern_p p = matches [0x6a, 0x00] p"

definition push_imm_pattern_p :: "u8 list \<Rightarrow> bool option" where
  "push_imm_pattern_p p = either (matches [0x68] p) (matches [0x6a] p)"

definition push_extended_pattern_p :: "u8 list \<Rightarrow> bool option" where
  "push_extended_pattern_p p = do {
     b \<leftarrow> insn_byte p 0;
     if b = 0xff then do {
       m \<leftarrow> insn_byte p 1;
       Some (drop_bit 3 m AND 7 = 6) }
     else Some False }"

definition push_misc_reg_p :: "x86_engine \<Rightarrow> u8 list \<Rightarrow> bool option" where
  "push_misc_reg_p e p = do {
     b \<leftarrow> insn_byte p 0;
     Some (xe_wordsize e = 4 \<and> b \<in> {0x0e, 0x16, 0x1e, 0x06}) }"

text \<open>The register of a push or a pop whose opcodes start at \<open>base\<close>.\<close>

definition reg_of_opcode :: "x86_engine \<Rightarrow> u8 \<Rightarrow> u8 list \<Rightarrow> nat option option" where
  "reg_of_opcode e base p = do {
     b \<leftarrow> insn_byte p 0;
     let prefixed = (xe_wordsize e = 8 \<and> b = 0x41);
     b \<leftarrow> insn_byte p (if prefixed then 1 else 0);
     Some (if base \<le> b \<and> b \<le> base + 7
           then Some (unat (b - base) + (if prefixed then 8 else 0)) else None) }"

definition push_reg_p :: "x86_engine \<Rightarrow> u8 list \<Rightarrow> nat option option" where
  "push_reg_p e p = reg_of_opcode e 0x50 p"

definition mov_rsp_rbp_pattern_p :: "x86_engine \<Rightarrow> u8 list \<Rightarrow> bool option" where
  "mov_rsp_rbp_pattern_p e p = do {
     p \<leftarrow> skip_prefix e 0x48 p;
     either (matches [0x8b, 0xec] p) (matches [0x89, 0xe5] p) }"

text \<open>An immediate operand of 8 or 32 bits for the stack pointer.\<close>

definition rsp_immediate :: "x86_engine \<Rightarrow> u8 \<Rightarrow> u8 list \<Rightarrow> int option option" where
  "rsp_immediate e modrm p = do {
     p \<leftarrow> skip_prefix e 0x48 p;
     short \<leftarrow> matches [0x83, modrm] p;
     if short then map_option Some (imm8 p 2)
     else do {
       long \<leftarrow> matches [0x81, modrm] p;
       if long then map_option Some (imm32 p 2) else Some None } }"

definition sub_rsp_pattern_p :: "x86_engine \<Rightarrow> u8 list \<Rightarrow> int option option" where
  "sub_rsp_pattern_p e p = rsp_immediate e 0xec p"

definition add_rsp_pattern_p :: "x86_engine \<Rightarrow> u8 list \<Rightarrow> int option option" where
  "add_rsp_pattern_p e p = rsp_immediate e 0xc4 p"

definition lea_rsp_pattern_p :: "x86_engine \<Rightarrow> u8 list \<Rightarrow> int option option" where
  "lea_rsp_pattern_p e p = do {
     p \<leftarrow> skip_prefix e 0x48 p;
     b \<leftarrow> insn_byte p 0;
     if b \<noteq> 0x8d then Some None
     else do {
       modrm \<leftarrow> insn_byte p 1;
       short \<leftarrow> (if modrm = 0x64 then map_option (\<lambda>sib. sib AND 0x3f = 0x24) (insn_byte p 2) else Some False);
       if short then map_option Some (imm8 p 3)
       else do {
         long \<leftarrow> (if modrm = 0xa4 then map_option (\<lambda>sib. sib AND 0x3f = 0x24) (insn_byte p 2) else Some False);
         if long then map_option Some (imm32 p 3) else Some None } } }"

definition lea_rbp_rsp_pattern_p :: "x86_engine \<Rightarrow> u8 list \<Rightarrow> int option option" where
  "lea_rbp_rsp_pattern_p e p = do {
     p \<leftarrow> skip_prefix e 0x48 p;
     b \<leftarrow> insn_byte p 0;
     if b \<noteq> 0x8d then Some None
     else do {
       modrm \<leftarrow> insn_byte p 1;
       if modrm = 0x65 then map_option Some (imm8 p 2)
       else if modrm = 0xa5 then map_option Some (imm32 p 2)
       else Some None } }"

definition pop_reg_p :: "x86_engine \<Rightarrow> u8 list \<Rightarrow> nat option option" where
  "pop_reg_p e p = reg_of_opcode e 0x58 p"

definition pop_rbp_pattern_p :: "u8 list \<Rightarrow> bool option" where
  "pop_rbp_pattern_p p = matches [0x5d] p"

definition pop_misc_reg_p :: "x86_engine \<Rightarrow> u8 list \<Rightarrow> bool option" where
  "pop_misc_reg_p e p = do {
     b \<leftarrow> insn_byte p 0;
     Some (xe_wordsize e = 4 \<and> b \<in> {0x1f, 0x07, 0x17}) }"

definition leave_pattern_p :: "u8 list \<Rightarrow> bool option" where
  "leave_pattern_p p = matches [0xc9] p"

definition call_next_insn_pattern_p :: "u8 list \<Rightarrow> bool option" where
  "call_next_insn_pattern_p p = matches [0xe8, 0x00, 0x00, 0x00, 0x00] p"

definition REX_W_PREFIX_P :: "u8 \<Rightarrow> bool" where
  "REX_W_PREFIX_P opcode \<longleftrightarrow> opcode AND NOT 0x5 = 0x48"

definition REX_W_SRCREG :: "u8 \<Rightarrow> nat" where
  "REX_W_SRCREG opcode = unat (drop_bit 2 (opcode AND 0x4))"

definition REX_W_DSTREG :: "u8 \<Rightarrow> nat" where
  "REX_W_DSTREG opcode = unat (opcode AND 0x1)"

text \<open>The register and the offset below the frame pointer.\<close>

definition mov_reg_to_local_stack_frame_p :: "x86_engine \<Rightarrow> u8 list \<Rightarrow> (nat \<times> int) option option" where
  "mov_reg_to_local_stack_frame_p e p = do {
     b \<leftarrow> insn_byte p 0;
     let prefixed = (xe_wordsize e = 8 \<and> REX_W_PREFIX_P b);
     let src_reg_prefix_bit = (if prefixed then push_bit 3 (REX_W_SRCREG b) else 0);
     let target_reg_prefix_bit = (if prefixed then push_bit 3 (REX_W_DSTREG b) else 0);
     if target_reg_prefix_bit = 1 then Some None
     else do {
       let p = (if prefixed then tl p else p);
       b \<leftarrow> insn_byte p 0;
       if b = 0x89 then do {
         modrm \<leftarrow> insn_byte p 1;
         let opcode_destreg_masked_out = modrm AND NOT 0x38;
         if opcode_destreg_masked_out \<noteq> 0x45 \<and> opcode_destreg_masked_out \<noteq> 0x85 then Some None
         else do {
           offset \<leftarrow> (if opcode_destreg_masked_out = 0x45 then imm8 p 2 else imm32 p 2);
           if offset > 0 then Some None
           else do {
             rbp_offset \<leftarrow> c_int (- offset);
             Some (Some (unat (drop_bit 3 modrm AND 7) + src_reg_prefix_bit, rbp_offset)) } } }
       else Some None } }"

definition ret_pattern_p :: "u8 list \<Rightarrow> bool option" where
  "ret_pattern_p p = do {
     b \<leftarrow> insn_byte p 0;
     Some (b \<in> {0xc9, 0xc2, 0xca, 0xc3}) }"

text \<open>LLVM is shown at most as many bytes as an instruction can have (15 for these processors); what is
  left of the function is counted in 32 bits.\<close>

definition instruction_length :: "(u8 list \<Rightarrow> nat) \<Rightarrow> u8 list \<Rightarrow> nat" where
  "instruction_length disasm p = disasm (take (min (length p mod 2 ^ 32) 15) p)"

text \<open>An instruction that is not recognized, or too long (\<open>kMaxInstructionByteSize\<close>), ends an inspection.\<close>

definition junk_insn :: "nat \<Rightarrow> bool" where
  "junk_insn n \<longleftrightarrow> n = 0 \<or> n > 32"

section \<open>What an instruction does to the frame\<close>

definition SetOffset_cfa :: "int \<Rightarrow> cfa_value \<Rightarrow> cfa_value" where
  "SetOffset_cfa offset v = (case v of isRegisterPlusOffset r _ \<Rightarrow> isRegisterPlusOffset r offset | _ \<Rightarrow> v)"

definition IncOffset_cfa :: "int \<Rightarrow> cfa_value \<Rightarrow> cfa_value option" where
  "IncOffset_cfa delta v =
     (case v of isRegisterPlusOffset r offset \<Rightarrow> map_option (isRegisterPlusOffset r) (c_int (offset + delta)) | _ \<Rightarrow> Some v)"

definition row_cfa_reg :: "row \<Rightarrow> nat" where
  "row_cfa_reg r = GetRegisterNumber_cfa (row_cfa_value r)"

definition row_cfa_offset :: "row \<Rightarrow> int" where
  "row_cfa_offset r = GetOffset_cfa (row_cfa_value r)"

text \<open>The variables of the inspection. What is kept of a completed prologue is the row, the offset of
  the stack pointer (uninitialised at first) and the registers saved.\<close>

record inspection =
  in_sp_bytes_offset_from_cfa :: int
  in_row :: row
  in_saved_registers :: "bool list"
  in_completed_row :: "row option"
  in_completed_sp_bytes_offset :: "int option"
  in_completed_saved_registers :: "bool list"
  in_plan :: unwind_plan

text \<open>The stack pointer moves by some bytes; the CFA follows if it is found from the stack pointer.
  The second component says whether the row was changed.\<close>

definition follow_sp :: "x86_engine \<Rightarrow> int \<Rightarrow> inspection \<Rightarrow> (inspection \<times> bool) option" where
  "follow_sp e amount st = do {
     sp \<leftarrow> c_int (in_sp_bytes_offset_from_cfa st + amount);
     let st = st\<lparr>in_sp_bytes_offset_from_cfa := sp\<rparr>;
     Some (if row_cfa_reg (in_row st) = xe_lldb_sp_regnum e
           then (st\<lparr>in_row := (in_row st)\<lparr>row_cfa_value := SetOffset_cfa sp (row_cfa_value (in_row st))\<rparr>\<rparr>, True)
           else (st, False)) }"

definition save_reg_at :: "nat \<Rightarrow> nat \<Rightarrow> int \<Rightarrow> inspection \<Rightarrow> inspection" where
  "save_reg_at machine_regno lldb_regno offset st =
     st\<lparr>in_row := SetRegisterInfo lldb_regno (atCFAPlusOffset offset) (in_row st),
        in_saved_registers := (in_saved_registers st)[machine_regno := True]\<rparr>"

definition is_saved :: "nat \<Rightarrow> inspection \<Rightarrow> bool option" where
  "is_saved machine_regno st =
     (if machine_regno < length (in_saved_registers st) then Some (in_saved_registers st ! machine_regno) else None)"

text \<open>The number of a register that a function has to preserve.\<close>

definition preserved_regno :: "x86_engine \<Rightarrow> nat \<Rightarrow> nat option" where
  "preserved_regno e machine_regno =
     (if nonvolatile_reg_p e machine_regno then machine_regno_to_lldb_regno e machine_regno else None)"

definition on_push_rbp :: "x86_engine \<Rightarrow> inspection \<Rightarrow> inspection option" where
  "on_push_rbp e st = do {
     sp \<leftarrow> c_int (in_sp_bytes_offset_from_cfa st + xe_wordsize e);
     let row = (in_row st)\<lparr>row_cfa_value := SetOffset_cfa sp (row_cfa_value (in_row st))\<rparr>;
     offset \<leftarrow> c_int (- row_cfa_offset row);
     Some (save_reg_at (xe_machine_fp_regnum e) (xe_lldb_fp_regnum e) offset
             (st\<lparr>in_sp_bytes_offset_from_cfa := sp, in_row := row\<rparr>)) }"

definition on_mov_rsp_rbp :: "x86_engine \<Rightarrow> inspection \<Rightarrow> inspection" where
  "on_mov_rsp_rbp e st =
     st\<lparr>in_row := (in_row st)\<lparr>row_cfa_value := isRegisterPlusOffset (xe_lldb_fp_regnum e) (row_cfa_offset (in_row st))\<rparr>\<rparr>"

definition on_push_reg :: "x86_engine \<Rightarrow> nat \<Rightarrow> inspection \<Rightarrow> (inspection \<times> bool) option" where
  "on_push_reg e machine_regno st = do {
     (st, row_updated) \<leftarrow> follow_sp e (xe_wordsize e) st;
     case preserved_regno e machine_regno of
       None \<Rightarrow> Some (st, row_updated)
     | Some lldb_regno \<Rightarrow> do {
         saved \<leftarrow> is_saved machine_regno st;
         if saved then Some (st, row_updated)
         else do {
           offset \<leftarrow> c_int (- in_sp_bytes_offset_from_cfa st);
           Some (save_reg_at machine_regno lldb_regno offset st, True) } } }"

text \<open>A pop also says whether it restores a register, which makes it part of an epilogue.\<close>

definition on_pop_reg :: "x86_engine \<Rightarrow> nat \<Rightarrow> inspection \<Rightarrow> (inspection \<times> bool \<times> bool) option" where
  "on_pop_reg e machine_regno st = do {
     sp \<leftarrow> c_int (in_sp_bytes_offset_from_cfa st - xe_wordsize e);
     let st = st\<lparr>in_sp_bytes_offset_from_cfa := sp\<rparr>;
     (st, restored) \<leftarrow>
       (case preserved_regno e machine_regno of
          None \<Rightarrow> Some (st, False)
        | Some lldb_regno \<Rightarrow> do {
            saved \<leftarrow> is_saved machine_regno st;
            let row = RemoveRegisterInfo lldb_regno (in_row st);
            Some (if saved
                  then (st\<lparr>in_saved_registers := (in_saved_registers st)[machine_regno := False],
                           in_row := (if machine_regno = xe_machine_fp_regnum e
                                      then row\<lparr>row_cfa_value := isRegisterPlusOffset (xe_lldb_sp_regnum e) (row_cfa_offset row)\<rparr>
                                      else row)\<rparr>, True)
                  else (st, False)) });
     Some (if row_cfa_reg (in_row st) = xe_lldb_sp_regnum e
           then (st\<lparr>in_row := (in_row st)\<lparr>row_cfa_value := isRegisterPlusOffset (xe_lldb_sp_regnum e) sp\<rparr>\<rparr>, restored, True)
           else (st, restored, restored)) }"

definition on_pop_misc_reg :: "x86_engine \<Rightarrow> inspection \<Rightarrow> (inspection \<times> bool) option" where
  "on_pop_misc_reg e st = do {
     sp \<leftarrow> c_int (in_sp_bytes_offset_from_cfa st - xe_wordsize e);
     let st = st\<lparr>in_sp_bytes_offset_from_cfa := sp\<rparr>;
     Some (if row_cfa_reg (in_row st) = xe_lldb_sp_regnum e
           then (st\<lparr>in_row := (in_row st)\<lparr>row_cfa_value := isRegisterPlusOffset (xe_lldb_sp_regnum e) sp\<rparr>\<rparr>, True)
           else (st, False)) }"

definition on_leave :: "x86_engine \<Rightarrow> inspection \<Rightarrow> inspection option" where
  "on_leave e st = do {
     sp \<leftarrow> c_int (row_cfa_offset (in_row st) - xe_wordsize e);
     let row = (in_row st)\<lparr>row_cfa_value := SetOffset_cfa sp (row_cfa_value (in_row st))\<rparr>;
     let row = RemoveRegisterInfo (xe_lldb_fp_regnum e) row;
     let row = row\<lparr>row_cfa_value := isRegisterPlusOffset (xe_lldb_sp_regnum e) (row_cfa_offset row)\<rparr>;
     let row = row\<lparr>row_cfa_value := SetOffset_cfa sp (row_cfa_value row)\<rparr>;
     Some (st\<lparr>in_sp_bytes_offset_from_cfa := sp, in_row := row,
              in_saved_registers := (in_saved_registers st)[xe_machine_fp_regnum e := False]\<rparr>) }"

definition on_ret :: "row \<Rightarrow> inspection \<Rightarrow> inspection option" where
  "on_ret completed st = do {
     sp \<leftarrow> in_completed_sp_bytes_offset st;
     Some (st\<lparr>in_row := completed, in_sp_bytes_offset_from_cfa := sp,
              in_saved_registers := in_completed_saved_registers st\<rparr>) }"

text \<open>The save of a register in the frame, if it is one that was not saved before: its two numbers and
  the offset of its place.\<close>

definition frame_save :: "x86_engine \<Rightarrow> u8 list \<Rightarrow> inspection \<Rightarrow> (nat \<times> nat \<times> int) option option" where
  "frame_save e p st = do {
     m \<leftarrow> mov_reg_to_local_stack_frame_p e p;
     case m of
       None \<Rightarrow> Some None
     | Some (machine_regno, stack_offset) \<Rightarrow>
         (case preserved_regno e machine_regno of
            None \<Rightarrow> Some None
          | Some lldb_regno \<Rightarrow> do {
              saved \<leftarrow> is_saved machine_regno st;
              Some (if saved then None else Some (machine_regno, lldb_regno, stack_offset)) }) }"

text \<open>The cascade over the patterns: the new state, whether the instruction belongs to an epilogue, and
  whether the row changed.\<close>

definition not_epilogue :: "(inspection \<times> bool) option \<Rightarrow> (inspection \<times> bool \<times> bool) option" where
  "not_epilogue r = map_option (\<lambda>(st, row_updated). (st, False, row_updated)) r"

definition inspect_other :: "x86_engine \<Rightarrow> u8 list \<Rightarrow> inspection \<Rightarrow> (inspection \<times> bool \<times> bool) option" where
  "inspect_other e p st = do {
     push \<leftarrow> either (push_extended_pattern_p p) (either (push_imm_pattern_p p) (push_misc_reg_p e p));
     if push then not_epilogue (follow_sp e (xe_wordsize e) st)
     else do {
     lea \<leftarrow> lea_rsp_pattern_p e p;
     case lea of
       Some stack_offset \<Rightarrow>
         map_option (\<lambda>(st, row_updated). (st, stack_offset > 0, row_updated)) (follow_sp e (- stack_offset) st)
     | None \<Rightarrow> do {
     lea_rbp \<leftarrow> lea_rbp_rsp_pattern_p e p;
     if lea_rbp \<noteq> None \<and> row_cfa_reg (in_row st) = xe_lldb_fp_regnum e
     then do {
       sp \<leftarrow> c_int (row_cfa_offset (in_row st) - the lea_rbp);
       Some (st\<lparr>in_sp_bytes_offset_from_cfa := sp\<rparr>, False, False) }
     else do {
     ret \<leftarrow> ret_pattern_p p;
     case (ret, in_completed_row st) of
       (True, Some completed) \<Rightarrow> map_option (\<lambda>st. (st, True, True)) (on_ret completed st)
     | _ \<Rightarrow> do {
     call \<leftarrow> call_next_insn_pattern_p p;
     if call then not_epilogue (follow_sp e (xe_wordsize e) st)
     else Some (st, False, False) } } } } }"

definition inspect_insn :: "x86_engine \<Rightarrow> u8 list \<Rightarrow> inspection \<Rightarrow> (inspection \<times> bool \<times> bool) option" where
  "inspect_insn e p st = do {
     push_rbp \<leftarrow> push_rbp_pattern_p p;
     if push_rbp then map_option (\<lambda>st. (st, False, True)) (on_push_rbp e st)
     else do {
     mov_rsp_rbp \<leftarrow> mov_rsp_rbp_pattern_p e p;
     if mov_rsp_rbp then Some (on_mov_rsp_rbp e st, False, True)
     else do {
     push_0 \<leftarrow> push_0_pattern_p p;
     if push_0 then Some (st, False, False)
     else do {
     push \<leftarrow> push_reg_p e p;
     case push of
       Some machine_regno \<Rightarrow> not_epilogue (on_push_reg e machine_regno st)
     | None \<Rightarrow> do {
     pop \<leftarrow> pop_reg_p e p;
     case pop of
       Some machine_regno \<Rightarrow> on_pop_reg e machine_regno st
     | None \<Rightarrow> do {
     pop_misc \<leftarrow> pop_misc_reg_p e p;
     if pop_misc then not_epilogue (on_pop_misc_reg e st)
     else do {
     leave \<leftarrow> leave_pattern_p p;
     if leave then map_option (\<lambda>st. (st, True, True)) (on_leave e st)
     else do {
     save \<leftarrow> frame_save e p st;
     case save of
       Some (machine_regno, lldb_regno, stack_offset) \<Rightarrow> do {
         n \<leftarrow> c_int (stack_offset + row_cfa_offset (in_row st));
         offset \<leftarrow> c_int (- n);
         Some (save_reg_at machine_regno lldb_regno offset st, False, True) }
     | None \<Rightarrow> do {
     sub \<leftarrow> sub_rsp_pattern_p e p;
     case sub of
       Some amount \<Rightarrow> not_epilogue (follow_sp e amount st)
     | None \<Rightarrow> do {
     add \<leftarrow> add_rsp_pattern_p e p;
     case add of
       Some amount \<Rightarrow> map_option (\<lambda>(st, row_updated). (st, True, row_updated)) (follow_sp e (- amount) st)
     | None \<Rightarrow> inspect_other e p st } } } } } } } } } }"

section \<open>A plan from the instructions alone\<close>

text \<open>What follows the cascade: the new row is handed to the plan, and kept if no epilogue is going on.\<close>

definition record_row :: "nat \<Rightarrow> nat \<Rightarrow> bool \<Rightarrow> bool \<Rightarrow> inspection \<Rightarrow> inspection" where
  "record_row next_offset len in_epilogue row_updated st =
     (let st = (if row_updated \<and> next_offset < len
                then let row = (in_row st)\<lparr>row_offset := next_offset\<rparr>
                     in st\<lparr>in_row := row, in_plan := AppendRow row (in_plan st)\<rparr>
                else st);
          st = (if \<not> in_epilogue \<and> row_updated
                then st\<lparr>in_completed_row := Some (in_row st), in_completed_saved_registers := in_saved_registers st\<rparr>
                else st)
      in if \<not> in_epilogue then st\<lparr>in_completed_sp_bytes_offset := Some (in_sp_bytes_offset_from_cfa st)\<rparr> else st)"

function inspect_loop ::
  "x86_engine \<Rightarrow> (u8 list \<Rightarrow> nat) \<Rightarrow> u8 list \<Rightarrow> nat \<Rightarrow> inspection \<Rightarrow> inspection option" where
  "inspect_loop e disasm data offset st =
     (if offset < length data then
        let insn_len = instruction_length disasm (drop offset data)
        in if junk_insn insn_len then Some st
           else case inspect_insn e (drop offset data) st of
                  None \<Rightarrow> None
                | Some (st, in_epilogue, row_updated) \<Rightarrow>
                    inspect_loop e disasm data (offset + insn_len)
                      (record_row (offset + insn_len) (length data) in_epilogue row_updated st)
      else Some st)"
  by pat_completeness auto
termination
  by (relation "measure (\<lambda>(e, disasm, data, offset, st). length data - offset)") (auto simp: junk_insn_def)

declare inspect_loop.simps [simp del]

definition first_row :: "x86_engine \<Rightarrow> row" where
  "first_row e =
     SetRegisterInfo (xe_lldb_ip_regnum e) (atCFAPlusOffset (- xe_wordsize e))
       (SetRegisterInfo (xe_lldb_sp_regnum e) (isCFAPlusOffset 0)
         (new_Row\<lparr>row_offset := 0, row_cfa_value := isRegisterPlusOffset (xe_lldb_sp_regnum e) (xe_wordsize e)\<rparr>))"

definition start_inspection :: "x86_engine \<Rightarrow> address_range \<Rightarrow> unwind_plan \<Rightarrow> inspection" where
  "start_inspection e func_range plan =
     \<lparr>in_sp_bytes_offset_from_cfa = xe_wordsize e, in_row = first_row e, in_saved_registers = replicate 32 False,
      in_completed_row = None, in_completed_sp_bytes_offset = None, in_completed_saved_registers = [],
      in_plan = AppendRow (first_row e)
        ((SetPlanValidAddressRange func_range plan)\<lparr>up_register_kind := eRegisterKindLLDB\<rparr>)\<rparr>"

definition GetNonCallSiteUnwindPlanFromAssembly ::
  "x86_engine \<Rightarrow> (u8 list \<Rightarrow> nat) \<Rightarrow> u8 list option \<Rightarrow> address_range \<Rightarrow> unwind_plan \<Rightarrow> (bool \<times> unwind_plan) option" where
  "GetNonCallSiteUnwindPlanFromAssembly e disasm data func_range plan =
     (let plan = Clear_plan plan
      in case data of
           None \<Rightarrow> Some (False, plan)
         | Some bytes \<Rightarrow>
             if bytes = [] then Some (False, plan)
             else if \<not> xe_register_map_initialized e then Some (False, plan)
             else do {
               st \<leftarrow> inspect_loop e disasm bytes 0 (start_inspection e func_range plan);
               Some (True, (in_plan st)\<lparr>up_source_name := ''assembly insn profiling'',
                 up_sourced_from_compiler := eLazyBoolNo, up_valid_at_all_instructions := eLazyBoolYes\<rparr>) })"

section \<open>Completing the plan of a compiler\<close>

text \<open>The register context is given by its conversion to LLDB's numbers.\<close>

type_synonym reg_numbers = "(register_kind \<Rightarrow> nat \<Rightarrow> nat) option"

definition lldb_cfa_reg :: "reg_numbers \<Rightarrow> unwind_plan \<Rightarrow> row \<Rightarrow> nat option" where
  "lldb_cfa_reg reg_ctx plan r =
     (if up_register_kind plan \<noteq> eRegisterKindLLDB
      then map_option (\<lambda>convert. convert (up_register_kind plan) (row_cfa_reg r)) reg_ctx
      else Some (row_cfa_reg r))"

text \<open>How the stack pointer moves, from the first pattern that matches; the second component of a
  result is a return.\<close>

definition sp_delta :: "x86_engine \<Rightarrow> u8 list \<Rightarrow> (int option \<times> bool) option" where
  "sp_delta e p = do {
     call \<leftarrow> call_next_insn_pattern_p p;
     if call then Some (Some (xe_wordsize e), False)
     else do {
     push \<leftarrow> push_reg_p e p;
     if push \<noteq> None then Some (Some (xe_wordsize e), False)
     else do {
     pop \<leftarrow> pop_reg_p e p;
     if pop \<noteq> None then Some (Some (- xe_wordsize e), False)
     else do {
     pop_misc \<leftarrow> pop_misc_reg_p e p;
     if pop_misc then Some (Some (- xe_wordsize e), False)
     else do {
     push_imm \<leftarrow> push_imm_pattern_p p;
     if push_imm then Some (Some (xe_wordsize e), False)
     else do {
     push_other \<leftarrow> either (push_extended_pattern_p p) (push_misc_reg_p e p);
     if push_other then Some (Some (xe_wordsize e), False)
     else do {
     add \<leftarrow> add_rsp_pattern_p e p;
     case add of Some amount \<Rightarrow> map_option (\<lambda>d. (Some d, False)) (c_int (- amount)) | None \<Rightarrow> do {
     sub \<leftarrow> sub_rsp_pattern_p e p;
     case sub of Some amount \<Rightarrow> Some (Some amount, False) | None \<Rightarrow> do {
     lea \<leftarrow> lea_rsp_pattern_p e p;
     case lea of Some amount \<Rightarrow> map_option (\<lambda>d. (Some d, False)) (c_int (- amount)) | None \<Rightarrow> do {
     ret \<leftarrow> ret_pattern_p p;
     Some (None, ret) } } } } } } } } } }"

record augmentation =
  au_plan :: unwind_plan
  au_row :: row
  au_row_id :: nat
  au_updated :: bool
  au_reinstate_unwind_state :: bool

definition insert_row_at :: "nat \<Rightarrow> augmentation \<Rightarrow> augmentation" where
  "insert_row_at offset st =
     (let row = (au_row st)\<lparr>row_offset := offset\<rparr>
      in st\<lparr>au_row := row, au_plan := InsertRow row False (au_plan st), au_updated := True\<rparr>)"

text \<open>The rows that the compiler has up to an offset.\<close>

definition skip_rows :: "row list \<Rightarrow> nat \<Rightarrow> nat \<Rightarrow> nat" where
  "skip_rows rows offset row_id = row_id + length (takeWhile (\<lambda>r. row_offset r \<le> offset) (drop row_id rows))"

text \<open>One turn of the loop, \<open>offset\<close> being behind an instruction: the offset and the state for the next
  turn, or \<open>Inr\<close> when the loop is left. The rest of the function is what comes next there.\<close>

definition augment_insn ::
  "x86_engine \<Rightarrow> reg_numbers \<Rightarrow> row \<Rightarrow> u8 list \<Rightarrow> nat \<Rightarrow> augmentation \<Rightarrow> ((nat \<times> augmentation) + augmentation) option" where
  "augment_insn e reg_ctx original_first p offset st = do {
     cfa_reg \<leftarrow> lldb_cfa_reg reg_ctx (au_plan st) (au_row st);
     if cfa_reg = xe_lldb_sp_regnum e then do {
       (delta, ret) \<leftarrow> sp_delta e p;
       case delta of
         Some n \<Rightarrow> do {
           v \<leftarrow> IncOffset_cfa n (row_cfa_value (au_row st));
           Some (Inl (offset, insert_row_at offset (st\<lparr>au_row := (au_row st)\<lparr>row_cfa_value := v\<rparr>\<rparr>))) }
       | None \<Rightarrow> Some (Inl (offset, if ret then st\<lparr>au_reinstate_unwind_state := True\<rparr> else st)) }
     else if cfa_reg = xe_lldb_fp_regnum e then do {
       epilogue \<leftarrow> either (pop_rbp_pattern_p p) (leave_pattern_p p);
       Some (Inl (if epilogue
         then let v = isRegisterPlusOffset (row_cfa_reg original_first) (xe_wordsize e)
              in (offset + 1, (insert_row_at (offset + 1) (st\<lparr>au_row := (au_row st)\<lparr>row_cfa_value := v\<rparr>\<rparr>))
                    \<lparr>au_reinstate_unwind_state := True\<rparr>)
         else (offset, st))) }
     else Some (Inr st) }"

definition augment_turn ::
  "x86_engine \<Rightarrow> reg_numbers \<Rightarrow> row \<Rightarrow> row \<Rightarrow> u8 list \<Rightarrow> nat \<Rightarrow> augmentation \<Rightarrow> ((nat \<times> augmentation) + augmentation) option" where
  "augment_turn e reg_ctx original_first original_last p offset st =
     (if au_reinstate_unwind_state st then
        let row = original_last\<lparr>row_offset := offset\<rparr>
        in Some (Inl (offset, st\<lparr>au_plan := AppendRow row (au_plan st), au_row := row,
             au_reinstate_unwind_state := False, au_updated := True\<rparr>))
      else do {
        let st = st\<lparr>au_row_id := skip_rows (up_row_list (au_plan st)) offset (au_row_id st)\<rparr>;
        original_row \<leftarrow> GetRowAtIndex (au_plan st) (au_row_id st - 1);
        if row_offset original_row = offset then Some (Inl (offset, st\<lparr>au_row := original_row\<rparr>))
        else augment_insn e reg_ctx original_first p offset st })"

lemma augment_turn_forward:
  "augment_turn e reg_ctx f l p offset st = Some (Inl (offset', st')) \<Longrightarrow> offset \<le> offset'"
  by (auto simp: augment_turn_def augment_insn_def Let_def bind_eq_Some_conv split: if_splits option.splits)

function augment_loop ::
  "x86_engine \<Rightarrow> (u8 list \<Rightarrow> nat) \<Rightarrow> reg_numbers \<Rightarrow> row \<Rightarrow> row \<Rightarrow> u8 list \<Rightarrow> nat \<Rightarrow> augmentation \<Rightarrow> augmentation option" where
  "augment_loop e disasm reg_ctx f l data offset st =
     (if offset < length data then
        let insn_len = instruction_length disasm (drop offset data)
        in if junk_insn insn_len then Some st
           else if offset + insn_len \<ge> length data then Some st
           else case augment_turn e reg_ctx f l (drop (offset + insn_len) data) (offset + insn_len) st of
                  None \<Rightarrow> None
                | Some (Inr st) \<Rightarrow> Some st
                | Some (Inl (offset', st)) \<Rightarrow> augment_loop e disasm reg_ctx f l data offset' st
      else Some st)"
  by pat_completeness auto
termination
  by (relation "measure (\<lambda>(e, disasm, reg_ctx, f, l, data, offset, st). length data - offset)")
    (auto simp: junk_insn_def dest!: augment_turn_forward)

declare augment_loop.simps [simp del]

definition AugmentUnwindPlanFromCallSite ::
  "x86_engine \<Rightarrow> (u8 list \<Rightarrow> nat) \<Rightarrow> u8 list \<Rightarrow> address_range \<Rightarrow> reg_numbers \<Rightarrow> unwind_plan \<Rightarrow> (bool \<times> unwind_plan) option" where
  "AugmentUnwindPlanFromCallSite e disasm data func_range reg_ctx plan =
     (if \<not> IsValid_address (ar_base_addr func_range) then Some (False, plan)
      else if reg_ctx = None \<and> up_register_kind plan \<noteq> eRegisterKindLLDB then Some (False, plan)
      else if GetRowCount plan < 2 then Some (False, plan)
      else do {
        f \<leftarrow> GetRowAtIndex plan 0;
        if row_offset f \<noteq> 0 then Some (False, plan)
        else do {
          cfa_reg \<leftarrow> lldb_cfa_reg reg_ctx plan f;
          if cfa_reg \<noteq> xe_lldb_sp_regnum e \<or> row_cfa_offset f \<noteq> xe_wordsize e then Some (False, plan)
          else do {
            l \<leftarrow> GetRowForFunctionOffset plan (- 1);
            st \<leftarrow> augment_loop e disasm reg_ctx f l data 0
                    \<lparr>au_plan = plan, au_row = f, au_row_id = 1, au_updated = False, au_reinstate_unwind_state = False\<rparr>;
            let plan = SetPlanValidAddressRange func_range (au_plan st);
            if au_updated st
            then if up_source_name plan = [] then None
                 else Some (True, plan\<lparr>up_source_name := up_source_name plan @ '' plus augmentation from assembly parsing'',
                        up_sourced_from_compiler := eLazyBoolNo, up_valid_at_all_instructions := eLazyBoolYes\<rparr>)
            else Some (True, plan) } } })"

section \<open>The end of a prologue\<close>

definition prologue_insn_p :: "x86_engine \<Rightarrow> u8 list \<Rightarrow> nat \<Rightarrow> bool option" where
  "prologue_insn_p e p offset =
     either (push_rbp_pattern_p p) (either (mov_rsp_rbp_pattern_p e p)
       (either (map_option (\<lambda>m. m \<noteq> None) (sub_rsp_pattern_p e p))
         (either (map_option (\<lambda>m. m \<noteq> None) (push_reg_p e p))
           (either (map_option (\<lambda>m. m \<noteq> None) (mov_reg_to_local_stack_frame_p e p))
             (do { m \<leftarrow> lea_rsp_pattern_p e p; Some (m \<noteq> None \<and> offset = 0) })))))"

function prologue_loop :: "x86_engine \<Rightarrow> (u8 list \<Rightarrow> nat) \<Rightarrow> u8 list \<Rightarrow> nat \<Rightarrow> nat option" where
  "prologue_loop e disasm data offset =
     (if offset < length data then
        let insn_len = instruction_length disasm (drop offset data)
        in if junk_insn insn_len then Some offset
           else case prologue_insn_p e (drop offset data) offset of
                  None \<Rightarrow> None
                | Some b \<Rightarrow> if b then prologue_loop e disasm data (offset + insn_len) else Some offset
      else Some offset)"
  by pat_completeness auto
termination
  by (relation "measure (\<lambda>(e, disasm, data, offset). length data - offset)") (auto simp: junk_insn_def)

declare prologue_loop.simps [simp del]

definition FindFirstNonPrologueInstruction ::
  "x86_engine \<Rightarrow> (u8 list \<Rightarrow> nat) \<Rightarrow> u8 list \<Rightarrow> (bool \<times> nat) option" where
  "FindFirstNonPrologueInstruction e disasm data =
     (if \<not> xe_register_map_initialized e then Some (False, 0)
      else map_option (Pair True) (prologue_loop e disasm data 0))"

end
