(* ===== verification/X86Frames.thy ===== *)
theory X86Frames
  imports X86Inspection
begin

text \<open>
  What the plan of an inspected function promises. \<open>x86_insn\<close> are the instructions that move the
  frame of a function, \<open>encode_insn\<close> their bytes, \<open>x86_step\<close> their meaning for the registers and
  the memory of the program. A \<open>frame\<close> says where the caller's state is; \<open>frame_after\<close> is what a
  compiler's view of the frame is behind an instruction.
\<close>

unbundle bit_operations_syntax

section \<open>Instructions and their bytes\<close>

datatype x86_insn =
    Push nat
  | PushImm int
  | CallNext
  | MovSpBp
  | SubSp int
  | AddSp int
  | LeaSp int
  | LeaBpSp int
  | Pop nat
  | Leave
  | Save nat int
  | Ret
  | Plain "u8 list"

definition le4 :: "int \<Rightarrow> u8 list" where
  "le4 n = nat_le_bytes 4 (nat (n mod 2 ^ 32))"

definition fits8 :: "int \<Rightarrow> bool" where
  "fits8 n \<longleftrightarrow> - 128 \<le> n \<and> n < 128"

definition fits32 :: "int \<Rightarrow> bool" where
  "fits32 n \<longleftrightarrow> - (2 ^ 31) \<le> n \<and> n < 2 ^ 31"

definition rex_w :: "x86_engine \<Rightarrow> u8 list" where
  "rex_w e = (if xe_wordsize e = 8 then [0x48] else [])"

definition reg_opcode :: "u8 \<Rightarrow> nat \<Rightarrow> u8 list" where
  "reg_opcode base r = (if 8 \<le> r then [0x41, base + word_of_nat (r - 8)] else [base + word_of_nat r])"

definition immediate :: "u8 list \<Rightarrow> u8 list \<Rightarrow> int \<Rightarrow> u8 list" where
  "immediate short long n = (if fits8 n then short @ [word_of_int n] else long @ le4 n)"

definition save_modrm :: "u8 \<Rightarrow> nat \<Rightarrow> u8" where
  "save_modrm base r = base + 8 * word_of_nat (r mod 8)"

fun encode_insn :: "x86_engine \<Rightarrow> x86_insn \<Rightarrow> u8 list" where
  "encode_insn e (Push r) = reg_opcode 0x50 r"
| "encode_insn e (PushImm n) = 0x68 # le4 n"
| "encode_insn e CallNext = [0xe8, 0, 0, 0, 0]"
| "encode_insn e MovSpBp = rex_w e @ [0x89, 0xe5]"
| "encode_insn e (SubSp n) = rex_w e @ immediate [0x83, 0xec] [0x81, 0xec] n"
| "encode_insn e (AddSp n) = rex_w e @ immediate [0x83, 0xc4] [0x81, 0xc4] n"
| "encode_insn e (LeaSp n) = rex_w e @ immediate [0x8d, 0x64, 0x24] [0x8d, 0xa4, 0x24] n"
| "encode_insn e (LeaBpSp n) = rex_w e @ immediate [0x8d, 0x65] [0x8d, 0xa5] n"
| "encode_insn e (Pop r) = reg_opcode 0x58 r"
| "encode_insn e Leave = [0xc9]"
| "encode_insn e (Save r n) = (if xe_wordsize e = 8 then [if 8 \<le> r then 0x4c else 0x48] else []) @
     immediate [0x89, save_modrm 0x45 r] [0x89, save_modrm 0x85 r] (- n)"
| "encode_insn e Ret = [0xc3]"
| "encode_insn e (Plain bs) = bs"

lemma imm32_le4 [simp]: "fits32 n \<Longrightarrow> imm32 (le4 n @ rest) 0 = Some n"
proof -
  assume n: "fits32 n"
  define k where "k = nat (n mod 2 ^ 32)"
  have k: "int k = take_bit 32 n" by (simp add: k_def take_bit_eq_mod)
  have "sint (word_of_nat k :: u32) = signed_take_bit 31 (int k)" by (simp add: signed_of_nat)
  also have "\<dots> = n"
    unfolding k using n by (simp add: fits32_def signed_take_bit_take_bit signed_take_bit_int_eq_self)
  finally have "sint (word_of_nat k :: u32) = n" .
  moreover have "k mod 256 ^ 4 = k" by (simp add: k_def nat_less_iff)
  ultimately show ?thesis
    unfolding imm32_def extract_4_def le4_def k_def [symmetric] by (simp add: le_nat_le_bytes)
qed

lemma imm_Cons [simp]: "imm32 (b # p) (Suc n) = imm32 p n" "imm8 (b # p) (Suc n) = imm8 p n"
  by (simp_all add: imm32_def imm8_def insn_byte_def)

lemma imm32_numeral [simp]:
  "imm32 (b # p) (numeral k) = imm32 p (pred_numeral k)" "imm8 (b # p) (numeral k) = imm8 p (pred_numeral k)"
  by (simp_all add: numeral_eq_Suc)

lemma imm8_here [simp]: "fits8 n \<Longrightarrow> imm8 (word_of_int n # p) 0 = Some n"
  by (simp add: imm8_def insn_byte_def fits8_def signed_of_int signed_take_bit_int_eq_self)

lemma insn_byte_Cons [simp]:
  "insn_byte (b # p) 0 = Some b" "insn_byte (b # p) (Suc n) = insn_byte p n"
  "insn_byte (b # p) (numeral k) = insn_byte p (pred_numeral k)"
  by (simp_all add: insn_byte_def numeral_eq_Suc)

lemma insn_byte_One [simp]: "insn_byte (b # p) 1 = insn_byte p 0"
  by (simp add: insn_byte_def)

lemma either_simps [simp]:
  "either (Some True) b = Some True" "either (Some False) b = b"
  by (simp_all add: either_def)

text \<open>The engine of an initialized machine.\<close>

definition word_ok :: "x86_engine \<Rightarrow> bool" where
  "word_ok e \<longleftrightarrow> xe_cpu e = k_x86_64 \<and> xe_wordsize e = 8 \<or> xe_cpu e = k_i386 \<and> xe_wordsize e = 4"

lemma word_ok_cases:
  assumes "word_ok e"
  obtains "xe_wordsize e = 8" "xe_cpu e = k_x86_64" | "xe_wordsize e = 4" "xe_cpu e = k_i386"
  using assms by (auto simp: word_ok_def)

named_theorems patterns "the patterns of the inspection"

lemmas pattern_defs =
  push_rbp_pattern_p_def mov_rsp_rbp_pattern_p_def push_0_pattern_p_def push_reg_p_def pop_reg_p_def
  reg_of_opcode_def pop_misc_reg_p_def leave_pattern_p_def frame_save_def mov_reg_to_local_stack_frame_p_def
  sub_rsp_pattern_p_def add_rsp_pattern_p_def rsp_immediate_def inspect_insn_def skip_prefix_def Let_def

lemmas other_defs =
  inspect_other_def push_extended_pattern_p_def push_imm_pattern_p_def push_misc_reg_p_def lea_rsp_pattern_p_def
  lea_rbp_rsp_pattern_p_def ret_pattern_p_def call_next_insn_pattern_p_def

lemma small_reg:
  assumes "r < (16 :: nat)"
  shows "r = 0 \<or> r = 1 \<or> r = 2 \<or> r = 3 \<or> r = 4 \<or> r = 5 \<or> r = 6 \<or> r = 7 \<or>
    r = 8 \<or> r = 9 \<or> r = 10 \<or> r = 11 \<or> r = 12 \<or> r = 13 \<or> r = 14 \<or> r = 15"
  using assms by arith

lemma inspect_push_rbp:
  "inspect_insn e (encode_insn e (Push 5) @ rest) st = map_option (\<lambda>st. (st, False, True)) (on_push_rbp e st)"
  by (simp add: inspect_insn_def push_rbp_pattern_p_def reg_opcode_def)

lemma inspect_push:
  assumes "word_ok e" "r < 16" "xe_wordsize e = 8 \<or> r < 8" "r \<noteq> 5"
  shows "inspect_insn e (encode_insn e (Push r) @ rest) st = not_epilogue (on_push_reg e r st)"
  using small_reg [OF assms(2)] assms(3,4)
  by (elim disjE; simp add: pattern_defs reg_opcode_def)


lemma inspect_pop:
  assumes "word_ok e" "r < 16" "xe_wordsize e = 8 \<or> r < 8"
  shows "inspect_insn e (encode_insn e (Pop r) @ rest) st = on_pop_reg e r st"
  using small_reg [OF assms(2)] assms(3)
  by (elim disjE; simp add: pattern_defs reg_opcode_def)

lemma inspect_push_imm:
  assumes "word_ok e"
  shows "inspect_insn e (encode_insn e (PushImm n) @ rest) st = not_epilogue (follow_sp e (xe_wordsize e) st)"
  using assms by (rule word_ok_cases) (simp_all add: pattern_defs other_defs REX_W_PREFIX_P_def)

lemma inspect_call_next:
  assumes "word_ok e"
  shows "inspect_insn e (encode_insn e CallNext @ rest) st = not_epilogue (follow_sp e (xe_wordsize e) st)"
  using assms by (rule word_ok_cases) (simp_all add: pattern_defs other_defs REX_W_PREFIX_P_def)

lemma inspect_mov:
  assumes "word_ok e"
  shows "inspect_insn e (encode_insn e MovSpBp @ rest) st = Some (on_mov_rsp_rbp e st, False, True)"
  using assms by (rule word_ok_cases) (simp_all add: pattern_defs rex_w_def)

lemma inspect_sub:
  assumes "word_ok e" "fits32 n"
  shows "inspect_insn e (encode_insn e (SubSp n) @ rest) st = not_epilogue (follow_sp e n st)"
  using assms
  by (elim word_ok_cases; cases "fits8 n";
      simp add: pattern_defs rex_w_def immediate_def REX_W_PREFIX_P_def REX_W_DSTREG_def)

lemma inspect_add:
  assumes "word_ok e" "fits32 n"
  shows "inspect_insn e (encode_insn e (AddSp n) @ rest) st =
    map_option (\<lambda>(st, row_updated). (st, True, row_updated)) (follow_sp e (- n) st)"
  using assms
  by (elim word_ok_cases; cases "fits8 n";
      simp add: pattern_defs rex_w_def immediate_def REX_W_PREFIX_P_def REX_W_DSTREG_def)

lemma inspect_lea:
  assumes "word_ok e" "fits32 n"
  shows "inspect_insn e (encode_insn e (LeaSp n) @ rest) st =
    map_option (\<lambda>(st, row_updated). (st, n > 0, row_updated)) (follow_sp e (- n) st)"
  using assms
  by (elim word_ok_cases; cases "fits8 n";
      simp add: pattern_defs other_defs rex_w_def immediate_def REX_W_PREFIX_P_def REX_W_DSTREG_def)

lemma inspect_lea_rbp:
  assumes "word_ok e" "fits32 n" "row_cfa_reg (in_row st) = xe_lldb_fp_regnum e"
  shows "inspect_insn e (encode_insn e (LeaBpSp n) @ rest) st =
    map_option (\<lambda>sp. (st\<lparr>in_sp_bytes_offset_from_cfa := sp\<rparr>, False, False)) (c_int (row_cfa_offset (in_row st) - n))"
  using assms
  by (elim word_ok_cases; cases "fits8 n";
      simp add: pattern_defs other_defs rex_w_def immediate_def REX_W_PREFIX_P_def REX_W_DSTREG_def map_option_case
        split: option.split)

lemma inspect_leave:
  "inspect_insn e (encode_insn e Leave @ rest) st = map_option (\<lambda>st. (st, True, True)) (on_leave e st)"
  by (simp add: pattern_defs)

lemma inspect_ret:
  assumes "word_ok e"
  shows "inspect_insn e (encode_insn e Ret @ rest) st =
    (case in_completed_row st of None \<Rightarrow> Some (st, False, False)
     | Some completed \<Rightarrow> map_option (\<lambda>st. (st, True, True)) (on_ret completed st))"
  using assms
  by (elim word_ok_cases; simp add: pattern_defs other_defs REX_W_PREFIX_P_def split: option.split)

lemma save_modrm_bits:
  assumes "r < 16"
  shows "save_modrm 0x45 r AND NOT 0x38 = 0x45" "save_modrm 0x85 r AND NOT 0x38 = 0x85"
    "unat (drop_bit 3 (save_modrm 0x45 r) AND 7) = r mod 8" "unat (drop_bit 3 (save_modrm 0x85 r) AND 7) = r mod 8"
  using small_reg [OF assms] by (elim disjE; simp add: save_modrm_def)+

lemma mov_save:
  assumes "word_ok e" "r < 16" "xe_wordsize e = 8 \<or> r < 8" "0 \<le> n" "n < 2 ^ 31"
  shows "mov_reg_to_local_stack_frame_p e (encode_insn e (Save r n) @ rest) = Some (Some (r, n))"
proof -
  have n: "c_int n = Some n" "fits32 (- n)" using assms(4,5) by (simp_all add: c_int_def fits32_def)
  have r: "\<not> 8 \<le> r \<Longrightarrow> r mod 8 = r" "8 \<le> r \<Longrightarrow> r mod 8 = r - 8"
    using assms(2) by (simp_all add: le_mod_geq)
  have i8: "fits8 (- n) \<Longrightarrow> imm8 (- word_of_int n # rest) 0 = Some (- n)"
    using imm8_here [of "- n" rest] by simp
  show ?thesis
    using assms(1,3) n assms(4) save_modrm_bits [OF assms(2)] i8
    by (elim word_ok_cases; cases "fits8 (- n)"; cases "8 \<le> r";
        simp add: mov_reg_to_local_stack_frame_p_def immediate_def REX_W_PREFIX_P_def REX_W_DSTREG_def
          REX_W_SRCREG_def r)
qed


text \<open>The bytes of a save in the frame match no other pattern.\<close>

lemma save_bytes:
  assumes "word_ok e" "r < 16"
  obtains (long) p m bs where "encode_insn e (Save r n) = [p, 0x89, m] @ bs" "p = 0x48 \<or> p = 0x4c" "m \<noteq> 0xe5"
      "xe_wordsize e = 8"
    | (short) m bs where "encode_insn e (Save r n) = [0x89, m] @ bs" "m \<noteq> 0xe5" "xe_wordsize e = 4"
proof -
  have m: "save_modrm 0x45 r \<noteq> 0xe5" "save_modrm 0x85 r \<noteq> 0xe5"
    using small_reg [OF assms(2)] by (elim disjE; simp add: save_modrm_def)+
  then show thesis
    using assms(1) long short by (elim word_ok_cases; cases "fits8 (- n)"; simp add: immediate_def)
qed

lemma inspect_save_bytes:
  fixes n rest
  assumes "word_ok e" "r < 16"
  defines "p \<equiv> encode_insn e (Save r n) @ rest"
  shows "inspect_insn e p st = do {
     save \<leftarrow> frame_save e p st;
     case save of
       Some (machine_regno, lldb_regno, stack_offset) \<Rightarrow> do {
         n \<leftarrow> c_int (stack_offset + row_cfa_offset (in_row st));
         offset \<leftarrow> c_int (- n);
         Some (save_reg_at machine_regno lldb_regno offset st, False, True) }
     | None \<Rightarrow> Some (st, False, False) }"
proof (rule save_bytes [OF assms(1,2), of n])
  fix q m bs assume "encode_insn e (Save r n) = [q, 0x89, m] @ bs" "q = 0x48 \<or> q = 0x4c" "m \<noteq> 0xe5" "xe_wordsize e = 8"
  then have p: "p = q # 0x89 # m # bs @ rest" "xe_wordsize e = 8" and q: "q = 0x48 \<or> q = 0x4c" and m: "m \<noteq> 0xe5"
    by (simp_all add: p_def)
  have "push_rbp_pattern_p p = Some False" "mov_rsp_rbp_pattern_p e p = Some False" "push_0_pattern_p p = Some False"
    "push_reg_p e p = Some None" "pop_reg_p e p = Some None" "pop_misc_reg_p e p = Some False"
    "leave_pattern_p p = Some False" "sub_rsp_pattern_p e p = Some None" "add_rsp_pattern_p e p = Some None"
    using q m unfolding p by (elim disjE; simp add: p pattern_defs)+
  moreover have "inspect_other e p st = Some (st, False, False)"
    using q unfolding p by (elim disjE; simp add: p skip_prefix_def other_defs split: option.split)
  ultimately show ?thesis by (simp add: inspect_insn_def cong: option.case_cong)
next
  fix m bs assume "encode_insn e (Save r n) = [0x89, m] @ bs" "m \<noteq> 0xe5" "xe_wordsize e = 4"
  then have p: "p = 0x89 # m # bs @ rest" "xe_wordsize e = 4" and m: "m \<noteq> 0xe5"
    by (simp_all add: p_def)
  have "push_rbp_pattern_p p = Some False" "mov_rsp_rbp_pattern_p e p = Some False" "push_0_pattern_p p = Some False"
    "push_reg_p e p = Some None" "pop_reg_p e p = Some None" "pop_misc_reg_p e p = Some False"
    "leave_pattern_p p = Some False" "sub_rsp_pattern_p e p = Some None" "add_rsp_pattern_p e p = Some None"
    using m unfolding p by (simp_all add: p pattern_defs)
  moreover have "inspect_other e p st = Some (st, False, False)"
    unfolding p by (simp add: p skip_prefix_def other_defs split: option.split)
  ultimately show ?thesis by (simp add: inspect_insn_def cong: option.case_cong)
qed

lemma inspect_save:
  assumes "word_ok e" "r < 16" "xe_wordsize e = 8 \<or> r < 8" "0 \<le> n" "n < 2 ^ 31"
    and "r < length (in_saved_registers st)"
  shows "inspect_insn e (encode_insn e (Save r n) @ rest) st =
    (case preserved_regno e r of
       None \<Rightarrow> Some (st, False, False)
     | Some lldb_regno \<Rightarrow>
         if in_saved_registers st ! r then Some (st, False, False)
         else do {
           k \<leftarrow> c_int (n + row_cfa_offset (in_row st));
           offset \<leftarrow> c_int (- k);
           Some (save_reg_at r lldb_regno offset st, False, True) })"
  using mov_save [OF assms(1-5), of rest] assms(6)
  unfolding inspect_save_bytes [OF assms(1,2)]
  by (simp add: frame_save_def is_saved_def split: option.split del: encode_insn.simps)

text \<open>An instruction that no pattern matches, whatever follows it.\<close>

definition unrecognized :: "x86_engine \<Rightarrow> u8 list \<Rightarrow> bool" where
  "unrecognized e bs \<longleftrightarrow> (\<forall>rest st. inspect_insn e (bs @ rest) st = Some (st, False, False))"

section \<open>Frames\<close>

text \<open>How far the stack pointer is below the CFA, how far the frame pointer is if the CFA is found from
  it, and how far below the CFA the registers of the caller are saved.\<close>

record frame =
  fr_depth :: int
  fr_base :: "int option"
  fr_saved :: "nat \<Rightarrow> int option"

definition preserved :: "x86_engine \<Rightarrow> nat \<Rightarrow> bool" where
  "preserved e r \<longleftrightarrow> nonvolatile_reg_p e r \<and> r \<noteq> 4"

definition usable_reg :: "x86_engine \<Rightarrow> nat \<Rightarrow> bool" where
  "usable_reg e r \<longleftrightarrow> r < 16 \<and> (xe_wordsize e = 8 \<or> r < 8) \<and> r \<noteq> 4"

definition in_bounds :: "int \<Rightarrow> bool" where
  "in_bounds n \<longleftrightarrow> - (2 ^ 31) < n \<and> n < 2 ^ 31"

definition bounded :: "frame \<Rightarrow> bool" where
  "bounded g \<longleftrightarrow> in_bounds (fr_depth g)"

definition deeper :: "int \<Rightarrow> frame \<Rightarrow> frame" where
  "deeper n g = g\<lparr>fr_depth := fr_depth g + n\<rparr>"

definition checked :: "bool \<Rightarrow> frame \<Rightarrow> frame option" where
  "checked b g = (if b \<and> bounded g then Some g else None)"

text \<open>The frame behind an instruction; \<open>None\<close> if a compiler does not emit the instruction there.\<close>

fun frame_after :: "x86_engine \<Rightarrow> x86_insn \<Rightarrow> frame \<Rightarrow> frame option" where
  "frame_after e (Push r) g =
     (let g' = deeper (xe_wordsize e) g
      in if preserved e r \<and> fr_saved g r = None
         then checked (usable_reg e r) (g'\<lparr>fr_saved := (fr_saved g)(r \<mapsto> fr_depth g')\<rparr>)
         else checked (usable_reg e r \<and> r \<noteq> 5) g')"
| "frame_after e (PushImm n) g = checked (fits32 n) (deeper (xe_wordsize e) g)"
| "frame_after e CallNext g = checked True (deeper (xe_wordsize e) g)"
| "frame_after e MovSpBp g = checked (fr_base g = None \<and> fr_saved g 5 \<noteq> None) (g\<lparr>fr_base := Some (fr_depth g)\<rparr>)"
| "frame_after e (SubSp n) g = checked (fits32 n) (deeper n g)"
| "frame_after e (AddSp n) g = checked (fits32 n) (deeper (- n) g)"
| "frame_after e (LeaSp n) g = checked (fits32 n) (deeper (- n) g)"
| "frame_after e (LeaBpSp n) g =
     (case fr_base g of None \<Rightarrow> None | Some b \<Rightarrow> checked (fits32 n) (g\<lparr>fr_depth := b - n\<rparr>))"
| "frame_after e (Pop r) g =
     (let g' = deeper (- xe_wordsize e) g
      in if preserved e r
         then checked (usable_reg e r \<and> fr_saved g r = Some (fr_depth g))
                (g'\<lparr>fr_saved := (fr_saved g)(r := None), fr_base := (if r = 5 then None else fr_base g)\<rparr>)
         else checked (usable_reg e r) g')"
| "frame_after e Leave g =
     (case fr_base g of
        None \<Rightarrow> None
      | Some b \<Rightarrow> checked (fr_saved g 5 = Some b)
                   (g\<lparr>fr_depth := b - xe_wordsize e, fr_base := None, fr_saved := (fr_saved g)(5 := None)\<rparr>))"
| "frame_after e (Save r n) g =
     (case fr_base g of
        None \<Rightarrow> None
      | Some b \<Rightarrow> checked (usable_reg e r \<and> 0 \<le> n \<and> n < 2 ^ 31 \<and> in_bounds (b + n))
                   (if preserved e r \<and> fr_saved g r = None then g\<lparr>fr_saved := (fr_saved g)(r \<mapsto> b + n)\<rparr> else g))"
| "frame_after e Ret g = Some g"
| "frame_after e (Plain bs) g = checked (unrecognized e bs \<and> bs \<noteq> [] \<and> length bs \<le> 15) g"

text \<open>Which instructions are taken for a part of an epilogue, and which change the row.\<close>

fun in_epilogue :: "x86_engine \<Rightarrow> x86_insn \<Rightarrow> bool" where
  "in_epilogue e (AddSp n) = True"
| "in_epilogue e (LeaSp n) = (n > 0)"
| "in_epilogue e (Pop r) = preserved e r"
| "in_epilogue e Leave = True"
| "in_epilogue e i = False"

fun changes_row :: "x86_engine \<Rightarrow> x86_insn \<Rightarrow> frame \<Rightarrow> bool" where
  "changes_row e (Push r) g = (fr_base g = None \<or> preserved e r \<and> fr_saved g r = None)"
| "changes_row e MovSpBp g = True"
| "changes_row e (LeaBpSp n) g = False"
| "changes_row e (Pop r) g = (fr_base g = None \<or> preserved e r)"
| "changes_row e Leave g = True"
| "changes_row e (Save r n) g = (preserved e r \<and> fr_saved g r = None)"
| "changes_row e (Plain bs) g = False"
| "changes_row e Ret g = False"
| "changes_row e i g = (fr_base g = None)"

text \<open>The frame along a function. Behind a return the frame is again the one before the epilogue; the
  instructions that come before an epilogue have to agree on it.\<close>

record frames =
  fs_frame :: frame
  fs_completed :: "frame option"
  fs_depth :: "int option"

definition frames_after :: "x86_engine \<Rightarrow> x86_insn \<Rightarrow> frames \<Rightarrow> frames option" where
  "frames_after e i t =
     (if i = Ret then
        (case fs_completed t of
           None \<Rightarrow> Some (t\<lparr>fs_depth := Some (fr_depth (fs_frame t))\<rparr>)
         | Some c \<Rightarrow>
             if fs_depth t = None \<or> fr_base c = None \<and> fs_depth t \<noteq> Some (fr_depth c) then None
             else Some (t\<lparr>fs_frame := c\<lparr>fr_depth := the (fs_depth t)\<rparr>\<rparr>))
      else
        (case frame_after e i (fs_frame t) of
           None \<Rightarrow> None
         | Some g \<Rightarrow>
             Some (if in_epilogue e i then t\<lparr>fs_frame := g\<rparr>
                   else \<lparr>fs_frame = g, fs_completed = (if changes_row e i (fs_frame t) then Some g else fs_completed t),
                         fs_depth = Some (fr_depth g)\<rparr>)))"

fun frames_run :: "x86_engine \<Rightarrow> x86_insn list \<Rightarrow> frames \<Rightarrow> frames option" where
  "frames_run e [] t = Some t"
| "frames_run e (i # is) t = (case frames_after e i t of None \<Rightarrow> None | Some t' \<Rightarrow> frames_run e is t')"

definition entry_frame :: "x86_engine \<Rightarrow> frame" where
  "entry_frame e = \<lparr>fr_depth = xe_wordsize e, fr_base = None, fr_saved = (\<lambda>_. None)\<rparr>"

definition entry_frames :: "x86_engine \<Rightarrow> frames" where
  "entry_frames e = \<lparr>fs_frame = entry_frame e, fs_completed = None, fs_depth = None\<rparr>"

definition frame_at :: "x86_engine \<Rightarrow> x86_insn list \<Rightarrow> nat \<Rightarrow> frame option" where
  "frame_at e code k = map_option fs_frame (frames_run e (take k code) (entry_frames e))"

definition well_framed :: "x86_engine \<Rightarrow> x86_insn list \<Rightarrow> bool" where
  "well_framed e code \<longleftrightarrow> frames_run e code (entry_frames e) \<noteq> None"

section \<open>The row of a frame\<close>

definition lldb_reg :: "x86_engine \<Rightarrow> nat \<Rightarrow> nat" where
  "lldb_reg e r = the (machine_regno_to_lldb_regno e r)"

definition engine_ok :: "x86_engine \<Rightarrow> bool" where
  "engine_ok e \<longleftrightarrow> word_ok e \<and> xe_register_map_initialized e \<and> xe_machine_fp_regnum e = 5 \<and>
     (\<forall>r. nonvolatile_reg_p e r \<longrightarrow> machine_regno_to_lldb_regno e r \<noteq> None) \<and>
     xe_lldb_sp_regnum e = lldb_reg e 4 \<and> xe_lldb_fp_regnum e = lldb_reg e 5 \<and>
     machine_regno_to_lldb_regno e (xe_machine_ip_regnum e) = Some (xe_lldb_ip_regnum e) \<and>
     \<not> nonvolatile_reg_p e (xe_machine_ip_regnum e) \<and>
     (\<forall>r q n. machine_regno_to_lldb_regno e r = Some n \<and> machine_regno_to_lldb_regno e q = Some n \<longrightarrow> r = q)"

definition row_describes :: "x86_engine \<Rightarrow> row \<Rightarrow> frame \<Rightarrow> bool" where
  "row_describes e row g \<longleftrightarrow> row_ok row \<and>
     row_cfa_value row = (case fr_base g of
        None \<Rightarrow> isRegisterPlusOffset (xe_lldb_sp_regnum e) (fr_depth g)
      | Some b \<Rightarrow> isRegisterPlusOffset (xe_lldb_fp_regnum e) b) \<and>
     (\<forall>r. preserved e r \<longrightarrow> rule_of row (lldb_reg e r) =
        (case fr_saved g r of None \<Rightarrow> unspecified_loc | Some n \<Rightarrow> atCFAPlusOffset (- n))) \<and>
     rule_of row (xe_lldb_sp_regnum e) = isCFAPlusOffset 0 \<and>
     rule_of row (xe_lldb_ip_regnum e) = atCFAPlusOffset (- xe_wordsize e)"

definition saves_describe :: "x86_engine \<Rightarrow> bool list \<Rightarrow> frame \<Rightarrow> bool" where
  "saves_describe e saves g \<longleftrightarrow> length saves = 32 \<and> (\<forall>r. preserved e r \<longrightarrow> saves ! r = (fr_saved g r \<noteq> None))"

definition frame_wf :: "frame \<Rightarrow> bool" where
  "frame_wf g \<longleftrightarrow> bounded g \<and> (\<forall>b. fr_base g = Some b \<longrightarrow> in_bounds b \<and> fr_saved g 5 \<noteq> None)"

definition tracks :: "x86_engine \<Rightarrow> inspection \<Rightarrow> frame \<Rightarrow> bool" where
  "tracks e st g \<longleftrightarrow> frame_wf g \<and> in_sp_bytes_offset_from_cfa st = fr_depth g \<and>
     row_describes e (in_row st) g \<and> saves_describe e (in_saved_registers st) g"

definition completed_tracks :: "x86_engine \<Rightarrow> inspection \<Rightarrow> frames \<Rightarrow> bool" where
  "completed_tracks e st t \<longleftrightarrow> in_completed_sp_bytes_offset st = fs_depth t \<and>
     (\<forall>d. fs_depth t = Some d \<longrightarrow> in_bounds d) \<and>
     (case fs_completed t of
        None \<Rightarrow> in_completed_row st = None
      | Some c \<Rightarrow> frame_wf c \<and> (\<exists>row. in_completed_row st = Some row \<and> row_describes e row c) \<and>
                  saves_describe e (in_completed_saved_registers st) c)"

definition inspection_follows :: "x86_engine \<Rightarrow> inspection \<Rightarrow> frames \<Rightarrow> bool" where
  "inspection_follows e st t \<longleftrightarrow> tracks e st (fs_frame t) \<and> completed_tracks e st t"

lemma rule_of_remove [simp]: "rule_of (RemoveRegisterInfo reg r) = (rule_of r)(reg := unspecified_loc)"
proof -
  have "map_of (filter (\<lambda>e. fst e \<noteq> reg) m) = (map_of m)(reg := None)" for m :: "(nat \<times> register_location) list"
    by (induction m) (auto simp: fun_eq_iff)
  then show ?thesis
    by (auto simp: fun_eq_iff rule_of_def GetRegisterInfo_def RemoveRegisterInfo_def map_erase_def split: option.split)
qed

lemma row_ok_remove [simp]: "row_ok r \<Longrightarrow> row_ok (RemoveRegisterInfo reg r)"
  by (simp add: row_ok_def RemoveRegisterInfo_def map_erase_def map_sorted_def sorted_wrt_filter sorted_wrt_map)

lemma RemoveRegisterInfo_fields [simp]:
  "row_cfa_value (RemoveRegisterInfo reg r) = row_cfa_value r" "row_offset (RemoveRegisterInfo reg r) = row_offset r"
  by (simp_all add: RemoveRegisterInfo_def)

lemma nonvolatile_small: "nonvolatile_reg_p e r \<Longrightarrow> r < 16"
  by (auto simp: nonvolatile_reg_p_def split: x86_cpu.splits)

lemma lldb_reg_distinct:
  assumes "engine_ok e" "nonvolatile_reg_p e r" "nonvolatile_reg_p e q"
  shows "lldb_reg e r = lldb_reg e q \<longleftrightarrow> r = q" "lldb_reg e r \<noteq> xe_lldb_ip_regnum e"
proof -
  have some: "machine_regno_to_lldb_regno e r = Some (lldb_reg e r)" "machine_regno_to_lldb_regno e q = Some (lldb_reg e q)"
    using assms by (auto simp: engine_ok_def lldb_reg_def)
  then show "lldb_reg e r = lldb_reg e q \<longleftrightarrow> r = q"
    using assms(1) unfolding engine_ok_def by metis
  show "lldb_reg e r \<noteq> xe_lldb_ip_regnum e"
    using some(1) assms(1,2) unfolding engine_ok_def by metis
qed

lemma engine_regs:
  assumes "engine_ok e"
  shows "nonvolatile_reg_p e 4" "nonvolatile_reg_p e 5" "preserved e 5" "xe_lldb_sp_regnum e = lldb_reg e 4"
    "xe_lldb_fp_regnum e = lldb_reg e 5" "lldb_reg e 4 \<noteq> lldb_reg e 5" "xe_machine_fp_regnum e = 5"
    "preserved_regno e r = (if nonvolatile_reg_p e r then Some (lldb_reg e r) else None)"
proof -
  have w: "word_ok e" using assms by (simp add: engine_ok_def)
  then show n: "nonvolatile_reg_p e 4" "nonvolatile_reg_p e 5"
    by (auto simp: word_ok_def nonvolatile_reg_p_def)
  then show "preserved e 5" by (simp add: preserved_def)
  show "xe_lldb_sp_regnum e = lldb_reg e 4" "xe_lldb_fp_regnum e = lldb_reg e 5" "xe_machine_fp_regnum e = 5"
    using assms by (simp_all add: engine_ok_def)
  show "lldb_reg e 4 \<noteq> lldb_reg e 5" using lldb_reg_distinct(1) [OF assms n] by simp
  show "preserved_regno e r = (if nonvolatile_reg_p e r then Some (lldb_reg e r) else None)"
    using assms by (auto simp: preserved_regno_def engine_ok_def lldb_reg_def)
qed

lemma row_cfa_of_frame:
  assumes "engine_ok e" "row_describes e row g"
  shows "row_cfa_reg row = xe_lldb_sp_regnum e \<longleftrightarrow> fr_base g = None"
    "fr_base g = Some b \<Longrightarrow> row_cfa_reg row = xe_lldb_fp_regnum e \<and> row_cfa_offset row = b"
    "fr_base g = None \<Longrightarrow> row_cfa_offset row = fr_depth g"
  using assms engine_regs(4-6) [OF assms(1)]
  by (auto simp: row_describes_def row_cfa_reg_def row_cfa_offset_def GetRegisterNumber_cfa_def GetOffset_cfa_def
      split: option.splits)

lemma c_int_bounds: "in_bounds n \<Longrightarrow> c_int n = Some n" "in_bounds n \<Longrightarrow> c_int (- n) = Some (- n)"
  by (auto simp: in_bounds_def c_int_def)

definition keeps_completed :: "inspection \<Rightarrow> inspection \<Rightarrow> bool" where
  "keeps_completed st st' \<longleftrightarrow> in_plan st' = in_plan st \<and> in_completed_row st' = in_completed_row st \<and>
     in_completed_sp_bytes_offset st' = in_completed_sp_bytes_offset st \<and>
     in_completed_saved_registers st' = in_completed_saved_registers st"

lemma follow_sp_tracks:
  assumes "engine_ok e" "tracks e st g" "bounded (deeper n g)"
  shows "\<exists>st'. follow_sp e n st = Some (st', fr_base g = None) \<and> tracks e st' (deeper n g) \<and> keeps_completed st st' \<and>
    (fr_base g \<noteq> None \<longrightarrow> in_row st' = in_row st)"
proof -
  have t: "in_sp_bytes_offset_from_cfa st = fr_depth g" "row_describes e (in_row st) g" "frame_wf g"
    "saves_describe e (in_saved_registers st) g" "in_bounds (fr_depth g + n)"
    using assms(2,3) by (simp_all add: tracks_def bounded_def deeper_def)
  show ?thesis
    using t row_cfa_of_frame(1) [OF assms(1) t(2)]
    by (cases "fr_base g")
      (auto simp: follow_sp_def c_int_bounds tracks_def deeper_def frame_wf_def bounded_def row_describes_def
        saves_describe_def SetOffset_cfa_def keeps_completed_def)
qed

lemma save_reg_at_tracks:
  assumes "engine_ok e" "tracks e st g" "preserved e r"
  shows "tracks e (save_reg_at r (lldb_reg e r) (- n) st) (g\<lparr>fr_saved := (fr_saved g)(r \<mapsto> n)\<rparr>)"
    "keeps_completed st (save_reg_at r (lldb_reg e r) (- n) st)"
proof -
  have r: "nonvolatile_reg_p e r" "r \<noteq> 4" "r < 16"
    using assms(3) nonvolatile_small by (auto simp: preserved_def)
  have d: "preserved e q \<Longrightarrow> lldb_reg e q = lldb_reg e r \<longleftrightarrow> q = r" for q
    using lldb_reg_distinct(1) [OF assms(1) _ r(1), of q] by (simp add: preserved_def)
  have x: "xe_lldb_sp_regnum e \<noteq> lldb_reg e r" "xe_lldb_ip_regnum e \<noteq> lldb_reg e r"
    using lldb_reg_distinct [OF assms(1) r(1), of 4] engine_regs(1,4) [OF assms(1)] r(2) by auto
  show "tracks e (save_reg_at r (lldb_reg e r) (- n) st) (g\<lparr>fr_saved := (fr_saved g)(r \<mapsto> n)\<rparr>)"
    using assms(2) d x r(3)
    by (auto simp: tracks_def save_reg_at_def frame_wf_def bounded_def row_describes_def saves_describe_def rule_of_set
        nth_list_update cong: option.case_cong)
  show "keeps_completed st (save_reg_at r (lldb_reg e r) (- n) st)"
    by (simp add: keeps_completed_def save_reg_at_def)
qed

text \<open>What the inspection of an instruction does, in terms of frames.\<close>

definition insn_tracks :: "x86_engine \<Rightarrow> inspection \<Rightarrow> x86_insn \<Rightarrow> frame \<Rightarrow> frame \<Rightarrow> bool" where
  "insn_tracks e st i g g' \<longleftrightarrow>
     (\<exists>st'. (\<forall>rest. inspect_insn e (encode_insn e i @ rest) st = Some (st', in_epilogue e i, changes_row e i g)) \<and>
       tracks e st' g' \<and> keeps_completed st st' \<and> (\<not> changes_row e i g \<longrightarrow> in_row st' = in_row st))"

lemma checked_Some [simp]: "checked b g = Some g' \<longleftrightarrow> b \<and> bounded g \<and> g' = g"
  by (auto simp: checked_def)

lemma engine_word_ok: "engine_ok e \<Longrightarrow> word_ok e"
  by (simp add: engine_ok_def)

lemma follow_sp_insn:
  assumes "engine_ok e" "tracks e st g" "bounded (deeper n g)"
    and "\<And>rest. inspect_insn e (encode_insn e i @ rest) st =
      map_option (\<lambda>(st, row_updated). (st, in_epilogue e i, row_updated)) (follow_sp e n st)"
    and "changes_row e i g = (fr_base g = None)"
  shows "insn_tracks e st i g (deeper n g)"
  using follow_sp_tracks [OF assms(1-3)] assms(4,5) by (auto simp: insn_tracks_def)

lemma push_rbp_tracks:
  assumes "engine_ok e" "tracks e st g" "frame_after e (Push 5) g = Some g'"
  shows "insn_tracks e st (Push 5) g g'"
proof -
  note e = engine_regs [OF assms(1)]
  have g': "fr_saved g 5 = None" "bounded (deeper (xe_wordsize e) g)"
    "g' = (deeper (xe_wordsize e) g)\<lparr>fr_saved := (fr_saved g)(5 \<mapsto> fr_depth (deeper (xe_wordsize e) g))\<rparr>"
    using assms(3) e(3) by (auto simp: Let_def bounded_def split: if_splits)
  have base: "fr_base g = None"
    using assms(2) g'(1) by (auto simp: tracks_def frame_wf_def)
  obtain st' where st': "follow_sp e (xe_wordsize e) st = Some (st', True)" "tracks e st' (deeper (xe_wordsize e) g)"
    "keeps_completed st st'"
    using follow_sp_tracks [OF assms(1,2) g'(2)] base by auto
  let ?d = "fr_depth (deeper (xe_wordsize e) g)"
  have b: "in_bounds (fr_depth g + xe_wordsize e)" "in_sp_bytes_offset_from_cfa st = fr_depth g"
    using g'(2) assms(2) by (simp_all add: bounded_def deeper_def tracks_def)
  have d: "row_cfa_reg (in_row st) = xe_lldb_sp_regnum e"
    using row_cfa_of_frame(1) [OF assms(1), of "in_row st" g] assms(2) base by (simp add: tracks_def)
  have st'_eq: "st' = st\<lparr>in_sp_bytes_offset_from_cfa := ?d,
      in_row := (in_row st)\<lparr>row_cfa_value := SetOffset_cfa ?d (row_cfa_value (in_row st))\<rparr>\<rparr>"
    using st'(1) b d by (simp add: follow_sp_def c_int_bounds deeper_def)
  have "row_cfa_offset (in_row st') = ?d"
    using row_cfa_of_frame(3) [OF assms(1), of "in_row st'" "deeper (xe_wordsize e) g"] st'(2) base
    by (simp add: tracks_def deeper_def)
  then have "on_push_rbp e st = Some (save_reg_at 5 (lldb_reg e 5) (- ?d) st')"
    using b e(5,7) c_int_bounds(2) [OF b(1)] unfolding st'_eq
    by (simp add: on_push_rbp_def c_int_bounds(1) deeper_def Let_def)
  moreover have "keeps_completed st (save_reg_at 5 (lldb_reg e 5) (- ?d) st')"
    using st'(3) save_reg_at_tracks(2) [OF assms(1) st'(2) e(3)] by (simp add: keeps_completed_def)
  ultimately show ?thesis
    using save_reg_at_tracks(1) [OF assms(1) st'(2) e(3), of ?d] inspect_push_rbp [of e _ st] e(3) g'(1)
    by (auto simp: insn_tracks_def g'(3) deeper_def simp del: encode_insn.simps)
qed

lemma is_saved_tracks:
  "tracks e st g \<Longrightarrow> preserved e r \<Longrightarrow> is_saved r st = Some (fr_saved g r \<noteq> None)"
  using nonvolatile_small [of e r] by (auto simp: tracks_def saves_describe_def is_saved_def preserved_def)

lemma push_tracks:
  assumes "engine_ok e" "tracks e st g" "frame_after e (Push r) g = Some g'" "r \<noteq> 5"
  shows "insn_tracks e st (Push r) g g'"
proof -
  have u: "usable_reg e r" "bounded (deeper (xe_wordsize e) g)"
    using assms(3) by (auto simp: Let_def bounded_def split: if_splits)
  then have r: "r < 16" "xe_wordsize e = 8 \<or> r < 8" "nonvolatile_reg_p e r = preserved e r"
    by (simp_all add: usable_reg_def preserved_def)
  obtain st' where st': "follow_sp e (xe_wordsize e) st = Some (st', fr_base g = None)"
    "tracks e st' (deeper (xe_wordsize e) g)" "keeps_completed st st'" "fr_base g \<noteq> None \<longrightarrow> in_row st' = in_row st"
    using follow_sp_tracks [OF assms(1,2) u(2)] by auto
  note insp = inspect_push [OF engine_word_ok [OF assms(1)] r(1,2) assms(4), of _ st]
  have saved: "preserved e r \<Longrightarrow> is_saved r st' = Some (fr_saved g r \<noteq> None)"
    using is_saved_tracks [OF st'(2), of r] by (simp add: deeper_def)
  show ?thesis
  proof (cases "preserved e r \<and> fr_saved g r = None")
    case True
    then have g': "g' = (deeper (xe_wordsize e) g)\<lparr>fr_saved := (fr_saved g)(r \<mapsto> fr_depth (deeper (xe_wordsize e) g))\<rparr>"
      using assms(3) by (simp add: Let_def)
    let ?d = "fr_depth (deeper (xe_wordsize e) g)"
    have "in_sp_bytes_offset_from_cfa st' = ?d" "in_bounds ?d" using st'(2) u(2) by (simp_all add: tracks_def bounded_def)
    then have "on_push_reg e r st = Some (save_reg_at r (lldb_reg e r) (- ?d) st', True)"
      using st'(1) True r(3) saved engine_regs(8) [OF assms(1), of r]
      by (simp add: on_push_reg_def c_int_bounds)
    moreover have "keeps_completed st (save_reg_at r (lldb_reg e r) (- ?d) st')"
      using st'(3) save_reg_at_tracks(2) [OF assms(1) st'(2), of r] True by (simp add: keeps_completed_def)
    ultimately show ?thesis
      using save_reg_at_tracks(1) [OF assms(1) st'(2), of r ?d] True insp
      by (auto simp: insn_tracks_def g' not_epilogue_def deeper_def simp del: encode_insn.simps)
  next
    case False
    then have g': "g' = deeper (xe_wordsize e) g" using assms(3) by (auto simp: Let_def)
    have "on_push_reg e r st = Some (st', fr_base g = None)"
      using st'(1) False r(3) saved engine_regs(8) [OF assms(1), of r]
      by (auto simp: on_push_reg_def)
    then show ?thesis
      using st'(2-4) False insp by (auto simp: insn_tracks_def g' not_epilogue_def simp del: encode_insn.simps)
  qed
qed


text \<open>Forgetting a saved register.\<close>

lemma forget_tracks:
  assumes "engine_ok e" "row_describes e row g" "saves_describe e saves g" "preserved e r"
  shows "saves_describe e (saves[r := False]) (g\<lparr>fr_saved := (fr_saved g)(r := None)\<rparr>)"
    "preserved e q \<Longrightarrow> rule_of (RemoveRegisterInfo (lldb_reg e r) row) (lldb_reg e q) =
       (case ((fr_saved g)(r := None)) q of None \<Rightarrow> unspecified_loc | Some n \<Rightarrow> atCFAPlusOffset (- n))"
    "rule_of (RemoveRegisterInfo (lldb_reg e r) row) (xe_lldb_sp_regnum e) = isCFAPlusOffset 0"
    "rule_of (RemoveRegisterInfo (lldb_reg e r) row) (xe_lldb_ip_regnum e) = atCFAPlusOffset (- xe_wordsize e)"
    "row_ok (RemoveRegisterInfo (lldb_reg e r) row)"
proof -
  have r: "nonvolatile_reg_p e r" "r \<noteq> 4" "r < 16"
    using assms(4) nonvolatile_small by (auto simp: preserved_def)
  have x: "xe_lldb_sp_regnum e \<noteq> lldb_reg e r" "xe_lldb_ip_regnum e \<noteq> lldb_reg e r"
    using lldb_reg_distinct [OF assms(1) r(1), of 4] engine_regs(1,4) [OF assms(1)] r(2) by auto
  show "saves_describe e (saves[r := False]) (g\<lparr>fr_saved := (fr_saved g)(r := None)\<rparr>)"
    using assms(3) r(3) by (simp add: saves_describe_def nth_list_update)
  show "preserved e q \<Longrightarrow> rule_of (RemoveRegisterInfo (lldb_reg e r) row) (lldb_reg e q) =
       (case ((fr_saved g)(r := None)) q of None \<Rightarrow> unspecified_loc | Some n \<Rightarrow> atCFAPlusOffset (- n))"
    using assms(2) lldb_reg_distinct(1) [OF assms(1) _ r(1), of q] by (auto simp: row_describes_def preserved_def)
  show "rule_of (RemoveRegisterInfo (lldb_reg e r) row) (xe_lldb_sp_regnum e) = isCFAPlusOffset 0"
    "rule_of (RemoveRegisterInfo (lldb_reg e r) row) (xe_lldb_ip_regnum e) = atCFAPlusOffset (- xe_wordsize e)"
    "row_ok (RemoveRegisterInfo (lldb_reg e r) row)"
    using assms(2) x by (simp_all add: row_describes_def)
qed

lemma pop_tracks:
  assumes "engine_ok e" "tracks e st g" "frame_after e (Pop r) g = Some g'"
  shows "insn_tracks e st (Pop r) g g'"
proof -
  have u: "usable_reg e r" "bounded (deeper (- xe_wordsize e) g)"
    using assms(3) by (auto simp: Let_def bounded_def split: if_splits)
  then have r: "r < 16" "xe_wordsize e = 8 \<or> r < 8" "nonvolatile_reg_p e r = preserved e r"
    by (simp_all add: usable_reg_def preserved_def)
  have t: "in_sp_bytes_offset_from_cfa st = fr_depth g" "row_describes e (in_row st) g" "frame_wf g"
    "saves_describe e (in_saved_registers st) g" "in_bounds (fr_depth g - xe_wordsize e)"
    using assms(2) u(2) by (simp_all add: tracks_def bounded_def deeper_def)
  note insp = inspect_pop [OF engine_word_ok [OF assms(1)] r(1,2), of _ st]
  note e = engine_regs(4-8) [OF assms(1)]
  let ?sp = "fr_depth g - xe_wordsize e"
  show ?thesis
  proof (cases "preserved e r")
    case True
    then have saved: "fr_saved g r = Some (fr_depth g)"
      and g': "g' = (deeper (- xe_wordsize e) g)\<lparr>fr_saved := (fr_saved g)(r := None), fr_base := (if r = 5 then None else fr_base g)\<rparr>"
      using assms(3) by (simp_all add: Let_def)
    have is_saved: "is_saved r (st\<lparr>in_sp_bytes_offset_from_cfa := ?sp\<rparr>) = Some True"
      using is_saved_tracks [OF assms(2) True] saved by (simp add: is_saved_def split: if_splits)
    note forget = forget_tracks [OF assms(1) t(2,4) True]
    define row where "row = RemoveRegisterInfo (lldb_reg e r) (in_row st)"
    define cfa where "cfa = (case fr_base g' of
        None \<Rightarrow> isRegisterPlusOffset (xe_lldb_sp_regnum e) ?sp
      | Some b \<Rightarrow> isRegisterPlusOffset (xe_lldb_fp_regnum e) b)"
    define st' where "st' = st\<lparr>in_sp_bytes_offset_from_cfa := ?sp,
        in_saved_registers := (in_saved_registers st)[r := False], in_row := row\<lparr>row_cfa_value := cfa\<rparr>\<rparr>"
    have reg: "row_cfa_reg row = row_cfa_reg (in_row st)" by (simp add: row_def row_cfa_reg_def)
    have fp: "fr_base g = Some b \<Longrightarrow> row_cfa_value row = isRegisterPlusOffset (xe_lldb_fp_regnum e) b" for b
      using t(2) by (simp add: row_def row_describes_def)
    have "on_pop_reg e r st = Some (st', True, True)"
    proof (cases "r = 5")
      case True
      then show ?thesis
        using r(3) \<open>preserved e r\<close> t(1,5) is_saved e
        by (simp add: on_pop_reg_def c_int_bounds(1) Let_def row_cfa_reg_def GetRegisterNumber_cfa_def st'_def cfa_def g' row_def)
    next
      case False
      note other = this
      show ?thesis
      proof (cases "fr_base g")
        case None
        then show ?thesis
          using r(3) \<open>preserved e r\<close> t(1,5) is_saved e reg other row_cfa_of_frame(1) [OF assms(1) t(2)]
          by (simp add: on_pop_reg_def c_int_bounds(1) Let_def st'_def cfa_def g' deeper_def flip: row_def)
      next
        case (Some b)
        then have "row\<lparr>row_cfa_value := isRegisterPlusOffset (xe_lldb_fp_regnum e) b\<rparr> = row" using fp by simp
        then show ?thesis
          using r(3) \<open>preserved e r\<close> t(1,5) is_saved e reg other Some row_cfa_of_frame(1) [OF assms(1) t(2)]
          by (simp add: on_pop_reg_def c_int_bounds(1) Let_def st'_def cfa_def g' deeper_def flip: row_def)
      qed
    qed
    moreover have "row_describes e (in_row st') g'"
      using forget(2-5) unfolding row_describes_def
      by (simp add: st'_def row_def cfa_def g' deeper_def cong: option.case_cong)
    then have "tracks e st' g'"
      using forget(1) t(3,5) by (auto simp: tracks_def st'_def g' deeper_def frame_wf_def bounded_def saves_describe_def)
    moreover have "keeps_completed st st'" by (simp add: keeps_completed_def st'_def)
    ultimately show ?thesis
      using insp True by (auto simp: insn_tracks_def simp del: encode_insn.simps)
  next
    case False
    then have g': "g' = deeper (- xe_wordsize e) g" using assms(3) by (simp add: Let_def)
    define st' where "st' = (if fr_base g = None
      then st\<lparr>in_sp_bytes_offset_from_cfa := ?sp, in_row := (in_row st)\<lparr>row_cfa_value := isRegisterPlusOffset (xe_lldb_sp_regnum e) ?sp\<rparr>\<rparr>
      else st\<lparr>in_sp_bytes_offset_from_cfa := ?sp\<rparr>)"
    have "on_pop_reg e r st = Some (st', False, fr_base g = None)"
      using r(3) False t(1,5) e row_cfa_of_frame(1) [OF assms(1) t(2)]
      by (simp add: on_pop_reg_def c_int_bounds(1) Let_def st'_def)
    moreover have "tracks e st' g'"
      using t by (cases "fr_base g")
        (auto simp: tracks_def st'_def g' deeper_def frame_wf_def bounded_def row_describes_def saves_describe_def)
    moreover have "keeps_completed st st'" by (simp add: keeps_completed_def st'_def)
    moreover have "fr_base g \<noteq> None \<longrightarrow> in_row st' = in_row st" by (simp add: st'_def)
    ultimately show ?thesis
      using insp False by (auto simp: insn_tracks_def simp del: encode_insn.simps)
  qed
qed

lemma leave_tracks:
  assumes "engine_ok e" "tracks e st g" "frame_after e Leave g = Some g'"
  shows "insn_tracks e st Leave g g'"
proof -
  note e = engine_regs [OF assms(1)]
  have t: "row_describes e (in_row st) g" "saves_describe e (in_saved_registers st) g" "frame_wf g"
    using assms(2) by (simp_all add: tracks_def)
  obtain b where b: "fr_base g = Some b" "in_bounds (b - xe_wordsize e)"
    and g': "g' = g\<lparr>fr_depth := b - xe_wordsize e, fr_base := None, fr_saved := (fr_saved g)(5 := None)\<rparr>"
    using assms(3) by (auto simp: bounded_def split: option.splits)
  note forget = forget_tracks [OF assms(1) t(1,2) e(3)]
  have off: "row_cfa_offset (in_row st) = b" using row_cfa_of_frame(2) [OF assms(1) t(1) b(1)] by simp
  define row where "row = RemoveRegisterInfo (lldb_reg e 5)
    ((in_row st)\<lparr>row_cfa_value := SetOffset_cfa (b - xe_wordsize e) (row_cfa_value (in_row st))\<rparr>)"
  have row: "row = (RemoveRegisterInfo (lldb_reg e 5) (in_row st))
    \<lparr>row_cfa_value := SetOffset_cfa (b - xe_wordsize e) (row_cfa_value (in_row st))\<rparr>"
    by (simp add: row_def RemoveRegisterInfo_def)
  define st' where "st' = st\<lparr>in_sp_bytes_offset_from_cfa := b - xe_wordsize e,
      in_row := row\<lparr>row_cfa_value := isRegisterPlusOffset (xe_lldb_sp_regnum e) (b - xe_wordsize e)\<rparr>,
      in_saved_registers := (in_saved_registers st)[5 := False]\<rparr>"
  have "on_leave e st = Some st'"
    using off b(2) e(5,7) by (simp add: on_leave_def c_int_bounds(1) Let_def SetOffset_cfa_def st'_def row_def)
  moreover have "row_describes e (in_row st') g'"
    using forget(2-5) unfolding row_describes_def by (simp add: st'_def row g')
  then have "tracks e st' g'"
    using forget(1) b(2) by (auto simp: tracks_def st'_def g' frame_wf_def bounded_def saves_describe_def)
  moreover have "keeps_completed st st'" by (simp add: keeps_completed_def st'_def)
  ultimately show ?thesis
    using inspect_leave [of e _ st] by (auto simp: insn_tracks_def simp del: encode_insn.simps)
qed

lemma mov_tracks:
  assumes "engine_ok e" "tracks e st g" "frame_after e MovSpBp g = Some g'"
  shows "insn_tracks e st MovSpBp g g'"
proof -
  have g: "fr_base g = None" "fr_saved g 5 \<noteq> None" "g' = g\<lparr>fr_base := Some (fr_depth g)\<rparr>"
    using assms(3) by auto
  have "row_cfa_offset (in_row st) = fr_depth g"
    using row_cfa_of_frame(3) [OF assms(1)] assms(2) g(1) by (simp add: tracks_def)
  then have "tracks e (on_mov_rsp_rbp e st) g'"
    using assms(2) g
    by (auto simp: tracks_def on_mov_rsp_rbp_def frame_wf_def bounded_def row_describes_def saves_describe_def)
  then show ?thesis
    using inspect_mov [OF engine_word_ok [OF assms(1)], of _ st]
    by (auto simp: insn_tracks_def keeps_completed_def on_mov_rsp_rbp_def simp del: encode_insn.simps)
qed

lemma lea_bp_tracks:
  assumes "engine_ok e" "tracks e st g" "frame_after e (LeaBpSp n) g = Some g'"
  shows "insn_tracks e st (LeaBpSp n) g g'"
proof -
  obtain b where b: "fr_base g = Some b" "fits32 n" "in_bounds (b - n)" and g': "g' = g\<lparr>fr_depth := b - n\<rparr>"
    using assms(3) by (auto simp: bounded_def split: option.splits)
  have t: "row_describes e (in_row st) g" using assms(2) by (simp add: tracks_def)
  note cfa = row_cfa_of_frame(2) [OF assms(1) t b(1)]
  define st' where "st' = st\<lparr>in_sp_bytes_offset_from_cfa := b - n\<rparr>"
  have "inspect_insn e (encode_insn e (LeaBpSp n) @ rest) st = Some (st', False, False)" for rest
    using inspect_lea_rbp [OF engine_word_ok [OF assms(1)] b(2), of st rest] cfa b(3)
    by (simp add: c_int_bounds(1) st'_def del: encode_insn.simps)
  moreover have "tracks e st' g'"
    using assms(2) b by (auto simp: tracks_def st'_def g' frame_wf_def bounded_def row_describes_def saves_describe_def)
  ultimately show ?thesis
    by (auto simp: insn_tracks_def keeps_completed_def st'_def simp del: encode_insn.simps)
qed

lemma save_tracks:
  assumes "engine_ok e" "tracks e st g" "frame_after e (Save r n) g = Some g'"
  shows "insn_tracks e st (Save r n) g g'"
proof -
  obtain b where b: "fr_base g = Some b" "usable_reg e r" "0 \<le> n" "n < 2 ^ 31" "in_bounds (b + n)"
    and g': "g' = (if preserved e r \<and> fr_saved g r = None then g\<lparr>fr_saved := (fr_saved g)(r \<mapsto> b + n)\<rparr> else g)"
    using assms(3) by (auto split: option.splits)
  have r: "r < 16" "xe_wordsize e = 8 \<or> r < 8" "nonvolatile_reg_p e r = preserved e r"
    using b(2) by (simp_all add: usable_reg_def preserved_def)
  have t: "row_describes e (in_row st) g" "saves_describe e (in_saved_registers st) g" using assms(2) by (simp_all add: tracks_def)
  have len: "r < length (in_saved_registers st)" using t(2) r(1) by (simp add: saves_describe_def)
  have cfa: "c_int (n + row_cfa_offset (in_row st)) = Some (b + n)" "c_int (- (b + n)) = Some (- (b + n))"
    using row_cfa_of_frame(2) [OF assms(1) t(1) b(1)] c_int_bounds [OF b(5)] by (simp_all add: add.commute)
  note insp = inspect_save [OF engine_word_ok [OF assms(1)] r(1,2) b(3,4) len]
  show ?thesis
  proof (cases "preserved e r \<and> fr_saved g r = None")
    case True
    then have "\<not> in_saved_registers st ! r" using t(2) by (simp add: saves_describe_def)
    then have "inspect_insn e (encode_insn e (Save r n) @ rest) st = Some (save_reg_at r (lldb_reg e r) (- (b + n)) st, False, True)" for rest
      using insp [of rest] True r(3) engine_regs(8) [OF assms(1), of r] cfa by (simp del: encode_insn.simps)
    then show ?thesis
      using save_reg_at_tracks [OF assms(1,2), of r "b + n"] True
      by (auto simp: insn_tracks_def g' simp del: encode_insn.simps)
  next
    case False
    then have "preserved e r \<Longrightarrow> in_saved_registers st ! r" using t(2) by (auto simp: saves_describe_def)
    then have "inspect_insn e (encode_insn e (Save r n) @ rest) st = Some (st, False, False)" for rest
      using insp [of rest] False r(3) engine_regs(8) [OF assms(1), of r] by (simp del: encode_insn.simps)
    then show ?thesis
      using assms(2) False by (auto simp: insn_tracks_def g' keeps_completed_def simp del: encode_insn.simps)
  qed
qed


lemma frame_tracks:
  assumes "engine_ok e" "tracks e st g" "frame_after e i g = Some g'" "i \<noteq> Ret"
  shows "insn_tracks e st i g g'"
proof (cases i)
  case (Push r)
  then show ?thesis using push_rbp_tracks [OF assms(1,2)] push_tracks [OF assms(1,2)] assms(3) by (cases "r = 5") blast+
next
  case (PushImm n)
  then have "g' = deeper (xe_wordsize e) g" "bounded (deeper (xe_wordsize e) g)" using assms(3) by simp_all
  then show ?thesis
    using follow_sp_insn [OF assms(1,2), of "xe_wordsize e" i] inspect_push_imm [OF engine_word_ok [OF assms(1)], of n _ st] PushImm
    by (simp add: not_epilogue_def del: encode_insn.simps)
next
  case CallNext
  then have "g' = deeper (xe_wordsize e) g" "bounded (deeper (xe_wordsize e) g)" using assms(3) by simp_all
  then show ?thesis
    using follow_sp_insn [OF assms(1,2), of "xe_wordsize e" i] inspect_call_next [OF engine_word_ok [OF assms(1)], of _ st] CallNext
    by (simp add: not_epilogue_def del: encode_insn.simps)
next
  case MovSpBp
  then show ?thesis using mov_tracks [OF assms(1,2)] assms(3) by simp
next
  case (SubSp n)
  then have "g' = deeper n g" "bounded (deeper n g)" "fits32 n" using assms(3) by simp_all
  then show ?thesis
    using follow_sp_insn [OF assms(1,2), of n i] inspect_sub [OF engine_word_ok [OF assms(1)], of n _ st] SubSp
    by (simp add: not_epilogue_def del: encode_insn.simps)
next
  case (AddSp n)
  then have "g' = deeper (- n) g" "bounded (deeper (- n) g)" "fits32 n" using assms(3) by simp_all
  then show ?thesis
    using follow_sp_insn [OF assms(1,2), of "- n" i] inspect_add [OF engine_word_ok [OF assms(1)], of n _ st] AddSp
    by (simp del: encode_insn.simps)
next
  case (LeaSp n)
  then have "g' = deeper (- n) g" "bounded (deeper (- n) g)" "fits32 n" using assms(3) by simp_all
  then show ?thesis
    using follow_sp_insn [OF assms(1,2), of "- n" i] inspect_lea [OF engine_word_ok [OF assms(1)], of n _ st] LeaSp
    by (simp del: encode_insn.simps)
next
  case (LeaBpSp n)
  then show ?thesis using lea_bp_tracks [OF assms(1,2)] assms(3) by simp
next
  case (Pop r)
  then show ?thesis using pop_tracks [OF assms(1,2)] assms(3) by simp
next
  case Leave
  then show ?thesis using leave_tracks [OF assms(1,2)] assms(3) by simp
next
  case (Save r n)
  then show ?thesis using save_tracks [OF assms(1,2)] assms(3) by simp
next
  case (Plain bs)
  then have "unrecognized e bs" "g' = g" using assms(3) by simp_all
  then show ?thesis
    using Plain assms(2) by (auto simp: insn_tracks_def keeps_completed_def unrecognized_def)
qed (use assms(4) in simp)

section \<open>Along a function\<close>

lemma frame_wf_after:
  assumes "engine_ok e" "tracks e st g" "frame_after e i g = Some g'" "i \<noteq> Ret"
  shows "frame_wf g'"
  using frame_tracks [OF assms] by (auto simp: insn_tracks_def tracks_def)

text \<open>The row that an instruction leads to, as it is recorded.\<close>

lemma tracks_record_row:
  "tracks e (record_row n len b c st) g = tracks e st g"
  by (simp add: record_row_def tracks_def row_describes_def Let_def)

lemma completed_record_row: "completed_tracks e (record_row n len True c st) t = completed_tracks e st t"
  by (simp add: record_row_def completed_tracks_def Let_def split: option.split)

lemma record_row_plan:
  "in_plan (record_row n len b c st) =
     (if c \<and> n < len then AppendRow ((in_row st)\<lparr>row_offset := n\<rparr>) (in_plan st) else in_plan st)"
  by (simp add: record_row_def Let_def)

lemma record_row_row:
  "in_row (record_row n len b c st) = (if c \<and> n < len then (in_row st)\<lparr>row_offset := n\<rparr> else in_row st)"
  by (simp add: record_row_def Let_def)

lemma record_row_completed:
  "in_completed_row (record_row n len b c st) =
     (if \<not> b \<and> c then Some (in_row (record_row n len b c st)) else in_completed_row st)"
  "in_completed_saved_registers (record_row n len b c st) =
     (if \<not> b \<and> c then in_saved_registers st else in_completed_saved_registers st)"
  "in_completed_sp_bytes_offset (record_row n len b c st) =
     (if b then in_completed_sp_bytes_offset st else Some (in_sp_bytes_offset_from_cfa st))"
  by (simp_all add: record_row_def Let_def)

lemma row_describes_offset [simp]: "row_describes e (r\<lparr>row_offset := n\<rparr>) g = row_describes e r g"
  by (simp add: row_describes_def)

lemma insn_follows:
  assumes "engine_ok e" "inspection_follows e st t" "frames_after e i t = Some t'"
  shows "\<exists>st' b c. (\<forall>rest. inspect_insn e (encode_insn e i @ rest) st = Some (st', b, c)) \<and>
    inspection_follows e (record_row n len b c st') t' \<and> in_plan st' = in_plan st \<and>
    (c \<longrightarrow> row_describes e (in_row st') (fs_frame t')) \<and>
    (\<not> c \<longrightarrow> in_row st' = in_row st)"
proof (cases "i = Ret")
  case True
  note ret = inspect_ret [OF engine_word_ok [OF assms(1)], of _ st]
  have t: "tracks e st (fs_frame t)" "completed_tracks e st t" using assms(2) by (simp_all add: inspection_follows_def)
  show ?thesis
  proof (cases "fs_completed t")
    case None
    then have t': "t' = t\<lparr>fs_depth := Some (fr_depth (fs_frame t))\<rparr>" and row: "in_completed_row st = None"
      using assms(3) True t(2) by (simp_all add: frames_after_def completed_tracks_def)
    have "inspection_follows e (record_row n len False False st) t'"
      using t None by (auto simp: inspection_follows_def t' tracks_record_row completed_tracks_def record_row_def tracks_def
          frame_wf_def bounded_def)
    then show ?thesis using ret row True by (auto simp del: encode_insn.simps)
  next
    case (Some c)
    then obtain d where d: "fs_depth t = Some d" "fr_base c = None \<longrightarrow> d = fr_depth c" "t' = t\<lparr>fs_frame := c\<lparr>fr_depth := d\<rparr>\<rparr>"
      using assms(3) True by (auto simp: frames_after_def split: if_splits)
    obtain row where row: "in_completed_row st = Some row" "row_describes e row c" "frame_wf c"
      "saves_describe e (in_completed_saved_registers st) c" "in_completed_sp_bytes_offset st = Some d" "in_bounds d"
      using t(2) Some d(1) by (auto simp: completed_tracks_def)
    define st' where "st' = st\<lparr>in_row := row, in_sp_bytes_offset_from_cfa := d,
      in_saved_registers := in_completed_saved_registers st\<rparr>"
    have "on_ret row st = Some st'" using row(5) by (simp add: on_ret_def st'_def)
    moreover have tr: "tracks e st' (fs_frame t')"
      using row d(2) unfolding d(3)
      by (auto simp: tracks_def st'_def frame_wf_def bounded_def row_describes_def saves_describe_def split: option.splits)
    moreover have "inspection_follows e (record_row n len True True st') t'"
      using tr t(2) unfolding inspection_follows_def tracks_record_row completed_record_row
      by (simp add: completed_tracks_def st'_def d(3) split: option.splits)
    ultimately show ?thesis
      using ret row(1) True by (auto simp: st'_def tracks_def simp del: encode_insn.simps)
  qed
next
  case False
  have t: "tracks e st (fs_frame t)" "completed_tracks e st t" using assms(2) by (simp_all add: inspection_follows_def)
  obtain g where g: "frame_after e i (fs_frame t) = Some g"
    and t': "t' = (if in_epilogue e i then t\<lparr>fs_frame := g\<rparr>
       else \<lparr>fs_frame = g, fs_completed = (if changes_row e i (fs_frame t) then Some g else fs_completed t),
             fs_depth = Some (fr_depth g)\<rparr>)"
    using assms(3) False by (auto simp: frames_after_def split: option.splits)
  obtain st' where st': "\<forall>rest. inspect_insn e (encode_insn e i @ rest) st = Some (st', in_epilogue e i, changes_row e i (fs_frame t))"
    "tracks e st' g" "keeps_completed st st'" "\<not> changes_row e i (fs_frame t) \<longrightarrow> in_row st' = in_row st"
    using frame_tracks [OF assms(1) t(1) g False] by (auto simp: insn_tracks_def)
  have "fs_frame t' = g" by (simp add: t')
  moreover have "completed_tracks e (record_row n len (in_epilogue e i) (changes_row e i (fs_frame t)) st') t'"
    using t(2) st'(2,3)
    by (auto simp: completed_tracks_def t' record_row_completed record_row_row keeps_completed_def tracks_def frame_wf_def
        bounded_def cong: option.case_cong)
  ultimately have "inspection_follows e (record_row n len (in_epilogue e i) (changes_row e i (fs_frame t)) st') t'"
    using st'(2) by (simp add: inspection_follows_def tracks_record_row)
  moreover have "in_plan st' = in_plan st" using st'(3) by (simp add: keeps_completed_def)
  ultimately show ?thesis
    using st'(1,2,4) \<open>fs_frame t' = g\<close> by (auto simp: tracks_def simp del: encode_insn.simps)
qed


text \<open>The bytes of a function, and what LLVM is taken to say about them: the length of the instruction
  that the bytes start with.\<close>

definition assemble :: "x86_engine \<Rightarrow> x86_insn list \<Rightarrow> u8 list" where
  "assemble e code = concat (map (encode_insn e) code)"

definition decodes :: "x86_engine \<Rightarrow> (u8 list \<Rightarrow> nat) \<Rightarrow> x86_insn list \<Rightarrow> bool" where
  "decodes e disasm code \<longleftrightarrow>
     (\<forall>i \<in> set code. \<forall>rest. disasm (encode_insn e i @ rest) = length (encode_insn e i))"

definition insn_offset :: "x86_engine \<Rightarrow> x86_insn list \<Rightarrow> nat \<Rightarrow> nat" where
  "insn_offset e code k = length (assemble e (take k code))"

lemma assemble_simps [simp]:
  "assemble e [] = []" "assemble e (i # is) = encode_insn e i @ assemble e is"
  "assemble e (is @ js) = assemble e is @ assemble e js"
  by (simp_all add: assemble_def)

lemma length_le4 [simp]: "length (le4 n) = 4"
  by (simp add: le4_def)

lemma insn_length:
  assumes "frames_after e i t = Some t'"
  shows "0 < length (encode_insn e i)" "length (encode_insn e i) \<le> 15"
  using assms
  by (cases i; auto simp: reg_opcode_def rex_w_def immediate_def frames_after_def split: option.splits)+

lemma instruction_length_insn:
  assumes "decodes e disasm code" "i \<in> set code" "0 < length (encode_insn e i)" "length (encode_insn e i) \<le> 15"
    and "length (encode_insn e i @ rest) < 2 ^ 32"
  shows "instruction_length disasm (encode_insn e i @ rest) = length (encode_insn e i)"
    "\<not> junk_insn (length (encode_insn e i))"
proof -
  let ?n = "min (length (encode_insn e i @ rest) mod 2 ^ 32) 15"
  have "length (encode_insn e i @ rest) mod 2 ^ 32 = length (encode_insn e i @ rest)"
    using assms(5) by (rule mod_less)
  then have "length (encode_insn e i) \<le> ?n" using assms(4) by simp
  then have "take ?n (encode_insn e i @ rest) = encode_insn e i @ take (?n - length (encode_insn e i)) rest"
    by simp
  then show "instruction_length disasm (encode_insn e i @ rest) = length (encode_insn e i)"
    using assms(1,2) by (simp add: instruction_length_def decodes_def del: take_append)
  show "\<not> junk_insn (length (encode_insn e i))" using assms(3,4) by (simp add: junk_insn_def)
qed

text \<open>The plan while it grows: its last row is the one that the inspection has got to, unless the function
  is over.\<close>

definition plan_follows :: "nat \<Rightarrow> nat \<Rightarrow> inspection \<Rightarrow> bool" where
  "plan_follows len offset st \<longleftrightarrow>
     (let rs = up_row_list (in_plan st)
      in rs \<noteq> [] \<and> rows_sorted rs \<and> row_offset (last rs) \<le> offset \<and>
         (offset < len \<longrightarrow> row_cfa_value (last rs) = row_cfa_value (in_row st) \<and>
            row_locations (last rs) = row_locations (in_row st)))"

lemma plan_follows_row:
  assumes "inspection_follows e st t" "plan_follows len offset st" "offset < len"
  shows "row_describes e (last (up_row_list (in_plan st))) (fs_frame t)"
  using assms
  by (simp add: inspection_follows_def tracks_def row_describes_def plan_follows_def Let_def row_ok_def rule_of_def GetRegisterInfo_def)

lemma row_at_last: "rs \<noteq> [] \<Longrightarrow> row_offset (last rs) \<le> off \<Longrightarrow> row_at rs off = Some (last rs)"
  using row_at_append [of "butlast rs" "[last rs]" off] by (simp add: row_at_single)

lemma rows_sorted_below_last:
  assumes "rows_sorted rs" "r \<in> set rs"
  shows "row_offset r \<le> row_offset (last rs)"
  using assms
proof (induction rs)
  case (Cons q rs)
  then have "rows_sorted rs" "\<forall>r \<in> set rs. row_offset q < row_offset r" by (simp_all add: rows_sorted_def)
  then show ?case using Cons by (cases "rs = []") (auto intro: less_imp_le)
qed simp

text \<open>One instruction: the rows that are added, at most one, come behind it.\<close>

lemma record_row_follows:
  assumes "plan_follows len offset st" "in_plan st' = in_plan st" "\<not> c \<longrightarrow> in_row st' = in_row st" "0 < n" "offset < len"
  shows "plan_follows len (offset + n) (record_row (offset + n) len b c st')"
    "\<exists>more. up_row_list (in_plan (record_row (offset + n) len b c st')) = up_row_list (in_plan st) @ more \<and>
       (\<forall>r \<in> set more. offset < row_offset r)"
proof -
  have rs: "up_row_list (in_plan st) \<noteq> []" "rows_sorted (up_row_list (in_plan st))"
    "row_offset (last (up_row_list (in_plan st))) \<le> offset"
    "row_cfa_value (last (up_row_list (in_plan st))) = row_cfa_value (in_row st)"
    "row_locations (last (up_row_list (in_plan st))) = row_locations (in_row st)"
    using assms(1,5) by (simp_all add: plan_follows_def Let_def)
  have "up_row_list (AppendRow (r\<lparr>row_offset := offset + n\<rparr>) (in_plan st)) =
      up_row_list (in_plan st) @ [r\<lparr>row_offset := offset + n\<rparr>]" for r
    using rs(3) assms(4) by (auto simp: AppendRow_def Let_def)
  note app = this
  have "rows_sorted (up_row_list (in_plan st) @ [r\<lparr>row_offset := offset + n\<rparr>])" for r
    using rs(2,3) assms(4) rows_sorted_below_last [OF rs(2)]
    by (fastforce simp: rows_sorted_def sorted_wrt_append)
  then show "plan_follows len (offset + n) (record_row (offset + n) len b c st')"
    "\<exists>more. up_row_list (in_plan (record_row (offset + n) len b c st')) = up_row_list (in_plan st) @ more \<and>
       (\<forall>r \<in> set more. offset < row_offset r)"
    using rs assms(2-5) by (auto simp: plan_follows_def Let_def record_row_plan record_row_row app)
qed

lemma inspect_loop_follows:
  assumes "engine_ok e" "decodes e disasm code" "frames_run e code t = Some t'" "inspection_follows e st t"
    and "plan_follows (length data) offset st" "drop offset data = assemble e code" "length data < 2 ^ 32"
  shows "\<exists>st'. inspect_loop e disasm data offset st = Some st' \<and> rows_sorted (up_row_list (in_plan st')) \<and>
    (\<exists>more. up_row_list (in_plan st') = up_row_list (in_plan st) @ more \<and> (\<forall>r \<in> set more. offset < row_offset r)) \<and>
    (\<forall>k < length code. \<exists>row t1. row_at (up_row_list (in_plan st')) (offset + insn_offset e code k) = Some row \<and>
       frames_run e (take k code) t = Some t1 \<and> row_describes e row (fs_frame t1))"
  using assms(2-6)
proof (induction code arbitrary: offset st t)
  case Nil
  then have "\<not> offset < length data" by simp
  then show ?case
    using Nil.prems(4) by (simp add: inspect_loop.simps [of e disasm data offset] plan_follows_def Let_def)
next
  case (Cons i code)
  obtain t1 where t1: "frames_after e i t = Some t1" "frames_run e code t1 = Some t'"
    using Cons.prems(2) by (auto split: option.splits)
  let ?n = "length (encode_insn e i)"
  note len = insn_length [OF t1(1)]
  have data: "drop offset data = encode_insn e i @ assemble e code" using Cons.prems(5) by simp
  then have eq: "length (encode_insn e i @ assemble e code) = length data - offset" by (metis length_drop)
  have "0 < length data - offset" unfolding eq [symmetric] length_append using len(1) by (rule trans_less_add1)
  moreover have "length data - offset < 2 ^ 32" using assms(7) by (rule le_less_trans [OF diff_le_self])
  ultimately have total: "offset < length data" "length (encode_insn e i @ assemble e code) < 2 ^ 32"
    unfolding eq by simp_all
  note il = instruction_length_insn [OF Cons.prems(1) _ len total(2)]
  obtain st1 b c where st1: "\<forall>rest. inspect_insn e (encode_insn e i @ rest) st = Some (st1, b, c)"
    "inspection_follows e (record_row (offset + ?n) (length data) b c st1) t1" "in_plan st1 = in_plan st"
    "\<not> c \<longrightarrow> in_row st1 = in_row st"
    using insn_follows [OF assms(1) Cons.prems(3) t1(1)] by blast
  define st2 where "st2 = record_row (offset + ?n) (length data) b c st1"
  have st2: "inspection_follows e st2 t1" using st1(2) by (simp add: st2_def)
  note rec = record_row_follows [OF Cons.prems(4) st1(3,4) len(1) total(1), of b, folded st2_def]
  obtain m1 where m1: "up_row_list (in_plan st2) = up_row_list (in_plan st) @ m1" "\<forall>r \<in> set m1. offset < row_offset r"
    using rec(2) by blast
  have "drop (offset + ?n) data = drop ?n (drop offset data)" by (simp add: add.commute)
  then have "drop (offset + ?n) data = assemble e code" by (simp add: data)
  from Cons.IH [OF _ t1(2) st2 rec(1) this]
  obtain st' m2 where st': "inspect_loop e disasm data (offset + ?n) st2 = Some st'" "rows_sorted (up_row_list (in_plan st'))"
    "up_row_list (in_plan st') = up_row_list (in_plan st2) @ m2" "\<forall>r \<in> set m2. offset + ?n < row_offset r"
    "\<forall>k < length code. \<exists>row t2. row_at (up_row_list (in_plan st')) (offset + ?n + insn_offset e code k) = Some row \<and>
       frames_run e (take k code) t1 = Some t2 \<and> row_describes e row (fs_frame t2)"
    using Cons.prems(1) by (auto simp: decodes_def)
  have "inspect_loop e disasm data offset st = Some st'"
    using total(1) il st1(1) st'(1) by (simp add: inspect_loop.simps [of e disasm data offset] data st2_def)
  moreover have rows: "up_row_list (in_plan st') = up_row_list (in_plan st) @ m1 @ m2"
    "\<forall>r \<in> set (m1 @ m2). offset < row_offset r"
    using m1 st'(3,4) by auto
  moreover have "\<exists>row t2. row_at (up_row_list (in_plan st')) (offset + insn_offset e (i # code) k) = Some row \<and>
       frames_run e (take k (i # code)) t = Some t2 \<and> row_describes e row (fs_frame t2)" if "k < length (i # code)" for k
  proof (cases k)
    case 0
    have "row_at (up_row_list (in_plan st')) offset = row_at (up_row_list (in_plan st)) offset"
      unfolding rows(1) using rows(2) by (simp add: row_at_append [of "up_row_list (in_plan st)"] row_at_above)
    also have "\<dots> = Some (last (up_row_list (in_plan st)))"
      using Cons.prems(4) by (intro row_at_last) (simp_all add: plan_follows_def Let_def)
    finally show ?thesis
      using 0 plan_follows_row [OF Cons.prems(3,4) total(1)] by (simp add: insn_offset_def)
  next
    case (Suc j)
    then show ?thesis
      using st'(5) that t1(1) by (auto simp: insn_offset_def add.assoc)
  qed
  ultimately show ?case using st'(2) by blast
qed

end
