(* ===== verification/X86Unwinding.thy ===== *)
theory X86Unwinding
  imports X86Frames
begin

text \<open>
  Unwinding by the plan of an inspected function. The program is a machine with registers and
  memory, \<open>x86_exec\<close> are the states that a function goes through from its first instruction, jumps
  between places with the same frame included. In each of them the plan finds the caller's frame,
  return address and preserved registers.
\<close>

section \<open>The plan of a function\<close>

lemma start_follows:
  assumes "engine_ok e"
  shows "inspection_follows e (start_inspection e r plan) (entry_frames e)"
proof -
  note e = engine_regs [OF assms]
  have w: "xe_wordsize e = 8 \<or> xe_wordsize e = 4" using assms by (auto simp: engine_ok_def word_ok_def)
  have ip: "lldb_reg e q \<noteq> xe_lldb_ip_regnum e" if "nonvolatile_reg_p e q" for q
    using lldb_reg_distinct(2) [OF assms that that] by simp
  have sp: "lldb_reg e q \<noteq> lldb_reg e 4" if "preserved e q" for q
    using lldb_reg_distinct(1) [OF assms _ e(1), of q] that by (simp add: preserved_def)
  have new: "rule_of new_Row q = unspecified_loc" for q
    by (simp add: rule_of_def GetRegisterInfo_def new_Row_def)
  have "row_describes e (first_row e) (entry_frame e)"
    using ip sp e(1,4) ip [OF e(1)] ip [OF e(1), symmetric]
    by (auto simp: row_describes_def first_row_def entry_frame_def rule_of_set new preserved_def)
  then show ?thesis
    using w by (auto simp: inspection_follows_def tracks_def completed_tracks_def start_inspection_def entry_frames_def frame_wf_def
        entry_frame_def bounded_def in_bounds_def saves_describe_def preserved_def nonvolatile_small
        dest: nonvolatile_small)
qed

lemma start_plan:
  assumes "up_row_list plan = []"
  shows "up_row_list (in_plan (start_inspection e r plan)) = [first_row e]"
    "plan_follows len 0 (start_inspection e r plan)"
proof -
  show "up_row_list (in_plan (start_inspection e r plan)) = [first_row e]"
    using assms by (simp add: start_inspection_def AppendRow_def SetPlanValidAddressRange_def Let_def)
  then show "plan_follows len 0 (start_inspection e r plan)"
    by (simp add: plan_follows_def rows_sorted_def start_inspection_def first_row_def new_Row_def)
qed

theorem inspected_plan:
  assumes "engine_ok e" "well_framed e code" "decodes e disasm code" "code \<noteq> []" "length (assemble e code) < 2 ^ 31"
  shows "\<exists>p. GetNonCallSiteUnwindPlanFromAssembly e disasm (Some (assemble e code)) func_range plan = Some (True, p) \<and>
    (\<forall>k < length code. \<exists>row g. GetRowForFunctionOffset p (int (insn_offset e code k)) = Some row \<and>
       frame_at e code k = Some g \<and> row_describes e row g)"
proof -
  obtain t where t: "frames_run e code (entry_frames e) = Some t" using assms(2) by (auto simp: well_framed_def)
  define st where "st = start_inspection e func_range (Clear_plan plan)"
  have st: "inspection_follows e st (entry_frames e)" unfolding st_def by (rule start_follows [OF assms(1)])
  have pf: "plan_follows (length (assemble e code)) 0 st"
    unfolding st_def by (rule start_plan) (simp add: Clear_plan_def)
  have data: "drop 0 (assemble e code) = assemble e code" "length (assemble e code) < 2 ^ 32" using assms(5) by simp_all
  obtain st' where st': "inspect_loop e disasm (assemble e code) 0 st = Some st'" "rows_sorted (up_row_list (in_plan st'))"
    "\<forall>k < length code. \<exists>row t1. row_at (up_row_list (in_plan st')) (insn_offset e code k) = Some row \<and>
       frames_run e (take k code) (entry_frames e) = Some t1 \<and> row_describes e row (fs_frame t1)"
    using inspect_loop_follows [OF assms(1,3) t st pf data] by auto
  define p where "p = (in_plan st')\<lparr>up_source_name := ''assembly insn profiling'',
      up_sourced_from_compiler := eLazyBoolNo, up_valid_at_all_instructions := eLazyBoolYes\<rparr>"
  obtain i code' where "code = i # code'" using assms(4) by (cases code) auto
  moreover obtain t1 where "frames_after e i (entry_frames e) = Some t1"
    using t calculation by (auto split: option.splits)
  ultimately have "assemble e code \<noteq> []" using insn_length(1) [of e i "entry_frames e" t1] by auto
  moreover have "xe_register_map_initialized e" using assms(1) by (simp add: engine_ok_def)
  ultimately have "GetNonCallSiteUnwindPlanFromAssembly e disasm (Some (assemble e code)) func_range plan = Some (True, p)"
    using st'(1) by (simp add: GetNonCallSiteUnwindPlanFromAssembly_def Let_def st_def p_def)
  moreover have "GetRowForFunctionOffset p (int (insn_offset e code k)) = row_at (up_row_list (in_plan st')) (insn_offset e code k)" for k
  proof -
    have "assemble e code = assemble e (take k code) @ assemble e (drop k code)"
      by (simp flip: assemble_simps(3))
    then have "insn_offset e code k \<le> length (assemble e code)" by (simp add: insn_offset_def)
    then have "insn_offset e code k < 2 ^ 31" using assms(5) by (rule le_less_trans)
    then show ?thesis using GetRowForFunctionOffset_eq [of p] st'(2) by (simp add: p_def)
  qed
  ultimately show ?thesis using st'(3) by (fastforce simp: frame_at_def)
qed

section \<open>The machine\<close>

record x86_state =
  xs_reg :: "nat \<Rightarrow> int"
  xs_mem :: "int \<Rightarrow> u8"

definition load :: "x86_engine \<Rightarrow> (int \<Rightarrow> u8) \<Rightarrow> int \<Rightarrow> int" where
  "load e m a = int (le_nat (map (\<lambda>j. m (a + int j)) [0 ..< nat (xe_wordsize e)]))"

definition store_word :: "x86_engine \<Rightarrow> int \<Rightarrow> int \<Rightarrow> (int \<Rightarrow> u8) \<Rightarrow> int \<Rightarrow> u8" where
  "store_word e a v m =
     (\<lambda>x. if a \<le> x \<and> x < a + xe_wordsize e then nat_le_bytes (nat (xe_wordsize e)) (nat v) ! nat (x - a) else m x)"

definition word_value :: "x86_engine \<Rightarrow> int \<Rightarrow> bool" where
  "word_value e v \<longleftrightarrow> 0 \<le> v \<and> v < 256 ^ nat (xe_wordsize e)"

definition push_word :: "x86_engine \<Rightarrow> int \<Rightarrow> x86_state \<Rightarrow> x86_state" where
  "push_word e v s =
     (let sp = xs_reg s 4 - xe_wordsize e
      in s\<lparr>xs_reg := (xs_reg s)(4 := sp), xs_mem := store_word e sp v (xs_mem s)\<rparr>)"

text \<open>The effect of an instruction; of one that is not recognized, anything.\<close>

fun x86_step :: "x86_engine \<Rightarrow> x86_insn \<Rightarrow> x86_state \<Rightarrow> x86_state \<Rightarrow> bool" where
  "x86_step e (Push r) s s' \<longleftrightarrow> s' = push_word e (xs_reg s r) s"
| "x86_step e (PushImm n) s s' \<longleftrightarrow> s' = push_word e (n mod 256 ^ nat (xe_wordsize e)) s"
| "x86_step e CallNext s s' \<longleftrightarrow> (\<exists>v. s' = push_word e v s)"
| "x86_step e MovSpBp s s' \<longleftrightarrow> s' = s\<lparr>xs_reg := (xs_reg s)(5 := xs_reg s 4)\<rparr>"
| "x86_step e (SubSp n) s s' \<longleftrightarrow> s' = s\<lparr>xs_reg := (xs_reg s)(4 := xs_reg s 4 - n)\<rparr>"
| "x86_step e (AddSp n) s s' \<longleftrightarrow> s' = s\<lparr>xs_reg := (xs_reg s)(4 := xs_reg s 4 + n)\<rparr>"
| "x86_step e (LeaSp n) s s' \<longleftrightarrow> s' = s\<lparr>xs_reg := (xs_reg s)(4 := xs_reg s 4 + n)\<rparr>"
| "x86_step e (LeaBpSp n) s s' \<longleftrightarrow> s' = s\<lparr>xs_reg := (xs_reg s)(4 := xs_reg s 5 + n)\<rparr>"
| "x86_step e (Pop r) s s' \<longleftrightarrow>
     s' = s\<lparr>xs_reg := (xs_reg s)(4 := xs_reg s 4 + xe_wordsize e, r := load e (xs_mem s) (xs_reg s 4))\<rparr>"
| "x86_step e Leave s s' \<longleftrightarrow>
     s' = s\<lparr>xs_reg := (xs_reg s)(4 := xs_reg s 5 + xe_wordsize e, 5 := load e (xs_mem s) (xs_reg s 5))\<rparr>"
| "x86_step e (Save r n) s s' \<longleftrightarrow> s' = s\<lparr>xs_mem := store_word e (xs_reg s 5 - n) (xs_reg s r) (xs_mem s)\<rparr>"
| "x86_step e Ret s s' \<longleftrightarrow> False"
| "x86_step e (Plain bs) s s' \<longleftrightarrow> True"

text \<open>What a compiler keeps to: the return address and the registers of the caller that were saved are
  not overwritten in memory; an instruction that is not recognized leaves alone the stack
  pointer, the frame pointer when it is in use, and the preserved registers that were not saved.\<close>

definition same_word :: "x86_engine \<Rightarrow> int \<Rightarrow> x86_state \<Rightarrow> x86_state \<Rightarrow> bool" where
  "same_word e a s s' \<longleftrightarrow> (\<forall>x. a \<le> x \<and> x < a + xe_wordsize e \<longrightarrow> xs_mem s' x = xs_mem s x)"

definition is_plain :: "x86_insn \<Rightarrow> bool" where
  "is_plain i \<longleftrightarrow> (\<exists>bs. i = Plain bs)"

definition convention :: "x86_engine \<Rightarrow> int \<Rightarrow> x86_insn \<Rightarrow> frame \<Rightarrow> x86_state \<Rightarrow> x86_state \<Rightarrow> bool" where
  "convention e cfa i g s s' \<longleftrightarrow>
     same_word e (cfa - xe_wordsize e) s s' \<and> (\<forall>r n. fr_saved g r = Some n \<longrightarrow> same_word e (cfa - n) s s') \<and>
     (is_plain i \<longrightarrow> xs_reg s' 4 = xs_reg s 4 \<and> (fr_base g \<noteq> None \<longrightarrow> xs_reg s' 5 = xs_reg s 5) \<and>
        (\<forall>r. preserved e r \<and> fr_saved g r = None \<longrightarrow> xs_reg s' r = xs_reg s r))"

text \<open>The executions of a function that was called with some stack pointer below the CFA, a return address
  there, and the caller's registers.\<close>

inductive x86_exec :: "x86_engine \<Rightarrow> x86_insn list \<Rightarrow> int \<Rightarrow> int \<Rightarrow> (nat \<Rightarrow> int) \<Rightarrow> nat \<Rightarrow> x86_state \<Rightarrow> bool"
  for e code cfa return_address caller where
  called: "xs_reg s 4 = cfa - xe_wordsize e \<Longrightarrow> load e (xs_mem s) (cfa - xe_wordsize e) = return_address \<Longrightarrow>
    \<forall>r. preserved e r \<longrightarrow> xs_reg s r = caller r \<and> word_value e (caller r) \<Longrightarrow>
    x86_exec e code cfa return_address caller 0 s"
| step: "x86_exec e code cfa return_address caller k s \<Longrightarrow> k < length code \<Longrightarrow> frame_at e code k = Some g \<Longrightarrow>
    x86_step e (code ! k) s s' \<Longrightarrow> convention e cfa (code ! k) g s s' \<Longrightarrow>
    x86_exec e code cfa return_address caller (Suc k) s'"
| jump: "x86_exec e code cfa return_address caller k s \<Longrightarrow> k < length code \<Longrightarrow> frame_at e code k = Some g \<Longrightarrow>
    is_plain (code ! k) \<Longrightarrow> convention e cfa (code ! k) g s s' \<Longrightarrow>
    j < length code \<Longrightarrow> frame_at e code j = Some g \<Longrightarrow>
    x86_exec e code cfa return_address caller j s'"

lemma load_store [simp]:
  assumes "word_value e v"
  shows "load e (store_word e a v m) a = v"
proof -
  let ?w = "nat (xe_wordsize e)"
  have "map (\<lambda>j. store_word e a v m (a + int j)) [0 ..< ?w] = nat_le_bytes ?w (nat v)"
    by (rule nth_equalityI) (auto simp: store_word_def zless_nat_eq_int_zless)
  moreover have "nat v < 256 ^ ?w" using assms by (simp add: word_value_def nat_less_iff)
  ultimately show ?thesis using assms by (simp add: load_def le_nat_le_bytes word_value_def)
qed

lemma load_same_word: "same_word e a s s' \<Longrightarrow> load e (xs_mem s') a = load e (xs_mem s) a"
  unfolding load_def same_word_def by (intro arg_cong [where f = "\<lambda>bs. int (le_nat bs)"] map_cong) auto

section \<open>Frames and machine states\<close>

definition matches_frame :: "x86_engine \<Rightarrow> int \<Rightarrow> int \<Rightarrow> (nat \<Rightarrow> int) \<Rightarrow> frame \<Rightarrow> x86_state \<Rightarrow> bool" where
  "matches_frame e cfa return_address caller g s \<longleftrightarrow>
     xs_reg s 4 = cfa - fr_depth g \<and> (\<forall>b. fr_base g = Some b \<longrightarrow> xs_reg s 5 = cfa - b) \<and>
     load e (xs_mem s) (cfa - xe_wordsize e) = return_address \<and>
     (\<forall>r. preserved e r \<longrightarrow> word_value e (caller r) \<and>
        (case fr_saved g r of
           None \<Rightarrow> xs_reg s r = caller r
         | Some n \<Rightarrow> load e (xs_mem s) (cfa - n) = caller r))"


lemma matches_saved:
  assumes "matches_frame e cfa ra caller g s" "preserved e r"
  shows "fr_saved g r = None \<Longrightarrow> xs_reg s r = caller r"
    "fr_saved g r = Some n \<Longrightarrow> load e (xs_mem s) (cfa - n) = caller r" "word_value e (caller r)"
  using assms by (auto simp: matches_frame_def split: option.splits)

text \<open>What the convention leaves of the saved words and the return address.\<close>

lemma convention_loads:
  assumes "convention e cfa i g s s'"
  shows "fr_saved g r = Some n \<Longrightarrow> load e (xs_mem s') (cfa - n) = load e (xs_mem s) (cfa - n)"
    "load e (xs_mem s') (cfa - xe_wordsize e) = load e (xs_mem s) (cfa - xe_wordsize e)"
  using assms load_same_word unfolding convention_def by blast+

text \<open>A step after which the registers that are not saved have not changed, nor the pointers, except as
  said.\<close>

lemma matches_after:
  assumes "matches_frame e cfa ra caller g s" "convention e cfa i g s s'"
    and "xs_reg s' 4 = cfa - fr_depth g'" "\<And>b. fr_base g' = Some b \<Longrightarrow> xs_reg s' 5 = cfa - b"
    and "\<And>r. preserved e r \<Longrightarrow>
      fr_saved g' r = fr_saved g r \<and> (fr_saved g r = None \<longrightarrow> xs_reg s' r = xs_reg s r) \<or>
      fr_saved g' r = None \<and> xs_reg s' r = caller r \<or>
      (\<exists>n. fr_saved g' r = Some n \<and> load e (xs_mem s') (cfa - n) = caller r)"
  shows "matches_frame e cfa ra caller g' s'"
proof -
  have "word_value e (caller r) \<and>
      (case fr_saved g' r of None \<Rightarrow> xs_reg s' r = caller r | Some n \<Rightarrow> load e (xs_mem s') (cfa - n) = caller r)"
    if r: "preserved e r" for r
    using assms(5) [OF r] matches_saved [OF assms(1) r] convention_loads(1) [OF assms(2), of r]
    by (cases "fr_saved g r") auto
  then show ?thesis
    using assms(1,3,4) convention_loads(2) [OF assms(2)] by (simp add: matches_frame_def)
qed

lemma push_word_fields [simp]:
  "xs_reg (push_word e v s) = (xs_reg s)(4 := xs_reg s 4 - xe_wordsize e)"
  "xs_mem (push_word e v s) = store_word e (xs_reg s 4 - xe_wordsize e) v (xs_mem s)"
  by (simp_all add: push_word_def Let_def)

lemma push_word_matches:
  assumes "matches_frame e cfa ra caller g s" "convention e cfa i g s (push_word e v s)"
  shows "matches_frame e cfa ra caller (deeper (xe_wordsize e) g) (push_word e v s)"
  using assms(1)
  by (intro matches_after [OF assms]) (auto simp: matches_frame_def deeper_def preserved_def)

lemma step_matches:
  assumes "engine_ok e" "matches_frame e cfa ra caller g s" "frame_after e i g = Some g'" "frame_wf g"
    and "x86_step e i s s'" "convention e cfa i g s s'"
  shows "matches_frame e cfa ra caller g' s'"
proof -
  have sp: "xs_reg s 4 = cfa - fr_depth g" and bp: "\<And>b. fr_base g = Some b \<Longrightarrow> xs_reg s 5 = cfa - b"
    using assms(2) by (simp_all add: matches_frame_def)
  have p5: "preserved e 5" and p4: "\<not> preserved e 4" using engine_regs(3) [OF assms(1)] by (simp_all add: preserved_def)
  note saved = matches_saved [OF assms(2)]
  note after = matches_after [OF assms(2,6)]
  have w: "\<And>r. preserved e r \<Longrightarrow> word_value e (caller r)" using assms(2) by (simp add: matches_frame_def)
  show ?thesis
  proof (cases i)
    case (Push r)
    let ?g = "deeper (xe_wordsize e) g"
    have s': "s' = push_word e (xs_reg s r) s" using assms(5) Push by simp
    have m: "matches_frame e cfa ra caller ?g s'"
      using push_word_matches [OF assms(2)] assms(6) by (simp add: s')
    show ?thesis
    proof (cases "preserved e r \<and> fr_saved g r = None")
      case True
      then have g': "g' = ?g\<lparr>fr_saved := (fr_saved g)(r \<mapsto> fr_depth ?g)\<rparr>" using assms(3) Push by (simp add: Let_def)
      have "xs_reg s r = caller r" "word_value e (caller r)" using saved(1,3) [of r] True by simp_all
      then have "load e (xs_mem s') (cfa - fr_depth ?g) = caller r"
        by (simp add: s' sp deeper_def algebra_simps)
      then show ?thesis using m by (simp add: g' matches_frame_def deeper_def)
    next
      case False
      then have "g' = ?g" using assms(3) Push by (auto simp: Let_def)
      then show ?thesis using m by simp
    qed
  next
    case (PushImm n)
    then show ?thesis using push_word_matches [OF assms(2)] assms(3,5,6) by auto
  next
    case CallNext
    then show ?thesis using push_word_matches [OF assms(2)] assms(3,5,6) by auto
  next
    case MovSpBp
    then have "fr_saved g 5 \<noteq> None" "g' = g\<lparr>fr_base := Some (fr_depth g)\<rparr>" using assms(3) by auto
    then show ?thesis using MovSpBp assms(5) sp p4 by (intro after) auto
  next
    case (SubSp n)
    then show ?thesis using assms(3,5) sp bp p4 by (intro after) (auto simp: deeper_def)
  next
    case (AddSp n)
    then show ?thesis using assms(3,5) sp bp p4 by (intro after) (auto simp: deeper_def)
  next
    case (LeaSp n)
    then show ?thesis using assms(3,5) sp bp p4 by (intro after) (auto simp: deeper_def)
  next
    case (LeaBpSp n)
    then obtain b where "fr_base g = Some b" "g' = g\<lparr>fr_depth := b - n\<rparr>" using assms(3) by (auto split: option.splits)
    then show ?thesis using LeaBpSp assms(5) bp p4 by (intro after) auto
  next
    case (Pop r)
    show ?thesis
    proof (cases "preserved e r")
      case True
      then have g': "fr_saved g r = Some (fr_depth g)" "r \<noteq> 4"
        "g' = (deeper (- xe_wordsize e) g)\<lparr>fr_saved := (fr_saved g)(r := None), fr_base := (if r = 5 then None else fr_base g)\<rparr>"
        using assms(3) Pop by (auto simp: Let_def usable_reg_def)
      have "load e (xs_mem s) (xs_reg s 4) = caller r" using saved(2) [OF True g'(1)] by (simp add: sp)
      then show ?thesis using Pop assms(5) sp bp p4 g' by (intro after) (auto simp: deeper_def split: if_splits)
    next
      case False
      then have "g' = deeper (- xe_wordsize e) g" "r \<noteq> 4" "r \<noteq> 5"
        using assms(3) Pop p5 by (auto simp: Let_def usable_reg_def)
      then show ?thesis using Pop assms(5) sp bp p4 False by (intro after) (auto simp: deeper_def)
    qed
  next
    case Leave
    then obtain b where b: "fr_base g = Some b" "fr_saved g 5 = Some b"
      "g' = g\<lparr>fr_depth := b - xe_wordsize e, fr_base := None, fr_saved := (fr_saved g)(5 := None)\<rparr>"
      using assms(3) by (auto split: option.splits)
    have "load e (xs_mem s) (cfa - b) = caller 5" using saved(2) [OF p5 b(2)] .
    then show ?thesis using Leave assms(5) bp [OF b(1)] p4 b by (intro after) auto
  next
    case (Save r n)
    then obtain b where b: "fr_base g = Some b"
      "g' = (if preserved e r \<and> fr_saved g r = None then g\<lparr>fr_saved := (fr_saved g)(r \<mapsto> b + n)\<rparr> else g)"
      using assms(3) by (auto split: option.splits)
    have s': "s' = s\<lparr>xs_mem := store_word e (xs_reg s 5 - n) (xs_reg s r) (xs_mem s)\<rparr>" using assms(5) Save by simp
    have "load e (xs_mem s') (cfa - (b + n)) = caller r" if "preserved e r" "fr_saved g r = None"
      using saved(1,3) that by (simp add: s' bp [OF b(1)] algebra_simps)
    then show ?thesis using sp bp b by (intro after) (auto simp: s' split: if_splits)
  next
    case (Plain bs)
    then have "g' = g" using assms(3) by simp
    then show ?thesis
      using assms(6) Plain sp bp by (intro after) (auto simp: convention_def is_plain_def)
  qed (use assms(5) in simp)
qed


section \<open>Unwinding\<close>

lemma frames_run_snoc: "frames_run e (is @ [i]) t = Option.bind (frames_run e is t) (frames_after e i)"
  by (induction "is" arbitrary: t) (auto split: option.split)

lemma frames_run_follows:
  assumes "engine_ok e" "inspection_follows e st t" "frames_run e code t = Some t'"
  shows "\<exists>st'. inspection_follows e st' t'"
  using assms(2,3)
proof (induction code arbitrary: st t)
  case (Cons i code)
  then obtain t1 where t1: "frames_after e i t = Some t1" "frames_run e code t1 = Some t'" by (auto split: option.splits)
  then show ?case using insn_follows [OF assms(1) Cons.prems(1) t1(1)] Cons.IH by blast
qed auto

lemma frame_at_Suc:
  assumes "well_framed e code" "k < length code" "frame_at e code k = Some g" "code ! k \<noteq> Ret"
  shows "frame_after e (code ! k) g = frame_at e code (Suc k)" "frame_at e code (Suc k) \<noteq> None"
proof -
  obtain t where t: "frames_run e (take k code) (entry_frames e) = Some t" "fs_frame t = g"
    using assms(3) by (auto simp: frame_at_def)
  have run: "frames_run e (take (Suc k) code) (entry_frames e) = frames_after e (code ! k) t"
    using t(1) assms(2) by (simp add: take_Suc_conv_app_nth frames_run_snoc)
  have "frames_run e (js @ is) u \<noteq> None \<Longrightarrow> frames_run e js u \<noteq> None" for js "is" u
    by (induction js arbitrary: u) (auto split: option.splits)
  then have "frames_run e (take (Suc k) code) (entry_frames e) \<noteq> None"
    using assms(1) unfolding well_framed_def by (metis append_take_drop_id)
  then show "frame_after e (code ! k) g = frame_at e code (Suc k)" "frame_at e code (Suc k) \<noteq> None"
    using run t(2) assms(4) by (auto simp: frame_at_def frames_after_def split: option.splits if_splits)
qed

lemma frame_at_wf:
  assumes "engine_ok e" "frame_at e code k = Some g"
  shows "frame_wf g"
proof -
  obtain t where t: "frames_run e (take k code) (entry_frames e) = Some t" "fs_frame t = g"
    using assms(2) by (auto simp: frame_at_def)
  obtain st where "inspection_follows e st t"
    using frames_run_follows [OF assms(1) start_follows [OF assms(1)] t(1)] by blast
  then show ?thesis using t(2) by (simp add: inspection_follows_def tracks_def)
qed

lemma exec_matches:
  assumes "engine_ok e" "well_framed e code" "x86_exec e code cfa ra caller k s"
  shows "\<exists>g. frame_at e code k = Some g \<and> matches_frame e cfa ra caller g s"
  using assms(3)
proof (induction rule: x86_exec.induct)
  case (called s)
  then show ?case
    by (simp add: frame_at_def entry_frames_def entry_frame_def matches_frame_def)
next
  case (step k s g s')
  then have g: "matches_frame e cfa ra caller g s" by simp
  have "code ! k \<noteq> Ret" using step.hyps(4) by auto
  then obtain g' where g': "frame_at e code (Suc k) = Some g'" "frame_after e (code ! k) g = Some g'"
    using frame_at_Suc [OF assms(2) step.hyps(2,3)] by auto
  then show ?case
    using step_matches [OF assms(1) g g'(2) frame_at_wf [OF assms(1) step.hyps(3)] step.hyps(4,5)] by blast
next
  case (jump k s g s' j)
  then have g: "matches_frame e cfa ra caller g s" by simp
  have "matches_frame e cfa ra caller g s'"
    using jump.hyps(4,5) g by (intro matches_after [OF g jump.hyps(5)]) (auto simp: convention_def matches_frame_def)
  then show ?case using jump.hyps(7) by blast
qed

text \<open>What a row finds in a state of the machine: the CFA, and by the CFA a register of the caller, given
  by its number in the row and in the machine.\<close>

definition machine_reg :: "x86_engine \<Rightarrow> nat \<Rightarrow> nat option" where
  "machine_reg e n = List.find (\<lambda>r. machine_regno_to_lldb_regno e r = Some n) [0 ..< 16]"

definition frame_address :: "x86_engine \<Rightarrow> row \<Rightarrow> x86_state \<Rightarrow> int option" where
  "frame_address e row s =
     (case row_cfa_value row of
        isRegisterPlusOffset n offset \<Rightarrow> map_option (\<lambda>r. xs_reg s r + offset) (machine_reg e n)
      | _ \<Rightarrow> None)"

definition recovered :: "x86_engine \<Rightarrow> row \<Rightarrow> x86_state \<Rightarrow> int \<Rightarrow> nat \<Rightarrow> nat \<Rightarrow> int option" where
  "recovered e row s cfa n r =
     (case rule_of row n of
        unspecified_loc \<Rightarrow> Some (xs_reg s r)
      | atCFAPlusOffset offset \<Rightarrow> Some (load e (xs_mem s) (cfa + offset))
      | isCFAPlusOffset offset \<Rightarrow> Some (cfa + offset)
      | _ \<Rightarrow> None)"

lemma machine_reg_lldb:
  assumes "engine_ok e" "nonvolatile_reg_p e r"
  shows "machine_reg e (lldb_reg e r) = Some r"
proof -
  have some: "machine_regno_to_lldb_regno e r = Some (lldb_reg e r)"
    using assms by (auto simp: engine_ok_def lldb_reg_def)
  have "q = r" if "machine_regno_to_lldb_regno e q = Some (lldb_reg e r)" for q
    using assms(1) that some unfolding engine_ok_def by blast
  moreover have "List.find (\<lambda>r. machine_regno_to_lldb_regno e r = Some (lldb_reg e r0)) [0 ..< 16] \<noteq> None" if "r0 = r" for r0
    using some nonvolatile_small [OF assms(2)] that by (auto simp: find_None_iff)
  ultimately show ?thesis
    unfolding machine_reg_def by (cases "List.find (\<lambda>q. machine_regno_to_lldb_regno e q = Some (lldb_reg e r)) [0 ..< 16]")
      (auto simp: find_Some_iff)
qed

text \<open>C2: In a function whose instructions keep a frame as compilers do, prologues, epilogues and returns
  in its middle included, the plan that is made from the bytes alone finds, before every
  instruction of every execution, the CFA, the caller's stack pointer, the return address and
  the values that all preserved registers had in the caller.\<close>

theorem inspection_unwinds:
  assumes "engine_ok e" "well_framed e code" "decodes e disasm code" "length (assemble e code) < 2 ^ 31"
    and "x86_exec e code cfa return_address caller k s" "k < length code"
  shows "\<exists>p row. GetNonCallSiteUnwindPlanFromAssembly e disasm (Some (assemble e code)) func_range plan = Some (True, p) \<and>
    GetRowForFunctionOffset p (int (insn_offset e code k)) = Some row \<and>
    frame_address e row s = Some cfa \<and>
    recovered e row s cfa (xe_lldb_sp_regnum e) 4 = Some cfa \<and>
    recovered e row s cfa (xe_lldb_ip_regnum e) (xe_machine_ip_regnum e) = Some return_address \<and>
    (\<forall>r. preserved e r \<longrightarrow> recovered e row s cfa (lldb_reg e r) r = Some (caller r))"
proof -
  have "code \<noteq> []" using assms(6) by auto
  then obtain p row g where p: "GetNonCallSiteUnwindPlanFromAssembly e disasm (Some (assemble e code)) func_range plan = Some (True, p)"
    "GetRowForFunctionOffset p (int (insn_offset e code k)) = Some row"
    "frame_at e code k = Some g" "row_describes e row g"
    using inspected_plan [OF assms(1-3) _ assms(4)] assms(6) by meson
  have m: "matches_frame e cfa return_address caller g s"
    using exec_matches [OF assms(1,2,5)] p(3) by simp
  note e = engine_regs [OF assms(1)]
  have "frame_address e row s = Some cfa"
    using p(4) m machine_reg_lldb [OF assms(1)] e(1,2,4,5)
    by (auto simp: frame_address_def row_describes_def matches_frame_def split: option.split)
  moreover have "recovered e row s cfa (lldb_reg e r) r = Some (caller r)" if "preserved e r" for r
    using p(4) m that by (auto simp: recovered_def row_describes_def matches_frame_def split: option.splits)
  moreover have "recovered e row s cfa (xe_lldb_sp_regnum e) 4 = Some cfa"
    "recovered e row s cfa (xe_lldb_ip_regnum e) (xe_machine_ip_regnum e) = Some return_address"
    using p(4) m by (auto simp: recovered_def row_describes_def matches_frame_def)
  ultimately show ?thesis using p(1,2) by blast
qed

section \<open>Initialization\<close>

definition registers_of :: "triple_arch \<Rightarrow> (nat \<times> string) list" where
  "registers_of arch = (if arch = arch_x86 then i386_registers else x86_64_registers)"

lemma map_of_name_registers:
  "map_sorted m \<Longrightarrow> map_sorted (name_registers names m) \<and>
   map_of (name_registers names m) n =
     (case map_of (rev names) n of
        None \<Rightarrow> map_of m n
      | Some name \<Rightarrow> Some \<lparr>ri_name = name, ri_lldb_regnum = LLDB_INVALID_REGNUM\<rparr>)"
  by (induction names arbitrary: m)
    (auto simp: name_registers_def map_sorted_put map_of_put map_add_def split: option.splits)

lemma map_of_map_snd: "map_of (map (\<lambda>(n, r). (n, f n r)) m) n = map_option (f n) (map_of m n)"
  by (induction m) auto

text \<open>An engine gets usable register numbers from a list that names every register of the processor
  once, with different numbers.\<close>

lemma Initialize_list_ok:
  assumes "arch = arch_x86 \<or> arch = arch_x86_64" "xe_arch e = arch" "xe_reg_map e = []"
    and "distinct (map ri_name regs)" "distinct (map ri_lldb_regnum regs)"
    and "snd ` set (registers_of arch) \<subseteq> ri_name ` set regs"
  shows "engine_ok (Initialize_list regs e)"
proof -
  define num where "num name = map_option ri_lldb_regnum (find (\<lambda>r. ri_name r = name) regs)" for name
  let ?e = "Initialize_list regs e"
  let ?names = "registers_of arch"
  have found: "\<exists>r \<in> set regs. ri_name r = name \<and> num name = Some (ri_lldb_regnum r)" if "name \<in> snd ` set ?names" for name
  proof -
    have "find (\<lambda>r. ri_name r = name) regs \<noteq> None" unfolding find_None_iff using that assms(6) by (metis imageE subsetD)
    then show ?thesis by (auto simp: num_def find_Some_iff) (metis nth_mem)
  qed
  have d: "distinct (map fst ?names)" "distinct (map snd ?names)"
    by (simp_all add: registers_of_def i386_registers_def x86_64_registers_def)
  have regno: "machine_regno_to_lldb_regno ?e r = Option.bind (map_of ?names r) num" for r
  proof -
    have "xe_reg_map ?e = map (\<lambda>(n, r). (n, case num (ri_name r) of Some k \<Rightarrow> r\<lparr>ri_lldb_regnum := k\<rparr> | None \<Rightarrow> r))
        (name_registers ?names [])"
      using assms(1-3)
      by (auto simp: Initialize_list_def reset_machine_def machine_cpu_def set_lldb_regnums_def number_registers_def
          set_machine_def registers_of_def num_def Let_def)
    moreover have "map_of (rev ?names) r = map_of ?names r"
      using d(1) by (metis map_of_inject_set distinct_rev rev_map set_rev)
    ultimately have "map_of (xe_reg_map ?e) r = map_option (\<lambda>name.
        case num name of Some k \<Rightarrow> \<lparr>ri_name = name, ri_lldb_regnum = k\<rparr>
        | None \<Rightarrow> \<lparr>ri_name = name, ri_lldb_regnum = LLDB_INVALID_REGNUM\<rparr>) (map_of ?names r)"
      using map_of_name_registers [of "[]" ?names r]
      by (auto simp: map_of_map_snd split: option.splits)
    note lookup = this
    show ?thesis
    proof (cases "map_of ?names r")
      case None
      then show ?thesis using lookup by (simp add: machine_regno_to_lldb_regno_def)
    next
      case (Some name)
      then have "name \<in> snd ` set ?names" by (force dest: map_of_SomeD)
      then obtain k where "num name = Some k" using found by blast
      then show ?thesis using lookup Some by (simp add: machine_regno_to_lldb_regno_def)
    qed
  qed
  have inj: "r = q" if same: "machine_regno_to_lldb_regno ?e r = Some n" "machine_regno_to_lldb_regno ?e q = Some n" for r q n
  proof -
    obtain a b where a: "map_of ?names r = Some a" "num a = Some n" and b: "map_of ?names q = Some b" "num b = Some n"
      using same unfolding regno bind_eq_Some_conv by blast
    have "(r, a) \<in> set ?names" "(q, b) \<in> set ?names" using a(1) b(1) by (auto dest: map_of_SomeD)
    moreover from this obtain x y where "x \<in> set regs" "ri_name x = a" "ri_lldb_regnum x = n"
      "y \<in> set regs" "ri_name y = b" "ri_lldb_regnum y = n"
      using found [of a] found [of b] a(2) b(2) by force
    then have "a = b" using assms(5) by (metis distinct_map inj_onD)
    ultimately show ?thesis using d(2) by (metis distinct_map inj_onD prod.inject snd_conv)
  qed
  define e0 where "e0 = number_registers num (set_machine (reset_machine e))"
  have cpu: "xe_cpu (reset_machine e) = machine_cpu arch" "machine_cpu arch \<noteq> k_cpu_unspecified"
    using assms(1,2) by (auto simp: reset_machine_def machine_cpu_def)
  have e: "?e = set_lldb_regnums e0"
    using cpu by (simp add: Initialize_list_def Let_def e0_def num_def [abs_def])
  have regno0: "machine_regno_to_lldb_regno e0 = machine_regno_to_lldb_regno ?e"
    unfolding e by (auto simp: fun_eq_iff machine_regno_to_lldb_regno_def set_lldb_regnums_def Let_def)
  have fields: "xe_cpu ?e = machine_cpu arch" "xe_wordsize ?e = (if arch = arch_x86 then 4 else 8)"
    "xe_register_map_initialized ?e" "xe_machine_fp_regnum ?e = 5" "xe_machine_sp_regnum e0 = 4" "xe_machine_fp_regnum e0 = 5"
    "xe_machine_ip_regnum ?e = (if arch = arch_x86 then 8 else 16)" "xe_machine_ip_regnum e0 = xe_machine_ip_regnum ?e"
    using cpu assms(1) unfolding e
    by (auto simp: set_lldb_regnums_def e0_def number_registers_def set_machine_def machine_cpu_def Let_def)
  have some: "machine_regno_to_lldb_regno ?e r \<noteq> None" if "r \<in> fst ` set ?names" for r
  proof -
    obtain name where "map_of ?names r = Some name" using \<open>r \<in> fst ` set ?names\<close> by (metis not_None_eq map_of_eq_None_iff)
    moreover from this have "name \<in> snd ` set ?names" by (force dest: map_of_SomeD)
    then have "num name \<noteq> None" using found by fastforce
    ultimately show ?thesis by (simp add: regno)
  qed
  have nv: "nonvolatile_reg_p ?e r \<Longrightarrow> r \<in> fst ` set ?names" for r
    using fields(1) assms(1)
    by (auto simp: nonvolatile_reg_p_def machine_cpu_def registers_of_def i386_registers_def x86_64_registers_def)
  have ip: "xe_machine_ip_regnum ?e \<in> fst ` set ?names" "4 \<in> fst ` set ?names" "5 \<in> fst ` set ?names"
    "\<not> nonvolatile_reg_p ?e (xe_machine_ip_regnum ?e)"
    using fields(1,7) assms(1)
    by (auto simp: nonvolatile_reg_p_def machine_cpu_def registers_of_def i386_registers_def x86_64_registers_def)
  have raw: "xe_lldb_sp_regnum ?e = (case machine_regno_to_lldb_regno e0 4 of Some n \<Rightarrow> n | None \<Rightarrow> xe_lldb_sp_regnum e0)"
    "xe_lldb_fp_regnum ?e = (case machine_regno_to_lldb_regno e0 5 of Some n \<Rightarrow> n | None \<Rightarrow> xe_lldb_fp_regnum e0)"
    "xe_lldb_ip_regnum ?e = (case machine_regno_to_lldb_regno e0 (xe_machine_ip_regnum ?e) of Some n \<Rightarrow> n | None \<Rightarrow> xe_lldb_ip_regnum e0)"
    unfolding fields(8) [symmetric] unfolding e using fields(5,6) by (simp_all add: set_lldb_regnums_def Let_def)
  obtain n4 n5 nip where n: "machine_regno_to_lldb_regno ?e 4 = Some n4" "machine_regno_to_lldb_regno ?e 5 = Some n5"
    "machine_regno_to_lldb_regno ?e (xe_machine_ip_regnum ?e) = Some nip"
    using some [OF ip(1)] some [OF ip(2)] some [OF ip(3)] by blast
  have lldb: "xe_lldb_sp_regnum ?e = lldb_reg ?e 4" "xe_lldb_fp_regnum ?e = lldb_reg ?e 5"
    "machine_regno_to_lldb_regno ?e (xe_machine_ip_regnum ?e) = Some (xe_lldb_ip_regnum ?e)"
    unfolding raw regno0 lldb_reg_def n by simp_all
  have "word_ok ?e" using fields(1,2) assms(1) by (auto simp: word_ok_def machine_cpu_def)
  moreover have "\<forall>r. nonvolatile_reg_p ?e r \<longrightarrow> machine_regno_to_lldb_regno ?e r \<noteq> None" using some nv by blast
  moreover have "\<forall>r q n. machine_regno_to_lldb_regno ?e r = Some n \<and> machine_regno_to_lldb_regno ?e q = Some n \<longrightarrow> r = q"
    using inj by blast
  ultimately show ?thesis
    unfolding engine_ok_def using fields(3,4) ip(4) lldb by (intro conjI)
qed


section \<open>An example\<close>

text \<open>The register numbers of the unit test of the engine, and the function
  \<open>push %rbp; mov %rsp,%rbp; push %rbx; sub $8,%rsp; nop; add $8,%rsp; pop %rbx; pop %rbp; ret\<close>.\<close>

definition demo_registers :: "lldb_reg_info list" where
  "demo_registers = map (\<lambda>(name, n). \<lparr>ri_name = name, ri_lldb_regnum = n\<rparr>)
     [(''rax'', 0), (''rbx'', 1), (''rcx'', 2), (''rdx'', 3), (''rsp'', 4), (''rbp'', 5), (''rsi'', 6), (''rdi'', 7),
      (''r8'', 8), (''r9'', 9), (''r10'', 10), (''r11'', 11), (''r12'', 12), (''r13'', 13), (''r14'', 14), (''r15'', 15),
      (''rip'', 16)]"

definition demo_engine :: x86_engine where
  "demo_engine = Initialize_list demo_registers (new_x86_engine arch_x86_64)"

lemma demo_engine_ok: "engine_ok demo_engine"
  unfolding demo_engine_def
  by (rule Initialize_list_ok [of arch_x86_64])
    (simp_all add: new_x86_engine_def demo_registers_def registers_of_def x86_64_registers_def)

lemma demo_engine_fields:
  "xe_cpu demo_engine = k_x86_64" "xe_wordsize demo_engine = 8"
  by (simp_all add: demo_engine_def Initialize_list_def reset_machine_def new_x86_engine_def machine_cpu_def
      set_lldb_regnums_def number_registers_def set_machine_def Let_def)

definition demo_code :: "x86_insn list" where
  "demo_code = [Push 5, MovSpBp, Push 3, SubSp 8, Plain [0x90], AddSp 8, Pop 3, Pop 5, Ret]"

definition demo_disasm :: "u8 list \<Rightarrow> nat" where
  "demo_disasm p =
     (if p = [] then 0 else if hd p = 0x48 then (if p ! 1 = 0x89 then 3 else 4) else 1)"

lemma demo_decodes: "decodes demo_engine demo_disasm demo_code"
  by (simp add: decodes_def demo_code_def demo_disasm_def reg_opcode_def rex_w_def immediate_def fits8_def
      demo_engine_fields)

lemma nop_unrecognized: "word_ok e \<Longrightarrow> unrecognized e [0x90]"
  by (elim word_ok_cases; simp add: unrecognized_def pattern_defs other_defs REX_W_PREFIX_P_def split: option.split)

lemma demo_preserved: "preserved demo_engine r \<longleftrightarrow> r \<in> {3, 5, 12, 13, 14, 15}"
  by (auto simp: preserved_def nonvolatile_reg_p_def demo_engine_fields)

lemma demo_framed: "well_framed demo_engine demo_code"
  using nop_unrecognized [OF engine_word_ok [OF demo_engine_ok]]
  by (simp add: well_framed_def demo_code_def frames_after_def entry_frames_def entry_frame_def deeper_def checked_def
      bounded_def in_bounds_def usable_reg_def demo_preserved demo_engine_fields fits32_def)

definition demo_start :: x86_state where
  "demo_start = \<lparr>xs_reg = (\<lambda>_. 0)(4 := 992, 3 := 7), xs_mem = (\<lambda>_. 0)\<rparr>"

text \<open>The state behind the three instructions of the prologue that save registers.\<close>

lemma demo_exec:
  obtains s where "x86_exec demo_engine demo_code 1000 0 ((\<lambda>_. 0)(3 := 7)) 3 s" "xs_reg s 4 = 976" "xs_reg s 5 = 984"
proof -
  let ?caller = "(\<lambda>_. 0)(3 := 7) :: nat \<Rightarrow> int"
  let ?g1 = "\<lparr>fr_depth = 16, fr_base = None, fr_saved = [5 \<mapsto> 16]\<rparr>"
  let ?g2 = "\<lparr>fr_depth = 16, fr_base = Some 16, fr_saved = [5 \<mapsto> 16]\<rparr>"
  note frame_simps = frame_at_def demo_code_def frames_after_def entry_frames_def entry_frame_def deeper_def checked_def
      bounded_def in_bounds_def usable_reg_def demo_preserved demo_engine_fields
  have g: "frame_at demo_engine demo_code 0 = Some (entry_frame demo_engine)"
    "frame_at demo_engine demo_code (Suc 0) = Some ?g1"
    "frame_at demo_engine demo_code (Suc (Suc 0)) = Some ?g2"
    by (simp_all add: frame_simps)
  have code: "demo_code ! 0 = Push 5" "demo_code ! Suc 0 = MovSpBp" "demo_code ! Suc (Suc 0) = Push 3" "length demo_code = 9"
    by (simp_all add: demo_code_def)
  have "load demo_engine (xs_mem demo_start) 992 = 0"
    by (simp add: load_def demo_start_def demo_engine_fields upt_rec)
  then have 0: "x86_exec demo_engine demo_code 1000 0 ?caller 0 demo_start"
    by (intro x86_exec.called) (auto simp: demo_start_def demo_engine_fields word_value_def demo_preserved)
  define s1 where "s1 = push_word demo_engine 0 demo_start"
  have 1: "x86_exec demo_engine demo_code 1000 0 ?caller (Suc 0) s1"
    by (rule x86_exec.step [OF 0 _ g(1)])
      (auto simp: code s1_def demo_start_def convention_def same_word_def entry_frame_def demo_engine_fields store_word_def
        is_plain_def)
  define s2 where "s2 = s1\<lparr>xs_reg := (xs_reg s1)(5 := xs_reg s1 4)\<rparr>"
  have 2: "x86_exec demo_engine demo_code 1000 0 ?caller (Suc (Suc 0)) s2"
    by (rule x86_exec.step [OF 1 _ g(2)])
      (auto simp: code s2_def convention_def same_word_def is_plain_def)
  define s3 where "s3 = push_word demo_engine (xs_reg s2 3) s2"
  have "x86_exec demo_engine demo_code 1000 0 ?caller (Suc (Suc (Suc 0))) s3"
    by (rule x86_exec.step [OF 2 _ g(3)])
      (auto simp: code s3_def s2_def s1_def demo_start_def convention_def same_word_def is_plain_def demo_engine_fields
        store_word_def split: if_splits)
  then show ?thesis
    by (intro that [of s3])
      (simp_all add: numeral_3_eq_3 s3_def s2_def s1_def demo_start_def demo_engine_fields)
qed

lemma inspection_unwinds_witness:
  "\<exists>s p row. xs_reg s 4 = 976 \<and> GetNonCallSiteUnwindPlanFromAssembly demo_engine demo_disasm
      (Some (assemble demo_engine demo_code)) new_AddressRange (new_UnwindPlan eRegisterKindLLDB) = Some (True, p) \<and>
    GetRowForFunctionOffset p (int (insn_offset demo_engine demo_code 3)) = Some row \<and>
    frame_address demo_engine row s = Some 1000 \<and>
    recovered demo_engine row s 1000 (lldb_reg demo_engine 3) 3 = Some 7"
proof -
  obtain s where s: "x86_exec demo_engine demo_code 1000 0 ((\<lambda>_. 0)(3 := 7)) 3 s" "xs_reg s 4 = 976"
    by (rule demo_exec)
  have len: "length (assemble demo_engine demo_code) < 2 ^ 31" "3 < length demo_code"
    by (simp_all add: demo_code_def reg_opcode_def rex_w_def immediate_def fits8_def demo_engine_fields)
  show ?thesis
    using inspection_unwinds [OF demo_engine_ok demo_framed demo_decodes len(1) s(1) len(2)] s(2) demo_preserved
    by fastforce
qed

end
