(* ===== verification/X86Assembly.thy ===== *)
theory X86Assembly
  imports X86Unwinding LineTable
begin

text \<open>
  The plugin around the inspection of x86 functions (\<open>UnwindAssembly_x86\<close>,
  source/Plugins/UnwindAssembly/x86/UnwindAssembly-x86.cpp), with the numbers of registers in
  different schemes (\<open>RegisterNumber\<close>, source/Target/RegisterNumber.cpp, and the lookups of
  \<open>RegisterContext\<close>).

  The thread is a parameter: its process, the memory that the target reads, the registers, the
  conversion to LLDB's numbers and the default plan of the ABI. The engine is a value that is
  handed back, because it is initialized by the calls.
\<close>

unbundle bit_operations_syntax

section \<open>Register numbers\<close>

record register_info =
  rg_name :: string
  rg_alt_name :: string
  rg_kinds :: "register_kind \<Rightarrow> nat"

definition to_lower :: "char \<Rightarrow> char" where
  "to_lower c = (let n = of_char c :: nat in if 65 \<le> n \<and> n \<le> 90 then char_of (n + 32) else c)"

definition equals_lower :: "string \<Rightarrow> string \<Rightarrow> bool" where
  "equals_lower a b \<longleftrightarrow> map to_lower a = map to_lower b"

definition GetRegisterInfoByName :: "register_info list \<Rightarrow> string \<Rightarrow> register_info option" where
  "GetRegisterInfoByName regs reg_name =
     (if reg_name = [] then None
      else find (\<lambda>r. equals_lower reg_name (rg_name r) \<or> equals_lower reg_name (rg_alt_name r)) regs)"

text \<open>The number that a register has in another scheme, if it has one.\<close>

definition ConvertBetweenRegisterKinds ::
  "register_info list \<Rightarrow> register_kind \<Rightarrow> nat \<Rightarrow> register_kind \<Rightarrow> nat option" where
  "ConvertBetweenRegisterKinds regs source_rk source_regnum target_rk =
     (case find (\<lambda>r. rg_kinds r source_rk = source_regnum) regs of
        None \<Rightarrow> None
      | Some r \<Rightarrow> if rg_kinds r target_rk \<noteq> LLDB_INVALID_REGNUM then Some (rg_kinds r target_rk) else None)"

record register_number =
  rn_reg_ctx :: "register_info list option"
  rn_regnum :: nat
  rn_kind :: "register_kind option"

definition IsValid_register_number :: "register_number \<Rightarrow> bool" where
  "IsValid_register_number n \<longleftrightarrow> rn_reg_ctx n \<noteq> None \<and> rn_kind n \<noteq> None \<and> rn_regnum n \<noteq> LLDB_INVALID_REGNUM"

definition GetAsKind :: "register_number \<Rightarrow> register_kind \<Rightarrow> nat" where
  "GetAsKind n kind =
     (if rn_regnum n = LLDB_INVALID_REGNUM then LLDB_INVALID_REGNUM
      else if rn_kind n = Some kind then rn_regnum n
      else case (rn_reg_ctx n, rn_kind n) of
             (Some regs, Some k) \<Rightarrow>
               (case ConvertBetweenRegisterKinds regs k (rn_regnum n) kind of Some m \<Rightarrow> m | None \<Rightarrow> LLDB_INVALID_REGNUM)
           | _ \<Rightarrow> LLDB_INVALID_REGNUM)"

definition RegisterNumber_eq :: "register_number \<Rightarrow> register_number \<Rightarrow> bool" where
  "RegisterNumber_eq lhs rhs =
     (if IsValid_register_number lhs \<noteq> IsValid_register_number rhs then False
      else if rn_kind lhs = rn_kind rhs then rn_regnum lhs = rn_regnum rhs
      else case rn_kind lhs of
             None \<Rightarrow> False
           | Some k \<Rightarrow>
               let rhs_regnum = GetAsKind rhs k
               in if rhs_regnum \<noteq> LLDB_INVALID_REGNUM then rn_regnum lhs = rhs_regnum
                  else case rn_kind rhs of None \<Rightarrow> False | Some j \<Rightarrow> GetAsKind lhs j = rn_regnum rhs)"

section \<open>The plugin\<close>

record x86_thread =
  xt_process :: bool
  xt_address_byte_size :: int
  xt_read_memory :: "address \<Rightarrow> nat \<Rightarrow> u8 list"
  xt_reg_ctx :: "register_info list option"
  xt_to_lldb :: "register_kind \<Rightarrow> nat \<Rightarrow> nat"
  xt_default_plan :: "(unwind_plan \<Rightarrow> bool \<times> unwind_plan) option"

definition thread_register :: "x86_thread \<Rightarrow> register_kind \<Rightarrow> nat \<Rightarrow> register_number" where
  "thread_register th kind num = \<lparr>rn_reg_ctx = xt_reg_ctx th, rn_regnum = num, rn_kind = Some kind\<rparr>"

text \<open>The engine asks a register context for LLDB's numbers by name.\<close>

definition names_of_context :: "register_info list \<Rightarrow> string \<Rightarrow> nat option" where
  "names_of_context regs name = map_option (\<lambda>r. rg_kinds r eRegisterKindLLDB) (GetRegisterInfoByName regs name)"

definition initialized_engine :: "x86_thread \<Rightarrow> x86_engine \<Rightarrow> x86_engine" where
  "initialized_engine th e = Initialize_context (map_option names_of_context (xt_reg_ctx th)) e"

definition GetNonCallSiteUnwindPlan_x86 ::
  "(u8 list \<Rightarrow> nat) \<Rightarrow> address_range \<Rightarrow> x86_thread \<Rightarrow> unwind_plan \<Rightarrow> x86_engine \<Rightarrow> (bool \<times> unwind_plan \<times> x86_engine) option" where
  "GetNonCallSiteUnwindPlan_x86 disasm func th plan e =
     (if \<not> IsValid_address (ar_base_addr func) \<or> ar_byte_size func = 0 then Some (False, plan, e)
      else if \<not> xt_process th then Some (False, plan, e)
      else
        let function_text = xt_read_memory th (ar_base_addr func) (ar_byte_size func)
        in if length function_text = ar_byte_size func
           then let e = initialized_engine th e
                in map_option (\<lambda>(b, p). (b, p, e))
                     (GetNonCallSiteUnwindPlanFromAssembly e disasm (Some function_text) func plan)
           else Some (False, plan, e))"

text \<open>Whether the first row is that of a call, and whether the last row is the same rule.\<close>

definition return_address_loc :: "x86_thread \<Rightarrow> unwind_plan \<Rightarrow> row \<Rightarrow> register_location option" where
  "return_address_loc th plan r = GetRegisterInfo r (GetAsKind (thread_register th eRegisterKindGeneric 0) (up_register_kind plan))"

definition describes_prologue :: "x86_thread \<Rightarrow> unwind_plan \<Rightarrow> row \<Rightarrow> bool" where
  "describes_prologue th plan f =
     (case row_cfa_value f of
        isRegisterPlusOffset reg offset \<Rightarrow>
          RegisterNumber_eq (thread_register th (up_register_kind plan) reg) (thread_register th eRegisterKindGeneric 1) \<and>
          offset = xt_address_byte_size th \<and>
          return_address_loc th plan f = Some (atCFAPlusOffset (- xt_address_byte_size th))
      | _ \<Rightarrow> False)"

definition describes_epilogue :: "x86_thread \<Rightarrow> unwind_plan \<Rightarrow> row \<Rightarrow> row \<Rightarrow> bool" where
  "describes_epilogue th plan f l =
     (row_offset f \<noteq> row_offset l \<and>
      (case (row_cfa_value f, row_cfa_value l) of
         (isRegisterPlusOffset r m, isRegisterPlusOffset q n) \<Rightarrow> r = q \<and> m = n
       | _ \<Rightarrow> False) \<and>
      return_address_loc th plan l = return_address_loc th plan f)"

definition AugmentUnwindPlan_x86 ::
  "(u8 list \<Rightarrow> nat) \<Rightarrow> address_range \<Rightarrow> x86_thread \<Rightarrow> unwind_plan \<Rightarrow> x86_engine \<Rightarrow> (bool \<times> unwind_plan \<times> x86_engine) option" where
  "AugmentUnwindPlan_x86 disasm func th plan e =
     (if \<not> xt_process th then Some (False, plan, e)
      else do {
        f \<leftarrow> GetRowForFunctionOffset plan 0;
        l \<leftarrow> GetRowForFunctionOffset plan (- 1);
        if \<not> describes_prologue th plan f then Some (False, plan, e)
        else if describes_epilogue th plan f l then Some (False, plan, e)
        else if \<not> IsValid_address (ar_base_addr func) \<or> ar_byte_size func = 0 then Some (False, plan, e)
        else
          let function_text = xt_read_memory th (ar_base_addr func) (ar_byte_size func)
          in if length function_text = ar_byte_size func
             then let e = initialized_engine th e
                  in map_option (\<lambda>(b, p). (b, p, e))
                       (AugmentUnwindPlanFromCallSite e disasm function_text func
                          (if xt_reg_ctx th = None then None else Some (xt_to_lldb th)) plan)
             else Some (False, plan, e) })"

definition GetFastUnwindPlan_x86 :: "address_range \<Rightarrow> x86_thread \<Rightarrow> unwind_plan \<Rightarrow> bool \<times> unwind_plan" where
  "GetFastUnwindPlan_x86 func th plan =
     (if xt_process th then
        let opcode_data = xt_read_memory th (ar_base_addr func) 4
        in if length opcode_data = 4 \<and>
              (take 3 opcode_data = [0x55, 0x89, 0xe5] \<or> opcode_data = [0x55, 0x48, 0x89, 0xe5])
           then case xt_default_plan th of Some create \<Rightarrow> create plan | None \<Rightarrow> (False, plan)
           else (False, plan)
      else (False, plan))"

text \<open>The first instruction behind the prologue; the address of the caller is handed in and out. There is
  no target without a reader of its memory.\<close>

definition FirstNonPrologueInsn ::
  "x86_engine \<Rightarrow> (u8 list \<Rightarrow> nat) \<Rightarrow> address_range \<Rightarrow> (address \<Rightarrow> nat \<Rightarrow> u8 list) option \<Rightarrow> address \<Rightarrow> (bool \<times> address) option" where
  "FirstNonPrologueInsn e disasm func target first_non_prologue_insn =
     (if \<not> IsValid_address (ar_base_addr func) then Some (False, first_non_prologue_insn)
      else case target of
        None \<Rightarrow> Some (False, first_non_prologue_insn)
      | Some read_memory \<Rightarrow>
          let function_text = read_memory (ar_base_addr func) (ar_byte_size func)
          in if length function_text = ar_byte_size func then do {
               (b, offset) \<leftarrow> FindFirstNonPrologueInstruction e disasm function_text;
               Some (True, if b then Slide (ar_base_addr func) offset else first_non_prologue_insn) }
             else Some (False, first_non_prologue_insn))"

definition CreateInstance_x86 :: "triple_arch \<Rightarrow> x86_engine option" where
  "CreateInstance_x86 arch = (if arch = arch_x86 \<or> arch = arch_x86_64 then Some (new_x86_engine arch) else None)"


section \<open>The end of a prologue\<close>

definition prologue_insn :: "x86_insn \<Rightarrow> nat \<Rightarrow> bool" where
  "prologue_insn i offset =
     (case i of Push r \<Rightarrow> True | MovSpBp \<Rightarrow> True | SubSp n \<Rightarrow> True | Save r n \<Rightarrow> True | LeaSp n \<Rightarrow> offset = 0 | _ \<Rightarrow> False)"

text \<open>The operands that instructions have, and bytes that are no instruction of a prologue.\<close>

definition operands_ok :: "x86_engine \<Rightarrow> x86_insn \<Rightarrow> bool" where
  "operands_ok e i =
     (case i of
        Push r \<Rightarrow> r < 16 \<and> (xe_wordsize e = 8 \<or> r < 8)
      | Pop r \<Rightarrow> r < 16 \<and> (xe_wordsize e = 8 \<or> r < 8)
      | Save r n \<Rightarrow> r < 16 \<and> (xe_wordsize e = 8 \<or> r < 8) \<and> 0 \<le> n \<and> n < 2 ^ 31
      | SubSp n \<Rightarrow> fits32 n | AddSp n \<Rightarrow> fits32 n | LeaSp n \<Rightarrow> fits32 n | LeaBpSp n \<Rightarrow> fits32 n
      | Plain bs \<Rightarrow> bs \<noteq> [] \<and> length bs \<le> 15 \<and> (\<forall>rest offset. prologue_insn_p e (bs @ rest) offset = Some False)
      | _ \<Rightarrow> True)"

lemma prologue_insn_p_insn:
  assumes "word_ok e" "operands_ok e i"
  shows "prologue_insn_p e (encode_insn e i @ rest) offset = Some (prologue_insn i offset)"
proof (cases i)
  case (Push r)
  then have r: "r < 16" "xe_wordsize e = 8 \<or> r < 8" using assms(2) by (simp_all add: operands_ok_def)
  have "prologue_insn_p e (encode_insn e (Push r) @ rest) offset = Some True"
    using small_reg [OF r(1)] r(2) by (elim disjE; simp add: prologue_insn_p_def pattern_defs reg_opcode_def)
  then show ?thesis using Push by (simp add: prologue_insn_def)
next
  case (Pop r)
  then have r: "r < 16" "xe_wordsize e = 8 \<or> r < 8" using assms(2) by (simp_all add: operands_ok_def)
  have "prologue_insn_p e (encode_insn e (Pop r) @ rest) offset = Some False"
    using small_reg [OF r(1)] r(2)
    by (elim disjE; simp add: prologue_insn_p_def pattern_defs lea_rsp_pattern_p_def reg_opcode_def REX_W_PREFIX_P_def)
  then show ?thesis using Pop by (simp add: prologue_insn_def)
next
  case (Save r n)
  then have r: "r < 16" "xe_wordsize e = 8 \<or> r < 8" "0 \<le> n" "n < 2 ^ 31" using assms(2) by (simp_all add: operands_ok_def)
  let ?p = "encode_insn e (Save r n) @ rest"
  have "push_rbp_pattern_p ?p = Some False \<and> mov_rsp_rbp_pattern_p e ?p = Some False \<and>
    sub_rsp_pattern_p e ?p = Some None \<and> push_reg_p e ?p = Some None"
  proof (rule save_bytes [OF assms(1) r(1), of n])
    fix q m bs assume bytes: "encode_insn e (Save r n) = [q, 0x89, m] @ bs" "q = 0x48 \<or> q = 0x4c" "m \<noteq> 0xe5" "xe_wordsize e = 8"
    show ?thesis unfolding bytes(1) using bytes(2-4) by (elim disjE; simp add: pattern_defs)
  next
    fix m bs assume bytes: "encode_insn e (Save r n) = [0x89, m] @ bs" "m \<noteq> 0xe5" "xe_wordsize e = 4"
    show ?thesis unfolding bytes(1) using bytes(2-3) by (simp add: pattern_defs)
  qed
  then show ?thesis
    using mov_save [OF assms(1) r, of rest] Save by (simp add: prologue_insn_p_def prologue_insn_def del: encode_insn.simps)
next
  case (SubSp n)
  then show ?thesis
    using assms by (elim word_ok_cases; cases "fits8 n";
      simp add: operands_ok_def prologue_insn_p_def prologue_insn_def pattern_defs rex_w_def immediate_def)
next
  case (AddSp n)
  then show ?thesis
    using assms by (elim word_ok_cases; cases "fits8 n";
      simp add: operands_ok_def prologue_insn_p_def prologue_insn_def pattern_defs lea_rsp_pattern_p_def rex_w_def
        immediate_def REX_W_PREFIX_P_def REX_W_DSTREG_def)
next
  case (LeaSp n)
  then show ?thesis
    using assms by (elim word_ok_cases; cases "fits8 n";
      simp add: operands_ok_def prologue_insn_p_def prologue_insn_def pattern_defs lea_rsp_pattern_p_def rex_w_def
        immediate_def REX_W_PREFIX_P_def REX_W_DSTREG_def)
next
  case (LeaBpSp n)
  then show ?thesis
    using assms by (elim word_ok_cases; cases "fits8 n";
      simp add: operands_ok_def prologue_insn_p_def prologue_insn_def pattern_defs lea_rsp_pattern_p_def rex_w_def
        immediate_def REX_W_PREFIX_P_def REX_W_DSTREG_def)
next
  case (Plain bs)
  then show ?thesis using assms(2) by (simp add: operands_ok_def prologue_insn_def)
qed (use assms(1) in \<open>elim word_ok_cases; simp add: prologue_insn_p_def prologue_insn_def pattern_defs lea_rsp_pattern_p_def
    rex_w_def REX_W_PREFIX_P_def REX_W_DSTREG_def\<close>)+

lemma operands_ok_length:
  assumes "operands_ok e i"
  shows "0 < length (encode_insn e i)" "length (encode_insn e i) \<le> 15"
  using assms
  by (cases i; auto simp: operands_ok_def reg_opcode_def rex_w_def immediate_def)+

text \<open>How many instructions a prologue has: a \<open>lea\<close> is one only in front.\<close>

definition prologue_length :: "x86_insn list \<Rightarrow> nat" where
  "prologue_length code =
     (case code of
        [] \<Rightarrow> 0
      | i # is \<Rightarrow> if prologue_insn i 0 then Suc (length (takeWhile (\<lambda>i. prologue_insn i 1) is)) else 0)"

lemma prologue_step:
  assumes "word_ok e" "operands_ok e i" "decodes e disasm code" "i \<in> set code"
    and "drop offset data = encode_insn e i @ rest" "length data < 2 ^ 32"
  shows "prologue_loop e disasm data offset =
    (if prologue_insn i offset then prologue_loop e disasm data (offset + length (encode_insn e i)) else Some offset)"
    "drop (offset + length (encode_insn e i)) data = rest"
proof -
  note len = operands_ok_length [OF assms(2)]
  have eq: "length (encode_insn e i @ rest) = length data - offset" by (metis assms(5) length_drop)
  have "0 < length data - offset" unfolding eq [symmetric] length_append using len(1) by (rule trans_less_add1)
  moreover have "length data - offset < 2 ^ 32" using assms(6) by (rule le_less_trans [OF diff_le_self])
  ultimately have total: "offset < length data" "length (encode_insn e i @ rest) < 2 ^ 32"
    unfolding eq by simp_all
  show "prologue_loop e disasm data offset =
    (if prologue_insn i offset then prologue_loop e disasm data (offset + length (encode_insn e i)) else Some offset)"
    using total(1) instruction_length_insn [OF assms(3,4) len total(2)] prologue_insn_p_insn [OF assms(1,2), of rest offset]
    by (subst prologue_loop.simps) (simp add: assms(5) Let_def)
  have "drop (offset + length (encode_insn e i)) data = drop (length (encode_insn e i)) (drop offset data)"
    by (simp add: add.commute)
  then show "drop (offset + length (encode_insn e i)) data = rest" by (simp add: assms(5))
qed

lemma prologue_insn_pos: "0 < offset \<Longrightarrow> prologue_insn i offset = prologue_insn i 1"
  by (simp add: prologue_insn_def split: x86_insn.split)

lemma prologue_loop_correct:
  assumes "word_ok e" "\<forall>i \<in> set code. operands_ok e i" "decodes e disasm code"
    and "drop offset data = assemble e code" "length data < 2 ^ 32" "0 < offset"
  shows "prologue_loop e disasm data offset =
    Some (offset + insn_offset e code (length (takeWhile (\<lambda>i. prologue_insn i 1) code)))"
  using assms(2-4,6)
proof (induction code arbitrary: offset)
  case Nil
  then have "\<not> offset < length data" by simp
  then show ?case by (subst prologue_loop.simps) (simp add: insn_offset_def)
next
  case (Cons i code)
  then have d: "drop offset data = encode_insn e i @ assemble e code" by simp
  note step = prologue_step [OF assms(1) _ Cons.prems(2) _ d assms(5)]
  have "prologue_loop e disasm data (offset + length (encode_insn e i)) =
      Some (offset + length (encode_insn e i) + insn_offset e code (length (takeWhile (\<lambda>i. prologue_insn i 1) code)))"
    using Cons.prems(1,2,4) step(2) by (intro Cons.IH) (auto simp: decodes_def)
  then show ?case
    using step(1) Cons.prems(1) prologue_insn_pos [OF Cons.prems(4), of i] by (simp add: insn_offset_def)
qed

text \<open>C33: The first instruction behind a prologue is found: the search skips exactly the leading
  instructions that save registers, set up the frame pointer or make room for locals.\<close>

theorem FindFirstNonPrologueInstruction_correct:
  assumes "word_ok e" "xe_register_map_initialized e" "\<forall>i \<in> set code. operands_ok e i" "decodes e disasm code"
    and "length (assemble e code) < 2 ^ 32"
  shows "FindFirstNonPrologueInstruction e disasm (assemble e code) =
    Some (True, insn_offset e code (prologue_length code))"
proof (cases code)
  case Nil
  then show ?thesis
    using assms(2) by (subst FindFirstNonPrologueInstruction_def, subst prologue_loop.simps)
      (simp add: prologue_length_def insn_offset_def)
next
  case (Cons i code')
  then have d: "drop 0 (assemble e code) = encode_insn e i @ assemble e code'" by simp
  note step = prologue_step [OF assms(1) _ assms(4) _ d assms(5)]
  have ops: "operands_ok e i" "\<forall>i \<in> set code'. operands_ok e i" "decodes e disasm code'"
    using assms(3,4) Cons by (auto simp: decodes_def)
  have "prologue_loop e disasm (assemble e code) (length (encode_insn e i)) =
      Some (length (encode_insn e i) + insn_offset e code' (length (takeWhile (\<lambda>i. prologue_insn i 1) code')))"
    using step(2) Cons ops(1) operands_ok_length(1) [OF ops(1)] assms(5)
    by (intro prologue_loop_correct [OF assms(1) ops(2,3)]) auto
  then show ?thesis
    using step(1) Cons ops(1) assms(2) by (simp add: FindFirstNonPrologueInstruction_def prologue_length_def insn_offset_def)
qed

lemma demo_operands: "\<forall>i \<in> set demo_code. operands_ok demo_engine i"
proof -
  have "prologue_insn_p e (0x90 # rest) offset = Some False" if "word_ok e" for e rest offset
    using that by (elim word_ok_cases; simp add: prologue_insn_p_def pattern_defs lea_rsp_pattern_p_def REX_W_PREFIX_P_def)
  then show ?thesis
    using engine_word_ok [OF demo_engine_ok]
    by (simp add: demo_code_def operands_ok_def demo_engine_fields fits32_def)
qed

lemma FindFirstNonPrologueInstruction_correct_witness:
  "FindFirstNonPrologueInstruction demo_engine demo_disasm (assemble demo_engine demo_code) = Some (True, 9)"
proof -
  have "insn_offset demo_engine demo_code (prologue_length demo_code) = 9"
    by (simp add: demo_code_def prologue_length_def prologue_insn_def insn_offset_def reg_opcode_def rex_w_def immediate_def
        fits8_def demo_engine_fields)
  moreover have "xe_register_map_initialized demo_engine" using demo_engine_ok by (simp add: engine_ok_def)
  moreover have "length (assemble demo_engine demo_code) < 2 ^ 32"
    by (simp add: demo_code_def reg_opcode_def rex_w_def immediate_def fits8_def demo_engine_fields)
  ultimately show ?thesis
    using FindFirstNonPrologueInstruction_correct [OF engine_word_ok [OF demo_engine_ok] _ demo_operands demo_decodes]
    by simp
qed

section \<open>Where the plugin departs from what it says\<close>

text \<open>The plugin's search for the end of a prologue does not initialize the engine: asked first, it
  reports success and leaves the address of its caller as it was.\<close>

theorem FirstNonPrologueInsn_not_initialized:
  assumes "CreateInstance_x86 arch = Some e" "IsValid_address (ar_base_addr func)"
    and "length (read_memory (ar_base_addr func) (ar_byte_size func)) = ar_byte_size func"
  shows "FirstNonPrologueInsn e disasm func (Some read_memory) first_non_prologue_insn = Some (True, first_non_prologue_insn)"
proof -
  have "\<not> xe_register_map_initialized e"
    using assms(1) by (auto simp: CreateInstance_x86_def new_x86_engine_def split: if_splits)
  then show ?thesis
    using assms(2,3) by (simp add: FirstNonPrologueInsn_def FindFirstNonPrologueInstruction_def)
qed

lemma FirstNonPrologueInsn_not_initialized_witness:
  "FirstNonPrologueInsn (new_x86_engine arch_x86_64) demo_disasm
     \<lparr>ar_base_addr = \<lparr>ad_section = None, ad_offset = 4096\<rparr>, ar_byte_size = 3\<rparr> (Some (\<lambda>_ n. replicate n 0x55)) new_Address =
   Some (True, new_Address)"
  by (rule FirstNonPrologueInsn_not_initialized [of arch_x86_64])
    (simp_all add: CreateInstance_x86_def IsValid_address_def UINT64_MAX_def)

text \<open>The extension bit of the base register is looked at after it was shifted, and compared with 1: a
  store relative to \<open>%r13\<close> is taken for one relative to the frame pointer.\<close>

lemma base_register_extension_ignored:
  assumes "xe_wordsize e = 8" "b = 0x48 \<or> b = 0x4c"
  shows "mov_reg_to_local_stack_frame_p e ((b OR 1) # p) = mov_reg_to_local_stack_frame_p e (b # p)"
  using assms(2)
  by (elim disjE; simp add: mov_reg_to_local_stack_frame_p_def assms(1) REX_W_PREFIX_P_def REX_W_SRCREG_def REX_W_DSTREG_def
      cong: if_cong)

text \<open>The completion of a compiler's plan tests the instruction behind the one it has stepped over,
  but puts the row at the start of it: a push that is about to be executed is already counted in
  the CFA.\<close>

theorem augmented_row_too_early:
  assumes "lldb_cfa_reg reg_ctx (au_plan st) (au_row st) = Some (xe_lldb_sp_regnum e)"
    and "row_cfa_value (au_row st) = isRegisterPlusOffset r n" "in_bounds (n + d)"
    and "sp_delta e (drop offset data) = Some (Some d, False)"
    and "rows_sorted (up_row_list (au_plan st))" "\<forall>q \<in> set (up_row_list (au_plan st)). row_offset q \<noteq> offset"
  shows "\<exists>st' row. augment_insn e reg_ctx f (drop offset data) offset st = Some (Inl (offset, st')) \<and>
    row_at (up_row_list (au_plan st')) offset = Some row \<and> row_cfa_value row = isRegisterPlusOffset r (n + d)"
proof -
  define row where "row = (au_row st)\<lparr>row_cfa_value := isRegisterPlusOffset r (n + d), row_offset := offset\<rparr>"
  define st' where "st' = st\<lparr>au_row := row, au_plan := InsertRow row False (au_plan st), au_updated := True\<rparr>"
  let ?rs = "up_row_list (au_plan st)"
  have "augment_insn e reg_ctx f (drop offset data) offset st = Some (Inl (offset, st'))"
    using assms(1-4) by (simp add: augment_insn_def IncOffset_cfa_def c_int_bounds insert_row_at_def row_def st'_def Let_def)
  moreover have "row_at (up_row_list (InsertRow row False (au_plan st))) offset = Some row"
    using assms(5)
  proof (cases rule: InsertRow_rows [of "au_plan st" row False])
    case (1 pre post)
    then show ?thesis by (simp add: row_at_append row_at_Cons row_at_above row_def)
  next
    case (2 pre q post)
    then show ?thesis using assms(6) by (simp add: row_def)
  qed
  ultimately show ?thesis by (auto simp: st'_def row_def)
qed

definition demo_augmented :: augmentation where
  "demo_augmented = \<lparr>au_plan = (new_UnwindPlan eRegisterKindLLDB)\<lparr>up_row_list := [first_row demo_engine, (first_row demo_engine)\<lparr>row_offset := 9\<rparr>]\<rparr>,
     au_row = first_row demo_engine, au_row_id = 1, au_updated = False, au_reinstate_unwind_state = False\<rparr>"

lemma augmented_row_too_early_witness:
  "\<exists>st' row. augment_insn demo_engine None (first_row demo_engine) (drop 1 [0x90, 0x53, 0x90]) 1 demo_augmented = Some (Inl (1, st')) \<and>
    row_at (up_row_list (au_plan st')) 1 = Some row \<and> row_cfa_value row = isRegisterPlusOffset (xe_lldb_sp_regnum demo_engine) (8 + 8)"
proof (rule augmented_row_too_early)
  show "lldb_cfa_reg None (au_plan demo_augmented) (au_row demo_augmented) = Some (xe_lldb_sp_regnum demo_engine)"
    by (simp add: demo_augmented_def lldb_cfa_reg_def new_UnwindPlan_def first_row_def row_cfa_reg_def GetRegisterNumber_cfa_def)
  show "row_cfa_value (au_row demo_augmented) = isRegisterPlusOffset (xe_lldb_sp_regnum demo_engine) 8"
    by (simp add: demo_augmented_def first_row_def demo_engine_fields)
  show "in_bounds (8 + 8)" by (simp add: in_bounds_def)
  show "sp_delta demo_engine (drop 1 [0x90, 0x53, 0x90]) = Some (Some 8, False)"
    by (simp add: sp_delta_def call_next_insn_pattern_p_def push_reg_p_def reg_of_opcode_def demo_engine_fields Let_def)
  show "rows_sorted (up_row_list (au_plan demo_augmented))"
    by (simp add: demo_augmented_def rows_sorted_def first_row_def)
  show "\<forall>q \<in> set (up_row_list (au_plan demo_augmented)). row_offset q \<noteq> 1"
    by (simp add: demo_augmented_def first_row_def)
qed

end
