(* ===== verification/ARMUtils.thy ===== *)
theory ARMUtils
  imports Prelude
begin

text \<open>
  The bit utilities of the ARM emulator: \<open>InstructionUtils.h\<close>, \<open>ARMUtils.h\<close>,
  \<open>ARMDefines.h\<close> and the \<open>ITSession\<close> of \<open>EmulateInstructionARM.cpp\<close>, with the shifter and the
  constant expansion proved equal to a reference and the state machine of an IT block.

  Two functions of LLVM are parameters, collected in \<open>llvm_math\<close>. An outer \<open>None\<close> is undefined
  behaviour (a shift by the width or more); an inner \<open>None\<close> is a cleared success flag.
\<close>

section \<open>Bits of a word: InstructionUtils.h\<close>

definition Bits64 :: "u64 \<Rightarrow> nat \<Rightarrow> nat \<Rightarrow> u64" where
  "Bits64 bs msbit lsbit = drop_bit lsbit bs AND (push_bit (msbit - lsbit + 1) 1 - 1)"

definition Bits32 :: "u32 \<Rightarrow> nat \<Rightarrow> nat \<Rightarrow> u32" where
  "Bits32 bs msbit lsbit = drop_bit lsbit bs AND (push_bit (msbit - lsbit + 1) 1 - 1)"

definition Bit32 :: "u32 \<Rightarrow> nat \<Rightarrow> u32" where
  "Bit32 bs b = drop_bit b bs AND 1"

definition SetBits32 :: "u32 \<Rightarrow> nat \<Rightarrow> nat \<Rightarrow> u32 \<Rightarrow> u32" where
  "SetBits32 bs msbit lsbit val =
     (let m = push_bit (msbit - lsbit + 1) 1 - 1
      in (bs AND NOT (push_bit lsbit m)) OR push_bit lsbit (val AND m))"

definition SetBit32 :: "u32 \<Rightarrow> nat \<Rightarrow> u32 \<Rightarrow> u32" where
  "SetBit32 bs b val = SetBits32 bs b b val"

definition Rotr32 :: "u32 \<Rightarrow> u32 \<Rightarrow> u32" where
  "Rotr32 bs amt = drop_bit (unat amt) bs OR push_bit (unat ((32 - amt) AND 31)) bs"

definition Rotl32 :: "u32 \<Rightarrow> u32 \<Rightarrow> u32" where
  "Rotl32 bs amt = push_bit (unat amt) bs OR drop_bit (unat ((32 - amt) AND 31)) bs"

definition MaskUpToBit :: "u64 \<Rightarrow> u64" where
  "MaskUpToBit b = (if b \<ge> 63 then - 1 else push_bit (unat (b + 1)) 1 - 1)"

definition BitIsSet :: "u64 \<Rightarrow> nat \<Rightarrow> bool" where
  "BitIsSet value b = ((value AND push_bit b 1) \<noteq> 0)"

definition BitIsClear :: "u64 \<Rightarrow> nat \<Rightarrow> bool" where
  "BitIsClear value b = ((value AND push_bit b 1) = 0)"

text \<open>The callers give a 32-bit word, which is widened.\<close>

abbreviation is_set :: "u32 \<Rightarrow> nat \<Rightarrow> bool" where
  "is_set w b \<equiv> BitIsSet (ucast w) b"

abbreviation is_clear :: "u32 \<Rightarrow> nat \<Rightarrow> bool" where
  "is_clear w b \<equiv> BitIsClear (ucast w) b"

definition UnsignedBits :: "u64 \<Rightarrow> u64 \<Rightarrow> u64 \<Rightarrow> u64" where
  "UnsignedBits value msbit lsbit = drop_bit (unat lsbit) value AND MaskUpToBit (msbit - lsbit)"

definition SignedBits :: "u64 \<Rightarrow> u64 \<Rightarrow> u64 \<Rightarrow> u64" where
  "SignedBits value msbit lsbit =
     (let result = UnsignedBits value msbit lsbit
      in if BitIsSet value (unat msbit) then result OR NOT (MaskUpToBit (msbit - lsbit)) else result)"

text \<open>The loop clears the least significant set bit until none is left.\<close>

lemma and_pred_less: "x \<noteq> 0 \<Longrightarrow> unat (x AND (x - 1)) < unat (x :: 'a :: len word)"
proof -
  assume x: "x \<noteq> 0"
  have "x AND (x - 1) \<le> x - 1"
    by (rule word_and_le1)
  then have "unat (x AND (x - 1)) \<le> unat (x - 1)"
    by (simp add: word_le_nat_alt)
  also have "unat (x - 1) < unat x"
    using x by (simp add: unat_minus_one unat_gt_0)
  finally show ?thesis .
qed

function BitCount_loop :: "u64 \<Rightarrow> u32 \<Rightarrow> u32" where
  "BitCount_loop x c = (if x = 0 then c else BitCount_loop (x AND (x - 1)) (c + 1))"
  by pat_completeness auto

termination
  by (relation "measure (\<lambda>(x, _). unat x)") (simp_all add: and_pred_less)

definition BitCount :: "u64 \<Rightarrow> u32" where
  "BitCount x = BitCount_loop x 0"

declare BitCount_loop.simps [simp del]

section \<open>Bits as positions\<close>

lemma push_one_minus_one: "push_bit n (1 :: 'a :: len word) - 1 = mask n"
  by (simp add: mask_eq_exp_minus_1)

lemma Bits32_take_bit: "Bits32 w m l = take_bit (m - l + 1) (drop_bit l w)"
  unfolding Bits32_def push_one_minus_one by (simp only: take_bit_eq_mask)

lemma Bit32_bit: "Bit32 w b = of_bool (bit w b)"
  by (simp add: Bit32_def and_one_eq odd_iff_mod_2_eq_one [symmetric] bit_iff_odd_drop_bit mod_2_eq_odd)

lemma BitIsSet_bit: "BitIsSet w b = bit w b"
proof -
  have "(w AND push_bit b 1 = 0) = (\<not> bit w b)"
    using bit_imp_le_length [of w b]
    by (auto simp: bit_eq_iff [of _ "0 :: u64"] bit_and_iff bit_exp_iff)
  then show ?thesis
    by (simp add: BitIsSet_def)
qed

lemma BitIsClear_bit: "BitIsClear w b = (\<not> bit w b)"
  using BitIsSet_bit [of w b] by (auto simp: BitIsClear_def BitIsSet_def)

lemma is_set_bit: "is_set w b = bit w b"
  by (auto simp: BitIsSet_bit bit_ucast_iff dest: bit_imp_le_length)

lemma is_clear_bit: "is_clear w b = (\<not> bit w b)"
  using is_set_bit [of w b] by (simp add: BitIsSet_bit BitIsClear_bit)

lemma bit_SetBit32: "bit (SetBit32 w b v) n = (if n = b \<and> b < 32 then bit v 0 else bit w n)"
  unfolding SetBit32_def SetBits32_def Let_def push_one_minus_one
  by (auto simp: bit_or_iff bit_and_iff bit_not_iff bit_push_bit_iff bit_exp_iff bit_1_iff
      dest: bit_imp_le_length)

section \<open>ARMUtils.h\<close>

datatype ARM_ShifterType =
    SRType_LSL | SRType_LSR | SRType_ASR | SRType_ROR | SRType_RRX | SRType_Invalid

text \<open>\<open>llvm::countTrailingZeros\<close>, \<open>llvm::SignExtend32<B>\<close> and \<open>llvm::SignExtend64<32>\<close>.\<close>

record llvm_math =
  lv_countTrailingZeros :: "u32 \<Rightarrow> u32"
  lv_SignExtend32 :: "nat \<Rightarrow> u32 \<Rightarrow> u32"
  lv_SignExtend64_32 :: "u64 \<Rightarrow> u64"
  lv_SignExtend64 :: "nat \<Rightarrow> u64 \<Rightarrow> u64"

definition counts_zeros :: "(u32 \<Rightarrow> u32) \<Rightarrow> bool" where
  "counts_zeros ctz \<longleftrightarrow>
     ctz 0 = 32 \<and> (\<forall>w n. bit w n \<and> (\<forall>m<n. \<not> bit w m) \<longrightarrow> ctz w = of_nat n)"

definition extends_sign :: "(u64 \<Rightarrow> u64) \<Rightarrow> bool" where
  "extends_sign f \<longleftrightarrow> (\<forall>w :: u32. f (ucast w) = scast w)"

definition Align :: "u32 \<Rightarrow> u32 \<Rightarrow> u32" where
  "Align val alignment = alignment * (val div alignment)"

definition DecodeImmShift :: "u32 \<Rightarrow> u32 \<Rightarrow> u32 \<times> ARM_ShifterType" where
  "DecodeImmShift ty imm5 =
     (if ty = 1 then (if imm5 = 0 then 32 else imm5, SRType_LSR)
      else if ty = 2 then (if imm5 = 0 then 32 else imm5, SRType_ASR)
      else if ty = 3 then (if imm5 = 0 then (1, SRType_RRX) else (imm5, SRType_ROR))
      else (imm5, SRType_LSL))"

definition DecodeImmShiftThumb :: "u32 \<Rightarrow> u32 \<times> ARM_ShifterType" where
  "DecodeImmShiftThumb opcode =
     DecodeImmShift (Bits32 opcode 5 4) (push_bit 2 (Bits32 opcode 14 12) OR Bits32 opcode 7 6)"

definition DecodeImmShiftARM :: "u32 \<Rightarrow> u32 \<times> ARM_ShifterType" where
  "DecodeImmShiftARM opcode = DecodeImmShift (Bits32 opcode 6 5) (Bits32 opcode 11 7)"

primrec shifter_number :: "ARM_ShifterType \<Rightarrow> u32" where
  "shifter_number SRType_LSL = 0"
| "shifter_number SRType_LSR = 1"
| "shifter_number SRType_ASR = 2"
| "shifter_number SRType_ROR = 3"
| "shifter_number SRType_RRX = 4"
| "shifter_number SRType_Invalid = 5"

definition DecodeImmShift_of :: "ARM_ShifterType \<Rightarrow> u32 \<Rightarrow> u32" where
  "DecodeImmShift_of shift_t imm5 = fst (DecodeImmShift (shifter_number shift_t) imm5)"

definition DecodeRegShift :: "u32 \<Rightarrow> ARM_ShifterType" where
  "DecodeRegShift ty =
     (if ty = 0 then SRType_LSL else if ty = 1 then SRType_LSR else if ty = 2 then SRType_ASR
      else if ty = 3 then SRType_ROR else SRType_Invalid)"

text \<open>The result of a shift with its carry; \<open>Some None\<close> clears the success flag.\<close>

definition LSL_C :: "u32 \<Rightarrow> u32 \<Rightarrow> (u32 \<times> u32) option option" where
  "LSL_C value amount =
     (if amount = 0 then Some None
      else if amount \<ge> 32 then None
      else Some (Some (push_bit (unat amount) value, Bit32 value (unat (32 - amount)))))"

definition LSR_C :: "u32 \<Rightarrow> u32 \<Rightarrow> (u32 \<times> u32) option option" where
  "LSR_C value amount =
     (if amount = 0 then Some None
      else if amount \<ge> 32 then None
      else Some (Some (drop_bit (unat amount) value, Bit32 value (unat (amount - 1)))))"

definition ASR_C :: "llvm_math \<Rightarrow> u32 \<Rightarrow> u32 \<Rightarrow> (u32 \<times> u32) option option" where
  "ASR_C L value amount =
     (if amount = 0 \<or> amount > 32 then Some None
      else Some (Some (ucast (UnsignedBits (lv_SignExtend64_32 L (ucast value))
                                (ucast (amount + 31)) (ucast amount)),
                       Bit32 value (unat (amount - 1)))))"

definition ROR_C :: "u32 \<Rightarrow> u32 \<Rightarrow> (u32 \<times> u32) option option" where
  "ROR_C value amount =
     (if amount = 0 then Some None
      else Some (Some (Rotr32 value (amount mod 32), Bit32 value 31)))"

definition ROR :: "u32 \<Rightarrow> u32 \<Rightarrow> u32 option option" where
  "ROR value amount =
     (if amount = 0 then Some (Some value) else map_option (map_option fst) (ROR_C value amount))"

definition RRX_C :: "u32 \<Rightarrow> u32 \<Rightarrow> (u32 \<times> u32) option option" where
  "RRX_C value carry_in =
     Some (Some (push_bit 31 (Bit32 carry_in 0) OR Bits32 value 31 1, Bit32 value 0))"

definition Shift_C ::
  "llvm_math \<Rightarrow> u32 \<Rightarrow> ARM_ShifterType \<Rightarrow> u32 \<Rightarrow> u32 \<Rightarrow> (u32 \<times> u32) option option" where
  "Shift_C L value ty amount carry_in =
     (if ty = SRType_RRX \<and> amount \<noteq> 1 then Some None
      else if amount = 0 then Some (Some (value, carry_in))
      else case ty of
             SRType_LSL \<Rightarrow> LSL_C value amount
           | SRType_LSR \<Rightarrow> LSR_C value amount
           | SRType_ASR \<Rightarrow> ASR_C L value amount
           | SRType_ROR \<Rightarrow> ROR_C value amount
           | SRType_RRX \<Rightarrow> RRX_C value carry_in
           | SRType_Invalid \<Rightarrow> Some None)"

definition Shift :: "llvm_math \<Rightarrow> u32 \<Rightarrow> ARM_ShifterType \<Rightarrow> u32 \<Rightarrow> u32 \<Rightarrow> u32 option option" where
  "Shift L value ty amount carry_in =
     map_option (map_option fst) (Shift_C L value ty amount carry_in)"

definition ror :: "u32 \<Rightarrow> u32 \<Rightarrow> u32 \<Rightarrow> u32" where
  "ror val N shift =
     (let m = shift mod N in drop_bit (unat m) val OR push_bit (unat (N - m)) val)"

definition ARMExpandImm_C :: "u32 \<Rightarrow> u32 \<Rightarrow> u32 \<times> u32" where
  "ARMExpandImm_C opcode carry_in =
     (let imm = Bits32 opcode 7 0; amt = 2 * Bits32 opcode 11 8
      in if amt = 0 then (imm, carry_in)
         else let imm32 = ror imm 32 amt in (imm32, Bit32 imm32 31))"

definition ARMExpandImm :: "u32 \<Rightarrow> u32" where
  "ARMExpandImm opcode = fst (ARMExpandImm_C opcode 0)"

definition ThumbExpandImm_C :: "u32 \<Rightarrow> u32 \<Rightarrow> u32 \<times> u32" where
  "ThumbExpandImm_C opcode carry_in =
     (let i = Bits32 opcode 26 26; imm3 = Bits32 opcode 14 12; abcdefgh = Bits32 opcode 7 0;
          imm12 = push_bit 11 i OR push_bit 8 imm3 OR abcdefgh
      in if Bits32 imm12 11 10 = 0 then
           (let k = Bits32 imm12 9 8
            in if k = 1 then push_bit 16 abcdefgh OR abcdefgh
               else if k = 2 then push_bit 24 abcdefgh OR push_bit 8 abcdefgh
               else if k = 3 then
                 push_bit 24 abcdefgh OR push_bit 16 abcdefgh OR push_bit 8 abcdefgh OR abcdefgh
               else abcdefgh, carry_in)
         else
           let imm32 = ror (0x80 OR Bits32 imm12 6 0) 32 (Bits32 imm12 11 7)
           in (imm32, Bit32 imm32 31))"

definition ThumbExpandImm :: "u32 \<Rightarrow> u32" where
  "ThumbExpandImm opcode = fst (ThumbExpandImm_C opcode 0)"

definition ThumbImm12 :: "u32 \<Rightarrow> u32" where
  "ThumbImm12 opcode =
     push_bit 11 (Bits32 opcode 26 26) OR push_bit 8 (Bits32 opcode 14 12) OR Bits32 opcode 7 0"

definition ThumbImm7Scaled :: "u32 \<Rightarrow> u32" where
  "ThumbImm7Scaled opcode = Bits32 opcode 6 0 * 4"

definition ThumbImm8Scaled :: "u32 \<Rightarrow> u32" where
  "ThumbImm8Scaled opcode = Bits32 opcode 7 0 * 4"

definition BadReg :: "u32 \<Rightarrow> bool" where
  "BadReg n \<longleftrightarrow> n = 13 \<or> n = 15"

section \<open>ITSession\<close>

abbreviation (input) COND_AL :: u32 where
  "COND_AL \<equiv> 0xE"

record it_session =
  it_counter :: u32
  it_state :: u32

definition CountITSize :: "llvm_math \<Rightarrow> u32 \<Rightarrow> u32" where
  "CountITSize L ITMask =
     (let TZ = lv_countTrailingZeros L ITMask in if TZ > 3 then 0 else 4 - TZ)"

definition InitIT :: "llvm_math \<Rightarrow> u32 \<Rightarrow> it_session \<Rightarrow> bool \<times> it_session" where
  "InitIT L bits7_0 it =
     (let it = it\<lparr>it_counter := CountITSize L (Bits32 bits7_0 3 0)\<rparr>
      in if it_counter it = 0 then (False, it)
         else let FirstCond = Bits32 bits7_0 7 4
              in if FirstCond = 0xF then (False, it)
                 else if FirstCond = 0xE \<and> it_counter it \<noteq> 1 then (False, it)
                 else (True, it\<lparr>it_state := bits7_0\<rparr>))"

definition ITAdvance :: "it_session \<Rightarrow> it_session" where
  "ITAdvance it =
     (let it = it\<lparr>it_counter := it_counter it - 1\<rparr>
      in if it_counter it = 0 then it\<lparr>it_state := 0\<rparr>
         else it\<lparr>it_state := SetBits32 (it_state it) 4 0 (push_bit 1 (Bits32 (it_state it) 4 0))\<rparr>)"

definition it_InITBlock :: "it_session \<Rightarrow> bool" where
  "it_InITBlock it \<longleftrightarrow> it_counter it \<noteq> 0"

definition it_LastInITBlock :: "it_session \<Rightarrow> bool" where
  "it_LastInITBlock it \<longleftrightarrow> it_counter it = 1"

definition it_GetCond :: "it_session \<Rightarrow> u32" where
  "it_GetCond it = (if it_InITBlock it then Bits32 (it_state it) 7 4 else COND_AL)"

text \<open>What the shifter computes.\<close>

fun shift_spec :: "ARM_ShifterType \<Rightarrow> nat \<Rightarrow> u32 \<Rightarrow> bool \<Rightarrow> u32 \<times> bool" where
  "shift_spec SRType_LSL n w c = (word_of_int (uint w * 2 ^ n), bit (uint w * 2 ^ n) 32)"
| "shift_spec SRType_LSR n w c = (word_of_int (uint w div 2 ^ n), bit (uint w * 2 div 2 ^ n) 0)"
| "shift_spec SRType_ASR n w c = (word_of_int (sint w div 2 ^ n), bit (sint w * 2 div 2 ^ n) 0)"
| "shift_spec SRType_ROR n w c = (word_rotr n w, bit (word_rotr n w) 31)"
| "shift_spec SRType_RRX n w c =
     (word_of_int ((uint w + of_bool c * 2 ^ 32) div 2), bit w 0)"
| "shift_spec SRType_Invalid n w c = (w, c)"

lemma bit_ror: "0 < n \<Longrightarrow> n < 32 \<Longrightarrow> k < 32 \<Longrightarrow>
  bit (drop_bit n w OR push_bit (32 - n) (w :: u32)) k = bit w ((k + n) mod 32)"
  by (auto simp: bit_or_iff bit_drop_bit_eq bit_push_bit_iff mod_if add.commute dest: bit_imp_le_length)

lemma rotr_eq: "n < 32 \<Longrightarrow> drop_bit n w OR push_bit ((32 - n) mod 32) (w :: u32) = word_rotr n w"
proof (rule bit_word_eqI)
  fix k assume n: "n < 32" and "k < LENGTH(32)"
  then have k: "k < 32" by simp
  show "bit (drop_bit n w OR push_bit ((32 - n) mod 32) w) k = bit (word_rotr n w) k"
    using n k bit_ror [of n k w] by (cases "n = 0") (auto simp: bit_word_rotr_iff bit_or_iff)
qed

lemma unat_small: "n < 2 ^ 32 \<Longrightarrow> unat (of_nat n :: u32) = n"
  by (simp add: unat_of_nat)

lemma ucast_in_range: "n < 2 ^ 32 \<Longrightarrow> ucast (of_nat n :: u32) = (of_nat n :: u64)"
  by (simp add: word_unat_eq_iff unat_of_nat unsigned_ucast_eq take_bit_nat_eq_self)

lemma LSL_C_spec:
  assumes "0 < n" "n < 32"
  shows "LSL_C w (of_nat n) = Some (Some (map_prod id of_bool (shift_spec SRType_LSL n w c)))"
proof -
  have "unat (32 - of_nat n :: u32) = 32 - n"
    using assms by (subst unat_sub) (simp_all add: word_le_nat_alt unat_small)
  moreover have "bit (uint w * 2 ^ n) 32 = bit w (32 - n)"
    using assms by (simp add: push_bit_eq_mult [symmetric] bit_push_bit_iff bit_uint_iff)
  moreover have "push_bit n w = word_of_int (uint w * 2 ^ n)"
    by (simp add: push_bit_eq_mult)
  moreover have "\<not> (32 :: u32) \<le> of_nat n" "of_nat n \<noteq> (0 :: u32)"
    using assms by (simp_all add: word_le_nat_alt unat_small word_unat_eq_iff)
  ultimately show ?thesis
    using assms by (simp add: LSL_C_def unat_small Bit32_bit)
qed

lemma LSR_C_spec:
  assumes "0 < n" "n < 32"
  shows "LSR_C w (of_nat n) = Some (Some (map_prod id of_bool (shift_spec SRType_LSR n w c)))"
proof -
  have "unat (of_nat n - 1 :: u32) = n - 1"
    using assms by (subst unat_sub) (simp_all add: word_le_nat_alt unat_small)
  moreover have "bit (uint w * 2 div 2 ^ n) 0 = bit w (n - 1)"
  proof -
    have "uint w * 2 div 2 ^ n = uint w div 2 ^ (n - 1)"
      using assms by (cases n) simp_all
    then show ?thesis
      using assms by (simp add: drop_bit_eq_div [symmetric] bit_drop_bit_eq bit_uint_iff del: bit_0)
        (auto dest: bit_imp_le_length)
  qed
  moreover have "drop_bit n w = word_of_int (uint w div 2 ^ n)"
    by (rule bit_word_eqI)
      (simp add: drop_bit_eq_div [symmetric] bit_drop_bit_eq bit_word_of_int_iff bit_uint_iff,
        auto dest: bit_imp_le_length)
  moreover have "\<not> (32 :: u32) \<le> of_nat n" "of_nat n \<noteq> (0 :: u32)"
    using assms by (simp_all add: word_le_nat_alt unat_small word_unat_eq_iff)
  ultimately show ?thesis
    using assms by (simp add: LSR_C_def unat_small Bit32_bit)
qed

lemma ASR_C_spec:
  assumes L: "extends_sign (lv_SignExtend64_32 L)" and n: "0 < n" "n \<le> 32"
  shows "ASR_C L w (of_nat n) = Some (Some (map_prod id of_bool (shift_spec SRType_ASR n w c)))"
proof -
  have un: "unat (of_nat n :: u32) = n"
    using n by (simp add: unat_small)
  have pred: "unat (of_nat n - 1 :: u32) = n - 1"
    using n by (subst unat_sub) (simp_all add: word_le_nat_alt unat_small)
  have carry: "bit (sint w * 2 div 2 ^ n) 0 = bit w (n - 1)"
  proof -
    have "sint w * 2 div 2 ^ n = sint w div 2 ^ (n - 1)"
      using n by (cases n) simp_all
    then show ?thesis
      using n by (simp add: drop_bit_eq_div [symmetric] bit_drop_bit_eq bit_sint_iff del: bit_0)
        (auto simp: min_def not_less intro: arg_cong [of _ _ "bit w"])
  qed
  have amt: "(ucast (of_nat n + 31 :: u32) :: u64) - ucast (of_nat n :: u32) = 31"
  proof -
    have "ucast (of_nat (n + 31) :: u32) = (of_nat (n + 31) :: u64)"
      using n by (intro ucast_in_range) simp
    then show ?thesis
      using n by (simp add: ucast_in_range)
  qed
  have "ucast (UnsignedBits (scast w) (ucast (of_nat n + 31 :: u32)) (ucast (of_nat n :: u32)))
      = (word_of_int (sint w div 2 ^ n) :: u32)"
  proof (rule bit_word_eqI)
    fix k assume "k < LENGTH(32)"
    then have k: "k < 32" by simp
    have un64: "unat (ucast (of_nat n :: u32) :: u64) = n"
      using n by (simp add: ucast_in_range unat_of_nat)
    have m: "MaskUpToBit 31 = mask 32"
      by (simp add: MaskUpToBit_def mask_eq_exp_minus_1)
    show "bit (ucast (UnsignedBits (scast w) (ucast (of_nat n + 31 :: u32))
              (ucast (of_nat n :: u32))) :: u32) k
        = bit (word_of_int (sint w div 2 ^ n) :: u32) k"
      using k n unfolding UnsignedBits_def amt m un64
      by (simp add: bit_ucast_iff bit_and_iff bit_drop_bit_eq bit_mask_iff bit_signed_iff
          bit_word_of_int_iff drop_bit_eq_div [symmetric] bit_sint_iff)
  qed
  moreover have "lv_SignExtend64_32 L (ucast w) = scast w"
    using L by (simp add: extends_sign_def)
  moreover have "\<not> of_nat n > (32 :: u32)" "of_nat n \<noteq> (0 :: u32)"
    using n un by (simp_all add: word_less_nat_alt word_unat_eq_iff)
  ultimately show ?thesis
    using carry pred by (simp add: ASR_C_def Bit32_bit)
qed

lemma Rotr32_word_rotr: "n < 32 \<Longrightarrow> Rotr32 w (of_nat n) = word_rotr n w"
proof -
  assume n: "n < 32"
  have "(32 - of_nat n) AND 31 = (of_nat ((32 - n) mod 32) :: u32)"
  proof (cases "n = 0")
    case False
    have "take_bit 5 (of_nat (32 - n) :: u32) = of_nat (take_bit 5 (32 - n))"
      by (simp only: of_nat_take_bit)
    then show ?thesis
      using n False by (simp add: take_bit_eq_mask [where a = "_ :: u32"] take_bit_eq_mod mask_eq_exp_minus_1 of_nat_diff)
  qed simp
  then have "unat ((32 - of_nat n) AND (31 :: u32)) = (32 - n) mod 32"
    by (simp add: unat_small)
  then show ?thesis
    using n rotr_eq [of n w] by (simp add: Rotr32_def unat_small)
qed

lemma ROR_C_spec:
  assumes "0 < n" "n < 2 ^ 32"
  shows "ROR_C w (of_nat n) = Some (Some (fst (shift_spec SRType_ROR n w c), of_bool (bit w 31)))"
proof -
  have "of_nat n mod 32 = (of_nat (n mod 32) :: u32)"
    using assms by (simp add: word_unat_eq_iff unat_mod unat_small)
  moreover have "of_nat n \<noteq> (0 :: u32)"
    using assms by (simp add: word_unat_eq_iff unat_small)
  moreover have "word_rotr (n mod 32) w = word_rotr n w"
    by (rule bit_word_eqI) (simp add: bit_word_rotr_iff mod_add_right_eq)
  ultimately show ?thesis
    by (simp add: ROR_C_def Rotr32_word_rotr Bit32_bit)
qed

lemma add_push_bit: "take_bit n x = x \<Longrightarrow> x + push_bit n y = x OR push_bit n (y :: int)"
  by (rule disjunctive_add) (metis bit_push_bit_iff bit_take_bit_iff not_le)

lemma RRX_C_spec:
  "RRX_C w c = Some (Some (map_prod id of_bool (shift_spec SRType_RRX n w (bit c 0))))"
proof -
  have "push_bit 31 (Bit32 c 0) OR Bits32 w 31 1
      = word_of_int ((uint w + of_bool (bit c 0) * 2 ^ 32) div 2)"
  proof (rule bit_word_eqI)
    fix k assume "k < LENGTH(32)"
    then have k: "k < 32" by simp
    have *: "uint w + of_bool (bit c 0) * 2 ^ 32 = uint w OR push_bit 32 (of_bool (bit c 0))"
    proof -
      have "uint w + push_bit 32 (of_bool (bit c 0)) = uint w OR push_bit 32 (of_bool (bit c 0))"
        using uint_bounded [of w] by (intro add_push_bit take_bit_int_eq_self) simp_all
      then show ?thesis
        by (simp add: push_bit_eq_mult)
    qed
    show "bit (push_bit 31 (Bit32 c 0) OR Bits32 w 31 1) k
        = bit (word_of_int ((uint w + of_bool (bit c 0) * 2 ^ 32) div 2) :: u32) k"
      using k unfolding *
      by (auto simp: Bits32_take_bit Bit32_bit bit_or_iff bit_push_bit_iff bit_take_bit_iff bit_drop_bit_eq
          bit_word_of_int_iff bit_uint_iff bit_of_bool_iff bit_Suc [symmetric] simp del: bit_0
          dest: bit_imp_le_length)
  qed
  then show ?thesis
    by (simp add: RRX_C_def Bit32_bit)
qed

theorem Shift_C_correct:
  assumes "extends_sign (lv_SignExtend64_32 L)" and "n < 2 ^ 32"
  shows "Shift_C L w ty (of_nat n) c =
    (if ty = SRType_RRX \<and> n \<noteq> 1 then Some None
     else if n = 0 then Some (Some (w, c))
     else if ty \<in> {SRType_LSL, SRType_LSR} \<and> 32 \<le> n then None
     else if ty = SRType_ASR \<and> 32 < n \<or> ty = SRType_Invalid then Some None
     else Some (Some (fst (shift_spec ty n w (bit c 0)),
            of_bool (if ty = SRType_ROR then bit w 31 else snd (shift_spec ty n w (bit c 0))))))"
proof -
  have n: "of_nat n = (0 :: u32) \<longleftrightarrow> n = 0" "of_nat n = (1 :: u32) \<longleftrightarrow> n = 1"
    "(32 :: u32) \<le> of_nat n \<longleftrightarrow> 32 \<le> n" "(32 :: u32) < of_nat n \<longleftrightarrow> 32 < n"
    using assms(2) by (simp_all add: word_unat_eq_iff word_le_nat_alt word_less_nat_alt unat_small)
  show ?thesis
  proof (cases "n = 0 \<or> ty = SRType_RRX \<and> n \<noteq> 1")
    case True
    then show ?thesis by (auto simp: Shift_C_def n)
  next
    case False
    then show ?thesis
      using assms LSL_C_spec [of n w "bit c 0"] LSR_C_spec [of n w "bit c 0"]
        ASR_C_spec [of L n w "bit c 0"] ROR_C_spec [of n w "bit c 0"] RRX_C_spec [of w c]
      by (cases ty; cases "n < 32"; cases "n \<le> 32")
        (simp_all add: Shift_C_def n LSL_C_def LSR_C_def ASR_C_def map_prod_def split_beta
           del: shift_spec.simps)
  qed
qed

section \<open>Counting bits\<close>

lemma and_pred_bits:
  fixes x :: u64
  assumes k: "bit x k" "\<And>m. m < k \<Longrightarrow> \<not> bit x m"
  shows "bit (x AND (x - 1)) n = (bit x n \<and> n \<noteq> k)"
proof -
  define y where "y = x AND NOT (push_bit k 1)"
  have y: "bit y n = (bit x n \<and> n \<noteq> k)" for n
    by (auto simp: y_def bit_and_iff bit_not_iff bit_exp_iff dest: bit_imp_le_length)
  have k64: "k < 64"
    using k(1) by (auto dest: bit_imp_le_length)
  have xk: "x = y + 2 ^ k"
  proof -
    have "y + 2 ^ k = y OR 2 ^ k"
      by (rule disjunctive_add) (auto simp: y bit_exp_iff)
    also have "\<dots> = x"
      using k k64 by (intro bit_word_eqI) (auto simp: bit_or_iff y bit_exp_iff)
    finally show ?thesis by simp
  qed
  have "x - 1 = y + mask k"
    by (simp add: xk mask_eq_exp_minus_1)
  also have "y + mask k = y OR mask k"
    using k(2) by (intro disjunctive_add) (auto simp: y bit_mask_iff)
  finally have "x - 1 = y OR mask k" .
  then show ?thesis
    using k by (auto simp: bit_and_iff bit_or_iff bit_mask_iff y)
qed

lemma finite_bits [simp]: "finite {n. bit (x :: 'a :: len word) n}"
  by (rule finite_subset [of _ "{..<LENGTH('a)}"]) (auto dest: bit_imp_le_length)

lemma BitCount_loop_card: "BitCount_loop x c = c + of_nat (card {n. bit x n})"
proof (induction x c rule: BitCount_loop.induct)
  case (1 x c)
  show ?case
  proof (cases "x = 0")
    case True
    then show ?thesis by (simp add: BitCount_loop.simps)
  next
    case False
    then obtain k where k: "bit x k" "\<And>m. m < k \<Longrightarrow> \<not> bit x m"
      by (metis bit_eq_iff [of x 0] bit_0_eq bot_apply bot_bool_def exists_least_iff)
    have "{n. bit x n} = insert k {n. bit (x AND (x - 1)) n}"
      using k by (auto simp: and_pred_bits [OF k])
    moreover have "k \<notin> {n. bit (x AND (x - 1)) n}"
      by (simp add: and_pred_bits [OF k])
    ultimately have "card {n. bit x n} = Suc (card {n. bit (x AND (x - 1)) n})"
      by simp
    then show ?thesis
      using 1 [OF False] False by (simp add: BitCount_loop.simps [of x])
  qed
qed

text \<open>\<open>BitCount\<close> terminates with the number of set bits.\<close>

theorem BitCount_correct: "BitCount x = of_nat (card {n. bit x n})"
  by (simp add: BitCount_def BitCount_loop_card)

section \<open>Constants of instructions\<close>

lemma ror_word_rotr: "ror w 32 s = word_rotr (unat s) w"
proof -
  have "unat (32 - s mod 32) = 32 - unat s mod 32"
    by (subst unat_sub) (simp_all add: word_le_nat_alt unat_mod)
  moreover have "word_rotr (unat s mod 32) w = word_rotr (unat s) w"
    by (rule bit_word_eqI) (simp add: bit_word_rotr_iff mod_add_right_eq)
  moreover have "push_bit 32 w = 0"
    by (rule bit_word_eqI) (simp add: bit_push_bit_iff)
  ultimately show ?thesis
    using rotr_eq [of "unat s mod 32" w]
    by (cases "unat s mod 32 = 0") (simp_all add: ror_def unat_mod)
qed

lemma Bits32_bound: "unat (Bits32 w m l) < 2 ^ (m - l + 1)"
  unfolding Bits32_take_bit unsigned_take_bit_eq by (rule take_bit_nat_less_exp)

lemma bit_Bits32: "bit (Bits32 w m l) n = (n < m - l + 1 \<and> bit w (l + n))"
  by (auto simp: Bits32_take_bit bit_take_bit_iff bit_drop_bit_eq add.commute)

lemma Bits32_eqI: "(\<And>n. n < m - l + 1 \<Longrightarrow> bit w (l + n) = bit v n) \<Longrightarrow>
  (\<And>n. m - l + 1 \<le> n \<Longrightarrow> \<not> bit v n) \<Longrightarrow> Bits32 w m l = v"
  by (rule bit_word_eqI) (metis bit_Bits32 not_less)

lemma word_rotr_0 [simp]: "word_rotr 0 w = w"
  by (rule bit_word_eqI) (simp add: bit_word_rotr_iff)

theorem ARMExpandImm_C_correct:
  "ARMExpandImm_C opcode c =
     (let w = word_rotr (2 * unat (Bits32 opcode 11 8)) (Bits32 opcode 7 0)
      in (w, if Bits32 opcode 11 8 = 0 then c else of_bool (bit w 31)))"
proof -
  have "unat (2 * Bits32 opcode 11 8) = 2 * unat (Bits32 opcode 11 8)"
    using Bits32_bound [of opcode 11 8] by (simp add: unat_mult_lem [THEN iffD1])
  moreover from this have "2 * Bits32 opcode 11 8 = 0 \<longleftrightarrow> Bits32 opcode 11 8 = 0"
    by (metis mult_eq_0_iff unat_eq_zero zero_neq_numeral)
  ultimately show ?thesis
    by (simp add: ARMExpandImm_C_def ror_word_rotr Bit32_bit Let_def)
qed

text \<open>The modified constants of Thumb: four byte patterns, or a byte with its top bit set, rotated.\<close>

definition thumb_pattern :: "u32 \<Rightarrow> u32" where
  "thumb_pattern k =
     (if k = 0 then 1 else if k = 1 then 0x10001 else if k = 2 then 0x1000100 else 0x1010101)"

lemma or_disjoint: "(\<And>n. \<not> (bit a n \<and> bit b n)) \<Longrightarrow> a OR b = a + (b :: 'a :: len word)"
  by (subst disjunctive_add) auto

lemma bit_ThumbImm12:
  "bit (ThumbImm12 opcode) n =
     (if n < 8 then bit opcode n else if n < 11 then bit opcode (n + 4) else n = 11 \<and> bit opcode 26)"
  by (auto simp: ThumbImm12_def bit_or_iff bit_push_bit_iff bit_Bits32 algebra_simps)

lemma ThumbImm12_bound: "ThumbImm12 opcode < 0x1000"
proof -
  have "take_bit 12 (ThumbImm12 opcode) = ThumbImm12 opcode"
    by (rule bit_word_eqI) (auto simp: bit_take_bit_iff bit_ThumbImm12)
  then have "unat (ThumbImm12 opcode) < 2 ^ 12"
    by (metis take_bit_nat_less_exp unsigned_take_bit_eq)
  then show ?thesis by (simp add: word_less_nat_alt)
qed

lemma ThumbImm12_top: "Bits32 (ThumbImm12 opcode) 11 10 = 0 \<longleftrightarrow> ThumbImm12 opcode < 0x400"
proof -
  have "Bits32 (ThumbImm12 opcode) 11 10 = drop_bit 10 (ThumbImm12 opcode)"
    by (rule bit_word_eqI) (auto simp: bit_Bits32 bit_ThumbImm12 bit_drop_bit_eq)
  then have "Bits32 (ThumbImm12 opcode) 11 10 = 0 \<longleftrightarrow> unat (ThumbImm12 opcode) div 2 ^ 10 = 0"
    by (simp add: word_unat_eq_iff drop_bit_eq_div unat_div)
  then show ?thesis
    by (simp add: word_less_nat_alt div_eq_0_iff)
qed

lemma byte_repeated:
  assumes "unat (b :: u32) < 256"
  shows "push_bit 16 b OR b = b * 0x10001"
    "push_bit 24 b OR push_bit 8 b = b * 0x1000100"
    "push_bit 24 b OR push_bit 16 b OR push_bit 8 b OR b = b * 0x1010101"
proof -
  have b: "n < 8" if "bit b n" for n
  proof (rule ccontr)
    assume "\<not> n < 8"
    have "take_bit 8 b = b"
      using assms by (simp add: word_unat_eq_iff unsigned_take_bit_eq take_bit_nat_eq_self)
    then show False
      using that \<open>\<not> n < 8\<close> by (metis bit_take_bit_iff)
  qed
  have "push_bit 16 b OR b = push_bit 16 b + b"
    by (rule or_disjoint) (auto simp: bit_push_bit_iff dest!: b)
  then show "push_bit 16 b OR b = b * 0x10001"
    by (simp add: push_bit_eq_mult algebra_simps)
  have "push_bit 24 b OR push_bit 8 b = push_bit 24 b + push_bit 8 b"
    by (rule or_disjoint) (auto simp: bit_push_bit_iff dest!: b)
  then show "push_bit 24 b OR push_bit 8 b = b * 0x1000100"
    by (simp add: push_bit_eq_mult algebra_simps)
  have "push_bit 24 b OR push_bit 16 b OR push_bit 8 b OR b
      = push_bit 24 b + (push_bit 16 b + (push_bit 8 b + b))"
    by (subst or_disjoint, (auto simp: bit_or_iff bit_push_bit_iff dest!: b)[1])+ simp
  then show "push_bit 24 b OR push_bit 16 b OR push_bit 8 b OR b = b * 0x1010101"
    by (simp add: push_bit_eq_mult algebra_simps)
qed

theorem ThumbExpandImm_C_correct:
  "ThumbExpandImm_C opcode c =
     (let imm12 = ThumbImm12 opcode
      in if imm12 < 0x400 then (Bits32 imm12 7 0 * thumb_pattern (Bits32 imm12 9 8), c)
         else let w = word_rotr (unat (Bits32 imm12 11 7)) (0x80 + Bits32 imm12 6 0)
              in (w, of_bool (bit w 31)))"
proof -
  define i where "i = ThumbImm12 opcode"
  have b: "Bits32 opcode 7 0 = Bits32 i 7 0"
    by (rule bit_word_eqI) (auto simp: i_def bit_Bits32 bit_ThumbImm12)
  have e: "push_bit 11 (Bits32 opcode 26 26) OR push_bit 8 (Bits32 opcode 14 12) OR Bits32 i 7 0 = i"
    unfolding b [symmetric] by (simp add: i_def ThumbImm12_def)
  have "unat (Bits32 i 7 0) < 256"
    using Bits32_bound [of i 7 0] by simp
  note rep = byte_repeated [OF this]
  have k: "Bits32 i 9 8 = 0 \<or> Bits32 i 9 8 = 1 \<or> Bits32 i 9 8 = 2 \<or> Bits32 i 9 8 = 3"
    using Bits32_bound [of i 9 8] by (auto simp: word_unat_eq_iff)
  have or: "0x80 OR Bits32 i 6 0 = 0x80 + Bits32 i 6 0"
    by (rule or_disjoint) (simp add: bit_Bits32 bit_exp_iff [of 7, simplified])
  have "ThumbExpandImm_C opcode c =
     (if Bits32 i 11 10 = 0
      then (let k = Bits32 i 9 8; b = Bits32 i 7 0
            in if k = 1 then push_bit 16 b OR b
               else if k = 2 then push_bit 24 b OR push_bit 8 b
               else if k = 3 then push_bit 24 b OR push_bit 16 b OR push_bit 8 b OR b
               else b, c)
      else let imm32 = ror (0x80 OR Bits32 i 6 0) 32 (Bits32 i 11 7) in (imm32, Bit32 imm32 31))"
    by (simp add: ThumbExpandImm_C_def Let_def b e)
  then show ?thesis
    using k unfolding i_def [symmetric] Let_def rep or ror_word_rotr Bit32_bit
    by (auto simp: thumb_pattern_def i_def ThumbImm12_top)
qed

section \<open>The state machine of an IT block\<close>

text \<open>The condition of the \<open>i\<close>-th instruction of a block: the upper bits of the first condition,
  and the bit of the first condition or of the mask that stands at the instruction's place.\<close>

definition it_condition :: "u32 \<Rightarrow> nat \<Rightarrow> u32" where
  "it_condition bits7_0 i = 2 * Bits32 bits7_0 7 5 + Bit32 bits7_0 (4 - i)"

definition it_length :: "u32 \<Rightarrow> nat" where
  "it_length bits7_0 =
     (if bit bits7_0 0 then 4 else if bit bits7_0 1 then 3 else if bit bits7_0 2 then 2 else 1)"

lemma CountITSize_length:
  assumes "counts_zeros (lv_countTrailingZeros L)" "Bits32 b 3 0 \<noteq> 0"
  shows "CountITSize L (Bits32 b 3 0) = of_nat (it_length b)"
proof -
  obtain k where k: "bit (Bits32 b 3 0) k" "\<And>m. m < k \<Longrightarrow> \<not> bit (Bits32 b 3 0) m"
    using assms(2) by (metis bit_eq_iff [of "Bits32 b 3 0" 0] bit_0_eq bot_apply bot_bool_def exists_least_iff)
  have k4: "k < 4" using k(1) by (simp add: bit_Bits32)
  have "lv_countTrailingZeros L (Bits32 b 3 0) = of_nat k"
    using assms(1) k by (auto simp: counts_zeros_def)
  moreover have "it_length b = 4 - k"
    using k k4 by (auto simp: it_length_def bit_Bits32 less_Suc_eq numeral_eq_Suc)
  moreover have "\<not> (3 :: u32) < of_nat k" "4 - of_nat k = (of_nat (4 - k) :: u32)"
    using k4 by (simp_all add: word_less_nat_alt unat_small of_nat_diff)
  ultimately show ?thesis
    by (simp add: CountITSize_def)
qed

definition it_after :: "u32 \<Rightarrow> nat \<Rightarrow> it_session \<Rightarrow> bool" where
  "it_after b i it \<longleftrightarrow>
     it_counter it = of_nat (it_length b - i) \<and>
     (\<forall>n. bit (it_state it) n = (if n < 5 then i \<le> n \<and> bit b (n - i) else n < 8 \<and> bit b n))"

lemma bit_times_2: "bit (w * 2 :: u32) n = (0 < n \<and> n < 32 \<and> bit w (n - 1))"
  using bit_push_bit_iff [of 1 w n] by (auto simp: push_bit_eq_mult Suc_le_eq)

lemma bit_shifted_state:
  "bit (SetBits32 w 4 0 (Bits32 w 4 0 * 2)) n =
     (if n < 5 then 0 < n \<and> bit w (n - 1) else bit w n)"
  unfolding SetBits32_def Let_def push_one_minus_one
  by (auto simp: bit_or_iff bit_and_iff bit_not_iff bit_push_bit_iff bit_mask_iff bit_Bits32
      bit_times_2 dest: bit_imp_le_length)

lemma of_nat_small_iff: "n < 2 ^ 32 \<Longrightarrow> m < 2 ^ 32 \<Longrightarrow> of_nat n = (of_nat m :: u32) \<longleftrightarrow> n = m"
  by (metis unat_small)

lemma it_length_bounds: "0 < it_length b" "it_length b \<le> 4"
  by (simp_all add: it_length_def)

lemma it_after_advance:
  assumes "it_after b i it" "Suc i < it_length b"
  shows "it_after b (Suc i) (ITAdvance it)"
proof -
  have c: "it_counter it - 1 = of_nat (it_length b - Suc i)"
    using assms by (simp add: it_after_def of_nat_diff)
  moreover have "of_nat (it_length b - Suc i) \<noteq> (0 :: u32)"
    using assms(2) it_length_bounds(2) [of b] of_nat_small_iff [of "it_length b - Suc i" 0]
    by (simp del: of_nat_diff)
  ultimately show ?thesis
    using assms(1) by (auto simp: it_after_def ITAdvance_def Let_def bit_shifted_state)
qed

lemma it_after_steps:
  "it_after b 0 it \<Longrightarrow> i < it_length b \<Longrightarrow> it_after b i ((ITAdvance ^^ i) it)"
  by (induction i) (simp_all add: it_after_advance)

lemma it_after_cond:
  assumes "it_after b i it" "i < it_length b"
  shows "it_InITBlock it" "it_LastInITBlock it \<longleftrightarrow> Suc i = it_length b"
    "it_GetCond it = it_condition b i"
proof -
  have l: "it_length b - i \<le> 4" "0 < it_length b - i" "i \<le> 3"
    using assms(2) it_length_bounds(2) [of b] by simp_all
  show in_it: "it_InITBlock it"
    using assms(1) l of_nat_small_iff [of "it_length b - i" 0]
    by (simp add: it_after_def it_InITBlock_def del: of_nat_diff)
  show "it_LastInITBlock it \<longleftrightarrow> Suc i = it_length b"
    using assms l of_nat_small_iff [of "it_length b - i" 1]
    by (auto simp: it_after_def it_LastInITBlock_def simp del: of_nat_diff)
  have "Bits32 (it_state it) 7 4 = 2 * Bits32 b 7 5 OR Bit32 b (4 - i)"
    using assms(1) l
    by (intro bit_word_eqI)
      (auto simp: bit_Bits32 it_after_def bit_or_iff bit_double_iff Bit32_bit bit_of_bool_iff less_Suc_eq
        numeral_eq_Suc)
  also have "\<dots> = it_condition b i"
    unfolding it_condition_def
    by (rule or_disjoint) (auto simp: bit_double_iff Bit32_bit bit_of_bool_iff)
  finally show "it_GetCond it = it_condition b i"
    using in_it by (simp add: it_GetCond_def)
qed

lemma InitIT_after:
  assumes "counts_zeros (lv_countTrailingZeros L)" "b < 0x100" "InitIT L b it = (True, it')"
  shows "it_after b 0 it'"
proof -
  have nz: "Bits32 b 3 0 \<noteq> 0"
    using assms by (auto simp: InitIT_def Let_def CountITSize_def counts_zeros_def split: if_splits)
  have "take_bit 8 b = b"
    using assms(2) by (simp add: word_unat_eq_iff unsigned_take_bit_eq take_bit_nat_eq_self word_less_nat_alt)
  then have hi: "n < 8" if "bit b n" for n
    using that by (metis bit_take_bit_iff)
  then show ?thesis
    using assms(3) CountITSize_length [OF assms(1) nz]
    by (auto simp: it_after_def InitIT_def Let_def split: if_splits dest: hi)
qed

lemma it_after_last:
  assumes "it_after b i it" "Suc i = it_length b"
  shows "\<not> it_InITBlock (ITAdvance it) \<and> it_GetCond (ITAdvance it) = COND_AL"
proof -
  have "it_counter it = 1"
  proof -
    have "it_length b - i = 1" using assms(2) by simp
    then show ?thesis using assms(1) by (simp only: it_after_def) simp
  qed
  then show ?thesis
    by (simp add: ITAdvance_def it_InITBlock_def it_GetCond_def)
qed

text \<open>C22: Once InitIT has accepted the bits of an IT instruction, the session is inside a block for as
  many instructions as the mask says, one to four; each of them sees the condition that the architecture
  gives it, the first condition with its lowest bit replaced by the instruction's bit of the mask; only
  the last one is reported as the last; and after it the session is outside the block, where everything
  is executed.\<close>

theorem IT_block_conditions:
  assumes "counts_zeros (lv_countTrailingZeros L)" "b < 0x100" "InitIT L b it = (True, it')"
  shows "(\<forall>i < it_length b. it_InITBlock ((ITAdvance ^^ i) it') \<and>
            it_GetCond ((ITAdvance ^^ i) it') = it_condition b i \<and>
            (it_LastInITBlock ((ITAdvance ^^ i) it') \<longleftrightarrow> Suc i = it_length b)) \<and>
         \<not> it_InITBlock ((ITAdvance ^^ it_length b) it') \<and>
         it_GetCond ((ITAdvance ^^ it_length b) it') = COND_AL"
proof -
  note start = InitIT_after [OF assms]
  obtain k where k: "it_length b = Suc k"
    using it_length_bounds(1) [of b] by (cases "it_length b") auto
  have "it_after b k ((ITAdvance ^^ k) it')"
    using it_after_steps [OF start] k by simp
  from it_after_last [OF this]
  have "\<not> it_InITBlock ((ITAdvance ^^ it_length b) it') \<and>
      it_GetCond ((ITAdvance ^^ it_length b) it') = COND_AL"
    by (simp add: k)
  moreover have "it_InITBlock ((ITAdvance ^^ i) it') \<and>
      it_GetCond ((ITAdvance ^^ i) it') = it_condition b i \<and>
      (it_LastInITBlock ((ITAdvance ^^ i) it') \<longleftrightarrow> Suc i = it_length b)" if "i < it_length b" for i
    using it_after_cond [OF it_after_steps [OF start that] that] by blast
  ultimately show ?thesis by blast
qed

definition zeros :: "u32 \<Rightarrow> u32" where
  "zeros w = of_nat (length (takeWhile (\<lambda>n. \<not> bit w n) [0..<32]))"

lemma counts_zeros_zeros: "counts_zeros zeros"
proof -
  have "length (takeWhile (\<lambda>n. \<not> bit w n) [0..<32]) = n" if "bit w n" "\<And>m. m < n \<Longrightarrow> \<not> bit w m"
    for w :: u32 and n
  proof -
    have n: "n < 32" using bit_imp_le_length [OF that(1)] by simp
    have "[0..<32] = [0..<n] @ n # [Suc n..<32]"
      using n by (metis append_Cons append_Nil le_add_same_cancel1 less_imp_add_positive
          less_imp_le_nat upt_add_eq_append upt_conv_Cons zero_le)
    moreover have "takeWhile (\<lambda>n. \<not> bit w n) ([0..<n] @ n # [Suc n..<32])
        = [0..<n] @ takeWhile (\<lambda>n. \<not> bit w n) (n # [Suc n..<32])"
      by (rule takeWhile_append2) (use that(2) in auto)
    ultimately show ?thesis
      using that(1) by (simp del: upt_Suc upt_rec_numeral)
  qed
  then show ?thesis
    unfolding counts_zeros_def zeros_def by (auto simp: takeWhile_eq_all_conv [THEN iffD2])
qed

definition the_llvm_math :: llvm_math where
  "the_llvm_math = \<lparr>lv_countTrailingZeros = zeros, lv_SignExtend32 = (\<lambda>b w. word_of_int (signed_take_bit (b - 1) (uint w))),
     lv_SignExtend64_32 = (\<lambda>w. scast (ucast w :: u32)), lv_SignExtend64 = (\<lambda>b. signed_take_bit (b - 1))\<rparr>"

lemma the_llvm_math_ok [simp]:
  "counts_zeros (lv_countTrailingZeros the_llvm_math)"
  "extends_sign (lv_SignExtend64_32 the_llvm_math)"
proof -
  have "ucast (ucast w :: u64) = w" for w :: u32
    by (rule bit_word_eqI) (auto simp: bit_ucast_iff dest: bit_imp_le_length)
  then show "counts_zeros (lv_countTrailingZeros the_llvm_math)"
    "extends_sign (lv_SignExtend64_32 the_llvm_math)"
    by (simp_all add: the_llvm_math_def counts_zeros_zeros extends_sign_def)
qed

lemma map_four: "f 0 = a \<Longrightarrow> f 1 = b \<Longrightarrow> f 2 = c \<Longrightarrow> f 3 = d \<Longrightarrow> map f [0, 1, 2, 3 :: nat] = [a, b, c, d]"
  by simp

text \<open>\<open>ITTE EQ\<close>: the conditions are EQ, EQ, NE.\<close>

theorem IT_block_conditions_witness:
  "\<exists>it'. InitIT the_llvm_math 0x06 \<lparr>it_counter = 0, it_state = 0\<rparr> = (True, it') \<and>
     map (\<lambda>i. it_GetCond ((ITAdvance ^^ i) it')) [0, 1, 2, 3] = [0, 0, 1, 0xE]"
proof -
  let ?it = "\<lparr>it_counter = 3, it_state = 0x06\<rparr>"
  have init: "InitIT the_llvm_math 0x06 \<lparr>it_counter = 0, it_state = 0\<rparr> = (True, ?it)"
    by code_simp
  have l: "it_length 0x06 = 3" by code_simp
  have c: "it_condition 0x06 0 = 0" "it_condition 0x06 1 = 0" "it_condition 0x06 2 = 1" by code_simp+
  have at: "\<And>i. i < 3 \<Longrightarrow> it_GetCond ((ITAdvance ^^ i) ?it) = it_condition 0x06 i"
    and last: "it_GetCond ((ITAdvance ^^ 3) ?it) = COND_AL"
    using IT_block_conditions [OF the_llvm_math_ok(1) _ init] unfolding l by simp_all
  have lt: "(0 :: nat) < 3" "(1 :: nat) < 3" "(2 :: nat) < 3" by simp_all
  have "map (\<lambda>i. it_GetCond ((ITAdvance ^^ i) ?it)) [0, 1, 2, 3] = [0, 0, 1, 0xE]"
    by (rule map_four [OF at [OF lt(1), unfolded c] at [OF lt(2), unfolded c] at [OF lt(3), unfolded c] last])
  then show ?thesis
    by (intro exI [of _ ?it] conjI init)
qed

end
