(* ===== verification/ARMEmulator.thy ===== *)
theory ARMEmulator
  imports ARMUtils DataExtractor UnwindPlan
begin

text \<open>
  The emulator of ARM instructions between the decoder and the callbacks: the state of an
  \<open>EmulateInstructionARM\<close>, the register and memory access of \<open>source/Core/EmulateInstruction.cpp\<close>,
  the conditions, the writes of the program counter, the flags and the adder.

  The baton is a value of type \<open>'s\<close>, the four callbacks are operations on it; \<open>arm_env\<close> gathers them with
  what the architecture says. A function that returns success becomes \<open>bool \<times> 's arm\<close>, a read with a
  success flag an \<open>option\<close>. \<open>None\<close> of a result \<open>(bool \<times> 's arm) option\<close> is undefined behaviour.
\<close>

section \<open>Contexts of an access\<close>

datatype context_type =
    eContextInvalid | eContextReadOpcode | eContextImmediate | eContextPushRegisterOnStack
  | eContextPopRegisterOffStack | eContextAdjustStackPointer | eContextSetFramePointer
  | eContextRestoreStackPointer | eContextAdjustBaseRegister | eContextAdjustPC
  | eContextRegisterPlusOffset | eContextRegisterStore | eContextRegisterLoad
  | eContextRelativeBranchImmediate | eContextAbsoluteBranchRegister | eContextSupervisorCall
  | eContextTableBranchReadMemory | eContextWriteRegisterRandomBits
  | eContextWriteMemoryRandomBits | eContextArithmetic | eContextAdvancePC
  | eContextReturnFromException

text \<open>A register of a context is named by its DWARF number.\<close>

datatype context_info =
    RegisterPlusOffset u32 u64
  | RegisterPlusIndirectOffset u32 u32
  | RegisterToRegisterPlusOffset u32 u32 u64
  | RegisterToRegisterPlusIndirectOffset u32 u32 u32
  | RegisterRegisterOperands u32 u32
  | Offset u64
  | Register u32
  | Immediate u64
  | ImmediateSigned u64
  | Address u64
  | ISAAndImmediate u32 u32
  | ISAAndImmediateSigned u32 u32
  | ISA u32
  | NoArgs

type_synonym access_context = "context_type \<times> context_info"

section \<open>The emulator\<close>

datatype arm_mode = eModeInvalid | eModeARM | eModeThumb

primrec mode_number :: "arm_mode \<Rightarrow> u32" where
  "mode_number eModeInvalid = - 1"
| "mode_number eModeARM = 0"
| "mode_number eModeThumb = 1"

datatype arm_encoding =
    eEncodingA1 | eEncodingA2 | eEncodingA3 | eEncodingA4 | eEncodingA5
  | eEncodingT1 | eEncodingT2 | eEncodingT3 | eEncodingT4 | eEncodingT5

record 's arm =
  am_isa :: u32
  am_mode :: arm_mode
  am_cpsr :: u32
  am_new_cpsr :: u32
  am_it :: it_session
  am_ignore :: bool
  am_opcode :: u32
  am_opcode_size :: nat
  am_addr :: u64
  am_host :: 's

type_synonym 's emulated = "(bool \<times> 's arm) option"

record 's arm_env =
  ae_platform :: platform
  ae_llvm :: llvm_math
  ae_byte_order :: byte_order
  ae_addr_size :: nat
  ae_android :: bool
  ae_apple :: bool
  ae_always_thumb :: bool
  ae_rand :: "'s \<Rightarrow> u32"
  ae_read_mem :: "access_context \<Rightarrow> u64 \<Rightarrow> nat \<Rightarrow> 's \<Rightarrow> u8 list"
  ae_write_mem :: "access_context \<Rightarrow> u64 \<Rightarrow> u8 list \<Rightarrow> 's \<Rightarrow> nat \<times> 's"
  ae_read_reg :: "u32 \<Rightarrow> 's \<Rightarrow> u64 option"
  ae_write_reg :: "access_context \<Rightarrow> u32 \<Rightarrow> u64 \<Rightarrow> 's \<Rightarrow> bool \<times> 's"

text \<open>The architectures of \<open>m_arm_isa\<close>.\<close>

abbreviation (input) ARMv5T :: u32 where "ARMv5T \<equiv> 0x4"
abbreviation (input) ARMv6 :: u32 where "ARMv6 \<equiv> 0x20"
abbreviation (input) ARMv7 :: u32 where "ARMv7 \<equiv> 0x100"
abbreviation (input) ARMvAll :: u32 where "ARMvAll \<equiv> 0xffffffff"

abbreviation (input) CPSR_V_POS :: nat where "CPSR_V_POS \<equiv> 28"
abbreviation (input) CPSR_C_POS :: nat where "CPSR_C_POS \<equiv> 29"
abbreviation (input) CPSR_Z_POS :: nat where "CPSR_Z_POS \<equiv> 30"
abbreviation (input) CPSR_N_POS :: nat where "CPSR_N_POS \<equiv> 31"
abbreviation (input) MASK_CPSR_T :: u32 where "MASK_CPSR_T \<equiv> 0x20"

abbreviation (input) SP_REG :: u32 where "SP_REG \<equiv> 13"
abbreviation (input) LR_REG :: u32 where "LR_REG \<equiv> 14"
abbreviation (input) PC_REG :: u32 where "PC_REG \<equiv> 15"
abbreviation (input) dwarf_cpsr :: u32 where "dwarf_cpsr \<equiv> 16"

abbreviation (input) GENERIC_PC :: u32 where "GENERIC_PC \<equiv> 0"
abbreviation (input) GENERIC_SP :: u32 where "GENERIC_SP \<equiv> 1"
abbreviation (input) GENERIC_FP :: u32 where "GENERIC_FP \<equiv> 2"
abbreviation (input) GENERIC_RA :: u32 where "GENERIC_RA \<equiv> 3"
abbreviation (input) GENERIC_FLAGS :: u32 where "GENERIC_FLAGS \<equiv> 4"

definition APSR_C :: "'s arm \<Rightarrow> u32" where
  "APSR_C s = Bit32 (am_cpsr s) CPSR_C_POS"

section \<open>Registers and memory: EmulateInstruction.cpp\<close>

text \<open>The DWARF number and the size of a register.\<close>

definition GetARMDWARFRegisterInfo :: "u32 \<Rightarrow> (u32 \<times> nat) option" where
  "GetARMDWARFRegisterInfo reg_num =
     (let byte_size = (if 256 \<le> reg_num \<and> reg_num \<le> 287 then 8
                       else if 64 \<le> reg_num \<and> reg_num \<le> 95 then 4
                       else if 96 \<le> reg_num \<and> reg_num \<le> 103 then 12
                       else 4)
      in if reg_num \<le> 16 \<or> 64 \<le> reg_num \<and> reg_num \<le> 133 \<or> 144 \<le> reg_num \<and> reg_num \<le> 165
            \<or> 192 \<le> reg_num \<and> reg_num \<le> 199 \<or> 256 \<le> reg_num \<and> reg_num \<le> 303
         then Some (reg_num, byte_size) else None)"

definition GetARMRegisterInfo :: "register_kind \<Rightarrow> u32 \<Rightarrow> (u32 \<times> nat) option" where
  "GetARMRegisterInfo reg_kind reg_num =
     (if reg_kind = eRegisterKindGeneric then
        (if reg_num = GENERIC_PC then GetARMDWARFRegisterInfo 15
         else if reg_num = GENERIC_SP then GetARMDWARFRegisterInfo 13
         else if reg_num = GENERIC_FP then GetARMDWARFRegisterInfo 7
         else if reg_num = GENERIC_RA then GetARMDWARFRegisterInfo 14
         else if reg_num = GENERIC_FLAGS then GetARMDWARFRegisterInfo 16
         else None)
      else if reg_kind = eRegisterKindDWARF then GetARMDWARFRegisterInfo reg_num
      else None)"

definition ReadRegisterUnsigned :: "'s arm_env \<Rightarrow> register_kind \<Rightarrow> u32 \<Rightarrow> 's arm \<Rightarrow> u64 option" where
  "ReadRegisterUnsigned E reg_kind reg_num s =
     (case GetARMRegisterInfo reg_kind reg_num of
        None \<Rightarrow> None
      | Some (n, byte_size) \<Rightarrow> ae_read_reg E n (am_host s))"

text \<open>\<open>RegisterValue::SetUInt\<close> and \<open>GetAsUInt64\<close>: the number cut to the size of the register.\<close>

definition SetUInt :: "u64 \<Rightarrow> nat \<Rightarrow> u64 option" where
  "SetUInt v byte_size =
     (if byte_size = 0 then Some v
      else if byte_size = 1 then Some (ucast (ucast v :: u8))
      else if byte_size \<le> 2 then Some (ucast (ucast v :: u16))
      else if byte_size \<le> 4 then Some (ucast (ucast v :: u32))
      else if byte_size \<le> 16 then Some v
      else None)"

definition WriteRegisterUnsigned ::
  "'s arm_env \<Rightarrow> access_context \<Rightarrow> register_kind \<Rightarrow> u32 \<Rightarrow> u64 \<Rightarrow> 's arm \<Rightarrow> bool \<times> 's arm" where
  "WriteRegisterUnsigned E ctx reg_kind reg_num v s =
     (case GetARMRegisterInfo reg_kind reg_num of
        None \<Rightarrow> (False, s)
      | Some (n, byte_size) \<Rightarrow>
          (case SetUInt v byte_size of
             None \<Rightarrow> (False, s)
           | Some v \<Rightarrow> (let (ok, h) = ae_write_reg E ctx n v (am_host s) in (ok, s\<lparr>am_host := h\<rparr>))))"

definition ReadMemoryUnsigned ::
  "'s arm_env \<Rightarrow> access_context \<Rightarrow> u64 \<Rightarrow> nat \<Rightarrow> 's arm \<Rightarrow> u64 option" where
  "ReadMemoryUnsigned E ctx addr byte_size s =
     (if byte_size \<le> 8 then
        let buf = ae_read_mem E ctx addr byte_size (am_host s)
        in if length buf = byte_size
           then Some (fst (GetMaxU64 (ae_platform E)
                  (DataExtractor_of_bytes buf (ae_byte_order E) (ae_addr_size E) 1) 0 byte_size))
           else None
      else None)"

text \<open>\<open>Stream::PutMaxHex64\<close> of a binary stream.\<close>

definition binary_bytes :: "byte_order \<Rightarrow> u64 \<Rightarrow> nat \<Rightarrow> u8 list" where
  "binary_bytes bo v n =
     (let bytes = map (\<lambda>k. ucast (drop_bit (8 * k) v)) [0..<n]
      in if n \<in> {1, 2, 4, 8} then if bo = eByteOrderLittle then bytes else rev bytes else [])"

definition WriteMemoryUnsigned ::
  "'s arm_env \<Rightarrow> access_context \<Rightarrow> u64 \<Rightarrow> u64 \<Rightarrow> nat \<Rightarrow> 's arm \<Rightarrow> bool \<times> 's arm" where
  "WriteMemoryUnsigned E ctx addr uval n s =
     (let (written, h) = ae_write_mem E ctx addr (binary_bytes (ae_byte_order E) uval n) (am_host s)
      in (written = n, s\<lparr>am_host := h\<rparr>))"

abbreviation MemARead where "MemARead \<equiv> ReadMemoryUnsigned"
abbreviation MemAWrite where "MemAWrite \<equiv> WriteMemoryUnsigned"
abbreviation MemURead where "MemURead \<equiv> ReadMemoryUnsigned"
abbreviation MemUWrite where "MemUWrite \<equiv> WriteMemoryUnsigned"

text \<open>\<open>if (!success) return false;\<close> after a read, and after a write.\<close>

definition need :: "'a option \<Rightarrow> 's arm \<Rightarrow> ('a \<Rightarrow> 's emulated) \<Rightarrow> 's emulated" where
  "need v s f = (case v of None \<Rightarrow> Some (False, s) | Some x \<Rightarrow> f x)"

definition check :: "bool \<times> 's arm \<Rightarrow> ('s arm \<Rightarrow> 's emulated) \<Rightarrow> 's emulated" where
  "check r f = (let (ok, s) = r in if ok then f s else Some (False, s))"

abbreviation fails :: "'s arm \<Rightarrow> 's emulated" where
  "fails s \<equiv> Some (False, s)"

abbreviation succeeds :: "'s arm \<Rightarrow> 's emulated" where
  "succeeds s \<equiv> Some (True, s)"

definition WriteBits32UnknownToMemory :: "'s arm_env \<Rightarrow> u64 \<Rightarrow> 's arm \<Rightarrow> bool \<times> 's arm" where
  "WriteBits32UnknownToMemory E address s =
     MemAWrite E (eContextWriteMemoryRandomBits, NoArgs) address (ucast (ae_rand E (am_host s)))
       (ae_addr_size E) s"

definition WriteBits32Unknown :: "'s arm_env \<Rightarrow> u32 \<Rightarrow> 's arm \<Rightarrow> bool \<times> 's arm" where
  "WriteBits32Unknown E n s =
     (case ReadRegisterUnsigned E eRegisterKindDWARF n s of
        None \<Rightarrow> (False, s)
      | Some data \<Rightarrow>
          WriteRegisterUnsigned E (eContextWriteRegisterRandomBits, NoArgs) eRegisterKindDWARF n
            (ucast (ucast data :: u32)) s)"

section \<open>The frame pointer\<close>

definition GetFramePointerRegisterNumber :: "'s arm_env \<Rightarrow> 's arm \<Rightarrow> u32" where
  "GetFramePointerRegisterNumber E s =
     (if ae_android E then - 1
      else let fp_regnum = 11;
               fp_regnum = (if ae_apple E then 7 else fp_regnum);
               fp_regnum = (if am_mode s = eModeThumb then 7 else fp_regnum)
           in fp_regnum)"

definition GetFramePointerDWARFRegisterNumber :: "'s arm_env \<Rightarrow> 's arm \<Rightarrow> u32" where
  "GetFramePointerDWARFRegisterNumber E s =
     (let fp_regnum = 11;
          fp_regnum = (if ae_apple E then 7 else fp_regnum);
          fp_regnum = (if am_mode s = eModeThumb then 7 else fp_regnum)
      in fp_regnum)"

section \<open>Conditions\<close>

definition CurrentCond :: "u32 \<Rightarrow> 's arm \<Rightarrow> u32" where
  "CurrentCond opcode s =
     (case am_mode s of
        eModeInvalid \<Rightarrow> - 1
      | eModeARM \<Rightarrow> ucast (UnsignedBits (ucast opcode) 31 28)
      | eModeThumb \<Rightarrow>
          (if am_opcode_size s = 2 \<and> Bits32 opcode 15 12 = 0x0d \<and> Bits32 opcode 11 8 \<noteq> 0x0f
           then Bits32 opcode 11 8
           else if am_opcode_size s = 4 \<and> Bits32 opcode 31 27 = 0x1e \<and> Bits32 opcode 15 14 = 0x02 \<and>
                   Bits32 opcode 12 12 = 0x00 \<and> Bits32 opcode 25 22 \<le> 0x0d
           then Bits32 opcode 25 22
           else if am_opcode_size s = 2 \<or> am_opcode_size s = 4 then it_GetCond (am_it s)
           else - 1))"

definition ConditionPassed :: "u32 \<Rightarrow> 's arm \<Rightarrow> bool" where
  "ConditionPassed opcode s =
     (if am_ignore s then True
      else
        let cond = CurrentCond opcode s
        in if cond = - 1 then False
           else
             let cpsr = am_cpsr s; k = UnsignedBits (ucast cond) 3 1;
                 n = bit cpsr CPSR_N_POS; z = bit cpsr CPSR_Z_POS;
                 c = bit cpsr CPSR_C_POS; v = bit cpsr CPSR_V_POS;
                 result = (if cpsr = 0 then True
                           else if k = 0 then z
                           else if k = 1 then c
                           else if k = 2 then n
                           else if k = 3 then v
                           else if k = 4 then c \<and> \<not> z
                           else if k = 5 then n = v
                           else n = v \<and> \<not> z)
             in if k = 7 then True
                else if cond AND 1 \<noteq> 0 then \<not> result else result)"

definition CurrentInstrSet :: "'s arm \<Rightarrow> arm_mode" where
  "CurrentInstrSet s = am_mode s"

definition InITBlock :: "'s arm \<Rightarrow> bool" where
  "InITBlock s \<longleftrightarrow> CurrentInstrSet s = eModeThumb \<and> it_InITBlock (am_it s)"

definition LastInITBlock :: "'s arm \<Rightarrow> bool" where
  "LastInITBlock s \<longleftrightarrow> CurrentInstrSet s = eModeThumb \<and> it_LastInITBlock (am_it s)"

definition GetInstructionCondition :: "'s arm \<Rightarrow> u32" where
  "GetInstructionCondition s =
     (let cond = CurrentCond (am_opcode s) s
      in if cond = 0xe \<or> cond = 0xf \<or> cond = - 1 then - 1 else cond)"

definition ArchVersion :: "'s arm \<Rightarrow> u32" where
  "ArchVersion s = am_isa s"

definition UnalignedSupport :: "'s arm \<Rightarrow> bool" where
  "UnalignedSupport s \<longleftrightarrow> ArchVersion s \<ge> ARMv7"

section \<open>The status register\<close>

definition BadMode :: "u32 \<Rightarrow> bool" where
  "BadMode mode \<longleftrightarrow> mode \<notin> {16, 17, 18, 19, 22, 23, 27, 31}"

definition CurrentModeIsPrivileged :: "'s arm \<Rightarrow> bool" where
  "CurrentModeIsPrivileged s =
     (let mode = Bits32 (am_cpsr s) 4 0 in if BadMode mode then False else mode \<noteq> 16)"

definition CPSRWriteByInstr :: "u32 \<Rightarrow> u32 \<Rightarrow> bool \<Rightarrow> 's arm \<Rightarrow> 's arm" where
  "CPSRWriteByInstr value bytemask affect_execstate s =
     (let privileged = CurrentModeIsPrivileged s;
          t = push_bit 20 (Bits32 (am_cpsr s) 23 20);
          t = (if is_set bytemask 3 then
                 let t = t OR push_bit 27 (Bits32 value 31 27)
                 in if affect_execstate then t OR push_bit 24 (Bits32 value 26 24) else t
               else t);
          t = (if is_set bytemask 2 then t OR push_bit 16 (Bits32 value 19 16) else t);
          t = (if is_set bytemask 1 then
                 let t = (if affect_execstate then t OR push_bit 10 (Bits32 value 15 10) else t);
                     t = t OR push_bit 9 (Bit32 value 9)
                 in if privileged then t OR push_bit 8 (Bit32 value 8) else t
               else t);
          t = (if is_set bytemask 0 then
                 let t = (if privileged then t OR push_bit 6 (Bits32 value 7 6) else t);
                     t = (if affect_execstate then t OR push_bit 5 (Bit32 value 5) else t)
                 in if privileged then t OR Bits32 value 4 0 else t
               else t)
      in s\<lparr>am_cpsr := t\<rparr>)"

definition SelectInstrSet :: "arm_mode \<Rightarrow> 's arm \<Rightarrow> bool \<times> 's arm" where
  "SelectInstrSet arm_or_thumb s =
     (let s = s\<lparr>am_new_cpsr := am_cpsr s\<rparr>
      in case arm_or_thumb of
           eModeInvalid \<Rightarrow> (False, s)
         | eModeARM \<Rightarrow> (True, s\<lparr>am_new_cpsr := am_new_cpsr s AND NOT MASK_CPSR_T\<rparr>)
         | eModeThumb \<Rightarrow> (True, s\<lparr>am_new_cpsr := am_new_cpsr s OR MASK_CPSR_T\<rparr>))"

section \<open>Writes of the program counter\<close>

definition BranchWritePC :: "'s arm_env \<Rightarrow> access_context \<Rightarrow> u32 \<Rightarrow> 's arm \<Rightarrow> bool \<times> 's arm" where
  "BranchWritePC E ctx addr s =
     WriteRegisterUnsigned E ctx eRegisterKindGeneric GENERIC_PC
       (ucast (if CurrentInstrSet s = eModeARM then addr AND 0xfffffffc else addr AND 0xfffffffe)) s"

definition BXWritePC_select :: "arm_mode \<Rightarrow> 's arm \<Rightarrow> bool \<times> 's arm" where
  "BXWritePC_select mode s =
     (if CurrentInstrSet s \<noteq> mode then (True, snd (SelectInstrSet mode s)) else (False, s))"

definition BXWritePC :: "'s arm_env \<Rightarrow> access_context \<Rightarrow> u32 \<Rightarrow> 's arm \<Rightarrow> bool \<times> 's arm" where
  "BXWritePC E ctx addr s =
     (if is_clear addr 0 \<and> \<not> is_clear addr 1 then (False, s)
      else
        let mode = (if is_set addr 0 then eModeThumb else eModeARM);
            target = (if is_set addr 0 then addr AND 0xfffffffe else addr AND 0xfffffffc);
            (cpsr_changed, s) = BXWritePC_select mode s;
            ctx = (fst ctx, ISA (mode_number mode));
            (ok, s) = (if cpsr_changed
                       then WriteRegisterUnsigned E ctx eRegisterKindGeneric GENERIC_FLAGS
                              (ucast (am_new_cpsr s)) s
                       else (True, s))
        in if ok then WriteRegisterUnsigned E ctx eRegisterKindGeneric GENERIC_PC (ucast target) s
           else (False, s))"

definition LoadWritePC :: "'s arm_env \<Rightarrow> access_context \<Rightarrow> u32 \<Rightarrow> 's arm \<Rightarrow> bool \<times> 's arm" where
  "LoadWritePC E ctx addr s =
     (if ArchVersion s \<ge> ARMv5T then BXWritePC E ctx addr s else BranchWritePC E ctx addr s)"

definition ALUWritePC :: "'s arm_env \<Rightarrow> access_context \<Rightarrow> u32 \<Rightarrow> 's arm \<Rightarrow> bool \<times> 's arm" where
  "ALUWritePC E ctx addr s =
     (if ArchVersion s \<ge> ARMv7 \<and> CurrentInstrSet s = eModeARM
      then BXWritePC E ctx addr s else BranchWritePC E ctx addr s)"

section \<open>The adder and the core registers\<close>

text \<open>A sum of \<open>int32_t\<close>; an overflow is undefined behaviour.\<close>

definition int32_sum :: "int \<Rightarrow> int \<Rightarrow> int option" where
  "int32_sum a b = (if - (2 ^ 31) \<le> a + b \<and> a + b < 2 ^ 31 then Some (a + b) else None)"

text \<open>The result, the carry and the overflow.\<close>

definition AddWithCarry :: "u32 \<Rightarrow> u32 \<Rightarrow> u32 \<Rightarrow> (u32 \<times> u32 \<times> u32) option" where
  "AddWithCarry x y carry_in =
     do { signed_sum \<leftarrow> int32_sum (sint x) (sint y);
          signed_sum \<leftarrow> int32_sum signed_sum (uint carry_in);
          let unsigned_sum = (ucast (x + y + carry_in) :: u64);
              result = (ucast (UnsignedBits unsigned_sum 31 0) :: u32);
              overflow = (if sint result = signed_sum then 0 else 1);
              carry_out = (if carry_in \<noteq> 0 then if sint x \<ge> sint (NOT y) then 1 else 0
                           else if sint x > sint y then 1 else 0)
          in Some (result, carry_out, overflow) }"

definition ReadCoreReg :: "'s arm_env \<Rightarrow> u32 \<Rightarrow> 's arm \<Rightarrow> u32 option" where
  "ReadCoreReg E num s =
     (if num > 15 then None
      else
        let (reg_kind, reg_num) =
              (if num = SP_REG then (eRegisterKindGeneric, GENERIC_SP)
               else if num = LR_REG then (eRegisterKindGeneric, GENERIC_RA)
               else if num = PC_REG then (eRegisterKindGeneric, GENERIC_PC)
               else (eRegisterKindDWARF, num))
        in map_option (\<lambda>v. let val = (ucast v :: u32)
                            in if num = 15 then if CurrentInstrSet s = eModeARM then val + 8 else val + 4
                               else val)
             (ReadRegisterUnsigned E reg_kind reg_num s))"

definition SetFlag :: "nat \<Rightarrow> u32 \<Rightarrow> 's arm \<Rightarrow> 's arm" where
  "SetFlag pos v s = s\<lparr>am_new_cpsr := SetBit32 (am_new_cpsr s) pos v\<rparr>"

text \<open>The default arguments, all ones, leave the flag alone.\<close>

definition WriteFlags :: "'s arm_env \<Rightarrow> access_context \<Rightarrow> u32 \<Rightarrow> u32 \<Rightarrow> u32 \<Rightarrow> 's arm \<Rightarrow> bool \<times> 's arm" where
  "WriteFlags E ctx result carry overflow s =
     (let s = s\<lparr>am_new_cpsr := am_cpsr s\<rparr>;
          s = SetFlag CPSR_N_POS (Bit32 result CPSR_N_POS) s;
          s = SetFlag CPSR_Z_POS (if result = 0 then 1 else 0) s;
          s = (if carry \<noteq> - 1 then SetFlag CPSR_C_POS carry s else s);
          s = (if overflow \<noteq> - 1 then SetFlag CPSR_V_POS overflow s else s)
      in if am_new_cpsr s \<noteq> am_cpsr s
         then WriteRegisterUnsigned E ctx eRegisterKindGeneric GENERIC_FLAGS (ucast (am_new_cpsr s)) s
         else (True, s))"

definition WriteCoreRegOptionalFlags ::
  "'s arm_env \<Rightarrow> access_context \<Rightarrow> u32 \<Rightarrow> u32 \<Rightarrow> bool \<Rightarrow> u32 \<Rightarrow> u32 \<Rightarrow> 's arm \<Rightarrow> bool \<times> 's arm" where
  "WriteCoreRegOptionalFlags E ctx result Rd setflags carry overflow s =
     (if Rd = 15 then ALUWritePC E ctx result s
      else
        let (reg_kind, reg_num) =
              (if Rd = SP_REG then (eRegisterKindGeneric, GENERIC_SP)
               else if Rd = LR_REG then (eRegisterKindGeneric, GENERIC_RA)
               else (eRegisterKindDWARF, Rd));
            (ok, s) = WriteRegisterUnsigned E ctx reg_kind reg_num (ucast result) s
        in if \<not> ok then (False, s)
           else if setflags then WriteFlags E ctx result carry overflow s
           else (True, s))"

definition WriteCoreReg :: "'s arm_env \<Rightarrow> access_context \<Rightarrow> u32 \<Rightarrow> u32 \<Rightarrow> 's arm \<Rightarrow> bool \<times> 's arm" where
  "WriteCoreReg E ctx result Rd s = WriteCoreRegOptionalFlags E ctx result Rd False (- 1) (- 1) s"

end
