(* ===== verification/ARMPseudoState.thy ===== *)
theory ARMPseudoState
  imports ARMEmulator
begin

text \<open>
  What the emulator asks of its callbacks, as two locales, and the provider the sources have for it:
  \<open>EmulationStateARM\<close>, the registers and the memory that \<open>TestEmulation\<close> runs an instruction on.
\<close>

section \<open>The contract of the callbacks\<close>

text \<open>The seventeen core registers, \<open>r0\<close> to \<open>pc\<close> and the status register, can be read and written.\<close>

locale arm_host =
  fixes E :: "'s arm_env"
    and ok :: "'s \<Rightarrow> bool"
    and regs :: "'s \<Rightarrow> u32 \<Rightarrow> u32"
    and set_reg :: "'s \<Rightarrow> u32 \<Rightarrow> u32 \<Rightarrow> 's"
  assumes read_reg: "ok h \<Longrightarrow> r \<le> 16 \<Longrightarrow> ae_read_reg E r h = Some (ucast (regs h r))"
    and write_reg: "ok h \<Longrightarrow> r \<le> 16 \<Longrightarrow> ae_write_reg E ctx r v h = (True, set_reg h r (ucast v))"
    and ok_set_reg: "ok h \<Longrightarrow> r \<le> 16 \<Longrightarrow> ok (set_reg h r w)"
    and regs_set_reg: "ok h \<Longrightarrow> r \<le> 16 \<Longrightarrow> regs (set_reg h r w) = (regs h)(r := w)"

text \<open>And words of the memory can.\<close>

locale arm_memory = arm_host +
  fixes words :: "'a \<Rightarrow> u64 \<Rightarrow> u32 option"
    and set_word :: "'a \<Rightarrow> u64 \<Rightarrow> u32 \<Rightarrow> 'a"
  assumes addr_size: "ok h \<Longrightarrow> ae_addr_size E = 4"
    and read_word: "ok (am_host s) \<Longrightarrow>
      ReadMemoryUnsigned E ctx a 4 s = map_option ucast (words (am_host s) a)"
    and write_word: "ok (am_host s) \<Longrightarrow>
      WriteMemoryUnsigned E ctx a v 4 s = (True, s\<lparr>am_host := set_word (am_host s) a (ucast v)\<rparr>)"
    and ok_set_word: "ok h \<Longrightarrow> ok (set_word h a w)"
    and words_set_word: "ok h \<Longrightarrow> words (set_word h a w) = (words h)(a \<mapsto> w)"
    and regs_set_word: "ok h \<Longrightarrow> regs (set_word h a w) = regs h"
    and words_set_reg: "ok h \<Longrightarrow> r \<le> 16 \<Longrightarrow> words (set_reg h r w) = words h"

section \<open>EmulationStateARM\<close>

record pseudo_state =
  ps_gpr :: "u32 list"
  ps_s_regs :: "u32 list"
  ps_d_regs :: "u64 list"
  ps_memory :: "u64 \<rightharpoonup> u32"

definition StorePseudoRegisterValue :: "u32 \<Rightarrow> u64 \<Rightarrow> pseudo_state \<Rightarrow> bool \<times> pseudo_state" where
  "StorePseudoRegisterValue reg_num value st =
     (if reg_num \<le> dwarf_cpsr then
        (True, st\<lparr>ps_gpr := (ps_gpr st)[unat reg_num := ucast value]\<rparr>)
      else if 64 \<le> reg_num \<and> reg_num \<le> 95 then
        (True, st\<lparr>ps_s_regs := (ps_s_regs st)[unat (reg_num - 64) := ucast value]\<rparr>)
      else if 256 \<le> reg_num \<and> reg_num \<le> 287 then
        let idx = unat (reg_num - 256)
        in if idx < 16 then
             (True, st\<lparr>ps_s_regs := (ps_s_regs st)
                [idx * 2 := ucast value, idx * 2 + 1 := ucast (drop_bit 32 value)]\<rparr>)
           else (True, st\<lparr>ps_d_regs := (ps_d_regs st)[idx - 16 := value]\<rparr>)
      else (False, st))"

text \<open>\<open>beyond k\<close> is the word the process has \<open>k\<close> places behind the sixteen of \<open>d_regs\<close>: the
  registers \<open>s16\<close> to \<open>s31\<close> are read there.\<close>

definition d_reg :: "(nat \<Rightarrow> u64) \<Rightarrow> pseudo_state \<Rightarrow> nat \<Rightarrow> u64" where
  "d_reg beyond st idx = (if idx < 16 then ps_d_regs st ! idx else beyond (idx - 16))"

definition ReadPseudoRegisterValue :: "(nat \<Rightarrow> u64) \<Rightarrow> u32 \<Rightarrow> pseudo_state \<Rightarrow> u64 option" where
  "ReadPseudoRegisterValue beyond reg_num st =
     (if reg_num \<le> dwarf_cpsr then Some (ucast (ps_gpr st ! unat reg_num))
      else if 64 \<le> reg_num \<and> reg_num \<le> 95 then Some (d_reg beyond st (unat (reg_num - 64)))
      else if 256 \<le> reg_num \<and> reg_num \<le> 287 then
        let idx = unat (reg_num - 256)
        in Some (if idx < 16
                 then ucast (ps_s_regs st ! (idx * 2)) OR
                      drop_bit 32 (ucast (ps_s_regs st ! (idx * 2 + 1)) :: u64)
                 else d_reg beyond st (idx - 16))
      else None)"

definition ClearPseudoRegisters :: "pseudo_state \<Rightarrow> pseudo_state" where
  "ClearPseudoRegisters st =
     st\<lparr>ps_gpr := replicate 17 0, ps_s_regs := replicate 32 0, ps_d_regs := replicate 16 0\<rparr>"

definition ClearPseudoMemory :: "pseudo_state \<Rightarrow> pseudo_state" where
  "ClearPseudoMemory st = st\<lparr>ps_memory := Map.empty\<rparr>"

definition new_EmulationStateARM :: pseudo_state where
  "new_EmulationStateARM =
     ClearPseudoRegisters \<lparr>ps_gpr = [], ps_s_regs = [], ps_d_regs = [], ps_memory = Map.empty\<rparr>"

definition StoreToPseudoAddress :: "u64 \<Rightarrow> u32 \<Rightarrow> pseudo_state \<Rightarrow> pseudo_state" where
  "StoreToPseudoAddress p_address value st = st\<lparr>ps_memory := (ps_memory st)(p_address \<mapsto> value)\<rparr>"

definition ReadFromPseudoAddress :: "u64 \<Rightarrow> pseudo_state \<Rightarrow> u32 option" where
  "ReadFromPseudoAddress p_address st = ps_memory st p_address"

text \<open>A word in the memory of the host, least significant byte first on every host.\<close>

definition host_swapped :: "platform \<Rightarrow> u32 \<Rightarrow> u32" where
  "host_swapped pl value =
     (if InlHostByteOrder pl = eByteOrderBig then ByteSwap_32 pl value else value)"

definition host_word_bytes :: "platform \<Rightarrow> u32 \<Rightarrow> u8 list" where
  "host_word_bytes pl value =
     (if InlHostByteOrder pl = eByteOrderBig then rev (nat_le_bytes 4 (unat value))
      else nat_le_bytes 4 (unat value))"

definition ReadPseudoMemory :: "platform \<Rightarrow> u64 \<Rightarrow> nat \<Rightarrow> pseudo_state \<Rightarrow> u8 list" where
  "ReadPseudoMemory pl addr len st =
     (if len \<le> 4 then
        (case ReadFromPseudoAddress addr st of
           None \<Rightarrow> []
         | Some value \<Rightarrow> take len (host_word_bytes pl (host_swapped pl value)))
      else if len = 8 then
        (case (ReadFromPseudoAddress addr st, ReadFromPseudoAddress (addr + 4) st) of
           (Some value1, Some value2) \<Rightarrow>
             host_word_bytes pl (host_swapped pl value1) @ host_word_bytes pl (host_swapped pl value2)
         | _ \<Rightarrow> [])
      else [])"

text \<open>Four bytes are copied whatever the length: \<open>behind\<close> lies behind a shorter source.\<close>

definition WritePseudoMemory ::
  "platform \<Rightarrow> u8 list \<Rightarrow> u64 \<Rightarrow> u8 list \<Rightarrow> pseudo_state \<Rightarrow> nat \<times> pseudo_state" where
  "WritePseudoMemory pl behind addr src st =
     (if length src \<le> 4 then
        (length src, StoreToPseudoAddress addr (host_swapped pl (ReadInt32 pl (src @ behind))) st)
      else if length src = 8 then
        let value1 = host_swapped pl (ReadInt32 pl src);
            value2 = host_swapped pl (ReadInt32 pl (drop 4 src))
        in (length src, StoreToPseudoAddress (addr + 4) value2 (StoreToPseudoAddress addr value1 st))
      else (0, st))"

definition ReadPseudoRegister :: "(nat \<Rightarrow> u64) \<Rightarrow> u32 \<Rightarrow> pseudo_state \<Rightarrow> u64 option" where
  "ReadPseudoRegister beyond reg_num st =
     do { (dwarf_reg_num, byte_size) \<leftarrow> GetARMDWARFRegisterInfo reg_num;
          reg_uval \<leftarrow> ReadPseudoRegisterValue beyond dwarf_reg_num st;
          SetUInt reg_uval byte_size }"

definition WritePseudoRegister :: "u32 \<Rightarrow> u64 \<Rightarrow> pseudo_state \<Rightarrow> bool \<times> pseudo_state" where
  "WritePseudoRegister reg_num v st = StorePseudoRegisterValue reg_num v st"

definition CompareState :: "pseudo_state \<Rightarrow> pseudo_state \<Rightarrow> bool" where
  "CompareState st other_state \<longleftrightarrow>
     (\<forall>i \<in> set [0..<17]. ps_gpr st ! i = ps_gpr other_state ! i) \<and>
     (\<forall>i \<in> set [0..<32]. ps_s_regs st ! i = ps_s_regs other_state ! i) \<and>
     (\<forall>i \<in> set [0..<16]. ps_d_regs st ! i = ps_d_regs other_state ! i)"

text \<open>The registers of a frame: \<open>frame i\<close> is what the register context reads for a DWARF number.
  The second loop compares \<open>i\<close>, not \<open>idx\<close>, with 16, so each store goes to an index below zero of
  \<open>d_regs\<close> or behind it; \<open>None\<close> is that undefined behaviour.\<close>

definition LoadPseudoRegistersFromFrame ::
  "(u32 \<Rightarrow> u64 option) \<Rightarrow> pseudo_state \<Rightarrow> (bool \<times> pseudo_state) option" where
  "LoadPseudoRegistersFromFrame frame st =
     (let load = (\<lambda>i (success, st).
            case frame (of_nat i) of
              None \<Rightarrow> (False, st)
            | Some v \<Rightarrow> (success, st\<lparr>ps_gpr := (ps_gpr st)[i := ucast v]\<rparr>));
          load_d = (\<lambda>i r. do { (success, st) \<leftarrow> r;
            case frame (of_nat i) of
              None \<Rightarrow> Some (False, st)
            | Some value \<Rightarrow>
                let idx = i - 256
                in if i < 16 then
                     Some (success, st\<lparr>ps_s_regs := (ps_s_regs st)
                        [idx * 2 := ucast value, idx * 2 + 1 := ucast (drop_bit 32 value)]\<rparr>)
                   else if 16 \<le> idx then
                     Some (success, st\<lparr>ps_d_regs := (ps_d_regs st)[idx - 16 := value]\<rparr>)
                   else None })
      in fold load_d [256..<288] (Some (fold load [0..<17] (True, st))))"

text \<open>The emulator on a pseudo state.\<close>

definition with_pseudo_state ::
  "unit arm_env \<Rightarrow> (nat \<Rightarrow> u64) \<Rightarrow> u8 list \<Rightarrow> pseudo_state arm_env" where
  "with_pseudo_state A beyond behind =
     \<lparr>ae_platform = ae_platform A, ae_llvm = ae_llvm A, ae_byte_order = ae_byte_order A,
      ae_addr_size = ae_addr_size A, ae_android = ae_android A, ae_apple = ae_apple A,
      ae_always_thumb = ae_always_thumb A, ae_rand = (\<lambda>_. ae_rand A ()),
      ae_read_mem = (\<lambda>_. ReadPseudoMemory (ae_platform A)),
      ae_write_mem = (\<lambda>_. WritePseudoMemory (ae_platform A) behind),
      ae_read_reg = ReadPseudoRegister beyond, ae_write_reg = (\<lambda>_. WritePseudoRegister)\<rparr>"

definition pseudo_ok :: "pseudo_state \<Rightarrow> bool" where
  "pseudo_ok st \<longleftrightarrow>
     length (ps_gpr st) = 17 \<and> length (ps_s_regs st) = 32 \<and> length (ps_d_regs st) = 16"

definition pseudo_regs :: "pseudo_state \<Rightarrow> u32 \<Rightarrow> u32" where
  "pseudo_regs st r = (if r \<le> 16 then ps_gpr st ! unat r else 0)"

definition pseudo_set_reg :: "pseudo_state \<Rightarrow> u32 \<Rightarrow> u32 \<Rightarrow> pseudo_state" where
  "pseudo_set_reg st r w = st\<lparr>ps_gpr := (ps_gpr st)[unat r := w]\<rparr>"

definition arm_arch_ok :: "unit arm_env \<Rightarrow> bool" where
  "arm_arch_ok A \<longleftrightarrow> platform_ok (ae_platform A) \<and> counts_zeros (lv_countTrailingZeros (ae_llvm A)) \<and>
     extends_sign (lv_SignExtend64_32 (ae_llvm A)) \<and> ae_byte_order A = eByteOrderLittle \<and>
     ae_addr_size A = 4"

lemma ucast_u32_u64 [simp]: "ucast (ucast (w :: u32) :: u64) = w"
  by (rule bit_word_eqI) (auto simp: bit_ucast_iff dest: bit_imp_le_length)

lemma new_pseudo_ok: "pseudo_ok new_EmulationStateARM"
  by (simp add: pseudo_ok_def new_EmulationStateARM_def ClearPseudoRegisters_def)

lemma core_register_info: "r \<le> 16 \<Longrightarrow> GetARMDWARFRegisterInfo r = Some (r, 4)"
  by (auto simp: GetARMDWARFRegisterInfo_def word_le_nat_alt)

lemma u32_bound: "unat (w :: u32) < 2 ^ 32"
proof -
  have "unat w < 2 ^ LENGTH(32)" by (rule unsigned_less)
  then show ?thesis by simp
qed

lemma drop_bit_bytes: "map (\<lambda>k. ucast (drop_bit (8 * k) v)) [0..<n] = nat_le_bytes n (unat (v :: u64))"
proof (induction n arbitrary: v)
  case 0
  then show ?case by simp
next
  case (Suc n)
  have "map (\<lambda>k. ucast (drop_bit (8 * k) v)) [0..<Suc n] =
      (ucast v :: u8) # map (\<lambda>k. ucast (drop_bit (8 * k) (drop_bit 8 v))) [0..<n]"
    by (simp add: upt_conv_Cons map_Suc_upt [symmetric] comp_def algebra_simps del: upt_Suc)
  also have "map (\<lambda>k. ucast (drop_bit (8 * k) (drop_bit 8 v))) [0..<n] = nat_le_bytes n (unat v div 256)"
    unfolding Suc.IH by (simp add: drop_bit_eq_div unat_div)
  also have "(ucast v :: u8) = word_of_nat (unat v)"
    by simp
  finally show ?case by simp
qed

lemma swapped_host_reading:
  assumes "platform_ok pl" "length bs = 4"
  shows "host_swapped pl (ReadInt32 pl bs) = word_of_nat (le_nat bs)"
proof -
  have "ByteSwap_32 pl (word_of_nat (le_nat (rev bs))) = word_of_nat (be_nat (rev bs))"
    using assms by (simp add: platform_ok_def)
  then show ?thesis
    using assms by (auto simp: host_swapped_def ReadInt32_def order_nat_def be_nat_def)
qed

lemma swapped_host_bytes:
  assumes "platform_ok pl"
  shows "host_word_bytes pl (host_swapped pl v) = nat_le_bytes 4 (unat v)"
proof (cases "InlHostByteOrder pl = eByteOrderBig")
  case True
  let ?bs = "nat_le_bytes 4 (unat v)"
  have "le_nat ?bs = unat v"
    using u32_bound [of v] by (simp add: le_nat_le_bytes)
  moreover have "ByteSwap_32 pl (word_of_nat (le_nat ?bs)) = word_of_nat (be_nat ?bs)"
    using assms length_nat_le_bytes [of 4 "unat v"] unfolding platform_ok_def by blast
  ultimately have "ByteSwap_32 pl v = word_of_nat (be_nat ?bs)"
    by simp
  moreover have "be_nat ?bs < 2 ^ 32"
    using be_nat_bound [of ?bs] by simp
  ultimately have "unat (ByteSwap_32 pl v) = le_nat (rev ?bs)"
    by (simp add: unat_small be_nat_def)
  then show ?thesis
    using nat_le_bytes_le_nat [of "rev ?bs"] True by (simp add: host_word_bytes_def host_swapped_def)
qed (simp add: host_word_bytes_def host_swapped_def)

lemma arch_projections [simp]:
  "ae_platform (with_pseudo_state A beyond behind) = ae_platform A"
  "ae_llvm (with_pseudo_state A beyond behind) = ae_llvm A"
  "ae_byte_order (with_pseudo_state A beyond behind) = ae_byte_order A"
  "ae_addr_size (with_pseudo_state A beyond behind) = ae_addr_size A"
  "ae_android (with_pseudo_state A beyond behind) = ae_android A"
  "ae_apple (with_pseudo_state A beyond behind) = ae_apple A"
  "ae_always_thumb (with_pseudo_state A beyond behind) = ae_always_thumb A"
  by (simp_all add: with_pseudo_state_def)

lemma pseudo_read_word:
  assumes "arm_arch_ok A"
  shows "ReadMemoryUnsigned (with_pseudo_state A beyond behind) ctx a 4 s =
    map_option ucast (ps_memory (am_host s) a)"
proof (cases "ps_memory (am_host s) a")
  case None
  then show ?thesis
    by (simp add: ReadMemoryUnsigned_def with_pseudo_state_def ReadPseudoMemory_def ReadFromPseudoAddress_def)
next
  case (Some v)
  let ?bs = "nat_le_bytes 4 (unat v)"
  let ?d = "DataExtractor_of_bytes ?bs eByteOrderLittle 4 1"
  have pl: "platform_ok (ae_platform A)" and A: "ae_byte_order A = eByteOrderLittle" "ae_addr_size A = 4"
    using assms by (simp_all add: arm_arch_ok_def)
  have "ae_read_mem (with_pseudo_state A beyond behind) ctx a 4 (am_host s) = ?bs"
    using Some pl by (simp add: with_pseudo_state_def ReadPseudoMemory_def ReadFromPseudoAddress_def
        swapped_host_bytes)
  moreover have "fst (GetU32 (ae_platform A) ?d 0) = v"
    using GetU32_eq [OF pl, of ?d 0] u32_bound [of v]
    by (simp add: order_ok_def DataExtractor_of_bytes_def GetByteSize_def de_bytes_def slice_nat_def
        order_nat_def le_nat_le_bytes mod_less)
  ultimately show ?thesis
    using Some A by (simp add: ReadMemoryUnsigned_def GetMaxU64_def split_beta Let_def)
qed

lemma pseudo_write_word:
  assumes "arm_arch_ok A"
  shows "WriteMemoryUnsigned (with_pseudo_state A beyond behind) ctx a v 4 s =
    (True, s\<lparr>am_host := StoreToPseudoAddress a (ucast v) (am_host s)\<rparr>)"
proof -
  have pl: "platform_ok (ae_platform A)" and A: "ae_byte_order A = eByteOrderLittle"
    using assms by (simp_all add: arm_arch_ok_def)
  have bs: "binary_bytes eByteOrderLittle v 4 = nat_le_bytes 4 (unat v)"
    by (simp add: binary_bytes_def drop_bit_bytes del: upt_rec_numeral)
  have "host_swapped (ae_platform A) (ReadInt32 (ae_platform A) (nat_le_bytes 4 (unat v)))
      = (word_of_nat (unat v mod 2 ^ 32) :: u32)"
    by (simp add: swapped_host_reading [OF pl] le_nat_le_bytes)
  also have "\<dots> = ucast v"
    by (simp add: word_unat_eq_iff unat_of_nat unsigned_ucast_eq take_bit_eq_mod)
  finally have "host_swapped (ae_platform A)
      (ReadInt32 (ae_platform A) (nat_le_bytes 4 (unat v) @ behind)) = ucast v"
    by (simp add: ReadInt32_def)
  then show ?thesis
    using A by (simp add: WriteMemoryUnsigned_def with_pseudo_state_def WritePseudoMemory_def bs)
qed

text \<open>A well-formed pseudo state on an architecture that the emulator supports keeps the contract.\<close>

definition pseudo_arch_ok :: "unit arm_env \<Rightarrow> pseudo_state \<Rightarrow> bool" where
  "pseudo_arch_ok A st \<longleftrightarrow> arm_arch_ok A \<and> pseudo_ok st"

lemma pseudo_set_reg_props:
  assumes "pseudo_ok h" "r \<le> 16"
  shows "pseudo_ok (pseudo_set_reg h r w)" "pseudo_regs (pseudo_set_reg h r w) = (pseudo_regs h)(r := w)"
proof -
  show "pseudo_ok (pseudo_set_reg h r w)"
    using assms by (simp add: pseudo_ok_def pseudo_set_reg_def)
  show "pseudo_regs (pseudo_set_reg h r w) = (pseudo_regs h)(r := w)"
    using assms by (auto simp: fun_eq_iff pseudo_regs_def pseudo_set_reg_def pseudo_ok_def nth_list_update
        word_le_nat_alt word_unat_eq_iff)
qed

interpretation pseudo: arm_memory "with_pseudo_state A beyond behind" "pseudo_arch_ok A" pseudo_regs
  pseudo_set_reg ps_memory "\<lambda>st a w. StoreToPseudoAddress a w st"
proof
  fix h :: pseudo_state and r w :: u32 and v :: u64 and ctx
  assume h: "pseudo_arch_ok A h" and r: "r \<le> 16"
  show "ae_read_reg (with_pseudo_state A beyond behind) r h = Some (ucast (pseudo_regs h r))"
    using r by (simp add: with_pseudo_state_def ReadPseudoRegister_def core_register_info
        ReadPseudoRegisterValue_def pseudo_regs_def SetUInt_def)
  show "ae_write_reg (with_pseudo_state A beyond behind) ctx r v h = (True, pseudo_set_reg h r (ucast v))"
    using r by (simp add: with_pseudo_state_def WritePseudoRegister_def StorePseudoRegisterValue_def
        pseudo_set_reg_def)
  show "pseudo_arch_ok A (pseudo_set_reg h r w)"
    "pseudo_regs (pseudo_set_reg h r w) = (pseudo_regs h)(r := w)"
    "ps_memory (pseudo_set_reg h r w) = ps_memory h"
    using h r by (simp_all add: pseudo_arch_ok_def pseudo_set_reg_props) (simp add: pseudo_set_reg_def)
next
  fix h :: pseudo_state and a :: u64 and w :: u32
  assume h: "pseudo_arch_ok A h"
  show "ae_addr_size (with_pseudo_state A beyond behind) = 4"
    using h by (simp add: pseudo_arch_ok_def arm_arch_ok_def)
  show "pseudo_arch_ok A (StoreToPseudoAddress a w h)"
    "ps_memory (StoreToPseudoAddress a w h) = (ps_memory h)(a \<mapsto> w)"
    "pseudo_regs (StoreToPseudoAddress a w h) = pseudo_regs h"
    using h by (simp_all add: pseudo_arch_ok_def pseudo_ok_def StoreToPseudoAddress_def pseudo_regs_def fun_eq_iff)
qed (simp_all add: pseudo_read_word pseudo_write_word pseudo_arch_ok_def)

end
