(* ===== verification/ARMDataProcessing.thy ===== *)
theory ARMDataProcessing
  imports ARMEmulator
begin

text \<open>
  The data-processing instructions of \<open>EmulateInstructionARM.cpp\<close>: the logical and arithmetic
  instructions with an immediate and with a shifted register, the moves, the comparisons and the
  shifts, one definition per function, in an order in which each stands after the ones it calls.
  \<open>op\<close> is what follows the switch on the encoding.
\<close>

section \<open>Return from an exception\<close>

text \<open>The register form leaves \<open>code\<close> uninitialized; the switch then reads an indeterminate value.\<close>

definition subs_result ::
  "u32 option \<Rightarrow> u32 \<Rightarrow> u32 \<Rightarrow> u32 \<Rightarrow> u32 option option" where
  "subs_result code Rn operand2 c =
     (case code of
        None \<Rightarrow> None
      | Some code \<Rightarrow>
          if code = 0 then Some (Some (Rn AND operand2))
          else if code = 1 then Some (Some (Rn XOR operand2))
          else if code = 2 then map_option (Some \<circ> fst) (AddWithCarry Rn (NOT operand2) 1)
          else if code = 3 then map_option (Some \<circ> fst) (AddWithCarry (NOT Rn) operand2 1)
          else if code = 4 then map_option (Some \<circ> fst) (AddWithCarry Rn operand2 0)
          else if code = 5 then map_option (Some \<circ> fst) (AddWithCarry Rn operand2 c)
          else if code = 6 then map_option (Some \<circ> fst) (AddWithCarry Rn (NOT operand2) c)
          else if code = 7 then map_option (Some \<circ> fst) (AddWithCarry (NOT Rn) operand2 c)
          else if code = 10 then Some (Some (Rn OR operand2))
          else if code = 11 then Some (Some operand2)
          else if code = 12 then Some (Some (Rn AND NOT operand2))
          else if code = 15 then Some (Some (NOT operand2))
          else Some None)"

definition EmulateSUBSPcLrEtc ::
  "'s arm_env \<Rightarrow> u32 \<Rightarrow> arm_encoding \<Rightarrow> 's arm \<Rightarrow> 's emulated" where
  "EmulateSUBSPcLrEtc E opcode encoding s =
     (if ConditionPassed opcode s then
       let op = (\<lambda>n code operand2.
             need (ReadCoreReg E n s) s (\<lambda>Rn.
               do { r \<leftarrow> subs_result code Rn operand2 (APSR_C s);
                    need r s (\<lambda>result.
                      need (ReadRegisterUnsigned E eRegisterKindDWARF dwarf_cpsr s) s (\<lambda>spsr.
                        let s = CPSRWriteByInstr (ucast spsr) 15 True s;
                            (_, s) = BranchWritePC E (eContextAdjustPC, Immediate (ucast result)) result s
                        in succeeds s)) }))
       in case encoding of
            eEncodingT1 \<Rightarrow>
              if InITBlock s \<and> \<not> LastInITBlock s then fails s
              else op 14 (Some 2) (Bits32 opcode 7 0)
          | eEncodingA1 \<Rightarrow>
              op (Bits32 opcode 19 16) (Some (Bits32 opcode 24 21)) (ARMExpandImm opcode)
          | eEncodingA2 \<Rightarrow>
              let (shift_n, shift_t) = DecodeImmShiftARM opcode
              in need (ReadCoreReg E (Bits32 opcode 3 0) s) s (\<lambda>Rm.
                   do { shift \<leftarrow> Shift (ae_llvm E) Rm shift_t shift_n (APSR_C s);
                        need shift s (op (Bits32 opcode 19 16) None) })
          | _ \<Rightarrow> fails s
     else succeeds s)"

section \<open>Tests and comparisons\<close>


definition EmulateTEQImm ::
  "'s arm_env \<Rightarrow> u32 \<Rightarrow> arm_encoding \<Rightarrow> 's arm \<Rightarrow> 's emulated" where
  "EmulateTEQImm E opcode encoding s =
     (if ConditionPassed opcode s then
       let op = (\<lambda>Rn imm32 carry.
             need (ReadCoreReg E Rn s) s (\<lambda>val1.
              Some (WriteFlags E (eContextImmediate, NoArgs) (val1 XOR imm32) carry (- 1) s)))
       in case encoding of
           eEncodingT1 \<Rightarrow> let Rn = Bits32 opcode 19 16;
               (imm32, carry) = ThumbExpandImm_C opcode (APSR_C s)
               in if BadReg Rn then fails s
               else op Rn imm32 carry
         | eEncodingA1 \<Rightarrow> let Rn = Bits32 opcode 19 16;
             (imm32, carry) = ARMExpandImm_C opcode (APSR_C s)
             in op Rn imm32 carry
         | _ \<Rightarrow> fails s
     else succeeds s)"

definition EmulateTEQReg ::
  "'s arm_env \<Rightarrow> u32 \<Rightarrow> arm_encoding \<Rightarrow> 's arm \<Rightarrow> 's emulated" where
  "EmulateTEQReg E opcode encoding s =
     (if ConditionPassed opcode s then
       let op = (\<lambda>Rn Rm shift_t shift_n.
             need (ReadCoreReg E Rn s) s (\<lambda>val1.
              need (ReadCoreReg E Rm s) s (\<lambda>val2.
               do { shift \<leftarrow> Shift_C (ae_llvm E) val2 shift_t shift_n (APSR_C s);
                need shift s (\<lambda>(shifted, carry).
                 Some (WriteFlags E (eContextImmediate, NoArgs) (val1 XOR shifted) carry (- 1) s))
                     })))
       in case encoding of
           eEncodingT1 \<Rightarrow> let Rn = Bits32 opcode 19 16; Rm = Bits32 opcode 3 0;
               (shift_n, shift_t) = DecodeImmShiftThumb opcode
               in if BadReg Rn \<or> BadReg Rm then fails s
               else op Rn Rm shift_t shift_n
         | eEncodingA1 \<Rightarrow> let Rn = Bits32 opcode 19 16; Rm = Bits32 opcode 3 0;
             (shift_n, shift_t) = DecodeImmShiftARM opcode
             in op Rn Rm shift_t shift_n
         | _ \<Rightarrow> fails s
     else succeeds s)"

definition EmulateTSTImm ::
  "'s arm_env \<Rightarrow> u32 \<Rightarrow> arm_encoding \<Rightarrow> 's arm \<Rightarrow> 's emulated" where
  "EmulateTSTImm E opcode encoding s =
     (if ConditionPassed opcode s then
       let op = (\<lambda>Rn imm32 carry.
             need (ReadCoreReg E Rn s) s (\<lambda>val1.
              Some (WriteFlags E (eContextImmediate, NoArgs) (val1 AND imm32) carry (- 1) s)))
       in case encoding of
           eEncodingT1 \<Rightarrow> let Rn = Bits32 opcode 19 16;
               (imm32, carry) = ThumbExpandImm_C opcode (APSR_C s)
               in if BadReg Rn then fails s
               else op Rn imm32 carry
         | eEncodingA1 \<Rightarrow> let Rn = Bits32 opcode 19 16;
             (imm32, carry) = ARMExpandImm_C opcode (APSR_C s)
             in op Rn imm32 carry
         | _ \<Rightarrow> fails s
     else succeeds s)"

definition EmulateTSTReg ::
  "'s arm_env \<Rightarrow> u32 \<Rightarrow> arm_encoding \<Rightarrow> 's arm \<Rightarrow> 's emulated" where
  "EmulateTSTReg E opcode encoding s =
     (if ConditionPassed opcode s then
       let op = (\<lambda>Rn Rm shift_t shift_n.
             need (ReadCoreReg E Rn s) s (\<lambda>val1.
              need (ReadCoreReg E Rm s) s (\<lambda>val2.
               do { shift \<leftarrow> Shift_C (ae_llvm E) val2 shift_t shift_n (APSR_C s);
                need shift s (\<lambda>(shifted, carry).
                 Some (WriteFlags E (eContextImmediate, NoArgs) (val1 AND shifted) carry (- 1) s))
                     })))
       in case encoding of
           eEncodingT1 \<Rightarrow> let Rn = Bits32 opcode 2 0; Rm = Bits32 opcode 5 3
               in op Rn Rm SRType_LSL 0
         | eEncodingT2 \<Rightarrow> let Rn = Bits32 opcode 19 16; Rm = Bits32 opcode 3 0;
             (shift_n, shift_t) = DecodeImmShiftThumb opcode
             in if BadReg Rn \<or> BadReg Rm then fails s
             else op Rn Rm shift_t shift_n
         | eEncodingA1 \<Rightarrow> let Rn = Bits32 opcode 19 16; Rm = Bits32 opcode 3 0;
             (shift_n, shift_t) = DecodeImmShiftARM opcode
             in op Rn Rm shift_t shift_n
         | _ \<Rightarrow> fails s
     else succeeds s)"

text \<open>\<open>CMN\<close> and \<open>CMP\<close> do not look at the condition.\<close>


definition EmulateCMNImm ::
  "'s arm_env \<Rightarrow> u32 \<Rightarrow> arm_encoding \<Rightarrow> 's arm \<Rightarrow> 's emulated" where
  "EmulateCMNImm E opcode encoding s =
     (
       let op = (\<lambda>Rn imm32.
             need (ReadCoreReg E Rn s) s (\<lambda>reg_val.
              do { (result, carry, overflow) \<leftarrow> AddWithCarry reg_val (imm32) 0;
               Some (WriteFlags E (eContextImmediate, NoArgs) (result) carry overflow s) }))
       in case encoding of
           eEncodingT1 \<Rightarrow> let Rn = Bits32 opcode 19 16; imm32 = ThumbExpandImm opcode
               in if Rn = 15 then fails s
               else op Rn imm32
         | eEncodingA1 \<Rightarrow> let Rn = Bits32 opcode 19 16; imm32 = ARMExpandImm opcode
             in op Rn imm32
         | _ \<Rightarrow> fails s
     )"

definition EmulateCMNReg ::
  "'s arm_env \<Rightarrow> u32 \<Rightarrow> arm_encoding \<Rightarrow> 's arm \<Rightarrow> 's emulated" where
  "EmulateCMNReg E opcode encoding s =
     (
       let op = (\<lambda>Rn Rm shift_t shift_n.
             need (ReadCoreReg E Rn s) s (\<lambda>val1.
              need (ReadCoreReg E Rm s) s (\<lambda>val2.
               do { shift \<leftarrow> Shift (ae_llvm E) val2 shift_t shift_n (APSR_C s);
                need shift s (\<lambda>shifted.
                 do { (result, carry, overflow) \<leftarrow> AddWithCarry val1 (shifted) 0;
                  Some (WriteFlags E (eContextImmediate, NoArgs) (result) carry overflow s) }) })))
       in case encoding of
           eEncodingT1 \<Rightarrow> let Rn = Bits32 opcode 2 0; Rm = Bits32 opcode 5 3
               in op Rn Rm SRType_LSL 0
         | eEncodingT2 \<Rightarrow> let Rn = Bits32 opcode 19 16; Rm = Bits32 opcode 3 0;
             (shift_n, shift_t) = DecodeImmShiftThumb opcode
             in if Rn = 15 \<or> BadReg Rm then fails s
             else op Rn Rm shift_t shift_n
         | eEncodingA1 \<Rightarrow> let Rn = Bits32 opcode 19 16; Rm = Bits32 opcode 3 0;
             (shift_n, shift_t) = DecodeImmShiftARM opcode
             in op Rn Rm shift_t shift_n
         | _ \<Rightarrow> fails s
     )"

definition EmulateCMPImm ::
  "'s arm_env \<Rightarrow> u32 \<Rightarrow> arm_encoding \<Rightarrow> 's arm \<Rightarrow> 's emulated" where
  "EmulateCMPImm E opcode encoding s =
     (
       let op = (\<lambda>Rn imm32.
             need (ReadCoreReg E Rn s) s (\<lambda>reg_val.
              do { (result, carry, overflow) \<leftarrow> AddWithCarry reg_val (NOT imm32) 1;
               Some (WriteFlags E (eContextImmediate, NoArgs) (result) carry overflow s) }))
       in case encoding of
           eEncodingT1 \<Rightarrow> let Rn = Bits32 opcode 10 8; imm32 = Bits32 opcode 7 0
               in op Rn imm32
         | eEncodingT2 \<Rightarrow> let Rn = Bits32 opcode 19 16; imm32 = ThumbExpandImm opcode
             in if Rn = 15 then fails s
             else op Rn imm32
         | eEncodingA1 \<Rightarrow> let Rn = Bits32 opcode 19 16; imm32 = ARMExpandImm opcode
             in op Rn imm32
         | _ \<Rightarrow> fails s
     )"

definition EmulateCMPReg ::
  "'s arm_env \<Rightarrow> u32 \<Rightarrow> arm_encoding \<Rightarrow> 's arm \<Rightarrow> 's emulated" where
  "EmulateCMPReg E opcode encoding s =
     (
       let op = (\<lambda>Rn Rm shift_t shift_n.
             need (ReadCoreReg E Rn s) s (\<lambda>val1.
              need (ReadCoreReg E Rm s) s (\<lambda>val2.
               do { shift \<leftarrow> Shift (ae_llvm E) val2 shift_t shift_n (APSR_C s);
                need shift s (\<lambda>shifted.
                 do { (result, carry, overflow) \<leftarrow> AddWithCarry val1 (NOT shifted) 1;
                  Some (WriteFlags E (eContextImmediate, NoArgs) (result) carry overflow s) }) })))
       in case encoding of
           eEncodingT1 \<Rightarrow> let Rn = Bits32 opcode 2 0; Rm = Bits32 opcode 5 3
               in op Rn Rm SRType_LSL 0
         | eEncodingT2 \<Rightarrow> let Rn = (push_bit 3 (Bit32 opcode 7) OR Bits32 opcode 2 0);
             Rm = Bits32 opcode 6 3
             in if Rn < 8 \<and> Rm < 8 then fails s
             else if Rn = 15 \<or> Rm = 15 then fails s
             else op Rn Rm SRType_LSL 0
         | eEncodingT3 \<Rightarrow> let Rn = Bits32 opcode 19 16; Rm = Bits32 opcode 3 0;
             (shift_n, shift_t) = DecodeImmShiftThumb opcode
             in if Rn = 15 \<or> BadReg Rm then fails s
             else op Rn Rm shift_t shift_n
         | eEncodingA1 \<Rightarrow> let Rn = Bits32 opcode 19 16; Rm = Bits32 opcode 3 0;
             (shift_n, shift_t) = DecodeImmShiftARM opcode
             in op Rn Rm shift_t shift_n
         | _ \<Rightarrow> fails s
     )"

section \<open>Moves\<close>


definition EmulateMOVRdRm ::
  "'s arm_env \<Rightarrow> u32 \<Rightarrow> arm_encoding \<Rightarrow> 's arm \<Rightarrow> 's emulated" where
  "EmulateMOVRdRm E opcode encoding s =
     (if ConditionPassed opcode s then
       let op = (\<lambda>Rd Rm setflags.
             need (ReadCoreReg E Rm s) s (\<lambda>result.
              Some (WriteCoreRegOptionalFlags E (if Rd = 13 then eContextAdjustStackPointer
           else eContextRegisterPlusOffset, RegisterPlusOffset Rm 0) (result) Rd setflags (- 1) (-
               1) s)))
       in case encoding of
           eEncodingT1 \<Rightarrow> let Rd = (push_bit 3 (Bit32 opcode 7) OR Bits32 opcode 2 0);
               Rm = Bits32 opcode 6 3
               in if Rd = 15 \<and> InITBlock s \<and> \<not> LastInITBlock s then fails s
               else op Rd Rm False
         | eEncodingT2 \<Rightarrow> let Rd = Bits32 opcode 2 0; Rm = Bits32 opcode 5 3
             in if InITBlock s then fails s
             else op Rd Rm True
         | eEncodingT3 \<Rightarrow> let Rd = Bits32 opcode 11 8; Rm = Bits32 opcode 3 0;
             setflags = is_set opcode 20
             in if setflags \<and> (BadReg Rd \<or> BadReg Rm) then fails s
             else if \<not> setflags \<and> (Rd = 15 \<or> Rm = 15 \<or> (Rd = 13 \<and> Rm = 13)) then fails s
             else op Rd Rm setflags
         | eEncodingA1 \<Rightarrow> let Rd = Bits32 opcode 15 12; Rm = Bits32 opcode 3 0;
             setflags = is_set opcode 20
             in if Rd = 15 \<and> setflags then EmulateSUBSPcLrEtc E opcode encoding s
             else op Rd Rm setflags
         | _ \<Rightarrow> fails s
     else succeeds s)"

definition EmulateMOVLowHigh ::
  "'s arm_env \<Rightarrow> u32 \<Rightarrow> arm_encoding \<Rightarrow> 's arm \<Rightarrow> 's emulated" where
  "EmulateMOVLowHigh E opcode encoding s = EmulateMOVRdRm E opcode encoding s"

definition EmulateMOVRdImm ::
  "'s arm_env \<Rightarrow> u32 \<Rightarrow> arm_encoding \<Rightarrow> 's arm \<Rightarrow> 's emulated" where
  "EmulateMOVRdImm E opcode encoding s =
     (if ConditionPassed opcode s then
       let op = (\<lambda>Rd setflags imm32 carry.
             Some (WriteCoreRegOptionalFlags E (eContextImmediate, NoArgs) (imm32) Rd setflags carry
                 (- 1) s))
       in case encoding of
           eEncodingT1 \<Rightarrow> op (Bits32 opcode 10 8) (\<not> InITBlock s) (Bits32 opcode 7 0) (APSR_C s)
         | eEncodingT2 \<Rightarrow> let Rd = Bits32 opcode 11 8; setflags = is_set opcode 20;
             (imm32, carry) = ThumbExpandImm_C opcode (APSR_C s)
             in if BadReg Rd then fails s
             else op Rd setflags imm32 carry
         | eEncodingT3 \<Rightarrow> let Rd = Bits32 opcode 11 8; imm4 = Bits32 opcode 19 16;
             imm3 = Bits32 opcode 14 12; i = Bit32 opcode 26; imm8 = Bits32 opcode 7 0;
                 imm32 = (push_bit 12 imm4 OR push_bit 11 i OR push_bit 8 imm3 OR imm8)
             in if BadReg Rd then fails s
             else op Rd False imm32 0
         | eEncodingA1 \<Rightarrow> let Rd = Bits32 opcode 15 12; setflags = is_set opcode 20;
             (imm32, carry) = ARMExpandImm_C opcode (APSR_C s)
             in if Rd = 15 \<and> setflags then EmulateSUBSPcLrEtc E opcode encoding s
             else op Rd setflags imm32 carry
         | eEncodingA2 \<Rightarrow> let Rd = Bits32 opcode 15 12; imm4 = Bits32 opcode 19 16;
             imm12 = Bits32 opcode 11 0; imm32 = (push_bit 12 imm4 OR imm12)
             in if Rd = 15 then fails s
             else op Rd False imm32 0
         | _ \<Rightarrow> fails s
     else succeeds s)"

definition EmulateMVNImm ::
  "'s arm_env \<Rightarrow> u32 \<Rightarrow> arm_encoding \<Rightarrow> 's arm \<Rightarrow> 's emulated" where
  "EmulateMVNImm E opcode encoding s =
     (if ConditionPassed opcode s then
       let op = (\<lambda>Rd setflags imm32 carry.
             Some (WriteCoreRegOptionalFlags E (eContextImmediate, NoArgs) (NOT imm32) Rd setflags
                 carry (- 1) s))
       in case encoding of
           eEncodingT1 \<Rightarrow> let Rd = Bits32 opcode 11 8; setflags = is_set opcode 20;
               (imm32, carry) = ThumbExpandImm_C opcode (APSR_C s)
               in op Rd setflags imm32 carry
         | eEncodingA1 \<Rightarrow> let Rd = Bits32 opcode 15 12; setflags = is_set opcode 20;
             (imm32, carry) = ARMExpandImm_C opcode (APSR_C s)
             in if Rd = 15 \<and> setflags then EmulateSUBSPcLrEtc E opcode encoding s
             else op Rd setflags imm32 carry
         | _ \<Rightarrow> fails s
     else succeeds s)"

definition EmulateMVNReg ::
  "'s arm_env \<Rightarrow> u32 \<Rightarrow> arm_encoding \<Rightarrow> 's arm \<Rightarrow> 's emulated" where
  "EmulateMVNReg E opcode encoding s =
     (if ConditionPassed opcode s then
       let op = (\<lambda>Rd Rm shift_t shift_n setflags.
             need (ReadCoreReg E Rm s) s (\<lambda>value.
              do { shift \<leftarrow> Shift_C (ae_llvm E) value shift_t shift_n (APSR_C s);
               need shift s (\<lambda>(shifted, carry).
                Some (WriteCoreRegOptionalFlags E (eContextImmediate, NoArgs) (NOT shifted) Rd
                    setflags carry (- 1) s)) }))
       in case encoding of
           eEncodingT1 \<Rightarrow> let Rd = Bits32 opcode 2 0; Rm = Bits32 opcode 5 3;
               setflags = (\<not> InITBlock s)
               in if InITBlock s then fails s
               else op Rd Rm SRType_LSL 0 setflags
         | eEncodingT2 \<Rightarrow> let Rd = Bits32 opcode 11 8; Rm = Bits32 opcode 3 0;
             setflags = is_set opcode 20; (shift_n, shift_t) = DecodeImmShiftThumb opcode
             in if BadReg Rd \<or> BadReg Rm then fails s
             else op Rd Rm shift_t shift_n setflags
         | eEncodingA1 \<Rightarrow> let Rd = Bits32 opcode 15 12; Rm = Bits32 opcode 3 0;
             setflags = is_set opcode 20; (shift_n, shift_t) = DecodeImmShiftARM opcode
             in op Rd Rm shift_t shift_n setflags
         | _ \<Rightarrow> fails s
     else succeeds s)"

section \<open>Logical instructions\<close>


definition EmulateANDImm ::
  "'s arm_env \<Rightarrow> u32 \<Rightarrow> arm_encoding \<Rightarrow> 's arm \<Rightarrow> 's emulated" where
  "EmulateANDImm E opcode encoding s =
     (if ConditionPassed opcode s then
       let op = (\<lambda>Rd Rn setflags imm32 carry.
             need (ReadCoreReg E Rn s) s (\<lambda>val1.
              Some (WriteCoreRegOptionalFlags E (eContextImmediate, NoArgs) (val1 AND imm32) Rd
                  setflags carry (- 1) s)))
       in case encoding of
           eEncodingT1 \<Rightarrow> let Rd = Bits32 opcode 11 8; Rn = Bits32 opcode 19 16;
               setflags = is_set opcode 20; (imm32, carry) = ThumbExpandImm_C opcode (APSR_C s)
               in if Rd = 15 \<and> setflags then EmulateTSTImm E opcode eEncodingT1 s
               else if Rd = 13 \<or> (Rd = 15 \<and> \<not> setflags) \<or> BadReg Rn then fails s
               else op Rd Rn setflags imm32 carry
         | eEncodingA1 \<Rightarrow> let Rd = Bits32 opcode 15 12; Rn = Bits32 opcode 19 16;
             setflags = is_set opcode 20; (imm32, carry) = ARMExpandImm_C opcode (APSR_C s)
             in if Rd = 15 \<and> setflags then EmulateSUBSPcLrEtc E opcode encoding s
             else op Rd Rn setflags imm32 carry
         | _ \<Rightarrow> fails s
     else succeeds s)"

definition EmulateANDReg ::
  "'s arm_env \<Rightarrow> u32 \<Rightarrow> arm_encoding \<Rightarrow> 's arm \<Rightarrow> 's emulated" where
  "EmulateANDReg E opcode encoding s =
     (if ConditionPassed opcode s then
       let op = (\<lambda>Rd Rn Rm shift_t shift_n setflags.
             need (ReadCoreReg E Rn s) s (\<lambda>val1.
              need (ReadCoreReg E Rm s) s (\<lambda>val2.
               do { shift \<leftarrow> Shift_C (ae_llvm E) val2 shift_t shift_n (APSR_C s);
                need shift s (\<lambda>(shifted, carry).
                 Some (WriteCoreRegOptionalFlags E (eContextImmediate, NoArgs) (val1 AND shifted) Rd
                     setflags carry (- 1) s)) })))
       in case encoding of
           eEncodingT1 \<Rightarrow> let Rd = Bits32 opcode 2 0; Rn = Bits32 opcode 2 0; Rm = Bits32 opcode 5 3;
               setflags = (\<not> InITBlock s)
               in op Rd Rn Rm SRType_LSL 0 setflags
         | eEncodingT2 \<Rightarrow> let Rd = Bits32 opcode 11 8; Rn = Bits32 opcode 19 16;
             Rm = Bits32 opcode 3 0; setflags = is_set opcode 20;
                 (shift_n, shift_t) = DecodeImmShiftThumb opcode
             in if Rd = 15 \<and> setflags then EmulateTSTReg E opcode eEncodingT2 s
             else if Rd = 13 \<or> (Rd = 15 \<and> \<not> setflags) \<or> BadReg Rn \<or> BadReg Rm then fails s
             else op Rd Rn Rm shift_t shift_n setflags
         | eEncodingA1 \<Rightarrow> let Rd = Bits32 opcode 15 12; Rn = Bits32 opcode 19 16;
             Rm = Bits32 opcode 3 0; setflags = is_set opcode 20;
                 (shift_n, shift_t) = DecodeImmShiftARM opcode
             in if Rd = 15 \<and> setflags then EmulateSUBSPcLrEtc E opcode encoding s
             else op Rd Rn Rm shift_t shift_n setflags
         | _ \<Rightarrow> fails s
     else succeeds s)"

definition EmulateEORImm ::
  "'s arm_env \<Rightarrow> u32 \<Rightarrow> arm_encoding \<Rightarrow> 's arm \<Rightarrow> 's emulated" where
  "EmulateEORImm E opcode encoding s =
     (if ConditionPassed opcode s then
       let op = (\<lambda>Rd Rn setflags imm32 carry.
             need (ReadCoreReg E Rn s) s (\<lambda>val1.
              Some (WriteCoreRegOptionalFlags E (eContextImmediate, NoArgs) (val1 XOR imm32) Rd
                  setflags carry (- 1) s)))
       in case encoding of
           eEncodingT1 \<Rightarrow> let Rd = Bits32 opcode 11 8; Rn = Bits32 opcode 19 16;
               setflags = is_set opcode 20; (imm32, carry) = ThumbExpandImm_C opcode (APSR_C s)
               in if Rd = 15 \<and> setflags then EmulateTEQImm E opcode eEncodingT1 s
               else if Rd = 13 \<or> (Rd = 15 \<and> \<not> setflags) \<or> BadReg Rn then fails s
               else op Rd Rn setflags imm32 carry
         | eEncodingA1 \<Rightarrow> let Rd = Bits32 opcode 15 12; Rn = Bits32 opcode 19 16;
             setflags = is_set opcode 20; (imm32, carry) = ARMExpandImm_C opcode (APSR_C s)
             in if Rd = 15 \<and> setflags then EmulateSUBSPcLrEtc E opcode encoding s
             else op Rd Rn setflags imm32 carry
         | _ \<Rightarrow> fails s
     else succeeds s)"

definition EmulateEORReg ::
  "'s arm_env \<Rightarrow> u32 \<Rightarrow> arm_encoding \<Rightarrow> 's arm \<Rightarrow> 's emulated" where
  "EmulateEORReg E opcode encoding s =
     (if ConditionPassed opcode s then
       let op = (\<lambda>Rd Rn Rm shift_t shift_n setflags.
             need (ReadCoreReg E Rn s) s (\<lambda>val1.
              need (ReadCoreReg E Rm s) s (\<lambda>val2.
               do { shift \<leftarrow> Shift_C (ae_llvm E) val2 shift_t shift_n (APSR_C s);
                need shift s (\<lambda>(shifted, carry).
                 Some (WriteCoreRegOptionalFlags E (eContextImmediate, NoArgs) (val1 XOR shifted) Rd
                     setflags carry (- 1) s)) })))
       in case encoding of
           eEncodingT1 \<Rightarrow> let Rd = Bits32 opcode 2 0; Rn = Bits32 opcode 2 0; Rm = Bits32 opcode 5 3;
               setflags = (\<not> InITBlock s)
               in op Rd Rn Rm SRType_LSL 0 setflags
         | eEncodingT2 \<Rightarrow> let Rd = Bits32 opcode 11 8; Rn = Bits32 opcode 19 16;
             Rm = Bits32 opcode 3 0; setflags = is_set opcode 20;
                 (shift_n, shift_t) = DecodeImmShiftThumb opcode
             in if Rd = 15 \<and> setflags then EmulateTEQReg E opcode eEncodingT1 s
             else if Rd = 13 \<or> (Rd = 15 \<and> \<not> setflags) \<or> BadReg Rn \<or> BadReg Rm then fails s
             else op Rd Rn Rm shift_t shift_n setflags
         | eEncodingA1 \<Rightarrow> let Rd = Bits32 opcode 15 12; Rn = Bits32 opcode 19 16;
             Rm = Bits32 opcode 3 0; setflags = is_set opcode 20;
                 (shift_n, shift_t) = DecodeImmShiftARM opcode
             in if Rd = 15 \<and> setflags then EmulateSUBSPcLrEtc E opcode encoding s
             else op Rd Rn Rm shift_t shift_n setflags
         | _ \<Rightarrow> fails s
     else succeeds s)"

definition EmulateBICImm ::
  "'s arm_env \<Rightarrow> u32 \<Rightarrow> arm_encoding \<Rightarrow> 's arm \<Rightarrow> 's emulated" where
  "EmulateBICImm E opcode encoding s =
     (if ConditionPassed opcode s then
       let op = (\<lambda>Rd Rn setflags imm32 carry.
             need (ReadCoreReg E Rn s) s (\<lambda>val1.
              Some (WriteCoreRegOptionalFlags E (eContextImmediate, NoArgs) (val1 AND NOT imm32) Rd
                  setflags carry (- 1) s)))
       in case encoding of
           eEncodingT1 \<Rightarrow> let Rd = Bits32 opcode 11 8; Rn = Bits32 opcode 19 16;
               setflags = is_set opcode 20; (imm32, carry) = ThumbExpandImm_C opcode (APSR_C s)
               in if BadReg Rd \<or> BadReg Rn then fails s
               else op Rd Rn setflags imm32 carry
         | eEncodingA1 \<Rightarrow> let Rd = Bits32 opcode 15 12; Rn = Bits32 opcode 19 16;
             setflags = is_set opcode 20; (imm32, carry) = ARMExpandImm_C opcode (APSR_C s)
             in if Rd = 15 \<and> setflags then EmulateSUBSPcLrEtc E opcode encoding s
             else op Rd Rn setflags imm32 carry
         | _ \<Rightarrow> fails s
     else succeeds s)"

definition EmulateBICReg ::
  "'s arm_env \<Rightarrow> u32 \<Rightarrow> arm_encoding \<Rightarrow> 's arm \<Rightarrow> 's emulated" where
  "EmulateBICReg E opcode encoding s =
     (if ConditionPassed opcode s then
       let op = (\<lambda>Rd Rn Rm shift_t shift_n setflags.
             need (ReadCoreReg E Rn s) s (\<lambda>val1.
              need (ReadCoreReg E Rm s) s (\<lambda>val2.
               do { shift \<leftarrow> Shift_C (ae_llvm E) val2 shift_t shift_n (APSR_C s);
                need shift s (\<lambda>(shifted, carry).
                 Some (WriteCoreRegOptionalFlags E (eContextImmediate, NoArgs) (val1 AND NOT
                     shifted) Rd setflags carry (- 1) s)) })))
       in case encoding of
           eEncodingT1 \<Rightarrow> let Rd = Bits32 opcode 2 0; Rn = Bits32 opcode 2 0; Rm = Bits32 opcode 5 3;
               setflags = (\<not> InITBlock s)
               in op Rd Rn Rm SRType_LSL 0 setflags
         | eEncodingT2 \<Rightarrow> let Rd = Bits32 opcode 11 8; Rn = Bits32 opcode 19 16;
             Rm = Bits32 opcode 3 0; setflags = is_set opcode 20;
                 (shift_n, shift_t) = DecodeImmShiftThumb opcode
             in if BadReg Rd \<or> BadReg Rn \<or> BadReg Rm then fails s
             else op Rd Rn Rm shift_t shift_n setflags
         | eEncodingA1 \<Rightarrow> let Rd = Bits32 opcode 15 12; Rn = Bits32 opcode 19 16;
             Rm = Bits32 opcode 3 0; setflags = is_set opcode 20;
                 (shift_n, shift_t) = DecodeImmShiftARM opcode
             in if Rd = 15 \<and> setflags then EmulateSUBSPcLrEtc E opcode encoding s
             else op Rd Rn Rm shift_t shift_n setflags
         | _ \<Rightarrow> fails s
     else succeeds s)"

definition EmulateORRImm ::
  "'s arm_env \<Rightarrow> u32 \<Rightarrow> arm_encoding \<Rightarrow> 's arm \<Rightarrow> 's emulated" where
  "EmulateORRImm E opcode encoding s =
     (if ConditionPassed opcode s then
       let op = (\<lambda>Rd Rn setflags imm32 carry.
             need (ReadCoreReg E Rn s) s (\<lambda>val1.
              Some (WriteCoreRegOptionalFlags E (eContextImmediate, NoArgs) (val1 OR imm32) Rd
                  setflags carry (- 1) s)))
       in case encoding of
           eEncodingT1 \<Rightarrow> let Rd = Bits32 opcode 11 8; Rn = Bits32 opcode 19 16;
               setflags = is_set opcode 20; (imm32, carry) = ThumbExpandImm_C opcode (APSR_C s)
               in if Rn = 15 then EmulateMOVRdImm E opcode eEncodingT2 s
               else if BadReg Rd \<or> Rn = 13 then fails s
               else op Rd Rn setflags imm32 carry
         | eEncodingA1 \<Rightarrow> let Rd = Bits32 opcode 15 12; Rn = Bits32 opcode 19 16;
             setflags = is_set opcode 20; (imm32, carry) = ARMExpandImm_C opcode (APSR_C s)
             in if Rd = 15 \<and> setflags then EmulateSUBSPcLrEtc E opcode encoding s
             else op Rd Rn setflags imm32 carry
         | _ \<Rightarrow> fails s
     else succeeds s)"

definition EmulateORRReg ::
  "'s arm_env \<Rightarrow> u32 \<Rightarrow> arm_encoding \<Rightarrow> 's arm \<Rightarrow> 's emulated" where
  "EmulateORRReg E opcode encoding s =
     (if ConditionPassed opcode s then
       let op = (\<lambda>Rd Rn Rm shift_t shift_n setflags.
             need (ReadCoreReg E Rn s) s (\<lambda>val1.
              need (ReadCoreReg E Rm s) s (\<lambda>val2.
               do { shift \<leftarrow> Shift_C (ae_llvm E) val2 shift_t shift_n (APSR_C s);
                need shift s (\<lambda>(shifted, carry).
                 Some (WriteCoreRegOptionalFlags E (eContextImmediate, NoArgs) (val1 OR shifted) Rd
                     setflags carry (- 1) s)) })))
       in case encoding of
           eEncodingT1 \<Rightarrow> let Rd = Bits32 opcode 2 0; Rn = Bits32 opcode 2 0; Rm = Bits32 opcode 5 3;
               setflags = (\<not> InITBlock s)
               in op Rd Rn Rm SRType_LSL 0 setflags
         | eEncodingT2 \<Rightarrow> let Rd = Bits32 opcode 11 8; Rn = Bits32 opcode 19 16;
             Rm = Bits32 opcode 3 0; setflags = is_set opcode 20;
                 (shift_n, shift_t) = DecodeImmShiftThumb opcode
             in if Rn = 15 then EmulateMOVRdRm E opcode eEncodingT3 s
             else if BadReg Rd \<or> Rn = 13 \<or> BadReg Rm then fails s
             else op Rd Rn Rm shift_t shift_n setflags
         | eEncodingA1 \<Rightarrow> let Rd = Bits32 opcode 15 12; Rn = Bits32 opcode 19 16;
             Rm = Bits32 opcode 3 0; setflags = is_set opcode 20;
                 (shift_n, shift_t) = DecodeImmShiftARM opcode
             in if Rd = 15 \<and> setflags then EmulateSUBSPcLrEtc E opcode encoding s
             else op Rd Rn Rm shift_t shift_n setflags
         | _ \<Rightarrow> fails s
     else succeeds s)"

section \<open>Additions and subtractions\<close>


definition EmulateADCImm ::
  "'s arm_env \<Rightarrow> u32 \<Rightarrow> arm_encoding \<Rightarrow> 's arm \<Rightarrow> 's emulated" where
  "EmulateADCImm E opcode encoding s =
     (if ConditionPassed opcode s then
       let op = (\<lambda>Rd Rn setflags imm32.
             need (ReadCoreReg E Rn s) s (\<lambda>val1.
              do { (result, carry, overflow) \<leftarrow> AddWithCarry (val1) (imm32) (APSR_C s);
               Some (WriteCoreRegOptionalFlags E (eContextImmediate, NoArgs) (result) Rd setflags
                   carry overflow s) }))
       in case encoding of
           eEncodingT1 \<Rightarrow> let Rd = Bits32 opcode 11 8; Rn = Bits32 opcode 19 16;
               setflags = is_set opcode 20; imm32 = ThumbExpandImm opcode
               in if BadReg Rd \<or> BadReg Rn then fails s
               else op Rd Rn setflags imm32
         | eEncodingA1 \<Rightarrow> let Rd = Bits32 opcode 15 12; Rn = Bits32 opcode 19 16;
             setflags = is_set opcode 20; imm32 = ARMExpandImm opcode
             in if Rd = 15 \<and> setflags then EmulateSUBSPcLrEtc E opcode encoding s
             else op Rd Rn setflags imm32
         | _ \<Rightarrow> fails s
     else succeeds s)"

definition EmulateADCReg ::
  "'s arm_env \<Rightarrow> u32 \<Rightarrow> arm_encoding \<Rightarrow> 's arm \<Rightarrow> 's emulated" where
  "EmulateADCReg E opcode encoding s =
     (if ConditionPassed opcode s then
       let op = (\<lambda>Rd Rn Rm shift_t shift_n setflags.
             need (ReadCoreReg E Rn s) s (\<lambda>val1.
              need (ReadCoreReg E Rm s) s (\<lambda>val2.
               do { shift \<leftarrow> Shift (ae_llvm E) val2 shift_t shift_n (APSR_C s);
                need shift s (\<lambda>shifted.
                 do { (result, carry, overflow) \<leftarrow> AddWithCarry (val1) (shifted) (APSR_C s);
                  Some (WriteCoreRegOptionalFlags E (eContextImmediate, NoArgs) (result) Rd setflags
                      carry overflow s) }) })))
       in case encoding of
           eEncodingT1 \<Rightarrow> let Rd = Bits32 opcode 2 0; Rn = Bits32 opcode 2 0; Rm = Bits32 opcode 5 3;
               setflags = (\<not> InITBlock s)
               in op Rd Rn Rm SRType_LSL 0 setflags
         | eEncodingT2 \<Rightarrow> let Rd = Bits32 opcode 11 8; Rn = Bits32 opcode 19 16;
             Rm = Bits32 opcode 3 0; setflags = is_set opcode 20;
                 (shift_n, shift_t) = DecodeImmShiftThumb opcode
             in if BadReg Rd \<or> BadReg Rn \<or> BadReg Rm then fails s
             else op Rd Rn Rm shift_t shift_n setflags
         | eEncodingA1 \<Rightarrow> let Rd = Bits32 opcode 15 12; Rn = Bits32 opcode 19 16;
             Rm = Bits32 opcode 3 0; setflags = is_set opcode 20;
                 (shift_n, shift_t) = DecodeImmShiftARM opcode
             in if Rd = 15 \<and> setflags then EmulateSUBSPcLrEtc E opcode encoding s
             else op Rd Rn Rm shift_t shift_n setflags
         | _ \<Rightarrow> fails s
     else succeeds s)"

text \<open>\<open>RSB\<close>, \<open>RSC\<close> and \<open>SBC\<close> do not look at the condition.\<close>


definition EmulateRSBImm ::
  "'s arm_env \<Rightarrow> u32 \<Rightarrow> arm_encoding \<Rightarrow> 's arm \<Rightarrow> 's emulated" where
  "EmulateRSBImm E opcode encoding s =
     (
       let op = (\<lambda>Rd Rn setflags imm32.
             need (ReadCoreReg E Rn s) s (\<lambda>val1.
              do { (result, carry, overflow) \<leftarrow> AddWithCarry (NOT val1) (imm32) (1);
               Some (WriteCoreRegOptionalFlags E (eContextImmediate, NoArgs) (result) Rd setflags
                   carry overflow s) }))
       in case encoding of
           eEncodingT1 \<Rightarrow> let Rd = Bits32 opcode 2 0; Rn = Bits32 opcode 5 3;
               setflags = (\<not> InITBlock s); imm32 = 0
               in op Rd Rn setflags imm32
         | eEncodingT2 \<Rightarrow> let Rd = Bits32 opcode 11 8; Rn = Bits32 opcode 19 16;
             setflags = is_set opcode 20; imm32 = ThumbExpandImm opcode
             in if BadReg Rd \<or> BadReg Rn then fails s
             else op Rd Rn setflags imm32
         | eEncodingA1 \<Rightarrow> let Rd = Bits32 opcode 15 12; Rn = Bits32 opcode 19 16;
             setflags = is_set opcode 20; imm32 = ARMExpandImm opcode
             in if Rd = 15 \<and> setflags then EmulateSUBSPcLrEtc E opcode encoding s
             else op Rd Rn setflags imm32
         | _ \<Rightarrow> fails s
     )"

definition EmulateRSBReg ::
  "'s arm_env \<Rightarrow> u32 \<Rightarrow> arm_encoding \<Rightarrow> 's arm \<Rightarrow> 's emulated" where
  "EmulateRSBReg E opcode encoding s =
     (
       let op = (\<lambda>Rd Rn Rm shift_t shift_n setflags.
             need (ReadCoreReg E Rn s) s (\<lambda>val1.
              need (ReadCoreReg E Rm s) s (\<lambda>val2.
               do { shift \<leftarrow> Shift (ae_llvm E) val2 shift_t shift_n (APSR_C s);
                need shift s (\<lambda>shifted.
                 do { (result, carry, overflow) \<leftarrow> AddWithCarry (NOT val1) (shifted) (1);
                  Some (WriteCoreRegOptionalFlags E (eContextImmediate, NoArgs) (result) Rd setflags
                      carry overflow s) }) })))
       in case encoding of
           eEncodingT1 \<Rightarrow> let Rd = Bits32 opcode 11 8; Rn = Bits32 opcode 19 16;
               Rm = Bits32 opcode 3 0; setflags = is_set opcode 20;
                   (shift_n, shift_t) = DecodeImmShiftThumb opcode
               in if BadReg Rd \<or> BadReg Rn \<or> BadReg Rm then fails s
               else op Rd Rn Rm shift_t shift_n setflags
         | eEncodingA1 \<Rightarrow> let Rd = Bits32 opcode 15 12; Rn = Bits32 opcode 19 16;
             Rm = Bits32 opcode 3 0; setflags = is_set opcode 20;
                 (shift_n, shift_t) = DecodeImmShiftARM opcode
             in if Rd = 15 \<and> setflags then EmulateSUBSPcLrEtc E opcode encoding s
             else op Rd Rn Rm shift_t shift_n setflags
         | _ \<Rightarrow> fails s
     )"

definition EmulateRSCImm ::
  "'s arm_env \<Rightarrow> u32 \<Rightarrow> arm_encoding \<Rightarrow> 's arm \<Rightarrow> 's emulated" where
  "EmulateRSCImm E opcode encoding s =
     (
       let op = (\<lambda>Rd Rn setflags imm32.
             need (ReadCoreReg E Rn s) s (\<lambda>val1.
              do { (result, carry, overflow) \<leftarrow> AddWithCarry (NOT val1) (imm32) (APSR_C s);
               Some (WriteCoreRegOptionalFlags E (eContextImmediate, NoArgs) (result) Rd setflags
                   carry overflow s) }))
       in case encoding of
           eEncodingA1 \<Rightarrow> let Rd = Bits32 opcode 15 12; Rn = Bits32 opcode 19 16;
               setflags = is_set opcode 20; imm32 = ARMExpandImm opcode
               in if Rd = 15 \<and> setflags then EmulateSUBSPcLrEtc E opcode encoding s
               else op Rd Rn setflags imm32
         | _ \<Rightarrow> fails s
     )"

definition EmulateRSCReg ::
  "'s arm_env \<Rightarrow> u32 \<Rightarrow> arm_encoding \<Rightarrow> 's arm \<Rightarrow> 's emulated" where
  "EmulateRSCReg E opcode encoding s =
     (
       let op = (\<lambda>Rd Rn Rm shift_t shift_n setflags.
             need (ReadCoreReg E Rn s) s (\<lambda>val1.
              need (ReadCoreReg E Rm s) s (\<lambda>val2.
               do { shift \<leftarrow> Shift (ae_llvm E) val2 shift_t shift_n (APSR_C s);
                need shift s (\<lambda>shifted.
                 do { (result, carry, overflow) \<leftarrow> AddWithCarry (NOT val1) (shifted) (APSR_C s);
                  Some (WriteCoreRegOptionalFlags E (eContextImmediate, NoArgs) (result) Rd setflags
                      carry overflow s) }) })))
       in case encoding of
           eEncodingA1 \<Rightarrow> let Rd = Bits32 opcode 15 12; Rn = Bits32 opcode 19 16;
               Rm = Bits32 opcode 3 0; setflags = is_set opcode 20;
                   (shift_n, shift_t) = DecodeImmShiftARM opcode
               in if Rd = 15 \<and> setflags then EmulateSUBSPcLrEtc E opcode encoding s
               else op Rd Rn Rm shift_t shift_n setflags
         | _ \<Rightarrow> fails s
     )"

definition EmulateSBCImm ::
  "'s arm_env \<Rightarrow> u32 \<Rightarrow> arm_encoding \<Rightarrow> 's arm \<Rightarrow> 's emulated" where
  "EmulateSBCImm E opcode encoding s =
     (
       let op = (\<lambda>Rd Rn setflags imm32.
             need (ReadCoreReg E Rn s) s (\<lambda>val1.
              do { (result, carry, overflow) \<leftarrow> AddWithCarry (val1) (NOT imm32) (APSR_C s);
               Some (WriteCoreRegOptionalFlags E (eContextImmediate, NoArgs) (result) Rd setflags
                   carry overflow s) }))
       in case encoding of
           eEncodingT1 \<Rightarrow> let Rd = Bits32 opcode 11 8; Rn = Bits32 opcode 19 16;
               setflags = is_set opcode 20; imm32 = ThumbExpandImm opcode
               in if BadReg Rd \<or> BadReg Rn then fails s
               else op Rd Rn setflags imm32
         | eEncodingA1 \<Rightarrow> let Rd = Bits32 opcode 15 12; Rn = Bits32 opcode 19 16;
             setflags = is_set opcode 20; imm32 = ARMExpandImm opcode
             in if Rd = 15 \<and> setflags then EmulateSUBSPcLrEtc E opcode encoding s
             else op Rd Rn setflags imm32
         | _ \<Rightarrow> fails s
     )"

definition EmulateSBCReg ::
  "'s arm_env \<Rightarrow> u32 \<Rightarrow> arm_encoding \<Rightarrow> 's arm \<Rightarrow> 's emulated" where
  "EmulateSBCReg E opcode encoding s =
     (
       let op = (\<lambda>Rd Rn Rm shift_t shift_n setflags.
             need (ReadCoreReg E Rn s) s (\<lambda>val1.
              need (ReadCoreReg E Rm s) s (\<lambda>val2.
               do { shift \<leftarrow> Shift (ae_llvm E) val2 shift_t shift_n (APSR_C s);
                need shift s (\<lambda>shifted.
                 do { (result, carry, overflow) \<leftarrow> AddWithCarry (val1) (NOT shifted) (APSR_C s);
                  Some (WriteCoreRegOptionalFlags E (eContextImmediate, NoArgs) (result) Rd setflags
                      carry overflow s) }) })))
       in case encoding of
           eEncodingT1 \<Rightarrow> let Rd = Bits32 opcode 2 0; Rn = Bits32 opcode 2 0; Rm = Bits32 opcode 5 3;
               setflags = (\<not> InITBlock s)
               in op Rd Rn Rm SRType_LSL 0 setflags
         | eEncodingT2 \<Rightarrow> let Rd = Bits32 opcode 11 8; Rn = Bits32 opcode 19 16;
             Rm = Bits32 opcode 3 0; setflags = is_set opcode 20;
                 (shift_n, shift_t) = DecodeImmShiftThumb opcode
             in if BadReg Rd \<or> BadReg Rn \<or> BadReg Rm then fails s
             else op Rd Rn Rm shift_t shift_n setflags
         | eEncodingA1 \<Rightarrow> let Rd = Bits32 opcode 15 12; Rn = Bits32 opcode 19 16;
             Rm = Bits32 opcode 3 0; setflags = is_set opcode 20;
                 (shift_n, shift_t) = DecodeImmShiftARM opcode
             in if Rd = 15 \<and> setflags then EmulateSUBSPcLrEtc E opcode encoding s
             else op Rd Rn Rm shift_t shift_n setflags
         | _ \<Rightarrow> fails s
     )"

definition EmulateADDImmARM ::
  "'s arm_env \<Rightarrow> u32 \<Rightarrow> arm_encoding \<Rightarrow> 's arm \<Rightarrow> 's emulated" where
  "EmulateADDImmARM E opcode encoding s =
     (if ConditionPassed opcode s then
       let op = (\<lambda>Rd Rn setflags imm32.
             need (ReadCoreReg E Rn s) s (\<lambda>val1.
              do { (result, carry, overflow) \<leftarrow> AddWithCarry (val1) (imm32) (0);
               Some (WriteCoreRegOptionalFlags E (if Rd = 13 then eContextAdjustStackPointer
           else if Rd = GetFramePointerRegisterNumber E s then eContextSetFramePointer
           else eContextRegisterPlusOffset, RegisterPlusOffset Rn (ucast imm32)) (result) Rd
               setflags carry overflow s) }))
       in case encoding of
           eEncodingA1 \<Rightarrow> let Rd = Bits32 opcode 15 12; Rn = Bits32 opcode 19 16;
               setflags = is_set opcode 20; imm32 = ARMExpandImm opcode
               in op Rd Rn setflags imm32
         | _ \<Rightarrow> fails s
     else succeeds s)"

definition EmulateADDReg ::
  "'s arm_env \<Rightarrow> u32 \<Rightarrow> arm_encoding \<Rightarrow> 's arm \<Rightarrow> 's emulated" where
  "EmulateADDReg E opcode encoding s =
     (if ConditionPassed opcode s then
       let op = (\<lambda>Rd Rn Rm shift_t shift_n setflags.
             need (ReadCoreReg E Rn s) s (\<lambda>val1.
              need (ReadCoreReg E Rm s) s (\<lambda>val2.
               do { shift \<leftarrow> Shift (ae_llvm E) val2 shift_t shift_n (APSR_C s);
                need shift s (\<lambda>shifted.
                 do { (result, carry, overflow) \<leftarrow> AddWithCarry (val1) (shifted) (0);
                  Some (WriteCoreRegOptionalFlags E (eContextArithmetic, RegisterRegisterOperands Rn
                      Rm) (result) Rd setflags carry overflow s) }) })))
       in case encoding of
           eEncodingT1 \<Rightarrow> let Rd = Bits32 opcode 2 0; Rn = Bits32 opcode 5 3; Rm = Bits32 opcode 8 6;
               setflags = (\<not> InITBlock s)
               in op Rd Rn Rm SRType_LSL 0 setflags
         | eEncodingT2 \<Rightarrow> let Rd = (push_bit 3 (Bit32 opcode 7) OR Bits32 opcode 2 0); Rn = Rd;
             Rm = Bits32 opcode 6 3; setflags = False
             in if Rn = 15 \<and> Rm = 15 then fails s
             else if Rd = 15 \<and> InITBlock s \<and> \<not> LastInITBlock s then fails s
             else op Rd Rn Rm SRType_LSL 0 setflags
         | eEncodingA1 \<Rightarrow> let Rd = Bits32 opcode 15 12; Rn = Bits32 opcode 19 16;
             Rm = Bits32 opcode 3 0; setflags = is_set opcode 20;
                 (shift_n, shift_t) = DecodeImmShiftARM opcode
             in op Rd Rn Rm shift_t shift_n setflags
         | _ \<Rightarrow> fails s
     else succeeds s)"

definition EmulateADDRegShift ::
  "'s arm_env \<Rightarrow> u32 \<Rightarrow> arm_encoding \<Rightarrow> 's arm \<Rightarrow> 's emulated" where
  "EmulateADDRegShift E opcode encoding s =
     (if ConditionPassed opcode s then
       case encoding of
         eEncodingA1 \<Rightarrow>
           let d = Bits32 opcode 15 12; n = Bits32 opcode 19 16; m = Bits32 opcode 3 0;
               rs = Bits32 opcode 11 8; setflags = is_set opcode 20;
               shift_t = DecodeRegShift (Bits32 opcode 6 5)
           in if d = 15 \<or> m = 15 \<or> m = 15 \<or> rs = 15 then fails s
              else need (ReadCoreReg E rs s) s (\<lambda>Rs.
                let shift_n = Bits32 Rs 7 0
                in need (ReadCoreReg E m s) s (\<lambda>Rm.
                  do { shift \<leftarrow> Shift (ae_llvm E) Rm shift_t shift_n (APSR_C s);
                       need shift s (\<lambda>shifted.
                         need (ReadCoreReg E n s) s (\<lambda>Rn.
                           do { (result, carry, overflow) \<leftarrow> AddWithCarry Rn shifted 0;
                                let ctx = (eContextArithmetic, RegisterRegisterOperands n m)
                                in check (WriteRegisterUnsigned E ctx eRegisterKindDWARF d (ucast result) s)
                                     (\<lambda>s. if setflags then Some (WriteFlags E ctx result carry overflow s)
                                          else succeeds s) })) }))
       | _ \<Rightarrow> fails s
     else succeeds s)"

definition EmulateSUBSPImm ::
  "'s arm_env \<Rightarrow> u32 \<Rightarrow> arm_encoding \<Rightarrow> 's arm \<Rightarrow> 's emulated" where
  "EmulateSUBSPImm E opcode encoding s =
     (if ConditionPassed opcode s then
       need (ReadCoreReg E SP_REG s) s (\<lambda>sp.
         let op = (\<lambda>Rd setflags imm32.
               do { (result, carry, overflow) \<leftarrow> AddWithCarry sp (NOT imm32) 1;
                    let ctx = (if Rd = 13
                               then (eContextAdjustStackPointer, ImmediateSigned (- ucast imm32))
                               else (eContextImmediate, NoArgs))
                    in Some (WriteCoreRegOptionalFlags E ctx result Rd setflags carry overflow s) })
         in case encoding of
              eEncodingT1 \<Rightarrow> op 13 False (ThumbImm7Scaled opcode)
            | eEncodingT2 \<Rightarrow>
                let Rd = Bits32 opcode 11 8; setflags = is_set opcode 20; imm32 = ThumbExpandImm opcode
                in if Rd = 15 \<and> setflags then EmulateCMPImm E opcode eEncodingT2 s
                   else if Rd = 15 \<and> \<not> setflags then fails s
                   else op Rd setflags imm32
            | eEncodingT3 \<Rightarrow>
                let Rd = Bits32 opcode 11 8; imm32 = ThumbImm12 opcode
                in if Rd = 15 then fails s else op Rd False imm32
            | eEncodingA1 \<Rightarrow>
                let Rd = Bits32 opcode 15 12; setflags = is_set opcode 20; imm32 = ARMExpandImm opcode
                in if Rd = 15 \<and> setflags then EmulateSUBSPcLrEtc E opcode encoding s
                   else op Rd setflags imm32
            | _ \<Rightarrow> fails s)
     else succeeds s)"

definition EmulateSUBSPReg ::
  "'s arm_env \<Rightarrow> u32 \<Rightarrow> arm_encoding \<Rightarrow> 's arm \<Rightarrow> 's emulated" where
  "EmulateSUBSPReg E opcode encoding s =
     (if ConditionPassed opcode s then
       let op = (\<lambda>d m setflags shift_t shift_n s.
             need (ReadCoreReg E m s) s (\<lambda>Rm.
               do { shift \<leftarrow> Shift (ae_llvm E) Rm shift_t shift_n (APSR_C s);
                    need shift s (\<lambda>shifted.
                      need (ReadCoreReg E SP_REG s) s (\<lambda>sp_val.
                        do { (result, carry, overflow) \<leftarrow> AddWithCarry sp_val (NOT shifted) 1;
                             Some (WriteCoreRegOptionalFlags E
                                     (eContextArithmetic, RegisterRegisterOperands 13 m)
                                     result d setflags carry overflow s) })) }))
       in case encoding of
            eEncodingT1 \<Rightarrow>
              let d = Bits32 opcode 11 8; m = Bits32 opcode 3 0; setflags = is_set opcode 20;
                  (shift_n, shift_t) = DecodeImmShiftThumb opcode
              in if d = 13 \<and> (shift_t \<noteq> SRType_LSL \<or> shift_n > 3) then fails s
                 else if d = 15 \<or> BadReg m then fails s
                 else op d m setflags shift_t shift_n s
          | eEncodingA1 \<Rightarrow>
              let d = Bits32 opcode 15 12; m = Bits32 opcode 3 0; setflags = is_set opcode 20;
                  (shift_n, shift_t) = DecodeImmShiftARM opcode
              in do { (_, s) \<leftarrow> (if d = 15 \<and> setflags then EmulateSUBSPcLrEtc E opcode encoding s
                                 else succeeds s);
                      op d m setflags shift_t shift_n s }
          | _ \<Rightarrow> fails s
     else succeeds s)"

definition EmulateADR ::
  "'s arm_env \<Rightarrow> u32 \<Rightarrow> arm_encoding \<Rightarrow> 's arm \<Rightarrow> 's emulated" where
  "EmulateADR E opcode encoding s =
     (if ConditionPassed opcode s then
       let op = (\<lambda>Rd imm32 add.
             need (ReadCoreReg E PC_REG s) s (\<lambda>pc.
               let result = (if add then Align pc 4 + imm32 else Align pc 4 - imm32)
               in Some (WriteCoreReg E (eContextImmediate, NoArgs) result Rd s)));
           thumb = (let Rd = Bits32 opcode 11 8; imm32 = ThumbImm12 opcode;
                        add = (Bits32 opcode 24 21 = 0)
                    in if BadReg Rd then fails s else op Rd imm32 add);
           arm = op (Bits32 opcode 15 12) (ARMExpandImm opcode) (Bits32 opcode 24 21 = 0x4)
       in case encoding of
            eEncodingT1 \<Rightarrow> op (Bits32 opcode 10 8) (ThumbImm8Scaled opcode) True
          | eEncodingT2 \<Rightarrow> thumb
          | eEncodingT3 \<Rightarrow> thumb
          | eEncodingA1 \<Rightarrow> arm
          | eEncodingA2 \<Rightarrow> arm
          | _ \<Rightarrow> fails s
     else succeeds s)"

definition EmulateADDSPImm ::
  "'s arm_env \<Rightarrow> u32 \<Rightarrow> arm_encoding \<Rightarrow> 's arm \<Rightarrow> 's emulated" where
  "EmulateADDSPImm E opcode encoding s =
     (if ConditionPassed opcode s then
       need (ReadCoreReg E SP_REG s) s (\<lambda>sp.
         let op = (\<lambda>d imm32 setflags.
               do { (result, carry, overflow) \<leftarrow> AddWithCarry sp imm32 0;
                    let ctx = (if d = 13 then eContextAdjustStackPointer else eContextRegisterPlusOffset,
                               RegisterPlusOffset 13 (ucast result - ucast sp))
                    in if d = 15 then Some (ALUWritePC E ctx result s)
                       else Some (WriteCoreRegOptionalFlags E ctx result d setflags carry overflow s) })
         in case encoding of
              eEncodingT1 \<Rightarrow> op (Bits32 opcode 10 8) (push_bit 2 (Bits32 opcode 7 0)) False
            | eEncodingT2 \<Rightarrow> op 13 (ThumbImm7Scaled opcode) False
            | eEncodingT3 \<Rightarrow>
                let d = Bits32 opcode 11 8; imm32 = ThumbExpandImm opcode; setflags = (Bit32 opcode 20 \<noteq> 0)
                in if d = 15 \<and> setflags then fails s
                   else if d = 15 \<and> \<not> setflags then fails s
                   else op d imm32 setflags
            | eEncodingT4 \<Rightarrow>
                let d = Bits32 opcode 11 8; i = Bit32 opcode 26; imm3 = Bits32 opcode 14 12;
                    imm8 = Bits32 opcode 7 0; imm32 = (push_bit 11 i OR push_bit 8 imm3 OR imm8)
                in if d = 15 then fails s else op d imm32 False
            | _ \<Rightarrow> fails s)
     else succeeds s)"

definition EmulateADDImmThumb ::
  "'s arm_env \<Rightarrow> u32 \<Rightarrow> arm_encoding \<Rightarrow> 's arm \<Rightarrow> 's emulated" where
  "EmulateADDImmThumb E opcode encoding s =
     (if ConditionPassed opcode s then
       let op = (\<lambda>Rd Rn setflags imm32.
             need (ReadRegisterUnsigned E eRegisterKindDWARF Rn s) s (\<lambda>val1.
              do { (result, carry, overflow) \<leftarrow> AddWithCarry (ucast val1) (imm32) (0);
               Some (WriteCoreRegOptionalFlags E (eContextArithmetic, RegisterPlusOffset Rn (ucast
                   imm32)) (result) Rd setflags carry overflow s) }))
       in case encoding of
           eEncodingT1 \<Rightarrow> let Rd = Bits32 opcode 2 0; Rn = Bits32 opcode 5 3;
               setflags = (\<not> InITBlock s); imm32 = Bits32 opcode 8 6
               in op Rd Rn setflags imm32
         | eEncodingT2 \<Rightarrow> let Rd = Bits32 opcode 10 8; Rn = Bits32 opcode 10 8;
             setflags = (\<not> InITBlock s); imm32 = Bits32 opcode 7 0
             in op Rd Rn setflags imm32
         | eEncodingT3 \<Rightarrow> let Rd = Bits32 opcode 11 8; Rn = Bits32 opcode 19 16;
             setflags = is_set opcode 20; imm32 = fst (ThumbExpandImm_C opcode (APSR_C s))
             in if Rn = 13 then EmulateADDSPImm E opcode eEncodingT3 s
             else if BadReg Rd \<or> Rn = 15 then fails s
             else op Rd Rn setflags imm32
         | eEncodingT4 \<Rightarrow> let Rd = Bits32 opcode 11 8; Rn = Bits32 opcode 19 16; setflags = False;
             i = Bit32 opcode 26; imm3 = Bits32 opcode 14 12; imm8 = Bits32 opcode 7 0;
                 imm32 = (push_bit 11 i OR push_bit 8 imm3 OR imm8)
             in if Rn = 13 then EmulateADDSPImm E opcode eEncodingT4 s
             else if BadReg Rd then fails s
             else op Rd Rn setflags imm32
         | _ \<Rightarrow> fails s
     else succeeds s)"

text \<open>The Thumb form does not look at the condition.\<close>


definition EmulateSUBImmThumb ::
  "'s arm_env \<Rightarrow> u32 \<Rightarrow> arm_encoding \<Rightarrow> 's arm \<Rightarrow> 's emulated" where
  "EmulateSUBImmThumb E opcode encoding s =
     (
       let op = (\<lambda>Rd Rn setflags imm32.
             need (ReadCoreReg E Rn s) s (\<lambda>val1.
              do { (result, carry, overflow) \<leftarrow> AddWithCarry (val1) (NOT imm32) (1);
               Some (WriteCoreRegOptionalFlags E (eContextImmediate, NoArgs) (result) Rd setflags
                   carry overflow s) }))
       in case encoding of
           eEncodingT1 \<Rightarrow> let Rd = Bits32 opcode 2 0; Rn = Bits32 opcode 5 3;
               setflags = (\<not> InITBlock s); imm32 = Bits32 opcode 8 6
               in op Rd Rn setflags imm32
         | eEncodingT2 \<Rightarrow> let Rd = Bits32 opcode 10 8; Rn = Bits32 opcode 10 8;
             setflags = (\<not> InITBlock s); imm32 = Bits32 opcode 7 0
             in op Rd Rn setflags imm32
         | eEncodingT3 \<Rightarrow> let Rd = Bits32 opcode 11 8; Rn = Bits32 opcode 19 16;
             setflags = is_set opcode 20; imm32 = ThumbExpandImm opcode
             in if Rd = 15 \<and> setflags then EmulateCMPImm E opcode eEncodingT2 s
             else if Rn = 13 then EmulateSUBSPImm E opcode eEncodingT2 s
             else if Rd = 13 \<or> (Rd = 15 \<and> \<not> setflags) \<or> Rn = 15 then fails s
             else op Rd Rn setflags imm32
         | eEncodingT4 \<Rightarrow> let Rd = Bits32 opcode 11 8; Rn = Bits32 opcode 19 16;
             setflags = is_set opcode 20; imm32 = ThumbImm12 opcode
             in if Rn = 15 then EmulateADR E opcode eEncodingT2 s
             else if Rn = 13 then EmulateSUBSPImm E opcode eEncodingT3 s
             else if BadReg Rd then fails s
             else op Rd Rn setflags imm32
         | _ \<Rightarrow> fails s
     )"

definition EmulateSUBImmARM ::
  "'s arm_env \<Rightarrow> u32 \<Rightarrow> arm_encoding \<Rightarrow> 's arm \<Rightarrow> 's emulated" where
  "EmulateSUBImmARM E opcode encoding s =
     (if ConditionPassed opcode s then
       let op = (\<lambda>Rd Rn setflags imm32.
             need (ReadCoreReg E Rn s) s (\<lambda>val1.
              do { (result, carry, overflow) \<leftarrow> AddWithCarry (val1) (NOT imm32) (1);
               Some (WriteCoreRegOptionalFlags E (if Rd = 13 then eContextAdjustStackPointer
           else eContextRegisterPlusOffset, RegisterPlusOffset Rn (- ucast imm32)) (result) Rd
               setflags carry overflow s) }))
       in case encoding of
           eEncodingA1 \<Rightarrow> let Rd = Bits32 opcode 15 12; Rn = Bits32 opcode 19 16;
               setflags = is_set opcode 20; imm32 = ARMExpandImm opcode
               in if Rn = 15 \<and> \<not> setflags then EmulateADR E opcode eEncodingA2 s
               else if Rn = 13 then EmulateSUBSPImm E opcode eEncodingA1 s
               else if Rd = 15 \<and> setflags then EmulateSUBSPcLrEtc E opcode encoding s
               else op Rd Rn setflags imm32
         | _ \<Rightarrow> fails s
     else succeeds s)"

definition EmulateSUBReg ::
  "'s arm_env \<Rightarrow> u32 \<Rightarrow> arm_encoding \<Rightarrow> 's arm \<Rightarrow> 's emulated" where
  "EmulateSUBReg E opcode encoding s =
     (if ConditionPassed opcode s then
       let op = (\<lambda>d n m setflags shift_t shift_n s.
             need (ReadCoreReg E m s) s (\<lambda>Rm.
              do { shift \<leftarrow> Shift (ae_llvm E) Rm shift_t shift_n (APSR_C s);
               need shift s (\<lambda>shifted.
                need (ReadCoreReg E n s) s (\<lambda>Rn.
                 do { (result, carry, overflow) \<leftarrow> AddWithCarry Rn (NOT shifted) 1;
                  Some (WriteCoreRegOptionalFlags E (eContextArithmetic, RegisterRegisterOperands n
                      m) result d setflags carry overflow s) })) }))
       in case encoding of
           eEncodingT1 \<Rightarrow> let d = Bits32 opcode 2 0; n = Bits32 opcode 5 3; m = Bits32 opcode 8 6;
               setflags = (\<not> InITBlock s)
               in op d n m setflags SRType_LSL 0 s
         | eEncodingT2 \<Rightarrow> let d = Bits32 opcode 11 8; n = Bits32 opcode 19 16; m = Bits32 opcode 3 0;
             setflags = is_set opcode 20; (shift_n, shift_t) = DecodeImmShiftThumb opcode
             in if d = 15 \<and> setflags then EmulateCMPImm E opcode eEncodingT3 s
             else if n = 13 then EmulateSUBSPReg E opcode eEncodingT1 s
             else if d = 13 \<or> (d = 15 \<and> is_clear opcode 20) \<or> n = 15 \<or> BadReg m then fails s
             else op d n m setflags shift_t shift_n s
         | eEncodingA1 \<Rightarrow> let d = Bits32 opcode 15 12; n = Bits32 opcode 19 16; m = Bits32 opcode 3 0;
             setflags = is_set opcode 20; (shift_n, shift_t) = DecodeImmShiftARM opcode
             in do { (_, s) \<leftarrow> (if d = 15 \<and> setflags then EmulateSUBSPcLrEtc E opcode encoding s
             else succeeds s); op d n m setflags shift_t shift_n s }
         | _ \<Rightarrow> fails s
     else succeeds s)"

section \<open>Shifts\<close>


definition EmulateShiftImm ::
  "'s arm_env \<Rightarrow> u32 \<Rightarrow> arm_encoding \<Rightarrow> ARM_ShifterType \<Rightarrow> 's arm \<Rightarrow> 's emulated" where
  "EmulateShiftImm E opcode encoding shift_type s =
     (if ConditionPassed opcode s then
       let op = (\<lambda>Rd Rm setflags imm5.
             let shift_type = (if shift_type = SRType_ROR \<and> imm5 = 0 then SRType_RRX else shift_type)
             in need (ReadCoreReg E Rm s) s (\<lambda>value.
                  let amt = (if shift_type = SRType_RRX then 1 else DecodeImmShift_of shift_type imm5)
                  in do { shift \<leftarrow> Shift_C (ae_llvm E) value shift_type amt (APSR_C s);
                          need shift s (\<lambda>(result, carry).
                            Some (WriteCoreRegOptionalFlags E (eContextImmediate, NoArgs) result Rd
                                    setflags carry (- 1) s)) }));
           use_encoding = (if shift_type = SRType_ROR \<and> encoding = eEncodingT1 then eEncodingT2
                           else encoding)
       in case use_encoding of
            eEncodingT1 \<Rightarrow>
              if shift_type = SRType_ROR then fails s
              else op (Bits32 opcode 2 0) (Bits32 opcode 5 3) (\<not> InITBlock s) (Bits32 opcode 10 6)
          | eEncodingT2 \<Rightarrow>
              if shift_type = SRType_RRX then fails s
              else let Rd = Bits32 opcode 11 8; Rm = Bits32 opcode 3 0; setflags = is_set opcode 20;
                       imm5 = (push_bit 2 (Bits32 opcode 14 12) OR Bits32 opcode 7 6)
                   in if BadReg Rd \<or> BadReg Rm then fails s else op Rd Rm setflags imm5
          | eEncodingA1 \<Rightarrow>
              op (Bits32 opcode 15 12) (Bits32 opcode 3 0) (is_set opcode 20) (Bits32 opcode 11 7)
          | _ \<Rightarrow> fails s
     else succeeds s)"

definition EmulateShiftReg ::
  "'s arm_env \<Rightarrow> u32 \<Rightarrow> arm_encoding \<Rightarrow> ARM_ShifterType \<Rightarrow> 's arm \<Rightarrow> 's emulated" where
  "EmulateShiftReg E opcode encoding shift_type s =
     (if ConditionPassed opcode s then
       let op = (\<lambda>Rd Rn Rm setflags.
             need (ReadCoreReg E Rn s) s (\<lambda>value.
               need (ReadCoreReg E Rm s) s (\<lambda>val.
                 let amt = Bits32 val 7 0
                 in do { shift \<leftarrow> Shift_C (ae_llvm E) value shift_type amt (APSR_C s);
                         need shift s (\<lambda>(result, carry).
                           Some (WriteCoreRegOptionalFlags E (eContextImmediate, NoArgs) result Rd
                                   setflags carry (- 1) s)) })))
       in case encoding of
            eEncodingT1 \<Rightarrow>
              let Rd = Bits32 opcode 2 0 in op Rd Rd (Bits32 opcode 5 3) (\<not> InITBlock s)
          | eEncodingT2 \<Rightarrow>
              let Rd = Bits32 opcode 11 8; Rn = Bits32 opcode 19 16; Rm = Bits32 opcode 3 0
              in if BadReg Rd \<or> BadReg Rn \<or> BadReg Rm then fails s
                 else op Rd Rn Rm (is_set opcode 20)
          | eEncodingA1 \<Rightarrow>
              let Rd = Bits32 opcode 15 12; Rn = Bits32 opcode 3 0; Rm = Bits32 opcode 11 8
              in if Rd = 15 \<or> Rn = 15 \<or> Rm = 15 then fails s
                 else op Rd Rn Rm (is_set opcode 20)
          | _ \<Rightarrow> fails s
     else succeeds s)"

definition EmulateASRImm ::
  "'s arm_env \<Rightarrow> u32 \<Rightarrow> arm_encoding \<Rightarrow> 's arm \<Rightarrow> 's emulated" where
  "EmulateASRImm E opcode encoding s = EmulateShiftImm E opcode encoding SRType_ASR s"

definition EmulateASRReg ::
  "'s arm_env \<Rightarrow> u32 \<Rightarrow> arm_encoding \<Rightarrow> 's arm \<Rightarrow> 's emulated" where
  "EmulateASRReg E opcode encoding s = EmulateShiftReg E opcode encoding SRType_ASR s"

definition EmulateLSLImm ::
  "'s arm_env \<Rightarrow> u32 \<Rightarrow> arm_encoding \<Rightarrow> 's arm \<Rightarrow> 's emulated" where
  "EmulateLSLImm E opcode encoding s = EmulateShiftImm E opcode encoding SRType_LSL s"

definition EmulateLSLReg ::
  "'s arm_env \<Rightarrow> u32 \<Rightarrow> arm_encoding \<Rightarrow> 's arm \<Rightarrow> 's emulated" where
  "EmulateLSLReg E opcode encoding s = EmulateShiftReg E opcode encoding SRType_LSL s"

definition EmulateLSRImm ::
  "'s arm_env \<Rightarrow> u32 \<Rightarrow> arm_encoding \<Rightarrow> 's arm \<Rightarrow> 's emulated" where
  "EmulateLSRImm E opcode encoding s = EmulateShiftImm E opcode encoding SRType_LSR s"

definition EmulateLSRReg ::
  "'s arm_env \<Rightarrow> u32 \<Rightarrow> arm_encoding \<Rightarrow> 's arm \<Rightarrow> 's emulated" where
  "EmulateLSRReg E opcode encoding s = EmulateShiftReg E opcode encoding SRType_LSR s"

definition EmulateRORImm ::
  "'s arm_env \<Rightarrow> u32 \<Rightarrow> arm_encoding \<Rightarrow> 's arm \<Rightarrow> 's emulated" where
  "EmulateRORImm E opcode encoding s = EmulateShiftImm E opcode encoding SRType_ROR s"

definition EmulateRORReg ::
  "'s arm_env \<Rightarrow> u32 \<Rightarrow> arm_encoding \<Rightarrow> 's arm \<Rightarrow> 's emulated" where
  "EmulateRORReg E opcode encoding s = EmulateShiftReg E opcode encoding SRType_ROR s"

definition EmulateRRX ::
  "'s arm_env \<Rightarrow> u32 \<Rightarrow> arm_encoding \<Rightarrow> 's arm \<Rightarrow> 's emulated" where
  "EmulateRRX E opcode encoding s = EmulateShiftImm E opcode encoding SRType_RRX s"

section \<open>Multiplication\<close>

definition EmulateMUL ::
  "'s arm_env \<Rightarrow> u32 \<Rightarrow> arm_encoding \<Rightarrow> 's arm \<Rightarrow> 's emulated" where
  "EmulateMUL E opcode encoding s =
     (if ConditionPassed opcode s then
       let op = (\<lambda>d n m setflags.
             need (ReadRegisterUnsigned E eRegisterKindDWARF n s) s (\<lambda>operand1.
               need (ReadRegisterUnsigned E eRegisterKindDWARF m s) s (\<lambda>operand2.
                 let result = operand1 * operand2;
                     ctx = (eContextArithmetic, RegisterRegisterOperands n m)
                 in check (WriteRegisterUnsigned E ctx eRegisterKindDWARF d (0x0000ffff AND result) s)
                      (\<lambda>s. if setflags then
                         let s = s\<lparr>am_new_cpsr := am_cpsr s\<rparr>;
                             s = SetFlag CPSR_N_POS (Bit32 (ucast result) 31) s;
                             s = SetFlag CPSR_Z_POS (if result = 0 then 1 else 0) s
                         in if am_new_cpsr s \<noteq> am_cpsr s
                            then Some (WriteRegisterUnsigned E ctx eRegisterKindGeneric GENERIC_FLAGS
                                         (ucast (am_new_cpsr s)) s)
                            else succeeds s
                       else succeeds s))))
       in case encoding of
            eEncodingT1 \<Rightarrow>
              let d = Bits32 opcode 2 0; n = Bits32 opcode 5 3; m = Bits32 opcode 2 0
              in if ArchVersion s < ARMv6 \<and> d = n then fails s else op d n m (\<not> InITBlock s)
          | eEncodingT2 \<Rightarrow>
              let d = Bits32 opcode 11 8; n = Bits32 opcode 19 16; m = Bits32 opcode 3 0
              in if BadReg d \<or> BadReg n \<or> BadReg m then fails s else op d n m False
          | eEncodingA1 \<Rightarrow>
              let d = Bits32 opcode 19 16; n = Bits32 opcode 3 0; m = Bits32 opcode 11 8
              in if d = 15 \<or> n = 15 \<or> m = 15 then fails s
                 else if ArchVersion s < ARMv6 \<and> d = n then fails s
                 else op d n m (is_set opcode 20)
          | _ \<Rightarrow> fails s
     else succeeds s)"

end
