(* ===== verification/ARMReference.thy ===== *)
theory ARMReference
  imports ARMPseudoState ARMDataProcessing
begin

text \<open>
  The data-processing instructions against the architecture: the effect of the register and flag
  writes under the contract of the callbacks, the adder, the sixteen operations with the flags the
  architecture gives them, and the equivalence of every emulated operation with them.
\<close>

section \<open>The registers after a function of the emulator\<close>

definition flags_word :: "u32 \<Rightarrow> u32 \<Rightarrow> u32 \<Rightarrow> u32 \<Rightarrow> u32" where
  "flags_word w result c v =
     (let w = SetBit32 (SetBit32 w CPSR_N_POS (Bit32 result CPSR_N_POS)) CPSR_Z_POS (if result = 0 then 1 else 0);
          w = (if c \<noteq> - 1 then SetBit32 w CPSR_C_POS c else w)
      in if v \<noteq> - 1 then SetBit32 w CPSR_V_POS v else w)"

text \<open>Only the state of the callbacks, and the status register that is about to be written, are changed.\<close>

definition host_changes :: "'s arm \<Rightarrow> 's arm \<Rightarrow> bool" where
  "host_changes s s' \<longleftrightarrow>
     am_isa s' = am_isa s \<and> am_mode s' = am_mode s \<and> am_cpsr s' = am_cpsr s \<and> am_it s' = am_it s \<and>
     am_ignore s' = am_ignore s \<and> am_opcode s' = am_opcode s \<and> am_opcode_size s' = am_opcode_size s \<and>
     am_addr s' = am_addr s"

definition yields ::
  "('s \<Rightarrow> bool) \<Rightarrow> ('s \<Rightarrow> u32 \<Rightarrow> u32) \<Rightarrow> 's arm \<Rightarrow> 's emulated \<Rightarrow> (u32 \<Rightarrow> u32) \<Rightarrow> bool" where
  "yields ok regs s m R \<longleftrightarrow>
     (\<exists>s'. m = Some (True, s') \<and> host_changes s s' \<and> ok (am_host s') \<and> regs (am_host s') = R)"

lemma host_changes_refl [simp]: "host_changes s s" "host_changes s (s\<lparr>am_host := h\<rparr>)"
  by (simp_all add: host_changes_def)

lemma host_changes_trans: "host_changes s s' \<Longrightarrow> host_changes s' s'' \<Longrightarrow> host_changes s s''"
  by (simp add: host_changes_def)

definition core_value :: "(u32 \<Rightarrow> u32) \<Rightarrow> arm_mode \<Rightarrow> u32 \<Rightarrow> u32" where
  "core_value R mode r = (if r = 15 then R 15 + (if mode = eModeARM then 8 else 4) else R r)"

lemma generic_register_info:
  "GetARMRegisterInfo eRegisterKindGeneric GENERIC_PC = Some (15, 4)"
  "GetARMRegisterInfo eRegisterKindGeneric GENERIC_SP = Some (13, 4)"
  "GetARMRegisterInfo eRegisterKindGeneric GENERIC_RA = Some (14, 4)"
  "GetARMRegisterInfo eRegisterKindGeneric GENERIC_FLAGS = Some (16, 4)"
  "r \<le> 16 \<Longrightarrow> GetARMRegisterInfo eRegisterKindDWARF r = Some (r, 4)"
  by (simp_all add: GetARMRegisterInfo_def core_register_info)

context arm_host begin

lemma read_core:
  assumes "ok (am_host s)" "r \<le> 15"
  shows "ReadCoreReg E r s = Some (core_value (regs (am_host s)) (am_mode s) r)"
proof -
  have "r \<le> 16" using assms(2) by (rule order_trans) simp
  then show ?thesis
    using assms by (auto simp: ReadCoreReg_def ReadRegisterUnsigned_def generic_register_info read_reg
        core_value_def CurrentInstrSet_def not_less)
qed

lemma read_dwarf:
  "ok (am_host s) \<Longrightarrow> r \<le> 16 \<Longrightarrow>
    ReadRegisterUnsigned E eRegisterKindDWARF r s = Some (ucast (regs (am_host s) r))"
  by (simp add: ReadRegisterUnsigned_def generic_register_info read_reg)

lemma write_info:
  assumes "ok (am_host s)" "GetARMRegisterInfo k n = Some (r, 4)" "r \<le> 16"
  shows "WriteRegisterUnsigned E ctx k n v s = (True, s\<lparr>am_host := set_reg (am_host s) r (ucast v)\<rparr>)"
  using assms by (simp add: WriteRegisterUnsigned_def SetUInt_def write_reg)

lemma write_flags:
  assumes "ok (am_host s)" "regs (am_host s) 16 = am_cpsr s"
  shows "\<exists>s'. WriteFlags E ctx result c v s = (True, s') \<and> host_changes s s' \<and> ok (am_host s') \<and>
    regs (am_host s') = (regs (am_host s))(16 := flags_word (am_cpsr s) result c v)"
proof -
  have "am_cpsr s = flags_word (am_cpsr s) result c v \<Longrightarrow>
      (regs (am_host s))(16 := flags_word (am_cpsr s) result c v) = regs (am_host s)"
    using assms(2) by auto
  then show ?thesis
    using assms by (auto simp: WriteFlags_def Let_def SetFlag_def flags_word_def host_changes_def
        write_info generic_register_info ok_set_reg regs_set_reg)
qed

lemma yields_write_flags:
  assumes "ok (am_host s)" "regs (am_host s) 16 = am_cpsr s"
  shows "yields ok regs s (Some (WriteFlags E ctx result c v s))
    ((regs (am_host s))(16 := flags_word (am_cpsr s) result c v))"
  using write_flags [OF assms] by (auto simp: yields_def)

lemma yields_unique: "yields ok regs s m R \<Longrightarrow> yields ok regs s m R' \<longleftrightarrow> R' = R"
  by (auto simp: yields_def)

lemma yields_write_core:
  assumes "ok (am_host s)" "regs (am_host s) 16 = am_cpsr s" "Rd < 15"
  shows "yields ok regs s (Some (WriteCoreRegOptionalFlags E ctx result Rd setflags c v s))
    (let R = (regs (am_host s))(Rd := result)
     in if setflags then R(16 := flags_word (am_cpsr s) result c v) else R)"
proof -
  have Rd: "Rd \<le> 16" "Rd \<noteq> 15" "Rd \<noteq> 16"
    using assms(3) by (auto simp: word_less_nat_alt word_le_nat_alt)
  let ?s = "s\<lparr>am_host := set_reg (am_host s) Rd result\<rparr>"
  have s': "ok (am_host ?s)" "regs (am_host ?s) = (regs (am_host s))(Rd := result)"
    "regs (am_host ?s) 16 = am_cpsr ?s"
    using assms Rd by (simp_all add: ok_set_reg regs_set_reg)
  have "WriteCoreRegOptionalFlags E ctx result Rd setflags c v s =
      (if setflags then WriteFlags E ctx result c v ?s else (True, ?s))"
    using assms Rd by (auto simp: WriteCoreRegOptionalFlags_def write_info generic_register_info)
  then show ?thesis
    using yields_write_flags [OF s'(1,3), of ctx result c v] s'
    by (auto simp: yields_def Let_def host_changes_def)
qed

end

section \<open>The adder\<close>

text \<open>The carry out and the overflow of the architecture.\<close>

definition true_carry :: "u32 \<Rightarrow> u32 \<Rightarrow> bool \<Rightarrow> bool" where
  "true_carry x y c \<longleftrightarrow> uint x + uint y + of_bool c \<ge> 2 ^ 32"

definition true_overflow :: "u32 \<Rightarrow> u32 \<Rightarrow> bool \<Rightarrow> bool" where
  "true_overflow x y c \<longleftrightarrow>
     \<not> (- (2 ^ 31) \<le> sint x + sint y + of_bool c \<and> sint x + sint y + of_bool c < 2 ^ 31)"

text \<open>The partial sum and the sum stay within an \<open>int32_t\<close>.\<close>

definition sums_fit :: "u32 \<Rightarrow> u32 \<Rightarrow> bool \<Rightarrow> bool" where
  "sums_fit x y c \<longleftrightarrow> \<not> true_overflow x y False \<and> \<not> true_overflow x y c"

definition lldb_carry :: "u32 \<Rightarrow> u32 \<Rightarrow> bool \<Rightarrow> bool" where
  "lldb_carry x y c \<longleftrightarrow> (if c then sint x \<ge> sint (NOT y) else sint x > sint y)"

lemma sint_sum:
  assumes "- (2 ^ 31) \<le> sint x + sint y + of_bool c" "sint x + sint y + of_bool c < 2 ^ 31"
  shows "sint (x + y + of_bool c :: u32) = sint x + sint y + of_bool c"
proof -
  have "x + y + of_bool c = (word_of_int (sint x + sint y + of_bool c) :: u32)"
    by simp
  then have "sint (x + y + of_bool c) = signed_take_bit 31 (sint x + sint y + of_bool c)"
    by (simp only: signed_of_int) simp
  also have "\<dots> = sint x + sint y + of_bool c"
    by (rule signed_take_bit_int_eq_self) (use assms in simp_all)
  finally show ?thesis .
qed

lemma UnsignedBits_low: "ucast (UnsignedBits (ucast (w :: u32)) 31 0) = w"
proof -
  have "MaskUpToBit 31 = mask 32"
    by (simp add: MaskUpToBit_def mask_eq_exp_minus_1)
  then show ?thesis
    by (intro bit_word_eqI) (simp add: UnsignedBits_def bit_ucast_iff bit_and_iff bit_mask_iff)
qed

lemma AddWithCarry_fits:
  assumes "sums_fit x y c"
  shows "AddWithCarry x y (of_bool c) = Some (x + y + of_bool c, of_bool (lldb_carry x y c), 0)"
proof -
  have "int32_sum (sint x) (sint y) = Some (sint x + sint y)"
    "int32_sum (sint x + sint y) (of_bool c) = Some (sint x + sint y + of_bool c)"
    using assms by (auto simp: int32_sum_def sums_fit_def true_overflow_def)
  moreover have "uint (of_bool c :: u32) = of_bool c" by (cases c) simp_all
  moreover have "sint (x + y + of_bool c) = sint x + sint y + of_bool c"
    using assms by (intro sint_sum) (auto simp: sums_fit_def true_overflow_def)
  ultimately show ?thesis
    by (auto simp: AddWithCarry_def UnsignedBits_low Let_def lldb_carry_def)
qed

lemma AddWithCarry_undefined:
  "\<not> sums_fit x y c \<Longrightarrow> AddWithCarry x y (of_bool c) = None"
  by (cases c) (auto simp: AddWithCarry_def int32_sum_def sums_fit_def true_overflow_def)

lemma uint_of_sint: "uint (w :: u32) = (if sint w < 0 then sint w + 2 ^ 32 else sint w)"
proof -
  have "uint w = sint w mod 2 ^ 32"
    by (simp add: uint_sint take_bit_eq_mod)
  moreover have "- (2 ^ 31) \<le> sint w" "sint w < 2 ^ 31"
    using sint_greater_eq [of w] sint_less [of w] by simp_all
  moreover have "sint w mod 2 ^ 32 = sint w + 2 ^ 32" if "- (2 ^ 31) \<le> sint w" "sint w < 0"
    using that mod_pos_pos_trivial [of "sint w + 2 ^ 32" "2 ^ 32"] by simp
  ultimately show ?thesis
    by (simp add: mod_pos_pos_trivial)
qed

lemma sint_bounds: "- 2147483648 \<le> sint (w :: u32)" "sint (w :: u32) < 2147483648"
  using sint_ge [of w] sint_lt [of w] by simp_all

lemma sint_NOT: "sint (NOT y :: u32) = - sint y - 1"
proof -
  have "sint (- y - 1 :: u32) = - sint y - 1"
  proof -
    have "- y - 1 = (word_of_int (- sint y - 1) :: u32)" by simp
    then have "sint (- y - 1) = signed_take_bit 31 (- sint y - 1)"
      by (simp only: signed_of_int) simp
    also have "\<dots> = - sint y - 1"
      by (rule signed_take_bit_int_eq_self) (use sint_bounds [of y] in simp_all)
    finally show ?thesis .
  qed
  then show ?thesis by (simp add: not_eq_complement)
qed

lemma same_sign_fits: "sint x < 0 \<longleftrightarrow> 0 \<le> sint y \<Longrightarrow> sums_fit x y c"
  using sint_bounds [of x] sint_bounds [of y]
  by (cases c; cases "sint x < 0") (simp_all add: sums_fit_def true_overflow_def)

lemma lldb_carry_of_comparison:
  assumes "sums_fit x y True"
  shows "lldb_carry x y True = true_carry x y True \<longleftrightarrow> (sint x < 0 \<longleftrightarrow> 0 \<le> sint y)"
  using sint_bounds [of x] sint_bounds [of y] assms
  by (auto simp: lldb_carry_def true_carry_def sint_NOT uint_of_sint sums_fit_def true_overflow_def)

text \<open>C23: AddWithCarry adds with carry as the architecture does, as far as C++ defines it: the
  calculation is undefined exactly when the sum of the two operands, or the sum with the carry, does
  not fit an int32_t. Otherwise the result and the overflow are right, so that no overflow is ever
  reported. The carry of a subtraction, whose carry in is one, is right exactly when the first operand
  and the complement of the second have the same sign.\<close>

theorem AddWithCarry_correct:
  "AddWithCarry x y (of_bool c) =
     (if sums_fit x y c
      then Some (x + y + of_bool c, of_bool (lldb_carry x y c), of_bool (true_overflow x y c)) else None) \<and>
   (sums_fit x y True \<and> lldb_carry x y True = true_carry x y True \<longleftrightarrow> (sint x < 0 \<longleftrightarrow> 0 \<le> sint y))"
  using AddWithCarry_fits [of x y c] AddWithCarry_undefined [of x y c]
    lldb_carry_of_comparison [of x y] same_sign_fits [of x y True]
  by (auto simp: sums_fit_def)

section \<open>Data processing in the architecture\<close>

text \<open>The sixteen operations of the architecture, in the order of their opcodes.\<close>

datatype dp_op =
    dp_AND | dp_EOR | dp_SUB | dp_RSB | dp_ADD | dp_ADC | dp_SBC | dp_RSC
  | dp_TST | dp_TEQ | dp_CMP | dp_CMN | dp_ORR | dp_MOV | dp_BIC | dp_MVN

definition dp_tests :: "dp_op \<Rightarrow> bool" where
  "dp_tests op \<longleftrightarrow> op \<in> {dp_TST, dp_TEQ, dp_CMP, dp_CMN}"

text \<open>The operations whose functions do not look at the condition.\<close>

definition dp_unconditional :: "dp_op \<Rightarrow> bool" where
  "dp_unconditional op \<longleftrightarrow> op \<in> {dp_CMP, dp_CMN, dp_RSB, dp_SBC, dp_RSC}"

text \<open>The arguments of the adder, for the arithmetic operations.\<close>

fun dp_sum :: "dp_op \<Rightarrow> u32 \<Rightarrow> u32 \<Rightarrow> bool \<Rightarrow> (u32 \<times> u32 \<times> bool) option" where
  "dp_sum dp_SUB x y c = Some (x, NOT y, True)"
| "dp_sum dp_CMP x y c = Some (x, NOT y, True)"
| "dp_sum dp_RSB x y c = Some (NOT x, y, True)"
| "dp_sum dp_ADD x y c = Some (x, y, False)"
| "dp_sum dp_CMN x y c = Some (x, y, False)"
| "dp_sum dp_ADC x y c = Some (x, y, c)"
| "dp_sum dp_SBC x y c = Some (x, NOT y, c)"
| "dp_sum dp_RSC x y c = Some (NOT x, y, c)"
| "dp_sum _ x y c = None"

fun dp_logic :: "dp_op \<Rightarrow> u32 \<Rightarrow> u32 \<Rightarrow> u32" where
  "dp_logic dp_AND x y = x AND y"
| "dp_logic dp_TST x y = x AND y"
| "dp_logic dp_EOR x y = x XOR y"
| "dp_logic dp_TEQ x y = x XOR y"
| "dp_logic dp_ORR x y = x OR y"
| "dp_logic dp_BIC x y = x AND NOT y"
| "dp_logic dp_MOV x y = y"
| "dp_logic dp_MVN x y = NOT y"
| "dp_logic _ x y = 0"

definition dp_result :: "dp_op \<Rightarrow> u32 \<Rightarrow> u32 \<Rightarrow> bool \<Rightarrow> u32" where
  "dp_result op x y c =
     (case dp_sum op x y c of Some (a, b, d) \<Rightarrow> a + b + of_bool d | None \<Rightarrow> dp_logic op x y)"

text \<open>N, Z, C and V, bits 31 to 28; \<open>sc\<close> is the carry out of the shifter.\<close>

definition dp_flags :: "dp_op \<Rightarrow> u32 \<Rightarrow> u32 \<Rightarrow> bool \<Rightarrow> bool \<Rightarrow> u32 \<Rightarrow> nat \<Rightarrow> bool" where
  "dp_flags op x y c sc cpsr n =
     (if n = CPSR_N_POS then bit (dp_result op x y c) 31
      else if n = CPSR_Z_POS then dp_result op x y c = 0
      else if n = CPSR_C_POS then
        (case dp_sum op x y c of Some (a, b, d) \<Rightarrow> true_carry a b d | None \<Rightarrow> sc)
      else if n = CPSR_V_POS then
        (case dp_sum op x y c of Some (a, b, d) \<Rightarrow> true_overflow a b d | None \<Rightarrow> bit cpsr n)
      else bit cpsr n)"

text \<open>What the emulator defines, and where its carry is right.\<close>

definition dp_fits :: "dp_op \<Rightarrow> u32 \<Rightarrow> u32 \<Rightarrow> bool \<Rightarrow> bool" where
  "dp_fits op x y c = (case dp_sum op x y c of Some (a, b, d) \<Rightarrow> sums_fit a b d | None \<Rightarrow> True)"

definition dp_carry_right :: "dp_op \<Rightarrow> u32 \<Rightarrow> u32 \<Rightarrow> bool \<Rightarrow> bool" where
  "dp_carry_right op x y c =
     (case dp_sum op x y c of
        Some (a, b, d) \<Rightarrow> lldb_carry a b d = true_carry a b d
      | None \<Rightarrow> True)"

definition lldb_flags :: "dp_op \<Rightarrow> u32 \<Rightarrow> u32 \<Rightarrow> bool \<Rightarrow> bool \<Rightarrow> u32 \<Rightarrow> u32" where
  "lldb_flags op x y c sc cpsr =
     (case dp_sum op x y c of
        Some (a, b, d) \<Rightarrow> flags_word cpsr (dp_result op x y c) (of_bool (lldb_carry a b d)) 0
      | None \<Rightarrow> flags_word cpsr (dp_result op x y c) (of_bool sc) (- 1))"

lemma bit_flags_word:
  "bit (flags_word w result (of_bool c) v) n =
     (if n = CPSR_N_POS then bit result 31 else if n = CPSR_Z_POS then result = 0
      else if n = CPSR_C_POS then c else if n = CPSR_V_POS \<and> v \<noteq> - 1 then bit v 0 else bit w n)"
  by (auto simp: flags_word_def Let_def bit_SetBit32 Bit32_bit)

lemma bit_lldb_flags:
  assumes "dp_fits op x y c" "n = CPSR_C_POS \<longrightarrow> dp_carry_right op x y c"
  shows "bit (lldb_flags op x y c sc cpsr) n = dp_flags op x y c sc cpsr n"
proof (cases "dp_sum op x y c")
  case None
  then show ?thesis
    using assms by (simp only: lldb_flags_def dp_flags_def option.case bit_flags_word) simp
next
  case (Some t)
  obtain a b d where t: "t = (a, b, d)" by (cases t)
  show ?thesis
    using assms unfolding Some t lldb_flags_def dp_flags_def dp_fits_def dp_carry_right_def
      option.case prod.case bit_flags_word
    by (auto simp: sums_fit_def)
qed

text \<open>The registers after an operation.\<close>

definition dp_after ::
  "dp_op \<Rightarrow> bool \<Rightarrow> u32 \<Rightarrow> u32 \<Rightarrow> u32 \<Rightarrow> bool \<Rightarrow> bool \<Rightarrow> (u32 \<Rightarrow> u32) \<Rightarrow> u32 \<Rightarrow> u32" where
  "dp_after op setflags Rd x y c sc R =
     (let R' = (if dp_tests op then R else R(Rd := dp_result op x y c))
      in if setflags \<or> dp_tests op then R'(16 := lldb_flags op x y c sc (R 16)) else R')"

section \<open>The emulated operations\<close>

fun dp_imm :: "dp_op \<Rightarrow> 's arm_env \<Rightarrow> u32 \<Rightarrow> arm_encoding \<Rightarrow> 's arm \<Rightarrow> 's emulated" where
  "dp_imm dp_AND = EmulateANDImm"
| "dp_imm dp_EOR = EmulateEORImm"
| "dp_imm dp_SUB = EmulateSUBImmARM"
| "dp_imm dp_RSB = EmulateRSBImm"
| "dp_imm dp_ADD = EmulateADDImmARM"
| "dp_imm dp_ADC = EmulateADCImm"
| "dp_imm dp_SBC = EmulateSBCImm"
| "dp_imm dp_RSC = EmulateRSCImm"
| "dp_imm dp_TST = EmulateTSTImm"
| "dp_imm dp_TEQ = EmulateTEQImm"
| "dp_imm dp_CMP = EmulateCMPImm"
| "dp_imm dp_CMN = EmulateCMNImm"
| "dp_imm dp_ORR = EmulateORRImm"
| "dp_imm dp_MOV = EmulateMOVRdImm"
| "dp_imm dp_BIC = EmulateBICImm"
| "dp_imm dp_MVN = EmulateMVNImm"

lemma ARMExpandImm_C_of_bool:
  "\<exists>sc. ARMExpandImm_C opcode (of_bool c) = (ARMExpandImm opcode, of_bool sc)"
  by (cases c) (auto simp: ARMExpandImm_def ARMExpandImm_C_correct Let_def)

lemma Bits32_nibble: "Bits32 w (l + 3) l \<le> 15"
  using Bits32_bound [of w "l + 3" l] by (simp add: word_le_nat_alt)

lemmas opcode_nibbles = Bits32_nibble [of _ 16, simplified] Bits32_nibble [of _ 12, simplified]
  Bits32_nibble [of _ 8, simplified] Bits32_nibble [of _ 0, simplified]

text \<open>With a register that is shifted by a constant; a move is the shift itself.\<close>

definition EmulateMOVShift :: "'s arm_env \<Rightarrow> u32 \<Rightarrow> arm_encoding \<Rightarrow> 's arm \<Rightarrow> 's emulated" where
  "EmulateMOVShift E opcode encoding s =
     (case snd (DecodeImmShiftARM opcode) of
        SRType_LSL \<Rightarrow> EmulateLSLImm E opcode encoding s
      | SRType_LSR \<Rightarrow> EmulateLSRImm E opcode encoding s
      | SRType_ASR \<Rightarrow> EmulateASRImm E opcode encoding s
      | SRType_ROR \<Rightarrow> EmulateRORImm E opcode encoding s
      | _ \<Rightarrow> EmulateRRX E opcode encoding s)"

fun dp_reg :: "dp_op \<Rightarrow> 's arm_env \<Rightarrow> u32 \<Rightarrow> arm_encoding \<Rightarrow> 's arm \<Rightarrow> 's emulated" where
  "dp_reg dp_AND = EmulateANDReg"
| "dp_reg dp_EOR = EmulateEORReg"
| "dp_reg dp_SUB = EmulateSUBReg"
| "dp_reg dp_RSB = EmulateRSBReg"
| "dp_reg dp_ADD = EmulateADDReg"
| "dp_reg dp_ADC = EmulateADCReg"
| "dp_reg dp_SBC = EmulateSBCReg"
| "dp_reg dp_RSC = EmulateRSCReg"
| "dp_reg dp_TST = EmulateTSTReg"
| "dp_reg dp_TEQ = EmulateTEQReg"
| "dp_reg dp_CMP = EmulateCMPReg"
| "dp_reg dp_CMN = EmulateCMNReg"
| "dp_reg dp_ORR = EmulateORRReg"
| "dp_reg dp_MOV = EmulateMOVShift"
| "dp_reg dp_BIC = EmulateBICReg"
| "dp_reg dp_MVN = EmulateMVNReg"

context arm_host begin

lemma dp_imm_yields:
  assumes ok: "ok (am_host s)" "regs (am_host s) 16 = am_cpsr s" and pass: "ConditionPassed opcode s \<or> dp_unconditional op"
    and Rd: "Bits32 opcode 15 12 \<noteq> 15 \<or> dp_tests op" and Rn: "Bits32 opcode 19 16 \<noteq> 15"
    and exp: "ARMExpandImm_C opcode (of_bool c) = (imm, of_bool sc)"
    and x: "x = regs (am_host s) (Bits32 opcode 19 16)"
    and c: "APSR_C s = of_bool c"
    and fits: "dp_fits op x imm c"
  shows "yields ok regs s (dp_imm op E opcode eEncodingA1 s)
    (dp_after op (is_set opcode 20) (Bits32 opcode 15 12) x imm c sc (regs (am_host s)))"
proof -
  have imm: "ARMExpandImm opcode = imm"
    using exp ARMExpandImm_C_of_bool [of opcode c] c by auto
  have read: "ReadCoreReg E (Bits32 opcode 19 16) s = Some x"
    using read_core [OF ok(1) opcode_nibbles(1)] Rn x by (simp add: core_value_def)
  have Rd15: "Bits32 opcode 15 12 < 15" if "\<not> dp_tests op"
    using that Rd opcode_nibbles(2) [of opcode] by (simp add: order.strict_iff_order)
  note adds = AddWithCarry_fits [of _ _ True, simplified] AddWithCarry_fits [of _ _ False, simplified]
    AddWithCarry_fits
  define cc where "cc = (of_bool c :: u32)"
  define cw where "cw = (of_bool sc :: u32)"
  note flags = yields_unique [OF yields_write_flags [OF ok]]
  note core = yields_unique [OF yields_write_core [OF ok Rd15]]
  note defs = dp_after_def dp_tests_def dp_result_def lldb_flags_def need_def Let_def
    AddWithCarry_fits [of _ _ c, folded cc_def] AddWithCarry_fits [of _ _ True, simplified]
    AddWithCarry_fits [of _ _ False, simplified]
    exp [folded cc_def cw_def] read imm c [folded cc_def] ok(2) flags core cc_def [symmetric] cw_def [symmetric]
  note hyps = Rd fits [unfolded dp_fits_def] pass [unfolded dp_unconditional_def]
  show ?thesis
  proof (cases "op = dp_SUB")
    case True
    show ?thesis
    proof (cases "Bits32 opcode 19 16 = 13")
      case sp: True
      have "ReadCoreReg E 13 s = Some x"
        using read sp by simp
      then show ?thesis
        using hyps True Rn sp by (simp add: EmulateSUBImmARM_def EmulateSUBSPImm_def defs)
    next
      case False
      then show ?thesis
        using hyps True Rn by (simp add: EmulateSUBImmARM_def defs)
    qed
  next
    case False
    then show ?thesis
      using hyps by (cases op)
        (simp_all add: EmulateANDImm_def EmulateEORImm_def EmulateRSBImm_def EmulateADDImmARM_def
          EmulateADCImm_def EmulateSBCImm_def EmulateRSCImm_def EmulateTSTImm_def EmulateTEQImm_def
          EmulateCMPImm_def EmulateCMNImm_def EmulateORRImm_def EmulateMOVRdImm_def EmulateBICImm_def
          EmulateMVNImm_def defs)
  qed
qed

lemma dp_reg_yields:
  assumes ok: "ok (am_host s)" "regs (am_host s) 16 = am_cpsr s" and pass: "ConditionPassed opcode s \<or> dp_unconditional op"
    and Rd: "Bits32 opcode 15 12 \<noteq> 15 \<or> dp_tests op"
    and Rn: "Bits32 opcode 19 16 \<noteq> 15" and Rm: "Bits32 opcode 3 0 \<noteq> 15"
    and dec: "DecodeImmShiftARM opcode = (n, t)"
    and shift: "Shift_C (ae_llvm E) (regs (am_host s) (Bits32 opcode 3 0)) t n (of_bool c) =
      Some (Some (y, of_bool sc))"
    and x: "x = regs (am_host s) (Bits32 opcode 19 16)"
    and c: "APSR_C s = of_bool c"
    and fits: "dp_fits op x y c"
  shows "yields ok regs s (dp_reg op E opcode eEncodingA1 s)
    (dp_after op (is_set opcode 20) (Bits32 opcode 15 12) x y c sc (regs (am_host s)))"
proof -
  define cc where "cc = (of_bool c :: u32)"
  define cw where "cw = (of_bool sc :: u32)"
  have read: "ReadCoreReg E (Bits32 opcode 19 16) s = Some x"
    using read_core [OF ok(1) opcode_nibbles(1)] Rn x by (simp add: core_value_def)
  obtain rm where rm: "rm = regs (am_host s) (Bits32 opcode 3 0)" by simp
  have read_m: "ReadCoreReg E (Bits32 opcode 3 0) s = Some rm"
    using read_core [OF ok(1) opcode_nibbles(4)] Rm rm by (simp add: core_value_def)
  have shift_c: "Shift_C (ae_llvm E) rm t n cc = Some (Some (y, cw))"
    using shift by (simp add: rm cc_def cw_def)
  have shifted: "Shift (ae_llvm E) rm t n cc = Some (Some y)"
    using shift_c by (simp add: Shift_def)
  have Rd15: "Bits32 opcode 15 12 < 15" if "\<not> dp_tests op"
    using that Rd opcode_nibbles(2) [of opcode] by (simp add: order.strict_iff_order)
  note flags = yields_unique [OF yields_write_flags [OF ok]]
  note core = yields_unique [OF yields_write_core [OF ok Rd15]]
  note defs = dp_after_def dp_tests_def dp_result_def lldb_flags_def need_def Let_def
    AddWithCarry_fits [of _ _ c, folded cc_def] AddWithCarry_fits [of _ _ True, simplified]
    AddWithCarry_fits [of _ _ False, simplified]
    dec shift_c shifted read read_m c [folded cc_def] ok(2) flags core cc_def [symmetric] cw_def [symmetric]
  note hyps = Rd fits [unfolded dp_fits_def] pass [unfolded dp_unconditional_def]
  show ?thesis
  proof (cases "op = dp_MOV")
    case True
    have "t \<noteq> SRType_Invalid" "t = SRType_ROR \<longrightarrow> Bits32 opcode 11 7 \<noteq> 0"
      "n = (if t = SRType_RRX then 1 else DecodeImmShift_of t (Bits32 opcode 11 7))"
      using dec by (auto simp: DecodeImmShiftARM_def DecodeImmShift_def DecodeImmShift_of_def split: if_splits)
    then show ?thesis
      using hyps True shift_c
      by (cases t) (simp_all add: EmulateMOVShift_def EmulateLSLImm_def EmulateLSRImm_def EmulateASRImm_def
          EmulateRORImm_def EmulateRRX_def EmulateShiftImm_def defs)
  next
    case False
    then show ?thesis
      using hyps by (cases op)
        (simp_all add: EmulateANDReg_def EmulateEORReg_def EmulateSUBReg_def EmulateRSBReg_def
          EmulateADDReg_def EmulateADCReg_def EmulateSBCReg_def EmulateRSCReg_def EmulateTSTReg_def
          EmulateTEQReg_def EmulateCMPReg_def EmulateCMNReg_def EmulateORRReg_def EmulateBICReg_def
          EmulateMVNReg_def defs)
  qed
qed

text \<open>A signed sum that leaves an \<open>int32_t\<close> is undefined.\<close>

lemma dp_imm_undefined:
  assumes ok: "ok (am_host s)" "regs (am_host s) 16 = am_cpsr s" and pass: "ConditionPassed opcode s \<or> dp_unconditional op"
    and Rd: "Bits32 opcode 15 12 \<noteq> 15 \<or> dp_tests op" and Rn: "Bits32 opcode 19 16 \<noteq> 15"
    and exp: "ARMExpandImm_C opcode (of_bool c) = (imm, of_bool sc)"
    and x: "x = regs (am_host s) (Bits32 opcode 19 16)"
    and c: "APSR_C s = of_bool c"
    and over: "\<not> dp_fits op x imm c"
  shows "dp_imm op E opcode eEncodingA1 s = None"
proof -
  have imm: "ARMExpandImm opcode = imm"
    using exp ARMExpandImm_C_of_bool [of opcode c] c by auto
  have read: "ReadCoreReg E (Bits32 opcode 19 16) s = Some x"
    using read_core [OF ok(1) opcode_nibbles(1)] Rn x by (simp add: core_value_def)
  have read_sp: "Bits32 opcode 19 16 = 13 \<Longrightarrow> ReadCoreReg E 13 s = Some x"
    using read by simp
  define cc where "cc = (of_bool c :: u32)"
  note defs = need_def Let_def AddWithCarry_undefined [of _ _ c, folded cc_def]
    AddWithCarry_undefined [of _ _ True, simplified] AddWithCarry_undefined [of _ _ False, simplified]
    read read_sp imm c [folded cc_def]
  show ?thesis
    using over [unfolded dp_fits_def] pass [unfolded dp_unconditional_def] Rd [unfolded dp_tests_def] Rn
    by (cases op) (simp_all add: EmulateSUBImmARM_def EmulateSUBSPImm_def EmulateRSBImm_def EmulateADDImmARM_def
        EmulateADCImm_def EmulateSBCImm_def EmulateRSCImm_def EmulateCMPImm_def EmulateCMNImm_def defs)
qed

lemma dp_reg_undefined:
  assumes ok: "ok (am_host s)" "regs (am_host s) 16 = am_cpsr s" and pass: "ConditionPassed opcode s \<or> dp_unconditional op"
    and Rd: "Bits32 opcode 15 12 \<noteq> 15 \<or> dp_tests op"
    and Rn: "Bits32 opcode 19 16 \<noteq> 15" and Rm: "Bits32 opcode 3 0 \<noteq> 15"
    and dec: "DecodeImmShiftARM opcode = (n, t)"
    and shift: "Shift_C (ae_llvm E) (regs (am_host s) (Bits32 opcode 3 0)) t n (of_bool c) =
      Some (Some (y, of_bool sc))"
    and x: "x = regs (am_host s) (Bits32 opcode 19 16)"
    and c: "APSR_C s = of_bool c"
    and over: "\<not> dp_fits op x y c"
  shows "dp_reg op E opcode eEncodingA1 s = None"
proof -
  define cc where "cc = (of_bool c :: u32)"
  have read: "ReadCoreReg E (Bits32 opcode 19 16) s = Some x"
    using read_core [OF ok(1) opcode_nibbles(1)] Rn x by (simp add: core_value_def)
  obtain rm where rm: "rm = regs (am_host s) (Bits32 opcode 3 0)" by simp
  have read_m: "ReadCoreReg E (Bits32 opcode 3 0) s = Some rm"
    using read_core [OF ok(1) opcode_nibbles(4)] Rm rm by (simp add: core_value_def)
  have shifted: "Shift (ae_llvm E) rm t n cc = Some (Some y)"
    using shift by (simp add: Shift_def rm cc_def)
  note defs = need_def Let_def AddWithCarry_undefined [of _ _ c, folded cc_def]
    AddWithCarry_undefined [of _ _ True, simplified] AddWithCarry_undefined [of _ _ False, simplified]
    dec shifted read read_m c [folded cc_def]
  show ?thesis
    using over [unfolded dp_fits_def] pass [unfolded dp_unconditional_def] Rd [unfolded dp_tests_def] Rn
    by (cases op) (simp_all add: EmulateSUBReg_def EmulateRSBReg_def EmulateADDReg_def EmulateADCReg_def
        EmulateSBCReg_def EmulateRSCReg_def EmulateCMPReg_def EmulateCMNReg_def defs)
qed

end

section \<open>Data processing, end to end\<close>

text \<open>The second operand of an instruction of the ARM encoding, with the carry out of the shifter.\<close>

definition dp_operand :: "bool \<Rightarrow> u32 \<Rightarrow> (u32 \<Rightarrow> u32) \<Rightarrow> bool \<Rightarrow> u32 \<times> bool" where
  "dp_operand immediate opcode R c =
     (if immediate then
        let w = word_rotr (2 * unat (Bits32 opcode 11 8)) (Bits32 opcode 7 0)
        in (w, if Bits32 opcode 11 8 = 0 then c else bit w 31)
      else
        let (n, t) = DecodeImmShiftARM opcode; w = R (Bits32 opcode 3 0)
        in if n = 0 then (w, c) else shift_spec t (unat n) w c)"

definition dp_emulate ::
  "bool \<Rightarrow> dp_op \<Rightarrow> 's arm_env \<Rightarrow> u32 \<Rightarrow> arm_encoding \<Rightarrow> 's arm \<Rightarrow> 's emulated" where
  "dp_emulate immediate = (if immediate then dp_imm else dp_reg)"

text \<open>The program counter is no operand, and a register is not shifted right by 32.\<close>

definition dp_covered :: "bool \<Rightarrow> dp_op \<Rightarrow> u32 \<Rightarrow> bool" where
  "dp_covered immediate op opcode \<longleftrightarrow>
     (Bits32 opcode 15 12 \<noteq> 15 \<or> dp_tests op) \<and> Bits32 opcode 19 16 \<noteq> 15 \<and>
     (immediate \<or> Bits32 opcode 3 0 \<noteq> 15 \<and> DecodeImmShiftARM opcode \<noteq> (32, SRType_LSR))"

definition dp_carry_known :: "bool \<Rightarrow> dp_op \<Rightarrow> u32 \<Rightarrow> u32 \<Rightarrow> u32 \<Rightarrow> bool \<Rightarrow> bool" where
  "dp_carry_known immediate op opcode x y c =
     (case dp_sum op x y c of
        None \<Rightarrow> immediate \<or> snd (DecodeImmShiftARM opcode) \<noteq> SRType_ROR
      | Some (a, b, d) \<Rightarrow> d \<and> (sint a < 0 \<longleftrightarrow> 0 \<le> sint b))"

lemma same_sign_carry:
  "(sint a < 0 \<longleftrightarrow> 0 \<le> sint b) \<Longrightarrow> lldb_carry a b True = true_carry a b True"
  using lldb_carry_of_comparison [of a b] same_sign_fits [of a b True] by simp

lemma dp_known_right: "dp_carry_known i op opcode x y c \<Longrightarrow> dp_carry_right op x y c"
  using same_sign_carry by (auto simp: dp_carry_known_def dp_carry_right_def split: option.splits)

lemma DecodeImmShiftARM_range:
  assumes "DecodeImmShiftARM opcode = (n, t)"
  shows "n \<le> 32" "t \<noteq> SRType_Invalid" "t = SRType_RRX \<longleftrightarrow> n = 1 \<and> t = SRType_RRX"
    "t = SRType_LSL \<Longrightarrow> n < 32" "t \<noteq> SRType_LSL \<Longrightarrow> n \<noteq> 0" "t = SRType_ROR \<Longrightarrow> n < 32"
proof -
  have "unat (Bits32 opcode 11 7) < 32"
    using Bits32_bound [of opcode 11 7] by simp
  then have *: "Bits32 opcode 11 7 < 32" by (simp add: word_less_nat_alt)
  then have "Bits32 opcode 11 7 \<le> 32" by simp
  with * show "n \<le> 32" "t \<noteq> SRType_Invalid" "t = SRType_RRX \<longleftrightarrow> n = 1 \<and> t = SRType_RRX"
    "t = SRType_LSL \<Longrightarrow> n < 32" "t \<noteq> SRType_LSL \<Longrightarrow> n \<noteq> 0" "t = SRType_ROR \<Longrightarrow> n < 32"
    using assms by (auto simp: DecodeImmShiftARM_def DecodeImmShift_def split: if_splits)
qed

text \<open>The carry out of the code's shifter: a rotation of a register takes it from bit 31 of the register, not of
  the result.\<close>

definition lldb_shift_carry :: "bool \<Rightarrow> u32 \<Rightarrow> (u32 \<Rightarrow> u32) \<Rightarrow> bool \<Rightarrow> bool" where
  "lldb_shift_carry immediate opcode R sc =
     (if \<not> immediate \<and> snd (DecodeImmShiftARM opcode) = SRType_ROR then bit (R (Bits32 opcode 3 0)) 31 else sc)"

text \<open>The code's shifter against the architecture's.\<close>

lemma dp_shift:
  assumes L: "extends_sign (lv_SignExtend64_32 L)" and dec: "DecodeImmShiftARM opcode = (n, t)"
    and "(n, t) \<noteq> (32, SRType_LSR)"
  shows "Shift_C L (R (Bits32 opcode 3 0)) t n (of_bool c) =
    Some (Some (fst (dp_operand False opcode R c),
      of_bool (lldb_shift_carry False opcode R (snd (dp_operand False opcode R c)))))"
proof (cases "n = 0")
  case True
  then show ?thesis
    using DecodeImmShiftARM_range(5) [OF dec] dec by (auto simp: Shift_C_def dp_operand_def lldb_shift_carry_def)
next
  case False
  note range = DecodeImmShiftARM_range [OF dec]
  have n: "unat n < 2 ^ 32" "word_of_nat (unat n) = n" "unat n \<noteq> 0" "unat n \<le> 32"
    using u32_bound [of n] False range(1) by (simp_all add: word_le_nat_alt word_unat_eq_iff)
  have "unat n \<noteq> 32" if "t = SRType_LSR \<or> t = SRType_LSL"
    using that assms(3) range(4) n by (auto simp: word_unat_eq_iff word_less_nat_alt)
  moreover have "unat n = 1" if "t = SRType_RRX"
    using range(3) that by simp
  ultimately have "\<exists>sc. Shift_C L (R (Bits32 opcode 3 0)) t n (of_bool c) =
      Some (Some (fst (dp_operand False opcode R c), of_bool sc)) \<and>
    (t \<noteq> SRType_ROR \<longrightarrow> sc = snd (dp_operand False opcode R c))"
    using Shift_C_correct [OF L n(1), of _ t "of_bool c"] n range(2) False dec
    by (auto simp: le_less dp_operand_def)
  moreover have "Shift_C L w SRType_ROR n carry = Some (Some (Rotr32 w (n mod 32), of_bool (bit w 31)))" for w carry
    using False by (simp add: Shift_C_def ROR_C_def Bit32_bit)
  ultimately show ?thesis
    using dec by (cases "t = SRType_ROR") (auto simp: lldb_shift_carry_def)
qed

lemma dp_imm_expand:
  "\<exists>sc. ARMExpandImm_C opcode (of_bool c) = (fst (dp_operand True opcode R c), of_bool sc) \<and>
    sc = snd (dp_operand True opcode R c)"
  by (auto simp: ARMExpandImm_C_correct dp_operand_def Let_def)

lemma APSR_C_of_bool: "APSR_C s = of_bool (bit (am_cpsr s) CPSR_C_POS)"
  by (simp add: APSR_C_def Bit32_bit)

lemma dp_emulate_yields:
  assumes ok: "pseudo_arch_ok A (am_host s)" "pseudo_regs (am_host s) 16 = am_cpsr s"
    and pass: "ConditionPassed opcode s \<or> dp_unconditional op" and cov: "dp_covered i op opcode"
    and R: "R = pseudo_regs (am_host s)" and x: "x = R (Bits32 opcode 19 16)"
    and c: "c = bit (R 16) CPSR_C_POS" and y: "(y, sc) = dp_operand i opcode R c"
  shows "if dp_fits op x y c
    then yields (pseudo_arch_ok A) pseudo_regs s
      (dp_emulate i op (with_pseudo_state A beyond behind) opcode eEncodingA1 s)
      (dp_after op (is_set opcode 20) (Bits32 opcode 15 12) x y c (lldb_shift_carry i opcode R sc) R)
    else dp_emulate i op (with_pseudo_state A beyond behind) opcode eEncodingA1 s = None"
proof -
  let ?E = "with_pseudo_state A beyond behind" and ?sc = "lldb_shift_carry i opcode R sc"
  have cc: "APSR_C s = of_bool c"
    using ok(2) by (simp add: APSR_C_of_bool c R)
  have cov': "Bits32 opcode 15 12 \<noteq> 15 \<or> dp_tests op" "Bits32 opcode 19 16 \<noteq> 15"
    using cov by (simp_all add: dp_covered_def)
  have x': "x = pseudo_regs (am_host s) (Bits32 opcode 19 16)"
    by (simp add: x R)
  show ?thesis
  proof (cases i)
    case True
    have "ARMExpandImm_C opcode (of_bool c) = (y, of_bool ?sc)"
      using dp_imm_expand [of opcode c R] y True by (cases "dp_operand True opcode R c") (simp add: lldb_shift_carry_def)
    note imm = this
    show ?thesis
      using pseudo.dp_imm_yields [where A = A and beyond = beyond and behind = behind, OF ok pass cov' imm x' cc]
        pseudo.dp_imm_undefined [where A = A and beyond = beyond and behind = behind, OF ok pass cov' imm x' cc]
        True R by (simp add: dp_emulate_def)
  next
    case False
    obtain n t where dec: "DecodeImmShiftARM opcode = (n, t)" by (cases "DecodeImmShiftARM opcode")
    have L: "extends_sign (lv_SignExtend64_32 (ae_llvm ?E))"
      using ok(1) by (simp add: pseudo_arch_ok_def arm_arch_ok_def)
    have Rm: "Bits32 opcode 3 0 \<noteq> 15" and lsr: "(n, t) \<noteq> (32, SRType_LSR)"
      using cov False dec by (auto simp: dp_covered_def)
    have "Shift_C (ae_llvm ?E) (pseudo_regs (am_host s) (Bits32 opcode 3 0)) t n (of_bool c) = Some (Some (y, of_bool ?sc))"
      using dp_shift [OF L dec lsr, of R c] y [symmetric] False unfolding R by simp
    note shift = this
    show ?thesis
      using pseudo.dp_reg_yields [where A = A and beyond = beyond and behind = behind, OF ok pass cov' Rm dec shift x' cc]
        pseudo.dp_reg_undefined [where A = A and beyond = beyond and behind = behind, OF ok pass cov' Rm dec shift x' cc]
        False R by (simp add: dp_emulate_def)
  qed
qed

text \<open>The carry of the code, which is the architecture's where it is known to be.\<close>

definition dp_carry ::
  "bool \<Rightarrow> dp_op \<Rightarrow> u32 \<Rightarrow> (u32 \<Rightarrow> u32) \<Rightarrow> u32 \<Rightarrow> u32 \<Rightarrow> bool \<Rightarrow> bool \<Rightarrow> bool" where
  "dp_carry immediate op opcode R x y c sc =
     (case dp_sum op x y c of
        Some (a, b, d) \<Rightarrow> lldb_carry a b d
      | None \<Rightarrow> lldb_shift_carry immediate opcode R sc)"

lemma dp_carry_known:
  assumes "dp_carry_known i op opcode x y c"
  shows "dp_carry i op opcode R x y c sc = dp_flags op x y c sc cpsr CPSR_C_POS"
  using assms same_sign_carry
  by (auto simp: dp_carry_known_def dp_carry_def dp_flags_def lldb_shift_carry_def split: option.splits)

lemma bit_emulated_flags:
  assumes "dp_fits op x y c"
  shows "bit (lldb_flags op x y c (lldb_shift_carry i opcode R sc) cpsr) n =
    (if n = CPSR_C_POS then dp_carry i op opcode R x y c sc else dp_flags op x y c sc cpsr n)"
proof (cases "n = CPSR_C_POS")
  case True
  show ?thesis
    unfolding True
    by (cases "dp_sum op x y c")
      (simp_all only: lldb_flags_def dp_carry_def option.case bit_flags_word split: prod.split, simp_all)
next
  case False
  then have "bit (lldb_flags op x y c (lldb_shift_carry i opcode R sc) cpsr) n =
      dp_flags op x y c (lldb_shift_carry i opcode R sc) cpsr n"
    using assms by (intro bit_lldb_flags) auto
  then show ?thesis
    using False by (simp add: dp_flags_def)
qed

lemma dp_effects:
  assumes "pseudo_arch_ok A (am_host s)" "pseudo_regs (am_host s) 16 = am_cpsr s"
    and "ConditionPassed opcode s \<or> dp_unconditional op" and "dp_covered i op opcode"
    and R: "R = pseudo_regs (am_host s)" and "x = R (Bits32 opcode 19 16)"
    and c: "c = bit (R 16) CPSR_C_POS" and y: "(y, sc) = dp_operand i opcode R c"
    and fits: "dp_fits op x y c"
  shows "\<exists>s' R'. dp_emulate i op (with_pseudo_state A beyond behind) opcode eEncodingA1 s = Some (True, s') \<and>
    host_changes s s' \<and> pseudo_arch_ok A (am_host s') \<and> R' = pseudo_regs (am_host s') \<and>
    (\<forall>r. r < 16 \<longrightarrow> R' r = (if r = Bits32 opcode 15 12 \<and> \<not> dp_tests op then dp_result op x y c else R r)) \<and>
    (\<forall>n. bit (R' 16) n =
       (if is_set opcode 20 \<or> dp_tests op
        then if n = CPSR_C_POS then dp_carry i op opcode R x y c sc else dp_flags op x y c sc (R 16) n
        else bit (R 16) n))"
proof -
  let ?R' = "dp_after op (is_set opcode 20) (Bits32 opcode 15 12) x y c (lldb_shift_carry i opcode R sc) R"
  have run: "yields (pseudo_arch_ok A) pseudo_regs s
      (dp_emulate i op (with_pseudo_state A beyond behind) opcode eEncodingA1 s) ?R'"
    using dp_emulate_yields [OF assms(1-8), of beyond behind] fits by simp
  have Rd: "Bits32 opcode 15 12 \<noteq> 16"
    using opcode_nibbles(2) [of opcode] by auto
  have "?R' r = (if r = Bits32 opcode 15 12 \<and> \<not> dp_tests op then dp_result op x y c else R r)" if "r < 16" for r
    using that by (auto simp: dp_after_def Let_def)
  moreover have "bit (?R' 16) n = (if is_set opcode 20 \<or> dp_tests op
      then if n = CPSR_C_POS then dp_carry i op opcode R x y c sc else dp_flags op x y c sc (R 16) n
      else bit (R 16) n)" for n
    using Rd bit_emulated_flags [OF fits, of i opcode R sc "R 16" n] by (auto simp: dp_after_def Let_def)
  ultimately show ?thesis
    using run by (auto simp: yields_def)
qed


definition demo_arch :: "unit arm_env" where
  "demo_arch =
     \<lparr>ae_platform = make_platform eByteOrderLittle, ae_llvm = the_llvm_math,
      ae_byte_order = eByteOrderLittle, ae_addr_size = 4, ae_android = False, ae_apple = False,
      ae_always_thumb = False, ae_rand = (\<lambda>_. 0), ae_read_mem = (\<lambda>_ _ _ _. []),
      ae_write_mem = (\<lambda>_ _ _ _. (0, ())), ae_read_reg = (\<lambda>_ _. None),
      ae_write_reg = (\<lambda>_ _ _ _. (False, ()))\<rparr>"

definition demo_arm :: "(nat \<times> u32) list \<Rightarrow> pseudo_state arm" where
  "demo_arm rs =
     (let st = fold (\<lambda>(r, w) st. st\<lparr>ps_gpr := (ps_gpr st)[r := w]\<rparr>) rs new_EmulationStateARM
      in \<lparr>am_isa = ARMv7, am_mode = eModeARM, am_cpsr = ps_gpr st ! 16, am_new_cpsr = 0,
          am_it = \<lparr>it_counter = 0, it_state = 0\<rparr>, am_ignore = False, am_opcode = 0,
          am_opcode_size = 4, am_addr = 0, am_host = st\<rparr>)"

lemma demo_arch_ok [simp]: "arm_arch_ok demo_arch"
  by (simp add: arm_arch_ok_def demo_arch_def make_platform_ok)


text \<open>The other operations leave everything alone when the condition has not passed.\<close>

lemma data_processing_skipped:
  assumes "\<not> ConditionPassed opcode s" "\<not> dp_unconditional op"
  shows "dp_emulate i op E opcode encoding s = Some (True, s)"
  using assms
  by (cases op) (simp_all add: dp_emulate_def dp_unconditional_def EmulateANDImm_def EmulateEORImm_def
      EmulateSUBImmARM_def EmulateADDImmARM_def EmulateADCImm_def EmulateTSTImm_def EmulateTEQImm_def
      EmulateORRImm_def EmulateMOVRdImm_def EmulateBICImm_def EmulateMVNImm_def EmulateANDReg_def
      EmulateEORReg_def EmulateSUBReg_def EmulateADDReg_def EmulateADCReg_def EmulateTSTReg_def
      EmulateTEQReg_def EmulateORRReg_def EmulateBICReg_def EmulateMVNReg_def EmulateMOVShift_def
      EmulateLSLImm_def EmulateLSRImm_def EmulateASRImm_def EmulateRORImm_def EmulateRRX_def
      EmulateShiftImm_def split: ARM_ShifterType.split)

end
