(* ===== verification/ARMControl.thy ===== *)
theory ARMControl
  imports ARMDataProcessing
begin

text \<open>
  The instructions that move the stack pointer, store to and load from the stack, and branch:
  \<open>PUSH\<close>, \<open>POP\<close>, the adjustments of frame and stack pointer, \<open>B\<close>, \<open>BL\<close>, \<open>BX\<close>, \<open>BXJ\<close>, \<open>CBZ\<close>, \<open>TBB\<close>,
  \<open>SVC\<close>, \<open>IT\<close> and the load relative to the program counter.
\<close>

section \<open>The stack\<close>

text \<open>The loop of \<open>PUSH\<close> over the registers \<open>r0\<close> to \<open>r14\<close>.\<close>

primrec push_loop ::
  "'s arm_env \<Rightarrow> u32 \<Rightarrow> u64 \<Rightarrow> nat list \<Rightarrow> u64 \<Rightarrow> 's arm \<Rightarrow> (u64 \<Rightarrow> 's arm \<Rightarrow> 's emulated) \<Rightarrow> 's emulated"
  where
  "push_loop E registers sp [] addr s k = k addr s"
| "push_loop E registers sp (i # is) addr s k =
     (if is_set registers i then
        let ctx = (eContextPushRegisterOnStack, RegisterToRegisterPlusOffset (of_nat i) 13 (addr - sp))
        in need (ReadCoreReg E (of_nat i) s) s (\<lambda>reg_value.
             check (MemAWrite E ctx addr (ucast reg_value) (ae_addr_size E) s) (\<lambda>s.
               push_loop E registers sp is (addr + of_nat (ae_addr_size E)) s k))
      else push_loop E registers sp is addr s k)"

definition EmulatePUSH ::
  "'s arm_env \<Rightarrow> u32 \<Rightarrow> arm_encoding \<Rightarrow> 's arm \<Rightarrow> 's emulated" where
  "EmulatePUSH E opcode encoding s =
     (if ConditionPassed opcode s then
       need (ReadCoreReg E SP_REG s) s (\<lambda>sp32.
         let sp = (ucast sp32 :: u64);
             op = (\<lambda>registers.
               let sp_offset = (ucast (of_nat (ae_addr_size E) * BitCount (ucast registers)) :: u64)
               in push_loop E registers sp [0..<15] (sp - sp_offset) s (\<lambda>addr s.
                    let finish = (\<lambda>s. Some (WriteRegisterUnsigned E
                          (eContextAdjustStackPointer, ImmediateSigned (- sp_offset))
                          eRegisterKindGeneric GENERIC_SP (sp - sp_offset) s))
                    in if is_set registers 15 then
                         let ctx = (eContextPushRegisterOnStack,
                               RegisterToRegisterPlusOffset 15 13 (addr - sp))
                         in need (ReadCoreReg E PC_REG s) s (\<lambda>pc.
                              check (MemAWrite E ctx addr (ucast pc) (ae_addr_size E) s) finish)
                       else finish s))
         in case encoding of
              eEncodingT1 \<Rightarrow>
                let registers = Bits32 opcode 7 0;
                    registers = (if Bit32 opcode 8 \<noteq> 0 then registers OR push_bit 14 1 else registers)
                in if BitCount (ucast registers) < 1 then fails s else op registers
            | eEncodingT2 \<Rightarrow>
                let registers = Bits32 opcode 15 0 AND NOT 0xa000
                in if BitCount (ucast registers) < 2 then fails s else op registers
            | eEncodingT3 \<Rightarrow>
                let Rt = Bits32 opcode 15 12
                in if BadReg Rt then fails s else op (push_bit (unat Rt) 1)
            | eEncodingA1 \<Rightarrow> op (Bits32 opcode 15 0)
            | eEncodingA2 \<Rightarrow>
                let Rt = Bits32 opcode 15 12
                in if Rt = 13 then fails s else op (push_bit (unat Rt) 1)
            | _ \<Rightarrow> fails s)
     else succeeds s)"

primrec pop_loop ::
  "'s arm_env \<Rightarrow> u32 \<Rightarrow> nat list \<Rightarrow> u64 \<Rightarrow> 's arm \<Rightarrow> (u64 \<Rightarrow> 's arm \<Rightarrow> 's emulated) \<Rightarrow> 's emulated"
  where
  "pop_loop E registers [] addr s k = k addr s"
| "pop_loop E registers (i # is) addr s k =
     (if is_set registers i then
        let ctx = (eContextPopRegisterOffStack, Address addr)
        in need (MemARead E ctx addr 4 s) s (\<lambda>data.
             check (WriteRegisterUnsigned E ctx eRegisterKindDWARF (of_nat i) (ucast (ucast data :: u32)) s)
               (\<lambda>s. pop_loop E registers is (addr + of_nat (ae_addr_size E)) s k))
      else pop_loop E registers is addr s k)"

definition EmulatePOP ::
  "'s arm_env \<Rightarrow> u32 \<Rightarrow> arm_encoding \<Rightarrow> 's arm \<Rightarrow> 's emulated" where
  "EmulatePOP E opcode encoding s =
     (if ConditionPassed opcode s then
       need (ReadCoreReg E SP_REG s) s (\<lambda>sp32.
         let sp = (ucast sp32 :: u64);
             op = (\<lambda>registers.
               let sp_offset = (ucast (of_nat (ae_addr_size E) * BitCount (ucast registers)) :: u64)
               in pop_loop E registers [0..<15] sp s (\<lambda>addr s.
                    let finish = (\<lambda>s. Some (WriteRegisterUnsigned E
                          (eContextAdjustStackPointer, ImmediateSigned sp_offset)
                          eRegisterKindGeneric GENERIC_SP (sp + sp_offset) s))
                    in if is_set registers 15 then
                         let ctx = (eContextPopRegisterOffStack, RegisterPlusOffset 13 (addr - sp))
                         in need (MemARead E ctx addr 4 s) s (\<lambda>data.
                              check (LoadWritePC E ctx (ucast data) s) finish)
                       else finish s))
         in case encoding of
              eEncodingT1 \<Rightarrow>
                let registers = Bits32 opcode 7 0;
                    registers = (if Bit32 opcode 8 \<noteq> 0 then registers OR push_bit 15 1 else registers)
                in if BitCount (ucast registers) < 1 then fails s else op registers
            | eEncodingT2 \<Rightarrow>
                let registers = Bits32 opcode 15 0 AND NOT 0x2000
                in if BitCount (ucast registers) < 2 \<or> Bit32 opcode 15 \<noteq> 0 \<and> Bit32 opcode 14 \<noteq> 0 then fails s
                   else if is_set registers 15 \<and> InITBlock s \<and> \<not> LastInITBlock s then fails s
                   else op registers
            | eEncodingT3 \<Rightarrow>
                let Rt = Bits32 opcode 15 12
                in if Rt = 13 then fails s
                   else if Rt = 15 \<and> InITBlock s \<and> \<not> LastInITBlock s then fails s
                   else op (push_bit (unat Rt) 1)
            | eEncodingA1 \<Rightarrow>
                if is_set opcode 13 \<and> ArchVersion s \<ge> ARMv7 then fails s else op (Bits32 opcode 15 0)
            | eEncodingA2 \<Rightarrow>
                let Rt = Bits32 opcode 15 12
                in if Rt = 13 then fails s else op (push_bit (unat Rt) 1)
            | _ \<Rightarrow> fails s)
     else succeeds s)"

definition EmulateADDRdSPImm ::
  "'s arm_env \<Rightarrow> u32 \<Rightarrow> arm_encoding \<Rightarrow> 's arm \<Rightarrow> 's emulated" where
  "EmulateADDRdSPImm E opcode encoding s =
     (if ConditionPassed opcode s then
       need (ReadCoreReg E SP_REG s) s (\<lambda>sp.
         let op = (\<lambda>Rd imm32.
               let sp_offset = (ucast (imm32 :: u32) :: u64);
                   ctx = (if Rd = GetFramePointerRegisterNumber E s then eContextSetFramePointer
                          else eContextRegisterPlusOffset, RegisterPlusOffset 13 sp_offset)
               in Some (WriteRegisterUnsigned E ctx eRegisterKindDWARF Rd (ucast sp + sp_offset) s))
         in case encoding of
              eEncodingT1 \<Rightarrow> op 7 (push_bit 2 (Bits32 opcode 7 0))
            | eEncodingA1 \<Rightarrow> op (Bits32 opcode 15 12) (ARMExpandImm opcode)
            | _ \<Rightarrow> fails s)
     else succeeds s)"

definition EmulateMOVRdSP ::
  "'s arm_env \<Rightarrow> u32 \<Rightarrow> arm_encoding \<Rightarrow> 's arm \<Rightarrow> 's emulated" where
  "EmulateMOVRdSP E opcode encoding s =
     (if ConditionPassed opcode s then
       need (ReadCoreReg E SP_REG s) s (\<lambda>sp.
         let op = (\<lambda>Rd.
               let ctx = (if Rd = GetFramePointerRegisterNumber E s then eContextSetFramePointer
                          else eContextRegisterPlusOffset, RegisterPlusOffset 13 0)
               in Some (WriteRegisterUnsigned E ctx eRegisterKindDWARF Rd (ucast sp) s))
         in case encoding of
              eEncodingT1 \<Rightarrow> op 7
            | eEncodingA1 \<Rightarrow> op 12
            | _ \<Rightarrow> fails s)
     else succeeds s)"

text \<open>The sum of two \<open>int32_t\<close>, widened with its sign; an overflow is undefined.\<close>

definition EmulateADDSPRm ::
  "'s arm_env \<Rightarrow> u32 \<Rightarrow> arm_encoding \<Rightarrow> 's arm \<Rightarrow> 's emulated" where
  "EmulateADDSPRm E opcode encoding s =
     (if ConditionPassed opcode s then
       need (ReadCoreReg E SP_REG s) s (\<lambda>sp.
         case encoding of
           eEncodingT2 \<Rightarrow>
             let Rm = Bits32 opcode 6 3
             in need (ReadCoreReg E Rm s) s (\<lambda>reg_value.
                  do { addr \<leftarrow> int32_sum (sint sp) (sint reg_value);
                       Some (WriteRegisterUnsigned E (eContextArithmetic, RegisterRegisterOperands 13 Rm)
                               eRegisterKindGeneric GENERIC_SP (word_of_int addr) s) })
         | _ \<Rightarrow> fails s)
     else succeeds s)"

definition EmulateSUBR7IPImm ::
  "'s arm_env \<Rightarrow> u32 \<Rightarrow> arm_encoding \<Rightarrow> 's arm \<Rightarrow> 's emulated" where
  "EmulateSUBR7IPImm E opcode encoding s =
     (if ConditionPassed opcode s then
       need (ReadCoreReg E 12 s) s (\<lambda>ip.
         case encoding of
           eEncodingA1 \<Rightarrow>
             let ip_offset = (ucast (ARMExpandImm opcode) :: u64)
             in Some (WriteRegisterUnsigned E (eContextRegisterPlusOffset, RegisterPlusOffset 12 (- ip_offset))
                        eRegisterKindDWARF 7 (ucast ip - ip_offset) s)
         | _ \<Rightarrow> fails s)
     else succeeds s)"

definition EmulateSUBIPSPImm ::
  "'s arm_env \<Rightarrow> u32 \<Rightarrow> arm_encoding \<Rightarrow> 's arm \<Rightarrow> 's emulated" where
  "EmulateSUBIPSPImm E opcode encoding s =
     (if ConditionPassed opcode s then
       need (ReadCoreReg E SP_REG s) s (\<lambda>sp.
         case encoding of
           eEncodingA1 \<Rightarrow>
             let sp_offset = (ucast (ARMExpandImm opcode) :: u64)
             in Some (WriteRegisterUnsigned E (eContextRegisterPlusOffset, RegisterPlusOffset 13 (- sp_offset))
                        eRegisterKindDWARF 12 (ucast sp - sp_offset) s)
         | _ \<Rightarrow> fails s)
     else succeeds s)"

definition EmulateSTRRtSP ::
  "'s arm_env \<Rightarrow> u32 \<Rightarrow> arm_encoding \<Rightarrow> 's arm \<Rightarrow> 's emulated" where
  "EmulateSTRRtSP E opcode encoding s =
     (if ConditionPassed opcode s then
       need (ReadCoreReg E SP_REG s) s (\<lambda>sp32.
         case encoding of
           eEncodingA1 \<Rightarrow>
             let sp = (ucast sp32 :: u64); Rt = Bits32 opcode 15 12; imm12 = Bits32 opcode 11 0;
                 Rn = Bits32 opcode 19 16; index = is_set opcode 24; add = is_set opcode 23;
                 wback = (is_clear opcode 24 \<or> is_set opcode 21)
             in if Rn \<noteq> 13 then fails s
                else if wback \<and> (Rn = 15 \<or> Rn = Rt) then fails s
                else
                  let offset_addr = (if add then sp + ucast imm12 else sp - ucast imm12);
                      addr = (if index then offset_addr else sp);
                      ctx = (eContextPushRegisterOnStack, RegisterToRegisterPlusOffset Rt 13 (addr - sp));
                      source = (if Rt \<noteq> 15 then Rt else PC_REG)
                  in need (ReadCoreReg E source s) s (\<lambda>reg_value.
                       check (MemUWrite E ctx addr (ucast reg_value) (ae_addr_size E) s) (\<lambda>s.
                         if wback then
                           Some (WriteRegisterUnsigned E
                                   (eContextAdjustStackPointer, ImmediateSigned (addr - sp))
                                   eRegisterKindGeneric GENERIC_SP offset_addr s)
                         else succeeds s))
         | _ \<Rightarrow> fails s)
     else succeeds s)"

definition EmulateLDRRtPCRelative ::
  "'s arm_env \<Rightarrow> u32 \<Rightarrow> arm_encoding \<Rightarrow> 's arm \<Rightarrow> 's emulated" where
  "EmulateLDRRtPCRelative E opcode encoding s =
     (if ConditionPassed opcode s then
       need (ReadCoreReg E PC_REG s) s (\<lambda>pc.
         let op = (\<lambda>Rt imm32 add.
               let base = (ucast (Align pc 4) :: u64);
                   address = (if add then base + ucast (imm32 :: u32) else base - ucast imm32);
                   ctx = (eContextRegisterPlusOffset, RegisterPlusOffset 15 (address - base));
                   aligned = (Bits32 (ucast address) 1 0 = 0)
               in need (MemURead E ctx address 4 s) s (\<lambda>data.
                    if Rt = 15 then
                      if aligned then Some (LoadWritePC E ctx (ucast data) s) else fails s
                    else if UnalignedSupport s \<or> aligned then
                      Some (WriteRegisterUnsigned E ctx eRegisterKindDWARF Rt (ucast (ucast data :: u32)) s)
                    else fails s))
         in case encoding of
              eEncodingT1 \<Rightarrow> op (Bits32 opcode 10 8) (push_bit 2 (Bits32 opcode 7 0)) True
            | eEncodingT2 \<Rightarrow>
                let Rt = Bits32 opcode 15 12; imm32 = push_bit 2 (Bits32 opcode 11 0); add = is_set opcode 23
                in if Rt = 15 \<and> InITBlock s \<and> \<not> LastInITBlock s then fails s else op Rt imm32 add
            | _ \<Rightarrow> fails s)
     else succeeds s)"

section \<open>Branches\<close>

text \<open>The offset of the long Thumb branches: \<open>S\<close>, \<open>J1\<close> and \<open>J2\<close> give the upper bits.\<close>

definition branch_top :: "u32 \<Rightarrow> u32" where
  "branch_top opcode =
     (let S = Bit32 opcode 26; J1 = Bit32 opcode 13; J2 = Bit32 opcode 11;
          I1 = (if J1 XOR S = 0 then 1 else 0); I2 = (if J2 XOR S = 0 then 1 else 0)
      in push_bit 24 S OR push_bit 23 I1 OR push_bit 22 I2 OR push_bit 12 (Bits32 opcode 25 16))"

definition EmulateBLXImmediate ::
  "'s arm_env \<Rightarrow> u32 \<Rightarrow> arm_encoding \<Rightarrow> 's arm \<Rightarrow> 's emulated" where
  "EmulateBLXImmediate E opcode encoding s =
     (if ConditionPassed opcode s then
       need (ReadCoreReg E PC_REG s) s (\<lambda>pc.
         let extend = lv_SignExtend32 (ae_llvm E);
             op = (\<lambda>lr target mode imm s.
               let s = snd (SelectInstrSet mode s);
                   ctx = (eContextRelativeBranchImmediate, ISAAndImmediateSigned (mode_number mode) imm)
               in if encoding \<in> {eEncodingT1, eEncodingT2} \<and> InITBlock s \<and> \<not> LastInITBlock s then fails s
                  else check (WriteRegisterUnsigned E ctx eRegisterKindGeneric GENERIC_RA (ucast (lr :: u32)) s)
                    (\<lambda>s. check (BranchWritePC E ctx target s) (\<lambda>s.
                       if am_cpsr s \<noteq> am_new_cpsr s
                       then Some (WriteRegisterUnsigned E ctx eRegisterKindGeneric GENERIC_FLAGS
                                    (ucast (am_new_cpsr s)) s)
                       else succeeds s)))
         in case encoding of
              eEncodingT1 \<Rightarrow>
                let imm32 = extend 25 (branch_top opcode OR push_bit 1 (Bits32 opcode 10 0))
                in op (pc OR 1) (pc + imm32) eModeThumb (4 + imm32) s
            | eEncodingT2 \<Rightarrow>
                let imm32 = extend 25 (branch_top opcode OR push_bit 2 (Bits32 opcode 10 1))
                in op (pc OR 1) (Align pc 4 + imm32) eModeARM (4 + imm32) s
            | eEncodingA1 \<Rightarrow>
                let imm32 = extend 26 (push_bit 2 (Bits32 opcode 23 0))
                in op (pc - 4) (Align pc 4 + imm32) eModeARM (8 + imm32) s
            | eEncodingA2 \<Rightarrow>
                let imm32 = extend 26 (push_bit 2 (Bits32 opcode 23 0) OR push_bit 1 (Bits32 opcode 24 24))
                in op (pc - 4) (pc + imm32) eModeThumb (8 + imm32) s
            | _ \<Rightarrow> fails s)
     else succeeds s)"

definition EmulateBLXRm ::
  "'s arm_env \<Rightarrow> u32 \<Rightarrow> arm_encoding \<Rightarrow> 's arm \<Rightarrow> 's emulated" where
  "EmulateBLXRm E opcode encoding s =
     (if ConditionPassed opcode s then
       need (ReadCoreReg E PC_REG s) s (\<lambda>pc.
         let op = (\<lambda>lr Rm.
               need (ReadCoreReg E Rm s) s (\<lambda>target.
                 let ctx = (eContextAbsoluteBranchRegister, Register Rm)
                 in check (WriteRegisterUnsigned E ctx eRegisterKindGeneric GENERIC_RA (ucast (lr :: u32)) s)
                      (\<lambda>s. Some (BXWritePC E ctx target s))))
         in case encoding of
              eEncodingT1 \<Rightarrow>
                let Rm = Bits32 opcode 6 3
                in if Rm = 15 then fails s
                   else if InITBlock s \<and> \<not> LastInITBlock s then fails s
                   else op ((pc - 2) OR 1) Rm
            | eEncodingA1 \<Rightarrow>
                let Rm = Bits32 opcode 3 0 in if Rm = 15 then fails s else op (pc - 4) Rm
            | _ \<Rightarrow> fails s)
     else succeeds s)"

definition bx_register :: "'s arm_env \<Rightarrow> u32 \<Rightarrow> 's arm \<Rightarrow> 's emulated" where
  "bx_register E Rm s =
     need (ReadCoreReg E Rm s) s (\<lambda>target.
       Some (BXWritePC E (eContextAbsoluteBranchRegister, Register Rm) target s))"

definition EmulateBXRm ::
  "'s arm_env \<Rightarrow> u32 \<Rightarrow> arm_encoding \<Rightarrow> 's arm \<Rightarrow> 's emulated" where
  "EmulateBXRm E opcode encoding s =
     (if ConditionPassed opcode s then
       case encoding of
         eEncodingT1 \<Rightarrow>
           if InITBlock s \<and> \<not> LastInITBlock s then fails s else bx_register E (Bits32 opcode 6 3) s
       | eEncodingA1 \<Rightarrow> bx_register E (Bits32 opcode 3 0) s
       | _ \<Rightarrow> fails s
     else succeeds s)"

definition EmulateBXJRm ::
  "'s arm_env \<Rightarrow> u32 \<Rightarrow> arm_encoding \<Rightarrow> 's arm \<Rightarrow> 's emulated" where
  "EmulateBXJRm E opcode encoding s =
     (if ConditionPassed opcode s then
       case encoding of
         eEncodingT1 \<Rightarrow>
           let Rm = Bits32 opcode 19 16
           in if BadReg Rm then fails s
              else if InITBlock s \<and> \<not> LastInITBlock s then fails s
              else bx_register E Rm s
       | eEncodingA1 \<Rightarrow>
           let Rm = Bits32 opcode 3 0 in if Rm = 15 then fails s else bx_register E Rm s
       | _ \<Rightarrow> fails s
     else succeeds s)"

definition EmulateB ::
  "'s arm_env \<Rightarrow> u32 \<Rightarrow> arm_encoding \<Rightarrow> 's arm \<Rightarrow> 's emulated" where
  "EmulateB E opcode encoding s =
     (if ConditionPassed opcode s then
       need (ReadCoreReg E PC_REG s) s (\<lambda>pc.
         let extend = lv_SignExtend32 (ae_llvm E);
             op = (\<lambda>mode imm32 ahead.
               Some (BranchWritePC E
                       (eContextRelativeBranchImmediate, ISAAndImmediateSigned (mode_number mode) (ahead + imm32))
                       (pc + imm32) s))
         in case encoding of
              eEncodingT1 \<Rightarrow> op eModeThumb (extend 9 (push_bit 1 (Bits32 opcode 7 0))) 4
            | eEncodingT2 \<Rightarrow> op eModeThumb (extend 12 (push_bit 1 (Bits32 opcode 10 0))) 4
            | eEncodingT3 \<Rightarrow>
                if Bits32 opcode 25 23 = 7 then fails s
                else
                  let S = Bit32 opcode 26; imm6 = Bits32 opcode 21 16; J1 = Bit32 opcode 13;
                      J2 = Bit32 opcode 11; imm11 = Bits32 opcode 10 0;
                      imm21 = (push_bit 20 S OR push_bit 19 J2 OR push_bit 18 J1 OR push_bit 12 imm6 OR
                               push_bit 1 imm11)
                  in op eModeThumb (extend 21 imm21) 4
            | eEncodingT4 \<Rightarrow>
                op eModeThumb (extend 25 (branch_top opcode OR push_bit 1 (Bits32 opcode 10 0))) 4
            | eEncodingA1 \<Rightarrow> op eModeARM (extend 26 (push_bit 2 (Bits32 opcode 23 0))) 8
            | _ \<Rightarrow> fails s)
     else succeeds s)"

definition EmulateCB ::
  "'s arm_env \<Rightarrow> u32 \<Rightarrow> arm_encoding \<Rightarrow> 's arm \<Rightarrow> 's emulated" where
  "EmulateCB E opcode encoding s =
     need (ReadCoreReg E (Bits32 opcode 2 0) s) s (\<lambda>reg_val.
       need (ReadCoreReg E PC_REG s) s (\<lambda>pc.
         case encoding of
           eEncodingT1 \<Rightarrow>
             let imm32 = (push_bit 6 (Bit32 opcode 9) OR push_bit 1 (Bits32 opcode 7 3));
                 nonzero = is_set opcode 11;
                 ctx = (eContextRelativeBranchImmediate,
                        ISAAndImmediateSigned (mode_number eModeThumb) (4 + imm32))
             in if am_ignore s \<or> nonzero \<noteq> (reg_val = 0) then Some (BranchWritePC E ctx (pc + imm32) s)
                else succeeds s
         | _ \<Rightarrow> fails s))"

definition EmulateTB ::
  "'s arm_env \<Rightarrow> u32 \<Rightarrow> arm_encoding \<Rightarrow> 's arm \<Rightarrow> 's emulated" where
  "EmulateTB E opcode encoding s =
     (if ConditionPassed opcode s then
       case encoding of
         eEncodingT1 \<Rightarrow>
           let Rn = Bits32 opcode 19 16; Rm = Bits32 opcode 3 0; is_tbh = is_set opcode 4
           in if Rn = 13 \<or> BadReg Rm then fails s
              else if InITBlock s \<and> \<not> LastInITBlock s then fails s
              else need (ReadCoreReg E Rn s) s (\<lambda>base.
                need (ReadCoreReg E Rm s) s (\<lambda>index.
                  let addr = (ucast (base + (if is_tbh then index * 2 else index)) :: u64)
                  in need (MemURead E (eContextTableBranchReadMemory, NoArgs) addr (if is_tbh then 2 else 1) s) s
                    (\<lambda>entry. let offset = (ucast (entry * 2) :: u32)
                       in need (ReadCoreReg E PC_REG s) s (\<lambda>pc.
                            Some (BranchWritePC E
                              (eContextRelativeBranchImmediate,
                               ISAAndImmediateSigned (mode_number eModeThumb) (4 + offset))
                              (pc + offset) s)))))
       | _ \<Rightarrow> fails s
     else succeeds s)"

section \<open>Supervisor calls, IT and hints\<close>

definition EmulateSVC ::
  "'s arm_env \<Rightarrow> u32 \<Rightarrow> arm_encoding \<Rightarrow> 's arm \<Rightarrow> 's emulated" where
  "EmulateSVC E opcode encoding s =
     (if ConditionPassed opcode s then
       need (ReadCoreReg E PC_REG s) s (\<lambda>pc.
         let op = (\<lambda>lr imm32 mode.
               Some (WriteRegisterUnsigned E (eContextSupervisorCall, ISAAndImmediate (mode_number mode) imm32)
                       eRegisterKindGeneric GENERIC_RA (ucast (lr :: u32)) s))
         in case encoding of
              eEncodingT1 \<Rightarrow> op ((pc + 2) OR 1) (Bits32 opcode 7 0) eModeThumb
            | eEncodingA1 \<Rightarrow> op (pc + 4) (Bits32 opcode 23 0) eModeARM
            | _ \<Rightarrow> fails s)
     else succeeds s)"

definition EmulateIT ::
  "'s arm_env \<Rightarrow> u32 \<Rightarrow> arm_encoding \<Rightarrow> 's arm \<Rightarrow> 's emulated" where
  "EmulateIT E opcode encoding s =
     succeeds (s\<lparr>am_it := snd (InitIT (ae_llvm E) (Bits32 opcode 7 0) (am_it s))\<rparr>)"

definition EmulateNop ::
  "'s arm_env \<Rightarrow> u32 \<Rightarrow> arm_encoding \<Rightarrow> 's arm \<Rightarrow> 's emulated" where
  "EmulateNop E opcode encoding s = succeeds s"

end
