(* ===== verification/ARMMultiple.thy ===== *)
theory ARMMultiple
  imports ARMControl
begin

text \<open>
  The instructions that load and store several registers: \<open>LDM\<close>, \<open>LDMDA\<close>, \<open>LDMDB\<close>, \<open>LDMIB\<close> and
  \<open>STM\<close>, \<open>STMDA\<close>, \<open>STMDB\<close>, \<open>STMIB\<close>. The four of each kind share their loop and what follows it; they
  differ in the first address, in the contexts they report and in the new base.
\<close>

section \<open>Loads\<close>

text \<open>The loop over the registers \<open>r0\<close> to \<open>r13\<close>; \<open>ctx\<close> is the context at an offset.\<close>

primrec load_loop ::
  "'s arm_env \<Rightarrow> u32 \<Rightarrow> (u64 \<Rightarrow> access_context) \<Rightarrow> u64 \<Rightarrow> nat list \<Rightarrow> u64 \<Rightarrow> 's arm \<Rightarrow>
     (u64 \<Rightarrow> 's arm \<Rightarrow> 's emulated) \<Rightarrow> 's emulated"
  where
  "load_loop E registers ctx address [] offset s k = k offset s"
| "load_loop E registers ctx address (i # is) offset s k =
     (if is_set registers i then
        need (MemARead E (ctx offset) (address + offset) (ae_addr_size E) s) s (\<lambda>data.
          check (WriteRegisterUnsigned E (ctx offset) eRegisterKindDWARF (of_nat i)
              (ucast (ucast data :: u32)) s)
            (\<lambda>s. load_loop E registers ctx address is (offset + of_nat (ae_addr_size E)) s k))
      else load_loop E registers ctx address is offset s k)"

text \<open>What follows the loop: the program counter and the base register \<open>n\<close>, which becomes \<open>base\<close>.\<close>

definition load_multiple ::
  "'s arm_env \<Rightarrow> u32 \<Rightarrow> u32 \<Rightarrow> bool \<Rightarrow> (u64 \<Rightarrow> access_context) \<Rightarrow> u64 \<Rightarrow> context_info \<Rightarrow> u64 \<Rightarrow> 's arm \<Rightarrow>
     's emulated"
  where
  "load_multiple E n registers wback ctx address base_info base s =
     load_loop E registers ctx address [0..<14] 0 s (\<lambda>offset s.
       let finish = (\<lambda>s.
             if wback \<and> is_clear registers (unat n) then
               Some (WriteRegisterUnsigned E (eContextAdjustBaseRegister, base_info) eRegisterKindDWARF n base s)
             else if wback \<and> is_set registers (unat n) then Some (WriteBits32Unknown E n s)
             else succeeds s)
       in if is_set registers 15 then
            let ctx = (eContextRegisterPlusOffset, RegisterPlusOffset n offset)
            in need (MemARead E ctx (address + offset) (ae_addr_size E) s) s (\<lambda>data.
                 check (LoadWritePC E ctx (ucast data) s) finish)
          else finish s)"

text \<open>The bytes that the registers of a list take.\<close>

definition list_size :: "'s arm_env \<Rightarrow> u32 \<Rightarrow> u64" where
  "list_size E registers = ucast (of_nat (ae_addr_size E) * BitCount (ucast registers))"

definition EmulateLDM ::
  "'s arm_env \<Rightarrow> u32 \<Rightarrow> arm_encoding \<Rightarrow> 's arm \<Rightarrow> 's emulated" where
  "EmulateLDM E opcode encoding s =
     (if ConditionPassed opcode s then
       let op = (\<lambda>n registers wback.
             need (ReadRegisterUnsigned E eRegisterKindDWARF n s) s (\<lambda>base_address.
               let ctx = (\<lambda>offset. if wback \<and> n = 13
                     then (eContextPopRegisterOffStack, Address (base_address + offset))
                     else (eContextRegisterPlusOffset, RegisterPlusOffset n offset));
                   size = list_size E registers
               in load_multiple E n registers wback ctx base_address (RegisterPlusOffset n size)
                    (base_address + size) s))
       in case encoding of
            eEncodingT1 \<Rightarrow>
              let n = Bits32 opcode 10 8; registers = Bits32 opcode 7 0 AND 0x00ff;
                  wback = is_clear registers (unat n)
              in if BitCount (ucast registers) < 1 then fails s else op n registers wback
          | eEncodingT2 \<Rightarrow>
              let n = Bits32 opcode 19 16; registers = Bits32 opcode 15 0 AND 0xdfff;
                  wback = is_set opcode 21
              in if n = 15 \<or> BitCount (ucast registers) < 2 \<or> is_set opcode 14 \<and> is_set opcode 15 then fails s
                 else if is_set registers 15 \<and> InITBlock s \<and> \<not> LastInITBlock s then fails s
                 else if wback \<and> is_set registers (unat n) then fails s
                 else op n registers wback
          | eEncodingA1 \<Rightarrow>
              let n = Bits32 opcode 19 16; registers = Bits32 opcode 15 0; wback = is_set opcode 21
              in if n = 15 \<or> BitCount (ucast registers) < 1 then fails s else op n registers wback
          | _ \<Rightarrow> fails s
     else succeeds s)"

definition EmulateLDMDA ::
  "'s arm_env \<Rightarrow> u32 \<Rightarrow> arm_encoding \<Rightarrow> 's arm \<Rightarrow> 's emulated" where
  "EmulateLDMDA E opcode encoding s =
     (if ConditionPassed opcode s then
       case encoding of
         eEncodingA1 \<Rightarrow>
           let n = Bits32 opcode 19 16; registers = Bits32 opcode 15 0; wback = is_set opcode 21
           in if n = 15 \<or> BitCount (ucast registers) < 1 then fails s
              else need (ReadCoreReg E n s) s (\<lambda>r.
                let Rn = (ucast r :: u64); size = list_size E registers;
                    address = Rn - size + of_nat (ae_addr_size E);
                    ctx = (\<lambda>offset. (eContextRegisterPlusOffset,
                             RegisterPlusOffset n (Rn - (address + offset))))
                in load_multiple E n registers wback ctx address (ImmediateSigned (- size)) (Rn - size) s)
       | _ \<Rightarrow> fails s
     else succeeds s)"

definition EmulateLDMDB ::
  "'s arm_env \<Rightarrow> u32 \<Rightarrow> arm_encoding \<Rightarrow> 's arm \<Rightarrow> 's emulated" where
  "EmulateLDMDB E opcode encoding s =
     (if ConditionPassed opcode s then
       let op = (\<lambda>n registers wback.
             need (ReadRegisterUnsigned E eRegisterKindDWARF n s) s (\<lambda>Rn.
               let size = list_size E registers; address = Rn - size;
                   ctx = (\<lambda>offset. (eContextRegisterPlusOffset,
                            RegisterPlusOffset n (Rn - (address + offset))))
               in load_multiple E n registers wback ctx address (ImmediateSigned (- size)) (Rn - size) s))
       in case encoding of
            eEncodingT1 \<Rightarrow>
              let n = Bits32 opcode 19 16; registers = Bits32 opcode 15 0 AND 0xdfff;
                  wback = is_set opcode 21
              in if n = 15 \<or> BitCount (ucast registers) < 2 \<or> is_set opcode 14 \<and> is_set opcode 15 then fails s
                 else if is_set registers 15 \<and> InITBlock s \<and> \<not> LastInITBlock s then fails s
                 else if wback \<and> is_set registers (unat n) then fails s
                 else op n registers wback
          | eEncodingA1 \<Rightarrow>
              let n = Bits32 opcode 19 16; registers = Bits32 opcode 15 0; wback = is_set opcode 21
              in if n = 15 \<or> BitCount (ucast registers) < 1 then fails s else op n registers wback
          | _ \<Rightarrow> fails s
     else succeeds s)"

definition EmulateLDMIB ::
  "'s arm_env \<Rightarrow> u32 \<Rightarrow> arm_encoding \<Rightarrow> 's arm \<Rightarrow> 's emulated" where
  "EmulateLDMIB E opcode encoding s =
     (if ConditionPassed opcode s then
       case encoding of
         eEncodingA1 \<Rightarrow>
           let n = Bits32 opcode 19 16; registers = Bits32 opcode 15 0; wback = is_set opcode 21
           in if n = 15 \<or> BitCount (ucast registers) < 1 then fails s
              else need (ReadRegisterUnsigned E eRegisterKindDWARF n s) s (\<lambda>Rn.
                let size = list_size E registers; address = Rn + of_nat (ae_addr_size E);
                    ctx = (\<lambda>offset. (eContextRegisterPlusOffset,
                             RegisterPlusOffset n (offset + of_nat (ae_addr_size E))))
                in load_multiple E n registers wback ctx address (ImmediateSigned size) (Rn + size) s)
       | _ \<Rightarrow> fails s
     else succeeds s)"

section \<open>Stores\<close>

text \<open>The base register is not stored when it is written back, unless it is the lowest one. \<open>rel\<close> is
  the distance to the base that is reported for an offset.\<close>

primrec store_loop ::
  "'s arm_env \<Rightarrow> u32 \<Rightarrow> u32 \<Rightarrow> bool \<Rightarrow> (u64 \<Rightarrow> u64) \<Rightarrow> u64 \<Rightarrow> nat list \<Rightarrow> nat \<Rightarrow> u64 \<Rightarrow> 's arm \<Rightarrow>
     (u64 \<Rightarrow> 's arm \<Rightarrow> 's emulated) \<Rightarrow> 's emulated"
  where
  "store_loop E n registers wback rel address [] lowest offset s k = k offset s"
| "store_loop E n registers wback rel address (i # is) lowest offset s k =
     (if is_set registers i then
        let lowest = (if i < lowest then i else lowest);
            rest = (\<lambda>s. store_loop E n registers wback rel address is lowest
                          (offset + of_nat (ae_addr_size E)) s k)
        in if i = unat n \<and> wback \<and> i \<noteq> lowest
           then rest (snd (WriteBits32UnknownToMemory E (address + offset) s))
           else need (ReadRegisterUnsigned E eRegisterKindDWARF (of_nat i) s) s (\<lambda>data.
             check (MemAWrite E
                 (eContextRegisterStore, RegisterToRegisterPlusOffset (of_nat i) n (rel offset))
                 (address + offset) (ucast (ucast data :: u32)) (ae_addr_size E) s) rest)
      else store_loop E n registers wback rel address is lowest offset s k)"

definition store_multiple ::
  "'s arm_env \<Rightarrow> u32 \<Rightarrow> u32 \<Rightarrow> bool \<Rightarrow> (u64 \<Rightarrow> u64) \<Rightarrow> u64 \<Rightarrow> u64 \<Rightarrow> u64 \<Rightarrow> 's arm \<Rightarrow> 's emulated"
  where
  "store_multiple E n registers wback rel address step base s =
     store_loop E n registers wback rel address [0..<14] 14 0 s (\<lambda>offset s.
       let finish = (\<lambda>s.
             if wback then
               Some (WriteRegisterUnsigned E (eContextAdjustBaseRegister, ImmediateSigned step)
                       eRegisterKindDWARF n base s)
             else succeeds s)
       in if is_set registers 15 then
            need (ReadCoreReg E PC_REG s) s (\<lambda>pc.
              check (MemAWrite E (eContextRegisterStore, RegisterPlusOffset 15 8) (address + offset)
                       (ucast pc) (ae_addr_size E) s) finish)
          else finish s)"

definition EmulateSTM ::
  "'s arm_env \<Rightarrow> u32 \<Rightarrow> arm_encoding \<Rightarrow> 's arm \<Rightarrow> 's emulated" where
  "EmulateSTM E opcode encoding s =
     (if ConditionPassed opcode s then
       let op = (\<lambda>n registers wback.
             need (ReadRegisterUnsigned E eRegisterKindDWARF n s) s (\<lambda>address.
               let size = list_size E registers
               in store_multiple E n registers wback (\<lambda>offset. offset) address size (address + size) s))
       in case encoding of
            eEncodingT1 \<Rightarrow>
              let n = Bits32 opcode 10 8; registers = Bits32 opcode 7 0 AND 0x00ff
              in if BitCount (ucast registers) < 1 then fails s else op n registers True
          | eEncodingT2 \<Rightarrow>
              let n = Bits32 opcode 19 16; registers = Bits32 opcode 15 0 AND 0x5fff;
                  wback = is_set opcode 21
              in if n = 15 \<or> BitCount (ucast registers) < 2 then fails s
                 else if wback \<and> is_set registers (unat n) then fails s
                 else op n registers wback
          | eEncodingA1 \<Rightarrow>
              let n = Bits32 opcode 19 16; registers = Bits32 opcode 15 0; wback = is_set opcode 21
              in if n = 15 \<or> BitCount (ucast registers) < 1 then fails s else op n registers wback
          | _ \<Rightarrow> fails s
     else succeeds s)"

definition EmulateSTMDA ::
  "'s arm_env \<Rightarrow> u32 \<Rightarrow> arm_encoding \<Rightarrow> 's arm \<Rightarrow> 's emulated" where
  "EmulateSTMDA E opcode encoding s =
     (if ConditionPassed opcode s then
       case encoding of
         eEncodingA1 \<Rightarrow>
           let n = Bits32 opcode 19 16; registers = Bits32 opcode 15 0; wback = is_set opcode 21
           in if n = 15 \<or> BitCount (ucast registers) < 1 then fails s
              else need (ReadCoreReg E n s) s (\<lambda>r.
                let Rn = (ucast r :: u64); size = list_size E registers; address = Rn - size + 4
                in store_multiple E n registers wback (\<lambda>offset. Rn - (address + offset)) address
                     (- size) (Rn - size) s)
       | _ \<Rightarrow> fails s
     else succeeds s)"

definition EmulateSTMDB ::
  "'s arm_env \<Rightarrow> u32 \<Rightarrow> arm_encoding \<Rightarrow> 's arm \<Rightarrow> 's emulated" where
  "EmulateSTMDB E opcode encoding s =
     (if ConditionPassed opcode s then
       let op = (\<lambda>n registers wback.
             need (ReadRegisterUnsigned E eRegisterKindDWARF n s) s (\<lambda>Rn.
               let size = list_size E registers; address = Rn - size
               in store_multiple E n registers wback (\<lambda>offset. Rn - (address + offset)) address
                    (- size) (Rn - size) s))
       in case encoding of
            eEncodingT1 \<Rightarrow>
              let n = Bits32 opcode 19 16; registers = Bits32 opcode 15 0 AND 0x5fff;
                  wback = is_set opcode 21
              in if n = 15 \<or> BitCount (ucast registers) < 2 then fails s
                 else if wback \<and> is_set registers (unat n) then fails s
                 else op n registers wback
          | eEncodingA1 \<Rightarrow>
              let n = Bits32 opcode 19 16; registers = Bits32 opcode 15 0; wback = is_set opcode 21
              in if n = 15 \<or> BitCount (ucast registers) < 1 then fails s else op n registers wback
          | _ \<Rightarrow> fails s
     else succeeds s)"

definition EmulateSTMIB ::
  "'s arm_env \<Rightarrow> u32 \<Rightarrow> arm_encoding \<Rightarrow> 's arm \<Rightarrow> 's emulated" where
  "EmulateSTMIB E opcode encoding s =
     (if ConditionPassed opcode s then
       case encoding of
         eEncodingA1 \<Rightarrow>
           let n = Bits32 opcode 19 16; registers = Bits32 opcode 15 0; wback = is_set opcode 21
           in if n = 15 \<and> BitCount (ucast registers) < 1 then fails s
              else need (ReadCoreReg E n s) s (\<lambda>r.
                let Rn = (ucast r :: u64); size = list_size E registers;
                    address = Rn + of_nat (ae_addr_size E)
                in store_multiple E n registers wback (\<lambda>offset. offset + of_nat (ae_addr_size E)) address
                     size (Rn + size) s)
       | _ \<Rightarrow> fails s
     else succeeds s)"

end
