(* ===== verification/ARMLoadStore.thy ===== *)
theory ARMLoadStore
  imports ARMMultiple
begin

text \<open>
  The loads and stores of one or two registers, the extensions and the return from an exception. In
  each definition \<open>op\<close> is what follows the switch on the encoding. \<open>access_address\<close> is the arithmetic
  of the addressing modes, on the type the function computes with: \<open>u32\<close> where both operands are
  \<open>uint32_t\<close>, \<open>u64\<close> where one is an \<open>addr_t\<close>.
\<close>

definition access_address :: "bool \<Rightarrow> bool \<Rightarrow> 'a::len word \<Rightarrow> 'a word \<Rightarrow> 'a word \<times> 'a word" where
  "access_address index add base offset =
     (let offset_addr = (if add then base + offset else base - offset)
      in (offset_addr, if index then offset_addr else base))"

text \<open>A conversion to \<open>int32_t\<close> and back to 64 bits.\<close>

definition as_int32 :: "u64 \<Rightarrow> u64" where
  "as_int32 w = scast (ucast w :: u32)"

text \<open>The write of a new base register.\<close>

definition write_back ::
  "'s arm_env \<Rightarrow> bool \<Rightarrow> access_context \<Rightarrow> u32 \<Rightarrow> u64 \<Rightarrow> 's arm \<Rightarrow> bool \<times> 's arm" where
  "write_back E wback ctx n offset_addr s =
     (if wback then WriteRegisterUnsigned E ctx eRegisterKindDWARF n offset_addr s else (True, s))"

section \<open>Stores\<close>

definition EmulateSTRThumb ::
  "'s arm_env \<Rightarrow> u32 \<Rightarrow> arm_encoding \<Rightarrow> 's arm \<Rightarrow> 's emulated" where
  "EmulateSTRThumb E opcode encoding s =
     (if ConditionPassed opcode s then
       let op = (\<lambda>t n imm32 index add wback.
         need (ReadCoreReg E n s) s (\<lambda>base_address.
           let (offset_addr, address) = access_address index add base_address imm32;
               address = (ucast address :: u64);
               finish = (\<lambda>s. Some (write_back E wback
                 (if n = 13 then eContextAdjustStackPointer else eContextAdjustBaseRegister,
                  Address (ucast offset_addr)) n (ucast offset_addr) s))
           in if UnalignedSupport s \<or> BitIsClear address 1 \<and> BitIsClear address 0 then
                need (ReadRegisterUnsigned E eRegisterKindDWARF t s) s (\<lambda>data.
                  check (MemUWrite E
                      (if n = 13 then eContextPushRegisterOnStack else eContextRegisterStore,
                       RegisterToRegisterPlusOffset t n (as_int32 (address - ucast base_address)))
                      address (ucast (ucast data :: u32)) (ae_addr_size E) s) finish)
              else finish (snd (WriteBits32UnknownToMemory E address s))))
       in case encoding of
           eEncodingT1 \<Rightarrow>
             let t = Bits32 opcode 2 0; n = Bits32 opcode 5 3; imm32 = push_bit 2 (Bits32 opcode 10 6)
             in op t n imm32 True False False
         | eEncodingT2 \<Rightarrow>
             let t = Bits32 opcode 10 8; imm32 = push_bit 2 (Bits32 opcode 7 0)
             in op t 13 imm32 True True False
         | eEncodingT3 \<Rightarrow>
             let t = Bits32 opcode 15 12; n = Bits32 opcode 19 16; imm32 = Bits32 opcode 11 0
             in if Bits32 opcode 19 16 = 15 then fails s
                else if t = 15 then fails s
                else op t n imm32 True True False
         | eEncodingT4 \<Rightarrow>
             let t = Bits32 opcode 15 12; n = Bits32 opcode 19 16; imm32 = Bits32 opcode 7 0;
                 index = is_set opcode 10; add = is_set opcode 9; wback = is_set opcode 8
             in if Bits32 opcode 19 16 = 15 \<or> is_clear opcode 10 \<and> is_clear opcode 8 then fails s
                else if t = 15 \<or> wback \<and> n = t then fails s
                else op t n imm32 index add wback
         | _ \<Rightarrow> fails s
     else succeeds s)"

definition EmulateSTRRegister ::
  "'s arm_env \<Rightarrow> u32 \<Rightarrow> arm_encoding \<Rightarrow> 's arm \<Rightarrow> 's emulated" where
  "EmulateSTRRegister E opcode encoding s =
     (if ConditionPassed opcode s then
       let op = (\<lambda>t n m shift_t shift_n index add wback.
         need (ReadRegisterUnsigned E eRegisterKindDWARF n s) s (\<lambda>base_address.
           need (ReadRegisterUnsigned E eRegisterKindDWARF m s) s (\<lambda>Rm_data.
           do { shift \<leftarrow> Shift (ae_llvm E) (ucast Rm_data) shift_t shift_n (APSR_C s);
                need shift s (\<lambda>offset.
                  let (offset_addr, address) = access_address index add base_address (scast offset);
                      data = (if t = 15 then ReadCoreReg E PC_REG s
                              else map_option ucast (ReadRegisterUnsigned E eRegisterKindDWARF t s))
                  in need data s (\<lambda>data.
                    let finish = (\<lambda>s. Some (write_back E wback (eContextRegisterLoad, Address
                        offset_addr)
                          n offset_addr s))
                    in if UnalignedSupport s \<or> BitIsClear address 1 \<and> BitIsClear address 0 \<or>
                          CurrentInstrSet s = eModeARM then
                         check (MemUWrite E
                             (eContextRegisterStore, RegisterToRegisterPlusOffset t n (address -
                               base_address))
                             address (ucast data) (ae_addr_size E) s) finish
                       else finish (snd (WriteBits32UnknownToMemory E address s)))) })))
       in case encoding of
           eEncodingT1 \<Rightarrow>
             let t = Bits32 opcode 2 0; n = Bits32 opcode 5 3; m = Bits32 opcode 8 6
             in op t n m SRType_LSL 0 True True False
         | eEncodingT2 \<Rightarrow>
             let t = Bits32 opcode 15 12; n = Bits32 opcode 19 16; m = Bits32 opcode 3 0;
                 shift_n = Bits32 opcode 5 4
             in if Bits32 opcode 19 16 = 15 then fails s
                else if t = 15 \<or> BadReg m then fails s
                else op t n m SRType_LSL shift_n True True False
         | eEncodingA1 \<Rightarrow>
             let t = Bits32 opcode 15 12; n = Bits32 opcode 19 16; m = Bits32 opcode 3 0;
                 index = is_set opcode 24; add = is_set opcode 23;
                 wback = (is_clear opcode 24 \<or> is_set opcode 21);
                 (shift_n, shift_t) = DecodeImmShift (Bits32 opcode 6 5) (Bits32 opcode 11 7)
             in if m = 15 then fails s
                else if wback \<and> (n = 15 \<or> n = t) then fails s
                else op t n m shift_t shift_n index add wback
         | _ \<Rightarrow> fails s
     else succeeds s)"

definition EmulateSTRBThumb ::
  "'s arm_env \<Rightarrow> u32 \<Rightarrow> arm_encoding \<Rightarrow> 's arm \<Rightarrow> 's emulated" where
  "EmulateSTRBThumb E opcode encoding s =
     (if ConditionPassed opcode s then
       let op = (\<lambda>t n imm32 index add wback.
         need (ReadRegisterUnsigned E eRegisterKindDWARF n s) s (\<lambda>base_address.
           let (offset_addr, address) = access_address index add base_address (ucast (imm32 :: u32));
               ctx = (eContextRegisterStore, RegisterToRegisterPlusOffset t n (address - base_address))
           in need (ReadRegisterUnsigned E eRegisterKindDWARF t s) s (\<lambda>data.
                check (MemUWrite E ctx address (ucast (Bits32 (ucast data) 7 0)) 1 s) (\<lambda>s.
                  Some (write_back E wback (eContextRegisterLoad, Address offset_addr) n offset_addr
                    s)))))
       in case encoding of
           eEncodingT1 \<Rightarrow>
             let t = Bits32 opcode 2 0; n = Bits32 opcode 5 3; imm32 = Bits32 opcode 10 6
             in op t n imm32 True True False
         | eEncodingT2 \<Rightarrow>
             let t = Bits32 opcode 15 12; n = Bits32 opcode 19 16; imm32 = Bits32 opcode 11 0
             in if Bits32 opcode 19 16 = 15 then fails s
                else if BadReg t then fails s
                else op t n imm32 True True False
         | eEncodingT3 \<Rightarrow>
             let t = Bits32 opcode 15 12; n = Bits32 opcode 19 16; imm32 = Bits32 opcode 7 0;
                 index = is_set opcode 10; add = is_set opcode 9; wback = is_set opcode 8
             in if Bits32 opcode 19 16 = 15 then fails s
                else if BadReg t \<or> wback \<and> n = t then fails s
                else op t n imm32 index add wback
         | _ \<Rightarrow> fails s
     else succeeds s)"

definition EmulateSTRHRegister ::
  "'s arm_env \<Rightarrow> u32 \<Rightarrow> arm_encoding \<Rightarrow> 's arm \<Rightarrow> 's emulated" where
  "EmulateSTRHRegister E opcode encoding s =
     (if ConditionPassed opcode s then
       let op = (\<lambda>t n m shift_n index add wback.
         need (ReadCoreReg E m s) s (\<lambda>Rm. need (ReadCoreReg E n s) s (\<lambda>Rn.
           do { shift \<leftarrow> Shift (ae_llvm E) Rm SRType_LSL shift_n (APSR_C s);
                need shift s (\<lambda>offset.
                  let (offset_addr, address) = access_address index add Rn offset;
                      address = (ucast address :: u64);
                      finish = (\<lambda>s. Some (write_back E wback
                        (eContextAdjustBaseRegister, Address (ucast offset_addr)) n (ucast offset_addr)
                          s))
                  in if UnalignedSupport s \<or> BitIsClear address 0 then
                       need (ReadCoreReg E t s) s (\<lambda>Rt.
                         check (MemUWrite E
                             (eContextRegisterStore, RegisterToRegisterPlusIndirectOffset n m t)
                             address (ucast (Bits32 Rt 15 0)) 2 s) finish)
                     else finish s) })))
       in case encoding of
           eEncodingT1 \<Rightarrow>
             let t = Bits32 opcode 2 0; n = Bits32 opcode 5 3; m = Bits32 opcode 8 6
             in op t n m 0 True True False
         | eEncodingT2 \<Rightarrow>
             let t = Bits32 opcode 15 12; n = Bits32 opcode 19 16; m = Bits32 opcode 3 0;
                 shift_n = Bits32 opcode 5 4
             in if n = 15 then fails s
                else if BadReg t \<or> BadReg m then fails s
                else op t n m shift_n True True False
         | eEncodingA1 \<Rightarrow>
             let t = Bits32 opcode 15 12; n = Bits32 opcode 19 16; m = Bits32 opcode 3 0;
                 index = is_set opcode 24; add = is_set opcode 23;
                 wback = (is_clear opcode 24 \<or> is_set opcode 21)
             in if t = 15 \<or> m = 15 then fails s
                else if wback \<and> (n = 15 \<or> n = t) then fails s
                else op t n m 0 index add wback
         | _ \<Rightarrow> fails s
     else succeeds s)"

definition EmulateSTREX ::
  "'s arm_env \<Rightarrow> u32 \<Rightarrow> arm_encoding \<Rightarrow> 's arm \<Rightarrow> 's emulated" where
  "EmulateSTREX E opcode encoding s =
     (if ConditionPassed opcode s then
       let op = (\<lambda>t n imm32.
         need (ReadCoreReg E n s) s (\<lambda>Rn.
           let address = (ucast (Rn + imm32) :: u64);
               ctx = (eContextRegisterStore, RegisterToRegisterPlusOffset t n (ucast imm32))
           in need (ReadRegisterUnsigned E eRegisterKindDWARF t s) s (\<lambda>Rt.
                check (MemAWrite E ctx address (ucast (ucast Rt :: u32)) (ae_addr_size E) s) (\<lambda>s.
                  Some (WriteRegisterUnsigned E ctx eRegisterKindDWARF t 0 s)))))
       in case encoding of
           eEncodingT1 \<Rightarrow>
             let d = Bits32 opcode 11 8; t = Bits32 opcode 15 12; n = Bits32 opcode 19 16;
                 imm32 = push_bit 2 (Bits32 opcode 7 0)
             in if BadReg d \<or> BadReg t \<or> n = 15 then fails s
                else if d = n \<or> d = t then fails s
                else op t n imm32
         | eEncodingA1 \<Rightarrow>
             let d = Bits32 opcode 15 12; t = Bits32 opcode 3 0; n = Bits32 opcode 19 16
             in if d = 15 \<or> t = 15 \<or> n = 15 then fails s
                else if d = n \<or> d = t then fails s
                else op t n 0
         | _ \<Rightarrow> fails s
     else succeeds s)"

definition EmulateSTRBImmARM ::
  "'s arm_env \<Rightarrow> u32 \<Rightarrow> arm_encoding \<Rightarrow> 's arm \<Rightarrow> 's emulated" where
  "EmulateSTRBImmARM E opcode encoding s =
     (if ConditionPassed opcode s then
       let op = (\<lambda>t n imm32 index add wback.
         need (ReadCoreReg E n s) s (\<lambda>Rn.
           let (offset_addr, address) = access_address index add Rn imm32;
               address = (ucast address :: u64);
               ctx = (eContextRegisterStore, RegisterToRegisterPlusOffset t n (address - ucast Rn))
           in need (ReadCoreReg E t s) s (\<lambda>Rt.
                check (MemUWrite E ctx address (ucast (Bits32 Rt 7 0)) 1 s) (\<lambda>s.
                  Some (write_back E wback ctx n (ucast offset_addr) s)))))
       in case encoding of
           eEncodingA1 \<Rightarrow>
             let t = Bits32 opcode 15 12; n = Bits32 opcode 19 16; imm32 = Bits32 opcode 11 0;
                 index = is_set opcode 24; add = is_set opcode 23;
                 wback = (is_clear opcode 24 \<or> is_set opcode 21)
             in if t = 15 then fails s
                else if wback \<and> (n = 15 \<or> n = t) then fails s
                else op t n imm32 index add wback
         | _ \<Rightarrow> fails s
     else succeeds s)"

definition EmulateSTRImmARM ::
  "'s arm_env \<Rightarrow> u32 \<Rightarrow> arm_encoding \<Rightarrow> 's arm \<Rightarrow> 's emulated" where
  "EmulateSTRImmARM E opcode encoding s =
     (if ConditionPassed opcode s then
       let op = (\<lambda>t n imm32 index add wback.
         need (ReadCoreReg E n s) s (\<lambda>Rn.
           let (offset_addr, address) = access_address index add Rn imm32;
               address = (ucast address :: u64);
               ctx = (eContextRegisterStore, RegisterToRegisterPlusOffset t n (address - ucast Rn))
           in need (ReadCoreReg E t s) s (\<lambda>Rt.
              need (if t = 15 then ReadCoreReg E PC_REG s else Some Rt) s (\<lambda>data.
                check (MemUWrite E ctx address (ucast data) (ae_addr_size E) s) (\<lambda>s.
                  Some (write_back E wback (eContextAdjustBaseRegister, Immediate (ucast offset_addr))
                    n (ucast offset_addr) s))))))
       in case encoding of
           eEncodingA1 \<Rightarrow>
             let t = Bits32 opcode 15 12; n = Bits32 opcode 19 16; imm32 = Bits32 opcode 11 0;
                 index = is_set opcode 24; add = is_set opcode 23;
                 wback = (is_clear opcode 24 \<or> is_set opcode 21)
             in if wback \<and> (n = 15 \<or> n = t) then fails s
                else op t n imm32 index add wback
         | _ \<Rightarrow> fails s
     else succeeds s)"

definition EmulateSTRDImm ::
  "'s arm_env \<Rightarrow> u32 \<Rightarrow> arm_encoding \<Rightarrow> 's arm \<Rightarrow> 's emulated" where
  "EmulateSTRDImm E opcode encoding s =
     (if ConditionPassed opcode s then
       let op = (\<lambda>t t2 n imm32 index add wback.
         need (ReadCoreReg E n s) s (\<lambda>Rn.
           let (offset_addr, address) = access_address index add Rn imm32;
               address = (ucast address :: u64);
               ct = (if n = 13 then eContextPushRegisterOnStack else eContextRegisterStore)
           in need (ReadCoreReg E t s) s (\<lambda>data.
                check (MemAWrite E (ct, RegisterToRegisterPlusOffset t n (address - ucast Rn)) address
                    (ucast data) (ae_addr_size E) s) (\<lambda>s.
                  need (ReadCoreReg E t2 s) s (\<lambda>data.
                    check (MemAWrite E (ct, RegisterToRegisterPlusOffset t2 n (address + 4 - ucast Rn))
                        (address + 4) (ucast data) (ae_addr_size E) s) (\<lambda>s.
                      Some (write_back E wback
                        (if n = 13 then eContextAdjustStackPointer else eContextAdjustBaseRegister,
                         Address (ucast offset_addr)) n (ucast offset_addr) s)))))))
       in case encoding of
           eEncodingT1 \<Rightarrow>
             let t = Bits32 opcode 15 12; t2 = Bits32 opcode 11 8; n = Bits32 opcode 19 16;
                 imm32 = push_bit 2 (Bits32 opcode 7 0); index = is_set opcode 24;
                 add = is_set opcode 23; wback = is_set opcode 21
             in if wback \<and> (n = t \<or> n = t2) then fails s
                else if n = 15 \<or> BadReg t \<or> BadReg t2 then fails s
                else op t t2 n imm32 index add wback
         | eEncodingA1 \<Rightarrow>
             let t = Bits32 opcode 15 12; t2 = t + 1; n = Bits32 opcode 19 16;
                 imm32 = (push_bit 4 (Bits32 opcode 11 8) OR Bits32 opcode 3 0);
                 index = is_set opcode 24; add = is_set opcode 23;
                 wback = (is_clear opcode 24 \<or> is_set opcode 21)
             in if is_set t 0 then fails s
                else if is_clear opcode 24 \<and> is_set opcode 21 then fails s
                else if wback \<and> (n = 15 \<or> n = t \<or> n = t2) then fails s
                else if t2 = 15 then fails s
                else op t t2 n imm32 index add wback
         | _ \<Rightarrow> fails s
     else succeeds s)"

definition EmulateSTRDReg ::
  "'s arm_env \<Rightarrow> u32 \<Rightarrow> arm_encoding \<Rightarrow> 's arm \<Rightarrow> 's emulated" where
  "EmulateSTRDReg E opcode encoding s =
     (if ConditionPassed opcode s then
       let op = (\<lambda>t t2 n m index add wback.
         need (ReadCoreReg E n s) s (\<lambda>Rn. need (ReadCoreReg E m s) s (\<lambda>Rm.
           let (offset_addr, address) = access_address index add Rn Rm;
               address = (ucast address :: u64);
               ct = (if t = 13 then eContextPushRegisterOnStack else eContextRegisterStore)
           in need (ReadCoreReg E t s) s (\<lambda>Rt.
                check (MemAWrite E (ct, RegisterToRegisterPlusIndirectOffset n m t) address
                    (ucast Rt) (ae_addr_size E) s) (\<lambda>s.
                  need (ReadCoreReg E t2 s) s (\<lambda>Rt2.
                    check (MemAWrite E (ct, RegisterToRegisterPlusIndirectOffset n m t2) (address + 4)
                        (ucast Rt2) (ae_addr_size E) s) (\<lambda>s.
                      Some (write_back E wback (eContextAdjustBaseRegister, Address (ucast offset_addr))
                        n (ucast offset_addr) s))))))))
       in case encoding of
           eEncodingA1 \<Rightarrow>
             let t = Bits32 opcode 15 12; t2 = t + 1; n = Bits32 opcode 19 16; m = Bits32 opcode 3 0;
                 index = is_set opcode 24; add = is_set opcode 23;
                 wback = (is_clear opcode 24 \<or> is_set opcode 21)
             in if is_set t 0 then fails s
                else if is_clear opcode 24 \<and> is_set opcode 21 then fails s
                else if t2 = 15 \<or> m = 15 then fails s
                else if wback \<and> (n = 15 \<or> n = t \<or> n = t2) then fails s
                else if ArchVersion s < 6 \<and> wback \<and> m = n then fails s
                else op t t2 n m index add wback
         | _ \<Rightarrow> fails s
     else succeeds s)"

section \<open>Loads of words\<close>

definition EmulateLDRRtRnImm ::
  "'s arm_env \<Rightarrow> u32 \<Rightarrow> arm_encoding \<Rightarrow> 's arm \<Rightarrow> 's emulated" where
  "EmulateLDRRtRnImm E opcode encoding s =
     (if ConditionPassed opcode s then
       let op = (\<lambda>Rt Rn imm32 index add wback.
         need (ReadCoreReg E Rn s) s (\<lambda>base.
           let (offset_addr, address) = access_address index add base imm32;
               address = (ucast address :: u64);
               moved = as_int32 (ucast offset_addr - ucast base);
               wb_ctx = (if Rn = 13 then (eContextAdjustStackPointer, ImmediateSigned moved)
                         else if Rn = GetFramePointerRegisterNumber E s
                         then (eContextSetFramePointer, RegisterPlusOffset Rn moved)
                         else (eContextAdjustBaseRegister, RegisterPlusOffset Rn moved));
               ctx = (eContextRegisterLoad, RegisterPlusOffset Rn moved)
           in check (write_back E wback wb_ctx Rn (ucast offset_addr) s) (\<lambda>s.
                need (MemURead E ctx address 4 s) s (\<lambda>data.
                  if Rt = 15 then
                    if Bits32 (ucast address) 1 0 = 0 then Some (LoadWritePC E ctx (ucast data) s) else
                      fails s
                  else if UnalignedSupport s \<or> Bits32 (ucast address) 1 0 = 0 then
                    Some (WriteRegisterUnsigned E ctx eRegisterKindDWARF Rt (ucast (ucast data :: u32))
                      s)
                  else succeeds (snd (WriteBits32Unknown E Rt s))))))
       in case encoding of
           eEncodingT1 \<Rightarrow>
             let Rt = Bits32 opcode 2 0; Rn = Bits32 opcode 5 3; imm32 = push_bit 2 (Bits32 opcode 10 6)
             in op Rt Rn imm32 True True False
         | eEncodingT2 \<Rightarrow>
             let Rt = Bits32 opcode 10 8; imm32 = push_bit 2 (Bits32 opcode 7 0)
             in op Rt 13 imm32 True True False
         | eEncodingT3 \<Rightarrow>
             let Rt = Bits32 opcode 15 12; Rn = Bits32 opcode 19 16; imm32 = Bits32 opcode 11 0
             in if Rt = 15 \<and> InITBlock s \<and> \<not> LastInITBlock s then fails s
                else op Rt Rn imm32 True True False
         | eEncodingT4 \<Rightarrow>
             let Rt = Bits32 opcode 15 12; Rn = Bits32 opcode 19 16; imm32 = Bits32 opcode 7 0;
                 index = is_set opcode 10; add = is_set opcode 9; wback = is_set opcode 8
             in if is_clear opcode 10 \<and> is_clear opcode 8 then fails s
                else if wback \<and> Rn = Rt \<or> Rt = 15 \<and> InITBlock s \<and> \<not> LastInITBlock s then fails s
                else op Rt Rn imm32 index add wback
         | _ \<Rightarrow> fails s
     else succeeds s)"

text \<open>What \<open>EmulateLDRImmediateARM\<close> and \<open>EmulateLDRRegister\<close> do with the word they have read; before ARMv7
  an unaligned word is rotated by the two lowest bits of the address.\<close>

definition loaded_word ::
  "'s arm_env \<Rightarrow> access_context \<Rightarrow> u32 \<Rightarrow> u64 \<Rightarrow> u64 \<Rightarrow> bool \<Rightarrow> 's arm \<Rightarrow> 's emulated" where
  "loaded_word E ctx t address data rotates s =
     (if t = 15 then
        if BitIsClear address 1 \<and> BitIsClear address 0
        then succeeds (snd (LoadWritePC E ctx (ucast data) s)) else fails s
      else if UnalignedSupport s \<or> BitIsClear address 1 \<and> BitIsClear address 0 then
        Some (WriteRegisterUnsigned E ctx eRegisterKindDWARF t data s)
      else if rotates then
        do { rotated \<leftarrow> ROR (ucast data) (Bits32 (ucast address) 1 0);
             need rotated s (\<lambda>data.
               Some (WriteRegisterUnsigned E (eContextRegisterLoad, Immediate (ucast data))
                       eRegisterKindDWARF t (ucast data) s)) }
      else succeeds (snd (WriteBits32Unknown E t s)))"

definition EmulateLDRImmediateARM ::
  "'s arm_env \<Rightarrow> u32 \<Rightarrow> arm_encoding \<Rightarrow> 's arm \<Rightarrow> 's emulated" where
  "EmulateLDRImmediateARM E opcode encoding s =
     (if ConditionPassed opcode s then
       let op = (\<lambda>t n imm32 index add wback.
         need (ReadCoreReg E n s) s (\<lambda>base.
           let base_address = (ucast base :: u64);
               (offset_addr, address) = access_address index add base_address (ucast (imm32 :: u32));
               ctx = (eContextRegisterLoad, RegisterPlusOffset n (address - base_address))
           in need (MemURead E ctx address (ae_addr_size E) s) s (\<lambda>data.
                check (write_back E wback (eContextAdjustBaseRegister, Address offset_addr) n
                  offset_addr s)
                  (loaded_word E ctx t address data True))))
       in case encoding of
           eEncodingA1 \<Rightarrow>
             let t = Bits32 opcode 15 12; n = Bits32 opcode 19 16; imm32 = Bits32 opcode 11 0;
                 index = is_set opcode 24; add = is_set opcode 23;
                 wback = (is_clear opcode 24 \<or> is_set opcode 21)
             in if wback \<and> n = t then fails s
                else op t n imm32 index add wback
         | _ \<Rightarrow> fails s
     else succeeds s)"

definition EmulateLDRRegister ::
  "'s arm_env \<Rightarrow> u32 \<Rightarrow> arm_encoding \<Rightarrow> 's arm \<Rightarrow> 's emulated" where
  "EmulateLDRRegister E opcode encoding s =
     (if ConditionPassed opcode s then
       let op = (\<lambda>t n m shift_t shift_n index add wback.
         need (ReadRegisterUnsigned E eRegisterKindDWARF m s) s (\<lambda>Rm.
           need (ReadRegisterUnsigned E eRegisterKindDWARF n s) s (\<lambda>Rn.
           do { shift \<leftarrow> Shift (ae_llvm E) (ucast Rm) shift_t shift_n (Bit32 (am_cpsr s) (unat (APSR_C
             s)));
                need shift s (\<lambda>offset.
                  let base = (ucast (ucast Rn :: u32) :: u64);
                      (offset_addr, address) = access_address index add base (ucast offset);
                      ctx = (eContextRegisterLoad, RegisterPlusOffset n (address - base))
                  in need (MemURead E ctx address (ae_addr_size E) s) s (\<lambda>data.
                       check (write_back E wback (eContextAdjustBaseRegister, Address offset_addr) n
                         offset_addr s)
                         (\<lambda>s. loaded_word E ctx t address data (CurrentInstrSet s = eModeARM) s))) })))
       in case encoding of
           eEncodingT1 \<Rightarrow>
             let t = Bits32 opcode 2 0; n = Bits32 opcode 5 3; m = Bits32 opcode 8 6
             in op t n m SRType_LSL 0 True True False
         | eEncodingT2 \<Rightarrow>
             let t = Bits32 opcode 15 12; n = Bits32 opcode 19 16; m = Bits32 opcode 3 0;
                 shift_n = Bits32 opcode 5 4
             in if BadReg m then fails s
                else if t = 15 \<and> InITBlock s \<and> \<not> LastInITBlock s then fails s
                else op t n m SRType_LSL shift_n True True False
         | eEncodingA1 \<Rightarrow>
             let t = Bits32 opcode 15 12; n = Bits32 opcode 19 16; m = Bits32 opcode 3 0;
                 index = is_set opcode 24; add = is_set opcode 23;
                 wback = (is_clear opcode 24 \<or> is_set opcode 21);
                 (shift_n, shift_t) = DecodeImmShift (Bits32 opcode 6 5) (Bits32 opcode 11 7)
             in if m = 15 then fails s
                else if wback \<and> (n = 15 \<or> n = t) then fails s
                else op t n m shift_t shift_n index add wback
         | _ \<Rightarrow> fails s
     else succeeds s)"

definition EmulateLDRDImmediate ::
  "'s arm_env \<Rightarrow> u32 \<Rightarrow> arm_encoding \<Rightarrow> 's arm \<Rightarrow> 's emulated" where
  "EmulateLDRDImmediate E opcode encoding s =
     (if ConditionPassed opcode s then
       let op = (\<lambda>t t2 n imm32 index add wback.
         need (ReadCoreReg E n s) s (\<lambda>Rn.
           let (offset_addr, address) = access_address index add Rn imm32;
               address = (ucast address :: u64);
               ct = (if n = 13 then eContextPopRegisterOffStack else eContextRegisterLoad)
           in need (MemARead E (ct, Address address) address (ae_addr_size E) s) s (\<lambda>data.
                check (WriteRegisterUnsigned E (ct, Address address) eRegisterKindDWARF t
                    (ucast (ucast data :: u32)) s) (\<lambda>s.
                  need (MemARead E (ct, Address (address + 4)) (address + 4) (ae_addr_size E) s) s
                    (\<lambda>data.
                    check (WriteRegisterUnsigned E (ct, Address (address + 4)) eRegisterKindDWARF t2
                        (ucast (ucast data :: u32)) s) (\<lambda>s.
                      Some (write_back E wback (eContextAdjustBaseRegister, Address (ucast offset_addr))
                        n (ucast offset_addr) s)))))))
       in case encoding of
           eEncodingT1 \<Rightarrow>
             let t = Bits32 opcode 15 12; t2 = Bits32 opcode 11 8; n = Bits32 opcode 19 16;
                 imm32 = push_bit 2 (Bits32 opcode 7 0); index = is_set opcode 24;
                 add = is_set opcode 23; wback = is_set opcode 21
             in if wback \<and> (n = t \<or> n = t2) then fails s
                else if BadReg t \<or> BadReg t2 \<or> t = t2 then fails s
                else op t t2 n imm32 index add wback
         | eEncodingA1 \<Rightarrow>
             let t = Bits32 opcode 15 12; t2 = t + 1; n = Bits32 opcode 19 16;
                 imm32 = (push_bit 4 (Bits32 opcode 11 8) OR Bits32 opcode 3 0);
                 index = is_set opcode 24; add = is_set opcode 23;
                 wback = (is_clear opcode 24 \<or> is_set opcode 21)
             in if is_set t 0 then fails s
                else if is_clear opcode 24 \<and> is_set opcode 21 then fails s
                else if wback \<and> (n = t \<or> n = t2) then fails s
                else if t2 = 15 then fails s
                else op t t2 n imm32 index add wback
         | _ \<Rightarrow> fails s
     else succeeds s)"

definition EmulateLDRDRegister ::
  "'s arm_env \<Rightarrow> u32 \<Rightarrow> arm_encoding \<Rightarrow> 's arm \<Rightarrow> 's emulated" where
  "EmulateLDRDRegister E opcode encoding s =
     (if ConditionPassed opcode s then
       let op = (\<lambda>t t2 n m index add wback.
         need (ReadCoreReg E n s) s (\<lambda>Rn. need (ReadCoreReg E m s) s (\<lambda>Rm.
           let (offset_addr, address) = access_address index add Rn Rm;
               address = (ucast address :: u64);
               ctx = (if n = 13 then eContextPopRegisterOffStack else eContextRegisterLoad, Address
                 address)
           in need (MemARead E ctx address (ae_addr_size E) s) s (\<lambda>data.
                check (WriteRegisterUnsigned E ctx eRegisterKindDWARF t (ucast (ucast data :: u32)) s)
                  (\<lambda>s.
                  need (MemARead E ctx (address + 4) (ae_addr_size E) s) s (\<lambda>data.
                    check (WriteRegisterUnsigned E ctx eRegisterKindDWARF t2 (ucast (ucast data :: u32))
                      s) (\<lambda>s.
                      Some (write_back E wback (eContextAdjustBaseRegister, Address (ucast offset_addr))
                        n (ucast offset_addr) s))))))))
       in case encoding of
           eEncodingA1 \<Rightarrow>
             let t = Bits32 opcode 15 12; t2 = t + 1; n = Bits32 opcode 19 16; m = Bits32 opcode 3 0;
                 index = is_set opcode 24; add = is_set opcode 23;
                 wback = (is_clear opcode 24 \<or> is_set opcode 21)
             in if is_set t 0 then fails s
                else if is_clear opcode 24 \<and> is_set opcode 21 then fails s
                else if t2 = 15 \<or> m = 15 \<or> m = t \<or> m = t2 then fails s
                else if wback \<and> (n = 15 \<or> n = t \<or> n = t2) then fails s
                else if ArchVersion s < 6 \<and> wback \<and> m = n then fails s
                else op t t2 n m index add wback
         | _ \<Rightarrow> fails s
     else succeeds s)"

section \<open>Loads of bytes and half-words\<close>

definition EmulateLDRBLiteral ::
  "'s arm_env \<Rightarrow> u32 \<Rightarrow> arm_encoding \<Rightarrow> 's arm \<Rightarrow> 's emulated" where
  "EmulateLDRBLiteral E opcode encoding s =
     (if ConditionPassed opcode s then
       let op = (\<lambda>t imm32 add.
         need (ReadCoreReg E PC_REG s) s (\<lambda>pc_val.
           let base = pc_val AND 0xFFFFFFFC;
               address = (ucast (if add then base + imm32 else base - imm32) :: u64);
               ctx = (eContextRelativeBranchImmediate, Immediate (address - ucast base))
           in need (MemURead E ctx address 1 s) s (\<lambda>data.
                Some (WriteRegisterUnsigned E ctx eRegisterKindDWARF t data s))))
       in case encoding of
           eEncodingT1 \<Rightarrow>
             let t = Bits32 opcode 15 12; imm32 = Bits32 opcode 11 0; add = is_set opcode 23
             in if t = 15 then fails s
                else if t = 13 then fails s
                else op t imm32 add
         | eEncodingA1 \<Rightarrow>
             let t = Bits32 opcode 15 12; imm32 = Bits32 opcode 11 0; add = is_set opcode 23
             in if t = 15 then fails s
                else op t imm32 add
         | _ \<Rightarrow> fails s
     else succeeds s)"

definition EmulateLDRBImmediate ::
  "'s arm_env \<Rightarrow> u32 \<Rightarrow> arm_encoding \<Rightarrow> 's arm \<Rightarrow> 's emulated" where
  "EmulateLDRBImmediate E opcode encoding s =
     (if ConditionPassed opcode s then
       let op = (\<lambda>t n imm32 index add wback.
         need (ReadRegisterUnsigned E eRegisterKindDWARF n s) s (\<lambda>Rn.
           let base = (ucast Rn :: u32);
               (offset_addr, address) = access_address index add base imm32;
               address = (ucast address :: u64);
               ctx = (eContextRegisterLoad, RegisterToRegisterPlusOffset t n (address - ucast base))
           in need (MemURead E ctx address 1 s) s (\<lambda>data.
                check (WriteRegisterUnsigned E ctx eRegisterKindDWARF t data s) (\<lambda>s.
                  Some (write_back E wback (eContextAdjustBaseRegister, Address (ucast offset_addr))
                    n (ucast offset_addr) s)))))
       in case encoding of
           eEncodingT1 \<Rightarrow>
             let t = Bits32 opcode 2 0; n = Bits32 opcode 5 3; imm32 = Bits32 opcode 10 6
             in op t n imm32 True True False
         | eEncodingT2 \<Rightarrow>
             let t = Bits32 opcode 15 12; n = Bits32 opcode 19 16; imm32 = Bits32 opcode 11 0
             in if t = 15 then fails s
                else if n = 15 then EmulateLDRBLiteral E opcode eEncodingT1 s
                else if t = 13 then fails s
                else op t n imm32 True True False
         | eEncodingT3 \<Rightarrow>
             let t = Bits32 opcode 15 12; n = Bits32 opcode 19 16; imm32 = Bits32 opcode 7 0;
                 index = is_set opcode 10; add = is_set opcode 9; wback = is_set opcode 8
             in if is_clear opcode 10 \<and> is_clear opcode 8 then fails s
                else if t = 15 then fails s
                else if n = 15 then EmulateLDRBLiteral E opcode eEncodingT1 s
                else if BadReg t \<or> wback \<and> n = t then fails s
                else op t n imm32 index add wback
         | _ \<Rightarrow> fails s
     else succeeds s)"

definition EmulateLDRBRegister ::
  "'s arm_env \<Rightarrow> u32 \<Rightarrow> arm_encoding \<Rightarrow> 's arm \<Rightarrow> 's emulated" where
  "EmulateLDRBRegister E opcode encoding s =
     (if ConditionPassed opcode s then
       let op = (\<lambda>t n m shift_t shift_n index add wback.
         need (ReadRegisterUnsigned E eRegisterKindDWARF m s) s (\<lambda>Rm.
           do { shift \<leftarrow> Shift (ae_llvm E) (ucast Rm) shift_t shift_n (APSR_C s);
                need shift s (\<lambda>offset.
                  need (ReadRegisterUnsigned E eRegisterKindDWARF n s) s (\<lambda>Rn.
                    let base = (ucast (ucast Rn :: u32) :: u64);
                        (offset_addr, address) = access_address index add base (ucast offset);
                        ctx = (eContextRegisterLoad, RegisterPlusOffset n (address - base))
                    in need (MemURead E ctx address 1 s) s (\<lambda>data.
                         check (WriteRegisterUnsigned E ctx eRegisterKindDWARF t data s) (\<lambda>s.
                           Some (write_back E wback (eContextAdjustBaseRegister, Address offset_addr)
                             n offset_addr s))))) }))
       in case encoding of
           eEncodingT1 \<Rightarrow>
             let t = Bits32 opcode 2 0; n = Bits32 opcode 5 3; m = Bits32 opcode 8 6
             in op t n m SRType_LSL 0 True True False
         | eEncodingT2 \<Rightarrow>
             let t = Bits32 opcode 15 12; n = Bits32 opcode 19 16; m = Bits32 opcode 3 0;
                 shift_n = Bits32 opcode 5 4
             in if t = 15 then fails s
                else if n = 15 then EmulateLDRBLiteral E opcode eEncodingT1 s
                else if t = 13 \<or> BadReg m then fails s
                else op t n m SRType_LSL shift_n True True False
         | eEncodingA1 \<Rightarrow>
             let t = Bits32 opcode 15 12; n = Bits32 opcode 19 16; m = Bits32 opcode 3 0;
                 index = is_set opcode 24; add = is_set opcode 23;
                 wback = (is_clear opcode 24 \<or> is_set opcode 21);
                 (shift_n, shift_t) = DecodeImmShift (Bits32 opcode 6 5) (Bits32 opcode 11 7)
             in if t = 15 \<or> m = 15 then fails s
                else if wback \<and> (n = 15 \<or> n = t) then fails s
                else op t n m shift_t shift_n index add wback
         | _ \<Rightarrow> fails s
     else succeeds s)"

text \<open>What the loads of half-words do with what they have read.\<close>

definition loaded_half ::
  "'s arm_env \<Rightarrow> access_context \<Rightarrow> u32 \<Rightarrow> u64 \<Rightarrow> u64 \<Rightarrow> 's arm \<Rightarrow> 's emulated" where
  "loaded_half E ctx t address data s =
     (if UnalignedSupport s \<or> BitIsClear address 0
      then Some (WriteRegisterUnsigned E ctx eRegisterKindDWARF t data s)
      else succeeds (snd (WriteBits32Unknown E t s)))"

definition EmulateLDRHImmediate ::
  "'s arm_env \<Rightarrow> u32 \<Rightarrow> arm_encoding \<Rightarrow> 's arm \<Rightarrow> 's emulated" where
  "EmulateLDRHImmediate E opcode encoding s =
     (if ConditionPassed opcode s then
       let op = (\<lambda>t n imm32 index add wback.
         need (ReadRegisterUnsigned E eRegisterKindDWARF n s) s (\<lambda>Rn.
           let base = (ucast Rn :: u32);
               (offset_addr, address) = access_address index add base imm32;
               address = (ucast address :: u64);
               ctx = (eContextRegisterLoad, RegisterPlusOffset n (address - ucast base))
           in need (MemURead E ctx address 2 s) s (\<lambda>data.
                check (write_back E wback (eContextAdjustBaseRegister, Address (ucast offset_addr))
                    n (ucast offset_addr) s) (loaded_half E ctx t address data))))
       in case encoding of
           eEncodingT1 \<Rightarrow>
             let t = Bits32 opcode 2 0; n = Bits32 opcode 5 3; imm32 = push_bit 1 (Bits32 opcode 10 6)
             in op t n imm32 True True False
         | eEncodingT2 \<Rightarrow>
             let t = Bits32 opcode 15 12; n = Bits32 opcode 19 16; imm32 = Bits32 opcode 11 0
             in if t = 13 then fails s
                else op t n imm32 True True False
         | eEncodingT3 \<Rightarrow>
             let t = Bits32 opcode 15 12; n = Bits32 opcode 19 16; imm32 = Bits32 opcode 7 0;
                 index = is_set opcode 10; add = is_set opcode 9; wback = is_set opcode 8
             in if is_clear opcode 10 \<and> is_clear opcode 8 then fails s
                else if BadReg t \<or> wback \<and> n = t then fails s
                else op t n imm32 index add wback
         | _ \<Rightarrow> fails s
     else succeeds s)"

definition EmulateLDRHLiteral ::
  "'s arm_env \<Rightarrow> u32 \<Rightarrow> arm_encoding \<Rightarrow> 's arm \<Rightarrow> 's emulated" where
  "EmulateLDRHLiteral E opcode encoding s =
     (if ConditionPassed opcode s then
       let op = (\<lambda>t imm32 add.
         need (ReadCoreReg E PC_REG s) s (\<lambda>pc_value.
           let base = (ucast pc_value AND 0xFFFFFFFC :: u64);
               address = (if add then base + ucast (imm32 :: u32) else base - ucast imm32);
               ctx = (eContextRegisterLoad, RegisterPlusOffset 15 (address - base))
           in need (MemURead E ctx address 2 s) s (\<lambda>data. loaded_half E ctx t address data s)))
       in case encoding of
           eEncodingT1 \<Rightarrow>
             let t = Bits32 opcode 15 12; imm32 = Bits32 opcode 11 0; add = is_set opcode 23
             in if t = 13 then fails s
                else op t imm32 add
         | eEncodingA1 \<Rightarrow>
             let t = Bits32 opcode 15 12; imm32 = (push_bit 4 (Bits32 opcode 11 8) OR Bits32 opcode 3 0);
                 add = is_set opcode 23
             in if t = 15 then fails s
                else op t imm32 add
         | _ \<Rightarrow> fails s
     else succeeds s)"

definition EmulateLDRHRegister ::
  "'s arm_env \<Rightarrow> u32 \<Rightarrow> arm_encoding \<Rightarrow> 's arm \<Rightarrow> 's emulated" where
  "EmulateLDRHRegister E opcode encoding s =
     (if ConditionPassed opcode s then
       let op = (\<lambda>t n m shift_n index add wback.
         need (ReadRegisterUnsigned E eRegisterKindDWARF m s) s (\<lambda>Rm.
           do { shift \<leftarrow> Shift (ae_llvm E) (ucast Rm) SRType_LSL shift_n (APSR_C s);
                need shift s (\<lambda>offset.
                  need (ReadRegisterUnsigned E eRegisterKindDWARF n s) s (\<lambda>Rn.
                    let (offset_addr, address) = access_address index add Rn (ucast offset);
                        ctx = (eContextRegisterLoad, RegisterPlusIndirectOffset n m)
                    in need (MemURead E ctx address 2 s) s (\<lambda>data.
                         check (write_back E wback (eContextAdjustBaseRegister, Address offset_addr)
                             n offset_addr s) (loaded_half E ctx t address data)))) }))
       in case encoding of
           eEncodingT1 \<Rightarrow>
             let t = Bits32 opcode 2 0; n = Bits32 opcode 5 3; m = Bits32 opcode 8 6
             in op t n m 0 True True False
         | eEncodingT2 \<Rightarrow>
             let t = Bits32 opcode 15 12; n = Bits32 opcode 19 16; m = Bits32 opcode 3 0;
                 shift_n = Bits32 opcode 5 4
             in if t = 13 \<or> BadReg m then fails s
                else op t n m shift_n True True False
         | eEncodingA1 \<Rightarrow>
             let t = Bits32 opcode 15 12; n = Bits32 opcode 19 16; m = Bits32 opcode 3 0;
                 index = is_set opcode 24; add = is_set opcode 23;
                 wback = (is_clear opcode 24 \<or> is_set opcode 21)
             in if t = 15 \<or> m = 15 then fails s
                else if wback \<and> (n = 15 \<or> n = t) then fails s
                else op t n m 0 index add wback
         | _ \<Rightarrow> fails s
     else succeeds s)"

definition EmulateLDRSBImmediate ::
  "'s arm_env \<Rightarrow> u32 \<Rightarrow> arm_encoding \<Rightarrow> 's arm \<Rightarrow> 's emulated" where
  "EmulateLDRSBImmediate E opcode encoding s =
     (if ConditionPassed opcode s then
       let op = (\<lambda>t n imm32 index add wback.
         need (ReadCoreReg E n s) s (\<lambda>base.
           let Rn = (ucast base :: u64);
               (offset_addr, address) = access_address index add Rn (ucast (imm32 :: u32));
               ctx = (eContextRegisterLoad, RegisterPlusOffset n (address - Rn))
           in need (MemURead E ctx address 1 s) s (\<lambda>unsigned_data.
                check (WriteRegisterUnsigned E ctx eRegisterKindDWARF t
                    (lv_SignExtend64 (ae_llvm E) 8 unsigned_data) s) (\<lambda>s.
                  Some (write_back E wback (eContextAdjustBaseRegister, Address offset_addr)
                    n offset_addr s)))))
       in case encoding of
           eEncodingT1 \<Rightarrow>
             let t = Bits32 opcode 15 12; n = Bits32 opcode 19 16; imm32 = Bits32 opcode 11 0
             in if t = 13 then fails s
                else op t n imm32 True True False
         | eEncodingT2 \<Rightarrow>
             let t = Bits32 opcode 15 12; n = Bits32 opcode 19 16; imm32 = Bits32 opcode 7 0;
                 index = is_set opcode 10; add = is_set opcode 9; wback = is_set opcode 8
             in if is_clear opcode 10 \<and> is_clear opcode 8 then fails s
                else if (t = 13 \<or> t = 15 \<and> (is_clear opcode 10 \<or> is_set opcode 9 \<or> is_set opcode 8))
                  \<or> wback \<and> n = t then fails s
                else op t n imm32 index add wback
         | eEncodingA1 \<Rightarrow>
             let t = Bits32 opcode 15 12; n = Bits32 opcode 19 16;
                 imm32 = (push_bit 4 (Bits32 opcode 11 8) OR Bits32 opcode 3 0);
                 index = is_set opcode 24; add = is_set opcode 23;
                 wback = (is_clear opcode 24 \<or> is_set opcode 21)
             in if t = 15 \<or> wback \<and> n = t then fails s
                else op t n imm32 index add wback
         | _ \<Rightarrow> fails s
     else succeeds s)"

definition EmulateLDRSBLiteral ::
  "'s arm_env \<Rightarrow> u32 \<Rightarrow> arm_encoding \<Rightarrow> 's arm \<Rightarrow> 's emulated" where
  "EmulateLDRSBLiteral E opcode encoding s =
     (if ConditionPassed opcode s then
       let op = (\<lambda>t imm32 add.
         need (ReadCoreReg E PC_REG s) s (\<lambda>pc_value.
           let base = (ucast pc_value AND 0xFFFFFFFC :: u64);
               address = (if add then base + ucast (imm32 :: u32) else base - ucast imm32);
               ctx = (eContextRegisterLoad, RegisterPlusOffset 15 (address - base))
           in need (MemURead E ctx address 1 s) s (\<lambda>unsigned_data.
                Some (WriteRegisterUnsigned E ctx eRegisterKindDWARF t
                  (lv_SignExtend64 (ae_llvm E) 8 unsigned_data) s))))
       in case encoding of
           eEncodingT1 \<Rightarrow>
             let t = Bits32 opcode 15 12; imm32 = Bits32 opcode 11 0; add = is_set opcode 23
             in if t = 13 then fails s
                else op t imm32 add
         | eEncodingA1 \<Rightarrow>
             let t = Bits32 opcode 15 12; imm32 = (push_bit 4 (Bits32 opcode 11 8) OR Bits32 opcode 3 0);
                 add = is_set opcode 23
             in if t = 15 then fails s
                else op t imm32 add
         | _ \<Rightarrow> fails s
     else succeeds s)"

definition EmulateLDRSBRegister ::
  "'s arm_env \<Rightarrow> u32 \<Rightarrow> arm_encoding \<Rightarrow> 's arm \<Rightarrow> 's emulated" where
  "EmulateLDRSBRegister E opcode encoding s =
     (if ConditionPassed opcode s then
       let op = (\<lambda>t n m shift_n index add wback.
         need (ReadRegisterUnsigned E eRegisterKindDWARF m s) s (\<lambda>Rm.
           do { shift \<leftarrow> Shift (ae_llvm E) (ucast Rm) SRType_LSL shift_n (APSR_C s);
                need shift s (\<lambda>offset.
                  need (ReadRegisterUnsigned E eRegisterKindDWARF n s) s (\<lambda>Rn.
                    let (offset_addr, address) = access_address index add Rn (ucast offset);
                        ctx = (eContextRegisterLoad, RegisterPlusIndirectOffset n m)
                    in need (MemURead E ctx address 1 s) s (\<lambda>unsigned_data.
                         check (WriteRegisterUnsigned E ctx eRegisterKindDWARF t
                             (lv_SignExtend64 (ae_llvm E) 8 unsigned_data) s) (\<lambda>s.
                           Some (write_back E wback (eContextAdjustBaseRegister, Address offset_addr)
                             n offset_addr s))))) }))
       in case encoding of
           eEncodingT1 \<Rightarrow>
             let t = Bits32 opcode 2 0; n = Bits32 opcode 5 3; m = Bits32 opcode 8 6
             in op t n m 0 True True False
         | eEncodingT2 \<Rightarrow>
             let t = Bits32 opcode 15 12; n = Bits32 opcode 19 16; m = Bits32 opcode 3 0;
                 shift_n = Bits32 opcode 5 4
             in if t = 13 \<or> BadReg m then fails s
                else op t n m shift_n True True False
         | eEncodingA1 \<Rightarrow>
             let t = Bits32 opcode 15 12; n = Bits32 opcode 19 16; m = Bits32 opcode 3 0;
                 index = is_set opcode 24; add = is_set opcode 23;
                 wback = (is_clear opcode 24 \<or> is_set opcode 21)
             in if t = 15 \<or> m = 15 then fails s
                else if wback \<and> (n = 15 \<or> n = t) then fails s
                else op t n m 0 index add wback
         | _ \<Rightarrow> fails s
     else succeeds s)"

definition EmulateLDRSHImmediate ::
  "'s arm_env \<Rightarrow> u32 \<Rightarrow> arm_encoding \<Rightarrow> 's arm \<Rightarrow> 's emulated" where
  "EmulateLDRSHImmediate E opcode encoding s =
     (if ConditionPassed opcode s then
       let op = (\<lambda>t n imm32 index add wback.
         need (ReadRegisterUnsigned E eRegisterKindDWARF n s) s (\<lambda>Rn.
           let (offset_addr, address) = access_address index add Rn (ucast (imm32 :: u32));
               ctx = (eContextRegisterLoad, RegisterPlusOffset n (address - Rn))
           in need (MemURead E ctx address 2 s) s (\<lambda>data.
                check (write_back E wback (eContextAdjustBaseRegister, Address offset_addr) n
                  offset_addr s)
                  (loaded_half E ctx t address (lv_SignExtend64 (ae_llvm E) 16 data)))))
       in case encoding of
           eEncodingT1 \<Rightarrow>
             let t = Bits32 opcode 15 12; n = Bits32 opcode 19 16; imm32 = Bits32 opcode 11 0
             in if t = 13 then fails s
                else op t n imm32 True True False
         | eEncodingT2 \<Rightarrow>
             let t = Bits32 opcode 15 12; n = Bits32 opcode 19 16; imm32 = Bits32 opcode 7 0;
                 index = is_set opcode 10; add = is_set opcode 9; wback = is_set opcode 8
             in if is_clear opcode 10 \<and> is_clear opcode 8 then fails s
                else if BadReg t \<or> wback \<and> n = t then fails s
                else op t n imm32 index add wback
         | eEncodingA1 \<Rightarrow>
             let t = Bits32 opcode 15 12; n = Bits32 opcode 19 16;
                 imm32 = (push_bit 4 (Bits32 opcode 11 8) OR Bits32 opcode 3 0);
                 index = is_set opcode 24; add = is_set opcode 23;
                 wback = (is_clear opcode 24 \<or> is_set opcode 21)
             in if t = 15 \<or> wback \<and> n = t then fails s
                else op t n imm32 index add wback
         | _ \<Rightarrow> fails s
     else succeeds s)"

definition EmulateLDRSHLiteral ::
  "'s arm_env \<Rightarrow> u32 \<Rightarrow> arm_encoding \<Rightarrow> 's arm \<Rightarrow> 's emulated" where
  "EmulateLDRSHLiteral E opcode encoding s =
     (if ConditionPassed opcode s then
       let op = (\<lambda>t imm32 add.
         need (ReadCoreReg E PC_REG s) s (\<lambda>pc_value.
           let base = (ucast pc_value AND 0xFFFFFFFC :: u64);
               address = (if add then base + ucast (imm32 :: u32) else base - ucast imm32);
               ctx = (eContextRegisterLoad, RegisterPlusOffset 15 (ucast imm32))
           in need (MemURead E ctx address 2 s) s (\<lambda>data.
                loaded_half E ctx t address (lv_SignExtend64 (ae_llvm E) 16 data) s)))
       in case encoding of
           eEncodingT1 \<Rightarrow>
             let t = Bits32 opcode 15 12; imm32 = Bits32 opcode 11 0; add = is_set opcode 23
             in if t = 13 then fails s
                else op t imm32 add
         | eEncodingA1 \<Rightarrow>
             let t = Bits32 opcode 15 12; imm32 = (push_bit 4 (Bits32 opcode 11 8) OR Bits32 opcode 3 0);
                 add = is_set opcode 23
             in if t = 15 then fails s
                else op t imm32 add
         | _ \<Rightarrow> fails s
     else succeeds s)"

definition EmulateLDRSHRegister ::
  "'s arm_env \<Rightarrow> u32 \<Rightarrow> arm_encoding \<Rightarrow> 's arm \<Rightarrow> 's emulated" where
  "EmulateLDRSHRegister E opcode encoding s =
     (if ConditionPassed opcode s then
       let op = (\<lambda>t n m shift_n index add wback.
         need (ReadRegisterUnsigned E eRegisterKindDWARF m s) s (\<lambda>Rm.
           need (ReadRegisterUnsigned E eRegisterKindDWARF n s) s (\<lambda>Rn.
           do { shift \<leftarrow> Shift (ae_llvm E) (ucast Rm) SRType_LSL shift_n (APSR_C s);
                need shift s (\<lambda>offset.
                  let (offset_addr, address) = access_address index add Rn (ucast offset);
                      ctx = (eContextRegisterLoad, RegisterPlusIndirectOffset n m)
                  in need (MemURead E ctx address 2 s) s (\<lambda>data.
                       check (write_back E wback (eContextAdjustBaseRegister, Address offset_addr)
                           n offset_addr s) (loaded_half E ctx t address (lv_SignExtend64 (ae_llvm E) 16
                             data)))) })))
       in case encoding of
           eEncodingT1 \<Rightarrow>
             let t = Bits32 opcode 2 0; n = Bits32 opcode 5 3; m = Bits32 opcode 8 6
             in op t n m 0 True True False
         | eEncodingT2 \<Rightarrow>
             let t = Bits32 opcode 15 12; n = Bits32 opcode 19 16; m = Bits32 opcode 3 0;
                 shift_n = Bits32 opcode 5 4
             in if t = 13 \<or> BadReg m then fails s
                else op t n m shift_n True True False
         | eEncodingA1 \<Rightarrow>
             let t = Bits32 opcode 15 12; n = Bits32 opcode 19 16; m = Bits32 opcode 3 0;
                 index = is_set opcode 24; add = is_set opcode 23;
                 wback = (is_clear opcode 24 \<or> is_set opcode 21)
             in if t = 15 \<or> m = 15 then fails s
                else if wback \<and> (n = 15 \<or> n = t) then fails s
                else op t n m 0 index add wback
         | _ \<Rightarrow> fails s
     else succeeds s)"

section \<open>Extensions\<close>

definition EmulateSXTB ::
  "'s arm_env \<Rightarrow> u32 \<Rightarrow> arm_encoding \<Rightarrow> 's arm \<Rightarrow> 's emulated" where
  "EmulateSXTB E opcode encoding s =
     (if ConditionPassed opcode s then
       let op = (\<lambda>d m rotation.
         need (ReadRegisterUnsigned E eRegisterKindDWARF m s) s (\<lambda>Rm.
           do { r \<leftarrow> ROR (ucast Rm) rotation;
                need r s (\<lambda>rotated.
                  Some (WriteRegisterUnsigned E (eContextRegisterLoad, Register m) eRegisterKindDWARF d
                    (lv_SignExtend64 (ae_llvm E) 8 (ucast rotated)) s)) }))
       in case encoding of
           eEncodingT1 \<Rightarrow>
             let d = Bits32 opcode 2 0; m = Bits32 opcode 5 3
             in op d m 0
         | eEncodingT2 \<Rightarrow>
             let d = Bits32 opcode 11 8; m = Bits32 opcode 3 0;
                 rotation = push_bit 3 (Bits32 opcode 5 4)
             in if BadReg d \<or> BadReg m then fails s
                else op d m rotation
         | eEncodingA1 \<Rightarrow>
             let d = Bits32 opcode 15 12; m = Bits32 opcode 3 0;
                 rotation = push_bit 3 (Bits32 opcode 11 10)
             in if d = 15 \<or> m = 15 then fails s
                else op d m rotation
         | _ \<Rightarrow> fails s
     else succeeds s)"

definition EmulateSXTH ::
  "'s arm_env \<Rightarrow> u32 \<Rightarrow> arm_encoding \<Rightarrow> 's arm \<Rightarrow> 's emulated" where
  "EmulateSXTH E opcode encoding s =
     (if ConditionPassed opcode s then
       let op = (\<lambda>d m rotation.
         need (ReadRegisterUnsigned E eRegisterKindDWARF m s) s (\<lambda>Rm.
           do { r \<leftarrow> ROR (ucast Rm) rotation;
                need r s (\<lambda>rotated.
                  Some (WriteRegisterUnsigned E (eContextRegisterLoad, Register m) eRegisterKindDWARF d
                    (lv_SignExtend64 (ae_llvm E) 16 (ucast rotated)) s)) }))
       in case encoding of
           eEncodingT1 \<Rightarrow>
             let d = Bits32 opcode 2 0; m = Bits32 opcode 5 3
             in op d m 0
         | eEncodingT2 \<Rightarrow>
             let d = Bits32 opcode 11 8; m = Bits32 opcode 3 0;
                 rotation = push_bit 3 (Bits32 opcode 5 4)
             in if BadReg d \<or> BadReg m then fails s
                else op d m rotation
         | eEncodingA1 \<Rightarrow>
             let d = Bits32 opcode 15 12; m = Bits32 opcode 3 0;
                 rotation = push_bit 3 (Bits32 opcode 11 10)
             in if d = 15 \<or> m = 15 then fails s
                else op d m rotation
         | _ \<Rightarrow> fails s
     else succeeds s)"

definition EmulateUXTB ::
  "'s arm_env \<Rightarrow> u32 \<Rightarrow> arm_encoding \<Rightarrow> 's arm \<Rightarrow> 's emulated" where
  "EmulateUXTB E opcode encoding s =
     (if ConditionPassed opcode s then
       let op = (\<lambda>d m rotation.
         need (ReadRegisterUnsigned E eRegisterKindDWARF m s) s (\<lambda>Rm.
           do { r \<leftarrow> ROR (ucast Rm) rotation;
                need r s (\<lambda>rotated.
                  Some (WriteRegisterUnsigned E (eContextRegisterLoad, Register m) eRegisterKindDWARF d
                    (ucast (Bits32 rotated 7 0)) s)) }))
       in case encoding of
           eEncodingT1 \<Rightarrow>
             let d = Bits32 opcode 2 0; m = Bits32 opcode 5 3
             in op d m 0
         | eEncodingT2 \<Rightarrow>
             let d = Bits32 opcode 11 8; m = Bits32 opcode 3 0;
                 rotation = push_bit 3 (Bits32 opcode 5 4)
             in if BadReg d \<or> BadReg m then fails s
                else op d m rotation
         | eEncodingA1 \<Rightarrow>
             let d = Bits32 opcode 15 12; m = Bits32 opcode 3 0;
                 rotation = push_bit 3 (Bits32 opcode 11 10)
             in if d = 15 \<or> m = 15 then fails s
                else op d m rotation
         | _ \<Rightarrow> fails s
     else succeeds s)"

definition EmulateUXTH ::
  "'s arm_env \<Rightarrow> u32 \<Rightarrow> arm_encoding \<Rightarrow> 's arm \<Rightarrow> 's emulated" where
  "EmulateUXTH E opcode encoding s =
     (if ConditionPassed opcode s then
       let op = (\<lambda>d m rotation.
         need (ReadRegisterUnsigned E eRegisterKindDWARF m s) s (\<lambda>Rm.
           do { r \<leftarrow> ROR (ucast Rm) rotation;
                need r s (\<lambda>rotated.
                  Some (WriteRegisterUnsigned E (eContextRegisterLoad, Register m) eRegisterKindDWARF d
                    (ucast (Bits32 rotated 15 0)) s)) }))
       in case encoding of
           eEncodingT1 \<Rightarrow>
             let d = Bits32 opcode 2 0; m = Bits32 opcode 5 3
             in op d m 0
         | eEncodingT2 \<Rightarrow>
             let d = Bits32 opcode 11 8; m = Bits32 opcode 3 0;
                 rotation = push_bit 3 (Bits32 opcode 5 4)
             in if BadReg d \<or> BadReg m then fails s
                else op d m rotation
         | eEncodingA1 \<Rightarrow>
             let d = Bits32 opcode 15 12; m = Bits32 opcode 3 0;
                 rotation = push_bit 3 (Bits32 opcode 11 10)
             in if d = 15 \<or> m = 15 then fails s
                else op d m rotation
         | _ \<Rightarrow> fails s
     else succeeds s)"

section \<open>Return from an exception\<close>

definition EmulateRFE ::
  "'s arm_env \<Rightarrow> u32 \<Rightarrow> arm_encoding \<Rightarrow> 's arm \<Rightarrow> 's emulated" where
  "EmulateRFE E opcode encoding s =
     (if ConditionPassed opcode s then
       let op = (\<lambda>n wback increment wordhigher.
         if \<not> CurrentModeIsPrivileged s then fails s
         else need (ReadRegisterUnsigned E eRegisterKindDWARF n s) s (\<lambda>Rn.
           let address = (if increment then Rn else Rn - 8);
               address = (if wordhigher then address + 4 else address);
               ctx = (eContextReturnFromException, RegisterPlusOffset n (address - Rn))
           in need (MemARead E ctx (address + 4) 4 s) s (\<lambda>data.
                let s = CPSRWriteByInstr (ucast data) 15 True s
                in need (MemARead E ctx address 4 s) s (\<lambda>data2.
                     let s = snd (BranchWritePC E ctx (ucast data2) s);
                         step = (if increment then 8 else - 8)
                     in Some (write_back E wback (eContextAdjustBaseRegister, Offset step) n (Rn + step)
                       s)))))
       in case encoding of
           eEncodingT1 \<Rightarrow>
             let n = Bits32 opcode 19 16; wback = is_set opcode 21
             in if n = 15 then fails s
                else if InITBlock s \<and> \<not> LastInITBlock s then fails s
                else op n wback False False
         | eEncodingT2 \<Rightarrow>
             let n = Bits32 opcode 19 16; wback = is_set opcode 21
             in if n = 15 then fails s
                else if InITBlock s \<and> \<not> LastInITBlock s then fails s
                else op n wback True False
         | eEncodingA1 \<Rightarrow>
             let n = Bits32 opcode 19 16; wback = is_set opcode 21; increment = is_set opcode 23;
                 wordhigher = (Bit32 opcode 24 = Bit32 opcode 23)
             in if n = 15 then fails s
                else op n wback increment wordhigher
         | _ \<Rightarrow> fails s
     else succeeds s)"

end
