(* ===== verification/ARMVector.thy ===== *)
theory ARMVector
  imports ARMLoadStore
begin

text \<open>
  The loads and stores of the floating-point and vector registers. A pair of words is one double
  register, in the order of the target's bytes.
\<close>

abbreviation (input) dwarf_s0 :: u32 where "dwarf_s0 \<equiv> 64"
abbreviation (input) dwarf_d0 :: u32 where "dwarf_d0 \<equiv> 256"

section \<open>The stack: VPUSH and VPOP\<close>

text \<open>The loops over the registers from \<open>reg\<close> on.\<close>

primrec vpush_loop ::
  "'s arm_env \<Rightarrow> nat \<Rightarrow> u32 \<Rightarrow> u64 \<Rightarrow> nat \<Rightarrow> u64 \<Rightarrow> 's arm \<Rightarrow> ('s arm \<Rightarrow> 's emulated) \<Rightarrow> 's emulated"
  where
  "vpush_loop E reg_byte_size reg sp 0 addr s k = k s"
| "vpush_loop E reg_byte_size reg sp (Suc regs) addr s k =
     need (ReadRegisterUnsigned E eRegisterKindDWARF reg s) s (\<lambda>reg_value.
       check (MemAWrite E (eContextPushRegisterOnStack, RegisterToRegisterPlusOffset reg 13 (addr - sp))
           addr reg_value reg_byte_size s)
         (\<lambda>s. vpush_loop E reg_byte_size (reg + 1) sp regs (addr + of_nat reg_byte_size) s k))"

primrec vpop_loop ::
  "'s arm_env \<Rightarrow> nat \<Rightarrow> u32 \<Rightarrow> nat \<Rightarrow> u64 \<Rightarrow> 's arm \<Rightarrow> ('s arm \<Rightarrow> 's emulated) \<Rightarrow> 's emulated"
  where
  "vpop_loop E reg_byte_size reg 0 addr s k = k s"
| "vpop_loop E reg_byte_size reg (Suc regs) addr s k =
     need (MemARead E (eContextPopRegisterOffStack, Address addr) addr reg_byte_size s) s (\<lambda>data.
       check (WriteRegisterUnsigned E (eContextPopRegisterOffStack, Address addr)
           eRegisterKindDWARF reg data s)
         (\<lambda>s. vpop_loop E reg_byte_size (reg + 1) regs (addr + of_nat reg_byte_size) s k))"

text \<open>The encodings: whether the registers are single, the first one, the offset and their number.\<close>

definition vpush_operands ::
  "'s arm_env \<Rightarrow> u32 \<Rightarrow> arm_encoding \<Rightarrow> (bool \<times> u32 \<times> u32 \<times> u32) option" where
  "vpush_operands E opcode encoding =
     (let imm32 = Bits32 opcode 7 0 * of_nat (ae_addr_size E)
      in if encoding \<in> {eEncodingT1, eEncodingA1} then
           let d = push_bit 4 (Bit32 opcode 22) OR Bits32 opcode 15 12; regs = Bits32 opcode 7 0 div 2
           in if regs = 0 \<or> regs > 16 \<or> d + regs > 32 then None else Some (False, d, imm32, regs)
         else if encoding \<in> {eEncodingT2, eEncodingA2} then
           let d = push_bit 1 (Bits32 opcode 15 12) OR Bit32 opcode 22; regs = Bits32 opcode 7 0
           in if regs = 0 \<or> regs > 16 \<or> d + regs > 32 then None else Some (True, d, imm32, regs)
         else None)"

definition EmulateVPUSH ::
  "'s arm_env \<Rightarrow> u32 \<Rightarrow> arm_encoding \<Rightarrow> 's arm \<Rightarrow> 's emulated" where
  "EmulateVPUSH E opcode encoding s =
     (if ConditionPassed opcode s then
       need (ReadCoreReg E SP_REG s) s (\<lambda>sp32.
       need (vpush_operands E opcode encoding) s (\<lambda>(single_regs, d, imm32, regs).
         let sp = (ucast sp32 :: u64); sp_offset = ucast imm32;
             start_reg = (if single_regs then dwarf_s0 else dwarf_d0);
             reg_byte_size = (if single_regs then ae_addr_size E else ae_addr_size E * 2)
         in vpush_loop E reg_byte_size (start_reg + d) sp (unat regs) (sp - sp_offset) s (\<lambda>s.
              Some (WriteRegisterUnsigned E (eContextAdjustStackPointer, ImmediateSigned (- sp_offset))
                      eRegisterKindGeneric GENERIC_SP (sp - sp_offset) s))))
     else succeeds s)"

definition EmulateVPOP ::
  "'s arm_env \<Rightarrow> u32 \<Rightarrow> arm_encoding \<Rightarrow> 's arm \<Rightarrow> 's emulated" where
  "EmulateVPOP E opcode encoding s =
     (if ConditionPassed opcode s then
       need (ReadCoreReg E SP_REG s) s (\<lambda>sp32.
       need (vpush_operands E opcode encoding) s (\<lambda>(single_regs, d, imm32, regs).
         let sp = (ucast sp32 :: u64); sp_offset = ucast imm32;
             start_reg = (if single_regs then dwarf_s0 else dwarf_d0);
             reg_byte_size = (if single_regs then ae_addr_size E else ae_addr_size E * 2)
         in vpop_loop E reg_byte_size (start_reg + d) (unat regs) sp s (\<lambda>s.
              Some (WriteRegisterUnsigned E (eContextAdjustStackPointer, ImmediateSigned sp_offset)
                      eRegisterKindGeneric GENERIC_SP (sp + sp_offset) s))))
     else succeeds s)"

section \<open>VLDM, VSTM, VLDR and VSTR\<close>

text \<open>One register of \<open>VLDM\<close> and \<open>VLDR\<close>, and of \<open>VSTM\<close> and \<open>VSTR\<close>, at \<open>address\<close>; contexts are relative to
  \<open>base\<close>, the value of the register \<open>n\<close>.\<close>

definition word_pair :: "'s arm_env \<Rightarrow> u64 \<Rightarrow> u64 \<Rightarrow> u64" where
  "word_pair E word1 word2 =
     (if ae_byte_order E = eByteOrderBig
      then push_bit 32 (ucast (ucast word1 :: u32)) OR ucast (ucast word2 :: u32)
      else push_bit 32 (ucast (ucast word2 :: u32)) OR ucast (ucast word1 :: u32))"

definition load_vector_reg ::
  "'s arm_env \<Rightarrow> bool \<Rightarrow> u32 \<Rightarrow> u64 \<Rightarrow> u32 \<Rightarrow> u64 \<Rightarrow> 's arm \<Rightarrow> ('s arm \<Rightarrow> 's emulated) \<Rightarrow> 's emulated" where
  "load_vector_reg E single n base reg address s k =
     (let ctx = (eContextRegisterLoad, RegisterPlusOffset n (address - base));
          ctx2 = (eContextRegisterLoad, RegisterPlusOffset n (address + 4 - base))
      in need (MemARead E ctx address (ae_addr_size E) s) s (\<lambda>word1.
           if single then
             check (WriteRegisterUnsigned E ctx eRegisterKindDWARF reg (ucast (ucast word1 :: u32)) s) k
           else
             need (MemARead E ctx2 (address + 4) (ae_addr_size E) s) s (\<lambda>word2.
               check (WriteRegisterUnsigned E ctx2 eRegisterKindDWARF reg (word_pair E word1 word2) s) k)))"

definition store_vector_reg ::
  "'s arm_env \<Rightarrow> bool \<Rightarrow> u32 \<Rightarrow> u64 \<Rightarrow> u32 \<Rightarrow> u64 \<Rightarrow> 's arm \<Rightarrow> ('s arm \<Rightarrow> 's emulated) \<Rightarrow> 's emulated" where
  "store_vector_reg E single n base reg address s k =
     (let ctx = (eContextRegisterStore, RegisterToRegisterPlusOffset reg n (address - base));
          ctx2 = (eContextRegisterStore, RegisterToRegisterPlusOffset reg n (address + 4 - base))
      in need (ReadRegisterUnsigned E eRegisterKindDWARF reg s) s (\<lambda>data.
           if single then
             check (MemAWrite E ctx address (ucast (ucast data :: u32)) (ae_addr_size E) s) k
           else
             let (first, second) = (if ae_byte_order E = eByteOrderBig
                                    then (Bits64 data 63 32, Bits64 data 31 0)
                                    else (Bits64 data 31 0, Bits64 data 63 32))
             in check (MemAWrite E ctx address first (ae_addr_size E) s) (\<lambda>s.
                  check (MemAWrite E ctx2 (address + 4) second (ae_addr_size E) s) k)))"

primrec vector_loop ::
  "(u32 \<Rightarrow> u64 \<Rightarrow> 's arm \<Rightarrow> ('s arm \<Rightarrow> 's emulated) \<Rightarrow> 's emulated) \<Rightarrow> u64 \<Rightarrow> u32 \<Rightarrow> nat \<Rightarrow> u64 \<Rightarrow> 's arm \<Rightarrow>
     's emulated"
  where
  "vector_loop f step reg 0 address s = succeeds s"
| "vector_loop f step reg (Suc regs) address s =
     f reg address s (vector_loop f step (reg + 1) regs (address + step))"

text \<open>The encodings of \<open>VLDM\<close> and \<open>VSTM\<close>: single registers, direction, write-back, the first register, the
  base, the offset and the number of registers.\<close>

definition vldm_operands ::
  "u32 \<Rightarrow> arm_encoding \<Rightarrow> 's arm \<Rightarrow> (bool \<times> bool \<times> bool \<times> u32 \<times> u32 \<times> u32 \<times> u32) option" where
  "vldm_operands opcode encoding s =
     (let add = is_set opcode 23; wback = is_set opcode 21; n = Bits32 opcode 19 16;
          imm32 = push_bit 2 (Bits32 opcode 7 0)
      in if encoding \<in> {eEncodingT1, eEncodingA1} then
           let d = push_bit 4 (Bit32 opcode 22) OR Bits32 opcode 15 12; regs = Bits32 opcode 7 0 div 2
           in if Bit32 opcode 24 = Bit32 opcode 23 \<and> is_set opcode 21 then None
              else if n = 15 \<and> (wback \<or> CurrentInstrSet s \<noteq> eModeARM) then None
              else if regs = 0 \<or> regs > 16 \<or> d + regs > 32 then None
              else Some (False, add, wback, d, n, imm32, regs)
         else if encoding \<in> {eEncodingT2, eEncodingA2} then
           let d = push_bit 1 (Bits32 opcode 15 12) OR Bit32 opcode 22; regs = Bits32 opcode 7 0
           in if Bit32 opcode 24 = Bit32 opcode 23 \<and> is_set opcode 21 then None
              else if n = 15 \<and> (wback \<or> CurrentInstrSet s \<noteq> eModeARM) then None
              else if regs = 0 \<or> d + regs > 32 then None
              else Some (True, add, wback, d, n, imm32, regs)
         else None)"

definition EmulateVLDM ::
  "'s arm_env \<Rightarrow> u32 \<Rightarrow> arm_encoding \<Rightarrow> 's arm \<Rightarrow> 's emulated" where
  "EmulateVLDM E opcode encoding s =
     (if ConditionPassed opcode s then
       need (vldm_operands opcode encoding s) s (\<lambda>(single_regs, add, wback, d, n, imm32, regs).
         need (ReadCoreReg E n s) s (\<lambda>Rn.
           let address = (if add then Rn else Rn - imm32); value = (if add then Rn + imm32 else Rn - imm32);
               start_reg = (if single_regs then dwarf_s0 else dwarf_d0)
           in check (write_back E wback (eContextAdjustBaseRegister, ImmediateSigned (ucast (value - Rn)))
                n (ucast value) s)
                (vector_loop (load_vector_reg E single_regs n (ucast Rn)) (if single_regs then 4 else 8)
                   (start_reg + d) (unat regs) (ucast address))))
     else succeeds s)"

definition EmulateVSTM ::
  "'s arm_env \<Rightarrow> u32 \<Rightarrow> arm_encoding \<Rightarrow> 's arm \<Rightarrow> 's emulated" where
  "EmulateVSTM E opcode encoding s =
     (if ConditionPassed opcode s then
       need (vldm_operands opcode encoding s) s (\<lambda>(single_regs, add, wback, d, n, imm32, regs).
         need (ReadCoreReg E n s) s (\<lambda>Rn.
           let address = (if add then Rn else Rn - imm32); value = (if add then Rn + imm32 else Rn - imm32);
               start_reg = (if single_regs then dwarf_s0 else dwarf_d0)
           in check (write_back E wback
                (eContextAdjustBaseRegister, RegisterPlusOffset n (ucast (value - Rn))) n (ucast value) s)
                (vector_loop (store_vector_reg E single_regs n (ucast Rn)) (if single_regs then 4 else 8)
                   (start_reg + d) (unat regs) (ucast address))))
     else succeeds s)"

definition EmulateVLDR ::
  "'s arm_env \<Rightarrow> u32 \<Rightarrow> arm_encoding \<Rightarrow> 's arm \<Rightarrow> 's emulated" where
  "EmulateVLDR E opcode encoding s =
     (if ConditionPassed opcode s then
       let add = is_set opcode 23; imm32 = push_bit 2 (Bits32 opcode 7 0); n = Bits32 opcode 19 16;
           op = (\<lambda>single_reg reg.
             need (ReadCoreReg E n s) s (\<lambda>Rn.
               let base = (if n = 15 then Rn AND 0xFFFFFFFC else Rn);
                   address = (if add then base + imm32 else base - imm32)
               in load_vector_reg E single_reg n (ucast base) reg (ucast address) s (\<lambda>s. succeeds s)))
       in if encoding \<in> {eEncodingT1, eEncodingA1} then
            op False (dwarf_d0 + (push_bit 4 (Bit32 opcode 22) OR Bits32 opcode 15 12))
          else if encoding \<in> {eEncodingT2, eEncodingA2} then
            op True (dwarf_s0 + (push_bit 1 (Bits32 opcode 15 12) OR Bit32 opcode 22))
          else fails s
     else succeeds s)"

definition EmulateVSTR ::
  "'s arm_env \<Rightarrow> u32 \<Rightarrow> arm_encoding \<Rightarrow> 's arm \<Rightarrow> 's emulated" where
  "EmulateVSTR E opcode encoding s =
     (if ConditionPassed opcode s then
       let add = is_set opcode 23; imm32 = push_bit 2 (Bits32 opcode 7 0); n = Bits32 opcode 19 16;
           op = (\<lambda>single_reg reg.
             if n = 15 \<and> CurrentInstrSet s \<noteq> eModeARM then fails s
             else need (ReadCoreReg E n s) s (\<lambda>Rn.
               let address = (if add then Rn + imm32 else Rn - imm32)
               in store_vector_reg E single_reg n (ucast Rn) reg (ucast address) s (\<lambda>s. succeeds s)))
       in if encoding \<in> {eEncodingT1, eEncodingA1} then
            op False (dwarf_d0 + (push_bit 4 (Bit32 opcode 22) OR Bits32 opcode 15 12))
          else if encoding \<in> {eEncodingT2, eEncodingA2} then
            op True (dwarf_s0 + (push_bit 1 (Bits32 opcode 15 12) OR Bit32 opcode 22))
          else fails s
     else succeeds s)"

section \<open>VLD1 and VST1\<close>

text \<open>The number of registers and the alignment of a transfer of multiple elements.\<close>

definition vld1_regs :: "u32 \<Rightarrow> (nat \<times> nat) option" where
  "vld1_regs opcode =
     (let type = Bits32 opcode 11 8; align = Bits32 opcode 5 4;
          alignment = (if align = 0 then 1 else 4 * 2 ^ unat align)
      in if type = 7 then if is_set align 1 then None else Some (1, alignment)
         else if type = 10 then if align = 3 then None else Some (2, alignment)
         else if type = 6 then if is_set align 1 then None else Some (3, alignment)
         else if type = 2 then Some (4, alignment)
         else None)"

text \<open>The bytes, the index and the alignment of a single element.\<close>

definition vld1_element :: "u32 \<Rightarrow> (nat \<times> nat \<times> nat) option" where
  "vld1_element opcode =
     (let size = Bits32 opcode 11 10; index_align = Bits32 opcode 7 4
      in if size = 0 then
           if is_clear index_align 0 then None else Some (1, unat (Bits32 index_align 3 1), 1)
         else if size = 1 then
           if is_clear index_align 1 then None
           else Some (2, unat (Bits32 index_align 3 2), if is_clear index_align 0 then 1 else 2)
         else if size = 2 then
           if is_clear index_align 2 then None
           else if Bits32 index_align 1 0 \<noteq> 0 \<and> Bits32 index_align 1 0 \<noteq> 3 then None
           else Some (4, unat (Bit32 index_align 3), if Bits32 index_align 1 0 = 0 then 1 else 4)
         else None)"

text \<open>The new value of the base register \<open>n\<close>, when \<open>m\<close> asks for one; the rest is told the context that
  is left behind.\<close>

definition vector_write_back ::
  "'s arm_env \<Rightarrow> u32 \<Rightarrow> u32 \<Rightarrow> u32 \<Rightarrow> u32 \<Rightarrow> 's arm \<Rightarrow> (access_context \<Rightarrow> 's arm \<Rightarrow> 's emulated) \<Rightarrow> 's emulated" where
  "vector_write_back E m n Rn bytes s k =
     (if m \<noteq> 15 then
        need (ReadCoreReg E m s) s (\<lambda>Rm.
          let offset = (if m \<noteq> 13 then Rm else bytes);
              ctx = (eContextAdjustBaseRegister, RegisterPlusOffset n (ucast offset))
          in check (WriteRegisterUnsigned E ctx eRegisterKindDWARF n (ucast (Rn + offset)) s) (k ctx))
      else k (eContextInvalid, NoArgs) s)"

text \<open>The elements of one register, assembled from the right.\<close>

primrec vld1_elements ::
  "'s arm_env \<Rightarrow> u32 \<Rightarrow> u64 \<Rightarrow> nat \<Rightarrow> nat list \<Rightarrow> u64 \<Rightarrow> u64 \<Rightarrow> 's arm \<Rightarrow> (u64 \<Rightarrow> u64 \<Rightarrow> 's emulated) \<Rightarrow> 's emulated"
  where
  "vld1_elements E n base ebytes [] assembled address s k = k assembled address"
| "vld1_elements E n base ebytes (e # es) assembled address s k =
     need (MemURead E (eContextRegisterLoad, RegisterPlusOffset n (address - base)) address ebytes s) s
       (\<lambda>data. vld1_elements E n base ebytes es (push_bit (e * (8 * ebytes)) data OR assembled)
                 (address + of_nat ebytes) s k)"

primrec vld1_loop ::
  "'s arm_env \<Rightarrow> u32 \<Rightarrow> u64 \<Rightarrow> nat \<Rightarrow> u32 \<Rightarrow> nat \<Rightarrow> u64 \<Rightarrow> 's arm \<Rightarrow> 's emulated" where
  "vld1_loop E n base ebytes reg 0 address s = succeeds s"
| "vld1_loop E n base ebytes reg (Suc regs) address s =
     vld1_elements E n base ebytes [0..<8 div ebytes] 0 address s (\<lambda>assembled next_address.
       check (WriteRegisterUnsigned E
           (eContextRegisterLoad, RegisterPlusOffset n (next_address - of_nat ebytes - base))
           eRegisterKindDWARF reg assembled s)
         (vld1_loop E n base ebytes (reg + 1) regs next_address))"

text \<open>The base register is taken from five bits, 19 to 15.\<close>

definition EmulateVLD1Multiple ::
  "'s arm_env \<Rightarrow> u32 \<Rightarrow> arm_encoding \<Rightarrow> 's arm \<Rightarrow> 's emulated" where
  "EmulateVLD1Multiple E opcode encoding s =
     (if ConditionPassed opcode s then
       if encoding \<in> {eEncodingT1, eEncodingA1} then
         need (vld1_regs opcode) s (\<lambda>(regs, alignment).
           let ebytes = 2 ^ unat (Bits32 opcode 7 6);
               d = push_bit 4 (Bit32 opcode 22) OR Bits32 opcode 15 12;
               n = Bits32 opcode 19 15; m = Bits32 opcode 3 0
           in if d + of_nat regs > 32 then fails s
              else need (ReadCoreReg E n s) s (\<lambda>Rn.
                if unat Rn mod alignment \<noteq> 0 then fails s
                else vector_write_back E m n Rn (8 * of_nat regs) s (\<lambda>_.
                  vld1_loop E n (ucast Rn) ebytes (dwarf_d0 + d) regs (ucast Rn))))
       else fails s
     else succeeds s)"

definition EmulateVLD1SingleAll ::
  "'s arm_env \<Rightarrow> u32 \<Rightarrow> arm_encoding \<Rightarrow> 's arm \<Rightarrow> 's emulated" where
  "EmulateVLD1SingleAll E opcode encoding s =
     (if ConditionPassed opcode s then
       if encoding \<in> {eEncodingT1, eEncodingA1} then
         let size = Bits32 opcode 7 6; ebytes = 2 ^ unat size;
             regs = (if is_clear opcode 5 then 1 else 2);
             alignment = (if is_clear opcode 4 then 1 else ebytes);
             d = push_bit 4 (Bit32 opcode 22) OR Bits32 opcode 15 12;
             n = Bits32 opcode 19 16; m = Bits32 opcode 3 0
         in if size = 3 \<or> size = 0 \<and> is_set opcode 4 then fails s
            else if d + of_nat regs > 32 then fails s
            else if n = 15 then fails s
            else need (ReadCoreReg E n s) s (\<lambda>Rn.
              if unat Rn mod alignment \<noteq> 0 then fails s
              else vector_write_back E m n Rn (of_nat ebytes) s (\<lambda>ctx s.
                let ctx = (eContextRegisterLoad, snd ctx); esize = ebytes * 8
                in need (MemURead E ctx (ucast Rn) ebytes s) s (\<lambda>word.
                     let replicated = fold (\<lambda>_ r. push_bit esize r OR Bits64 word (esize - 1) 0)
                           [0..<8 div ebytes] 0
                     in vector_loop (\<lambda>reg _ s.
                          check (WriteRegisterUnsigned E ctx eRegisterKindDWARF reg replicated s))
                          0 (dwarf_d0 + d) regs 0 s)))
       else fails s
     else succeeds s)"

text \<open>The element is read with its size in bits for a number of bytes, shifted as an \<open>uint32_t\<close>, combined with the
  register by \<open>&\<close>, and written to a core register.\<close>

definition EmulateVLD1Single ::
  "'s arm_env \<Rightarrow> u32 \<Rightarrow> arm_encoding \<Rightarrow> 's arm \<Rightarrow> 's emulated" where
  "EmulateVLD1Single E opcode encoding s =
     (if ConditionPassed opcode s then
       if encoding \<in> {eEncodingT1, eEncodingA1} then
         if Bits32 opcode 11 10 = 3 then EmulateVLD1SingleAll E opcode encoding s
         else need (vld1_element opcode) s (\<lambda>(ebytes, index, alignment).
           let esize = 8 * ebytes; d = push_bit 4 (Bit32 opcode 22) OR Bits32 opcode 15 12;
               n = Bits32 opcode 19 16; m = Bits32 opcode 3 0
           in if n = 15 then fails s
              else need (ReadCoreReg E n s) s (\<lambda>Rn.
                if unat Rn mod alignment \<noteq> 0 then fails s
                else vector_write_back E m n Rn (of_nat ebytes) s (\<lambda>ctx s.
                  need (MemURead E ctx (ucast Rn) esize s) s (\<lambda>data.
                    if index * esize \<ge> 32 then None
                    else
                      let element = push_bit (index * esize) (ucast data :: u32)
                      in need (ReadRegisterUnsigned E eRegisterKindDWARF (dwarf_d0 + d) s) s (\<lambda>reg_data.
                           let others = push_bit ((index + 1) * esize) (- 1);
                               others = (if index > 0 then others OR Bits64 (- 1) (index * esize - 1) 0
                                         else others);
                               reg_data = reg_data AND others AND ucast element
                           in Some (WriteRegisterUnsigned E (eContextRegisterLoad, snd ctx)
                                      eRegisterKindDWARF d reg_data s))))))
       else fails s
     else succeeds s)"

text \<open>A mask of 64 bits shifts by the width of its type, which is undefined.\<close>

primrec vst1_elements ::
  "'s arm_env \<Rightarrow> u32 \<Rightarrow> u64 \<Rightarrow> nat \<Rightarrow> u32 \<Rightarrow> u64 \<Rightarrow> nat list \<Rightarrow> u64 \<Rightarrow> 's arm \<Rightarrow> (u64 \<Rightarrow> 's arm \<Rightarrow> 's emulated) \<Rightarrow>
     's emulated"
  where
  "vst1_elements E n base ebytes reg data [] address s k = k address s"
| "vst1_elements E n base ebytes reg data (e # es) address s k =
     (if ebytes = 8 then None
      else
        let esize = 8 * ebytes; elem = Bits64 data ((e + 1) * esize - 1) (e * esize)
        in check (MemUWrite E (eContextRegisterStore, RegisterToRegisterPlusOffset reg n (address - base))
               address elem ebytes s)
             (\<lambda>s. vst1_elements E n base ebytes reg data es (address + of_nat ebytes) s k))"

primrec vst1_loop ::
  "'s arm_env \<Rightarrow> u32 \<Rightarrow> u64 \<Rightarrow> nat \<Rightarrow> u32 \<Rightarrow> nat \<Rightarrow> u64 \<Rightarrow> 's arm \<Rightarrow> 's emulated" where
  "vst1_loop E n base ebytes reg 0 address s = succeeds s"
| "vst1_loop E n base ebytes reg (Suc regs) address s =
     need (ReadRegisterUnsigned E eRegisterKindDWARF reg s) s (\<lambda>data.
       vst1_elements E n base ebytes reg data [0..<8 div ebytes] address s
         (vst1_loop E n base ebytes (reg + 1) regs))"

definition EmulateVST1Multiple ::
  "'s arm_env \<Rightarrow> u32 \<Rightarrow> arm_encoding \<Rightarrow> 's arm \<Rightarrow> 's emulated" where
  "EmulateVST1Multiple E opcode encoding s =
     (if ConditionPassed opcode s then
       if encoding \<in> {eEncodingT1, eEncodingA1} then
         need (vld1_regs opcode) s (\<lambda>(regs, alignment).
           let ebytes = 2 ^ unat (Bits32 opcode 7 6);
               d = push_bit 4 (Bit32 opcode 22) OR Bits32 opcode 15 12;
               n = Bits32 opcode 19 16; m = Bits32 opcode 3 0
           in if d + of_nat regs > 32 then fails s
              else if n = 15 then fails s
              else need (ReadCoreReg E n s) s (\<lambda>Rn.
                if unat Rn mod alignment \<noteq> 0 then fails s
                else vector_write_back E m n Rn (8 * of_nat regs) s (\<lambda>_.
                  vst1_loop E n (ucast Rn) ebytes (dwarf_d0 + d) regs (ucast Rn))))
       else fails s
     else succeeds s)"

definition EmulateVST1Single ::
  "'s arm_env \<Rightarrow> u32 \<Rightarrow> arm_encoding \<Rightarrow> 's arm \<Rightarrow> 's emulated" where
  "EmulateVST1Single E opcode encoding s =
     (if ConditionPassed opcode s then
       if encoding \<in> {eEncodingT1, eEncodingA1} then
         if Bits32 opcode 11 10 = 3 then fails s
         else need (vld1_element opcode) s (\<lambda>(ebytes, index, alignment).
           let esize = 8 * ebytes; d = push_bit 4 (Bit32 opcode 22) OR Bits32 opcode 15 12;
               n = Bits32 opcode 19 16; m = Bits32 opcode 3 0; reg = dwarf_d0 + d
           in if n = 15 then fails s
              else need (ReadCoreReg E n s) s (\<lambda>Rn.
                if unat Rn mod alignment \<noteq> 0 then fails s
                else vector_write_back E m n Rn (of_nat ebytes) s (\<lambda>_ s.
                  need (ReadRegisterUnsigned E eRegisterKindDWARF reg s) s (\<lambda>data.
                    let elem = Bits64 data ((index + 1) * esize - 1) (index * esize)
                    in Some (MemUWrite E
                         (eContextRegisterStore, RegisterToRegisterPlusOffset reg n 0)
                         (ucast Rn) elem ebytes s)))))
       else fails s
     else succeeds s)"

end
