(* ===== verification/ARMStack.thy ===== *)
theory ARMStack
  imports ARMReference ARMVector
begin

text \<open>
  What the instructions for the stack and for several registers do, under the contract of the
  callbacks: \<open>PUSH\<close> lays the registers of its list out below the stack pointer and \<open>POP\<close> takes them
  back; \<open>LDM\<close> never loads the link register.
\<close>

section \<open>Words laid out in memory\<close>

primrec laid_out :: "u64 \<Rightarrow> u32 list \<Rightarrow> (u64 \<rightharpoonup> u32) \<Rightarrow> u64 \<rightharpoonup> u32" where
  "laid_out a [] m = m"
| "laid_out a (w # ws) m = laid_out (a + 4) ws (m(a \<mapsto> w))"

primrec holds :: "u64 \<Rightarrow> u32 list \<Rightarrow> (u64 \<rightharpoonup> u32) \<Rightarrow> bool" where
  "holds a [] m \<longleftrightarrow> True"
| "holds a (w # ws) m \<longleftrightarrow> m a = Some w \<and> holds (a + 4) ws m"

definition slots :: "u64 \<Rightarrow> nat \<Rightarrow> u64 set" where
  "slots a n = (\<lambda>k. a + 4 * of_nat k) ` {..<n}"

lemma slots_Suc: "slots a (Suc n) = insert a (slots (a + 4) n)"
proof -
  have "(\<lambda>k. a + 4 * of_nat k :: u64) ` Suc ` {..<n} = (\<lambda>k. a + 4 + 4 * of_nat k) ` {..<n}"
    unfolding image_image by (simp add: algebra_simps)
  then show ?thesis
    by (simp add: slots_def lessThan_Suc_eq_insert_0 del: of_nat_Suc)
qed

lemma slots_0 [simp]: "slots a 0 = {}"
  by (simp add: slots_def)

lemma unat_of_nat_u64: "n < 2 ^ 64 \<Longrightarrow> unat (word_of_nat n :: u64) = n"
  by (simp add: unat_of_nat)

lemma not_in_later_slots: "n < 2 ^ 61 \<Longrightarrow> a \<notin> slots (a + 4) n"
proof
  assume n: "n < 2 ^ 61" and "a \<in> slots (a + 4) n"
  then obtain k where k: "k < n" "a = a + 4 + 4 * of_nat k"
    by (auto simp: slots_def)
  have "a + word_of_nat (4 * Suc k) = a"
    using k(2) by (simp add: algebra_simps)
  then have "(word_of_nat (4 * Suc k) :: u64) = 0"
    by simp
  moreover have "4 * Suc k < 2 ^ 64"
    using k(1) n by simp
  then have "unat (word_of_nat (4 * Suc k) :: u64) = 4 * Suc k"
    by (rule unat_of_nat_u64)
  ultimately show False
    by (simp del: of_nat_Suc of_nat_mult)
qed

lemma laid_out_elsewhere: "b \<notin> slots a (length ws) \<Longrightarrow> laid_out a ws m b = m b"
  by (induction ws arbitrary: a m) (auto simp: slots_Suc)

lemma holds_cong: "(\<And>b. b \<in> slots a (length ws) \<Longrightarrow> m b = m' b) \<Longrightarrow> holds a ws m = holds a ws m'"
  by (induction ws arbitrary: a) (auto simp: slots_Suc)

lemma holds_laid_out: "length ws < 2 ^ 61 \<Longrightarrow> holds a ws (laid_out a ws m)"
proof (induction ws arbitrary: a m)
  case (Cons w ws)
  then show ?case
    using laid_out_elsewhere [of a "a + 4" ws "m(a \<mapsto> w)"] not_in_later_slots [of "length ws" a] by simp
qed simp

section \<open>Registers of a list\<close>

fun put_back :: "nat list \<Rightarrow> u32 list \<Rightarrow> (u32 \<Rightarrow> u32) \<Rightarrow> u32 \<Rightarrow> u32" where
  "put_back (i # is) (w # ws) R = put_back is ws (R(of_nat i := w))"
| "put_back _ _ R = R"

lemma put_back_map: "put_back is (map (\<lambda>i. Q (of_nat i)) is) R r = (if r \<in> of_nat ` set is then Q r else R r)"
  by (induction "is" arbitrary: R) auto

abbreviation listed :: "u32 \<Rightarrow> nat list \<Rightarrow> nat list" where
  "listed registers is \<equiv> filter (is_set registers) is"

lemma small_register: "i < 15 \<Longrightarrow> (of_nat i :: u32) \<le> 16" "i < 15 \<Longrightarrow> (of_nat i :: u32) \<le> 15"
  "i < 15 \<Longrightarrow> (of_nat i :: u32) \<noteq> 15"
  by (auto simp: word_le_nat_alt unat_of_nat word_unat_eq_iff)

text \<open>Only the state of the callbacks is changed, to one with these registers and this memory.\<close>

definition host_becomes ::
  "('s \<Rightarrow> bool) \<Rightarrow> ('s \<Rightarrow> u32 \<Rightarrow> u32) \<Rightarrow> ('s \<Rightarrow> u64 \<rightharpoonup> u32) \<Rightarrow> 's arm \<Rightarrow> 's arm \<Rightarrow>
     (u32 \<Rightarrow> u32) \<Rightarrow> (u64 \<rightharpoonup> u32) \<Rightarrow> bool" where
  "host_becomes ok regs words s s' R M \<longleftrightarrow> s' = s\<lparr>am_host := am_host s'\<rparr> \<and> ok (am_host s') \<and>
     regs (am_host s') = R \<and> words (am_host s') = M"

context arm_memory begin

abbreviation becomes where "becomes \<equiv> host_becomes ok regs words"

lemma becomes_refl: "ok (am_host s) \<Longrightarrow> becomes s s (regs (am_host s)) (words (am_host s))"
  by (simp add: host_becomes_def)

lemma becomes_trans: "becomes s s1 R1 M1 \<Longrightarrow> becomes s1 s2 R2 M2 \<Longrightarrow> becomes s s2 R2 M2"
  unfolding host_becomes_def by (metis (no_types, lifting) arm.update_convs(10) arm.surjective)

lemma becomes_set_word:
  "ok (am_host s) \<Longrightarrow> becomes s (s\<lparr>am_host := set_word (am_host s) a w\<rparr>) (regs (am_host s))
     ((words (am_host s))(a \<mapsto> w))"
  by (simp add: host_becomes_def ok_set_word regs_set_word words_set_word)

lemma becomes_set_reg:
  "ok (am_host s) \<Longrightarrow> r \<le> 16 \<Longrightarrow> becomes s (s\<lparr>am_host := set_reg (am_host s) r w\<rparr>)
     ((regs (am_host s))(r := w)) (words (am_host s))"
  by (simp add: host_becomes_def ok_set_reg regs_set_reg words_set_reg)

lemma push_loop_lays_out:
  assumes "ok (am_host s)" "set is \<subseteq> {..<15}"
  shows "\<exists>s'. push_loop E registers sp is addr s k = k (addr + 4 * of_nat (length (listed registers is))) s' \<and>
    becomes s s' (regs (am_host s))
      (laid_out addr (map (\<lambda>i. regs (am_host s) (of_nat i)) (listed registers is)) (words (am_host s)))"
  using assms
proof (induction "is" arbitrary: addr s)
  case Nil
  then show ?case
    by (auto intro!: exI [of _ s] simp: becomes_refl)
next
  case (Cons i "is")
  have i: "i < 15" and "is": "set is \<subseteq> {..<15}" and ok: "ok (am_host s)"
    using Cons.prems by auto
  show ?case
  proof (cases "is_set registers i")
    case True
    let ?w = "regs (am_host s) (of_nat i)"
    let ?s = "s\<lparr>am_host := set_word (am_host s) addr ?w\<rparr>"
    have st: "becomes s ?s (regs (am_host s)) ((words (am_host s))(addr \<mapsto> ?w))"
      by (rule becomes_set_word [OF ok])
    have "ok (am_host ?s)"
      using st by (simp add: host_becomes_def)
    from Cons.IH [OF this "is", of "addr + 4"] obtain s' where s':
      "push_loop E registers sp is (addr + 4) ?s k
         = k (addr + 4 + 4 * of_nat (length (listed registers is))) s'"
      "becomes ?s s' (regs (am_host ?s))
         (laid_out (addr + 4) (map (\<lambda>i. regs (am_host ?s) (of_nat i)) (listed registers is)) (words (am_host ?s)))"
      by blast
    have "regs (am_host ?s) = regs (am_host s)" "words (am_host ?s) = (words (am_host s))(addr \<mapsto> ?w)"
      using st by (simp_all add: host_becomes_def)
    moreover have "push_loop E registers sp (i # is) addr s k = push_loop E registers sp is (addr + 4) ?s k"
      using True i ok read_core [OF ok small_register(2) [OF i]]
      by (simp add: need_def check_def write_word addr_size core_value_def small_register)
    ultimately show ?thesis
      using s' becomes_trans [OF st s'(2)] True
      by (intro exI [of _ s']) (simp add: algebra_simps)
  qed (use Cons.IH [OF ok "is"] in simp)
qed

lemma pop_loop_restores:
  assumes "ok (am_host s)" "set is \<subseteq> {..<15}" "holds addr ws (words (am_host s))"
    and "length ws = length (listed registers is)"
  shows "\<exists>s'. pop_loop E registers is addr s k = k (addr + 4 * of_nat (length (listed registers is))) s' \<and>
    becomes s s' (put_back (listed registers is) ws (regs (am_host s))) (words (am_host s))"
  using assms
proof (induction "is" arbitrary: addr s ws)
  case Nil
  then show ?case
    by (auto intro!: exI [of _ s] simp: becomes_refl)
next
  case (Cons i "is")
  have i: "i < 15" and "is": "set is \<subseteq> {..<15}" and ok: "ok (am_host s)"
    using Cons.prems by auto
  show ?case
  proof (cases "is_set registers i")
    case True
    then obtain w ws' where ws: "ws = w # ws'" "length ws' = length (listed registers is)"
      using Cons.prems(4) by (cases ws) auto
    let ?s = "s\<lparr>am_host := set_reg (am_host s) (of_nat i) w\<rparr>"
    have st: "becomes s ?s ((regs (am_host s))(of_nat i := w)) (words (am_host s))"
      by (rule becomes_set_reg [OF ok small_register(1) [OF i]])
    have ok': "ok (am_host ?s)" and wd: "words (am_host ?s) = words (am_host s)"
      and rg: "regs (am_host ?s) = (regs (am_host s))(of_nat i := w)"
      using st by (simp_all add: host_becomes_def)
    have "holds (addr + 4) ws' (words (am_host ?s))"
      using Cons.prems(3) ws(1) wd by simp
    from Cons.IH [OF ok' "is" this ws(2)] obtain s' where s':
      "pop_loop E registers is (addr + 4) ?s k = k (addr + 4 + 4 * of_nat (length (listed registers is))) s'"
      "becomes ?s s' (put_back (listed registers is) ws' (regs (am_host ?s))) (words (am_host ?s))"
      by blast
    have "pop_loop E registers (i # is) addr s k = pop_loop E registers is (addr + 4) ?s k"
      using True i ok Cons.prems(3) ws(1)
        write_info [OF ok generic_register_info(5) [OF small_register(1) [OF i]] small_register(1) [OF i]]
      by (simp add: need_def check_def read_word addr_size)
    then show ?thesis
      using s' becomes_trans [OF st s'(2)] True ws(1) wd rg
      by (intro exI [of _ s']) (simp add: algebra_simps)
  qed (use Cons.IH [OF ok "is"] Cons.prems in simp)
qed

end

section \<open>PUSH and POP\<close>

lemma cut_of_int: "(ucast (word_of_int i :: u64) :: u32) = word_of_int i"
  by (rule bit_word_eqI) (auto simp: bit_ucast_iff bit_word_of_int_iff)

lemma cut_of_nat: "(ucast (word_of_nat n :: u64) :: u32) = word_of_nat n"
  using cut_of_int [of "int n"] by simp

lemma cut_word:
  "(ucast (x + y :: u64) :: u32) = ucast x + ucast y"
  "(ucast (x - y :: u64) :: u32) = ucast x - ucast y"
  "(ucast (4 * word_of_nat n :: u64) :: u32) = 4 * word_of_nat n"
proof -
  obtain i j where x: "x = word_of_int i" and y: "y = word_of_int j"
    by (metis word_of_int_uint)
  show "(ucast (x + y :: u64) :: u32) = ucast x + ucast y"
    unfolding x y by (simp only: wi_hom_add cut_of_int)
  show "(ucast (x - y :: u64) :: u32) = ucast x - ucast y"
    unfolding x y by (simp only: wi_hom_sub cut_of_int)
  show "(ucast (4 * word_of_nat n :: u64) :: u32) = 4 * word_of_nat n"
    using cut_of_nat [of "4 * n"] by simp
qed

lemma listed_length:
  assumes "\<And>i. bit L i \<Longrightarrow> i < n"
  shows "BitCount (ucast (L :: u32)) = of_nat (length (listed L [0..<n]))"
proof -
  have "bit (ucast L :: u64) i = bit L i" for i
    by (auto simp: bit_ucast_iff dest: bit_imp_le_length)
  then have "{i. bit (ucast L :: u64) i} = set (listed L [0..<n])"
    using assms by (auto simp: is_set_bit)
  then have "card {i. bit (ucast L :: u64) i} = length (listed L [0..<n])"
    by (simp only:) (rule distinct_card, simp)
  then show ?thesis
    by (simp only: BitCount_correct)
qed

lemma listed_size:
  assumes "\<And>i. bit L i \<Longrightarrow> i < 15"
  shows "ucast (of_nat 4 * BitCount (ucast (L :: u32))) = (4 * of_nat (length (listed L [0..<15])) :: u64)"
proof -
  have "length (listed L [0..<15]) \<le> 15"
    using length_filter_le [of "is_set L" "[0..<15]"] by simp
  then show ?thesis
    using ucast_in_range [of "4 * length (listed L [0..<15])"] by (simp add: listed_length [OF assms])
qed

lemma first_registers: "set [0..<15] \<subseteq> {..<15 :: nat}"
  by auto

context arm_memory begin

lemma PUSH_lays_out:
  assumes ok: "ok (am_host s)" and pass: "ConditionPassed opcode s"
    and L: "L = Bits32 opcode 15 0" "\<And>i. bit L i \<Longrightarrow> i < 15"
    and sp: "sp = regs (am_host s) 13" and rs: "rs = listed L [0..<15]"
  shows "\<exists>s'. EmulatePUSH E opcode eEncodingA1 s = Some (True, s') \<and>
    becomes s s' ((regs (am_host s))(13 := sp - 4 * of_nat (length rs)))
      (laid_out (ucast sp - 4 * of_nat (length rs)) (map (\<lambda>i. regs (am_host s) (of_nat i)) rs)
         (words (am_host s)))"
proof -
  let ?n = "4 * of_nat (length rs) :: u64"
  define finish where "finish = (\<lambda>(addr :: u64) s. Some (WriteRegisterUnsigned E
    (eContextAdjustStackPointer, ImmediateSigned (- ?n)) eRegisterKindGeneric GENERIC_SP (ucast sp - ?n) s))"
  have "\<not> is_set L 15"
    using L(2) [of 15] by (auto simp: is_set_bit)
  then have e: "EmulatePUSH E opcode eEncodingA1 s =
      push_loop E L (ucast sp) [0..<15] (ucast sp - ?n) s finish"
    using pass read_core [OF ok, of SP_REG] listed_size [OF L(2)]
    by (simp add: EmulatePUSH_def need_def core_value_def sp rs addr_size [OF ok] L(1) [symmetric]
        finish_def Let_def del: upt_rec_numeral)
  obtain s1 where s1: "push_loop E L (ucast sp) [0..<15] (ucast sp - ?n) s finish = finish (ucast sp) s1"
    and b: "becomes s s1 (regs (am_host s))
      (laid_out (ucast sp - ?n) (map (\<lambda>i. regs (am_host s) (of_nat i)) rs) (words (am_host s)))"
    using push_loop_lays_out [OF ok first_registers, of L "ucast sp" "ucast sp - ?n" finish]
    unfolding rs diff_add_cancel by blast
  have ok1: "ok (am_host s1)"
    using b by (simp add: host_becomes_def)
  have "finish (ucast sp) s1 = Some (True, s1\<lparr>am_host := set_reg (am_host s1) 13 (sp - 4 * of_nat (length rs))\<rparr>)"
    using write_info [OF ok1 generic_register_info(2)]
    by (simp add: finish_def cut_word)
  then show ?thesis
    using becomes_trans [OF b becomes_set_reg [OF ok1, of 13]] b unfolding e s1
    by (auto simp: host_becomes_def)
qed

lemma POP_restores:
  assumes ok: "ok (am_host s)" and pass: "ConditionPassed opcode s"
    and L: "L = Bits32 opcode 15 0" "\<And>i. bit L i \<Longrightarrow> i < 15" "\<not> bit L 13"
    and sp: "sp = regs (am_host s) 13" and rs: "rs = listed L [0..<15]"
    and held: "holds (ucast sp) (map (\<lambda>i. Q (of_nat i)) rs) (words (am_host s))"
  shows "\<exists>s'. EmulatePOP E opcode eEncodingA1 s = Some (True, s') \<and>
    becomes s s' ((\<lambda>r. if r \<in> of_nat ` set rs then Q r else regs (am_host s) r)(13 := sp + 4 * of_nat (length rs)))
      (words (am_host s))"
proof -
  let ?n = "4 * of_nat (length rs) :: u64"
  define finish where "finish = (\<lambda>(addr :: u64) s. Some (WriteRegisterUnsigned E
    (eContextAdjustStackPointer, ImmediateSigned ?n) eRegisterKindGeneric GENERIC_SP (ucast sp + ?n) s))"
  have "\<not> is_set L 15" "\<not> is_set opcode 13"
    using L(2) [of 15] L(3) by (auto simp: is_set_bit L(1) bit_Bits32)
  then have e: "EmulatePOP E opcode eEncodingA1 s = pop_loop E L [0..<15] (ucast sp) s finish"
    using pass read_core [OF ok, of SP_REG] listed_size [OF L(2)]
    by (simp add: EmulatePOP_def need_def core_value_def sp rs addr_size [OF ok] L(1) [symmetric]
        finish_def Let_def del: upt_rec_numeral)
  obtain s1 where s1: "pop_loop E L [0..<15] (ucast sp) s finish = finish (ucast sp + ?n) s1"
    and b: "becomes s s1 (put_back rs (map (\<lambda>i. Q (of_nat i)) rs) (regs (am_host s))) (words (am_host s))"
    using pop_loop_restores [OF ok first_registers held, of L finish] unfolding rs by auto
  have ok1: "ok (am_host s1)"
    using b by (simp add: host_becomes_def)
  have "finish (ucast sp + ?n) s1 = Some (True, s1\<lparr>am_host := set_reg (am_host s1) 13 (sp + 4 * of_nat (length rs))\<rparr>)"
    using write_info [OF ok1 generic_register_info(2)] by (simp add: finish_def cut_word)
  then show ?thesis
    using becomes_trans [OF b becomes_set_reg [OF ok1, of 13]] b unfolding e s1
    by (auto simp: host_becomes_def put_back_map)
qed

end

lemma cut_difference:
  assumes "4 * n \<le> unat (sp :: u32)"
  shows "ucast (sp - 4 * of_nat n) = (ucast sp - 4 * of_nat n :: u64)"
proof -
  let ?w = "of_nat (4 * n) :: u32"
  have w: "unat ?w = 4 * n"
    using assms u32_bound [of sp] by (intro unat_small) simp
  have w': "unat (of_nat (4 * n) :: u64) = 4 * n"
    using assms u32_bound [of sp] by (intro unat_of_nat_u64) simp
  have c: "unat (ucast x :: u64) = unat x" for x :: u32
    using u32_bound [of x] by (simp add: unsigned_ucast_eq take_bit_nat_eq_self)
  have "unat (sp - ?w) = unat sp - 4 * n"
    using assms w by (simp add: unat_sub word_le_nat_alt)
  moreover have "unat (ucast sp - of_nat (4 * n) :: u64) = unat sp - 4 * n"
    using assms w' by (simp add: unat_sub word_le_nat_alt c)
  ultimately show ?thesis
    by (simp add: word_unat_eq_iff c)
qed

lemma listed_bits:
  assumes "\<And>i. bit (L :: u32) i \<Longrightarrow> i < n" "n \<le> 2 ^ 32"
  shows "r \<in> of_nat ` set (listed L [0..<n]) \<longleftrightarrow> bit L (unat (r :: u32))"
proof -
  have "set (listed L [0..<n]) = {i. bit L i}"
    using assms by (auto simp: is_set_bit)
  moreover have "unat (of_nat i :: u32) = i" if "bit L i" for i
    using assms that by (intro unat_small) fastforce
  ultimately show ?thesis
    by (auto simp: image_iff)
qed

text \<open>C7: What PUSH stores, POP takes back. On a pseudo state, with the condition passed and room below the
  stack pointer, PUSH of any list of registers but SP and PC succeeds, moves the stack pointer down by
  four bytes for each of them and writes only the slots below it. In every later state in which the
  stack pointer and these slots are the same, whatever has happened to the other registers and
  the rest of the memory, POP of the same list succeeds, puts the registers of the list and the stack
  pointer back to what they were before the PUSH, and changes nothing else.\<close>

theorem push_pop_roundtrip:
  assumes ok: "pseudo_arch_ok A (am_host s)" and pass: "ConditionPassed push s"
    and L: "L = Bits32 push 15 0" "\<not> bit L 13" "\<not> bit L 15"
    and n: "n = card {i. bit L i}" and R: "R = pseudo_regs (am_host s)"
    and room: "4 * n \<le> unat (R 13)" and sp: "sp = R 13 - 4 * of_nat n"
  shows "\<exists>s'. EmulatePUSH (with_pseudo_state A beyond behind) push eEncodingA1 s = Some (True, s') \<and>
    pseudo_regs (am_host s') = R(13 := sp) \<and>
    (\<forall>a. a \<notin> slots (ucast sp) n \<longrightarrow> ps_memory (am_host s') a = ps_memory (am_host s) a) \<and>
    (\<forall>t pop. pseudo_arch_ok A (am_host t) \<and> ConditionPassed pop t \<and> Bits32 pop 15 0 = L \<and>
       pseudo_regs (am_host t) 13 = sp \<and>
       (\<forall>a \<in> slots (ucast sp) n. ps_memory (am_host t) a = ps_memory (am_host s') a) \<longrightarrow>
       (\<exists>t'. EmulatePOP (with_pseudo_state A beyond behind) pop eEncodingA1 t = Some (True, t') \<and>
          ps_memory (am_host t') = ps_memory (am_host t) \<and>
          (\<forall>r. pseudo_regs (am_host t') r =
             (if r = 13 then R 13 else if bit L (unat r) then R r else pseudo_regs (am_host t) r))))"
proof -
  have low: "i < 15" if "bit L i" for i
  proof -
    have "i < 16"
      using that by (auto simp: L(1) bit_Bits32)
    then show ?thesis
      using that L(3) by (cases "i = 15") auto
  qed
  define rs where "rs = listed L [0..<15]"
  define ws where "ws = map (\<lambda>i. R (of_nat i)) rs"
  have "set rs = {i. bit L i}"
    using low by (auto simp: rs_def is_set_bit)
  then have "card {i. bit L i} = length rs"
    by (metis distinct_card distinct_filter distinct_upt rs_def)
  then have len: "length rs = n" "length ws = n"
    by (simp_all add: n ws_def)
  have "length rs \<le> 15"
    unfolding rs_def using length_filter_le [of "is_set L" "[0..<15]"] by simp
  then have small: "n < 2 ^ 61"
    using len by simp
  have cut: "ucast sp = (ucast (R 13) - 4 * of_nat n :: u64)"
    unfolding sp by (rule cut_difference [OF room])
  define M where "M = laid_out (ucast sp) ws (ps_memory (am_host s))"
  obtain s' where push: "EmulatePUSH (with_pseudo_state A beyond behind) push eEncodingA1 s = Some (True, s')"
    and R': "pseudo_regs (am_host s') = R(13 := sp)" and M: "ps_memory (am_host s') = M"
    using pseudo.PUSH_lays_out [where A = A and beyond = beyond and behind = behind, OF ok pass L(1) low refl rs_def]
    unfolding R [symmetric] len cut [symmetric] sp [symmetric] ws_def [symmetric] M_def host_becomes_def by blast
  have bits: "r \<in> of_nat ` set rs \<longleftrightarrow> bit L (unat r)" for r :: u32
    unfolding rs_def by (rule listed_bits) (use low in auto)
  have held: "holds (ucast sp) ws M"
    unfolding M_def using small len by (intro holds_laid_out) simp
  have "\<exists>t'. EmulatePOP (with_pseudo_state A beyond behind) pop eEncodingA1 t = Some (True, t') \<and>
      ps_memory (am_host t') = ps_memory (am_host t) \<and>
      (\<forall>r. pseudo_regs (am_host t') r =
         (if r = 13 then R 13 else if bit L (unat r) then R r else pseudo_regs (am_host t) r))"
    if t: "pseudo_arch_ok A (am_host t)" "ConditionPassed pop t" "Bits32 pop 15 0 = L"
      "pseudo_regs (am_host t) 13 = sp" "\<forall>a \<in> slots (ucast sp) n. ps_memory (am_host t) a = M a" for t pop
  proof -
    have "holds (ucast sp) ws (ps_memory (am_host t))"
      using holds_cong [of "ucast sp" ws M "ps_memory (am_host t)"] held t(5) len by auto
    then show ?thesis
      using pseudo.POP_restores [where A = A and beyond = beyond and behind = behind, OF t(1,2) t(3) [symmetric]
          low L(2) t(4) [symmetric] rs_def, of R] len
      unfolding ws_def host_becomes_def
      by (auto simp: bits sp)
  qed
  note pops = this
  have outside: "M a = ps_memory (am_host s) a" if "a \<notin> slots (ucast sp) n" for a
    unfolding M_def using that by (intro laid_out_elsewhere) (simp add: len)
  show ?thesis
  proof (rule exI [of _ s'], intro conjI allI impI push R')
    fix a assume "a \<notin> slots (ucast sp) n"
    then show "ps_memory (am_host s') a = ps_memory (am_host s) a"
      unfolding M by (rule outside)
  qed (rule pops, auto simp: M)
qed

lemma ConditionPassed_host: "ConditionPassed opcode (s\<lparr>am_host := h\<rparr>) = ConditionPassed opcode s"
  by (cases s) (simp only: ConditionPassed_def CurrentCond_def arm.select_convs arm.update_convs)

text \<open>\<open>PUSH {r0, lr}\<close> with the stack pointer at 64, and \<open>POP {r0, lr}\<close> in a state with other values in both.\<close>

theorem push_pop_roundtrip_witness:
  "\<exists>s' t t'. EmulatePUSH (with_pseudo_state demo_arch (\<lambda>_. 0) []) 0xE92D4001 eEncodingA1
       (demo_arm [(0, 5), (13, 64), (14, 7), (16, 0x10)]) = Some (True, s') \<and>
     pseudo_regs (am_host t) 0 = 1 \<and> pseudo_regs (am_host t) 14 = 2 \<and>
     ps_memory (am_host t) = ps_memory (am_host s') \<and>
     EmulatePOP (with_pseudo_state demo_arch (\<lambda>_. 0) []) 0xE8BD4001 eEncodingA1 t = Some (True, t') \<and>
     map (pseudo_regs (am_host t')) [0, 13, 14] = [5, 64, 7]"
proof -
  let ?s = "demo_arm [(0, 5), (13, 64), (14, 7), (16, 0x10)]"
  let ?t = "demo_arm [(0, 1), (13, 56), (14, 2), (16, 0x10)]"
  let ?E = "with_pseudo_state demo_arch (\<lambda>_. 0) []"
  let ?R = "pseudo_regs (am_host ?s)"
  have "pseudo_ok (am_host ?s)" "ConditionPassed 0xE92D4001 ?s" "Bits32 0xE92D4001 15 0 = 0x4001"
    "Bits32 0xE8BD4001 15 0 = 0x4001" "\<not> bit (0x4001 :: u32) 13" "\<not> bit (0x4001 :: u32) 15"
    "?R 13 = 64" "?R 0 = 5" "?R 14 = 7" "BitCount 0x4001 = 2"
    "pseudo_ok (am_host ?t)" "ConditionPassed 0xE8BD4001 ?t" "pseudo_regs (am_host ?t) 13 = 56"
    "pseudo_regs (am_host ?t) 0 = 1" "pseudo_regs (am_host ?t) 14 = 2"
    by code_simp+
  note facts = this
  have "{i. bit (0x4001 :: u32) i} = set (filter (bit (0x4001 :: u32)) [0..<32])"
    by (auto dest: bit_imp_le_length)
  also have "\<dots> = {0, 14}"
    by code_simp
  finally have card: "2 = card {i. bit (0x4001 :: u32) i}"
    by simp
  have ok: "pseudo_arch_ok demo_arch (am_host ?s)"
    by (simp add: pseudo_arch_ok_def facts)
  have sp: "56 = ?R 13 - 4 * of_nat 2" and room: "4 * 2 \<le> unat (?R 13)"
    by (simp_all add: facts)
  obtain s' where push: "EmulatePUSH ?E 0xE92D4001 eEncodingA1 ?s = Some (True, s')"
    and pops: "\<forall>t pop. pseudo_arch_ok demo_arch (am_host t) \<and> ConditionPassed pop t \<and> Bits32 pop 15 0 = 0x4001 \<and>
      pseudo_regs (am_host t) 13 = 56 \<and>
      (\<forall>a \<in> slots (ucast (56 :: u32)) 2. ps_memory (am_host t) a = ps_memory (am_host s') a) \<longrightarrow>
      (\<exists>t'. EmulatePOP ?E pop eEncodingA1 t = Some (True, t') \<and>
        ps_memory (am_host t') = ps_memory (am_host t) \<and>
        (\<forall>r. pseudo_regs (am_host t') r = (if r = 13 then ?R 13
           else if bit (0x4001 :: u32) (unat r) then ?R r else pseudo_regs (am_host t) r)))"
    using push_pop_roundtrip [OF ok facts(2) facts(3) [symmetric] facts(5,6) card refl room sp, where
        beyond = "\<lambda>_. 0" and behind = "[]"]
    by (elim exE conjE) (rule that)
  let ?t' = "?t\<lparr>am_host := (am_host ?t)\<lparr>ps_memory := ps_memory (am_host s')\<rparr>\<rparr>"
  have "ConditionPassed 0xE8BD4001 ?t'"
    using facts(12) by (simp only: ConditionPassed_host)
  moreover have "pseudo_arch_ok demo_arch (am_host ?t')"
    using facts(11) by (simp add: pseudo_arch_ok_def pseudo_ok_def)
  moreover have "pseudo_regs (am_host ?t') = pseudo_regs (am_host ?t)"
    by (simp add: pseudo_regs_def fun_eq_iff)
  ultimately have "\<exists>t'. EmulatePOP ?E 0xE8BD4001 eEncodingA1 ?t' = Some (True, t') \<and>
      ps_memory (am_host t') = ps_memory (am_host ?t') \<and>
      (\<forall>r. pseudo_regs (am_host t') r = (if r = 13 then ?R 13
         else if bit (0x4001 :: u32) (unat r) then ?R r else pseudo_regs (am_host ?t') r))"
    using facts(4,13) by (intro pops [rule_format] conjI) simp_all
  then obtain t' where "EmulatePOP ?E 0xE8BD4001 eEncodingA1 ?t' = Some (True, t')"
    and "\<And>r. pseudo_regs (am_host t') r =
           (if r = 13 then ?R 13 else if bit (0x4001 :: u32) (unat r) then ?R r else pseudo_regs (am_host ?t') r)"
    by blast
  then show ?thesis
    using push facts(7,8,9,14,15) \<open>pseudo_regs (am_host ?t') = pseudo_regs (am_host ?t)\<close>
    by (intro exI [of _ s'] exI [of _ ?t'] exI [of _ t']) simp
qed

section \<open>Loads of several registers\<close>

context arm_memory begin

lemma load_loop_restores:
  assumes "ok (am_host s)" "set is \<subseteq> {..<15}" "holds (address + offset) ws (words (am_host s))"
    and "length ws = length (listed registers is)"
  shows "\<exists>s'. load_loop E registers ctx address is offset s k =
      k (offset + 4 * of_nat (length (listed registers is))) s' \<and>
    becomes s s' (put_back (listed registers is) ws (regs (am_host s))) (words (am_host s))"
  using assms
proof (induction "is" arbitrary: offset s ws)
  case Nil
  then show ?case
    by (auto intro!: exI [of _ s] simp: becomes_refl)
next
  case (Cons i "is")
  have i: "i < 15" and "is": "set is \<subseteq> {..<15}" and ok: "ok (am_host s)"
    using Cons.prems by auto
  show ?case
  proof (cases "is_set registers i")
    case True
    then obtain w ws' where ws: "ws = w # ws'" "length ws' = length (listed registers is)"
      using Cons.prems(4) by (cases ws) auto
    let ?s = "s\<lparr>am_host := set_reg (am_host s) (of_nat i) w\<rparr>"
    have st: "becomes s ?s ((regs (am_host s))(of_nat i := w)) (words (am_host s))"
      by (rule becomes_set_reg [OF ok small_register(1) [OF i]])
    have ok': "ok (am_host ?s)" and wd: "words (am_host ?s) = words (am_host s)"
      and rg: "regs (am_host ?s) = (regs (am_host s))(of_nat i := w)"
      using st by (simp_all add: host_becomes_def)
    have "holds (address + (offset + 4)) ws' (words (am_host ?s))"
      using Cons.prems(3) ws(1) wd by (simp add: add.assoc)
    from Cons.IH [OF ok' "is" this ws(2)] obtain s' where s':
      "load_loop E registers ctx address is (offset + 4) ?s k
         = k (offset + 4 + 4 * of_nat (length (listed registers is))) s'"
      "becomes ?s s' (put_back (listed registers is) ws' (regs (am_host ?s))) (words (am_host ?s))"
      by blast
    have "load_loop E registers ctx address (i # is) offset s k = load_loop E registers ctx address is (offset + 4) ?s k"
      using True i ok Cons.prems(3) ws(1)
        write_info [OF ok generic_register_info(5) [OF small_register(1) [OF i]] small_register(1) [OF i]]
      by (simp add: need_def check_def read_word addr_size)
    then show ?thesis
      using s' becomes_trans [OF st s'(2)] True ws(1) wd rg
      by (intro exI [of _ s']) (simp add: algebra_simps)
  qed (use Cons.IH [OF ok "is"] Cons.prems in simp)
qed

lemma unknown_bits_keep:
  assumes "ok (am_host s)" "n \<le> 16"
  shows "\<exists>s'. WriteBits32Unknown E n s = (True, s') \<and>
    becomes s s' (regs (am_host s)) (words (am_host s))"
  using becomes_set_reg [OF assms, of "regs (am_host s) n"] assms
  by (simp add: WriteBits32Unknown_def read_dwarf write_info generic_register_info)

end

lemma first_fourteen: "set [0..<14] \<subseteq> {..<15 :: nat}"
  by auto

lemma BitCount_positive:
  assumes "(L :: u32) \<noteq> 0"
  shows "\<not> BitCount (ucast L) < 1"
proof -
  have *: "bit (ucast L :: u64) i = bit L i" for i
    by (auto simp: bit_ucast_iff dest: bit_imp_le_length)
  obtain i where "bit L i"
    using assms by (auto simp: bit_eq_iff)
  moreover have sub: "{i. bit L i} \<subseteq> {..<32}"
    by (auto dest: bit_imp_le_length)
  ultimately have pos: "0 < card {i. bit L i}" and le: "card {i. bit L i} \<le> 32"
    using card_mono [OF _ sub] by (auto simp: card_gt_0_iff intro: finite_subset [OF sub])
  have "unat (of_nat (card {i. bit L i}) :: u32) = card {i. bit L i}"
    by (rule unat_small) (use le in simp)
  then show ?thesis
    using pos \<open>bit L i\<close> by (auto simp: BitCount_correct * word_less_nat_alt)
qed

context arm_memory begin

lemma LDM_loads:
  assumes ok: "ok (am_host s)" and pass: "ConditionPassed opcode s"
    and n: "n = Bits32 opcode 19 16" "n \<noteq> 15" and L: "L = Bits32 opcode 15 0" "L \<noteq> 0" "\<not> bit L 15"
    and R: "R = regs (am_host s)" and rs: "rs = listed L [0..<14]"
    and held: "holds (ucast (R n)) (map (\<lambda>i. Q (of_nat i)) rs) (words (am_host s))"
  shows "\<exists>s'. EmulateLDM E opcode eEncodingA1 s = Some (True, s') \<and>
    becomes s s' (\<lambda>r. if r = n \<and> is_set opcode 21 \<and> \<not> bit L (unat n) then R n + 4 * BitCount (ucast L)
        else if r \<in> of_nat ` set rs then Q r else R r) (words (am_host s))"
proof -
  define finish where "finish = (\<lambda>(offset :: u64) s.
     if is_set opcode 21 \<and> is_clear L (unat n) then
       Some (WriteRegisterUnsigned E (eContextAdjustBaseRegister, RegisterPlusOffset n (list_size E L))
         eRegisterKindDWARF n (ucast (R n) + list_size E L) s)
     else if is_set opcode 21 \<and> is_set L (unat n) then Some (WriteBits32Unknown E n s)
     else succeeds s)"
  have n16: "n \<le> 16"
    using opcode_nibbles(1) [of opcode] unfolding n(1) by (rule order_trans) simp
  have "\<not> is_set L 15"
    using L(3) by (simp add: is_set_bit)
  then obtain ctx where e: "EmulateLDM E opcode eEncodingA1 s = load_loop E L ctx (ucast (R n)) [0..<14] 0 s finish"
    using pass n(2) BitCount_positive [OF L(2)] read_dwarf [OF ok n16]
    by (simp add: EmulateLDM_def load_multiple_def need_def finish_def Let_def L(1) [symmetric] n(1) [symmetric]
        R [symmetric] del: upt_rec_numeral)
  obtain s1 where s1: "load_loop E L ctx (ucast (R n)) [0..<14] 0 s finish = finish (4 * of_nat (length rs)) s1"
    and b: "becomes s s1 (\<lambda>r. if r \<in> of_nat ` set rs then Q r else R r) (words (am_host s))"
    using load_loop_restores [OF ok first_fourteen, of "ucast (R n)" 0 "map (\<lambda>i. Q (of_nat i)) rs" L ctx finish] held
    unfolding rs R by (simp add: put_back_map [abs_def] del: upt_rec_numeral) blast
  define R1 where "R1 = (\<lambda>r. if r \<in> of_nat ` set rs then Q r else R r)"
  have b': "becomes s s1 R1 (words (am_host s))" and ok1: "ok (am_host s1)"
    and R1: "regs (am_host s1) = R1" and M1: "words (am_host s1) = words (am_host s)"
    using b by (simp_all add: R1_def host_becomes_def)
  have "\<exists>s'. finish (4 * of_nat (length rs)) s1 = Some (True, s') \<and>
    becomes s1 s' (\<lambda>r. if r = n \<and> is_set opcode 21 \<and> \<not> bit L (unat n) then R n + 4 * BitCount (ucast L)
        else R1 r) (words (am_host s1))"
  proof (cases "is_set opcode 21 \<and> \<not> bit L (unat n)")
    case True
    have "(ucast (ucast (R n) + list_size E L) :: u32) = R n + 4 * BitCount (ucast L)"
      by (simp add: cut_word list_size_def addr_size [OF ok])
    then show ?thesis
      using True becomes_set_reg [OF ok1 n16, of "R n + 4 * BitCount (ucast L)"]
        write_info [OF ok1 generic_register_info(5) [OF n16] n16] R1
      by (auto simp: finish_def is_clear_bit fun_upd_def)
  next
    case False
    then show ?thesis
      using unknown_bits_keep [OF ok1 n16] becomes_refl [OF ok1] R1
      by (auto simp: finish_def is_clear_bit is_set_bit)
  qed
  then show ?thesis
    using becomes_trans [OF b'] unfolding e s1 R1_def M1 by blast
qed

end

text \<open>C24: LDM never loads the link register. On a pseudo state, with the condition passed and the words of the
  registers r0 to r13 of the list in memory from the base upwards, LDM (increment after, ARM) of a list
  without PC succeeds and puts each of these words in its register; but LR keeps its old value even when
  the list names it, although its four bytes count in the write-back. A base register that is not in
  the list is written back when the instruction says so; nothing else changes.\<close>

theorem LDM_loads_all_but_lr:
  assumes ok: "pseudo_arch_ok A (am_host s)" and pass: "ConditionPassed opcode s"
    and n: "n = Bits32 opcode 19 16" "n \<noteq> 15" and L: "L = Bits32 opcode 15 0" "L \<noteq> 0" "\<not> bit L 15"
    and R: "R = pseudo_regs (am_host s)"
    and held: "holds (ucast (R n)) (map (\<lambda>i. Q (of_nat i)) (listed L [0..<14])) (ps_memory (am_host s))"
  shows "\<exists>s'. EmulateLDM (with_pseudo_state A beyond behind) opcode eEncodingA1 s = Some (True, s') \<and>
    ps_memory (am_host s') = ps_memory (am_host s) \<and>
    (\<forall>r. pseudo_regs (am_host s') r =
       (if r = n \<and> is_set opcode 21 \<and> \<not> bit L (unat n) then R n + 4 * of_nat (card {i. bit L i})
        else if unat r < 14 \<and> bit L (unat r) then Q r else R r))"
proof -
  have bits: "r \<in> of_nat ` set (listed L [0..<14]) \<longleftrightarrow> unat r < 14 \<and> bit L (unat r)" for r :: u32
  proof
    assume "r \<in> of_nat ` set (listed L [0..<14])"
    then obtain i where "r = of_nat i" "i < 14" "bit L i"
      by (auto simp: is_set_bit)
    then show "unat r < 14 \<and> bit L (unat r)"
      using unat_small [of i] by simp
  next
    assume "unat r < 14 \<and> bit L (unat r)"
    then show "r \<in> of_nat ` set (listed L [0..<14])"
      by (intro image_eqI [of _ _ "unat r"]) (auto simp: is_set_bit)
  qed
  have "BitCount (ucast L) = of_nat (card {i. bit L i})"
  proof -
    have "bit (ucast L :: u64) i = bit L i" for i
      by (auto simp: bit_ucast_iff dest: bit_imp_le_length)
    then show ?thesis
      by (simp add: BitCount_correct)
  qed
  then show ?thesis
    using pseudo.LDM_loads [where A = A and beyond = beyond and behind = behind, OF ok pass n L R refl held]
    unfolding host_becomes_def bits by auto
qed

lemma pseudo_regs_memory: "pseudo_regs (h\<lparr>ps_memory := m\<rparr>) = pseudo_regs h"
  by (simp add: pseudo_regs_def fun_eq_iff)

text \<open>\<open>LDM r0!, {r1, lr}\<close>, with the words 9 and 8 at 32.\<close>

theorem LDM_loads_all_but_lr_witness:
  "\<exists>s'. EmulateLDM (with_pseudo_state demo_arch (\<lambda>_. 0) []) 0xE8B04002 eEncodingA1
       ((demo_arm [(0, 32), (14, 7), (16, 0x10)])\<lparr>am_host :=
          (am_host (demo_arm [(0, 32), (14, 7), (16, 0x10)]))\<lparr>ps_memory := [32 \<mapsto> 9, 36 \<mapsto> 8]\<rparr>\<rparr>) = Some (True, s') \<and>
     map (pseudo_regs (am_host s')) [0, 1, 14] = [40, 9, 7]"
proof -
  let ?d = "demo_arm [(0, 32), (14, 7), (16, 0x10)]"
  let ?s = "?d\<lparr>am_host := (am_host ?d)\<lparr>ps_memory := [32 \<mapsto> 9, 36 \<mapsto> 8]\<rparr>\<rparr>"
  have "pseudo_ok (am_host ?d)" "ConditionPassed 0xE8B04002 ?d" "0x4002 = Bits32 0xE8B04002 15 0"
    "0 = Bits32 0xE8B04002 19 16" "is_set 0xE8B04002 21" "\<not> bit (0x4002 :: u32) 15" "\<not> bit (0x4002 :: u32) 0"
    "pseudo_regs (am_host ?d) 0 = 32" "pseudo_regs (am_host ?d) 14 = 7" "listed 0x4002 [0..<14] = [1]"
    "bit (0x4002 :: u32) 1"
    by code_simp+
  note facts = this
  have "{i. bit (0x4002 :: u32) i} = set (filter (bit (0x4002 :: u32)) [0..<32])"
    by (auto dest: bit_imp_le_length)
  also have "\<dots> = {1, 14}"
    by code_simp
  finally have card: "card {i. bit (0x4002 :: u32) i} = 2"
    by simp
  have regs: "pseudo_regs (am_host ?s) = pseudo_regs (am_host ?d)"
    by (simp add: pseudo_regs_memory)
  have ok: "pseudo_arch_ok demo_arch (am_host ?s)"
    using facts(1) by (simp add: pseudo_arch_ok_def pseudo_ok_def)
  have pass: "ConditionPassed 0xE8B04002 ?s"
    using facts(2) by (simp only: ConditionPassed_host)
  have "holds (ucast (pseudo_regs (am_host ?s) 0)) (map (\<lambda>i. (\<lambda>_. 9) (of_nat i)) (listed 0x4002 [0..<14]))
      (ps_memory (am_host ?s))"
    unfolding regs facts(8,10) by simp
  note loads = LDM_loads_all_but_lr [where beyond = "\<lambda>_. 0" and behind = "[]",
      OF ok pass facts(4) _ facts(3) _ facts(6) refl this]
  have "(0 :: u32) \<noteq> 15" "(0x4002 :: u32) \<noteq> 0"
    by simp_all
  from loads [OF this]
  obtain s' where s': "EmulateLDM (with_pseudo_state demo_arch (\<lambda>_. 0) []) 0xE8B04002 eEncodingA1 ?s = Some (True, s')"
    and r: "\<And>r. pseudo_regs (am_host s') r =
       (if r = 0 \<and> is_set 0xE8B04002 21 \<and> \<not> bit (0x4002 :: u32) (unat (0 :: u32))
        then pseudo_regs (am_host ?s) 0 + 4 * of_nat (card {i. bit (0x4002 :: u32) i})
        else if unat r < 14 \<and> bit (0x4002 :: u32) (unat r) then 9 else pseudo_regs (am_host ?s) r)"
    by (elim exE conjE) (rule that, assumption, blast)
  have "pseudo_regs (am_host s') 0 = 40" "pseudo_regs (am_host s') 1 = 9" "pseudo_regs (am_host s') 14 = 7"
    using facts(5,7,8,9,11) by (simp_all add: r card pseudo_regs_memory)
  then show ?thesis
    using s' by (intro exI [of _ s']) simp
qed

end
