(* ===== verification/ARMTransfers.thy ===== *)
theory ARMTransfers
  imports ARMStack
begin

text \<open>
  Single loads, stores and extensions under the contract of the callbacks: the extensions give the
  architecture's values; \<open>STR\<close> with a Thumb immediate stores below the base register, where \<open>LDR\<close>
  with the same operands loads above it; \<open>VLD1\<close> of a single element cannot succeed for elements wider than a byte.
\<close>

section \<open>Extensions\<close>

context arm_host begin

lemma yields_write:
  assumes "ok (am_host s)" "r \<le> 16" "ucast v = w"
  shows "yields ok regs s (Some (WriteRegisterUnsigned E ctx eRegisterKindDWARF r v s)) ((regs (am_host s))(r := w))"
  using assms write_info [OF assms(1) generic_register_info(5) [OF assms(2)] assms(2), of ctx v]
  by (simp add: yields_def ok_set_reg regs_set_reg)

end

lemma ROR_rotates:
  assumes "n < 32"
  shows "ROR w (of_nat n) = Some (Some (word_rotr n w))"
proof (cases "n = 0")
  case False
  then have "(of_nat n :: u32) \<noteq> 0"
    using unat_small [of n] assms by auto
  moreover have "(of_nat n :: u32) mod 32 = of_nat n"
    using assms unat_small [of n] by (simp add: word_unat_eq_iff unat_mod)
  ultimately show ?thesis
    by (simp add: ROR_def ROR_C_def Rotr32_word_rotr [OF assms])
qed (simp add: ROR_def)

lemma cut_signed: "b < 32 \<Longrightarrow> (ucast (signed_take_bit b (ucast w :: u64)) :: u32) = signed_take_bit b w"
  by (rule bit_word_eqI) (auto simp: bit_ucast_iff bit_signed_take_bit_iff min_def)

lemma rotation_bits: "push_bit 3 (Bits32 w (l + 1) l) = of_nat (8 * unat (Bits32 w (l + 1) l))"
  "8 * unat (Bits32 w (l + 1) l) < 32"
  using Bits32_bound [of w "l + 1" l] by (simp_all add: push_bit_eq_mult)

lemma low_bits_cut: "(ucast (ucast (Bits32 w (b - 1) 0) :: u64) :: u32) = take_bit b w" if "0 < b"
  using that by (simp add: Bits32_take_bit)

definition extends_sign_from :: "(nat \<Rightarrow> u64 \<Rightarrow> u64) \<Rightarrow> bool" where
  "extends_sign_from f \<longleftrightarrow> (\<forall>b w. 0 < b \<longrightarrow> f b w = signed_take_bit (b - 1) w)"

text \<open>C25: The extensions. On a pseudo state, with the condition passed, SXTB, SXTH, UXTB and UXTH of the ARM
  encoding rotate their operand right by the bytes the instruction asks for, none included, and put the
  sign-extended or zero-extended lowest byte or half-word in the destination; no other register is changed.\<close>

theorem extensions_correct:
  assumes ok: "pseudo_arch_ok A (am_host s)" and pass: "ConditionPassed opcode s"
    and d: "d = Bits32 opcode 15 12" "d \<noteq> 15" and m: "m = Bits32 opcode 3 0" "m \<noteq> 15"
    and R: "R = pseudo_regs (am_host s)" and w: "w = word_rotr (8 * unat (Bits32 opcode 11 10)) (R m)"
    and L: "extends_sign_from (lv_SignExtend64 (ae_llvm A))" and E: "E = with_pseudo_state A beyond behind"
  shows "yields (pseudo_arch_ok A) pseudo_regs s (EmulateSXTB E opcode eEncodingA1 s) (R(d := signed_take_bit 7 w)) \<and>
    yields (pseudo_arch_ok A) pseudo_regs s (EmulateSXTH E opcode eEncodingA1 s) (R(d := signed_take_bit 15 w)) \<and>
    yields (pseudo_arch_ok A) pseudo_regs s (EmulateUXTB E opcode eEncodingA1 s) (R(d := take_bit 8 w)) \<and>
    yields (pseudo_arch_ok A) pseudo_regs s (EmulateUXTH E opcode eEncodingA1 s) (R(d := take_bit 16 w))"
proof -
  have reg: "d \<le> 16" "m \<le> 16"
    using opcode_nibbles(2,4) [of opcode] unfolding d(1) m(1) by (auto elim: order_trans)
  have r: "ROR (R m) (push_bit 3 (Bits32 opcode 11 10)) = Some (Some w)"
    using ROR_rotates [OF rotation_bits(2) [of opcode 10], of "R m"] rotation_bits(1) [of opcode 10]
    by (simp add: w)
  have sx: "lv_SignExtend64 (ae_llvm A) 8 (ucast w) = signed_take_bit 7 (ucast w)"
    "lv_SignExtend64 (ae_llvm A) 16 (ucast w) = signed_take_bit 15 (ucast w)"
    using L by (simp_all add: extends_sign_from_def)
  have low: "ucast (ucast (Bits32 w 7 0) :: u64) = take_bit 8 w" "ucast (ucast (Bits32 w 15 0) :: u64) = take_bit 16 w"
    using low_bits_cut [of 8 w] low_bits_cut [of 16 w] by simp_all
  note written = pseudo.yields_write [where A = A and beyond = beyond and behind = behind, OF ok reg(1), folded R E]
  have "ReadRegisterUnsigned E eRegisterKindDWARF m s = Some (ucast (R m))" "ae_llvm E = ae_llvm A"
    using pseudo.read_dwarf [where A = A and beyond = beyond and behind = behind, OF ok reg(2)] by (simp_all add: E R)
  then show ?thesis
    using pass d(2) m(2) r sx low
    by (simp add: EmulateSXTB_def EmulateSXTH_def EmulateUXTB_def EmulateUXTH_def Let_def need_def
        d(1) [symmetric] m(1) [symmetric] written cut_signed)
qed

text \<open>\<open>SXTB r0, r1, ROR #8\<close> with 0x8000 in \<open>r1\<close>.\<close>

theorem extensions_correct_witness:
  "\<exists>s'. EmulateSXTB (with_pseudo_state demo_arch (\<lambda>_. 0) []) 0xE6AF0471 eEncodingA1
      (demo_arm [(1, 0x8000), (16, 0x10)]) = Some (True, s') \<and> pseudo_regs (am_host s') 0 = 0xFFFFFF80"
proof -
  let ?s = "demo_arm [(1, 0x8000), (16, 0x10)]"
  have facts: "pseudo_ok (am_host ?s)" "ConditionPassed 0xE6AF0471 ?s" "0 = Bits32 0xE6AF0471 15 12"
    "1 = Bits32 0xE6AF0471 3 0"
    "signed_take_bit 7 (word_rotr (8 * unat (Bits32 0xE6AF0471 11 10)) (pseudo_regs (am_host ?s) 1)) = 0xFFFFFF80"
    by code_simp+
  have "pseudo_arch_ok demo_arch (am_host ?s)"
    using facts(1) by (simp add: pseudo_arch_ok_def)
  moreover have "extends_sign_from (lv_SignExtend64 (ae_llvm demo_arch))"
    by (simp add: extends_sign_from_def demo_arch_def the_llvm_math_def)
  moreover have "(0 :: u32) \<noteq> 15" "(1 :: u32) \<noteq> 15"
    by simp_all
  ultimately have "yields (pseudo_arch_ok demo_arch) pseudo_regs ?s
      (EmulateSXTB (with_pseudo_state demo_arch (\<lambda>_. 0) []) 0xE6AF0471 eEncodingA1 ?s)
      ((pseudo_regs (am_host ?s))(0 := 0xFFFFFF80))"
    using extensions_correct [OF _ facts(2,3) _ facts(4) _ refl refl _ refl, where A = demo_arch
        and beyond = "\<lambda>_. 0" and behind = "[]"] unfolding facts(5) by blast
  then show ?thesis
    by (auto simp: yields_def)
qed

section \<open>Words\<close>

text \<open>STR with a Thumb immediate stores at the wrong side of its base. On a pseudo state that allows
  unaligned accesses, with the condition passed, STR of encoding T1 succeeds and stores the register at the base
  minus the offset, where the architecture adds it, and changes nothing else. LDR of encoding T1 with the same operands
  loads from the base plus the offset. So what was stored is not what is loaded, unless the offset
  is zero.\<close>

theorem STR_T1_stores_below_the_base:
  assumes ok: "pseudo_arch_ok A (am_host s)" and pass: "ConditionPassed opcode s" and un: "UnalignedSupport s"
    and t: "t = Bits32 opcode 2 0" and n: "n = Bits32 opcode 5 3"
    and imm: "imm = 4 * Bits32 opcode 10 6" and R: "R = pseudo_regs (am_host s)"
    and E: "E = with_pseudo_state A beyond behind" and M: "M = ps_memory (am_host s)"
  shows "(\<exists>s'. EmulateSTRThumb E opcode eEncodingT1 s = Some (True, s') \<and> pseudo_regs (am_host s') = R \<and>
      ps_memory (am_host s') = M(ucast (R n - imm) \<mapsto> R t)) \<and>
    (\<forall>w. M (ucast (R n + imm)) = Some w \<longrightarrow>
      (\<exists>s'. EmulateLDRRtRnImm E opcode eEncodingT1 s = Some (True, s') \<and> pseudo_regs (am_host s') = R(t := w) \<and>
        ps_memory (am_host s') = M))"
proof -
  have b: "t \<le> 7" "n \<le> 7"
    using Bits32_bound [of opcode 2 0] Bits32_bound [of opcode 5 3] by (simp_all add: t n word_le_nat_alt)
  have reg: "t \<le> 16" "n \<le> 16" "n \<le> 15" "t \<noteq> 15" "n \<noteq> 15" "n \<noteq> 13"
    using b by (auto elim: order_trans)
  have imm': "push_bit 2 (Bits32 opcode 10 6) = imm"
    by (simp add: imm push_bit_eq_mult)
  note words = pseudo.write_word [where A = A and beyond = beyond and behind = behind, folded E]
    pseudo.read_word [where A = A and beyond = beyond and behind = behind, folded E]
  note regs = pseudo.read_core [where A = A and beyond = beyond and behind = behind, folded E]
    pseudo.read_dwarf [where A = A and beyond = beyond and behind = behind, folded E]
    pseudo.write_info [where A = A and beyond = beyond and behind = behind, folded E]
  have size: "ae_addr_size E = 4"
    using pseudo.addr_size [OF ok] by (simp add: E)
  have "EmulateSTRThumb E opcode eEncodingT1 s =
      Some (True, s\<lparr>am_host := StoreToPseudoAddress (ucast (R n - imm)) (R t) (am_host s)\<rparr>)"
    using pass un reg regs [OF ok] size
    by (simp add: EmulateSTRThumb_def access_address_def Let_def need_def check_def t [symmetric] n [symmetric] imm'
        words [OF ok] write_back_def core_value_def R)
  moreover have "EmulateLDRRtRnImm E opcode eEncodingT1 s = Some (True, s\<lparr>am_host := pseudo_set_reg (am_host s) t w\<rparr>)"
    if "M (ucast (R n + imm)) = Some w" for w
    using pass un reg regs(1) [OF ok] that
      pseudo.write_info [where A = A and beyond = beyond and behind = behind, folded E, OF ok
        generic_register_info(5) [OF reg(1)] reg(1)]
    by (simp add: EmulateLDRRtRnImm_def access_address_def Let_def need_def check_def t [symmetric] n [symmetric]
        imm' words [OF ok] write_back_def core_value_def R M)
  ultimately show ?thesis
    using pseudo.regs_set_word [OF ok] pseudo.words_set_word [OF ok] pseudo.regs_set_reg [OF ok reg(1)]
      pseudo.words_set_reg [OF ok reg(1)] by (simp add: R M)
qed

text \<open>\<open>STR r0, [r1, #4]\<close> and \<open>LDR r0, [r1, #4]\<close> with 16 in \<open>r1\<close>.\<close>

theorem STR_T1_stores_below_the_base_witness:
  "\<exists>s'. EmulateSTRThumb (with_pseudo_state demo_arch (\<lambda>_. 0) []) 0x6048 eEncodingT1
      ((demo_arm [(0, 5), (1, 16), (16, 0x10)])\<lparr>am_ignore := True\<rparr>) = Some (True, s') \<and>
     ps_memory (am_host s') 12 = Some 5 \<and> ps_memory (am_host s') 20 = None"
proof -
  let ?s = "(demo_arm [(0, 5), (1, 16), (16, 0x10)])\<lparr>am_ignore := True\<rparr>"
  have facts: "pseudo_ok (am_host ?s)" "ConditionPassed 0x6048 ?s" "UnalignedSupport ?s" "0 = Bits32 0x6048 2 0"
    "1 = Bits32 0x6048 5 3" "4 = 4 * Bits32 0x6048 10 6" "pseudo_regs (am_host ?s) 1 = 16"
    "pseudo_regs (am_host ?s) 0 = 5" "ps_memory (am_host ?s) 20 = None"
    by code_simp+
  have "pseudo_arch_ok demo_arch (am_host ?s)"
    using facts(1) by (simp add: pseudo_arch_ok_def)
  from STR_T1_stores_below_the_base [OF this facts(2-6) refl refl refl, of "\<lambda>_. 0" "[]", THEN conjunct1]
  show ?thesis
    unfolding facts(7,8) using facts(9) by auto
qed

section \<open>Single elements of a vector\<close>

lemma fails_need: "(\<And>x. v = Some x \<Longrightarrow> \<exists>s'. f x = Some (False, s')) \<Longrightarrow> \<exists>s'. need v s f = Some (False, s')"
  by (cases v) (auto simp: need_def)

lemma fails_check: "(\<And>s. \<exists>s'. f s = Some (False, s')) \<Longrightarrow> \<exists>s'. check r f = Some (False, s')"
  by (cases r) (simp add: check_def)

text \<open>The number of bits of a half-word or a word is taken for a number of bytes, more than a read can have.\<close>

lemma VLD1_single_fails:
  assumes "ConditionPassed opcode s" and "Bits32 opcode 11 10 \<in> {1, 2}"
  shows "\<exists>s'. EmulateVLD1Single E opcode eEncodingA1 s = Some (False, s')"
proof -
  have wide: "8 < 8 * ebytes" if "vld1_element opcode = Some (ebytes, index, alignment)" for ebytes index alignment
    using that assms(2) by (auto simp: vld1_element_def Let_def split: if_splits)
  have "Bits32 opcode 11 10 \<noteq> 3"
    using assms(2) by auto
  then show ?thesis
    using assms(1) unfolding EmulateVLD1Single_def vector_write_back_def
    by (auto simp: Let_def ReadMemoryUnsigned_def need_def [of None] intro!: fails_need fails_check
        dest!: wide)
qed

end
