(* ===== verification/ARMDecode.thy ===== *)
theory ARMDecode
  imports ARMTransfers
begin

text \<open>
  The decoder of \<open>EmulateInstructionARM.cpp\<close> and what runs around a callback: the two tables of opcodes and
  their search, the choice of the architecture and of the instruction set, reading the instruction at
  the program counter, \<open>EvaluateInstruction\<close> and the plan of a function's entry.

  A pointer to a callback is its name; \<open>arm_callback\<close> calls it. The assembler syntax of an entry, which
  only documents it, is left out.
\<close>

section \<open>Architectures\<close>

abbreviation (input) ARMv4 :: u32 where "ARMv4 \<equiv> 0x1"
abbreviation (input) ARMv4T :: u32 where "ARMv4T \<equiv> 0x2"
abbreviation (input) ARMv5TE :: u32 where "ARMv5TE \<equiv> 0x8"
abbreviation (input) ARMv5TEJ :: u32 where "ARMv5TEJ \<equiv> 0x10"
abbreviation (input) ARMv6K :: u32 where "ARMv6K \<equiv> 0x40"
abbreviation (input) ARMv6T2 :: u32 where "ARMv6T2 \<equiv> 0x80"
abbreviation (input) ARMv7S :: u32 where "ARMv7S \<equiv> 0x200"
abbreviation (input) ARMv8 :: u32 where "ARMv8 \<equiv> 0x400"
abbreviation (input) ARMV4T_ABOVE :: u32 where "ARMV4T_ABOVE \<equiv> 0x7fe"
abbreviation (input) ARMV5_ABOVE :: u32 where "ARMV5_ABOVE \<equiv> 0x7fc"
abbreviation (input) ARMV5TE_ABOVE :: u32 where "ARMV5TE_ABOVE \<equiv> 0x7f8"
abbreviation (input) ARMV5J_ABOVE :: u32 where "ARMV5J_ABOVE \<equiv> 0x7f0"
abbreviation (input) ARMV6_ABOVE :: u32 where "ARMV6_ABOVE \<equiv> 0x7e0"
abbreviation (input) ARMV6T2_ABOVE :: u32 where "ARMV6T2_ABOVE \<equiv> 0x780"
abbreviation (input) ARMV7_ABOVE :: u32 where "ARMV7_ABOVE \<equiv> 0x700"

abbreviation (input) No_VFP :: u32 where "No_VFP \<equiv> 0"
abbreviation (input) VFPv2v3 :: u32 where "VFPv2v3 \<equiv> 0xc"
abbreviation (input) AdvancedSIMD :: u32 where "AdvancedSIMD \<equiv> 0x10"
abbreviation (input) VFPv2_ABOVE :: u32 where "VFPv2_ABOVE \<equiv> 0x1c"

text \<open>\<open>strcasecmp\<close> in the C locale.\<close>

definition lower_case :: "char \<Rightarrow> char" where
  "lower_case c = (if 65 \<le> (of_char c :: nat) \<and> (of_char c :: nat) \<le> 90 then char_of (of_char c + 32 :: nat) else c)"

definition same_letters :: "string \<Rightarrow> string \<Rightarrow> bool" where
  "same_letters a b \<longleftrightarrow> map lower_case a = map lower_case b"

definition SetArchitecture :: "string option \<Rightarrow> 's arm \<Rightarrow> bool \<times> 's arm" where
  "SetArchitecture arch_cstr s =
     (let isa = (case arch_cstr of
          None \<Rightarrow> 0
        | Some a \<Rightarrow>
            if same_letters a ''armv4t'' then ARMv4T
            else if same_letters a ''armv5tej'' then ARMv5TEJ
            else if same_letters a ''armv5te'' then ARMv5TE
            else if same_letters a ''armv5t'' then ARMv5T
            else if same_letters a ''armv6k'' then ARMv6K
            else if same_letters a ''armv6t2'' then ARMv6T2
            else if same_letters a ''armv7s'' then ARMv7S
            else if same_letters a ''arm'' then ARMvAll
            else if same_letters a ''thumb'' then ARMvAll
            else if same_letters (take 5 a) ''armv4'' then ARMv4
            else if same_letters (take 5 a) ''armv6'' then ARMv6
            else if same_letters (take 5 a) ''armv7'' then ARMv7
            else if same_letters (take 5 a) ''armv8'' then ARMv8
            else 0)
      in (isa \<noteq> 0, s\<lparr>am_isa := isa\<rparr>))"

section \<open>The tables\<close>

datatype arm_size = eSize16 | eSize32

datatype arm_opcode =
  ARMOpcode (ao_mask: u32) (ao_value: u32) (ao_variants: u32) (ao_encoding: arm_encoding)
    (ao_vfp_variants: u32) (ao_size: arm_size) (ao_callback: string)

definition g_arm_opcodes :: "arm_opcode list" where
  "g_arm_opcodes =
    [ARMOpcode 0x0fff0000 0x092d0000 ARMvAll eEncodingA1 No_VFP eSize32 ''EmulatePUSH'',
     ARMOpcode 0x0fff0fff 0x052d0004 ARMvAll eEncodingA2 No_VFP eSize32 ''EmulatePUSH'',
     ARMOpcode 0x0ffff000 0x028d7000 ARMvAll eEncodingA1 No_VFP eSize32 ''EmulateADDRdSPImm'',
     ARMOpcode 0x0ffff000 0x024c7000 ARMvAll eEncodingA1 No_VFP eSize32 ''EmulateSUBR7IPImm'',
     ARMOpcode 0x0fffffff 0x01a0c00d ARMvAll eEncodingA1 No_VFP eSize32 ''EmulateMOVRdSP'',
     ARMOpcode 0x0ffff000 0x028dc000 ARMvAll eEncodingA1 No_VFP eSize32 ''EmulateADDRdSPImm'',
     ARMOpcode 0x0ffff000 0x024dc000 ARMvAll eEncodingA1 No_VFP eSize32 ''EmulateSUBIPSPImm'',
     ARMOpcode 0x0ffff000 0x024dd000 ARMvAll eEncodingA1 No_VFP eSize32 ''EmulateSUBSPImm'',
     ARMOpcode 0x0fef0010 0x004d0000 ARMvAll eEncodingA1 No_VFP eSize32 ''EmulateSUBSPReg'',
     ARMOpcode 0x0e5f0000 0x040d0000 ARMvAll eEncodingA1 No_VFP eSize32 ''EmulateSTRRtSP'',
     ARMOpcode 0x0fbf0f00 0x0d2d0b00 ARMV6T2_ABOVE eEncodingA1 No_VFP eSize32 ''EmulateVPUSH'',
     ARMOpcode 0x0fbf0f00 0x0d2d0a00 ARMV6T2_ABOVE eEncodingA2 No_VFP eSize32 ''EmulateVPUSH'',
     ARMOpcode 0x0fff0000 0x08bd0000 ARMvAll eEncodingA1 No_VFP eSize32 ''EmulatePOP'',
     ARMOpcode 0x0fff0fff 0x049d0004 ARMvAll eEncodingA2 No_VFP eSize32 ''EmulatePOP'',
     ARMOpcode 0x0fbf0f00 0x0cbd0b00 ARMV6T2_ABOVE eEncodingA1 No_VFP eSize32 ''EmulateVPOP'',
     ARMOpcode 0x0fbf0f00 0x0cbd0a00 ARMV6T2_ABOVE eEncodingA2 No_VFP eSize32 ''EmulateVPOP'',
     ARMOpcode 0x0f000000 0x0f000000 ARMvAll eEncodingA1 No_VFP eSize32 ''EmulateSVC'',
     ARMOpcode 0xfe000000 0xfa000000 ARMV5_ABOVE eEncodingA2 No_VFP eSize32 ''EmulateBLXImmediate'',
     ARMOpcode 0x0f000000 0x0a000000 ARMvAll eEncodingA1 No_VFP eSize32 ''EmulateB'',
     ARMOpcode 0x0f000000 0x0b000000 ARMvAll eEncodingA1 No_VFP eSize32 ''EmulateBLXImmediate'',
     ARMOpcode 0x0ffffff0 0x012fff30 ARMV5_ABOVE eEncodingA1 No_VFP eSize32 ''EmulateBLXRm'',
     ARMOpcode 0x0ffffff0 0x012fff10 ARMvAll eEncodingA1 No_VFP eSize32 ''EmulateBXRm'',
     ARMOpcode 0x0ffffff0 0x012fff20 ARMvAll eEncodingA1 No_VFP eSize32 ''EmulateBXJRm'',
     ARMOpcode 0x0fe00000 0x02a00000 ARMvAll eEncodingA1 No_VFP eSize32 ''EmulateADCImm'',
     ARMOpcode 0x0fe00010 0x00a00000 ARMvAll eEncodingA1 No_VFP eSize32 ''EmulateADCReg'',
     ARMOpcode 0x0fe00000 0x02800000 ARMvAll eEncodingA1 No_VFP eSize32 ''EmulateADDImmARM'',
     ARMOpcode 0x0fe00010 0x00800000 ARMvAll eEncodingA1 No_VFP eSize32 ''EmulateADDReg'',
     ARMOpcode 0x0fe00090 0x00800010 ARMvAll eEncodingA1 No_VFP eSize32 ''EmulateADDRegShift'',
     ARMOpcode 0x0fff0000 0x028f0000 ARMvAll eEncodingA1 No_VFP eSize32 ''EmulateADR'',
     ARMOpcode 0x0fff0000 0x024f0000 ARMvAll eEncodingA2 No_VFP eSize32 ''EmulateADR'',
     ARMOpcode 0x0fe00000 0x02000000 ARMvAll eEncodingA1 No_VFP eSize32 ''EmulateANDImm'',
     ARMOpcode 0x0fe00010 0x00000000 ARMvAll eEncodingA1 No_VFP eSize32 ''EmulateANDReg'',
     ARMOpcode 0x0fe00000 0x03c00000 ARMvAll eEncodingA1 No_VFP eSize32 ''EmulateBICImm'',
     ARMOpcode 0x0fe00010 0x01c00000 ARMvAll eEncodingA1 No_VFP eSize32 ''EmulateBICReg'',
     ARMOpcode 0x0fe00000 0x02200000 ARMvAll eEncodingA1 No_VFP eSize32 ''EmulateEORImm'',
     ARMOpcode 0x0fe00010 0x00200000 ARMvAll eEncodingA1 No_VFP eSize32 ''EmulateEORReg'',
     ARMOpcode 0x0fe00000 0x03800000 ARMvAll eEncodingA1 No_VFP eSize32 ''EmulateORRImm'',
     ARMOpcode 0x0fe00010 0x01800000 ARMvAll eEncodingA1 No_VFP eSize32 ''EmulateORRReg'',
     ARMOpcode 0x0fe00000 0x02600000 ARMvAll eEncodingA1 No_VFP eSize32 ''EmulateRSBImm'',
     ARMOpcode 0x0fe00010 0x00600000 ARMvAll eEncodingA1 No_VFP eSize32 ''EmulateRSBReg'',
     ARMOpcode 0x0fe00000 0x02e00000 ARMvAll eEncodingA1 No_VFP eSize32 ''EmulateRSCImm'',
     ARMOpcode 0x0fe00010 0x00e00000 ARMvAll eEncodingA1 No_VFP eSize32 ''EmulateRSCReg'',
     ARMOpcode 0x0fe00000 0x02c00000 ARMvAll eEncodingA1 No_VFP eSize32 ''EmulateSBCImm'',
     ARMOpcode 0x0fe00010 0x00c00000 ARMvAll eEncodingA1 No_VFP eSize32 ''EmulateSBCReg'',
     ARMOpcode 0x0fe00000 0x02400000 ARMvAll eEncodingA1 No_VFP eSize32 ''EmulateSUBImmARM'',
     ARMOpcode 0x0fef0000 0x024d0000 ARMvAll eEncodingA1 No_VFP eSize32 ''EmulateSUBSPImm'',
     ARMOpcode 0x0fe00010 0x00400000 ARMvAll eEncodingA1 No_VFP eSize32 ''EmulateSUBReg'',
     ARMOpcode 0x0ff0f000 0x03300000 ARMvAll eEncodingA1 No_VFP eSize32 ''EmulateTEQImm'',
     ARMOpcode 0x0ff0f010 0x01300000 ARMvAll eEncodingA1 No_VFP eSize32 ''EmulateTEQReg'',
     ARMOpcode 0x0ff0f000 0x03100000 ARMvAll eEncodingA1 No_VFP eSize32 ''EmulateTSTImm'',
     ARMOpcode 0x0ff0f010 0x01100000 ARMvAll eEncodingA1 No_VFP eSize32 ''EmulateTSTReg'',
     ARMOpcode 0x0fef0000 0x03a00000 ARMvAll eEncodingA1 No_VFP eSize32 ''EmulateMOVRdImm'',
     ARMOpcode 0x0ff00000 0x03000000 ARMV6T2_ABOVE eEncodingA2 No_VFP eSize32 ''EmulateMOVRdImm'',
     ARMOpcode 0x0fef0ff0 0x01a00000 ARMvAll eEncodingA1 No_VFP eSize32 ''EmulateMOVRdRm'',
     ARMOpcode 0x0fef0000 0x03e00000 ARMvAll eEncodingA1 No_VFP eSize32 ''EmulateMVNImm'',
     ARMOpcode 0x0fef0010 0x01e00000 ARMvAll eEncodingA1 No_VFP eSize32 ''EmulateMVNReg'',
     ARMOpcode 0x0ff0f000 0x03700000 ARMvAll eEncodingA1 No_VFP eSize32 ''EmulateCMNImm'',
     ARMOpcode 0x0ff0f010 0x01700000 ARMvAll eEncodingA1 No_VFP eSize32 ''EmulateCMNReg'',
     ARMOpcode 0x0ff0f000 0x03500000 ARMvAll eEncodingA1 No_VFP eSize32 ''EmulateCMPImm'',
     ARMOpcode 0x0ff0f010 0x01500000 ARMvAll eEncodingA1 No_VFP eSize32 ''EmulateCMPReg'',
     ARMOpcode 0x0fef0070 0x01a00040 ARMvAll eEncodingA1 No_VFP eSize32 ''EmulateASRImm'',
     ARMOpcode 0x0fef00f0 0x01a00050 ARMvAll eEncodingA1 No_VFP eSize32 ''EmulateASRReg'',
     ARMOpcode 0x0fef0070 0x01a00000 ARMvAll eEncodingA1 No_VFP eSize32 ''EmulateLSLImm'',
     ARMOpcode 0x0fef00f0 0x01a00010 ARMvAll eEncodingA1 No_VFP eSize32 ''EmulateLSLReg'',
     ARMOpcode 0x0fef0070 0x01a00020 ARMvAll eEncodingA1 No_VFP eSize32 ''EmulateLSRImm'',
     ARMOpcode 0x0fef00f0 0x01a00050 ARMvAll eEncodingA1 No_VFP eSize32 ''EmulateLSRReg'',
     ARMOpcode 0x0fef0ff0 0x01a00060 ARMvAll eEncodingA1 No_VFP eSize32 ''EmulateRRX'',
     ARMOpcode 0x0fef0070 0x01a00060 ARMvAll eEncodingA1 No_VFP eSize32 ''EmulateRORImm'',
     ARMOpcode 0x0fef00f0 0x01a00070 ARMvAll eEncodingA1 No_VFP eSize32 ''EmulateRORReg'',
     ARMOpcode 0x0fe000f0 0x00000090 ARMvAll eEncodingA1 No_VFP eSize32 ''EmulateMUL'',
     ARMOpcode 0x0e10f000 0x0210f000 ARMvAll eEncodingA1 No_VFP eSize32 ''EmulateSUBSPcLrEtc'',
     ARMOpcode 0x0e10f010 0x0010f000 ARMvAll eEncodingA2 No_VFP eSize32 ''EmulateSUBSPcLrEtc'',
     ARMOpcode 0x0fd00000 0x08900000 ARMvAll eEncodingA1 No_VFP eSize32 ''EmulateLDM'',
     ARMOpcode 0x0fd00000 0x08100000 ARMvAll eEncodingA1 No_VFP eSize32 ''EmulateLDMDA'',
     ARMOpcode 0x0fd00000 0x09100000 ARMvAll eEncodingA1 No_VFP eSize32 ''EmulateLDMDB'',
     ARMOpcode 0x0fd00000 0x09900000 ARMvAll eEncodingA1 No_VFP eSize32 ''EmulateLDMIB'',
     ARMOpcode 0x0e500000 0x04100000 ARMvAll eEncodingA1 No_VFP eSize32 ''EmulateLDRImmediateARM'',
     ARMOpcode 0x0e500010 0x06100000 ARMvAll eEncodingA1 No_VFP eSize32 ''EmulateLDRRegister'',
     ARMOpcode 0x0e5f0000 0x045f0000 ARMvAll eEncodingA1 No_VFP eSize32 ''EmulateLDRBLiteral'',
     ARMOpcode 0xfe500010 0x06500000 ARMvAll eEncodingA1 No_VFP eSize32 ''EmulateLDRBRegister'',
     ARMOpcode 0x0e5f00f0 0x005f00b0 ARMvAll eEncodingA1 No_VFP eSize32 ''EmulateLDRHLiteral'',
     ARMOpcode 0x0e5000f0 0x001000b0 ARMvAll eEncodingA1 No_VFP eSize32 ''EmulateLDRHRegister'',
     ARMOpcode 0x0e5000f0 0x005000d0 ARMvAll eEncodingA1 No_VFP eSize32 ''EmulateLDRSBImmediate'',
     ARMOpcode 0x0e5f00f0 0x005f00d0 ARMvAll eEncodingA1 No_VFP eSize32 ''EmulateLDRSBLiteral'',
     ARMOpcode 0x0e5000f0 0x001000d0 ARMvAll eEncodingA1 No_VFP eSize32 ''EmulateLDRSBRegister'',
     ARMOpcode 0x0e5000f0 0x005000f0 ARMvAll eEncodingA1 No_VFP eSize32 ''EmulateLDRSHImmediate'',
     ARMOpcode 0x0e5f00f0 0x005f00f0 ARMvAll eEncodingA1 No_VFP eSize32 ''EmulateLDRSHLiteral'',
     ARMOpcode 0x0e5000f0 0x001000f0 ARMvAll eEncodingA1 No_VFP eSize32 ''EmulateLDRSHRegister'',
     ARMOpcode 0x0e5000f0 0x004000d0 ARMV5TE_ABOVE eEncodingA1 No_VFP eSize32 ''EmulateLDRDImmediate'',
     ARMOpcode 0x0e500ff0 0x000000d0 ARMV5TE_ABOVE eEncodingA1 No_VFP eSize32 ''EmulateLDRDRegister'',
     ARMOpcode 0x0e100f00 0x0c100b00 ARMvAll eEncodingA1 VFPv2_ABOVE eSize32 ''EmulateVLDM'',
     ARMOpcode 0x0e100f00 0x0c100a00 ARMvAll eEncodingA2 VFPv2v3 eSize32 ''EmulateVLDM'',
     ARMOpcode 0x0f300f00 0x0d100b00 ARMvAll eEncodingA1 VFPv2_ABOVE eSize32 ''EmulateVLDR'',
     ARMOpcode 0x0f300f00 0x0d100a00 ARMvAll eEncodingA2 VFPv2v3 eSize32 ''EmulateVLDR'',
     ARMOpcode 0xffb00000 0xf4200000 ARMvAll eEncodingA1 AdvancedSIMD eSize32 ''EmulateVLD1Multiple'',
     ARMOpcode 0xffb00300 0xf4a00000 ARMvAll eEncodingA1 AdvancedSIMD eSize32 ''EmulateVLD1Single'',
     ARMOpcode 0xffb00f00 0xf4a00c00 ARMvAll eEncodingA1 AdvancedSIMD eSize32 ''EmulateVLD1SingleAll'',
     ARMOpcode 0x0fd00000 0x08800000 ARMvAll eEncodingA1 No_VFP eSize32 ''EmulateSTM'',
     ARMOpcode 0x0fd00000 0x08000000 ARMvAll eEncodingA1 No_VFP eSize32 ''EmulateSTMDA'',
     ARMOpcode 0x0fd00000 0x09000000 ARMvAll eEncodingA1 No_VFP eSize32 ''EmulateSTMDB'',
     ARMOpcode 0x0fd00000 0x09800000 ARMvAll eEncodingA1 No_VFP eSize32 ''EmulateSTMIB'',
     ARMOpcode 0x0e500010 0x06000000 ARMvAll eEncodingA1 No_VFP eSize32 ''EmulateSTRRegister'',
     ARMOpcode 0x0e5000f0 0x000000b0 ARMvAll eEncodingA1 No_VFP eSize32 ''EmulateSTRHRegister'',
     ARMOpcode 0x0ff00ff0 0x01800f90 ARMV6_ABOVE eEncodingA1 No_VFP eSize32 ''EmulateSTREX'',
     ARMOpcode 0x0e500000 0x04400000 ARMvAll eEncodingA1 No_VFP eSize32 ''EmulateSTRBImmARM'',
     ARMOpcode 0x0e500000 0x04000000 ARMvAll eEncodingA1 No_VFP eSize32 ''EmulateSTRImmARM'',
     ARMOpcode 0x0e5000f0 0x004000f0 ARMV5TE_ABOVE eEncodingA1 No_VFP eSize32 ''EmulateSTRDImm'',
     ARMOpcode 0x0e500ff0 0x000000f0 ARMV5TE_ABOVE eEncodingA1 No_VFP eSize32 ''EmulateSTRDReg'',
     ARMOpcode 0x0e100f00 0x0c000b00 ARMvAll eEncodingA1 VFPv2_ABOVE eSize32 ''EmulateVSTM'',
     ARMOpcode 0x0e100f00 0x0c000a00 ARMvAll eEncodingA2 VFPv2v3 eSize32 ''EmulateVSTM'',
     ARMOpcode 0x0f300f00 0x0d000b00 ARMvAll eEncodingA1 VFPv2_ABOVE eSize32 ''EmulateVSTR'',
     ARMOpcode 0x0f300f00 0x0d000a00 ARMvAll eEncodingA2 VFPv2v3 eSize32 ''EmulateVSTR'',
     ARMOpcode 0xffb00000 0xf4000000 ARMvAll eEncodingA1 AdvancedSIMD eSize32 ''EmulateVST1Multiple'',
     ARMOpcode 0xffb00300 0xf4800000 ARMvAll eEncodingA1 AdvancedSIMD eSize32 ''EmulateVST1Single'',
     ARMOpcode 0x0fff00f0 0x06af00f0 ARMV6_ABOVE eEncodingA1 No_VFP eSize32 ''EmulateSXTB'',
     ARMOpcode 0x0fff00f0 0x06bf0070 ARMV6_ABOVE eEncodingA1 No_VFP eSize32 ''EmulateSXTH'',
     ARMOpcode 0x0fff00f0 0x06ef0070 ARMV6_ABOVE eEncodingA1 No_VFP eSize32 ''EmulateUXTB'',
     ARMOpcode 0x0fff00f0 0x06ff0070 ARMV6_ABOVE eEncodingA1 No_VFP eSize32 ''EmulateUXTH'',
     ARMOpcode 0xfe500000 0xf8100000 ARMV6_ABOVE eEncodingA1 No_VFP eSize32 ''EmulateRFE'']"

definition g_thumb_opcodes :: "arm_opcode list" where
  "g_thumb_opcodes =
    [ARMOpcode 0xfffffe00 0x0000b400 ARMvAll eEncodingT1 No_VFP eSize16 ''EmulatePUSH'',
     ARMOpcode 0xffff0000 0xe92d0000 ARMV6T2_ABOVE eEncodingT2 No_VFP eSize32 ''EmulatePUSH'',
     ARMOpcode 0xffff0fff 0xf84d0d04 ARMV6T2_ABOVE eEncodingT3 No_VFP eSize32 ''EmulatePUSH'',
     ARMOpcode 0xffffff00 0x0000af00 ARMvAll eEncodingT1 No_VFP eSize16 ''EmulateADDRdSPImm'',
     ARMOpcode 0xffffffff 0x0000466f ARMvAll eEncodingT1 No_VFP eSize16 ''EmulateMOVRdSP'',
     ARMOpcode 0xffffffc0 0x00004640 ARMvAll eEncodingT1 No_VFP eSize16 ''EmulateMOVLowHigh'',
     ARMOpcode 0xfffff800 0x00004800 ARMvAll eEncodingT1 No_VFP eSize16 ''EmulateLDRRtPCRelative'',
     ARMOpcode 0xffffff87 0x00004485 ARMvAll eEncodingT2 No_VFP eSize16 ''EmulateADDSPRm'',
     ARMOpcode 0xffffff80 0x0000b080 ARMvAll eEncodingT1 No_VFP eSize16 ''EmulateSUBSPImm'',
     ARMOpcode 0xfbef8f00 0xf1ad0d00 ARMV6T2_ABOVE eEncodingT2 No_VFP eSize32 ''EmulateSUBSPImm'',
     ARMOpcode 0xfbff8f00 0xf2ad0d00 ARMV6T2_ABOVE eEncodingT3 No_VFP eSize32 ''EmulateSUBSPImm'',
     ARMOpcode 0xffef8000 0xebad0000 ARMV6T2_ABOVE eEncodingT1 No_VFP eSize32 ''EmulateSUBSPReg'',
     ARMOpcode 0xffbf0f00 0xed2d0b00 ARMV6T2_ABOVE eEncodingT1 No_VFP eSize32 ''EmulateVPUSH'',
     ARMOpcode 0xffbf0f00 0xed2d0a00 ARMV6T2_ABOVE eEncodingT2 No_VFP eSize32 ''EmulateVPUSH'',
     ARMOpcode 0xfffff800 0x0000a800 ARMV4T_ABOVE eEncodingT1 No_VFP eSize16 ''EmulateADDSPImm'',
     ARMOpcode 0xffffff80 0x0000b000 ARMvAll eEncodingT2 No_VFP eSize16 ''EmulateADDSPImm'',
     ARMOpcode 0xfffffe00 0x0000bc00 ARMvAll eEncodingT1 No_VFP eSize16 ''EmulatePOP'',
     ARMOpcode 0xffff0000 0xe8bd0000 ARMV6T2_ABOVE eEncodingT2 No_VFP eSize32 ''EmulatePOP'',
     ARMOpcode 0xffff0fff 0xf85d0d04 ARMV6T2_ABOVE eEncodingT3 No_VFP eSize32 ''EmulatePOP'',
     ARMOpcode 0xffbf0f00 0xecbd0b00 ARMV6T2_ABOVE eEncodingT1 No_VFP eSize32 ''EmulateVPOP'',
     ARMOpcode 0xffbf0f00 0xecbd0a00 ARMV6T2_ABOVE eEncodingT2 No_VFP eSize32 ''EmulateVPOP'',
     ARMOpcode 0xffffff00 0x0000df00 ARMvAll eEncodingT1 No_VFP eSize16 ''EmulateSVC'',
     ARMOpcode 0xffffffff 0x0000bf00 ARMV6T2_ABOVE eEncodingT1 No_VFP eSize16 ''EmulateNop'',
     ARMOpcode 0xffffffff 0x0000bf10 ARMV7_ABOVE eEncodingT1 No_VFP eSize16 ''EmulateNop'',
     ARMOpcode 0xffffffff 0x0000bf20 ARMV7_ABOVE eEncodingT1 No_VFP eSize16 ''EmulateNop'',
     ARMOpcode 0xffffffff 0x0000bf30 ARMV7_ABOVE eEncodingT1 No_VFP eSize16 ''EmulateNop'',
     ARMOpcode 0xffffffff 0x0000bf40 ARMV7_ABOVE eEncodingT1 No_VFP eSize16 ''EmulateNop'',
     ARMOpcode 0xffffff00 0x0000bf00 ARMV6T2_ABOVE eEncodingT1 No_VFP eSize16 ''EmulateIT'',
     ARMOpcode 0xfffff000 0x0000d000 ARMvAll eEncodingT1 No_VFP eSize16 ''EmulateB'',
     ARMOpcode 0xfffff800 0x0000e000 ARMvAll eEncodingT2 No_VFP eSize16 ''EmulateB'',
     ARMOpcode 0xf800d000 0xf0008000 ARMV6T2_ABOVE eEncodingT3 No_VFP eSize32 ''EmulateB'',
     ARMOpcode 0xf800d000 0xf0009000 ARMV6T2_ABOVE eEncodingT4 No_VFP eSize32 ''EmulateB'',
     ARMOpcode 0xf800d000 0xf000d000 ARMV4T_ABOVE eEncodingT1 No_VFP eSize32 ''EmulateBLXImmediate'',
     ARMOpcode 0xf800d001 0xf000c000 ARMV5_ABOVE eEncodingT2 No_VFP eSize32 ''EmulateBLXImmediate'',
     ARMOpcode 0xffffff87 0x00004780 ARMV5_ABOVE eEncodingT1 No_VFP eSize16 ''EmulateBLXRm'',
     ARMOpcode 0xffffff87 0x00004700 ARMvAll eEncodingT1 No_VFP eSize32 ''EmulateBXRm'',
     ARMOpcode 0xfff0ffff 0xf3c08f00 ARMV5J_ABOVE eEncodingT1 No_VFP eSize32 ''EmulateBXJRm'',
     ARMOpcode 0xfffff500 0x0000b100 ARMV6T2_ABOVE eEncodingT1 No_VFP eSize16 ''EmulateCB'',
     ARMOpcode 0xfff0fff0 0xe8d0f000 ARMV6T2_ABOVE eEncodingT1 No_VFP eSize32 ''EmulateTB'',
     ARMOpcode 0xfff0fff0 0xe8d0f010 ARMV6T2_ABOVE eEncodingT1 No_VFP eSize32 ''EmulateTB'',
     ARMOpcode 0xfbe08000 0xf1400000 ARMV6T2_ABOVE eEncodingT1 No_VFP eSize32 ''EmulateADCImm'',
     ARMOpcode 0xffffffc0 0x00004140 ARMvAll eEncodingT1 No_VFP eSize16 ''EmulateADCReg'',
     ARMOpcode 0xffe08000 0xeb400000 ARMV6T2_ABOVE eEncodingT2 No_VFP eSize32 ''EmulateADCReg'',
     ARMOpcode 0xfffffe00 0x00001800 ARMvAll eEncodingT1 No_VFP eSize16 ''EmulateADDReg'',
     ARMOpcode 0xffffff00 0x00004400 ARMvAll eEncodingT2 No_VFP eSize16 ''EmulateADDReg'',
     ARMOpcode 0xfffff800 0x0000a000 ARMvAll eEncodingT1 No_VFP eSize16 ''EmulateADR'',
     ARMOpcode 0xfbff8000 0xf2af0000 ARMV6T2_ABOVE eEncodingT2 No_VFP eSize32 ''EmulateADR'',
     ARMOpcode 0xfbff8000 0xf20f0000 ARMV6T2_ABOVE eEncodingT3 No_VFP eSize32 ''EmulateADR'',
     ARMOpcode 0xfbe08000 0xf0000000 ARMV6T2_ABOVE eEncodingT1 No_VFP eSize32 ''EmulateANDImm'',
     ARMOpcode 0xffffffc0 0x00004000 ARMvAll eEncodingT1 No_VFP eSize16 ''EmulateANDReg'',
     ARMOpcode 0xffe08000 0xea000000 ARMV6T2_ABOVE eEncodingT2 No_VFP eSize32 ''EmulateANDReg'',
     ARMOpcode 0xfbe08000 0xf0200000 ARMV6T2_ABOVE eEncodingT1 No_VFP eSize32 ''EmulateBICImm'',
     ARMOpcode 0xffffffc0 0x00004380 ARMvAll eEncodingT1 No_VFP eSize16 ''EmulateBICReg'',
     ARMOpcode 0xffe08000 0xea200000 ARMV6T2_ABOVE eEncodingT2 No_VFP eSize32 ''EmulateBICReg'',
     ARMOpcode 0xfbe08000 0xf0800000 ARMV6T2_ABOVE eEncodingT1 No_VFP eSize32 ''EmulateEORImm'',
     ARMOpcode 0xffffffc0 0x00004040 ARMvAll eEncodingT1 No_VFP eSize16 ''EmulateEORReg'',
     ARMOpcode 0xffe08000 0xea800000 ARMV6T2_ABOVE eEncodingT2 No_VFP eSize32 ''EmulateEORReg'',
     ARMOpcode 0xfbe08000 0xf0400000 ARMV6T2_ABOVE eEncodingT1 No_VFP eSize32 ''EmulateORRImm'',
     ARMOpcode 0xffffffc0 0x00004300 ARMvAll eEncodingT1 No_VFP eSize16 ''EmulateORRReg'',
     ARMOpcode 0xffe08000 0xea400000 ARMV6T2_ABOVE eEncodingT2 No_VFP eSize32 ''EmulateORRReg'',
     ARMOpcode 0xffffffc0 0x00004240 ARMvAll eEncodingT1 No_VFP eSize16 ''EmulateRSBImm'',
     ARMOpcode 0xfbe08000 0xf1c00000 ARMV6T2_ABOVE eEncodingT2 No_VFP eSize32 ''EmulateRSBImm'',
     ARMOpcode 0xffe08000 0xea400000 ARMV6T2_ABOVE eEncodingT1 No_VFP eSize32 ''EmulateRSBReg'',
     ARMOpcode 0xfbe08000 0xf1600000 ARMV6T2_ABOVE eEncodingT1 No_VFP eSize32 ''EmulateSBCImm'',
     ARMOpcode 0xffffffc0 0x00004180 ARMvAll eEncodingT1 No_VFP eSize16 ''EmulateSBCReg'',
     ARMOpcode 0xffe08000 0xeb600000 ARMV6T2_ABOVE eEncodingT2 No_VFP eSize32 ''EmulateSBCReg'',
     ARMOpcode 0xfffffe00 0x00001c00 ARMV4T_ABOVE eEncodingT1 No_VFP eSize16 ''EmulateADDImmThumb'',
     ARMOpcode 0xfffff800 0x00003000 ARMV4T_ABOVE eEncodingT2 No_VFP eSize16 ''EmulateADDImmThumb'',
     ARMOpcode 0xfbe08000 0xf1000000 ARMV6T2_ABOVE eEncodingT3 No_VFP eSize32 ''EmulateADDImmThumb'',
     ARMOpcode 0xfbf08000 0xf2000000 ARMV6T2_ABOVE eEncodingT4 No_VFP eSize32 ''EmulateADDImmThumb'',
     ARMOpcode 0xfffffe00 0x00001e00 ARMvAll eEncodingT1 No_VFP eSize16 ''EmulateSUBImmThumb'',
     ARMOpcode 0xfffff800 0x00003800 ARMvAll eEncodingT2 No_VFP eSize16 ''EmulateSUBImmThumb'',
     ARMOpcode 0xfbe08000 0xf1a00000 ARMV6T2_ABOVE eEncodingT3 No_VFP eSize32 ''EmulateSUBImmThumb'',
     ARMOpcode 0xfbf08000 0xf2a00000 ARMV6T2_ABOVE eEncodingT4 No_VFP eSize32 ''EmulateSUBImmThumb'',
     ARMOpcode 0xfbef8000 0xf1ad0000 ARMV6T2_ABOVE eEncodingT2 No_VFP eSize32 ''EmulateSUBSPImm'',
     ARMOpcode 0xfbff8000 0xf2ad0000 ARMV6T2_ABOVE eEncodingT3 No_VFP eSize32 ''EmulateSUBSPImm'',
     ARMOpcode 0xfffffe00 0x00001a00 ARMV4T_ABOVE eEncodingT1 No_VFP eSize16 ''EmulateSUBReg'',
     ARMOpcode 0xffe08000 0xeba00000 ARMV6T2_ABOVE eEncodingT2 No_VFP eSize32 ''EmulateSUBReg'',
     ARMOpcode 0xfbf08f00 0xf0900f00 ARMV6T2_ABOVE eEncodingT1 No_VFP eSize32 ''EmulateTEQImm'',
     ARMOpcode 0xfff08f00 0xea900f00 ARMV6T2_ABOVE eEncodingT1 No_VFP eSize32 ''EmulateTEQReg'',
     ARMOpcode 0xfbf08f00 0xf0100f00 ARMV6T2_ABOVE eEncodingT1 No_VFP eSize32 ''EmulateTSTImm'',
     ARMOpcode 0xffffffc0 0x00004200 ARMvAll eEncodingT1 No_VFP eSize16 ''EmulateTSTReg'',
     ARMOpcode 0xfff08f00 0xea100f00 ARMV6T2_ABOVE eEncodingT2 No_VFP eSize32 ''EmulateTSTReg'',
     ARMOpcode 0xffffff00 0x00004600 ARMvAll eEncodingT1 No_VFP eSize16 ''EmulateMOVRdRm'',
     ARMOpcode 0xffffffc0 0x00000000 ARMvAll eEncodingT2 No_VFP eSize16 ''EmulateMOVRdRm'',
     ARMOpcode 0xffeff0f0 0xea4f0000 ARMV6T2_ABOVE eEncodingT3 No_VFP eSize32 ''EmulateMOVRdRm'',
     ARMOpcode 0xfffff800 0x00002000 ARMvAll eEncodingT1 No_VFP eSize16 ''EmulateMOVRdImm'',
     ARMOpcode 0xfbef8000 0xf04f0000 ARMV6T2_ABOVE eEncodingT2 No_VFP eSize32 ''EmulateMOVRdImm'',
     ARMOpcode 0xfbf08000 0xf2400000 ARMV6T2_ABOVE eEncodingT3 No_VFP eSize32 ''EmulateMOVRdImm'',
     ARMOpcode 0xfbef8000 0xf06f0000 ARMV6T2_ABOVE eEncodingT1 No_VFP eSize32 ''EmulateMVNImm'',
     ARMOpcode 0xffffffc0 0x000043c0 ARMvAll eEncodingT1 No_VFP eSize16 ''EmulateMVNReg'',
     ARMOpcode 0xffef8000 0xea6f0000 ARMV6T2_ABOVE eEncodingT2 No_VFP eSize32 ''EmulateMVNReg'',
     ARMOpcode 0xfbf08f00 0xf1100f00 ARMV6T2_ABOVE eEncodingT1 No_VFP eSize32 ''EmulateCMNImm'',
     ARMOpcode 0xffffffc0 0x000042c0 ARMvAll eEncodingT1 No_VFP eSize16 ''EmulateCMNReg'',
     ARMOpcode 0xfff08f00 0xeb100f00 ARMV6T2_ABOVE eEncodingT2 No_VFP eSize32 ''EmulateCMNReg'',
     ARMOpcode 0xfffff800 0x00002800 ARMvAll eEncodingT1 No_VFP eSize16 ''EmulateCMPImm'',
     ARMOpcode 0xfbf08f00 0xf1b00f00 ARMV6T2_ABOVE eEncodingT2 No_VFP eSize32 ''EmulateCMPImm'',
     ARMOpcode 0xffffffc0 0x00004280 ARMvAll eEncodingT1 No_VFP eSize16 ''EmulateCMPReg'',
     ARMOpcode 0xffffff00 0x00004500 ARMvAll eEncodingT2 No_VFP eSize16 ''EmulateCMPReg'',
     ARMOpcode 0xfff08f00 0xebb00f00 ARMvAll eEncodingT3 No_VFP eSize16 ''EmulateCMPReg'',
     ARMOpcode 0xfffff800 0x00001000 ARMvAll eEncodingT1 No_VFP eSize16 ''EmulateASRImm'',
     ARMOpcode 0xffef8030 0xea4f0020 ARMV6T2_ABOVE eEncodingT2 No_VFP eSize32 ''EmulateASRImm'',
     ARMOpcode 0xffffffc0 0x00004100 ARMvAll eEncodingT1 No_VFP eSize16 ''EmulateASRReg'',
     ARMOpcode 0xffe0f0f0 0xfa40f000 ARMV6T2_ABOVE eEncodingT2 No_VFP eSize32 ''EmulateASRReg'',
     ARMOpcode 0xfffff800 0x00000000 ARMvAll eEncodingT1 No_VFP eSize16 ''EmulateLSLImm'',
     ARMOpcode 0xffef8030 0xea4f0000 ARMV6T2_ABOVE eEncodingT2 No_VFP eSize32 ''EmulateLSLImm'',
     ARMOpcode 0xffffffc0 0x00004080 ARMvAll eEncodingT1 No_VFP eSize16 ''EmulateLSLReg'',
     ARMOpcode 0xffe0f0f0 0xfa00f000 ARMV6T2_ABOVE eEncodingT2 No_VFP eSize32 ''EmulateLSLReg'',
     ARMOpcode 0xfffff800 0x00000800 ARMvAll eEncodingT1 No_VFP eSize16 ''EmulateLSRImm'',
     ARMOpcode 0xffef8030 0xea4f0010 ARMV6T2_ABOVE eEncodingT2 No_VFP eSize32 ''EmulateLSRImm'',
     ARMOpcode 0xffffffc0 0x000040c0 ARMvAll eEncodingT1 No_VFP eSize16 ''EmulateLSRReg'',
     ARMOpcode 0xffe0f0f0 0xfa20f000 ARMV6T2_ABOVE eEncodingT2 No_VFP eSize32 ''EmulateLSRReg'',
     ARMOpcode 0xffeff0f0 0xea4f0030 ARMV6T2_ABOVE eEncodingT1 No_VFP eSize32 ''EmulateRRX'',
     ARMOpcode 0xffef8030 0xea4f0030 ARMV6T2_ABOVE eEncodingT1 No_VFP eSize32 ''EmulateRORImm'',
     ARMOpcode 0xffffffc0 0x000041c0 ARMvAll eEncodingT1 No_VFP eSize16 ''EmulateRORReg'',
     ARMOpcode 0xffe0f0f0 0xfa60f000 ARMV6T2_ABOVE eEncodingT2 No_VFP eSize32 ''EmulateRORReg'',
     ARMOpcode 0xffffffc0 0x00004340 ARMV4T_ABOVE eEncodingT1 No_VFP eSize16 ''EmulateMUL'',
     ARMOpcode 0xfff0f0f0 0xfb00f000 ARMV6T2_ABOVE eEncodingT2 No_VFP eSize32 ''EmulateMUL'',
     ARMOpcode 0xffffff00 0xf3de8f00 ARMV6T2_ABOVE eEncodingT1 No_VFP eSize32 ''EmulateSUBSPcLrEtc'',
     ARMOpcode 0xffd0ffff 0xe810c000 ARMV6T2_ABOVE eEncodingT1 No_VFP eSize32 ''EmulateRFE'',
     ARMOpcode 0xffd0ffff 0xe990c000 ARMV6T2_ABOVE eEncodingT2 No_VFP eSize32 ''EmulateRFE'',
     ARMOpcode 0xfffff800 0x0000c800 ARMV4T_ABOVE eEncodingT1 No_VFP eSize16 ''EmulateLDM'',
     ARMOpcode 0xffd02000 0xe8900000 ARMV6T2_ABOVE eEncodingT2 No_VFP eSize32 ''EmulateLDM'',
     ARMOpcode 0xffd00000 0xe9100000 ARMV6T2_ABOVE eEncodingT1 No_VFP eSize32 ''EmulateLDMDB'',
     ARMOpcode 0xfffff800 0x00006800 ARMV4T_ABOVE eEncodingT1 No_VFP eSize16 ''EmulateLDRRtRnImm'',
     ARMOpcode 0xfffff800 0x00009800 ARMV4T_ABOVE eEncodingT2 No_VFP eSize16 ''EmulateLDRRtRnImm'',
     ARMOpcode 0xfff00000 0xf8d00000 ARMV6T2_ABOVE eEncodingT3 No_VFP eSize32 ''EmulateLDRRtRnImm'',
     ARMOpcode 0xfff00800 0xf8500800 ARMV6T2_ABOVE eEncodingT4 No_VFP eSize32 ''EmulateLDRRtRnImm'',
     ARMOpcode 0xff7f0000 0xf85f0000 ARMV6T2_ABOVE eEncodingT2 No_VFP eSize32 ''EmulateLDRRtPCRelative'',
     ARMOpcode 0xfffffe00 0x00005800 ARMV4T_ABOVE eEncodingT1 No_VFP eSize16 ''EmulateLDRRegister'',
     ARMOpcode 0xfff00fc0 0xf8500000 ARMV6T2_ABOVE eEncodingT2 No_VFP eSize32 ''EmulateLDRRegister'',
     ARMOpcode 0xfffff800 0x00007800 ARMV4T_ABOVE eEncodingT1 No_VFP eSize16 ''EmulateLDRBImmediate'',
     ARMOpcode 0xfff00000 0xf8900000 ARMV6T2_ABOVE eEncodingT2 No_VFP eSize32 ''EmulateLDRBImmediate'',
     ARMOpcode 0xfff00800 0xf8100800 ARMV6T2_ABOVE eEncodingT3 No_VFP eSize32 ''EmulateLDRBImmediate'',
     ARMOpcode 0xff7f0000 0xf81f0000 ARMV6T2_ABOVE eEncodingT1 No_VFP eSize32 ''EmulateLDRBLiteral'',
     ARMOpcode 0xfffffe00 0x00005c00 ARMV6T2_ABOVE eEncodingT1 No_VFP eSize16 ''EmulateLDRBRegister'',
     ARMOpcode 0xfff00fc0 0xf8100000 ARMV6T2_ABOVE eEncodingT2 No_VFP eSize32 ''EmulateLDRBRegister'',
     ARMOpcode 0xfffff800 0x00008800 ARMV4T_ABOVE eEncodingT1 No_VFP eSize16 ''EmulateLDRHImmediate'',
     ARMOpcode 0xfff00000 0xf8b00000 ARMV6T2_ABOVE eEncodingT2 No_VFP eSize32 ''EmulateLDRHImmediate'',
     ARMOpcode 0xfff00800 0xf8300800 ARMV6T2_ABOVE eEncodingT3 No_VFP eSize32 ''EmulateLDRHImmediate'',
     ARMOpcode 0xff7f0000 0xf83f0000 ARMV6T2_ABOVE eEncodingT1 No_VFP eSize32 ''EmulateLDRHLiteral'',
     ARMOpcode 0xfffffe00 0x00005a00 ARMV4T_ABOVE eEncodingT1 No_VFP eSize16 ''EmulateLDRHRegister'',
     ARMOpcode 0xfff00fc0 0xf8300000 ARMV6T2_ABOVE eEncodingT2 No_VFP eSize32 ''EmulateLDRHRegister'',
     ARMOpcode 0xfff00000 0xf9900000 ARMV6T2_ABOVE eEncodingT1 No_VFP eSize32 ''EmulateLDRSBImmediate'',
     ARMOpcode 0xfff00800 0xf9100800 ARMV6T2_ABOVE eEncodingT2 No_VFP eSize32 ''EmulateLDRSBImmediate'',
     ARMOpcode 0xff7f0000 0xf91f0000 ARMV6T2_ABOVE eEncodingT1 No_VFP eSize32 ''EmulateLDRSBLiteral'',
     ARMOpcode 0xfffffe00 0x00005600 ARMV4T_ABOVE eEncodingT1 No_VFP eSize16 ''EmulateLDRSBRegister'',
     ARMOpcode 0xfff00fc0 0xf9100000 ARMV6T2_ABOVE eEncodingT2 No_VFP eSize32 ''EmulateLDRSBRegister'',
     ARMOpcode 0xfff00000 0xf9b00000 ARMV6T2_ABOVE eEncodingT1 No_VFP eSize32 ''EmulateLDRSHImmediate'',
     ARMOpcode 0xfff00800 0xf9300800 ARMV6T2_ABOVE eEncodingT2 No_VFP eSize32 ''EmulateLDRSHImmediate'',
     ARMOpcode 0xff7f0000 0xf93f0000 ARMV6T2_ABOVE eEncodingT1 No_VFP eSize32 ''EmulateLDRSHLiteral'',
     ARMOpcode 0xfffffe00 0x00005e00 ARMV4T_ABOVE eEncodingT1 No_VFP eSize16 ''EmulateLDRSHRegister'',
     ARMOpcode 0xfff00fc0 0xf9300000 ARMV6T2_ABOVE eEncodingT2 No_VFP eSize32 ''EmulateLDRSHRegister'',
     ARMOpcode 0xfe500000 0xe8500000 ARMV6T2_ABOVE eEncodingT1 No_VFP eSize32 ''EmulateLDRDImmediate'',
     ARMOpcode 0xfe100f00 0xec100b00 ARMvAll eEncodingT1 VFPv2_ABOVE eSize32 ''EmulateVLDM'',
     ARMOpcode 0xfe100f00 0xec100a00 ARMvAll eEncodingT2 VFPv2v3 eSize32 ''EmulateVLDM'',
     ARMOpcode 0xffe00f00 0xed100b00 ARMvAll eEncodingT1 VFPv2_ABOVE eSize32 ''EmulateVLDR'',
     ARMOpcode 0xff300f00 0xed100a00 ARMvAll eEncodingT2 VFPv2v3 eSize32 ''EmulateVLDR'',
     ARMOpcode 0xffb00000 0xf9200000 ARMvAll eEncodingT1 AdvancedSIMD eSize32 ''EmulateVLD1Multiple'',
     ARMOpcode 0xffb00300 0xf9a00000 ARMvAll eEncodingT1 AdvancedSIMD eSize32 ''EmulateVLD1Single'',
     ARMOpcode 0xffb00f00 0xf9a00c00 ARMvAll eEncodingT1 AdvancedSIMD eSize32 ''EmulateVLD1SingleAll'',
     ARMOpcode 0xfffff800 0x0000c000 ARMV4T_ABOVE eEncodingT1 No_VFP eSize16 ''EmulateSTM'',
     ARMOpcode 0xffd00000 0xe8800000 ARMV6T2_ABOVE eEncodingT2 No_VFP eSize32 ''EmulateSTM'',
     ARMOpcode 0xffd00000 0xe9000000 ARMV6T2_ABOVE eEncodingT1 No_VFP eSize32 ''EmulateSTMDB'',
     ARMOpcode 0xfffff800 0x00006000 ARMV4T_ABOVE eEncodingT1 No_VFP eSize16 ''EmulateSTRThumb'',
     ARMOpcode 0xfffff800 0x00009000 ARMV4T_ABOVE eEncodingT2 No_VFP eSize16 ''EmulateSTRThumb'',
     ARMOpcode 0xfff00000 0xf8c00000 ARMV6T2_ABOVE eEncodingT3 No_VFP eSize32 ''EmulateSTRThumb'',
     ARMOpcode 0xfff00800 0xf8400800 ARMV6T2_ABOVE eEncodingT4 No_VFP eSize32 ''EmulateSTRThumb'',
     ARMOpcode 0xfffffe00 0x00005000 ARMV4T_ABOVE eEncodingT1 No_VFP eSize16 ''EmulateSTRRegister'',
     ARMOpcode 0xfff00fc0 0xf8400000 ARMV6T2_ABOVE eEncodingT2 No_VFP eSize32 ''EmulateSTRRegister'',
     ARMOpcode 0xfffff800 0x00007000 ARMV4T_ABOVE eEncodingT1 No_VFP eSize16 ''EmulateSTRBThumb'',
     ARMOpcode 0xfff00000 0xf8800000 ARMV6T2_ABOVE eEncodingT2 No_VFP eSize32 ''EmulateSTRBThumb'',
     ARMOpcode 0xfff00800 0xf8000800 ARMV6T2_ABOVE eEncodingT3 No_VFP eSize32 ''EmulateSTRBThumb'',
     ARMOpcode 0xfffffe00 0x00005200 ARMV4T_ABOVE eEncodingT1 No_VFP eSize16 ''EmulateSTRHRegister'',
     ARMOpcode 0xfff00fc0 0xf8200000 ARMV6T2_ABOVE eEncodingT2 No_VFP eSize32 ''EmulateSTRHRegister'',
     ARMOpcode 0xfff00000 0xe8400000 ARMV6T2_ABOVE eEncodingT1 No_VFP eSize32 ''EmulateSTREX'',
     ARMOpcode 0xfe500000 0xe8400000 ARMV6T2_ABOVE eEncodingT1 No_VFP eSize32 ''EmulateSTRDImm'',
     ARMOpcode 0xfe100f00 0xec000b00 ARMvAll eEncodingT1 VFPv2_ABOVE eSize32 ''EmulateVSTM'',
     ARMOpcode 0xfea00f00 0xec000a00 ARMvAll eEncodingT2 VFPv2v3 eSize32 ''EmulateVSTM'',
     ARMOpcode 0xff300f00 0xed000b00 ARMvAll eEncodingT1 VFPv2_ABOVE eSize32 ''EmulateVSTR'',
     ARMOpcode 0xff300f00 0xed000a00 ARMvAll eEncodingT2 VFPv2v3 eSize32 ''EmulateVSTR'',
     ARMOpcode 0xffb00000 0xf9000000 ARMvAll eEncodingT1 AdvancedSIMD eSize32 ''EmulateVST1Multiple'',
     ARMOpcode 0xffb00300 0xf9800000 ARMvAll eEncodingT1 AdvancedSIMD eSize32 ''EmulateVST1Single'',
     ARMOpcode 0xffffffc0 0x0000b240 ARMV6_ABOVE eEncodingT1 No_VFP eSize16 ''EmulateSXTB'',
     ARMOpcode 0xfffff080 0xfa4ff080 ARMV6_ABOVE eEncodingT2 No_VFP eSize32 ''EmulateSXTB'',
     ARMOpcode 0xffffffc0 0x0000b200 ARMV6_ABOVE eEncodingT1 No_VFP eSize16 ''EmulateSXTH'',
     ARMOpcode 0xfffff080 0xfa0ff080 ARMV6T2_ABOVE eEncodingT2 No_VFP eSize32 ''EmulateSXTH'',
     ARMOpcode 0xffffffc0 0x0000b2c0 ARMV6_ABOVE eEncodingT1 No_VFP eSize16 ''EmulateUXTB'',
     ARMOpcode 0xfffff080 0xfa5ff080 ARMV6T2_ABOVE eEncodingT2 No_VFP eSize32 ''EmulateUXTB'',
     ARMOpcode 0xffffffc0 0x0000b280 ARMV6_ABOVE eEncodingT1 No_VFP eSize16 ''EmulateUXTH'',
     ARMOpcode 0xfffff080 0xfa1ff080 ARMV6T2_ABOVE eEncodingT2 No_VFP eSize32 ''EmulateUXTH'']"

definition entry_matches :: "u32 \<Rightarrow> u32 \<Rightarrow> arm_opcode \<Rightarrow> bool" where
  "entry_matches opcode arm_isa e \<longleftrightarrow> ao_mask e AND opcode = ao_value e \<and> ao_variants e AND arm_isa \<noteq> 0"

definition GetARMOpcodeForInstruction :: "u32 \<Rightarrow> u32 \<Rightarrow> arm_opcode option" where
  "GetARMOpcodeForInstruction opcode arm_isa = List.find (entry_matches opcode arm_isa) g_arm_opcodes"

definition GetThumbOpcodeForInstruction :: "u32 \<Rightarrow> u32 \<Rightarrow> arm_opcode option" where
  "GetThumbOpcodeForInstruction opcode arm_isa = List.find (entry_matches opcode arm_isa) g_thumb_opcodes"

definition arm_callback ::
  "'s arm_env \<Rightarrow> string \<Rightarrow> u32 \<Rightarrow> arm_encoding \<Rightarrow> 's arm \<Rightarrow> 's emulated" where
  "arm_callback E callback opcode encoding s =
     (case map_of
      [(''EmulateADCImm'', EmulateADCImm), (''EmulateADCReg'', EmulateADCReg),
       (''EmulateADDImmARM'', EmulateADDImmARM), (''EmulateADDImmThumb'', EmulateADDImmThumb),
       (''EmulateADDRdSPImm'', EmulateADDRdSPImm), (''EmulateADDReg'', EmulateADDReg),
       (''EmulateADDRegShift'', EmulateADDRegShift), (''EmulateADDSPImm'', EmulateADDSPImm),
       (''EmulateADDSPRm'', EmulateADDSPRm), (''EmulateADR'', EmulateADR),
       (''EmulateANDImm'', EmulateANDImm), (''EmulateANDReg'', EmulateANDReg),
       (''EmulateASRImm'', EmulateASRImm), (''EmulateASRReg'', EmulateASRReg), (''EmulateB'', EmulateB),
       (''EmulateBICImm'', EmulateBICImm), (''EmulateBICReg'', EmulateBICReg),
       (''EmulateBLXImmediate'', EmulateBLXImmediate), (''EmulateBLXRm'', EmulateBLXRm),
       (''EmulateBXJRm'', EmulateBXJRm), (''EmulateBXRm'', EmulateBXRm), (''EmulateCB'', EmulateCB),
       (''EmulateCMNImm'', EmulateCMNImm), (''EmulateCMNReg'', EmulateCMNReg),
       (''EmulateCMPImm'', EmulateCMPImm), (''EmulateCMPReg'', EmulateCMPReg),
       (''EmulateEORImm'', EmulateEORImm), (''EmulateEORReg'', EmulateEORReg), (''EmulateIT'', EmulateIT),
       (''EmulateLDM'', EmulateLDM), (''EmulateLDMDA'', EmulateLDMDA), (''EmulateLDMDB'', EmulateLDMDB),
       (''EmulateLDMIB'', EmulateLDMIB), (''EmulateLDRBImmediate'', EmulateLDRBImmediate),
       (''EmulateLDRBLiteral'', EmulateLDRBLiteral), (''EmulateLDRBRegister'', EmulateLDRBRegister),
       (''EmulateLDRDImmediate'', EmulateLDRDImmediate), (''EmulateLDRDRegister'', EmulateLDRDRegister),
       (''EmulateLDRHImmediate'', EmulateLDRHImmediate), (''EmulateLDRHLiteral'', EmulateLDRHLiteral),
       (''EmulateLDRHRegister'', EmulateLDRHRegister),
       (''EmulateLDRImmediateARM'', EmulateLDRImmediateARM), (''EmulateLDRRegister'', EmulateLDRRegister),
       (''EmulateLDRRtPCRelative'', EmulateLDRRtPCRelative), (''EmulateLDRRtRnImm'', EmulateLDRRtRnImm),
       (''EmulateLDRSBImmediate'', EmulateLDRSBImmediate), (''EmulateLDRSBLiteral'', EmulateLDRSBLiteral),
       (''EmulateLDRSBRegister'', EmulateLDRSBRegister),
       (''EmulateLDRSHImmediate'', EmulateLDRSHImmediate), (''EmulateLDRSHLiteral'', EmulateLDRSHLiteral),
       (''EmulateLDRSHRegister'', EmulateLDRSHRegister), (''EmulateLSLImm'', EmulateLSLImm),
       (''EmulateLSLReg'', EmulateLSLReg), (''EmulateLSRImm'', EmulateLSRImm),
       (''EmulateLSRReg'', EmulateLSRReg), (''EmulateMOVLowHigh'', EmulateMOVLowHigh),
       (''EmulateMOVRdImm'', EmulateMOVRdImm), (''EmulateMOVRdRm'', EmulateMOVRdRm),
       (''EmulateMOVRdSP'', EmulateMOVRdSP), (''EmulateMUL'', EmulateMUL),
       (''EmulateMVNImm'', EmulateMVNImm), (''EmulateMVNReg'', EmulateMVNReg),
       (''EmulateNop'', EmulateNop), (''EmulateORRImm'', EmulateORRImm),
       (''EmulateORRReg'', EmulateORRReg), (''EmulatePOP'', EmulatePOP), (''EmulatePUSH'', EmulatePUSH),
       (''EmulateRFE'', EmulateRFE), (''EmulateRORImm'', EmulateRORImm),
       (''EmulateRORReg'', EmulateRORReg), (''EmulateRRX'', EmulateRRX),
       (''EmulateRSBImm'', EmulateRSBImm), (''EmulateRSBReg'', EmulateRSBReg),
       (''EmulateRSCImm'', EmulateRSCImm), (''EmulateRSCReg'', EmulateRSCReg),
       (''EmulateSBCImm'', EmulateSBCImm), (''EmulateSBCReg'', EmulateSBCReg),
       (''EmulateSTM'', EmulateSTM), (''EmulateSTMDA'', EmulateSTMDA), (''EmulateSTMDB'', EmulateSTMDB),
       (''EmulateSTMIB'', EmulateSTMIB), (''EmulateSTRBImmARM'', EmulateSTRBImmARM),
       (''EmulateSTRBThumb'', EmulateSTRBThumb), (''EmulateSTRDImm'', EmulateSTRDImm),
       (''EmulateSTRDReg'', EmulateSTRDReg), (''EmulateSTREX'', EmulateSTREX),
       (''EmulateSTRHRegister'', EmulateSTRHRegister), (''EmulateSTRImmARM'', EmulateSTRImmARM),
       (''EmulateSTRRegister'', EmulateSTRRegister), (''EmulateSTRRtSP'', EmulateSTRRtSP),
       (''EmulateSTRThumb'', EmulateSTRThumb), (''EmulateSUBIPSPImm'', EmulateSUBIPSPImm),
       (''EmulateSUBImmARM'', EmulateSUBImmARM), (''EmulateSUBImmThumb'', EmulateSUBImmThumb),
       (''EmulateSUBR7IPImm'', EmulateSUBR7IPImm), (''EmulateSUBReg'', EmulateSUBReg),
       (''EmulateSUBSPImm'', EmulateSUBSPImm), (''EmulateSUBSPReg'', EmulateSUBSPReg),
       (''EmulateSUBSPcLrEtc'', EmulateSUBSPcLrEtc), (''EmulateSVC'', EmulateSVC),
       (''EmulateSXTB'', EmulateSXTB), (''EmulateSXTH'', EmulateSXTH), (''EmulateTB'', EmulateTB),
       (''EmulateTEQImm'', EmulateTEQImm), (''EmulateTEQReg'', EmulateTEQReg),
       (''EmulateTSTImm'', EmulateTSTImm), (''EmulateTSTReg'', EmulateTSTReg),
       (''EmulateUXTB'', EmulateUXTB), (''EmulateUXTH'', EmulateUXTH),
       (''EmulateVLD1Multiple'', EmulateVLD1Multiple), (''EmulateVLD1Single'', EmulateVLD1Single),
       (''EmulateVLD1SingleAll'', EmulateVLD1SingleAll), (''EmulateVLDM'', EmulateVLDM),
       (''EmulateVLDR'', EmulateVLDR), (''EmulateVPOP'', EmulateVPOP), (''EmulateVPUSH'', EmulateVPUSH),
       (''EmulateVST1Multiple'', EmulateVST1Multiple), (''EmulateVST1Single'', EmulateVST1Single),
       (''EmulateVSTM'', EmulateVSTM), (''EmulateVSTR'', EmulateVSTR)] callback of
        Some f \<Rightarrow> f E opcode encoding s
      | None \<Rightarrow> None)"

section \<open>The instruction\<close>

text \<open>\<open>Opcode::SetOpcode16\<close> and \<open>SetOpcode32\<close>, as \<open>GetOpcode32\<close> reads them back.\<close>

definition GetEndianSwap :: "platform \<Rightarrow> byte_order \<Rightarrow> bool" where
  "GetEndianSwap pl bo \<longleftrightarrow>
     bo = eByteOrderBig \<and> InlHostByteOrder pl = eByteOrderLittle \<or>
     bo = eByteOrderLittle \<and> InlHostByteOrder pl = eByteOrderBig"

definition SetOpcode16 :: "'s arm_env \<Rightarrow> u32 \<Rightarrow> 's arm \<Rightarrow> 's arm" where
  "SetOpcode16 E inst s =
     s\<lparr>am_opcode := ucast (if GetEndianSwap (ae_platform E) (ae_byte_order E)
                            then ByteSwap_16 (ae_platform E) (ucast inst) else ucast inst),
       am_opcode_size := 2\<rparr>"

definition SetOpcode32 :: "'s arm_env \<Rightarrow> u32 \<Rightarrow> 's arm \<Rightarrow> 's arm" where
  "SetOpcode32 E inst s =
     s\<lparr>am_opcode := (if GetEndianSwap (ae_platform E) (ae_byte_order E)
                      then ByteSwap_32 (ae_platform E) inst else inst),
       am_opcode_size := 4\<rparr>"

abbreviation (input) CPSR_MODE_USR :: u32 where "CPSR_MODE_USR \<equiv> 0x10"

text \<open>What \<open>SetInstruction\<close> asks of the address of an instruction; \<open>None\<close>, there is no target.\<close>

datatype address_class =
  eAddressInvalid | eAddressUnknown | eCode | eCodeAlternateISA | eData | eDebug | eRuntime

record inst_address =
  ia_is_valid :: bool
  ia_load_address :: "u64 option"
  ia_file_address :: u64
  ia_address_class :: address_class

definition SetInstruction ::
  "'s arm_env \<Rightarrow> bool \<Rightarrow> u32 \<Rightarrow> nat \<Rightarrow> inst_address \<Rightarrow> 's arm \<Rightarrow> bool \<times> 's arm" where
  "SetInstruction E thumb_triple opcode opcode_size inst_addr s =
     (let s = s\<lparr>am_opcode := opcode, am_opcode_size := opcode_size, am_addr := - 1\<rparr>;
          s = (if ia_is_valid inst_addr then
                 let s = (case ia_load_address inst_addr of None \<Rightarrow> s | Some a \<Rightarrow> s\<lparr>am_addr := a\<rparr>)
                 in if am_addr s = - 1 then s\<lparr>am_addr := ia_file_address inst_addr\<rparr> else s
               else s);
          mode = (if thumb_triple \<or> ae_always_thumb E then Some eModeThumb
                  else if ia_address_class inst_addr \<in> {eCode, eAddressUnknown} then Some eModeARM
                  else if ia_address_class inst_addr = eCodeAlternateISA then Some eModeThumb
                  else None)
      in case mode of
           None \<Rightarrow> (False, s)
         | Some m \<Rightarrow>
             (True, s\<lparr>am_mode := m,
                      am_cpsr := (if m = eModeThumb \<or> ae_always_thumb E then CPSR_MODE_USR OR MASK_CPSR_T
                                  else CPSR_MODE_USR)\<rparr>))"

text \<open>The opcode at the program counter; \<open>False\<close> when a read of the memory has failed.\<close>

definition ReadOpcode :: "'s arm_env \<Rightarrow> u64 \<Rightarrow> 's arm \<Rightarrow> bool \<times> 's arm" where
  "ReadOpcode E pc s =
     (let ctx = (eContextReadOpcode, NoArgs)
      in if am_cpsr s AND MASK_CPSR_T \<noteq> 0 \<or> ae_always_thumb E then
           let s = s\<lparr>am_mode := eModeThumb\<rparr>
           in case MemARead E ctx pc 2 s of
                None \<Rightarrow> (False, s)
              | Some v \<Rightarrow>
                  let thumb_opcode = (ucast v :: u32)
                  in if thumb_opcode AND 0xe000 \<noteq> 0xe000 \<or> thumb_opcode AND 0x1800 = 0
                     then (True, SetOpcode16 E thumb_opcode s)
                     else let second = MemARead E ctx (pc + 2) 2 s
                          in (second \<noteq> None,
                              SetOpcode32 E (push_bit 16 thumb_opcode OR
                                (case second of None \<Rightarrow> 0 | Some v \<Rightarrow> ucast v)) s)
         else
           let s = s\<lparr>am_mode := eModeARM\<rparr>; opcode = MemARead E ctx pc 4 s
           in (opcode \<noteq> None, SetOpcode32 E (case opcode of None \<Rightarrow> 0 | Some v \<Rightarrow> ucast v) s))"

definition ReadInstruction :: "'s arm_env \<Rightarrow> 's arm \<Rightarrow> bool \<times> 's arm" where
  "ReadInstruction E s =
     (let flags = ReadRegisterUnsigned E eRegisterKindGeneric GENERIC_FLAGS s;
          s = s\<lparr>am_cpsr := (case flags of None \<Rightarrow> 0 | Some v \<Rightarrow> ucast v)\<rparr>;
          (success, s) =
            (if flags = None then (False, s)
             else case ReadRegisterUnsigned E eRegisterKindGeneric GENERIC_PC s of
                    None \<Rightarrow> (False, s)
                  | Some pc \<Rightarrow>
                      let (success, s) = ReadOpcode E pc s;
                          it = (push_bit 2 (Bits32 (am_cpsr s) 15 10) OR Bits32 (am_cpsr s) 26 25)
                      in (success,
                          if \<not> am_ignore s \<and> it \<noteq> 0
                          then s\<lparr>am_it := snd (InitIT (ae_llvm E) it (am_it s))\<rparr> else s))
      in if success then (True, s) else (False, s\<lparr>am_mode := eModeInvalid, am_addr := - 1\<rparr>))"

text \<open>What \<open>EvaluateInstruction\<close> does behind the callback.\<close>

definition advance_IT :: "arm_opcode option \<Rightarrow> 's arm \<Rightarrow> 's arm" where
  "advance_IT opcode_data s =
     (if am_mode s = eModeThumb \<and> it_InITBlock (am_it s) \<and>
         (case opcode_data of None \<Rightarrow> True | Some e \<Rightarrow> ao_callback e \<noteq> ''EmulateIT'')
      then s\<lparr>am_it := ITAdvance (am_it s)\<rparr> else s)"

definition advance_pc :: "'s arm_env \<Rightarrow> u32 \<Rightarrow> 's arm \<Rightarrow> 's emulated" where
  "advance_pc E orig_pc_value s =
     need (ReadRegisterUnsigned E eRegisterKindDWARF PC_REG s) s (\<lambda>v.
       let after_pc_value = (ucast v :: u32)
       in if after_pc_value = orig_pc_value then
            check (WriteRegisterUnsigned E (eContextAdvancePC, NoArgs) eRegisterKindDWARF PC_REG
                     (ucast (after_pc_value + of_nat (am_opcode_size s))) s) succeeds
          else succeeds s)"

definition EvaluateInstruction :: "'s arm_env \<Rightarrow> bool \<Rightarrow> bool \<Rightarrow> 's arm \<Rightarrow> 's emulated" where
  "EvaluateInstruction E auto_advance_pc ignore_conditions s =
     (let opcode_data = (case am_mode s of
            eModeThumb \<Rightarrow> GetThumbOpcodeForInstruction (am_opcode s) (am_isa s)
          | eModeARM \<Rightarrow> GetARMOpcodeForInstruction (am_opcode s) (am_isa s)
          | eModeInvalid \<Rightarrow> None);
          s = s\<lparr>am_ignore := ignore_conditions\<rparr>;
          (success, s) =
            (if am_cpsr s = 0 \<or> \<not> ignore_conditions then
               case ReadRegisterUnsigned E eRegisterKindDWARF dwarf_cpsr s of
                 None \<Rightarrow> (False, s\<lparr>am_cpsr := 0\<rparr>)
               | Some v \<Rightarrow> (True, s\<lparr>am_cpsr := ucast v\<rparr>)
             else (False, s));
          body = (\<lambda>orig_pc_value.
            do { (success, s) \<leftarrow> (case opcode_data of
                     None \<Rightarrow> succeeds s
                   | Some e \<Rightarrow> arm_callback E (ao_callback e) (am_opcode s) (ao_encoding e) s);
                 if \<not> success then fails s
                 else let s = advance_IT opcode_data s
                      in if auto_advance_pc then advance_pc E orig_pc_value s else succeeds s })
      in if \<not> success \<and> \<not> ignore_conditions then fails s
         else if auto_advance_pc then
           need (ReadRegisterUnsigned E eRegisterKindDWARF PC_REG s) s (\<lambda>v. body (ucast v))
         else body 0)"

definition CreateFunctionEntryUnwind :: "unwind_plan \<Rightarrow> bool \<times> unwind_plan" where
  "CreateFunctionEntryUnwind unwind_plan =
     (let p = (Clear_plan unwind_plan)\<lparr>up_register_kind := eRegisterKindDWARF\<rparr>;
          p = AppendRow (new_Row\<lparr>row_cfa_value := isRegisterPlusOffset 13 0\<rparr>) p
      in (True, p\<lparr>up_source_name := ''EmulateInstructionARM'', up_sourced_from_compiler := eLazyBoolNo,
                  up_valid_at_all_instructions := eLazyBoolYes, up_return_addr_register := 14\<rparr>))"

end
