(* ===== verification/ARMTables.thy ===== *)
theory ARMTables
  imports ARMDecode
begin

text \<open>
  Which entries of the two tables of opcodes can be found. For every entry that can, an opcode that finds it
  is given, and the search is evaluated on the numbers of the masks and values; for every other one,
  the earlier entries that match whenever it does.
\<close>

section \<open>Entries that are found\<close>

text \<open>The masks and values as numbers, cut above the lower 20 bits, on which the search is evaluated.\<close>

type_synonym cut_bits = "int \<times> int \<times> int \<times> int"

definition entry_bits :: "arm_opcode \<Rightarrow> cut_bits" where
  "entry_bits e =
     (uint (ao_mask e) div 2 ^ 20, uint (ao_value e) div 2 ^ 20,
      uint (ao_mask e) mod 2 ^ 20, uint (ao_value e) mod 2 ^ 20)"

definition arm_bits :: "cut_bits list" where
  "arm_bits =
     [(0xff, 0x92, 0xf0000, 0xd0000), (0xff, 0x52, 0xf0fff, 0xd0004),
      (0xff, 0x28, 0xff000, 0xd7000), (0xff, 0x24, 0xff000, 0xc7000), (0xff, 0x1a, 0xfffff, 0xc00d),
      (0xff, 0x28, 0xff000, 0xdc000), (0xff, 0x24, 0xff000, 0xdc000),
      (0xff, 0x24, 0xff000, 0xdd000), (0xfe, 0x4, 0xf0010, 0xd0000), (0xe5, 0x40, 0xf0000, 0xd0000),
      (0xfb, 0xd2, 0xf0f00, 0xd0b00), (0xfb, 0xd2, 0xf0f00, 0xd0a00),
      (0xff, 0x8b, 0xf0000, 0xd0000), (0xff, 0x49, 0xf0fff, 0xd0004),
      (0xfb, 0xcb, 0xf0f00, 0xd0b00), (0xfb, 0xcb, 0xf0f00, 0xd0a00), (0xf0, 0xf0, 0x0, 0x0),
      (0xfe0, 0xfa0, 0x0, 0x0), (0xf0, 0xa0, 0x0, 0x0), (0xf0, 0xb0, 0x0, 0x0),
      (0xff, 0x12, 0xffff0, 0xfff30), (0xff, 0x12, 0xffff0, 0xfff10),
      (0xff, 0x12, 0xffff0, 0xfff20), (0xfe, 0x2a, 0x0, 0x0), (0xfe, 0xa, 0x10, 0x0),
      (0xfe, 0x28, 0x0, 0x0), (0xfe, 0x8, 0x10, 0x0), (0xfe, 0x8, 0x90, 0x10),
      (0xff, 0x28, 0xf0000, 0xf0000), (0xff, 0x24, 0xf0000, 0xf0000), (0xfe, 0x20, 0x0, 0x0),
      (0xfe, 0x0, 0x10, 0x0), (0xfe, 0x3c, 0x0, 0x0), (0xfe, 0x1c, 0x10, 0x0),
      (0xfe, 0x22, 0x0, 0x0), (0xfe, 0x2, 0x10, 0x0), (0xfe, 0x38, 0x0, 0x0),
      (0xfe, 0x18, 0x10, 0x0), (0xfe, 0x26, 0x0, 0x0), (0xfe, 0x6, 0x10, 0x0),
      (0xfe, 0x2e, 0x0, 0x0), (0xfe, 0xe, 0x10, 0x0), (0xfe, 0x2c, 0x0, 0x0),
      (0xfe, 0xc, 0x10, 0x0), (0xfe, 0x24, 0x0, 0x0), (0xfe, 0x24, 0xf0000, 0xd0000),
      (0xfe, 0x4, 0x10, 0x0), (0xff, 0x33, 0xf000, 0x0), (0xff, 0x13, 0xf010, 0x0),
      (0xff, 0x31, 0xf000, 0x0), (0xff, 0x11, 0xf010, 0x0), (0xfe, 0x3a, 0xf0000, 0x0),
      (0xff, 0x30, 0x0, 0x0), (0xfe, 0x1a, 0xf0ff0, 0x0), (0xfe, 0x3e, 0xf0000, 0x0),
      (0xfe, 0x1e, 0xf0010, 0x0), (0xff, 0x37, 0xf000, 0x0), (0xff, 0x17, 0xf010, 0x0),
      (0xff, 0x35, 0xf000, 0x0), (0xff, 0x15, 0xf010, 0x0), (0xfe, 0x1a, 0xf0070, 0x40),
      (0xfe, 0x1a, 0xf00f0, 0x50), (0xfe, 0x1a, 0xf0070, 0x0), (0xfe, 0x1a, 0xf00f0, 0x10),
      (0xfe, 0x1a, 0xf0070, 0x20), (0xfe, 0x1a, 0xf00f0, 0x50), (0xfe, 0x1a, 0xf0ff0, 0x60),
      (0xfe, 0x1a, 0xf0070, 0x60), (0xfe, 0x1a, 0xf00f0, 0x70), (0xfe, 0x0, 0xf0, 0x90),
      (0xe1, 0x21, 0xf000, 0xf000), (0xe1, 0x1, 0xf010, 0xf000), (0xfd, 0x89, 0x0, 0x0),
      (0xfd, 0x81, 0x0, 0x0), (0xfd, 0x91, 0x0, 0x0), (0xfd, 0x99, 0x0, 0x0),
      (0xe5, 0x41, 0x0, 0x0), (0xe5, 0x61, 0x10, 0x0), (0xe5, 0x45, 0xf0000, 0xf0000),
      (0xfe5, 0x65, 0x10, 0x0), (0xe5, 0x5, 0xf00f0, 0xf00b0), (0xe5, 0x1, 0xf0, 0xb0),
      (0xe5, 0x5, 0xf0, 0xd0), (0xe5, 0x5, 0xf00f0, 0xf00d0), (0xe5, 0x1, 0xf0, 0xd0),
      (0xe5, 0x5, 0xf0, 0xf0), (0xe5, 0x5, 0xf00f0, 0xf00f0), (0xe5, 0x1, 0xf0, 0xf0),
      (0xe5, 0x4, 0xf0, 0xd0), (0xe5, 0x0, 0xff0, 0xd0), (0xe1, 0xc1, 0xf00, 0xb00),
      (0xe1, 0xc1, 0xf00, 0xa00), (0xf3, 0xd1, 0xf00, 0xb00), (0xf3, 0xd1, 0xf00, 0xa00),
      (0xffb, 0xf42, 0x0, 0x0), (0xffb, 0xf4a, 0x300, 0x0), (0xffb, 0xf4a, 0xf00, 0xc00),
      (0xfd, 0x88, 0x0, 0x0), (0xfd, 0x80, 0x0, 0x0), (0xfd, 0x90, 0x0, 0x0),
      (0xfd, 0x98, 0x0, 0x0), (0xe5, 0x60, 0x10, 0x0), (0xe5, 0x0, 0xf0, 0xb0),
      (0xff, 0x18, 0xff0, 0xf90), (0xe5, 0x44, 0x0, 0x0), (0xe5, 0x40, 0x0, 0x0),
      (0xe5, 0x4, 0xf0, 0xf0), (0xe5, 0x0, 0xff0, 0xf0), (0xe1, 0xc0, 0xf00, 0xb00),
      (0xe1, 0xc0, 0xf00, 0xa00), (0xf3, 0xd0, 0xf00, 0xb00), (0xf3, 0xd0, 0xf00, 0xa00),
      (0xffb, 0xf40, 0x0, 0x0), (0xffb, 0xf48, 0x300, 0x0), (0xff, 0x6a, 0xf00f0, 0xf00f0),
      (0xff, 0x6b, 0xf00f0, 0xf0070), (0xff, 0x6e, 0xf00f0, 0xf0070),
      (0xff, 0x6f, 0xf00f0, 0xf0070), (0xfe5, 0xf81, 0x0, 0x0)]"

definition thumb_bits :: "cut_bits list" where
  "thumb_bits =
     [(0xfff, 0x0, 0xffe00, 0xb400), (0xfff, 0xe92, 0xf0000, 0xd0000),
      (0xfff, 0xf84, 0xf0fff, 0xd0d04), (0xfff, 0x0, 0xfff00, 0xaf00),
      (0xfff, 0x0, 0xfffff, 0x466f), (0xfff, 0x0, 0xfffc0, 0x4640), (0xfff, 0x0, 0xff800, 0x4800),
      (0xfff, 0x0, 0xfff87, 0x4485), (0xfff, 0x0, 0xfff80, 0xb080),
      (0xfbe, 0xf1a, 0xf8f00, 0xd0d00), (0xfbf, 0xf2a, 0xf8f00, 0xd0d00),
      (0xffe, 0xeba, 0xf8000, 0xd0000), (0xffb, 0xed2, 0xf0f00, 0xd0b00),
      (0xffb, 0xed2, 0xf0f00, 0xd0a00), (0xfff, 0x0, 0xff800, 0xa800),
      (0xfff, 0x0, 0xfff80, 0xb000), (0xfff, 0x0, 0xffe00, 0xbc00),
      (0xfff, 0xe8b, 0xf0000, 0xd0000), (0xfff, 0xf85, 0xf0fff, 0xd0d04),
      (0xffb, 0xecb, 0xf0f00, 0xd0b00), (0xffb, 0xecb, 0xf0f00, 0xd0a00),
      (0xfff, 0x0, 0xfff00, 0xdf00), (0xfff, 0x0, 0xfffff, 0xbf00), (0xfff, 0x0, 0xfffff, 0xbf10),
      (0xfff, 0x0, 0xfffff, 0xbf20), (0xfff, 0x0, 0xfffff, 0xbf30), (0xfff, 0x0, 0xfffff, 0xbf40),
      (0xfff, 0x0, 0xfff00, 0xbf00), (0xfff, 0x0, 0xff000, 0xd000), (0xfff, 0x0, 0xff800, 0xe000),
      (0xf80, 0xf00, 0xd000, 0x8000), (0xf80, 0xf00, 0xd000, 0x9000),
      (0xf80, 0xf00, 0xd000, 0xd000), (0xf80, 0xf00, 0xd001, 0xc000), (0xfff, 0x0, 0xfff87, 0x4780),
      (0xfff, 0x0, 0xfff87, 0x4700), (0xfff, 0xf3c, 0xffff, 0x8f00), (0xfff, 0x0, 0xff500, 0xb100),
      (0xfff, 0xe8d, 0xfff0, 0xf000), (0xfff, 0xe8d, 0xfff0, 0xf010), (0xfbe, 0xf14, 0x8000, 0x0),
      (0xfff, 0x0, 0xfffc0, 0x4140), (0xffe, 0xeb4, 0x8000, 0x0), (0xfff, 0x0, 0xffe00, 0x1800),
      (0xfff, 0x0, 0xfff00, 0x4400), (0xfff, 0x0, 0xff800, 0xa000),
      (0xfbf, 0xf2a, 0xf8000, 0xf0000), (0xfbf, 0xf20, 0xf8000, 0xf0000),
      (0xfbe, 0xf00, 0x8000, 0x0), (0xfff, 0x0, 0xfffc0, 0x4000), (0xffe, 0xea0, 0x8000, 0x0),
      (0xfbe, 0xf02, 0x8000, 0x0), (0xfff, 0x0, 0xfffc0, 0x4380), (0xffe, 0xea2, 0x8000, 0x0),
      (0xfbe, 0xf08, 0x8000, 0x0), (0xfff, 0x0, 0xfffc0, 0x4040), (0xffe, 0xea8, 0x8000, 0x0),
      (0xfbe, 0xf04, 0x8000, 0x0), (0xfff, 0x0, 0xfffc0, 0x4300), (0xffe, 0xea4, 0x8000, 0x0),
      (0xfff, 0x0, 0xfffc0, 0x4240), (0xfbe, 0xf1c, 0x8000, 0x0), (0xffe, 0xea4, 0x8000, 0x0),
      (0xfbe, 0xf16, 0x8000, 0x0), (0xfff, 0x0, 0xfffc0, 0x4180), (0xffe, 0xeb6, 0x8000, 0x0),
      (0xfff, 0x0, 0xffe00, 0x1c00), (0xfff, 0x0, 0xff800, 0x3000), (0xfbe, 0xf10, 0x8000, 0x0),
      (0xfbf, 0xf20, 0x8000, 0x0), (0xfff, 0x0, 0xffe00, 0x1e00), (0xfff, 0x0, 0xff800, 0x3800),
      (0xfbe, 0xf1a, 0x8000, 0x0), (0xfbf, 0xf2a, 0x8000, 0x0), (0xfbe, 0xf1a, 0xf8000, 0xd0000),
      (0xfbf, 0xf2a, 0xf8000, 0xd0000), (0xfff, 0x0, 0xffe00, 0x1a00), (0xffe, 0xeba, 0x8000, 0x0),
      (0xfbf, 0xf09, 0x8f00, 0xf00), (0xfff, 0xea9, 0x8f00, 0xf00), (0xfbf, 0xf01, 0x8f00, 0xf00),
      (0xfff, 0x0, 0xfffc0, 0x4200), (0xfff, 0xea1, 0x8f00, 0xf00), (0xfff, 0x0, 0xfff00, 0x4600),
      (0xfff, 0x0, 0xfffc0, 0x0), (0xffe, 0xea4, 0xff0f0, 0xf0000), (0xfff, 0x0, 0xff800, 0x2000),
      (0xfbe, 0xf04, 0xf8000, 0xf0000), (0xfbf, 0xf24, 0x8000, 0x0),
      (0xfbe, 0xf06, 0xf8000, 0xf0000), (0xfff, 0x0, 0xfffc0, 0x43c0),
      (0xffe, 0xea6, 0xf8000, 0xf0000), (0xfbf, 0xf11, 0x8f00, 0xf00),
      (0xfff, 0x0, 0xfffc0, 0x42c0), (0xfff, 0xeb1, 0x8f00, 0xf00), (0xfff, 0x0, 0xff800, 0x2800),
      (0xfbf, 0xf1b, 0x8f00, 0xf00), (0xfff, 0x0, 0xfffc0, 0x4280), (0xfff, 0x0, 0xfff00, 0x4500),
      (0xfff, 0xebb, 0x8f00, 0xf00), (0xfff, 0x0, 0xff800, 0x1000),
      (0xffe, 0xea4, 0xf8030, 0xf0020), (0xfff, 0x0, 0xfffc0, 0x4100),
      (0xffe, 0xfa4, 0xf0f0, 0xf000), (0xfff, 0x0, 0xff800, 0x0), (0xffe, 0xea4, 0xf8030, 0xf0000),
      (0xfff, 0x0, 0xfffc0, 0x4080), (0xffe, 0xfa0, 0xf0f0, 0xf000), (0xfff, 0x0, 0xff800, 0x800),
      (0xffe, 0xea4, 0xf8030, 0xf0010), (0xfff, 0x0, 0xfffc0, 0x40c0),
      (0xffe, 0xfa2, 0xf0f0, 0xf000), (0xffe, 0xea4, 0xff0f0, 0xf0030),
      (0xffe, 0xea4, 0xf8030, 0xf0030), (0xfff, 0x0, 0xfffc0, 0x41c0),
      (0xffe, 0xfa6, 0xf0f0, 0xf000), (0xfff, 0x0, 0xfffc0, 0x4340), (0xfff, 0xfb0, 0xf0f0, 0xf000),
      (0xfff, 0xf3d, 0xfff00, 0xe8f00), (0xffd, 0xe81, 0xffff, 0xc000),
      (0xffd, 0xe99, 0xffff, 0xc000), (0xfff, 0x0, 0xff800, 0xc800), (0xffd, 0xe89, 0x2000, 0x0),
      (0xffd, 0xe91, 0x0, 0x0), (0xfff, 0x0, 0xff800, 0x6800), (0xfff, 0x0, 0xff800, 0x9800),
      (0xfff, 0xf8d, 0x0, 0x0), (0xfff, 0xf85, 0x800, 0x800), (0xff7, 0xf85, 0xf0000, 0xf0000),
      (0xfff, 0x0, 0xffe00, 0x5800), (0xfff, 0xf85, 0xfc0, 0x0), (0xfff, 0x0, 0xff800, 0x7800),
      (0xfff, 0xf89, 0x0, 0x0), (0xfff, 0xf81, 0x800, 0x800), (0xff7, 0xf81, 0xf0000, 0xf0000),
      (0xfff, 0x0, 0xffe00, 0x5c00), (0xfff, 0xf81, 0xfc0, 0x0), (0xfff, 0x0, 0xff800, 0x8800),
      (0xfff, 0xf8b, 0x0, 0x0), (0xfff, 0xf83, 0x800, 0x800), (0xff7, 0xf83, 0xf0000, 0xf0000),
      (0xfff, 0x0, 0xffe00, 0x5a00), (0xfff, 0xf83, 0xfc0, 0x0), (0xfff, 0xf99, 0x0, 0x0),
      (0xfff, 0xf91, 0x800, 0x800), (0xff7, 0xf91, 0xf0000, 0xf0000), (0xfff, 0x0, 0xffe00, 0x5600),
      (0xfff, 0xf91, 0xfc0, 0x0), (0xfff, 0xf9b, 0x0, 0x0), (0xfff, 0xf93, 0x800, 0x800),
      (0xff7, 0xf93, 0xf0000, 0xf0000), (0xfff, 0x0, 0xffe00, 0x5e00), (0xfff, 0xf93, 0xfc0, 0x0),
      (0xfe5, 0xe85, 0x0, 0x0), (0xfe1, 0xec1, 0xf00, 0xb00), (0xfe1, 0xec1, 0xf00, 0xa00),
      (0xffe, 0xed1, 0xf00, 0xb00), (0xff3, 0xed1, 0xf00, 0xa00), (0xffb, 0xf92, 0x0, 0x0),
      (0xffb, 0xf9a, 0x300, 0x0), (0xffb, 0xf9a, 0xf00, 0xc00), (0xfff, 0x0, 0xff800, 0xc000),
      (0xffd, 0xe88, 0x0, 0x0), (0xffd, 0xe90, 0x0, 0x0), (0xfff, 0x0, 0xff800, 0x6000),
      (0xfff, 0x0, 0xff800, 0x9000), (0xfff, 0xf8c, 0x0, 0x0), (0xfff, 0xf84, 0x800, 0x800),
      (0xfff, 0x0, 0xffe00, 0x5000), (0xfff, 0xf84, 0xfc0, 0x0), (0xfff, 0x0, 0xff800, 0x7000),
      (0xfff, 0xf88, 0x0, 0x0), (0xfff, 0xf80, 0x800, 0x800), (0xfff, 0x0, 0xffe00, 0x5200),
      (0xfff, 0xf82, 0xfc0, 0x0), (0xfff, 0xe84, 0x0, 0x0), (0xfe5, 0xe84, 0x0, 0x0),
      (0xfe1, 0xec0, 0xf00, 0xb00), (0xfea, 0xec0, 0xf00, 0xa00), (0xff3, 0xed0, 0xf00, 0xb00),
      (0xff3, 0xed0, 0xf00, 0xa00), (0xffb, 0xf90, 0x0, 0x0), (0xffb, 0xf98, 0x300, 0x0),
      (0xfff, 0x0, 0xfffc0, 0xb240), (0xfff, 0xfa4, 0xff080, 0xff080),
      (0xfff, 0x0, 0xfffc0, 0xb200), (0xfff, 0xfa0, 0xff080, 0xff080),
      (0xfff, 0x0, 0xfffc0, 0xb2c0), (0xfff, 0xfa5, 0xff080, 0xff080),
      (0xfff, 0x0, 0xfffc0, 0xb280), (0xfff, 0xfa1, 0xff080, 0xff080)]"

lemma arm_bits: "map entry_bits g_arm_opcodes = arm_bits" "length g_arm_opcodes = 119"
  "list_all (\<lambda>e. ao_variants e \<noteq> 0) g_arm_opcodes"
  by (simp_all add: entry_bits_def g_arm_opcodes_def arm_bits_def)

lemma thumb_bits: "map entry_bits g_thumb_opcodes = thumb_bits" "length g_thumb_opcodes = 191"
  "list_all (\<lambda>e. ao_variants e \<noteq> 0) g_thumb_opcodes"
  by (simp_all add: entry_bits_def g_thumb_opcodes_def thumb_bits_def)

text \<open>For the entries that can be found, an opcode that finds them.\<close>

definition arm_ops :: "(int \<times> int) option list" where
  "arm_ops =
     [Some (0x92, 0xd0000), Some (0x52, 0xd0004), Some (0x28, 0xd7000), Some (0x24, 0xc7000),
      Some (0x1a, 0xc00d), Some (0x28, 0xdc000), Some (0x24, 0xdc000), Some (0x24, 0xdd000),
      Some (0x4, 0xd0000), Some (0x40, 0xd0000), Some (0xd2, 0xd0b00), Some (0xd2, 0xd0a00),
      Some (0x8b, 0xd0000), Some (0x49, 0xd0004), Some (0xcb, 0xd0b00), Some (0xcb, 0xd0a00),
      Some (0xf0, 0x0), Some (0xfa0, 0x0), Some (0xa0, 0x0), Some (0xb0, 0x0), Some (0x12, 0xfff30),
      Some (0x12, 0xfff10), Some (0x12, 0xfff20), Some (0x2a, 0x0), Some (0xa, 0x0),
      Some (0x29, 0x0), Some (0x8, 0x0), Some (0x8, 0x10), None, Some (0x24, 0xf0000),
      Some (0x20, 0x0), Some (0x0, 0x0), Some (0x3c, 0x0), Some (0x1c, 0x0), Some (0x22, 0x0),
      Some (0x2, 0x0), Some (0x38, 0x0), Some (0x18, 0x0), Some (0x26, 0x0), Some (0x6, 0x0),
      Some (0x2e, 0x0), Some (0xe, 0x0), Some (0x2c, 0x0), Some (0xc, 0x0), Some (0x25, 0x0), None,
      Some (0x4, 0x0), Some (0x33, 0x0), Some (0x13, 0x0), Some (0x31, 0x0), Some (0x11, 0x0),
      Some (0x3a, 0x0), Some (0x30, 0x0), Some (0x1b, 0x0), Some (0x3e, 0x0), Some (0x1e, 0x0),
      Some (0x37, 0x0), Some (0x17, 0x0), Some (0x35, 0x0), Some (0x15, 0x0), Some (0x1a, 0x40),
      Some (0x1a, 0x50), Some (0x1a, 0x800), Some (0x1a, 0x10), Some (0x1a, 0x20), None,
      Some (0x1a, 0x60), Some (0x1a, 0x860), Some (0x1a, 0x70), Some (0x0, 0x90),
      Some (0x31, 0xf000), Some (0x11, 0xf000), Some (0x89, 0x0), Some (0x81, 0x0),
      Some (0x91, 0x0), Some (0x99, 0x0), Some (0x51, 0x0), Some (0x61, 0x0), Some (0x45, 0xf0000),
      Some (0x65, 0x0), Some (0x5, 0xf00b0), Some (0x1, 0xb0), Some (0x5, 0xd0), None,
      Some (0x1, 0xd0), Some (0x5, 0xf0), None, Some (0x1, 0xf0), Some (0x4, 0xd0),
      Some (0x0, 0xd0), Some (0xd1, 0xb00), Some (0xd1, 0xa00), None, None, Some (0xf46, 0x0),
      Some (0xf4e, 0x0), None, Some (0x88, 0x0), Some (0x80, 0x0), Some (0x90, 0x0),
      Some (0x98, 0x0), Some (0x60, 0x0), Some (0x0, 0xb0), Some (0x18, 0xf90), Some (0x44, 0x0),
      Some (0x40, 0x0), Some (0x4, 0xf0), Some (0x0, 0xf0), Some (0xc0, 0xb00), Some (0xc0, 0xa00),
      None, None, None, None, Some (0x6a, 0xf00f0), Some (0x6b, 0xf0070), Some (0x6e, 0xf0070),
      Some (0x6f, 0xf0070), None]"

definition thumb_ops :: "(int \<times> int) option list" where
  "thumb_ops =
     [Some (0x0, 0xb400), Some (0xe92, 0xd0000), Some (0xf84, 0xd0d04), Some (0x0, 0xaf00),
      Some (0x0, 0x466f), Some (0x0, 0x4640), Some (0x0, 0x4800), Some (0x0, 0x4485),
      Some (0x0, 0xb080), Some (0xf1a, 0xd0d00), Some (0xf2a, 0xd0d00), Some (0xeba, 0xd0000),
      Some (0xed2, 0xd0b00), Some (0xed2, 0xd0a00), Some (0x0, 0xa800), Some (0x0, 0xb000),
      Some (0x0, 0xbc00), Some (0xe8b, 0xd0000), Some (0xf85, 0xd0d04), Some (0xecb, 0xd0b00),
      Some (0xecb, 0xd0a00), Some (0x0, 0xdf00), Some (0x0, 0xbf00), Some (0x0, 0xbf10),
      Some (0x0, 0xbf20), Some (0x0, 0xbf30), Some (0x0, 0xbf40), Some (0x0, 0xbf80),
      Some (0x0, 0xd000), Some (0x0, 0xe000), Some (0xf00, 0x8000), Some (0xf00, 0x9000),
      Some (0xf00, 0xd000), Some (0xf00, 0xc000), Some (0x0, 0x4780), Some (0x0, 0x4700), None,
      Some (0x0, 0xb100), Some (0xe8d, 0xf000), Some (0xe8d, 0xf010), Some (0xf14, 0x0),
      Some (0x0, 0x4140), Some (0xeb4, 0x0), Some (0x0, 0x1800), Some (0x0, 0x4400),
      Some (0x0, 0xa000), Some (0xf2a, 0xf0000), Some (0xf20, 0xf0000), Some (0xf00, 0x0),
      Some (0x0, 0x4000), Some (0xea0, 0x0), Some (0xf02, 0x0), Some (0x0, 0x4380),
      Some (0xea2, 0x0), Some (0xf08, 0x0), Some (0x0, 0x4040), Some (0xea8, 0x0),
      Some (0xf04, 0x0), Some (0x0, 0x4300), Some (0xea4, 0x0), Some (0x0, 0x4240),
      Some (0xf1c, 0x0), None, Some (0xf16, 0x0), Some (0x0, 0x4180), Some (0xeb6, 0x0),
      Some (0x0, 0x1c00), Some (0x0, 0x3000), Some (0xf10, 0x0), Some (0xf20, 0x0),
      Some (0x0, 0x1e00), Some (0x0, 0x3800), Some (0xf1a, 0x0), Some (0xf2a, 0x0), None, None,
      Some (0x0, 0x1a00), Some (0xeba, 0x0), None, None, None, Some (0x0, 0x4200), None,
      Some (0x0, 0x4680), Some (0x0, 0x0), None, Some (0x0, 0x2000), None, Some (0xf24, 0x0),
      Some (0xf06, 0xf0000), Some (0x0, 0x43c0), Some (0xea6, 0xf0000), None, Some (0x0, 0x42c0),
      Some (0xeb1, 0xf00), Some (0x0, 0x2800), None, Some (0x0, 0x4280), Some (0x0, 0x4500), None,
      Some (0x0, 0x1000), None, Some (0x0, 0x4100), Some (0xfa4, 0xf000), Some (0x0, 0x400), None,
      Some (0x0, 0x4080), Some (0xfa0, 0xf000), Some (0x0, 0x800), None, Some (0x0, 0x40c0),
      Some (0xfa2, 0xf000), None, None, Some (0x0, 0x41c0), Some (0xfa6, 0xf000),
      Some (0x0, 0x4340), Some (0xfb0, 0xf000), None, Some (0xe81, 0xc000), Some (0xe99, 0xc000),
      Some (0x0, 0xc800), Some (0xe89, 0x0), Some (0xe91, 0x0), Some (0x0, 0x6800),
      Some (0x0, 0x9800), Some (0xf8d, 0x0), Some (0xf85, 0x800), Some (0xf85, 0xf0000),
      Some (0x0, 0x5800), Some (0xf85, 0x0), Some (0x0, 0x7800), Some (0xf89, 0x0),
      Some (0xf81, 0x800), Some (0xf81, 0xf0000), Some (0x0, 0x5c00), Some (0xf81, 0x0),
      Some (0x0, 0x8800), Some (0xf8b, 0x0), Some (0xf83, 0x800), Some (0xf83, 0xf0000),
      Some (0x0, 0x5a00), Some (0xf83, 0x0), Some (0xf99, 0x0), Some (0xf91, 0x800),
      Some (0xf91, 0xf0000), Some (0x0, 0x5600), Some (0xf91, 0x0), Some (0xf9b, 0x0),
      Some (0xf93, 0x800), Some (0xf93, 0xf0000), Some (0x0, 0x5e00), Some (0xf93, 0x0),
      Some (0xe95, 0x0), Some (0xed1, 0xb00), Some (0xed1, 0xa00), None, None, Some (0xf92, 0x0),
      Some (0xf9a, 0x0), None, Some (0x0, 0xc000), Some (0xe88, 0x0), Some (0xe90, 0x0),
      Some (0x0, 0x6000), Some (0x0, 0x9000), Some (0xf8c, 0x0), Some (0xf84, 0x800),
      Some (0x0, 0x5000), Some (0xf84, 0x0), Some (0x0, 0x7000), Some (0xf88, 0x0),
      Some (0xf80, 0x800), Some (0x0, 0x5200), Some (0xf82, 0x0), Some (0xe84, 0x0),
      Some (0xe94, 0x0), Some (0xec0, 0xb00), Some (0xec0, 0xa00), None, Some (0xed8, 0xa00),
      Some (0xf90, 0x0), Some (0xf98, 0x0), Some (0x0, 0xb240), Some (0xfa4, 0xff080),
      Some (0x0, 0xb200), Some (0xfa0, 0xff080), Some (0x0, 0xb2c0), Some (0xfa5, 0xff080),
      Some (0x0, 0xb280), Some (0xfa1, 0xff080)]"

lemma ops_length: "length arm_ops = 119" "length thumb_ops = 191"
  by (simp_all add: arm_ops_def thumb_ops_def)

text \<open>An opcode, cut in the same way, finds the entry at a position: it matches there, and nowhere before.\<close>

fun all_found :: "cut_bits list \<Rightarrow> (cut_bits \<times> (int \<times> int) option) list \<Rightarrow> bool" where
  "all_found before [] = True"
| "all_found before ((e, None) # es) = all_found (e # before) es"
| "all_found before ((e, Some (hi, lo)) # es) =
     ((0 \<le> hi \<and> hi < 2 ^ 12 \<and> 0 \<le> lo \<and> lo < 2 ^ 20 \<and>
      (case e of (m, v, m', v') \<Rightarrow> m AND hi = v \<and> m' AND lo = v') \<and>
      list_all (\<lambda>(m, v, m', v'). if m AND hi \<noteq> v then True else m' AND lo \<noteq> v') before) \<and>
      all_found (e # before) es)"

lemma arm_found_1: "all_found (take 0 arm_bits) (take 84 (drop 0 (zip arm_bits arm_ops)))"
  by (simp add: arm_bits_def arm_ops_def)

lemma arm_found_2: "all_found (take 84 arm_bits) (take 35 (drop 84 (zip arm_bits arm_ops)))"
  by (simp add: arm_bits_def arm_ops_def)

lemma thumb_found_1: "all_found (take 0 thumb_bits) (take 95 (drop 0 (zip thumb_bits thumb_ops)))"
  by (simp add: thumb_bits_def thumb_ops_def)

lemma thumb_found_2: "all_found (take 95 thumb_bits) (take 40 (drop 95 (zip thumb_bits thumb_ops)))"
  by (simp add: thumb_bits_def thumb_ops_def)

lemma thumb_found_3: "all_found (take 135 thumb_bits) (take 30 (drop 135 (zip thumb_bits thumb_ops)))"
  by (simp add: thumb_bits_def thumb_ops_def)

lemma thumb_found_4: "all_found (take 165 thumb_bits) (take 26 (drop 165 (zip thumb_bits thumb_ops)))"
  by (simp add: thumb_bits_def thumb_ops_def)

lemma all_found_at:
  assumes "all_found before es" "j < length es" "es ! j = ((m, v, m', v'), Some (hi, lo))"
  shows "0 \<le> hi \<and> hi < 2 ^ 12 \<and> 0 \<le> lo \<and> lo < 2 ^ 20 \<and> m AND hi = v \<and> m' AND lo = v' \<and>
    (\<forall>(m, v, m', v') \<in> set before \<union> set (map fst (take j es)). m AND hi = v \<longrightarrow> m' AND lo \<noteq> v')"
  using assms
proof (induction before es arbitrary: j rule: all_found.induct)
  case (2 before e es)
  then obtain i where "j = Suc i"
    by (cases j) auto
  then show ?case
    using 2 by auto
next
  case (3 before e h l es)
  show ?case
  proof (cases j)
    case 0
    then show ?thesis
      using 3(2,4) by (auto simp: list_all_iff)
  next
    case (Suc i)
    then show ?thesis
      using 3 by auto
  qed
qed simp

lemma matches_cut:
  assumes "0 \<le> hi" "hi < 2 ^ 12" "0 \<le> lo" "lo < 2 ^ 20" "entry_bits e = (m, v, m', v')"
  shows "ao_mask e AND word_of_int (hi * 2 ^ 20 + lo) = ao_value e \<longleftrightarrow> m AND hi = v \<and> m' AND lo = v'"
proof -
  let ?w = "hi * 2 ^ 20 + lo"
  have "0 \<le> ?w" "?w < 2 ^ 32"
    using assms(1-4) by auto
  then have w: "uint (word_of_int ?w :: u32) = ?w"
    by (simp only: uint_word_of_int) simp
  have hi: "drop_bit 20 ?w = hi" and lo: "take_bit 20 ?w = lo"
    using assms(1-4) by (simp_all add: drop_bit_eq_div take_bit_eq_mod)
  have cut: "a = b \<longleftrightarrow> drop_bit 20 a = drop_bit 20 b \<and> take_bit 20 a = take_bit 20 b" for a b :: int
    by (metis bits_ident)
  have "ao_mask e AND word_of_int ?w = ao_value e \<longleftrightarrow> uint (ao_mask e) AND ?w = uint (ao_value e)"
    by (simp only: word_uint_eq_iff uint_and w)
  also have "\<dots> \<longleftrightarrow> drop_bit 20 (uint (ao_mask e)) AND hi = drop_bit 20 (uint (ao_value e)) \<and>
      take_bit 20 (uint (ao_mask e)) AND lo = take_bit 20 (uint (ao_value e))"
    by (subst cut) (simp only: drop_bit_and take_bit_and hi lo)
  finally show ?thesis
    using assms(5) by (auto simp: entry_bits_def drop_bit_eq_div take_bit_eq_mod)
qed

lemma all_architectures: "(w :: u32) AND ARMvAll = w"
proof -
  have "ARMvAll = (- 1 :: u32)"
    by simp
  then show ?thesis
    by (simp only: and.right_neutral)
qed

lemma chunk_found:
  assumes found: "all_found (take k bits) (take n (drop k (zip bits ops)))"
    and T: "map entry_bits T = bits" "list_all (\<lambda>e. ao_variants e \<noteq> 0) T"
    and j: "k \<le> j" "j < k + n" "j < length T" "j < length ops" "ops ! j = Some (hi, lo)"
  shows "List.find (entry_matches (word_of_int (hi * 2 ^ 20 + lo)) ARMvAll) T = Some (T ! j)"
proof -
  let ?w = "word_of_int (hi * 2 ^ 20 + lo) :: u32"
  have len: "length bits = length T"
    using T(1) by auto
  obtain m v m' v' where e: "entry_bits (T ! j) = (m, v, m', v')"
    by (cases "entry_bits (T ! j)")
  have bj: "bits ! j = (m, v, m', v')"
    using e j(3) by (simp flip: T(1))
  have es: "j - k < length (take n (drop k (zip bits ops)))"
    "take n (drop k (zip bits ops)) ! (j - k) = ((m, v, m', v'), Some (hi, lo))"
    using j len bj less_diff_conv2 [OF j(1), of n] by (simp_all add: diff_less_mono add.commute)
  have first: "take k bits @ map fst (take (j - k) (take n (drop k (zip bits ops)))) = take j bits"
  proof -
    have "map fst (take (j - k) (take n (drop k (zip bits ops)))) = take (j - k) (drop k bits)"
      using j len by (simp add: take_zip drop_zip)
    then show ?thesis
      using j(1) by (metis le_add_diff_inverse take_add)
  qed
  have at: "0 \<le> hi" "hi < 2 ^ 12" "0 \<le> lo" "lo < 2 ^ 20" "m AND hi = v" "m' AND lo = v'"
    "\<forall>(m, v, m', v') \<in> set (take j bits). m AND hi = v \<longrightarrow> m' AND lo \<noteq> v'"
    using all_found_at [OF found es] unfolding set_append [symmetric] first by simp_all
  have miss: "\<not> entry_matches ?w ARMvAll e" if "e \<in> set (take j T)" for e
  proof -
    obtain a b a' b' where e: "entry_bits e = (a, b, a', b')"
      by (cases "entry_bits e")
    moreover have "entry_bits e \<in> set (take j bits)"
      using that by (auto simp: take_map simp flip: T(1))
    ultimately have "a AND hi = b \<longrightarrow> a' AND lo \<noteq> b'"
      using at(7) by fastforce
    then show ?thesis
      using matches_cut [OF at(1-4) e] by (auto simp: entry_matches_def)
  qed
  have "ao_variants (T ! j) \<noteq> 0"
    using T(2) j by (simp add: list_all_length)
  then have hit: "entry_matches ?w ARMvAll (T ! j)"
    using matches_cut [OF at(1-4) e] at(5,6) by (simp add: entry_matches_def all_architectures)
  have "\<not> entry_matches ?w ARMvAll (T ! i)" if "i < j" for i
    using that j(3) by (intro miss) (auto simp: in_set_conv_nth intro!: exI [of _ i])
  then show ?thesis
    using hit j(3) by (auto simp: find_Some_iff)
qed

text \<open>The positions without such an opcode.\<close>

fun gaps :: "nat \<Rightarrow> (int \<times> int) option list \<Rightarrow> nat list" where
  "gaps k [] = []"
| "gaps k (None # ops) = k # gaps (k + 1) ops"
| "gaps k (Some p # ops) = gaps (k + 1) ops"

lemma gaps_at: "j < length ops \<Longrightarrow> k + j \<notin> set (gaps k ops) \<Longrightarrow> ops ! j \<noteq> None"
proof (induction k ops arbitrary: j rule: gaps.induct)
  case (2 k ops)
  then show ?case
    by (cases j) auto
next
  case (3 k p ops)
  then show ?case
    by (cases j) auto
qed simp

lemma gaps_arm: "gaps 0 arm_ops = [28, 45, 65, 83, 86, 92, 93, 96, 110, 111, 112, 113, 118]"
  by (simp add: arm_ops_def)

lemma gaps_thumb:
  "gaps 0 thumb_ops =
     [36, 62, 74, 75, 78, 79, 80, 82, 85, 87, 92, 96, 99, 101, 105, 109, 112, 113, 118, 156, 157, 160, 179]"
  by (simp add: thumb_ops_def)

lemma arm_entry_found:
  assumes "j < 119" "j \<notin> set (gaps 0 arm_ops)"
  shows "\<exists>opcode. GetARMOpcodeForInstruction opcode ARMvAll = Some (g_arm_opcodes ! j)"
proof -
  obtain hi lo where "arm_ops ! j = Some (hi, lo)"
    using gaps_at [of j arm_ops 0] assms by (auto simp: ops_length)
  then show ?thesis
    using chunk_found [OF arm_found_1 arm_bits(1,3), of j] chunk_found [OF arm_found_2 arm_bits(1,3), of j] assms(1)
    unfolding GetARMOpcodeForInstruction_def ops_length arm_bits(2) by (cases "j < 84") auto
qed

lemma thumb_entry_found:
  assumes "j < 191" "j \<notin> set (gaps 0 thumb_ops)"
  shows "\<exists>opcode. GetThumbOpcodeForInstruction opcode ARMvAll = Some (g_thumb_opcodes ! j)"
proof -
  obtain hi lo where "thumb_ops ! j = Some (hi, lo)"
    using gaps_at [of j thumb_ops 0] assms by (auto simp: ops_length)
  note found = this
  consider "j < 95" | "95 \<le> j" "j < 135" | "135 \<le> j" "j < 165" | "165 \<le> j"
    by linarith
  then show ?thesis
    using chunk_found [OF thumb_found_1 thumb_bits(1,3) _ _ _ _ found]
      chunk_found [OF thumb_found_2 thumb_bits(1,3) _ _ _ _ found]
      chunk_found [OF thumb_found_3 thumb_bits(1,3) _ _ _ _ found]
      chunk_found [OF thumb_found_4 thumb_bits(1,3) _ _ _ _ found] assms(1)
    unfolding GetThumbOpcodeForInstruction_def ops_length thumb_bits(2) by cases auto
qed

text \<open>Two of them are found by older architectures only.\<close>

lemma bxj_found: "GetThumbOpcodeForInstruction 0xf3c08f00 ARMv5TEJ = Some (g_thumb_opcodes ! 36)"
  by (simp add: GetThumbOpcodeForInstruction_def g_thumb_opcodes_def entry_matches_def)

lemma cmp_found: "GetThumbOpcodeForInstruction 0xebb00f00 ARMv4T = Some (g_thumb_opcodes ! 99)"
  by (simp add: GetThumbOpcodeForInstruction_def g_thumb_opcodes_def entry_matches_def)

section \<open>Entries that are never found\<close>

text \<open>An entry that matches whenever another one does.\<close>

definition shadows :: "arm_opcode \<Rightarrow> u32 \<Rightarrow> u32 \<Rightarrow> u32 \<Rightarrow> bool" where
  "shadows e m v variants \<longleftrightarrow>
     ao_mask e AND m = ao_mask e \<and> ao_mask e AND v = ao_value e \<and> variants AND NOT (ao_variants e) = 0"

lemma shadow_matches:
  assumes "shadows e m v variants" "m AND opcode = v" "variants AND isa \<noteq> 0"
  shows "entry_matches opcode isa e"
proof -
  have "ao_mask e AND opcode = ao_value e"
    using assms(1,2) by (auto simp: shadows_def simp flip: and.assoc)
  moreover have "ao_variants e AND isa \<noteq> 0"
  proof
    assume 0: "ao_variants e AND isa = 0"
    have "variants AND isa = (variants AND NOT (ao_variants e)) AND isa OR variants AND (ao_variants e AND isa)"
      by (rule bit_word_eqI) (auto simp: bit_simps)
    then show False
      using 0 assms(1,3) by (simp add: shadows_def)
  qed
  ultimately show ?thesis
    by (simp add: entry_matches_def)
qed

lemma find_before:
  assumes "i < j" "j < length T" "P (T ! i)" "T ! j \<notin> set (take j T)"
  shows "List.find P T \<noteq> Some (T ! j)"
proof
  assume "List.find P T = Some (T ! j)"
  then obtain k where k: "k < length T" "T ! k = T ! j" "\<forall>i<k. \<not> P (T ! i)"
    by (auto simp: find_Some_iff)
  then have "k \<le> i"
    using assms(3) by (meson not_le)
  then have "T ! j \<in> set (take j T)"
    using k(1,2) assms(1) by (auto simp: in_set_conv_nth intro!: exI [of _ k])
  then show False
    using assms(4) by blast
qed

text \<open>No entry before position \<open>j\<close> is the same, which has to be checked only for those with the same bits.\<close>

definition new_bits :: "cut_bits list \<Rightarrow> nat \<Rightarrow> nat \<Rightarrow> bool" where
  "new_bits bits j i \<longleftrightarrow> list_all (\<lambda>b. b \<noteq> bits ! j) (take i bits @ drop (i + 1) (take j bits))"

lemma new_bits:
  assumes "new_bits (map entry_bits T) j i" "j < length T" "T ! i \<noteq> T ! j"
  shows "T ! j \<notin> set (take j T)"
proof
  assume "T ! j \<in> set (take j T)"
  then obtain k where k: "k < j" "T ! k = T ! j"
    using assms(2) by (auto simp: in_set_conv_nth)
  then have "k \<noteq> i" "map entry_bits T ! k = map entry_bits T ! j"
    using assms(2,3) by auto
  moreover have "map entry_bits T ! k \<in> set (take i (map entry_bits T) @ drop (i + 1) (take j (map entry_bits T)))"
  proof (cases "k < i")
    case True
    then show ?thesis
      using k(1) assms(2) by (auto simp: in_set_conv_nth intro!: disjI1 exI [of _ k])
  next
    case False
    then have "drop (i + 1) (take j (map entry_bits T)) ! (k - (i + 1)) = map entry_bits T ! k"
      using k(1) assms(2) \<open>k \<noteq> i\<close> by simp
    moreover have "k - (i + 1) < length (drop (i + 1) (take j (map entry_bits T)))"
      using k(1) assms(2) False \<open>k \<noteq> i\<close> by auto
    ultimately show ?thesis
      by (metis UnCI nth_mem set_append)
  qed
  ultimately show False
    using assms(1) unfolding new_bits_def list_all_iff by metis
qed

lemma shadowed_not_found:
  assumes "i < j" "j < length T" "T ! j \<notin> set (take j T)"
    and "shadows (T ! i) (ao_mask (T ! j)) (ao_value (T ! j)) (ao_variants (T ! j))"
  shows "List.find (entry_matches opcode isa) T \<noteq> Some (T ! j)"
proof
  assume found: "List.find (entry_matches opcode isa) T = Some (T ! j)"
  then have "entry_matches opcode isa (T ! j)"
    by (auto simp: find_Some_iff)
  then have "entry_matches opcode isa (T ! i)"
    using shadow_matches [OF assms(4)] by (auto simp: entry_matches_def)
  then show False
    using find_before [of i j T "entry_matches opcode isa"] assms(1-3) found by blast
qed

text \<open>An entry is also dead if, for every value of some more bits \<open>K\<close>, one before it shadows it.\<close>

lemma split_not_found:
  assumes "j < length T" and new: "T ! j \<notin> set (take j T)" and bits: "K AND opcode \<in> fst ` set bs"
    and shadow: "\<forall>(b, i) \<in> set bs. i < j \<and>
      shadows (T ! i) (ao_mask (T ! j) OR K) (ao_value (T ! j) OR b) (ao_variants (T ! j))"
  shows "List.find (entry_matches opcode isa) T \<noteq> Some (T ! j)"
proof
  assume found: "List.find (entry_matches opcode isa) T = Some (T ! j)"
  then have m: "ao_mask (T ! j) AND opcode = ao_value (T ! j)" "ao_variants (T ! j) AND isa \<noteq> 0"
    by (auto simp: find_Some_iff entry_matches_def)
  obtain i where i: "i < j" "shadows (T ! i) (ao_mask (T ! j) OR K) (ao_value (T ! j) OR (K AND opcode)) (ao_variants (T ! j))"
    using bits shadow by force
  have "(ao_mask (T ! j) OR K) AND opcode = ao_value (T ! j) OR (K AND opcode)"
    unfolding m(1) [symmetric] by (rule bit.conj_disj_distrib2)
  then show False
    using find_before [OF i(1) assms(1) _ new] shadow_matches [OF i(2)] m(2) found by blast
qed

lemma one_bit: "push_bit k 1 AND w = (if bit w k then push_bit k 1 else (0 :: u32))"
  by (rule bit_word_eqI) (auto simp: bit_simps)

lemma outside_not_found:
  assumes "ao_value e AND NOT (ao_mask e) \<noteq> 0"
  shows "List.find (entry_matches opcode isa) T \<noteq> Some e"
proof
  assume "List.find (entry_matches opcode isa) T = Some e"
  then have "ao_mask e AND opcode = ao_value e"
    by (auto simp: find_Some_iff entry_matches_def)
  then have "ao_value e AND NOT (ao_mask e) = 0"
    by (auto simp: bit_eq_iff bit_simps)
  then show False
    using assms by blast
qed

definition arm_shadows :: "(nat \<times> nat) list" where
  "arm_shadows = [(28, 25), (45, 44), (65, 61), (83, 82), (86, 85), (92, 90), (93, 91), (96, 95), (110, 108), (111, 109)]"

definition thumb_shadows :: "(nat \<times> nat) list" where
  "thumb_shadows = [(62, 59), (74, 72), (75, 73), (78, 54), (79, 56), (80, 48), (82, 50), (85, 59), (87, 57),
     (92, 68), (96, 72), (101, 59), (105, 59), (109, 59), (112, 59), (113, 59), (118, 30), (157, 155),
     (160, 159), (179, 177)]"

lemma arm_at:
  "g_arm_opcodes ! 25 = ARMOpcode 0x0fe00000 0x02800000 ARMvAll eEncodingA1 No_VFP eSize32 ''EmulateADDImmARM''"
  "g_arm_opcodes ! 28 = ARMOpcode 0x0fff0000 0x028f0000 ARMvAll eEncodingA1 No_VFP eSize32 ''EmulateADR''"
  "g_arm_opcodes ! 44 = ARMOpcode 0x0fe00000 0x02400000 ARMvAll eEncodingA1 No_VFP eSize32 ''EmulateSUBImmARM''"
  "g_arm_opcodes ! 45 = ARMOpcode 0x0fef0000 0x024d0000 ARMvAll eEncodingA1 No_VFP eSize32 ''EmulateSUBSPImm''"
  "g_arm_opcodes ! 61 = ARMOpcode 0x0fef00f0 0x01a00050 ARMvAll eEncodingA1 No_VFP eSize32 ''EmulateASRReg''"
  "g_arm_opcodes ! 65 = ARMOpcode 0x0fef00f0 0x01a00050 ARMvAll eEncodingA1 No_VFP eSize32 ''EmulateLSRReg''"
  "g_arm_opcodes ! 72 = ARMOpcode 0x0fd00000 0x08900000 ARMvAll eEncodingA1 No_VFP eSize32 ''EmulateLDM''"
  "g_arm_opcodes ! 73 = ARMOpcode 0x0fd00000 0x08100000 ARMvAll eEncodingA1 No_VFP eSize32 ''EmulateLDMDA''"
  "g_arm_opcodes ! 74 = ARMOpcode 0x0fd00000 0x09100000 ARMvAll eEncodingA1 No_VFP eSize32 ''EmulateLDMDB''"
  "g_arm_opcodes ! 75 = ARMOpcode 0x0fd00000 0x09900000 ARMvAll eEncodingA1 No_VFP eSize32 ''EmulateLDMIB''"
  "g_arm_opcodes ! 82 = ARMOpcode 0x0e5000f0 0x005000d0 ARMvAll eEncodingA1 No_VFP eSize32 ''EmulateLDRSBImmediate''"
  "g_arm_opcodes ! 83 = ARMOpcode 0x0e5f00f0 0x005f00d0 ARMvAll eEncodingA1 No_VFP eSize32 ''EmulateLDRSBLiteral''"
  "g_arm_opcodes ! 85 = ARMOpcode 0x0e5000f0 0x005000f0 ARMvAll eEncodingA1 No_VFP eSize32 ''EmulateLDRSHImmediate''"
  "g_arm_opcodes ! 86 = ARMOpcode 0x0e5f00f0 0x005f00f0 ARMvAll eEncodingA1 No_VFP eSize32 ''EmulateLDRSHLiteral''"
  "g_arm_opcodes ! 90 = ARMOpcode 0x0e100f00 0x0c100b00 ARMvAll eEncodingA1 VFPv2_ABOVE eSize32 ''EmulateVLDM''"
  "g_arm_opcodes ! 91 = ARMOpcode 0x0e100f00 0x0c100a00 ARMvAll eEncodingA2 VFPv2v3 eSize32 ''EmulateVLDM''"
  "g_arm_opcodes ! 92 = ARMOpcode 0x0f300f00 0x0d100b00 ARMvAll eEncodingA1 VFPv2_ABOVE eSize32 ''EmulateVLDR''"
  "g_arm_opcodes ! 93 = ARMOpcode 0x0f300f00 0x0d100a00 ARMvAll eEncodingA2 VFPv2v3 eSize32 ''EmulateVLDR''"
  "g_arm_opcodes ! 95 = ARMOpcode 0xffb00300 0xf4a00000 ARMvAll eEncodingA1 AdvancedSIMD eSize32 ''EmulateVLD1Single''"
  "g_arm_opcodes ! 96 = ARMOpcode 0xffb00f00 0xf4a00c00 ARMvAll eEncodingA1 AdvancedSIMD eSize32 ''EmulateVLD1SingleAll''"
  "g_arm_opcodes ! 104 = ARMOpcode 0x0e500000 0x04400000 ARMvAll eEncodingA1 No_VFP eSize32 ''EmulateSTRBImmARM''"
  "g_arm_opcodes ! 105 = ARMOpcode 0x0e500000 0x04000000 ARMvAll eEncodingA1 No_VFP eSize32 ''EmulateSTRImmARM''"
  "g_arm_opcodes ! 108 = ARMOpcode 0x0e100f00 0x0c000b00 ARMvAll eEncodingA1 VFPv2_ABOVE eSize32 ''EmulateVSTM''"
  "g_arm_opcodes ! 109 = ARMOpcode 0x0e100f00 0x0c000a00 ARMvAll eEncodingA2 VFPv2v3 eSize32 ''EmulateVSTM''"
  "g_arm_opcodes ! 110 = ARMOpcode 0x0f300f00 0x0d000b00 ARMvAll eEncodingA1 VFPv2_ABOVE eSize32 ''EmulateVSTR''"
  "g_arm_opcodes ! 111 = ARMOpcode 0x0f300f00 0x0d000a00 ARMvAll eEncodingA2 VFPv2v3 eSize32 ''EmulateVSTR''"
  "g_arm_opcodes ! 112 = ARMOpcode 0xffb00000 0xf4000000 ARMvAll eEncodingA1 AdvancedSIMD eSize32 ''EmulateVST1Multiple''"
  "g_arm_opcodes ! 113 = ARMOpcode 0xffb00300 0xf4800000 ARMvAll eEncodingA1 AdvancedSIMD eSize32 ''EmulateVST1Single''"
  "g_arm_opcodes ! 118 = ARMOpcode 0xfe500000 0xf8100000 ARMV6_ABOVE eEncodingA1 No_VFP eSize32 ''EmulateRFE''"
  by (simp_all add: g_arm_opcodes_def)

lemma thumb_at:
  "g_thumb_opcodes ! 30 = ARMOpcode 0xf800d000 0xf0008000 ARMV6T2_ABOVE eEncodingT3 No_VFP eSize32 ''EmulateB''"
  "g_thumb_opcodes ! 36 = ARMOpcode 0xfff0ffff 0xf3c08f00 ARMV5J_ABOVE eEncodingT1 No_VFP eSize32 ''EmulateBXJRm''"
  "g_thumb_opcodes ! 48 = ARMOpcode 0xfbe08000 0xf0000000 ARMV6T2_ABOVE eEncodingT1 No_VFP eSize32 ''EmulateANDImm''"
  "g_thumb_opcodes ! 50 = ARMOpcode 0xffe08000 0xea000000 ARMV6T2_ABOVE eEncodingT2 No_VFP eSize32 ''EmulateANDReg''"
  "g_thumb_opcodes ! 54 = ARMOpcode 0xfbe08000 0xf0800000 ARMV6T2_ABOVE eEncodingT1 No_VFP eSize32 ''EmulateEORImm''"
  "g_thumb_opcodes ! 56 = ARMOpcode 0xffe08000 0xea800000 ARMV6T2_ABOVE eEncodingT2 No_VFP eSize32 ''EmulateEORReg''"
  "g_thumb_opcodes ! 57 = ARMOpcode 0xfbe08000 0xf0400000 ARMV6T2_ABOVE eEncodingT1 No_VFP eSize32 ''EmulateORRImm''"
  "g_thumb_opcodes ! 59 = ARMOpcode 0xffe08000 0xea400000 ARMV6T2_ABOVE eEncodingT2 No_VFP eSize32 ''EmulateORRReg''"
  "g_thumb_opcodes ! 62 = ARMOpcode 0xffe08000 0xea400000 ARMV6T2_ABOVE eEncodingT1 No_VFP eSize32 ''EmulateRSBReg''"
  "g_thumb_opcodes ! 68 = ARMOpcode 0xfbe08000 0xf1000000 ARMV6T2_ABOVE eEncodingT3 No_VFP eSize32 ''EmulateADDImmThumb''"
  "g_thumb_opcodes ! 72 = ARMOpcode 0xfbe08000 0xf1a00000 ARMV6T2_ABOVE eEncodingT3 No_VFP eSize32 ''EmulateSUBImmThumb''"
  "g_thumb_opcodes ! 73 = ARMOpcode 0xfbf08000 0xf2a00000 ARMV6T2_ABOVE eEncodingT4 No_VFP eSize32 ''EmulateSUBImmThumb''"
  "g_thumb_opcodes ! 74 = ARMOpcode 0xfbef8000 0xf1ad0000 ARMV6T2_ABOVE eEncodingT2 No_VFP eSize32 ''EmulateSUBSPImm''"
  "g_thumb_opcodes ! 75 = ARMOpcode 0xfbff8000 0xf2ad0000 ARMV6T2_ABOVE eEncodingT3 No_VFP eSize32 ''EmulateSUBSPImm''"
  "g_thumb_opcodes ! 78 = ARMOpcode 0xfbf08f00 0xf0900f00 ARMV6T2_ABOVE eEncodingT1 No_VFP eSize32 ''EmulateTEQImm''"
  "g_thumb_opcodes ! 79 = ARMOpcode 0xfff08f00 0xea900f00 ARMV6T2_ABOVE eEncodingT1 No_VFP eSize32 ''EmulateTEQReg''"
  "g_thumb_opcodes ! 80 = ARMOpcode 0xfbf08f00 0xf0100f00 ARMV6T2_ABOVE eEncodingT1 No_VFP eSize32 ''EmulateTSTImm''"
  "g_thumb_opcodes ! 82 = ARMOpcode 0xfff08f00 0xea100f00 ARMV6T2_ABOVE eEncodingT2 No_VFP eSize32 ''EmulateTSTReg''"
  "g_thumb_opcodes ! 85 = ARMOpcode 0xffeff0f0 0xea4f0000 ARMV6T2_ABOVE eEncodingT3 No_VFP eSize32 ''EmulateMOVRdRm''"
  "g_thumb_opcodes ! 87 = ARMOpcode 0xfbef8000 0xf04f0000 ARMV6T2_ABOVE eEncodingT2 No_VFP eSize32 ''EmulateMOVRdImm''"
  "g_thumb_opcodes ! 92 = ARMOpcode 0xfbf08f00 0xf1100f00 ARMV6T2_ABOVE eEncodingT1 No_VFP eSize32 ''EmulateCMNImm''"
  "g_thumb_opcodes ! 96 = ARMOpcode 0xfbf08f00 0xf1b00f00 ARMV6T2_ABOVE eEncodingT2 No_VFP eSize32 ''EmulateCMPImm''"
  "g_thumb_opcodes ! 99 = ARMOpcode 0xfff08f00 0xebb00f00 ARMvAll eEncodingT3 No_VFP eSize16 ''EmulateCMPReg''"
  "g_thumb_opcodes ! 101 = ARMOpcode 0xffef8030 0xea4f0020 ARMV6T2_ABOVE eEncodingT2 No_VFP eSize32 ''EmulateASRImm''"
  "g_thumb_opcodes ! 105 = ARMOpcode 0xffef8030 0xea4f0000 ARMV6T2_ABOVE eEncodingT2 No_VFP eSize32 ''EmulateLSLImm''"
  "g_thumb_opcodes ! 109 = ARMOpcode 0xffef8030 0xea4f0010 ARMV6T2_ABOVE eEncodingT2 No_VFP eSize32 ''EmulateLSRImm''"
  "g_thumb_opcodes ! 112 = ARMOpcode 0xffeff0f0 0xea4f0030 ARMV6T2_ABOVE eEncodingT1 No_VFP eSize32 ''EmulateRRX''"
  "g_thumb_opcodes ! 113 = ARMOpcode 0xffef8030 0xea4f0030 ARMV6T2_ABOVE eEncodingT1 No_VFP eSize32 ''EmulateRORImm''"
  "g_thumb_opcodes ! 118 = ARMOpcode 0xffffff00 0xf3de8f00 ARMV6T2_ABOVE eEncodingT1 No_VFP eSize32 ''EmulateSUBSPcLrEtc''"
  "g_thumb_opcodes ! 155 = ARMOpcode 0xfe100f00 0xec100a00 ARMvAll eEncodingT2 VFPv2v3 eSize32 ''EmulateVLDM''"
  "g_thumb_opcodes ! 156 = ARMOpcode 0xffe00f00 0xed100b00 ARMvAll eEncodingT1 VFPv2_ABOVE eSize32 ''EmulateVLDR''"
  "g_thumb_opcodes ! 157 = ARMOpcode 0xff300f00 0xed100a00 ARMvAll eEncodingT2 VFPv2v3 eSize32 ''EmulateVLDR''"
  "g_thumb_opcodes ! 159 = ARMOpcode 0xffb00300 0xf9a00000 ARMvAll eEncodingT1 AdvancedSIMD eSize32 ''EmulateVLD1Single''"
  "g_thumb_opcodes ! 160 = ARMOpcode 0xffb00f00 0xf9a00c00 ARMvAll eEncodingT1 AdvancedSIMD eSize32 ''EmulateVLD1SingleAll''"
  "g_thumb_opcodes ! 177 = ARMOpcode 0xfe100f00 0xec000b00 ARMvAll eEncodingT1 VFPv2_ABOVE eSize32 ''EmulateVSTM''"
  "g_thumb_opcodes ! 179 = ARMOpcode 0xff300f00 0xed000b00 ARMvAll eEncodingT1 VFPv2_ABOVE eSize32 ''EmulateVSTR''"
  by (simp_all add: g_thumb_opcodes_def)

text \<open>In two cases the bits are the same, and the callbacks differ.\<close>

definition shadow_pairs :: "arm_opcode list \<Rightarrow> cut_bits list \<Rightarrow> (nat \<times> nat) list \<Rightarrow> bool" where
  "shadow_pairs T bits ps \<longleftrightarrow> list_all (\<lambda>(j, i). i < j \<and> j < length bits \<and> new_bits bits j i \<and> T ! i \<noteq> T ! j \<and>
     shadows (T ! i) (ao_mask (T ! j)) (ao_value (T ! j)) (ao_variants (T ! j))) ps"

lemma shadow_pair_not_found:
  assumes "shadow_pairs T bits ps" "map entry_bits T = bits" "(j, i) \<in> set ps"
  shows "List.find (entry_matches opcode isa) T \<noteq> Some (T ! j)"
proof -
  have "i < j" "j < length T" "new_bits (map entry_bits T) j i" "T ! i \<noteq> T ! j"
    "shadows (T ! i) (ao_mask (T ! j)) (ao_value (T ! j)) (ao_variants (T ! j))"
    using assms by (auto simp: shadow_pairs_def list_all_iff)
  then show ?thesis
    using shadowed_not_found new_bits by blast
qed

lemma arm_shadowed: "shadow_pairs g_arm_opcodes arm_bits arm_shadows"
  by (simp add: shadow_pairs_def arm_shadows_def arm_at new_bits_def shadows_def arm_bits_def)

lemma thumb_shadowed: "shadow_pairs g_thumb_opcodes thumb_bits thumb_shadows"
  by (simp add: shadow_pairs_def thumb_shadows_def thumb_at new_bits_def shadows_def thumb_bits_def)

text \<open>VST1 is behind the stores of a register, one for either value of bit 22, and RFE is behind the four
  forms of LDM, which differ in bits 23 and 24.\<close>

lemma new_arm: "new_bits arm_bits 112 0" "new_bits arm_bits 113 0" "new_bits arm_bits 118 0"
  by (simp_all add: new_bits_def arm_bits_def)

lemma new_arm_entry:
  assumes "j \<in> {112, 113, 118}"
  shows "g_arm_opcodes ! j \<notin> set (take j g_arm_opcodes)"
proof -
  have "g_arm_opcodes ! 0 \<noteq> g_arm_opcodes ! 112 \<and> g_arm_opcodes ! 0 \<noteq> g_arm_opcodes ! 113 \<and>
      g_arm_opcodes ! 0 \<noteq> g_arm_opcodes ! 118"
    by (simp add: arm_at) (simp add: g_arm_opcodes_def)
  then show ?thesis
    using new_bits [of g_arm_opcodes j 0] new_arm assms by (auto simp: arm_bits(1,2))
qed

lemma split_arm_not_found:
  assumes "j \<in> {112, 113, 118}"
  shows "List.find (entry_matches opcode isa) g_arm_opcodes \<noteq> Some (g_arm_opcodes ! j)"
proof (cases "j = 118")
  case True
  have "0x1800000 AND opcode = (push_bit 23 1 AND opcode) OR (push_bit 24 1 AND opcode)"
    by (simp flip: bit.conj_disj_distrib2)
  then have "0x1800000 AND opcode \<in> {0, 0x800000, 0x1000000, 0x1800000}"
    unfolding one_bit by simp
  then show ?thesis
    unfolding True
    by (intro split_not_found [where K = "0x1800000"
          and bs = "[(0, 73), (0x800000, 72), (0x1000000, 74), (0x1800000, 75)]"] new_arm_entry)
      (simp_all add: arm_bits(2) arm_at shadows_def)
next
  case False
  have "push_bit 22 1 AND opcode \<in> {0, push_bit 22 1}"
    unfolding one_bit by simp
  then have "0x400000 AND opcode \<in> {0, 0x400000}"
    by simp
  then show ?thesis
    using assms False
    by (intro split_not_found [where K = "0x400000" and bs = "[(0, 105), (0x400000, 104)]"] new_arm_entry)
      (auto simp: arm_bits(2) arm_at shadows_def)
qed

text \<open>C8: Which entries of the tables of opcodes are dead. In the ARM table exactly thirteen entries are never
  found by any opcode on any architecture, in the Thumb table exactly twenty-one: all others are
  found by some opcode. The dead ones are behind entries that match whenever they do, and one has a value with a
  bit that its mask does not have; among them are LSR (register), ADR, MOV, TEQ and the shifts in their
  32-bit Thumb encodings, the loads and stores of a vector
  register, and RFE of the ARM encoding.\<close>

theorem dead_entries:
  "{j. j < length g_arm_opcodes \<and>
       (\<forall>opcode isa. GetARMOpcodeForInstruction opcode isa \<noteq> Some (g_arm_opcodes ! j))} =
     {28, 45, 65, 83, 86, 92, 93, 96, 110, 111, 112, 113, 118} \<and>
   {j. j < length g_thumb_opcodes \<and>
       (\<forall>opcode isa. GetThumbOpcodeForInstruction opcode isa \<noteq> Some (g_thumb_opcodes ! j))} =
     {62, 74, 75, 78, 79, 80, 82, 85, 87, 92, 96, 101, 105, 109, 112, 113, 118, 156, 157, 160, 179}"
proof (intro conjI set_eqI iffI)
  fix j assume "j \<in> {j. j < length g_arm_opcodes \<and>
       (\<forall>opcode isa. GetARMOpcodeForInstruction opcode isa \<noteq> Some (g_arm_opcodes ! j))}"
  then show "j \<in> {28, 45, 65, 83, 86, 92, 93, 96, 110, 111, 112, 113, 118}"
    using arm_entry_found [of j] unfolding gaps_arm arm_bits(2) by auto
next
  fix j :: nat assume "j \<in> {28, 45, 65, 83, 86, 92, 93, 96, 110, 111, 112, 113, 118}"
  then have j: "j < 119" "j \<in> {112, 113, 118} \<or> j \<in> fst ` set arm_shadows"
    by (auto simp: arm_shadows_def)
  have "GetARMOpcodeForInstruction opcode isa \<noteq> Some (g_arm_opcodes ! j)" for opcode isa
    using j(2) split_arm_not_found shadow_pair_not_found [OF arm_shadowed arm_bits(1)]
    unfolding GetARMOpcodeForInstruction_def by auto
  then show "j \<in> {j. j < length g_arm_opcodes \<and>
       (\<forall>opcode isa. GetARMOpcodeForInstruction opcode isa \<noteq> Some (g_arm_opcodes ! j))}"
    using j(1) by (simp add: arm_bits(2))
next
  fix j assume "j \<in> {j. j < length g_thumb_opcodes \<and>
       (\<forall>opcode isa. GetThumbOpcodeForInstruction opcode isa \<noteq> Some (g_thumb_opcodes ! j))}"
  then show "j \<in> {62, 74, 75, 78, 79, 80, 82, 85, 87, 92, 96, 101, 105, 109, 112, 113, 118, 156, 157, 160, 179}"
    using thumb_entry_found [of j] bxj_found cmp_found unfolding gaps_thumb thumb_bits(2) by auto
next
  fix j :: nat
  assume "j \<in> {62, 74, 75, 78, 79, 80, 82, 85, 87, 92, 96, 101, 105, 109, 112, 113, 118, 156, 157, 160, 179}"
  then have j: "j < 191" "j = 156 \<or> j \<in> fst ` set thumb_shadows"
    by (auto simp: thumb_shadows_def)
  have "ao_value (g_thumb_opcodes ! 156) AND NOT (ao_mask (g_thumb_opcodes ! 156)) \<noteq> 0"
    by (simp add: thumb_at)
  then have "GetThumbOpcodeForInstruction opcode isa \<noteq> Some (g_thumb_opcodes ! j)" for opcode isa
    using j(2) outside_not_found shadow_pair_not_found [OF thumb_shadowed thumb_bits(1)]
    unfolding GetThumbOpcodeForInstruction_def by auto
  then show "j \<in> {j. j < length g_thumb_opcodes \<and>
       (\<forall>opcode isa. GetThumbOpcodeForInstruction opcode isa \<noteq> Some (g_thumb_opcodes ! j))}"
    using j(1) by (simp add: thumb_bits(2))
qed

end
