(* ===== verification/ARMStep.thy ===== *)
theory ARMStep
  imports ARMTables
begin

text \<open>
  One instruction from the memory to the next one: an opcode of a data-processing instruction finds its
  callback, and \<open>ReadInstruction\<close> with \<open>EvaluateInstruction\<close> executes it and moves the program counter.
\<close>

section \<open>Decoding data processing\<close>

fun dp_code :: "dp_op \<Rightarrow> u32" where
  "dp_code dp_AND = 0" | "dp_code dp_EOR = 1" | "dp_code dp_SUB = 2" | "dp_code dp_RSB = 3"
| "dp_code dp_ADD = 4" | "dp_code dp_ADC = 5" | "dp_code dp_SBC = 6" | "dp_code dp_RSC = 7"
| "dp_code dp_TST = 8" | "dp_code dp_TEQ = 9" | "dp_code dp_CMP = 10" | "dp_code dp_CMN = 11"
| "dp_code dp_ORR = 12" | "dp_code dp_MOV = 13" | "dp_code dp_BIC = 14" | "dp_code dp_MVN = 15"

text \<open>The bits of an instruction that the architecture fixes: a comparison sets the flags and has no
  destination, a move has no first operand.\<close>

definition dp_mask :: "bool \<Rightarrow> dp_op \<Rightarrow> u32" where
  "dp_mask i op =
     (if i then 0x0fe00000 else 0x0fe00010) OR (if dp_tests op then 0x0010f000 else 0) OR
     (if op \<in> {dp_MOV, dp_MVN} then 0x000f0000 else 0)"

definition dp_value :: "bool \<Rightarrow> dp_op \<Rightarrow> u32" where
  "dp_value i op =
     (if i then 0x02000000 else 0) OR push_bit 21 (dp_code op) OR (if dp_tests op then 0x00100000 else 0)"

text \<open>ADD and SUB with SP, IP or PC have entries of their own, as has the plain move of a register.\<close>

definition dp_decoded :: "bool \<Rightarrow> dp_op \<Rightarrow> u32 \<Rightarrow> bool" where
  "dp_decoded i op w \<longleftrightarrow>
     dp_mask i op AND w = dp_value i op \<and> (op = dp_MOV \<longrightarrow> i) \<and>
     (op \<in> {dp_ADD, dp_SUB} \<longrightarrow> Bits32 w 19 16 \<notin> {12, 13, 15})"

fun dp_index :: "bool \<Rightarrow> dp_op \<Rightarrow> nat" where
  "dp_index True dp_AND = 30" | "dp_index True dp_EOR = 34" | "dp_index True dp_SUB = 44"
| "dp_index True dp_RSB = 38" | "dp_index True dp_ADD = 25" | "dp_index True dp_ADC = 23"
| "dp_index True dp_SBC = 42" | "dp_index True dp_RSC = 40" | "dp_index True dp_TST = 49"
| "dp_index True dp_TEQ = 47" | "dp_index True dp_CMP = 58" | "dp_index True dp_CMN = 56"
| "dp_index True dp_ORR = 36" | "dp_index True dp_MOV = 51" | "dp_index True dp_BIC = 32"
| "dp_index True dp_MVN = 54" | "dp_index False dp_AND = 31" | "dp_index False dp_EOR = 35"
| "dp_index False dp_SUB = 46" | "dp_index False dp_RSB = 39" | "dp_index False dp_ADD = 26"
| "dp_index False dp_ADC = 24" | "dp_index False dp_SBC = 43" | "dp_index False dp_RSC = 41"
| "dp_index False dp_TST = 50" | "dp_index False dp_TEQ = 48" | "dp_index False dp_CMP = 59"
| "dp_index False dp_CMN = 57" | "dp_index False dp_ORR = 37" | "dp_index False dp_MOV = 53"
| "dp_index False dp_BIC = 33" | "dp_index False dp_MVN = 55"

text \<open>No entry of a list matches an opcode with these bits: it has another value on common bits, or, for
  \<open>special\<close>, it asks for SP, IP or PC as the first operand.\<close>

definition avoids :: "bool \<Rightarrow> cut_bits \<Rightarrow> cut_bits list \<Rightarrow> bool" where
  "avoids special = (\<lambda>(m, v, m', v'). list_all (\<lambda>(a, b, a', b').
     if a AND m AND (b XOR v) \<noteq> 0 then True
     else if a' AND m' AND (b' XOR v') \<noteq> 0 then True
     else special \<and> a' AND 0xf0000 = 0xf0000 \<and> b' AND 0xf0000 \<in> {0xc0000, 0xd0000, 0xf0000}))"

definition dp_bits :: "bool \<Rightarrow> dp_op \<Rightarrow> cut_bits" where
  "dp_bits i op = entry_bits (ARMOpcode (dp_mask i op) (dp_value i op) ARMvAll eEncodingA1 No_VFP eSize32 [])"

lemma dp_avoids_imm: "avoids (op \<in> {dp_ADD, dp_SUB}) (dp_bits True op) (take (dp_index True op) arm_bits)"
  by (cases op) (simp_all add: avoids_def dp_bits_def entry_bits_def dp_mask_def dp_value_def dp_tests_def arm_bits_def)

lemma dp_avoids_reg:
  "op \<noteq> dp_MOV \<Longrightarrow> avoids (op \<in> {dp_ADD, dp_SUB}) (dp_bits False op) (take (dp_index False op) arm_bits)"
  by (cases op) (simp_all add: avoids_def dp_bits_def entry_bits_def dp_mask_def dp_value_def dp_tests_def arm_bits_def)

lemma avoided:
  assumes "avoids special (m, v, m', v') es" "(a, b, a', b') \<in> set es"
    and "m AND hi = v" "m' AND lo = v'" "special \<longrightarrow> lo AND 0xf0000 \<notin> {0xc0000, 0xd0000, 0xf0000}"
  shows "\<not> (a AND hi = b \<and> a' AND lo = b')"
proof
  assume e: "a AND hi = b \<and> a' AND lo = b'"
  have common: "c AND d AND (c AND h XOR d AND h) = 0" for c d h :: int
    by (rule bit_eqI) (auto simp: bit_simps)
  have "a AND m AND (b XOR v) = 0" "a' AND m' AND (b' XOR v') = 0"
    using e assms(3,4) common [of a m hi] common [of a' m' lo] by auto
  then have s: "special" "a' AND 0xf0000 = 0xf0000" "b' AND 0xf0000 \<in> {0xc0000, 0xd0000, 0xf0000}"
    using assms(1,2) by (fastforce simp: avoids_def list_all_iff)+
  have "b' AND 0xf0000 = (a' AND 0xf0000) AND lo"
    using e by (auto simp: ac_simps)
  then have "b' AND 0xf0000 = lo AND 0xf0000"
    unfolding s(2) by (simp add: and.commute)
  then show False
    using s(1,3) assms(5) by simp
qed

lemma cut_word_int: "word_of_int (uint w div 2 ^ 20 * 2 ^ 20 + uint w mod 2 ^ 20) = (w :: u32)"
  by (simp only: div_mult_mod_eq word_of_int_uint)

lemma cut_bounds: "0 \<le> uint (w :: u32) div 2 ^ 20" "uint w div 2 ^ 20 < 2 ^ 12"
  "0 \<le> uint w mod 2 ^ 20" "uint w mod 2 ^ 20 < 2 ^ 20"
  using uint_bounded [of w] by (simp_all add: pos_imp_zdiv_nonneg_iff div_less_iff_less_mult)

lemma matches_word:
  "entry_bits e = (m, v, m', v') \<Longrightarrow>
    ao_mask e AND w = ao_value e \<longleftrightarrow> m AND uint w div 2 ^ 20 = v \<and> m' AND uint w mod 2 ^ 20 = v'"
  using matches_cut [OF cut_bounds(1,2) [of w] cut_bounds(3,4) [of w], of e m v m' v'] unfolding cut_word_int .

lemma first_operand:
  assumes "uint (w :: u32) mod 2 ^ 20 AND 0xf0000 = 2 ^ 16 * int n"
  shows "Bits32 w 19 16 = of_nat n"
proof (rule bit_word_eqI)
  have fixed: "(0xf0000 :: int) = push_bit 16 (mask 4)"
    by (simp add: push_bit_eq_mult mask_eq_exp_minus_1)
  fix k
  assume "k < LENGTH(32)"
  have "bit (uint w mod 2 ^ 20 AND 0xf0000) (16 + k) \<longleftrightarrow> k < 4 \<and> bit w (16 + k)"
    unfolding take_bit_eq_mod [symmetric] fixed
    by (simp only: bit_and_iff bit_take_bit_iff bit_push_bit_iff bit_mask_iff bit_uint_iff) auto
  moreover have "bit (2 ^ 16 * int n) (16 + k) = bit n k"
  proof -
    have "2 ^ 16 * int n = push_bit 16 (int n)"
      by (simp add: push_bit_eq_mult)
    then show ?thesis
      by (simp only: bit_push_bit_iff) (simp add: bit_of_nat_iff_bit)
  qed
  ultimately have "bit n k \<longleftrightarrow> k < 4 \<and> bit w (16 + k)"
    unfolding assms(1) by simp
  then show "bit (Bits32 w 19 16) k = bit (word_of_nat n :: u32) k"
    using \<open>k < LENGTH(32)\<close> by (auto simp: bit_Bits32 bit_of_nat_iff possible_bit_word)
qed

text \<open>The entries of the data-processing instructions.\<close>

fun dp_callback :: "bool \<Rightarrow> dp_op \<Rightarrow> string" where
  "dp_callback True dp_AND = ''EmulateANDImm''"
| "dp_callback True dp_EOR = ''EmulateEORImm''"
| "dp_callback True dp_SUB = ''EmulateSUBImmARM''"
| "dp_callback True dp_RSB = ''EmulateRSBImm''"
| "dp_callback True dp_ADD = ''EmulateADDImmARM''"
| "dp_callback True dp_ADC = ''EmulateADCImm''"
| "dp_callback True dp_SBC = ''EmulateSBCImm''"
| "dp_callback True dp_RSC = ''EmulateRSCImm''"
| "dp_callback True dp_TST = ''EmulateTSTImm''"
| "dp_callback True dp_TEQ = ''EmulateTEQImm''"
| "dp_callback True dp_CMP = ''EmulateCMPImm''"
| "dp_callback True dp_CMN = ''EmulateCMNImm''"
| "dp_callback True dp_ORR = ''EmulateORRImm''"
| "dp_callback True dp_MOV = ''EmulateMOVRdImm''"
| "dp_callback True dp_BIC = ''EmulateBICImm''"
| "dp_callback True dp_MVN = ''EmulateMVNImm''"
| "dp_callback False dp_AND = ''EmulateANDReg''"
| "dp_callback False dp_EOR = ''EmulateEORReg''"
| "dp_callback False dp_SUB = ''EmulateSUBReg''"
| "dp_callback False dp_RSB = ''EmulateRSBReg''"
| "dp_callback False dp_ADD = ''EmulateADDReg''"
| "dp_callback False dp_ADC = ''EmulateADCReg''"
| "dp_callback False dp_SBC = ''EmulateSBCReg''"
| "dp_callback False dp_RSC = ''EmulateRSCReg''"
| "dp_callback False dp_TST = ''EmulateTSTReg''"
| "dp_callback False dp_TEQ = ''EmulateTEQReg''"
| "dp_callback False dp_CMP = ''EmulateCMPReg''"
| "dp_callback False dp_CMN = ''EmulateCMNReg''"
| "dp_callback False dp_ORR = ''EmulateORRReg''"
| "dp_callback False dp_MOV = ''EmulateMOVRdRm''"
| "dp_callback False dp_BIC = ''EmulateBICReg''"
| "dp_callback False dp_MVN = ''EmulateMVNReg''"

lemma dp_at:
  "g_arm_opcodes ! 23 = ARMOpcode 0x0fe00000 0x02a00000 ARMvAll eEncodingA1 No_VFP eSize32 ''EmulateADCImm''"
  "g_arm_opcodes ! 24 = ARMOpcode 0x0fe00010 0x00a00000 ARMvAll eEncodingA1 No_VFP eSize32 ''EmulateADCReg''"
  "g_arm_opcodes ! 25 = ARMOpcode 0x0fe00000 0x02800000 ARMvAll eEncodingA1 No_VFP eSize32 ''EmulateADDImmARM''"
  "g_arm_opcodes ! 26 = ARMOpcode 0x0fe00010 0x00800000 ARMvAll eEncodingA1 No_VFP eSize32 ''EmulateADDReg''"
  "g_arm_opcodes ! 30 = ARMOpcode 0x0fe00000 0x02000000 ARMvAll eEncodingA1 No_VFP eSize32 ''EmulateANDImm''"
  "g_arm_opcodes ! 31 = ARMOpcode 0x0fe00010 0x00000000 ARMvAll eEncodingA1 No_VFP eSize32 ''EmulateANDReg''"
  "g_arm_opcodes ! 32 = ARMOpcode 0x0fe00000 0x03c00000 ARMvAll eEncodingA1 No_VFP eSize32 ''EmulateBICImm''"
  "g_arm_opcodes ! 33 = ARMOpcode 0x0fe00010 0x01c00000 ARMvAll eEncodingA1 No_VFP eSize32 ''EmulateBICReg''"
  "g_arm_opcodes ! 34 = ARMOpcode 0x0fe00000 0x02200000 ARMvAll eEncodingA1 No_VFP eSize32 ''EmulateEORImm''"
  "g_arm_opcodes ! 35 = ARMOpcode 0x0fe00010 0x00200000 ARMvAll eEncodingA1 No_VFP eSize32 ''EmulateEORReg''"
  "g_arm_opcodes ! 36 = ARMOpcode 0x0fe00000 0x03800000 ARMvAll eEncodingA1 No_VFP eSize32 ''EmulateORRImm''"
  "g_arm_opcodes ! 37 = ARMOpcode 0x0fe00010 0x01800000 ARMvAll eEncodingA1 No_VFP eSize32 ''EmulateORRReg''"
  "g_arm_opcodes ! 38 = ARMOpcode 0x0fe00000 0x02600000 ARMvAll eEncodingA1 No_VFP eSize32 ''EmulateRSBImm''"
  "g_arm_opcodes ! 39 = ARMOpcode 0x0fe00010 0x00600000 ARMvAll eEncodingA1 No_VFP eSize32 ''EmulateRSBReg''"
  "g_arm_opcodes ! 40 = ARMOpcode 0x0fe00000 0x02e00000 ARMvAll eEncodingA1 No_VFP eSize32 ''EmulateRSCImm''"
  "g_arm_opcodes ! 41 = ARMOpcode 0x0fe00010 0x00e00000 ARMvAll eEncodingA1 No_VFP eSize32 ''EmulateRSCReg''"
  "g_arm_opcodes ! 42 = ARMOpcode 0x0fe00000 0x02c00000 ARMvAll eEncodingA1 No_VFP eSize32 ''EmulateSBCImm''"
  "g_arm_opcodes ! 43 = ARMOpcode 0x0fe00010 0x00c00000 ARMvAll eEncodingA1 No_VFP eSize32 ''EmulateSBCReg''"
  "g_arm_opcodes ! 44 = ARMOpcode 0x0fe00000 0x02400000 ARMvAll eEncodingA1 No_VFP eSize32 ''EmulateSUBImmARM''"
  "g_arm_opcodes ! 46 = ARMOpcode 0x0fe00010 0x00400000 ARMvAll eEncodingA1 No_VFP eSize32 ''EmulateSUBReg''"
  "g_arm_opcodes ! 47 = ARMOpcode 0x0ff0f000 0x03300000 ARMvAll eEncodingA1 No_VFP eSize32 ''EmulateTEQImm''"
  "g_arm_opcodes ! 48 = ARMOpcode 0x0ff0f010 0x01300000 ARMvAll eEncodingA1 No_VFP eSize32 ''EmulateTEQReg''"
  "g_arm_opcodes ! 49 = ARMOpcode 0x0ff0f000 0x03100000 ARMvAll eEncodingA1 No_VFP eSize32 ''EmulateTSTImm''"
  "g_arm_opcodes ! 50 = ARMOpcode 0x0ff0f010 0x01100000 ARMvAll eEncodingA1 No_VFP eSize32 ''EmulateTSTReg''"
  "g_arm_opcodes ! 51 = ARMOpcode 0x0fef0000 0x03a00000 ARMvAll eEncodingA1 No_VFP eSize32 ''EmulateMOVRdImm''"
  "g_arm_opcodes ! 54 = ARMOpcode 0x0fef0000 0x03e00000 ARMvAll eEncodingA1 No_VFP eSize32 ''EmulateMVNImm''"
  "g_arm_opcodes ! 55 = ARMOpcode 0x0fef0010 0x01e00000 ARMvAll eEncodingA1 No_VFP eSize32 ''EmulateMVNReg''"
  "g_arm_opcodes ! 56 = ARMOpcode 0x0ff0f000 0x03700000 ARMvAll eEncodingA1 No_VFP eSize32 ''EmulateCMNImm''"
  "g_arm_opcodes ! 57 = ARMOpcode 0x0ff0f010 0x01700000 ARMvAll eEncodingA1 No_VFP eSize32 ''EmulateCMNReg''"
  "g_arm_opcodes ! 58 = ARMOpcode 0x0ff0f000 0x03500000 ARMvAll eEncodingA1 No_VFP eSize32 ''EmulateCMPImm''"
  "g_arm_opcodes ! 59 = ARMOpcode 0x0ff0f010 0x01500000 ARMvAll eEncodingA1 No_VFP eSize32 ''EmulateCMPReg''"
  by (simp_all add: g_arm_opcodes_def)

lemma dp_entry:
  assumes "op = dp_MOV \<longrightarrow> i"
  shows "\<exists>m v. g_arm_opcodes ! dp_index i op = ARMOpcode m v ARMvAll eEncodingA1 No_VFP eSize32 (dp_callback i op) \<and>
    m AND dp_mask i op = m \<and> m AND dp_value i op = v"
  using assms by (cases i; cases op) (simp_all add: dp_at dp_mask_def dp_value_def dp_tests_def)

text \<open>The rules that find a name in the list of the callbacks.\<close>

lemmas callback_name = map_of.simps fst_conv snd_conv fun_upd_apply list.inject char.inject list.distinct
  simp_thms if_True if_False option.case

lemma dp_calls:
  assumes "op = dp_MOV \<longrightarrow> i"
  shows "arm_callback E (dp_callback i op) w eEncodingA1 s = dp_emulate i op E w eEncodingA1 s"
  using assms unfolding arm_callback_def dp_emulate_def
  by (cases i; cases op) (simp_all only: dp_callback.simps dp_imm.simps dp_reg.simps callback_name dp_op.distinct
      cong: if_weak_cong)

lemma dp_finds:
  assumes "dp_decoded i op w" "isa \<noteq> 0"
  shows "GetARMOpcodeForInstruction w isa = Some (g_arm_opcodes ! dp_index i op)"
proof -
  let ?t = "dp_index i op" and ?hi = "uint w div 2 ^ 20" and ?lo = "uint w mod 2 ^ 20"
  obtain m v m' v' where bits: "dp_bits i op = (m, v, m', v')"
    by (cases "dp_bits i op")
  have t: "?t < length g_arm_opcodes"
    unfolding arm_bits(2) by (cases op; cases i) simp_all
  have av: "avoids (op \<in> {dp_ADD, dp_SUB}) (m, v, m', v') (take ?t arm_bits)"
    using dp_avoids_imm [of op] dp_avoids_reg [of op] assms(1) unfolding bits [symmetric]
    by (cases i) (simp_all only: dp_decoded_def simp_thms)
  have fixed: "m AND ?hi = v" "m' AND ?lo = v'"
    using matches_word [of "ARMOpcode (dp_mask i op) (dp_value i op) ARMvAll eEncodingA1 No_VFP eSize32 []" m v m' v' w]
      bits assms(1) by (simp_all add: dp_bits_def dp_decoded_def)
  have special: "op \<in> {dp_ADD, dp_SUB} \<longrightarrow> ?lo AND 0xf0000 \<notin> {0xc0000, 0xd0000, 0xf0000}"
    using first_operand [of w 12] first_operand [of w 13] first_operand [of w 15] assms(1)
    by (auto simp: dp_decoded_def)
  have "\<not> entry_matches w isa (g_arm_opcodes ! k)" if k: "k < ?t" for k
  proof -
    obtain a b a' b' where e: "entry_bits (g_arm_opcodes ! k) = (a, b, a', b')"
      by (cases "entry_bits (g_arm_opcodes ! k)")
    then have "arm_bits ! k = (a, b, a', b')"
      using k t by (simp flip: arm_bits(1))
    moreover have "k < length (take ?t arm_bits)"
      using k t by (simp flip: arm_bits(1))
    ultimately have "(a, b, a', b') \<in> set (take ?t arm_bits)"
      using k by (metis nth_mem nth_take)
    from avoided [OF av this fixed special] show ?thesis
      using matches_word [OF e, of w] by (auto simp: entry_matches_def)
  qed
  moreover have "entry_matches w isa (g_arm_opcodes ! ?t)"
  proof -
    obtain m v where e: "g_arm_opcodes ! ?t = ARMOpcode m v ARMvAll eEncodingA1 No_VFP eSize32 (dp_callback i op)"
      "m AND dp_mask i op = m" "m AND dp_value i op = v"
      using dp_entry [of op i] assms(1) by (auto simp: dp_decoded_def)
    have "m AND w = (m AND dp_mask i op) AND w"
      unfolding e(2) ..
    also have "\<dots> = v"
      using assms(1) e(3) by (simp add: dp_decoded_def and.assoc)
    finally have "m AND w = v" .
    moreover have "ARMvAll AND isa = isa"
      using all_architectures [of isa] by (simp only: and.commute)
    ultimately show ?thesis
      using assms(2) by (simp add: entry_matches_def e(1))
  qed
  ultimately show ?thesis
    using t by (auto simp: GetARMOpcodeForInstruction_def find_Some_iff)
qed

section \<open>One instruction\<close>

context arm_memory begin

text \<open>Reading an ARM instruction on a host of the byte order of the target.\<close>

lemma ReadInstruction_reads:
  assumes ok: "ok (am_host s)" and plain: "\<not> GetEndianSwap (ae_platform E) (ae_byte_order E)" "\<not> ae_always_thumb E"
    and R: "R = regs (am_host s)" "R 16 AND MASK_CPSR_T = 0" and w: "words (am_host s) (ucast (R 15)) = Some w"
  shows "\<exists>it. ReadInstruction E s = (True, s\<lparr>am_cpsr := R 16, am_mode := eModeARM, am_opcode := w,
    am_opcode_size := 4, am_it := it\<rparr>)"
proof -
  have reads: "ReadRegisterUnsigned E eRegisterKindGeneric GENERIC_FLAGS t = Some (ucast (R 16))"
    "ReadRegisterUnsigned E eRegisterKindGeneric GENERIC_PC t = Some (ucast (R 15))"
    "MemARead E ctx (ucast (R 15)) 4 t = Some (ucast w)" if "am_host t = am_host s" for t ctx
    using that ok R(1) w read_word [of t] by (simp_all add: ReadRegisterUnsigned_def generic_register_info read_reg)
  let ?it = "push_bit 2 (Bits32 (R 16) 15 10) OR Bits32 (R 16) 26 25"
  show ?thesis
    using R(2) plain
    by (intro exI [of _ "if \<not> am_ignore s \<and> ?it \<noteq> 0 then snd (InitIT (ae_llvm E) ?it (am_it s)) else am_it s"])
      (simp add: ReadInstruction_def ReadOpcode_def reads Let_def SetOpcode32_def)
qed

lemma EvaluateInstruction_advances:
  assumes ok: "ok (am_host s)" and R: "R = regs (am_host s)" "R 16 = am_cpsr s" and arm: "am_mode s = eModeARM"
    and entry: "GetARMOpcodeForInstruction (am_opcode s) (am_isa s) = Some e"
    and run: "arm_callback E (ao_callback e) (am_opcode s) (ao_encoding e) (s\<lparr>am_ignore := False\<rparr>) = Some (True, s')"
    and s': "host_changes (s\<lparr>am_ignore := False\<rparr>) s'" "ok (am_host s')" "regs (am_host s') 15 = R 15"
  shows "\<exists>s2. EvaluateInstruction E True False s = Some (True, s2) \<and> ok (am_host s2) \<and>
    regs (am_host s2) = (regs (am_host s'))(15 := R 15 + of_nat (am_opcode_size s))"
proof -
  have cpsr: "s\<lparr>am_ignore := False, am_cpsr := R 16\<rparr> = s\<lparr>am_ignore := False\<rparr>"
    using R(2) by simp
  have "ReadRegisterUnsigned E eRegisterKindDWARF dwarf_cpsr (s\<lparr>am_ignore := False\<rparr>) = Some (ucast (R 16))"
    "ReadRegisterUnsigned E eRegisterKindDWARF PC_REG (s\<lparr>am_ignore := False\<rparr>) = Some (ucast (R 15))"
    using ok R(1) by (simp_all add: read_dwarf)
  note reads = this
  have same: "advance_IT (Some e) s' = s'" "am_opcode_size s' = am_opcode_size s"
    using s'(1) arm by (simp_all add: advance_IT_def host_changes_def)
  have "advance_pc E (R 15) s' =
      Some (True, s'\<lparr>am_host := set_reg (am_host s') 15 (R 15 + of_nat (am_opcode_size s))\<rparr>)"
    using s' same(2) by (simp add: advance_pc_def need_def check_def read_dwarf write_info generic_register_info)
  then have "EvaluateInstruction E True False s =
      Some (True, s'\<lparr>am_host := set_reg (am_host s') 15 (R 15 + of_nat (am_opcode_size s))\<rparr>)"
    using arm entry run reads same(1) cpsr by (simp add: EvaluateInstruction_def need_def)
  then show ?thesis
    using s'(2) by (simp add: ok_set_reg regs_set_reg)
qed

lemma EvaluateInstruction_undefined:
  assumes ok: "ok (am_host s)" and R: "R = regs (am_host s)" "R 16 = am_cpsr s" and arm: "am_mode s = eModeARM"
    and entry: "GetARMOpcodeForInstruction (am_opcode s) (am_isa s) = Some e"
    and run: "arm_callback E (ao_callback e) (am_opcode s) (ao_encoding e) (s\<lparr>am_ignore := False\<rparr>) = None"
  shows "EvaluateInstruction E True False s = None"
proof -
  have cpsr: "s\<lparr>am_ignore := False, am_cpsr := R 16\<rparr> = s\<lparr>am_ignore := False\<rparr>"
    using R(2) by simp
  have "ReadRegisterUnsigned E eRegisterKindDWARF dwarf_cpsr (s\<lparr>am_ignore := False\<rparr>) = Some (ucast (R 16))"
    "ReadRegisterUnsigned E eRegisterKindDWARF PC_REG (s\<lparr>am_ignore := False\<rparr>) = Some (ucast (R 15))"
    using ok R(1) by (simp_all add: read_dwarf)
  then show ?thesis
    using arm entry run cpsr by (simp add: EvaluateInstruction_def need_def)
qed

end


text \<open>\<open>SUBS r0, r1, #1\<close> at address 256, with 5 in \<open>r1\<close>, and a set V flag.\<close>

definition demo_step :: "pseudo_state arm" where
  "demo_step =
     (let s = demo_arm [(1, 5), (15, 256), (16, 0x10000010)]
      in s\<lparr>am_host := (am_host s)\<lparr>ps_memory := [256 \<mapsto> 0xE2510001]\<rparr>\<rparr>)"


end
