(* ===== verification/Spec2Isabelle.thy ===== *)
theory Spec2Isabelle
  imports DataExtractor DataEncoder StringExtractor ServerPackets GDBRemotePacket GDBRemoteFraming
    RangeMap MemoryAllocator MemoryCache BreakpointSites ProcessMemory MemoryView
    UnwindPlan DWARFCallFrameInfo DWARFUnwindTable LineTable LineSequences LineQueries
    IRMemoryMap IRMemoryView X86Inspection X86Frames X86Unwinding X86Assembly
    ARMUtils ARMEmulator ARMPseudoState ARMDataProcessing ARMReference ARMControl ARMMultiple
    ARMLoadStore ARMVector ARMStack ARMTransfers ARMDecode ARMTables ARMStep
begin

text \<open>
  A verification library for LLDB.

  The debugger reads object files, debug information and messages of a remote stub as byte
  buffers, talks to the stub in packets, reads, caches and allocates memory of the process
  it debugs, unwinds its stack by the tables of the object files or by looking at the instructions, and
  emulates instructions. The theories model this
  core, from the buffers upwards. Paths are relative to the repository.

  \<^bold>\<open>Buffers and numbers.\<close>
  \<^item> \<open>Prelude\<close>: machine types, byte orders, the reference reading of byte lists
    (\<open>le_nat\<close>, \<open>be_nat\<close>), the platform LLDB is compiled for, characters, the option monad.
  \<^item> \<open>DataExtractor\<close> (source/Utility/DataExtractor.cpp): a window on shared bytes, with the
    reads of integers, bit fields, addresses, strings and LEB128 numbers. An extractor is the
    record \<open>data_extractor\<close>; a read takes an offset and returns the value and the new offset, the
    same one when it fails. Lemmas: each read returns the number the bytes stand for under the byte
    order; array reads are repeated reads; copies between byte orders keep the value; \<open>SetData\<close>
    and \<open>Append\<close> give the bytes stated.
  \<^item> \<open>DataEncoder\<close> (source/Utility/DataEncoder.cpp): the writes, on the same representation.
    Lemmas: what is written is read back, and nothing else changes.

  \<^bold>\<open>The GDB remote protocol.\<close>
  \<^item> \<open>StringExtractor\<close> (source/Utility/StringExtractor.cpp and the hexadecimal printers of
    Stream.cpp): a packet and a cursor. Lemmas: round trips of hexadecimal text.
  \<^item> \<open>ServerPackets\<close> (source/Utility/StringExtractorGDBRemote.cpp, \<open>GetServerPacketType\<close>): the
    classification of requests; it is compared with the protocol tables
    \<open>protocol_prefixes\<close>, \<open>protocol_words\<close>, \<open>letter_packets\<close>.
  \<^item> \<open>GDBRemotePacket\<close> (the responses of the same file, StreamGDBRemote.cpp, Status.cpp):
    response types, error packets, response validators, escaping.
  \<^item> \<open>GDBRemoteFraming\<close> (source/Plugins/Process/gdb-remote/GDBRemoteCommunication.cpp): the packet
    layer. \<open>gdb_comm\<close> is the state of a connection: received bytes, what was written, the packet
    queue, events, history, flags. \<open>CheckForPacket\<close> takes one packet out of the
    received bytes; \<open>AppendBytesToCache\<close> is the read thread, \<open>WaitForPacketNoLock\<close> the
    synchronous reader. Decompression, and the connection that delivers bytes, are
    parameters gathered in \<open>remote_env\<close>. Lemmas: framed packets are received unchanged however
    the stream is cut, all frames of a batch are queued in order, and the corner cases in
    which the code deviates from the protocol.

  \<^bold>\<open>Memory of the process.\<close>
  \<^item> \<open>RangeMap\<close> (include/lldb/Core/RangeMap.h): ranges at their width and sorted vectors of them.
    Lemmas: combining inserts and removals as operations on sets of addresses (\<open>cells\<close>).
  \<^item> \<open>MemoryAllocator\<close> (source/Target/Memory.cpp): \<open>AllocatedBlock\<close> hands out parts of a page,
    \<open>AllocatedMemoryCache\<close> asks the process for pages. The locale \<open>block_allocator\<close> states what the
    cache needs of a block and is interpreted on the model of the code. \<open>amc_reachable\<close> are the
    states the operations lead to; the ranges in use are disjoint in all of them.
  \<^item> \<open>MemoryCache\<close> (source/Target/Memory.cpp): the two-level cache of memory that was read.
    Lemmas: reads return what the memory holds, flushing keeps the cache coherent, and the two
    ways in which the code fails to.

  \<^bold>\<open>Breakpoint sites and what the program's memory is.\<close>
  \<^item> \<open>BreakpointSites\<close> (source/Breakpoint/BreakpointSite.cpp, BreakpointSiteList.cpp,
    BreakpointLocationCollection.cpp): a site with its owners, its trap and the bytes the trap
    replaced; the list of the sites by address. Lemmas: lookups and intersections are statements
    about the addresses of the sites.
  \<^item> \<open>ProcessMemory\<close> (source/Target/Process.cpp, Platform.cpp): \<open>process\<close> is what the
    plugin holds, the list of sites and the two memory caches; switching sites on and off, reads
    through the cache with the traps taken out, writes that go around and into the sites,
    allocation. The plugin is the parameter \<open>process_env\<close>; sites are software traps.
  \<^item> \<open>MemoryView\<close>: the abstract memory of the program, \<open>program_view\<close>, in which no trap shows.
    \<open>debug_session\<close> are the operations a client can run one after the other, with the writes for which
    the code is right (no site right behind them, cached chunks that a flush finds); reads after any of
    them refine reads of the abstract memory, and separate theorems show where a trap leaks or a
    write is lost. The plugin's contract is \<open>plugin_ok\<close>.

  \<^bold>\<open>Unwinding.\<close>
  \<^item> \<open>UnwindPlan\<close> (source/Symbol/UnwindPlan.cpp; Address and AddressRange of source/Core): the
    plan of a function, a list of rows that say for every offset how the frame address and the
    registers of the caller are found. Lemmas: \<open>InsertRow\<close> keeps the rows sorted and acts as an
    update of the map from offsets to rows; \<open>GetRowForFunctionOffset\<close> finds the row in force; what
    the comparison of rows overlooks.
  \<^item> \<open>DWARFCallFrameInfo\<close> (source/Symbol/DWARFCallFrameInfo.cpp): the reader of \<open>.debug_frame\<close> and
    \<open>.eh_frame\<close> sections: pointer encodings, \<open>ParseCIE\<close>, the index of frame descriptions, the
    interpreter \<open>FDEToUnwindPlan\<close> of call frame instructions. The object file and the target are
    gathered in the parameter \<open>cfi_env\<close>; the object of the code with its section, its CIEs and its
    index is \<open>cfi_state\<close>. The three loops over a section are partial functions.
  \<^item> \<open>DWARFUnwindTable\<close>: the standard's view. \<open>cfa_insn\<close> are the instructions, \<open>encode\<close> their
    bytes, \<open>dwarf_table\<close> the table that the standard assigns to a program. The interpreter of the
    code refines it: it returns, and its plan has the rules of the table at every offset. The
    theorem is about programs whose operands are within the stated widths and that use no
    instruction for which the code departs from the standard (\<open>DW_CFA_set_loc\<close>,
    \<open>DW_CFA_val_offset\<close>, and \<open>DW_CFA_restore\<close> of a register that the initial
    instructions do not mention); separate lemmas show what happens for some of these, and two
    inputs on which a loop of the code does not end.

  \<^bold>\<open>Unwinding without tables.\<close>
  \<^item> \<open>X86Inspection\<close> (source/Plugins/UnwindAssembly/x86/x86AssemblyInspectionEngine.cpp): the patterns
    of x86 instructions, the inspection of a function that makes an unwind plan from its bytes
    (\<open>inspect_insn\<close> is the cascade over the patterns, \<open>record_row\<close> what follows it), the
    completion of a compiler's plan, the search for the end of a prologue. LLVM's length of an
    instruction is a parameter.
  \<^item> \<open>X86Frames\<close>: instructions (\<open>x86_insn\<close>) with their bytes, and the frame of a function along its
    instructions: \<open>frame_after\<close> says where the caller's state is behind an instruction, or that no
    compiler emits it there. Every row of the plan describes the frame at its offset.
  \<^item> \<open>X86Unwinding\<close>: a machine with registers and memory. In every state that an execution reaches
    (\<open>x86_exec\<close>; jumps lead to places with the same frame, called functions keep the convention)
    the plan finds the CFA, the return address and the preserved registers of the caller.
  \<^item> \<open>X86Assembly\<close> (UnwindAssembly-x86.cpp, source/Target/RegisterNumber.cpp): the plugin; the end of
    a prologue is found; a row that is completed too early, a search that does not initialize.

  \<^bold>\<open>Line tables.\<close>
  \<^item> \<open>LineTable\<close> (source/Symbol/LineTable.cpp, LineEntry.cpp): the rows of a compile unit, built from
    sequences; searches by address, by line, by file; contiguous ranges; linking, which moves
    the rows of an object file to where the linker put its code.
  \<^item> \<open>LineSequences\<close>: the meaning of a table is its \<open>spans\<close>, the addresses between a row and the next.
    Linking is a function of the spans; inserting keeps the list of sequences sorted; the
    search by address is the abstract \<open>line_index\<close>.
  \<^item> \<open>LineQueries\<close>: contiguous ranges, the nearest row of a line, the range of a line; inputs on
    which the table loses a line or reports the wrong file.

  \<^bold>\<open>Memory of expressions.\<close>
  \<^item> \<open>IRMemoryMap\<close> (source/Expression/IRMemoryMap.cpp): the allocations of an expression, kept in
    the debugger, in the process or in both. \<open>ir_map\<close> is the map with the process it holds on to;
    \<open>ir_env\<close> gathers the plugin, the regions of the process, the files of the target and
    LLVM's rounding. The walk over the regions, \<open>hunt\<close>, is a partial function.
  \<^item> \<open>IRMemoryView\<close>: without a process the map is a memory of its own, \<open>host_view\<close>, under all
    sequences of operations (\<open>host_session\<close>); with one, addresses outside of the allocations in the
    debugger are the memory of the program (MemoryView). Pointers round trip; separate lemmas show
    where an allocation reaches past its block and where a failure is not reported.

  \<^bold>\<open>Emulation of ARM instructions.\<close>
  \<^item> \<open>ARMUtils\<close> (source/Plugins/Process/Utility/ARMUtils.h, InstructionUtils.h; \<open>ITSession\<close> of
    EmulateInstructionARM.cpp): bit fields, shifts, immediates, and the progress of an IT block. Lemmas:
    an accepted IT block lasts as long as its mask says and gives every instruction its condition.
  \<^item> \<open>ARMEmulator\<close> (EmulateInstructionARM.cpp, source/Core/EmulateInstruction.cpp): the record \<open>arm\<close> is the
    state of an emulator with its baton, of type \<open>'s\<close>; \<open>arm_env\<close> are the callbacks and the
    architecture. Access to registers and memory, conditions, writes of the program counter, flags, the
    adder. A callback has the type \<open>'s emulated\<close>: the outer \<open>None\<close> is undefined behaviour, the flag is
    the success that C++ returns. LLVM's functions are the parameter \<open>llvm_math\<close>, with the hypotheses
    \<open>counts_zeros\<close>, \<open>extends_sign\<close> and \<open>extends_sign_from\<close>.
  \<^item> \<open>ARMPseudoState\<close> (EmulationStateARM.cpp): the registers and memory on which an instruction is tested.
    The locales \<open>arm_host\<close> and \<open>arm_memory\<close> state what the emulator asks of its callbacks, and are
    interpreted on this state, for a little-endian 32-bit target (\<open>arm_arch_ok\<close>).
  \<^item> \<open>ARMDataProcessing\<close>, \<open>ARMControl\<close>, \<open>ARMMultiple\<close>, \<open>ARMLoadStore\<close>, \<open>ARMVector\<close>
    (EmulateInstructionARM.cpp): one definition per callback, with its encodings: data processing, the stack,
    branches and system instructions, loads and stores of several registers, of one, of vectors.
  \<^item> \<open>ARMReference\<close>: the sixteen data-processing operations against the architecture, with an immediate and
    with a shifted register; where the adder of the code is undefined, and where its carry is wrong.
  \<^item> \<open>ARMStack\<close>, \<open>ARMTransfers\<close>: PUSH and POP round trip; what LDM loads; the extensions; a store below
    its base.
  \<^item> \<open>ARMDecode\<close> (EmulateInstructionARM.cpp, include/lldb/Core/Opcode.h): the two tables of opcodes and their
    search, \<open>SetArchitecture\<close>, \<open>SetInstruction\<close>, \<open>ReadInstruction\<close>, \<open>EvaluateInstruction\<close>, and the plan of a
    function's entry. A pointer to a callback is its name.
  \<^item> \<open>ARMTables\<close>: which entries of the tables can be found at all. The search is evaluated on the numbers of
    the masks and values; a shadowed entry is refuted by the entries before it.
  \<^item> \<open>ARMStep\<close>: one data-processing instruction from the memory to the next one, through
    \<open>ReadInstruction\<close>, the table, the callback and the advance of the program counter.

  \<^bold>\<open>Conventions.\<close> A fixed-width integer is a \<open>word\<close>, or a \<open>nat\<close> with \<open>mod\<close> written out where it is
  an address, an offset or a size. \<open>None\<close> of a result marked so is undefined behaviour of the
  program (an access outside a buffer, a shift that is too wide) or a loop that does not end
  (\<open>partial_function (option)\<close>); the theorems about results state that there is one. A
  failure that the code reports is a value: an unchanged offset, an error, \<open>False\<close>. Code outside
  the repository (LLVM's byte swaps, decompression, the process, the connection) is a
  parameter, and what the code relies on is a named hypothesis (\<open>platform_ok\<close>, \<open>page_source_ok\<close>,
  \<open>reads_all\<close>, \<open>plugin_ok\<close>, \<open>rounds_up\<close>, \<open>decodes\<close>).

  \<^bold>\<open>Bounds.\<close> No fuel is used: loops over buffers are structural or have a measure; the loops
  whose end depends on the environment or on the bytes read (\<open>AppendBytesToCache\<close>,
  \<open>ReadPacketWithOutputSupport\<close>, \<open>read_loop\<close>, \<open>cie_instructions\<close>, \<open>fde_index_loop\<close>, \<open>fde_loop\<close>,
  \<open>stop_loop\<close>, \<open>same_line_loop\<close>, \<open>hunt\<close>, \<open>swap_loop\<close>, \<open>ReadCStringFromMemory_string\<close>) are partial functions. Addresses are reduced modulo
  \<open>2 ^ 64\<close> and sizes in 32 bits modulo \<open>2 ^ 32\<close>; theorems about memory assume that a range does
  not wrap around.

  \<^bold>\<open>Not modelled.\<close> Logging, locks and the lifetime of shared buffers; the classes of the C++ and
  LLVM libraries beyond what these files use of them; sockets and threads (a read thread is the
  sequence of its calls). The rest of LLDB is listed with the reasons in the manifest of the
  development. Assertions (\<open>lldbassert\<close>, \<open>assert\<close>) are not
  executed; those of \<open>CopyByteOrderedData\<close> are a definition that its claim assumes. Of the ARM emulator, \<open>TestEmulation\<close> and \<open>LoadStateFromDictionary\<close>, which read a test file, and
  the registration of the plugin are not modelled. The rest of LLDB, among it object files, symbols, the
  compiler of expressions, commands, formatters, the packet server and the process plugins, is outside the
  core chosen here; most of it is glue to LLVM, Clang, the operating system or the debugged process.
\<close>

end
